(* ===== verification/Prelude.thy ===== *)
theory Prelude
  imports Complex_Main "HOL-Library.AList" "HOL-Library.Char_ord" "HOL-Library.List_Lexorder"
begin

text \<open>
  Shared vocabulary of the TraderStack development: how the Python values that every component
  uses are represented, and the generic lemmas the component theories rest on.

  \<^item> A \<open>float\<close> is a \<open>real\<close>: arithmetic is exact, there is no rounding, no NaN and no infinity
    except where a component writes them out (the venue numbers of \<open>Reconcile\<close>).
  \<^item> A \<open>datetime\<close> is the integer number of microseconds since the epoch in UTC, the resolution
    Python's \<open>datetime\<close> has; \<open>total_seconds\<close> converts a difference, \<open>utc_date\<close> is \<open>.date()\<close>.
  \<^item> A \<open>str\<close> is a \<open>string\<close>; the case mappings are those of ASCII text, which asset symbols and
    identifiers are.
  \<^item> A \<open>dict\<close> whose order or size matters is an association list with the operations of a Python
    dict: assignment to a present key keeps its place, a new key goes to the end.
\<close>

section \<open>Collections of simplification rules\<close>

named_theorems dict_simps \<open>lookup and update of association lists used as Python dicts\<close>
named_theorems str_simps \<open>evaluation of the string helpers on literals\<close>
named_theorems op_defs \<open>unfolding rules of the modelled operations\<close>

section \<open>Time\<close>

type_synonym datetime = int
type_synonym date = int

definition total_seconds :: "int \<Rightarrow> real" where
  "total_seconds d = of_int d / 1000000"

definition utc_date :: "datetime \<Rightarrow> date" where
  "utc_date t = t div 86400000000"

definition seconds :: "int \<Rightarrow> int" where
  "seconds s = s * 1000000"

section \<open>Strings\<close>

definition char_upper :: "char \<Rightarrow> char" where
  "char_upper c = (let n = (of_char c :: nat) in
     if 97 \<le> n \<and> n \<le> 122 then char_of (n - 32) else c)"

definition char_lower :: "char \<Rightarrow> char" where
  "char_lower c = (let n = (of_char c :: nat) in
     if 65 \<le> n \<and> n \<le> 90 then char_of (n + 32) else c)"

definition upper :: "string \<Rightarrow> string" where
  "upper s = map char_upper s"

definition lower :: "string \<Rightarrow> string" where
  "lower s = map char_lower s"

definition is_space :: "char \<Rightarrow> bool" where
  "is_space c = (let n = (of_char c :: nat) in n = 32 \<or> (9 \<le> n \<and> n \<le> 13) \<or> (28 \<le> n \<and> n \<le> 31))"

definition strip :: "string \<Rightarrow> string" where
  "strip s = rev (dropWhile is_space (rev (dropWhile is_space s)))"

fun split_on :: "char \<Rightarrow> string \<Rightarrow> string list" where
  "split_on sep [] = [[]]"
| "split_on sep (c # cs) =
     (if c = sep then [] # split_on sep cs
      else (case split_on sep cs of
              [] \<Rightarrow> [[c]]
            | w # ws \<Rightarrow> (c # w) # ws))"

definition startswith :: "string \<Rightarrow> string \<Rightarrow> bool" where
  "startswith s p = (take (length p) s = p)"

definition endswith :: "string \<Rightarrow> string \<Rightarrow> bool" where
  "endswith s p = (length p \<le> length s \<and> drop (length s - length p) s = p)"

definition removeprefix :: "string \<Rightarrow> string \<Rightarrow> string" where
  "removeprefix s p = (if startswith s p then drop (length p) s else s)"

fun contains_str :: "string \<Rightarrow> string \<Rightarrow> bool" where
  "contains_str [] p = (p = [])"
| "contains_str (c # cs) p = (startswith (c # cs) p \<or> contains_str cs p)"

text \<open>\<open>str(n)\<close> of a non-negative integer.\<close>

fun show_nat :: "nat \<Rightarrow> string" where
  "show_nat n = (if n < 10 then [char_of (48 + n)] else show_nat (n div 10) @ [char_of (48 + n mod 10)])"

declare show_nat.simps [simp del]

definition replace_char :: "char \<Rightarrow> char \<Rightarrow> string \<Rightarrow> string" where
  "replace_char a b s = map (\<lambda>c. if c = a then b else c) s"

text \<open>\<open>symbol.split("/", 1)[0]\<close>: the text before the first separator.\<close>

definition before :: "char \<Rightarrow> string \<Rightarrow> string" where
  "before sep s = takeWhile (\<lambda>c. c \<noteq> sep) s"

section \<open>Dictionaries\<close>

type_synonym 'v dict = "(string \<times> 'v) list"

abbreviation dict_get :: "'v dict \<Rightarrow> string \<Rightarrow> 'v option" where
  "dict_get d k \<equiv> map_of d k"

abbreviation dict_set :: "string \<Rightarrow> 'v \<Rightarrow> 'v dict \<Rightarrow> 'v dict" where
  "dict_set k v d \<equiv> AList.update k v d"

abbreviation dict_keys :: "'v dict \<Rightarrow> string list" where
  "dict_keys d \<equiv> map fst d"

abbreviation dict_vals :: "'v dict \<Rightarrow> 'v list" where
  "dict_vals d \<equiv> map snd d"

definition dict_get_or :: "'v dict \<Rightarrow> string \<Rightarrow> 'v \<Rightarrow> 'v" where
  "dict_get_or d k v = (case map_of d k of None \<Rightarrow> v | Some w \<Rightarrow> w)"

text \<open>A dict built from another by a comprehension that rewrites keys: later entries win.\<close>

definition dict_of :: "(string \<times> 'v) list \<Rightarrow> 'v dict" where
  "dict_of kvs = foldl (\<lambda>d kv. dict_set (fst kv) (snd kv) d) [] kvs"

section \<open>Lists and options\<close>

text \<open>\<open>xs[-n:]\<close>. For \<open>n = 0\<close> Python reads \<open>xs[-0:] = xs[0:]\<close>, the whole sequence.\<close>

definition tail_slice :: "nat \<Rightarrow> 'a list \<Rightarrow> 'a list" where
  "tail_slice n xs = (if n = 0 then xs else drop (length xs - n) xs)"

text \<open>\<open>x or y\<close> on an optional value.\<close>

definition opt_or :: "'a option \<Rightarrow> 'a \<Rightarrow> 'a" where
  "opt_or x y = (case x of None \<Rightarrow> y | Some v \<Rightarrow> v)"

text \<open>\<open>x or y\<close> on an optional text: the empty text is falsy too.\<close>

definition text_or :: "string option \<Rightarrow> string \<Rightarrow> string" where
  "text_or x y = (case x of None \<Rightarrow> y | Some t \<Rightarrow> if t = [] then y else t)"

definition py_sum :: "real list \<Rightarrow> real" where
  "py_sum xs = foldl (+) 0 xs"

text \<open>\<open>max(...)\<close> of a non-empty sequence.\<close>

definition py_max :: "real list \<Rightarrow> real" where
  "py_max xs = foldl max (hd xs) (tl xs)"

section \<open>Exceptions as values\<close>

text \<open>A computation that may raise; \<open>bindr\<close> is sequencing.\<close>

datatype py_error = ValueError | ZeroDivisionError | OverflowError

definition bindr :: "'e + 'a \<Rightarrow> ('a \<Rightarrow> 'e + 'b) \<Rightarrow> 'e + 'b" where
  "bindr x f = (case x of Inl e \<Rightarrow> Inl e | Inr a \<Rightarrow> f a)"

definition py_div :: "real \<Rightarrow> real \<Rightarrow> py_error + real" where
  "py_div a b = (if b = 0 then Inl ZeroDivisionError else Inr (a / b))"

section \<open>JSON values\<close>

text \<open>
  The values \<open>json.loads\<close> produces. A JSON number may parse to a non-finite float (\<open>1e400\<close>,
  \<open>NaN\<close>), which the venue adapters reject explicitly, so that case is kept.
\<close>

datatype pyfloat = Fin real | NonFinite

datatype json =
    JNull
  | JBool bool
  | JInt int
  | JFloat pyfloat
  | JStr string
  | JList "json list"
  | JObj "(string \<times> json) list"

section \<open>Lemmas on strings\<close>

lemmas str_eval [str_simps] =
  upper_def lower_def char_upper_def char_lower_def char_of_def bit_0
  strip_def is_space_def startswith_def endswith_def removeprefix_def before_def

lemma char_upper_idem [simp]: "char_upper (char_upper c) = char_upper c"
  by (auto simp: char_upper_def Let_def)

lemma upper_idem [simp]: "upper (upper s) = upper s"
  by (simp add: upper_def)

lemma upper_Nil_iff [simp]: "upper s = [] \<longleftrightarrow> s = []"
  by (simp add: upper_def)

lemma startswith_append [simp]: "startswith (p @ s) p"
  by (simp add: startswith_def)

lemma removeprefix_append [simp]: "removeprefix (p @ s) p = s"
  by (simp add: removeprefix_def)

lemma split_on_ne [simp]: "split_on c s \<noteq> []"
  by (induction s) (auto split: list.splits)

section \<open>Lemmas on dictionaries\<close>

declare update_conv' [dict_simps] distinct_update [dict_simps]

lemma update_absent: "k \<notin> set (map fst d) \<Longrightarrow> AList.update k v d = d @ [(k, v)]"
  by (induction d) auto

lemma dict_keys_update:
  "set (map fst (AList.update k v d)) = insert k (set (map fst d))"
  by (simp add: dom_update)

lemma dict_update_memb:
  "distinct (map fst d) \<Longrightarrow>
     (k', v') \<in> set (AList.update k v d) \<longleftrightarrow> (if k' = k then v' = v else (k', v') \<in> set d)"
  by (induction d) (force split: if_splits)+

lemma sum_list_update:
  fixes f :: "'k \<times> 'v \<Rightarrow> 'b::ab_group_add"
  shows "distinct (map fst d) \<Longrightarrow>
    sum_list (map f (AList.update k v d)) =
    sum_list (map f d) + f (k, v) - (case map_of d k of None \<Rightarrow> 0 | Some w \<Rightarrow> f (k, w))"
proof (induction d)
  case (Cons p d)
  obtain k' v' where p: "p = (k', v')" by (cases p)
  show ?case
  proof (cases "k' = k")
    case True
    with Cons.prems p have "map_of d k = None" by (simp add: map_of_eq_None_iff)
    with True p show ?thesis by simp
  next
    case False
    with Cons p show ?thesis by (simp split: option.splits)
  qed
qed simp

lemma foldl_dict_set_distinct:
  "distinct (map fst d) \<Longrightarrow>
     distinct (map fst (foldl (\<lambda>d kv. AList.update (fst kv) (snd kv) d) d kvs))"
  by (induction kvs arbitrary: d) (simp_all add: distinct_update)

lemma dict_of_distinct [simp]: "distinct (map fst (dict_of kvs))"
  by (simp add: dict_of_def foldl_dict_set_distinct)

lemma foldl_dict_set_fresh:
  "distinct (map fst (d @ kvs)) \<Longrightarrow>
     foldl (\<lambda>d kv. AList.update (fst kv) (snd kv) d) d kvs = d @ kvs"
proof (induction kvs arbitrary: d)
  case (Cons kv kvs)
  have "AList.update (fst kv) (snd kv) d = d @ [kv]"
    using Cons.prems by (subst update_absent) auto
  with Cons show ?case by simp
qed simp

lemma dict_of_id [simp]: "distinct (map fst kvs) \<Longrightarrow> dict_of kvs = kvs"
  using foldl_dict_set_fresh [of "[]" kvs] by (simp add: dict_of_def)

lemma map_of_SomeD_distinct:
  "distinct (map fst d) \<Longrightarrow> map_of d k = Some v \<longleftrightarrow> (k, v) \<in> set d"
  by (simp add: map_of_eq_Some_iff)

section \<open>Lemmas on lists and numbers\<close>

lemma foldl_plus: "foldl (+) a xs = a + sum_list (xs :: real list)"
  by (induction xs arbitrary: a) (simp_all add: add.assoc)

lemma py_sum_eq: "py_sum xs = sum_list xs"
  by (simp add: py_sum_def foldl_plus)

lemma py_sum_Nil [simp]: "py_sum [] = 0"
  by (simp add: py_sum_def)

lemma py_sum_Cons [simp]: "py_sum (x # xs) = x + py_sum xs"
  by (simp add: py_sum_eq)

lemma py_sum_nonneg: "(\<And>x. x \<in> set xs \<Longrightarrow> 0 \<le> x) \<Longrightarrow> 0 \<le> py_sum xs"
  by (simp add: py_sum_eq sum_list_nonneg)

lemma length_tail_slice: "0 < n \<Longrightarrow> length (tail_slice n xs) = min n (length xs)"
  by (simp add: tail_slice_def min_def)

lemma set_tail_slice: "set (tail_slice n xs) \<subseteq> set xs"
  by (auto simp: tail_slice_def dest: in_set_dropD)

lemma total_seconds_mono: "a \<le> b \<Longrightarrow> total_seconds a \<le> total_seconds b"
  by (simp add: total_seconds_def divide_right_mono)

lemma opt_or_simps [simp]: "opt_or None y = y" "opt_or (Some x) y = x"
  by (simp_all add: opt_or_def)

lemma bindr_simps [simp]: "bindr (Inl e) f = Inl e" "bindr (Inr a) f = f a"
  by (simp_all add: bindr_def)

lemma bindr_eq_Inr: "bindr x f = Inr b \<longleftrightarrow> (\<exists>a. x = Inr a \<and> f a = Inr b)"
  by (auto simp: bindr_def split: sum.splits)

lemma py_div_Inr [simp]: "b \<noteq> 0 \<Longrightarrow> py_div a b = Inr (a / b)"
  by (simp add: py_div_def)

lemma foldl_max_in: "foldl max a xs \<in> insert (a :: real) (set xs)"
proof (induction xs arbitrary: a)
  case (Cons x xs)
  from Cons [of "max a x"] show ?case by (auto simp: max_def split: if_splits)
qed simp

lemma foldl_max_ge: "x \<in> insert a (set xs) \<Longrightarrow> x \<le> foldl max (a :: real) xs"
proof (induction xs arbitrary: a x)
  case (Cons y xs)
  show ?case
  proof (cases "x \<in> set xs")
    case False
    with Cons.prems have "x \<le> max a y" by auto
    also have "max a y \<le> foldl max (max a y) xs" by (rule Cons.IH) simp
    finally show ?thesis by simp
  qed (use Cons.IH in simp)
qed simp

lemma py_max_in: "xs \<noteq> [] \<Longrightarrow> py_max xs \<in> set xs"
  using foldl_max_in [of "hd xs" "tl xs"] by (cases xs) (auto simp: py_max_def)

lemma py_max_ge: "x \<in> set xs \<Longrightarrow> x \<le> py_max xs"
  using foldl_max_ge [of x "hd xs" "tl xs"] by (cases xs) (auto simp: py_max_def)

lemma min_four_le:
  "min a (min b (min c d)) \<le> (a :: real)"
  "min a (min b (min c d)) \<le> b"
  "min a (min b (min c d)) \<le> c"
  "min a (min b (min c d)) \<le> d"
  by auto

end
