(* ===== verification/Domain.thy ===== *)
theory Domain
  imports Prelude
begin

text \<open>
  The value types every component exchanges (\<open>models.py\<close>): sides, risk decisions, trade
  proposals, portfolio snapshots and risk results. The constraints that pydantic enforces when a
  value is constructed (\<open>Field(gt=0)\<close>, \<open>Field(ge=0, le=1)\<close>, ...) are the \<open>_valid\<close> predicates.
\<close>

datatype side = BUY | SELL

datatype risk_decision = ALLOW | REDUCE | REJECT

record trade_proposal =
  tp_decision_id :: string
  tp_created_at :: datetime
  tp_strategy_id :: string
  tp_asset :: string
  tp_side :: side
  tp_confidence :: real
  tp_requested_notional_usd :: real
  tp_thesis :: string
  tp_signal_ids :: "string list"
  tp_source_freshness_seconds :: real
  tp_signal_version :: "string option"

definition proposal_valid :: "trade_proposal \<Rightarrow> bool" where
  "proposal_valid p \<longleftrightarrow>
     0 \<le> tp_confidence p \<and> tp_confidence p \<le> 1
   \<and> 0 < tp_requested_notional_usd p
   \<and> 0 \<le> tp_source_freshness_seconds p"

record held_position =
  hp_quantity :: real
  hp_average_cost_usd :: real
  hp_exposure_usd :: real
  hp_opened_at :: "datetime option"
  hp_high_water_price_usd :: real
  hp_entry_strategy_id :: "string option"

definition held_valid :: "held_position \<Rightarrow> bool" where
  "held_valid h \<longleftrightarrow>
     0 \<le> hp_quantity h \<and> 0 \<le> hp_average_cost_usd h \<and> 0 \<le> hp_exposure_usd h
   \<and> 0 \<le> hp_high_water_price_usd h"

record portfolio_snapshot =
  ps_nav_usd :: real
  ps_cash_usd :: real
  ps_daily_pnl_usd :: real
  ps_peak_nav_usd :: real
  ps_asset_exposure_usd :: "real dict"
  ps_observed_at :: datetime
  ps_held_positions :: "held_position dict"

definition snapshot_valid :: "portfolio_snapshot \<Rightarrow> bool" where
  "snapshot_valid s \<longleftrightarrow>
     0 < ps_nav_usd s \<and> 0 \<le> ps_cash_usd s \<and> 0 < ps_peak_nav_usd s
   \<and> list_all (\<lambda>(k, h). held_valid h) (ps_held_positions s)"

record 'r risk_result =
  rr_decision_id :: string
  rr_decision :: risk_decision
  rr_approved_notional_usd :: real
  rr_reasons :: "'r list"
  rr_policy_version :: string

definition result_valid :: "'r risk_result \<Rightarrow> bool" where
  "result_valid r \<longleftrightarrow> 0 \<le> rr_approved_notional_usd r"

end
