(* ===== verification/Market.thy ===== *)
theory Market
  imports Domain
begin

text \<open>
  Market observations (\<open>market/models.py\<close>) and the cross-source price validation
  (\<open>market/validation.py\<close>).
\<close>

section \<open>Data\<close>

datatype market_source = KRAKEN | COINGECKO | COINMARKETCAP | ROBINHOOD_CHAIN | BINANCE | BYBIT

definition source_str :: "market_source \<Rightarrow> string" where
  "source_str s = (case s of
     KRAKEN \<Rightarrow> ''kraken'' | COINGECKO \<Rightarrow> ''coingecko'' | COINMARKETCAP \<Rightarrow> ''coinmarketcap''
   | ROBINHOOD_CHAIN \<Rightarrow> ''robinhood_chain'' | BINANCE \<Rightarrow> ''binance'' | BYBIT \<Rightarrow> ''bybit'')"

record market_tick =
  tk_source :: market_source
  tk_symbol :: string
  tk_observed_at :: datetime
  tk_bid :: real
  tk_ask :: real
  tk_last :: real

definition tick_valid :: "market_tick \<Rightarrow> bool" where
  "tick_valid t \<longleftrightarrow> 0 < tk_bid t \<and> 0 < tk_ask t \<and> 0 < tk_last t"

definition tick_mid :: "market_tick \<Rightarrow> real" where
  "tick_mid t = (tk_bid t + tk_ask t) / 2"

definition spread_bps :: "market_tick \<Rightarrow> real" where
  "spread_bps t = (tk_ask t - tk_bid t) / tick_mid t * 10000"

record reference_price =
  rp_source :: market_source
  rp_asset :: string
  rp_currency :: string
  rp_observed_at :: datetime
  rp_price :: real

definition reference_valid :: "reference_price \<Rightarrow> bool" where
  "reference_valid r \<longleftrightarrow> 0 < rp_price r"

record price_divergence =
  pd_primary_source :: market_source
  pd_reference_source :: market_source
  pd_asset :: string
  pd_primary_price :: real
  pd_reference_price :: real
  pd_divergence_bps :: real

record book_level =
  lv_price :: real
  lv_qty :: real

record book_snapshot =
  bk_source :: market_source
  bk_symbol :: string
  bk_observed_at :: datetime
  bk_bids :: "book_level list"
  bk_asks :: "book_level list"

section \<open>Order-book depth\<close>

definition best_price :: "book_level list \<Rightarrow> real option" where
  "best_price ls = (case ls of [] \<Rightarrow> None | l # _ \<Rightarrow> Some (lv_price l))"

definition book_mid :: "book_snapshot \<Rightarrow> real option" where
  "book_mid b =
     (case (best_price (bk_bids b), best_price (bk_asks b)) of
        (Some bid, Some ask) \<Rightarrow> Some ((bid + ask) / 2)
      | _ \<Rightarrow> None)"

definition level_notional :: "book_level \<Rightarrow> real" where
  "level_notional l = lv_price l * lv_qty l"

definition depth_within_bps :: "real \<Rightarrow> book_snapshot \<Rightarrow> real \<times> real" where
  "depth_within_bps bps b =
     (case book_mid b of
        None \<Rightarrow> (0, 0)
      | Some m \<Rightarrow>
          if bps \<le> 0 then (0, 0)
          else
            (let bid_floor = m * (1 - bps / 10000); ask_ceiling = m * (1 + bps / 10000)
             in (py_sum (map level_notional (filter (\<lambda>l. bid_floor \<le> lv_price l) (bk_bids b))),
                 py_sum (map level_notional (filter (\<lambda>l. lv_price l \<le> ask_ceiling) (bk_asks b))))))"

section \<open>Cross-source validation\<close>

datatype market_error = DifferentAssets | DifferentCurrencies

definition calculate_divergence :: "reference_price \<Rightarrow> reference_price \<Rightarrow> market_error + price_divergence" where
  "calculate_divergence primary reference =
     (if rp_asset primary \<noteq> rp_asset reference then Inl DifferentAssets
      else if rp_currency primary \<noteq> rp_currency reference then Inl DifferentCurrencies
      else Inr \<lparr>pd_primary_source = rp_source primary, pd_reference_source = rp_source reference,
                pd_asset = rp_asset primary, pd_primary_price = rp_price primary,
                pd_reference_price = rp_price reference,
                pd_divergence_bps = \<bar>rp_price primary - rp_price reference\<bar> / rp_price primary * 10000\<rparr>)"

text \<open>\<open>all(...)\<close> stops at the first reference that fails; an exception before that escapes.\<close>

fun all_consistent :: "reference_price \<Rightarrow> real \<Rightarrow> reference_price list \<Rightarrow> market_error + bool" where
  "all_consistent primary max_bps [] = Inr True"
| "all_consistent primary max_bps (r # rs) =
     (case calculate_divergence primary r of
        Inl e \<Rightarrow> Inl e
      | Inr d \<Rightarrow> if pd_divergence_bps d \<le> max_bps then all_consistent primary max_bps rs else Inr False)"

definition independent_refs :: "reference_price list \<Rightarrow> reference_price list" where
  "independent_refs rs = filter (\<lambda>r. rp_source r \<noteq> KRAKEN) rs"

definition is_reference_consistent :: "reference_price \<Rightarrow> reference_price list \<Rightarrow> real \<Rightarrow> market_error + bool" where
  "is_reference_consistent primary references max_bps =
     (let eligible = independent_refs references
      in if eligible = [] then Inr False else all_consistent primary max_bps eligible)"

text \<open>The inner loop over \<open>j\<close> for one \<open>i\<close>, then the outer loop.\<close>

fun divergences_from :: "reference_price \<Rightarrow> real \<Rightarrow> reference_price list \<Rightarrow> market_error + price_divergence list" where
  "divergences_from a max_bps [] = Inr []"
| "divergences_from a max_bps (b # bs) =
     (if rp_source a = rp_source b then divergences_from a max_bps bs
      else case calculate_divergence a b of
             Inl e \<Rightarrow> Inl e
           | Inr d \<Rightarrow>
               (case divergences_from a max_bps bs of
                  Inl e \<Rightarrow> Inl e
                | Inr ds \<Rightarrow> Inr (if max_bps < pd_divergence_bps d then d # ds else ds)))"

fun all_divergences :: "real \<Rightarrow> reference_price list \<Rightarrow> market_error + price_divergence list" where
  "all_divergences max_bps [] = Inr []"
| "all_divergences max_bps (a # rest) =
     (case divergences_from a max_bps rest of
        Inl e \<Rightarrow> Inl e
      | Inr ds \<Rightarrow> (case all_divergences max_bps rest of Inl e \<Rightarrow> Inl e | Inr es \<Rightarrow> Inr (ds @ es)))"

definition pairwise_divergences ::
    "reference_price \<Rightarrow> reference_price list \<Rightarrow> real \<Rightarrow> market_error + price_divergence list" where
  "pairwise_divergences primary references max_bps = all_divergences max_bps (primary # independent_refs references)"

section \<open>Lemmas\<close>

definition same_quote :: "reference_price \<Rightarrow> reference_price \<Rightarrow> bool" where
  "same_quote a b \<longleftrightarrow> rp_asset a = rp_asset b \<and> rp_currency a = rp_currency b"

lemma calculate_divergence_Inr:
  "(\<exists>d. calculate_divergence a b = Inr d) \<longleftrightarrow> same_quote a b"
  by (simp add: calculate_divergence_def same_quote_def)

lemma all_consistent_True:
  "all_consistent p m rs = Inr True \<longleftrightarrow>
     list_all (\<lambda>r. same_quote p r \<and> \<bar>rp_price p - rp_price r\<bar> / rp_price p * 10000 \<le> m) rs"
  by (induction rs) (auto simp: calculate_divergence_def same_quote_def)

lemma is_reference_consistent_True:
  "is_reference_consistent p rs m = Inr True \<longleftrightarrow>
     independent_refs rs \<noteq> []
   \<and> list_all (\<lambda>r. same_quote p r \<and> \<bar>rp_price p - rp_price r\<bar> / rp_price p * 10000 \<le> m) (independent_refs rs)"
  unfolding is_reference_consistent_def Let_def all_consistent_True [symmetric] by simp

lemma divergences_from_total: "list_all (same_quote a) bs \<Longrightarrow> \<exists>ds. divergences_from a m bs = Inr ds"
  by (induction bs) (auto simp: calculate_divergence_def same_quote_def)

lemma all_divergences_total:
  "(\<And>a b. a \<in> set rs \<Longrightarrow> b \<in> set rs \<Longrightarrow> same_quote a b) \<Longrightarrow> \<exists>ds. all_divergences m rs = Inr ds"
proof (induction rs)
  case (Cons a rs)
  from Cons.prems divergences_from_total [of a rs m] obtain ds where "divergences_from a m rs = Inr ds"
    by (auto simp: list_all_iff)
  with Cons show ?case by auto
qed simp

text \<open>A consistent set of references never makes the divergence report raise.\<close>

lemma consistent_divergences_total:
  assumes "is_reference_consistent p rs m = Inr True"
  shows "\<exists>ds. pairwise_divergences p rs m = Inr ds"
proof -
  from assms have sq: "same_quote p r" if "r \<in> set (p # independent_refs rs)" for r
    using that by (auto simp: is_reference_consistent_True list_all_iff same_quote_def)
  show ?thesis unfolding pairwise_divergences_def
    by (rule all_divergences_total) (metis sq same_quote_def)
qed

end
