(* ===== verification/Features.thy ===== *)
theory Features
  imports Prelude
begin

text \<open>
  The feature vector the risk engine and the pipeline read (\<open>features.py\<close>), with the ranges
  pydantic enforces.
\<close>

record market_features =
  mf_trend_4h :: real
  mf_trend_1d :: real
  mf_volatility_z :: real
  mf_relative_volume :: real
  mf_spread_bps :: real
  mf_garch_forecast_vol :: "real option"
  mf_external_signal_score :: "real option"
  mf_external_signal_source :: "string option"

record onchain_features =
  oc_exchange_netflow_z :: "real option"
  oc_large_wallet_accumulation :: "real option"
  oc_mvrv_z :: "real option"
  oc_mvrv_z_percentile :: "real option"
  oc_nupl :: "real option"
  oc_regime_as_of :: "date option"
  oc_regime_version :: "string option"

record narrative_features =
  nf_mention_velocity_z :: "real option"
  nf_sentiment :: "real option"

record news_features =
  nw_event_score :: real
  nw_adverse_event :: bool

record research_edge_features =
  ef_liq_notional_long_z :: "real option"
  ef_liq_notional_short_z :: "real option"
  ef_liq_count_long :: "real option"
  ef_liq_count_short :: "real option"
  ef_cross_venue_mid_divergence_bps :: "real option"
  ef_cross_venue_mid_source :: "string option"

record asset_feature_vector =
  fv_asset :: string
  fv_observed_at :: datetime
  fv_market :: market_features
  fv_onchain :: onchain_features
  fv_narrative :: narrative_features
  fv_news :: news_features
  fv_edge :: research_edge_features
  fv_source_ids :: "string list"
  fv_schema_version :: string

definition opt_within :: "real \<Rightarrow> real \<Rightarrow> real option \<Rightarrow> bool" where
  "opt_within lo hi x = (case x of None \<Rightarrow> True | Some v \<Rightarrow> lo \<le> v \<and> v \<le> hi)"

definition opt_nonneg :: "real option \<Rightarrow> bool" where
  "opt_nonneg x = (case x of None \<Rightarrow> True | Some v \<Rightarrow> 0 \<le> v)"

definition market_valid :: "market_features \<Rightarrow> bool" where
  "market_valid m \<longleftrightarrow>
     \<bar>mf_trend_4h m\<bar> \<le> 1 \<and> \<bar>mf_trend_1d m\<bar> \<le> 1 \<and> 0 \<le> mf_relative_volume m
   \<and> 0 \<le> mf_spread_bps m \<and> opt_nonneg (mf_garch_forecast_vol m)
   \<and> opt_within (-1) 1 (mf_external_signal_score m)"

definition feature_vector_valid :: "asset_feature_vector \<Rightarrow> bool" where
  "feature_vector_valid v \<longleftrightarrow>
     market_valid (fv_market v)
   \<and> opt_within (-1) 1 (oc_large_wallet_accumulation (fv_onchain v))
   \<and> opt_within (-10) 10 (oc_mvrv_z (fv_onchain v))
   \<and> opt_within 0 1 (oc_mvrv_z_percentile (fv_onchain v))
   \<and> opt_within (-5) 1 (oc_nupl (fv_onchain v))
   \<and> opt_within (-1) 1 (nf_sentiment (fv_narrative v))
   \<and> 0 \<le> nw_event_score (fv_news v) \<and> nw_event_score (fv_news v) \<le> 1
   \<and> opt_within (-5) 5 (ef_liq_notional_long_z (fv_edge v))
   \<and> opt_within (-5) 5 (ef_liq_notional_short_z (fv_edge v))
   \<and> opt_within 0 1 (ef_liq_count_long (fv_edge v))
   \<and> opt_within 0 1 (ef_liq_count_short (fv_edge v))
   \<and> opt_nonneg (ef_cross_venue_mid_divergence_bps (fv_edge v))"

definition plain_features :: "string \<Rightarrow> datetime \<Rightarrow> market_features \<Rightarrow> asset_feature_vector" where
  "plain_features asset now m =
     \<lparr>fv_asset = asset, fv_observed_at = now, fv_market = m,
      fv_onchain = \<lparr>oc_exchange_netflow_z = None, oc_large_wallet_accumulation = None,
        oc_mvrv_z = None, oc_mvrv_z_percentile = None, oc_nupl = None, oc_regime_as_of = None,
        oc_regime_version = None\<rparr>,
      fv_narrative = \<lparr>nf_mention_velocity_z = None, nf_sentiment = None\<rparr>,
      fv_news = \<lparr>nw_event_score = 0, nw_adverse_event = False\<rparr>,
      fv_edge = \<lparr>ef_liq_notional_long_z = None, ef_liq_notional_short_z = None,
        ef_liq_count_long = None, ef_liq_count_short = None,
        ef_cross_venue_mid_divergence_bps = None, ef_cross_venue_mid_source = None\<rparr>,
      fv_source_ids = [], fv_schema_version = ''1.1''\<rparr>"

end
