(* ===== verification/Intelligence.thy ===== *)
theory Intelligence
  imports Features
begin

text \<open>
  External intelligence: the provider snapshots and their merge into a feature vector
  (\<open>intelligence.py\<close>), and the orchestrator that gathers them with a freshness cache
  (\<open>intelligence_orchestrator.py\<close>). A provider is a function from an asset to its answer, \<open>None\<close>
  when the call raised or returned something of another type. The concurrent fetches of one gather
  use distinct cache keys, so they are written in sequence; \<open>now\<close> is the clock of that gather.
\<close>

section \<open>Snapshots\<close>

record onchain_snapshot =
  on_asset :: string
  on_observed_at :: datetime
  on_exchange_netflow_z :: "real option"
  on_large_wallet_accumulation :: "real option"
  on_source_id :: string

record social_snapshot =
  so_asset :: string
  so_observed_at :: datetime
  so_sentiment :: "real option"
  so_mention_velocity_z :: "real option"
  so_source_id :: string

record news_snapshot =
  ne_asset :: string
  ne_observed_at :: datetime
  ne_event_score :: real
  ne_adverse_event :: bool
  ne_item_count :: nat
  ne_source_id :: string

record altfins_snapshot =
  al_asset :: string
  al_observed_at :: datetime
  al_score :: "real option"
  al_source_id :: string

record regime_snapshot =
  rs_asset :: string
  rs_source_asset :: string
  rs_observed_at :: datetime
  rs_as_of :: date
  rs_mvrv_z :: "real option"
  rs_mvrv_z_percentile :: "real option"
  rs_nupl :: "real option"
  rs_points :: nat
  rs_window_days :: nat
  rs_feature_version :: string
  rs_source_id :: string

datatype intel_snapshot =
    SnOnchain onchain_snapshot
  | SnSocial social_snapshot
  | SnNews news_snapshot
  | SnAltfins altfins_snapshot
  | SnRegime regime_snapshot

section \<open>Research observations\<close>

text \<open>A payload value; a date is kept as the value its ISO text renders.\<close>

datatype scalar = SNull | SReal real | SInt int | SBool bool | SText string | SIsoDate date

datatype observation_type = OT_onchain | OT_social | OT_news | OT_altfins | OT_onchain_regime

record observation =
  ob_asset :: string
  ob_observed_at :: datetime
  ob_source_id :: string
  ob_type :: observation_type
  ob_schema_version :: string
  ob_payload :: "scalar dict"

fun allowed_payload_fields :: "observation_type \<Rightarrow> string list" where
  "allowed_payload_fields OT_onchain = [''exchange_netflow_z'', ''large_wallet_accumulation'']"
| "allowed_payload_fields OT_social = [''sentiment'', ''mention_velocity_z'']"
| "allowed_payload_fields OT_news = [''event_score'', ''adverse_event'', ''item_count'']"
| "allowed_payload_fields OT_altfins = [''score'']"
| "allowed_payload_fields OT_onchain_regime =
     [''source_asset'', ''as_of'', ''mvrv_z'', ''mvrv_z_percentile'', ''nupl'', ''points'', ''window_days'',
      ''feature_version'']"

definition unsafe_text :: "scalar \<Rightarrow> bool" where
  "unsafe_text v =
     (case v of
        SText t \<Rightarrow> 64 < length t \<or> CHR 0x0A \<in> set t \<or> CHR 0x0D \<in> set t
      | _ \<Rightarrow> False)"

definition observation_valid :: "observation \<Rightarrow> bool" where
  "observation_valid b \<longleftrightarrow>
     1 \<le> length (ob_asset b) \<and> length (ob_asset b) \<le> 32
   \<and> 1 \<le> length (ob_source_id b) \<and> length (ob_source_id b) \<le> 128
   \<and> 1 \<le> length (ob_schema_version b) \<and> length (ob_schema_version b) \<le> 32
   \<and> list_all (\<lambda>(k, v). k \<in> set (allowed_payload_fields (ob_type b)) \<and> \<not> unsafe_text v) (ob_payload b)"

definition opt_scalar :: "real option \<Rightarrow> scalar" where
  "opt_scalar x = (case x of None \<Rightarrow> SNull | Some r \<Rightarrow> SReal r)"

definition checked :: "observation \<Rightarrow> py_error + observation" where
  "checked b = (if observation_valid b then Inr b else Inl ValueError)"

definition observe :: "string \<Rightarrow> datetime \<Rightarrow> string \<Rightarrow> observation_type \<Rightarrow> scalar dict \<Rightarrow> py_error + observation" where
  "observe asset observed_at source_id ot payload =
     checked \<lparr>ob_asset = upper asset, ob_observed_at = observed_at, ob_source_id = source_id,
       ob_type = ot, ob_schema_version = ''1.0'', ob_payload = payload\<rparr>"

fun normalize_intelligence_snapshot :: "intel_snapshot \<Rightarrow> py_error + observation" where
  "normalize_intelligence_snapshot (SnOnchain s) =
     observe (on_asset s) (on_observed_at s) (on_source_id s) OT_onchain
       [(''exchange_netflow_z'', opt_scalar (on_exchange_netflow_z s)),
        (''large_wallet_accumulation'', opt_scalar (on_large_wallet_accumulation s))]"
| "normalize_intelligence_snapshot (SnSocial s) =
     observe (so_asset s) (so_observed_at s) (so_source_id s) OT_social
       [(''sentiment'', opt_scalar (so_sentiment s)),
        (''mention_velocity_z'', opt_scalar (so_mention_velocity_z s))]"
| "normalize_intelligence_snapshot (SnNews s) =
     observe (ne_asset s) (ne_observed_at s) (ne_source_id s) OT_news
       [(''event_score'', SReal (ne_event_score s)), (''adverse_event'', SBool (ne_adverse_event s)),
        (''item_count'', SInt (int (ne_item_count s)))]"
| "normalize_intelligence_snapshot (SnAltfins s) =
     observe (al_asset s) (al_observed_at s) (al_source_id s) OT_altfins [(''score'', opt_scalar (al_score s))]"
| "normalize_intelligence_snapshot (SnRegime s) =
     observe (rs_asset s) (rs_observed_at s) (rs_source_id s) OT_onchain_regime
       [(''source_asset'', SText (rs_source_asset s)), (''as_of'', SIsoDate (rs_as_of s)),
        (''mvrv_z'', opt_scalar (rs_mvrv_z s)), (''mvrv_z_percentile'', opt_scalar (rs_mvrv_z_percentile s)),
        (''nupl'', opt_scalar (rs_nupl s)), (''points'', SInt (int (rs_points s))),
        (''window_days'', SInt (int (rs_window_days s))), (''feature_version'', SText (rs_feature_version s))]"

section \<open>Merge into the feature vector\<close>

definition opt_list :: "'a option \<Rightarrow> 'a list" where
  "opt_list x = (case x of None \<Rightarrow> [] | Some v \<Rightarrow> [v])"

definition opt_bind :: "('a \<Rightarrow> 'b option) \<Rightarrow> 'a option \<Rightarrow> 'b option" where
  "opt_bind f x = (case x of None \<Rightarrow> None | Some v \<Rightarrow> f v)"

text \<open>
  The slices built here are validated as they are constructed; the market slice was validated by
  its own constructor, and neither \<open>model_copy(update=...)\<close> nor nesting validates it again.
\<close>

definition slices_valid :: "asset_feature_vector \<Rightarrow> bool" where
  "slices_valid v \<longleftrightarrow>
     opt_within (-1) 1 (oc_large_wallet_accumulation (fv_onchain v))
   \<and> opt_within (-10) 10 (oc_mvrv_z (fv_onchain v)) \<and> opt_within 0 1 (oc_mvrv_z_percentile (fv_onchain v))
   \<and> opt_within (-5) 1 (oc_nupl (fv_onchain v)) \<and> opt_within (-1) 1 (nf_sentiment (fv_narrative v))
   \<and> 0 \<le> nw_event_score (fv_news v) \<and> nw_event_score (fv_news v) \<le> 1"

definition merge_external_intelligence ::
    "string \<Rightarrow> datetime \<Rightarrow> market_features \<Rightarrow> onchain_snapshot option \<Rightarrow> social_snapshot option
       \<Rightarrow> news_snapshot option \<Rightarrow> altfins_snapshot option \<Rightarrow> regime_snapshot option
       \<Rightarrow> py_error + asset_feature_vector" where
  "merge_external_intelligence asset now market onchain social news altfins rg =
     (let source_ids = map on_source_id (opt_list onchain) @ map so_source_id (opt_list social)
            @ map ne_source_id (opt_list news) @ map rs_source_id (opt_list rg)
            @ map al_source_id (opt_list altfins);
          market1 = (case altfins of
              None \<Rightarrow> market
            | Some a \<Rightarrow> market\<lparr>mf_external_signal_score := al_score a,
                               mf_external_signal_source := Some (al_source_id a)\<rparr>);
          v = \<lparr>fv_asset = upper asset, fv_observed_at = now, fv_market = market1,
            fv_onchain = \<lparr>oc_exchange_netflow_z = opt_bind on_exchange_netflow_z onchain,
              oc_large_wallet_accumulation = opt_bind on_large_wallet_accumulation onchain,
              oc_mvrv_z = opt_bind rs_mvrv_z rg, oc_mvrv_z_percentile = opt_bind rs_mvrv_z_percentile rg,
              oc_nupl = opt_bind rs_nupl rg, oc_regime_as_of = map_option rs_as_of rg,
              oc_regime_version = map_option rs_feature_version rg\<rparr>,
            fv_narrative = \<lparr>nf_mention_velocity_z = opt_bind so_mention_velocity_z social,
              nf_sentiment = opt_bind so_sentiment social\<rparr>,
            fv_news = \<lparr>nw_event_score = (case news of None \<Rightarrow> 0 | Some n \<Rightarrow> ne_event_score n),
              nw_adverse_event = (case news of None \<Rightarrow> False | Some n \<Rightarrow> ne_adverse_event n)\<rparr>,
            fv_edge = \<lparr>ef_liq_notional_long_z = None, ef_liq_notional_short_z = None,
              ef_liq_count_long = None, ef_liq_count_short = None,
              ef_cross_venue_mid_divergence_bps = None, ef_cross_venue_mid_source = None\<rparr>,
            fv_source_ids = source_ids, fv_schema_version = ''1.1''\<rparr>
      in if slices_valid v then Inr v else Inl ValueError)"

section \<open>The bundle of one cycle\<close>

record external_intelligence =
  xi_asset :: string
  xi_onchain :: "onchain_snapshot option"
  xi_social :: "social_snapshot option"
  xi_news :: "news_snapshot option"
  xi_altfins :: "altfins_snapshot option"
  xi_provider_unavailable :: bool
  xi_onchain_regime :: "regime_snapshot option"
  xi_observations :: "observation list"

definition xi_source_ids :: "external_intelligence \<Rightarrow> string list" where
  "xi_source_ids x =
     map on_source_id (opt_list (xi_onchain x)) @ map so_source_id (opt_list (xi_social x))
   @ map ne_source_id (opt_list (xi_news x)) @ map al_source_id (opt_list (xi_altfins x))
   @ map rs_source_id (opt_list (xi_onchain_regime x))"

definition xi_is_empty :: "external_intelligence \<Rightarrow> bool" where
  "xi_is_empty x \<longleftrightarrow> xi_onchain x = None \<and> xi_social x = None \<and> xi_news x = None \<and> xi_altfins x = None"

section \<open>The orchestrator\<close>

datatype cached =
    CSnap intel_snapshot
  | CBundle news_snapshot "news_snapshot list"

fun cached_observed_at :: "cached \<Rightarrow> datetime" where
  "cached_observed_at (CSnap (SnOnchain s)) = on_observed_at s"
| "cached_observed_at (CSnap (SnSocial s)) = so_observed_at s"
| "cached_observed_at (CSnap (SnNews s)) = ne_observed_at s"
| "cached_observed_at (CSnap (SnAltfins s)) = al_observed_at s"
| "cached_observed_at (CSnap (SnRegime s)) = rs_observed_at s"
| "cached_observed_at (CBundle n ss) = ne_observed_at n"

record intelligence_cache =
  ic_max_age_seconds :: real
  ic_values :: "cached dict"

text \<open>\<open>expect\<close> is the type test: it projects a cached value of the expected type.\<close>

definition cache_get :: "(cached \<Rightarrow> 'a option) \<Rightarrow> datetime \<Rightarrow> string \<Rightarrow> intelligence_cache \<Rightarrow> 'a option" where
  "cache_get expect now key c =
     (case dict_get (ic_values c) key of
        None \<Rightarrow> None
      | Some v \<Rightarrow>
          (case expect v of
             None \<Rightarrow> None
           | Some x \<Rightarrow>
               if total_seconds (now - cached_observed_at v) \<le> ic_max_age_seconds c then Some x else None))"

definition cache_put :: "string \<Rightarrow> cached \<Rightarrow> intelligence_cache \<Rightarrow> intelligence_cache" where
  "cache_put key v c = c\<lparr>ic_values := dict_set key v (ic_values c)\<rparr>"

type_synonym 'a fetcher = "string \<Rightarrow> 'a option"

record orchestrator =
  io_onchain :: "onchain_snapshot fetcher option"
  io_social :: "social_snapshot fetcher option"
  io_news :: "news_snapshot fetcher list"
  io_require_any_external :: bool
  io_altfins :: "altfins_snapshot fetcher option"
  io_fail_closed_news :: "news_snapshot fetcher list"
  io_onchain_regime :: "regime_snapshot fetcher option"

definition fetch_one ::
    "(cached \<Rightarrow> 'a option) \<Rightarrow> ('a \<Rightarrow> cached) \<Rightarrow> string \<Rightarrow> datetime \<Rightarrow> string \<Rightarrow> 'a fetcher option
       \<Rightarrow> intelligence_cache \<Rightarrow> 'a option \<times> intelligence_cache" where
  "fetch_one expect inject kind now asset fetcher c =
     (let key = kind @ '':'' @ asset
      in case cache_get expect now key c of
           Some x \<Rightarrow> (Some x, c)
         | None \<Rightarrow>
             (case fetcher of
                None \<Rightarrow> (None, c)
              | Some f \<Rightarrow>
                  (case f asset of
                     None \<Rightarrow> (None, c)
                   | Some v \<Rightarrow> (Some v, cache_put key (inject v) c))))"

definition join_plus :: "string list \<Rightarrow> string" where
  "join_plus xs = concat (map (\<lambda>(i, x). if i = 0 then x else ''+'' @ x) (enumerate 0 xs))"

definition combine_news :: "string \<Rightarrow> news_snapshot list \<Rightarrow> news_snapshot" where
  "combine_news asset ss =
     \<lparr>ne_asset = asset,
      ne_observed_at = foldl max (ne_observed_at (hd ss)) (map ne_observed_at (tl ss)),
      ne_event_score = py_max (map ne_event_score ss),
      ne_adverse_event = list_ex ne_adverse_event ss,
      ne_item_count = sum_list (map ne_item_count ss),
      ne_source_id = join_plus (map ne_source_id ss)\<rparr>"

fun as_bundle :: "cached \<Rightarrow> (news_snapshot \<times> news_snapshot list) option" where
  "as_bundle (CBundle n ss) = Some (n, ss)"
| "as_bundle _ = None"

definition news_key :: "string \<Rightarrow> string" where
  "news_key asset = ''news_bundle:'' @ asset"

definition fetch_news ::
    "orchestrator \<Rightarrow> datetime \<Rightarrow> string \<Rightarrow> intelligence_cache
       \<Rightarrow> (news_snapshot option \<times> bool \<times> news_snapshot list) \<times> intelligence_cache" where
  "fetch_news R now asset c =
     (case cache_get as_bundle now (news_key asset) c of
        Some (n, ss) \<Rightarrow> ((Some n, False, ss), c)
      | None \<Rightarrow>
          if io_news R = [] \<and> io_fail_closed_news R = [] then ((None, False, []), c)
          else
            (let optional = List.map_filter (\<lambda>f. f asset) (io_news R);
                 closed = map (\<lambda>f. f asset) (io_fail_closed_news R);
                 snapshots = optional @ List.map_filter (\<lambda>r. r) closed;
                 unavailable = list_ex (\<lambda>r. r = None) closed
             in if snapshots = [] then ((None, unavailable, []), c)
                else
                  (let combined = combine_news asset snapshots
                   in ((Some combined, unavailable, snapshots),
                       if unavailable then c
                       else cache_put (news_key asset) (CBundle combined snapshots) c))))"

fun as_onchain :: "cached \<Rightarrow> onchain_snapshot option" where
  "as_onchain (CSnap (SnOnchain s)) = Some s"
| "as_onchain _ = None"

fun as_social :: "cached \<Rightarrow> social_snapshot option" where
  "as_social (CSnap (SnSocial s)) = Some s"
| "as_social _ = None"

fun as_altfins :: "cached \<Rightarrow> altfins_snapshot option" where
  "as_altfins (CSnap (SnAltfins s)) = Some s"
| "as_altfins _ = None"

fun as_regime :: "cached \<Rightarrow> regime_snapshot option" where
  "as_regime (CSnap (SnRegime s)) = Some s"
| "as_regime _ = None"

fun normalize_all :: "intel_snapshot list \<Rightarrow> py_error + observation list" where
  "normalize_all [] = Inr []"
| "normalize_all (s # ss) =
     bindr (normalize_intelligence_snapshot s) (\<lambda>b. bindr (normalize_all ss) (\<lambda>bs. Inr (b # bs)))"

datatype gather_error = GatherValue py_error | AllProvidersUnavailable

definition gather ::
    "orchestrator \<Rightarrow> datetime \<Rightarrow> string \<Rightarrow> intelligence_cache
       \<Rightarrow> (gather_error + external_intelligence) \<times> intelligence_cache" where
  "gather R now asset c =
     (let symb = upper asset;
          (onchain, c1) = fetch_one as_onchain (\<lambda>s. CSnap (SnOnchain s)) ''onchain'' now symb (io_onchain R) c;
          (social, c2) = fetch_one as_social (\<lambda>s. CSnap (SnSocial s)) ''social'' now symb (io_social R) c1;
          (altfins, c3) = fetch_one as_altfins (\<lambda>s. CSnap (SnAltfins s)) ''altfins'' now symb (io_altfins R) c2;
          (rg, c4) = fetch_one as_regime (\<lambda>s. CSnap (SnRegime s)) ''onchain_regime'' now symb (io_onchain_regime R) c3;
          ((news, unavailable, items), c5) = fetch_news R now symb c4;
          snaps = map SnOnchain (opt_list onchain) @ map SnSocial (opt_list social) @ map SnNews items
            @ map SnAltfins (opt_list altfins) @ map SnRegime (opt_list rg)
      in (case normalize_all snaps of
            Inl e \<Rightarrow> Inl (GatherValue e)
          | Inr obs \<Rightarrow>
              (let bundle = \<lparr>xi_asset = symb, xi_onchain = onchain, xi_social = social, xi_news = news,
                     xi_altfins = altfins, xi_provider_unavailable = unavailable, xi_onchain_regime = rg,
                     xi_observations = obs\<rparr>
               in if io_require_any_external R \<and> xi_is_empty bundle \<and> \<not> unavailable
                  then Inl AllProvidersUnavailable else Inr bundle), c5))"

section \<open>Lemmas\<close>

lemma merge_fields:
  assumes "merge_external_intelligence asset now market onchain social news altfins rg = Inr v"
  shows "fv_asset v = upper asset"
    and "nw_adverse_event (fv_news v) = (case news of None \<Rightarrow> False | Some n \<Rightarrow> ne_adverse_event n)"
    and "oc_mvrv_z_percentile (fv_onchain v) = opt_bind rs_mvrv_z_percentile rg"
    and "mf_spread_bps (fv_market v) = mf_spread_bps market"
    and "mf_volatility_z (fv_market v) = mf_volatility_z market"
    and "mf_garch_forecast_vol (fv_market v) = mf_garch_forecast_vol market"
  using assms by (auto simp: merge_external_intelligence_def Let_def split: if_splits option.splits)

lemma cache_get_put_other:
  "key \<noteq> k \<Longrightarrow> cache_get expect now k (cache_put key v c) = cache_get expect now k c"
  by (auto simp: cache_get_def cache_put_def update_conv' split: option.splits)

text \<open>A slot touches only the cache entry of its own kind.\<close>

lemma fetch_one_other:
  assumes "fetch_one expect inject kind now asset f c = (x, c')" "kind @ '':'' @ asset \<noteq> k"
  shows "dict_get (ic_values c') k = dict_get (ic_values c) k" "ic_max_age_seconds c' = ic_max_age_seconds c"
  using assms
  by (auto simp: fetch_one_def Let_def cache_put_def update_conv' split: option.splits)

lemma map_filter_memb: "x \<in> set (List.map_filter f xs) \<longleftrightarrow> (\<exists>y \<in> set xs. f y = Some x)"
  by (induction xs) (auto split: option.splits)

lemma fetch_news_outage:
  assumes "cache_get as_bundle now (news_key asset) c = None"
    and "f \<in> set (io_fail_closed_news R)" "f asset = None"
  shows "\<exists>n ss. fetch_news R now asset c = ((n, True, ss), c)"
proof -
  have "list_ex (\<lambda>r. r = None) (map (\<lambda>f. f asset) (io_fail_closed_news R))"
    unfolding list_ex_iff set_map using assms(2,3) by (metis image_eqI)
  moreover have "io_fail_closed_news R \<noteq> []" using assms(2) by auto
  ultimately show ?thesis using assms(1) by (simp add: fetch_news_def Let_def)
qed

lemma combine_news_adverse: "ne_adverse_event (combine_news asset ss) \<longleftrightarrow> list_ex ne_adverse_event ss"
  by (simp add: combine_news_def)

lemma fetch_news_adverse:
  assumes "cache_get as_bundle now (news_key asset) c = None"
    and "f \<in> set (io_news R) \<union> set (io_fail_closed_news R)" "f asset = Some n" "ne_adverse_event n"
  shows "\<exists>m u ss c'. fetch_news R now asset c = ((Some m, u, ss), c') \<and> ne_adverse_event m"
proof -
  let ?s = "List.map_filter (\<lambda>f. f asset) (io_news R)
    @ List.map_filter (\<lambda>r. r) (map (\<lambda>f. f asset) (io_fail_closed_news R))"
  have n: "n \<in> set ?s" unfolding set_append Un_iff map_filter_memb set_map bex_simps(7)
    using assms(2,3) by (metis Un_iff)
  then have "?s \<noteq> []" "list_ex ne_adverse_event ?s" using assms(4) by (auto simp: list_ex_iff)
  moreover have "io_news R \<noteq> [] \<or> io_fail_closed_news R \<noteq> []" using assms(2) by auto
  ultimately show ?thesis using assms(1)
    by (simp add: fetch_news_def Let_def combine_news_adverse)
qed

lemma gather_parts:
  assumes "gather R now asset c = (r, c')"
  obtains c4 onchain social altfins rg n u ss where
    "fetch_news R now (upper asset) c4 = ((n, u, ss), c')"
    "dict_get (ic_values c4) (news_key (upper asset)) = dict_get (ic_values c) (news_key (upper asset))"
    "ic_max_age_seconds c4 = ic_max_age_seconds c"
    "\<And>x. r = Inr x \<Longrightarrow> xi_asset x = upper asset \<and> xi_news x = n \<and> xi_provider_unavailable x = u"
proof -
  let ?a = "upper asset"
  obtain x1 c1 where f1: "fetch_one as_onchain (\<lambda>s. CSnap (SnOnchain s)) ''onchain'' now ?a (io_onchain R) c = (x1, c1)"
    by (metis prod.exhaust)
  obtain x2 c2 where f2: "fetch_one as_social (\<lambda>s. CSnap (SnSocial s)) ''social'' now ?a (io_social R) c1 = (x2, c2)"
    by (metis prod.exhaust)
  obtain x3 c3 where f3: "fetch_one as_altfins (\<lambda>s. CSnap (SnAltfins s)) ''altfins'' now ?a (io_altfins R) c2 = (x3, c3)"
    by (metis prod.exhaust)
  obtain x4 c4 where f4:
    "fetch_one as_regime (\<lambda>s. CSnap (SnRegime s)) ''onchain_regime'' now ?a (io_onchain_regime R) c3 = (x4, c4)"
    by (metis prod.exhaust)
  obtain n u ss c5 where f5: "fetch_news R now ?a c4 = ((n, u, ss), c5)" by (metis prod.exhaust)
  note fs = f1 f2 f3 f4 f5
  have k: "''onchain'' @ '':'' @ ?a \<noteq> news_key ?a" "''social'' @ '':'' @ ?a \<noteq> news_key ?a"
    "''altfins'' @ '':'' @ ?a \<noteq> news_key ?a" "''onchain_regime'' @ '':'' @ ?a \<noteq> news_key ?a"
    by (simp_all add: news_key_def)
  have "c' = c5" and r: "\<And>x. r = Inr x \<Longrightarrow> xi_asset x = ?a \<and> xi_news x = n \<and> xi_provider_unavailable x = u"
    using assms by (auto simp: gather_def fs Let_def split: sum.splits if_splits)
  with that [OF _ _ _ r] f5 fetch_one_other [OF f1 k(1)] fetch_one_other [OF f2 k(2)]
    fetch_one_other [OF f3 k(3)] fetch_one_other [OF f4 k(4)]
  show thesis by simp
qed

lemma cache_get_cong:
  "dict_get (ic_values c) k = dict_get (ic_values c') k \<Longrightarrow> ic_max_age_seconds c = ic_max_age_seconds c' \<Longrightarrow>
     cache_get e now k c = cache_get e now k c'"
  by (auto simp: cache_get_def split: option.splits)

text \<open>
  A fail-closed news provider that errors is reported as unavailable in the same cycle, and the
  outage is not remembered as "no news": the cached bundle is left as it was.
\<close>

lemma gather_outage:
  assumes "gather R now asset c = (Inr x, c')"
    and "cache_get as_bundle now (news_key (upper asset)) c = None"
    and "f \<in> set (io_fail_closed_news R)" "f (upper asset) = None"
  shows "xi_provider_unavailable x
    \<and> dict_get (ic_values c') (news_key (upper asset)) = dict_get (ic_values c) (news_key (upper asset))"
proof -
  from assms(1) obtain c4 n u ss where g:
    "fetch_news R now (upper asset) c4 = ((n, u, ss), c')"
    "dict_get (ic_values c4) (news_key (upper asset)) = dict_get (ic_values c) (news_key (upper asset))"
    "ic_max_age_seconds c4 = ic_max_age_seconds c" "xi_provider_unavailable x = u"
    by (rule gather_parts) auto
  have "cache_get as_bundle now (news_key (upper asset)) c4 = None"
    using assms(2) cache_get_cong [OF g(2,3), of as_bundle now] by simp
  from fetch_news_outage [OF this assms(3,4)] g show ?thesis by auto
qed

lemma gather_adverse:
  assumes "gather R now asset c = (Inr x, c')"
    and "cache_get as_bundle now (news_key (upper asset)) c = None"
    and "f \<in> set (io_news R) \<union> set (io_fail_closed_news R)" "f (upper asset) = Some n" "ne_adverse_event n"
  shows "\<exists>m. xi_news x = Some m \<and> ne_adverse_event m"
proof -
  from assms(1) obtain c4 m u ss where g:
    "fetch_news R now (upper asset) c4 = ((m, u, ss), c')"
    "dict_get (ic_values c4) (news_key (upper asset)) = dict_get (ic_values c) (news_key (upper asset))"
    "ic_max_age_seconds c4 = ic_max_age_seconds c" "xi_news x = m"
    by (rule gather_parts) auto
  have "cache_get as_bundle now (news_key (upper asset)) c4 = None"
    using assms(2) cache_get_cong [OF g(2,3), of as_bundle now] by simp
  from fetch_news_adverse [OF this assms(3-5)] g show ?thesis by auto
qed

end
