(* ===== verification/Contracts.thy ===== *)
theory Contracts
  imports Prelude
begin

text \<open>
  The interfaces of the development: contracts that several components share, each a locale
  whose lemmas are proved once from its laws. Every locale is interpreted on the model's own
  operations in the theory of the component that provides them.

  \<^item> \<open>at_most_once\<close>: an event is applied at most once per key, replays are no-ops (the fill
    ledger and the paper filler); \<open>exactly_keyed\<close> is its stronger form for the fill ledger.
  \<^item> \<open>gated\<close>: a stage of the decision pipeline may withhold or shrink what it was given and never
    creates or enlarges it (risk engine, meta review, pre-trade gate).
  \<^item> \<open>budgeted\<close>: a counter with a per-window limit (reviewer budget, provider quota).
  \<^item> \<open>lifecycle\<close>: a state machine whose legal moves never lower a rank.
\<close>

section \<open>At-most-once application\<close>

text \<open>Deliver a sequence of events to an operation that reports whether it applied the event;
  the result is the final state and the events that were applied.\<close>

fun run_all :: "('e \<Rightarrow> 's \<Rightarrow> 's \<times> bool) \<Rightarrow> 'e list \<Rightarrow> 's \<Rightarrow> 's \<times> 'e list" where
  "run_all act [] s = (s, [])"
| "run_all act (e # es) s =
     (let (s1, b) = act e s; (s2, acc) = run_all act es s1
      in (s2, if b then e # acc else acc))"

locale at_most_once =
  fixes inv :: "'s \<Rightarrow> bool"
    and seen :: "'s \<Rightarrow> 'k \<Rightarrow> bool"
    and key :: "'e \<Rightarrow> 'k"
    and act :: "'e \<Rightarrow> 's \<Rightarrow> 's \<times> bool"
  assumes replay: "inv s \<Longrightarrow> seen s (key e) \<Longrightarrow> act e s = (s, False)"
    and applied: "inv s \<Longrightarrow> act e s = (s', True) \<Longrightarrow> seen s' (key e)"
    and remembers: "inv s \<Longrightarrow> act e s = (s', b) \<Longrightarrow> seen s k \<Longrightarrow> seen s' k"
    and keeps: "inv s \<Longrightarrow> act e s = (s', b) \<Longrightarrow> inv s'"
begin

lemma run_Cons:
  assumes "act x s = (s1, b)"
  shows "fst (run_all act (x # es) s) = fst (run_all act es s1)"
    and "snd (run_all act (x # es) s) = (if b then x # snd (run_all act es s1) else snd (run_all act es s1))"
  using assms by (simp_all add: case_prod_beta Let_def)

lemma run_keeps:
  assumes "inv s"
  shows "inv (fst (run_all act es s))
    \<and> (\<forall>k. seen s k \<longrightarrow> seen (fst (run_all act es s)) k)
    \<and> (\<forall>e \<in> set (snd (run_all act es s)). seen (fst (run_all act es s)) (key e))"
  using assms
proof (induction es arbitrary: s)
  case (Cons x es)
  obtain s1 b where a: "act x s = (s1, b)" by (cases "act x s")
  have "b \<Longrightarrow> seen s1 (key x)" using applied [OF Cons.prems] a by simp
  with Cons.IH [OF keeps [OF Cons.prems a]] remembers [OF Cons.prems a] show ?case
    unfolding run_Cons [OF a] by auto
qed simp

lemma run_fresh: "inv s \<Longrightarrow> e \<in> set (snd (run_all act es s)) \<Longrightarrow> \<not> seen s (key e)"
proof (induction es arbitrary: s)
  case (Cons x es)
  obtain s1 b where a: "act x s = (s1, b)" by (cases "act x s")
  from Cons.prems a have "b \<and> e = x \<or> e \<in> set (snd (run_all act es s1))"
    by (auto simp: case_prod_beta Let_def split: if_splits)
  then show ?case
    using Cons.IH [of s1] keeps [OF Cons.prems(1) a] remembers [OF Cons.prems(1) a]
      replay [OF Cons.prems(1), of x] a by auto
qed simp

text \<open>Whatever the input repeats, the applied events carry pairwise distinct keys.\<close>

lemma run_distinct: "inv s \<Longrightarrow> distinct (map key (snd (run_all act es s)))"
proof (induction es arbitrary: s)
  case (Cons x es)
  obtain s1 b where a: "act x s = (s1, b)" by (cases "act x s")
  note s1 = keeps [OF Cons.prems a]
  show ?case
  proof (cases b)
    case True
    with a applied [OF Cons.prems] have "seen s1 (key x)" by simp
    then have "key x \<notin> key ` set (snd (run_all act es s1))" using run_fresh [OF s1] by fastforce
    with a True Cons.IH [OF s1] show ?thesis by (simp add: case_prod_beta Let_def)
  qed (use a Cons.IH [OF s1] in \<open>simp add: case_prod_beta Let_def\<close>)
qed simp

lemma run_replayed:
  assumes "inv s" "\<forall>e \<in> set es. seen s (key e)"
  shows "run_all act es s = (s, [])"
  using assms by (induction es) (simp_all add: replay)

text \<open>Delivering the applied events a second time changes nothing.\<close>

lemma run_idempotent:
  "inv s \<Longrightarrow> run_all act (snd (run_all act es s)) (fst (run_all act es s)) = (fst (run_all act es s), [])"
  by (rule run_replayed) (simp_all add: run_keeps)

end

text \<open>The stronger form: an event that is not applied leaves no trace, and only the applied event's
  own key becomes seen.\<close>

locale exactly_keyed = at_most_once +
  assumes refused: "act e s = (s', False) \<Longrightarrow> s' = s"
    and only_key: "inv s \<Longrightarrow> act e s = (s', True) \<Longrightarrow> seen s' k \<Longrightarrow> k = key e \<or> seen s k"
begin

lemma run_seen:
  assumes "inv s"
  shows "seen (fst (run_all act es s)) k \<longleftrightarrow> seen s k \<or> k \<in> key ` set (snd (run_all act es s))"
proof
  show "seen (fst (run_all act es s)) k \<Longrightarrow> seen s k \<or> k \<in> key ` set (snd (run_all act es s))"
    using assms
  proof (induction es arbitrary: s)
    case (Cons e es)
    obtain s1 b where a: "act e s = (s1, b)" by (cases "act e s")
    show ?case
    proof (cases b)
      case True
      with a Cons.prems Cons.IH [of s1] keeps [OF Cons.prems(2) a] only_key [of s e s1 k]
      show ?thesis by (auto simp: case_prod_beta Let_def)
    next
      case False
      with a have "s1 = s" by (simp add: refused)
      with a False Cons show ?thesis by (simp add: case_prod_beta Let_def)
    qed
  qed simp
qed (use assms run_keeps in auto)

end

section \<open>Stages that only withhold\<close>

text \<open>
  A stage maps what it was given to what it lets through; \<open>size\<close> measures the exposure. The
  contract of every gate: never more than the input, and composing gates keeps the contract.
\<close>

locale gated =
  fixes exposure :: "'a \<Rightarrow> real" and stage :: "'c \<Rightarrow> 'a \<Rightarrow> 'a"
  assumes shrinks: "exposure (stage c a) \<le> exposure a"
begin

lemma stages_shrink: "exposure (foldl (\<lambda>a c. stage c a) a cs) \<le> exposure a"
proof (induction cs arbitrary: a)
  case (Cons c cs)
  from Cons.IH [of "stage c a"] shrinks [of c a] show ?case by simp
qed simp

lemma nothing_from_nothing:
  "exposure a \<le> 0 \<Longrightarrow> exposure (foldl (\<lambda>a c. stage c a) a cs) \<le> 0"
  using stages_shrink by (rule order_trans)

end

section \<open>Budgets\<close>

text \<open>
  A budget is a counter with a limit that starts afresh in another window; a limit of zero means
  unlimited. \<open>take_one\<close> either consumes one unit or refuses, for whatever reason.
\<close>

locale budgeted =
  fixes used :: "'s \<Rightarrow> 'w \<Rightarrow> nat" and limit :: "'s \<Rightarrow> nat"
    and take_one :: "'w \<Rightarrow> 'e \<Rightarrow> 's \<Rightarrow> 's \<times> bool"
  assumes granted: "take_one w e s = (s', True) \<Longrightarrow>
      used s' w = Suc (used s w) \<and> (limit s = 0 \<or> used s w < limit s)"
    and denied: "take_one w e s = (s', False) \<Longrightarrow> used s' w = used s w"
    and same_limit: "take_one w e s = (s', b) \<Longrightarrow> limit s' = limit s"
begin

fun grants :: "'w \<Rightarrow> 'e list \<Rightarrow> 's \<Rightarrow> nat" where
  "grants w [] s = 0"
| "grants w (e # es) s = (case take_one w e s of (s', b) \<Rightarrow> (if b then 1 else 0) + grants w es s')"

text \<open>Within one window no more than the remaining budget is granted, however often it is asked.\<close>

lemma grants_le:
  assumes "limit s \<noteq> 0"
  shows "used s w + grants w es s \<le> max (limit s) (used s w)"
  using assms
proof (induction es arbitrary: s)
  case (Cons e es)
  obtain s' b where t: "take_one w e s = (s', b)" by (cases "take_one w e s")
  from same_limit [OF t] Cons have "used s' w + grants w es s' \<le> max (limit s) (used s' w)" by metis
  with t granted [of w e s s'] denied [of w e s s'] Cons.prems show ?case by (cases b) auto
qed simp

end

section \<open>Ranked lifecycles\<close>

locale lifecycle =
  fixes legal :: "'st \<Rightarrow> 'st \<Rightarrow> bool" and rank :: "'st \<Rightarrow> nat" and final :: "'st \<Rightarrow> bool"
  assumes legal_refl: "legal a a"
    and legal_rank: "legal a b \<Longrightarrow> a \<noteq> b \<Longrightarrow> rank a \<le> rank b"
    and final_stuck: "final a \<Longrightarrow> legal a b \<Longrightarrow> b = a"
begin

inductive path :: "'st \<Rightarrow> 'st \<Rightarrow> bool" where
  path_refl: "path a a"
| path_step: "path a b \<Longrightarrow> legal b c \<Longrightarrow> path a c"

lemma path_rank: "path a b \<Longrightarrow> rank a \<le> rank b"
proof (induction rule: path.induct)
  case (path_step a b c)
  then show ?case using legal_rank [of b c] by (cases "b = c") auto
qed simp

lemma path_final: "path a b \<Longrightarrow> final a \<Longrightarrow> b = a"
  by (induction rule: path.induct) (auto dest: final_stuck)

lemma path_trans:
  assumes "path a b" "path b c"
  shows "path a c"
  using assms(2,1) by (induction rule: path.induct) (auto intro: path.intros)

end

end
