(* ===== verification/Candles.thy ===== *)
theory Candles
  imports Contracts
begin

text \<open>
  Candles, the bounded candle history and the interval parser (\<open>candles.py\<close>).
\<close>

section \<open>Data\<close>

record candle =
  c_symbol :: string
  c_interval :: string
  c_opened_at :: datetime
  c_open :: real
  c_high :: real
  c_low :: real
  c_close :: real
  c_volume :: real

definition candle_valid :: "candle \<Rightarrow> bool" where
  "candle_valid c \<longleftrightarrow>
     0 < c_open c \<and> 0 < c_high c \<and> 0 < c_low c \<and> 0 < c_close c \<and> 0 \<le> c_volume c
   \<and> \<not> (c_high c < max (c_open c) (c_close c) \<or> min (c_open c) (c_close c) < c_low c)
   \<and> \<not> c_high c < c_low c"

record candle_history =
  ch_maxlen :: nat
  ch_candles :: "((string \<times> string) \<times> candle list) list"

definition empty_history :: "nat \<Rightarrow> candle_history" where
  "empty_history n = \<lparr>ch_maxlen = n, ch_candles = []\<rparr>"

section \<open>Operations\<close>

definition candle_key :: "candle \<Rightarrow> string \<times> string" where
  "candle_key c = (upper (c_symbol c), c_interval c)"

definition bucket_of :: "candle_history \<Rightarrow> string \<times> string \<Rightarrow> candle list" where
  "bucket_of h k = (case map_of (ch_candles h) k of None \<Rightarrow> [] | Some b \<Rightarrow> b)"

text \<open>\<open>while len(bucket) > maxlen: bucket.popleft()\<close>\<close>

function pop_excess :: "nat \<Rightarrow> 'a list \<Rightarrow> 'a list" where
  "pop_excess n xs = (if n < length xs then pop_excess n (tl xs) else xs)"
  by auto
termination
  by (relation "measure (\<lambda>(n, xs). length xs)") auto

declare pop_excess.simps [simp del]

text \<open>\<open>None\<close> is the \<open>ValueError\<close> of a candle that does not move time forward.\<close>

definition history_append :: "candle \<Rightarrow> candle_history \<Rightarrow> candle_history option" where
  "history_append c h =
     (let k = candle_key c; bucket = bucket_of h k
      in if bucket \<noteq> [] \<and> c_opened_at c \<le> c_opened_at (last bucket) then None
         else Some (h\<lparr>ch_candles :=
                AList.update k (pop_excess (ch_maxlen h) (bucket @ [c])) (ch_candles h)\<rparr>))"

definition history_get :: "string \<Rightarrow> string \<Rightarrow> nat option \<Rightarrow> candle_history \<Rightarrow> candle list" where
  "history_get symbol interval limit h =
     (let vals = bucket_of h (upper symbol, interval)
      in case limit of None \<Rightarrow> vals | Some n \<Rightarrow> tail_slice n vals)"

definition interval_unit_seconds :: "string \<Rightarrow> nat option" where
  "interval_unit_seconds unit =
     map_of [(''s'', 1), (''m'', 60), (''h'', 3600), (''d'', 86400), (''w'', 604800)] unit"

definition is_digit :: "char \<Rightarrow> bool" where
  "is_digit c = (let n = (of_char c :: nat) in 48 \<le> n \<and> n \<le> 57)"

definition int_of_digits :: "string \<Rightarrow> nat" where
  "int_of_digits ds = foldl (\<lambda>n c. 10 * n + (of_char c - 48)) 0 ds"

definition interval_to_seconds :: "string \<Rightarrow> nat option" where
  "interval_to_seconds interval =
     (let txt = lower (strip interval)
      in if txt = [] then None
         else
           (let digits = filter is_digit txt; unit = filter (\<lambda>c. \<not> is_digit c) txt
            in case interval_unit_seconds unit of
                 None \<Rightarrow> None
               | Some u \<Rightarrow>
                   (let magnitude = (if digits \<noteq> [] then int_of_digits digits else 1)
                    in if magnitude = 0 then None else Some (magnitude * u))))"

definition periods_per_year :: "string \<Rightarrow> real option" where
  "periods_per_year interval =
     (case interval_to_seconds interval of
        None \<Rightarrow> None
      | Some s \<Rightarrow> Some (365 * 86400 / real s))"

section \<open>Lemmas\<close>

lemma pop_excess_eq: "pop_excess n xs = drop (length xs - n) xs"
proof (induction n xs rule: pop_excess.induct)
  case (1 n xs)
  show ?case
  proof (cases "n < length xs")
    case True
    then obtain y ys where xs: "xs = y # ys" by (cases xs) auto
    with 1 True have "pop_excess n (tl xs) = drop (length ys - n) ys" by simp
    with xs True show ?thesis by (subst pop_excess.simps) (simp add: Suc_diff_le)
  qed (simp add: pop_excess.simps)
qed

lemma interval_to_seconds_pos: "interval_to_seconds i = Some s \<Longrightarrow> 0 < s"
  by (auto simp: interval_to_seconds_def interval_unit_seconds_def Let_def
      split: if_splits option.splits)

lemma periods_per_year_pos: "periods_per_year i = Some p \<Longrightarrow> 0 < p"
  by (auto simp: periods_per_year_def dest: interval_to_seconds_pos split: option.splits)

text \<open>Digits and unit need not be contiguous: the label \<open>1h2\<close> is read as twelve hours.\<close>

lemma interval_scattered_digits: "interval_to_seconds ''1h2'' = interval_to_seconds ''12h''"
  by (simp add: interval_to_seconds_def interval_unit_seconds_def is_digit_def int_of_digits_def
      str_eval Let_def)

section \<open>The history is a bounded window of an increasing sequence\<close>

definition append_step :: "candle \<Rightarrow> candle_history \<Rightarrow> candle_history \<times> bool" where
  "append_step c h = (case history_append c h of None \<Rightarrow> (h, False) | Some h' \<Rightarrow> (h', True))"

definition history_ok :: "candle_history \<Rightarrow> bool" where
  "history_ok h \<longleftrightarrow> (\<forall>k.
     length (bucket_of h k) \<le> ch_maxlen h \<and> sorted_wrt (<) (map c_opened_at (bucket_of h k)))"

lemma bucket_append:
  assumes "history_append c h = Some h'"
  shows "bucket_of h' k =
    (if k = candle_key c then drop (Suc (length (bucket_of h k)) - ch_maxlen h) (bucket_of h k @ [c])
     else bucket_of h k)"
    and "ch_maxlen h' = ch_maxlen h"
  using assms
  by (auto simp: history_append_def Let_def bucket_of_def update_conv' pop_excess_eq split: if_splits)

lemma sorted_wrt_drop: "sorted_wrt P xs \<Longrightarrow> sorted_wrt P (drop n xs)"
  by (induction xs arbitrary: n) (auto simp: drop_Cons split: nat.splits)

lemma sorted_last: "sorted_wrt (<) (map f xs) \<Longrightarrow> y \<in> set xs \<Longrightarrow> f y \<le> (f (last xs) :: int)"
  by (induction xs) (auto simp: less_imp_le split: if_splits)

lemma sorted_snoc:
  assumes "sorted_wrt (<) (map f xs)" "xs = [] \<or> f (last xs) < (f x :: int)"
  shows "sorted_wrt (<) (map f (xs @ [x]))"
  using assms sorted_last [OF assms(1)] by (fastforce simp: sorted_wrt_append)

lemma history_append_ok:
  assumes "history_ok h" "history_append c h = Some h'"
  shows "history_ok h'"
proof -
  have "bucket_of h (candle_key c) = [] \<or> c_opened_at (last (bucket_of h (candle_key c))) < c_opened_at c"
    using assms(2) by (auto simp: history_append_def Let_def split: if_splits)
  with assms(1) have "sorted_wrt (<) (map c_opened_at (bucket_of h (candle_key c) @ [c]))"
    by (intro sorted_snoc) (simp_all add: history_ok_def del: split_paired_All)
  then have "sorted_wrt (<) (map c_opened_at (drop n (bucket_of h (candle_key c) @ [c])))" for n
    using sorted_wrt_drop by (metis drop_map)
  with assms(1) bucket_append [OF assms(2)] show ?thesis
    by (auto simp: history_ok_def simp del: split_paired_All drop_append)
qed

text \<open>Abstract view: the history of a key is the last \<open>maxlen\<close> candles accepted for it.\<close>

definition last_n :: "nat \<Rightarrow> 'a list \<Rightarrow> 'a list" where
  "last_n n xs = drop (length xs - n) xs"

lemma last_n_append: "last_n n (last_n n xs @ ys) = last_n n (xs @ ys)"
proof -
  have "last_n n xs @ ys = drop (length xs - n) (xs @ ys)" by (simp add: last_n_def)
  moreover have "length xs + length ys - (length xs - n + n) + (length xs - n) = length xs + length ys - n"
    by arith
  ultimately show ?thesis by (simp add: last_n_def del: drop_append)
qed

lemma run_append_window:
  assumes "run_all append_step cs h = (h', acc)" "length (bucket_of h k) \<le> ch_maxlen h"
  shows "bucket_of h' k = last_n (ch_maxlen h) (bucket_of h k @ filter (\<lambda>c. candle_key c = k) acc)"
  using assms
proof (induction cs arbitrary: h acc)
  case (Cons c cs)
  obtain h1 b where s: "append_step c h = (h1, b)" by (cases "append_step c h")
  obtain acc1 where r: "run_all append_step cs h1 = (h', acc1)" "acc = (if b then c # acc1 else acc1)"
    using Cons.prems(1) s by (auto simp: Let_def split: prod.splits)
  show ?case
  proof (cases b)
    case False
    with s have "h1 = h" by (auto simp: append_step_def split: option.splits)
    with Cons.IH [of h1 acc1] r False Cons.prems(2) show ?thesis by simp
  next
    case True
    with s have a: "history_append c h = Some h1" by (auto simp: append_step_def split: option.splits)
    have bk: "bucket_of h1 k = last_n (ch_maxlen h)
        (bucket_of h k @ (if candle_key c = k then [c] else []))"
      using bucket_append(1) [OF a, of k] Cons.prems(2) by (auto simp: last_n_def)
    then have "length (bucket_of h1 k) \<le> ch_maxlen h1" by (simp add: last_n_def bucket_append(2) [OF a])
    from Cons.IH [OF r(1) this] bk True r(2) bucket_append(2) [OF a] show ?thesis
      by (simp add: last_n_append)
  qed
qed (simp add: last_n_def)

lemma append_step_ok: "history_ok h \<Longrightarrow> history_ok (fst (append_step c h))"
  by (auto simp: append_step_def dest: history_append_ok split: option.splits)

lemma run_append_ok: "history_ok h \<Longrightarrow> history_ok (fst (run_all append_step cs h))"
proof (induction cs arbitrary: h)
  case (Cons c cs)
  from Cons.IH [OF append_step_ok [OF Cons.prems]] show ?case by (simp add: Let_def split_beta)
qed simp

lemma empty_history_ok: "history_ok (empty_history n)"
  by (simp add: history_ok_def bucket_of_def empty_history_def)

text \<open>
  After any sequence of appends to an empty history (out-of-order candles are refused), the
  history of a symbol and interval is exactly the last \<open>maxlen\<close> candles that were accepted for it,
  in strictly increasing time order.
\<close>

theorem history_is_bounded_window:
  assumes "run_all append_step cs (empty_history n) = (h, acc)" and "0 < n"
  shows "history_get symb ival None h
      = tail_slice n (filter (\<lambda>c. candle_key c = (upper symb, ival)) acc)
    \<and> length (history_get symb ival None h) \<le> n
    \<and> sorted_wrt (<) (map c_opened_at (history_get symb ival None h))"
proof -
  have h: "history_ok h" and m: "ch_maxlen (empty_history n) = n"
    using run_append_ok [OF empty_history_ok, of cs n] assms(1) by (auto simp: empty_history_def)
  have "ch_maxlen (fst (run_all append_step cs g)) = ch_maxlen g" for g
  proof (induction cs arbitrary: g)
    case (Cons c cs)
    then show ?case
      by (auto simp: Let_def split_beta append_step_def bucket_append(2) split: option.splits)
  qed simp
  from this [of "empty_history n"] assms(1) m have "ch_maxlen h = n" by simp
  with h have "length (history_get symb ival None h) \<le> n
    \<and> sorted_wrt (<) (map c_opened_at (history_get symb ival None h))"
    by (auto simp: history_ok_def history_get_def)
  with run_append_window [OF assms(1), of "(upper symb, ival)"] m assms(2) show ?thesis
    by (simp add: history_get_def tail_slice_def last_n_def bucket_of_def empty_history_def)
qed

definition ex_candle :: "int \<Rightarrow> candle" where
  "ex_candle t = \<lparr>c_symbol = ''BTC/USD'', c_interval = ''1h'', c_opened_at = t, c_open = 10,
     c_high = 12, c_low = 9, c_close = 11, c_volume = 5\<rparr>"

theorem history_is_bounded_window_witness:
  "\<exists>h acc. run_all append_step [ex_candle 1, ex_candle 2, ex_candle 2, ex_candle 3] (empty_history 2) = (h, acc)
     \<and> length (history_get ''BTC/USD'' ''1h'' None h) \<le> 2"
  using history_is_bounded_window [of "[ex_candle 1, ex_candle 2, ex_candle 2, ex_candle 3]" 2]
  by (metis prod.exhaust zero_less_numeral)

end
