(* ===== verification/Indicators.thy ===== *)
theory Indicators
  imports Candles
begin

text \<open>
  Technical indicators over candle closes (\<open>indicators.py\<close>). \<open>None\<close> is the \<open>ValueError\<close> each
  function raises on insufficient or malformed input.
\<close>

section \<open>Definitions\<close>

definition simple_return :: "real \<Rightarrow> real \<Rightarrow> real option" where
  "simple_return start fin = (if start \<le> 0 then None else Some (fin / start - 1))"

definition mean :: "real list \<Rightarrow> real option" where
  "mean xs = (if xs = [] then None else Some (py_sum xs / real (length xs)))"

definition standard_deviation :: "real list \<Rightarrow> real" where
  "standard_deviation xs =
     (if length xs < 2 then 0
      else (let avg = py_sum xs / real (length xs)
            in sqrt (py_sum (map (\<lambda>v. (v - avg)\<^sup>2) xs) / real (length xs - 1))))"

definition closes_of :: "candle list \<Rightarrow> real list" where
  "closes_of cs = map c_close cs"

definition moving_average :: "candle list \<Rightarrow> nat \<Rightarrow> real option" where
  "moving_average cs window =
     (if window = 0 \<or> length cs < window then None
      else mean (closes_of (tail_slice window cs)))"

definition momentum :: "candle list \<Rightarrow> nat \<Rightarrow> real option" where
  "momentum cs lookback =
     (if lookback = 0 \<or> length cs \<le> lookback then None
      else simple_return (c_close (cs ! (length cs - lookback - 1))) (c_close (last cs)))"

text \<open>\<open>[simple_return(closes[i - 1], closes[i]) for i in range(1, len(closes))]\<close>\<close>

fun step_returns :: "real list \<Rightarrow> real list option" where
  "step_returns (x # y # zs) =
     (case simple_return x y of
        None \<Rightarrow> None
      | Some r \<Rightarrow> map_option (\<lambda>rs. r # rs) (step_returns (y # zs)))"
| "step_returns _ = Some []"

definition realized_volatility :: "candle list \<Rightarrow> nat \<Rightarrow> real option" where
  "realized_volatility cs lookback =
     (if lookback \<le> 1 \<or> length cs \<le> lookback then None
      else map_option standard_deviation (step_returns (closes_of (tail_slice (lookback + 1) cs))))"

definition volume_ratio :: "candle list \<Rightarrow> nat \<Rightarrow> real option" where
  "volume_ratio cs lookback =
     (if lookback \<le> 1 \<or> length cs < lookback then None
      else case mean (map c_volume (butlast (tail_slice lookback cs))) of
             None \<Rightarrow> None
           | Some baseline \<Rightarrow>
               Some (if baseline \<le> 0 then 0 else c_volume (last cs) / baseline))"

definition zscore :: "real \<Rightarrow> real list \<Rightarrow> real option" where
  "zscore v population =
     (let deviation = standard_deviation population
      in if deviation = 0 then Some 0
         else map_option (\<lambda>m. (v - m) / deviation) (mean population))"

fun ema_series :: "real \<Rightarrow> real \<Rightarrow> real list \<Rightarrow> real list" where
  "ema_series alpha prev [] = []"
| "ema_series alpha prev (v # vs) =
     (let e = alpha * v + (1 - alpha) * prev in e # ema_series alpha e vs)"

definition exponential_moving_average :: "real list \<Rightarrow> nat \<Rightarrow> real list option" where
  "exponential_moving_average vs spn =
     (if spn = 0 then None
      else case vs of
             [] \<Rightarrow> None
           | v # rest \<Rightarrow> Some (v # ema_series (2 / (real spn + 1)) v rest))"

definition ema :: "candle list \<Rightarrow> nat \<Rightarrow> real option" where
  "ema cs spn =
     (if length cs < spn then None
      else map_option last (exponential_moving_average (closes_of cs) spn))"

definition true_range :: "candle \<Rightarrow> candle \<Rightarrow> real" where
  "true_range current previous =
     max (c_high current - c_low current)
       (max \<bar>c_high current - c_close previous\<bar> \<bar>c_low current - c_close previous\<bar>)"

fun wilder_loop :: "nat \<Rightarrow> real \<Rightarrow> real list \<Rightarrow> real list" where
  "wilder_loop period prev [] = []"
| "wilder_loop period prev (v # vs) =
     (let s = prev * ((real period - 1) / real period) + v * (1 / real period)
      in s # wilder_loop period s vs)"

definition wilder_smooth :: "real list \<Rightarrow> nat \<Rightarrow> real list option" where
  "wilder_smooth vs period =
     (if length vs < period then None
      else case mean (take period vs) of
             None \<Rightarrow> None
           | Some seed \<Rightarrow> Some (seed # wilder_loop period seed (drop period vs)))"

definition plus_move :: "candle \<Rightarrow> candle \<Rightarrow> real" where
  "plus_move current previous =
     (let up = c_high current - c_high previous; down = c_low previous - c_low current
      in if down < up \<and> 0 < up then up else 0)"

definition minus_move :: "candle \<Rightarrow> candle \<Rightarrow> real" where
  "minus_move current previous =
     (let up = c_high current - c_high previous; down = c_low previous - c_low current
      in if up < down \<and> 0 < down then down else 0)"

definition dx_value :: "real \<Rightarrow> real \<Rightarrow> real \<Rightarrow> real" where
  "dx_value dmp dmn tr =
     (if tr \<le> 0 then 0
      else (let plus_di = 100 * dmp / tr; minus_di = 100 * dmn / tr; denom = plus_di + minus_di
            in if denom \<le> 0 then 0 else 100 * \<bar>plus_di - minus_di\<bar> / denom))"

definition average_directional_index :: "candle list \<Rightarrow> nat \<Rightarrow> real option" where
  "average_directional_index cs period =
     (if period \<le> 1 then None
      else if length cs < 2 * period + 1 then None
      else
        (let pairs = zip (tl cs) cs;
             plus_dm = map (\<lambda>(c, p). plus_move c p) pairs;
             minus_dm = map (\<lambda>(c, p). minus_move c p) pairs;
             trs = map (\<lambda>(c, p). true_range c p) pairs
         in case (wilder_smooth plus_dm period, wilder_smooth minus_dm period, wilder_smooth trs period) of
              (Some sp, Some sm, Some st) \<Rightarrow>
                map_option last
                  (wilder_smooth (map (\<lambda>(p, m, t). dx_value p m t) (zip sp (zip sm st))) period)
            | _ \<Rightarrow> None))"

section \<open>Lemmas\<close>

definition candles_ok :: "candle list \<Rightarrow> bool" where
  "candles_ok cs = list_all candle_valid cs"

lemma closes_pos: "candles_ok cs \<Longrightarrow> x \<in> set (closes_of cs) \<Longrightarrow> 0 < x"
  by (auto simp: candles_ok_def list_all_iff candle_valid_def closes_of_def)

lemma candles_ok_tail: "candles_ok cs \<Longrightarrow> candles_ok (tail_slice n cs)"
  using set_tail_slice [of n cs] by (auto simp: candles_ok_def list_all_iff)

lemma mean_pos:
  assumes "\<forall>x \<in> set xs. 0 < x" "mean xs = Some m"
  shows "0 < m"
proof -
  from assms(2) have ne: "xs \<noteq> []" and m: "m = sum_list xs / real (length xs)"
    by (auto simp: mean_def py_sum_eq split: if_splits)
  from ne assms(1) have "0 < sum_list xs"
  proof (induction xs)
    case (Cons x xs)
    then show ?case by (cases "xs = []") (auto intro: add_pos_pos)
  qed simp
  with ne m show ?thesis by simp
qed

lemma mean_bounds:
  assumes "\<forall>x \<in> set xs. lo \<le> x \<and> x \<le> hi" "mean xs = Some m"
  shows "lo \<le> m \<and> m \<le> hi"
proof -
  have "real (length xs) * lo \<le> sum_list xs \<and> sum_list xs \<le> real (length xs) * hi"
    using assms(1) by (induction xs) (auto simp: algebra_simps)
  with assms(2) show ?thesis
    by (auto simp: mean_def py_sum_eq field_simps split: if_splits)
qed

lemma standard_deviation_nonneg: "0 \<le> standard_deviation xs"
proof -
  have "0 \<le> py_sum (map (\<lambda>v. (v - avg)\<^sup>2) xs)" for avg by (rule py_sum_nonneg) auto
  then show ?thesis by (simp add: standard_deviation_def Let_def)
qed

lemma moving_average_pos: "candles_ok cs \<Longrightarrow> moving_average cs w = Some m \<Longrightarrow> 0 < m"
  using mean_pos [of "closes_of (tail_slice w cs)" m] closes_pos [OF candles_ok_tail]
  by (auto simp: moving_average_def split: if_splits)

lemma moving_average_defined: "0 < w \<Longrightarrow> w \<le> length cs \<Longrightarrow> \<exists>m. moving_average cs w = Some m"
  by (auto simp: moving_average_def mean_def closes_of_def tail_slice_def)

lemma step_returns_defined: "\<forall>x \<in> set xs. 0 < x \<Longrightarrow> \<exists>rs. step_returns xs = Some rs"
  by (induction xs rule: step_returns.induct) (auto simp: simple_return_def)

lemma realized_volatility_nonneg: "realized_volatility cs n = Some v \<Longrightarrow> 0 \<le> v"
  by (auto simp: realized_volatility_def standard_deviation_nonneg split: if_splits)

definition in_range :: "real \<Rightarrow> real \<Rightarrow> real list \<Rightarrow> bool" where
  "in_range lo hi xs \<longleftrightarrow> (\<forall>x \<in> set xs. lo \<le> x \<and> x \<le> hi)"

lemma in_range_Nil [simp]: "in_range lo hi []"
  by (simp add: in_range_def)

lemma in_range_Cons [simp]: "in_range lo hi (x # xs) \<longleftrightarrow> (lo \<le> x \<and> x \<le> hi) \<and> in_range lo hi xs"
  by (simp add: in_range_def)

lemma in_range_subset: "set ys \<subseteq> set xs \<Longrightarrow> in_range lo hi xs \<Longrightarrow> in_range lo hi ys"
  by (auto simp: in_range_def)

lemma in_range_last: "in_range lo hi xs \<Longrightarrow> xs \<noteq> [] \<Longrightarrow> lo \<le> last xs \<and> last xs \<le> hi"
  by (simp add: in_range_def)

lemma convex_within:
  fixes x y :: real
  assumes "0 \<le> a" "0 \<le> b" "a + b = 1" "lo \<le> x \<and> x \<le> hi" "lo \<le> y \<and> y \<le> hi"
  shows "lo \<le> a * x + b * y \<and> a * x + b * y \<le> hi"
  using convex_bound_le [of x hi y a b] convex_bound_le [of "- x" "- lo" "- y" a b] assms by simp

lemma ema_series_bounds:
  assumes "0 < alpha" "alpha \<le> 1" "lo \<le> prev \<and> prev \<le> hi" "in_range lo hi vs"
  shows "in_range lo hi (ema_series alpha prev vs)"
  using assms
proof (induction vs arbitrary: prev)
  case (Cons v vs)
  have e: "lo \<le> alpha * v + (1 - alpha) * prev \<and> alpha * v + (1 - alpha) * prev \<le> hi"
    by (rule convex_within) (use Cons.prems in simp_all)
  with Cons.IH [OF Cons.prems(1,2) e] Cons.prems(4) show ?case by (simp add: Let_def)
qed simp

text \<open>An exponential moving average never leaves the range of the values it smooths.\<close>

lemma exponential_moving_average_bounds:
  assumes "exponential_moving_average vs spn = Some es" "in_range lo hi vs"
  shows "length es = length vs" "in_range lo hi es"
proof -
  have len: "length (ema_series a p xs) = length xs" for a p xs
    by (induction xs arbitrary: p) (auto simp: Let_def)
  from assms(1) obtain v rest where v: "vs = v # rest" "0 < spn"
    "es = v # ema_series (2 / (real spn + 1)) v rest"
    by (auto simp: exponential_moving_average_def split: if_splits list.splits)
  then show "length es = length vs" by (simp add: len)
  have "0 < 2 / (real spn + 1)" "2 / (real spn + 1) \<le> 1" using v(2) by auto
  from ema_series_bounds [OF this, of lo v hi rest] assms(2) v
  show "in_range lo hi es" by simp
qed

lemma wilder_loop_bounds:
  assumes "0 < period" "lo \<le> prev \<and> prev \<le> hi" "in_range lo hi vs"
  shows "in_range lo hi (wilder_loop period prev vs)"
  using assms
proof (induction vs arbitrary: prev)
  case (Cons v vs)
  let ?a = "(real period - 1) / real period" and ?b = "1 / real period"
  have ab: "0 \<le> ?a" "0 \<le> ?b" "?a + ?b = 1" using Cons.prems(1) by (auto simp: add_divide_distrib [symmetric])
  have e: "lo \<le> ?a * prev + ?b * v \<and> ?a * prev + ?b * v \<le> hi"
    by (rule convex_within) (use ab Cons.prems in simp_all)
  with Cons.IH [OF Cons.prems(1) e] Cons.prems(3) show ?case by (simp add: Let_def mult.commute)
qed simp

lemma wilder_smooth_bounds:
  assumes "wilder_smooth vs period = Some es" "0 < period" "in_range lo hi vs"
  shows "es \<noteq> []" "in_range lo hi es"
proof -
  from assms(1) obtain seed where s: "mean (take period vs) = Some seed"
    "es = seed # wilder_loop period seed (drop period vs)"
    by (auto simp: wilder_smooth_def split: if_splits option.splits)
  then show "es \<noteq> []" by simp
  have "in_range lo hi (take period vs)" "in_range lo hi (drop period vs)"
    using in_range_subset [OF set_take_subset assms(3)] in_range_subset [OF set_drop_subset assms(3)]
    by blast+
  then have "lo \<le> seed \<and> seed \<le> hi"
    using mean_bounds [OF _ s(1), of lo hi] by (simp add: in_range_def)
  from wilder_loop_bounds [OF assms(2) this \<open>in_range lo hi (drop period vs)\<close>] this s(2)
  show "in_range lo hi es" by simp
qed

lemma dx_value_bounds:
  assumes "0 \<le> p" "0 \<le> m"
  shows "0 \<le> dx_value p m tr \<and> dx_value p m tr \<le> 100"
proof (cases "0 < tr \<and> 0 < 100 * p / tr + 100 * m / tr")
  case True
  let ?p = "100 * p / tr" and ?m = "100 * m / tr"
  have "0 \<le> ?p" "0 \<le> ?m" using assms True by simp_all
  then have "\<bar>?p - ?m\<bar> \<le> ?p + ?m" by (simp add: abs_le_iff)
  then have "100 * \<bar>?p - ?m\<bar> \<le> 100 * (?p + ?m)" by (intro mult_left_mono) simp_all
  with True have "100 * \<bar>?p - ?m\<bar> / (?p + ?m) \<le> 100" by (simp only: divide_le_eq) simp
  moreover have "0 \<le> 100 * \<bar>?p - ?m\<bar> / (?p + ?m)" using True by (intro divide_nonneg_pos) auto
  moreover have "dx_value p m tr = 100 * \<bar>?p - ?m\<bar> / (?p + ?m)"
    using True by (simp add: dx_value_def Let_def)
  ultimately show ?thesis by simp
qed (auto simp: dx_value_def Let_def)

lemma moves_nonneg: "0 \<le> plus_move c p" "0 \<le> minus_move c p"
  by (auto simp: plus_move_def minus_move_def Let_def)

lemma wilder_smooth_nonneg:
  assumes "wilder_smooth vs period = Some es" "0 < period" "\<forall>x \<in> set vs. 0 \<le> x"
  shows "\<forall>x \<in> set es. 0 \<le> x"
proof -
  have "in_range 0 (sum_list vs) vs"
    using assms(3) member_le_sum_list by (auto simp: in_range_def)
  from wilder_smooth_bounds(2) [OF assms(1,2) this] show ?thesis by (simp add: in_range_def)
qed

text \<open>
  Whenever the average directional index is defined it lies between 0 and 100.
\<close>

theorem adx_bounds:
  assumes "average_directional_index cs period = Some a"
  shows "0 \<le> a \<and> a \<le> 100"
proof -
  let ?pairs = "zip (tl cs) cs"
  from assms obtain sp sm st dxs where period: "0 < period"
    and sp: "wilder_smooth (map (\<lambda>(c, p). plus_move c p) ?pairs) period = Some sp"
    and sm: "wilder_smooth (map (\<lambda>(c, p). minus_move c p) ?pairs) period = Some sm"
    and dxs: "wilder_smooth (map (\<lambda>(p, m, t). dx_value p m t) (zip sp (zip sm st))) period = Some dxs"
    and a: "a = last dxs"
    by (auto simp: average_directional_index_def Let_def split: if_splits option.splits)
  have "\<forall>x \<in> set sp. 0 \<le> x" by (rule wilder_smooth_nonneg [OF sp period]) (auto simp: moves_nonneg)
  moreover have "\<forall>x \<in> set sm. 0 \<le> x" by (rule wilder_smooth_nonneg [OF sm period]) (auto simp: moves_nonneg)
  moreover have "p \<in> set sp \<and> m \<in> set sm" if "(p, m, t) \<in> set (zip sp (zip sm st))" for p m t
    using that by (metis set_zip_leftD set_zip_rightD)
  ultimately have "in_range 0 100 (map (\<lambda>(p, m, t). dx_value p m t) (zip sp (zip sm st)))"
    using dx_value_bounds by (auto simp: in_range_def)
  from wilder_smooth_bounds [OF dxs period this] a show ?thesis by (simp add: in_range_last)
qed

theorem adx_bounds_witness:
  "\<exists>a. average_directional_index (map ex_candle [1, 2, 3, 4, 5]) 2 = Some a \<and> 0 \<le> a \<and> a \<le> 100"
proof -
  obtain a where "average_directional_index (map ex_candle [1, 2, 3, 4, 5]) 2 = Some a"
    by (simp add: average_directional_index_def wilder_smooth_def mean_def Let_def)
  with adx_bounds show ?thesis by blast
qed

end
