(* ===== verification/Garch.thy ===== *)
theory Garch
  imports Indicators
begin

text \<open>
  The GARCH(1,1) volatility forecast and the capped size it suggests (\<open>garch.py\<close>). \<open>None\<close> of a
  fallible function is its \<open>ValueError\<close>. Floating-point literals are the rationals they denote.
\<close>

section \<open>Data\<close>

record garch_params =
  gp_omega :: real
  gp_alpha :: real
  gp_beta :: real
  gp_variance :: real

record garch_forecast =
  gf_variance :: real
  gf_vol :: real
  gf_vol_ann :: real
  gf_size_multiplier :: real
  gf_regime :: string
  gf_vol_percentile :: "real option"

definition var_floor :: real where
  "var_floor = 1 / 10 ^ 12"

definition impossible :: real where
  "impossible = 10 ^ 18"

definition grid_alpha :: "real list" where
  "grid_alpha = [2/100, 4/100, 6/100, 8/100, 10/100, 15/100, 20/100]"

definition grid_beta :: "real list" where
  "grid_beta = [70/100, 80/100, 85/100, 90/100, 94/100, 97/100]"

section \<open>Operations\<close>

fun close_returns :: "real list \<Rightarrow> real list option" where
  "close_returns (start # fin # rest) =
     (if start \<le> 0 \<or> fin \<le> 0 then None
      else map_option (\<lambda>rs. (fin / start - 1) # rs) (close_returns (fin # rest)))"
| "close_returns _ = Some []"

definition candle_returns :: "candle list \<Rightarrow> real list option" where
  "candle_returns cs = close_returns (closes_of cs)"

definition sample_variance :: "real list \<Rightarrow> real option" where
  "sample_variance rs =
     (if length rs < 2 then None
      else (let m = py_sum rs / real (length rs)
            in Some (py_sum (map (\<lambda>v. (v - m)\<^sup>2) rs) / real (length rs - 1))))"

definition size_from_vol :: "real \<Rightarrow> real \<Rightarrow> real \<Rightarrow> real \<Rightarrow> real option" where
  "size_from_vol forecast target min_size max_size =
     (if min_size \<le> 0 \<or> max_size < min_size then None
      else if forecast \<le> 0 \<or> target \<le> 0 then Some min_size
      else Some (min (max (target / forecast) min_size) max_size))"

fun loglik_loop :: "real \<Rightarrow> real \<Rightarrow> real \<Rightarrow> real list \<Rightarrow> real \<Rightarrow> real \<Rightarrow> real" where
  "loglik_loop omega alpha beta [] sigma2 acc = acc"
| "loglik_loop omega alpha beta (r # rs) sigma2 acc =
     (let s = max sigma2 var_floor
      in loglik_loop omega alpha beta rs (omega + alpha * r * r + beta * s) (acc + (ln s + (r * r) / s)))"

definition neg_loglik :: "real \<Rightarrow> real \<Rightarrow> real list \<Rightarrow> real \<Rightarrow> real" where
  "neg_loglik alpha beta rs variance =
     (let persist = alpha + beta
      in if alpha < 0 \<or> beta < 0 \<or> 999/1000 \<le> persist then impossible
         else loglik_loop (max (variance * (1 - persist)) var_floor) alpha beta rs (max variance var_floor) 0)"

text \<open>\<open>(best_score, best_alpha, best_beta)\<close>\<close>

type_synonym best = "real \<times> real \<times> real"

definition grid_point :: "real list \<Rightarrow> real \<Rightarrow> real \<Rightarrow> real \<Rightarrow> best \<Rightarrow> best" where
  "grid_point rs variance alpha beta b =
     (if 999/1000 \<le> alpha + beta then b
      else (let score = neg_loglik alpha beta rs variance
            in if score < fst b then (score, alpha, beta) else b))"

definition grid_search :: "real list \<Rightarrow> real \<Rightarrow> best \<Rightarrow> best" where
  "grid_search rs variance b =
     foldl (\<lambda>b alpha. foldl (\<lambda>b beta. grid_point rs variance alpha beta b) b grid_beta) b grid_alpha"

definition try_move :: "real list \<Rightarrow> real \<Rightarrow> best \<times> bool \<Rightarrow> real \<times> real \<Rightarrow> best \<times> bool" where
  "try_move rs variance st d =
     (case (st, d) of (((score, a, b), improved), (da, db)) \<Rightarrow>
        (let trial = neg_loglik (a + da) (b + db) rs variance
         in if trial < score then ((trial, a + da, b + db), True) else st))"

definition moves :: "real \<Rightarrow> (real \<times> real) list" where
  "moves h = [(h, 0), (-h, 0), (0, h), (0, -h), (h, h), (-h, -h)]"

fun refine :: "real list \<Rightarrow> real \<Rightarrow> nat \<Rightarrow> real \<Rightarrow> best \<Rightarrow> best" where
  "refine rs variance 0 h b = b"
| "refine rs variance (Suc n) h b =
     (case foldl (try_move rs variance) (b, False) (moves h) of
        (b', improved) \<Rightarrow> refine rs variance n (if improved then h else h * (1/2)) b')"

definition fit_garch11 :: "real list \<Rightarrow> garch_params option" where
  "fit_garch11 rs =
     (if length rs < 20 then None
      else case sample_variance rs of
             None \<Rightarrow> None
           | Some v \<Rightarrow>
               (let variance = max v var_floor;
                    start = grid_search rs variance (impossible, 5/100, 90/100);
                    (score, alpha, beta) = refine rs variance 8 (2/100) start;
                    persist = min (alpha + beta) (998/1000)
                in Some \<lparr>gp_omega = max (variance * (1 - persist)) var_floor, gp_alpha = alpha,
                         gp_beta = beta, gp_variance = variance\<rparr>))"

definition next_variance :: "garch_params \<Rightarrow> real \<Rightarrow> real \<Rightarrow> real" where
  "next_variance p sigma2 r = max (gp_omega p + gp_alpha p * r * r + gp_beta p * sigma2) var_floor"

definition conditional_variance :: "garch_params \<Rightarrow> real list \<Rightarrow> real" where
  "conditional_variance p rs = foldl (next_variance p) (max (gp_variance p) var_floor) rs"

definition garch_regime :: "real option \<Rightarrow> string" where
  "garch_regime percentile =
     (case percentile of
        None \<Rightarrow> ''unknown''
      | Some q \<Rightarrow> if q < 1/3 then ''calm'' else if q < 2/3 then ''normal'' else ''storm'')"

record walk_config =
  wc_periods :: real
  wc_min_train :: nat
  wc_refit_every :: nat
  wc_target_vol_ann :: real
  wc_min_size :: real
  wc_max_size :: real
  wc_regime_lookback :: nat

record walk_state =
  ws_params :: "garch_params option"
  ws_sigma2 :: real
  ws_prior_vols :: "real list"

definition forecast_of ::
    "walk_config \<Rightarrow> real \<Rightarrow> string \<Rightarrow> real option \<Rightarrow> garch_forecast option" where
  "forecast_of w sigma2 rg percentile =
     (let vol = sqrt sigma2; vol_ann = vol * sqrt (wc_periods w)
      in case size_from_vol vol_ann (wc_target_vol_ann w) (wc_min_size w) (wc_max_size w) of
           None \<Rightarrow> None
         | Some m \<Rightarrow> Some \<lparr>gf_variance = sigma2, gf_vol = vol, gf_vol_ann = vol_ann,
             gf_size_multiplier = m, gf_regime = rg, gf_vol_percentile = percentile\<rparr>)"

text \<open>The parameters used at \<open>index\<close>, with the variance rolled up to it.\<close>

definition refreshed :: "walk_config \<Rightarrow> real list \<Rightarrow> nat \<Rightarrow> walk_state \<Rightarrow> (garch_params \<times> real) option" where
  "refreshed w rs index s =
     (case ws_params s of
        None \<Rightarrow> map_option (\<lambda>p. (p, conditional_variance p (take index rs))) (fit_garch11 (take index rs))
      | Some q \<Rightarrow>
          if (index - wc_min_train w) mod wc_refit_every w = 0
          then map_option (\<lambda>p. (p, conditional_variance p (take index rs))) (fit_garch11 (take index rs))
          else Some (q, ws_sigma2 s))"

definition percentile_of :: "nat \<Rightarrow> real list \<Rightarrow> real \<Rightarrow> real option" where
  "percentile_of n prior vol =
     (let lookback = (if prior \<noteq> [] then tail_slice n prior else [])
      in if lookback \<noteq> [] then Some (real (length (filter (\<lambda>v. v < vol) lookback)) / real (length lookback))
         else None)"

definition walk_step ::
    "walk_config \<Rightarrow> real list \<Rightarrow> nat \<Rightarrow> walk_state \<Rightarrow> (walk_state \<times> garch_forecast) option" where
  "walk_step w rs index s =
     (case refreshed w rs index s of
        None \<Rightarrow> None
      | Some (p, sigma) \<Rightarrow>
          (let sigma2 = next_variance p sigma (rs ! index); vol = sqrt sigma2;
               percentile = percentile_of (wc_regime_lookback w) (ws_prior_vols s) vol
           in map_option (\<lambda>f. (\<lparr>ws_params = Some p, ws_sigma2 = sigma2, ws_prior_vols = ws_prior_vols s @ [vol]\<rparr>, f))
                (forecast_of w sigma2 (garch_regime percentile) percentile)))"

fun walk_loop ::
    "walk_config \<Rightarrow> real list \<Rightarrow> nat list \<Rightarrow> walk_state \<Rightarrow> garch_forecast option list option" where
  "walk_loop w rs [] s = Some []"
| "walk_loop w rs (i # is) s =
     (case walk_step w rs i s of
        None \<Rightarrow> None
      | Some (s', f) \<Rightarrow> map_option (\<lambda>fs. Some f # fs) (walk_loop w rs is s'))"

definition walkforward_forecasts :: "walk_config \<Rightarrow> real list \<Rightarrow> garch_forecast option list option" where
  "walkforward_forecasts w rs =
     (if wc_min_train w < 20 \<or> wc_refit_every w = 0 \<or> wc_periods w \<le> 0 then None
      else if length rs \<le> wc_min_train w then Some (replicate (length rs) None)
      else map_option (\<lambda>fs. replicate (wc_min_train w) None @ fs)
             (walk_loop w rs [wc_min_train w..<length rs]
                \<lparr>ws_params = None, ws_sigma2 = 0, ws_prior_vols = []\<rparr>))"

text \<open>\<open>Some None\<close> is "not enough history", the outer \<open>None\<close> a raise.\<close>

definition one_step_forecast :: "walk_config \<Rightarrow> real list \<Rightarrow> garch_forecast option option" where
  "one_step_forecast w rs =
     (if length rs < wc_min_train w + 1 then Some None
      else case fit_garch11 (butlast rs) of
             None \<Rightarrow> None
           | Some p \<Rightarrow>
               map_option Some
                 (forecast_of w (next_variance p (conditional_variance p (butlast rs)) (last rs)) ''unknown'' None))"

definition forecast_series_for_candles :: "walk_config \<Rightarrow> candle list \<Rightarrow> garch_forecast option list option" where
  "forecast_series_for_candles w cs =
     (if length cs < 2 then Some []
      else case candle_returns cs of
             None \<Rightarrow> None
           | Some rs \<Rightarrow>
               (case periods_per_year (c_interval (hd cs)) of
                  None \<Rightarrow> None
                | Some p \<Rightarrow> walkforward_forecasts (w\<lparr>wc_periods := p, wc_regime_lookback := 365\<rparr>) rs))"

definition forecast_at_window :: "garch_forecast option list \<Rightarrow> candle list \<Rightarrow> garch_forecast option" where
  "forecast_at_window series window =
     (if length window < 2 \<or> length series \<le> length window - 2 then None
      else series ! (length window - 2))"

section \<open>The fitted model is stationary\<close>

definition stationary :: "real \<Rightarrow> real \<Rightarrow> bool" where
  "stationary a b \<longleftrightarrow> 0 \<le> a \<and> 0 \<le> b \<and> a + b < 999/1000"

text \<open>
  Every accepted trial beats a score that is at most the infeasible one, so the search never
  leaves the stationary region.
\<close>

definition best_ok :: "best \<Rightarrow> bool" where
  "best_ok b \<longleftrightarrow> fst b \<le> impossible \<and> stationary (fst (snd b)) (snd (snd b))"

lemma neg_loglik_better:
  "neg_loglik a b rs v < s \<Longrightarrow> s \<le> impossible \<Longrightarrow> stationary a b"
  by (auto simp: neg_loglik_def stationary_def Let_def split: if_splits)

lemma grid_point_ok: "best_ok b \<Longrightarrow> best_ok (grid_point rs v alpha beta b)"
  using neg_loglik_better [of alpha beta rs v "fst b"]
  by (auto simp: grid_point_def best_ok_def Let_def)

lemma foldl_keeps: "(\<And>s x. x \<in> set xs \<Longrightarrow> P s \<Longrightarrow> P (f s x)) \<Longrightarrow> P s \<Longrightarrow> P (foldl f s xs)"
  by (induction xs arbitrary: s) auto

lemma grid_search_ok: "best_ok b \<Longrightarrow> best_ok (grid_search rs v b)"
  unfolding grid_search_def
  by (rule foldl_keeps [where P = best_ok], rule foldl_keeps [where P = best_ok]) (simp_all add: grid_point_ok)

lemma try_move_ok: "best_ok (fst st) \<Longrightarrow> best_ok (fst (try_move rs v st d))"
proof -
  obtain score a b improved da db where sd: "st = ((score, a, b), improved)" "d = (da, db)"
    by (metis prod.exhaust)
  assume "best_ok (fst st)"
  with sd neg_loglik_better [of "a + da" "b + db" rs v score] show ?thesis
    by (auto simp: try_move_def best_ok_def Let_def)
qed

lemma refine_ok: "best_ok b \<Longrightarrow> best_ok (refine rs v n h b)"
proof (induction n arbitrary: h b)
  case (Suc n)
  have "best_ok (fst (foldl (try_move rs v) (b, False) (moves h)))"
    by (rule foldl_keeps [where P = "\<lambda>st. best_ok (fst st)"]) (simp_all add: try_move_ok Suc.prems)
  with Suc.IH show ?case by (auto split: prod.splits)
qed simp

lemma var_floor_pos: "0 < var_floor"
  by (simp add: var_floor_def)

lemma fit_garch11_stationary:
  assumes "fit_garch11 rs = Some p"
  shows "stationary (gp_alpha p) (gp_beta p) \<and> var_floor \<le> gp_omega p \<and> var_floor \<le> gp_variance p"
proof -
  obtain v where v: "sample_variance rs = Some v" and n: "\<not> length rs < 20"
    using assms by (auto simp: fit_garch11_def split: if_splits option.splits)
  let ?v = "max v var_floor"
  let ?s = "grid_search rs ?v (impossible, 5/100, 90/100)"
  obtain score a b where r: "refine rs ?v 8 (2/100) ?s = (score, a, b)" by (metis prod.exhaust)
  have "best_ok (impossible, 5/100, 90/100)" by (simp add: best_ok_def stationary_def)
  then have "best_ok (score, a, b)" unfolding r [symmetric] by (intro refine_ok grid_search_ok)
  moreover have "p = \<lparr>gp_omega = max (?v * (1 - min (a + b) (998/1000))) var_floor, gp_alpha = a,
      gp_beta = b, gp_variance = ?v\<rparr>"
    using assms unfolding fit_garch11_def v Let_def option.case r prod.case if_not_P [OF n] by simp
  ultimately show ?thesis by (simp add: best_ok_def)
qed

lemma size_from_vol_bounds:
  "size_from_vol f t lo hi = Some m \<Longrightarrow> 0 < lo \<and> lo \<le> m \<and> m \<le> hi"
  by (auto simp: size_from_vol_def split: if_splits)

definition forecast_ok :: "walk_config \<Rightarrow> garch_forecast \<Rightarrow> bool" where
  "forecast_ok w f \<longleftrightarrow>
     var_floor \<le> gf_variance f \<and> 0 < gf_vol_ann f \<and> gf_vol_ann f = gf_vol f * sqrt (wc_periods w)
   \<and> wc_min_size w \<le> gf_size_multiplier f \<and> gf_size_multiplier f \<le> wc_max_size w"

lemma forecast_of_ok:
  assumes "forecast_of w (next_variance p s r) rg q = Some f" "0 < wc_periods w"
  shows "forecast_ok w f"
proof -
  have "var_floor \<le> next_variance p s r" by (simp add: next_variance_def)
  with var_floor_pos assms show ?thesis
    by (auto simp: forecast_of_def forecast_ok_def Let_def dest: size_from_vol_bounds split: option.splits)
qed

lemma one_step_forecast_ok:
  "one_step_forecast w rs = Some (Some f) \<Longrightarrow> 0 < wc_periods w \<Longrightarrow> forecast_ok w f"
  by (auto simp: one_step_forecast_def dest: forecast_of_ok split: if_splits option.splits)

section \<open>No look-ahead\<close>

lemma walk_step_local:
  assumes "take n rs = take n rs'" "i < n"
  shows "walk_step w rs i s = walk_step w rs' i s"
proof -
  have "take i rs = take i rs'" "rs ! i = rs' ! i"
    using assms by (metis less_imp_le min.absorb_iff1 take_take, metis nth_take)
  then show ?thesis unfolding walk_step_def refreshed_def by (simp only:)
qed

lemma walk_loop_local:
  "take n rs = take n rs' \<Longrightarrow> \<forall>i \<in> set is. i < n \<Longrightarrow> walk_loop w rs is s = walk_loop w rs' is s"
proof (induction "is" arbitrary: s)
  case (Cons i "is")
  have "walk_step w rs i s = walk_step w rs' i s"
    using Cons.prems by (intro walk_step_local [of n]) simp_all
  with Cons show ?case by (simp split: option.splits prod.splits)
qed simp

lemma walk_loop_append:
  "walk_loop w rs (is @ js) s = Some fs \<Longrightarrow> walk_loop w rs is s = Some (take (length is) fs)"
proof (induction "is" arbitrary: s fs)
  case (Cons i "is")
  then show ?case by (fastforce split: option.splits prod.splits)
qed simp

lemma walk_loop_props:
  assumes "walk_loop w rs is s = Some fs" "0 < wc_periods w"
  shows "length fs = length is \<and> list_all (\<lambda>f. case f of None \<Rightarrow> False | Some g \<Rightarrow> forecast_ok w g) fs"
  using assms(1)
proof (induction "is" arbitrary: s fs)
  case (Cons i "is")
  from Cons.prems obtain s' f gs where
    st: "walk_step w rs i s = Some (s', f)" "walk_loop w rs is s' = Some gs" "fs = Some f # gs"
    by (auto split: option.splits)
  from st(1) assms(2) have "forecast_ok w f"
    by (auto simp: walk_step_def Let_def dest: forecast_of_ok split: option.splits)
  with Cons.IH [OF st(2)] st(3) show ?case by simp
qed simp

text \<open>
  The volatility forecasts do not look ahead. Cutting the return series after any bar leaves
  every forecast up to that bar as it was; and each forecast is a positive volatility whose size
  multiplier lies between the configured caps.
\<close>

theorem garch_no_lookahead:
  assumes "walkforward_forecasts w rs = Some fs"
  shows "walkforward_forecasts w (take n rs) = Some (take n fs)
    \<and> length fs = length rs \<and> (\<forall>f. Some f \<in> set fs \<longrightarrow> forecast_ok w f)"
proof (cases "length rs \<le> wc_min_train w")
  case True
  with assms show ?thesis
    by (auto simp: walkforward_forecasts_def min_def split: if_splits)
next
  case False
  let ?m = "wc_min_train w"
  let ?s = "\<lparr>ws_params = None, ws_sigma2 = 0, ws_prior_vols = []\<rparr> :: walk_state"
  from assms False have g: "\<not> (?m < 20 \<or> wc_refit_every w = 0 \<or> wc_periods w \<le> 0)"
    by (auto simp: walkforward_forecasts_def split: if_splits)
  with assms False obtain gs where gs: "walk_loop w rs [?m..<length rs] ?s = Some gs" "fs = replicate ?m None @ gs"
    by (auto simp: walkforward_forecasts_def)
  from walk_loop_props [OF gs(1)] g have l: "length gs = length rs - ?m"
    and ok: "\<forall>f. Some f \<in> set gs \<longrightarrow> forecast_ok w f" by (auto simp: list_all_iff)
  have "walkforward_forecasts w (take n rs) = Some (take n fs)"
  proof (cases "length (take n rs) \<le> ?m")
    case True
    with False gs(2) g show ?thesis by (auto simp: walkforward_forecasts_def min_def split: if_splits)
  next
    case longer: False
    let ?k = "length (take n rs)"
    have "[?m..<length rs] = [?m..<?k] @ [?k..<length rs]"
      using longer upt_add_eq_append [of ?m ?k "length rs - ?k"] by (simp add: min_def split: if_splits)
    with gs(1) have "walk_loop w rs [?m..<?k] ?s = Some (take (?k - ?m) gs)"
      using walk_loop_append [of w rs "[?m..<?k]" "[?k..<length rs]" ?s gs] by simp
    moreover have "walk_loop w (take n rs) [?m..<?k] ?s = walk_loop w rs [?m..<?k] ?s"
      by (rule walk_loop_local [where n = n]) auto
    moreover have "take (?k - ?m) gs = take (n - ?m) gs" using l by (simp add: min_def)
    ultimately show ?thesis using longer gs(2) g by (simp add: walkforward_forecasts_def)
  qed
  with gs(2) l ok False show ?thesis by auto
qed

text \<open>The lookup by window reads the forecast that window's last bar produced.\<close>

lemma forecast_at_window_prefix:
  "forecast_at_window (take n series) window =
     (if length window < n + 2 then forecast_at_window series window else None)"
  by (auto simp: forecast_at_window_def min_def)

definition ex_walk :: walk_config where
  "ex_walk = \<lparr>wc_periods = 365, wc_min_train = 20, wc_refit_every = 21, wc_target_vol_ann = 1/2,
     wc_min_size = 1/4, wc_max_size = 2, wc_regime_lookback = 365\<rparr>"

lemma fit_garch11_total: "20 \<le> length rs \<Longrightarrow> \<exists>p. fit_garch11 rs = Some p"
  by (simp add: fit_garch11_def sample_variance_def Let_def split: prod.splits)

lemma walk_loop_total:
  assumes "0 < wc_min_size w" "wc_min_size w \<le> wc_max_size w"
  shows "\<forall>i \<in> set is. 20 \<le> i \<and> i < length rs \<Longrightarrow> \<exists>fs. walk_loop w rs is s = Some fs"
proof (induction "is" arbitrary: s)
  case (Cons i "is")
  then have "20 \<le> length (take i rs)" by simp
  from fit_garch11_total [OF this] have "\<exists>q. refreshed w rs i s = Some q"
    by (auto simp: refreshed_def split: option.splits)
  then obtain p sigma where q: "refreshed w rs i s = Some (p, sigma)" by auto
  have "\<exists>f. forecast_of w s2 rg pc = Some f" for s2 rg pc
    using assms by (auto simp: forecast_of_def size_from_vol_def Let_def split: option.splits if_splits)
  then have "\<exists>s' f. walk_step w rs i s = Some (s', f)"
    by (simp add: walk_step_def q Let_def)
  with Cons show ?case by fastforce
qed simp

lemma walkforward_total:
  assumes "20 \<le> wc_min_train w" "0 < wc_refit_every w" "0 < wc_periods w"
    "0 < wc_min_size w" "wc_min_size w \<le> wc_max_size w"
  shows "\<exists>fs. walkforward_forecasts w rs = Some fs"
  using assms walk_loop_total [OF assms(4,5), of "[wc_min_train w..<length rs]" rs]
  by (auto simp: walkforward_forecasts_def)

theorem garch_no_lookahead_witness:
  "\<exists>fs. walkforward_forecasts ex_walk (replicate 30 (1/10)) = Some fs
     \<and> walkforward_forecasts ex_walk (take 25 (replicate 30 (1/10))) = Some (take 25 fs)"
proof -
  obtain fs where fs: "walkforward_forecasts ex_walk (replicate 30 (1/10)) = Some fs"
    using walkforward_total [of ex_walk] by (auto simp: ex_walk_def)
  from garch_no_lookahead [OF fs, of 25] fs show ?thesis by blast
qed

end
