(* ===== verification/Strategies.thy ===== *)
theory Strategies
  imports Indicators Domain
begin

text \<open>
  The strategy voters, the regime classifier and the ensemble consensus (\<open>strategies.py\<close>). The
  rationale of a signal is kept as the values its text formats; joined rationales are a list.
  \<open>version_of(self)\<close> (a hash of the ensemble's parameters) is the argument \<open>version\<close>. A promoted
  extra voter is any function from candles and regime to a signal.
\<close>

section \<open>Data\<close>

datatype regime = TRENDING_UP | TRENDING_DOWN | RANGE_BOUND | HIGH_VOLATILITY

datatype rationale =
    RMomentum nat real
  | RMaSeparation real
  | RPriceZ real
  | RUnhealthyPrices
  | RPaperMaSeparation real
  | RPaperPriceVsLong real
  | RThesis string
  | RComponents "(string \<times> real) list" "string list"

record strategy_signal =
  sg_strategy_id :: string
  sg_symbol :: string
  sg_side :: "side option"
  sg_score :: real
  sg_confidence :: real
  sg_regime :: regime
  sg_rationale :: "rationale list"
  sg_signal_version :: "string option"

definition signal_valid :: "strategy_signal \<Rightarrow> bool" where
  "signal_valid s \<longleftrightarrow>
     -1 \<le> sg_score s \<and> sg_score s \<le> 1 \<and> 0 \<le> sg_confidence s \<and> sg_confidence s \<le> 1"

record regime_classifier =
  rg_short_window :: nat
  rg_long_window :: nat
  rg_volatility_lookback :: nat
  rg_high_volatility_threshold :: real

record momentum_strategy =
  mo_strategy_id :: string
  mo_lookback :: nat
  mo_minimum_momentum :: real

record trend_strategy =
  tr_strategy_id :: string
  tr_short_window :: nat
  tr_long_window :: nat
  tr_minimum_separation :: real

record mean_reversion_strategy =
  mr_strategy_id :: string
  mr_lookback :: nat
  mr_entry_z :: real

record paper_research_strategy =
  pr_strategy_id :: string
  pr_short_window :: nat
  pr_long_window :: nat
  pr_minimum_separation :: real

type_synonym voter = "candle list \<Rightarrow> regime \<Rightarrow> strategy_signal option"

record strategy_ensemble =
  en_classifier :: regime_classifier
  en_momentum :: momentum_strategy
  en_trend :: trend_strategy
  en_mean_reversion :: mean_reversion_strategy
  en_paper_research :: "paper_research_strategy option"
  en_min_agreeing :: nat
  en_extra_voters :: "voter list"
  en_suppress_defaults :: bool

section \<open>Operations\<close>

definition classify :: "regime_classifier \<Rightarrow> candle list \<Rightarrow> regime option" where
  "classify r cs =
     (if length cs < max (rg_long_window r) (rg_volatility_lookback r + 1) then None
      else case realized_volatility cs (rg_volatility_lookback r) of
             None \<Rightarrow> None
           | Some volatility \<Rightarrow>
               if rg_high_volatility_threshold r \<le> volatility then Some HIGH_VOLATILITY
               else case (moving_average cs (rg_short_window r), moving_average cs (rg_long_window r)) of
                      (Some short, Some long) \<Rightarrow>
                        (let separation = short / long - 1
                         in if 5 / 1000 < separation then Some TRENDING_UP
                            else if separation < - (5 / 1000) then Some TRENDING_DOWN
                            else Some RANGE_BOUND)
                    | _ \<Rightarrow> None)"

definition eps9 :: real where
  "eps9 = 1 / 10 ^ 9"

definition clamp1 :: "real \<Rightarrow> real" where
  "clamp1 x = max (-1) (min 1 x)"

definition strength_of :: "real \<Rightarrow> real \<Rightarrow> real" where
  "strength_of x scale = min (\<bar>x\<bar> / max scale eps9) 1"

definition momentum_evaluate :: "momentum_strategy \<Rightarrow> voter" where
  "momentum_evaluate st cs rg =
     (case momentum cs (mo_lookback st) of
        None \<Rightarrow> None
      | Some v \<Rightarrow>
          (let strength = strength_of v (mo_minimum_momentum st);
               sd = (if mo_minimum_momentum st \<le> v \<and> rg \<noteq> TRENDING_DOWN then Some BUY
                     else if v \<le> - mo_minimum_momentum st \<and> rg \<noteq> TRENDING_UP then Some SELL
                     else None)
           in Some \<lparr>sg_strategy_id = mo_strategy_id st, sg_symbol = c_symbol (last cs), sg_side = sd,
                 sg_score = clamp1 (v / max (mo_minimum_momentum st * 2) eps9),
                 sg_confidence = (if sd \<noteq> None then strength else 0), sg_regime = rg,
                 sg_rationale = [RMomentum (mo_lookback st) v], sg_signal_version = None\<rparr>))"

definition trend_evaluate :: "trend_strategy \<Rightarrow> voter" where
  "trend_evaluate st cs rg =
     (case (moving_average cs (tr_short_window st), moving_average cs (tr_long_window st)) of
        (Some short, Some long) \<Rightarrow>
          (let separation = short / long - 1;
               sd = (if tr_minimum_separation st \<le> separation \<and> rg = TRENDING_UP then Some BUY
                     else if separation \<le> - tr_minimum_separation st \<and> rg = TRENDING_DOWN then Some SELL
                     else None)
           in Some \<lparr>sg_strategy_id = tr_strategy_id st, sg_symbol = c_symbol (last cs), sg_side = sd,
                 sg_score = clamp1 (separation / max (tr_minimum_separation st * 2) eps9),
                 sg_confidence = (if sd \<noteq> None then strength_of separation (tr_minimum_separation st * 2) else 0),
                 sg_regime = rg, sg_rationale = [RMaSeparation separation], sg_signal_version = None\<rparr>)
      | _ \<Rightarrow> None)"

definition mean_reversion_evaluate :: "mean_reversion_strategy \<Rightarrow> voter" where
  "mean_reversion_evaluate st cs rg =
     (if length cs < mr_lookback st then None
      else
        (let closes = closes_of (tail_slice (mr_lookback st) cs)
         in if closes = [] then None
            else case zscore (last closes) closes of
                   None \<Rightarrow> None
                 | Some z \<Rightarrow>
                     (let sd = (if rg = RANGE_BOUND
                                then (if z \<le> - mr_entry_z st then Some BUY
                                      else if mr_entry_z st \<le> z then Some SELL else None)
                                else None)
                      in Some \<lparr>sg_strategy_id = mr_strategy_id st, sg_symbol = c_symbol (last cs), sg_side = sd,
                           sg_score = clamp1 (- z / max (mr_entry_z st * 2) eps9),
                           sg_confidence = (if sd \<noteq> None then strength_of z (mr_entry_z st * 2) else 0),
                           sg_regime = rg, sg_rationale = [RPriceZ z], sg_signal_version = None\<rparr>)))"

definition flat_signal :: "string \<Rightarrow> string \<Rightarrow> regime \<Rightarrow> rationale \<Rightarrow> strategy_signal" where
  "flat_signal sid symbol rg why =
     \<lparr>sg_strategy_id = sid, sg_symbol = symbol, sg_side = None, sg_score = 0, sg_confidence = 0,
      sg_regime = rg, sg_rationale = [why], sg_signal_version = None\<rparr>"

definition paper_research_evaluate :: "paper_research_strategy \<Rightarrow> voter" where
  "paper_research_evaluate st cs rg =
     (if length cs < max (pr_short_window st) (pr_long_window st) then None
      else case (moving_average cs (pr_short_window st), moving_average cs (pr_long_window st)) of
             (Some short, Some long) \<Rightarrow>
               (let close = c_close (last cs); symbol = c_symbol (last cs) in
                if short \<le> 0 \<or> long \<le> 0 \<or> close \<le> 0
                then Some (flat_signal (pr_strategy_id st) symbol rg RUnhealthyPrices)
                else
                  (let ma = short / long - 1; price = close / long - 1; m = pr_minimum_separation st in
                   if \<not> m \<le> \<bar>ma\<bar> \<and> \<not> m \<le> \<bar>price\<bar>
                   then Some (flat_signal (pr_strategy_id st) symbol rg (RPaperMaSeparation ma))
                   else
                     (let separation = (if m \<le> \<bar>ma\<bar> then ma else price);
                          why = (if m \<le> \<bar>ma\<bar> then RPaperMaSeparation ma else RPaperPriceVsLong price)
                      in Some \<lparr>sg_strategy_id = pr_strategy_id st, sg_symbol = symbol,
                           sg_side = Some (if 0 < separation then BUY else SELL),
                           sg_score = clamp1 (separation / max (m * 2) eps9),
                           sg_confidence = strength_of separation (m * 2), sg_regime = rg,
                           sg_rationale = [why], sg_signal_version = None\<rparr>)))
           | _ \<Rightarrow> None)"

fun collect_votes :: "voter list \<Rightarrow> candle list \<Rightarrow> regime \<Rightarrow> strategy_signal list option" where
  "collect_votes [] cs rg = Some []"
| "collect_votes (v # vs) cs rg =
     (case v cs rg of
        None \<Rightarrow> None
      | Some s \<Rightarrow> map_option (\<lambda>ss. s # ss) (collect_votes vs cs rg))"

definition ensemble_voters :: "strategy_ensemble \<Rightarrow> voter list" where
  "ensemble_voters e =
     (if en_suppress_defaults e then []
      else [momentum_evaluate (en_momentum e), trend_evaluate (en_trend e),
            mean_reversion_evaluate (en_mean_reversion e)]
         @ (case en_paper_research e of None \<Rightarrow> [] | Some p \<Rightarrow> [paper_research_evaluate p]))
   @ en_extra_voters e"

definition ensemble_evaluate ::
    "strategy_ensemble \<Rightarrow> candle list \<Rightarrow> (regime \<times> strategy_signal list) option" where
  "ensemble_evaluate e cs =
     (case classify (en_classifier e) cs of
        None \<Rightarrow> None
      | Some rg \<Rightarrow> map_option (\<lambda>ss. (rg, ss)) (collect_votes (ensemble_voters e) cs rg))"

text \<open>
  The outer option is \<open>ValueError\<close>; \<open>Some None\<close> is "no baseline is wired".
\<close>

definition paper_research_position ::
    "strategy_ensemble \<Rightarrow> candle list \<Rightarrow> (real \<times> regime \<times> string list) option option" where
  "paper_research_position e cs =
     (case en_paper_research e of
        None \<Rightarrow> Some None
      | Some p \<Rightarrow>
          (case classify (en_classifier e) cs of
             None \<Rightarrow> None
           | Some rg \<Rightarrow>
               (case paper_research_evaluate p cs rg of
                  None \<Rightarrow> None
                | Some s \<Rightarrow>
                    (case sg_side s of
                       None \<Rightarrow> Some (Some (0, rg, []))
                     | Some sd \<Rightarrow>
                         Some (Some (if sd = BUY then 1 else -1, rg, [sg_strategy_id s]))))))"

text \<open>
  \<open>combine_signals\<close>: the outer option is the \<open>ValueError\<close> of \<open>min_agreeing < 1\<close>, the inner one
  "no consensus".
\<close>

definition combine_signals ::
    "strategy_signal list \<Rightarrow> string \<Rightarrow> string option \<Rightarrow> nat \<Rightarrow> strategy_signal option option" where
  "combine_signals signals sid version min_agreeing =
     (if min_agreeing < 1 then None
      else
        (let actionable = filter (\<lambda>s. sg_side s \<noteq> None) signals;
             buys = filter (\<lambda>s. sg_side s = Some BUY) actionable;
             sells = filter (\<lambda>s. sg_side s = Some SELL) actionable;
             selected = (if length sells < length buys then buys else sells)
         in if actionable = [] then Some None
            else if length buys = length sells then Some None
            else if length selected < min_agreeing then Some None
            else Some (Some
              \<lparr>sg_strategy_id = sid, sg_symbol = sg_symbol (hd selected), sg_side = sg_side (hd selected),
               sg_score = clamp1 (py_sum (map sg_score selected) / real (length selected)),
               sg_confidence = py_sum (map sg_confidence selected) / real (length selected),
               sg_regime = sg_regime (hd selected),
               sg_rationale = concat (map sg_rationale selected), sg_signal_version = version\<rparr>)))"

definition consensus ::
    "string option \<Rightarrow> strategy_ensemble \<Rightarrow> strategy_signal list \<Rightarrow> strategy_signal option option" where
  "consensus version e signals =
     (let default = combine_signals signals ''baseline_ensemble_v1'' version (en_min_agreeing e)
      in case en_paper_research e of
           Some p \<Rightarrow>
             if en_min_agreeing e = 1
             then (case find (\<lambda>s. sg_strategy_id s = pr_strategy_id p) signals of
                     Some baseline \<Rightarrow>
                       if sg_side baseline \<noteq> None
                       then combine_signals (filter (\<lambda>s. sg_side s = sg_side baseline) signals)
                              ''baseline_ensemble_v1'' version 1
                       else default
                   | None \<Rightarrow> default)
             else default
         | None \<Rightarrow> default)"

section \<open>Lemmas\<close>

lemma clamp1_bounds: "-1 \<le> clamp1 x" "clamp1 x \<le> 1"
  by (simp_all add: clamp1_def)

lemma strength_bounds: "0 \<le> strength_of x s" "strength_of x s \<le> 1"
proof -
  have "0 < max s eps9" by (simp add: eps9_def)
  then show "0 \<le> strength_of x s" "strength_of x s \<le> 1" by (simp_all add: strength_of_def)
qed

lemmas signal_ranges = signal_valid_def clamp1_bounds strength_bounds

lemma voters_valid:
  "momentum_evaluate a cs rg = Some s \<Longrightarrow> signal_valid s"
  "trend_evaluate b cs rg = Some s \<Longrightarrow> signal_valid s"
  "mean_reversion_evaluate c cs rg = Some s \<Longrightarrow> signal_valid s"
  "paper_research_evaluate d cs rg = Some s \<Longrightarrow> signal_valid s"
     apply (auto simp: momentum_evaluate_def Let_def signal_ranges split: option.splits) [1]
    apply (auto simp: trend_evaluate_def Let_def signal_ranges split: option.splits) [1]
   apply (auto simp: mean_reversion_evaluate_def Let_def signal_ranges
      split: option.splits if_splits) [1]
  apply (auto simp: paper_research_evaluate_def Let_def signal_ranges flat_signal_def
      split: option.splits if_splits) [1]
  done

definition voters_honest :: "strategy_ensemble \<Rightarrow> bool" where
  "voters_honest e \<longleftrightarrow> (\<forall>v \<in> set (en_extra_voters e). \<forall>cs rg s. v cs rg = Some s \<longrightarrow> signal_valid s)"

lemma collect_votes_valid:
  assumes "collect_votes vs cs rg = Some ss"
    and "\<forall>v \<in> set vs. \<forall>s. v cs rg = Some s \<longrightarrow> signal_valid s"
  shows "list_all signal_valid ss"
  using assms by (induction vs arbitrary: ss) (auto split: option.splits)

lemma ensemble_signals_valid:
  assumes "ensemble_evaluate e cs = Some (rg, ss)" "voters_honest e"
  shows "list_all signal_valid ss"
proof -
  from assms(1) have c: "collect_votes (ensemble_voters e) cs rg = Some ss"
    by (auto simp: ensemble_evaluate_def split: option.splits)
  show ?thesis
    by (rule collect_votes_valid [OF c])
      (use assms(2) voters_valid in
        \<open>auto simp: ensemble_voters_def voters_honest_def split: if_splits option.splits\<close>)
qed

definition count_side :: "side \<Rightarrow> strategy_signal list \<Rightarrow> nat" where
  "count_side sd ss = length (filter (\<lambda>s. sg_side s = Some sd) ss)"

lemma filter_actionable:
  "filter (\<lambda>s. sg_side s = Some sd) (filter (\<lambda>s. sg_side s \<noteq> None) ss)
     = filter (\<lambda>s. sg_side s = Some sd) ss"
  by (induction ss) auto

lemma mean_confidence:
  assumes "list_all signal_valid ss" "ss \<noteq> []"
  shows "0 \<le> py_sum (map sg_confidence ss) / real (length ss)"
    "py_sum (map sg_confidence ss) / real (length ss) \<le> 1"
proof -
  have "mean (map sg_confidence ss) = Some (py_sum (map sg_confidence ss) / real (length ss))"
    using assms(2) by (simp add: mean_def)
  from mean_bounds [OF _ this, of 0 1] assms(1)
  show "0 \<le> py_sum (map sg_confidence ss) / real (length ss)"
    "py_sum (map sg_confidence ss) / real (length ss) \<le> 1"
    by (auto simp: list_all_iff signal_valid_def)
qed

lemma combine_signals_eq:
  assumes "1 \<le> n"
  shows "combine_signals ss sid v n =
    (let buys = filter (\<lambda>s. sg_side s = Some BUY) ss; sells = filter (\<lambda>s. sg_side s = Some SELL) ss;
         selected = (if length sells < length buys then buys else sells)
     in if length buys = length sells \<or> length selected < n then Some None
        else Some (Some
              \<lparr>sg_strategy_id = sid, sg_symbol = sg_symbol (hd selected), sg_side = sg_side (hd selected),
               sg_score = clamp1 (py_sum (map sg_score selected) / real (length selected)),
               sg_confidence = py_sum (map sg_confidence selected) / real (length selected),
               sg_regime = sg_regime (hd selected),
               sg_rationale = concat (map sg_rationale selected), sg_signal_version = v\<rparr>))"
proof -
  have empty: "filter (\<lambda>s. sg_side s = Some sd) ss = []"
    if "filter (\<lambda>s. sg_side s \<noteq> None) ss = []" for sd
    using that by (auto simp: filter_empty_conv)
  show ?thesis
    using assms unfolding combine_signals_def filter_actionable Let_def
    by (cases "filter (\<lambda>s. sg_side s \<noteq> None) ss = []") (auto simp: empty)
qed

lemma hd_filter_side: "filter (\<lambda>s. sg_side s = Some sd) ss \<noteq> [] \<Longrightarrow>
  sg_side (hd (filter (\<lambda>s. sg_side s = Some sd) ss)) = Some sd"
  using hd_in_set [of "filter (\<lambda>s. sg_side s = Some sd) ss"] by auto

lemma combine_signals_none:
  "1 \<le> n \<Longrightarrow> combine_signals ss sid v n = Some None \<longleftrightarrow>
     count_side BUY ss = count_side SELL ss \<or> max (count_side BUY ss) (count_side SELL ss) < n"
  by (auto simp: combine_signals_eq Let_def count_side_def max_def)

lemma combine_signals_some:
  assumes "1 \<le> n" "combine_signals ss sid v n = Some (Some c)"
  shows "sg_side c = Some (if count_side SELL ss < count_side BUY ss then BUY else SELL)"
    and "list_all signal_valid ss \<Longrightarrow> signal_valid c"
proof -
  let ?sd = "if count_side SELL ss < count_side BUY ss then BUY else SELL"
  let ?sel = "filter (\<lambda>s. sg_side s = Some ?sd) ss"
  have ne: "?sel \<noteq> []" and c: "sg_side c = sg_side (hd ?sel)"
    "sg_score c = clamp1 (py_sum (map sg_score ?sel) / real (length ?sel))"
    "sg_confidence c = py_sum (map sg_confidence ?sel) / real (length ?sel)"
    using assms by (auto simp: combine_signals_eq Let_def count_side_def split: if_splits)
  from c(1) hd_filter_side [OF ne] show "sg_side c = Some ?sd" by simp
  assume "list_all signal_valid ss"
  then have "list_all signal_valid ?sel" by (auto simp: list_all_iff)
  from mean_confidence [OF this ne] c(2,3) show "signal_valid c"
    by (simp add: signal_valid_def clamp1_bounds)
qed

section \<open>Properties\<close>

text \<open>
  Consensus fails closed. Combining votes yields no signal exactly when buys and sells tie or
  the majority is smaller than \<open>min_agreeing\<close>; otherwise the combined signal takes the strict
  majority's side, and its score and confidence stay in range if the votes' did.
\<close>

theorem combine_signals_consensus:
  assumes "1 \<le> n" and "list_all signal_valid ss"
  shows "\<exists>r. combine_signals ss sid v n = Some r
    \<and> (r = None \<longleftrightarrow> count_side BUY ss = count_side SELL ss
         \<or> max (count_side BUY ss) (count_side SELL ss) < n)
    \<and> (\<forall>c. r = Some c \<longrightarrow> signal_valid c
         \<and> sg_side c = Some (if count_side SELL ss < count_side BUY ss then BUY else SELL))"
proof -
  obtain r where r: "combine_signals ss sid v n = Some r"
    using assms(1) by (simp add: combine_signals_eq Let_def) (metis)
  with combine_signals_none [OF assms(1), of ss sid v] combine_signals_some [OF assms(1), of ss sid v] assms(2)
  show ?thesis by auto
qed

definition ex_signal :: "side option \<Rightarrow> strategy_signal" where
  "ex_signal sd = \<lparr>sg_strategy_id = ''x'', sg_symbol = ''BTC/USD'', sg_side = sd, sg_score = 1 / 2,
     sg_confidence = 1 / 2, sg_regime = RANGE_BOUND, sg_rationale = [], sg_signal_version = None\<rparr>"

theorem combine_signals_consensus_witness:
  "combine_signals [ex_signal (Some BUY), ex_signal (Some SELL)] ''e'' None 1 = Some None"
proof -
  have "list_all signal_valid [ex_signal (Some BUY), ex_signal (Some SELL)]"
    by (simp add: ex_signal_def signal_valid_def)
  from combine_signals_consensus [OF _ this, of 1 "''e''" None] show ?thesis
    by (auto simp: count_side_def ex_signal_def)
qed

lemma consensus_valid:
  assumes "consensus v e ss = Some (Some c)" "list_all signal_valid ss"
  shows "signal_valid c"
proof -
  have "\<exists>ss' n. 1 \<le> n \<and> list_all signal_valid ss' \<and>
    combine_signals ss' ''baseline_ensemble_v1'' v n = Some (Some c)"
  proof -
    have sub: "list_all signal_valid (filter P ss)" for P using assms(2) by (auto simp: list_all_iff)
    have pos: "1 \<le> n" if "combine_signals ss sid v n = Some (Some c)" for sid n
      using that by (auto simp: combine_signals_def split: if_splits)
    from assms sub pos show ?thesis
      unfolding consensus_def Let_def
      by (auto split: option.splits if_splits) (metis order_refl sub)+
  qed
  then show ?thesis using combine_signals_some(2) by blast
qed

end
