(* ===== verification/Py_Number.thy ===== *)
theory Py_Number
  imports Prelude
begin

text \<open>
  \<open>float(text)\<close> and \<open>float(int)\<close> as the venue adapters use them on JSON values. The text forms are
  those of Python: surrounding whitespace, a sign, digits with single underscores between them, a
  fraction, an exponent, and the names of the non-finite values. A magnitude that rounds past the
  largest double becomes infinite when it comes from text; \<open>float\<close> of such an integer raises.
\<close>

definition is_float_digit :: "char \<Rightarrow> bool" where
  "is_float_digit c = (let n = (of_char c :: nat) in 48 \<le> n \<and> n \<le> 57)"

definition digit_value :: "char \<Rightarrow> nat" where
  "digit_value c = of_char c - 48"

text \<open>Read a run of digits: the accumulated value, how many digits were read, the rest.\<close>

fun read_digits :: "nat \<Rightarrow> nat \<Rightarrow> string \<Rightarrow> nat \<times> nat \<times> string" where
  "read_digits v n [] = (v, n, [])"
| "read_digits v n (c # cs) =
     (if is_float_digit c then read_digits (10 * v + digit_value c) (Suc n) cs
      else if c = CHR ''_'' \<and> n \<noteq> 0
      then (case cs of
              [] \<Rightarrow> (v, n, c # cs)
            | d # ds \<Rightarrow> if is_float_digit d then read_digits (10 * v + digit_value d) (Suc n) ds
                       else (v, n, c # cs))
      else (v, n, c # cs))"

definition read_sign :: "string \<Rightarrow> bool \<times> string" where
  "read_sign s = (case s of
     [] \<Rightarrow> (False, s)
   | c # cs \<Rightarrow> if c = CHR ''-'' then (True, cs) else if c = CHR ''+'' then (False, cs) else (False, s))"

definition read_exponent :: "string \<Rightarrow> int option" where
  "read_exponent s = (case s of
     [] \<Rightarrow> Some 0
   | c # cs \<Rightarrow>
       if c \<noteq> CHR ''e'' \<and> c \<noteq> CHR ''E'' then None
       else (let (neg, r) = read_sign cs; (v, n, rest) = read_digits 0 0 r
             in if n = 0 \<or> rest \<noteq> [] then None else Some (if neg then - int v else int v)))"

definition float_limit :: real where
  "float_limit = (2 - 1 / 2 ^ 53) * 2 ^ 1023"

definition to_float :: "real \<Rightarrow> pyfloat" where
  "to_float r = (if \<bar>r\<bar> < float_limit then Fin r else NonFinite)"

definition scale10 :: "nat \<Rightarrow> int \<Rightarrow> real" where
  "scale10 v e = (if 0 \<le> e then of_nat v * 10 ^ nat e else of_nat v / 10 ^ nat (- e))"

definition parse_float :: "string \<Rightarrow> pyfloat option" where
  "parse_float s =
     (let (neg, u) = read_sign (strip s)
      in if lower u \<in> {''inf'', ''infinity'', ''nan''} then Some NonFinite
         else
           (let (v, n, r) = read_digits 0 0 u;
                (v', m, r') = (case r of
                                 [] \<Rightarrow> (v, 0, r)
                               | c # cs \<Rightarrow> if c = CHR ''.'' then read_digits v 0 cs else (v, 0, r))
            in if n + m = 0 then None
               else case read_exponent r' of
                      None \<Rightarrow> None
                    | Some e \<Rightarrow>
                        (let x = scale10 v' (e - int m) in Some (to_float (if neg then - x else x)))))"

text \<open>\<open>float(value)\<close> of a JSON integer; \<open>None\<close> is \<open>OverflowError\<close>.\<close>

definition int_to_float :: "int \<Rightarrow> real option" where
  "int_to_float n = (if \<bar>of_int n\<bar> < float_limit then Some (of_int n) else None)"

section \<open>Reading back what was written\<close>

lemma digit_char [simp]: "n < 10 \<Longrightarrow> is_float_digit (char_of (48 + n))" "n < 10 \<Longrightarrow> digit_value (char_of (48 + n)) = n"
  by (simp_all add: is_float_digit_def digit_value_def Let_def)

lemma read_digits_append:
  "(\<And>c. c \<in> set ds \<Longrightarrow> is_float_digit c) \<Longrightarrow>
     read_digits v n (ds @ s) = read_digits (foldl (\<lambda>a c. 10 * a + digit_value c) v ds) (n + length ds) s"
  by (induction ds arbitrary: v n) simp_all

lemma show_nat_digits: "c \<in> set (show_nat n) \<Longrightarrow> is_float_digit c"
proof (induction n rule: show_nat.induct)
  case (1 n)
  then show ?case by (cases "n < 10") (auto simp: show_nat.simps [of n])
qed

lemma show_nat_value: "foldl (\<lambda>a c. 10 * a + digit_value c) 0 (show_nat n) = n"
proof (induction n rule: show_nat.induct)
  case (1 n)
  then show ?case by (cases "n < 10") (simp_all add: show_nat.simps [of n])
qed

lemma read_digits_show: "read_digits 0 0 (show_nat n) = (n, length (show_nat n), [])"
  using read_digits_append [of "show_nat n" 0 0 "[]"] show_nat_digits show_nat_value by simp

end
