(* ===== verification/Backtest.thy ===== *)
theory Backtest
  imports Strategies Py_Number "HOL-Library.Sublist"
begin

text \<open>
  The point-in-time backtester (\<open>backtest.py\<close>) and the cost models it charges
  (\<open>research/costs.py\<close>). A raise is a value of \<open>py_error\<close>; a pydantic \<open>ValidationError\<close> is a
  \<open>ValueError\<close>. The nested functions \<open>open_position\<close> and \<open>close_position\<close> share the local
  variables of \<open>simulate_positions\<close>, which are the record \<open>sim_state\<close>.
\<close>

section \<open>Cost models\<close>

type_synonym cost_model = "candle \<Rightarrow> real \<Rightarrow> real"

record flat_cost_model =
  fc_fee_bps :: real
  fc_slippage_bps :: real

definition flat_cost_bps :: "flat_cost_model \<Rightarrow> cost_model" where
  "flat_cost_bps m c notional = fc_fee_bps m + fc_slippage_bps m"

record volume_cost_model =
  vc_fee_bps :: real
  vc_base_slippage_bps :: real
  vc_participation_sensitivity_bps :: real
  vc_max_slippage_bps :: real

definition volume_cost_bps :: "volume_cost_model \<Rightarrow> cost_model" where
  "volume_cost_bps m c notional =
     (let bar_notional = c_close c * c_volume c;
          participation = (if 0 < bar_notional then notional / bar_notional else 1);
          slippage = vc_base_slippage_bps m + participation * vc_participation_sensitivity_bps m
      in vc_fee_bps m + min (max slippage 0) (vc_max_slippage_bps m))"

section \<open>Data\<close>

record backtest_trade =
  bt_entry_time :: datetime
  bt_exit_time :: datetime
  bt_entry_price :: real
  bt_exit_price :: real
  bt_side :: side
  bt_return_pct :: real
  bt_regime :: regime
  bt_strategy_ids :: "string list"
  bt_notional_usd :: real
  bt_fees_paid :: real

definition trade_valid :: "backtest_trade \<Rightarrow> bool" where
  "trade_valid t \<longleftrightarrow>
     0 < bt_entry_price t \<and> 0 < bt_exit_price t \<and> 0 \<le> bt_notional_usd t \<and> 0 \<le> bt_fees_paid t"

record backtest_metrics =
  bm_starting_equity :: real
  bm_ending_equity :: real
  bm_total_return :: real
  bm_benchmark_return :: real
  bm_excess_return :: real
  bm_max_drawdown :: real
  bm_sharpe :: real
  bm_trades :: nat
  bm_sortino :: real
  bm_calmar :: real
  bm_profit_factor :: real
  bm_expectancy :: real
  bm_annualized_volatility :: real
  bm_turnover :: real
  bm_total_fees :: real
  bm_trade_log :: "backtest_trade list"

definition metrics_valid :: "backtest_metrics \<Rightarrow> bool" where
  "metrics_valid m \<longleftrightarrow>
     0 < bm_starting_equity m \<and> 0 < bm_ending_equity m \<and> 0 \<le> bm_max_drawdown m
   \<and> 0 \<le> bm_annualized_volatility m \<and> 0 \<le> bm_turnover m \<and> 0 \<le> bm_total_fees m"

record sim_state =
  sm_equity :: real
  sm_peak :: real
  sm_max_drawdown :: real
  sm_position :: real
  sm_entry_price :: real
  sm_entry_time :: datetime
  sm_entry_regime :: regime
  sm_entry_strategy_ids :: "string list"
  sm_entry_notional :: real
  sm_entry_fees :: real
  sm_returns :: "real list"
  sm_trade_log :: "backtest_trade list"
  sm_total_fees :: real
  sm_total_turnover :: real

section \<open>Statistics\<close>

definition mean0 :: "real list \<Rightarrow> real" where
  "mean0 xs = (if xs \<noteq> [] then py_sum xs / real (length xs) else 0)"

definition std0 :: "real list \<Rightarrow> real" where
  "std0 xs =
     (if length xs < 2 then 0
      else (let avg = mean0 xs;
                variance = py_sum (map (\<lambda>v. (v - avg)\<^sup>2) xs) / real (length xs - 1)
            in if 0 < variance then sqrt variance else 0))"

definition sharpe_of :: "real list \<Rightarrow> real \<Rightarrow> real" where
  "sharpe_of returns periods =
     (if length returns < 2 then 0
      else (let deviation = std0 returns
            in if deviation \<le> 0 then 0 else mean0 returns / deviation * sqrt periods))"

definition sortino_of :: "real list \<Rightarrow> real \<Rightarrow> real" where
  "sortino_of returns periods =
     (if length returns < 2 then 0
      else (let downside = filter (\<lambda>v. v < 0) returns
            in if downside = [] then 0
               else (let deviation = sqrt (py_sum (map (\<lambda>v. v\<^sup>2) downside) / real (length returns))
                     in if deviation \<le> 0 then 0 else mean0 returns / deviation * sqrt periods)))"

section \<open>The simulation\<close>

type_synonym position_decision = "candle list \<Rightarrow> py_error + (real \<times> regime \<times> string list)"

definition equity_floor :: real where
  "equity_floor = 1 / 10 ^ 9"

definition close_position :: "cost_model \<Rightarrow> candle \<Rightarrow> real \<Rightarrow> sim_state \<Rightarrow> py_error + sim_state" where
  "close_position model exit_candle exit_price s =
     (let notional = sm_equity s; exit_friction = model exit_candle notional / 10000
      in bindr (py_div exit_price (sm_entry_price s)) (\<lambda>ratio.
         let pnl = sm_position s * (ratio - 1);
             equity = notional * max (1 + pnl - exit_friction) equity_floor;
             fees = notional * exit_friction;
             return_pct = (if 0 < sm_entry_notional s then equity / sm_entry_notional s - 1 else 0);
             trade = \<lparr>bt_entry_time = sm_entry_time s, bt_exit_time = c_opened_at exit_candle,
               bt_entry_price = sm_entry_price s, bt_exit_price = exit_price,
               bt_side = (if 0 < sm_position s then BUY else SELL), bt_return_pct = return_pct,
               bt_regime = sm_entry_regime s, bt_strategy_ids = sm_entry_strategy_ids s,
               bt_notional_usd = sm_entry_notional s, bt_fees_paid = sm_entry_fees s + fees\<rparr>
         in if \<not> trade_valid trade then Inl ValueError
            else Inr (s\<lparr>sm_equity := equity, sm_total_fees := sm_total_fees s + fees,
                        sm_total_turnover := sm_total_turnover s + notional,
                        sm_trade_log := sm_trade_log s @ [trade]\<rparr>)))"

definition open_position ::
    "cost_model \<Rightarrow> candle \<Rightarrow> real \<Rightarrow> real \<Rightarrow> regime \<Rightarrow> string list \<Rightarrow> sim_state \<Rightarrow> sim_state" where
  "open_position model entry_candle price weight rg ids s =
     (let notional = sm_equity s; friction = model entry_candle notional / 10000;
          fees = notional * friction
      in s\<lparr>sm_equity := notional * (1 - friction), sm_total_fees := sm_total_fees s + fees,
           sm_total_turnover := sm_total_turnover s + notional, sm_position := weight,
           sm_entry_price := price, sm_entry_time := c_opened_at entry_candle,
           sm_entry_regime := rg, sm_entry_strategy_ids := ids,
           sm_entry_notional := notional, sm_entry_fees := fees\<rparr>)"

definition track_drawdown :: "sim_state \<Rightarrow> py_error + sim_state" where
  "track_drawdown s =
     (let peak = max (sm_peak s) (sm_equity s)
      in bindr (py_div (sm_equity s) peak) (\<lambda>q.
           Inr (s\<lparr>sm_peak := peak, sm_max_drawdown := max (sm_max_drawdown s) (1 - q)\<rparr>)))"

definition rebalance ::
    "cost_model \<Rightarrow> real \<Rightarrow> candle \<Rightarrow> real \<Rightarrow> regime \<Rightarrow> string list \<Rightarrow> sim_state \<Rightarrow> py_error + sim_state" where
  "rebalance model threshold nxt weight rg ids s =
     (if threshold < \<bar>weight - sm_position s\<bar>
      then bindr (if sm_position s \<noteq> 0 then close_position model nxt (c_open nxt) s else Inr s) (\<lambda>s1.
             Inr (if weight \<noteq> 0 then open_position model nxt (c_open nxt) weight rg ids s1
                  else s1\<lparr>sm_position := 0\<rparr>))
      else Inr s)"

text \<open>One bar: \<open>decide\<close> is handed the candles up to and including the bar, the fill is on the next one.\<close>

definition sim_bar ::
    "candle list \<Rightarrow> position_decision \<Rightarrow> cost_model \<Rightarrow> real \<Rightarrow> nat \<Rightarrow> sim_state \<Rightarrow> py_error + sim_state" where
  "sim_bar cs decide model threshold index s =
     bindr (decide (take (index + 1) cs)) (\<lambda>(weight, rg, ids).
     bindr (rebalance model threshold (cs ! (index + 1)) weight rg ids s) (\<lambda>s1.
     bindr (py_div (sm_equity s1) (sm_equity s)) (\<lambda>q.
     track_drawdown (s1\<lparr>sm_returns := sm_returns s1 @ [q - 1]\<rparr>))))"

fun sim_loop ::
    "candle list \<Rightarrow> position_decision \<Rightarrow> cost_model \<Rightarrow> real \<Rightarrow> nat list \<Rightarrow> sim_state \<Rightarrow> py_error + sim_state" where
  "sim_loop cs decide model threshold [] s = Inr s"
| "sim_loop cs decide model threshold (i # is) s =
     bindr (sim_bar cs decide model threshold i s) (sim_loop cs decide model threshold is)"

definition sim_init :: "real \<Rightarrow> candle \<Rightarrow> sim_state" where
  "sim_init starting_equity first =
     \<lparr>sm_equity = starting_equity, sm_peak = starting_equity, sm_max_drawdown = 0, sm_position = 0,
      sm_entry_price = 0, sm_entry_time = c_opened_at first, sm_entry_regime = RANGE_BOUND,
      sm_entry_strategy_ids = [], sm_entry_notional = 0, sm_entry_fees = 0, sm_returns = [],
      sm_trade_log = [], sm_total_fees = 0, sm_total_turnover = 0\<rparr>"

text \<open>The position left open at the end is closed at the last close.\<close>

definition sim_finish :: "candle list \<Rightarrow> cost_model \<Rightarrow> sim_state \<Rightarrow> py_error + sim_state" where
  "sim_finish cs model s =
     (if sm_position s \<noteq> 0
      then bindr (close_position model (last cs) (c_close (last cs)) s) track_drawdown
      else Inr s)"

definition profit_factor_of :: "real list \<Rightarrow> real" where
  "profit_factor_of rs =
     (let gains = filter (\<lambda>r. 0 < r) rs; losses = filter (\<lambda>r. r < 0) rs;
          gross_loss = \<bar>py_sum losses\<bar>
      in if 1 / 10 ^ 12 < gross_loss then py_sum gains / gross_loss
         else if gains \<noteq> [] then py_sum gains else 0)"

text \<open>\<open>x ** y\<close> of a positive float: a result past the largest double raises.\<close>

definition py_pow :: "real \<Rightarrow> real \<Rightarrow> py_error + real" where
  "py_pow x y = (if x powr y < float_limit then Inr (x powr y) else Inl OverflowError)"

definition sim_metrics ::
    "candle list \<Rightarrow> real \<Rightarrow> nat \<Rightarrow> real \<Rightarrow> sim_state \<Rightarrow> py_error + backtest_metrics" where
  "sim_metrics cs starting_equity warmup periods s =
     bindr (py_div (sm_equity s) starting_equity) (\<lambda>growth.
     bindr (py_div (c_close (last cs)) (c_open (cs ! warmup))) (\<lambda>held.
     bindr (if 0 < sm_equity s
            then bindr (py_pow growth (periods / real (max (length cs - warmup) 1))) (\<lambda>g. Inr (g - 1))
            else Inr (-1)) (\<lambda>annualized_return.
       let total_return = growth - 1; benchmark_return = held - 1;
           trade_returns = map bt_return_pct (sm_trade_log s);
           m = \<lparr>bm_starting_equity = starting_equity, bm_ending_equity = sm_equity s,
             bm_total_return = total_return, bm_benchmark_return = benchmark_return,
             bm_excess_return = total_return - benchmark_return, bm_max_drawdown = sm_max_drawdown s,
             bm_sharpe = sharpe_of (sm_returns s) periods, bm_trades = length (sm_trade_log s),
             bm_sortino = sortino_of (sm_returns s) periods,
             bm_calmar = (if 0 < sm_max_drawdown s then annualized_return / sm_max_drawdown s else 0),
             bm_profit_factor = profit_factor_of trade_returns, bm_expectancy = mean0 trade_returns,
             bm_annualized_volatility = std0 (sm_returns s) * sqrt periods,
             bm_turnover = sm_total_turnover s / starting_equity,
             bm_total_fees = sm_total_fees s, bm_trade_log = sm_trade_log s\<rparr>
       in if metrics_valid m then Inr m else Inl ValueError)))"

definition simulate_positions ::
    "candle list \<Rightarrow> position_decision \<Rightarrow> real \<Rightarrow> nat \<Rightarrow> cost_model option \<Rightarrow> real \<Rightarrow> real \<Rightarrow> real
       \<Rightarrow> py_error + backtest_metrics" where
  "simulate_positions cs decide starting_equity warmup cost fee_bps slippage_bps threshold =
     (if length cs \<le> warmup then Inl ValueError
      else
        (let model = opt_or cost (flat_cost_bps \<lparr>fc_fee_bps = fee_bps, fc_slippage_bps = slippage_bps\<rparr>)
         in case periods_per_year (c_interval (hd cs)) of
              None \<Rightarrow> Inl ValueError
            | Some periods \<Rightarrow>
                bindr (sim_loop cs decide model threshold [warmup..<length cs - 1]
                         (sim_init starting_equity (cs ! warmup))) (\<lambda>s.
                bindr (sim_finish cs model s) (sim_metrics cs starting_equity warmup periods))))"

section \<open>The ensemble backtester\<close>

record baseline_backtester =
  bb_ensemble :: strategy_ensemble
  bb_starting_equity :: real
  bb_fee_bps :: real
  bb_slippage_bps :: real
  bb_warmup :: nat
  bb_cost_model :: "cost_model option"

definition of_value_error :: "'a option \<Rightarrow> py_error + 'a" where
  "of_value_error x = (case x of None \<Rightarrow> Inl ValueError | Some v \<Rightarrow> Inr v)"

definition baseline_decide ::
    "(strategy_ensemble \<Rightarrow> string option) \<Rightarrow> strategy_ensemble \<Rightarrow> position_decision" where
  "baseline_decide version e window =
     bindr (of_value_error (paper_research_position e window)) (\<lambda>isolated.
       case isolated of
         Some d \<Rightarrow> Inr d
       | None \<Rightarrow>
           bindr (of_value_error (ensemble_evaluate e window)) (\<lambda>(rg, signals).
           bindr (of_value_error (consensus (version e) e signals)) (\<lambda>c.
             case (case c of None \<Rightarrow> None | Some k \<Rightarrow> sg_side k) of
               None \<Rightarrow> Inr (0, rg, [])
             | Some sd \<Rightarrow>
                 Inr (if sd = BUY then 1 else -1, rg,
                      map sg_strategy_id (filter (\<lambda>s. sg_side s = Some sd) signals)))))"

definition rebalance_threshold :: real where
  "rebalance_threshold = 1 / 10 ^ 9"

definition backtester_run ::
    "(strategy_ensemble \<Rightarrow> string option) \<Rightarrow> baseline_backtester \<Rightarrow> candle list \<Rightarrow> nat option
       \<Rightarrow> py_error + backtest_metrics" where
  "backtester_run version b cs warmup =
     simulate_positions cs (baseline_decide version (bb_ensemble b)) (bb_starting_equity b)
       (opt_or warmup (bb_warmup b)) (bb_cost_model b) (bb_fee_bps b) (bb_slippage_bps b)
       rebalance_threshold"

section \<open>The cost contract\<close>

text \<open>
  What the backtester relies on from a cost model (the protocol \<open>CostModel\<close>): on a real candle a
  fill of positive size costs something between nothing and less than its notional.
\<close>

locale cost_contract =
  fixes model :: cost_model
  assumes cost_nonneg: "candle_valid c \<Longrightarrow> 0 < n \<Longrightarrow> 0 \<le> model c n"
    and cost_below: "candle_valid c \<Longrightarrow> 0 < n \<Longrightarrow> model c n < 10000"

text \<open>The state between two bars.\<close>

definition sim_core :: "sim_state \<Rightarrow> bool" where
  "sim_core s \<longleftrightarrow>
     0 < sm_equity s \<and> 0 < sm_peak s \<and> 0 \<le> sm_max_drawdown s \<and> sm_max_drawdown s < 1
   \<and> (sm_position s \<noteq> 0 \<longrightarrow> 0 < sm_entry_price s)
   \<and> 0 \<le> sm_entry_notional s \<and> 0 \<le> sm_entry_fees s
   \<and> 0 \<le> sm_total_fees s \<and> 0 \<le> sm_total_turnover s \<and> list_all trade_valid (sm_trade_log s)"

lemma equity_floor_pos: "0 < equity_floor"
  by (simp add: equity_floor_def)

lemma track_drawdown_core:
  assumes "sim_core s"
  shows "\<exists>s'. track_drawdown s = Inr s' \<and> sim_core s'"
proof -
  have pk: "0 < max (sm_peak s) (sm_equity s)" using assms by (auto simp: sim_core_def)
  have "0 < sm_equity s / max (sm_peak s) (sm_equity s)"
    using pk assms by (simp add: sim_core_def)
  with assms pk show ?thesis
    by (auto simp: track_drawdown_def sim_core_def Let_def)
qed

text \<open>The factor per year that the report annualises the growth to.\<close>

definition annual_growth :: "candle list \<Rightarrow> nat \<Rightarrow> real \<Rightarrow> real \<Rightarrow> real \<Rightarrow> real" where
  "annual_growth cs warmup periods starting_equity equity =
     (equity / starting_equity) powr (periods / real (length cs - warmup))"

text \<open>
  On candles that all open at one price, with weights of at most one, only the final close can gain.
\<close>

definition flat_at :: "real \<Rightarrow> real \<Rightarrow> sim_state \<Rightarrow> bool" where
  "flat_at x e s \<longleftrightarrow> sm_equity s \<le> e \<and> \<bar>sm_position s\<bar> \<le> 1 \<and> (sm_position s \<noteq> 0 \<longrightarrow> sm_entry_price s = x)"

context cost_contract
begin

lemma friction_bounds:
  "candle_valid c \<Longrightarrow> 0 < n \<Longrightarrow> 0 \<le> model c n / 10000 \<and> model c n / 10000 < 1"
  using cost_nonneg [of c n] cost_below [of c n] by simp

lemma close_position_core:
  assumes "sim_core s" "sm_position s \<noteq> 0" "candle_valid c" "0 < price"
  shows "\<exists>s'. close_position model c price s = Inr s' \<and> sim_core s'"
proof -
  let ?f = "model c (sm_equity s) / 10000"
  from assms(1) have e: "0 < sm_equity s" and ep: "0 < sm_entry_price s"
    using assms(2) by (auto simp: sim_core_def)
  from friction_bounds [OF assms(3) e] have f: "0 \<le> sm_equity s * ?f" using e by simp
  have m: "0 < sm_equity s * max (1 + sm_position s * (price / sm_entry_price s - 1) - ?f) equity_floor"
    using e equity_floor_pos by (simp add: less_max_iff_disj)
  from ep have d: "py_div price (sm_entry_price s) = Inr (price / sm_entry_price s)" by simp
  show ?thesis
    unfolding close_position_def Let_def d bindr_simps
    using assms e ep f m by (auto simp: trade_valid_def sim_core_def)
qed

lemma open_position_core:
  assumes "sim_core s" "candle_valid c" "0 < price"
  shows "sim_core (open_position model c price w rg ids s)"
proof -
  from assms(1) have e: "0 < sm_equity s" by (simp add: sim_core_def)
  from friction_bounds [OF assms(2) e] e
  have "0 \<le> sm_equity s * (model c (sm_equity s) / 10000)"
    "0 < sm_equity s * (1 - model c (sm_equity s) / 10000)" by simp_all
  with assms show ?thesis by (simp add: open_position_def sim_core_def Let_def)
qed

lemma rebalance_core:
  assumes "sim_core s" "candle_valid nxt"
  shows "\<exists>s'. rebalance model th nxt w rg ids s = Inr s' \<and> sim_core s'"
proof -
  have o: "0 < c_open nxt" using assms(2) by (simp add: candle_valid_def)
  obtain s1 where s1: "(if sm_position s \<noteq> 0 then close_position model nxt (c_open nxt) s else Inr s) = Inr s1"
    and core: "sim_core s1"
    using close_position_core [OF assms(1) _ assms(2) o] assms(1) by (cases "sm_position s = 0") auto
  have "sim_core (s1\<lparr>sm_position := 0\<rparr>)" using core by (simp add: sim_core_def)
  with open_position_core [OF core assms(2) o] show ?thesis
    unfolding rebalance_def s1 bindr_simps using assms(1) by auto
qed

lemma sim_bar_core:
  assumes "sim_core s" "list_all candle_valid cs" "Suc i < length cs"
    and "\<exists>d. decide (take (Suc i) cs) = Inr d"
  shows "\<exists>s'. sim_bar cs decide model th i s = Inr s' \<and> sim_core s'"
proof -
  from assms(4) obtain w rg ids where d: "decide (take (i + 1) cs) = Inr (w, rg, ids)" by auto
  have nv: "candle_valid (cs ! (i + 1))" using assms(2,3) by (simp add: list_all_length)
  from rebalance_core [OF assms(1) nv] obtain s1 where
    r: "rebalance model th (cs ! (i + 1)) w rg ids s = Inr s1" and c: "sim_core s1" by blast
  have q: "py_div (sm_equity s1) (sm_equity s) = Inr (sm_equity s1 / sm_equity s)"
    using assms(1) by (simp add: sim_core_def)
  have "sim_core (s1\<lparr>sm_returns := sm_returns s1 @ [sm_equity s1 / sm_equity s - 1]\<rparr>)"
    using c by (simp add: sim_core_def)
  from track_drawdown_core [OF this] show ?thesis
    unfolding sim_bar_def d bindr_simps prod.case r q by simp
qed

lemma sim_loop_core:
  assumes "sim_core s" "list_all candle_valid cs"
    and "\<forall>i \<in> set is. Suc i < length cs \<and> (\<exists>d. decide (take (Suc i) cs) = Inr d)"
  shows "\<exists>s'. sim_loop cs decide model th is s = Inr s' \<and> sim_core s'"
  using assms(1,3)
proof (induction "is" arbitrary: s)
  case (Cons i "is")
  from Cons.prems(2) have "Suc i < length cs" "\<exists>d. decide (take (Suc i) cs) = Inr d" by simp_all
  from sim_bar_core [where i = i and decide = decide, OF Cons.prems(1) assms(2) this] obtain s1 where
    "sim_bar cs decide model th i s = Inr s1" "sim_core s1" by blast
  with Cons show ?case by simp
qed simp

lemma sim_finish_core:
  assumes "sim_core s" "list_all candle_valid cs" "cs \<noteq> []"
  shows "\<exists>s'. sim_finish cs model s = Inr s' \<and> sim_core s'"
proof (cases "sm_position s = 0")
  case False
  have lv: "candle_valid (last cs)" using assms(2,3) by (simp add: list_all_iff)
  then have "0 < c_close (last cs)" by (simp add: candle_valid_def)
  from close_position_core [OF assms(1) False lv this] track_drawdown_core False show ?thesis
    by (auto simp: sim_finish_def)
qed (use assms in \<open>simp add: sim_finish_def\<close>)

lemma sim_metrics_outcome:
  assumes "sim_core t" "0 < starting_equity" "warmup < length cs" "c_open (cs ! warmup) \<noteq> 0" "0 < periods"
  shows "if annual_growth cs warmup periods starting_equity (sm_equity t) < float_limit
    then \<exists>m. sim_metrics cs starting_equity warmup periods t = Inr m \<and> metrics_valid m
           \<and> bm_max_drawdown m < 1 \<and> list_all trade_valid (bm_trade_log m) \<and> bm_ending_equity m = sm_equity t
    else sim_metrics cs starting_equity warmup periods t = Inl OverflowError"
proof -
  have std: "0 \<le> std0 (sm_returns t) * sqrt periods"
    using assms(5) by (simp add: std0_def Let_def)
  have bars: "max (length cs - warmup) 1 = length cs - warmup" using assms(3) by simp
  show ?thesis
    using assms std unfolding sim_metrics_def bars
    by (simp add: py_pow_def annual_growth_def Let_def metrics_valid_def sim_core_def)
qed

text \<open>
  A run on real candles with a decision for every window ends with positive equity; it returns its
  report unless the annualised growth is past the largest float.
\<close>

lemma simulate_outcome:
  assumes "list_all candle_valid cs" and "warmup < length cs" and "0 < starting_equity"
    and "periods_per_year (c_interval (hd cs)) = Some periods"
    and "\<And>n. warmup < n \<Longrightarrow> n < length cs \<Longrightarrow> \<exists>d. decide (take n cs) = Inr d"
  shows "\<exists>s t. sim_loop cs decide model th [warmup..<length cs - 1] (sim_init starting_equity (cs ! warmup)) = Inr s
    \<and> sim_finish cs model s = Inr t \<and> 0 < sm_equity t
    \<and> (if annual_growth cs warmup periods starting_equity (sm_equity t) < float_limit
       then \<exists>m. simulate_positions cs decide starting_equity warmup (Some model) fee slip th = Inr m
              \<and> metrics_valid m \<and> bm_max_drawdown m < 1 \<and> list_all trade_valid (bm_trade_log m)
              \<and> bm_ending_equity m = sm_equity t
       else simulate_positions cs decide starting_equity warmup (Some model) fee slip th = Inl OverflowError)"
proof -
  have init: "sim_core (sim_init starting_equity (cs ! warmup))"
    using assms(3) by (simp add: sim_core_def sim_init_def)
  have "\<forall>i \<in> set [warmup..<length cs - 1]. Suc i < length cs \<and> (\<exists>d. decide (take (Suc i) cs) = Inr d)"
    using assms(5) by auto
  from sim_loop_core [OF init assms(1) this] obtain s where
    l: "sim_loop cs decide model th [warmup..<length cs - 1] (sim_init starting_equity (cs ! warmup)) = Inr s"
    and s: "sim_core s" by blast
  from sim_finish_core [OF s assms(1)] assms(2) obtain t where
    f: "sim_finish cs model s = Inr t" and t: "sim_core t" by force
  have "candle_valid (cs ! warmup)" using assms(1,2) by (simp add: list_all_length)
  then have o: "c_open (cs ! warmup) \<noteq> 0" by (simp add: candle_valid_def)
  have run: "simulate_positions cs decide starting_equity warmup (Some model) fee slip th
      = sim_metrics cs starting_equity warmup periods t"
    using assms(2,4) l f by (simp add: simulate_positions_def opt_or_def)
  have "0 < sm_equity t" using t by (simp add: sim_core_def)
  then show ?thesis
    using l f sim_metrics_outcome [OF t assms(3,2) o periods_per_year_pos [OF assms(4)]] run by simp
qed

lemma close_gain:
  assumes "sim_core s" "sm_position s \<noteq> 0" "candle_valid c" "0 < price" "flat_at x e s"
    and "close_position model c price s = Inr s'"
  shows "sm_equity s' \<le> e * (1 + \<bar>price / x - 1\<bar>)"
proof -
  let ?pnl = "sm_position s * (price / x - 1)" and ?f = "model c (sm_equity s) / 10000"
  have f: "0 \<le> ?f" using friction_bounds [OF assms(3), of "sm_equity s"] assms(1) by (simp add: sim_core_def)
  have x: "sm_entry_price s = x" "0 < x" using assms(1,2,5) by (auto simp: flat_at_def sim_core_def)
  have "?pnl \<le> \<bar>sm_position s\<bar> * \<bar>price / x - 1\<bar>" by (metis abs_ge_self abs_mult)
  also have "\<dots> \<le> \<bar>price / x - 1\<bar>" using assms(5) mult_right_mono [of "\<bar>sm_position s\<bar>" 1] by (simp add: flat_at_def)
  finally have "max (1 + ?pnl - ?f) equity_floor \<le> 1 + \<bar>price / x - 1\<bar>"
    using f by (simp add: equity_floor_def)
  moreover have "sm_equity s' = sm_equity s * max (1 + ?pnl - ?f) equity_floor"
    using assms(6) x by (auto simp: close_position_def Let_def split: if_splits)
  moreover have "0 \<le> sm_equity s" "sm_equity s \<le> e" "0 \<le> e"
    using assms(1,5) by (simp_all add: flat_at_def sim_core_def)
  moreover have "0 \<le> max (1 + ?pnl - ?f) equity_floor"
    using equity_floor_pos by (simp add: le_max_iff_disj)
  ultimately show ?thesis by (simp add: mult_mono)
qed

lemma rebalance_flat:
  assumes "sim_core s" "candle_valid nxt" "c_open nxt = x" "flat_at x e s" "\<bar>w\<bar> \<le> 1"
    and "rebalance model th nxt w rg ids s = Inr s'"
  shows "flat_at x e s'"
proof (cases "th < \<bar>w - sm_position s\<bar>")
  case True
  have x: "0 < x" using assms(2,3) by (simp add: candle_valid_def)
  obtain s1 where s1: "(if sm_position s \<noteq> 0 then close_position model nxt (c_open nxt) s else Inr s) = Inr s1"
      "s' = (if w \<noteq> 0 then open_position model nxt (c_open nxt) w rg ids s1 else s1\<lparr>sm_position := 0\<rparr>)"
    using assms(6) True by (auto simp: rebalance_def bindr_eq_Inr)
  have e: "sm_equity s1 \<le> e"
    using s1(1) close_gain [OF assms(1) _ assms(2) x assms(4)] assms(3,4) x
    by (auto simp: flat_at_def split: if_splits)
  have "0 < sm_equity s1"
    using close_position_core [OF assms(1) _ assms(2), of x] s1(1) x assms(1,3)
    by (auto simp: sim_core_def split: if_splits)
  then have "sm_equity s1 * (1 - model nxt (sm_equity s1) / 10000) \<le> sm_equity s1"
    using friction_bounds [OF assms(2), of "sm_equity s1"] by (intro mult_left_le) simp_all
  then have "sm_equity s1 * (1 - model nxt (sm_equity s1) / 10000) \<le> e" using e by linarith
  then show ?thesis using s1(2) e assms(3,5) by (simp add: flat_at_def open_position_def Let_def)
qed (use assms in \<open>simp add: rebalance_def\<close>)

lemma sim_loop_flat:
  assumes "sim_core s" "list_all candle_valid cs" "flat_at x e s" "\<forall>c \<in> set cs. c_open c = x"
    and "\<forall>i \<in> set is. Suc i < length cs \<and> (\<exists>w rg ids. decide (take (Suc i) cs) = Inr (w, rg, ids) \<and> \<bar>w\<bar> \<le> 1)"
    and "sim_loop cs decide model th is s = Inr s'"
  shows "flat_at x e s'"
  using assms(1,3,5,6)
proof (induction "is" arbitrary: s)
  case (Cons i "is")
  obtain w rg ids where d: "decide (take (Suc i) cs) = Inr (w, rg, ids)" "\<bar>w\<bar> \<le> 1" "Suc i < length cs"
    using Cons.prems(3) by auto
  have nxt: "candle_valid (cs ! Suc i)" "c_open (cs ! Suc i) = x"
    using d(3) assms(2,4) by (simp_all add: list_all_length)
  obtain s1 where s1: "sim_bar cs decide model th i s = Inr s1" "sim_loop cs decide model th is s1 = Inr s'"
    using Cons.prems(4) by (auto simp: bindr_eq_Inr)
  obtain s2 where s2: "rebalance model th (cs ! Suc i) w rg ids s = Inr s2"
      "\<exists>q. track_drawdown (s2\<lparr>sm_returns := sm_returns s2 @ [q - 1]\<rparr>) = Inr s1"
    using s1(1) by (auto simp: sim_bar_def d(1) bindr_eq_Inr)
  have same: "sm_equity s1 = sm_equity s2" "sm_position s1 = sm_position s2" "sm_entry_price s1 = sm_entry_price s2"
    using s2(2) by (auto simp: track_drawdown_def bindr_eq_Inr Let_def)
  have "flat_at x e s1"
    using rebalance_flat [OF Cons.prems(1) nxt Cons.prems(2) d(2) s2(1)] same by (simp add: flat_at_def)
  moreover have "sim_core s1"
    using sim_bar_core [where decide = decide and th = th, OF Cons.prems(1) assms(2) d(3)] d(1) s1(1) by force
  ultimately show ?case using Cons.prems(3) s1(2) by (intro Cons.IH [of s1]) simp_all
qed simp

end

definition default_flat :: flat_cost_model where
  "default_flat = \<lparr>fc_fee_bps = 10, fc_slippage_bps = 5\<rparr>"

definition default_volume :: volume_cost_model where
  "default_volume = \<lparr>vc_fee_bps = 10, vc_base_slippage_bps = 5,
     vc_participation_sensitivity_bps = 200, vc_max_slippage_bps = 250\<rparr>"

lemma flat_contract:
  "0 \<le> fc_fee_bps m + fc_slippage_bps m \<Longrightarrow> fc_fee_bps m + fc_slippage_bps m < 10000 \<Longrightarrow>
     cost_contract (flat_cost_bps m)"
  by unfold_locales (simp_all add: flat_cost_bps_def)

lemma volume_contract:
  assumes "0 \<le> vc_fee_bps m" "0 \<le> vc_max_slippage_bps m" "vc_fee_bps m + vc_max_slippage_bps m < 10000"
  shows "cost_contract (volume_cost_bps m)"
proof
  fix c :: candle and n :: real
  define x where "x = min (max (vc_base_slippage_bps m +
    (if 0 < c_close c * c_volume c then n / (c_close c * c_volume c) else 1) * vc_participation_sensitivity_bps m) 0)
    (vc_max_slippage_bps m)"
  have x: "0 \<le> x" "x \<le> vc_max_slippage_bps m" using assms(2) by (simp_all add: x_def)
  have v: "volume_cost_bps m c n = vc_fee_bps m + x" by (simp add: volume_cost_bps_def x_def Let_def)
  show "0 \<le> volume_cost_bps m c n" using x assms(1) v by simp
  show "volume_cost_bps m c n < 10000" using x assms(3) v by simp
qed

interpretation flat: cost_contract "flat_cost_bps default_flat"
  by (rule flat_contract) (simp_all add: default_flat_def)

interpretation vol: cost_contract "volume_cost_bps default_volume"
  by (rule volume_contract) (simp_all add: default_volume_def)

text \<open>The size of the order moves the volume-aware cost in one direction only.\<close>

lemma volume_cost_mono:
  assumes "0 \<le> vc_participation_sensitivity_bps m" "a \<le> b"
  shows "volume_cost_bps m c a \<le> volume_cost_bps m c b"
proof -
  have "a / (c_close c * c_volume c) * vc_participation_sensitivity_bps m
      \<le> b / (c_close c * c_volume c) * vc_participation_sensitivity_bps m" if "0 < c_close c * c_volume c"
    using assms that by (intro mult_right_mono divide_right_mono) auto
  then show ?thesis by (auto simp: volume_cost_bps_def Let_def min_def max_def)
qed

section \<open>No look-ahead\<close>

lemma sim_loop_append:
  "sim_loop cs d m th (is @ js) s = bindr (sim_loop cs d m th is s) (sim_loop cs d m th js)"
  by (induction "is" arbitrary: s) (auto simp: bindr_def split: sum.splits)

lemma sim_bar_local:
  assumes "take n cs = take n cs'" "Suc i < n"
  shows "sim_bar cs d m th i s = sim_bar cs' d m th i s"
proof -
  have "take (i + 1) cs = take (i + 1) cs'"
    using assms by (metis Suc_eq_plus1 Suc_lessD min.absorb_iff1 less_imp_le take_take)
  moreover have "cs ! (i + 1) = cs' ! (i + 1)"
    using assms by (metis Suc_eq_plus1 nth_take)
  ultimately show ?thesis by (simp add: sim_bar_def)
qed

lemma sim_loop_local:
  assumes "take n cs = take n cs'" "\<forall>i \<in> set is. Suc i < n"
  shows "sim_loop cs d m th is s = sim_loop cs' d m th is s"
  using assms(2)
proof (induction "is" arbitrary: s)
  case (Cons i "is")
  then have "sim_bar cs d m th i s = sim_bar cs' d m th i s"
    using sim_bar_local [OF assms(1)] by simp
  with Cons show ?case by (simp add: bindr_def split: sum.splits)
qed simp

lemma close_position_log:
  "close_position m c p s = Inr s' \<Longrightarrow> \<exists>t. sm_trade_log s' = sm_trade_log s @ [t]"
  by (auto simp: close_position_def Let_def bindr_eq_Inr split: if_splits)

lemma track_drawdown_log [simp]: "track_drawdown s = Inr s' \<Longrightarrow> sm_trade_log s' = sm_trade_log s"
  by (auto simp: track_drawdown_def Let_def bindr_eq_Inr)

lemma sim_bar_log: "sim_bar cs d m th i s = Inr s' \<Longrightarrow> prefix (sm_trade_log s) (sm_trade_log s')"
  by (auto simp: sim_bar_def rebalance_def bindr_eq_Inr open_position_def Let_def
      dest!: close_position_log split: if_splits prod.splits)

lemma sim_loop_log: "sim_loop cs d m th is s = Inr s' \<Longrightarrow> prefix (sm_trade_log s) (sm_trade_log s')"
proof (induction "is" arbitrary: s)
  case (Cons i "is")
  then show ?case by (auto simp: bindr_eq_Inr dest!: sim_bar_log intro: prefix_order.trans)
qed simp

lemma sim_finish_log:
  "sim_finish cs m s = Inr s' \<Longrightarrow>
     prefix (sm_trade_log s) (sm_trade_log s') \<and> prefix (butlast (sm_trade_log s')) (sm_trade_log s)"
  by (auto simp: sim_finish_def bindr_eq_Inr dest!: close_position_log split: if_splits)
    (metis prefixI append_butlast_last_id butlast.simps(1) append_Nil2)

lemma sim_metrics_log: "sim_metrics cs e w p s = Inr m \<Longrightarrow> bm_trade_log m = sm_trade_log s"
  by (auto simp: sim_metrics_def bindr_eq_Inr Let_def split: if_splits)

lemma simulate_states:
  assumes "simulate_positions cs d e w (Some model) fee slip th = Inr m"
  obtains s t where "sim_loop cs d model th [w..<length cs - 1] (sim_init e (cs ! w)) = Inr s"
    "sim_finish cs model s = Inr t" "bm_trade_log m = sm_trade_log t" "w < length cs"
proof -
  from assms have w: "w < length cs" by (auto simp: simulate_positions_def split: if_splits)
  with assms obtain p where
    "bindr (sim_loop cs d model th [w..<length cs - 1] (sim_init e (cs ! w)))
       (\<lambda>s. bindr (sim_finish cs model s) (sim_metrics cs e w p)) = Inr m"
    by (auto simp: simulate_positions_def Let_def split: option.splits)
  then show thesis using that w sim_metrics_log unfolding bindr_eq_Inr by blast
qed

text \<open>
  The backtester does not look ahead. The trades a run on the first \<open>n\<close> candles reports
  before its final forced close are the first trades of the run on the whole series: no candle
  after a trade can change it.
\<close>

theorem backtest_no_lookahead:
  assumes "simulate_positions cs decide e w (Some model) fee slip th = Inr m"
    and "simulate_positions (take n cs) decide e w (Some model) fee slip th = Inr m'"
  shows "prefix (butlast (bm_trade_log m')) (bm_trade_log m)"
proof -
  from assms(1) obtain s t where st:
    "sim_loop cs decide model th [w..<length cs - 1] (sim_init e (cs ! w)) = Inr s"
    "sim_finish cs model s = Inr t" "bm_trade_log m = sm_trade_log t"
    by (rule simulate_states)
  from assms(2) obtain s' t' where st':
    "sim_loop (take n cs) decide model th [w..<length (take n cs) - 1] (sim_init e (take n cs ! w)) = Inr s'"
    "sim_finish (take n cs) model s' = Inr t'" "bm_trade_log m' = sm_trade_log t'" and w: "w < length (take n cs)"
    by (rule simulate_states)
  define k where "k = length (take n cs) - 1"
  have k: "w \<le> k" "k \<le> length cs - 1" "k < n" using w by (auto simp: k_def)
  have "sim_loop (take n cs) decide model th [w..<k] (sim_init e (cs ! w))
      = sim_loop cs decide model th [w..<k] (sim_init e (cs ! w))"
    by (rule sim_loop_local [where n = n]) (use k in auto)
  with st'(1) w have "sim_loop cs decide model th [w..<k] (sim_init e (cs ! w)) = Inr s'"
    by (simp add: k_def)
  moreover have "[w..<length cs - 1] = [w..<k] @ [k..<length cs - 1]"
    using upt_add_eq_append [OF k(1), of "length cs - 1 - k"] le_add_diff_inverse [OF k(2)] by simp
  ultimately have "sim_loop cs decide model th [k..<length cs - 1] s' = Inr s"
    using st(1) by (simp add: sim_loop_append)
  then have "prefix (sm_trade_log s') (sm_trade_log s)" by (rule sim_loop_log)
  with sim_finish_log [OF st'(2)] sim_finish_log [OF st(2)] st(3) st'(3) show ?thesis
    by (auto intro: prefix_order.trans)
qed

text \<open>
  C27: on real candles (any series pydantic accepts, longer than the warm-up, with a readable
  interval), with the default cost models and a decision for every window, a backtest ends with
  positive equity, even for a short that loses more than its notional, and then does one of two
  things. It returns a well formed report of that equity with a drawdown below one; or, exactly when
  the growth annualised over the bars of the series is past the largest float, it raises
  \<open>OverflowError\<close>.
\<close>

theorem backtest_returns:
  assumes "list_all candle_valid cs" and "w < length cs" and "0 < e"
    and "periods_per_year (c_interval (hd cs)) = Some p"
    and "\<And>n. w < n \<Longrightarrow> n < length cs \<Longrightarrow> \<exists>d. decide (take n cs) = Inr d"
    and "model \<in> {flat_cost_bps default_flat, volume_cost_bps default_volume}"
  shows "\<exists>s t. sim_loop cs decide model th [w..<length cs - 1] (sim_init e (cs ! w)) = Inr s
    \<and> sim_finish cs model s = Inr t \<and> 0 < sm_equity t
    \<and> (if (sm_equity t / e) powr (p / real (length cs - w)) < float_limit
       then \<exists>m. simulate_positions cs decide e w (Some model) fee slip th = Inr m
              \<and> metrics_valid m \<and> bm_max_drawdown m < 1 \<and> list_all trade_valid (bm_trade_log m)
              \<and> bm_ending_equity m = sm_equity t
       else simulate_positions cs decide e w (Some model) fee slip th = Inl OverflowError)"
proof -
  have "cost_contract model" using assms(6) flat.cost_contract_axioms vol.cost_contract_axioms by auto
  from cost_contract.simulate_outcome [OF this assms(1-4)] assms(5) show ?thesis
    unfolding annual_growth_def by blast
qed

definition ex_decide :: position_decision where
  "ex_decide window = Inr (if even (length window) then 1 else -1, RANGE_BOUND, [''x''])"

definition ex_series :: "candle list" where
  "ex_series = map ex_candle [1, 2, 3, 4, 5]"

lemma ex_series_props:
  "list_all candle_valid ex_series" "length ex_series = 5" "c_interval (hd ex_series) = ''1h''"
  by (simp_all add: ex_series_def ex_candle_def candle_valid_def)

lemma ex_hourly: "periods_per_year ''1h'' \<noteq> None"
  by (simp add: periods_per_year_def interval_to_seconds_def interval_unit_seconds_def is_digit_def
      int_of_digits_def str_eval Let_def)

lemma ex_hour_periods: "periods_per_year ''1h'' = Some 8760"
  by (simp add: periods_per_year_def interval_to_seconds_def interval_unit_seconds_def is_digit_def
      int_of_digits_def str_eval Let_def)

lemma small_growth:
  assumes "0 < g" "g \<le> 11 / 10" "0 \<le> y" "y \<le> 4380"
  shows "g powr y < float_limit"
proof -
  have "g powr y \<le> (11 / 10) powr y" using assms by (intro powr_mono2) simp_all
  also have "\<dots> \<le> (11 / 10) powr (7 * 626)" using assms(4) by (intro powr_mono) simp_all
  also have "\<dots> = ((11 / 10) ^ 7) ^ 626" by (subst power_mult [symmetric], subst powr_realpow [symmetric]) simp_all
  also have "\<dots> \<le> 2 ^ 626" by (rule power_mono) (simp_all add: eval_nat_numeral)
  also have "\<dots> \<le> (2 :: real) ^ 1023" by (rule power_increasing) simp_all
  also have "\<dots> < float_limit" by (simp add: float_limit_def)
  finally show ?thesis .
qed

text \<open>The example series opens at ten and closes at eleven: a run gains at most a tenth.\<close>

lemma ex_small_run:
  assumes "list_all candle_valid cs" "\<forall>c \<in> set cs. c_open c = 10 \<and> c_close c = 11" "c_interval (hd cs) = ''1h''"
    and "w + 1 < length cs" "0 < e"
    and "\<And>n. w < n \<Longrightarrow> n < length cs \<Longrightarrow> \<exists>x rg ids. decide (take n cs) = Inr (x, rg, ids) \<and> \<bar>x\<bar> \<le> 1"
  shows "\<exists>m. simulate_positions cs decide e w (Some (flat_cost_bps default_flat)) fee slip th = Inr m \<and> metrics_valid m"
proof -
  have d: "\<exists>d. decide (take n cs) = Inr d" if "w < n" "n < length cs" for n
    using assms(6) that by blast
  have len: "w < length cs" and per: "periods_per_year (c_interval (hd cs)) = Some 8760"
    using assms(3,4) ex_hour_periods by simp_all
  obtain s t where run: "sim_loop cs decide (flat_cost_bps default_flat) th [w..<length cs - 1] (sim_init e (cs ! w)) = Inr s"
      "sim_finish cs (flat_cost_bps default_flat) s = Inr t" "0 < sm_equity t"
    and out: "if annual_growth cs w 8760 e (sm_equity t) < float_limit
      then \<exists>m. simulate_positions cs decide e w (Some (flat_cost_bps default_flat)) fee slip th = Inr m
             \<and> metrics_valid m \<and> bm_max_drawdown m < 1 \<and> list_all trade_valid (bm_trade_log m)
             \<and> bm_ending_equity m = sm_equity t
      else simulate_positions cs decide e w (Some (flat_cost_bps default_flat)) fee slip th = Inl OverflowError"
    using flat.simulate_outcome [where decide = decide and fee = fee and slip = slip and th = th,
        OF assms(1) len assms(5) per d] by blast
  have init: "sim_core (sim_init e (cs ! w))" "flat_at 10 e (sim_init e (cs ! w))"
    using assms(5) by (simp_all add: sim_core_def flat_at_def sim_init_def)
  have steps: "\<forall>i \<in> set [w..<length cs - 1]. Suc i < length cs
      \<and> (\<exists>x rg ids. decide (take (Suc i) cs) = Inr (x, rg, ids) \<and> \<bar>x\<bar> \<le> 1)"
    using assms(6) by auto
  have flat: "flat_at 10 e s"
    using flat.sim_loop_flat [OF init(1) assms(1) init(2) _ steps run(1)] assms(2) by simp
  have core: "sim_core s"
    using flat.sim_loop_core [where decide = decide and th = th, OF init(1) assms(1)] steps run(1) by fastforce
  have "last cs \<in> set cs" using len by (intro last_in_set) auto
  then have lv: "candle_valid (last cs)" "c_close (last cs) = 11"
    using assms(1,2) by (auto simp: list_all_iff)
  have "sm_equity t \<le> e * (11 / 10)"
  proof (cases "sm_position s = 0")
    case True
    then show ?thesis using run(2) flat assms(5) by (simp add: sim_finish_def flat_at_def)
  next
    case False
    obtain s' where s': "close_position (flat_cost_bps default_flat) (last cs) 11 s = Inr s'" "track_drawdown s' = Inr t"
      using run(2) False lv(2) by (auto simp: sim_finish_def bindr_eq_Inr)
    have "sm_equity t = sm_equity s'" using s'(2) by (auto simp: track_drawdown_def bindr_eq_Inr Let_def)
    then show ?thesis using flat.close_gain [OF core False lv(1) _ flat s'(1)] by simp
  qed
  then have "sm_equity t / e \<le> 11 / 10" using assms(5) by (simp add: field_simps)
  then have "annual_growth cs w 8760 e (sm_equity t) < float_limit"
    unfolding annual_growth_def using run(3) assms(4,5) by (intro small_growth) (simp_all add: field_simps)
  then show ?thesis using out by auto
qed

lemma ex_series_run:
  assumes "3 \<le> n"
  shows "\<exists>m. simulate_positions (take n ex_series) ex_decide 1000 1 (Some (flat_cost_bps default_flat)) 0 0 0 = Inr m \<and> metrics_valid m"
proof (rule ex_small_run)
  show "list_all candle_valid (take n ex_series)" "\<forall>c \<in> set (take n ex_series). c_open c = 10 \<and> c_close c = 11"
    using ex_series_props(1) by (auto simp: list_all_iff ex_series_def ex_candle_def dest!: in_set_takeD)
  show "c_interval (hd (take n ex_series)) = ''1h''" "1 + 1 < length (take n ex_series)"
    using assms by (simp_all add: ex_series_def ex_candle_def take_Cons')
qed (auto simp: ex_decide_def)

theorem backtest_returns_witness:
  "\<exists>m. simulate_positions ex_series ex_decide 1000 1 (Some (flat_cost_bps default_flat)) 0 0 0 = Inr m
     \<and> metrics_valid m \<and> bm_max_drawdown m < 1"
proof -
  obtain m where m: "simulate_positions ex_series ex_decide 1000 1 (Some (flat_cost_bps default_flat)) 0 0 0 = Inr m"
    using ex_series_run [of 5] by (auto simp: ex_series_def)
  have d: "\<exists>d. ex_decide (take n ex_series) = Inr d" for n by (simp add: ex_decide_def)
  from backtest_returns [where cs = ex_series and w = 1 and e = 1000 and decide = ex_decide and th = 0 and fee = 0
      and slip = 0 and model = "flat_cost_bps default_flat" and p = 8760, OF ex_series_props(1) _ _ _ d] m
  show ?thesis using ex_series_props ex_hour_periods by (auto split: if_splits)
qed

lemma ex_series_prefix: "take 4 ex_series = map ex_candle [1, 2, 3, 4]"
  by (simp add: ex_series_def)

theorem backtest_no_lookahead_witness:
  "\<exists>m m'. simulate_positions ex_series ex_decide 1000 1 (Some (flat_cost_bps default_flat)) 0 0 0 = Inr m
     \<and> simulate_positions (take 4 ex_series) ex_decide 1000 1 (Some (flat_cost_bps default_flat)) 0 0 0 = Inr m'
     \<and> prefix (butlast (bm_trade_log m')) (bm_trade_log m)"
proof -
  obtain m m' where m: "simulate_positions ex_series ex_decide 1000 1 (Some (flat_cost_bps default_flat)) 0 0 0 = Inr m"
    "simulate_positions (take 4 ex_series) ex_decide 1000 1 (Some (flat_cost_bps default_flat)) 0 0 0 = Inr m'"
    using ex_series_run [of 5] ex_series_run [of 4] by (auto simp: ex_series_def)
  from backtest_no_lookahead [OF m] m show ?thesis by blast
qed


text \<open>
  The overflow is within reach of valid input: three one-minute candles, bought at the open of the
  last and closed at twice the price, are annualised over 525600 minutes.
\<close>

definition ex_minute :: "int \<Rightarrow> candle" where
  "ex_minute t = \<lparr>c_symbol = ''BTC/USD'', c_interval = ''1m'', c_opened_at = t, c_open = 10,
     c_high = 20, c_low = 10, c_close = 20, c_volume = 5\<rparr>"

definition ex_minutes :: "candle list" where
  "ex_minutes = map ex_minute [1, 2, 3]"

definition ex_buy :: position_decision where
  "ex_buy window = Inr (1, RANGE_BOUND, [''x''])"

lemma ex_minutes_equity:
  "\<exists>s t. sim_loop ex_minutes ex_buy (flat_cost_bps default_flat) 0 [1..<length ex_minutes - 1]
     (sim_init 1000 (ex_minutes ! 1)) = Inr s
   \<and> sim_finish ex_minutes (flat_cost_bps default_flat) s = Inr t \<and> 15 / 10 * 1000 \<le> sm_equity t"
  by (simp add: ex_minutes_def ex_minute_def ex_buy_def sim_bar_def rebalance_def open_position_def
      close_position_def track_drawdown_def sim_finish_def sim_init_def flat_cost_bps_def default_flat_def
      trade_valid_def equity_floor_def Let_def numeral_eq_Suc upt_rec)

lemma short_series_overflows:
  "simulate_positions ex_minutes ex_buy 1000 1 (Some (flat_cost_bps default_flat)) 0 0 0 = Inl OverflowError"
proof -
  have v: "list_all candle_valid ex_minutes" "1 < length ex_minutes" "length ex_minutes = 3"
    by (simp_all add: ex_minutes_def ex_minute_def candle_valid_def)
  have p: "periods_per_year (c_interval (hd ex_minutes)) = Some 525600"
    by (simp add: ex_minutes_def ex_minute_def periods_per_year_def interval_to_seconds_def interval_unit_seconds_def
        is_digit_def int_of_digits_def str_eval Let_def)
  have d: "\<exists>d. ex_buy (take n ex_minutes) = Inr d" for n by (simp add: ex_buy_def)
  have e: "(0 :: real) < 1000" by simp
  obtain s t where st: "sim_loop ex_minutes ex_buy (flat_cost_bps default_flat) 0 [1..<length ex_minutes - 1]
      (sim_init 1000 (ex_minutes ! 1)) = Inr s" "sim_finish ex_minutes (flat_cost_bps default_flat) s = Inr t"
      "15 / 10 * 1000 \<le> sm_equity t" using ex_minutes_equity by blast
  have "2 ^ 1024 \<le> ((15 / 10 :: real) ^ 2) ^ 1024" by (rule power_mono) (simp_all add: power2_eq_square)
  also have "\<dots> = (15 / 10) powr 2048"
    by (subst power_mult [symmetric], subst powr_realpow [symmetric]) simp_all
  also have "\<dots> \<le> (sm_equity t / 1000) powr 2048" using st(3) by (intro powr_mono2) simp_all
  also have "\<dots> \<le> (sm_equity t / 1000) powr (525600 / 2)" using st(3) by (intro powr_mono) simp_all
  finally have "\<not> annual_growth ex_minutes 1 525600 1000 (sm_equity t) < float_limit"
    by (simp add: annual_growth_def v(3) float_limit_def)
  with flat.simulate_outcome [where decide = ex_buy and fee = 0 and slip = 0 and th = 0, OF v(1,2) e p d] st
  show ?thesis by auto
qed

end
