(* ===== verification/Walkforward.thy ===== *)
theory Walkforward
  imports Backtest
begin

text \<open>
  Rolling walk-forward evaluation (\<open>walkforward.py\<close>). The loop is \<open>while True\<close>: it is a partial
  function whose value \<open>None\<close> is "does not return", and that it always returns is a theorem.
\<close>

section \<open>Data\<close>

record walkforward_fold =
  wf_train_start :: nat
  wf_train_end :: nat
  wf_test_start :: nat
  wf_test_end :: nat
  wf_metrics :: backtest_metrics

record walkforward_report =
  wr_folds :: "walkforward_fold list"
  wr_mean_total_return :: real
  wr_mean_excess_return :: real
  wr_mean_sharpe :: real
  wr_worst_drawdown :: real

record walkforward_evaluator =
  we_backtester :: baseline_backtester
  we_train_size :: nat
  we_test_size :: nat
  we_step_size :: nat
  we_fit :: "(candle list \<Rightarrow> py_error + baseline_backtester) option"
  we_train_warmup :: bool

section \<open>Operations\<close>

definition slice :: "nat \<Rightarrow> nat \<Rightarrow> 'a list \<Rightarrow> 'a list" where
  "slice a b xs = take (b - a) (drop a xs)"

text \<open>The body of one iteration: fit on the train window only, run on the test window.\<close>

definition run_fold ::
    "(strategy_ensemble \<Rightarrow> string option) \<Rightarrow> walkforward_evaluator \<Rightarrow> candle list \<Rightarrow> nat
       \<Rightarrow> py_error + walkforward_fold" where
  "run_fold version w cs train_start =
     (let train_end = train_start + we_train_size w; test_end = train_end + we_test_size w
      in bindr (case we_fit w of
                  None \<Rightarrow> Inr (we_backtester w)
                | Some fit \<Rightarrow> fit (slice train_start train_end cs)) (\<lambda>b.
         bindr (if we_train_warmup w
                then backtester_run version b (slice train_start test_end cs) (Some (we_train_size w))
                else backtester_run version b (slice train_end test_end cs) None) (\<lambda>m.
         Inr \<lparr>wf_train_start = train_start, wf_train_end = train_end, wf_test_start = train_end,
              wf_test_end = test_end, wf_metrics = m\<rparr>)))"

partial_function (option) wf_loop ::
    "(strategy_ensemble \<Rightarrow> string option) \<Rightarrow> walkforward_evaluator \<Rightarrow> candle list \<Rightarrow> nat
       \<Rightarrow> walkforward_fold list \<Rightarrow> (py_error + walkforward_fold list) option" where
  "wf_loop version w cs train_start folds =
     (if length cs < train_start + we_train_size w + we_test_size w then Some (Inr folds)
      else case run_fold version w cs train_start of
             Inl e \<Rightarrow> Some (Inl e)
           | Inr f \<Rightarrow> wf_loop version w cs (train_start + we_step_size w) (folds @ [f]))"

definition report_of :: "walkforward_fold list \<Rightarrow> py_error + walkforward_report" where
  "report_of folds =
     (if folds = [] then Inl ValueError
      else
        (let count = real (length folds); ms = map wf_metrics folds
         in Inr \<lparr>wr_folds = folds, wr_mean_total_return = py_sum (map bm_total_return ms) / count,
              wr_mean_excess_return = py_sum (map bm_excess_return ms) / count,
              wr_mean_sharpe = py_sum (map bm_sharpe ms) / count,
              wr_worst_drawdown = py_max (map bm_max_drawdown ms)\<rparr>))"

definition wf_evaluate ::
    "(strategy_ensemble \<Rightarrow> string option) \<Rightarrow> walkforward_evaluator \<Rightarrow> candle list
       \<Rightarrow> (py_error + walkforward_report) option" where
  "wf_evaluate version w cs =
     (if we_train_size w = 0 then Some (Inl ValueError)
      else if we_test_size w = 0 then Some (Inl ValueError)
      else if \<not> we_train_warmup w \<and> we_train_size w \<le> bb_warmup (we_backtester w) then Some (Inl ValueError)
      else if \<not> we_train_warmup w \<and> we_test_size w \<le> bb_warmup (we_backtester w) then Some (Inl ValueError)
      else if we_step_size w = 0 then Some (Inl ValueError)
      else map_option (\<lambda>r. bindr r report_of) (wf_loop version w cs 0 []))"

section \<open>Termination\<close>

lemma wf_loop_returns:
  assumes "0 < we_step_size w"
  shows "\<exists>r. wf_loop version w cs a folds = Some r"
proof (induction "Suc (length cs) - a" arbitrary: a folds rule: less_induct)
  case less
  show ?case
  proof (cases "length cs < a + we_train_size w + we_test_size w")
    case False
    with assms have "Suc (length cs) - (a + we_step_size w) < Suc (length cs) - a" by auto
    from less [OF this] show ?thesis by (subst wf_loop.simps) (auto split: sum.splits)
  qed (subst wf_loop.simps, simp)
qed

text \<open>Without the guard on the step size the loop would spin on its first fold.\<close>

lemma wf_loop_zero_step:
  "wf_loop version w cs a folds = Some r \<Longrightarrow>
     we_step_size w = 0 \<Longrightarrow> a + we_train_size w + we_test_size w \<le> length cs \<Longrightarrow>
     run_fold version w cs a \<noteq> Inr f"
proof (induction rule: wf_loop.raw_induct [rotated, consumes 1, case_names step])
  case (step loop version w cs a folds r)
  then show ?case by (auto split: sum.splits)
qed

text \<open>
  C33: the walk-forward evaluation always returns, a report or an exception, for every
  configuration and every candle series: the loop is entered only with a positive step.
\<close>

theorem walkforward_terminates: "\<exists>r. wf_evaluate version w cs = Some r"
  using wf_loop_returns [of w version cs 0 "[]"] by (auto simp: wf_evaluate_def)

section \<open>The folds\<close>

text \<open>Reference: the number of folds that fit after position \<open>a\<close>.\<close>

definition fold_count :: "walkforward_evaluator \<Rightarrow> nat \<Rightarrow> nat \<Rightarrow> nat" where
  "fold_count w n a =
     (let used = a + we_train_size w + we_test_size w
      in if n < used then 0 else Suc ((n - used) div we_step_size w))"

lemma fold_count_step:
  assumes "0 < we_step_size w" "a + we_train_size w + we_test_size w \<le> n"
  shows "fold_count w n a = Suc (fold_count w n (a + we_step_size w))"
proof -
  let ?d = "n - (a + we_train_size w + we_test_size w)"
  have e: "n - (a + we_step_size w + we_train_size w + we_test_size w) = ?d - we_step_size w" by simp
  show ?thesis
  proof (cases "?d < we_step_size w")
    case True
    with assms show ?thesis by (simp add: fold_count_def Let_def)
  next
    case False
    with assms have "?d div we_step_size w = Suc ((?d - we_step_size w) div we_step_size w)"
      by (intro le_div_geq) auto
    with False assms e show ?thesis by (simp add: fold_count_def Let_def)
  qed
qed

lemma wf_loop_folds:
  assumes "0 < we_step_size w"
  shows "wf_loop version w cs a folds = Some (Inr fs) \<Longrightarrow>
    \<exists>gs. fs = folds @ gs
      \<and> list_all2 (\<lambda>k f. run_fold version w cs (a + k * we_step_size w) = Inr f) [0..<fold_count w (length cs) a] gs"
proof (induction "Suc (length cs) - a" arbitrary: a folds rule: less_induct)
  case less
  show ?case
  proof (cases "length cs < a + we_train_size w + we_test_size w")
    case True
    with less.prems show ?thesis by (subst (asm) wf_loop.simps) (simp add: fold_count_def)
  next
    case False
    then obtain f where f: "run_fold version w cs a = Inr f"
      and l: "wf_loop version w cs (a + we_step_size w) (folds @ [f]) = Some (Inr fs)"
      using less.prems by (subst (asm) wf_loop.simps) (auto split: sum.splits)
    have "Suc (length cs) - (a + we_step_size w) < Suc (length cs) - a" using False assms by auto
    from less.hyps [OF this l] obtain gs where gs: "fs = (folds @ [f]) @ gs"
      "list_all2 (\<lambda>k f. run_fold version w cs (a + we_step_size w + k * we_step_size w) = Inr f)
         [0..<fold_count w (length cs) (a + we_step_size w)] gs" by blast
    have "[0..<fold_count w (length cs) a] = 0 # map Suc [0..<fold_count w (length cs) (a + we_step_size w)]"
      using False fold_count_step [OF assms, of a "length cs"] by (simp add: upt_conv_Cons map_Suc_upt del: upt_Suc)
    with gs f show ?thesis
      by (intro exI [of _ "f # gs"]) (simp add: list.rel_map add.assoc)
  qed
qed

lemma list_all2_map_same:
  "list_all2 R xs ys \<Longrightarrow> (\<And>x y. R x y \<Longrightarrow> g x = h y) \<Longrightarrow> map g xs = map h ys"
  by (induction rule: list_all2_induct) auto

lemma run_fold_bounds:
  "run_fold version w cs a = Inr f \<Longrightarrow>
     wf_train_start f = a \<and> wf_train_end f = a + we_train_size w \<and> wf_test_start f = wf_train_end f
   \<and> wf_test_end f = wf_test_start f + we_test_size w"
  by (auto simp: run_fold_def Let_def bindr_eq_Inr)

lemma fold_count_fits:
  assumes "k < fold_count w n a" "0 < we_step_size w"
  shows "a + k * we_step_size w + we_train_size w + we_test_size w \<le> n"
proof -
  let ?d = "n - (a + we_train_size w + we_test_size w)"
  from assms(1) have n: "a + we_train_size w + we_test_size w \<le> n" and "k \<le> ?d div we_step_size w"
    by (auto simp: fold_count_def Let_def split: if_splits)
  then have "k * we_step_size w \<le> ?d div we_step_size w * we_step_size w" by simp
  also have "\<dots> \<le> ?d" by (rule div_times_less_eq_dividend)
  finally show ?thesis using n by linarith
qed

lemma report_of_fields:
  assumes "report_of fs = Inr rep"
  shows "wr_folds rep = fs" "wr_worst_drawdown rep = py_max (map (bm_max_drawdown \<circ> wf_metrics) fs)"
  using assms unfolding report_of_def Let_def map_map by (auto split: if_splits)

lemma wf_evaluate_Inr:
  assumes "wf_evaluate version w cs = Some (Inr rep)"
  shows "0 < we_step_size w \<and> wf_loop version w cs 0 [] = Some (Inr (wr_folds rep)) \<and> report_of (wr_folds rep) = Inr rep"
proof -
  from assms obtain fs where "0 < we_step_size w" "wf_loop version w cs 0 [] = Some (Inr fs)" "report_of fs = Inr rep"
    by (auto simp: wf_evaluate_def bindr_eq_Inr split: if_splits)
  moreover from this(3) have "wr_folds rep = fs" by (rule report_of_fields)
  ultimately show ?thesis by simp
qed

text \<open>
  C99: a walk-forward report covers exactly the folds that fit, one per step from the start of the
  series; each test window follows its train window and lies inside the series, and the reported
  worst drawdown bounds the drawdown of every fold.
\<close>

theorem walkforward_folds:
  assumes "wf_evaluate version w cs = Some (Inr rep)"
  shows "map wf_train_start (wr_folds rep) = map (\<lambda>k. k * we_step_size w) [0..<fold_count w (length cs) 0]
    \<and> (\<forall>f \<in> set (wr_folds rep).
        wf_train_end f = wf_train_start f + we_train_size w \<and> wf_test_start f = wf_train_end f
      \<and> wf_test_end f = wf_test_start f + we_test_size w \<and> wf_test_end f \<le> length cs
      \<and> bm_max_drawdown (wf_metrics f) \<le> wr_worst_drawdown rep)"
proof -
  from wf_evaluate_Inr [OF assms] have st: "0 < we_step_size w"
    and l: "wf_loop version w cs 0 [] = Some (Inr (wr_folds rep))" and r: "report_of (wr_folds rep) = Inr rep"
    by auto
  from wf_loop_folds [OF st l] have fs: "list_all2 (\<lambda>k f. run_fold version w cs (k * we_step_size w) = Inr f)
      [0..<fold_count w (length cs) 0] (wr_folds rep)" by simp
  have "map wf_train_start (wr_folds rep) = map (\<lambda>k. k * we_step_size w) [0..<fold_count w (length cs) 0]"
    using fs by (rule list_all2_map_same [symmetric]) (simp add: run_fold_bounds)
  moreover have "wf_train_end f = wf_train_start f + we_train_size w \<and> wf_test_start f = wf_train_end f
      \<and> wf_test_end f = wf_test_start f + we_test_size w \<and> wf_test_end f \<le> length cs"
    if f: "f \<in> set (wr_folds rep)" for f
  proof -
    from fs f obtain k where k: "k < fold_count w (length cs) 0" "run_fold version w cs (k * we_step_size w) = Inr f"
      by (auto simp: list_all2_conv_all_nth in_set_conv_nth)
    from run_fold_bounds [OF k(2)] fold_count_fits [OF k(1) st] show ?thesis by simp
  qed
  moreover have "bm_max_drawdown (wf_metrics f) \<le> wr_worst_drawdown rep" if "f \<in> set (wr_folds rep)" for f
  proof -
    have "wr_worst_drawdown rep = py_max (map (bm_max_drawdown \<circ> wf_metrics) (wr_folds rep))"
      using r by (rule report_of_fields)
    with that show ?thesis by (simp add: py_max_ge)
  qed
  ultimately show ?thesis by blast
qed


section \<open>Witness\<close>

definition ex_ensemble :: strategy_ensemble where
  "ex_ensemble =
     \<lparr>en_classifier = \<lparr>rg_short_window = 1, rg_long_window = 2, rg_volatility_lookback = 2,
        rg_high_volatility_threshold = 1\<rparr>,
      en_momentum = \<lparr>mo_strategy_id = ''m'', mo_lookback = 1, mo_minimum_momentum = 1\<rparr>,
      en_trend = \<lparr>tr_strategy_id = ''t'', tr_short_window = 1, tr_long_window = 2, tr_minimum_separation = 1\<rparr>,
      en_mean_reversion = \<lparr>mr_strategy_id = ''r'', mr_lookback = 2, mr_entry_z = 1\<rparr>,
      en_paper_research = None, en_min_agreeing = 1, en_extra_voters = [], en_suppress_defaults = True\<rparr>"

definition ex_backtester :: baseline_backtester where
  "ex_backtester = \<lparr>bb_ensemble = ex_ensemble, bb_starting_equity = 1000, bb_fee_bps = 10,
     bb_slippage_bps = 5, bb_warmup = 0, bb_cost_model = None\<rparr>"

definition ex_evaluator :: walkforward_evaluator where
  "ex_evaluator = \<lparr>we_backtester = ex_backtester, we_train_size = 3, we_test_size = 2, we_step_size = 1,
     we_fit = None, we_train_warmup = True\<rparr>"

lemma ex_evaluator_sizes:
  "we_train_size ex_evaluator = 3" "we_test_size ex_evaluator = 2" "we_step_size ex_evaluator = 1"
  "we_train_warmup ex_evaluator"
  by (simp_all add: ex_evaluator_def)

lemma ex_classify:
  "classify (en_classifier ex_ensemble) [ex_candle a, ex_candle b, ex_candle c, ex_candle d] = Some RANGE_BOUND"
  by (simp add: classify_def ex_ensemble_def realized_volatility_def moving_average_def mean_def
      closes_of_def tail_slice_def ex_candle_def simple_return_def standard_deviation_def)

lemma ex_run:
  "\<exists>m. backtester_run (\<lambda>e. None) ex_backtester [ex_candle a, ex_candle b, ex_candle c, ex_candle d, ex_candle e]
     (Some 3) = Inr m"
proof -
  let ?cs = "[ex_candle a, ex_candle b, ex_candle c, ex_candle d, ex_candle e]"
  have v: "list_all candle_valid ?cs" "\<forall>c \<in> set ?cs. c_open c = 10 \<and> c_close c = 11" "c_interval (hd ?cs) = ''1h''"
    by (simp_all add: ex_candle_def candle_valid_def)
  have d: "\<exists>x rg ids. baseline_decide (\<lambda>e. None) ex_ensemble (take n ?cs) = Inr (x, rg, ids) \<and> \<bar>x\<bar> \<le> 1"
    if "3 < n" "n < length ?cs" for n
  proof -
    from that have "n = 4" by simp
    with ex_classify [of a b c d] show ?thesis
      by (simp add: baseline_decide_def paper_research_position_def ensemble_evaluate_def
          ensemble_voters_def of_value_error_def consensus_def combine_signals_def Let_def ex_ensemble_def)
  qed
  have flat_eq: "flat_cost_bps \<lparr>fc_fee_bps = 10, fc_slippage_bps = 5\<rparr> = flat_cost_bps default_flat"
    by (simp add: default_flat_def)
  from ex_small_run [where fee = 10 and slip = 5 and th = rebalance_threshold and e = 1000 and w = 3
      and decide = "baseline_decide (\<lambda>e. None) ex_ensemble", OF v _ _ d] show ?thesis
    by (auto simp: backtester_run_def ex_backtester_def simulate_positions_def flat_eq opt_or_def)
qed

theorem walkforward_folds_witness:
  "\<exists>rep. wf_evaluate (\<lambda>e. None) ex_evaluator ex_series = Some (Inr rep)
     \<and> map wf_train_start (wr_folds rep) = [0]"
proof -
  from ex_run [of 1 2 3 4 5] obtain m where
    "backtester_run (\<lambda>e. None) ex_backtester ex_series (Some 3) = Inr m" by (auto simp: ex_series_def)
  then obtain f where f: "run_fold (\<lambda>e. None) ex_evaluator ex_series 0 = Inr f"
    by (simp add: run_fold_def ex_evaluator_def slice_def ex_series_props(2))
  have "wf_loop (\<lambda>e. None) ex_evaluator ex_series 0 [] = Some (Inr [f])"
    by (subst wf_loop.simps, subst wf_loop.simps) (simp add: f ex_series_props(2) ex_evaluator_sizes)
  then have "\<exists>rep. wf_evaluate (\<lambda>e. None) ex_evaluator ex_series = Some (Inr rep)"
    by (simp add: wf_evaluate_def ex_evaluator_sizes report_of_def Let_def)
  then obtain rep where rep: "wf_evaluate (\<lambda>e. None) ex_evaluator ex_series = Some (Inr rep)" ..
  from walkforward_folds [OF rep] have
    "map wf_train_start (wr_folds rep) = map (\<lambda>k. k * we_step_size ex_evaluator) [0..<fold_count ex_evaluator (length ex_series) 0]"
    by simp
  with rep show ?thesis by (simp add: fold_count_def ex_evaluator_def ex_series_props(2))
qed

end
