(* ===== verification/Pretrade.thy ===== *)
theory Pretrade
  imports Walkforward
begin

text \<open>
  The pre-trade self-check (\<open>pretrade.py\<close>): the ensemble that produced a candidate is re-run on the
  recent candles and must confirm a side, have made money net of costs, and hold up out of sample.
\<close>

section \<open>Data\<close>

record pretrade_check =
  pc_passed :: bool
  pc_reasons :: "string list"
  pc_confirmed_side :: "side option"
  pc_confidence :: real
  pc_regime :: "regime option"
  pc_rationale :: "rationale list option"
  pc_candles_evaluated :: nat
  pc_metrics :: "backtest_metrics option"
  pc_walkforward :: "walkforward_report option"

record pretrade_gate =
  pg_backtester :: baseline_backtester
  pg_walkforward :: "walkforward_evaluator option"
  pg_min_candles :: nat
  pg_max_candle_age_seconds :: "real option"
  pg_min_excess_return :: real
  pg_max_drawdown :: real
  pg_min_sharpe :: real
  pg_min_trades :: nat
  pg_require_walkforward :: bool
  pg_min_walkforward_excess_return :: real
  pg_min_total_return :: "real option"
  pg_required_candle_interval :: "string option"
  pg_compare_full_history_drawdown :: bool

section \<open>Operations\<close>

definition failed_check :: "string \<Rightarrow> nat \<Rightarrow> pretrade_check" where
  "failed_check reason count =
     \<lparr>pc_passed = False, pc_reasons = [reason], pc_confirmed_side = None, pc_confidence = 0,
      pc_regime = None, pc_rationale = None, pc_candles_evaluated = count, pc_metrics = None,
      pc_walkforward = None\<rparr>"

definition interval_mismatch :: "pretrade_gate \<Rightarrow> candle list \<Rightarrow> bool" where
  "interval_mismatch g cs =
     (case pg_required_candle_interval g of
        None \<Rightarrow> False
      | Some i \<Rightarrow> cs = [] \<or> list_ex (\<lambda>c. c_interval c \<noteq> i) cs)"

text \<open>\<open>candles[-1]\<close> of an empty history (possible only with \<open>min_candles = 0\<close>) raises an
  \<open>IndexError\<close>; the caller never evaluates an empty history.\<close>

definition history_stale :: "pretrade_gate \<Rightarrow> datetime \<Rightarrow> candle list \<Rightarrow> bool" where
  "history_stale g now cs =
     (case pg_max_candle_age_seconds g of
        None \<Rightarrow> False
      | Some age \<Rightarrow> age < total_seconds (now - c_opened_at (last cs)))"

definition add_if :: "bool \<Rightarrow> string \<Rightarrow> string list \<Rightarrow> string list" where
  "add_if b r rs = (if b then rs @ [r] else rs)"

definition backtest_reasons :: "pretrade_gate \<Rightarrow> backtest_metrics \<Rightarrow> string list" where
  "backtest_reasons g m =
     add_if (bm_trades m < pg_min_trades g) ''backtest_trade_count_below_minimum''
    (add_if (bm_sharpe m < pg_min_sharpe g) ''backtest_sharpe_below_minimum''
    (add_if (pg_compare_full_history_drawdown g \<and> pg_max_drawdown g < bm_max_drawdown m)
       ''backtest_drawdown_above_maximum''
    (add_if (bm_excess_return m < pg_min_excess_return g) ''backtest_excess_return_below_minimum''
    (add_if (case pg_min_total_return g of None \<Rightarrow> False | Some r \<Rightarrow> bm_total_return m < r)
       ''backtest_total_return_below_minimum'' []))))"

definition default_evaluator :: "baseline_backtester \<Rightarrow> walkforward_evaluator" where
  "default_evaluator b = \<lparr>we_backtester = b, we_train_size = 180, we_test_size = 60, we_step_size = 60,
     we_fit = None, we_train_warmup = False\<rparr>"

definition gate_evaluator :: "pretrade_gate \<Rightarrow> walkforward_evaluator" where
  "gate_evaluator g = opt_or (pg_walkforward g) (default_evaluator (pg_backtester g))"

definition report_reasons :: "pretrade_gate \<Rightarrow> walkforward_report \<Rightarrow> string list \<Rightarrow> string list" where
  "report_reasons g rep rs =
     add_if (pg_max_drawdown g < wr_worst_drawdown rep) ''walkforward_drawdown_above_maximum''
    (add_if (wr_mean_excess_return rep < pg_min_walkforward_excess_return g)
       ''walkforward_excess_return_below_minimum'' rs)"

text \<open>
  \<open>try: evaluator.evaluate(...) except ValueError\<close>: only a \<open>ValueError\<close> is caught. The outer
  option is the possibly non-terminating loop of the evaluator.
\<close>

definition walkforward_part ::
    "(strategy_ensemble \<Rightarrow> string option) \<Rightarrow> pretrade_gate \<Rightarrow> candle list \<Rightarrow> string list
       \<Rightarrow> (py_error + walkforward_report option \<times> string list) option" where
  "walkforward_part version g cs rs =
     map_option (\<lambda>r. case r of
         Inr rep \<Rightarrow> Inr (Some rep, report_reasons g rep rs)
       | Inl ValueError \<Rightarrow> Inr (None, add_if (pg_require_walkforward g) ''walkforward_insufficient_history'' rs)
       | Inl ZeroDivisionError \<Rightarrow> Inl ZeroDivisionError
       | Inl OverflowError \<Rightarrow> Inl OverflowError)
     (wf_evaluate version (gate_evaluator g) cs)"

definition score_candidate ::
    "(strategy_ensemble \<Rightarrow> string option) \<Rightarrow> pretrade_gate \<Rightarrow> candle list \<Rightarrow> regime \<Rightarrow> strategy_signal
       \<Rightarrow> (py_error + pretrade_check) option" where
  "score_candidate version g cs rg k =
     (case backtester_run version (pg_backtester g) cs None of
        Inl e \<Rightarrow> Some (Inl e)
      | Inr m \<Rightarrow>
          map_option (\<lambda>r. bindr r (\<lambda>(rep, rs).
            Inr \<lparr>pc_passed = (rs = []), pc_reasons = rs, pc_confirmed_side = sg_side k,
                 pc_confidence = sg_confidence k, pc_regime = Some rg,
                 pc_rationale = Some (sg_rationale k), pc_candles_evaluated = length cs,
                 pc_metrics = Some m, pc_walkforward = rep\<rparr>))
          (walkforward_part version g cs (backtest_reasons g m)))"

definition pretrade_evaluate ::
    "(strategy_ensemble \<Rightarrow> string option) \<Rightarrow> pretrade_gate \<Rightarrow> candle list \<Rightarrow> side option \<Rightarrow> datetime
       \<Rightarrow> (py_error + pretrade_check) option" where
  "pretrade_evaluate version g cs sd now =
     (if interval_mismatch g cs then Some (Inr (failed_check ''candle_interval_mismatch'' (length cs)))
      else if length cs < pg_min_candles g
      then Some (Inr (failed_check ''insufficient_candle_history'' (length cs)))
      else if history_stale g now cs then Some (Inr (failed_check ''stale_candle_history'' (length cs)))
      else
        (let e = bb_ensemble (pg_backtester g)
         in case of_value_error (ensemble_evaluate e cs) of
              Inl err \<Rightarrow> Some (Inl err)
            | Inr (rg, signals) \<Rightarrow>
                (case of_value_error (consensus (version e) e signals) of
                   Inl err \<Rightarrow> Some (Inl err)
                 | Inr None \<Rightarrow>
                     Some (Inr ((failed_check ''no_strategy_consensus'' (length cs))\<lparr>pc_regime := Some rg\<rparr>))
                 | Inr (Some k) \<Rightarrow>
                     if sg_side k = None
                     then Some (Inr ((failed_check ''no_strategy_consensus'' (length cs))\<lparr>pc_regime := Some rg\<rparr>))
                     else if sd \<noteq> None \<and> sg_side k \<noteq> sd
                     then Some (Inr ((failed_check ''strategy_does_not_confirm_side'' (length cs))
                            \<lparr>pc_confirmed_side := sg_side k, pc_confidence := sg_confidence k,
                             pc_regime := Some rg, pc_rationale := Some (sg_rationale k)\<rparr>))
                     else score_candidate version g cs rg k)))"

section \<open>Properties\<close>

lemma add_if_Nil [simp]: "add_if b r rs = [] \<longleftrightarrow> \<not> b \<and> rs = []"
  by (simp add: add_if_def)

lemma wf_evaluate_returns: "\<exists>r. wf_evaluate version w cs = Some r"
  using wf_loop_returns [of w version cs 0 "[]"] by (auto simp: wf_evaluate_def)

lemma pretrade_returns: "\<exists>r. pretrade_evaluate version g cs sd now = Some r"
  using wf_evaluate_returns [of version "gate_evaluator g" cs]
  by (auto simp: pretrade_evaluate_def score_candidate_def walkforward_part_def Let_def split: sum.splits option.splits)

definition evidence_ok :: "pretrade_gate \<Rightarrow> backtest_metrics \<Rightarrow> bool" where
  "evidence_ok g m \<longleftrightarrow>
     (case pg_min_total_return g of None \<Rightarrow> True | Some r \<Rightarrow> r \<le> bm_total_return m)
   \<and> pg_min_excess_return g \<le> bm_excess_return m
   \<and> (pg_compare_full_history_drawdown g \<longrightarrow> bm_max_drawdown m \<le> pg_max_drawdown g)
   \<and> pg_min_sharpe g \<le> bm_sharpe m \<and> pg_min_trades g \<le> bm_trades m"

definition report_ok :: "pretrade_gate \<Rightarrow> walkforward_report \<Rightarrow> bool" where
  "report_ok g rep \<longleftrightarrow>
     pg_min_walkforward_excess_return g \<le> wr_mean_excess_return rep \<and> wr_worst_drawdown rep \<le> pg_max_drawdown g"

lemma backtest_reasons_Nil: "backtest_reasons g m = [] \<longleftrightarrow> evidence_ok g m"
  by (auto simp: backtest_reasons_def evidence_ok_def not_less split: option.splits)

lemma report_reasons_Nil: "report_reasons g rep rs = [] \<longleftrightarrow> report_ok g rep \<and> rs = []"
  by (auto simp: report_reasons_def report_ok_def not_less)

lemma failed_check_fields [simp]: "pc_passed (failed_check r n) = False"
  by (simp add: failed_check_def)

lemma score_candidate_passed:
  assumes "score_candidate version g cs rg k = Some (Inr c)" "pc_passed c"
  shows "pc_confirmed_side c = sg_side k \<and> pc_confidence c = sg_confidence k
    \<and> (\<exists>m. backtester_run version (pg_backtester g) cs None = Inr m \<and> evidence_ok g m)
    \<and> (case wf_evaluate version (gate_evaluator g) cs of
         Some (Inr rep) \<Rightarrow> report_ok g rep
       | _ \<Rightarrow> \<not> pg_require_walkforward g)"
proof -
  obtain r where r: "wf_evaluate version (gate_evaluator g) cs = Some r"
    using wf_evaluate_returns by blast
  from assms(1) obtain m where m: "backtester_run version (pg_backtester g) cs None = Inr m"
    by (auto simp: score_candidate_def split: sum.splits)
  show ?thesis
  proof (cases r)
    case (Inl e)
    with assms r m show ?thesis
      by (cases e) (auto simp: score_candidate_def walkforward_part_def backtest_reasons_Nil)
  next
    case (Inr rep)
    with assms r m show ?thesis
      by (auto simp: score_candidate_def walkforward_part_def backtest_reasons_Nil report_reasons_Nil)
  qed
qed

text \<open>
  The gate passes only on evidence. A check that passed has enough fresh candles of the
  required interval, a consensus side that the voters actually produced, a backtest within every
  configured bound, and a walk-forward report within its bounds, or none where none is required;
  and the check always comes back.
\<close>

theorem pretrade_pass_evidence:
  assumes "pretrade_evaluate version g cs sd now = Some (Inr c)" and "pc_passed c"
  shows "pg_min_candles g \<le> length cs \<and> \<not> interval_mismatch g cs \<and> \<not> history_stale g now cs
    \<and> pc_confirmed_side c \<noteq> None \<and> (sd \<noteq> None \<longrightarrow> pc_confirmed_side c = sd)
    \<and> (\<exists>rg ss k. ensemble_evaluate (bb_ensemble (pg_backtester g)) cs = Some (rg, ss)
        \<and> consensus (version (bb_ensemble (pg_backtester g))) (bb_ensemble (pg_backtester g)) ss = Some (Some k)
        \<and> pc_confirmed_side c = sg_side k \<and> pc_confidence c = sg_confidence k)
    \<and> (\<exists>m. backtester_run version (pg_backtester g) cs None = Inr m \<and> evidence_ok g m)
    \<and> (case wf_evaluate version (gate_evaluator g) cs of
         Some (Inr rep) \<Rightarrow> report_ok g rep
       | _ \<Rightarrow> \<not> pg_require_walkforward g)"
proof -
  from assms have pre: "pg_min_candles g \<le> length cs" "\<not> interval_mismatch g cs" "\<not> history_stale g now cs"
    by (auto simp: pretrade_evaluate_def split: if_splits)
  from assms obtain rg ss k where k:
    "ensemble_evaluate (bb_ensemble (pg_backtester g)) cs = Some (rg, ss)"
    "consensus (version (bb_ensemble (pg_backtester g))) (bb_ensemble (pg_backtester g)) ss = Some (Some k)"
    "sg_side k \<noteq> None" "sd \<noteq> None \<longrightarrow> sg_side k = sd" "score_candidate version g cs rg k = Some (Inr c)"
    by (auto simp: pretrade_evaluate_def of_value_error_def Let_def split: if_splits option.splits)
  from score_candidate_passed [OF k(5) assms(2)] pre k show ?thesis by auto
qed

section \<open>Witness\<close>

definition ex_voter :: voter where
  "ex_voter cs rg = Some \<lparr>sg_strategy_id = ''x'', sg_symbol = ''BTC/USD'', sg_side = Some BUY,
     sg_score = 1, sg_confidence = 1 / 2, sg_regime = rg, sg_rationale = [], sg_signal_version = None\<rparr>"

definition ex_buyer :: baseline_backtester where
  "ex_buyer = ex_backtester\<lparr>bb_ensemble := ex_ensemble\<lparr>en_extra_voters := [ex_voter]\<rparr>, bb_warmup := 3\<rparr>"

definition ex_gate :: "backtest_metrics \<Rightarrow> pretrade_gate" where
  "ex_gate m = \<lparr>pg_backtester = ex_buyer, pg_walkforward = None, pg_min_candles = 5,
     pg_max_candle_age_seconds = Some 7200, pg_min_excess_return = bm_excess_return m,
     pg_max_drawdown = bm_max_drawdown m, pg_min_sharpe = bm_sharpe m, pg_min_trades = bm_trades m,
     pg_require_walkforward = False, pg_min_walkforward_excess_return = 0, pg_min_total_return = None,
     pg_required_candle_interval = Some ''1h'', pg_compare_full_history_drawdown = True\<rparr>"

lemma ex_buyer_simps:
  "en_classifier (bb_ensemble ex_buyer) = en_classifier ex_ensemble" "bb_warmup ex_buyer = 3"
  "en_paper_research (bb_ensemble ex_buyer) = None" "en_min_agreeing (bb_ensemble ex_buyer) = 1"
  "ensemble_voters (bb_ensemble ex_buyer) = [ex_voter]" "bb_starting_equity ex_buyer = 1000"
  "bb_cost_model ex_buyer = None" "bb_fee_bps ex_buyer = 10" "bb_slippage_bps ex_buyer = 5"
  by (simp_all add: ex_buyer_def ex_backtester_def ex_ensemble_def ensemble_voters_def)

lemma ex_classify5: "classify (en_classifier ex_ensemble) ex_series = Some RANGE_BOUND"
  by (simp add: classify_def ex_ensemble_def realized_volatility_def moving_average_def mean_def
      closes_of_def tail_slice_def ex_candle_def simple_return_def standard_deviation_def ex_series_def)

lemma ex_votes:
  assumes "classify (en_classifier ex_ensemble) cs = Some rg"
  shows "\<exists>ss k. ensemble_evaluate (bb_ensemble ex_buyer) cs = Some (rg, ss)
    \<and> consensus None (bb_ensemble ex_buyer) ss = Some (Some k) \<and> sg_side k = Some BUY"
  using assms
  by (simp add: ensemble_evaluate_def ex_buyer_simps consensus_def combine_signals_def ex_voter_def Let_def)

lemma ex_buyer_run: "\<exists>m. backtester_run (\<lambda>e. None) ex_buyer ex_series None = Inr m"
proof -
  have d: "\<exists>x rg ids. baseline_decide (\<lambda>e. None) (bb_ensemble ex_buyer) (take n ex_series) = Inr (x, rg, ids) \<and> \<bar>x\<bar> \<le> 1"
    if "3 < n" "n < length ex_series" for n
  proof -
    from that have "n = 4" by (simp add: ex_series_props)
    then have "classify (en_classifier ex_ensemble) (take n ex_series) = Some RANGE_BOUND"
      using ex_classify [of 1 2 3 4] by (simp add: ex_series_def)
    from ex_votes [OF this] show ?thesis
      by (auto simp: baseline_decide_def paper_research_position_def ex_buyer_simps of_value_error_def)
  qed
  have flat_eq: "flat_cost_bps \<lparr>fc_fee_bps = 10, fc_slippage_bps = 5\<rparr> = flat_cost_bps default_flat"
    by (simp add: default_flat_def)
  have prices: "\<forall>c \<in> set ex_series. c_open c = 10 \<and> c_close c = 11"
    by (simp add: ex_series_def ex_candle_def)
  from ex_small_run [where fee = 10 and slip = 5 and th = rebalance_threshold and e = 1000 and w = 3
      and decide = "baseline_decide (\<lambda>e. None) (bb_ensemble ex_buyer)",
      OF ex_series_props(1) prices ex_series_props(3) _ _ d] show ?thesis
    by (auto simp: backtester_run_def ex_buyer_simps simulate_positions_def flat_eq ex_series_props(2) opt_or_def)
qed

lemma ex_check_passes:
  assumes "backtester_run (\<lambda>e. None) ex_buyer ex_series None = Inr m"
  shows "\<exists>c. pretrade_evaluate (\<lambda>e. None) (ex_gate m) ex_series None 5 = Some (Inr c) \<and> pc_passed c"
proof -
  have pre: "\<not> interval_mismatch (ex_gate m) ex_series" "\<not> history_stale (ex_gate m) 5 ex_series"
    by (simp_all add: interval_mismatch_def history_stale_def ex_gate_def ex_series_def ex_candle_def total_seconds_def)
  have "wf_loop (\<lambda>e. None) (default_evaluator ex_buyer) ex_series 0 [] = Some (Inr [])"
    by (subst wf_loop.simps) (simp add: default_evaluator_def ex_series_props)
  then have wf: "wf_evaluate (\<lambda>e. None) (gate_evaluator (ex_gate m)) ex_series = Some (Inl ValueError)"
    by (simp add: wf_evaluate_def gate_evaluator_def ex_gate_def report_of_def default_evaluator_def ex_buyer_simps)
  have ev: "backtest_reasons (ex_gate m) m = []"
    by (simp add: backtest_reasons_Nil evidence_ok_def ex_gate_def)
  have g: "pg_backtester (ex_gate m) = ex_buyer" "pg_min_candles (ex_gate m) = 5"
    "pg_require_walkforward (ex_gate m) = False" by (simp_all add: ex_gate_def)
  from ex_votes [OF ex_classify5] pre wf ev assms show ?thesis
    by (auto simp: pretrade_evaluate_def g ex_series_props(2) of_value_error_def score_candidate_def
        walkforward_part_def Let_def)
qed

theorem pretrade_pass_evidence_witness:
  "\<exists>g c. pretrade_evaluate (\<lambda>e. None) g ex_series None 5 = Some (Inr c) \<and> pc_passed c
     \<and> pg_min_candles g \<le> length ex_series \<and> pc_confirmed_side c \<noteq> None"
proof -
  obtain m c where c: "pretrade_evaluate (\<lambda>e. None) (ex_gate m) ex_series None 5 = Some (Inr c)" "pc_passed c"
    using ex_buyer_run ex_check_passes by blast
  from pretrade_pass_evidence [OF c] c show ?thesis by blast
qed

end
