(* ===== verification/Fee_Tiers.thy ===== *)
theory Fee_Tiers
  imports Prelude
begin

text \<open>
  The frozen fee-tier catalog and the research cost resolver (\<open>fee_tiers.py\<close>). The stamp's label
  and note are kept as values that name the template and its arguments instead of the rendered
  text.
\<close>

record fee_tier =
  ft_tier_id :: string
  ft_venue :: string
  ft_label :: string
  ft_min_30d_volume_usd :: real
  ft_maker_bps :: real
  ft_taker_bps :: real
  ft_source :: string
  ft_read_on :: string

definition kraken_fee_schedule_source :: string where
  "kraken_fee_schedule_source = ''kraken.com/features/fee-schedule''"

definition kraken_fee_schedule_read_on :: string where
  "kraken_fee_schedule_read_on = ''2026-09-13''"

definition kraken_tier :: "string \<Rightarrow> string \<Rightarrow> real \<Rightarrow> real \<Rightarrow> real \<Rightarrow> fee_tier" where
  "kraken_tier tid label vol maker taker =
     \<lparr>ft_tier_id = tid, ft_venue = ''kraken'', ft_label = label, ft_min_30d_volume_usd = vol,
      ft_maker_bps = maker, ft_taker_bps = taker, ft_source = kraken_fee_schedule_source,
      ft_read_on = kraken_fee_schedule_read_on\<rparr>"

definition kraken_pro_spot_tiers :: "fee_tier list" where
  "kraken_pro_spot_tiers =
     [kraken_tier ''kraken_pro_spot_t1'' ''Tier 1 ($0+ 30d)'' 0 40 80,
      kraken_tier ''kraken_pro_spot_t2'' ''Tier 2 ($2.5K+ 30d)'' 2500 30 60,
      kraken_tier ''kraken_pro_spot_t3'' ''Tier 3 ($10K+ 30d)'' 10000 22 38,
      kraken_tier ''kraken_pro_spot_t8'' ''Tier 8 (~$500K+ 30d)'' 500000 8 20,
      kraken_tier ''kraken_pro_spot_t12'' ''Tier 12 ($10M+ 30d)'' 10000000 0 10]"

definition modelled_fee_tier_id :: string where
  "modelled_fee_tier_id = ''modelled''"

definition modelled_fee_tier :: fee_tier where
  "modelled_fee_tier =
     \<lparr>ft_tier_id = modelled_fee_tier_id, ft_venue = ''modelled'',
      ft_label = ''pre-#138 modelled fee; not a venue tier'', ft_min_30d_volume_usd = 0,
      ft_maker_bps = 10, ft_taker_bps = 10,
      ft_source = ''PAPER_FEE_BPS / PRETRADE_FEE_BPS defaults'',
      ft_read_on = kraken_fee_schedule_read_on\<rparr>"

definition all_fee_tiers :: "fee_tier list" where
  "all_fee_tiers = kraken_pro_spot_tiers @ [modelled_fee_tier]"

definition fee_tier_ids :: "string list" where
  "fee_tier_ids = map ft_tier_id all_fee_tiers"

text \<open>An unknown tier id raises \<open>ValueError\<close>; \<open>None\<close> is that error.\<close>

definition resolve_fee_tier :: "string \<Rightarrow> fee_tier option" where
  "resolve_fee_tier tid = map_of (map (\<lambda>t. (ft_tier_id t, t)) all_fee_tiers) tid"

definition effective_taker_bps :: "string \<Rightarrow> real \<Rightarrow> real option" where
  "effective_taker_bps tid paper_fee_bps =
     (case resolve_fee_tier tid of
        None \<Rightarrow> None
      | Some tier \<Rightarrow>
          if ft_tier_id tier = modelled_fee_tier_id then Some paper_fee_bps
          else Some (ft_taker_bps tier))"

datatype stamp_label = TierLabel string | ExplicitFeeLabel real

datatype stamp_note = MakerNotAssumed | ExplicitFeeNote | ModelledTierNote

record fee_tier_stamp =
  fs_tier_id :: string
  fs_venue :: string
  fs_label :: stamp_label
  fs_maker_bps :: real
  fs_taker_bps :: real
  fs_fee_bps_used :: real
  fs_source :: string
  fs_read_on :: string
  fs_note :: stamp_note

definition stamp_for_tier :: "fee_tier \<Rightarrow> real \<Rightarrow> fee_tier_stamp" where
  "stamp_for_tier tier used =
     \<lparr>fs_tier_id = ft_tier_id tier, fs_venue = ft_venue tier, fs_label = TierLabel (ft_label tier),
      fs_maker_bps = ft_maker_bps tier, fs_taker_bps = ft_taker_bps tier, fs_fee_bps_used = used,
      fs_source = ft_source tier, fs_read_on = ft_read_on tier, fs_note = MakerNotAssumed\<rparr>"

record research_costs =
  rc_fee_bps :: real
  rc_slippage_bps :: real
  rc_stamp :: fee_tier_stamp

text \<open>
  \<open>resolve_research_costs\<close> with the four settings it reads passed by value; \<open>None\<close> is the
  \<open>ValueError\<close> of a negative explicit fee or of an unknown tier.
\<close>

definition resolve_research_costs ::
    "real option \<Rightarrow> string option \<Rightarrow> real option \<Rightarrow> string \<Rightarrow> real \<Rightarrow> real \<Rightarrow> real
       \<Rightarrow> research_costs option" where
  "resolve_research_costs fee_bps fee_tier slippage_bps
       paper_fee_tier paper_fee_bps pretrade_fee_bps pretrade_slippage_bps =
     (let resolved_slippage = opt_or slippage_bps pretrade_slippage_bps in
      case fee_bps of
        Some explicit \<Rightarrow>
          if explicit < 0 then None
          else Some \<lparr>rc_fee_bps = explicit, rc_slippage_bps = resolved_slippage,
                 rc_stamp = \<lparr>fs_tier_id = ''explicit'', fs_venue = ''explicit'',
                   fs_label = ExplicitFeeLabel explicit, fs_maker_bps = explicit,
                   fs_taker_bps = explicit, fs_fee_bps_used = explicit,
                   fs_source = ''operator flag'', fs_read_on = kraken_fee_schedule_read_on,
                   fs_note = ExplicitFeeNote\<rparr>\<rparr>
      | None \<Rightarrow>
          (case resolve_fee_tier (opt_or fee_tier paper_fee_tier) of
             None \<Rightarrow> None
           | Some tier \<Rightarrow>
               (case effective_taker_bps (ft_tier_id tier) paper_fee_bps of
                  None \<Rightarrow> None
                | Some taker \<Rightarrow>
                    (let used = max pretrade_fee_bps taker;
                         stamp = (if ft_tier_id tier = modelled_fee_tier_id
                           then \<lparr>fs_tier_id = ft_tier_id tier, fs_venue = ft_venue tier,
                             fs_label = TierLabel (ft_label tier), fs_maker_bps = taker,
                             fs_taker_bps = taker, fs_fee_bps_used = used,
                             fs_source = ft_source tier, fs_read_on = ft_read_on tier,
                             fs_note = ModelledTierNote\<rparr>
                           else stamp_for_tier tier used)
                     in Some \<lparr>rc_fee_bps = used, rc_slippage_bps = resolved_slippage,
                              rc_stamp = stamp\<rparr>))))"

lemmas tier_eval = resolve_fee_tier_def all_fee_tiers_def kraken_pro_spot_tiers_def kraken_tier_def
  modelled_fee_tier_def modelled_fee_tier_id_def fee_tier_ids_def

lemma resolve_fee_tier_total: "tid \<in> set fee_tier_ids \<longleftrightarrow> (\<exists>t. resolve_fee_tier tid = Some t)"
  by (auto simp: tier_eval split: if_splits)

lemma resolve_fee_tier_id: "resolve_fee_tier tid = Some t \<Longrightarrow> ft_tier_id t = tid"
  by (auto simp: tier_eval split: if_splits)

lemma effective_taker_nonneg:
  "effective_taker_bps tid fee = Some b \<Longrightarrow> 0 \<le> fee \<Longrightarrow> 0 \<le> b"
  by (auto simp: effective_taker_bps_def tier_eval split: if_splits option.splits)

text \<open>A tier never makes research cheaper than the configured pre-trade fee or its taker leg.\<close>

lemma research_costs_conservative:
  assumes "resolve_research_costs None tier slip pt pf ptf pts = Some c"
  shows "ptf \<le> rc_fee_bps c" "effective_taker_bps (opt_or tier pt) pf = Some b \<Longrightarrow> b \<le> rc_fee_bps c"
  using assms resolve_fee_tier_id
  by (auto simp: resolve_research_costs_def Let_def split: option.splits if_splits)

end
