(* ===== verification/Config.thy ===== *)
theory Config
  imports Fee_Tiers
begin

text \<open>
  The settings (\<open>config.py\<close>): the fields of \<open>Settings\<close> that some modelled component reads,
  with the names and defaults of the source, the pydantic constraints of each as
  \<open>settings_valid\<close>, and every derived property. The record is built in layers: the fields of
  \<open>RISK_LIMIT_FIELDS\<close>, then those of \<open>CONTROL_PLANE_FIELDS\<close> (both hashed into the policy
  version), then the paper and credential fields that are not policy.
\<close>

section \<open>Settings\<close>

datatype trading_mode = TM_paper | TM_shadow | TM_live

datatype meta_agent_mode = MA_off | MA_advisory | MA_veto

fun trading_mode_str :: "trading_mode \<Rightarrow> string" where
  "trading_mode_str TM_paper = ''paper''"
| "trading_mode_str TM_shadow = ''shadow''"
| "trading_mode_str TM_live = ''live''"

fun meta_agent_mode_str :: "meta_agent_mode \<Rightarrow> string" where
  "meta_agent_mode_str MA_off = ''off''"
| "meta_agent_mode_str MA_advisory = ''advisory''"
| "meta_agent_mode_str MA_veto = ''veto''"

record risk_limit_settings =
  cfg_mvp_assets :: string
  cfg_max_position_pct :: real
  cfg_max_daily_loss_pct :: real
  cfg_max_account_drawdown_pct :: real
  cfg_max_open_positions :: nat
  cfg_min_cash_reserve_pct :: real
  cfg_max_gross_exposure_pct :: real
  cfg_max_portfolio_state_age_seconds :: real
  cfg_risk_max_spread_bps :: real
  cfg_volatility_sizing_enabled :: bool
  cfg_target_volatility :: real
  cfg_paper_garch_size :: bool
  cfg_paper_garch_target_vol :: real
  cfg_strategy_max_consecutive_losses :: nat
  cfg_strategy_drawdown_window :: nat
  cfg_strategy_max_rolling_drawdown_pct :: real
  cfg_strategy_breaker_cooldown_seconds :: real
  cfg_kill_switch :: bool
  cfg_kill_switch_file :: string
  cfg_kill_switch_redis_key :: string
  cfg_kill_switch_redis_enabled :: bool

record control_plane_settings_1 = risk_limit_settings +
  cfg_pretrade_backtest_enabled :: bool
  cfg_pretrade_candle_interval :: string
  cfg_pretrade_candle_count :: nat
  cfg_pretrade_min_candles :: nat
  cfg_pretrade_max_candle_age_seconds :: real
  cfg_pretrade_min_excess_return :: real
  cfg_pretrade_max_drawdown_pct :: real
  cfg_pretrade_min_sharpe :: real
  cfg_pretrade_min_trades :: nat
  cfg_pretrade_require_walkforward :: bool
  cfg_pretrade_fee_bps :: real
  cfg_pretrade_slippage_bps :: real
  cfg_max_spread_bps :: real
  cfg_max_reference_divergence_bps :: real
  cfg_max_market_data_age_seconds :: real
  cfg_execution_min_notional_usd :: real
  cfg_execution_lot_step :: real
  cfg_execution_max_slippage_bps :: real
  cfg_max_nav_drift_bps :: real
  cfg_robinhood_chain_max_notional_usd :: real
  cfg_robinhood_chain_max_gas_limit :: nat

record control_plane_settings = control_plane_settings_1 +
  cfg_robinhood_chain_max_gas_price_gwei :: real
  cfg_exit_stop_loss_pct :: real
  cfg_exit_take_profit_pct :: real
  cfg_exit_trailing_stop_pct :: real
  cfg_exit_time_stop_bars :: nat
  cfg_exit_on_thesis_invalidation :: bool
  cfg_intelligence_required :: bool
  cfg_intelligence_block_on_adverse_news :: bool
  cfg_meta_agent_mode :: meta_agent_mode
  cfg_reconcile_interval_seconds :: real
  cfg_execution_submit_timeout_seconds :: real
  cfg_execution_max_retries :: nat
  cfg_robinhood_chain_allowed_routers :: string
  cfg_robinhood_chain_allowed_tokens :: string
  cfg_trading_mode :: trading_mode
  cfg_paper_simulate_fills :: bool
  cfg_paper_slippage_bps :: real
  cfg_onchain_regime_gate_enabled :: bool
  cfg_onchain_regime_max_percentile :: real
  cfg_onchain_regime_source_asset :: string

record paper_settings = control_plane_settings +
  cfg_risk_policy_label :: string
  cfg_paper_starting_nav_usd :: real
  cfg_paper_fee_bps :: real
  cfg_paper_fee_tier :: string
  cfg_paper_perp_hedge :: bool
  cfg_paper_carry_hedge_diagnostic :: bool
  cfg_paper_promote_fund_z_harvest_sign_hold :: bool
  cfg_opportunity_diagnostic_mode :: bool
  cfg_paper_research_mode :: bool
  cfg_paper_pretrade_min_total_return :: real
  cfg_paper_pretrade_min_excess_return :: real
  cfg_paper_pretrade_min_sharpe :: real
  cfg_paper_pretrade_min_trades :: nat
  cfg_paper_pretrade_min_walkforward_excess_return :: real
  cfg_paper_promote_ema_9_21 :: bool
  cfg_paper_promote_ema_9_21_max_drawdown_pct :: real
  cfg_paper_promote_ema_9_21_adx15 :: bool
  cfg_paper_promote_universe :: string
  cfg_reference_price_cache_seconds :: real
  cfg_paper_reference_cache_seconds :: real
  cfg_paper_reference_last_good_seconds :: real

record settings = paper_settings +
  cfg_dune_api_key :: "string option"
  cfg_dune_query_ids :: string
  cfg_lunarcrush_api_key :: "string option"
  cfg_cryptopanic_api_key :: "string option"
  cfg_perplexity_api_key :: "string option"
  cfg_altfins_api_key :: "string option"
  cfg_polymarket_weather_cities :: string
  cfg_polymarket_crypto_assets :: string

definition settings_valid :: "settings \<Rightarrow> bool" where
  "settings_valid s \<longleftrightarrow>
     0 < cfg_max_position_pct s
   \<and> cfg_max_position_pct s \<le> 1
   \<and> 0 < cfg_max_daily_loss_pct s
   \<and> cfg_max_daily_loss_pct s \<le> 1
   \<and> 0 < cfg_max_account_drawdown_pct s
   \<and> cfg_max_account_drawdown_pct s \<le> 1
   \<and> 0 < cfg_max_open_positions s
   \<and> 0 \<le> cfg_min_cash_reserve_pct s
   \<and> cfg_min_cash_reserve_pct s < 1
   \<and> 0 < cfg_max_gross_exposure_pct s
   \<and> cfg_max_gross_exposure_pct s \<le> 1
   \<and> 0 < cfg_max_portfolio_state_age_seconds s
   \<and> 0 < cfg_risk_max_spread_bps s
   \<and> 0 < cfg_target_volatility s
   \<and> 0 < cfg_paper_garch_target_vol s
   \<and> 0 < cfg_strategy_max_consecutive_losses s
   \<and> 0 < cfg_strategy_drawdown_window s
   \<and> 0 < cfg_strategy_max_rolling_drawdown_pct s
   \<and> cfg_strategy_max_rolling_drawdown_pct s \<le> 1
   \<and> 0 < cfg_strategy_breaker_cooldown_seconds s
   \<and> 0 < cfg_pretrade_candle_count s
   \<and> 0 < cfg_pretrade_min_candles s
   \<and> 0 < cfg_pretrade_max_candle_age_seconds s
   \<and> 0 < cfg_pretrade_max_drawdown_pct s
   \<and> cfg_pretrade_max_drawdown_pct s \<le> 1
   \<and> 0 \<le> cfg_pretrade_fee_bps s
   \<and> 0 \<le> cfg_pretrade_slippage_bps s
   \<and> 0 < cfg_max_spread_bps s
   \<and> 0 < cfg_max_reference_divergence_bps s
   \<and> 0 < cfg_max_market_data_age_seconds s
   \<and> 0 < cfg_execution_min_notional_usd s
   \<and> 0 < cfg_execution_lot_step s
   \<and> 0 < cfg_execution_max_slippage_bps s
   \<and> 0 < cfg_max_nav_drift_bps s
   \<and> 0 \<le> cfg_robinhood_chain_max_notional_usd s
   \<and> 0 < cfg_robinhood_chain_max_gas_limit s
   \<and> 0 < cfg_robinhood_chain_max_gas_price_gwei s
   \<and> 0 \<le> cfg_exit_stop_loss_pct s
   \<and> cfg_exit_stop_loss_pct s \<le> 1
   \<and> 0 \<le> cfg_exit_take_profit_pct s
   \<and> cfg_exit_take_profit_pct s \<le> 1
   \<and> 0 \<le> cfg_exit_trailing_stop_pct s
   \<and> cfg_exit_trailing_stop_pct s \<le> 1
   \<and> 0 < cfg_reconcile_interval_seconds s
   \<and> 0 < cfg_execution_submit_timeout_seconds s
   \<and> 0 \<le> cfg_paper_slippage_bps s
   \<and> 0 < cfg_onchain_regime_max_percentile s
   \<and> cfg_onchain_regime_max_percentile s \<le> 1
   \<and> 0 \<le> cfg_paper_fee_bps s
   \<and> 0 < cfg_paper_promote_ema_9_21_max_drawdown_pct s
   \<and> cfg_paper_promote_ema_9_21_max_drawdown_pct s \<le> 1
   \<and> 0 \<le> cfg_reference_price_cache_seconds s
   \<and> 0 \<le> cfg_paper_reference_cache_seconds s
   \<and> 0 \<le> cfg_paper_reference_last_good_seconds s
   \<and> cfg_paper_fee_tier s \<in> set fee_tier_ids"

definition default_settings :: settings where
  "default_settings = \<lparr>
     cfg_mvp_assets = ''BTC,ETH,SOL'',
     cfg_max_position_pct = 1 / 10,
     cfg_max_daily_loss_pct = 1 / 50,
     cfg_max_account_drawdown_pct = 1 / 10,
     cfg_max_open_positions = 5,
     cfg_min_cash_reserve_pct = 1 / 20,
     cfg_max_gross_exposure_pct = 3 / 5,
     cfg_max_portfolio_state_age_seconds = 60,
     cfg_risk_max_spread_bps = 30,
     cfg_volatility_sizing_enabled = True,
     cfg_target_volatility = 1 / 50,
     cfg_paper_garch_size = False,
     cfg_paper_garch_target_vol = 1 / 2,
     cfg_strategy_max_consecutive_losses = 3,
     cfg_strategy_drawdown_window = 10,
     cfg_strategy_max_rolling_drawdown_pct = 1 / 20,
     cfg_strategy_breaker_cooldown_seconds = 3600,
     cfg_kill_switch = True,
     cfg_kill_switch_file = ''var/state/KILL'',
     cfg_kill_switch_redis_key = ''traderstack:kill_switch'',
     cfg_kill_switch_redis_enabled = False,
     cfg_pretrade_backtest_enabled = True,
     cfg_pretrade_candle_interval = ''1h'',
     cfg_pretrade_candle_count = 400,
     cfg_pretrade_min_candles = 250,
     cfg_pretrade_max_candle_age_seconds = 7200,
     cfg_pretrade_min_excess_return = 0,
     cfg_pretrade_max_drawdown_pct = 3 / 20,
     cfg_pretrade_min_sharpe = 0,
     cfg_pretrade_min_trades = 3,
     cfg_pretrade_require_walkforward = True,
     cfg_pretrade_fee_bps = 10,
     cfg_pretrade_slippage_bps = 5,
     cfg_max_spread_bps = 30,
     cfg_max_reference_divergence_bps = 50,
     cfg_max_market_data_age_seconds = 5,
     cfg_execution_min_notional_usd = 10,
     cfg_execution_lot_step = 1 / 100000000,
     cfg_execution_max_slippage_bps = 50,
     cfg_max_nav_drift_bps = 25,
     cfg_robinhood_chain_max_notional_usd = 0,
     cfg_robinhood_chain_max_gas_limit = 500000,
     cfg_robinhood_chain_max_gas_price_gwei = 5,
     cfg_exit_stop_loss_pct = 1 / 50,
     cfg_exit_take_profit_pct = 1 / 25,
     cfg_exit_trailing_stop_pct = 0,
     cfg_exit_time_stop_bars = 24,
     cfg_exit_on_thesis_invalidation = False,
     cfg_intelligence_required = False,
     cfg_intelligence_block_on_adverse_news = True,
     cfg_meta_agent_mode = MA_advisory,
     cfg_reconcile_interval_seconds = 60,
     cfg_execution_submit_timeout_seconds = 10,
     cfg_execution_max_retries = 2,
     cfg_robinhood_chain_allowed_routers = '''',
     cfg_robinhood_chain_allowed_tokens = '''',
     cfg_trading_mode = TM_paper,
     cfg_paper_simulate_fills = True,
     cfg_paper_slippage_bps = 5,
     cfg_onchain_regime_gate_enabled = False,
     cfg_onchain_regime_max_percentile = 9 / 10,
     cfg_onchain_regime_source_asset = ''btc'',
     cfg_risk_policy_label = ''mvp-v1'',
     cfg_paper_starting_nav_usd = 10000,
     cfg_paper_fee_bps = 10,
     cfg_paper_fee_tier = ''kraken_pro_spot_t1'',
     cfg_paper_perp_hedge = False,
     cfg_paper_carry_hedge_diagnostic = False,
     cfg_paper_promote_fund_z_harvest_sign_hold = False,
     cfg_opportunity_diagnostic_mode = False,
     cfg_paper_research_mode = True,
     cfg_paper_pretrade_min_total_return = - (3 / 20),
     cfg_paper_pretrade_min_excess_return = - (1 / 10),
     cfg_paper_pretrade_min_sharpe = - (10),
     cfg_paper_pretrade_min_trades = 1,
     cfg_paper_pretrade_min_walkforward_excess_return = - (1 / 10),
     cfg_paper_promote_ema_9_21 = False,
     cfg_paper_promote_ema_9_21_max_drawdown_pct = 3 / 10,
     cfg_paper_promote_ema_9_21_adx15 = False,
     cfg_paper_promote_universe = ''BTC/USD,ETH/USD'',
     cfg_reference_price_cache_seconds = 20,
     cfg_paper_reference_cache_seconds = 120,
     cfg_paper_reference_last_good_seconds = 300,
     cfg_dune_api_key = None,
     cfg_dune_query_ids = '''',
     cfg_lunarcrush_api_key = None,
     cfg_cryptopanic_api_key = None,
     cfg_perplexity_api_key = None,
     cfg_altfins_api_key = None,
     cfg_polymarket_weather_cities = ''honolulu,san_diego,miami,phoenix,singapore,lisbon'',
     cfg_polymarket_crypto_assets = ''BTC,ETH''\<rparr>"

section \<open>Derived properties\<close>

text \<open>The comma-separated list properties: tokens are stripped and empty tokens dropped.\<close>

definition csv_tokens :: "string \<Rightarrow> string list" where
  "csv_tokens s = map strip (filter (\<lambda>x. strip x \<noteq> []) (split_on CHR '','' s))"

definition assets :: "settings \<Rightarrow> string list" where
  "assets s = map upper (csv_tokens (cfg_mvp_assets s))"

definition paper_promote_universe_symbols :: "string list" where
  "paper_promote_universe_symbols = [''BTC/USD'', ''ETH/USD'']"

definition configured_promote_universe_symbols :: "settings \<Rightarrow> string list" where
  "configured_promote_universe_symbols s =
     map (\<lambda>raw. let token = upper (strip raw) in
            if CHR ''/'' \<in> set token then token else token @ ''/USD'')
       (filter (\<lambda>raw. upper (strip raw) \<noteq> []) (split_on CHR '','' (cfg_paper_promote_universe s)))"

definition paper_promote_ema_9_21_active :: "settings \<Rightarrow> bool" where
  "paper_promote_ema_9_21_active s \<longleftrightarrow> cfg_trading_mode s = TM_paper \<and> cfg_paper_promote_ema_9_21 s"

definition paper_promote_ema_9_21_adx15_active :: "settings \<Rightarrow> bool" where
  "paper_promote_ema_9_21_adx15_active s \<longleftrightarrow>
     cfg_trading_mode s = TM_paper \<and> cfg_paper_promote_ema_9_21_adx15 s
   \<and> \<not> cfg_paper_promote_ema_9_21 s"

definition paper_promote_fund_z_harvest_sign_hold_active :: "settings \<Rightarrow> bool" where
  "paper_promote_fund_z_harvest_sign_hold_active s \<longleftrightarrow>
     cfg_trading_mode s = TM_paper \<and> cfg_paper_promote_fund_z_harvest_sign_hold s"

definition paper_daily_promote_active :: "settings \<Rightarrow> bool" where
  "paper_daily_promote_active s \<longleftrightarrow>
     paper_promote_ema_9_21_active s \<or> paper_promote_ema_9_21_adx15_active s"

definition effective_promote_universe_symbols :: "settings \<Rightarrow> string list" where
  "effective_promote_universe_symbols s =
     filter (\<lambda>symbol. symbol \<in> set (configured_promote_universe_symbols s)
                    \<and> symbol \<in> set (map (\<lambda>asset. asset @ ''/USD'') (assets s)))
       paper_promote_universe_symbols"

definition effective_cycle_symbols :: "settings \<Rightarrow> string list" where
  "effective_cycle_symbols s =
     (if paper_daily_promote_active s then effective_promote_universe_symbols s
      else map (\<lambda>asset. asset @ ''/USD'') (assets s))"

definition promote_universe_allows :: "settings \<Rightarrow> string \<Rightarrow> bool" where
  "promote_universe_allows s symbol =
     (if \<not> paper_daily_promote_active s then True
      else upper (strip symbol) \<in> set (effective_promote_universe_symbols s))"

definition secret_configured :: "string option \<Rightarrow> bool" where
  "secret_configured v = (case v of None \<Rightarrow> False | Some k \<Rightarrow> strip k \<noteq> [])"

definition optional_intelligence_configured :: "settings \<Rightarrow> bool" where
  "optional_intelligence_configured s \<longleftrightarrow>
     (secret_configured (cfg_dune_api_key s) \<and> strip (cfg_dune_query_ids s) \<noteq> [])
   \<or> secret_configured (cfg_lunarcrush_api_key s)
   \<or> secret_configured (cfg_cryptopanic_api_key s)
   \<or> secret_configured (cfg_perplexity_api_key s)
   \<or> secret_configured (cfg_altfins_api_key s)"

definition paper_research_active :: "settings \<Rightarrow> bool" where
  "paper_research_active s \<longleftrightarrow> cfg_trading_mode s = TM_paper \<and> cfg_paper_research_mode s"

definition position_exits_enabled_by_settings :: "settings \<Rightarrow> bool" where
  "position_exits_enabled_by_settings s \<longleftrightarrow>
     0 < cfg_exit_stop_loss_pct s \<or> 0 < cfg_exit_take_profit_pct s
   \<or> 0 < cfg_exit_trailing_stop_pct s \<or> 0 < cfg_exit_time_stop_bars s
   \<or> cfg_exit_on_thesis_invalidation s"

definition position_exits_active :: "settings \<Rightarrow> bool" where
  "position_exits_active s \<longleftrightarrow>
     cfg_trading_mode s \<noteq> TM_live \<and> position_exits_enabled_by_settings s"

definition effective_reference_cache_seconds :: "settings \<Rightarrow> real" where
  "effective_reference_cache_seconds s =
     (if cfg_trading_mode s = TM_paper then cfg_paper_reference_cache_seconds s
      else cfg_reference_price_cache_seconds s)"

definition effective_reference_last_good_seconds :: "settings \<Rightarrow> real" where
  "effective_reference_last_good_seconds s =
     (if cfg_trading_mode s = TM_paper then cfg_paper_reference_last_good_seconds s else 0)"

definition effective_pretrade_min_excess_return :: "settings \<Rightarrow> real" where
  "effective_pretrade_min_excess_return s =
     (if cfg_trading_mode s = TM_paper then cfg_paper_pretrade_min_excess_return s
      else cfg_pretrade_min_excess_return s)"

definition effective_pretrade_min_sharpe :: "settings \<Rightarrow> real" where
  "effective_pretrade_min_sharpe s =
     (if cfg_trading_mode s = TM_paper then cfg_paper_pretrade_min_sharpe s
      else cfg_pretrade_min_sharpe s)"

definition effective_pretrade_min_trades :: "settings \<Rightarrow> nat" where
  "effective_pretrade_min_trades s =
     (if cfg_trading_mode s = TM_paper then cfg_paper_pretrade_min_trades s
      else cfg_pretrade_min_trades s)"

definition effective_pretrade_min_total_return :: "settings \<Rightarrow> real option" where
  "effective_pretrade_min_total_return s =
     (if cfg_trading_mode s = TM_paper then Some (cfg_paper_pretrade_min_total_return s) else None)"

definition effective_pretrade_min_walkforward_excess_return :: "settings \<Rightarrow> real" where
  "effective_pretrade_min_walkforward_excess_return s =
     (if cfg_trading_mode s = TM_paper then cfg_paper_pretrade_min_walkforward_excess_return s else 0)"

definition paper_garch_size_active :: "settings \<Rightarrow> bool" where
  "paper_garch_size_active s \<longleftrightarrow> cfg_trading_mode s = TM_paper \<and> cfg_paper_garch_size s"

definition effective_pretrade_candle_interval :: "settings \<Rightarrow> string" where
  "effective_pretrade_candle_interval s =
     (if paper_daily_promote_active s then ''1d'' else cfg_pretrade_candle_interval s)"

definition effective_pretrade_candle_count :: "settings \<Rightarrow> nat" where
  "effective_pretrade_candle_count s =
     (if paper_daily_promote_active s then 720 else cfg_pretrade_candle_count s)"

definition effective_pretrade_max_candle_age_seconds :: "settings \<Rightarrow> real" where
  "effective_pretrade_max_candle_age_seconds s =
     (if paper_daily_promote_active s then max (cfg_pretrade_max_candle_age_seconds s) 172800
      else cfg_pretrade_max_candle_age_seconds s)"

definition effective_pretrade_max_drawdown_pct :: "settings \<Rightarrow> real" where
  "effective_pretrade_max_drawdown_pct s =
     (if paper_daily_promote_active s then cfg_paper_promote_ema_9_21_max_drawdown_pct s
      else cfg_pretrade_max_drawdown_pct s)"

definition polymarket_weather_city_slugs :: "settings \<Rightarrow> string list" where
  "polymarket_weather_city_slugs s =
     map (\<lambda>x. map (\<lambda>c. if c = CHR '' '' then CHR ''_'' else c) (lower x))
       (csv_tokens (cfg_polymarket_weather_cities s))"

definition effective_paper_fee_bps :: "settings \<Rightarrow> real option" where
  "effective_paper_fee_bps s = effective_taker_bps (cfg_paper_fee_tier s) (cfg_paper_fee_bps s)"

definition polymarket_crypto_asset_list :: "settings \<Rightarrow> string list" where
  "polymarket_crypto_asset_list s = map upper (csv_tokens (cfg_polymarket_crypto_assets s))"

definition supported_runtime_modes :: "string list" where
  "supported_runtime_modes = [''paper'', ''shadow'']"

text \<open>\<open>None\<close> is the \<open>RuntimeError\<close>.\<close>

definition require_runtime_trading_mode :: "string \<Rightarrow> string option" where
  "require_runtime_trading_mode mode =
     (if mode = ''live'' then None
      else if mode \<notin> set supported_runtime_modes then None
      else Some mode)"

lemma default_fields [simp]:
  "cfg_mvp_assets default_settings = ''BTC,ETH,SOL''"
  "cfg_max_position_pct default_settings = 1 / 10"
  "cfg_max_daily_loss_pct default_settings = 1 / 50"
  "cfg_max_account_drawdown_pct default_settings = 1 / 10"
  "cfg_max_open_positions default_settings = 5"
  "cfg_min_cash_reserve_pct default_settings = 1 / 20"
  "cfg_max_gross_exposure_pct default_settings = 3 / 5"
  "cfg_max_portfolio_state_age_seconds default_settings = 60"
  "cfg_risk_max_spread_bps default_settings = 30"
  "cfg_volatility_sizing_enabled default_settings = True"
  "cfg_target_volatility default_settings = 1 / 50"
  "cfg_paper_garch_size default_settings = False"
  "cfg_paper_garch_target_vol default_settings = 1 / 2"
  "cfg_strategy_max_consecutive_losses default_settings = 3"
  "cfg_strategy_drawdown_window default_settings = 10"
  "cfg_strategy_max_rolling_drawdown_pct default_settings = 1 / 20"
  "cfg_strategy_breaker_cooldown_seconds default_settings = 3600"
  "cfg_kill_switch default_settings = True"
  "cfg_kill_switch_file default_settings = ''var/state/KILL''"
  "cfg_kill_switch_redis_key default_settings = ''traderstack:kill_switch''"
  "cfg_kill_switch_redis_enabled default_settings = False"
  "cfg_pretrade_backtest_enabled default_settings = True"
  "cfg_pretrade_candle_interval default_settings = ''1h''"
  "cfg_pretrade_candle_count default_settings = 400"
  "cfg_pretrade_min_candles default_settings = 250"
  "cfg_pretrade_max_candle_age_seconds default_settings = 7200"
  "cfg_pretrade_min_excess_return default_settings = 0"
  "cfg_pretrade_max_drawdown_pct default_settings = 3 / 20"
  "cfg_pretrade_min_sharpe default_settings = 0"
  "cfg_pretrade_min_trades default_settings = 3"
  "cfg_pretrade_require_walkforward default_settings = True"
  "cfg_pretrade_fee_bps default_settings = 10"
  "cfg_pretrade_slippage_bps default_settings = 5"
  "cfg_max_spread_bps default_settings = 30"
  "cfg_max_reference_divergence_bps default_settings = 50"
  "cfg_max_market_data_age_seconds default_settings = 5"
  "cfg_execution_min_notional_usd default_settings = 10"
  "cfg_execution_lot_step default_settings = 1 / 100000000"
  "cfg_execution_max_slippage_bps default_settings = 50"
  "cfg_max_nav_drift_bps default_settings = 25"
  "cfg_robinhood_chain_max_notional_usd default_settings = 0"
  "cfg_robinhood_chain_max_gas_limit default_settings = 500000"
  "cfg_robinhood_chain_max_gas_price_gwei default_settings = 5"
  "cfg_exit_stop_loss_pct default_settings = 1 / 50"
  "cfg_exit_take_profit_pct default_settings = 1 / 25"
  "cfg_exit_trailing_stop_pct default_settings = 0"
  "cfg_exit_time_stop_bars default_settings = 24"
  "cfg_exit_on_thesis_invalidation default_settings = False"
  "cfg_intelligence_required default_settings = False"
  "cfg_intelligence_block_on_adverse_news default_settings = True"
  "cfg_meta_agent_mode default_settings = MA_advisory"
  "cfg_reconcile_interval_seconds default_settings = 60"
  "cfg_execution_submit_timeout_seconds default_settings = 10"
  "cfg_execution_max_retries default_settings = 2"
  "cfg_robinhood_chain_allowed_routers default_settings = ''''"
  "cfg_robinhood_chain_allowed_tokens default_settings = ''''"
  "cfg_trading_mode default_settings = TM_paper"
  "cfg_paper_simulate_fills default_settings = True"
  "cfg_paper_slippage_bps default_settings = 5"
  "cfg_onchain_regime_gate_enabled default_settings = False"
  "cfg_onchain_regime_max_percentile default_settings = 9 / 10"
  "cfg_onchain_regime_source_asset default_settings = ''btc''"
  "cfg_risk_policy_label default_settings = ''mvp-v1''"
  "cfg_paper_starting_nav_usd default_settings = 10000"
  "cfg_paper_fee_bps default_settings = 10"
  "cfg_paper_fee_tier default_settings = ''kraken_pro_spot_t1''"
  "cfg_paper_perp_hedge default_settings = False"
  "cfg_paper_carry_hedge_diagnostic default_settings = False"
  "cfg_paper_promote_fund_z_harvest_sign_hold default_settings = False"
  "cfg_opportunity_diagnostic_mode default_settings = False"
  "cfg_paper_research_mode default_settings = True"
  "cfg_paper_pretrade_min_total_return default_settings = - (3 / 20)"
  "cfg_paper_pretrade_min_excess_return default_settings = - (1 / 10)"
  "cfg_paper_pretrade_min_sharpe default_settings = - (10)"
  "cfg_paper_pretrade_min_trades default_settings = 1"
  "cfg_paper_pretrade_min_walkforward_excess_return default_settings = - (1 / 10)"
  "cfg_paper_promote_ema_9_21 default_settings = False"
  "cfg_paper_promote_ema_9_21_max_drawdown_pct default_settings = 3 / 10"
  "cfg_paper_promote_ema_9_21_adx15 default_settings = False"
  "cfg_paper_promote_universe default_settings = ''BTC/USD,ETH/USD''"
  "cfg_reference_price_cache_seconds default_settings = 20"
  "cfg_paper_reference_cache_seconds default_settings = 120"
  "cfg_paper_reference_last_good_seconds default_settings = 300"
  "cfg_dune_api_key default_settings = None"
  "cfg_dune_query_ids default_settings = ''''"
  "cfg_lunarcrush_api_key default_settings = None"
  "cfg_cryptopanic_api_key default_settings = None"
  "cfg_perplexity_api_key default_settings = None"
  "cfg_altfins_api_key default_settings = None"
  "cfg_polymarket_weather_cities default_settings = ''honolulu,san_diego,miami,phoenix,singapore,lisbon''"
  "cfg_polymarket_crypto_assets default_settings = ''BTC,ETH''"
  by (simp_all add: default_settings_def)

lemma default_settings_valid: "settings_valid default_settings"
  by (simp add: settings_valid_def tier_eval)

lemma settings_validD:
  assumes "settings_valid s"
  shows "0 < cfg_max_position_pct s" "cfg_max_position_pct s \<le> 1" "0 < cfg_max_gross_exposure_pct s"
    "0 \<le> cfg_min_cash_reserve_pct s" "0 < cfg_target_volatility s" "0 < cfg_execution_lot_step s"
    "0 < cfg_execution_min_notional_usd s" "0 < cfg_execution_max_slippage_bps s"
    "0 < cfg_paper_garch_target_vol s" "0 < cfg_strategy_drawdown_window s"
    "0 < cfg_strategy_max_consecutive_losses s" "0 \<le> cfg_paper_slippage_bps s"
    "0 < cfg_max_daily_loss_pct s" "0 < cfg_max_account_drawdown_pct s" "0 \<le> cfg_paper_fee_bps s"
  using assms by (simp_all add: settings_valid_def)

lemma promote_universe_bounded:
  "set (effective_promote_universe_symbols s) \<subseteq> {''BTC/USD'', ''ETH/USD''}"
  by (auto simp: effective_promote_universe_symbols_def paper_promote_universe_symbols_def)

lemma fee_defined:
  assumes "settings_valid s"
  shows "\<exists>b \<ge> 0. effective_paper_fee_bps s = Some b"
proof -
  from assms have "cfg_paper_fee_tier s \<in> set fee_tier_ids" by (simp add: settings_valid_def)
  then obtain t where t: "resolve_fee_tier (cfg_paper_fee_tier s) = Some t"
    by (auto simp: resolve_fee_tier_total)
  obtain b where b: "effective_taker_bps (cfg_paper_fee_tier s) (cfg_paper_fee_bps s) = Some b"
    by (cases "ft_tier_id t = modelled_fee_tier_id") (simp_all add: effective_taker_bps_def t)
  with effective_taker_nonneg [OF b settings_validD(15) [OF assms]] show ?thesis
    by (auto simp: effective_paper_fee_bps_def)
qed

end
