(* ===== verification/Kill_Switch.thy ===== *)
theory Kill_Switch
  imports Config
begin

text \<open>
  The operator kill switch (\<open>killswitch.py\<close>): four channels, any of which halts. What lives
  outside the object (the sentinel files that exist, the SIGUSR1 latch of the process) is the
  record \<open>ks_env\<close>; a Redis probe either raises or returns a value. The Prometheus gauges that
  \<open>publish\<close> writes are not modelled; its return value is \<open>engaged\<close>.
\<close>

section \<open>Data\<close>

datatype redis_value = RNone | RText string | ROther bool

datatype redis_probe = ProbeRaised string | ProbeReturned redis_value

record ks_env =
  env_files :: "string list"
  env_signal_engaged :: bool

record kill_switch =
  ks_settings_flag :: bool
  ks_sentinel_path :: "string option"
  ks_redis_key :: "string option"
  ks_redis_client :: bool
  ks_redis_engaged :: bool
  ks_redis_error :: "string option"
  ks_last_refreshed_at :: "datetime option"

section \<open>Operations\<close>

definition handle_sigusr1 :: "ks_env \<Rightarrow> ks_env" where
  "handle_sigusr1 e = e\<lparr>env_signal_engaged := True\<rparr>"

text \<open>\<open>has_client\<close> says whether a Redis client was passed.\<close>

definition ks_from_settings :: "settings \<Rightarrow> bool \<Rightarrow> kill_switch" where
  "ks_from_settings s has_client =
     (let enabled = cfg_kill_switch_redis_enabled s;
          missing_client = (enabled \<and> \<not> has_client)
      in \<lparr>ks_settings_flag = cfg_kill_switch s,
          ks_sentinel_path = Some (cfg_kill_switch_file s),
          ks_redis_key = (if enabled then Some (cfg_kill_switch_redis_key s) else None),
          ks_redis_client = (if enabled then has_client else False),
          ks_redis_engaged = missing_client,
          ks_redis_error = (if missing_client then Some ''no redis client configured'' else None),
          ks_last_refreshed_at = None\<rparr>)"

definition file_engaged :: "ks_env \<Rightarrow> kill_switch \<Rightarrow> bool" where
  "file_engaged e k = (case ks_sentinel_path k of None \<Rightarrow> False | Some p \<Rightarrow> p \<in> set (env_files e))"

definition engaged :: "ks_env \<Rightarrow> kill_switch \<Rightarrow> bool" where
  "engaged e k \<longleftrightarrow>
     ks_settings_flag k \<or> file_engaged e k \<or> ks_redis_engaged k \<or> env_signal_engaged e"

definition engaged_sources :: "ks_env \<Rightarrow> kill_switch \<Rightarrow> string list" where
  "engaged_sources e k =
     (if ks_settings_flag k then [''settings''] else [])
   @ (if file_engaged e k then [''file''] else [])
   @ (if ks_redis_engaged k then [''redis''] else [])
   @ (if env_signal_engaged e then [''signal''] else [])"

fun truthy :: "redis_value \<Rightarrow> bool" where
  "truthy RNone = False"
| "truthy (RText v) = (lower (strip v) \<notin> {'''', ''0'', ''false'', ''no'', ''off''})"
| "truthy (ROther b) = b"

definition refresh :: "datetime \<Rightarrow> redis_probe \<Rightarrow> ks_env \<Rightarrow> kill_switch \<Rightarrow> kill_switch \<times> bool" where
  "refresh now probe e k =
     (let k1 = (if ks_redis_client k \<and> ks_redis_key k \<noteq> None
                then (case probe of
                        ProbeRaised err \<Rightarrow> k\<lparr>ks_redis_error := Some err, ks_redis_engaged := True\<rparr>
                      | ProbeReturned v \<Rightarrow> k\<lparr>ks_redis_error := None, ks_redis_engaged := truthy v\<rparr>)
                else k);
          k2 = k1\<lparr>ks_last_refreshed_at := Some now\<rparr>
      in (k2, engaged e k2))"

definition default_kill_switch_file :: string where
  "default_kill_switch_file = ''var/state/KILL''"

definition sentinel_path_for :: "string option \<Rightarrow> string option \<Rightarrow> string" where
  "sentinel_path_for explicit env_var =
     (case explicit of
        Some p \<Rightarrow> if p \<noteq> [] then p else
          (case env_var of Some q \<Rightarrow> if q \<noteq> [] then q else default_kill_switch_file
                         | None \<Rightarrow> default_kill_switch_file)
      | None \<Rightarrow>
          (case env_var of Some q \<Rightarrow> if q \<noteq> [] then q else default_kill_switch_file
                         | None \<Rightarrow> default_kill_switch_file))"

definition engage :: "string \<Rightarrow> ks_env \<Rightarrow> ks_env" where
  "engage p e = e\<lparr>env_files := p # filter (\<lambda>q. q \<noteq> p) (env_files e)\<rparr>"

definition disengage :: "string \<Rightarrow> ks_env \<Rightarrow> ks_env \<times> bool" where
  "disengage p e =
     (if p \<notin> set (env_files e) then (e, False)
      else (e\<lparr>env_files := filter (\<lambda>q. q \<noteq> p) (env_files e)\<rparr>, True))"

section \<open>Histories\<close>

datatype ks_event =
    KsRefresh datetime redis_probe
  | KsSignal
  | KsOperatorKill string
  | KsOperatorResume string

fun ks_step :: "ks_env \<times> kill_switch \<Rightarrow> ks_event \<Rightarrow> ks_env \<times> kill_switch" where
  "ks_step (e, k) (KsRefresh now probe) = (e, fst (refresh now probe e k))"
| "ks_step (e, k) KsSignal = (handle_sigusr1 e, k)"
| "ks_step (e, k) (KsOperatorKill p) = (engage p e, k)"
| "ks_step (e, k) (KsOperatorResume p) = (fst (disengage p e), k)"

definition ks_run :: "ks_event list \<Rightarrow> ks_env \<times> kill_switch \<Rightarrow> ks_env \<times> kill_switch" where
  "ks_run evs s = foldl ks_step s evs"

definition halted_in :: "ks_env \<times> kill_switch \<Rightarrow> bool" where
  "halted_in s = engaged (fst s) (snd s)"

lemma refresh_frame [simp]:
  "ks_settings_flag (fst (refresh now probe e k)) = ks_settings_flag k"
  "ks_sentinel_path (fst (refresh now probe e k)) = ks_sentinel_path k"
  "ks_redis_client (fst (refresh now probe e k)) = ks_redis_client k"
  "ks_redis_key (fst (refresh now probe e k)) = ks_redis_key k"
  by (auto simp: refresh_def Let_def split: redis_probe.splits)

lemma refresh_engaged: "snd (refresh now probe e k) = engaged e (fst (refresh now probe e k))"
  by (simp add: refresh_def Let_def)

text \<open>The halts nothing in the process can lift: settings, the signal latch, a held sentinel.\<close>

definition firmly_halted :: "ks_env \<times> kill_switch \<Rightarrow> bool" where
  "firmly_halted s \<longleftrightarrow> ks_settings_flag (snd s) \<or> env_signal_engaged (fst s) \<or> file_engaged (fst s) (snd s)"

lemma ks_step_firm:
  assumes "firmly_halted s" "\<forall>p. ev \<noteq> KsOperatorResume p"
  shows "firmly_halted (ks_step s ev)"
  using assms
  by (cases s; cases ev)
    (auto simp: firmly_halted_def file_engaged_def handle_sigusr1_def engage_def split: option.splits)

lemma ks_run_firm:
  assumes "firmly_halted s" "list_all (\<lambda>ev. \<forall>p. ev \<noteq> KsOperatorResume p) evs"
  shows "firmly_halted (ks_run evs s)"
  using assms unfolding ks_run_def by (induction evs arbitrary: s) (simp_all add: ks_step_firm)

lemma firm_halts: "firmly_halted s \<Longrightarrow> halted_in s"
  by (auto simp: firmly_halted_def halted_in_def engaged_def)

text \<open>
  C18: the halt is sticky. Once the settings flag, the SIGUSR1 latch or the sentinel file halts,
  no sequence of refreshes (whatever Redis answers), signals and further kills lifts it; only the
  operator's separate resume command can remove a sentinel.
\<close>

theorem kill_switch_sticky:
  assumes "firmly_halted s" and "list_all (\<lambda>ev. \<forall>p. ev \<noteq> KsOperatorResume p) evs"
  shows "halted_in (ks_run evs s)"
  using ks_run_firm [OF assms] by (rule firm_halts)

theorem kill_switch_sticky_witness:
  "halted_in (ks_run [KsRefresh 5 (ProbeReturned RNone), KsSignal]
     (\<lparr>env_files = [''var/state/KILL''], env_signal_engaged = False\<rparr>,
      ks_from_settings (default_settings\<lparr>cfg_kill_switch := False\<rparr>) True))"
  by (rule kill_switch_sticky)
    (simp_all add: firmly_halted_def file_engaged_def ks_from_settings_def)

text \<open>
  An unreachable Redis channel fails closed: a probe that raises, or a channel that is
  enabled with no client, leaves the switch engaged; a probe that returns a value engages exactly
  when the value is truthy or another channel halts.
\<close>

theorem kill_switch_redis_fails_closed:
  assumes "cfg_kill_switch_redis_enabled s"
  shows "engaged e (ks_from_settings s False)
    \<and> snd (refresh now (ProbeRaised err) e (ks_from_settings s True))
    \<and> (snd (refresh now (ProbeReturned v) e (ks_from_settings s True)) \<longleftrightarrow>
         truthy v \<or> cfg_kill_switch s \<or> cfg_kill_switch_file s \<in> set (env_files e)
         \<or> env_signal_engaged e)"
  using assms by (auto simp: ks_from_settings_def refresh_def Let_def engaged_def file_engaged_def)

theorem kill_switch_redis_fails_closed_witness:
  "engaged \<lparr>env_files = [], env_signal_engaged = False\<rparr>
     (ks_from_settings (default_settings\<lparr>cfg_kill_switch := False, cfg_kill_switch_redis_enabled := True\<rparr>) False)"
  using kill_switch_redis_fails_closed
    [of "default_settings\<lparr>cfg_kill_switch := False, cfg_kill_switch_redis_enabled := True\<rparr>"]
  by simp

end
