(* ===== verification/Ledger.thy ===== *)
theory Ledger
  imports Domain Contracts
begin

text \<open>
  The execution ledger (\<open>execution/ledger.py\<close>): orders keyed by order id, their lifecycle, and
  the fills that have been recorded. \<open>find_order\<close> returns the order object itself in the source,
  and the caller mutates it in place; here \<open>find_key\<close> returns the ledger key under which that
  object is stored and the mutation is an update at that key. \<open>datetime.now(UTC)\<close> is the
  parameter \<open>now\<close>. The set of processed fill ids is a list used as a set.
\<close>

section \<open>Data\<close>

datatype fee_source = FS_VENUE | FS_MODELLED | FS_MIXED

datatype order_state =
    PLANNED | SUBMITTED | SUBMISSION_UNCERTAIN | ACKNOWLEDGED | OPEN
  | PARTIALLY_FILLED | FILLED | CANCELLED | REJECTED | EXPIRED

definition terminal_order_states :: "order_state list" where
  "terminal_order_states = [FILLED, CANCELLED, REJECTED, EXPIRED]"

definition closing_states :: "order_state list" where
  "closing_states = [PARTIALLY_FILLED, FILLED, CANCELLED, REJECTED, EXPIRED]"

fun allowed_transitions :: "order_state \<Rightarrow> order_state list" where
  "allowed_transitions PLANNED =
     [SUBMITTED, SUBMISSION_UNCERTAIN, ACKNOWLEDGED, OPEN] @ closing_states"
| "allowed_transitions SUBMITTED =
     [SUBMISSION_UNCERTAIN, ACKNOWLEDGED, OPEN] @ closing_states"
| "allowed_transitions SUBMISSION_UNCERTAIN =
     [SUBMITTED, ACKNOWLEDGED, OPEN] @ closing_states"
| "allowed_transitions ACKNOWLEDGED = OPEN # closing_states"
| "allowed_transitions OPEN = closing_states"
| "allowed_transitions PARTIALLY_FILLED = [FILLED, CANCELLED, REJECTED, EXPIRED]"
| "allowed_transitions FILLED = []"
| "allowed_transitions CANCELLED = []"
| "allowed_transitions REJECTED = []"
| "allowed_transitions EXPIRED = []"

definition is_legal_transition :: "order_state \<Rightarrow> order_state \<Rightarrow> bool" where
  "is_legal_transition current requested =
     (if current = requested then True
      else requested \<in> set (allowed_transitions current))"

record execution_fill =
  f_fill_id :: string
  f_order_id :: string
  f_asset :: string
  f_side :: side
  f_quantity :: real
  f_price_usd :: real
  f_fee_usd :: real
  f_fee_source :: fee_source
  f_observed_at :: datetime

definition fill_valid :: "execution_fill \<Rightarrow> bool" where
  "fill_valid f \<longleftrightarrow> 0 < f_quantity f \<and> 0 < f_price_usd f \<and> 0 \<le> f_fee_usd f"

record execution_order =
  o_order_id :: string
  o_decision_id :: string
  o_asset :: string
  o_side :: side
  o_requested_quantity :: real
  o_state :: order_state
  o_filled_quantity :: real
  o_average_fill_price_usd :: "real option"
  o_last_updated_at :: datetime
  o_client_order_id :: "string option"
  o_venue_order_id :: "string option"
  o_correlation_id :: "string option"
  o_submission_attempts :: nat
  o_reason :: "string option"
  o_fees_paid_usd :: real
  o_fee_source :: "fee_source option"

definition order_valid :: "execution_order \<Rightarrow> bool" where
  "order_valid x \<longleftrightarrow>
     0 < o_requested_quantity x \<and> 0 \<le> o_filled_quantity x \<and> 0 \<le> o_fees_paid_usd x
   \<and> (case o_average_fill_price_usd x of None \<Rightarrow> True | Some p \<Rightarrow> 0 < p)"

record execution_ledger =
  l_orders :: "execution_order dict"
  l_processed_fill_ids :: "string list"

datatype ledger_error =
    ConflictingDuplicate string
  | UnknownOrder string
  | OrphanFill string string
  | FillMismatch string string
  | Overfill string string
  | IllegalStateTransition string order_state order_state

definition empty_ledger :: execution_ledger where
  "empty_ledger = \<lparr>l_orders = [], l_processed_fill_ids = []\<rparr>"

section \<open>Operations\<close>

text \<open>
  \<open>state\<close> serialises the orders and the sorted fill ids; \<open>from_state\<close> reads them back into a
  set. Orders are copied deeply, which is the identity on values.
\<close>

definition ledger_state :: "execution_ledger \<Rightarrow> execution_ledger" where
  "ledger_state L =
     \<lparr>l_orders = l_orders L, l_processed_fill_ids = sort (remdups (l_processed_fill_ids L))\<rparr>"

definition ledger_from_state :: "execution_ledger \<Rightarrow> execution_ledger" where
  "ledger_from_state S =
     \<lparr>l_orders = l_orders S, l_processed_fill_ids = remdups (l_processed_fill_ids S)\<rparr>"

definition register_order ::
    "execution_order \<Rightarrow> execution_ledger \<Rightarrow> ledger_error + execution_ledger" where
  "register_order x L =
     (case dict_get (l_orders L) (o_order_id x) of
        Some existing \<Rightarrow>
          if existing \<noteq> x then Inl (ConflictingDuplicate (o_order_id x))
          else Inr (L\<lparr>l_orders := dict_set (o_order_id x) x (l_orders L)\<rparr>)
      | None \<Rightarrow> Inr (L\<lparr>l_orders := dict_set (o_order_id x) x (l_orders L)\<rparr>))"

definition answers_to :: "string \<Rightarrow> execution_order \<Rightarrow> bool" where
  "answers_to ident x \<longleftrightarrow> Some ident = o_venue_order_id x \<or> Some ident = o_client_order_id x"

definition find_key :: "string \<Rightarrow> execution_ledger \<Rightarrow> string option" where
  "find_key ident L =
     (case dict_get (l_orders L) ident of
        Some x \<Rightarrow> Some ident
      | None \<Rightarrow> map_option fst (find (\<lambda>(k, x). answers_to ident x) (l_orders L)))"

definition find_order :: "string \<Rightarrow> execution_ledger \<Rightarrow> execution_order option" where
  "find_order ident L =
     (case dict_get (l_orders L) ident of
        Some x \<Rightarrow> Some x
      | None \<Rightarrow> find (answers_to ident) (dict_vals (l_orders L)))"

definition orders_for_decision :: "string \<Rightarrow> execution_ledger \<Rightarrow> execution_order list" where
  "orders_for_decision d L = filter (\<lambda>x. o_decision_id x = d) (dict_vals (l_orders L))"

definition has_order_for_decision :: "string \<Rightarrow> execution_ledger \<Rightarrow> bool" where
  "has_order_for_decision d L = list_ex (\<lambda>x. o_decision_id x = d) (dict_vals (l_orders L))"

definition transition ::
    "datetime \<Rightarrow> execution_order \<Rightarrow> order_state \<Rightarrow> ledger_error + execution_order" where
  "transition now x st =
     (if \<not> is_legal_transition (o_state x) st
      then Inl (IllegalStateTransition (o_order_id x) (o_state x) st)
      else Inr (x\<lparr>o_state := st, o_last_updated_at := now\<rparr>))"

definition put_order :: "string \<Rightarrow> execution_order \<Rightarrow> execution_ledger \<Rightarrow> execution_ledger" where
  "put_order k x L = L\<lparr>l_orders := dict_set k x (l_orders L)\<rparr>"

definition update_order_state ::
    "datetime \<Rightarrow> string \<Rightarrow> order_state \<Rightarrow> execution_ledger \<Rightarrow> ledger_error + execution_ledger" where
  "update_order_state now ident st L =
     (case find_key ident L of
        None \<Rightarrow> Inl (UnknownOrder ident)
      | Some k \<Rightarrow>
          (case dict_get (l_orders L) k of
             None \<Rightarrow> Inl (UnknownOrder ident)
           | Some x \<Rightarrow>
               (case transition now x st of
                  Inl e \<Rightarrow> Inl e
                | Inr x' \<Rightarrow> Inr (put_order k x' L))))"

definition fill_tolerance :: real where
  "fill_tolerance = 1 / 10 ^ 12"

definition merge_fee_source :: "fee_source option \<Rightarrow> fee_source \<Rightarrow> fee_source" where
  "merge_fee_source old new =
     (case old of None \<Rightarrow> new | Some s \<Rightarrow> if s \<noteq> new then FS_MIXED else s)"

definition fill_order ::
    "datetime \<Rightarrow> execution_fill \<Rightarrow> execution_order \<Rightarrow> ledger_error + execution_order" where
  "fill_order now f x =
     (if upper (f_asset f) \<noteq> upper (o_asset x) \<or> f_side f \<noteq> o_side x
      then Inl (FillMismatch (f_fill_id f) (f_order_id f))
      else
        (let new_filled_quantity = o_filled_quantity x + f_quantity f in
         if o_requested_quantity x + fill_tolerance < new_filled_quantity
         then Inl (Overfill (f_fill_id f) (f_order_id f))
         else
           (let next_state =
                  (if \<bar>new_filled_quantity - o_requested_quantity x\<bar> \<le> fill_tolerance
                   then FILLED else PARTIALLY_FILLED)
            in case transition now x next_state of
                 Inl e \<Rightarrow> Inl e
               | Inr y \<Rightarrow>
                   (let previous_notional =
                          opt_or (o_average_fill_price_usd y) 0 * o_filled_quantity y;
                        new_notional = previous_notional + f_price_usd f * f_quantity f
                    in Inr (y\<lparr>o_filled_quantity := new_filled_quantity,
                              o_average_fill_price_usd := Some (new_notional / new_filled_quantity),
                              o_fees_paid_usd := o_fees_paid_usd y + f_fee_usd f,
                              o_fee_source := Some (merge_fee_source (o_fee_source y) (f_fee_source f)),
                              o_last_updated_at := now\<rparr>)))))"

definition record_fill ::
    "datetime \<Rightarrow> execution_fill \<Rightarrow> execution_ledger \<Rightarrow> ledger_error + (bool \<times> execution_ledger)" where
  "record_fill now f L =
     (if f_fill_id f \<in> set (l_processed_fill_ids L) then Inr (False, L)
      else
        (case find_key (f_order_id f) L of
           None \<Rightarrow> Inl (OrphanFill (f_fill_id f) (f_order_id f))
         | Some k \<Rightarrow>
             (case dict_get (l_orders L) k of
                None \<Rightarrow> Inl (OrphanFill (f_fill_id f) (f_order_id f))
              | Some x \<Rightarrow>
                  (case fill_order now f x of
                     Inl e \<Rightarrow> Inl e
                   | Inr y \<Rightarrow>
                       Inr (True,
                            (put_order k y L)
                              \<lparr>l_processed_fill_ids := f_fill_id f # l_processed_fill_ids L\<rparr>)))))"

text \<open>One delivery of a fill: refused fills (errors) and replays leave the ledger as it was.\<close>

definition fill_step :: "datetime \<Rightarrow> execution_fill \<Rightarrow> execution_ledger \<Rightarrow> execution_ledger \<times> bool" where
  "fill_step now f L =
     (case record_fill now f L of Inr (True, L') \<Rightarrow> (L', True) | _ \<Rightarrow> (L, False))"

section \<open>The order lifecycle\<close>

fun state_rank :: "order_state \<Rightarrow> nat" where
  "state_rank PLANNED = 0"
| "state_rank SUBMITTED = 1"
| "state_rank SUBMISSION_UNCERTAIN = 1"
| "state_rank ACKNOWLEDGED = 2"
| "state_rank OPEN = 3"
| "state_rank PARTIALLY_FILLED = 4"
| "state_rank _ = 5"

lemma legal_transition_rank:
  "is_legal_transition a b \<Longrightarrow> a \<noteq> b \<Longrightarrow> state_rank a \<le> state_rank b"
  by (cases a; cases b) (simp_all add: is_legal_transition_def closing_states_def)

lemma terminal_stuck:
  "a \<in> set terminal_order_states \<Longrightarrow> is_legal_transition a b \<Longrightarrow> b = a"
  by (cases a) (auto simp: is_legal_transition_def terminal_order_states_def split: if_splits)

interpretation olc: lifecycle is_legal_transition state_rank "\<lambda>s. s \<in> set terminal_order_states"
  by unfold_locales (auto simp: is_legal_transition_def [of a a for a]
      dest: legal_transition_rank terminal_stuck)

section \<open>The ledger invariant\<close>

definition order_ok :: "execution_order \<Rightarrow> bool" where
  "order_ok x \<longleftrightarrow> order_valid x
     \<and> o_filled_quantity x \<le> o_requested_quantity x + fill_tolerance
     \<and> (0 < o_filled_quantity x \<longrightarrow>
          o_state x \<in> set closing_states \<and> o_average_fill_price_usd x \<noteq> None)"

definition ledger_wf :: "execution_ledger \<Rightarrow> bool" where
  "ledger_wf L \<longleftrightarrow>
     distinct (dict_keys (l_orders L)) \<and> distinct (l_processed_fill_ids L)
   \<and> list_all (\<lambda>(k, x). o_order_id x = k \<and> order_ok x) (l_orders L)"

lemma fill_tolerance_pos: "0 < fill_tolerance"
  by (simp add: fill_tolerance_def)

lemma ledger_wf_D:
  assumes "ledger_wf L" "dict_get (l_orders L) k = Some x"
  shows "o_order_id x = k" "order_ok x"
  using assms by (auto simp: ledger_wf_def list_all_iff dest: map_of_SomeD)

lemma ledger_wf_put:
  assumes "ledger_wf L" "o_order_id x = k" "order_ok x"
  shows "ledger_wf (put_order k x L)"
  using assms
  by (auto simp: ledger_wf_def put_order_def list_all_iff distinct_update dict_update_memb
      split: if_splits prod.splits)

lemma ledger_wf_ids:
  "ledger_wf (L\<lparr>l_processed_fill_ids := ids\<rparr>) \<longleftrightarrow>
     distinct ids \<and> distinct (dict_keys (l_orders L))
     \<and> list_all (\<lambda>(k, x). o_order_id x = k \<and> order_ok x) (l_orders L)"
  by (auto simp: ledger_wf_def)

lemma empty_ledger_wf: "ledger_wf empty_ledger"
  by (simp add: ledger_wf_def empty_ledger_def)

lemma register_order_wf:
  assumes "ledger_wf L" "order_ok x" "register_order x L = Inr L'"
  shows "ledger_wf L'"
proof -
  have "L' = put_order (o_order_id x) x L"
    using assms(3) by (auto simp: register_order_def put_order_def split: option.splits if_splits)
  with assms show ?thesis by (simp add: ledger_wf_put)
qed

lemma put_order_simps [simp]:
  "l_orders (put_order k x L) = dict_set k x (l_orders L)"
  "l_processed_fill_ids (put_order k x L) = l_processed_fill_ids L"
  by (simp_all add: put_order_def)

lemma transition_Inr:
  "transition now x st = Inr y \<longleftrightarrow>
     is_legal_transition (o_state x) st \<and> y = x\<lparr>o_state := st, o_last_updated_at := now\<rparr>"
  by (auto simp: transition_def)

lemma closing_forward:
  "a \<in> set closing_states \<Longrightarrow> is_legal_transition a b \<Longrightarrow> b \<in> set closing_states"
  by (cases a; cases b) (simp_all add: is_legal_transition_def closing_states_def)

lemma transition_ok:
  assumes "order_ok x" "transition now x st = Inr y"
  shows "order_ok y" "o_order_id y = o_order_id x"
  using assms closing_forward by (auto simp: order_ok_def order_valid_def transition_Inr)

lemma update_order_state_Inr:
  assumes "update_order_state now ident st L = Inr L'"
  obtains k x y where "find_key ident L = Some k" "dict_get (l_orders L) k = Some x"
    "transition now x st = Inr y" "L' = put_order k y L"
  using assms by (auto simp: update_order_state_def split: option.splits sum.splits)

lemma update_order_state_wf:
  assumes "ledger_wf L" "update_order_state now ident st L = Inr L'"
  shows "ledger_wf L'"
  using assms(2)
proof (rule update_order_state_Inr)
  fix k x y
  assume "dict_get (l_orders L) k = Some x" "transition now x st = Inr y" "L' = put_order k y L"
  with assms(1) ledger_wf_D [of L k x] transition_ok [of x now st y] show ?thesis
    by (simp add: ledger_wf_put)
qed

section \<open>Recording fills\<close>

lemma fill_order_Inr:
  assumes "fill_order now f x = Inr y"
  obtains st where "is_legal_transition (o_state x) st" "st = FILLED \<or> st = PARTIALLY_FILLED"
    and "st = FILLED \<longleftrightarrow> o_requested_quantity x - fill_tolerance \<le> o_filled_quantity y"
    and "o_filled_quantity y = o_filled_quantity x + f_quantity f"
    and "o_filled_quantity y \<le> o_requested_quantity x + fill_tolerance"
    and "o_average_fill_price_usd y =
      Some ((opt_or (o_average_fill_price_usd x) 0 * o_filled_quantity x
              + f_price_usd f * f_quantity f) / o_filled_quantity y)"
    and "o_fees_paid_usd y = o_fees_paid_usd x + f_fee_usd f"
    and "o_state y = st" "o_order_id y = o_order_id x"
    and "o_requested_quantity y = o_requested_quantity x"
    and "o_venue_order_id y = o_venue_order_id x" "o_client_order_id y = o_client_order_id x"
    and "upper (f_asset f) = upper (o_asset x)" "f_side f = o_side x"
    and "o_asset y = o_asset x" "o_side y = o_side x" "o_decision_id y = o_decision_id x"
proof -
  let ?n = "o_filled_quantity x + f_quantity f"
  let ?st = "if \<bar>?n - o_requested_quantity x\<bar> \<le> fill_tolerance then FILLED else PARTIALLY_FILLED"
  from assms have le: "?n \<le> o_requested_quantity x + fill_tolerance"
    and tr: "is_legal_transition (o_state x) ?st"
    and m: "upper (f_asset f) = upper (o_asset x)" "f_side f = o_side x"
    by (auto simp: fill_order_def Let_def transition_def split: if_splits)
  have y: "y = x\<lparr>o_state := ?st, o_filled_quantity := ?n,
      o_average_fill_price_usd := Some ((opt_or (o_average_fill_price_usd x) 0 * o_filled_quantity x
              + f_price_usd f * f_quantity f) / ?n),
      o_fees_paid_usd := o_fees_paid_usd x + f_fee_usd f,
      o_fee_source := Some (merge_fee_source (o_fee_source x) (f_fee_source f)),
      o_last_updated_at := now\<rparr>"
    using assms le tr m by (simp add: fill_order_def Let_def transition_def)
  show ?thesis
    by (rule that [of ?st]) (use le tr y m in \<open>auto simp: abs_le_iff\<close>)
qed

lemma fill_order_ok:
  assumes "order_ok x" "fill_valid f" "fill_order now f x = Inr y"
  shows "order_ok y"
proof -
  from assms(1,2) have pos: "0 < o_filled_quantity x + f_quantity f"
    by (auto simp: order_ok_def order_valid_def fill_valid_def)
  have "0 \<le> opt_or (o_average_fill_price_usd x) 0 * o_filled_quantity x"
    using assms(1) by (auto simp: order_ok_def order_valid_def opt_or_def split: option.splits)
  moreover have "0 < f_price_usd f * f_quantity f" using assms(2) by (simp add: fill_valid_def)
  ultimately have num: "0 < opt_or (o_average_fill_price_usd x) 0 * o_filled_quantity x
      + f_price_usd f * f_quantity f" by linarith
  from assms(3) show ?thesis
    by (rule fill_order_Inr)
      (use assms pos num in \<open>auto simp: order_ok_def order_valid_def fill_valid_def closing_states_def\<close>)
qed

lemma record_fill_True:
  assumes "record_fill now f L = Inr (True, L')"
  obtains k x y where "f_fill_id f \<notin> set (l_processed_fill_ids L)"
    and "find_key (f_order_id f) L = Some k" "dict_get (l_orders L) k = Some x"
    and "fill_order now f x = Inr y"
    and "l_orders L' = dict_set k y (l_orders L)"
    and "l_processed_fill_ids L' = f_fill_id f # l_processed_fill_ids L"
    and "L' = (put_order k y L)\<lparr>l_processed_fill_ids := f_fill_id f # l_processed_fill_ids L\<rparr>"
  using assms by (auto simp: record_fill_def split: if_splits option.splits sum.splits)

lemma record_fill_False: "record_fill now f L = Inr (False, L') \<Longrightarrow> L' = L"
  by (auto simp: record_fill_def split: if_splits option.splits sum.splits)

lemma record_fill_wf:
  assumes "ledger_wf L" "fill_valid f" "record_fill now f L = Inr (b, L')"
  shows "ledger_wf L'"
proof (cases b)
  case True
  with assms(3) have "record_fill now f L = Inr (True, L')" by simp
  then show ?thesis
  proof (rule record_fill_True)
    fix k x y
    assume new: "f_fill_id f \<notin> set (l_processed_fill_ids L)"
      and x: "dict_get (l_orders L) k = Some x" and y: "fill_order now f x = Inr y"
      and L': "L' = (put_order k y L)\<lparr>l_processed_fill_ids := f_fill_id f # l_processed_fill_ids L\<rparr>"
    from ledger_wf_D [OF assms(1) x] have ok: "o_order_id x = k" "order_ok x" by auto
    from y have "o_order_id y = o_order_id x" by (rule fill_order_Inr)
    with ok fill_order_ok [OF ok(2) assms(2) y] assms(1)
    have "ledger_wf (put_order k y L)" by (simp add: ledger_wf_put)
    with new L' assms(1) show ?thesis
      by (simp add: ledger_wf_ids) (simp add: ledger_wf_def)
  qed
next
  case False
  with assms(1,3) record_fill_False show ?thesis by auto
qed

lemma fill_step_True: "fill_step now f L = (L', True) \<longleftrightarrow> record_fill now f L = Inr (True, L')"
  by (auto simp: fill_step_def split: sum.splits prod.splits bool.splits)

interpretation fl: exactly_keyed
  "\<lambda>L. True" "\<lambda>L i. i \<in> set (l_processed_fill_ids L)" f_fill_id "fill_step now" for now
proof
  have new: "k \<in> set (l_processed_fill_ids s') \<longleftrightarrow> k = f_fill_id e \<or> k \<in> set (l_processed_fill_ids s)"
    if "fill_step now e s = (s', True)" for e s s' k
    using that unfolding fill_step_True by (rule record_fill_True) auto
  have old: "fill_step now e s = (s', False) \<Longrightarrow> s' = s" for e s s'
    by (auto simp: fill_step_def split: sum.splits prod.splits bool.splits)
  show "f_fill_id e \<in> set (l_processed_fill_ids s) \<Longrightarrow> fill_step now e s = (s, False)" for s e
    by (simp add: fill_step_def record_fill_def)
  show "fill_step now e s = (s', True) \<Longrightarrow> f_fill_id e \<in> set (l_processed_fill_ids s')" for s e s'
    using new by blast
  show "fill_step now e s = (s', b) \<Longrightarrow> k \<in> set (l_processed_fill_ids s) \<Longrightarrow> k \<in> set (l_processed_fill_ids s')"
    for s e s' b k using new [of e s s' k] old [of e s s'] by (cases b) auto
  show "fill_step now e s = (s', False) \<Longrightarrow> s' = s" for e s s' by (rule old)
  show "fill_step now e s = (s', True) \<Longrightarrow> k \<in> set (l_processed_fill_ids s') \<Longrightarrow>
      k = f_fill_id e \<or> k \<in> set (l_processed_fill_ids s)" for e s s' k using new by blast
qed simp

section \<open>Sequences of ledger operations\<close>

inductive ledger_step :: "execution_ledger \<Rightarrow> execution_ledger \<Rightarrow> bool" where
  step_register: "order_ok x \<Longrightarrow> register_order x L = Inr L' \<Longrightarrow> ledger_step L L'"
| step_update: "update_order_state now ident st L = Inr L' \<Longrightarrow> ledger_step L L'"
| step_fill: "fill_valid f \<Longrightarrow> record_fill now f L = Inr (b, L') \<Longrightarrow> ledger_step L L'"

lemma ledger_step_wf: "ledger_step L L' \<Longrightarrow> ledger_wf L \<Longrightarrow> ledger_wf L'"
  by (induction rule: ledger_step.induct)
    (auto intro: register_order_wf update_order_state_wf record_fill_wf)

lemma ledger_steps_wf: "ledger_step\<^sup>*\<^sup>* L L' \<Longrightarrow> ledger_wf L \<Longrightarrow> ledger_wf L'"
  by (induction rule: rtranclp_induct) (auto intro: ledger_step_wf)

text \<open>How one order may differ before and after: same identity, a legal move, no less filled.\<close>

definition order_advances :: "execution_order \<Rightarrow> execution_order \<Rightarrow> bool" where
  "order_advances x y \<longleftrightarrow>
     o_order_id y = o_order_id x \<and> o_decision_id y = o_decision_id x \<and> o_side y = o_side x
   \<and> o_requested_quantity y = o_requested_quantity x
   \<and> is_legal_transition (o_state x) (o_state y)
   \<and> o_filled_quantity x \<le> o_filled_quantity y"

lemma order_advances_refl [simp]: "order_advances x x"
  by (simp add: order_advances_def is_legal_transition_def)

lemma transition_advances: "transition now x st = Inr y \<Longrightarrow> order_advances x y"
  by (auto simp: transition_Inr order_advances_def)

lemma fill_advances:
  assumes "fill_valid f" "fill_order now f x = Inr y"
  shows "order_advances x y"
  using assms(2)
  by (rule fill_order_Inr) (use assms(1) in \<open>auto simp: order_advances_def fill_valid_def\<close>)

lemma ledger_step_advances:
  assumes "ledger_step L L'" "dict_get (l_orders L) k = Some x"
  shows "\<exists>y. dict_get (l_orders L') k = Some y \<and> order_advances x y"
  using assms
proof (cases rule: ledger_step.cases)
  case (step_register z)
  with assms(2) show ?thesis
    by (auto simp: register_order_def update_conv' split: option.splits if_splits)
next
  case (step_update now ident st)
  from step_update(1) show ?thesis
    by (rule update_order_state_Inr)
      (use assms(2) transition_advances in \<open>auto simp: update_conv'\<close>)
next
  case (step_fill f now b)
  show ?thesis
  proof (cases b)
    case True
    with step_fill have "record_fill now f L = Inr (True, L')" by simp
    then show ?thesis
      by (rule record_fill_True)
        (use assms(2) step_fill(1) fill_advances in \<open>auto simp: update_conv'\<close>)
  next
    case False
    with step_fill assms(2) record_fill_False show ?thesis by fastforce
  qed
qed

lemma ledger_steps_advance:
  assumes "ledger_step\<^sup>*\<^sup>* L L'" "dict_get (l_orders L) k = Some x"
  shows "\<exists>y. dict_get (l_orders L') k = Some y \<and> olc.path (o_state x) (o_state y)
    \<and> o_filled_quantity x \<le> o_filled_quantity y \<and> o_decision_id y = o_decision_id x"
  using assms(1)
proof (induction rule: rtranclp_induct)
  case base
  with assms(2) show ?case by (auto intro: olc.path_refl)
next
  case (step M N)
  then obtain y where y: "dict_get (l_orders M) k = Some y" "olc.path (o_state x) (o_state y)"
    "o_filled_quantity x \<le> o_filled_quantity y" "o_decision_id y = o_decision_id x" by auto
  from ledger_step_advances [OF step.hyps(2) y(1)] y(2-) show ?case
    by (force simp: order_advances_def intro: olc.path_step)
qed

section \<open>Accounting over a sequence of fills\<close>

definition order_notional :: "execution_order \<Rightarrow> real" where
  "order_notional x = opt_or (o_average_fill_price_usd x) 0 * o_filled_quantity x"

lemma find_answers_put:
  assumes "dict_get d k = Some x" "o_venue_order_id y = o_venue_order_id x"
    "o_client_order_id y = o_client_order_id x"
  shows "map_option fst (find (\<lambda>(k, x). answers_to i x) (dict_set k y d))
       = map_option fst (find (\<lambda>(k, x). answers_to i x) d)"
  using assms by (induction d) (auto simp: answers_to_def split: if_splits)

lemma find_key_fill:
  assumes "record_fill now f L = Inr (True, L')"
  shows "find_key i L' = find_key i L"
  using assms
proof (rule record_fill_True)
  fix k x y
  assume x: "dict_get (l_orders L) k = Some x" and y: "fill_order now f x = Inr y"
    and L': "l_orders L' = dict_set k y (l_orders L)"
  from y have "o_venue_order_id y = o_venue_order_id x" "o_client_order_id y = o_client_order_id x"
    by (rule fill_order_Inr; simp)+
  then show ?thesis
    using x L' find_answers_put [of "l_orders L" k x y i]
    by (auto simp: find_key_def update_conv' split: option.splits)
qed

lemma fill_order_books:
  assumes "order_ok x" "fill_valid f" "fill_order now f x = Inr y"
  shows "o_filled_quantity y = o_filled_quantity x + f_quantity f"
    "order_notional y = order_notional x + f_price_usd f * f_quantity f"
    "o_fees_paid_usd y = o_fees_paid_usd x + f_fee_usd f"
proof -
  from assms(1,2) have "o_filled_quantity x + f_quantity f \<noteq> 0"
    by (auto simp: order_ok_def order_valid_def fill_valid_def)
  with assms(3) show "order_notional y = order_notional x + f_price_usd f * f_quantity f"
    by (elim fill_order_Inr) (simp add: order_notional_def)
qed (use assms(3) in \<open>auto elim: fill_order_Inr\<close>)

definition fills_of :: "execution_ledger \<Rightarrow> string \<Rightarrow> execution_fill list \<Rightarrow> execution_fill list" where
  "fills_of L k fs = filter (\<lambda>f. find_key (f_order_id f) L = Some k) fs"

definition books_by :: "execution_order \<Rightarrow> execution_fill list \<Rightarrow> execution_order \<Rightarrow> bool" where
  "books_by x fs y \<longleftrightarrow>
     o_filled_quantity y = o_filled_quantity x + sum_list (map f_quantity fs)
   \<and> order_notional y = order_notional x + sum_list (map (\<lambda>f. f_price_usd f * f_quantity f) fs)
   \<and> o_fees_paid_usd y = o_fees_paid_usd x + sum_list (map f_fee_usd fs)"

lemma fill_step_books:
  assumes "ledger_wf L" "fill_valid f" "record_fill now f L = Inr (True, L')"
    and "dict_get (l_orders L) k = Some x"
  shows "\<exists>y. dict_get (l_orders L') k = Some y \<and> books_by x (fills_of L k [f]) y"
  using assms(3)
proof (rule record_fill_True)
  fix k' x' y'
  assume k': "find_key (f_order_id f) L = Some k'" "dict_get (l_orders L) k' = Some x'"
    and y': "fill_order now f x' = Inr y'" and L': "l_orders L' = dict_set k' y' (l_orders L)"
  from fill_order_books [OF ledger_wf_D(2) [OF assms(1) k'(2)] assms(2) y'] k' L' assms(4)
  show ?thesis by (auto simp: update_conv' books_by_def fills_of_def)
qed

lemma books_by_trans:
  "books_by x fs y \<Longrightarrow> books_by y gs z \<Longrightarrow> books_by x (fs @ gs) z"
  by (simp add: books_by_def)

lemma run_fills_books:
  assumes "ledger_wf L" "list_all fill_valid fs" "dict_get (l_orders L) k = Some x"
  shows "\<exists>y. dict_get (l_orders (fst (run_all (fill_step now) fs L))) k = Some y
    \<and> books_by x (fills_of L k (snd (run_all (fill_step now) fs L))) y"
  using assms
proof (induction fs arbitrary: L x)
  case Nil
  then show ?case by (simp add: books_by_def fills_of_def)
next
  case (Cons f fs)
  obtain M b where a: "fill_step now f L = (M, b)" by (cases "fill_step now f L")
  show ?case
  proof (cases b)
    case True
    with a have rec: "record_fill now f L = Inr (True, M)" by (simp add: fill_step_True)
    from fill_step_books [OF Cons.prems(1) _ rec Cons.prems(3)] Cons.prems(2)
    obtain y where y: "dict_get (l_orders M) k = Some y" "books_by x (fills_of L k [f]) y" by auto
    from record_fill_wf [OF Cons.prems(1) _ rec] Cons.prems(2) have "ledger_wf M" by simp
    from Cons.IH [OF this _ y(1)] Cons.prems(2) y(2) find_key_fill [OF rec]
    show ?thesis
      using a True
      by (auto simp: case_prod_beta Let_def fills_of_def dest: books_by_trans)
  next
    case False
    with a have "M = L" by (simp add: fl.refused)
    with a False Cons show ?thesis by (simp add: case_prod_beta Let_def)
  qed
qed

section \<open>Concrete orders for the witnesses\<close>

definition ex_order :: execution_order where
  "ex_order = \<lparr>o_order_id = ''ts-1'', o_decision_id = ''d1'', o_asset = ''BTC'', o_side = BUY,
     o_requested_quantity = 2, o_state = PLANNED, o_filled_quantity = 0,
     o_average_fill_price_usd = None, o_last_updated_at = 0, o_client_order_id = Some ''ts-1'',
     o_venue_order_id = Some ''v-9'', o_correlation_id = None, o_submission_attempts = 0,
     o_reason = None, o_fees_paid_usd = 0, o_fee_source = None\<rparr>"

definition ex_fill :: "string \<Rightarrow> real \<Rightarrow> real \<Rightarrow> execution_fill" where
  "ex_fill i q p = \<lparr>f_fill_id = i, f_order_id = ''v-9'', f_asset = ''BTC'', f_side = BUY,
     f_quantity = q, f_price_usd = p, f_fee_usd = 1, f_fee_source = FS_MODELLED,
     f_observed_at = 0\<rparr>"

definition ex_ledger :: execution_ledger where
  "ex_ledger = \<lparr>l_orders = [(''ts-1'', ex_order)], l_processed_fill_ids = []\<rparr>"

definition ex_order_half :: execution_order where
  "ex_order_half = ex_order\<lparr>o_state := PARTIALLY_FILLED, o_filled_quantity := 1,
     o_average_fill_price_usd := Some 100, o_fees_paid_usd := 1,
     o_fee_source := Some FS_MODELLED, o_last_updated_at := 5\<rparr>"

definition ex_ledger_half :: execution_ledger where
  "ex_ledger_half = \<lparr>l_orders = [(''ts-1'', ex_order_half)], l_processed_fill_ids = [''f1'']\<rparr>"

lemmas ex_defs = ex_order_def ex_fill_def ex_ledger_def ex_order_half_def ex_ledger_half_def

lemma ex_register: "register_order ex_order empty_ledger = Inr ex_ledger"
  by (simp add: ex_defs empty_ledger_def register_order_def)

lemma ex_find_key: "find_key ''v-9'' ex_ledger = Some ''ts-1''"
  by (simp add: ex_defs find_key_def answers_to_def)

lemma ex_record: "record_fill 5 (ex_fill ''f1'' 1 100) ex_ledger = Inr (True, ex_ledger_half)"
proof -
  have "fill_order 5 (ex_fill ''f1'' 1 100) ex_order = Inr ex_order_half"
    by (simp add: ex_defs fill_order_def Let_def transition_def fill_tolerance_def
        is_legal_transition_def closing_states_def merge_fee_source_def)
  moreover have "find_key (f_order_id (ex_fill ''f1'' 1 100)) ex_ledger = Some ''ts-1''"
    using ex_find_key by (simp add: ex_fill_def)
  ultimately show ?thesis
    by (simp add: record_fill_def put_order_def)
      (simp add: ex_defs)
qed

lemma ex_order_ok: "order_ok ex_order"
  by (simp add: ex_defs order_ok_def order_valid_def fill_tolerance_def)

lemma ex_fill_valid: "0 < q \<Longrightarrow> 0 < p \<Longrightarrow> fill_valid (ex_fill i q p)"
  by (simp add: ex_defs fill_valid_def)

lemma ex_ledger_wf: "ledger_wf ex_ledger"
  using register_order_wf [OF empty_ledger_wf ex_order_ok ex_register] .

lemma ex_steps: "ledger_step\<^sup>*\<^sup>* empty_ledger ex_ledger" "ledger_step\<^sup>*\<^sup>* ex_ledger ex_ledger_half"
  using step_register [OF ex_order_ok ex_register] step_fill [OF ex_fill_valid ex_record] by auto

section \<open>Properties of the ledger\<close>

text \<open>
  Every ledger reachable from the empty one by registering valid orders, applying
  lifecycle updates and recording fills is well formed: order ids key the dict and are unique, no
  fill id is recorded twice, no order is filled beyond its requested quantity (up to the 1e-12
  tolerance), and an order that holds any fill is in a closing state with a known average price.
\<close>

theorem ledger_reachable_wf:
  assumes "ledger_step\<^sup>*\<^sup>* empty_ledger L"
  shows "ledger_wf L"
  using assms empty_ledger_wf by (rule ledger_steps_wf)

theorem ledger_reachable_wf_witness:
  "ledger_step\<^sup>*\<^sup>* empty_ledger ex_ledger_half \<and> ledger_wf ex_ledger_half"
  using ledger_reachable_wf [of ex_ledger_half] rtranclp_trans [OF ex_steps] by blast

text \<open>
  Along any sequence of ledger operations an order is never lost, changes its decision
  id never, its filled quantity never shrinks, its lifecycle rank never decreases, and once
  terminal (filled, cancelled, rejected, expired) its state never changes again.
\<close>

theorem ledger_lifecycle_monotone:
  assumes "ledger_step\<^sup>*\<^sup>* L L'" and "dict_get (l_orders L) k = Some x"
  shows "\<exists>y. dict_get (l_orders L') k = Some y
    \<and> o_decision_id y = o_decision_id x
    \<and> o_filled_quantity x \<le> o_filled_quantity y
    \<and> state_rank (o_state x) \<le> state_rank (o_state y)
    \<and> (o_state x \<in> set terminal_order_states \<longrightarrow> o_state y = o_state x)"
  using ledger_steps_advance [OF assms] olc.path_rank olc.path_final by blast

theorem ledger_lifecycle_monotone_witness:
  "state_rank PLANNED \<le> state_rank PARTIALLY_FILLED
   \<and> dict_get (l_orders ex_ledger_half) ''ts-1'' = Some ex_order_half"
  using ledger_lifecycle_monotone [OF ex_steps(2), of "''ts-1''" ex_order]
  by (simp add: ex_ledger_def ex_ledger_half_def)

text \<open>
  However often and in whatever order fills are delivered, the fills that are applied carry
  pairwise distinct fill ids, none of which had been processed before, and delivering the applied
  fills again leaves the ledger exactly as it is.
\<close>

theorem fills_applied_once:
  "distinct (map f_fill_id (snd (run_all (fill_step now) fs L)))
   \<and> set (map f_fill_id (snd (run_all (fill_step now) fs L))) \<inter> set (l_processed_fill_ids L) = {}
   \<and> run_all (fill_step now) (snd (run_all (fill_step now) fs L)) (fst (run_all (fill_step now) fs L))
     = (fst (run_all (fill_step now) fs L), [])"
  using fl.run_distinct fl.run_fresh fl.run_idempotent by fastforce

text \<open>
  After any sequence of deliveries an order's filled quantity, its filled notional
  (average price times filled quantity, so the volume-weighted average price) and its fees have
  grown by exactly the sums over the applied fills that resolve to it.
\<close>

theorem fills_accounted:
  assumes "ledger_wf L" and "list_all fill_valid fs" and "dict_get (l_orders L) k = Some x"
  shows "\<exists>y. dict_get (l_orders (fst (run_all (fill_step now) fs L))) k = Some y
    \<and> books_by x (fills_of L k (snd (run_all (fill_step now) fs L))) y"
  using assms by (rule run_fills_books)

theorem fills_accounted_witness:
  "\<exists>y. dict_get (l_orders ex_ledger_half) ''ts-1'' = Some y
     \<and> books_by ex_order [ex_fill ''f1'' 1 100] y"
proof -
  let ?f = "ex_fill ''f1'' 1 100"
  have once: "fill_step 5 ?f ex_ledger = (ex_ledger_half, True)"
    using ex_record by (simp add: fill_step_True)
  have twice: "fill_step 5 ?f ex_ledger_half = (ex_ledger_half, False)"
    by (rule fl.replay) (simp_all add: ex_defs)
  have run: "run_all (fill_step 5) [?f, ?f] ex_ledger = (ex_ledger_half, [?f])"
    by (simp add: once twice)
  have k: "find_key (f_order_id ?f) ex_ledger = Some ''ts-1''"
    using ex_find_key by (simp add: ex_fill_def)
  from fills_accounted [OF ex_ledger_wf, of "[?f, ?f]" "''ts-1''" ex_order 5] run k show ?thesis
    by (simp add: ex_fill_valid fills_of_def) (simp add: ex_ledger_def)
qed

text \<open>
  A new fill that resolves to an order is applied exactly when it names the order's asset
  and side, does not overfill it, and the order is still fillable: not cancelled, rejected or
  expired, and if already filled, still complete after the fill (within the tolerance).
\<close>

theorem record_fill_applied_iff:
  assumes "f_fill_id f \<notin> set (l_processed_fill_ids L)"
    and "find_key (f_order_id f) L = Some k" and "dict_get (l_orders L) k = Some x"
  shows "(\<exists>L'. record_fill now f L = Inr (True, L')) \<longleftrightarrow>
      upper (f_asset f) = upper (o_asset x) \<and> f_side f = o_side x
      \<and> o_filled_quantity x + f_quantity f \<le> o_requested_quantity x + fill_tolerance
      \<and> o_state x \<notin> {CANCELLED, REJECTED, EXPIRED}
      \<and> (o_state x = FILLED \<longrightarrow>
           o_requested_quantity x - fill_tolerance \<le> o_filled_quantity x + f_quantity f)"
proof -
  have "(\<exists>L'. record_fill now f L = Inr (True, L')) \<longleftrightarrow> (\<exists>y. fill_order now f x = Inr y)"
    using assms by (auto simp: record_fill_def split: sum.splits)
  also have "\<dots> \<longleftrightarrow> upper (f_asset f) = upper (o_asset x) \<and> f_side f = o_side x
      \<and> o_filled_quantity x + f_quantity f \<le> o_requested_quantity x + fill_tolerance
      \<and> is_legal_transition (o_state x)
          (if \<bar>o_filled_quantity x + f_quantity f - o_requested_quantity x\<bar> \<le> fill_tolerance
           then FILLED else PARTIALLY_FILLED)"
    by (auto simp: fill_order_def Let_def transition_def split: if_splits)
  finally show ?thesis
    by (cases "o_state x") (auto simp: is_legal_transition_def closing_states_def abs_le_iff)
qed

theorem record_fill_applied_iff_witness:
  "\<exists>L'. record_fill 7 (ex_fill ''f1'' 2 100) ex_ledger = Inr (True, L')"
proof -
  have k: "find_key (f_order_id (ex_fill ''f1'' 2 100)) ex_ledger = Some ''ts-1''"
    using ex_find_key by (simp add: ex_fill_def)
  show ?thesis
    using record_fill_applied_iff [OF _ k, of ex_order 7]
    by (simp add: ex_ledger_def) (simp add: ex_defs fill_tolerance_def)
qed

text \<open>
  Restoring a saved ledger gives back the same orders and the same set of processed fill
  ids, so every fill that was recorded before a restart is still refused as a replay after it.
\<close>

theorem ledger_state_round_trip:
  "l_orders (ledger_from_state (ledger_state L)) = l_orders L
   \<and> set (l_processed_fill_ids (ledger_from_state (ledger_state L))) = set (l_processed_fill_ids L)
   \<and> fst (run_all (fill_step now) (filter (\<lambda>f. f_fill_id f \<in> set (l_processed_fill_ids L)) fs)
        (ledger_from_state (ledger_state L))) = ledger_from_state (ledger_state L)"
proof -
  have ids: "set (l_processed_fill_ids (ledger_from_state (ledger_state L)))
      = set (l_processed_fill_ids L)"
    by (simp add: ledger_from_state_def ledger_state_def)
  then show ?thesis
    using fl.run_replayed [of "filter (\<lambda>f. f_fill_id f \<in> set (l_processed_fill_ids L)) fs"
        "ledger_from_state (ledger_state L)" now]
    by (simp add: ledger_from_state_def ledger_state_def)
qed

end
