(* ===== verification/Portfolio.thy ===== *)
theory Portfolio
  imports Domain
begin

text \<open>
  The in-memory portfolio book (\<open>portfolio.py\<close>): positions, marks, cash, realized profit, the
  peak used for drawdown and the daily anchor. Operations that raise after they have already
  changed the book (\<open>apply_fill\<close> inserts an empty position before it checks a sale) return the
  changed book together with the error. The strategy breakers of the checkpoint are kept by
  \<open>Circuit_Breaker\<close>.
\<close>

section \<open>Data\<close>

record position =
  pos_quantity :: real
  pos_average_cost_usd :: real
  pos_fees_paid_usd :: real
  pos_opened_at :: "datetime option"
  pos_high_water_price_usd :: real
  pos_entry_strategy_id :: "string option"

definition empty_position :: position where
  "empty_position = \<lparr>pos_quantity = 0, pos_average_cost_usd = 0, pos_fees_paid_usd = 0,
     pos_opened_at = None, pos_high_water_price_usd = 0, pos_entry_strategy_id = None\<rparr>"

record book =
  b_starting_nav_usd :: real
  b_cash_usd :: real
  b_peak_nav_usd :: real
  b_realized_pnl_usd :: real
  b_positions :: "position dict"
  b_marks_usd :: "real dict"
  b_day_start_nav_usd :: "real option"
  b_day_start_date :: "date option"

datatype portfolio_error =
    StartingNavNotPositive
  | MarkNotPositive
  | FillNotPositive
  | FeeNegative
  | InvalidResultingQuantity
  | SellExceedsPosition
  | SnapshotInvalid

section \<open>Operations\<close>

definition mark_of :: "book \<Rightarrow> string \<Rightarrow> position \<Rightarrow> real" where
  "mark_of b asset p = dict_get_or (b_marks_usd b) asset (pos_average_cost_usd p)"

definition nav_usd :: "book \<Rightarrow> real" where
  "nav_usd b = b_cash_usd b
     + py_sum (map (\<lambda>(asset, p). pos_quantity p * mark_of b asset p) (b_positions b))"

definition new_book ::
    "real \<Rightarrow> real option \<Rightarrow> real option \<Rightarrow> real \<Rightarrow> position dict \<Rightarrow> real dict
       \<Rightarrow> real option \<Rightarrow> date option \<Rightarrow> portfolio_error + book" where
  "new_book starting cash peak realized positions marks day_nav day_date =
     (if starting \<le> 0 then Inl StartingNavNotPositive
      else
        (let b = \<lparr>b_starting_nav_usd = starting, b_cash_usd = opt_or cash starting,
                  b_peak_nav_usd = opt_or peak starting, b_realized_pnl_usd = realized,
                  b_positions = positions, b_marks_usd = marks,
                  b_day_start_nav_usd = day_nav, b_day_start_date = day_date\<rparr>
         in Inr (case day_nav of
                   None \<Rightarrow> b\<lparr>b_day_start_nav_usd := Some (nav_usd b)\<rparr>
                 | Some _ \<Rightarrow> b)))"

record portfolio_state =
  st_starting_nav_usd :: real
  st_cash_usd :: real
  st_peak_nav_usd :: real
  st_realized_pnl_usd :: real
  st_positions :: "position dict"
  st_marks_usd :: "real dict"
  st_day_start_nav_usd :: "real option"
  st_day_start_date :: "date option"

definition upper_keys :: "'v dict \<Rightarrow> 'v dict" where
  "upper_keys d = dict_of (map (\<lambda>(k, v). (upper k, v)) d)"

definition book_from_state :: "portfolio_state \<Rightarrow> portfolio_error + book" where
  "book_from_state s =
     new_book (st_starting_nav_usd s) (Some (st_cash_usd s)) (Some (st_peak_nav_usd s))
       (st_realized_pnl_usd s) (upper_keys (st_positions s)) (upper_keys (st_marks_usd s))
       (st_day_start_nav_usd s) (st_day_start_date s)"

definition book_state :: "book \<Rightarrow> portfolio_state" where
  "book_state b =
     \<lparr>st_starting_nav_usd = b_starting_nav_usd b, st_cash_usd = b_cash_usd b,
      st_peak_nav_usd = b_peak_nav_usd b, st_realized_pnl_usd = b_realized_pnl_usd b,
      st_positions = b_positions b, st_marks_usd = b_marks_usd b,
      st_day_start_nav_usd = b_day_start_nav_usd b, st_day_start_date = b_day_start_date b\<rparr>"

definition mark :: "string \<Rightarrow> real \<Rightarrow> book \<Rightarrow> portfolio_error + book" where
  "mark asset price_usd b =
     (if price_usd \<le> 0 then Inl MarkNotPositive
      else
        (let asset = upper asset;
             b1 = b\<lparr>b_marks_usd := dict_set asset price_usd (b_marks_usd b)\<rparr>
         in Inr (case dict_get (b_positions b1) asset of
              None \<Rightarrow> b1
            | Some p \<Rightarrow>
                if 0 < pos_quantity p
                then b1\<lparr>b_positions := dict_set asset
                       (p\<lparr>pos_high_water_price_usd := max (pos_high_water_price_usd p) price_usd\<rparr>)
                       (b_positions b1)\<rparr>
                else b1)))"

definition buy_position :: "real \<Rightarrow> real \<Rightarrow> datetime \<Rightarrow> string option \<Rightarrow> position \<Rightarrow> position" where
  "buy_position quantity price_usd now strategy_id p =
     (let new_quantity = pos_quantity p + quantity;
          p1 = p\<lparr>pos_average_cost_usd :=
                   (pos_quantity p * pos_average_cost_usd p + quantity * price_usd) / new_quantity,
                 pos_quantity := new_quantity\<rparr>
      in if pos_quantity p = 0
         then p1\<lparr>pos_opened_at := Some now, pos_high_water_price_usd := price_usd,
                 pos_entry_strategy_id :=
                   (case strategy_id of
                      None \<Rightarrow> pos_entry_strategy_id p
                    | Some s \<Rightarrow> if s = [] then pos_entry_strategy_id p else Some s)\<rparr>
         else p1\<lparr>pos_high_water_price_usd := max (pos_high_water_price_usd p) price_usd\<rparr>)"

definition sell_position :: "real \<Rightarrow> position \<Rightarrow> position" where
  "sell_position quantity p =
     (let p1 = p\<lparr>pos_quantity := pos_quantity p - quantity\<rparr>
      in if pos_quantity p1 = 0
         then p1\<lparr>pos_average_cost_usd := 0, pos_opened_at := None,
                 pos_high_water_price_usd := 0, pos_entry_strategy_id := None\<rparr>
         else p1)"

definition settle_fill :: "string \<Rightarrow> position \<Rightarrow> real \<Rightarrow> real \<Rightarrow> book \<Rightarrow> portfolio_error + book" where
  "settle_fill asset p fee_usd price_usd b =
     (let b1 = b\<lparr>b_positions := dict_set asset
                  (p\<lparr>pos_fees_paid_usd := pos_fees_paid_usd p + fee_usd\<rparr>) (b_positions b)\<rparr>
      in case mark asset price_usd b1 of
           Inl e \<Rightarrow> Inl e
         | Inr b2 \<Rightarrow> Inr (b2\<lparr>b_peak_nav_usd := max (b_peak_nav_usd b2) (nav_usd b2)\<rparr>))"

text \<open>\<open>positions.setdefault(asset, Position())\<close>\<close>

definition ensure_position :: "string \<Rightarrow> book \<Rightarrow> book" where
  "ensure_position asset b =
     (case dict_get (b_positions b) asset of
        None \<Rightarrow> b\<lparr>b_positions := dict_set asset empty_position (b_positions b)\<rparr>
      | Some _ \<Rightarrow> b)"

definition apply_fill ::
    "string \<Rightarrow> side \<Rightarrow> real \<Rightarrow> real \<Rightarrow> real \<Rightarrow> datetime \<Rightarrow> string option \<Rightarrow> book
       \<Rightarrow> book \<times> portfolio_error option" where
  "apply_fill asset0 side quantity price_usd fee_usd now strategy_id b =
     (if quantity \<le> 0 \<or> price_usd \<le> 0 then (b, Some FillNotPositive)
      else if fee_usd < 0 then (b, Some FeeNegative)
      else
        (let asset = upper asset0;
             p = dict_get_or (b_positions b) asset empty_position;
             b0 = ensure_position asset b;
             notional = quantity * price_usd
         in case side of
              BUY \<Rightarrow>
                if pos_quantity p + quantity \<le> 0 then (b0, Some InvalidResultingQuantity)
                else
                  (let b1 = b0\<lparr>b_cash_usd := b_cash_usd b0 - (notional + fee_usd),
                               b_realized_pnl_usd := b_realized_pnl_usd b0 - fee_usd\<rparr>
                   in case settle_fill asset (buy_position quantity price_usd now strategy_id p)
                             fee_usd price_usd b1 of
                        Inl e \<Rightarrow> (b1, Some e) | Inr b2 \<Rightarrow> (b2, None))
            | SELL \<Rightarrow>
                if pos_quantity p < quantity then (b0, Some SellExceedsPosition)
                else
                  (let b1 = b0\<lparr>b_cash_usd := b_cash_usd b0 + (notional - fee_usd),
                               b_realized_pnl_usd := b_realized_pnl_usd b0
                                 + (quantity * (price_usd - pos_average_cost_usd p) - fee_usd)\<rparr>
                   in case settle_fill asset (sell_position quantity p) fee_usd price_usd b1 of
                        Inl e \<Rightarrow> (b1, Some e) | Inr b2 \<Rightarrow> (b2, None))))"

definition roll_day :: "datetime \<Rightarrow> book \<Rightarrow> book \<times> bool" where
  "roll_day now b =
     (let today = utc_date now
      in case b_day_start_date b of
           None \<Rightarrow>
             (b\<lparr>b_day_start_date := Some today,
                b_day_start_nav_usd := Some (opt_or (b_day_start_nav_usd b) (nav_usd b))\<rparr>, False)
         | Some d \<Rightarrow>
             if d = today \<and> b_day_start_nav_usd b \<noteq> None then (b, False)
             else (b\<lparr>b_day_start_date := Some today, b_day_start_nav_usd := Some (nav_usd b)\<rparr>, True))"

definition daily_pnl_usd :: "book \<Rightarrow> real" where
  "daily_pnl_usd b = nav_usd b - opt_or (b_day_start_nav_usd b) (nav_usd b)"

definition open_positions :: "book \<Rightarrow> position dict" where
  "open_positions b = filter (\<lambda>(asset, p). 0 < pos_quantity p) (b_positions b)"

definition snapshot :: "datetime \<Rightarrow> book \<Rightarrow> book \<times> (portfolio_error + portfolio_snapshot)" where
  "snapshot now b =
     (let b1 = fst (roll_day now b);
          s = \<lparr>ps_nav_usd = nav_usd b1, ps_cash_usd = max 0 (b_cash_usd b1),
               ps_daily_pnl_usd = daily_pnl_usd b1, ps_peak_nav_usd = b_peak_nav_usd b1,
               ps_asset_exposure_usd =
                 map (\<lambda>(asset, p). (asset, pos_quantity p * mark_of b1 asset p)) (open_positions b1),
               ps_observed_at = now,
               ps_held_positions =
                 map (\<lambda>(asset, p).
                   (asset, \<lparr>hp_quantity = pos_quantity p,
                            hp_average_cost_usd = pos_average_cost_usd p,
                            hp_exposure_usd = pos_quantity p * mark_of b1 asset p,
                            hp_opened_at = pos_opened_at p,
                            hp_high_water_price_usd = pos_high_water_price_usd p,
                            hp_entry_strategy_id = pos_entry_strategy_id p\<rparr>)) (open_positions b1)\<rparr>
      in (b1, if snapshot_valid s then Inr s else Inl SnapshotInvalid))"

section \<open>The book invariant\<close>

definition position_ok :: "position \<Rightarrow> bool" where
  "position_ok p \<longleftrightarrow>
     0 \<le> pos_quantity p \<and> 0 \<le> pos_average_cost_usd p \<and> 0 \<le> pos_fees_paid_usd p
   \<and> 0 \<le> pos_high_water_price_usd p
   \<and> (0 < pos_quantity p \<longrightarrow> 0 < pos_average_cost_usd p \<and> 0 < pos_high_water_price_usd p
        \<and> pos_opened_at p \<noteq> None)
   \<and> (pos_quantity p = 0 \<longrightarrow> pos_average_cost_usd p = 0 \<and> pos_high_water_price_usd p = 0
        \<and> pos_opened_at p = None)"

definition upper_keyed :: "'v dict \<Rightarrow> bool" where
  "upper_keyed d \<longleftrightarrow> distinct (dict_keys d) \<and> list_all (\<lambda>k. upper k = k) (dict_keys d)"

definition book_wf :: "book \<Rightarrow> bool" where
  "book_wf b \<longleftrightarrow>
     upper_keyed (b_positions b) \<and> upper_keyed (b_marks_usd b)
   \<and> list_all position_ok (dict_vals (b_positions b))
   \<and> list_all (\<lambda>m. 0 < m) (dict_vals (b_marks_usd b))
   \<and> 0 < b_starting_nav_usd b \<and> 0 < b_peak_nav_usd b \<and> b_day_start_nav_usd b \<noteq> None"

lemma upper_keyed_set: "upper_keyed d \<Longrightarrow> upper_keyed (dict_set (upper k) v d)"
  by (auto simp: upper_keyed_def distinct_update list_all_iff dict_keys_update
      simp del: set_map)

lemma vals_set:
  assumes "list_all P (dict_vals d)" "P v" "distinct (dict_keys d)"
  shows "list_all P (dict_vals (dict_set k v d))"
proof (unfold list_all_iff, rule ballI)
  fix w assume "w \<in> set (dict_vals (dict_set k v d))"
  then obtain k' where "(k', w) \<in> set (dict_set k v d)" by auto
  with assms(3) have "w = v \<or> (k', w) \<in> set d" by (auto simp: dict_update_memb split: if_splits)
  with assms(1,2) show "P w" by (auto simp: list_all_iff)
qed

lemma vals_get: "list_all P (dict_vals d) \<Longrightarrow> dict_get d k = Some v \<Longrightarrow> P v"
  by (force simp: list_all_iff dest: map_of_SomeD)

lemma empty_position_ok [simp]: "position_ok empty_position"
  by (simp add: position_ok_def empty_position_def)

lemma get_or_ok:
  "list_all position_ok (dict_vals d) \<Longrightarrow> position_ok (dict_get_or d k empty_position)"
  by (auto simp: dict_get_or_def intro: vals_get split: option.splits)

lemma book_wf_set_position:
  assumes "book_wf b" "position_ok p"
  shows "book_wf (b\<lparr>b_positions := dict_set (upper k) p (b_positions b)\<rparr>)"
  using assms by (simp add: book_wf_def upper_keyed_set vals_set) (simp add: vals_set upper_keyed_def)

lemma book_wf_cash [simp]:
  "book_wf (b\<lparr>b_cash_usd := c\<rparr>) = book_wf b"
  "book_wf (b\<lparr>b_realized_pnl_usd := c\<rparr>) = book_wf b"
  by (simp_all add: book_wf_def)

lemma mark_Inr:
  assumes "mark asset price b = Inr b'"
  shows "0 < price" "b_cash_usd b' = b_cash_usd b" "b_realized_pnl_usd b' = b_realized_pnl_usd b"
    "b_peak_nav_usd b' = b_peak_nav_usd b" "b_starting_nav_usd b' = b_starting_nav_usd b"
    "b_marks_usd b' = dict_set (upper asset) price (b_marks_usd b)"
    "b_day_start_nav_usd b' = b_day_start_nav_usd b" "b_day_start_date b' = b_day_start_date b"
  using assms by (auto simp: mark_def Let_def split: if_splits option.splits)

lemma mark_positions:
  assumes "mark asset price b = Inr b'"
  obtains "b_positions b' = b_positions b"
  | p where "dict_get (b_positions b) (upper asset) = Some p" "0 < pos_quantity p"
      "b_positions b' = dict_set (upper asset)
         (p\<lparr>pos_high_water_price_usd := max (pos_high_water_price_usd p) price\<rparr>) (b_positions b)"
  using assms by (auto simp: mark_def Let_def split: if_splits option.splits)

lemma mark_wf:
  assumes "book_wf b" "mark asset price b = Inr b'"
  shows "book_wf b'"
proof -
  let ?b1 = "b\<lparr>b_marks_usd := dict_set (upper asset) price (b_marks_usd b)\<rparr>"
  have b1: "book_wf ?b1"
    using assms(1) mark_Inr(1) [OF assms(2)]
    by (simp add: book_wf_def upper_keyed_set vals_set) (simp add: vals_set upper_keyed_def)
  have "position_ok (p\<lparr>pos_high_water_price_usd := max (pos_high_water_price_usd p) price\<rparr>)"
    if "dict_get (b_positions b) (upper asset) = Some p" "0 < pos_quantity p" for p
    using that assms(1) mark_Inr(1) [OF assms(2)] vals_get [of position_ok "b_positions b" "upper asset" p]
    by (auto simp: book_wf_def position_ok_def)
  with b1 book_wf_set_position [OF b1] assms(2) show ?thesis
    by (auto simp: mark_def Let_def split: if_splits option.splits)
qed

section \<open>Effect of a fill\<close>

lemma buy_position_ok:
  assumes "position_ok p" "0 < q" "0 < price"
  shows "position_ok (buy_position q price now s p)"
proof -
  have "0 < pos_quantity p + q" "0 < pos_quantity p * pos_average_cost_usd p + q * price"
    using assms by (auto simp: position_ok_def intro: add_nonneg_pos)
  with assms show ?thesis by (auto simp: buy_position_def Let_def position_ok_def)
qed

lemma sell_position_ok:
  assumes "position_ok p" "0 < q" "q \<le> pos_quantity p"
  shows "position_ok (sell_position q p)"
  using assms by (auto simp: sell_position_def Let_def position_ok_def)

lemma position_fees_ok: "position_ok p \<Longrightarrow> 0 \<le> fee \<Longrightarrow> position_ok (p\<lparr>pos_fees_paid_usd := pos_fees_paid_usd p + fee\<rparr>)"
  by (simp add: position_ok_def)

lemma settle_fill_wf:
  assumes "book_wf b" "position_ok p" "0 \<le> fee" "settle_fill (upper a) p fee price b = Inr b'"
  shows "book_wf b'"
proof -
  let ?b1 = "b\<lparr>b_positions := dict_set (upper a) (p\<lparr>pos_fees_paid_usd := pos_fees_paid_usd p + fee\<rparr>) (b_positions b)\<rparr>"
  have b1: "book_wf ?b1" using assms by (simp add: book_wf_set_position position_fees_ok)
  from assms(4) obtain b2 where b2: "mark (upper a) price ?b1 = Inr b2"
    and b': "b' = b2\<lparr>b_peak_nav_usd := max (b_peak_nav_usd b2) (nav_usd b2)\<rparr>"
    by (auto simp: settle_fill_def Let_def split: sum.splits)
  from mark_wf [OF b1 b2] b' show ?thesis by (auto simp: book_wf_def)
qed

lemma settle_fill_total: "0 < price \<Longrightarrow> \<exists>b'. settle_fill a p fee price b = Inr b'"
  by (simp add: settle_fill_def Let_def mark_def)

lemma book_wf_positions: "book_wf b \<Longrightarrow> list_all position_ok (dict_vals (b_positions b))"
  by (simp add: book_wf_def)

definition cash_moved :: "real \<Rightarrow> real \<Rightarrow> book \<Rightarrow> book" where
  "cash_moved cash realized b =
     b\<lparr>b_cash_usd := b_cash_usd b + cash, b_realized_pnl_usd := b_realized_pnl_usd b + realized\<rparr>"

lemma cash_moved_wf [simp]: "book_wf (cash_moved c r b) = book_wf b"
  by (simp add: book_wf_def cash_moved_def)

lemma cash_moved_positions [simp]: "b_positions (cash_moved c r b) = b_positions b"
  by (simp add: cash_moved_def)

lemma ensure_position_wf: "book_wf b \<Longrightarrow> book_wf (ensure_position (upper a) b)"
  using book_wf_set_position [of b empty_position] by (auto simp: ensure_position_def split: option.splits)

lemma apply_fill_buy:
  assumes "0 < q" "0 < price" "0 \<le> fee" "book_wf b"
  obtains b2 where "apply_fill a BUY q price fee now s b = (b2, None)"
    and "settle_fill (upper a) (buy_position q price now s
           (dict_get_or (b_positions b) (upper a) empty_position)) fee price
           (cash_moved (- (q * price + fee)) (- fee) (ensure_position (upper a) b)) = Inr b2"
proof -
  let ?p = "dict_get_or (b_positions b) (upper a) empty_position"
  have "0 < pos_quantity ?p + q"
    using assms(1) get_or_ok [OF book_wf_positions [OF assms(4)]]
    by (simp add: position_ok_def add_nonneg_pos)
  moreover obtain b2 where "settle_fill (upper a) (buy_position q price now s ?p) fee price
      (cash_moved (- (q * price + fee)) (- fee) (ensure_position (upper a) b)) = Inr b2"
    using settle_fill_total [OF assms(2)] by blast
  moreover have "cash_moved (- x) (- fee) b0 = b0\<lparr>b_cash_usd := b_cash_usd b0 - x,
      b_realized_pnl_usd := b_realized_pnl_usd b0 - fee\<rparr>" for x b0
    by (simp add: cash_moved_def)
  ultimately show ?thesis
    using that assms by (simp add: apply_fill_def Let_def del: minus_add_distrib)
qed

lemma apply_fill_sell:
  assumes "0 < q" "0 < price" "0 \<le> fee"
    and "q \<le> pos_quantity (dict_get_or (b_positions b) (upper a) empty_position)"
  obtains b2 where "apply_fill a SELL q price fee now s b = (b2, None)"
    and "settle_fill (upper a) (sell_position q
           (dict_get_or (b_positions b) (upper a) empty_position)) fee price
           (cash_moved (q * price - fee)
              (q * (price - pos_average_cost_usd (dict_get_or (b_positions b) (upper a) empty_position)) - fee)
              (ensure_position (upper a) b)) = Inr b2"
proof -
  let ?p = "dict_get_or (b_positions b) (upper a) empty_position"
  obtain b2 where "settle_fill (upper a) (sell_position q ?p) fee price
      (cash_moved (q * price - fee) (q * (price - pos_average_cost_usd ?p) - fee)
        (ensure_position (upper a) b)) = Inr b2"
    using settle_fill_total [OF assms(2)] by blast
  then show ?thesis
    using that assms by (simp add: apply_fill_def Let_def cash_moved_def)
qed

lemma apply_fill_refused:
  assumes "\<not> (0 < q \<and> 0 < price \<and> 0 \<le> fee)
    \<or> sd = SELL \<and> pos_quantity (dict_get_or (b_positions b) (upper a) empty_position) < q"
  shows "fst (apply_fill a sd q price fee now s b) \<in> {b, ensure_position (upper a) b}"
    and "snd (apply_fill a sd q price fee now s b) \<noteq> None"
  using assms by (auto simp: apply_fill_def Let_def)

lemma apply_fill_shape:
  obtains (buy) "sd = BUY" "0 < q" "0 < price" "0 \<le> fee"
  | (sell) "sd = SELL" "0 < q" "0 < price" "0 \<le> fee"
      "q \<le> pos_quantity (dict_get_or (b_positions b) (upper a) empty_position)"
  | (refused) "\<not> (0 < q \<and> 0 < price \<and> 0 \<le> fee)
    \<or> sd = SELL \<and> pos_quantity (dict_get_or (b_positions b) (upper a) empty_position) < q"
  by (cases sd; cases "0 < q \<and> 0 < price \<and> 0 \<le> fee";
      cases "q \<le> pos_quantity (dict_get_or (b_positions b) (upper a) empty_position)")
    (use that in \<open>auto simp: not_le\<close>)

lemma apply_fill_wf:
  assumes "book_wf b"
  shows "book_wf (fst (apply_fill a sd q price fee now s b))"
proof (cases rule: apply_fill_shape [where sd = sd and q = q and price = price and fee = fee and b = b and a = a])
  case buy
  with assms obtain b2 where b2: "apply_fill a BUY q price fee now s b = (b2, None)"
    "settle_fill (upper a) (buy_position q price now s
           (dict_get_or (b_positions b) (upper a) empty_position)) fee price
           (cash_moved (- (q * price + fee)) (- fee) (ensure_position (upper a) b)) = Inr b2"
    using apply_fill_buy [OF buy(2-4) assms, of a now s] by blast
  from settle_fill_wf [OF _ buy_position_ok _ b2(2)] b2(1) buy assms show ?thesis
    by (simp add: ensure_position_wf get_or_ok book_wf_positions)
next
  case sell
  then obtain b2 where b2: "apply_fill a SELL q price fee now s b = (b2, None)"
    "settle_fill (upper a) (sell_position q
           (dict_get_or (b_positions b) (upper a) empty_position)) fee price
           (cash_moved (q * price - fee)
              (q * (price - pos_average_cost_usd (dict_get_or (b_positions b) (upper a) empty_position)) - fee)
              (ensure_position (upper a) b)) = Inr b2"
    using apply_fill_sell [OF sell(2-5), of now s] by blast
  from settle_fill_wf [OF _ sell_position_ok _ b2(2)] b2(1) sell assms show ?thesis
    by (simp add: ensure_position_wf get_or_ok book_wf_positions)
next
  case refused
  from apply_fill_refused(1) [OF refused] assms ensure_position_wf [OF assms] show ?thesis
    by (metis empty_iff insert_iff)
qed

lemma roll_day_wf: "book_wf b \<Longrightarrow> book_wf (fst (roll_day now b))"
  by (auto simp: roll_day_def Let_def book_wf_def split: option.splits)

section \<open>Accounting\<close>

definition cost_basis :: "position dict \<Rightarrow> real" where
  "cost_basis d = sum_list (map (\<lambda>(a, p). pos_quantity p * pos_average_cost_usd p) d)"

definition unrealized_pnl :: "book \<Rightarrow> real" where
  "unrealized_pnl b =
     sum_list (map (\<lambda>(a, p). pos_quantity p * (mark_of b a p - pos_average_cost_usd p)) (b_positions b))"

text \<open>The capital the book accounts for: what no fill, mark or rollover may change.\<close>

definition book_capital :: "book \<Rightarrow> real" where
  "book_capital b = b_cash_usd b + cost_basis (b_positions b) - b_realized_pnl_usd b"

lemma cost_basis_set:
  assumes "distinct (dict_keys d)"
  shows "cost_basis (dict_set k p d) = cost_basis d + pos_quantity p * pos_average_cost_usd p
    - pos_quantity (dict_get_or d k empty_position)
      * pos_average_cost_usd (dict_get_or d k empty_position)"
  using sum_list_update [OF assms, of "\<lambda>(a, p). pos_quantity p * pos_average_cost_usd p" k p]
  by (simp add: cost_basis_def dict_get_or_def empty_position_def split: option.splits)

lemma nav_decomposition:
  "nav_usd b = b_cash_usd b + cost_basis (b_positions b) + unrealized_pnl b"
proof -
  have "sum_list (map (\<lambda>(a, p). pos_quantity p * mark_of b a p) d)
      = sum_list (map (\<lambda>(a, p). pos_quantity p * pos_average_cost_usd p) d)
      + sum_list (map (\<lambda>(a, p). pos_quantity p * (mark_of b a p - pos_average_cost_usd p)) d)"
    for d by (induction d) (auto simp: algebra_simps)
  then show ?thesis by (simp add: nav_usd_def cost_basis_def unrealized_pnl_def py_sum_eq)
qed

lemma mark_cost_basis:
  assumes "distinct (dict_keys (b_positions b))" "mark a price b = Inr b'"
  shows "cost_basis (b_positions b') = cost_basis (b_positions b)"
  using assms(2)
  by (rule mark_positions) (use assms(1) in \<open>auto simp: cost_basis_set dict_get_or_def\<close>)

lemma mark_capital:
  assumes "book_wf b" "mark a price b = Inr b'"
  shows "book_capital b' = book_capital b"
  using assms mark_Inr [OF assms(2)] mark_cost_basis [OF _ assms(2)]
  by (simp add: book_capital_def book_wf_def upper_keyed_def)

lemma settle_fill_capital:
  assumes "distinct (dict_keys (b_positions b))" "settle_fill a p fee price b = Inr b'"
  shows "book_capital b' = book_capital b + pos_quantity p * pos_average_cost_usd p
    - pos_quantity (dict_get_or (b_positions b) a empty_position)
      * pos_average_cost_usd (dict_get_or (b_positions b) a empty_position)"
proof -
  let ?b1 = "b\<lparr>b_positions := dict_set a (p\<lparr>pos_fees_paid_usd := pos_fees_paid_usd p + fee\<rparr>) (b_positions b)\<rparr>"
  from assms(2) obtain b2 where b2: "mark a price ?b1 = Inr b2"
    and b': "b' = b2\<lparr>b_peak_nav_usd := max (b_peak_nav_usd b2) (nav_usd b2)\<rparr>"
    by (auto simp: settle_fill_def Let_def split: sum.splits)
  from mark_cost_basis [OF _ b2] mark_Inr [OF b2] assms(1) b' show ?thesis
    by (simp add: book_capital_def distinct_update cost_basis_set)
qed

lemma buy_value:
  assumes "0 < pos_quantity p + q"
  shows "pos_quantity (buy_position q price now s p) * pos_average_cost_usd (buy_position q price now s p)
    = pos_quantity p * pos_average_cost_usd p + q * price"
  using assms by (simp add: buy_position_def Let_def)

lemma sell_value:
  "pos_quantity (sell_position q p) * pos_average_cost_usd (sell_position q p)
    = (pos_quantity p - q) * pos_average_cost_usd p"
  by (simp add: sell_position_def Let_def)

lemma ensure_position_simps:
  assumes "book_wf b"
  shows "distinct (dict_keys (b_positions (ensure_position k b)))"
    and "dict_get_or (b_positions (ensure_position k b)) k empty_position
       = dict_get_or (b_positions b) k empty_position"
    and "book_capital (ensure_position k b) = book_capital b"
  using assms
  by (auto simp: ensure_position_def distinct_update dict_get_or_def update_conv' book_capital_def
      cost_basis_set empty_position_def book_wf_def upper_keyed_def split: option.splits)

lemma cash_moved_capital: "book_capital (cash_moved c r b) = book_capital b + c - r"
  by (simp add: cash_moved_def book_capital_def)

lemma apply_fill_capital:
  assumes "book_wf b"
  shows "book_capital (fst (apply_fill a sd q price fee now s b)) = book_capital b"
proof (cases rule: apply_fill_shape [where sd = sd and q = q and price = price and fee = fee and b = b and a = a])
  case buy
  let ?p = "dict_get_or (b_positions b) (upper a) empty_position"
  from buy assms obtain b2 where b2: "apply_fill a BUY q price fee now s b = (b2, None)"
    "settle_fill (upper a) (buy_position q price now s ?p) fee price
       (cash_moved (- (q * price + fee)) (- fee) (ensure_position (upper a) b)) = Inr b2"
    using apply_fill_buy [OF buy(2-4) assms, of a now s] by blast
  have "0 < pos_quantity ?p + q"
    using buy(2) get_or_ok [OF book_wf_positions [OF assms]] by (simp add: position_ok_def add_nonneg_pos)
  with settle_fill_capital [OF _ b2(2)] ensure_position_simps [OF assms] b2(1) buy(1) show ?thesis
    by (simp add: cash_moved_capital buy_value)
next
  case sell
  let ?p = "dict_get_or (b_positions b) (upper a) empty_position"
  from sell obtain b2 where b2: "apply_fill a SELL q price fee now s b = (b2, None)"
    "settle_fill (upper a) (sell_position q ?p) fee price
       (cash_moved (q * price - fee) (q * (price - pos_average_cost_usd ?p) - fee)
          (ensure_position (upper a) b)) = Inr b2"
    using apply_fill_sell [OF sell(2-5), of now s] by blast
  with settle_fill_capital [OF _ b2(2)] ensure_position_simps [OF assms] sell(1) show ?thesis
    by (simp add: cash_moved_capital sell_value) (simp add: algebra_simps)
next
  case refused
  from apply_fill_refused(1) [OF refused] ensure_position_simps(3) [OF assms] show ?thesis
    by (metis empty_iff insert_iff)
qed

lemma roll_day_capital [simp]: "book_capital (fst (roll_day now b)) = book_capital b"
  by (auto simp: roll_day_def Let_def book_capital_def split: option.splits)

section \<open>Sequences of book operations\<close>

datatype book_op =
    BookFill string side real real real datetime "string option"
  | BookMark string real
  | BookSnapshot datetime

fun book_step :: "book \<Rightarrow> book_op \<Rightarrow> book" where
  "book_step b (BookFill a sd q price fee now s) = fst (apply_fill a sd q price fee now s b)"
| "book_step b (BookMark a price) = (case mark a price b of Inl e \<Rightarrow> b | Inr b' \<Rightarrow> b')"
| "book_step b (BookSnapshot now) = fst (snapshot now b)"

definition run_book :: "book_op list \<Rightarrow> book \<Rightarrow> book" where
  "run_book ops b = foldl book_step b ops"

lemma snapshot_book [simp]: "fst (snapshot now b) = fst (roll_day now b)"
  by (simp add: snapshot_def Let_def)

lemma book_step_wf: "book_wf b \<Longrightarrow> book_wf (book_step b op)"
  by (cases op) (auto simp: apply_fill_wf roll_day_wf intro: mark_wf split: sum.splits)

lemma book_step_capital: "book_wf b \<Longrightarrow> book_capital (book_step b op) = book_capital b"
  by (cases op) (auto simp: apply_fill_capital mark_capital split: sum.splits)

lemma run_book_wf: "book_wf b \<Longrightarrow> book_wf (run_book ops b)"
  unfolding run_book_def by (induction ops arbitrary: b) (simp_all add: book_step_wf)

lemma run_book_capital: "book_wf b \<Longrightarrow> book_capital (run_book ops b) = book_capital b"
  unfolding run_book_def
  by (induction ops arbitrary: b) (simp_all add: book_step_wf book_step_capital)

lemma settle_fill_frame:
  assumes "settle_fill a p fee price b = Inr b'"
  shows "b_peak_nav_usd b \<le> b_peak_nav_usd b'" "nav_usd b' \<le> b_peak_nav_usd b'"
    "b_starting_nav_usd b' = b_starting_nav_usd b"
    "b_day_start_nav_usd b' = b_day_start_nav_usd b" "b_day_start_date b' = b_day_start_date b"
proof -
  let ?b1 = "b\<lparr>b_positions := dict_set a (p\<lparr>pos_fees_paid_usd := pos_fees_paid_usd p + fee\<rparr>) (b_positions b)\<rparr>"
  from assms obtain b2 where b2: "mark a price ?b1 = Inr b2"
    and b': "b' = b2\<lparr>b_peak_nav_usd := max (b_peak_nav_usd b2) (nav_usd b2)\<rparr>"
    by (auto simp: settle_fill_def Let_def split: sum.splits)
  have "nav_usd b' = nav_usd b2" by (simp add: b' nav_usd_def mark_of_def)
  with mark_Inr [OF b2] b' show "b_peak_nav_usd b \<le> b_peak_nav_usd b'"
    "nav_usd b' \<le> b_peak_nav_usd b'" "b_starting_nav_usd b' = b_starting_nav_usd b"
    "b_day_start_nav_usd b' = b_day_start_nav_usd b" "b_day_start_date b' = b_day_start_date b"
    by auto
qed

lemma ensure_position_frame [simp]:
  "b_peak_nav_usd (ensure_position k b) = b_peak_nav_usd b"
  "b_starting_nav_usd (ensure_position k b) = b_starting_nav_usd b"
  "b_day_start_nav_usd (ensure_position k b) = b_day_start_nav_usd b"
  "b_day_start_date (ensure_position k b) = b_day_start_date b"
  by (simp_all add: ensure_position_def split: option.splits)

lemma cash_moved_frame [simp]:
  "b_peak_nav_usd (cash_moved c r b) = b_peak_nav_usd b"
  "b_starting_nav_usd (cash_moved c r b) = b_starting_nav_usd b"
  "b_day_start_nav_usd (cash_moved c r b) = b_day_start_nav_usd b"
  "b_day_start_date (cash_moved c r b) = b_day_start_date b"
  by (simp_all add: cash_moved_def)

text \<open>What an accepted fill changes: cash by the signed notional and the fee, one quantity.\<close>

definition quantity_of :: "book \<Rightarrow> string \<Rightarrow> real" where
  "quantity_of b asset = pos_quantity (dict_get_or (b_positions b) asset empty_position)"

lemma settle_fill_effect:
  assumes "settle_fill a p fee price b = Inr b'"
  shows "b_cash_usd b' = b_cash_usd b" "b_realized_pnl_usd b' = b_realized_pnl_usd b"
    "quantity_of b' k = (if k = a then pos_quantity p else quantity_of b k)"
proof -
  let ?b1 = "b\<lparr>b_positions := dict_set a (p\<lparr>pos_fees_paid_usd := pos_fees_paid_usd p + fee\<rparr>) (b_positions b)\<rparr>"
  from assms obtain b2 where b2: "mark a price ?b1 = Inr b2"
    and b': "b' = b2\<lparr>b_peak_nav_usd := max (b_peak_nav_usd b2) (nav_usd b2)\<rparr>"
    by (auto simp: settle_fill_def Let_def split: sum.splits)
  from mark_Inr [OF b2] b' show "b_cash_usd b' = b_cash_usd b" "b_realized_pnl_usd b' = b_realized_pnl_usd b"
    by auto
  have "quantity_of b2 k = quantity_of ?b1 k"
    using b2 by (rule mark_positions) (auto simp: quantity_of_def dict_get_or_def update_conv' split: option.splits)
  then show "quantity_of b' k = (if k = a then pos_quantity p else quantity_of b k)"
    by (simp add: b' quantity_of_def dict_get_or_def update_conv')
qed

lemma apply_fill_effect:
  assumes "book_wf b" "apply_fill a sd q price fee now s b = (b', None)"
  shows "b_cash_usd b' = b_cash_usd b + (if sd = BUY then - (q * price) else q * price) - fee"
    "quantity_of b' k = quantity_of b k + (if k = upper a then (if sd = BUY then q else - q) else 0)"
    "0 \<le> fee" "0 < q" "sd = SELL \<longrightarrow> q \<le> quantity_of b (upper a)"
proof -
  have qe: "quantity_of (cash_moved c r (ensure_position (upper a) b)) k = quantity_of b k" for c r k
    by (auto simp: quantity_of_def ensure_position_def dict_get_or_def update_conv' empty_position_def split: option.splits)
  have ce: "b_cash_usd (cash_moved c r (ensure_position (upper a) b)) = b_cash_usd b + c" for c r
    by (simp add: cash_moved_def ensure_position_def split: option.splits)
  obtain p c r where ok: "sd = BUY \<longrightarrow> p = buy_position q price now s (dict_get_or (b_positions b) (upper a) empty_position)"
      "sd = SELL \<longrightarrow> p = sell_position q (dict_get_or (b_positions b) (upper a) empty_position)"
      "c = (if sd = BUY then - (q * price) else q * price) - fee" "0 \<le> fee" "0 < q"
      "sd = SELL \<longrightarrow> q \<le> quantity_of b (upper a)"
      "settle_fill (upper a) p fee price (cash_moved c r (ensure_position (upper a) b)) = Inr b'"
  proof (cases rule: apply_fill_shape [where sd = sd and q = q and price = price and fee = fee and b = b and a = a])
    case buy
    obtain b2 where b2: "apply_fill a BUY q price fee now s b = (b2, None)"
      and st: "settle_fill (upper a) (buy_position q price now s (dict_get_or (b_positions b) (upper a) empty_position))
        fee price (cash_moved (- (q * price + fee)) (- fee) (ensure_position (upper a) b)) = Inr b2"
      by (rule apply_fill_buy [OF buy(2-4) assms(1), of a now s])
    from b2 buy(1) assms(2) have "b2 = b'" by simp
    show thesis by (rule that [OF _ _ _ _ _ _ st [unfolded \<open>b2 = b'\<close>]]) (use buy in auto)
  next
    case sell
    let ?p = "dict_get_or (b_positions b) (upper a) empty_position"
    obtain b2 where b2: "apply_fill a SELL q price fee now s b = (b2, None)"
      and st: "settle_fill (upper a) (sell_position q ?p) fee price
        (cash_moved (q * price - fee) (q * (price - pos_average_cost_usd ?p) - fee) (ensure_position (upper a) b)) = Inr b2"
      by (rule apply_fill_sell [OF sell(2-5), of now s])
    from b2 sell(1) assms(2) have "b2 = b'" by simp
    show thesis by (rule that [OF _ _ _ _ _ _ st [unfolded \<open>b2 = b'\<close>]]) (use sell in \<open>auto simp: quantity_of_def\<close>)
  next
    case refused
    with apply_fill_refused(2) [OF refused, of now s] assms(2) show thesis by simp
  qed
  have pq: "pos_quantity p = quantity_of b (upper a) + (if sd = BUY then q else - q)"
    using ok(1,2) by (cases sd) (simp_all add: quantity_of_def buy_position_def sell_position_def Let_def)
  show "b_cash_usd b' = b_cash_usd b + (if sd = BUY then - (q * price) else q * price) - fee"
    using settle_fill_effect(1) [OF ok(7)] ok(3) by (simp add: ce)
  show "quantity_of b' k = quantity_of b k + (if k = upper a then (if sd = BUY then q else - q) else 0)"
    using settle_fill_effect(3) [OF ok(7)] pq by (simp add: qe)
  show "0 \<le> fee" "0 < q" "sd = SELL \<longrightarrow> q \<le> quantity_of b (upper a)" using ok by simp_all
qed

text \<open>What a fill leaves alone, and the one place where the peak rises.\<close>

lemma apply_fill_frame:
  assumes "book_wf b" "apply_fill a sd q price fee now s b = (b', err)"
  shows "b_peak_nav_usd b \<le> b_peak_nav_usd b'" "err = None \<Longrightarrow> nav_usd b' \<le> b_peak_nav_usd b'"
    "b_starting_nav_usd b' = b_starting_nav_usd b"
    "b_day_start_nav_usd b' = b_day_start_nav_usd b" "b_day_start_date b' = b_day_start_date b"
proof -
  consider (r) "b' \<in> {b, ensure_position (upper a) b}" "err \<noteq> None"
    | (s) p c r where "settle_fill (upper a) p fee price (cash_moved c r (ensure_position (upper a) b)) = Inr b'"
  proof (cases rule: apply_fill_shape [where sd = sd and q = q and price = price and fee = fee and b = b and a = a])
    case buy
    with assms that(2) apply_fill_buy [OF buy(2-4) assms(1), of a now s] show ?thesis by auto
  next
    case sell
    with assms that(2) apply_fill_sell [OF sell(2-5), of now s] show ?thesis by auto
  next
    case refused
    with assms(2) that(1) apply_fill_refused [OF refused, of now s] show ?thesis by simp
  qed
  then have "b_peak_nav_usd b \<le> b_peak_nav_usd b' \<and> (err = None \<longrightarrow> nav_usd b' \<le> b_peak_nav_usd b')
    \<and> b_starting_nav_usd b' = b_starting_nav_usd b
    \<and> b_day_start_nav_usd b' = b_day_start_nav_usd b \<and> b_day_start_date b' = b_day_start_date b"
    by cases (auto dest: settle_fill_frame)
  then show "b_peak_nav_usd b \<le> b_peak_nav_usd b'" "err = None \<Longrightarrow> nav_usd b' \<le> b_peak_nav_usd b'"
    "b_starting_nav_usd b' = b_starting_nav_usd b"
    "b_day_start_nav_usd b' = b_day_start_nav_usd b" "b_day_start_date b' = b_day_start_date b"
    by auto
qed

lemma roll_day_frame [simp]:
  "b_peak_nav_usd (fst (roll_day now b)) = b_peak_nav_usd b"
  "b_starting_nav_usd (fst (roll_day now b)) = b_starting_nav_usd b"
  "b_cash_usd (fst (roll_day now b)) = b_cash_usd b"
  "b_positions (fst (roll_day now b)) = b_positions b"
  "b_marks_usd (fst (roll_day now b)) = b_marks_usd b"
  by (auto simp: roll_day_def Let_def split: option.splits)

lemma roll_day_nav [simp]: "nav_usd (fst (roll_day now b)) = nav_usd b"
  by (simp add: nav_usd_def mark_of_def)

lemma book_step_frame:
  assumes "book_wf b"
  shows "b_peak_nav_usd b \<le> b_peak_nav_usd (book_step b op)"
    "b_starting_nav_usd (book_step b op) = b_starting_nav_usd b"
  using assms apply_fill_frame(1,3) [OF assms]
  by (cases op; auto simp: mark_Inr split: sum.splits; metis prod.collapse)+

lemma run_book_frame:
  assumes "book_wf b"
  shows "b_peak_nav_usd b \<le> b_peak_nav_usd (run_book ops b)
    \<and> b_starting_nav_usd (run_book ops b) = b_starting_nav_usd b"
  using assms unfolding run_book_def
proof (induction ops arbitrary: b)
  case (Cons op ops)
  from Cons.IH [OF book_step_wf [OF Cons.prems, of op]] book_step_frame [OF Cons.prems, of op]
  show ?case by auto
qed simp

lemma new_book_fresh:
  "new_book start None None 0 [] [] None None = Inr b \<Longrightarrow>
     book_wf b \<and> book_capital b = start \<and> b_starting_nav_usd b = start"
  by (auto simp: new_book_def Let_def book_wf_def upper_keyed_def book_capital_def cost_basis_def
      nav_usd_def split: if_splits)

lemma same_day_anchor:
  assumes "book_wf b" "b_day_start_date b = Some d" "b_day_start_nav_usd b = Some n"
    "list_all (\<lambda>op. case op of BookSnapshot now \<Rightarrow> utc_date now = d | _ \<Rightarrow> True) ops"
  shows "b_day_start_nav_usd (run_book ops b) = Some n \<and> b_day_start_date (run_book ops b) = Some d"
  using assms unfolding run_book_def
proof (induction ops arbitrary: b)
  case (Cons op ops)
  have "b_day_start_nav_usd (book_step b op) = Some n \<and> b_day_start_date (book_step b op) = Some d"
  proof (cases op)
    case (BookFill a sd q price fee now s)
    then show ?thesis
      using apply_fill_frame(4,5) [OF Cons.prems(1), of a sd q price fee now s] Cons.prems(2,3)
      by (metis book_step.simps(1) prod.collapse)
  next
    case (BookMark a price)
    with Cons.prems show ?thesis by (auto simp: mark_Inr split: sum.splits)
  next
    case (BookSnapshot now)
    with Cons.prems show ?thesis by (simp add: roll_day_def Let_def)
  qed
  with Cons.IH [of "book_step b op"] Cons.prems book_step_wf show ?case by simp
qed simp

lemma exposures_sum:
  assumes "list_all position_ok (dict_vals d)"
  shows "sum_list (map (\<lambda>(a, p). pos_quantity p * g a p) d)
    = sum_list (map (\<lambda>(a, p). pos_quantity p * g a p) (filter (\<lambda>(a, p). 0 < pos_quantity p) d))"
  using assms by (induction d) (auto simp: position_ok_def)

lemma mark_of_nonneg: "book_wf b \<Longrightarrow> position_ok p \<Longrightarrow> 0 \<le> mark_of b a p"
  by (auto simp: mark_of_def dict_get_or_def book_wf_def position_ok_def less_imp_le
      dest: vals_get split: option.splits)

lemma snapshot_held_valid:
  assumes "book_wf b" "(a, p) \<in> set (open_positions b)"
  shows "held_valid \<lparr>hp_quantity = pos_quantity p, hp_average_cost_usd = pos_average_cost_usd p,
    hp_exposure_usd = pos_quantity p * mark_of b a p, hp_opened_at = pos_opened_at p,
    hp_high_water_price_usd = pos_high_water_price_usd p,
    hp_entry_strategy_id = pos_entry_strategy_id p\<rparr>"
proof -
  from assms have "position_ok p"
    by (force simp: open_positions_def book_wf_def list_all_iff)
  with mark_of_nonneg [OF assms(1)] show ?thesis by (auto simp: held_valid_def position_ok_def)
qed

lemma roll_day_open [simp]: "open_positions (fst (roll_day now b)) = open_positions b"
  by (simp add: open_positions_def)

lemma roll_day_mark_of [simp]: "mark_of (fst (roll_day now b)) = mark_of b"
  by (intro ext) (simp add: mark_of_def)

lemma snapshot_Inr_iff:
  assumes "book_wf b"
  shows "(\<exists>s. snd (snapshot now b) = Inr s) \<longleftrightarrow> 0 < nav_usd b"
proof -
  have "0 < b_peak_nav_usd b" using assms by (simp add: book_wf_def)
  with snapshot_held_valid [OF assms] show ?thesis
    by (auto simp: snapshot_def Let_def snapshot_valid_def list_all_iff)
qed

lemma snapshot_nav:
  assumes "book_wf b" "snapshot now b = (b', Inr s)"
  shows "ps_nav_usd s = b_cash_usd b + sum_list (dict_vals (ps_asset_exposure_usd s))"
proof -
  have s: "ps_nav_usd s = nav_usd b"
    "ps_asset_exposure_usd s = map (\<lambda>(a, p). (a, pos_quantity p * mark_of b a p)) (open_positions b)"
    using assms(2) by (auto simp: snapshot_def Let_def split: if_splits)
  have "sum_list (map snd (map (\<lambda>(a, p). (a, pos_quantity p * mark_of b a p)) d))
      = sum_list (map (\<lambda>(a, p). pos_quantity p * mark_of b a p) d)" for d
    by (induction d) auto
  with s exposures_sum [OF book_wf_positions [OF assms(1)], of "mark_of b"] show ?thesis
    by (simp add: nav_usd_def py_sum_eq open_positions_def del: map_map)
qed

section \<open>Properties of the book\<close>

definition ex_book :: book where
  "ex_book = \<lparr>b_starting_nav_usd = 1000, b_cash_usd = 1000, b_peak_nav_usd = 1000,
     b_realized_pnl_usd = 0, b_positions = [], b_marks_usd = [],
     b_day_start_nav_usd = Some 1000, b_day_start_date = Some 0\<rparr>"

definition ex_book_ops :: "book_op list" where
  "ex_book_ops = [BookFill ''btc'' BUY 2 100 1 5 (Some ''s''), BookMark ''BTC'' 120,
     BookFill ''BTC'' SELL 1 110 1 7 None, BookFill ''ETH'' SELL 1 10 0 8 None]"

lemma ex_book_wf: "book_wf ex_book"
  by (simp add: ex_book_def book_wf_def upper_keyed_def)

text \<open>
  The book stays well formed under every sequence of fills (accepted or rejected), marks and
  snapshots: one position per upper-case asset, no negative quantity, cost or mark, and a position
  is flat exactly when its cost basis, high-water mark and opening time are cleared.
\<close>

theorem book_invariant:
  assumes "book_wf b"
  shows "book_wf (run_book ops b)"
  using assms by (rule run_book_wf)

theorem book_invariant_witness: "book_wf (run_book ex_book_ops ex_book)"
  by (rule book_invariant) (rule ex_book_wf)

text \<open>
  C14: accounting identity. For a book opened with \<open>start\<close> dollars, after any sequence of fills
  (with fees), rejected fills, marks and snapshots: cash plus the cost of the open positions is the
  starting capital plus realized profit, and NAV is starting capital plus realized plus unrealized
  profit. No operation creates or loses money.
\<close>

theorem book_accounting:
  assumes "new_book start None None 0 [] [] None None = Inr b"
  shows "b_cash_usd (run_book ops b) + cost_basis (b_positions (run_book ops b))
        = start + b_realized_pnl_usd (run_book ops b)
    \<and> nav_usd (run_book ops b)
        = start + b_realized_pnl_usd (run_book ops b) + unrealized_pnl (run_book ops b)"
proof -
  from new_book_fresh [OF assms] have "book_capital (run_book ops b) = start"
    by (simp add: run_book_capital)
  then show ?thesis by (simp add: book_capital_def nav_decomposition)
qed

theorem book_accounting_witness:
  "\<exists>b. new_book 1000 None None 0 [] [] None None = Inr b
     \<and> nav_usd (run_book ex_book_ops b)
       = 1000 + b_realized_pnl_usd (run_book ex_book_ops b) + unrealized_pnl (run_book ex_book_ops b)"
  using book_accounting [of 1000 _ ex_book_ops] by (auto simp: new_book_def Let_def)

text \<open>
  The peak used for the drawdown limit never falls along any sequence of book operations,
  and after every accepted fill it is at least the NAV.
\<close>

theorem book_peak:
  assumes "book_wf b"
  shows "b_peak_nav_usd b \<le> b_peak_nav_usd (run_book ops b)
    \<and> (snd (apply_fill a sd q price fee now s (run_book ops b)) = None \<longrightarrow>
         nav_usd (fst (apply_fill a sd q price fee now s (run_book ops b)))
           \<le> b_peak_nav_usd (fst (apply_fill a sd q price fee now s (run_book ops b))))"
  using run_book_frame [OF assms] apply_fill_frame(2) [OF run_book_wf [OF assms]]
  by (metis prod.collapse)

theorem book_peak_witness:
  "b_peak_nav_usd ex_book \<le> b_peak_nav_usd (run_book ex_book_ops ex_book)"
  using book_peak [OF ex_book_wf, of ex_book_ops] by blast

text \<open>
  A fill is accepted exactly when quantity and price are positive, the fee is not negative
  and a sale does not exceed the held quantity; a rejected fill leaves cash, realized profit, peak
  and every position's quantity unchanged.
\<close>

theorem apply_fill_accepts_iff:
  assumes "book_wf b"
  shows "(snd (apply_fill a sd q price fee now s b) = None \<longleftrightarrow>
      0 < q \<and> 0 < price \<and> 0 \<le> fee
      \<and> (sd = SELL \<longrightarrow> q \<le> pos_quantity (dict_get_or (b_positions b) (upper a) empty_position)))
    \<and> (snd (apply_fill a sd q price fee now s b) \<noteq> None \<longrightarrow>
      (let b' = fst (apply_fill a sd q price fee now s b) in
        b_cash_usd b' = b_cash_usd b \<and> b_realized_pnl_usd b' = b_realized_pnl_usd b
        \<and> b_peak_nav_usd b' = b_peak_nav_usd b
        \<and> (\<forall>k. pos_quantity (dict_get_or (b_positions b') k empty_position)
             = pos_quantity (dict_get_or (b_positions b) k empty_position))))"
proof (cases rule: apply_fill_shape [where sd = sd and q = q and price = price and fee = fee and b = b and a = a])
  case buy
  then have "snd (apply_fill a sd q price fee now s b) = None"
    using apply_fill_buy [OF buy(2-4) assms, of a now s] by (metis snd_conv)
  with buy show ?thesis by simp
next
  case sell
  then have "snd (apply_fill a sd q price fee now s b) = None"
    using apply_fill_sell [OF sell(2-5), of now s] by (metis snd_conv)
  with sell show ?thesis by simp
next
  case refused
  have "b_cash_usd b' = b_cash_usd b \<and> b_realized_pnl_usd b' = b_realized_pnl_usd b
      \<and> b_peak_nav_usd b' = b_peak_nav_usd b
      \<and> (\<forall>k. pos_quantity (dict_get_or (b_positions b') k empty_position)
           = pos_quantity (dict_get_or (b_positions b) k empty_position))"
    if "b' \<in> {b, ensure_position (upper a) b}" for b'
    using that
    by (auto simp: ensure_position_def dict_get_or_def update_conv' split: option.splits if_splits)
  then have "b_cash_usd b' = b_cash_usd b \<and> b_realized_pnl_usd b' = b_realized_pnl_usd b
      \<and> b_peak_nav_usd b' = b_peak_nav_usd b
      \<and> (\<forall>k. pos_quantity (dict_get_or (b_positions b') k empty_position)
           = pos_quantity (dict_get_or (b_positions b) k empty_position))"
    if "b' = fst (apply_fill a sd q price fee now s b)" for b'
    using apply_fill_refused(1) [OF refused, of now s] that by blast
  moreover have "\<not> (0 < q \<and> 0 < price \<and> 0 \<le> fee
      \<and> (sd = SELL \<longrightarrow> q \<le> pos_quantity (dict_get_or (b_positions b) (upper a) empty_position)))"
    using refused by linarith
  ultimately show ?thesis
    using apply_fill_refused(2) [OF refused, of now s] unfolding Let_def by blast
qed

theorem apply_fill_accepts_iff_witness:
  "snd (apply_fill ''BTC'' BUY 1 10 0 0 None ex_book) = None"
  using apply_fill_accepts_iff [OF ex_book_wf, of "''BTC''" BUY 1 10 0 0 None] by simp

text \<open>
  The daily anchor. While every snapshot falls on the anchored UTC day, the daily profit is
  NAV minus the day's opening NAV; the first snapshot on another UTC day re-anchors, so the daily
  profit it reports is zero.
\<close>

theorem daily_anchor:
  assumes "book_wf b" and "b_day_start_date b = Some d" and "b_day_start_nav_usd b = Some n"
    and "list_all (\<lambda>op. case op of BookSnapshot now \<Rightarrow> utc_date now = d | _ \<Rightarrow> True) ops"
  shows "daily_pnl_usd (run_book ops b) = nav_usd (run_book ops b) - n
    \<and> (utc_date now \<noteq> d \<longrightarrow> daily_pnl_usd (fst (snapshot now (run_book ops b))) = 0
         \<and> snd (roll_day now (run_book ops b)))"
  using same_day_anchor [OF assms]
  by (auto simp: daily_pnl_usd_def roll_day_def Let_def nav_usd_def mark_of_def)

theorem daily_anchor_witness:
  "daily_pnl_usd (run_book ex_book_ops ex_book) = nav_usd (run_book ex_book_ops ex_book) - 1000"
  using daily_anchor [OF ex_book_wf, of 0 1000 ex_book_ops 0]
  by (simp add: ex_book_def ex_book_ops_def)

text \<open>
  A snapshot of a well-formed book is refused exactly when NAV is not positive; otherwise
  it reports NAV as cash plus the sum of the exposures of the open positions.
\<close>

theorem snapshot_consistent:
  assumes "book_wf b"
  shows "((\<exists>s. snd (snapshot now b) = Inr s) \<longleftrightarrow> 0 < nav_usd b)
    \<and> (\<forall>s. snd (snapshot now b) = Inr s \<longrightarrow>
         ps_nav_usd s = b_cash_usd b + sum_list (dict_vals (ps_asset_exposure_usd s))
         \<and> ps_daily_pnl_usd s = daily_pnl_usd (fst (snapshot now b)) \<and> ps_observed_at s = now)"
proof -
  have "ps_daily_pnl_usd s = daily_pnl_usd (fst (snapshot now b)) \<and> ps_observed_at s = now"
    if "snd (snapshot now b) = Inr s" for s
    using that by (auto simp: snapshot_def Let_def split: if_splits)
  with snapshot_Inr_iff [OF assms] snapshot_nav [OF assms] show ?thesis
    by (metis prod.collapse)
qed

theorem snapshot_consistent_witness: "\<exists>s. snd (snapshot 0 ex_book) = Inr s"
  using snapshot_consistent [OF ex_book_wf, of 0] by (simp add: ex_book_def nav_usd_def)

lemma book_restored:
  assumes "book_wf b"
  shows "book_from_state (book_state b) = Inr b"
proof -
  have up: "upper_keys d = d" if "upper_keyed d" for d :: "'v dict"
  proof -
    have "map (\<lambda>(k, v). (upper k, v)) d = d"
      using that by (auto simp: upper_keyed_def list_all_iff intro!: map_idI)
    with that show ?thesis by (simp add: upper_keys_def upper_keyed_def)
  qed
  from assms show ?thesis
    by (auto simp: book_from_state_def book_state_def new_book_def Let_def up book_wf_def
        split: option.splits)
qed

text \<open>
  Saving a well-formed book and loading it again gives back the identical book.
\<close>

theorem book_state_round_trip:
  assumes "book_wf b"
  shows "book_from_state (book_state b) = Inr b"
  by (rule book_restored [OF assms])

theorem book_state_round_trip_witness:
  "book_from_state (book_state (run_book ex_book_ops ex_book)) = Inr (run_book ex_book_ops ex_book)"
  by (rule book_state_round_trip [OF run_book_wf [OF ex_book_wf]])

text \<open>Marks do not raise the peak: the reported NAV may exceed the reported peak.\<close>

lemma mark_does_not_raise_peak:
  "b_peak_nav_usd (run_book [BookFill ''BTC'' BUY 1 100 0 0 None, BookMark ''BTC'' 200] ex_book)
     < nav_usd (run_book [BookFill ''BTC'' BUY 1 100 0 0 None, BookMark ''BTC'' 200] ex_book)"
  by code_simp

end
