(* ===== verification/Circuit_Breaker.thy ===== *)
theory Circuit_Breaker
  imports Config Ledger Portfolio
begin

text \<open>
  The strategy circuit breaker (\<open>circuit_breaker.py\<close>): realized outcomes per strategy, the two
  trip conditions, the cool-down that clears a trip, and the feeders that turn fills, ledger orders
  and book movements into outcomes. \<open>is_tripped\<close> clears an expired trip, so it returns the breaker
  it leaves behind.
\<close>

section \<open>Data\<close>

record closed_trade =
  ct_pnl_usd :: real
  ct_nav_usd :: real
  ct_closed_at :: datetime

definition pnl_fraction :: "closed_trade \<Rightarrow> real" where
  "pnl_fraction t = ct_pnl_usd t / ct_nav_usd t"

datatype trip_reason = TRIP_CONSECUTIVE_LOSSES | TRIP_ROLLING_DRAWDOWN

record breaker_state =
  bs_consecutive_losses :: nat
  bs_closed_trades :: "closed_trade list"
  bs_tripped_at :: "datetime option"
  bs_trip_reason :: "trip_reason option"

definition new_breaker_state :: breaker_state where
  "new_breaker_state = \<lparr>bs_consecutive_losses = 0, bs_closed_trades = [],
     bs_tripped_at = None, bs_trip_reason = None\<rparr>"

record circuit_breaker =
  cb_max_consecutive_losses :: nat
  cb_drawdown_window :: nat
  cb_max_rolling_drawdown_pct :: real
  cb_cooldown_seconds :: real
  cb_states :: "breaker_state dict"

datatype breaker_error =
    NavNotPositive | QuantityNotPositive | PricesNotPositive | FeeIsNegative | EntryPriceNotPositive

section \<open>Operations\<close>

fun drawdown_loop :: "closed_trade list \<Rightarrow> real \<Rightarrow> real \<Rightarrow> real \<Rightarrow> real" where
  "drawdown_loop [] cumulative peak worst = worst"
| "drawdown_loop (t # ts) cumulative peak worst =
     (let cumulative' = cumulative + pnl_fraction t;
          peak' = max peak cumulative';
          worst' = max worst (peak' - cumulative')
      in drawdown_loop ts cumulative' peak' worst')"

definition rolling_drawdown :: "closed_trade list \<Rightarrow> real" where
  "rolling_drawdown trades = drawdown_loop trades 0 0 0"

definition breaker_from_settings :: "settings \<Rightarrow> circuit_breaker" where
  "breaker_from_settings s =
     \<lparr>cb_max_consecutive_losses = cfg_strategy_max_consecutive_losses s,
      cb_drawdown_window = cfg_strategy_drawdown_window s,
      cb_max_rolling_drawdown_pct = cfg_strategy_max_rolling_drawdown_pct s,
      cb_cooldown_seconds = cfg_strategy_breaker_cooldown_seconds s,
      cb_states = []\<rparr>"

definition breaker_export :: "circuit_breaker \<Rightarrow> breaker_state dict" where
  "breaker_export b = cb_states b"

definition breaker_load :: "breaker_state dict \<Rightarrow> circuit_breaker \<Rightarrow> circuit_breaker" where
  "breaker_load sts b = b\<lparr>cb_states := sts\<rparr>"

definition state_for :: "string \<Rightarrow> circuit_breaker \<Rightarrow> breaker_state" where
  "state_for sid b = dict_get_or (cb_states b) sid new_breaker_state"

text \<open>\<open>if len(xs) > w: del xs[:-w]\<close>\<close>

definition trim_window :: "nat \<Rightarrow> 'a list \<Rightarrow> 'a list" where
  "trim_window w xs = (if w < length xs then tail_slice w xs else xs)"

definition observe_trade :: "circuit_breaker \<Rightarrow> closed_trade \<Rightarrow> breaker_state \<Rightarrow> breaker_state" where
  "observe_trade b t st =
     (let st1 = st\<lparr>bs_closed_trades := trim_window (cb_drawdown_window b) (bs_closed_trades st @ [t]),
                   bs_consecutive_losses :=
                     (if ct_pnl_usd t < 0 then bs_consecutive_losses st + 1 else 0)\<rparr>
      in if bs_tripped_at st1 \<noteq> None then st1
         else if cb_max_consecutive_losses b \<le> bs_consecutive_losses st1
         then st1\<lparr>bs_tripped_at := Some (ct_closed_at t),
                  bs_trip_reason := Some TRIP_CONSECUTIVE_LOSSES\<rparr>
         else if cb_max_rolling_drawdown_pct b \<le> rolling_drawdown (bs_closed_trades st1)
         then st1\<lparr>bs_tripped_at := Some (ct_closed_at t),
                  bs_trip_reason := Some TRIP_ROLLING_DRAWDOWN\<rparr>
         else st1)"

definition record_closed_trade ::
    "string \<Rightarrow> real \<Rightarrow> real \<Rightarrow> datetime \<Rightarrow> circuit_breaker \<Rightarrow> breaker_error + circuit_breaker" where
  "record_closed_trade sid pnl nav moment b =
     (if nav \<le> 0 then Inl NavNotPositive
      else Inr (b\<lparr>cb_states := dict_set sid
             (observe_trade b \<lparr>ct_pnl_usd = pnl, ct_nav_usd = nav, ct_closed_at = moment\<rparr>
                (state_for sid b)) (cb_states b)\<rparr>))"

definition record_reducing_fill ::
    "string \<Rightarrow> real \<Rightarrow> real \<Rightarrow> real \<Rightarrow> real \<Rightarrow> real \<Rightarrow> datetime \<Rightarrow> circuit_breaker
       \<Rightarrow> breaker_error + circuit_breaker" where
  "record_reducing_fill sid quantity exit_price entry_price nav fee moment b =
     (if quantity \<le> 0 then Inl QuantityNotPositive
      else if exit_price \<le> 0 \<or> entry_price \<le> 0 then Inl PricesNotPositive
      else if fee < 0 then Inl FeeIsNegative
      else record_closed_trade sid (quantity * (exit_price - entry_price) - fee) nav moment b)"

definition record_ledger_close ::
    "execution_order \<Rightarrow> string \<Rightarrow> real \<Rightarrow> real \<Rightarrow> datetime option \<Rightarrow> circuit_breaker
       \<Rightarrow> breaker_error + circuit_breaker" where
  "record_ledger_close x sid entry_price nav at_time b =
     (if o_side x \<noteq> SELL then Inr b
      else if o_state x \<notin> {FILLED, PARTIALLY_FILLED} then Inr b
      else case o_average_fill_price_usd x of
          None \<Rightarrow> Inr b
        | Some avg \<Rightarrow>
            if o_filled_quantity x \<le> 0 then Inr b
            else if entry_price \<le> 0 then Inl EntryPriceNotPositive
            else record_closed_trade sid
                   ((avg - entry_price) * o_filled_quantity x - o_fees_paid_usd x) nav
                   (opt_or at_time (o_last_updated_at x)) b)"

definition reset :: "string \<Rightarrow> circuit_breaker \<Rightarrow> circuit_breaker" where
  "reset sid b =
     (case dict_get (cb_states b) sid of
        None \<Rightarrow> b
      | Some st \<Rightarrow> b\<lparr>cb_states := dict_set sid new_breaker_state (cb_states b)\<rparr>)"

definition is_tripped :: "string \<Rightarrow> datetime \<Rightarrow> circuit_breaker \<Rightarrow> bool \<times> circuit_breaker" where
  "is_tripped sid now b =
     (case dict_get (cb_states b) sid of
        None \<Rightarrow> (False, b)
      | Some st \<Rightarrow>
          (case bs_tripped_at st of
             None \<Rightarrow> (False, b)
           | Some t \<Rightarrow>
               if cb_cooldown_seconds b \<le> total_seconds (now - t) then (False, reset sid b)
               else (True, b)))"

record pnl_feeder =
  pf_last_realized_pnl_usd :: real

definition feeder_observe ::
    "string \<Rightarrow> book \<Rightarrow> datetime \<Rightarrow> pnl_feeder \<Rightarrow> circuit_breaker
       \<Rightarrow> pnl_feeder \<times> circuit_breaker \<times> bool" where
  "feeder_observe sid bk moment f b =
     (let delta = b_realized_pnl_usd bk - pf_last_realized_pnl_usd f;
          f' = f\<lparr>pf_last_realized_pnl_usd := b_realized_pnl_usd bk\<rparr>
      in if delta = 0 \<or> nav_usd bk \<le> 0 then (f', b, False)
         else case record_closed_trade sid delta (nav_usd bk) moment b of
                Inl e \<Rightarrow> (f', b, False)
              | Inr b' \<Rightarrow> (f', b', True))"

section \<open>The rolling drawdown\<close>

definition pnl_curve :: "closed_trade list \<Rightarrow> nat \<Rightarrow> real" where
  "pnl_curve ts n = sum_list (map pnl_fraction (take n ts))"

text \<open>Reference definition: the largest fall from an earlier to a later point of the curve.\<close>

definition max_fall :: "closed_trade list \<Rightarrow> real" where
  "max_fall ts = Max (set (concat (map (\<lambda>j. map (\<lambda>i. pnl_curve ts i - pnl_curve ts j) [0..<Suc j])
     [0..<Suc (length ts)])))"

lemma pnl_curve_0 [simp]: "pnl_curve ts 0 = 0"
  by (simp add: pnl_curve_def)

lemma pnl_curve_snoc: "n \<le> length ts \<Longrightarrow> pnl_curve (ts @ us) n = pnl_curve ts n"
  by (simp add: pnl_curve_def)

lemma pnl_curve_step: "pnl_curve (ts @ [t]) (Suc (length ts)) = pnl_curve ts (length ts) + pnl_fraction t"
  by (simp add: pnl_curve_def)

lemma drawdown_loop_snoc:
  assumes "cum' = pnl_curve (ts @ us) (length ts)"
    and "peak = Max (pnl_curve (ts @ us) ` {..length ts})"
    and "worst = Max {pnl_curve (ts @ us) i - pnl_curve (ts @ us) j | i j. i \<le> j \<and> j \<le> length ts}"
  shows "drawdown_loop us cum' peak worst
    = Max {pnl_curve (ts @ us) i - pnl_curve (ts @ us) j | i j. i \<le> j \<and> j \<le> length (ts @ us)}"
  using assms
proof (induction us arbitrary: ts cum' peak worst)
  case (Cons t us)
  let ?c = "pnl_curve (ts @ t # us)" and ?n = "length ts"
  have step: "?c (Suc ?n) = ?c ?n + pnl_fraction t"
    by (simp add: pnl_curve_def)
  have up: "{..Suc ?n} = insert (Suc ?n) {..?n}" by auto
  have peak': "max peak (?c (Suc ?n)) = Max (?c ` {..Suc ?n})"
    unfolding up Cons.prems(2) by (simp add: max.commute)
  let ?A = "\<lambda>m. {?c i - ?c j | i j. i \<le> j \<and> j \<le> m}"
  have fin: "finite (?A m)" for m
  proof -
    have "?A m \<subseteq> (\<lambda>(i, j). ?c i - ?c j) ` ({..m} \<times> {..m})" by auto
    then show ?thesis by (rule finite_subset) auto
  qed
  have new: "Max ((\<lambda>i. ?c i - ?c (Suc ?n)) ` {..Suc ?n}) = Max (?c ` {..Suc ?n}) - ?c (Suc ?n)"
    using Max_add_commute [of "{..Suc ?n}" ?c "- ?c (Suc ?n)"] by simp
  have split: "?A (Suc ?n) = ?A ?n \<union> (\<lambda>i. ?c i - ?c (Suc ?n)) ` {..Suc ?n}"
    by (auto simp: le_Suc_eq)
  have ne: "?A ?n \<noteq> {}" by (auto intro: exI [of _ 0])
  have worst': "max worst (max peak (?c (Suc ?n)) - ?c (Suc ?n)) = Max (?A (Suc ?n))"
    unfolding split peak' Cons.prems(3) using fin ne new by (subst Max_Un) auto
  show ?case
    using Cons.IH [of "?c (Suc ?n)" "ts @ [t]" "max peak (?c (Suc ?n))"
        "max worst (max peak (?c (Suc ?n)) - ?c (Suc ?n))"] peak' worst' step Cons.prems(1)
    by (simp add: Let_def)
qed simp

lemma max_fall_eq:
  "max_fall ts = Max {pnl_curve ts i - pnl_curve ts j | i j. i \<le> j \<and> j \<le> length ts}"
proof -
  have "set (concat (map (\<lambda>j. map (\<lambda>i. pnl_curve ts i - pnl_curve ts j) [0..<Suc j])
     [0..<Suc (length ts)])) = (\<Union>j\<in>{..length ts}. (\<lambda>i. pnl_curve ts i - pnl_curve ts j) ` {..j})"
    by (simp del: upt_Suc add: atLeast0LessThan lessThan_Suc_atMost)
  also have "\<dots> = {pnl_curve ts i - pnl_curve ts j | i j. i \<le> j \<and> j \<le> length ts}"
    by blast
  finally show ?thesis by (simp only: max_fall_def)
qed

lemma rolling_drawdown_eq: "rolling_drawdown ts = max_fall ts"
proof -
  have "{pnl_curve ts i - pnl_curve ts j | i j. i \<le> j \<and> j \<le> length ([] :: closed_trade list)} = {0}"
    by auto
  then show ?thesis
    using drawdown_loop_snoc [of 0 "[]" ts 0 0] by (simp add: rolling_drawdown_def max_fall_eq)
qed

section \<open>Invariant\<close>

definition breaker_wf :: "circuit_breaker \<Rightarrow> bool" where
  "breaker_wf b \<longleftrightarrow>
     distinct (dict_keys (cb_states b))
   \<and> list_all (\<lambda>st. length (bs_closed_trades st) \<le> cb_drawdown_window b
       \<and> list_all (\<lambda>t. 0 < ct_nav_usd t) (bs_closed_trades st)
       \<and> (bs_tripped_at st = None \<longleftrightarrow> bs_trip_reason st = None)) (dict_vals (cb_states b))"

lemma length_trim_window: "0 < w \<Longrightarrow> length (trim_window w xs) \<le> w"
  by (simp add: trim_window_def length_tail_slice)

lemma set_trim_window: "set (trim_window w xs) \<subseteq> set xs"
  using set_tail_slice [of w xs] by (simp add: trim_window_def)

lemma observe_trade_simps:
  "bs_closed_trades (observe_trade b t st) = trim_window (cb_drawdown_window b) (bs_closed_trades st @ [t])"
  "bs_consecutive_losses (observe_trade b t st)
     = (if ct_pnl_usd t < 0 then bs_consecutive_losses st + 1 else 0)"
  "bs_tripped_at st = Some m \<Longrightarrow> bs_tripped_at (observe_trade b t st) = Some m"
  by (auto simp: observe_trade_def Let_def)

lemma observe_trade_trips:
  assumes "bs_tripped_at st = None"
  shows "bs_tripped_at (observe_trade b t st) =
    (if cb_max_consecutive_losses b \<le> bs_consecutive_losses (observe_trade b t st)
        \<or> cb_max_rolling_drawdown_pct b \<le> rolling_drawdown (bs_closed_trades (observe_trade b t st))
     then Some (ct_closed_at t) else None)"
  using assms by (auto simp: observe_trade_def Let_def)

lemma record_Inr:
  "record_closed_trade sid pnl nav m b = Inr b' \<longleftrightarrow> 0 < nav
     \<and> b' = b\<lparr>cb_states := dict_set sid
         (observe_trade b \<lparr>ct_pnl_usd = pnl, ct_nav_usd = nav, ct_closed_at = m\<rparr> (state_for sid b))
         (cb_states b)\<rparr>"
  by (auto simp: record_closed_trade_def)

lemma state_for_wf:
  assumes "breaker_wf b"
  shows "list_all (\<lambda>t. 0 < ct_nav_usd t) (bs_closed_trades (state_for sid b))"
    and "bs_tripped_at (state_for sid b) = None \<longleftrightarrow> bs_trip_reason (state_for sid b) = None"
  using assms
  by (auto simp: state_for_def dict_get_or_def new_breaker_state_def breaker_wf_def list_all_iff
      dest!: map_of_SomeD split: option.splits)

lemma breaker_wf_put:
  assumes "breaker_wf b" "length (bs_closed_trades st) \<le> cb_drawdown_window b"
    and "list_all (\<lambda>t. 0 < ct_nav_usd t) (bs_closed_trades st)"
    and "bs_tripped_at st = None \<longleftrightarrow> bs_trip_reason st = None"
  shows "breaker_wf (b\<lparr>cb_states := dict_set sid st (cb_states b)\<rparr>)"
  using assms by (auto simp: breaker_wf_def distinct_update intro!: vals_set)

lemma record_closed_trade_wf:
  assumes "breaker_wf b" "0 < cb_drawdown_window b" "record_closed_trade sid pnl nav m b = Inr b'"
  shows "breaker_wf b'"
proof -
  let ?t = "\<lparr>ct_pnl_usd = pnl, ct_nav_usd = nav, ct_closed_at = m\<rparr>"
  let ?st = "observe_trade b ?t (state_for sid b)"
  have "list_all (\<lambda>t. 0 < ct_nav_usd t) (bs_closed_trades ?st)"
    using state_for_wf(1) [OF assms(1)] assms(3) set_trim_window
    by (fastforce simp: observe_trade_simps list_all_iff record_Inr)
  moreover have "bs_tripped_at ?st = None \<longleftrightarrow> bs_trip_reason ?st = None"
    using state_for_wf(2) [OF assms(1)] by (auto simp: observe_trade_def Let_def)
  moreover have "length (bs_closed_trades ?st) \<le> cb_drawdown_window b"
    using length_trim_window [OF assms(2)] by (simp add: observe_trade_simps)
  ultimately show ?thesis
    using breaker_wf_put [OF assms(1)] assms(3) by (simp add: record_Inr)
qed

lemma reset_wf: "breaker_wf b \<Longrightarrow> breaker_wf (reset sid b)"
  using breaker_wf_put [of b new_breaker_state]
  by (auto simp: reset_def new_breaker_state_def split: option.splits)

section \<open>Sequences of outcomes and queries\<close>

datatype breaker_op = CloseTrade string real real datetime | QueryTrip string datetime

fun breaker_step :: "circuit_breaker \<Rightarrow> breaker_op \<Rightarrow> circuit_breaker" where
  "breaker_step b (CloseTrade sid pnl nav m) =
     (case record_closed_trade sid pnl nav m b of Inl e \<Rightarrow> b | Inr b' \<Rightarrow> b')"
| "breaker_step b (QueryTrip sid now) = snd (is_tripped sid now b)"

definition run_breaker :: "breaker_op list \<Rightarrow> circuit_breaker \<Rightarrow> circuit_breaker" where
  "run_breaker ops b = foldl breaker_step b ops"

lemma reset_frame [simp]:
  "cb_cooldown_seconds (reset sid b) = cb_cooldown_seconds b"
  "cb_drawdown_window (reset sid b) = cb_drawdown_window b"
  "cb_max_consecutive_losses (reset sid b) = cb_max_consecutive_losses b"
  by (auto simp: reset_def split: option.splits)

lemma breaker_step_frame [simp]:
  "cb_cooldown_seconds (breaker_step b op) = cb_cooldown_seconds b"
  "cb_drawdown_window (breaker_step b op) = cb_drawdown_window b"
  "cb_max_consecutive_losses (breaker_step b op) = cb_max_consecutive_losses b"
  by (cases op; auto simp: record_Inr is_tripped_def split: sum.splits option.splits)+

lemma breaker_step_wf:
  assumes "breaker_wf b" "0 < cb_drawdown_window b"
  shows "breaker_wf (breaker_step b op)"
  using assms record_closed_trade_wf [OF assms] reset_wf
  by (cases op) (auto simp: is_tripped_def split: sum.splits option.splits)

lemma run_breaker_wf:
  "breaker_wf b \<Longrightarrow> 0 < cb_drawdown_window b \<Longrightarrow> breaker_wf (run_breaker ops b)"
  unfolding run_breaker_def by (induction ops arbitrary: b) (simp_all add: breaker_step_wf)

definition tripped_since :: "string \<Rightarrow> datetime \<Rightarrow> circuit_breaker \<Rightarrow> bool" where
  "tripped_since sid t b \<longleftrightarrow> (\<exists>st. dict_get (cb_states b) sid = Some st \<and> bs_tripped_at st = Some t)"

lemma reset_other: "sid \<noteq> sid' \<Longrightarrow> dict_get (cb_states (reset sid' b)) sid = dict_get (cb_states b) sid"
  by (auto simp: reset_def update_conv' split: option.splits)

lemma breaker_step_stays:
  assumes "tripped_since sid t b"
    and "case op of QueryTrip s now \<Rightarrow> s = sid \<longrightarrow> total_seconds (now - t) < cb_cooldown_seconds b
         | _ \<Rightarrow> True"
  shows "tripped_since sid t (breaker_step b op)"
proof (cases op)
  case (CloseTrade s pnl nav m)
  with assms(1) show ?thesis
    by (auto simp: tripped_since_def record_closed_trade_def update_conv' state_for_def dict_get_or_def
        observe_trade_simps)
next
  case (QueryTrip s now)
  with assms show ?thesis
    by (cases "s = sid") (auto simp: tripped_since_def is_tripped_def reset_other split: option.splits)
qed

lemma run_breaker_stays:
  assumes "tripped_since sid t b"
    and "list_all (\<lambda>op. case op of QueryTrip s now \<Rightarrow>
           s = sid \<longrightarrow> total_seconds (now - t) < cb_cooldown_seconds b | _ \<Rightarrow> True) ops"
  shows "tripped_since sid t (run_breaker ops b) \<and> cb_cooldown_seconds (run_breaker ops b) = cb_cooldown_seconds b"
  using assms unfolding run_breaker_def
proof (induction ops arbitrary: b)
  case (Cons op ops)
  then have "tripped_since sid t (breaker_step b op)"
    by (intro breaker_step_stays) auto
  with Cons.IH [of "breaker_step b op"] Cons.prems show ?case by simp
qed simp

lemma is_tripped_since:
  "tripped_since sid t b \<Longrightarrow>
     fst (is_tripped sid now b) \<longleftrightarrow> total_seconds (now - t) < cb_cooldown_seconds b"
  by (auto simp: tripped_since_def is_tripped_def split: if_splits)

section \<open>A run of losses\<close>

lemma losses_counted:
  assumes "list_all (\<lambda>(pnl, nav, m). pnl < 0 \<and> 0 < nav) ls"
  shows "bs_tripped_at (state_for sid (run_breaker (map (\<lambda>(pnl, nav, m). CloseTrade sid pnl nav m) ls) b)) \<noteq> None
    \<or> ls = []
    \<or> bs_consecutive_losses (state_for sid b) + length ls < cb_max_consecutive_losses b"
  using assms unfolding run_breaker_def
proof (induction ls arbitrary: b)
  case (Cons l ls)
  obtain pnl nav m where l: "l = (pnl, nav, m)" by (cases l)
  let ?t = "\<lparr>ct_pnl_usd = pnl, ct_nav_usd = nav, ct_closed_at = m\<rparr>"
  let ?b = "breaker_step b (CloseTrade sid pnl nav m)"
  have st: "state_for sid ?b = observe_trade b ?t (state_for sid b)"
    using Cons.prems l by (simp add: record_closed_trade_def state_for_def dict_get_or_def update_conv')
  have n: "bs_consecutive_losses (state_for sid ?b) = Suc (bs_consecutive_losses (state_for sid b))"
    using Cons.prems l by (simp add: st observe_trade_simps del: breaker_step.simps)
  have here: "bs_tripped_at (state_for sid ?b) \<noteq> None"
    if "cb_max_consecutive_losses b \<le> Suc (bs_consecutive_losses (state_for sid b))"
    using that n observe_trade_trips [of "state_for sid b" b ?t] observe_trade_simps(3)
    by (cases "bs_tripped_at (state_for sid b)") (auto simp: st simp del: breaker_step.simps)
  from Cons.IH [of ?b] Cons.prems n l here show ?case
    by (cases ls) (auto simp del: breaker_step.simps)
qed simp

section \<open>Properties of the breaker\<close>

definition ex_breaker :: circuit_breaker where
  "ex_breaker = \<lparr>cb_max_consecutive_losses = 2, cb_drawdown_window = 3,
     cb_max_rolling_drawdown_pct = 1 / 20, cb_cooldown_seconds = 60,
     cb_states = [(''s'', \<lparr>bs_consecutive_losses = 2, bs_closed_trades = [],
       bs_tripped_at = Some 0, bs_trip_reason = Some TRIP_CONSECUTIVE_LOSSES\<rparr>)]\<rparr>"

text \<open>
  The one-pass rolling drawdown equals its specification: the largest fall from any point of
  the cumulative NAV-normalised PnL curve to any later point.
\<close>

theorem rolling_drawdown_is_max_fall: "rolling_drawdown ts = max_fall ts"
  by (rule rolling_drawdown_eq)

text \<open>
  A strategy tripped at \<open>t\<close> stays suspended: whatever outcomes are recorded and whatever
  other strategies are queried in between, \<open>is_tripped\<close> answers true at every moment before the
  cool-down has elapsed, and false from then on.
\<close>

theorem breaker_suspends_for_cooldown:
  assumes "tripped_since sid t b"
    and "list_all (\<lambda>op. case op of QueryTrip s now \<Rightarrow>
           s = sid \<longrightarrow> total_seconds (now - t) < cb_cooldown_seconds b | _ \<Rightarrow> True) ops"
  shows "fst (is_tripped sid now (run_breaker ops b)) \<longleftrightarrow>
    total_seconds (now - t) < cb_cooldown_seconds b"
  using run_breaker_stays [OF assms] is_tripped_since by auto

theorem breaker_suspends_for_cooldown_witness:
  "fst (is_tripped ''s'' 59000000
     (run_breaker [CloseTrade ''s'' 5 100 1, QueryTrip ''s'' 2] ex_breaker))"
  using breaker_suspends_for_cooldown
    [of "''s''" 0 ex_breaker "[CloseTrade ''s'' 5 100 1, QueryTrip ''s'' 2]" 59000000]
  by (simp add: ex_breaker_def tripped_since_def total_seconds_def)

text \<open>
  A run of consecutive losing trades at least as long as the configured maximum leaves the
  strategy tripped, whatever its history was.
\<close>

theorem consecutive_losses_trip:
  assumes "list_all (\<lambda>(pnl, nav, m). pnl < 0 \<and> 0 < nav) ls" and "ls \<noteq> []"
    and "cb_max_consecutive_losses b \<le> length ls"
  shows "bs_tripped_at (state_for sid
    (run_breaker (map (\<lambda>(pnl, nav, m). CloseTrade sid pnl nav m) ls) b)) \<noteq> None"
  using losses_counted [OF assms(1), of sid b] assms(2,3) by linarith

theorem consecutive_losses_trip_witness:
  "bs_tripped_at (state_for ''x'' (run_breaker (map (\<lambda>(pnl, nav, m). CloseTrade ''x'' pnl nav m)
     [(-1, 100, 1), (-2, 100, 2)]) ex_breaker)) \<noteq> None"
  by (rule consecutive_losses_trip) (simp_all add: ex_breaker_def)

text \<open>
  C4: over any sequence of outcomes and queries the breaker keeps at most \<open>drawdown_window\<close>
  trades per strategy, every one with positive NAV, and has a trip reason exactly when tripped.
\<close>

theorem breaker_window_invariant:
  assumes "breaker_wf b" and "0 < cb_drawdown_window b"
  shows "breaker_wf (run_breaker ops b)"
  using assms by (rule run_breaker_wf)

theorem breaker_window_invariant_witness:
  "breaker_wf (run_breaker [CloseTrade ''s'' 5 100 1, CloseTrade ''s'' (-5) 100 1] ex_breaker)"
  by (rule breaker_window_invariant) (simp_all add: ex_breaker_def breaker_wf_def)

end
