(* ===== verification/Exits.thy ===== *)
theory Exits
  imports Config Strategies
begin

text \<open>
  Deterministic position exits (\<open>exits.py\<close>): stop-loss, trailing stop, take-profit, time stop and
  thesis invalidation, in that priority, and the sizing of the exit order.
\<close>

section \<open>Data\<close>

datatype exit_reason =
  EX_STOP_LOSS | EX_TRAILING_STOP | EX_TAKE_PROFIT | EX_TIME_STOP | EX_THESIS_INVALIDATED

fun exit_reason_str :: "exit_reason \<Rightarrow> string" where
  "exit_reason_str EX_STOP_LOSS = ''exit_stop_loss''"
| "exit_reason_str EX_TRAILING_STOP = ''exit_trailing_stop''"
| "exit_reason_str EX_TAKE_PROFIT = ''exit_take_profit''"
| "exit_reason_str EX_TIME_STOP = ''exit_time_stop''"
| "exit_reason_str EX_THESIS_INVALIDATED = ''exit_thesis_invalidated''"

record exit_signal =
  es_reason :: exit_reason
  es_asset :: string
  es_side :: side
  es_requested_notional_usd :: real
  es_mark_price_usd :: real
  es_entry_price_usd :: real

section \<open>Operations\<close>

definition exit_strategy_prefix :: string where
  "exit_strategy_prefix = ''exit-''"

definition is_exit_strategy_id :: "string \<Rightarrow> bool" where
  "is_exit_strategy_id sid = startswith sid exit_strategy_prefix"

definition exit_strategy_id :: "exit_reason \<Rightarrow> string" where
  "exit_strategy_id r = exit_strategy_prefix @ removeprefix (exit_reason_str r) ''exit_''"

definition reducing_side :: "real \<Rightarrow> side option" where
  "reducing_side exposure = (if 0 < exposure then Some SELL else if exposure < 0 then Some BUY else None)"

definition bar_seconds_for :: "settings \<Rightarrow> string option \<Rightarrow> nat option" where
  "bar_seconds_for s interval =
     interval_to_seconds
       (case interval of
          Some i \<Rightarrow> if i \<noteq> [] then i else effective_pretrade_candle_interval s
        | None \<Rightarrow> effective_pretrade_candle_interval s)"

definition exit_sizing_price_usd :: "settings \<Rightarrow> real \<Rightarrow> real" where
  "exit_sizing_price_usd s mark_price =
     (if mark_price \<le> 0 then mark_price
      else
        (let haircut = max 0 (cfg_paper_slippage_bps s) / 10000;
             price = mark_price * (1 - haircut)
         in if price \<le> 0 then mark_price else price))"

definition stop_loss_fired :: "settings \<Rightarrow> real \<Rightarrow> real \<Rightarrow> side \<Rightarrow> bool" where
  "stop_loss_fired s mark_price entry sd \<longleftrightarrow> 0 < cfg_exit_stop_loss_pct s \<and>
     (sd = SELL \<and> mark_price \<le> entry * (1 - cfg_exit_stop_loss_pct s)
      \<or> sd = BUY \<and> entry * (1 + cfg_exit_stop_loss_pct s) \<le> mark_price)"

definition trailing_stop_fired :: "settings \<Rightarrow> held_position \<Rightarrow> real \<Rightarrow> real \<Rightarrow> side \<Rightarrow> bool" where
  "trailing_stop_fired s p mark_price entry sd \<longleftrightarrow> 0 < cfg_exit_trailing_stop_pct s \<and> sd = SELL \<and>
     (let high_water = max (hp_high_water_price_usd p) (max entry mark_price)
      in entry < high_water \<and> mark_price \<le> high_water * (1 - cfg_exit_trailing_stop_pct s))"

definition take_profit_fired :: "settings \<Rightarrow> real \<Rightarrow> real \<Rightarrow> side \<Rightarrow> bool" where
  "take_profit_fired s mark_price entry sd \<longleftrightarrow> 0 < cfg_exit_take_profit_pct s \<and>
     (sd = SELL \<and> entry * (1 + cfg_exit_take_profit_pct s) \<le> mark_price
      \<or> sd = BUY \<and> mark_price \<le> entry * (1 - cfg_exit_take_profit_pct s))"

definition time_stop_fired :: "settings \<Rightarrow> held_position \<Rightarrow> datetime \<Rightarrow> real \<Rightarrow> bool" where
  "time_stop_fired s p now bar_seconds \<longleftrightarrow>
     0 < cfg_exit_time_stop_bars s \<and> 0 < bar_seconds
   \<and> (case hp_opened_at p of
        None \<Rightarrow> False
      | Some opened \<Rightarrow> real (cfg_exit_time_stop_bars s) * bar_seconds \<le> total_seconds (now - opened))"

definition thesis_invalidated ::
    "settings \<Rightarrow> held_position \<Rightarrow> side option \<Rightarrow> regime option \<Rightarrow> side \<Rightarrow> bool" where
  "thesis_invalidated s p confirmed rg sd \<longleftrightarrow> cfg_exit_on_thesis_invalidation s \<and>
     (sd = SELL \<and> confirmed = Some SELL \<or> sd = BUY \<and> confirmed = Some BUY
      \<or> sd = SELL \<and> rg = Some TRENDING_DOWN
        \<and> contains_str (lower (opt_or (hp_entry_strategy_id p) [])) ''momentum'')"

definition first_fired_reason ::
    "settings \<Rightarrow> held_position \<Rightarrow> real \<Rightarrow> real \<Rightarrow> datetime \<Rightarrow> real \<Rightarrow> side option \<Rightarrow> regime option \<Rightarrow> side
       \<Rightarrow> exit_reason option" where
  "first_fired_reason s p mark_price entry now bar_seconds confirmed rg sd =
     (if stop_loss_fired s mark_price entry sd then Some EX_STOP_LOSS
      else if trailing_stop_fired s p mark_price entry sd then Some EX_TRAILING_STOP
      else if take_profit_fired s mark_price entry sd then Some EX_TAKE_PROFIT
      else if time_stop_fired s p now bar_seconds then Some EX_TIME_STOP
      else if thesis_invalidated s p confirmed rg sd then Some EX_THESIS_INVALIDATED
      else None)"

definition evaluate_position_exits ::
    "settings \<Rightarrow> string \<Rightarrow> held_position \<Rightarrow> real \<Rightarrow> datetime \<Rightarrow> real \<Rightarrow> side option \<Rightarrow> regime option
       \<Rightarrow> exit_signal option" where
  "evaluate_position_exits s asset p mark_price now bar_seconds confirmed rg =
     (if \<not> position_exits_active s then None
      else if mark_price \<le> 0 \<or> hp_quantity p \<le> 0 then None
      else
        (let exposure = hp_quantity p * mark_price
         in case reducing_side exposure of
              None \<Rightarrow> None
            | Some sd \<Rightarrow>
                if exposure \<le> 0 then None
                else
                  (let requested = hp_quantity p * exit_sizing_price_usd s mark_price;
                       entry = hp_average_cost_usd p
                   in if entry \<le> 0 then None
                      else case first_fired_reason s p mark_price entry now bar_seconds confirmed rg sd of
                             None \<Rightarrow> None
                           | Some r \<Rightarrow>
                               Some \<lparr>es_reason = r, es_asset = upper asset, es_side = sd,
                                     es_requested_notional_usd = requested,
                                     es_mark_price_usd = mark_price, es_entry_price_usd = entry\<rparr>)))"

section \<open>Properties\<close>

lemma exit_ids: "is_exit_strategy_id (exit_strategy_id r)"
  by (simp add: is_exit_strategy_id_def exit_strategy_id_def)

lemma exit_sizing_price_bounds:
  assumes "0 < m"
  shows "0 < exit_sizing_price_usd s m" "exit_sizing_price_usd s m \<le> m"
proof -
  have "0 \<le> max 0 (cfg_paper_slippage_bps s) / 10000" by simp
  then have "m * (1 - max 0 (cfg_paper_slippage_bps s) / 10000) \<le> m"
    using assms by (simp add: algebra_simps)
  with assms show "0 < exit_sizing_price_usd s m" "exit_sizing_price_usd s m \<le> m"
    by (simp_all add: exit_sizing_price_usd_def Let_def)
qed

lemma evaluate_exits_Some:
  assumes "evaluate_position_exits s a p m now bar conf rg = Some x"
  shows "cfg_trading_mode s \<noteq> TM_live" "0 < m" "0 < hp_quantity p" "es_side x = SELL"
    "es_asset x = upper a"
    "es_requested_notional_usd x = hp_quantity p * exit_sizing_price_usd s m"
    "first_fired_reason s p m (hp_average_cost_usd p) now bar conf rg SELL = Some (es_reason x)"
    "es_entry_price_usd x = hp_average_cost_usd p" "es_mark_price_usd x = m"
proof -
  from assms have pos: "position_exits_active s" "0 < m" "0 < hp_quantity p"
    by (auto simp: evaluate_position_exits_def split: if_splits)
  then have "0 < hp_quantity p * m" by simp
  with pos assms show "cfg_trading_mode s \<noteq> TM_live" "0 < m" "0 < hp_quantity p" "es_side x = SELL"
    "es_asset x = upper a"
    "es_requested_notional_usd x = hp_quantity p * exit_sizing_price_usd s m"
    "first_fired_reason s p m (hp_average_cost_usd p) now bar conf rg SELL = Some (es_reason x)"
    "es_entry_price_usd x = hp_average_cost_usd p" "es_mark_price_usd x = m"
    by (auto simp: evaluate_position_exits_def reducing_side_def position_exits_active_def Let_def
        split: if_splits option.splits)
qed

text \<open>
  A protective exit is always a sale of a long position, never in live mode, and its size
  can be executed: at any price not below the sizing price (the mark less the configured adverse
  slippage, when that is positive) the requested notional buys back at most the held quantity, so
  the exit can neither oversell nor be empty.
\<close>

theorem exit_never_oversells:
  assumes "evaluate_position_exits s a p m now bar conf rg = Some x"
    and "exit_sizing_price_usd s m \<le> price"
  shows "es_side x = SELL \<and> cfg_trading_mode s \<noteq> TM_live
    \<and> 0 < es_requested_notional_usd x
    \<and> es_requested_notional_usd x \<le> hp_quantity p * m
    \<and> es_requested_notional_usd x / price \<le> hp_quantity p"
proof -
  note x = evaluate_exits_Some [OF assms(1)]
  note z = exit_sizing_price_bounds [OF x(2), of s]
  have "hp_quantity p * exit_sizing_price_usd s m / price \<le> hp_quantity p"
    using z x(3) assms(2) by (simp add: divide_le_eq mult_left_mono)
  with x z show ?thesis by (simp add: mult_left_mono)
qed

definition ex_held :: held_position where
  "ex_held = \<lparr>hp_quantity = 2, hp_average_cost_usd = 100, hp_exposure_usd = 180,
     hp_opened_at = Some 0, hp_high_water_price_usd = 100, hp_entry_strategy_id = None\<rparr>"

lemma ex_exit:
  "evaluate_position_exits default_settings ''btc'' ex_held 90 5 3600 None None =
     Some \<lparr>es_reason = EX_STOP_LOSS, es_asset = upper ''btc'', es_side = SELL,
       es_requested_notional_usd = 2 * exit_sizing_price_usd default_settings 90,
       es_mark_price_usd = 90, es_entry_price_usd = 100\<rparr>"
  by (simp add: evaluate_position_exits_def ex_held_def position_exits_active_def
      position_exits_enabled_by_settings_def reducing_side_def first_fired_reason_def
      stop_loss_fired_def)

theorem exit_never_oversells_witness:
  "\<exists>x. evaluate_position_exits default_settings ''btc'' ex_held 90 5 3600 None None = Some x
     \<and> es_requested_notional_usd x / 90 \<le> 2"
  using exit_never_oversells [OF ex_exit, of 90] exit_sizing_price_bounds [of 90 default_settings] ex_exit
  by (auto simp: ex_held_def)

text \<open>
  The reason reported is the first rule in the fixed protective priority whose condition
  holds: a stop-loss, when configured and breached, is never masked by another rule, and an exit
  fires for an open long position exactly when some rule does.
\<close>

theorem exit_priority:
  assumes "position_exits_active s" and "0 < m" and "0 < hp_quantity p" and "0 < hp_average_cost_usd p"
  shows "(evaluate_position_exits s a p m now bar conf rg \<noteq> None \<longleftrightarrow>
        stop_loss_fired s m (hp_average_cost_usd p) SELL
        \<or> trailing_stop_fired s p m (hp_average_cost_usd p) SELL
        \<or> take_profit_fired s m (hp_average_cost_usd p) SELL
        \<or> time_stop_fired s p now bar \<or> thesis_invalidated s p conf rg SELL)
    \<and> (0 < cfg_exit_stop_loss_pct s \<longrightarrow> m \<le> hp_average_cost_usd p * (1 - cfg_exit_stop_loss_pct s) \<longrightarrow>
        (\<exists>x. evaluate_position_exits s a p m now bar conf rg = Some x \<and> es_reason x = EX_STOP_LOSS))"
proof -
  have f: "first_fired_reason s p m (hp_average_cost_usd p) now bar conf rg SELL = None \<longleftrightarrow>
      \<not> (stop_loss_fired s m (hp_average_cost_usd p) SELL
        \<or> trailing_stop_fired s p m (hp_average_cost_usd p) SELL
        \<or> take_profit_fired s m (hp_average_cost_usd p) SELL
        \<or> time_stop_fired s p now bar \<or> thesis_invalidated s p conf rg SELL)"
    by (simp add: first_fired_reason_def)
  have ev: "evaluate_position_exits s a p m now bar conf rg =
      (case first_fired_reason s p m (hp_average_cost_usd p) now bar conf rg SELL of
         None \<Rightarrow> None
       | Some r \<Rightarrow> Some \<lparr>es_reason = r, es_asset = upper a, es_side = SELL,
           es_requested_notional_usd = hp_quantity p * exit_sizing_price_usd s m,
           es_mark_price_usd = m, es_entry_price_usd = hp_average_cost_usd p\<rparr>)"
    using assms by (simp add: evaluate_position_exits_def reducing_side_def Let_def mult_le_0_iff)
  have "evaluate_position_exits s a p m now bar conf rg \<noteq> None \<longleftrightarrow>
      first_fired_reason s p m (hp_average_cost_usd p) now bar conf rg SELL \<noteq> None"
    by (simp add: ev split: option.splits)
  moreover have "\<exists>x. evaluate_position_exits s a p m now bar conf rg = Some x \<and> es_reason x = EX_STOP_LOSS"
    if "0 < cfg_exit_stop_loss_pct s" "m \<le> hp_average_cost_usd p * (1 - cfg_exit_stop_loss_pct s)"
    using that by (simp add: ev first_fired_reason_def stop_loss_fired_def)
  ultimately show ?thesis unfolding f not_not by (intro conjI impI) assumption+
qed

theorem exit_priority_witness:
  "evaluate_position_exits default_settings ''btc'' ex_held 97 5 3600 None None \<noteq> None"
  using exit_priority [of default_settings 97 ex_held "''btc''" 5 3600 None None]
  by (simp add: position_exits_active_def position_exits_enabled_by_settings_def ex_held_def
      stop_loss_fired_def)

end
