(* ===== verification/Risk.thy ===== *)
theory Risk
  imports Kill_Switch Circuit_Breaker Exits Features
begin

text \<open>
  The deterministic risk engine (\<open>risk.py\<close>) and the GARCH size factor it uses (\<open>garch.py\<close>).
  The reason strings are the constructors of \<open>risk_reason\<close>. Consulting the circuit breaker may
  clear an expired trip, so \<open>evaluate\<close> returns the breaker it leaves behind. SHA-256 of the
  canonical JSON of the policy fields is the parameter \<open>digest\<close>.
\<close>

section \<open>Policy version\<close>

definition risk_limit_fields :: "settings \<Rightarrow> json dict" where
  "risk_limit_fields s = [
     (''mvp_assets'', JStr (cfg_mvp_assets s)),
     (''max_position_pct'', JFloat (Fin (cfg_max_position_pct s))),
     (''max_daily_loss_pct'', JFloat (Fin (cfg_max_daily_loss_pct s))),
     (''max_account_drawdown_pct'', JFloat (Fin (cfg_max_account_drawdown_pct s))),
     (''max_open_positions'', JInt (int (cfg_max_open_positions s))),
     (''min_cash_reserve_pct'', JFloat (Fin (cfg_min_cash_reserve_pct s))),
     (''max_gross_exposure_pct'', JFloat (Fin (cfg_max_gross_exposure_pct s))),
     (''max_portfolio_state_age_seconds'', JFloat (Fin (cfg_max_portfolio_state_age_seconds s))),
     (''risk_max_spread_bps'', JFloat (Fin (cfg_risk_max_spread_bps s))),
     (''volatility_sizing_enabled'', JBool (cfg_volatility_sizing_enabled s)),
     (''target_volatility'', JFloat (Fin (cfg_target_volatility s))),
     (''paper_garch_size'', JBool (cfg_paper_garch_size s)),
     (''paper_garch_target_vol'', JFloat (Fin (cfg_paper_garch_target_vol s))),
     (''strategy_max_consecutive_losses'', JInt (int (cfg_strategy_max_consecutive_losses s))),
     (''strategy_drawdown_window'', JInt (int (cfg_strategy_drawdown_window s))),
     (''strategy_max_rolling_drawdown_pct'', JFloat (Fin (cfg_strategy_max_rolling_drawdown_pct s))),
     (''strategy_breaker_cooldown_seconds'', JFloat (Fin (cfg_strategy_breaker_cooldown_seconds s))),
     (''kill_switch'', JBool (cfg_kill_switch s)),
     (''kill_switch_file'', JStr (cfg_kill_switch_file s)),
     (''kill_switch_redis_key'', JStr (cfg_kill_switch_redis_key s)),
     (''kill_switch_redis_enabled'', JBool (cfg_kill_switch_redis_enabled s))]"

definition control_plane_fields :: "settings \<Rightarrow> json dict" where
  "control_plane_fields s = [
     (''pretrade_backtest_enabled'', JBool (cfg_pretrade_backtest_enabled s)),
     (''pretrade_candle_interval'', JStr (cfg_pretrade_candle_interval s)),
     (''pretrade_candle_count'', JInt (int (cfg_pretrade_candle_count s))),
     (''pretrade_min_candles'', JInt (int (cfg_pretrade_min_candles s))),
     (''pretrade_max_candle_age_seconds'', JFloat (Fin (cfg_pretrade_max_candle_age_seconds s))),
     (''pretrade_min_excess_return'', JFloat (Fin (cfg_pretrade_min_excess_return s))),
     (''pretrade_max_drawdown_pct'', JFloat (Fin (cfg_pretrade_max_drawdown_pct s))),
     (''pretrade_min_sharpe'', JFloat (Fin (cfg_pretrade_min_sharpe s))),
     (''pretrade_min_trades'', JInt (int (cfg_pretrade_min_trades s))),
     (''pretrade_require_walkforward'', JBool (cfg_pretrade_require_walkforward s)),
     (''pretrade_fee_bps'', JFloat (Fin (cfg_pretrade_fee_bps s))),
     (''pretrade_slippage_bps'', JFloat (Fin (cfg_pretrade_slippage_bps s))),
     (''max_spread_bps'', JFloat (Fin (cfg_max_spread_bps s))),
     (''max_reference_divergence_bps'', JFloat (Fin (cfg_max_reference_divergence_bps s))),
     (''max_market_data_age_seconds'', JFloat (Fin (cfg_max_market_data_age_seconds s))),
     (''execution_min_notional_usd'', JFloat (Fin (cfg_execution_min_notional_usd s))),
     (''execution_lot_step'', JFloat (Fin (cfg_execution_lot_step s))),
     (''execution_max_slippage_bps'', JFloat (Fin (cfg_execution_max_slippage_bps s))),
     (''max_nav_drift_bps'', JFloat (Fin (cfg_max_nav_drift_bps s))),
     (''robinhood_chain_max_notional_usd'', JFloat (Fin (cfg_robinhood_chain_max_notional_usd s))),
     (''robinhood_chain_max_gas_limit'', JInt (int (cfg_robinhood_chain_max_gas_limit s))),
     (''robinhood_chain_max_gas_price_gwei'', JFloat (Fin (cfg_robinhood_chain_max_gas_price_gwei s))),
     (''exit_stop_loss_pct'', JFloat (Fin (cfg_exit_stop_loss_pct s))),
     (''exit_take_profit_pct'', JFloat (Fin (cfg_exit_take_profit_pct s))),
     (''exit_trailing_stop_pct'', JFloat (Fin (cfg_exit_trailing_stop_pct s))),
     (''exit_time_stop_bars'', JInt (int (cfg_exit_time_stop_bars s))),
     (''exit_on_thesis_invalidation'', JBool (cfg_exit_on_thesis_invalidation s)),
     (''intelligence_required'', JBool (cfg_intelligence_required s)),
     (''intelligence_block_on_adverse_news'', JBool (cfg_intelligence_block_on_adverse_news s)),
     (''meta_agent_mode'', JStr (meta_agent_mode_str (cfg_meta_agent_mode s))),
     (''reconcile_interval_seconds'', JFloat (Fin (cfg_reconcile_interval_seconds s))),
     (''execution_submit_timeout_seconds'', JFloat (Fin (cfg_execution_submit_timeout_seconds s))),
     (''execution_max_retries'', JInt (int (cfg_execution_max_retries s))),
     (''robinhood_chain_allowed_routers'', JStr (cfg_robinhood_chain_allowed_routers s)),
     (''robinhood_chain_allowed_tokens'', JStr (cfg_robinhood_chain_allowed_tokens s)),
     (''trading_mode'', JStr (trading_mode_str (cfg_trading_mode s))),
     (''paper_simulate_fills'', JBool (cfg_paper_simulate_fills s)),
     (''paper_slippage_bps'', JFloat (Fin (cfg_paper_slippage_bps s))),
     (''onchain_regime_gate_enabled'', JBool (cfg_onchain_regime_gate_enabled s)),
     (''onchain_regime_max_percentile'', JFloat (Fin (cfg_onchain_regime_max_percentile s))),
     (''onchain_regime_source_asset'', JStr (cfg_onchain_regime_source_asset s))]"

definition risk_limits :: "settings \<Rightarrow> json dict" where
  "risk_limits s = risk_limit_fields s @ control_plane_fields s"

definition risk_limits_hash :: "(json dict \<Rightarrow> string) \<Rightarrow> settings \<Rightarrow> string" where
  "risk_limits_hash digest s = digest (risk_limits s)"

text \<open>\<open>label or settings.risk_policy_label\<close>: an empty label falls back to the settings.\<close>

definition resolved_label :: "settings \<Rightarrow> string option \<Rightarrow> string" where
  "resolved_label s label =
     (case label of
        Some l \<Rightarrow> if l \<noteq> [] then l else cfg_risk_policy_label s
      | None \<Rightarrow> cfg_risk_policy_label s)"

definition derive_policy_version :: "(json dict \<Rightarrow> string) \<Rightarrow> settings \<Rightarrow> string option \<Rightarrow> string" where
  "derive_policy_version digest s label =
     resolved_label s label @ ''+'' @ take 12 (risk_limits_hash digest s)"

section \<open>The engine\<close>

datatype risk_reason =
    RR_kill_switch_enabled
  | RR_stale_portfolio_state
  | RR_daily_loss_limit_reached
  | RR_account_drawdown_limit_reached
  | RR_gross_exposure_limit
  | RR_cash_reserve_breached
  | RR_max_positions_reached
  | RR_strategy_circuit_breaker
  | RR_asset_not_allowlisted
  | RR_spread_too_wide
  | RR_position_limit_reached
  | RR_sell_capped_to_position
  | RR_volatility_scaled
  | RR_garch_size_scaled
  | RR_position_size_reduced

record risk_engine =
  re_settings :: settings
  re_policy_label :: "string option"
  re_kill_switch :: "kill_switch option"
  re_circuit_breaker :: "circuit_breaker option"

definition halted :: "ks_env \<Rightarrow> risk_engine \<Rightarrow> bool" where
  "halted env e =
     (case re_kill_switch e of
        Some k \<Rightarrow> engaged env k
      | None \<Rightarrow> cfg_kill_switch (re_settings e))"

definition volatility_factor :: "risk_engine \<Rightarrow> asset_feature_vector \<Rightarrow> real" where
  "volatility_factor e f =
     (let observed = mf_volatility_z (fv_market f)
      in if observed \<le> 0 then 1 else min 1 (cfg_target_volatility (re_settings e) / observed))"

definition paper_risk_garch_factor :: "real option \<Rightarrow> real \<Rightarrow> real" where
  "paper_risk_garch_factor forecast target =
     (case forecast of
        None \<Rightarrow> 1
      | Some f \<Rightarrow> if f \<le> 0 \<or> target \<le> 0 then 1 else min 1 (target / f))"

definition garch_size_factor :: "risk_engine \<Rightarrow> asset_feature_vector \<Rightarrow> real" where
  "garch_size_factor e f =
     paper_risk_garch_factor (mf_garch_forecast_vol (fv_market f))
       (cfg_paper_garch_target_vol (re_settings e))"

definition risk_outcome ::
    "(json dict \<Rightarrow> string) \<Rightarrow> risk_engine \<Rightarrow> trade_proposal \<Rightarrow> risk_decision \<Rightarrow> real \<Rightarrow> risk_reason list
       \<Rightarrow> risk_reason risk_result" where
  "risk_outcome digest e p d approved reasons =
     \<lparr>rr_decision_id = tp_decision_id p, rr_decision = d, rr_approved_notional_usd = approved,
      rr_reasons = reasons,
      rr_policy_version = derive_policy_version digest (re_settings e) (re_policy_label e)\<rparr>"

definition existing_exposure :: "trade_proposal \<Rightarrow> portfolio_snapshot \<Rightarrow> real" where
  "existing_exposure p pf = dict_get_or (ps_asset_exposure_usd pf) (upper (tp_asset p)) 0"

definition risk_reducing :: "trade_proposal \<Rightarrow> portfolio_snapshot \<Rightarrow> bool" where
  "risk_reducing p pf \<longleftrightarrow> tp_side p = SELL \<and> 0 < existing_exposure p pf"

text \<open>
  The two lists the method appends to: the reasons reported and those that block. \<open>flag c b r\<close>
  is \<open>if c: reasons.append(r); if b: blocking_reasons.append(r)\<close>.
\<close>

type_synonym findings = "risk_reason list \<times> risk_reason list"

definition flag :: "bool \<Rightarrow> bool \<Rightarrow> risk_reason \<Rightarrow> findings \<Rightarrow> findings" where
  "flag c b r fs = (if c then (fst fs @ [r], if b then snd fs @ [r] else snd fs) else fs)"

definition gross_room :: "settings \<Rightarrow> portfolio_snapshot \<Rightarrow> real" where
  "gross_room s pf =
     ps_nav_usd pf * cfg_max_gross_exposure_pct s - py_sum (dict_vals (ps_asset_exposure_usd pf))"

definition cash_room :: "settings \<Rightarrow> portfolio_snapshot \<Rightarrow> real" where
  "cash_room s pf = ps_cash_usd pf - ps_nav_usd pf * cfg_min_cash_reserve_pct s"

definition held_assets :: "portfolio_snapshot \<Rightarrow> string list" where
  "held_assets pf = map fst (filter (\<lambda>(name, exposure). 0 < exposure) (ps_asset_exposure_usd pf))"

definition account_findings :: "settings \<Rightarrow> datetime \<Rightarrow> trade_proposal \<Rightarrow> portfolio_snapshot \<Rightarrow> findings" where
  "account_findings s now p pf =
     (let reducing = risk_reducing p pf;
          fs1 = flag (cfg_max_portfolio_state_age_seconds s < total_seconds (now - ps_observed_at pf))
                  True RR_stale_portfolio_state ([], []);
          fs2 = flag (ps_daily_pnl_usd pf \<le> - (ps_nav_usd pf * cfg_max_daily_loss_pct s))
                  (\<not> reducing) RR_daily_loss_limit_reached fs1;
          fs3 = flag (cfg_max_account_drawdown_pct s \<le> 1 - ps_nav_usd pf / ps_peak_nav_usd pf)
                  (\<not> reducing) RR_account_drawdown_limit_reached fs2
      in if reducing then fs3
         else
           flag (upper (tp_asset p) \<notin> set (held_assets pf)
                   \<and> cfg_max_open_positions s \<le> length (held_assets pf))
             True RR_max_positions_reached
             (flag (cash_room s pf \<le> 0) True RR_cash_reserve_breached
               (flag (gross_room s pf \<le> 0) True RR_gross_exposure_limit fs3)))"

definition consult_breaker ::
    "datetime \<Rightarrow> trade_proposal \<Rightarrow> circuit_breaker option \<Rightarrow> bool \<times> circuit_breaker option" where
  "consult_breaker now p cb =
     (case cb of
        None \<Rightarrow> (False, None)
      | Some b \<Rightarrow>
          if is_exit_strategy_id (tp_strategy_id p) then (False, Some b)
          else (let (t, b') = is_tripped (tp_strategy_id p) now b in (t, Some b')))"

definition venue_findings ::
    "settings \<Rightarrow> trade_proposal \<Rightarrow> asset_feature_vector option \<Rightarrow> findings \<Rightarrow> findings" where
  "venue_findings s p features fs =
     flag (case features of
             None \<Rightarrow> False
           | Some f \<Rightarrow> cfg_risk_max_spread_bps s < mf_spread_bps (fv_market f))
       True RR_spread_too_wide
       (flag (upper (tp_asset p) \<notin> set (assets s)) True RR_asset_not_allowlisted fs)"

definition size_reducing_exit ::
    "(json dict \<Rightarrow> string) \<Rightarrow> risk_engine \<Rightarrow> trade_proposal \<Rightarrow> portfolio_snapshot \<Rightarrow> findings
       \<Rightarrow> risk_reason risk_result" where
  "size_reducing_exit digest e p pf fs =
     (let requested = tp_requested_notional_usd p;
          approved = min requested (existing_exposure p pf);
          reasons = fst fs @ (if approved < requested then [RR_sell_capped_to_position] else [])
      in if snd fs \<noteq> [] then risk_outcome digest e p REJECT 0 reasons
         else risk_outcome digest e p (if approved = requested then ALLOW else REDUCE) approved reasons)"

definition scaled_request ::
    "risk_engine \<Rightarrow> trade_proposal \<Rightarrow> asset_feature_vector option \<Rightarrow> real \<times> risk_reason list" where
  "scaled_request e p features =
     (let s = re_settings e; requested = tp_requested_notional_usd p
      in case features of
           None \<Rightarrow> (requested, [])
         | Some f \<Rightarrow>
             (let vf = volatility_factor e f;
                  vol = (cfg_volatility_sizing_enabled s \<and> vf < 1);
                  requested1 = (if vol then requested * vf else requested);
                  gf = garch_size_factor e f;
                  gar = (paper_garch_size_active s \<and> gf < 1);
                  requested2 = (if gar then requested1 * gf else requested1)
              in (requested2, (if vol then [RR_volatility_scaled] else [])
                            @ (if gar then [RR_garch_size_scaled] else []))))"

definition size_addition ::
    "(json dict \<Rightarrow> string) \<Rightarrow> risk_engine \<Rightarrow> trade_proposal \<Rightarrow> portfolio_snapshot
       \<Rightarrow> asset_feature_vector option \<Rightarrow> findings \<Rightarrow> risk_reason risk_result" where
  "size_addition digest e p pf features fs0 =
     (let s = re_settings e;
          remaining = max 0 (ps_nav_usd pf * cfg_max_position_pct s - existing_exposure p pf);
          fs = flag (remaining \<le> 0) True RR_position_limit_reached fs0
      in if snd fs \<noteq> [] then risk_outcome digest e p REJECT 0 (fst fs)
         else
           (let (requested, scaled) = scaled_request e p features;
                approved = min requested (min remaining (min (gross_room s pf) (cash_room s pf)));
                d = (if approved = tp_requested_notional_usd p then ALLOW else REDUCE);
                reasons = fst fs @ scaled @ (if d = REDUCE then [RR_position_size_reduced] else [])
            in risk_outcome digest e p d approved reasons))"

definition evaluate ::
    "(json dict \<Rightarrow> string) \<Rightarrow> ks_env \<Rightarrow> datetime \<Rightarrow> risk_engine \<Rightarrow> trade_proposal \<Rightarrow> portfolio_snapshot
       \<Rightarrow> asset_feature_vector option \<Rightarrow> risk_reason risk_result \<times> circuit_breaker option" where
  "evaluate digest env now e p pf features =
     (if halted env e
      then (risk_outcome digest e p REJECT 0 [RR_kill_switch_enabled], re_circuit_breaker e)
      else
        (let fs1 = account_findings (re_settings e) now p pf;
             (tripped, cb) = consult_breaker now p (re_circuit_breaker e);
             fs2 = flag tripped True RR_strategy_circuit_breaker fs1;
             fs3 = venue_findings (re_settings e) p features fs2
         in (if risk_reducing p pf then size_reducing_exit digest e p pf fs3
             else size_addition digest e p pf features fs3, cb)))"

section \<open>Blocking conditions\<close>

definition state_stale :: "settings \<Rightarrow> datetime \<Rightarrow> portfolio_snapshot \<Rightarrow> bool" where
  "state_stale s now pf \<longleftrightarrow>
     cfg_max_portfolio_state_age_seconds s < total_seconds (now - ps_observed_at pf)"

definition loss_limits_hit :: "settings \<Rightarrow> portfolio_snapshot \<Rightarrow> bool" where
  "loss_limits_hit s pf \<longleftrightarrow>
     ps_daily_pnl_usd pf \<le> - (ps_nav_usd pf * cfg_max_daily_loss_pct s)
   \<or> cfg_max_account_drawdown_pct s \<le> 1 - ps_nav_usd pf / ps_peak_nav_usd pf"

definition no_room :: "settings \<Rightarrow> trade_proposal \<Rightarrow> portfolio_snapshot \<Rightarrow> bool" where
  "no_room s p pf \<longleftrightarrow>
     gross_room s pf \<le> 0 \<or> cash_room s pf \<le> 0
   \<or> (upper (tp_asset p) \<notin> set (held_assets pf) \<and> cfg_max_open_positions s \<le> length (held_assets pf))
   \<or> ps_nav_usd pf * cfg_max_position_pct s \<le> existing_exposure p pf"

definition breaker_blocks :: "datetime \<Rightarrow> trade_proposal \<Rightarrow> risk_engine \<Rightarrow> bool" where
  "breaker_blocks now p e \<longleftrightarrow> fst (consult_breaker now p (re_circuit_breaker e))"

definition venue_blocks :: "settings \<Rightarrow> trade_proposal \<Rightarrow> asset_feature_vector option \<Rightarrow> bool" where
  "venue_blocks s p features \<longleftrightarrow>
     upper (tp_asset p) \<notin> set (assets s)
   \<or> (\<exists>f. features = Some f \<and> cfg_risk_max_spread_bps s < mf_spread_bps (fv_market f))"

definition blocked ::
    "datetime \<Rightarrow> risk_engine \<Rightarrow> trade_proposal \<Rightarrow> portfolio_snapshot \<Rightarrow> asset_feature_vector option \<Rightarrow> bool" where
  "blocked now e p pf features \<longleftrightarrow>
     state_stale (re_settings e) now pf \<or> breaker_blocks now p e \<or> venue_blocks (re_settings e) p features
   \<or> (\<not> risk_reducing p pf \<and> (loss_limits_hit (re_settings e) pf \<or> no_room (re_settings e) p pf))"

lemma snd_flag: "snd (flag c b r fs) = [] \<longleftrightarrow> snd fs = [] \<and> \<not> (c \<and> b)"
  by (simp add: flag_def)

lemma account_findings_ok:
  "snd (account_findings s now p pf) = [] \<longleftrightarrow>
     \<not> state_stale s now pf
   \<and> (risk_reducing p pf \<or> \<not> loss_limits_hit s pf \<and> 0 < gross_room s pf \<and> 0 < cash_room s pf
      \<and> \<not> (upper (tp_asset p) \<notin> set (held_assets pf) \<and> cfg_max_open_positions s \<le> length (held_assets pf)))"
  by (auto simp: account_findings_def Let_def snd_flag state_stale_def loss_limits_hit_def)

lemma venue_findings_ok:
  "snd (venue_findings s p features fs) = [] \<longleftrightarrow> snd fs = [] \<and> \<not> venue_blocks s p features"
  by (auto simp: venue_findings_def snd_flag venue_blocks_def split: option.splits)

lemma outcome_simps [simp]:
  "rr_decision (risk_outcome digest e p d a rs) = d"
  "rr_approved_notional_usd (risk_outcome digest e p d a rs) = a"
  "rr_reasons (risk_outcome digest e p d a rs) = rs"
  "rr_decision_id (risk_outcome digest e p d a rs) = tp_decision_id p"
  "rr_policy_version (risk_outcome digest e p d a rs)
     = derive_policy_version digest (re_settings e) (re_policy_label e)"
  by (simp_all add: risk_outcome_def)

section \<open>Sizing\<close>

lemma factor_bounds:
  assumes "settings_valid (re_settings e)"
  shows "0 < volatility_factor e f" "volatility_factor e f \<le> 1"
    "0 < garch_size_factor e f" "garch_size_factor e f \<le> 1"
proof -
  note v = settings_validD [OF assms]
  show "0 < volatility_factor e f" "volatility_factor e f \<le> 1"
    using v(5) by (auto simp: volatility_factor_def Let_def)
  show "0 < garch_size_factor e f" "garch_size_factor e f \<le> 1"
    using v(9) by (auto simp: garch_size_factor_def paper_risk_garch_factor_def split: option.splits)
qed

lemma scaled_request_bounds:
  assumes "settings_valid (re_settings e)" "proposal_valid p"
  shows "0 < fst (scaled_request e p features)"
    "fst (scaled_request e p features) \<le> tp_requested_notional_usd p"
proof -
  let ?r = "tp_requested_notional_usd p"
  have r: "0 < ?r" using assms(2) by (simp add: proposal_valid_def)
  have shrink: "0 < (if c then x * k else x) \<and> (if c then x * k else x) \<le> x"
    if "0 < x" "0 < k" "k \<le> 1" for c and x k :: real
    using that by (simp add: mult_le_cancel_left2)
  have "0 < fst (scaled_request e p features) \<and> fst (scaled_request e p features) \<le> ?r"
  proof (cases features)
    case None
    with r show ?thesis by (simp add: scaled_request_def Let_def)
  next
    case (Some f)
    let ?r1 = "if cfg_volatility_sizing_enabled (re_settings e) \<and> volatility_factor e f < 1
      then ?r * volatility_factor e f else ?r"
    let ?r2 = "if paper_garch_size_active (re_settings e) \<and> garch_size_factor e f < 1
      then ?r1 * garch_size_factor e f else ?r1"
    have r1: "0 < ?r1 \<and> ?r1 \<le> ?r" by (rule shrink [OF r factor_bounds(1,2) [OF assms(1)]])
    then have "0 < ?r2 \<and> ?r2 \<le> ?r1" by (intro shrink factor_bounds [OF assms(1)]) simp
    with r1 have "0 < ?r2 \<and> ?r2 \<le> ?r" by linarith
    with Some show ?thesis by (simp add: scaled_request_def Let_def)
  qed
  then show "0 < fst (scaled_request e p features)"
    "fst (scaled_request e p features) \<le> tp_requested_notional_usd p" by auto
qed

definition addition_room :: "settings \<Rightarrow> trade_proposal \<Rightarrow> portfolio_snapshot \<Rightarrow> real" where
  "addition_room s p pf =
     min (ps_nav_usd pf * cfg_max_position_pct s - existing_exposure p pf)
       (min (gross_room s pf) (cash_room s pf))"

text \<open>The engine's verdict, stated without its bookkeeping.\<close>

lemma evaluate_decision:
  assumes "\<not> halted env e"
  shows "blocked now e p pf features \<Longrightarrow>
      rr_decision (fst (evaluate digest env now e p pf features)) = REJECT
      \<and> rr_approved_notional_usd (fst (evaluate digest env now e p pf features)) = 0"
    and "\<not> blocked now e p pf features \<Longrightarrow> risk_reducing p pf \<Longrightarrow>
      rr_approved_notional_usd (fst (evaluate digest env now e p pf features))
        = min (tp_requested_notional_usd p) (existing_exposure p pf)
      \<and> rr_decision (fst (evaluate digest env now e p pf features))
        = (if tp_requested_notional_usd p \<le> existing_exposure p pf then ALLOW else REDUCE)"
    and "\<not> blocked now e p pf features \<Longrightarrow> \<not> risk_reducing p pf \<Longrightarrow>
      rr_approved_notional_usd (fst (evaluate digest env now e p pf features))
        = min (fst (scaled_request e p features)) (addition_room (re_settings e) p pf)
      \<and> rr_decision (fst (evaluate digest env now e p pf features))
        = (if min (fst (scaled_request e p features)) (addition_room (re_settings e) p pf)
              = tp_requested_notional_usd p then ALLOW else REDUCE)"
proof -
  let ?s = "re_settings e"
  obtain t cb where cb: "consult_breaker now p (re_circuit_breaker e) = (t, cb)"
    by (cases "consult_breaker now p (re_circuit_breaker e)")
  let ?fs = "venue_findings ?s p features (flag t True RR_strategy_circuit_breaker
    (account_findings ?s now p pf))"
  have ev: "fst (evaluate digest env now e p pf features) =
      (if risk_reducing p pf then size_reducing_exit digest e p pf ?fs
       else size_addition digest e p pf features ?fs)"
    using assms by (simp add: evaluate_def cb Let_def)
  have fs: "snd ?fs = [] \<longleftrightarrow> snd (account_findings ?s now p pf) = [] \<and> \<not> breaker_blocks now p e
      \<and> \<not> venue_blocks ?s p features"
    by (auto simp: venue_findings_ok snd_flag breaker_blocks_def cb)
  have red: "snd ?fs = [] \<longleftrightarrow> \<not> blocked now e p pf features" if "risk_reducing p pf"
    using that fs by (auto simp: account_findings_ok blocked_def)
  have add: "snd (flag (max 0 (ps_nav_usd pf * cfg_max_position_pct ?s - existing_exposure p pf) \<le> 0)
      True RR_position_limit_reached ?fs) = [] \<longleftrightarrow> \<not> blocked now e p pf features"
    if "\<not> risk_reducing p pf"
    using that fs by (auto simp: account_findings_ok blocked_def snd_flag no_room_def)
  show "blocked now e p pf features \<Longrightarrow>
      rr_decision (fst (evaluate digest env now e p pf features)) = REJECT
      \<and> rr_approved_notional_usd (fst (evaluate digest env now e p pf features)) = 0"
    using red add by (auto simp: ev size_reducing_exit_def size_addition_def Let_def)
  show "\<not> blocked now e p pf features \<Longrightarrow> risk_reducing p pf \<Longrightarrow>
      rr_approved_notional_usd (fst (evaluate digest env now e p pf features))
        = min (tp_requested_notional_usd p) (existing_exposure p pf)
      \<and> rr_decision (fst (evaluate digest env now e p pf features))
        = (if tp_requested_notional_usd p \<le> existing_exposure p pf then ALLOW else REDUCE)"
    using red by (auto simp: ev size_reducing_exit_def Let_def)
  assume nb: "\<not> blocked now e p pf features" "\<not> risk_reducing p pf"
  then have "0 < ps_nav_usd pf * cfg_max_position_pct ?s - existing_exposure p pf"
    by (auto simp: blocked_def no_room_def)
  with nb add show "rr_approved_notional_usd (fst (evaluate digest env now e p pf features))
        = min (fst (scaled_request e p features)) (addition_room ?s p pf)
      \<and> rr_decision (fst (evaluate digest env now e p pf features))
        = (if min (fst (scaled_request e p features)) (addition_room ?s p pf)
              = tp_requested_notional_usd p then ALLOW else REDUCE)"
    by (simp add: ev size_addition_def Let_def addition_room_def split_beta max_absorb2)
qed

lemma addition_room_pos:
  "\<not> blocked now e p pf features \<Longrightarrow> \<not> risk_reducing p pf \<Longrightarrow> 0 < addition_room (re_settings e) p pf"
  by (auto simp: blocked_def no_room_def addition_room_def)

lemma evaluate_halted:
  "halted env e \<Longrightarrow> evaluate digest env now e p pf features =
     (risk_outcome digest e p REJECT 0 [RR_kill_switch_enabled], re_circuit_breaker e)"
  by (simp add: evaluate_def)

lemma evaluate_approved:
  assumes "settings_valid (re_settings e)" "proposal_valid p"
  shows "(rr_decision (fst (evaluate digest env now e p pf features)) = REJECT \<longleftrightarrow>
        halted env e \<or> blocked now e p pf features)"
    and "rr_decision (fst (evaluate digest env now e p pf features)) = REJECT \<Longrightarrow>
        rr_approved_notional_usd (fst (evaluate digest env now e p pf features)) = 0"
    and "rr_decision (fst (evaluate digest env now e p pf features)) \<noteq> REJECT \<Longrightarrow>
        0 < rr_approved_notional_usd (fst (evaluate digest env now e p pf features))
        \<and> rr_approved_notional_usd (fst (evaluate digest env now e p pf features))
            \<le> tp_requested_notional_usd p"
    and "rr_decision (fst (evaluate digest env now e p pf features)) = ALLOW \<longleftrightarrow>
        rr_approved_notional_usd (fst (evaluate digest env now e p pf features))
            = tp_requested_notional_usd p"
proof -
  have r: "0 < tp_requested_notional_usd p" using assms(2) by (simp add: proposal_valid_def)
  note sc = scaled_request_bounds [OF assms, of features]
  let ?r = "fst (evaluate digest env now e p pf features)"
  consider (h) "halted env e" | (b) "\<not> halted env e" "blocked now e p pf features"
    | (x) "\<not> halted env e" "\<not> blocked now e p pf features" "risk_reducing p pf"
    | (a) "\<not> halted env e" "\<not> blocked now e p pf features" "\<not> risk_reducing p pf" by blast
  then have "(rr_decision ?r = REJECT \<longleftrightarrow> halted env e \<or> blocked now e p pf features)
    \<and> (rr_decision ?r = REJECT \<longrightarrow> rr_approved_notional_usd ?r = 0)
    \<and> (rr_decision ?r \<noteq> REJECT \<longrightarrow> 0 < rr_approved_notional_usd ?r
        \<and> rr_approved_notional_usd ?r \<le> tp_requested_notional_usd p)
    \<and> (rr_decision ?r = ALLOW \<longleftrightarrow> rr_approved_notional_usd ?r = tp_requested_notional_usd p)"
  proof cases
    case h
    with r show ?thesis by (simp add: evaluate_halted)
  next
    case b
    with evaluate_decision(1) [OF b(1,2)] r show ?thesis by simp
  next
    case x
    then have "0 < existing_exposure p pf" by (simp add: risk_reducing_def)
    with evaluate_decision(2) [OF x, of digest] x r show ?thesis by (auto simp: min_def)
  next
    case a
    from evaluate_decision(3) [OF a, of digest] addition_room_pos [OF a(2,3)] a sc r show ?thesis
      by auto
  qed
  then show "(rr_decision ?r = REJECT \<longleftrightarrow> halted env e \<or> blocked now e p pf features)"
    "rr_decision ?r = REJECT \<Longrightarrow> rr_approved_notional_usd ?r = 0"
    "rr_decision ?r \<noteq> REJECT \<Longrightarrow> 0 < rr_approved_notional_usd ?r
        \<and> rr_approved_notional_usd ?r \<le> tp_requested_notional_usd p"
    "rr_decision ?r = ALLOW \<longleftrightarrow> rr_approved_notional_usd ?r = tp_requested_notional_usd p"
    by blast+
qed

section \<open>Concrete inputs for the witnesses\<close>

definition ex_settings :: settings where
  "ex_settings = default_settings\<lparr>cfg_kill_switch := False\<rparr>"

definition ex_env :: ks_env where
  "ex_env = \<lparr>env_files = [], env_signal_engaged = False\<rparr>"

definition ex_engine :: risk_engine where
  "ex_engine = \<lparr>re_settings = ex_settings, re_policy_label = None, re_kill_switch = None,
     re_circuit_breaker = None\<rparr>"

definition ex_proposal :: "side \<Rightarrow> real \<Rightarrow> trade_proposal" where
  "ex_proposal sd n = \<lparr>tp_decision_id = ''d1'', tp_created_at = 0, tp_strategy_id = ''s'',
     tp_asset = ''BTC'', tp_side = sd, tp_confidence = 1 / 2, tp_requested_notional_usd = n,
     tp_thesis = [], tp_signal_ids = [], tp_source_freshness_seconds = 0, tp_signal_version = None\<rparr>"

definition ex_snapshot :: "real \<Rightarrow> portfolio_snapshot" where
  "ex_snapshot pnl = \<lparr>ps_nav_usd = 10000, ps_cash_usd = 9500, ps_daily_pnl_usd = pnl,
     ps_peak_nav_usd = 10000, ps_asset_exposure_usd = [(''BTC'', 500)], ps_observed_at = 0,
     ps_held_positions = []\<rparr>"

lemma ex_settings_valid: "settings_valid ex_settings"
  using default_settings_valid by (simp add: ex_settings_def settings_valid_def)

lemma ex_settings_fields [simp]:
  "cfg_kill_switch ex_settings = False" "cfg_max_position_pct ex_settings = 1 / 10"
  "cfg_max_daily_loss_pct ex_settings = 1 / 50" "cfg_max_account_drawdown_pct ex_settings = 1 / 10"
  "cfg_max_open_positions ex_settings = 5" "cfg_min_cash_reserve_pct ex_settings = 1 / 20"
  "cfg_max_gross_exposure_pct ex_settings = 3 / 5"
  "cfg_max_portfolio_state_age_seconds ex_settings = 60"
  "cfg_mvp_assets ex_settings = ''BTC,ETH,SOL''"
  by (simp_all add: ex_settings_def)

lemma ex_engine_settings [simp]: "re_settings ex_engine = ex_settings"
  by (simp add: ex_engine_def)

lemma ex_assets: "assets ex_settings = [''BTC'', ''ETH'', ''SOL'']"
  by (simp add: assets_def csv_tokens_def str_eval)

lemma ex_upper_BTC: "upper ''BTC'' = ''BTC''"
  by (simp add: str_eval)

lemma ex_proposal_valid: "0 < n \<Longrightarrow> proposal_valid (ex_proposal sd n)"
  by (simp add: ex_proposal_def proposal_valid_def)

lemma ex_existing: "existing_exposure (ex_proposal sd n) (ex_snapshot pnl) = 500"
  by (simp add: existing_exposure_def ex_proposal_def ex_snapshot_def dict_get_or_def ex_upper_BTC)

lemma ex_not_halted: "\<not> halted ex_env ex_engine"
  by (simp add: halted_def ex_engine_def)

lemma ex_sell_not_blocked: "\<not> blocked 0 ex_engine (ex_proposal SELL n) (ex_snapshot pnl) None"
  by (simp add: blocked_def state_stale_def ex_snapshot_def total_seconds_def breaker_blocks_def
      consult_breaker_def ex_engine_def venue_blocks_def ex_proposal_def ex_upper_BTC ex_assets
      risk_reducing_def existing_exposure_def dict_get_or_def)

lemma ex_buy_not_blocked: "\<not> blocked 0 ex_engine (ex_proposal BUY n) (ex_snapshot 0) None"
  by (simp add: blocked_def state_stale_def ex_snapshot_def total_seconds_def breaker_blocks_def
      consult_breaker_def ex_engine_def venue_blocks_def ex_proposal_def ex_upper_BTC ex_assets
      loss_limits_hit_def no_room_def gross_room_def cash_room_def held_assets_def
      existing_exposure_def dict_get_or_def)

section \<open>Properties of the risk engine\<close>

text \<open>
  C1: the verdict. For any valid proposal the engine rejects exactly when the kill switch halts
  or a blocking condition of the control hierarchy holds, a rejection approves nothing, and any
  other decision approves a positive amount that never exceeds the request; it is "allow" exactly
  when the full request is approved.
\<close>

theorem risk_verdict:
  assumes "settings_valid (re_settings e)" and "proposal_valid p"
  shows "let r = fst (evaluate digest env now e p pf features) in
      (rr_decision r = REJECT \<longleftrightarrow> halted env e \<or> blocked now e p pf features)
    \<and> (rr_decision r = REJECT \<longrightarrow> rr_approved_notional_usd r = 0)
    \<and> (rr_decision r \<noteq> REJECT \<longrightarrow> 0 < rr_approved_notional_usd r)
    \<and> rr_approved_notional_usd r \<le> tp_requested_notional_usd p
    \<and> (rr_decision r = ALLOW \<longleftrightarrow> rr_approved_notional_usd r = tp_requested_notional_usd p)"
proof -
  have "0 < tp_requested_notional_usd p" using assms(2) by (simp add: proposal_valid_def)
  with evaluate_approved [OF assms, of digest env now pf features] show ?thesis
    unfolding Let_def by (metis less_imp_le)
qed

theorem risk_verdict_witness:
  "0 < rr_approved_notional_usd (fst (evaluate (\<lambda>d. []) ex_env 0 ex_engine (ex_proposal BUY 100)
     (ex_snapshot 0) None))"
  using risk_verdict [of ex_engine "ex_proposal BUY 100" "\<lambda>d. []" ex_env 0 "ex_snapshot 0" None]
    ex_settings_valid ex_proposal_valid ex_not_halted ex_buy_not_blocked
  by (simp add: Let_def)

text \<open>
  C9: risk-adding orders respect every post-trade limit. If an order that is not risk-reducing
  is approved for \<open>a\<close> dollars, then after adding \<open>a\<close> the position stays within
  \<open>max_position_pct\<close> of NAV, gross exposure within \<open>max_gross_exposure_pct\<close>, cash at or above the
  reserve, the number of open positions within the maximum, the daily loss and drawdown limits are
  not hit, the portfolio view is fresh and the asset is on the allowlist.
\<close>

theorem risk_post_trade_limits:
  assumes "\<not> risk_reducing p pf"
    and "rr_decision (fst (evaluate digest env now e p pf features)) \<noteq> REJECT"
  shows "let a = rr_approved_notional_usd (fst (evaluate digest env now e p pf features)); s = re_settings e in
      existing_exposure p pf + a \<le> ps_nav_usd pf * cfg_max_position_pct s
    \<and> py_sum (dict_vals (ps_asset_exposure_usd pf)) + a \<le> ps_nav_usd pf * cfg_max_gross_exposure_pct s
    \<and> ps_nav_usd pf * cfg_min_cash_reserve_pct s \<le> ps_cash_usd pf - a
    \<and> (upper (tp_asset p) \<in> set (held_assets pf) \<or> length (held_assets pf) < cfg_max_open_positions s)
    \<and> - (ps_nav_usd pf * cfg_max_daily_loss_pct s) < ps_daily_pnl_usd pf
    \<and> 1 - ps_nav_usd pf / ps_peak_nav_usd pf < cfg_max_account_drawdown_pct s
    \<and> total_seconds (now - ps_observed_at pf) \<le> cfg_max_portfolio_state_age_seconds s
    \<and> upper (tp_asset p) \<in> set (assets s)
    \<and> \<not> halted env e"
proof -
  have h: "\<not> halted env e" using assms(2) by (auto simp: evaluate_halted)
  have b: "\<not> blocked now e p pf features" using assms(2) evaluate_decision(1) [OF h] by auto
  let ?a = "rr_approved_notional_usd (fst (evaluate digest env now e p pf features))"
  have "?a \<le> addition_room (re_settings e) p pf"
    using evaluate_decision(3) [OF h b assms(1)] by simp
  then have "?a \<le> ps_nav_usd pf * cfg_max_position_pct (re_settings e) - existing_exposure p pf"
    "?a \<le> gross_room (re_settings e) pf" "?a \<le> cash_room (re_settings e) pf"
    by (simp_all add: addition_room_def)
  with b assms(1) h show ?thesis
    by (simp add: blocked_def no_room_def loss_limits_hit_def state_stale_def venue_blocks_def
        gross_room_def cash_room_def Let_def not_le not_less algebra_simps)
qed

theorem risk_post_trade_limits_witness:
  "500 + rr_approved_notional_usd (fst (evaluate (\<lambda>d. []) ex_env 0 ex_engine (ex_proposal BUY 5000)
     (ex_snapshot 0) None)) \<le> 1000"
proof -
  have "rr_decision (fst (evaluate (\<lambda>d. []) ex_env 0 ex_engine (ex_proposal BUY 5000) (ex_snapshot 0) None))
      \<noteq> REJECT"
    using evaluate_approved(1) [of ex_engine "ex_proposal BUY 5000"] ex_settings_valid
      ex_proposal_valid ex_not_halted ex_buy_not_blocked by simp
  moreover have "\<not> risk_reducing (ex_proposal BUY 5000) (ex_snapshot 0)"
    by (simp add: risk_reducing_def ex_proposal_def)
  ultimately show ?thesis
    using risk_post_trade_limits [of "ex_proposal BUY 5000" "ex_snapshot 0" "\<lambda>d. []" ex_env 0 ex_engine None]
    by (simp add: Let_def ex_existing) (simp add: ex_snapshot_def)
qed

text \<open>
  C10: de-risking stays possible. A sale against existing exposure is never blocked by the daily
  loss, drawdown, gross, cash or position limits: unless the kill switch halts, the portfolio view
  is stale, the asset or spread is refused or the strategy is suspended (an exit strategy is never
  suspended), it is approved for the smaller of the request and the held exposure.
\<close>

theorem risk_reducing_sells_pass:
  assumes "risk_reducing p pf" and "\<not> halted env e" and "\<not> state_stale (re_settings e) now pf"
    and "\<not> venue_blocks (re_settings e) p features"
    and "is_exit_strategy_id (tp_strategy_id p) \<or> \<not> breaker_blocks now p e"
  shows "rr_approved_notional_usd (fst (evaluate digest env now e p pf features))
      = min (tp_requested_notional_usd p) (existing_exposure p pf)
    \<and> rr_decision (fst (evaluate digest env now e p pf features)) \<noteq> REJECT"
proof -
  have "\<not> breaker_blocks now p e"
    using assms(5) by (auto simp: breaker_blocks_def consult_breaker_def split: option.splits)
  with assms have "\<not> blocked now e p pf features" by (simp add: blocked_def)
  from evaluate_decision(2) [OF assms(2) this assms(1)] show ?thesis by simp
qed

theorem risk_reducing_sells_pass_witness:
  "rr_approved_notional_usd (fst (evaluate (\<lambda>d. []) ex_env 0 ex_engine (ex_proposal SELL 800)
     (ex_snapshot (-5000)) None)) = 500"
proof -
  have "risk_reducing (ex_proposal SELL 800) (ex_snapshot (-5000))"
    by (simp add: risk_reducing_def ex_existing) (simp add: ex_proposal_def)
  moreover have "\<not> state_stale ex_settings 0 (ex_snapshot (-5000))"
    by (simp add: state_stale_def ex_snapshot_def total_seconds_def)
  moreover have "\<not> venue_blocks ex_settings (ex_proposal SELL 800) None"
    by (simp add: venue_blocks_def ex_proposal_def ex_upper_BTC ex_assets)
  moreover have "\<not> breaker_blocks 0 (ex_proposal SELL 800) ex_engine"
    by (simp add: breaker_blocks_def consult_breaker_def ex_engine_def)
  ultimately show ?thesis
    using risk_reducing_sells_pass [of "ex_proposal SELL 800" "ex_snapshot (-5000)" ex_env ex_engine 0 None "\<lambda>d. []"]
      ex_not_halted
    by (simp add: ex_existing) (simp add: ex_proposal_def)
qed

section \<open>The policy version identifies the policy\<close>

text \<open>Agreement on every one of the 62 policy fields.\<close>

definition same_policy :: "settings \<Rightarrow> settings \<Rightarrow> bool" where
  "same_policy s t \<longleftrightarrow>
     cfg_mvp_assets s = cfg_mvp_assets t \<and>
     cfg_max_position_pct s = cfg_max_position_pct t \<and>
     cfg_max_daily_loss_pct s = cfg_max_daily_loss_pct t \<and>
     cfg_max_account_drawdown_pct s = cfg_max_account_drawdown_pct t \<and>
     cfg_max_open_positions s = cfg_max_open_positions t \<and>
     cfg_min_cash_reserve_pct s = cfg_min_cash_reserve_pct t \<and>
     cfg_max_gross_exposure_pct s = cfg_max_gross_exposure_pct t \<and>
     cfg_max_portfolio_state_age_seconds s = cfg_max_portfolio_state_age_seconds t \<and>
     cfg_risk_max_spread_bps s = cfg_risk_max_spread_bps t \<and>
     cfg_volatility_sizing_enabled s = cfg_volatility_sizing_enabled t \<and>
     cfg_target_volatility s = cfg_target_volatility t \<and>
     cfg_paper_garch_size s = cfg_paper_garch_size t \<and>
     cfg_paper_garch_target_vol s = cfg_paper_garch_target_vol t \<and>
     cfg_strategy_max_consecutive_losses s = cfg_strategy_max_consecutive_losses t \<and>
     cfg_strategy_drawdown_window s = cfg_strategy_drawdown_window t \<and>
     cfg_strategy_max_rolling_drawdown_pct s = cfg_strategy_max_rolling_drawdown_pct t \<and>
     cfg_strategy_breaker_cooldown_seconds s = cfg_strategy_breaker_cooldown_seconds t \<and>
     cfg_kill_switch s = cfg_kill_switch t \<and>
     cfg_kill_switch_file s = cfg_kill_switch_file t \<and>
     cfg_kill_switch_redis_key s = cfg_kill_switch_redis_key t \<and>
     cfg_kill_switch_redis_enabled s = cfg_kill_switch_redis_enabled t \<and>
     cfg_pretrade_backtest_enabled s = cfg_pretrade_backtest_enabled t \<and>
     cfg_pretrade_candle_interval s = cfg_pretrade_candle_interval t \<and>
     cfg_pretrade_candle_count s = cfg_pretrade_candle_count t \<and>
     cfg_pretrade_min_candles s = cfg_pretrade_min_candles t \<and>
     cfg_pretrade_max_candle_age_seconds s = cfg_pretrade_max_candle_age_seconds t \<and>
     cfg_pretrade_min_excess_return s = cfg_pretrade_min_excess_return t \<and>
     cfg_pretrade_max_drawdown_pct s = cfg_pretrade_max_drawdown_pct t \<and>
     cfg_pretrade_min_sharpe s = cfg_pretrade_min_sharpe t \<and>
     cfg_pretrade_min_trades s = cfg_pretrade_min_trades t \<and>
     cfg_pretrade_require_walkforward s = cfg_pretrade_require_walkforward t \<and>
     cfg_pretrade_fee_bps s = cfg_pretrade_fee_bps t \<and>
     cfg_pretrade_slippage_bps s = cfg_pretrade_slippage_bps t \<and>
     cfg_max_spread_bps s = cfg_max_spread_bps t \<and>
     cfg_max_reference_divergence_bps s = cfg_max_reference_divergence_bps t \<and>
     cfg_max_market_data_age_seconds s = cfg_max_market_data_age_seconds t \<and>
     cfg_execution_min_notional_usd s = cfg_execution_min_notional_usd t \<and>
     cfg_execution_lot_step s = cfg_execution_lot_step t \<and>
     cfg_execution_max_slippage_bps s = cfg_execution_max_slippage_bps t \<and>
     cfg_max_nav_drift_bps s = cfg_max_nav_drift_bps t \<and>
     cfg_robinhood_chain_max_notional_usd s = cfg_robinhood_chain_max_notional_usd t \<and>
     cfg_robinhood_chain_max_gas_limit s = cfg_robinhood_chain_max_gas_limit t \<and>
     cfg_robinhood_chain_max_gas_price_gwei s = cfg_robinhood_chain_max_gas_price_gwei t \<and>
     cfg_exit_stop_loss_pct s = cfg_exit_stop_loss_pct t \<and>
     cfg_exit_take_profit_pct s = cfg_exit_take_profit_pct t \<and>
     cfg_exit_trailing_stop_pct s = cfg_exit_trailing_stop_pct t \<and>
     cfg_exit_time_stop_bars s = cfg_exit_time_stop_bars t \<and>
     cfg_exit_on_thesis_invalidation s = cfg_exit_on_thesis_invalidation t \<and>
     cfg_intelligence_required s = cfg_intelligence_required t \<and>
     cfg_intelligence_block_on_adverse_news s = cfg_intelligence_block_on_adverse_news t \<and>
     cfg_meta_agent_mode s = cfg_meta_agent_mode t \<and>
     cfg_reconcile_interval_seconds s = cfg_reconcile_interval_seconds t \<and>
     cfg_execution_submit_timeout_seconds s = cfg_execution_submit_timeout_seconds t \<and>
     cfg_execution_max_retries s = cfg_execution_max_retries t \<and>
     cfg_robinhood_chain_allowed_routers s = cfg_robinhood_chain_allowed_routers t \<and>
     cfg_robinhood_chain_allowed_tokens s = cfg_robinhood_chain_allowed_tokens t \<and>
     cfg_trading_mode s = cfg_trading_mode t \<and>
     cfg_paper_simulate_fills s = cfg_paper_simulate_fills t \<and>
     cfg_paper_slippage_bps s = cfg_paper_slippage_bps t \<and>
     cfg_onchain_regime_gate_enabled s = cfg_onchain_regime_gate_enabled t \<and>
     cfg_onchain_regime_max_percentile s = cfg_onchain_regime_max_percentile t \<and>
     cfg_onchain_regime_source_asset s = cfg_onchain_regime_source_asset t"

lemma trading_mode_str_inj: "trading_mode_str a = trading_mode_str b \<longleftrightarrow> a = b"
  by (cases a; cases b) simp_all

lemma meta_agent_mode_str_inj: "meta_agent_mode_str a = meta_agent_mode_str b \<longleftrightarrow> a = b"
  by (cases a; cases b) simp_all

lemma risk_limits_same_policy: "risk_limits s = risk_limits t \<longleftrightarrow> same_policy s t"
  by (simp add: risk_limits_def risk_limit_fields_def control_plane_fields_def same_policy_def
      trading_mode_str_inj meta_agent_mode_str_inj)

text \<open>
  The policy version stamped on every decision identifies the policy. For a digest that does
  not collide (in its first twelve characters) on the two policies concerned, two engines report
  the same version exactly when their labels agree and every one of the 62 policy fields agrees;
  no other setting moves the version.
\<close>

theorem policy_version_identifies_policy:
  assumes "12 \<le> length (digest (risk_limits s))" and "12 \<le> length (digest (risk_limits t))"
    and "inj_on (\<lambda>d. take 12 (digest d)) {risk_limits s, risk_limits t}"
  shows "derive_policy_version digest s l = derive_policy_version digest t m \<longleftrightarrow>
    resolved_label s l = resolved_label t m \<and> same_policy s t"
proof -
  have "derive_policy_version digest s l = derive_policy_version digest t m \<longleftrightarrow>
      resolved_label s l = resolved_label t m
      \<and> take 12 (digest (risk_limits s)) = take 12 (digest (risk_limits t))"
    using assms(1,2) by (auto simp: derive_policy_version_def risk_limits_hash_def)
  also have "take 12 (digest (risk_limits s)) = take 12 (digest (risk_limits t)) \<longleftrightarrow>
      risk_limits s = risk_limits t"
    using inj_onD [OF assms(3), of "risk_limits s" "risk_limits t"] by (metis insertCI)
  finally show ?thesis by (simp add: risk_limits_same_policy)
qed

theorem policy_version_identifies_policy_witness:
  "derive_policy_version (\<lambda>d. replicate 64 CHR ''a'') ex_settings None
     = derive_policy_version (\<lambda>d. replicate 64 CHR ''a'') (ex_settings\<lparr>cfg_paper_fee_bps := 99\<rparr>) (Some ''mvp-v1'')"
proof -
  let ?t = "ex_settings\<lparr>cfg_paper_fee_bps := 99\<rparr>"
  have same: "same_policy ex_settings ?t" by (simp add: same_policy_def)
  then have "risk_limits ex_settings = risk_limits ?t" by (simp only: risk_limits_same_policy)
  then have "inj_on (\<lambda>d. take 12 ((\<lambda>d. replicate 64 CHR ''a'') d)) {risk_limits ex_settings, risk_limits ?t}"
    by (simp only: insert_absorb2) (rule inj_onI, simp only: singleton_iff)
  with policy_version_identifies_policy [of "\<lambda>d. replicate 64 CHR ''a''" ex_settings ?t None "Some ''mvp-v1''"] same
  show ?thesis by (simp add: resolved_label_def) (simp add: ex_settings_def)
qed

end
