(* ===== verification/Planner.thy ===== *)
theory Planner
  imports Domain
begin

text \<open>
  The execution planner (\<open>execution/planner.py\<close>) and the approved order intent it plans
  (\<open>PaperOrderIntent\<close> of \<open>pipeline.py\<close>). The BLAKE2s digests behind the client order id and the
  correlation id are the parameters \<open>h10\<close> and \<open>h16\<close> (hexadecimal text of 10 and 16 bytes).
  Decimal division and truncation are exact on real numbers.
\<close>

section \<open>Data\<close>

record paper_order_intent =
  in_decision_id :: string
  in_asset :: string
  in_side :: side
  in_notional_usd :: real
  in_venue :: string
  in_reduce_only :: bool

definition intent_valid :: "paper_order_intent \<Rightarrow> bool" where
  "intent_valid i \<longleftrightarrow> 0 < in_notional_usd i"

datatype plan_reason =
    ExecutionPriceNotPositive
  | ReferencePriceNotPositive
  | SlippageExceeded real real
  | QuantityRoundsToZero real
  | NothingHeldToReduce
  | CapRoundsToZero real real
  | ClampedBelowMinimum real real real
  | NotionalBelowMinimum real real

datatype plan_error = ExecutionPlanRejected plan_reason | ExitSizingRejected plan_reason

record execution_plan =
  xp_decision_id :: string
  xp_client_order_id :: string
  xp_correlation_id :: string
  xp_asset :: string
  xp_side :: side
  xp_venue :: string
  xp_trading_pair :: string
  xp_quantity :: real
  xp_execution_price_usd :: real
  xp_reference_price_usd :: real
  xp_notional_usd :: real
  xp_requested_notional_usd :: real
  xp_slippage_bps :: real

record execution_planner =
  pl_lot_step :: real
  pl_min_notional_usd :: real
  pl_max_slippage_bps :: real
  pl_quote_currency :: string
  pl_client_order_id_prefix :: string

text \<open>The constructor's checks (\<open>__post_init__\<close>): a planner that violates them never exists.\<close>

definition planner_ok :: "execution_planner \<Rightarrow> bool" where
  "planner_ok P \<longleftrightarrow>
     \<not> pl_lot_step P \<le> 0 \<and> \<not> pl_min_notional_usd P \<le> 0 \<and> \<not> pl_max_slippage_bps P < 0"

section \<open>Operations\<close>

definition client_order_id_for :: "(string \<Rightarrow> string) \<Rightarrow> string \<Rightarrow> string \<Rightarrow> string" where
  "client_order_id_for h10 decision_id prefix = prefix @ ''-'' @ h10 decision_id"

definition correlation_id_for :: "(string \<Rightarrow> string) \<Rightarrow> string \<Rightarrow> string" where
  "correlation_id_for h16 decision_id =
     (let digest = h16 decision_id
      in take 8 digest @ ''-'' @ take 4 (drop 8 digest) @ ''-'' @ take 4 (drop 12 digest)
         @ ''-'' @ take 4 (drop 16 digest) @ ''-'' @ take 12 (drop 20 digest))"

definition truncate_real :: "real \<Rightarrow> int" where
  "truncate_real x = (if 0 \<le> x then \<lfloor>x\<rfloor> else \<lceil>x\<rceil>)"

definition round_to_lot :: "execution_planner \<Rightarrow> real \<Rightarrow> real" where
  "round_to_lot P quantity = of_int (truncate_real (quantity / pl_lot_step P)) * pl_lot_step P"

text \<open>The reducing-only clamp: the quantity that may be planned, or why there is none.\<close>

definition clamp_quantity :: "execution_planner \<Rightarrow> real \<Rightarrow> real option \<Rightarrow> plan_error + real" where
  "clamp_quantity P quantity max_quantity =
     (case max_quantity of
        None \<Rightarrow> Inr quantity
      | Some cap \<Rightarrow>
          if cap \<le> 0 then Inl (ExitSizingRejected NothingHeldToReduce)
          else (let clamped = min quantity (round_to_lot P cap)
                in if clamped \<le> 0 then Inl (ExitSizingRejected (CapRoundsToZero cap (pl_lot_step P)))
                   else Inr clamped))"

definition plan ::
    "(string \<Rightarrow> string) \<Rightarrow> (string \<Rightarrow> string) \<Rightarrow> execution_planner \<Rightarrow> paper_order_intent \<Rightarrow> real \<Rightarrow> real
       \<Rightarrow> real option \<Rightarrow> plan_error + execution_plan" where
  "plan h10 h16 P i price ref max_quantity =
     (if price \<le> 0 then Inl (ExecutionPlanRejected ExecutionPriceNotPositive)
      else if ref \<le> 0 then Inl (ExecutionPlanRejected ReferencePriceNotPositive)
      else
        (let slippage = \<bar>price - ref\<bar> / ref * 10000
         in if pl_max_slippage_bps P < slippage
            then Inl (ExecutionPlanRejected (SlippageExceeded slippage (pl_max_slippage_bps P)))
            else
              (let quantity = round_to_lot P (in_notional_usd i / price)
               in if quantity \<le> 0
                  then Inl (ExecutionPlanRejected (QuantityRoundsToZero (pl_lot_step P)))
                  else case clamp_quantity P quantity max_quantity of
                    Inl err \<Rightarrow> Inl err
                  | Inr clamped \<Rightarrow>
                      (let notional = clamped * price
                       in if notional < pl_min_notional_usd P
                          then (if clamped < quantity
                                then Inl (ExitSizingRejected
                                       (ClampedBelowMinimum clamped notional (pl_min_notional_usd P)))
                                else Inl (ExecutionPlanRejected
                                       (NotionalBelowMinimum notional (pl_min_notional_usd P))))
                          else Inr \<lparr>xp_decision_id = in_decision_id i,
                                 xp_client_order_id =
                                   client_order_id_for h10 (in_decision_id i) (pl_client_order_id_prefix P),
                                 xp_correlation_id = correlation_id_for h16 (in_decision_id i),
                                 xp_asset = upper (in_asset i), xp_side = in_side i,
                                 xp_venue = in_venue i,
                                 xp_trading_pair = upper (in_asset i) @ ''-'' @ pl_quote_currency P,
                                 xp_quantity = clamped, xp_execution_price_usd = price,
                                 xp_reference_price_usd = ref, xp_notional_usd = notional,
                                 xp_requested_notional_usd = in_notional_usd i,
                                 xp_slippage_bps = slippage\<rparr>))))"

section \<open>The planner's contract\<close>

text \<open>
  What the submitter and the paper filler rely on. \<open>planning P i p r cap\<close> is a planner, \<open>ok\<close>
  says its configuration is legal.
\<close>

locale order_planner =
  fixes planning :: "'p \<Rightarrow> paper_order_intent \<Rightarrow> real \<Rightarrow> real \<Rightarrow> real option \<Rightarrow> plan_error + execution_plan"
    and ok :: "'p \<Rightarrow> bool"
  assumes plan_pos: "planning P i p r cap = Inr x \<Longrightarrow> 0 < xp_quantity x \<and> 0 < p \<and> 0 < r"
    and plan_size: "ok P \<Longrightarrow> planning P i p r cap = Inr x \<Longrightarrow> xp_quantity x * p \<le> in_notional_usd i"
    and plan_cap: "ok P \<Longrightarrow> planning P i p r (Some c) = Inr x \<Longrightarrow> xp_quantity x \<le> c"
    and plan_identity: "planning P i p r cap = Inr x \<Longrightarrow> planning P i' p' r' cap' = Inr x' \<Longrightarrow>
      in_decision_id i = in_decision_id i' \<Longrightarrow> xp_client_order_id x = xp_client_order_id x'"
    and plan_fields: "planning P i p r cap = Inr x \<Longrightarrow>
      xp_decision_id x = in_decision_id i \<and> xp_asset x = upper (in_asset i) \<and> xp_side x = in_side i
      \<and> xp_execution_price_usd x = p"
begin

lemma planned_quantity_bound:
  assumes "ok P" "planning P i p r cap = Inr x"
  shows "xp_quantity x \<le> in_notional_usd i / p"
  using plan_size [OF assms] plan_pos [OF assms(2)] by (simp add: pos_le_divide_eq)

lemma planned_sale_covered:
  assumes "ok P" "planning P i p r (Some held) = Inr x"
  shows "0 < xp_quantity x \<and> xp_quantity x \<le> held"
  using plan_pos [OF assms(2)] plan_cap [OF assms] by simp

end

section \<open>The planner satisfies its contract\<close>

lemma truncate_le: "0 \<le> x \<Longrightarrow> of_int (truncate_real x) \<le> x"
  by (simp add: truncate_real_def)

lemma round_to_lot_le:
  assumes "0 < pl_lot_step P" "0 \<le> q"
  shows "round_to_lot P q \<le> q" "0 \<le> round_to_lot P q" "q - pl_lot_step P < round_to_lot P q"
proof -
  let ?s = "pl_lot_step P"
  have "of_int \<lfloor>q / ?s\<rfloor> \<le> q / ?s" "q / ?s < of_int \<lfloor>q / ?s\<rfloor> + 1" by linarith+
  then have "of_int \<lfloor>q / ?s\<rfloor> * ?s \<le> q" "q < (of_int \<lfloor>q / ?s\<rfloor> + 1) * ?s"
    using assms(1) by (simp_all only: pos_le_divide_eq pos_divide_less_eq)
  moreover have "0 \<le> of_int \<lfloor>q / ?s\<rfloor> * ?s" using assms by simp
  moreover have "round_to_lot P q = of_int \<lfloor>q / ?s\<rfloor> * ?s"
    using assms by (simp add: round_to_lot_def truncate_real_def)
  ultimately show "round_to_lot P q \<le> q" "0 \<le> round_to_lot P q" "q - ?s < round_to_lot P q"
    by (simp_all add: algebra_simps)
qed

lemma clamp_Inr:
  assumes "clamp_quantity P q cap = Inr c" "0 < q"
  shows "0 < c" "c \<le> q" "cap = Some m \<Longrightarrow> c \<le> round_to_lot P m \<and> 0 < m"
  using assms by (auto simp: clamp_quantity_def Let_def split: option.splits if_splits)

lemma plan_Inr:
  assumes "plan h10 h16 P i p r cap = Inr x"
  shows "0 < p" "0 < r" "0 < round_to_lot P (in_notional_usd i / p)"
    "clamp_quantity P (round_to_lot P (in_notional_usd i / p)) cap = Inr (xp_quantity x)"
    "pl_min_notional_usd P \<le> xp_quantity x * p" "xp_notional_usd x = xp_quantity x * p"
    "\<bar>p - r\<bar> / r * 10000 \<le> pl_max_slippage_bps P"
    "xp_client_order_id x = client_order_id_for h10 (in_decision_id i) (pl_client_order_id_prefix P)"
    "xp_decision_id x = in_decision_id i" "xp_asset x = upper (in_asset i)" "xp_side x = in_side i"
    "xp_execution_price_usd x = p" "xp_trading_pair x = upper (in_asset i) @ ''-'' @ pl_quote_currency P"
  using assms by (auto simp: plan_def Let_def split: if_splits sum.splits)

lemma plan_quantity:
  assumes "planner_ok P" "plan h10 h16 P i p r cap = Inr x"
  shows "0 < xp_quantity x" "xp_quantity x * p \<le> in_notional_usd i"
    "cap = Some c \<Longrightarrow> xp_quantity x \<le> c"
proof -
  note pi = plan_Inr [OF assms(2)]
  have step: "0 < pl_lot_step P" using assms(1) by (simp add: planner_ok_def)
  show "0 < xp_quantity x" using clamp_Inr(1) [OF pi(4,3)] .
  have n: "0 \<le> in_notional_usd i / p"
  proof (rule ccontr)
    assume neg: "\<not> 0 \<le> in_notional_usd i / p"
    then have "in_notional_usd i / p / pl_lot_step P < 0"
      using step by (simp only: not_le) (rule divide_neg_pos)
    then have "truncate_real (in_notional_usd i / p / pl_lot_step P) \<le> 0"
      by (simp add: truncate_real_def ceiling_le_zero)
    then have "round_to_lot P (in_notional_usd i / p) \<le> 0"
      using step by (simp add: round_to_lot_def mult_le_0_iff)
    with pi(3) show False by simp
  qed
  have "xp_quantity x \<le> in_notional_usd i / p"
    using clamp_Inr(2) [OF pi(4,3)] round_to_lot_le(1) [OF step n] by linarith
  then show "xp_quantity x * p \<le> in_notional_usd i" using pi(1) by (simp add: pos_le_divide_eq)
  assume "cap = Some c"
  with clamp_Inr(3) [OF pi(4,3) this] round_to_lot_le(1) [OF step, of c] show "xp_quantity x \<le> c"
    by linarith
qed

interpretation pl: order_planner "plan h10 h16" planner_ok for h10 h16
proof
  show "plan h10 h16 P i p r cap = Inr x \<Longrightarrow> 0 < xp_quantity x \<and> 0 < p \<and> 0 < r" for P i p r cap x
    using clamp_Inr(1) [of P "round_to_lot P (in_notional_usd i / p)" cap "xp_quantity x"]
      plan_Inr(1-4) [of h10 h16 P i p r cap x] by simp
  show "planner_ok P \<Longrightarrow> plan h10 h16 P i p r cap = Inr x \<Longrightarrow> xp_quantity x * p \<le> in_notional_usd i"
    for P i p r cap x by (rule plan_quantity)
  show "planner_ok P \<Longrightarrow> plan h10 h16 P i p r (Some c) = Inr x \<Longrightarrow> xp_quantity x \<le> c"
    for P i p r c x by (rule plan_quantity(3)) simp_all
qed (auto simp: plan_Inr)

section \<open>Properties\<close>

text \<open>
  C26: a planned order is never larger than what was approved: its quantity is a positive whole
  number of lots, at most the approved notional at the execution price and at most the
  reducing-only cap; its notional is at least the minimum and at most the approved amount; the
  execution price is within the slippage bound of the validated price.
\<close>

theorem plan_respects_limits:
  assumes "planner_ok P" and "plan h10 h16 P i p r cap = Inr x"
  shows "0 < xp_quantity x
    \<and> xp_quantity x \<le> in_notional_usd i / p
    \<and> (\<forall>c. cap = Some c \<longrightarrow> xp_quantity x \<le> c)
    \<and> (\<exists>n :: int. xp_quantity x = of_int n * pl_lot_step P)
    \<and> pl_min_notional_usd P \<le> xp_notional_usd x \<and> xp_notional_usd x \<le> in_notional_usd i
    \<and> \<bar>p - r\<bar> / r * 10000 \<le> pl_max_slippage_bps P"
proof -
  note pi = plan_Inr [OF assms(2)]
  have "xp_quantity x \<in> {round_to_lot P (in_notional_usd i / p), round_to_lot P (the cap)}"
    using pi(4) by (auto simp: clamp_quantity_def Let_def min_def split: option.splits if_splits)
  then have "\<exists>n :: int. xp_quantity x = of_int n * pl_lot_step P"
    unfolding round_to_lot_def by blast
  with pl.planned_quantity_bound [OF assms] plan_quantity [OF assms] pi show ?thesis by auto
qed

definition ex_planner :: execution_planner where
  "ex_planner = \<lparr>pl_lot_step = 1 / 10, pl_min_notional_usd = 10, pl_max_slippage_bps = 50,
     pl_quote_currency = ''USD'', pl_client_order_id_prefix = ''ts''\<rparr>"

definition ex_intent :: "side \<Rightarrow> paper_order_intent" where
  "ex_intent sd = \<lparr>in_decision_id = ''d1'', in_asset = ''BTC'', in_side = sd, in_notional_usd = 105,
     in_venue = ''kraken_paper_trade'', in_reduce_only = (sd = SELL)\<rparr>"

lemma ex_planner_ok: "planner_ok ex_planner"
  by (simp add: ex_planner_def planner_ok_def)

lemma ex_plan:
  "\<exists>x. plan h10 h16 ex_planner (ex_intent SELL) 100 100 (Some (1 / 2)) = Inr x \<and> xp_quantity x = 1 / 2"
  by (simp add: plan_def ex_planner_def ex_intent_def clamp_quantity_def round_to_lot_def
      truncate_real_def floor_eq_iff Let_def)

theorem plan_respects_limits_witness:
  "\<exists>x. plan (\<lambda>d. d) (\<lambda>d. d) ex_planner (ex_intent SELL) 100 100 (Some (1 / 2)) = Inr x
     \<and> xp_quantity x \<le> 1 / 2"
proof -
  obtain x where x: "plan (\<lambda>d. d) (\<lambda>d. d) ex_planner (ex_intent SELL) 100 100 (Some (1 / 2)) = Inr x"
    using ex_plan by blast
  from plan_respects_limits [OF ex_planner_ok x] have "xp_quantity x \<le> 1 / 2" by blast
  with x show ?thesis by blast
qed

end
