(* ===== verification/Pipeline.thy ===== *)
theory Pipeline
  imports Market Intelligence Garch Pretrade Risk Planner
begin

text \<open>
  One decision cycle: the candle feature builder (\<open>market_features.py\<close>) and the vertical slice
  from a market tick to a paper order (\<open>pipeline.py\<close>). \<open>new_id\<close> is the fresh decision id, \<open>clock\<close>
  what \<open>datetime.now\<close> returns where the code does not pass \<open>now\<close> on, and \<open>render\<close> formats a
  thesis. The outer option of \<open>process\<close> is the walk-forward loop inside the pre-trade gate, which
  always returns.
\<close>

section \<open>Candle features\<close>

record feature_builder =
  fb_trend_4h_lookback :: nat
  fb_trend_1d_lookback :: nat
  fb_volatility_lookback :: nat
  fb_volume_lookback :: nat
  fb_garch_enabled :: bool
  fb_garch_min_train :: nat
  fb_garch_target_vol_ann :: real

definition garch_forecast_vol :: "feature_builder \<Rightarrow> candle list \<Rightarrow> real option" where
  "garch_forecast_vol b cs =
     (if \<not> fb_garch_enabled b then None
      else case (candle_returns cs, periods_per_year (c_interval (hd cs))) of
             (Some rs, Some p) \<Rightarrow>
               (case one_step_forecast
                       \<lparr>wc_periods = p, wc_min_train = fb_garch_min_train b, wc_refit_every = 21,
                        wc_target_vol_ann = fb_garch_target_vol_ann b, wc_min_size = 1/4, wc_max_size = 2,
                        wc_regime_lookback = 365\<rparr> rs of
                  Some (Some f) \<Rightarrow> Some (gf_vol_ann f)
                | _ \<Rightarrow> None)
           | _ \<Rightarrow> None)"

definition market_features_of ::
    "real \<Rightarrow> real \<Rightarrow> real \<Rightarrow> real \<Rightarrow> real \<Rightarrow> real option \<Rightarrow> py_error + market_features" where
  "market_features_of t4 t1 volatility volume spread garch =
     (let m = \<lparr>mf_trend_4h = t4, mf_trend_1d = t1, mf_volatility_z = volatility,
            mf_relative_volume = volume, mf_spread_bps = spread, mf_garch_forecast_vol = garch,
            mf_external_signal_score = None, mf_external_signal_source = None\<rparr>
      in if market_valid m then Inr m else Inl ValueError)"

definition build_features :: "feature_builder \<Rightarrow> candle list \<Rightarrow> real \<Rightarrow> py_error + market_features" where
  "build_features b cs spread =
     (if length cs < max (fb_trend_4h_lookback b + 1) (max (fb_trend_1d_lookback b + 1)
           (max (fb_volatility_lookback b + 1) (fb_volume_lookback b)))
      then Inl ValueError
      else
        bindr (of_value_error (momentum cs (fb_trend_4h_lookback b))) (\<lambda>m4.
        bindr (of_value_error (momentum cs (fb_trend_1d_lookback b))) (\<lambda>m1.
        bindr (of_value_error (realized_volatility cs (fb_volatility_lookback b))) (\<lambda>volatility.
        bindr (of_value_error (volume_ratio cs (fb_volume_lookback b))) (\<lambda>volume.
        market_features_of (clamp1 (m4 * 10)) (clamp1 (m1 * 5)) volatility volume spread
          (garch_forecast_vol b cs))))))"

section \<open>Data\<close>

record pipeline_result =
  pr_accepted_market_data :: bool
  pr_rejection_reasons :: "string list"
  pr_feature_vector :: "asset_feature_vector option"
  pr_pretrade_check :: "pretrade_check option"
  pr_proposal :: "trade_proposal option"
  pr_risk_result :: "risk_reason risk_result option"
  pr_paper_order :: "paper_order_intent option"
  pr_divergences :: "price_divergence list"
  pr_exit_reason :: "string option"

record pipeline =
  pp_risk_engine :: risk_engine
  pp_max_tick_age_seconds :: real
  pp_max_spread_bps :: real
  pp_max_reference_divergence_bps :: real
  pp_demonstration_notional_pct :: real
  pp_pretrade_gate :: "pretrade_gate option"
  pp_feature_builder :: "feature_builder option"
  pp_block_on_adverse_news :: bool
  pp_require_external_intelligence :: bool
  pp_onchain_regime_gate :: bool
  pp_onchain_regime_max_percentile :: real

datatype thesis =
    DefaultThesis
  | RationaleThesis "rationale list"
  | ExitThesis exit_reason real real

text \<open>What the surroundings supply to one call.\<close>

record cycle_env =
  cy_digest :: "json dict \<Rightarrow> string"
  cy_version :: "strategy_ensemble \<Rightarrow> string option"
  cy_render :: "thesis \<Rightarrow> string"
  cy_ks_env :: ks_env
  cy_new_id :: string
  cy_clock :: datetime

type_synonym cycle_outcome = "pipeline_result \<times> circuit_breaker option"

section \<open>Parts of a cycle\<close>

definition rejected_data :: "string list \<Rightarrow> price_divergence list \<Rightarrow> pipeline_result" where
  "rejected_data reasons divs =
     \<lparr>pr_accepted_market_data = False, pr_rejection_reasons = reasons, pr_feature_vector = None,
      pr_pretrade_check = None, pr_proposal = None, pr_risk_result = None, pr_paper_order = None,
      pr_divergences = divs, pr_exit_reason = None\<rparr>"

definition withheld ::
    "string list \<Rightarrow> asset_feature_vector \<Rightarrow> pretrade_check option \<Rightarrow> price_divergence list \<Rightarrow> pipeline_result" where
  "withheld reasons fv check divs =
     \<lparr>pr_accepted_market_data = True, pr_rejection_reasons = reasons, pr_feature_vector = Some fv,
      pr_pretrade_check = check, pr_proposal = None, pr_risk_result = None, pr_paper_order = None,
      pr_divergences = divs, pr_exit_reason = None\<rparr>"

definition onchain_regime_rejection :: "pipeline \<Rightarrow> side \<Rightarrow> asset_feature_vector \<Rightarrow> string option" where
  "onchain_regime_rejection P sd fv =
     (if \<not> pp_onchain_regime_gate P \<or> sd \<noteq> BUY then None
      else case oc_mvrv_z_percentile (fv_onchain fv) of
             None \<Rightarrow> Some ''onchain_regime_unavailable''
           | Some q \<Rightarrow> if pp_onchain_regime_max_percentile P < q then Some ''onchain_regime_blocked'' else None)"

definition order_of :: "trade_proposal \<Rightarrow> bool \<Rightarrow> risk_reason risk_result \<Rightarrow> paper_order_intent option" where
  "order_of p reduce_only r =
     (if rr_decision r \<in> {ALLOW, REDUCE} \<and> 0 < rr_approved_notional_usd r
      then Some \<lparr>in_decision_id = tp_decision_id p, in_asset = tp_asset p, in_side = tp_side p,
                 in_notional_usd = rr_approved_notional_usd r, in_venue = ''kraken_paper_trade'',
                 in_reduce_only = reduce_only\<rparr>
      else None)"

definition decided ::
    "cycle_env \<Rightarrow> pipeline \<Rightarrow> datetime \<Rightarrow> trade_proposal \<Rightarrow> portfolio_snapshot \<Rightarrow> asset_feature_vector
       \<Rightarrow> pretrade_check option \<Rightarrow> price_divergence list \<Rightarrow> exit_reason option \<Rightarrow> py_error + cycle_outcome" where
  "decided V P at_time p pf fv check divs why =
     (if \<not> proposal_valid p then Inl ValueError
      else
        (case evaluate (cy_digest V) (cy_ks_env V) at_time (pp_risk_engine P) p pf (Some fv) of
           (r, cb) \<Rightarrow>
             Inr (\<lparr>pr_accepted_market_data = True, pr_rejection_reasons = [], pr_feature_vector = Some fv,
                   pr_pretrade_check = check, pr_proposal = Some p, pr_risk_result = Some r,
                   pr_paper_order = order_of p (why \<noteq> None) r, pr_divergences = divs,
                   pr_exit_reason = map_option exit_reason_str why\<rparr>, cb)))"

definition exit_proposal ::
    "cycle_env \<Rightarrow> exit_signal \<Rightarrow> real \<Rightarrow> datetime \<Rightarrow> trade_proposal" where
  "exit_proposal V x age now =
     \<lparr>tp_decision_id = cy_new_id V, tp_created_at = now, tp_strategy_id = exit_strategy_id (es_reason x),
      tp_asset = es_asset x, tp_side = es_side x, tp_confidence = 1,
      tp_requested_notional_usd = es_requested_notional_usd x,
      tp_thesis = cy_render V (ExitThesis (es_reason x) (es_mark_price_usd x) (es_entry_price_usd x)),
      tp_signal_ids = [exit_reason_str (es_reason x)], tp_source_freshness_seconds = age,
      tp_signal_version = None\<rparr>"

text \<open>\<open>_exit_result\<close> with \<open>_build_exit_result\<close>: \<open>Inr None\<close> is "no exit this cycle".\<close>

definition exit_result ::
    "cycle_env \<Rightarrow> pipeline \<Rightarrow> string \<Rightarrow> market_tick \<Rightarrow> portfolio_snapshot \<Rightarrow> asset_feature_vector
       \<Rightarrow> price_divergence list \<Rightarrow> real \<Rightarrow> candle list \<Rightarrow> datetime \<Rightarrow> pretrade_check option
       \<Rightarrow> py_error + cycle_outcome option" where
  "exit_result V P asset t pf fv divs age cs now check =
     (let s = re_settings (pp_risk_engine P)
      in case dict_get (ps_held_positions pf) asset of
           None \<Rightarrow> Inr None
         | Some h \<Rightarrow>
             if hp_quantity h \<le> 0 then Inr None
             else
               bindr (of_value_error (bar_seconds_for s (if cs = [] then None else Some (c_interval (last cs))))) (\<lambda>bar.
                 case evaluate_position_exits s asset h (tk_last t) now (real bar)
                        (opt_bind pc_confirmed_side check) (opt_bind pc_regime check) of
                   None \<Rightarrow> Inr None
                 | Some x \<Rightarrow>
                     bindr (decided V P now (exit_proposal V x age now) pf fv check divs (Some (es_reason x)))
                       (\<lambda>r. Inr (Some r))))"

definition entry_proposal ::
    "cycle_env \<Rightarrow> pipeline \<Rightarrow> string \<Rightarrow> portfolio_snapshot \<Rightarrow> real \<Rightarrow> pretrade_check option \<Rightarrow> trade_proposal" where
  "entry_proposal V P asset pf age check =
     \<lparr>tp_decision_id = cy_new_id V, tp_created_at = cy_clock V, tp_strategy_id = ''vertical-slice-v1'',
      tp_asset = asset,
      tp_side = (case opt_bind pc_confirmed_side check of None \<Rightarrow> BUY | Some sd \<Rightarrow> sd),
      tp_confidence = (case check of None \<Rightarrow> 1/2 | Some c \<Rightarrow> pc_confidence c),
      tp_requested_notional_usd = ps_nav_usd pf * pp_demonstration_notional_pct P,
      tp_thesis = cy_render V (case opt_bind pc_rationale check of
          None \<Rightarrow> DefaultThesis
        | Some rs \<Rightarrow> if rs = [] then DefaultThesis else RationaleThesis rs),
      tp_signal_ids = [if check = None then ''validated-market-data-v1'' else ''pretrade-backtest-gate-v1''],
      tp_source_freshness_seconds = age, tp_signal_version = None\<rparr>"

section \<open>Market data acceptance\<close>

definition tick_asset :: "market_tick \<Rightarrow> string" where
  "tick_asset t = upper (before (CHR ''/'') (tk_symbol t))"

definition tick_age :: "datetime \<Rightarrow> market_tick \<Rightarrow> real" where
  "tick_age now t = max 0 (total_seconds (now - tk_observed_at t))"

definition eligible_refs :: "string \<Rightarrow> reference_price list \<Rightarrow> reference_price list" where
  "eligible_refs asset refs = filter (\<lambda>r. upper (rp_asset r) = asset \<and> rp_currency r = ''USD'') refs"

definition primary_ref :: "market_tick \<Rightarrow> reference_price" where
  "primary_ref t = \<lparr>rp_source = tk_source t, rp_asset = tick_asset t, rp_currency = ''USD'',
     rp_observed_at = tk_observed_at t, rp_price = tk_last t\<rparr>"

definition of_market_error :: "market_error + 'a \<Rightarrow> py_error + 'a" where
  "of_market_error x = (case x of Inl e \<Rightarrow> Inl ValueError | Inr v \<Rightarrow> Inr v)"

definition reference_reasons :: "pipeline \<Rightarrow> market_tick \<Rightarrow> reference_price list \<Rightarrow> py_error + string list" where
  "reference_reasons P t refs =
     (let eligible = eligible_refs (tick_asset t) refs
      in if eligible = [] then Inr [''no_independent_reference_price'']
         else bindr (of_market_error
                (is_reference_consistent (primary_ref t) eligible (pp_max_reference_divergence_bps P)))
                (\<lambda>ok. Inr (if ok then [] else [''reference_price_divergence''])))"

definition market_data_reasons ::
    "pipeline \<Rightarrow> datetime \<Rightarrow> market_tick \<Rightarrow> reference_price list \<Rightarrow> py_error + (string list \<times> price_divergence list)" where
  "market_data_reasons P now t refs =
     bindr (reference_reasons P t refs) (\<lambda>rr.
     bindr (of_market_error (pairwise_divergences (primary_ref t) (eligible_refs (tick_asset t) refs)
              (pp_max_reference_divergence_bps P))) (\<lambda>divs.
     Inr ((if pp_max_tick_age_seconds P < tick_age now t then [''stale_primary_tick''] else [])
        @ (if pp_max_spread_bps P < spread_bps t then [''spread_limit_exceeded''] else []) @ rr, divs)))"

section \<open>Features of the cycle\<close>

definition matching_intelligence :: "string \<Rightarrow> external_intelligence option \<Rightarrow> external_intelligence option" where
  "matching_intelligence asset x =
     (case x of None \<Rightarrow> None | Some i \<Rightarrow> if upper (xi_asset i) \<noteq> asset then None else Some i)"

definition cycle_market :: "pipeline \<Rightarrow> market_tick \<Rightarrow> candle list \<Rightarrow> py_error + market_features" where
  "cycle_market P t cs =
     bindr (market_features_of 0 0 0 1 (spread_bps t) None) (\<lambda>plain.
       case pp_feature_builder P of
         None \<Rightarrow> Inr plain
       | Some b \<Rightarrow> if cs = [] then Inr plain else build_features b cs (spread_bps t))"

definition market_source_ids :: "pipeline \<Rightarrow> market_tick \<Rightarrow> reference_price list \<Rightarrow> candle list \<Rightarrow> string list" where
  "market_source_ids P t refs cs =
     source_str (tk_source t)
     # sort (remdups (map (\<lambda>r. source_str (rp_source r)) (eligible_refs (tick_asset t) refs)))
     @ (if cs \<noteq> [] \<and> pp_feature_builder P \<noteq> None then [''candles:'' @ c_interval (last cs)] else [])"

definition cycle_features ::
    "cycle_env \<Rightarrow> pipeline \<Rightarrow> market_tick \<Rightarrow> reference_price list \<Rightarrow> candle list \<Rightarrow> external_intelligence option
       \<Rightarrow> (research_edge_features \<times> string list) option \<Rightarrow> py_error + asset_feature_vector" where
  "cycle_features V P t refs cs intel edge =
     bindr (cycle_market P t cs) (\<lambda>m.
       let ids = market_source_ids P t refs cs in
       bindr (case intel of
                None \<Rightarrow> Inr ((plain_features (tick_asset t) (cy_clock V) m)\<lparr>fv_source_ids := ids\<rparr>)
              | Some i \<Rightarrow>
                  bindr (merge_external_intelligence (tick_asset t) (cy_clock V) m (xi_onchain i) (xi_social i)
                           (xi_news i) (xi_altfins i) (xi_onchain_regime i))
                    (\<lambda>v. Inr (v\<lparr>fv_source_ids := ids @ fv_source_ids v\<rparr>))) (\<lambda>fv.
       Inr (case edge of
              None \<Rightarrow> fv
            | Some (e, sids) \<Rightarrow> fv\<lparr>fv_edge := e, fv_source_ids := fv_source_ids fv @ sids\<rparr>)))"

section \<open>The cycle\<close>

text \<open>The intelligence gates that withhold new risk, in order.\<close>

definition withhold_reason ::
    "pipeline \<Rightarrow> market_tick \<Rightarrow> external_intelligence option \<Rightarrow> asset_feature_vector \<Rightarrow> string option" where
  "withhold_reason P t intel fv =
     (if \<not> promote_universe_allows (re_settings (pp_risk_engine P)) (tk_symbol t)
      then Some ''promote_universe_excluded''
      else if (case intel of None \<Rightarrow> False | Some i \<Rightarrow> xi_provider_unavailable i)
      then Some ''intelligence_provider_unavailable''
      else if pp_require_external_intelligence P
           \<and> (case intel of None \<Rightarrow> True | Some i \<Rightarrow> xi_is_empty i)
      then Some ''no_external_intelligence''
      else if pp_block_on_adverse_news P \<and> nw_adverse_event (fv_news fv)
      then Some ''adverse_news_event''
      else None)"

text \<open>From the fixed side on: the regime gate, the proposal, the risk engine.\<close>

definition enter ::
    "cycle_env \<Rightarrow> pipeline \<Rightarrow> string \<Rightarrow> portfolio_snapshot \<Rightarrow> asset_feature_vector \<Rightarrow> price_divergence list
       \<Rightarrow> real \<Rightarrow> pretrade_check option \<Rightarrow> py_error + cycle_outcome" where
  "enter V P asset pf fv divs age check =
     (let p = entry_proposal V P asset pf age check
      in case onchain_regime_rejection P (tp_side p) fv of
           Some r \<Rightarrow> Inr (withheld [r] fv check divs, re_circuit_breaker (pp_risk_engine P))
         | None \<Rightarrow> decided V P (cy_clock V) p pf fv check divs None)"

text \<open>After the pre-trade check: a thesis exit wins, a failed check withholds, a passed one enters.\<close>

definition after_check ::
    "cycle_env \<Rightarrow> pipeline \<Rightarrow> string \<Rightarrow> portfolio_snapshot \<Rightarrow> asset_feature_vector \<Rightarrow> price_divergence list
       \<Rightarrow> real \<Rightarrow> pretrade_check \<Rightarrow> cycle_outcome option \<Rightarrow> py_error + cycle_outcome" where
  "after_check V P asset pf fv divs age check thesis_exit =
     (case thesis_exit of
        Some r \<Rightarrow> Inr r
      | None \<Rightarrow>
          if \<not> pc_passed check \<or> pc_confirmed_side check = None
          then Inr (withheld (pc_reasons check) fv (Some check) divs, re_circuit_breaker (pp_risk_engine P))
          else enter V P asset pf fv divs age (Some check))"

definition process ::
    "cycle_env \<Rightarrow> pipeline \<Rightarrow> market_tick \<Rightarrow> reference_price list \<Rightarrow> portfolio_snapshot \<Rightarrow> candle list
       \<Rightarrow> external_intelligence option \<Rightarrow> (research_edge_features \<times> string list) option \<Rightarrow> datetime
       \<Rightarrow> (py_error + cycle_outcome) option" where
  "process V P t refs pf cs intelligence edge now =
     (let asset = tick_asset t; age = tick_age now t; cb = re_circuit_breaker (pp_risk_engine P);
          intel = matching_intelligence asset intelligence
      in case market_data_reasons P now t refs of
           Inl e \<Rightarrow> Some (Inl e)
         | Inr (reasons, divs) \<Rightarrow>
             if reasons \<noteq> [] then Some (Inr (rejected_data reasons divs, cb))
             else
               (case cycle_features V P t refs cs intel edge of
                  Inl e \<Rightarrow> Some (Inl e)
                | Inr fv \<Rightarrow>
                    (case exit_result V P asset t pf fv divs age cs now None of
                       Inl e \<Rightarrow> Some (Inl e)
                     | Inr (Some r) \<Rightarrow> Some (Inr r)
                     | Inr None \<Rightarrow>
                         (case withhold_reason P t intel fv of
                            Some why \<Rightarrow> Some (Inr (withheld [why] fv None divs, cb))
                          | None \<Rightarrow>
                              (case pp_pretrade_gate P of
                                 None \<Rightarrow> Some (enter V P asset pf fv divs age None)
                               | Some g \<Rightarrow>
                                   if cs = [] then Some (Inr (withheld [''missing_candle_history''] fv None divs, cb))
                                   else
                                     map_option (\<lambda>c. bindr c (\<lambda>check.
                                       bindr (exit_result V P asset t pf fv divs age cs now (Some check))
                                         (after_check V P asset pf fv divs age check)))
                                     (pretrade_evaluate (cy_version V) g cs None now))))))"

section \<open>Lemmas\<close>

lemma process_returns: "\<exists>r. process V P t refs pf cs intelligence edge now = Some r"
proof -
  have pre: "\<exists>c. pretrade_evaluate (cy_version V) g cs None now = Some c" for g
    by (rule pretrade_returns)
  show ?thesis
    unfolding process_def Let_def
    by (auto split: sum.splits option.splits prod.splits) (use pre in blast)
qed

text \<open>The market data a cycle accepts.\<close>

definition data_accepted :: "pipeline \<Rightarrow> datetime \<Rightarrow> market_tick \<Rightarrow> reference_price list \<Rightarrow> bool" where
  "data_accepted P now t refs \<longleftrightarrow>
     tick_age now t \<le> pp_max_tick_age_seconds P \<and> spread_bps t \<le> pp_max_spread_bps P
   \<and> independent_refs (eligible_refs (tick_asset t) refs) \<noteq> []
   \<and> list_all (\<lambda>r. same_quote (primary_ref t) r
        \<and> \<bar>tk_last t - rp_price r\<bar> / tk_last t * 10000 \<le> pp_max_reference_divergence_bps P)
      (independent_refs (eligible_refs (tick_asset t) refs))"

lemma reference_reasons_Nil:
  "reference_reasons P t refs = Inr [] \<longleftrightarrow>
     is_reference_consistent (primary_ref t) (eligible_refs (tick_asset t) refs)
       (pp_max_reference_divergence_bps P) = Inr True"
  by (auto simp: reference_reasons_def Let_def bindr_eq_Inr of_market_error_def is_reference_consistent_def
      independent_refs_def split: sum.splits if_splits)

lemma market_data_accepted:
  "(\<exists>divs. market_data_reasons P now t refs = Inr ([], divs)) \<longleftrightarrow> data_accepted P now t refs"
proof
  assume "\<exists>divs. market_data_reasons P now t refs = Inr ([], divs)"
  then have "reference_reasons P t refs = Inr []" "\<not> pp_max_tick_age_seconds P < tick_age now t"
    "\<not> pp_max_spread_bps P < spread_bps t"
    by (auto simp: market_data_reasons_def bindr_eq_Inr split: if_splits)
  then show "data_accepted P now t refs"
    unfolding reference_reasons_Nil is_reference_consistent_True data_accepted_def by (simp add: primary_ref_def)
next
  assume d: "data_accepted P now t refs"
  then have c: "is_reference_consistent (primary_ref t) (eligible_refs (tick_asset t) refs)
      (pp_max_reference_divergence_bps P) = Inr True"
    unfolding is_reference_consistent_True data_accepted_def by (simp add: primary_ref_def)
  from consistent_divergences_total [OF c] obtain ds where
    "pairwise_divergences (primary_ref t) (eligible_refs (tick_asset t) refs) (pp_max_reference_divergence_bps P) = Inr ds" ..
  with d c [folded reference_reasons_Nil] show "\<exists>divs. market_data_reasons P now t refs = Inr ([], divs)"
    by (simp add: market_data_reasons_def of_market_error_def data_accepted_def)
qed

lemma withheld_no_order [simp]: "pr_paper_order (withheld rs fv c ds) = None"
  by (simp add: withheld_def)

lemma rejected_no_order [simp]: "pr_paper_order (rejected_data rs ds) = None"
  by (simp add: rejected_data_def)

text \<open>An order can come from two places only: an exit, or an entry that passed every gate.\<close>

lemma process_order:
  assumes "process V P t refs pf cs intelligence edge now = Some (Inr (r, cb))"
    and "pr_paper_order r = Some o1"
  obtains (by_exit) divs fv check where "data_accepted P now t refs"
      "cycle_features V P t refs cs (matching_intelligence (tick_asset t) intelligence) edge = Inr fv"
      "exit_result V P (tick_asset t) t pf fv divs (tick_age now t) cs now check = Inr (Some (r, cb))"
    | (by_entry) divs fv check where "data_accepted P now t refs"
      "cycle_features V P t refs cs (matching_intelligence (tick_asset t) intelligence) edge = Inr fv"
      "withhold_reason P t (matching_intelligence (tick_asset t) intelligence) fv = None"
      "enter V P (tick_asset t) pf fv divs (tick_age now t) check = Inr (r, cb)"
      "case pp_pretrade_gate P of
         None \<Rightarrow> check = None
       | Some g \<Rightarrow> cs \<noteq> [] \<and> (\<exists>c. check = Some c \<and> pc_passed c \<and> pc_confirmed_side c \<noteq> None
           \<and> pretrade_evaluate (cy_version V) g cs None now = Some (Inr c))"
proof -
  from assms obtain divs fv where d: "market_data_reasons P now t refs = Inr ([], divs)"
    and f: "cycle_features V P t refs cs (matching_intelligence (tick_asset t) intelligence) edge = Inr fv"
    by (auto simp: process_def Let_def split: sum.splits if_splits)
  from d have acc: "data_accepted P now t refs" using market_data_accepted by blast
  let ?x = "exit_result V P (tick_asset t) t pf fv divs (tick_age now t) cs now"
  consider (a) "?x None = Inr (Some (r, cb))" | (b) "?x None = Inr None"
    using assms by (auto simp: process_def Let_def d f split: sum.splits option.splits)
  then show thesis
  proof cases
    case a
    then show thesis by (rule by_exit [OF acc f])
  next
    case b
    from assms have w: "withhold_reason P t (matching_intelligence (tick_asset t) intelligence) fv = None"
      by (auto simp: process_def Let_def d f b split: option.splits)
    show thesis
    proof (cases "pp_pretrade_gate P")
      case None
      with assms show thesis
        by (intro by_entry [OF acc f w, of divs None]) (auto simp: process_def Let_def d f b w)
    next
      case (Some g)
      with assms have cs: "cs \<noteq> []" by (auto simp: process_def Let_def d f b w)
      from assms Some cs obtain c where c: "pretrade_evaluate (cy_version V) g cs None now = Some (Inr c)"
        and rest: "bindr (?x (Some c)) (after_check V P (tick_asset t) pf fv divs (tick_age now t) c) = Inr (r, cb)"
        by (auto simp: process_def Let_def d f b w bindr_eq_Inr)
      from rest obtain x where x: "?x (Some c) = Inr x" by (auto simp: bindr_eq_Inr)
      show thesis
      proof (cases x)
        case (Some y)
        with rest x have "?x (Some c) = Inr (Some (r, cb))" by (simp add: after_check_def)
        then show thesis by (rule by_exit [OF acc f])
      next
        case xN: None
        with rest x assms(2) have "pc_passed c" "pc_confirmed_side c \<noteq> None"
          "enter V P (tick_asset t) pf fv divs (tick_age now t) (Some c) = Inr (r, cb)"
          by (auto simp: after_check_def split: if_splits)
        with Some cs c show thesis by (intro by_entry [OF acc f w, of divs "Some c"]) simp_all
      qed
    qed
  qed
qed

lemma decided_order:
  assumes "decided V P at_time p pf fv check divs why = Inr (r, cb)" "pr_paper_order r = Some o1"
    and "settings_valid (re_settings (pp_risk_engine P))"
  shows "\<not> halted (cy_ks_env V) (pp_risk_engine P)"
    and "\<not> blocked at_time (pp_risk_engine P) p pf (Some fv)"
    and "pr_proposal r = Some p" and "0 < in_notional_usd o1"
    and "in_notional_usd o1 \<le> tp_requested_notional_usd p"
    and "in_decision_id o1 = tp_decision_id p" "in_asset o1 = tp_asset p" "in_side o1 = tp_side p"
    and "in_reduce_only o1 \<longleftrightarrow> why \<noteq> None"
    and "\<not> risk_reducing p pf \<Longrightarrow> in_notional_usd o1 \<le> addition_room (re_settings (pp_risk_engine P)) p pf"
    and "risk_reducing p pf \<Longrightarrow> in_notional_usd o1 \<le> existing_exposure p pf"
proof -
  let ?e = "pp_risk_engine P"
  let ?r = "fst (evaluate (cy_digest V) (cy_ks_env V) at_time ?e p pf (Some fv))"
  from assms(1) have v: "proposal_valid p" by (auto simp: decided_def split: if_splits)
  with assms(1) have r: "pr_paper_order r = order_of p (why \<noteq> None) ?r" "pr_proposal r = Some p"
    by (auto simp: decided_def split: prod.splits)
  from assms(2) r(1) have d: "rr_decision ?r \<noteq> REJECT"
    and o1: "in_notional_usd o1 = rr_approved_notional_usd ?r" "in_decision_id o1 = tp_decision_id p"
      "in_asset o1 = tp_asset p" "in_side o1 = tp_side p" "in_reduce_only o1 \<longleftrightarrow> why \<noteq> None"
    by (auto simp: order_of_def split: if_splits)
  note a = evaluate_approved [OF assms(3) v, of "cy_digest V" "cy_ks_env V" at_time pf "Some fv"]
  from a(1) d show h: "\<not> halted (cy_ks_env V) ?e" and b: "\<not> blocked at_time ?e p pf (Some fv)" by auto
  from a(3) d o1 show "0 < in_notional_usd o1" "in_notional_usd o1 \<le> tp_requested_notional_usd p" by auto
  from r(2) o1 show "pr_proposal r = Some p" "in_decision_id o1 = tp_decision_id p" "in_asset o1 = tp_asset p"
    "in_side o1 = tp_side p" "in_reduce_only o1 \<longleftrightarrow> why \<noteq> None" by auto
  show "in_notional_usd o1 \<le> addition_room (re_settings ?e) p pf" if "\<not> risk_reducing p pf"
    using evaluate_decision(3) [OF h b that, of "cy_digest V"] o1 by simp
  show "in_notional_usd o1 \<le> existing_exposure p pf" if "risk_reducing p pf"
    using evaluate_decision(2) [OF h b that, of "cy_digest V"] o1 by simp
qed

lemma exit_result_Some:
  assumes "exit_result V P asset t pf fv divs age cs now check = Inr (Some (r, cb))"
  obtains h bar x where "dict_get (ps_held_positions pf) asset = Some h" "0 < hp_quantity h"
    "evaluate_position_exits (re_settings (pp_risk_engine P)) asset h (tk_last t) now bar
       (opt_bind pc_confirmed_side check) (opt_bind pc_regime check) = Some x"
    "decided V P now (exit_proposal V x age now) pf fv check divs (Some (es_reason x)) = Inr (r, cb)"
  using assms
  by (auto simp: exit_result_def Let_def bindr_eq_Inr split: option.splits if_splits)

lemma enter_order:
  assumes "enter V P asset pf fv divs age check = Inr (r, cb)" "pr_paper_order r = Some o1"
  shows "onchain_regime_rejection P (tp_side (entry_proposal V P asset pf age check)) fv = None"
    "decided V P (cy_clock V) (entry_proposal V P asset pf age check) pf fv check divs None = Inr (r, cb)"
  using assms by (auto simp: enter_def Let_def split: option.splits)

lemma upper_tick_asset [simp]: "upper (tick_asset t) = tick_asset t"
  by (simp add: tick_asset_def)

lemma process_order_safe:
  assumes "process V P t refs pf cs intelligence edge now = Some (Inr (r, cb))"
    and "pr_paper_order r = Some o1" and "settings_valid (re_settings (pp_risk_engine P))"
  shows "data_accepted P now t refs \<and> \<not> halted (cy_ks_env V) (pp_risk_engine P)
    \<and> (\<exists>p at_time fv. pr_proposal r = Some p \<and> pr_feature_vector r = Some fv
        \<and> \<not> blocked at_time (pp_risk_engine P) p pf (Some fv)
        \<and> 0 < in_notional_usd o1 \<and> in_notional_usd o1 \<le> tp_requested_notional_usd p
        \<and> in_decision_id o1 = tp_decision_id p \<and> in_side o1 = tp_side p \<and> in_asset o1 = tick_asset t)
    \<and> (in_reduce_only o1 \<longleftrightarrow> pr_exit_reason r \<noteq> None)
    \<and> (in_reduce_only o1 \<longrightarrow> in_side o1 = SELL
        \<and> (\<exists>h. dict_get (ps_held_positions pf) (tick_asset t) = Some h
             \<and> in_notional_usd o1 \<le> hp_quantity h * tk_last t))"
  using assms(1,2)
proof (cases rule: process_order)
  case (by_exit divs fv check)
  from by_exit(3) obtain h bar x where x: "dict_get (ps_held_positions pf) (tick_asset t) = Some h"
    "evaluate_position_exits (re_settings (pp_risk_engine P)) (tick_asset t) h (tk_last t) now bar
       (opt_bind pc_confirmed_side check) (opt_bind pc_regime check) = Some x"
    and d: "decided V P now (exit_proposal V x (tick_age now t) now) pf fv check divs (Some (es_reason x)) = Inr (r, cb)"
    by (rule exit_result_Some)
  note ev = evaluate_exits_Some [OF x(2)] and o = decided_order [OF d assms(2,3)]
  have "es_requested_notional_usd x \<le> hp_quantity h * tk_last t"
    using ev(3,6) exit_sizing_price_bounds [OF ev(2), of "re_settings (pp_risk_engine P)"] by simp
  moreover have "pr_feature_vector r = Some fv" "pr_exit_reason r \<noteq> None"
    using d by (auto simp: decided_def split: if_splits prod.splits)
  ultimately show ?thesis using by_exit(1) o x(1) ev(4,5) by (auto simp: exit_proposal_def)
next
  case (by_entry divs fv check)
  note d = enter_order(2) [OF by_entry(4) assms(2)]
  have "pr_feature_vector r = Some fv" "pr_exit_reason r = None"
    using d by (auto simp: decided_def split: if_splits prod.splits)
  with by_entry(1) decided_order [OF d assms(2,3)] show ?thesis by (auto simp: entry_proposal_def)
qed

section \<open>Properties\<close>

text \<open>
  C11: what a paper order implies. Whatever the inputs, an order leaves the pipeline only when the
  tick is fresh and tight, at least one independent source quotes the asset and every one of them
  agrees with the tick within the divergence limit, the kill switch is off and nothing blocks the
  proposal; the order carries the proposal's decision id, side and asset, a positive amount no
  larger than the proposal asked for, and is reduce-only exactly when it is an exit, which is a
  sale of no more than the held position is worth.
\<close>

theorem pipeline_order_safe:
  assumes "process V P t refs pf cs intelligence edge now = Some (Inr (r, cb))"
    and "pr_paper_order r = Some o1" and "settings_valid (re_settings (pp_risk_engine P))"
  shows "data_accepted P now t refs \<and> \<not> halted (cy_ks_env V) (pp_risk_engine P)
    \<and> (\<exists>p at_time fv. pr_proposal r = Some p \<and> pr_feature_vector r = Some fv
        \<and> \<not> blocked at_time (pp_risk_engine P) p pf (Some fv)
        \<and> 0 < in_notional_usd o1 \<and> in_notional_usd o1 \<le> tp_requested_notional_usd p
        \<and> in_decision_id o1 = tp_decision_id p \<and> in_side o1 = tp_side p \<and> in_asset o1 = tick_asset t)
    \<and> (in_reduce_only o1 \<longleftrightarrow> pr_exit_reason r \<noteq> None)
    \<and> (in_reduce_only o1 \<longrightarrow> in_side o1 = SELL
        \<and> (\<exists>h. dict_get (ps_held_positions pf) (tick_asset t) = Some h
             \<and> in_notional_usd o1 \<le> hp_quantity h * tk_last t))"
  by (rule process_order_safe [OF assms])

lemma cycle_features_intel:
  assumes "cycle_features V P t refs cs (Some i) edge = Inr fv"
  shows "nw_adverse_event (fv_news fv) = (case xi_news i of None \<Rightarrow> False | Some n \<Rightarrow> ne_adverse_event n)"
    and "oc_mvrv_z_percentile (fv_onchain fv) = opt_bind rs_mvrv_z_percentile (xi_onchain_regime i)"
  using assms
  by (auto simp: cycle_features_def Let_def bindr_eq_Inr merge_fields split: option.splits)

lemma cycle_features_no_intel:
  "cycle_features V P t refs cs None edge = Inr fv \<Longrightarrow> oc_mvrv_z_percentile (fv_onchain fv) = None"
  by (auto simp: cycle_features_def Let_def bindr_eq_Inr plain_features_def split: option.splits)

text \<open>
  C12: new risk passes every gate. An order that is not an exit implies that the symbol is in the
  promoted universe, no fail-closed provider was out, required intelligence was there, no provider
  flagged an adverse event (when that rule is on), the pre-trade gate, when configured, passed on
  the given candles and confirmed exactly the side of the order, and a purchase under the on-chain
  regime gate had a known percentile within the threshold; its size is at most the configured
  fraction of the account.
\<close>

theorem pipeline_entry_gates:
  assumes "process V P t refs pf cs intelligence edge now = Some (Inr (r, cb))"
    and "pr_paper_order r = Some o1" and "settings_valid (re_settings (pp_risk_engine P))"
    and "\<not> in_reduce_only o1"
  shows "promote_universe_allows (re_settings (pp_risk_engine P)) (tk_symbol t)
    \<and> (\<forall>i. matching_intelligence (tick_asset t) intelligence = Some i \<longrightarrow>
         \<not> xi_provider_unavailable i
         \<and> (pp_block_on_adverse_news P \<longrightarrow> (\<forall>n. xi_news i = Some n \<longrightarrow> \<not> ne_adverse_event n)))
    \<and> (pp_require_external_intelligence P \<longrightarrow>
         (\<exists>i. matching_intelligence (tick_asset t) intelligence = Some i \<and> \<not> xi_is_empty i))
    \<and> (\<forall>g. pp_pretrade_gate P = Some g \<longrightarrow>
         (\<exists>c. pretrade_evaluate (cy_version V) g cs None now = Some (Inr c) \<and> pc_passed c
            \<and> pc_confirmed_side c = Some (in_side o1)))
    \<and> (pp_onchain_regime_gate P \<and> in_side o1 = BUY \<longrightarrow>
         (\<exists>i rg q. matching_intelligence (tick_asset t) intelligence = Some i
            \<and> xi_onchain_regime i = Some rg \<and> rs_mvrv_z_percentile rg = Some q
            \<and> q \<le> pp_onchain_regime_max_percentile P))
    \<and> in_notional_usd o1 \<le> ps_nav_usd pf * pp_demonstration_notional_pct P"
  using assms(1,2)
proof (cases rule: process_order)
  case (by_exit divs fv check)
  from by_exit(3) obtain x where
    "decided V P now (exit_proposal V x (tick_age now t) now) pf fv check divs (Some (es_reason x)) = Inr (r, cb)"
    by (rule exit_result_Some)
  from decided_order(9) [OF this assms(2,3)] assms(4) show ?thesis by simp
next
  case (by_entry divs fv check)
  let ?i = "matching_intelligence (tick_asset t) intelligence"
  note d = enter_order(2) [OF by_entry(4) assms(2)] and rg = enter_order(1) [OF by_entry(4) assms(2)]
  note o = decided_order [OF d assms(2,3)]
  have side: "in_side o1 = (case opt_bind pc_confirmed_side check of None \<Rightarrow> BUY | Some sd \<Rightarrow> sd)"
    using o by (simp add: entry_proposal_def)
  have w: "promote_universe_allows (re_settings (pp_risk_engine P)) (tk_symbol t)"
    "\<And>i. ?i = Some i \<Longrightarrow> \<not> xi_provider_unavailable i"
    "pp_require_external_intelligence P \<Longrightarrow> \<exists>i. ?i = Some i \<and> \<not> xi_is_empty i"
    "pp_block_on_adverse_news P \<Longrightarrow> \<not> nw_adverse_event (fv_news fv)"
    using by_entry(3) by (auto simp: withhold_reason_def split: if_splits option.splits)
  have news: "\<not> ne_adverse_event n"
    if "?i = Some i" "pp_block_on_adverse_news P" "xi_news i = Some n" for i n
    using w(4) [OF that(2)] cycle_features_intel(1) [of V P t refs cs i edge fv] by_entry(2) that by simp
  have gate: "\<exists>c. pretrade_evaluate (cy_version V) g cs None now = Some (Inr c) \<and> pc_passed c
      \<and> pc_confirmed_side c = Some (in_side o1)" if "pp_pretrade_gate P = Some g" for g
    using by_entry(5) that side by (auto simp: opt_bind_def)
  have reg: "\<exists>i rg q. ?i = Some i \<and> xi_onchain_regime i = Some rg \<and> rs_mvrv_z_percentile rg = Some q
      \<and> q \<le> pp_onchain_regime_max_percentile P" if "pp_onchain_regime_gate P" "in_side o1 = BUY"
  proof -
    have "tp_side (entry_proposal V P (tick_asset t) pf (tick_age now t) check) = BUY"
      using o(8) that(2) by simp
    with rg that(1) obtain q where q: "oc_mvrv_z_percentile (fv_onchain fv) = Some q"
      "q \<le> pp_onchain_regime_max_percentile P"
      by (auto simp: onchain_regime_rejection_def split: option.splits if_splits)
    then obtain i where i: "?i = Some i" using by_entry(2) cycle_features_no_intel by (cases ?i) fastforce+
    with q cycle_features_intel(2) [of V P t refs cs i edge fv] by_entry(2)
    have "opt_bind rs_mvrv_z_percentile (xi_onchain_regime i) = Some q" by simp
    then obtain rg where "xi_onchain_regime i = Some rg" "rs_mvrv_z_percentile rg = Some q"
      by (auto simp: opt_bind_def split: option.splits)
    with i q(2) show ?thesis by blast
  qed
  have size: "in_notional_usd o1 \<le> ps_nav_usd pf * pp_demonstration_notional_pct P"
    using o(5) by (simp add: entry_proposal_def)
  show ?thesis using w(1-3) news gate reg size by blast
qed

lemma exit_order:
  assumes "data_accepted P now t refs"
    and "cycle_features V P t refs cs (matching_intelligence (tick_asset t) intelligence) edge = Inr fv"
    and "dict_get (ps_held_positions pf) (tick_asset t) = Some h"
    and "bar_seconds_for (re_settings (pp_risk_engine P)) (if cs = [] then None else Some (c_interval (last cs))) = Some bar"
    and "evaluate_position_exits (re_settings (pp_risk_engine P)) (tick_asset t) h (tk_last t) now (real bar)
           None None = Some x"
    and "0 < dict_get_or (ps_asset_exposure_usd pf) (tick_asset t) 0"
    and "\<not> halted (cy_ks_env V) (pp_risk_engine P)" and "\<not> state_stale (re_settings (pp_risk_engine P)) now pf"
    and "tick_asset t \<in> set (assets (re_settings (pp_risk_engine P)))"
    and "mf_spread_bps (fv_market fv) \<le> cfg_risk_max_spread_bps (re_settings (pp_risk_engine P))"
  shows "\<exists>r cb o1. process V P t refs pf cs intelligence edge now = Some (Inr (r, cb))
    \<and> pr_paper_order r = Some o1 \<and> in_side o1 = SELL \<and> in_reduce_only o1 \<and> in_asset o1 = tick_asset t
    \<and> in_notional_usd o1 = min (es_requested_notional_usd x) (dict_get_or (ps_asset_exposure_usd pf) (tick_asset t) 0)
    \<and> pr_exit_reason r = Some (exit_reason_str (es_reason x))"
proof -
  let ?e = "pp_risk_engine P"
  let ?p = "exit_proposal V x (tick_age now t) now"
  note ev = evaluate_exits_Some [OF assms(5)]
  obtain divs where d: "market_data_reasons P now t refs = Inr ([], divs)"
    using assms(1) market_data_accepted by blast
  have pos: "0 < es_requested_notional_usd x"
    using ev(3,6) exit_sizing_price_bounds [OF ev(2), of "re_settings ?e"] by simp
  then have v: "proposal_valid ?p" by (simp add: proposal_valid_def exit_proposal_def tick_age_def)
  have ex: "existing_exposure ?p pf = dict_get_or (ps_asset_exposure_usd pf) (tick_asset t) 0"
    by (simp add: existing_exposure_def exit_proposal_def ev(5))
  have red: "risk_reducing ?p pf"
    using assms(6) ex ev(4) by (simp add: risk_reducing_def exit_proposal_def)
  have "\<not> breaker_blocks now ?p ?e"
    using exit_ids by (auto simp: breaker_blocks_def consult_breaker_def exit_proposal_def split: option.splits)
  then have nb: "\<not> blocked now ?e ?p pf (Some fv)"
    using assms(8-10) red ev(5) by (simp add: blocked_def venue_blocks_def exit_proposal_def)
  let ?r = "fst (evaluate (cy_digest V) (cy_ks_env V) now ?e ?p pf (Some fv))"
  have r: "rr_approved_notional_usd ?r = min (es_requested_notional_usd x) (existing_exposure ?p pf)"
    "rr_decision ?r \<in> {ALLOW, REDUCE}"
    using evaluate_decision(2) [OF assms(7) nb red, of "cy_digest V"] by (auto simp: exit_proposal_def)
  then have o: "order_of ?p True ?r = Some \<lparr>in_decision_id = cy_new_id V, in_asset = tick_asset t, in_side = SELL,
      in_notional_usd = min (es_requested_notional_usd x) (existing_exposure ?p pf),
      in_venue = ''kraken_paper_trade'', in_reduce_only = True\<rparr>"
    using pos assms(6) ex ev(4,5) by (simp add: order_of_def exit_proposal_def)
  obtain R cb where R: "decided V P now ?p pf fv None divs (Some (es_reason x)) = Inr (R, cb)"
    "pr_paper_order R = order_of ?p True ?r" "pr_exit_reason R = Some (exit_reason_str (es_reason x))"
    using v unfolding decided_def case_prod_beta by simp
  have "exit_result V P (tick_asset t) t pf fv divs (tick_age now t) cs now None = Inr (Some (R, cb))"
    using assms(3-5) ev(3) R(1) by (simp add: exit_result_def of_value_error_def opt_bind_def)
  then have "process V P t refs pf cs intelligence edge now = Some (Inr (R, cb))"
    by (simp add: process_def d assms(2))
  with R o ex show ?thesis by auto
qed

text \<open>
  When the features of a cycle can be built. A history that is there must be long enough for every
  lookback; the snapshots of a bundle satisfy the bounds of their classes.
\<close>

definition history_sufficient :: "pipeline \<Rightarrow> candle list \<Rightarrow> bool" where
  "history_sufficient P cs \<longleftrightarrow>
     cs = [] \<or> (case pp_feature_builder P of
        None \<Rightarrow> True
      | Some b \<Rightarrow>
          list_all candle_valid cs
          \<and> 1 \<le> fb_trend_4h_lookback b \<and> fb_trend_4h_lookback b < length cs
          \<and> 1 \<le> fb_trend_1d_lookback b \<and> fb_trend_1d_lookback b < length cs
          \<and> 2 \<le> fb_volatility_lookback b \<and> fb_volatility_lookback b < length cs
          \<and> 2 \<le> fb_volume_lookback b \<and> fb_volume_lookback b \<le> length cs)"

definition intelligence_valid :: "external_intelligence \<Rightarrow> bool" where
  "intelligence_valid i \<longleftrightarrow>
     opt_within (-1) 1 (opt_bind on_large_wallet_accumulation (xi_onchain i))
   \<and> opt_within (-1) 1 (opt_bind so_sentiment (xi_social i))
   \<and> (\<forall>n \<in> set_option (xi_news i). 0 \<le> ne_event_score n \<and> ne_event_score n \<le> 1)
   \<and> opt_within (-10) 10 (opt_bind rs_mvrv_z (xi_onchain_regime i))
   \<and> opt_within 0 1 (opt_bind rs_mvrv_z_percentile (xi_onchain_regime i))
   \<and> opt_within (-5) 1 (opt_bind rs_nupl (xi_onchain_regime i))"

lemma garch_forecast_nonneg: "opt_nonneg (garch_forecast_vol b cs)"
proof (cases "garch_forecast_vol b cs")
  case (Some x)
  then obtain rs p f where f: "periods_per_year (c_interval (hd cs)) = Some p"
    "one_step_forecast \<lparr>wc_periods = p, wc_min_train = fb_garch_min_train b, wc_refit_every = 21,
       wc_target_vol_ann = fb_garch_target_vol_ann b, wc_min_size = 1/4, wc_max_size = 2,
       wc_regime_lookback = 365\<rparr> rs = Some (Some f)" "x = gf_vol_ann f"
    by (auto simp: garch_forecast_vol_def split: if_splits option.splits)
  have "0 < gf_vol_ann f"
    using one_step_forecast_ok [OF f(2)] periods_per_year_pos [OF f(1)] by (simp add: forecast_ok_def)
  then show ?thesis using Some f(3) by (simp add: opt_nonneg_def)
qed (simp add: opt_nonneg_def)

lemma momentum_defined:
  assumes "list_all candle_valid cs" "1 \<le> n" "n < length cs"
  shows "\<exists>m. momentum cs n = Some m"
proof -
  have "0 < c_close (cs ! (length cs - n - 1))"
    using assms by (simp add: list_all_length candle_valid_def)
  then show ?thesis using assms(2,3) by (simp add: momentum_def simple_return_def)
qed

lemma volatility_defined:
  assumes "list_all candle_valid cs" "2 \<le> n" "n < length cs"
  shows "\<exists>m. realized_volatility cs n = Some m"
proof -
  have "\<forall>x \<in> set (closes_of (tail_slice (n + 1) cs)). 0 < x"
    using closes_pos [OF candles_ok_tail, of cs] assms(1) by (auto simp: candles_ok_def)
  then obtain rs where "step_returns (closes_of (tail_slice (n + 1) cs)) = Some rs"
    using step_returns_defined by blast
  then show ?thesis using assms(2,3) by (simp add: realized_volatility_def)
qed

lemma volume_ratio_defined:
  assumes "list_all candle_valid cs" "2 \<le> n" "n \<le> length cs"
  shows "\<exists>m. volume_ratio cs n = Some m \<and> 0 \<le> m"
proof -
  have ne: "butlast (tail_slice n cs) \<noteq> []"
  proof
    assume "butlast (tail_slice n cs) = []"
    then have "length (butlast (tail_slice n cs)) = 0" by simp
    then show False using assms(2,3) by (simp add: tail_slice_def)
  qed
  have "last cs \<in> set cs" using assms(2,3) by (intro last_in_set) auto
  then have "0 \<le> c_volume (last cs)" using assms(1) by (simp add: list_all_iff candle_valid_def)
  moreover obtain baseline where "mean (map c_volume (butlast (tail_slice n cs))) = Some baseline"
    using ne by (simp add: mean_def)
  ultimately show ?thesis using assms(2,3) by (simp add: volume_ratio_def)
qed

lemma build_features_total:
  assumes "history_sufficient P cs" "pp_feature_builder P = Some b" "cs \<noteq> []" "0 \<le> spread"
  shows "\<exists>m. build_features b cs spread = Inr m \<and> mf_spread_bps m = spread"
proof -
  have h: "list_all candle_valid cs" "1 \<le> fb_trend_4h_lookback b" "fb_trend_4h_lookback b < length cs"
    "1 \<le> fb_trend_1d_lookback b" "fb_trend_1d_lookback b < length cs"
    "2 \<le> fb_volatility_lookback b" "fb_volatility_lookback b < length cs"
    "2 \<le> fb_volume_lookback b" "fb_volume_lookback b \<le> length cs"
    using assms(1-3) by (simp_all add: history_sufficient_def)
  obtain m4 m1 where m: "momentum cs (fb_trend_4h_lookback b) = Some m4" "momentum cs (fb_trend_1d_lookback b) = Some m1"
    using momentum_defined [OF h(1,2,3)] momentum_defined [OF h(1,4,5)] by blast
  obtain u where u: "realized_volatility cs (fb_volatility_lookback b) = Some u"
    using volatility_defined [OF h(1,6,7)] by blast
  obtain w where w: "volume_ratio cs (fb_volume_lookback b) = Some w" "0 \<le> w"
    using volume_ratio_defined [OF h(1,8,9)] by blast
  have "\<bar>clamp1 x\<bar> \<le> 1" for x by (simp add: clamp1_def)
  then show ?thesis
    using h(3,5,7,9) w(2) assms(4) garch_forecast_nonneg [of b cs]
    by (simp add: build_features_def m u w of_value_error_def market_features_of_def market_valid_def opt_within_def Let_def)
qed

lemma cycle_market_total:
  assumes "history_sufficient P cs" "0 \<le> spread_bps t"
  shows "\<exists>m. cycle_market P t cs = Inr m \<and> mf_spread_bps m = spread_bps t"
proof -
  have plain: "\<exists>m. market_features_of 0 0 0 1 (spread_bps t) None = Inr m \<and> mf_spread_bps m = spread_bps t"
    using assms(2) by (simp add: market_features_of_def market_valid_def opt_nonneg_def opt_within_def Let_def)
  then show ?thesis
    using build_features_total [OF assms(1) _ _ assms(2)]
    by (auto simp: cycle_market_def split: option.splits)
qed

lemma cycle_features_total:
  assumes "history_sufficient P cs" "0 \<le> spread_bps t" "\<forall>i \<in> set_option intel. intelligence_valid i"
  shows "\<exists>fv. cycle_features V P t refs cs intel edge = Inr fv \<and> mf_spread_bps (fv_market fv) = spread_bps t"
proof -
  obtain m where m: "cycle_market P t cs = Inr m" "mf_spread_bps m = spread_bps t"
    using cycle_market_total [OF assms(1,2)] by blast
  show ?thesis
  proof (cases intel)
    case None
    then show ?thesis using m by (simp add: cycle_features_def plain_features_def Let_def split: option.splits)
  next
    case (Some i)
    have "\<exists>v. merge_external_intelligence (tick_asset t) (cy_clock V) m (xi_onchain i) (xi_social i) (xi_news i)
        (xi_altfins i) (xi_onchain_regime i) = Inr v \<and> mf_spread_bps (fv_market v) = spread_bps t"
      using assms(3) m(2) unfolding Some
      by (auto simp: merge_external_intelligence_def slices_valid_def intelligence_valid_def Let_def split: option.splits)
    then show ?thesis using m by (auto simp: Some cycle_features_def Let_def split: option.splits)
  qed
qed

text \<open>
  C13: protective exits are not held up. When the market data is accepted, the quotes are not crossed,
  the candle history is absent or long enough for the features and has a readable interval, and the
  position's exit rules fire, the cycle sells reduce-only the smaller of the sized request and the
  recorded exposure, as long as the kill switch is off, the account view is fresh and the asset and
  the spread are allowed. No content of the intelligence bundle (adverse news, an outage, a missing
  regime), no verdict of the pre-trade gate, no missing history and no price on a candle stops it.
  A history that is present but too short does stop it (lemma \<open>short_history_raises\<close>).
\<close>

theorem pipeline_exit_passes:
  assumes "data_accepted P now t refs" and "0 \<le> spread_bps t"
    and "history_sufficient P cs" and "\<forall>i \<in> set_option intelligence. intelligence_valid i"
    and "dict_get (ps_held_positions pf) (tick_asset t) = Some h"
    and "bar_seconds_for (re_settings (pp_risk_engine P)) (if cs = [] then None else Some (c_interval (last cs))) = Some bar"
    and "evaluate_position_exits (re_settings (pp_risk_engine P)) (tick_asset t) h (tk_last t) now (real bar)
           None None = Some x"
    and "0 < dict_get_or (ps_asset_exposure_usd pf) (tick_asset t) 0"
    and "\<not> halted (cy_ks_env V) (pp_risk_engine P)" and "\<not> state_stale (re_settings (pp_risk_engine P)) now pf"
    and "tick_asset t \<in> set (assets (re_settings (pp_risk_engine P)))"
    and "spread_bps t \<le> cfg_risk_max_spread_bps (re_settings (pp_risk_engine P))"
  shows "\<exists>r cb o1. process V P t refs pf cs intelligence edge now = Some (Inr (r, cb))
    \<and> pr_paper_order r = Some o1 \<and> in_side o1 = SELL \<and> in_reduce_only o1 \<and> in_asset o1 = tick_asset t
    \<and> in_notional_usd o1 = min (es_requested_notional_usd x) (dict_get_or (ps_asset_exposure_usd pf) (tick_asset t) 0)
    \<and> pr_exit_reason r = Some (exit_reason_str (es_reason x))"
proof -
  have "\<forall>i \<in> set_option (matching_intelligence (tick_asset t) intelligence). intelligence_valid i"
    using assms(4) by (auto simp: matching_intelligence_def split: option.splits if_splits)
  from cycle_features_total [OF assms(3,2) this] obtain fv where
    "cycle_features V P t refs cs (matching_intelligence (tick_asset t) intelligence) edge = Inr fv"
    "mf_spread_bps (fv_market fv) = spread_bps t" by blast
  from exit_order [OF assms(1) this(1) assms(5-11)] this(2) assms(12) show ?thesis by simp
qed

text \<open>
  C20: an outage of a fail-closed news provider adds no risk in the same cycle: when intelligence
  for the asset is gathered while such a provider errors and no fresh bundle is cached, every order
  of the cycle is a reduce-only exit.
\<close>

theorem outage_adds_no_risk:
  assumes "gather R gnow (tick_asset t) c = (Inr x, c')"
    and "cache_get as_bundle gnow (news_key (tick_asset t)) c = None"
    and "f \<in> set (io_fail_closed_news R)" and "f (tick_asset t) = None"
    and "process V P t refs pf cs (Some x) edge now = Some (Inr (r, cb))"
    and "pr_paper_order r = Some o1" and "settings_valid (re_settings (pp_risk_engine P))"
  shows "in_reduce_only o1"
  using assms(5,6)
proof (cases rule: process_order)
  case (by_exit divs fv check)
  from by_exit(3) obtain y where
    "decided V P now (exit_proposal V y (tick_age now t) now) pf fv check divs (Some (es_reason y)) = Inr (r, cb)"
    by (rule exit_result_Some)
  from decided_order(9) [OF this assms(6,7)] show ?thesis by simp
next
  case (by_entry divs fv check)
  have "xi_provider_unavailable x" using gather_outage [of R gnow "tick_asset t" c x c' f] assms(1-4) by simp
  moreover have "xi_asset x = tick_asset t" using assms(1) by (rule gather_parts) simp
  ultimately show ?thesis
    using by_entry(3) by (simp add: withhold_reason_def matching_intelligence_def split: if_splits)
qed

text \<open>
  C99: a candle history that is present but shorter than the feature builder needs makes the whole
  cycle raise before the exit rules are consulted, whatever the position and the price.
\<close>

theorem short_history_raises:
  assumes "data_accepted P now t refs" and "0 \<le> spread_bps t" and "pp_feature_builder P = Some b"
    and "cs \<noteq> []" and "length cs \<le> fb_trend_1d_lookback b"
  shows "process V P t refs pf cs intelligence edge now = Some (Inl ValueError)"
proof -
  obtain divs where d: "market_data_reasons P now t refs = Inr ([], divs)"
    using assms(1) market_data_accepted by blast
  obtain m where "market_features_of 0 0 0 1 (spread_bps t) None = Inr m"
    using assms(2) by (simp add: market_features_of_def market_valid_def opt_nonneg_def opt_within_def Let_def)
  moreover have "build_features b cs (spread_bps t) = Inl ValueError"
    using assms(5) by (auto simp: build_features_def)
  ultimately have "cycle_market P t cs = Inl ValueError"
    using assms(3,4) by (simp add: cycle_market_def)
  then show ?thesis by (simp add: process_def d cycle_features_def Let_def)
qed

section \<open>Witnesses\<close>

definition ex_V :: cycle_env where
  "ex_V = \<lparr>cy_digest = (\<lambda>d. []), cy_version = (\<lambda>e. None), cy_render = (\<lambda>t. []), cy_ks_env = ex_env,
     cy_new_id = ''d1'', cy_clock = 0\<rparr>"

definition ex_P :: pipeline where
  "ex_P = \<lparr>pp_risk_engine = ex_engine, pp_max_tick_age_seconds = 10, pp_max_spread_bps = 30,
     pp_max_reference_divergence_bps = 100, pp_demonstration_notional_pct = 1 / 100,
     pp_pretrade_gate = None, pp_feature_builder = None, pp_block_on_adverse_news = True,
     pp_require_external_intelligence = False, pp_onchain_regime_gate = False,
     pp_onchain_regime_max_percentile = 9 / 10\<rparr>"

definition ex_tick :: market_tick where
  "ex_tick = \<lparr>tk_source = KRAKEN, tk_symbol = ''BTC/USD'', tk_observed_at = 0, tk_bid = 97, tk_ask = 97,
     tk_last = 97\<rparr>"

definition ex_ref :: reference_price where
  "ex_ref = \<lparr>rp_source = COINGECKO, rp_asset = ''BTC'', rp_currency = ''USD'', rp_observed_at = 0, rp_price = 97\<rparr>"

definition ex_holding :: portfolio_snapshot where
  "ex_holding = (ex_snapshot 0)\<lparr>ps_held_positions := [(''BTC'', ex_held)]\<rparr>"

lemma ex_tick_asset: "tick_asset ex_tick = ''BTC''"
  by (simp add: tick_asset_def ex_tick_def str_eval)

lemma ex_spread: "spread_bps ex_tick = 0"
  by (simp add: spread_bps_def ex_tick_def)

lemma ex_eligible: "eligible_refs ''BTC'' [ex_ref] = [ex_ref]"
  by (simp add: eligible_refs_def ex_ref_def str_eval)

lemma ex_accepted: "data_accepted ex_P 0 ex_tick [ex_ref]"
  by (simp add: data_accepted_def ex_tick_asset ex_spread ex_eligible independent_refs_def tick_age_def
      same_quote_def primary_ref_def) (simp add: ex_P_def ex_tick_def ex_ref_def total_seconds_def)

definition ex_fv :: "string list \<Rightarrow> asset_feature_vector" where
  "ex_fv ids = (plain_features ''BTC'' 0
     \<lparr>mf_trend_4h = 0, mf_trend_1d = 0, mf_volatility_z = 0, mf_relative_volume = 1, mf_spread_bps = 0,
      mf_garch_forecast_vol = None, mf_external_signal_score = None, mf_external_signal_source = None\<rparr>)
     \<lparr>fv_source_ids := ids\<rparr>"

lemma ex_cycle_market:
  "cycle_market ex_P ex_tick [] = Inr (fv_market (ex_fv ids))"
  by (simp add: cycle_market_def market_features_of_def market_valid_def ex_spread opt_nonneg_def
      opt_within_def Let_def ex_P_def ex_fv_def plain_features_def)

lemma ex_features:
  "cycle_features ex_V ex_P ex_tick [ex_ref] [] None None
     = Inr (ex_fv (market_source_ids ex_P ex_tick [ex_ref] []))"
  unfolding cycle_features_def ex_cycle_market [of "[]"] bindr_simps option.case Let_def ex_tick_asset
  by (simp add: ex_fv_def plain_features_def ex_V_def)

lemma ex_features_outage:
  assumes "x = \<lparr>xi_asset = ''BTC'', xi_onchain = None, xi_social = None, xi_news = None, xi_altfins = None,
     xi_provider_unavailable = True, xi_onchain_regime = None, xi_observations = []\<rparr>"
  shows "\<exists>ids. cycle_features ex_V ex_P ex_tick [ex_ref] [] (Some x) None = Inr (ex_fv ids)"
  unfolding cycle_features_def ex_cycle_market [of "[]"] bindr_simps option.case Let_def ex_tick_asset
  by (simp add: assms merge_external_intelligence_def slices_valid_def Let_def opt_bind_def opt_within_def
      opt_list_def ex_fv_def plain_features_def ex_V_def ex_upper_BTC exI [of _ "ids @ []" for ids])

lemma ex_entry_proposal_from:
  "ps_nav_usd pf = 10000 \<Longrightarrow> entry_proposal ex_V ex_P ''BTC'' pf 0 None
     = (ex_proposal BUY 100)\<lparr>tp_strategy_id := ''vertical-slice-v1'', tp_signal_ids := [''validated-market-data-v1'']\<rparr>"
  by (simp add: entry_proposal_def opt_bind_def ex_proposal_def ex_V_def ex_P_def)

lemma ex_entry_proposal:
  "entry_proposal ex_V ex_P ''BTC'' (ex_snapshot 0) 0 None
     = (ex_proposal BUY 100)\<lparr>tp_strategy_id := ''vertical-slice-v1'', tp_signal_ids := [''validated-market-data-v1'']\<rparr>"
  by (rule ex_entry_proposal_from) (simp add: ex_snapshot_def)

lemma ex_more_fields:
  "cfg_risk_max_spread_bps ex_settings = 30" "cfg_pretrade_candle_interval ex_settings = ''1h''"
  by (simp_all add: ex_settings_def)

lemma ex_entry_not_blocked:
  "\<not> blocked 0 ex_engine (entry_proposal ex_V ex_P ''BTC'' (ex_snapshot 0) 0 None) (ex_snapshot 0) (Some (ex_fv ids))"
  unfolding ex_entry_proposal
  by (simp add: blocked_def state_stale_def ex_snapshot_def total_seconds_def breaker_blocks_def
      consult_breaker_def ex_engine_def venue_blocks_def ex_proposal_def ex_upper_BTC ex_assets
      loss_limits_hit_def no_room_def gross_room_def cash_room_def held_assets_def
      existing_exposure_def dict_get_or_def ex_fv_def plain_features_def ex_more_fields)

text \<open>The example cycle on any flat portfolio of the example's size that nothing blocks.\<close>

lemma ex_entry_from:
  assumes nav: "ps_nav_usd pf = 10000" and flat: "ps_held_positions pf = []"
    and free: "\<And>ids. \<not> blocked 0 ex_engine (entry_proposal ex_V ex_P ''BTC'' pf 0 None) pf (Some (ex_fv ids))"
  shows "\<exists>r cb o1. process ex_V ex_P ex_tick [ex_ref] pf [] None None 0 = Some (Inr (r, cb))
     \<and> pr_paper_order r = Some o1 \<and> \<not> in_reduce_only o1 \<and> 0 < in_notional_usd o1
     \<and> in_venue o1 = ''kraken_paper_trade'' \<and> in_side o1 = BUY \<and> pr_proposal r \<noteq> None \<and> pr_risk_result r \<noteq> None
     \<and> pr_accepted_market_data r"
proof -
  let ?p = "entry_proposal ex_V ex_P ''BTC'' pf 0 None"
  let ?fv = "ex_fv (market_source_ids ex_P ex_tick [ex_ref] [])"
  obtain divs where d: "market_data_reasons ex_P 0 ex_tick [ex_ref] = Inr ([], divs)"
    using ex_accepted market_data_accepted by blast
  have fields: "pp_risk_engine ex_P = ex_engine" "pp_pretrade_gate ex_P = None"
    "pp_onchain_regime_gate ex_P = False" "cy_ks_env ex_V = Risk.ex_env" "cy_clock ex_V = 0"
    "tick_age 0 ex_tick = 0"
    by (simp_all add: ex_P_def ex_V_def tick_age_def ex_tick_def total_seconds_def)
  have w: "withhold_reason ex_P ex_tick None ?fv = None"
    by (simp add: withhold_reason_def promote_universe_allows_def paper_daily_promote_active_def
        paper_promote_ema_9_21_active_def paper_promote_ema_9_21_adx15_active_def
        paper_promote_fund_z_harvest_sign_hold_active_def ex_P_def ex_settings_def ex_fv_def plain_features_def)
  have v: "proposal_valid ?p" unfolding ex_entry_proposal_from [OF nav] by (simp add: proposal_valid_def ex_proposal_def)
  have nh: "\<not> halted (cy_ks_env ex_V) ex_engine" using ex_not_halted fields(4) by simp
  note a = evaluate_approved [OF _ v, of ex_engine "cy_digest ex_V" "cy_ks_env ex_V" 0 pf "Some ?fv"]
  have n: "rr_decision (fst (evaluate (cy_digest ex_V) (cy_ks_env ex_V) 0 ex_engine ?p pf (Some ?fv))) \<noteq> REJECT"
    using a(1) nh free ex_settings_valid by simp
  with a(3) ex_settings_valid obtain o1 where
    o1: "order_of ?p False (fst (evaluate (cy_digest ex_V) (cy_ks_env ex_V) 0 ex_engine ?p pf (Some ?fv))) = Some o1"
    by (cases "rr_decision (fst (evaluate (cy_digest ex_V) (cy_ks_env ex_V) 0 ex_engine ?p pf (Some ?fv)))")
      (auto simp: order_of_def)
  then have fo: "\<not> in_reduce_only o1" "0 < in_notional_usd o1" "in_venue o1 = ''kraken_paper_trade''" "in_side o1 = BUY"
    by (auto simp: order_of_def ex_entry_proposal_from [OF nav] ex_proposal_def split: if_splits)
  from v o1 have "\<exists>r cb. decided ex_V ex_P 0 ?p pf ?fv None divs None = Inr (r, cb)
      \<and> pr_paper_order r = Some o1 \<and> pr_proposal r \<noteq> None \<and> pr_risk_result r \<noteq> None \<and> pr_accepted_market_data r"
    unfolding decided_def case_prod_beta by (simp add: fields)
  then obtain r cb where r: "decided ex_V ex_P 0 ?p pf ?fv None divs None = Inr (r, cb)"
    "pr_paper_order r = Some o1" "pr_proposal r \<noteq> None" "pr_risk_result r \<noteq> None" "pr_accepted_market_data r" by blast
  have "process ex_V ex_P ex_tick [ex_ref] pf [] None None 0 = Some (Inr (r, cb))"
    using r(1) w by (simp add: process_def d ex_features matching_intelligence_def ex_tick_asset fields flat
        exit_result_def enter_def onchain_regime_rejection_def)
  with r(2-5) fo show ?thesis by blast
qed

lemma ex_entry:
  "\<exists>r cb o1. process ex_V ex_P ex_tick [ex_ref] (ex_snapshot 0) [] None None 0 = Some (Inr (r, cb))
     \<and> pr_paper_order r = Some o1 \<and> \<not> in_reduce_only o1"
proof -
  have "ps_nav_usd (ex_snapshot 0) = 10000" "ps_held_positions (ex_snapshot 0) = []" by (simp_all add: ex_snapshot_def)
  from ex_entry_from [OF this ex_entry_not_blocked] show ?thesis by blast
qed

theorem pipeline_order_safe_witness:
  "\<exists>r cb o1. process ex_V ex_P ex_tick [ex_ref] (ex_snapshot 0) [] None None 0 = Some (Inr (r, cb))
     \<and> pr_paper_order r = Some o1 \<and> 0 < in_notional_usd o1 \<and> in_asset o1 = ''BTC''"
proof -
  from ex_entry obtain r cb o1 where
    o: "process ex_V ex_P ex_tick [ex_ref] (ex_snapshot 0) [] None None 0 = Some (Inr (r, cb))" "pr_paper_order r = Some o1"
    by blast
  from pipeline_order_safe [OF o] ex_settings_valid o ex_tick_asset show ?thesis by (auto simp: ex_P_def)
qed

theorem pipeline_entry_gates_witness:
  "\<exists>r cb o1. process ex_V ex_P ex_tick [ex_ref] (ex_snapshot 0) [] None None 0 = Some (Inr (r, cb))
     \<and> pr_paper_order r = Some o1 \<and> in_notional_usd o1 \<le> 100"
proof -
  from ex_entry obtain r cb o1 where
    o: "process ex_V ex_P ex_tick [ex_ref] (ex_snapshot 0) [] None None 0 = Some (Inr (r, cb))" "pr_paper_order r = Some o1"
    "\<not> in_reduce_only o1" by blast
  have s: "settings_valid (re_settings (pp_risk_engine ex_P))" using ex_settings_valid by (simp add: ex_P_def)
  have "in_notional_usd o1 \<le> ps_nav_usd (ex_snapshot 0) * pp_demonstration_notional_pct ex_P"
    using pipeline_entry_gates [OF o(1,2) s o(3)] by blast
  with o show ?thesis by (auto simp: ex_P_def ex_snapshot_def)
qed

definition ex_exit_signal :: exit_signal where
  "ex_exit_signal = \<lparr>es_reason = EX_STOP_LOSS, es_asset = ''BTC'', es_side = SELL,
     es_requested_notional_usd = 2 * exit_sizing_price_usd ex_settings 97,
     es_mark_price_usd = 97, es_entry_price_usd = 100\<rparr>"

lemma ex_hour: "interval_to_seconds ''1h'' = Some 3600"
  by (simp add: interval_to_seconds_def interval_unit_seconds_def is_digit_def int_of_digits_def str_eval Let_def)

lemma ex_last: "tk_last ex_tick = 97"
  by (simp add: ex_tick_def)

lemma ex_exit_fields:
  "cfg_trading_mode ex_settings = TM_paper" "cfg_exit_stop_loss_pct ex_settings = 1 / 50"
  "cfg_exit_take_profit_pct ex_settings = 1 / 25" "cfg_exit_trailing_stop_pct ex_settings = 0"
  "cfg_exit_time_stop_bars ex_settings = 24" "cfg_exit_on_thesis_invalidation ex_settings = False"
  by (simp_all add: ex_settings_def)

lemma ex_exit_inputs:
  "dict_get (ps_held_positions ex_holding) (tick_asset ex_tick) = Some ex_held"
  "bar_seconds_for (re_settings (pp_risk_engine ex_P)) None = Some 3600"
  "evaluate_position_exits (re_settings (pp_risk_engine ex_P)) (tick_asset ex_tick) ex_held (tk_last ex_tick) 0
     (real 3600) None None = Some ex_exit_signal"
  "0 < dict_get_or (ps_asset_exposure_usd ex_holding) (tick_asset ex_tick) 0"
  "\<not> halted (cy_ks_env ex_V) (pp_risk_engine ex_P)"
  "\<not> state_stale (re_settings (pp_risk_engine ex_P)) 0 ex_holding"
  "tick_asset ex_tick \<in> set (assets (re_settings (pp_risk_engine ex_P)))"
  "mf_spread_bps (fv_market (ex_fv ids)) \<le> cfg_risk_max_spread_bps (re_settings (pp_risk_engine ex_P))"
proof -
  have P: "pp_risk_engine ex_P = ex_engine" by (simp add: ex_P_def)
  have unpromoted: "\<not> paper_daily_promote_active ex_settings"
    by (simp add: paper_daily_promote_active_def paper_promote_ema_9_21_active_def
        paper_promote_ema_9_21_adx15_active_def paper_promote_fund_z_harvest_sign_hold_active_def ex_settings_def)
  show "dict_get (ps_held_positions ex_holding) (tick_asset ex_tick) = Some ex_held"
    by (simp add: ex_holding_def ex_tick_asset)
  show "bar_seconds_for (re_settings (pp_risk_engine ex_P)) None = Some 3600"
    using unpromoted ex_hour by (simp add: P bar_seconds_for_def effective_pretrade_candle_interval_def ex_more_fields)
  show "evaluate_position_exits (re_settings (pp_risk_engine ex_P)) (tick_asset ex_tick) ex_held (tk_last ex_tick) 0
     (real 3600) None None = Some ex_exit_signal"
    by (simp add: P ex_tick_asset ex_upper_BTC ex_exit_signal_def evaluate_position_exits_def ex_held_def
        position_exits_active_def position_exits_enabled_by_settings_def reducing_side_def
        first_fired_reason_def stop_loss_fired_def ex_last ex_exit_fields)
  show "0 < dict_get_or (ps_asset_exposure_usd ex_holding) (tick_asset ex_tick) 0"
    by (simp add: ex_tick_asset ex_holding_def dict_get_or_def ex_snapshot_def)
  show "\<not> halted (cy_ks_env ex_V) (pp_risk_engine ex_P)" using ex_not_halted by (simp add: P ex_V_def)
  show "\<not> state_stale (re_settings (pp_risk_engine ex_P)) 0 ex_holding"
    by (simp add: P state_stale_def ex_holding_def ex_snapshot_def total_seconds_def)
  show "tick_asset ex_tick \<in> set (assets (re_settings (pp_risk_engine ex_P)))"
    by (simp add: P ex_tick_asset ex_assets)
  show "mf_spread_bps (fv_market (ex_fv ids)) \<le> cfg_risk_max_spread_bps (re_settings (pp_risk_engine ex_P))"
    by (simp add: P ex_fv_def plain_features_def ex_settings_def)
qed

text \<open>A bundle of adverse news during an outage.\<close>

definition ex_bad_news :: external_intelligence where
  "ex_bad_news = \<lparr>xi_asset = ''BTC'', xi_onchain = None, xi_social = None,
     xi_news = Some \<lparr>ne_asset = ''BTC'', ne_observed_at = 0, ne_event_score = 1, ne_adverse_event = True,
       ne_item_count = 3, ne_source_id = ''crucix''\<rparr>,
     xi_altfins = None, xi_provider_unavailable = True, xi_onchain_regime = None, xi_observations = []\<rparr>"

theorem pipeline_exit_passes_witness:
  "\<exists>r cb o1. process ex_V ex_P ex_tick [ex_ref] ex_holding [] (Some ex_bad_news) None 0 = Some (Inr (r, cb))
     \<and> pr_paper_order r = Some o1 \<and> in_side o1 = SELL \<and> in_reduce_only o1"
proof -
  have v: "history_sufficient ex_P []" "\<forall>i \<in> set_option (Some ex_bad_news). intelligence_valid i"
    "0 \<le> spread_bps ex_tick" "spread_bps ex_tick \<le> cfg_risk_max_spread_bps (re_settings (pp_risk_engine ex_P))"
    "bar_seconds_for (re_settings (pp_risk_engine ex_P))
       (if [] = ([] :: candle list) then None else Some (c_interval (last []))) = Some 3600"
    using ex_exit_inputs(2)
    by (simp_all add: history_sufficient_def intelligence_valid_def ex_bad_news_def opt_bind_def opt_within_def
        ex_spread ex_P_def ex_settings_def)
  from pipeline_exit_passes [OF ex_accepted v(3,1,2) ex_exit_inputs(1) v(5) ex_exit_inputs(3-7) v(4), of None]
  show ?thesis by blast
qed

definition ex_orchestrator :: orchestrator where
  "ex_orchestrator = \<lparr>io_onchain = None, io_social = None, io_news = [], io_require_any_external = False,
     io_altfins = None, io_fail_closed_news = [\<lambda>a. None], io_onchain_regime = None\<rparr>"

definition ex_cache :: intelligence_cache where
  "ex_cache = \<lparr>ic_max_age_seconds = 300, ic_values = []\<rparr>"

definition ex_outage :: external_intelligence where
  "ex_outage = \<lparr>xi_asset = ''BTC'', xi_onchain = None, xi_social = None, xi_news = None, xi_altfins = None,
     xi_provider_unavailable = True, xi_onchain_regime = None, xi_observations = []\<rparr>"

lemma ex_gather: "gather ex_orchestrator 0 ''BTC'' ex_cache = (Inr ex_outage, ex_cache)"
  by (simp add: gather_def fetch_one_def fetch_news_def cache_get_def ex_orchestrator_def ex_cache_def
      ex_outage_def ex_upper_BTC opt_list_def Let_def)

theorem outage_adds_no_risk_witness:
  "\<exists>r cb o1. process ex_V ex_P ex_tick [ex_ref] ex_holding [] (Some ex_outage) None 0 = Some (Inr (r, cb))
     \<and> pr_paper_order r = Some o1 \<and> in_reduce_only o1"
proof -
  have m: "matching_intelligence (tick_asset ex_tick) (Some ex_outage) = Some ex_outage"
    by (simp add: matching_intelligence_def ex_outage_def ex_tick_asset ex_upper_BTC)
  obtain ids where "cycle_features ex_V ex_P ex_tick [ex_ref] [] (Some ex_outage) None = Inr (ex_fv ids)"
    using ex_features_outage [OF ex_outage_def] by blast
  then obtain r cb o1 where o:
    "process ex_V ex_P ex_tick [ex_ref] ex_holding [] (Some ex_outage) None 0 = Some (Inr (r, cb))"
    "pr_paper_order r = Some o1"
    using exit_order [of ex_P 0 ex_tick "[ex_ref]" ex_V "[]" "Some ex_outage" None "ex_fv ids" ex_holding ex_held 3600 ex_exit_signal]
      ex_accepted ex_exit_inputs m by fastforce
  have g: "gather ex_orchestrator 0 (tick_asset ex_tick) ex_cache = (Inr ex_outage, ex_cache)"
    "cache_get as_bundle 0 (news_key (tick_asset ex_tick)) ex_cache = None"
    "(\<lambda>a. None) \<in> set (io_fail_closed_news ex_orchestrator)" "settings_valid (re_settings (pp_risk_engine ex_P))"
    using ex_gather ex_settings_valid
    by (simp_all add: ex_tick_asset cache_get_def ex_cache_def ex_orchestrator_def ex_P_def)
  from outage_adds_no_risk [OF g(1-3) _ o g(4)] o show ?thesis by blast
qed

definition ex_builder :: feature_builder where
  "ex_builder = \<lparr>fb_trend_4h_lookback = 4, fb_trend_1d_lookback = 24, fb_volatility_lookback = 24,
     fb_volume_lookback = 24, fb_garch_enabled = False, fb_garch_min_train = 120, fb_garch_target_vol_ann = 1/2\<rparr>"

theorem short_history_raises_witness:
  "process ex_V (ex_P\<lparr>pp_feature_builder := Some ex_builder\<rparr>) ex_tick [ex_ref] ex_holding [ex_candle 0]
     None None 0 = Some (Inl ValueError)"
proof (rule short_history_raises [where b = ex_builder])
  show "data_accepted (ex_P\<lparr>pp_feature_builder := Some ex_builder\<rparr>) 0 ex_tick [ex_ref]"
    using ex_accepted by (simp add: data_accepted_def)
qed (simp_all add: ex_spread ex_builder_def)

end
