(* ===== verification/Specialists.thy ===== *)
theory Specialists
  imports Strategies Features
begin

text \<open>
  The deterministic specialist agents and their committee (\<open>agents/specialists.py\<close>). The rationale
  keeps the named components and the block reasons its text prints.
\<close>

section \<open>Data\<close>

record technical_specialist =
  ts_strategy_id :: string
  ts_trend_threshold :: real
  ts_max_spread_bps :: real
  ts_max_volatility_z :: real
  ts_min_relative_volume :: real

record onchain_specialist =
  os_strategy_id :: string
  os_netflow_z_threshold :: real
  os_accumulation_threshold :: real
  os_score_threshold :: real

record narrative_specialist =
  ns_strategy_id :: string
  ns_sentiment_threshold :: real
  ns_mention_velocity_z_threshold :: real
  ns_score_threshold :: real
  ns_max_event_score :: real
  ns_adverse_event_blocks :: bool

record specialist_committee =
  sc_committee_id :: string
  sc_technical :: technical_specialist
  sc_onchain :: onchain_specialist
  sc_narrative :: narrative_specialist

section \<open>Operations\<close>

definition side_for :: "real \<Rightarrow> real \<Rightarrow> side option" where
  "side_for score threshold =
     (if threshold \<le> score then Some BUY else if score \<le> - threshold then Some SELL else None)"

definition specialist_signal ::
    "string \<Rightarrow> string \<Rightarrow> regime \<Rightarrow> real \<Rightarrow> real \<Rightarrow> rationale \<Rightarrow> bool \<Rightarrow> strategy_signal" where
  "specialist_signal sid symbol rg raw threshold why blockd =
     (let score = clamp1 raw; sd = (if blockd then None else side_for score threshold)
      in \<lparr>sg_strategy_id = sid, sg_symbol = symbol, sg_side = sd, sg_score = score,
          sg_confidence = (if sd \<noteq> None then strength_of score (threshold * 2) else 0),
          sg_regime = rg, sg_rationale = [why], sg_signal_version = None\<rparr>)"

definition target_symbol :: "asset_feature_vector \<Rightarrow> string option \<Rightarrow> string" where
  "target_symbol v symbol = text_or symbol (upper (fv_asset v) @ ''/USD'')"

definition technical_evaluate ::
    "technical_specialist \<Rightarrow> asset_feature_vector \<Rightarrow> regime \<Rightarrow> string option \<Rightarrow> strategy_signal" where
  "technical_evaluate s v rg symbol =
     (let m = fv_market v;
          blocks = (if ts_max_spread_bps s < mf_spread_bps m then [''spread_too_wide''] else [])
            @ (if ts_max_volatility_z s < \<bar>mf_volatility_z m\<bar> then [''volatility_out_of_band''] else [])
            @ (if mf_relative_volume m < ts_min_relative_volume s then [''participation_too_low''] else [])
      in specialist_signal (ts_strategy_id s) (target_symbol v symbol) rg
           ((mf_trend_4h m + mf_trend_1d m) / 2) (ts_trend_threshold s)
           (RComponents [(''trend_4h'', mf_trend_4h m), (''trend_1d'', mf_trend_1d m)] blocks)
           (blocks \<noteq> []))"

definition scaled :: "real \<Rightarrow> real \<Rightarrow> real" where
  "scaled x threshold = clamp1 (x / max (threshold * 2) eps9)"

definition component :: "string \<Rightarrow> (real \<Rightarrow> real) \<Rightarrow> real option \<Rightarrow> (string \<times> real \<times> real) list" where
  "component label f x = (case x of None \<Rightarrow> [] | Some v \<Rightarrow> [(label, v, f v)])"

definition parts_of :: "(string \<times> real \<times> real) list \<Rightarrow> (string \<times> real) list" where
  "parts_of cs = map (\<lambda>(label, v, _). (label, v)) cs"

definition blend :: "(string \<times> real \<times> real) list \<Rightarrow> real" where
  "blend cs = (if cs \<noteq> [] then py_sum (map (\<lambda>(_, _, c). c) cs) / real (length cs) else 0)"

definition onchain_evaluate ::
    "onchain_specialist \<Rightarrow> asset_feature_vector \<Rightarrow> regime \<Rightarrow> string option \<Rightarrow> strategy_signal" where
  "onchain_evaluate s v rg symbol =
     (let oc = fv_onchain v;
          cs = component ''netflow_z'' (\<lambda>x. scaled (- x) (os_netflow_z_threshold s)) (oc_exchange_netflow_z oc)
             @ component ''accumulation'' (\<lambda>x. scaled x (os_accumulation_threshold s)) (oc_large_wallet_accumulation oc)
      in if cs = []
         then specialist_signal (os_strategy_id s) (target_symbol v symbol) rg 0 (os_score_threshold s)
                (RComponents [] [''no on-chain evidence available'']) True
         else specialist_signal (os_strategy_id s) (target_symbol v symbol) rg (blend cs) (os_score_threshold s)
                (RComponents (parts_of cs) []) False)"

definition narrative_evaluate ::
    "narrative_specialist \<Rightarrow> asset_feature_vector \<Rightarrow> regime \<Rightarrow> string option \<Rightarrow> strategy_signal" where
  "narrative_evaluate s v rg symbol =
     (let n = fv_narrative v; w = fv_news v;
          cs = component ''sentiment'' (\<lambda>x. scaled x (ns_sentiment_threshold s)) (nf_sentiment n)
             @ component ''mention_velocity_z'' (\<lambda>x. scaled x (ns_mention_velocity_z_threshold s)) (nf_mention_velocity_z n);
          blocks = (if ns_adverse_event_blocks s \<and> nw_adverse_event w then [''adverse_event''] else [])
            @ (if ns_max_event_score s < nw_event_score w then [''event_score_above_maximum''] else [])
            @ (if cs = [] then [''no_narrative_evidence''] else [])
      in specialist_signal (ns_strategy_id s) (target_symbol v symbol) rg (blend cs) (ns_score_threshold s)
           (RComponents (parts_of cs) blocks) (blocks \<noteq> []))"

definition committee_evaluate ::
    "specialist_committee \<Rightarrow> asset_feature_vector \<Rightarrow> regime \<Rightarrow> string option \<Rightarrow> strategy_signal list" where
  "committee_evaluate c v rg symbol =
     [technical_evaluate (sc_technical c) v rg symbol, onchain_evaluate (sc_onchain c) v rg symbol,
      narrative_evaluate (sc_narrative c) v rg symbol]"

text \<open>\<open>combine_signals\<close> with its default of one agreeing signal; \<open>version\<close> is the hash of the committee.\<close>

definition committee_consensus ::
    "string option \<Rightarrow> specialist_committee \<Rightarrow> strategy_signal list \<Rightarrow> strategy_signal option option" where
  "committee_consensus version c signals = combine_signals signals (sc_committee_id c) version 1"

section \<open>Properties\<close>

lemma specialist_signal_valid: "signal_valid (specialist_signal sid symb rg raw th why b)"
  by (simp add: specialist_signal_def signal_ranges Let_def)

text \<open>Every specialist signal is in range, and missing or adverse evidence never yields a side.\<close>

lemma committee_signals_valid: "list_all signal_valid (committee_evaluate c v rg symbol)"
  by (simp add: committee_evaluate_def technical_evaluate_def onchain_evaluate_def narrative_evaluate_def
      specialist_signal_valid Let_def)

lemma blocked_has_no_side: "sg_side (specialist_signal sid symb rg raw th why True) = None"
  by (simp add: specialist_signal_def Let_def)

lemma no_evidence_no_side:
  "oc_exchange_netflow_z (fv_onchain v) = None \<Longrightarrow> oc_large_wallet_accumulation (fv_onchain v) = None \<Longrightarrow>
     sg_side (onchain_evaluate s v rg symbol) = None"
  "nf_sentiment (fv_narrative v) = None \<Longrightarrow> nf_mention_velocity_z (fv_narrative v) = None \<Longrightarrow>
     sg_side (narrative_evaluate n v rg symbol) = None"
  "ns_adverse_event_blocks n \<Longrightarrow> nw_adverse_event (fv_news v) \<Longrightarrow>
     sg_side (narrative_evaluate n v rg symbol) = None"
  by (simp_all add: onchain_evaluate_def narrative_evaluate_def component_def blocked_has_no_side Let_def)

end
