(* ===== verification/Meta_Review.thy ===== *)
theory Meta_Review
  imports Pipeline Specialists
begin

text \<open>
  The bounded review stage between the risk engine and execution (\<open>agents/review.py\<close>, with the
  packet and decision types of \<open>agents/meta.py\<close>). The model behind the client is a function of the
  packet whose answer is a decision, a timeout, an exception or a cancellation; the hash behind the
  evidence digest is a parameter. Prometheus counters are left out.
\<close>

section \<open>Data\<close>

record meta_decision =
  md_approve :: bool
  md_confidence_delta :: real
  md_rationale :: string
  md_risk_flags :: "string list"

definition decision_valid :: "meta_decision \<Rightarrow> bool" where
  "decision_valid d \<longleftrightarrow>
     - (15/100) \<le> md_confidence_delta d \<and> md_confidence_delta d \<le> 15/100
   \<and> length (md_rationale d) \<le> 2000 \<and> length (md_risk_flags d) \<le> 16"

record meta_call =
  mc_decision :: meta_decision
  mc_model :: "string option"
  mc_input_tokens :: nat
  mc_output_tokens :: nat

definition total_tokens :: "meta_call \<Rightarrow> nat" where
  "total_tokens c = mc_input_tokens c + mc_output_tokens c"

record pretrade_summary =
  pts_passed :: bool
  pts_reasons :: "string list"
  pts_confirmed_side :: "side option"
  pts_confidence :: real
  pts_regime :: "regime option"
  pts_candles_evaluated :: nat
  pts_excess_return :: "real option"
  pts_max_drawdown :: "real option"
  pts_sharpe :: "real option"
  pts_trades :: "nat option"
  pts_walkforward_mean_excess_return :: "real option"
  pts_walkforward_worst_drawdown :: "real option"

record risk_summary =
  rk_decision :: risk_decision
  rk_approved_notional_usd :: real
  rk_reasons :: "risk_reason list"
  rk_policy_version :: string

record evidence_packet =
  ep_asset :: string
  ep_feature_vector :: asset_feature_vector
  ep_strategy_signal :: strategy_signal
  ep_requested_notional_usd :: real
  ep_specialist_signals :: "strategy_signal list"
  ep_pretrade :: "pretrade_summary option"
  ep_risk :: "risk_summary option"
  ep_schema_version :: string

datatype call_outcome =
    Answered meta_call
  | CallTimedOut
  | CallRaised string
  | CallCancelled

text \<open>The \<open>error\<close> text of a review, as the values it prints.\<close>

datatype review_error = BudgetExhausted string | ReviewTimeout real | ReviewRaised string

record meta_review =
  mr_mode :: meta_agent_mode
  mr_called :: bool
  mr_cached :: bool
  mr_approved :: "bool option"
  mr_confidence_delta :: "real option"
  mr_rationale :: "string option"
  mr_risk_flags :: "string list"
  mr_prompt_version :: string
  mr_prompt_hash :: string
  mr_model :: "string option"
  mr_latency_seconds :: "real option"
  mr_input_tokens :: nat
  mr_output_tokens :: nat
  mr_estimated_cost_usd :: real
  mr_error :: "review_error option"
  mr_evidence_digest :: "string option"
  mr_suppressed_order :: bool
  mr_suppression_reason :: "string option"
  mr_applied_confidence :: "real option"
  mr_specialist_signals :: "strategy_signal list"

definition usable :: "meta_review \<Rightarrow> bool" where
  "usable r \<longleftrightarrow> mr_error r = None \<and> mr_approved r \<noteq> None"

section \<open>The daily budget\<close>

record daily_budget =
  db_max_calls :: nat
  db_max_tokens :: nat
  db_day :: "date option"
  db_calls :: nat
  db_tokens :: nat

definition roll :: "date \<Rightarrow> daily_budget \<Rightarrow> daily_budget" where
  "roll today b =
     (if db_day b \<noteq> Some today then b\<lparr>db_day := Some today, db_calls := 0, db_tokens := 0\<rparr> else b)"

definition exhausted :: "datetime \<Rightarrow> daily_budget \<Rightarrow> string option \<times> daily_budget" where
  "exhausted now b =
     (let b1 = roll (utc_date now) b
      in (if db_max_calls b1 \<noteq> 0 \<and> db_max_calls b1 \<le> db_calls b1 then Some ''daily_call_budget_exhausted''
          else if db_max_tokens b1 \<noteq> 0 \<and> db_max_tokens b1 \<le> db_tokens b1
          then Some ''daily_token_budget_exhausted'' else None, b1))"

definition record_call :: "nat \<Rightarrow> datetime \<Rightarrow> daily_budget \<Rightarrow> daily_budget" where
  "record_call tokens now b =
     (let b1 = roll (utc_date now) b
      in b1\<lparr>db_calls := db_calls b1 + 1, db_tokens := db_tokens b1 + tokens\<rparr>)"

section \<open>The evidence cache\<close>

record evidence_cache =
  ec_ttl_seconds :: real
  ec_entries :: "(real \<times> meta_review) dict"

definition evidence_get :: "real \<Rightarrow> string \<Rightarrow> evidence_cache \<Rightarrow> meta_review option \<times> evidence_cache" where
  "evidence_get tmono digest c =
     (if ec_ttl_seconds c \<le> 0 then (None, c)
      else case dict_get (ec_entries c) digest of
             None \<Rightarrow> (None, c)
           | Some (stored_at, review) \<Rightarrow>
               if ec_ttl_seconds c < tmono - stored_at
               then (None, c\<lparr>ec_entries := AList.delete digest (ec_entries c)\<rparr>)
               else (Some review, c))"

definition evidence_put :: "real \<Rightarrow> string \<Rightarrow> meta_review \<Rightarrow> evidence_cache \<Rightarrow> evidence_cache" where
  "evidence_put tmono digest review c =
     (if ec_ttl_seconds c \<le> 0 \<or> \<not> usable review then c
      else c\<lparr>ec_entries := dict_set digest (tmono, review) (ec_entries c)\<rparr>)"

section \<open>The packet\<close>

definition summarize_pretrade :: "pipeline_result \<Rightarrow> pretrade_summary option" where
  "summarize_pretrade r =
     map_option (\<lambda>c.
       \<lparr>pts_passed = pc_passed c, pts_reasons = pc_reasons c, pts_confirmed_side = pc_confirmed_side c,
        pts_confidence = pc_confidence c, pts_regime = pc_regime c,
        pts_candles_evaluated = pc_candles_evaluated c,
        pts_excess_return = map_option bm_excess_return (pc_metrics c),
        pts_max_drawdown = map_option bm_max_drawdown (pc_metrics c),
        pts_sharpe = map_option bm_sharpe (pc_metrics c), pts_trades = map_option bm_trades (pc_metrics c),
        pts_walkforward_mean_excess_return = map_option wr_mean_excess_return (pc_walkforward c),
        pts_walkforward_worst_drawdown = map_option wr_worst_drawdown (pc_walkforward c)\<rparr>)
     (pr_pretrade_check r)"

definition baseline_signal :: "string \<Rightarrow> regime \<Rightarrow> trade_proposal \<Rightarrow> strategy_signal" where
  "baseline_signal symbol rg p =
     \<lparr>sg_strategy_id = (case tp_signal_ids p of [] \<Rightarrow> tp_strategy_id p | i # _ \<Rightarrow> i),
      sg_symbol = symbol, sg_side = Some (tp_side p),
      sg_score = clamp1 (tp_confidence p * (if tp_side p = BUY then 1 else -1)),
      sg_confidence = tp_confidence p, sg_regime = rg, sg_rationale = [RThesis (tp_thesis p)],
      sg_signal_version = None\<rparr>"

definition build_evidence_packet ::
    "string \<Rightarrow> pipeline_result \<Rightarrow> specialist_committee option \<Rightarrow> evidence_packet option" where
  "build_evidence_packet symbol r committee =
     (case (pr_proposal r, pr_feature_vector r) of
        (Some p, Some v) \<Rightarrow>
          (let rg = opt_or (opt_bind pc_regime (pr_pretrade_check r)) RANGE_BOUND
           in Some \<lparr>ep_asset = upper (tp_asset p), ep_feature_vector = v,
                ep_strategy_signal = baseline_signal symbol rg p,
                ep_requested_notional_usd = tp_requested_notional_usd p,
                ep_specialist_signals = (case committee of None \<Rightarrow> []
                  | Some c \<Rightarrow> committee_evaluate c v rg (Some symbol)),
                ep_pretrade = summarize_pretrade r,
                ep_risk = map_option (\<lambda>x. \<lparr>rk_decision = rr_decision x,
                  rk_approved_notional_usd = rr_approved_notional_usd x, rk_reasons = rr_reasons x,
                  rk_policy_version = rr_policy_version x\<rparr>) (pr_risk_result r),
                ep_schema_version = ''1.1''\<rparr>)
      | _ \<Rightarrow> None)"

text \<open>The observation time of the features is excluded from the digest.\<close>

definition evidence_digest :: "(evidence_packet \<Rightarrow> string) \<Rightarrow> evidence_packet \<Rightarrow> string" where
  "evidence_digest sha p =
     ''sha256:'' @ sha (p\<lparr>ep_feature_vector := (ep_feature_vector p)\<lparr>fv_observed_at := 0\<rparr>\<rparr>)"

section \<open>The reviewer\<close>

record meta_reviewer =
  mv_client :: "(evidence_packet \<Rightarrow> call_outcome) option"
  mv_mode :: meta_agent_mode
  mv_model :: string
  mv_timeout_seconds :: real
  mv_prompt_version :: string
  mv_prompt_hash :: string
  mv_committee :: "specialist_committee option"
  mv_cache :: evidence_cache
  mv_budget :: daily_budget
  mv_input_cost_per_mtok :: real
  mv_output_cost_per_mtok :: real

text \<open>The clocks of one review: UTC before and after the call, monotonic before and after.\<close>

record review_clock =
  rc_now :: datetime
  rc_later :: datetime
  rc_mono :: real
  rc_mono_later :: real

definition blank_review :: "meta_reviewer \<Rightarrow> meta_review" where
  "blank_review S =
     \<lparr>mr_mode = mv_mode S, mr_called = False, mr_cached = False, mr_approved = None,
      mr_confidence_delta = None, mr_rationale = None, mr_risk_flags = [],
      mr_prompt_version = mv_prompt_version S, mr_prompt_hash = mv_prompt_hash S,
      mr_model = Some (mv_model S), mr_latency_seconds = None, mr_input_tokens = 0, mr_output_tokens = 0,
      mr_estimated_cost_usd = 0, mr_error = None, mr_evidence_digest = None,
      mr_suppressed_order = False, mr_suppression_reason = None, mr_applied_confidence = None,
      mr_specialist_signals = []\<rparr>"

definition review_cost :: "meta_reviewer \<Rightarrow> meta_call \<Rightarrow> real" where
  "review_cost S c =
     (real (mc_input_tokens c) * mv_input_cost_per_mtok S
      + real (mc_output_tokens c) * mv_output_cost_per_mtok S) / 1000000"

definition failed_review ::
    "meta_reviewer \<Rightarrow> review_clock \<Rightarrow> string \<Rightarrow> evidence_packet \<Rightarrow> review_error \<Rightarrow> meta_review" where
  "failed_review S k digest p e =
     (blank_review S)\<lparr>mr_called := True, mr_evidence_digest := Some digest,
       mr_latency_seconds := Some (rc_mono_later k - rc_mono k), mr_error := Some e,
       mr_specialist_signals := ep_specialist_signals p\<rparr>"

definition answered_review ::
    "meta_reviewer \<Rightarrow> review_clock \<Rightarrow> string \<Rightarrow> evidence_packet \<Rightarrow> meta_call \<Rightarrow> meta_review" where
  "answered_review S k digest p c =
     (blank_review S)\<lparr>mr_called := True, mr_approved := Some (md_approve (mc_decision c)),
       mr_confidence_delta := Some (md_confidence_delta (mc_decision c)),
       mr_rationale := Some (md_rationale (mc_decision c)), mr_risk_flags := md_risk_flags (mc_decision c),
       mr_model := Some (text_or (mc_model c) (mv_model S)),
       mr_latency_seconds := Some (rc_mono_later k - rc_mono k), mr_input_tokens := mc_input_tokens c,
       mr_output_tokens := mc_output_tokens c, mr_estimated_cost_usd := review_cost S c,
       mr_evidence_digest := Some digest, mr_specialist_signals := ep_specialist_signals p\<rparr>"

text \<open>The model call with its accounting; \<open>None\<close> is the cancellation that propagates.\<close>

definition ask_model ::
    "meta_reviewer \<Rightarrow> review_clock \<Rightarrow> string \<Rightarrow> evidence_packet \<Rightarrow> (evidence_packet \<Rightarrow> call_outcome)
       \<Rightarrow> meta_review option \<times> meta_reviewer" where
  "ask_model S k digest p client =
     (case client p of
        CallCancelled \<Rightarrow> (None, S)
      | CallTimedOut \<Rightarrow>
          (Some (failed_review S k digest p (ReviewTimeout (mv_timeout_seconds S))),
           S\<lparr>mv_budget := record_call 0 (rc_later k) (mv_budget S)\<rparr>)
      | CallRaised msg \<Rightarrow>
          (Some (failed_review S k digest p (ReviewRaised msg)),
           S\<lparr>mv_budget := record_call 0 (rc_later k) (mv_budget S)\<rparr>)
      | Answered c \<Rightarrow>
          (let r = answered_review S k digest p c
           in (Some r, S\<lparr>mv_budget := record_call (total_tokens c) (rc_later k) (mv_budget S),
                         mv_cache := evidence_put (rc_mono_later k) digest r (mv_cache S)\<rparr>)))"

definition review_packet ::
    "(evidence_packet \<Rightarrow> string) \<Rightarrow> meta_reviewer \<Rightarrow> review_clock \<Rightarrow> evidence_packet
       \<Rightarrow> (evidence_packet \<Rightarrow> call_outcome) \<Rightarrow> meta_review option \<times> meta_reviewer" where
  "review_packet sha S k p client =
     (let digest = evidence_digest sha p; (hit, cache) = evidence_get (rc_mono k) digest (mv_cache S);
          S1 = S\<lparr>mv_cache := cache\<rparr>
      in case hit of
           Some r \<Rightarrow> (Some (r\<lparr>mr_cached := True, mr_specialist_signals := ep_specialist_signals p\<rparr>), S1)
         | None \<Rightarrow>
             (case exhausted (rc_now k) (mv_budget S1) of
                (why, b) \<Rightarrow>
                  (let S2 = S1\<lparr>mv_budget := b\<rparr>
                   in case why of
                        Some e \<Rightarrow>
                          (Some ((blank_review S2)\<lparr>mr_evidence_digest := Some digest,
                             mr_error := Some (BudgetExhausted e),
                             mr_specialist_signals := ep_specialist_signals p\<rparr>), S2)
                      | None \<Rightarrow> ask_model S2 k digest p client)))"

definition is_exit_cycle :: "pipeline_result \<Rightarrow> bool" where
  "is_exit_cycle r = (case pr_proposal r of None \<Rightarrow> False | Some p \<Rightarrow> is_exit_strategy_id (tp_strategy_id p))"

definition review ::
    "(evidence_packet \<Rightarrow> string) \<Rightarrow> meta_reviewer \<Rightarrow> review_clock \<Rightarrow> string \<Rightarrow> pipeline_result
       \<Rightarrow> meta_review option \<times> meta_reviewer" where
  "review sha S k symbol r =
     (case mv_client S of
        None \<Rightarrow> (Some (blank_review S), S)
      | Some client \<Rightarrow>
          if mv_mode S = MA_off \<or> is_exit_cycle r then (Some (blank_review S), S)
          else case build_evidence_packet symbol r (mv_committee S) of
                 None \<Rightarrow> (Some (blank_review S), S)
               | Some p \<Rightarrow> review_packet sha S k p client)"

definition suppress :: "pipeline_result \<Rightarrow> meta_review \<Rightarrow> string \<Rightarrow> pipeline_result \<times> meta_review" where
  "suppress r v reason =
     (r\<lparr>pr_paper_order := None, pr_rejection_reasons := pr_rejection_reasons r @ [reason]\<rparr>,
      v\<lparr>mr_suppressed_order := True, mr_suppression_reason := Some reason\<rparr>)"

definition apply_review ::
    "meta_reviewer \<Rightarrow> pipeline_result \<Rightarrow> meta_review \<Rightarrow> pipeline_result \<times> meta_review" where
  "apply_review S r v =
     (case pr_proposal r of
        None \<Rightarrow> (r, v)
      | Some p \<Rightarrow>
          if mv_mode S \<noteq> MA_veto then (r, v)
          else if is_exit_strategy_id (tp_strategy_id p) then (r, v)
          else if \<not> usable v then suppress r v ''meta_agent_unavailable''
          else if mr_approved v = Some False then suppress r v ''meta_agent_veto''
          else
            (let adjusted = max 0 (min 1 (tp_confidence p + opt_or (mr_confidence_delta v) 0))
             in (r\<lparr>pr_proposal := Some (p\<lparr>tp_confidence := adjusted\<rparr>)\<rparr>,
                 v\<lparr>mr_applied_confidence := Some adjusted\<rparr>)))"

definition run_review ::
    "(evidence_packet \<Rightarrow> string) \<Rightarrow> meta_reviewer \<Rightarrow> review_clock \<Rightarrow> string \<Rightarrow> pipeline_result
       \<Rightarrow> (pipeline_result \<times> meta_review) option \<times> meta_reviewer" where
  "run_review sha S k symbol r =
     (case review sha S k symbol r of
        (None, S') \<Rightarrow> (None, S')
      | (Some v, S') \<Rightarrow> (Some (apply_review S' r v), S'))"

section \<open>The review is a gate\<close>

definition order_exposure :: "pipeline_result \<Rightarrow> real" where
  "order_exposure r = (case pr_paper_order r of None \<Rightarrow> 0 | Some i \<Rightarrow> max 0 (in_notional_usd i))"

lemma apply_review_order:
  "pr_paper_order (fst (apply_review S r v)) = pr_paper_order r
   \<or> pr_paper_order (fst (apply_review S r v)) = None"
  by (auto simp: apply_review_def suppress_def Let_def split: option.splits)

definition review_stage :: "meta_reviewer \<times> meta_review \<Rightarrow> pipeline_result \<Rightarrow> pipeline_result" where
  "review_stage c r = fst (apply_review (fst c) r (snd c))"

interpretation meta: gated order_exposure review_stage
proof
  fix c :: "meta_reviewer \<times> meta_review" and a :: pipeline_result
  show "order_exposure (review_stage c a) \<le> order_exposure a"
    using apply_review_order [of "fst c" a "snd c"]
    by (auto simp: review_stage_def order_exposure_def split: option.splits)
qed

text \<open>
  C22: the review can only withhold. Whatever the review says, applying it leaves the side, the
  asset, the requested size and the risk result of the cycle unchanged, the paper order is either
  exactly the one the risk engine approved or gone, exits pass untouched, outside veto mode nothing
  changes at all, and any number of reviews in a row never increases the exposure of the cycle.
\<close>

theorem review_only_withholds:
  "let r' = fst (apply_review S r v) in
     (pr_paper_order r' = pr_paper_order r \<or> pr_paper_order r' = None)
   \<and> pr_risk_result r' = pr_risk_result r \<and> pr_feature_vector r' = pr_feature_vector r
   \<and> map_option (\<lambda>p. p\<lparr>tp_confidence := 0\<rparr>) (pr_proposal r') = map_option (\<lambda>p. p\<lparr>tp_confidence := 0\<rparr>) (pr_proposal r)
   \<and> (mv_mode S \<noteq> MA_veto \<or> is_exit_cycle r \<longrightarrow> r' = r)
   \<and> order_exposure (foldl (\<lambda>a c. review_stage c a) r cs) \<le> order_exposure r"
proof -
  have "order_exposure (foldl (\<lambda>a c. review_stage c a) r cs) \<le> order_exposure r"
    by (rule meta.stages_shrink)
  then show ?thesis
    by (auto simp: apply_review_def suppress_def is_exit_cycle_def Let_def split: option.splits)
qed

section \<open>Failing closed\<close>

lemma answered_usable [simp]: "usable (answered_review S k g p c)"
  by (simp add: usable_def answered_review_def blank_review_def)

lemma failed_unusable [simp]: "\<not> usable (failed_review S k g p e)"
  by (simp add: usable_def failed_review_def)

lemma blank_unusable [simp]: "\<not> usable (blank_review S)"
  by (simp add: usable_def blank_review_def)

lemma review_approved:
  assumes "review sha S k symbol r = (Some v, S')" "usable v" "mr_approved v = Some True"
  shows "\<exists>client p. mv_client S = Some client \<and> build_evidence_packet symbol r (mv_committee S) = Some p
    \<and> ((\<exists>c. client p = Answered c \<and> md_approve (mc_decision c)
          \<and> fst (exhausted (rc_now k) (mv_budget S)) = None)
     \<or> (\<exists>t w. dict_get (ec_entries (mv_cache S)) (evidence_digest sha p) = Some (t, w)
          \<and> rc_mono k - t \<le> ec_ttl_seconds (mv_cache S) \<and> mr_approved w = Some True))"
proof -
  from assms(1,2) obtain client p where c: "mv_client S = Some client"
    and p: "build_evidence_packet symbol r (mv_committee S) = Some p"
    and rv: "review_packet sha S k p client = (Some v, S')"
    by (auto simp: review_def split: option.splits if_splits)
  obtain hit cache where h: "evidence_get (rc_mono k) (evidence_digest sha p) (mv_cache S) = (hit, cache)"
    by (metis prod.exhaust)
  obtain why b where x: "exhausted (rc_now k) (mv_budget S) = (why, b)" by (metis prod.exhaust)
  show ?thesis
  proof (cases hit)
    case (Some w)
    with h obtain t where "dict_get (ec_entries (mv_cache S)) (evidence_digest sha p) = Some (t, w)"
      "rc_mono k - t \<le> ec_ttl_seconds (mv_cache S)"
      by (auto simp: evidence_get_def split: if_splits option.splits)
    moreover have "mr_approved w = Some True"
      using rv assms(3) by (auto simp: review_packet_def h Some Let_def)
    ultimately show ?thesis using c p by blast
  next
    case None
    with rv assms(2) have w: "why = None"
      by (auto simp: review_packet_def h x Let_def usable_def split: option.splits)
    with rv None have "ask_model (S\<lparr>mv_cache := cache, mv_budget := b\<rparr>) k (evidence_digest sha p) p client = (Some v, S')"
      by (simp add: review_packet_def h x Let_def)
    with assms(2,3) obtain d where "client p = Answered d" "md_approve (mc_decision d)"
      by (auto simp: ask_model_def answered_review_def Let_def split: call_outcome.splits)
    with c p x w show ?thesis by auto
  qed
qed

lemma review_keeps_mode: "review sha S k symbol r = (x, S') \<Longrightarrow> mv_mode S' = mv_mode S"
  by (auto simp: review_def review_packet_def ask_model_def Let_def split: option.splits if_splits
      prod.splits call_outcome.splits)

text \<open>
  C23: in veto mode the review fails closed. When the order of a risk-adding cycle survives the
  review, the model approved this very evidence: it answered an approving decision within the daily
  budget, or an approving answer to the same evidence is in the cache within its lifetime. A
  timeout, an exception, an exhausted budget, a missing client or a refusal leave no order.
\<close>

theorem review_fails_closed:
  assumes "run_review sha S k symbol r = (Some (r', v), S')" and "mv_mode S = MA_veto"
    and "pr_proposal r \<noteq> None" and "\<not> is_exit_cycle r" and "pr_paper_order r' \<noteq> None"
  shows "\<exists>client p. mv_client S = Some client \<and> build_evidence_packet symbol r (mv_committee S) = Some p
    \<and> ((\<exists>c. client p = Answered c \<and> md_approve (mc_decision c)
          \<and> fst (exhausted (rc_now k) (mv_budget S)) = None)
     \<or> (\<exists>t w. dict_get (ec_entries (mv_cache S)) (evidence_digest sha p) = Some (t, w)
          \<and> rc_mono k - t \<le> ec_ttl_seconds (mv_cache S) \<and> mr_approved w = Some True))"
proof -
  from assms(1) obtain v0 where rv: "review sha S k symbol r = (Some v0, S')"
    and ap: "apply_review S' r v0 = (r', v)"
    by (auto simp: run_review_def split: prod.splits option.splits)
  have m: "mv_mode S' = MA_veto" using review_keeps_mode [OF rv] assms(2) by simp
  from ap m assms(3-5) have u: "usable v0" "mr_approved v0 \<noteq> Some False"
    by (auto simp: apply_review_def suppress_def is_exit_cycle_def Let_def split: option.splits if_splits)
  then have "mr_approved v0 = Some True" by (auto simp: usable_def)
  from review_approved [OF rv u(1) this] show ?thesis .
qed

section \<open>The call budget\<close>

definition budget_spent :: "daily_budget \<Rightarrow> date \<Rightarrow> nat" where
  "budget_spent b d = (if db_day b = Some d then db_calls b else 0)"

text \<open>One attempt within a UTC day: ask the budget, and on a pass record a call of the given tokens.\<close>

definition attempt :: "date \<Rightarrow> nat \<Rightarrow> daily_budget \<Rightarrow> daily_budget \<times> bool" where
  "attempt d tokens b =
     (case exhausted (d * 86400000000) b of
        (None, b1) \<Rightarrow> (record_call tokens (d * 86400000000) b1, True)
      | (Some _, b1) \<Rightarrow> (b1, False))"

lemma utc_date_midnight: "utc_date (d * 86400000000) = d"
  by (simp add: utc_date_def)

interpretation budget: budgeted budget_spent db_max_calls attempt
proof
  fix d tokens b b'
  show "attempt d tokens b = (b', True) \<Longrightarrow>
      budget_spent b' d = Suc (budget_spent b d) \<and> (db_max_calls b = 0 \<or> budget_spent b d < db_max_calls b)"
    by (auto simp: attempt_def exhausted_def record_call_def roll_def utc_date_midnight budget_spent_def
        Let_def split: option.splits if_splits)
  show "attempt d tokens b = (b', False) \<Longrightarrow> budget_spent b' d = budget_spent b d"
    by (auto simp: attempt_def exhausted_def roll_def utc_date_midnight budget_spent_def Let_def
        split: option.splits if_splits)
  show "attempt d tokens b = (b', c) \<Longrightarrow> db_max_calls b' = db_max_calls b" for c
    by (auto simp: attempt_def exhausted_def record_call_def roll_def Let_def split: option.splits if_splits)
qed

lemma daily_calls_bounded:
  "db_max_calls b \<noteq> 0 \<Longrightarrow> budget_spent b d \<le> db_max_calls b \<Longrightarrow>
     budget_spent b d + budget.grants d ts b \<le> db_max_calls b"
  using budget.grants_le [of b d ts] by simp

section \<open>Witnesses\<close>

definition ex_order :: paper_order_intent where
  "ex_order = \<lparr>in_decision_id = ''d1'', in_asset = ''BTC'', in_side = BUY, in_notional_usd = 100,
     in_venue = ''kraken_paper_trade'', in_reduce_only = False\<rparr>"

definition ex_cycle :: pipeline_result where
  "ex_cycle = \<lparr>pr_accepted_market_data = True, pr_rejection_reasons = [], pr_feature_vector = Some (ex_fv []),
     pr_pretrade_check = None, pr_proposal = Some (ex_proposal BUY 100), pr_risk_result = None,
     pr_paper_order = Some ex_order, pr_divergences = [], pr_exit_reason = None\<rparr>"

definition ex_approve :: "bool \<Rightarrow> evidence_packet \<Rightarrow> call_outcome" where
  "ex_approve b p = Answered \<lparr>mc_decision = \<lparr>md_approve = b, md_confidence_delta = 0, md_rationale = [],
     md_risk_flags = []\<rparr>, mc_model = None, mc_input_tokens = 10, mc_output_tokens = 5\<rparr>"

definition ex_reviewer :: "bool \<Rightarrow> meta_reviewer" where
  "ex_reviewer b = \<lparr>mv_client = Some (ex_approve b), mv_mode = MA_veto, mv_model = ''m'', mv_timeout_seconds = 20,
     mv_prompt_version = ''1'', mv_prompt_hash = ''h'', mv_committee = None,
     mv_cache = \<lparr>ec_ttl_seconds = 60, ec_entries = []\<rparr>,
     mv_budget = \<lparr>db_max_calls = 1, db_max_tokens = 0, db_day = None, db_calls = 0, db_tokens = 0\<rparr>,
     mv_input_cost_per_mtok = 0, mv_output_cost_per_mtok = 0\<rparr>"

definition ex_clock :: review_clock where
  "ex_clock = \<lparr>rc_now = 0, rc_later = 0, rc_mono = 0, rc_mono_later = 1\<rparr>"

lemma ex_not_exit: "\<not> is_exit_strategy_id (tp_strategy_id (ex_proposal BUY 100))"
  by (simp add: is_exit_strategy_id_def exit_strategy_prefix_def ex_proposal_def startswith_def)

lemma ex_run_review:
  "\<exists>r v S'. run_review (\<lambda>p. []) (ex_reviewer True) ex_clock ''BTC/USD'' ex_cycle = (Some (r, v), S')
     \<and> pr_paper_order r = Some ex_order"
  using ex_not_exit
  by (simp add: run_review_def review_def review_packet_def ask_model_def ex_reviewer_def ex_cycle_def
      build_evidence_packet_def evidence_get_def exhausted_def roll_def ex_approve_def is_exit_cycle_def
      apply_review_def usable_def answered_review_def blank_review_def Let_def)

theorem review_fails_closed_witness:
  "\<exists>p c. build_evidence_packet ''BTC/USD'' ex_cycle None = Some p \<and> ex_approve True p = Answered c
     \<and> md_approve (mc_decision c)"
proof -
  obtain r v S' where r: "run_review (\<lambda>p. []) (ex_reviewer True) ex_clock ''BTC/USD'' ex_cycle = (Some (r, v), S')"
    "pr_paper_order r \<noteq> None" using ex_run_review by (metis option.distinct(1))
  have m: "mv_mode (ex_reviewer True) = MA_veto" by (simp add: ex_reviewer_def)
  have p: "pr_proposal ex_cycle \<noteq> None" "\<not> is_exit_cycle ex_cycle"
    using ex_not_exit by (simp_all add: is_exit_cycle_def ex_cycle_def)
  from review_fails_closed [OF r(1) m p r(2)] show ?thesis by (auto simp: ex_reviewer_def)
qed

theorem review_only_withholds_witness:
  "fst (apply_review ((ex_reviewer True)\<lparr>mv_mode := MA_advisory\<rparr>) ex_cycle (blank_review (ex_reviewer True))) = ex_cycle"
  using review_only_withholds [of "(ex_reviewer True)\<lparr>mv_mode := MA_advisory\<rparr>" ex_cycle "blank_review (ex_reviewer True)" "[]"]
  by (simp add: Let_def)

end
