(* ===== verification/Submitter.thy ===== *)
theory Submitter
  imports Ledger Planner
begin

text \<open>
  Order submission: the venue request (\<open>execution/hummingbot.py\<close>) and the idempotent,
  reconciliation-gated submitter (\<open>execution/submitter.py\<close>).

  The outside world is adaptive: what the HTTP client returns and what the resolver answers are
  functions of everything that happened before, the trace of effects. An effect is a save of the
  ledger, a venue submission with its result, a resolver query with its answer, or a sleep. The
  order object the source mutates is the ledger entry at its order id; the loop carries its value
  and writes it back. \<open>while True\<close> is recursion that terminates because every pass increments
  \<open>submission_attempts\<close> and a retry needs \<open>submission_attempts \<le> max_retries\<close>.
\<close>

section \<open>The venue request\<close>

record order_request =
  rq_account_name :: string
  rq_connector_name :: string
  rq_trading_pair :: string
  rq_trade_type :: string
  rq_amount :: real
  rq_order_type :: string
  rq_position_action :: string
  rq_client_order_id :: "string option"

record order_receipt =
  rcp_order_id :: string
  rcp_account_name :: string
  rcp_connector_name :: string
  rcp_trading_pair :: string
  rcp_trade_type :: string
  rcp_amount :: real
  rcp_order_type :: string
  rcp_price :: "real option"
  rcp_status :: string

record paper_executor =
  ex_account_name :: string
  ex_connector_name :: string

datatype safety_error =
    OutsidePaperMode
  | NotPaperConnector
  | PriceNotPositive
  | VenueMismatch
  | AmountNotPositive
  | MalformedResponse

definition trade_type_of :: "side \<Rightarrow> string" where
  "trade_type_of sd = (if sd = BUY then ''BUY'' else ''SELL'')"

definition build_request ::
    "paper_executor \<Rightarrow> paper_order_intent \<Rightarrow> real \<Rightarrow> string \<Rightarrow> real option \<Rightarrow> string option
       \<Rightarrow> safety_error + order_request" where
  "build_request E i price mode quantity cid =
     (if mode \<noteq> ''paper'' then Inl OutsidePaperMode
      else if \<not> endswith (ex_connector_name E) ''_paper_trade'' then Inl NotPaperConnector
      else if price \<le> 0 then Inl PriceNotPositive
      else if in_venue i \<noteq> ex_connector_name E then Inl VenueMismatch
      else
        (let amount = opt_or quantity (in_notional_usd i / price)
         in if amount \<le> 0 then Inl AmountNotPositive
            else Inr \<lparr>rq_account_name = ex_account_name E, rq_connector_name = ex_connector_name E,
                      rq_trading_pair = upper (in_asset i) @ ''-USD'',
                      rq_trade_type = trade_type_of (in_side i), rq_amount = amount,
                      rq_order_type = ''MARKET'', rq_position_action = ''OPEN'',
                      rq_client_order_id = cid\<rparr>))"

text \<open>What the HTTP client yields: a timeout, another transport error, or a status and a body
  (\<open>None\<close> for a body that is not a valid receipt).\<close>

datatype http_result = HttpTimeout | HttpFailed string | HttpResponse nat "order_receipt option"

datatype call_result =
    CallReceipt order_receipt
  | CallHttpError nat
  | CallTimeout
  | CallTransport string
  | CallSafety safety_error

definition executor_submit ::
    "paper_executor \<Rightarrow> paper_order_intent \<Rightarrow> real \<Rightarrow> string \<Rightarrow> real option \<Rightarrow> string option \<Rightarrow> http_result
       \<Rightarrow> call_result" where
  "executor_submit E i price mode quantity cid answer =
     (case build_request E i price mode quantity cid of
        Inl e \<Rightarrow> CallSafety e
      | Inr req \<Rightarrow>
          (case answer of
             HttpTimeout \<Rightarrow> CallTimeout
           | HttpFailed msg \<Rightarrow> CallTransport msg
           | HttpResponse code body \<Rightarrow>
               if code \<noteq> 201 then CallHttpError code
               else (case body of None \<Rightarrow> CallSafety MalformedResponse | Some r \<Rightarrow> CallReceipt r)))"

definition http_uncertain :: "nat \<Rightarrow> bool" where
  "http_uncertain code \<longleftrightarrow> 500 \<le> code"

section \<open>The submitter\<close>

datatype resolver_answer = VenueKnows | VenueUnknown | ResolverRaised string

text \<open>The arguments of \<open>venue_knows_order\<close>.\<close>

record venue_query =
  vq_client_order_id :: string
  vq_trading_pair :: string
  vq_trade_type :: string
  vq_quantity :: real

datatype sub_event =
    Persisted execution_ledger
  | VenueCall string real call_result
  | VenueQuery venue_query resolver_answer
  | Slept real

datatype submission_status =
    Sub_SUBMITTED | Sub_DUPLICATE | Sub_ADOPTED | Sub_PLAN_REJECTED | Sub_REJECTED | Sub_UNCERTAIN
  | Sub_INVALID_EXIT_SIZE

datatype sub_reason =
    SR_text string
  | SR_http nat
  | SR_timeout real
  | SR_transport string
  | SR_safety safety_error
  | SR_plan plan_reason
  | SR_already_ordered string
  | SR_venue_confirmed
  | SR_venue_already_knows
  | SR_no_reconciler sub_reason
  | SR_reconcile_failed sub_reason string
  | SR_exhausted sub_reason nat
  | SR_unknown

record submission_outcome =
  so_status :: submission_status
  so_reason :: "sub_reason option"
  so_receipt :: "order_receipt option"
  so_plan :: "execution_plan option"

record submitter =
  su_executor :: paper_executor
  su_planner :: execution_planner
  su_has_resolver :: bool
  su_has_store :: bool
  su_timeout_seconds :: real
  su_max_retries :: nat
  su_backoff_seconds :: real
  su_backoff_multiplier :: real
  su_trading_mode :: string

record sub_world =
  w_ledger :: execution_ledger
  w_trace :: "sub_event list"

record sub_env =
  env_http :: "sub_event list \<Rightarrow> http_result"
  env_resolver :: "sub_event list \<Rightarrow> execution_ledger \<Rightarrow> venue_query \<Rightarrow> resolver_answer"
  env_now :: "sub_event list \<Rightarrow> datetime"
  env_render :: "sub_reason \<Rightarrow> string"

definition outcome :: "submission_status \<Rightarrow> sub_reason option \<Rightarrow> execution_plan option \<Rightarrow> submission_outcome" where
  "outcome st r p = \<lparr>so_status = st, so_reason = r, so_receipt = None, so_plan = p\<rparr>"

definition emit :: "sub_event \<Rightarrow> sub_world \<Rightarrow> sub_world" where
  "emit ev w = w\<lparr>w_trace := w_trace w @ [ev]\<rparr>"

definition persist :: "submitter \<Rightarrow> sub_world \<Rightarrow> sub_world" where
  "persist S w = (if su_has_store S then emit (Persisted (w_ledger w)) w else w)"

definition store_order :: "execution_order \<Rightarrow> sub_world \<Rightarrow> sub_world" where
  "store_order x w = w\<lparr>w_ledger := put_order (o_order_id x) x (w_ledger w)\<rparr>"

text \<open>\<open>_transition\<close>: \<open>ledger.update_order_state\<close> on this order, then \<open>order.reason = reason\<close>.\<close>

definition sub_transition ::
    "sub_env \<Rightarrow> execution_order \<Rightarrow> order_state \<Rightarrow> sub_reason option \<Rightarrow> sub_world
       \<Rightarrow> ledger_error + (execution_order \<times> sub_world)" where
  "sub_transition V x st r w =
     (case transition (env_now V (w_trace w)) x st of
        Inl e \<Rightarrow> Inl e
      | Inr y \<Rightarrow>
          (let z = y\<lparr>o_reason := map_option (env_render V) r\<rparr> in Inr (z, store_order z w)))"

definition resumable_order :: "string \<Rightarrow> execution_ledger \<Rightarrow> execution_order option" where
  "resumable_order d L = find (\<lambda>x. o_state x = SUBMISSION_UNCERTAIN) (orders_for_decision d L)"

definition submit_cap :: "paper_order_intent \<Rightarrow> real option \<Rightarrow> execution_order option \<Rightarrow> real option" where
  "submit_cap i max_quantity resumed =
     (if \<not> in_reduce_only i \<or> in_side i \<noteq> SELL then None
      else case resumed of
             None \<Rightarrow> max_quantity
           | Some x \<Rightarrow>
               (case max_quantity of
                  None \<Rightarrow> Some (o_requested_quantity x)
                | Some m \<Rightarrow> Some (min m (o_requested_quantity x))))"

definition planned_order :: "execution_plan \<Rightarrow> datetime \<Rightarrow> execution_order" where
  "planned_order p now =
     \<lparr>o_order_id = xp_client_order_id p, o_decision_id = xp_decision_id p, o_asset = xp_asset p,
      o_side = xp_side p, o_requested_quantity = xp_quantity p, o_state = PLANNED,
      o_filled_quantity = 0, o_average_fill_price_usd = None, o_last_updated_at = now,
      o_client_order_id = Some (xp_client_order_id p), o_venue_order_id = None,
      o_correlation_id = Some (xp_correlation_id p), o_submission_attempts = 0, o_reason = None,
      o_fees_paid_usd = 0, o_fee_source = None\<rparr>"

text \<open>\<open>order.client_order_id or order.order_id\<close>\<close>

definition client_id_of :: "execution_order \<Rightarrow> string" where
  "client_id_of x = text_or (o_client_order_id x) (o_order_id x)"

definition query_for :: "submitter \<Rightarrow> execution_order \<Rightarrow> venue_query" where
  "query_for S x =
     \<lparr>vq_client_order_id = client_id_of x,
      vq_trading_pair = o_asset x @ ''-'' @ pl_quote_currency (su_planner S),
      vq_trade_type = trade_type_of (o_side x), vq_quantity = o_requested_quantity x\<rparr>"

text \<open>
  \<open>_gate_retry\<close>: \<open>None\<close> lets a retry through; otherwise the outcome to hand back.
\<close>

definition gate_retry ::
    "submitter \<Rightarrow> sub_env \<Rightarrow> execution_order \<Rightarrow> sub_reason option \<Rightarrow> sub_world
       \<Rightarrow> ledger_error + (sub_world \<times> submission_outcome option)" where
  "gate_retry S V x base w =
     (let reason = (case base of
                      Some r \<Rightarrow> r
                    | None \<Rightarrow> (case o_reason x of
                                None \<Rightarrow> SR_unknown
                              | Some t \<Rightarrow> if t \<noteq> [] then SR_text t else SR_unknown))
      in if \<not> su_has_resolver S
         then Inr (w, Some (outcome Sub_UNCERTAIN (Some (SR_no_reconciler reason)) None))
         else
           (let q = query_for S x;
                answer = env_resolver V (w_trace w) (w_ledger w) q;
                w1 = emit (VenueQuery q answer) w
            in case answer of
                 ResolverRaised msg \<Rightarrow>
                   Inr (w1, Some (outcome Sub_UNCERTAIN (Some (SR_reconcile_failed reason msg)) None))
               | VenueKnows \<Rightarrow>
                   (case sub_transition V x SUBMITTED (Some SR_venue_confirmed) w1 of
                      Inl e \<Rightarrow> Inl e
                    | Inr (y, w2) \<Rightarrow>
                        Inr (persist S w2, Some (outcome Sub_ADOPTED (Some SR_venue_already_knows) None)))
               | VenueUnknown \<Rightarrow>
                   if su_max_retries S < o_submission_attempts x
                   then (case sub_transition V x REJECTED
                               (Some (SR_exhausted reason (o_submission_attempts x))) w1 of
                           Inl e \<Rightarrow> Inl e
                         | Inr (y, w2) \<Rightarrow>
                             Inr (persist S w2, Some (outcome Sub_REJECTED
                               (Some (SR_exhausted reason (o_submission_attempts x))) None)))
                   else Inr (w1, None)))"

text \<open>Why a failed call leaves the venue state unknown; \<open>None\<close> when it is a definite answer.\<close>

definition uncertain_reason :: "submitter \<Rightarrow> call_result \<Rightarrow> sub_reason option" where
  "uncertain_reason S r =
     (case r of
        CallReceipt rc \<Rightarrow> None
      | CallHttpError code \<Rightarrow> if http_uncertain code then Some (SR_http code) else None
      | CallTimeout \<Rightarrow> Some (SR_timeout (su_timeout_seconds S))
      | CallTransport msg \<Rightarrow> Some (SR_transport msg)
      | CallSafety e \<Rightarrow> Some (SR_safety e))"

definition call_venue ::
    "submitter \<Rightarrow> sub_env \<Rightarrow> paper_order_intent \<Rightarrow> execution_plan \<Rightarrow> sub_world \<Rightarrow> call_result" where
  "call_venue S V i p w =
     executor_submit (su_executor S) i (xp_execution_price_usd p) (su_trading_mode S)
       (Some (xp_quantity p)) (Some (xp_client_order_id p)) (env_http V (w_trace w))"

text \<open>
  One pass of the loop. \<open>call_once\<close> counts the attempt, saves and calls; \<open>settle_call\<close> is what
  follows from the result: it carries the order as it stands and \<open>None\<close> when the loop goes round
  again. Its last branch is never taken: every other result of a call is uncertain.
\<close>

definition call_once ::
    "submitter \<Rightarrow> sub_env \<Rightarrow> paper_order_intent \<Rightarrow> execution_plan \<Rightarrow> execution_order \<Rightarrow> sub_world
       \<Rightarrow> execution_order \<times> sub_world \<times> call_result" where
  "call_once S V i p x0 w0 =
     (let x = x0\<lparr>o_submission_attempts := o_submission_attempts x0 + 1\<rparr>;
          w1 = persist S (store_order x w0);
          r = call_venue S V i p w1
      in (x, emit (VenueCall (xp_client_order_id p) (xp_quantity p) r) w1, r))"

definition settle_call ::
    "submitter \<Rightarrow> sub_env \<Rightarrow> execution_plan \<Rightarrow> execution_order \<Rightarrow> call_result \<Rightarrow> sub_world
       \<Rightarrow> ledger_error + (execution_order \<times> sub_world \<times> submission_outcome option)" where
  "settle_call S V p x r w =
     (case uncertain_reason S r of
        Some reason \<Rightarrow>
          (case sub_transition V x SUBMISSION_UNCERTAIN (Some reason) w of
             Inl e \<Rightarrow> Inl e
           | Inr (y, w1) \<Rightarrow>
               (case gate_retry S V y (Some reason) (persist S w1) of
                  Inl e \<Rightarrow> Inl e
                | Inr (w2, out) \<Rightarrow> Inr (y, w2, out)))
      | None \<Rightarrow>
          (case r of
             CallReceipt rc \<Rightarrow>
               (case sub_transition V (x\<lparr>o_venue_order_id := Some (rcp_order_id rc)\<rparr>) SUBMITTED None w of
                  Inl e \<Rightarrow> Inl e
                | Inr (y, w1) \<Rightarrow>
                    Inr (y, persist S w1, Some \<lparr>so_status = Sub_SUBMITTED, so_reason = None,
                                               so_receipt = Some rc, so_plan = Some p\<rparr>))
           | CallHttpError code \<Rightarrow>
               (case sub_transition V x REJECTED (Some (SR_http code)) w of
                  Inl e \<Rightarrow> Inl e
                | Inr (y, w1) \<Rightarrow>
                    Inr (y, persist S w1, Some (outcome Sub_REJECTED (Some (SR_http code)) (Some p))))
           | _ \<Rightarrow> Inl (UnknownOrder (o_order_id x))))"

definition submit_attempt ::
    "submitter \<Rightarrow> sub_env \<Rightarrow> paper_order_intent \<Rightarrow> execution_plan \<Rightarrow> execution_order \<Rightarrow> sub_world
       \<Rightarrow> ledger_error + (execution_order \<times> sub_world \<times> submission_outcome option)" where
  "submit_attempt S V i p x w = (let (x1, w1, r) = call_once S V i p x w in settle_call S V p x1 r w1)"

lemma uncertain_reason_None:
  "uncertain_reason S r = None \<longleftrightarrow> (\<exists>rc. r = CallReceipt rc) \<or> (\<exists>c. r = CallHttpError c \<and> \<not> http_uncertain c)"
  by (auto simp: uncertain_reason_def split: call_result.splits)

lemma sub_transition_Inr:
  "sub_transition V x st r w = Inr (y, w') \<longleftrightarrow>
     is_legal_transition (o_state x) st
   \<and> y = x\<lparr>o_state := st, o_last_updated_at := env_now V (w_trace w),
          o_reason := map_option (env_render V) r\<rparr>
   \<and> w' = store_order y w"
  by (auto simp: sub_transition_def transition_def Let_def)

lemma gate_retry_pass: "gate_retry S V x b w = Inr (w', None) \<Longrightarrow> o_submission_attempts x \<le> su_max_retries S"
  by (auto simp: gate_retry_def Let_def split: resolver_answer.splits if_splits sum.splits prod.splits option.splits)

lemma submit_attempt_again:
  assumes "submit_attempt S V i p x w = Inr (y, w', None)"
  shows "o_submission_attempts y = Suc (o_submission_attempts x)" "o_submission_attempts y \<le> su_max_retries S"
  using assms gate_retry_pass
  by (auto simp: submit_attempt_def call_once_def settle_call_def sub_transition_Inr Let_def
      split: option.splits call_result.splits sum.splits prod.splits)

lemma submit_attempt_measure:
  "submit_attempt S V i p x w = Inr (y, w', None) \<Longrightarrow>
     Suc (su_max_retries S) - o_submission_attempts y < Suc (su_max_retries S) - o_submission_attempts x"
  using submit_attempt_again [of S V i p x w y w'] by linarith

function (sequential) submit_with_retries ::
    "submitter \<Rightarrow> sub_env \<Rightarrow> paper_order_intent \<Rightarrow> execution_plan \<Rightarrow> execution_order \<Rightarrow> real \<Rightarrow> sub_world
       \<Rightarrow> ledger_error + (sub_world \<times> submission_outcome)" where
  "submit_with_retries S V i p x delay w =
     (case submit_attempt S V i p x w of
        Inl e \<Rightarrow> Inl e
      | Inr (y, w', Some out) \<Rightarrow> Inr (w', out)
      | Inr (y, w', None) \<Rightarrow>
          submit_with_retries S V i p y (delay * su_backoff_multiplier S) (emit (Slept delay) w'))"
  by pat_completeness auto

termination
  by (relation "measure (\<lambda>(S, V, i, p, x, d, w). Suc (su_max_retries S) - o_submission_attempts x)")
    (auto dest!: submit_attempt_measure)

declare submit_with_retries.simps [simp del]

text \<open>\<open>submit\<close>: one decision, at most one order.\<close>

definition reject_resumed ::
    "submitter \<Rightarrow> sub_env \<Rightarrow> execution_order option \<Rightarrow> sub_reason \<Rightarrow> sub_world \<Rightarrow> submission_outcome
       \<Rightarrow> ledger_error + (sub_world \<times> submission_outcome)" where
  "reject_resumed S V resumed r w out =
     (case resumed of
        None \<Rightarrow> Inr (w, out)
      | Some x \<Rightarrow>
          (case sub_transition V x REJECTED (Some r) w of
             Inl e \<Rightarrow> Inl e
           | Inr (y, w') \<Rightarrow> Inr (persist S w', out)))"

definition submit_planned ::
    "(string \<Rightarrow> string) \<Rightarrow> (string \<Rightarrow> string) \<Rightarrow> submitter \<Rightarrow> sub_env \<Rightarrow> paper_order_intent \<Rightarrow> real \<Rightarrow> real
       \<Rightarrow> real option \<Rightarrow> execution_order option \<Rightarrow> sub_world \<Rightarrow> ledger_error + (sub_world \<times> submission_outcome)" where
  "submit_planned h10 h16 S V i price ref max_quantity resumed w =
     (case plan h10 h16 (su_planner S) i price ref (submit_cap i max_quantity resumed) of
        Inl (ExitSizingRejected r) \<Rightarrow>
          reject_resumed S V resumed (SR_plan r) w (outcome Sub_INVALID_EXIT_SIZE (Some (SR_plan r)) None)
      | Inl (ExecutionPlanRejected r) \<Rightarrow>
          reject_resumed S V resumed (SR_plan r) w (outcome Sub_PLAN_REJECTED (Some (SR_plan r)) None)
      | Inr p \<Rightarrow>
          (case build_request (su_executor S) i (xp_execution_price_usd p) (su_trading_mode S)
                  (Some (xp_quantity p)) (Some (xp_client_order_id p)) of
             Inl e \<Rightarrow>
               reject_resumed S V resumed (SR_safety e) w (outcome Sub_REJECTED (Some (SR_safety e)) (Some p))
           | Inr req \<Rightarrow>
               (case resumed of
                  Some x \<Rightarrow>
                    (let y = x\<lparr>o_requested_quantity := xp_quantity p\<rparr>
                     in submit_with_retries S V i p y (su_backoff_seconds S) (persist S (store_order y w)))
                | None \<Rightarrow>
                    (let x = planned_order p (env_now V (w_trace w))
                     in case register_order x (w_ledger w) of
                          Inl e \<Rightarrow> Inl e
                        | Inr L \<Rightarrow>
                            submit_with_retries S V i p x (su_backoff_seconds S)
                              (persist S (w\<lparr>w_ledger := L\<rparr>))))))"

definition submit ::
    "(string \<Rightarrow> string) \<Rightarrow> (string \<Rightarrow> string) \<Rightarrow> submitter \<Rightarrow> sub_env \<Rightarrow> paper_order_intent \<Rightarrow> real \<Rightarrow> real
       \<Rightarrow> real option \<Rightarrow> sub_world \<Rightarrow> ledger_error + (sub_world \<times> submission_outcome)" where
  "submit h10 h16 S V i price ref max_quantity w =
     (case resumable_order (in_decision_id i) (w_ledger w) of
        None \<Rightarrow>
          if has_order_for_decision (in_decision_id i) (w_ledger w)
          then Inr (w, outcome Sub_DUPLICATE (Some (SR_already_ordered (in_decision_id i))) None)
          else submit_planned h10 h16 S V i price ref max_quantity None w
      | Some x \<Rightarrow>
          (case gate_retry S V x None w of
             Inl e \<Rightarrow> Inl e
           | Inr (w', Some out) \<Rightarrow> Inr (w', out)
           | Inr (w', None) \<Rightarrow> submit_planned h10 h16 S V i price ref max_quantity (Some x) w'))"

section \<open>Traces\<close>

text \<open>
  \<open>gated_calls ok evs\<close>: reading the effects from left to right, every venue call is licensed,
  either by \<open>ok\<close> for the first one or by a resolver that positively did not know the order since
  the call before. \<open>write_ahead b evs\<close>: a ledger was saved before the first venue call.
\<close>

fun gated_calls :: "bool \<Rightarrow> sub_event list \<Rightarrow> bool" where
  "gated_calls ok [] = True"
| "gated_calls ok (VenueCall c q r # es) = (ok \<and> gated_calls False es)"
| "gated_calls ok (VenueQuery q a # es) = gated_calls (a = VenueUnknown) es"
| "gated_calls ok (e # es) = gated_calls ok es"

fun licensed :: "bool \<Rightarrow> sub_event list \<Rightarrow> bool" where
  "licensed ok [] = ok"
| "licensed ok (VenueCall c q r # es) = licensed False es"
| "licensed ok (VenueQuery q a # es) = licensed (a = VenueUnknown) es"
| "licensed ok (e # es) = licensed ok es"

fun write_ahead :: "bool \<Rightarrow> sub_event list \<Rightarrow> bool" where
  "write_ahead b [] = True"
| "write_ahead b (Persisted L # es) = write_ahead True es"
| "write_ahead b (VenueCall c q r # es) = (b \<and> write_ahead b es)"
| "write_ahead b (e # es) = write_ahead b es"

fun is_call :: "sub_event \<Rightarrow> bool" where
  "is_call (VenueCall c q r) = True"
| "is_call e = False"

definition venue_calls :: "sub_event list \<Rightarrow> nat" where
  "venue_calls es = length (filter is_call es)"

fun is_persisted :: "sub_event \<Rightarrow> bool" where
  "is_persisted (Persisted L) = True"
| "is_persisted e = False"

text \<open>A saved ledger that differs from \<open>L0\<close> in the order \<open>x\<close> only, and one that knows a decision.\<close>

fun saved_for :: "execution_order \<Rightarrow> execution_ledger \<Rightarrow> sub_event \<Rightarrow> bool" where
  "saved_for x L0 (Persisted L) \<longleftrightarrow>
     (\<exists>z. L = put_order (o_order_id x) z L0 \<and> o_order_id z = o_order_id x \<and> o_decision_id z = o_decision_id x)"
| "saved_for x L0 e \<longleftrightarrow> True"

definition keyed :: "execution_ledger \<Rightarrow> bool" where
  "keyed L \<longleftrightarrow> distinct (dict_keys (l_orders L)) \<and> list_all (\<lambda>(k, x). o_order_id x = k) (l_orders L)"

fun saved_knows :: "string \<Rightarrow> sub_event \<Rightarrow> bool" where
  "saved_knows d (Persisted L) \<longleftrightarrow> keyed L \<and> has_order_for_decision d L"
| "saved_knows d e \<longleftrightarrow> True"

fun last_saved :: "sub_event list \<Rightarrow> execution_ledger option \<Rightarrow> execution_ledger option" where
  "last_saved [] acc = acc"
| "last_saved (Persisted L # es) acc = last_saved es (Some L)"
| "last_saved (e # es) acc = last_saved es acc"

lemma venue_calls_simps [simp]:
  "venue_calls [] = 0" "venue_calls (e # es) = (if is_call e then 1 else 0) + venue_calls es"
  "venue_calls (xs @ ys) = venue_calls xs + venue_calls ys"
  by (simp_all add: venue_calls_def)

text \<open>The status an outcome reports and the state a registered order is left in.\<close>

fun status_state :: "submission_status \<Rightarrow> order_state option" where
  "status_state Sub_SUBMITTED = Some SUBMITTED"
| "status_state Sub_ADOPTED = Some SUBMITTED"
| "status_state Sub_REJECTED = Some REJECTED"
| "status_state Sub_PLAN_REJECTED = Some REJECTED"
| "status_state Sub_INVALID_EXIT_SIZE = Some REJECTED"
| "status_state Sub_UNCERTAIN = Some SUBMISSION_UNCERTAIN"
| "status_state Sub_DUPLICATE = None"

section \<open>What one attempt does\<close>

definition stored :: "execution_order \<Rightarrow> execution_ledger \<Rightarrow> bool" where
  "stored x L \<longleftrightarrow> dict_get (l_orders L) (o_order_id x) = Some x"

text \<open>\<open>sub_run V x w w' evs z\<close>: from \<open>w\<close> to \<open>w'\<close> the effects \<open>evs\<close> happened, the order \<open>x\<close> became
  \<open>z\<close>, nothing else in the ledger changed and every saved ledger knows the decision.\<close>

definition same_order :: "execution_order \<Rightarrow> execution_order \<Rightarrow> bool" where
  "same_order x z \<longleftrightarrow>
     o_order_id z = o_order_id x \<and> o_decision_id z = o_decision_id x \<and> o_asset z = o_asset x
   \<and> o_side z = o_side x \<and> o_requested_quantity z = o_requested_quantity x
   \<and> o_client_order_id z = o_client_order_id x \<and> o_filled_quantity z = o_filled_quantity x
   \<and> o_average_fill_price_usd z = o_average_fill_price_usd x \<and> o_fees_paid_usd z = o_fees_paid_usd x"

text \<open>The answer the resolver gave to a query about the order \<open>x\<close>.\<close>

fun answer_of :: "sub_env \<Rightarrow> string \<Rightarrow> sub_event \<Rightarrow> bool" where
  "answer_of V cid (VenueQuery q a) \<longleftrightarrow> vq_client_order_id q = cid \<and> (\<exists>t L. a = env_resolver V t L q)"
| "answer_of V cid e \<longleftrightarrow> True"

definition sub_run ::
    "sub_env \<Rightarrow> execution_order \<Rightarrow> sub_world \<Rightarrow> sub_world \<Rightarrow> sub_event list \<Rightarrow> execution_order \<Rightarrow> bool" where
  "sub_run V x w w' evs z \<longleftrightarrow>
     w_trace w' = w_trace w @ evs \<and> w_ledger w' = put_order (o_order_id x) z (w_ledger w)
   \<and> same_order x z \<and> list_all (saved_for x (w_ledger w)) evs
   \<and> list_all (answer_of V (client_id_of x)) evs"

lemma put_order_twice [simp]: "put_order k y (put_order k x L) = put_order k y L"
  by (simp add: put_order_def)

lemma stored_put [simp]: "o_order_id x = k \<Longrightarrow> stored x (put_order k x L)"
  by (simp add: stored_def update_conv')

lemma put_stored: "stored x L \<Longrightarrow> put_order (o_order_id x) x L = L"
  by (simp add: stored_def put_order_def update_triv)

lemma has_order_put: "o_decision_id x = d \<Longrightarrow> has_order_for_decision d (put_order k x L)"
proof -
  assume "o_decision_id x = d"
  moreover have "(k, x) \<in> set (dict_set k x (l_orders L))" by (rule map_of_SomeD) (simp add: update_conv')
  ultimately show ?thesis by (force simp: has_order_for_decision_def list_ex_iff)
qed

lemma saved_for_cong: "same_order x y \<Longrightarrow> saved_for y L e = saved_for x L e"
  by (cases e) (simp_all add: same_order_def)

lemma saved_for_put: "same_order x y \<Longrightarrow> saved_for y (put_order (o_order_id x) y L) e = saved_for x L e"
  by (cases e) (simp_all add: same_order_def)

lemma same_order_cid: "same_order x y \<Longrightarrow> client_id_of y = client_id_of x"
  by (simp add: same_order_def client_id_of_def)

lemma sub_run_same: "sub_run V y w w' evs z \<Longrightarrow> same_order x y \<Longrightarrow> sub_run V x w w' evs z"
  by (simp add: sub_run_def saved_for_cong same_order_cid list_all_iff) (simp add: same_order_def)

lemma sub_run_trans:
  assumes "sub_run V x w w1 e1 y" "sub_run V y w1 w2 e2 z"
  shows "sub_run V x w w2 (e1 @ e2) z"
proof -
  from assms(1) have xy: "same_order x y" "w_ledger w1 = put_order (o_order_id x) y (w_ledger w)"
    by (simp_all add: sub_run_def)
  with assms show ?thesis
    by (simp add: sub_run_def saved_for_put same_order_cid list_all_iff) (auto simp: same_order_def)
qed

lemma sub_run_store: "same_order x z \<Longrightarrow> sub_run V x w (store_order z w) [] z"
  by (simp add: sub_run_def store_order_def same_order_def)

lemma sub_run_emit:
  "stored x (w_ledger w) \<Longrightarrow> \<not> is_persisted e \<Longrightarrow> answer_of V (client_id_of x) e \<Longrightarrow>
     sub_run V x w (emit e w) [e] x"
  by (cases e) (simp_all add: sub_run_def emit_def same_order_def put_stored)

definition save_events :: "submitter \<Rightarrow> sub_world \<Rightarrow> sub_event list" where
  "save_events S w = (if su_has_store S then [Persisted (w_ledger w)] else [])"

lemma sub_run_persist: "stored x (w_ledger w) \<Longrightarrow> sub_run V x w (persist S w) (save_events S w) x"
  by (auto simp: sub_run_def persist_def save_events_def emit_def same_order_def put_stored
      intro!: exI [of _ x])

lemma sub_run_stored: "sub_run V x w w' evs z \<Longrightarrow> stored z (w_ledger w')"
  by (auto simp: sub_run_def same_order_def)

lemma gated_append: "gated_calls ok (xs @ ys) \<longleftrightarrow> gated_calls ok xs \<and> gated_calls (licensed ok xs) ys"
  by (induction ok xs rule: gated_calls.induct) simp_all

lemma licensed_append: "licensed ok (xs @ ys) = licensed (licensed ok xs) ys"
  by (induction ok xs rule: licensed.induct) simp_all

lemma licensed_mono: "licensed False es \<Longrightarrow> licensed ok es"
  by (cases ok) (simp_all, induction ok es rule: licensed.induct, simp_all)

lemma write_ahead_mono: "write_ahead b es \<Longrightarrow> write_ahead True es"
  by (induction b es rule: write_ahead.induct) auto

lemma write_ahead_append: "write_ahead b xs \<Longrightarrow> write_ahead b ys \<Longrightarrow> write_ahead b (xs @ ys)"
  by (induction b xs rule: write_ahead.induct) (auto intro: write_ahead_mono)

lemma gated_without_unknown:
  "gated_calls ok es \<Longrightarrow> \<forall>q. VenueQuery q VenueUnknown \<notin> set es \<Longrightarrow> venue_calls es \<le> (if ok then 1 else 0)"
proof (induction ok es rule: gated_calls.induct)
  case (3 ok q a es)
  then have "a \<noteq> VenueUnknown" by auto
  with 3 show ?case by auto
qed (auto split: if_splits)

lemma save_events_simps [simp]:
  "gated_calls ok (save_events S w) = True" "licensed ok (save_events S w) = ok"
  "venue_calls (save_events S w) = 0" "write_ahead b (save_events S w) = True"
  by (simp_all add: save_events_def)

lemma legal_from_uncertain:
  "is_legal_transition SUBMISSION_UNCERTAIN SUBMITTED" "is_legal_transition SUBMISSION_UNCERTAIN REJECTED"
  by (simp_all add: is_legal_transition_def closing_states_def)

lemma legal_submissions:
  "st \<in> {PLANNED, SUBMISSION_UNCERTAIN} \<Longrightarrow> st' \<in> {SUBMITTED, REJECTED, SUBMISSION_UNCERTAIN} \<Longrightarrow>
     is_legal_transition st st'"
  by (auto simp: is_legal_transition_def closing_states_def)

text \<open>A transition that is written and saved: the shape every branch of the submitter ends with.\<close>

lemma transition_persist_run:
  assumes "sub_transition V x st r w = Inr (y, w')"
  shows "sub_run V x w (persist S w') (save_events S w') y" "o_state y = st"
    "o_submission_attempts y = o_submission_attempts x"
proof -
  from assms have y: "w' = store_order y w" "same_order x y" "o_state y = st"
      "o_submission_attempts y = o_submission_attempts x"
    by (auto simp: sub_transition_Inr same_order_def)
  from sub_run_store [OF y(2), where w = w] have run: "sub_run V x w w' [] y" by (simp add: y(1))
  from sub_run_trans [OF run sub_run_persist [OF sub_run_stored [OF run]]] y(3,4)
  show "sub_run V x w (persist S w') (save_events S w') y" "o_state y = st"
    "o_submission_attempts y = o_submission_attempts x" by simp_all
qed

lemma gate_retry_run:
  assumes "gate_retry S V x b w = Inr (w', out)" "stored x (w_ledger w)" "o_state x = SUBMISSION_UNCERTAIN"
  shows "\<exists>evs z. sub_run V x w w' evs z \<and> venue_calls evs = 0
     \<and> (\<forall>ok. gated_calls ok evs \<and> write_ahead ok evs)
     \<and> (case out of
          None \<Rightarrow> z = x \<and> (\<forall>ok. licensed ok evs)
        | Some ans \<Rightarrow> status_state (so_status ans) = Some (o_state z))"
proof (cases "su_has_resolver S")
  case False
  with assms(1,3) put_stored [OF assms(2)] have "sub_run V x w w' [] x"
      "case out of None \<Rightarrow> False | Some ans \<Rightarrow> status_state (so_status ans) = Some (o_state x)"
    by (auto simp: gate_retry_def sub_run_def same_order_def outcome_def Let_def)
  then show ?thesis by (intro exI [of _ "[]"] exI [of _ x]) (simp split: option.splits)
next
  case True
  define q a where "q = query_for S x" and "a = env_resolver V (w_trace w) (w_ledger w) q"
  let ?w = "emit (VenueQuery q a) w"
  have r1: "sub_run V x w ?w [VenueQuery q a] x"
    by (rule sub_run_emit) (auto simp: assms(2) a_def q_def query_for_def)
  have seq: ?thesis if "sub_transition V x st r ?w = Inr (y, w2)" "w' = persist S w2"
      "\<exists>ans. out = Some ans \<and> status_state (so_status ans) = Some st" for st r y w2
    using sub_run_trans [OF r1 transition_persist_run(1) [OF that(1), of S]]
      transition_persist_run(2) [OF that(1)] that(2,3)
    by (intro exI [of _ "VenueQuery q a # save_events S w2"] exI [of _ y])
      (auto simp: save_events_def)
  show ?thesis
  proof (cases a)
    case VenueKnows
    obtain y w2 where "sub_transition V x SUBMITTED (Some SR_venue_confirmed) ?w = Inr (y, w2)"
        "w' = persist S w2" "\<exists>ans. out = Some ans \<and> status_state (so_status ans) = Some SUBMITTED"
      using assms(1) True VenueKnows
      by (auto simp: gate_retry_def Let_def outcome_def q_def [symmetric] a_def [symmetric]
          split: sum.splits prod.splits)
    then show ?thesis by (rule seq)
  next
    case VenueUnknown
    show ?thesis
    proof (cases "su_max_retries S < o_submission_attempts x")
      case False
      with assms(1) True VenueUnknown have "w' = ?w" "out = None"
        by (auto simp: gate_retry_def Let_def q_def [symmetric] a_def [symmetric])
      with r1 VenueUnknown show ?thesis by (intro exI [of _ "[VenueQuery q a]"] exI [of _ x]) simp
    next
      case more: True
      obtain y w2 r where "sub_transition V x REJECTED r ?w = Inr (y, w2)"
          "w' = persist S w2" "\<exists>ans. out = Some ans \<and> status_state (so_status ans) = Some REJECTED"
        using assms(1) True VenueUnknown more
        by (auto simp: gate_retry_def Let_def outcome_def q_def [symmetric] a_def [symmetric]
            split: sum.splits prod.splits)
      then show ?thesis by (rule seq)
    qed
  next
    case (ResolverRaised msg)
    with assms(1) True have "w' = ?w"
        "\<exists>ans. out = Some ans \<and> so_status ans = Sub_UNCERTAIN"
      by (auto simp: gate_retry_def Let_def outcome_def q_def [symmetric] a_def [symmetric])
    with r1 ResolverRaised assms(3) show ?thesis
      by (intro exI [of _ "[VenueQuery q a]"] exI [of _ x]) auto
  qed
qed

lemma settle_call_run:
  assumes "settle_call S V p x r w = Inr (y, w', out)"
  shows "\<exists>evs z. sub_run V x w w' evs z \<and> venue_calls evs = 0
     \<and> (\<forall>ok. gated_calls ok evs \<and> write_ahead ok evs)
     \<and> (case out of
          None \<Rightarrow> z = y \<and> o_state y = SUBMISSION_UNCERTAIN \<and> licensed False evs
        | Some ans \<Rightarrow> status_state (so_status ans) = Some (o_state z))"
proof (cases "uncertain_reason S r")
  case None
  then obtain x1 st rs w1 ans where t: "sub_transition V x1 st rs w = Inr (y, w1)"
      "w' = persist S w1" "same_order x x1" "out = Some ans" "status_state (so_status ans) = Some st"
    using assms
    by (fastforce simp: settle_call_def outcome_def same_order_def split: call_result.splits sum.splits prod.splits)
  from transition_persist_run(1) [OF t(1), of S] transition_persist_run(2) [OF t(1)] t(2,3)
  have "sub_run V x w w' (save_events S w1) y" "o_state y = st" by (auto intro: sub_run_same)
  with t show ?thesis by (intro exI [of _ "save_events S w1"] exI [of _ y]) simp
next
  case (Some reason)
  with assms obtain w1 where t: "sub_transition V x SUBMISSION_UNCERTAIN (Some reason) w = Inr (y, w1)"
      and g: "gate_retry S V y (Some reason) (persist S w1) = Inr (w', out)"
    by (auto simp: settle_call_def split: sum.splits prod.splits)
  note run = transition_persist_run(1) [OF t, of S] and y = transition_persist_run(2) [OF t]
  from gate_retry_run [OF g sub_run_stored [OF run] y]
  obtain evs z where e: "sub_run V y (persist S w1) w' evs z" "venue_calls evs = 0"
      "\<And>ok. gated_calls ok evs \<and> write_ahead ok evs"
      "case out of None \<Rightarrow> z = y \<and> (\<forall>ok. licensed ok evs)
        | Some ans \<Rightarrow> status_state (so_status ans) = Some (o_state z)" by blast
  from sub_run_trans [OF run e(1)] e(2-4) y show ?thesis
    by (intro exI [of _ "save_events S w1 @ evs"] exI [of _ z])
      (auto simp: gated_append licensed_append intro: write_ahead_append split: option.splits)
qed

text \<open>One attempt: exactly one venue call, preceded by a save of the ledger.\<close>

lemma call_once_run:
  assumes "call_once S V i p x w = (x1, w', r)"
  shows "\<exists>evs. sub_run V x w w' evs x1 \<and> venue_calls evs = 1 \<and> gated_calls True evs
     \<and> (su_has_store S \<longrightarrow> write_ahead False evs)"
proof -
  let ?w0 = "store_order x1 w" and ?call = "VenueCall (xp_client_order_id p) (xp_quantity p) r"
  from assms have d: "same_order x x1" "w' = emit ?call (persist S ?w0)"
    by (auto simp: call_once_def Let_def same_order_def)
  note r0 = sub_run_store [OF d(1), where w = w]
  note r1 = sub_run_trans [OF r0 sub_run_persist [OF sub_run_stored [OF r0], where S = S]]
  from sub_run_trans [OF r1 sub_run_emit [OF sub_run_stored [OF r1], of ?call]] d(2)
  have "sub_run V x w w' (save_events S ?w0 @ [?call]) x1" by simp
  then show ?thesis
    by (intro exI [of _ "save_events S ?w0 @ [?call]"]) (auto simp: gated_append save_events_def)
qed

lemma submit_attempt_run:
  assumes "submit_attempt S V i p x w = Inr (y, w', out)"
  shows "\<exists>evs z. sub_run V x w w' evs z \<and> venue_calls evs = 1 \<and> gated_calls True evs
     \<and> (su_has_store S \<longrightarrow> write_ahead False evs)
     \<and> (case out of
          None \<Rightarrow> z = y \<and> o_state y = SUBMISSION_UNCERTAIN \<and> licensed True evs
        | Some ans \<Rightarrow> status_state (so_status ans) = Some (o_state z))"
proof -
  obtain x1 w1 r where c: "call_once S V i p x w = (x1, w1, r)" by (cases "call_once S V i p x w")
  with assms have s: "settle_call S V p x1 r w1 = Inr (y, w', out)" by (simp add: submit_attempt_def)
  obtain e1 where e1: "sub_run V x w w1 e1 x1" "venue_calls e1 = 1" "gated_calls True e1"
      "su_has_store S \<longrightarrow> write_ahead False e1" using call_once_run [OF c] by blast
  obtain e2 z where e2: "sub_run V x1 w1 w' e2 z" "venue_calls e2 = 0"
      "\<And>ok. gated_calls ok e2 \<and> write_ahead ok e2"
      "case out of None \<Rightarrow> z = y \<and> o_state y = SUBMISSION_UNCERTAIN \<and> licensed False e2
        | Some ans \<Rightarrow> status_state (so_status ans) = Some (o_state z)"
    using settle_call_run [OF s] by blast
  have "licensed False e2 \<Longrightarrow> licensed True (e1 @ e2)"
    by (cases "licensed True e1") (auto simp: licensed_append intro: licensed_mono)
  with sub_run_trans [OF e1(1) e2(1)] e1(2-4) e2(2-4) show ?thesis
    by (intro exI [of _ "e1 @ e2"] exI [of _ z])
      (auto simp: gated_append intro: write_ahead_append split: option.splits)
qed

text \<open>The whole loop.\<close>

lemma submit_with_retries_run:
  assumes "submit_with_retries S V i p x delay w = Inr (w', out)"
  shows "\<exists>evs z. sub_run V x w w' evs z \<and> gated_calls True evs
     \<and> (su_has_store S \<longrightarrow> write_ahead False evs)
     \<and> 1 \<le> venue_calls evs \<and> venue_calls evs \<le> max 1 (Suc (su_max_retries S) - o_submission_attempts x)
     \<and> status_state (so_status out) = Some (o_state z)"
  using assms
proof (induction S V i p x delay w rule: submit_with_retries.induct)
  case (1 S V i p x delay w)
  from "1.prems" obtain y w1 o1 where a: "submit_attempt S V i p x w = Inr (y, w1, o1)"
    by (subst (asm) submit_with_retries.simps) (auto split: sum.splits)
  from submit_attempt_run [OF a] obtain e1 z1 where e1: "sub_run V x w w1 e1 z1" "venue_calls e1 = 1"
      "gated_calls True e1" "su_has_store S \<longrightarrow> write_ahead False e1"
      "case o1 of None \<Rightarrow> z1 = y \<and> o_state y = SUBMISSION_UNCERTAIN \<and> licensed True e1
        | Some ans \<Rightarrow> status_state (so_status ans) = Some (o_state z1)" by blast
  show ?case
  proof (cases o1)
    case (Some ans)
    with "1.prems" a have "w' = w1" "out = ans" by (simp_all add: submit_with_retries.simps)
    with e1 Some show ?thesis by (intro exI [of _ e1] exI [of _ z1]) simp
  next
    case None
    with e1(1,5) have r1: "sub_run V x w w1 e1 y" by simp
    let ?w = "emit (Slept delay) w1"
    have r2: "sub_run V x w ?w (e1 @ [Slept delay]) y"
      by (rule sub_run_trans [OF r1 sub_run_emit]) (simp_all add: sub_run_stored [OF r1])
    from "1.prems" a None have rest:
      "submit_with_retries S V i p y (delay * su_backoff_multiplier S) ?w = Inr (w', out)"
      by (subst (asm) submit_with_retries.simps) simp
    from "1.IH" [OF a refl refl None rest] obtain e2 z where e2: "sub_run V y ?w w' e2 z" "gated_calls True e2"
        "su_has_store S \<longrightarrow> write_ahead False e2" "1 \<le> venue_calls e2"
        "venue_calls e2 \<le> max 1 (Suc (su_max_retries S) - o_submission_attempts y)"
        "status_state (so_status out) = Some (o_state z)" by blast
    have "venue_calls (e1 @ Slept delay # e2) \<le> max 1 (Suc (su_max_retries S) - o_submission_attempts x)"
      using e1(2) e2(5) submit_attempt_again [OF a [unfolded None]] by simp
    with sub_run_trans [OF r2 e2(1)] e1 e2 None show ?thesis
      by (intro exI [of _ "e1 @ Slept delay # e2"] exI [of _ z])
        (auto simp: gated_append intro: write_ahead_append)
  qed
qed

section \<open>Submissions\<close>

text \<open>
  What a submission that was not refused outright did: the effects \<open>evs\<close>, the order \<open>z\<close> it left
  in the ledger under the key \<open>k\<close>, and nothing else. \<open>n\<close> bounds the venue calls.
\<close>

definition submit_run :: "submitter \<Rightarrow> sub_env \<Rightarrow> string \<Rightarrow> nat \<Rightarrow> bool \<Rightarrow> sub_world \<Rightarrow> sub_world \<Rightarrow> sub_event list \<Rightarrow> execution_order \<Rightarrow> bool"
where
  "submit_run S V d n ok w w' evs z \<longleftrightarrow>
     w_trace w' = w_trace w @ evs \<and> w_ledger w' = put_order (o_order_id z) z (w_ledger w)
   \<and> o_decision_id z = d \<and> gated_calls ok evs \<and> (su_has_store S \<longrightarrow> write_ahead False evs)
   \<and> venue_calls evs \<le> n \<and> list_all (saved_knows d) evs
   \<and> list_all (answer_of V (client_id_of z)) evs"

definition refusals :: "submission_status list" where
  "refusals = [Sub_INVALID_EXIT_SIZE, Sub_PLAN_REJECTED, Sub_REJECTED]"

lemma keyed_put: "keyed L \<Longrightarrow> o_order_id x = k \<Longrightarrow> keyed (put_order k x L)"
  by (auto simp: keyed_def list_all_iff distinct_update dict_update_memb split: if_splits)

lemma ledger_wf_keyed: "ledger_wf L \<Longrightarrow> keyed L"
  by (auto simp: ledger_wf_def keyed_def list_all_iff)

lemma saved_for_knows: "keyed L0 \<Longrightarrow> saved_for x L0 e \<Longrightarrow> saved_knows (o_decision_id x) e"
  by (cases e) (auto intro: keyed_put has_order_put)

lemma saved_all_knows:
  "keyed L0 \<Longrightarrow> list_all (saved_for x L0) evs \<Longrightarrow> list_all (saved_knows (o_decision_id x)) evs"
  by (auto simp: list_all_iff intro: saved_for_knows)

lemma resumable_stored:
  assumes "resumable_order d L = Some x" "keyed L"
  shows "stored x L" "o_decision_id x = d" "o_state x = SUBMISSION_UNCERTAIN"
proof -
  from assms(1) have "x \<in> set (orders_for_decision d L)" and st: "o_state x = SUBMISSION_UNCERTAIN"
    by (auto simp: resumable_order_def find_Some_iff in_set_conv_nth)
  then obtain k where "(k, x) \<in> set (l_orders L)" "o_decision_id x = d" by (auto simp: orders_for_decision_def)
  with assms(2) show "stored x L" "o_decision_id x = d"
    by (auto simp: keyed_def stored_def list_all_iff map_of_eq_Some_iff)
  show "o_state x = SUBMISSION_UNCERTAIN" by (rule st)
qed

lemma register_planned:
  assumes "register_order x L = Inr L'" shows "L' = put_order (o_order_id x) x L"
  using assms by (auto simp: register_order_def put_order_def split: option.splits if_splits)

lemma submit_with_retries_from:
  assumes "submit_with_retries S V i p x delay (persist S w1) = Inr (w', out)" "keyed (w_ledger w)"
    "w_trace w1 = w_trace w" "w_ledger w1 = put_order (o_order_id x) x (w_ledger w)"
  shows "\<exists>evs z. submit_run S V (o_decision_id x) (max 1 (Suc (su_max_retries S) - o_submission_attempts x)) True w w' evs z
     \<and> client_id_of z = client_id_of x \<and> status_state (so_status out) = Some (o_state z)"
proof -
  have st: "stored x (w_ledger w1)" using assms(4) by simp
  note r1 = sub_run_persist [OF st, where S = S]
  from submit_with_retries_run [OF assms(1)] obtain evs z where
      e: "sub_run V x (persist S w1) w' evs z" "gated_calls True evs" "su_has_store S \<longrightarrow> write_ahead False evs"
      "venue_calls evs \<le> max 1 (Suc (su_max_retries S) - o_submission_attempts x)"
      "status_state (so_status out) = Some (o_state z)" by blast
  from sub_run_trans [OF r1 e(1)] have r: "sub_run V x w1 w' (save_events S w1 @ evs) z" .
  have "keyed (w_ledger w1)" using assms(2,4) by (simp add: keyed_put)
  with saved_all_knows [OF this] r have "list_all (saved_knows (o_decision_id x)) (save_events S w1 @ evs)"
    by (simp add: sub_run_def)
  with r e assms(3,4) show ?thesis
    by (intro exI [of _ "save_events S w1 @ evs"] exI [of _ z])
      (auto simp: submit_run_def sub_run_def same_order_def client_id_of_def gated_append intro: write_ahead_append)
qed

lemma submit_planned_fresh:
  assumes "submit_planned h10 h16 S V i price ref mq None w = Inr (w', out)" "keyed (w_ledger w)"
  shows "(w' = w \<and> so_status out \<in> set refusals)
     \<or> (\<exists>evs z. submit_run S V (in_decision_id i) (Suc (su_max_retries S)) True w w' evs z
          \<and> client_id_of z = client_order_id_for h10 (in_decision_id i) (pl_client_order_id_prefix (su_planner S))
          \<and> status_state (so_status out) = Some (o_state z))"
proof -
  from assms(1) consider (no) "w' = w" "so_status out \<in> set refusals"
    | (go) p L where "plan h10 h16 (su_planner S) i price ref (submit_cap i mq None) = Inr p"
        "register_order (planned_order p (env_now V (w_trace w))) (w_ledger w) = Inr L"
        "submit_with_retries S V i p (planned_order p (env_now V (w_trace w))) (su_backoff_seconds S)
           (persist S (w\<lparr>w_ledger := L\<rparr>)) = Inr (w', out)"
    by (auto simp: submit_planned_def reject_resumed_def refusals_def outcome_def Let_def
        split: sum.splits plan_error.splits)
  then show ?thesis
  proof cases
    case go
    let ?x = "planned_order p (env_now V (w_trace w))"
    have x: "o_decision_id ?x = in_decision_id i" "o_submission_attempts ?x = 0"
      "client_id_of ?x = client_order_id_for h10 (in_decision_id i) (pl_client_order_id_prefix (su_planner S))"
      using plan_Inr(8,9) [OF go(1)]
      by (simp_all add: planned_order_def client_id_of_def text_or_def client_order_id_for_def)
    have "max 1 (Suc (su_max_retries S) - o_submission_attempts ?x) = Suc (su_max_retries S)" using x by simp
    with submit_with_retries_from [OF go(3) assms(2)] register_planned [OF go(2)] x show ?thesis by auto
  qed simp
qed

lemma reject_resumed_run:
  assumes "reject_resumed S V (Some x) r w ans = Inr (w', out)" "keyed (w_ledger w)"
  shows "out = ans \<and> (\<exists>evs z. submit_run S V (o_decision_id x) 0 True w w' evs z \<and> client_id_of z = client_id_of x \<and> o_state z = REJECTED)"
proof -
  from assms(1) obtain y w1 where t: "sub_transition V x REJECTED (Some r) w = Inr (y, w1)"
      "w' = persist S w1" "out = ans"
    by (auto simp: reject_resumed_def split: sum.splits prod.splits)
  note r = transition_persist_run(1) [OF t(1), of S]
  with saved_all_knows [OF assms(2)] have "list_all (saved_knows (o_decision_id x)) (save_events S w1)"
    by (simp add: sub_run_def)
  with r t transition_persist_run(2) [OF t(1)] show ?thesis
    by (intro conjI exI [of _ "save_events S w1"] exI [of _ y])
      (auto simp: submit_run_def sub_run_def same_order_def client_id_of_def)
qed

lemma submit_planned_resumed:
  assumes "submit_planned h10 h16 S V i price ref mq (Some x) w = Inr (w', out)" "keyed (w_ledger w)"
  shows "\<exists>evs z. submit_run S V (o_decision_id x) (max 1 (Suc (su_max_retries S) - o_submission_attempts x)) True w w' evs z
     \<and> client_id_of z = client_id_of x \<and> status_state (so_status out) = Some (o_state z)"
proof -
  have rej: ?thesis if "reject_resumed S V (Some x) r w ans = Inr (w', out)"
      "status_state (so_status ans) = Some REJECTED" for r ans
  proof -
    from reject_resumed_run [OF that(1) assms(2)] that(2) obtain evs z where
      "submit_run S V (o_decision_id x) 0 True w w' evs z" "client_id_of z = client_id_of x" "status_state (so_status out) = Some (o_state z)" by auto
    then show ?thesis by (intro exI [of _ evs] exI [of _ z]) (simp add: submit_run_def)
  qed
  from assms(1) consider (no) r ans where "reject_resumed S V (Some x) r w ans = Inr (w', out)"
        "status_state (so_status ans) = Some REJECTED"
    | (go) p where "submit_with_retries S V i p (x\<lparr>o_requested_quantity := xp_quantity p\<rparr>) (su_backoff_seconds S)
           (persist S (store_order (x\<lparr>o_requested_quantity := xp_quantity p\<rparr>) w)) = Inr (w', out)"
    by (fastforce simp: submit_planned_def outcome_def Let_def split: sum.splits plan_error.splits)
  then show ?thesis
  proof cases
    case no
    then show ?thesis by (rule rej)
  next
    case go
    from submit_with_retries_from [OF go assms(2)] show ?thesis by (auto simp: store_order_def client_id_of_def)
  qed
qed

definition attempts_so_far :: "string \<Rightarrow> execution_ledger \<Rightarrow> nat" where
  "attempts_so_far d L = (case resumable_order d L of None \<Rightarrow> 0 | Some x \<Rightarrow> o_submission_attempts x)"

text \<open>The client order id a submission of the decision uses: the resumed order's, or the derived one.\<close>

definition submission_cid :: "(string \<Rightarrow> string) \<Rightarrow> submitter \<Rightarrow> string \<Rightarrow> execution_ledger \<Rightarrow> string" where
  "submission_cid h10 S d L =
     (case resumable_order d L of
        Some x \<Rightarrow> client_id_of x
      | None \<Rightarrow> client_order_id_for h10 d (pl_client_order_id_prefix (su_planner S)))"

lemma stored_has_order: "stored x L \<Longrightarrow> has_order_for_decision (o_decision_id x) L"
  using has_order_put [of x "o_decision_id x" "o_order_id x" L] by (simp add: put_stored)

lemma submit_resumed:
  assumes "submit h10 h16 S V i price ref mq w = Inr (w', out)" "keyed (w_ledger w)"
    "resumable_order (in_decision_id i) (w_ledger w) = Some x"
  shows "\<exists>evs z. submit_run S V (in_decision_id i) (Suc (su_max_retries S) - o_submission_attempts x) False w w' evs z
     \<and> client_id_of z = client_id_of x \<and> status_state (so_status out) = Some (o_state z)"
proof -
  note x = resumable_stored [OF assms(3,2)]
  from assms(1,3) obtain w1 ans where g: "gate_retry S V x None w = Inr (w1, ans)"
    by (auto simp: submit_def split: sum.splits)
  from gate_retry_run [OF g x(1,3)] obtain e1 z1 where e1: "sub_run V x w w1 e1 z1" "venue_calls e1 = 0"
      "\<And>ok. gated_calls ok e1 \<and> write_ahead ok e1"
      "case ans of None \<Rightarrow> z1 = x \<and> (\<forall>ok. licensed ok e1)
        | Some a \<Rightarrow> status_state (so_status a) = Some (o_state z1)" by blast
  have k1: "list_all (saved_knows (in_decision_id i)) e1"
    using saved_all_knows [OF assms(2), of x e1] e1(1) x(2) by (simp add: sub_run_def)
  show ?thesis
  proof (cases ans)
    case (Some a)
    with assms(1,3) g have "w' = w1" "out = a" by (simp_all add: submit_def)
    with e1 k1 x(2) Some show ?thesis
      by (intro exI [of _ e1] exI [of _ z1]) (auto simp: submit_run_def sub_run_def same_order_def client_id_of_def)
  next
    case None
    with assms(1,3) g have s: "submit_planned h10 h16 S V i price ref mq (Some x) w1 = Inr (w', out)"
      by (simp add: submit_def)
    have w1: "w_ledger w1 = w_ledger w" "w_trace w1 = w_trace w @ e1"
      using e1(1,4) None put_stored [OF x(1)] by (simp_all add: sub_run_def)
    have att: "o_submission_attempts x \<le> su_max_retries S" using gate_retry_pass g None by blast
    from submit_planned_resumed [OF s] assms(2) w1(1) obtain e2 z where
        e2: "submit_run S V (o_decision_id x) (max 1 (Suc (su_max_retries S) - o_submission_attempts x)) True w1 w' e2 z"
        "client_id_of z = client_id_of x" "status_state (so_status out) = Some (o_state z)" by auto
    moreover have "list_all (answer_of V (client_id_of x)) e1" using e1(1) by (simp add: sub_run_def)
    ultimately show ?thesis using e1(2-4) k1 w1 att None x(2)
      by (intro exI [of _ "e1 @ e2"] exI [of _ z])
        (auto simp: submit_run_def gated_append intro: write_ahead_append)
  qed
qed

lemma submit_cases:
  assumes "submit h10 h16 S V i price ref mq w = Inr (w', out)" "keyed (w_ledger w)"
  obtains
    (refused) "w' = w" "so_status out \<in> set refusals" "\<not> has_order_for_decision (in_decision_id i) (w_ledger w)"
  | (duplicate) "w' = w" "so_status out = Sub_DUPLICATE" "has_order_for_decision (in_decision_id i) (w_ledger w)"
  | (ran) evs z where
      "submit_run S V (in_decision_id i) (Suc (su_max_retries S) - attempts_so_far (in_decision_id i) (w_ledger w))
         (\<not> has_order_for_decision (in_decision_id i) (w_ledger w)) w w' evs z"
      "client_id_of z = submission_cid h10 S (in_decision_id i) (w_ledger w)"
      "status_state (so_status out) = Some (o_state z)"
proof (cases "resumable_order (in_decision_id i) (w_ledger w)")
  case (Some x)
  note x = resumable_stored [OF Some assms(2)]
  with stored_has_order [OF x(1)] submit_resumed [OF assms Some] Some ran show ?thesis
    by (auto simp: attempts_so_far_def submission_cid_def)
next
  case None
  show ?thesis
  proof (cases "has_order_for_decision (in_decision_id i) (w_ledger w)")
    case True
    with None assms(1) duplicate show ?thesis by (auto simp: submit_def outcome_def)
  next
    case False
    with None assms(1) have "submit_planned h10 h16 S V i price ref mq None w = Inr (w', out)"
      by (simp add: submit_def)
    from submit_planned_fresh [OF this assms(2)] False None refused ran show ?thesis
      by (auto simp: attempts_so_far_def submission_cid_def)
  qed
qed

section \<open>Errors\<close>

text \<open>Every lifecycle transition the submitter asks for is legal; the only error that escapes is
  a client order id that the ledger already holds for something else.\<close>

lemma sub_transition_total: "is_legal_transition (o_state x) st \<Longrightarrow> \<exists>y w'. sub_transition V x st r w = Inr (y, w')"
  by (simp add: sub_transition_def transition_def Let_def)

lemma gate_retry_total:
  assumes "o_state x = SUBMISSION_UNCERTAIN" shows "\<exists>w' out. gate_retry S V x b w = Inr (w', out)"
  using assms
  by (auto simp: gate_retry_def Let_def sub_transition_def transition_def legal_from_uncertain split: resolver_answer.splits)

lemma settle_call_total:
  assumes "o_state x \<in> {PLANNED, SUBMISSION_UNCERTAIN}" shows "\<exists>v. settle_call S V p x r w = Inr v"
proof (cases "uncertain_reason S r")
  case None
  from assms legal_submissions have l: "is_legal_transition (o_state x) SUBMITTED"
    "is_legal_transition (o_state x) REJECTED" by blast+
  from None consider rc where "r = CallReceipt rc" | c where "r = CallHttpError c"
    by (auto simp: uncertain_reason_None)
  then show ?thesis using None l by cases (simp_all add: settle_call_def sub_transition_def transition_def Let_def)
next
  case (Some reason)
  from assms legal_submissions have "is_legal_transition (o_state x) SUBMISSION_UNCERTAIN" by blast
  with sub_transition_total obtain y w1 where t: "sub_transition V x SUBMISSION_UNCERTAIN (Some reason) w = Inr (y, w1)"
    by blast
  from gate_retry_total [OF transition_persist_run(2) [OF t], of S V "Some reason" "persist S w1"] Some t
  show ?thesis by (auto simp: settle_call_def)
qed

lemma submit_with_retries_total:
  "o_state x \<in> {PLANNED, SUBMISSION_UNCERTAIN} \<Longrightarrow> \<exists>v. submit_with_retries S V i p x delay w = Inr v"
proof (induction S V i p x delay w rule: submit_with_retries.induct)
  case (1 S V i p x delay w)
  obtain x1 w1 r where c: "call_once S V i p x w = (x1, w1, r)" by (cases "call_once S V i p x w")
  then have "o_state x1 = o_state x" by (auto simp: call_once_def Let_def)
  with settle_call_total [of x1 S V p r w1] 1(2) c obtain y w' ans where
    a: "submit_attempt S V i p x w = Inr (y, w', ans)" by (auto simp: submit_attempt_def)
  show ?case
  proof (cases ans)
    case None
    from submit_attempt_run [OF a] None have "o_state y \<in> {PLANNED, SUBMISSION_UNCERTAIN}" by auto
    from 1(1) [OF a refl refl None this] a None show ?thesis by (simp add: submit_with_retries.simps)
  qed (use a in \<open>simp add: submit_with_retries.simps\<close>)
qed

lemma submit_errors:
  assumes "submit h10 h16 S V i price ref mq w = Inl e" "keyed (w_ledger w)"
  shows "\<exists>k. e = ConflictingDuplicate k"
proof (cases "resumable_order (in_decision_id i) (w_ledger w)")
  case None
  with assms(1) have "submit_planned h10 h16 S V i price ref mq None w = Inl e"
    by (auto simp: submit_def split: if_splits)
  then show ?thesis
    using submit_with_retries_total [of "planned_order p (env_now V (w_trace w))" for p]
    by (auto simp: submit_planned_def reject_resumed_def register_order_def planned_order_def Let_def
        split: sum.splits plan_error.splits option.splits if_splits) (metis sum.distinct(1))+
next
  case (Some x)
  note x = resumable_stored [OF this assms(2)]
  obtain w1 ans where g: "gate_retry S V x None w = Inr (w1, ans)" using gate_retry_total [OF x(3)] by blast
  have t: "\<exists>y w'. sub_transition V x REJECTED r w1 = Inr (y, w')" for r
    by (rule sub_transition_total) (simp add: x(3) legal_from_uncertain)
  have l: "\<exists>v. submit_with_retries S V i p (x\<lparr>o_requested_quantity := q\<rparr>) d w2 = Inr v" for p q d w2
    by (rule submit_with_retries_total) (simp add: x(3))
  have "\<exists>v. submit_planned h10 h16 S V i price ref mq (Some x) w1 = Inr v"
    using t l by (auto simp: submit_planned_def reject_resumed_def Let_def split: sum.splits plan_error.splits)
      (metis sum.distinct(1))+
  with assms(1) Some g show ?thesis by (cases ans) (auto simp: submit_def)
qed

section \<open>Properties\<close>

text \<open>A venue call in a prefix of a journaled trace has a ledger save before it, and that save
  knows the decision.\<close>

lemma write_ahead_saved:
  assumes "write_ahead (acc \<noteq> None) pre" "0 < venue_calls pre \<or> acc \<noteq> None" "list_all (saved_knows d) pre"
    "\<And>L. acc = Some L \<Longrightarrow> keyed L \<and> has_order_for_decision d L"
  shows "\<exists>L. last_saved pre acc = Some L \<and> keyed L \<and> has_order_for_decision d L"
  using assms
proof (induction pre arbitrary: acc)
  case (Cons e pre)
  show ?case
  proof (cases e)
    case (Persisted L)
    with Cons.prems Cons.IH [of "Some L"] show ?thesis by simp
  next
    case (VenueCall c q r)
    with Cons.prems(1) obtain L where "acc = Some L" "write_ahead True pre" by auto
    with Cons.IH [of acc] Cons.prems(3,4) VenueCall show ?thesis by simp
  next
    case (VenueQuery q a)
    with Cons.prems Cons.IH [of acc] show ?thesis by simp
  next
    case (Slept t)
    with Cons.prems Cons.IH [of acc] show ?thesis by simp
  qed
qed auto

lemma write_ahead_prefix: "write_ahead b (xs @ ys) \<Longrightarrow> write_ahead b xs"
  by (induction b xs rule: write_ahead.induct) auto

lemma submit_known_gated:
  assumes "submit h10 h16 S V i price ref mq w = Inr (w', out)" "keyed (w_ledger w)"
    "has_order_for_decision (in_decision_id i) (w_ledger w)"
  shows "\<exists>evs. w_trace w' = w_trace w @ evs \<and> gated_calls False evs"
  using assms(1,2)
proof (cases rule: submit_cases)
  case (ran evs z)
  with assms(3) show ?thesis by (auto simp: submit_run_def)
qed (use assms in auto)

definition ex_receipt :: order_receipt where
  "ex_receipt = \<lparr>rcp_order_id = ''v1'', rcp_account_name = ''paper_account'',
     rcp_connector_name = ''kraken_paper_trade'', rcp_trading_pair = ''BTC-USD'', rcp_trade_type = ''BUY'',
     rcp_amount = 1, rcp_order_type = ''MARKET'', rcp_price = None, rcp_status = ''submitted''\<rparr>"

definition ex_submitter :: submitter where
  "ex_submitter = \<lparr>su_executor = \<lparr>ex_account_name = ''paper_account'', ex_connector_name = ''kraken_paper_trade''\<rparr>,
     su_planner = ex_planner, su_has_resolver = True, su_has_store = True, su_timeout_seconds = 10,
     su_max_retries = 2, su_backoff_seconds = 1, su_backoff_multiplier = 2, su_trading_mode = ''paper''\<rparr>"

definition ex_env :: sub_env where
  "ex_env = \<lparr>env_http = (\<lambda>t. HttpResponse 201 (Some ex_receipt)),
     env_resolver = (\<lambda>t L q. VenueUnknown), env_now = (\<lambda>t. 0), env_render = (\<lambda>r. [])\<rparr>"

lemma ex_plan_buy:
  "\<exists>p. plan (\<lambda>d. d) (\<lambda>d. d) ex_planner (ex_intent BUY) 100 100 None = Inr p
     \<and> xp_quantity p = 1 \<and> xp_client_order_id p = ''ts-d1'' \<and> xp_execution_price_usd p = 100"
  by (simp add: plan_def ex_planner_def ex_intent_def clamp_quantity_def round_to_lot_def
      truncate_real_def floor_eq_iff client_order_id_for_def Let_def)

lemma ex_request:
  "\<exists>q. build_request (su_executor ex_submitter) (ex_intent BUY) 100 ''paper'' (Some 1) (Some ''ts-d1'') = Inr q"
  by (simp add: build_request_def ex_submitter_def ex_intent_def endswith_def Let_def)

lemma ex_attempt:
  assumes "xp_quantity p = 1" "xp_client_order_id p = ''ts-d1''" "xp_execution_price_usd p = 100" "o_state x = PLANNED"
    and V: "\<And>t. env_http V t = HttpResponse 201 (Some ex_receipt)"
  shows "\<exists>L1 L2 r w' y out. submit_attempt ex_submitter V (ex_intent BUY) p x w = Inr (y, w', Some out)
    \<and> w_trace w' = w_trace w @ [Persisted L1, VenueCall ''ts-d1'' 1 r, Persisted L2] \<and> so_status out = Sub_SUBMITTED"
proof -
  have f: "su_trading_mode ex_submitter = ''paper''" "su_has_store ex_submitter"
    by (simp_all add: ex_submitter_def)
  from ex_request obtain q where
    "build_request (su_executor ex_submitter) (ex_intent BUY) 100 ''paper'' (Some 1) (Some ''ts-d1'') = Inr q" ..
  with assms have "call_venue ex_submitter V (ex_intent BUY) p w = CallReceipt ex_receipt" for w
    by (simp add: call_venue_def executor_submit_def f V)
  with assms show ?thesis
    by (simp add: submit_attempt_def call_once_def settle_call_def uncertain_reason_def sub_transition_def
        transition_def is_legal_transition_def persist_def emit_def store_order_def f Let_def)
qed

lemma ex_submit_any:
  assumes V: "\<And>t. env_http V t = HttpResponse 201 (Some ex_receipt)"
  shows "\<exists>L1 L2 L3 r w' out.
     submit (\<lambda>d. d) (\<lambda>d. d) ex_submitter V (ex_intent BUY) 100 100 None \<lparr>w_ledger = empty_ledger, w_trace = []\<rparr>
       = Inr (w', out)
   \<and> w_trace w' = [Persisted L1, Persisted L2, VenueCall ''ts-d1'' 1 r, Persisted L3]
   \<and> so_status out = Sub_SUBMITTED"
proof -
  have f: "su_trading_mode ex_submitter = ''paper''" "su_has_store ex_submitter" "su_planner ex_submitter = ex_planner"
    by (simp_all add: ex_submitter_def)
  from ex_plan_buy obtain p where p: "plan (\<lambda>d. d) (\<lambda>d. d) ex_planner (ex_intent BUY) 100 100 None = Inr p"
    "xp_quantity p = 1" "xp_client_order_id p = ''ts-d1''" "xp_execution_price_usd p = 100" by blast
  let ?x = "planned_order p (env_now V [])"
  let ?w = "persist ex_submitter \<lparr>w_ledger = put_order (o_order_id ?x) ?x empty_ledger, w_trace = []\<rparr>"
  from ex_attempt [OF p(2-4) _ V, of ?x ?w] obtain L1 L2 r w' y out where a:
      "submit_attempt ex_submitter V (ex_intent BUY) p ?x ?w = Inr (y, w', Some out)"
      "w_trace w' = w_trace ?w @ [Persisted L1, VenueCall ''ts-d1'' 1 r, Persisted L2]" "so_status out = Sub_SUBMITTED"
    by (auto simp: planned_order_def)
  from a(1) have "submit_with_retries ex_submitter V (ex_intent BUY) p ?x (su_backoff_seconds ex_submitter) ?w = Inr (w', out)"
    by (simp add: submit_with_retries.simps)
  moreover have "register_order ?x empty_ledger = Inr (put_order (o_order_id ?x) ?x empty_ledger)"
    by (simp add: register_order_def put_order_def empty_ledger_def)
  ultimately have "submit (\<lambda>d. d) (\<lambda>d. d) ex_submitter V (ex_intent BUY) 100 100 None
      \<lparr>w_ledger = empty_ledger, w_trace = []\<rparr> = Inr (w', out)"
    using p ex_request
    by (auto simp: submit_def submit_planned_def submit_cap_def resumable_order_def orders_for_decision_def
        has_order_for_decision_def f Let_def empty_ledger_def ex_intent_def)
  with a(2,3) show ?thesis by (simp add: persist_def emit_def f)
qed

lemma ex_submit:
  "\<exists>L1 L2 L3 r w' out.
     submit (\<lambda>d. d) (\<lambda>d. d) ex_submitter ex_env (ex_intent BUY) 100 100 None \<lparr>w_ledger = empty_ledger, w_trace = []\<rparr>
       = Inr (w', out)
   \<and> w_trace w' = [Persisted L1, Persisted L2, VenueCall ''ts-d1'' 1 r, Persisted L3]
   \<and> so_status out = Sub_SUBMITTED"
  by (rule ex_submit_any) (simp add: ex_env_def)

text \<open>
  C15: retries are reconciliation-gated and bounded. Whatever the venue and the resolver answer, a
  submission calls the venue at most \<open>max_retries + 1\<close> times over the life of the order; a first
  call happens only for a decision without an order in the ledger, and every other call only after
  the resolver positively did not know the order since the previous call.
\<close>

theorem submit_retries_gated:
  assumes "ledger_wf (w_ledger w)"
    and "submit h10 h16 S V i price ref max_quantity w = Inr (w', out)"
  shows "\<exists>evs. w_trace w' = w_trace w @ evs
    \<and> gated_calls (\<not> has_order_for_decision (in_decision_id i) (w_ledger w)) evs
    \<and> venue_calls evs \<le> Suc (su_max_retries S) - attempts_so_far (in_decision_id i) (w_ledger w)"
  using assms(2) ledger_wf_keyed [OF assms(1)]
  by (cases rule: submit_cases) (auto simp: submit_run_def)

theorem submit_retries_gated_witness:
  "\<exists>w' out. submit (\<lambda>d. d) (\<lambda>d. d) ex_submitter ex_env (ex_intent BUY) 100 100 None
       \<lparr>w_ledger = empty_ledger, w_trace = []\<rparr> = Inr (w', out)
     \<and> gated_calls True (w_trace w') \<and> venue_calls (w_trace w') \<le> 3"
proof -
  let ?w = "\<lparr>w_ledger = empty_ledger, w_trace = []\<rparr> :: sub_world"
  from ex_submit obtain w' out where r: "submit (\<lambda>d. d) (\<lambda>d. d) ex_submitter ex_env (ex_intent BUY) 100 100 None ?w
      = Inr (w', out)" by blast
  have "ledger_wf (w_ledger ?w)" by (simp add: empty_ledger_wf)
  from submit_retries_gated [OF this r] r show ?thesis
    by (simp add: has_order_for_decision_def attempts_so_far_def resumable_order_def orders_for_decision_def
        empty_ledger_def ex_submitter_def)
qed

text \<open>
  C16: a crash never causes a second order. The ledger is saved before the venue is called; a
  process that stops anywhere after a venue call and restarts from the last saved ledger knows the
  decision, so that any later submission of the same decision calls the venue only after the
  resolver positively did not know the order.
\<close>

theorem submit_crash_safe:
  assumes "ledger_wf (w_ledger w)" and "su_has_store S"
    and "submit h10 h16 S V i price ref max_quantity w = Inr (w', out)"
    and "w_trace w' = w_trace w @ pre @ post" and "0 < venue_calls pre"
  shows "\<exists>L. last_saved pre None = Some L
    \<and> (\<forall>S' V' i' price' ref' mq' t u out'.
         in_decision_id i' = in_decision_id i \<and>
         submit h10 h16 S' V' i' price' ref' mq' \<lparr>w_ledger = L, w_trace = t\<rparr> = Inr (u, out') \<longrightarrow>
         (\<exists>evs. w_trace u = t @ evs \<and> gated_calls False evs))"
proof -
  from assms(3) ledger_wf_keyed [OF assms(1)]
  have "write_ahead False (pre @ post) \<and> list_all (saved_knows (in_decision_id i)) (pre @ post)"
  proof (cases rule: submit_cases)
    case (ran evs z)
    with assms(2,4) show ?thesis by (simp add: submit_run_def)
  qed (use assms(4,5) in auto)
  then have "write_ahead (None \<noteq> None) pre" "list_all (saved_knows (in_decision_id i)) pre"
    by (auto dest: write_ahead_prefix)
  from write_ahead_saved [OF this(1) _ this(2)] assms(5) obtain L
    where "last_saved pre None = Some L" "keyed L" "has_order_for_decision (in_decision_id i) L" by auto
  then show ?thesis using submit_known_gated [where w = "\<lparr>w_ledger = L, w_trace = t\<rparr>" for t] by fastforce
qed

theorem submit_crash_safe_witness:
  "\<exists>L1 L2 r L. last_saved [Persisted L1, Persisted L2, VenueCall ''ts-d1'' 1 r] None = Some L
     \<and> (\<forall>t u out'. submit (\<lambda>d. d) (\<lambda>d. d) ex_submitter ex_env (ex_intent BUY) 100 100 None
            \<lparr>w_ledger = L, w_trace = t\<rparr> = Inr (u, out') \<longrightarrow>
          (\<exists>evs. w_trace u = t @ evs \<and> gated_calls False evs))"
proof -
  let ?w = "\<lparr>w_ledger = empty_ledger, w_trace = []\<rparr> :: sub_world"
  from ex_submit obtain L1 L2 L3 r w' out where
    r: "submit (\<lambda>d. d) (\<lambda>d. d) ex_submitter ex_env (ex_intent BUY) 100 100 None ?w = Inr (w', out)"
    and t: "w_trace w' = [Persisted L1, Persisted L2, VenueCall ''ts-d1'' 1 r, Persisted L3]" by blast
  let ?pre = "[Persisted L1, Persisted L2, VenueCall ''ts-d1'' 1 r]"
  have "ledger_wf (w_ledger ?w)" "su_has_store ex_submitter" by (simp_all add: empty_ledger_wf ex_submitter_def)
  moreover from t have "w_trace w' = w_trace ?w @ ?pre @ [Persisted L3]" by simp
  moreover have "0 < venue_calls ?pre" by simp
  ultimately obtain L where "last_saved ?pre None = Some L"
    and safe: "\<And>S' V' i' price' ref' mq' t u out'. in_decision_id i' = in_decision_id (ex_intent BUY) \<and>
      submit (\<lambda>d. d) (\<lambda>d. d) S' V' i' price' ref' mq' \<lparr>w_ledger = L, w_trace = t\<rparr> = Inr (u, out') \<Longrightarrow>
      \<exists>evs. w_trace u = t @ evs \<and> gated_calls False evs"
    using submit_crash_safe [OF _ _ r, of ?pre "[Persisted L3]"] by metis
  moreover have "\<forall>t u out'. submit (\<lambda>d. d) (\<lambda>d. d) ex_submitter ex_env (ex_intent BUY) 100 100 None
      \<lparr>w_ledger = L, w_trace = t\<rparr> = Inr (u, out') \<longrightarrow> (\<exists>evs. w_trace u = t @ evs \<and> gated_calls False evs)"
    using safe [of "ex_intent BUY"] by simp
  ultimately show ?thesis by (intro exI conjI)
qed

text \<open>
  The reported status is the state of the order. A duplicate or a refused new decision leaves
  ledger and trace untouched; otherwise the ledger changed in exactly one order, of this decision,
  whose state is the one the status names, and a decision that had no order now has one.
\<close>

theorem submit_status_is_state:
  assumes "ledger_wf (w_ledger w)"
    and "submit h10 h16 S V i price ref max_quantity w = Inr (w', out)"
  shows "w' = w \<and> (so_status out = Sub_DUPLICATE) = has_order_for_decision (in_decision_id i) (w_ledger w)
      \<and> so_status out \<in> {Sub_DUPLICATE, Sub_INVALID_EXIT_SIZE, Sub_PLAN_REJECTED, Sub_REJECTED}
    \<or> (\<exists>z. w_ledger w' = put_order (o_order_id z) z (w_ledger w) \<and> o_decision_id z = in_decision_id i
         \<and> status_state (so_status out) = Some (o_state z))"
  using assms(2) ledger_wf_keyed [OF assms(1)]
proof (cases rule: submit_cases)
  case refused
  then show ?thesis by (auto simp: refusals_def)
next
  case duplicate
  then show ?thesis by simp
next
  case (ran evs z)
  then show ?thesis by (auto simp: submit_run_def)
qed

theorem submit_status_is_state_witness:
  "\<exists>w' out. submit (\<lambda>d. d) (\<lambda>d. d) ex_submitter ex_env (ex_intent BUY) 100 100 None
       \<lparr>w_ledger = empty_ledger, w_trace = []\<rparr> = Inr (w', out)
     \<and> (\<exists>z. w_ledger w' = put_order (o_order_id z) z empty_ledger \<and> o_decision_id z = ''d1'' \<and> o_state z = SUBMITTED)"
proof -
  let ?w = "\<lparr>w_ledger = empty_ledger, w_trace = []\<rparr> :: sub_world"
  from ex_submit obtain w' out where
    r: "submit (\<lambda>d. d) (\<lambda>d. d) ex_submitter ex_env (ex_intent BUY) 100 100 None ?w = Inr (w', out)"
    and st: "so_status out = Sub_SUBMITTED" by blast
  have "ledger_wf (w_ledger ?w)" by (simp add: empty_ledger_wf)
  from submit_status_is_state [OF this r] st r show ?thesis by (auto simp: ex_intent_def)
qed

end
