(* ===== verification/Paper_Fill.thy ===== *)
theory Paper_Fill
  imports Submitter Portfolio
begin

text \<open>
  The in-process paper fill simulator (\<open>execution/paper_fill.py\<close>), the book of record of a paper
  run. \<open>apply\<close> mutates the ledger and the portfolio it is handed; here it returns both together
  with its outcome or the exception that escaped, because an exception may escape after one of
  them has changed. \<open>datetime.now(UTC)\<close> is the parameter \<open>now\<close>; reasons are values.
\<close>

section \<open>Data\<close>

datatype paper_fill_status =
    PF_FILLED | PF_DUPLICATE | PF_PLAN_REJECTED | PF_REJECTED | PF_WITHHELD | PF_INVALID_EXIT_SIZE

datatype paper_fill_reason =
    MidNotPositive
  | DecisionAlready string order_state
  | DecisionHasFill string
  | FillAlreadyBooked string
  | PlanRefused plan_reason
  | CannotSell real string real

record paper_fill_outcome =
  po_status :: paper_fill_status
  po_reason :: "paper_fill_reason option"
  po_fill :: "execution_fill option"
  po_plan :: "execution_plan option"
  po_fee_usd :: real

datatype paper_error =
    PE_outside_paper_mode
  | PE_mid_not_positive
  | PE_slippage_negative
  | PE_fill_invalid
  | PE_ledger ledger_error
  | PE_portfolio portfolio_error

record fill_simulator =
  fs_planner :: execution_planner
  fs_paper_fee_bps :: real
  fs_paper_slippage_bps :: real
  fs_trading_mode :: string

text \<open>The constructor's checks (\<open>__post_init__\<close>).\<close>

definition simulator_ok :: "fill_simulator \<Rightarrow> bool" where
  "simulator_ok P \<longleftrightarrow> \<not> fs_paper_fee_bps P < 0 \<and> \<not> fs_paper_slippage_bps P < 0"

record paper_world =
  pw_ledger :: execution_ledger
  pw_book :: book

section \<open>Operations\<close>

definition paper_fill_id_prefix :: string where
  "paper_fill_id_prefix = ''paper-fill:''"

definition paper_fill_id :: "string \<Rightarrow> string" where
  "paper_fill_id client_order_id = paper_fill_id_prefix @ client_order_id"

definition is_paper_simulated_fill :: "string \<Rightarrow> bool" where
  "is_paper_simulated_fill fill_id = startswith fill_id paper_fill_id_prefix"

definition is_local_paper_fill :: "execution_order \<Rightarrow> bool" where
  "is_local_paper_fill x \<longleftrightarrow> o_state x = FILLED \<and> o_fee_source x = Some FS_MODELLED"

definition adverse_fill_price_usd :: "side \<Rightarrow> real \<Rightarrow> real \<Rightarrow> paper_error + real" where
  "adverse_fill_price_usd sd mid_usd slippage_bps =
     (if mid_usd \<le> 0 then Inl PE_mid_not_positive
      else if slippage_bps < 0 then Inl PE_slippage_negative
      else (let adjustment = slippage_bps / 10000
            in if sd = BUY then Inr (mid_usd * (1 + adjustment)) else Inr (mid_usd * (1 - adjustment))))"

definition pf_outcome :: "paper_fill_status \<Rightarrow> paper_fill_reason \<Rightarrow> execution_plan option \<Rightarrow> paper_fill_outcome" where
  "pf_outcome st r p = \<lparr>po_status = st, po_reason = Some r, po_fill = None, po_plan = p, po_fee_usd = 0\<rparr>"

definition existing_order :: "execution_ledger \<Rightarrow> string \<Rightarrow> execution_order option" where
  "existing_order L d = (case orders_for_decision d L of [] \<Rightarrow> None | x # xs \<Rightarrow> Some x)"

definition duplicate_if_already_filled :: "execution_order \<Rightarrow> execution_ledger \<Rightarrow> paper_fill_outcome option" where
  "duplicate_if_already_filled x L =
     (if o_state x = FILLED \<or> paper_fill_id (client_id_of x) \<in> set (l_processed_fill_ids L)
      then Some (pf_outcome PF_DUPLICATE (DecisionHasFill (o_decision_id x)) None) else None)"

definition held_quantity :: "book \<Rightarrow> string \<Rightarrow> real" where
  "held_quantity b asset =
     (case dict_get (b_positions b) (upper asset) of None \<Rightarrow> 0 | Some p \<Rightarrow> pos_quantity p)"

definition reduce_only_cap :: "book \<Rightarrow> paper_order_intent \<Rightarrow> real option" where
  "reduce_only_cap b i =
     (if \<not> in_reduce_only i \<or> in_side i \<noteq> SELL then None else Some (held_quantity b (in_asset i)))"

definition short_sale_tolerance :: real where
  "short_sale_tolerance = 1 / 10 ^ 12"

definition short_sale_reason :: "book \<Rightarrow> paper_order_intent \<Rightarrow> real \<Rightarrow> paper_fill_reason option" where
  "short_sale_reason b i quantity =
     (if in_side i \<noteq> SELL then None
      else (let available = held_quantity b (in_asset i)
            in if available + short_sale_tolerance < quantity
               then Some (CannotSell quantity (upper (in_asset i)) available) else None))"

text \<open>The checks on an order the decision already has.\<close>

definition existing_verdict :: "paper_order_intent \<Rightarrow> execution_ledger \<Rightarrow> paper_fill_outcome option" where
  "existing_verdict i L =
     (case existing_order L (in_decision_id i) of
        None \<Rightarrow> None
      | Some x \<Rightarrow>
          (case duplicate_if_already_filled x L of
             Some out \<Rightarrow> Some out
           | None \<Rightarrow>
               if o_state x \<in> set terminal_order_states \<and> o_state x \<noteq> FILLED
               then Some (pf_outcome PF_REJECTED (DecisionAlready (in_decision_id i) (o_state x)) None)
               else None))"

text \<open>From the planned order to the booked fill: ledger first, then portfolio.\<close>

definition simulated_fill ::
    "fill_simulator \<Rightarrow> datetime \<Rightarrow> paper_order_intent \<Rightarrow> real \<Rightarrow> string \<Rightarrow> string \<Rightarrow> real \<Rightarrow> execution_fill" where
  "simulated_fill P now i price order_id client_order_id quantity =
     \<lparr>f_fill_id = paper_fill_id client_order_id, f_order_id = order_id, f_asset = upper (in_asset i),
      f_side = in_side i, f_quantity = quantity, f_price_usd = price,
      f_fee_usd = quantity * price * fs_paper_fee_bps P / 10000, f_fee_source = FS_MODELLED,
      f_observed_at = now\<rparr>"

definition book_fill ::
    "fill_simulator \<Rightarrow> datetime \<Rightarrow> paper_order_intent \<Rightarrow> real \<Rightarrow> execution_plan \<Rightarrow> string \<Rightarrow> string \<Rightarrow> real
       \<Rightarrow> paper_world \<Rightarrow> paper_world \<times> (paper_error + paper_fill_outcome)" where
  "book_fill P now i price p order_id client_order_id quantity w =
     (let fill_id = paper_fill_id client_order_id
      in if fill_id \<in> set (l_processed_fill_ids (pw_ledger w))
         then (w, Inr (pf_outcome PF_DUPLICATE (FillAlreadyBooked fill_id) (Some p)))
         else case short_sale_reason (pw_book w) i quantity of
                Some r \<Rightarrow> (w, Inr (pf_outcome PF_REJECTED r (Some p)))
              | None \<Rightarrow>
                  (let f = simulated_fill P now i price order_id client_order_id quantity
                   in if \<not> fill_valid f then (w, Inl PE_fill_invalid)
                      else case record_fill now f (pw_ledger w) of
                             Inl e \<Rightarrow> (w, Inl (PE_ledger e))
                           | Inr (False, L) \<Rightarrow>
                               (w, Inr (pf_outcome PF_DUPLICATE (FillAlreadyBooked fill_id) (Some p)))
                           | Inr (True, L) \<Rightarrow>
                               (case apply_fill (f_asset f) (f_side f) (f_quantity f) (f_price_usd f)
                                       (f_fee_usd f) now None (pw_book w) of
                                  (b, Some e) \<Rightarrow> (w\<lparr>pw_ledger := L, pw_book := b\<rparr>, Inl (PE_portfolio e))
                                | (b, None) \<Rightarrow>
                                    (w\<lparr>pw_ledger := L, pw_book := b\<rparr>,
                                     Inr \<lparr>po_status = PF_FILLED, po_reason = None, po_fill = Some f,
                                          po_plan = Some p, po_fee_usd = f_fee_usd f\<rparr>))))"

definition place_and_fill ::
    "fill_simulator \<Rightarrow> datetime \<Rightarrow> paper_order_intent \<Rightarrow> real \<Rightarrow> real option \<Rightarrow> execution_plan
       \<Rightarrow> paper_world \<Rightarrow> paper_world \<times> (paper_error + paper_fill_outcome)" where
  "place_and_fill P now i price cap p w =
     (case existing_order (pw_ledger w) (in_decision_id i) of
        Some x \<Rightarrow>
          (let quantity = (case cap of
                             None \<Rightarrow> o_requested_quantity x
                           | Some c \<Rightarrow> min (o_requested_quantity x) (xp_quantity p))
           in book_fill P now i price p (o_order_id x) (client_id_of x) quantity w)
      | None \<Rightarrow>
          (let x = planned_order p now
           in case register_order x (pw_ledger w) of
                Inl e \<Rightarrow> (w, Inl (PE_ledger e))
              | Inr L \<Rightarrow>
                  book_fill P now i price p (o_order_id x) (xp_client_order_id p) (xp_quantity p)
                    (w\<lparr>pw_ledger := L\<rparr>)))"

definition simulate_fill ::
    "(string \<Rightarrow> string) \<Rightarrow> (string \<Rightarrow> string) \<Rightarrow> fill_simulator \<Rightarrow> datetime \<Rightarrow> paper_order_intent \<Rightarrow> real
       \<Rightarrow> paper_world \<Rightarrow> paper_world \<times> (paper_error + paper_fill_outcome)" where
  "simulate_fill h10 h16 P now i mid_usd w =
     (if fs_trading_mode P \<noteq> ''paper'' then (w, Inl PE_outside_paper_mode)
      else if mid_usd \<le> 0 then (w, Inr (pf_outcome PF_REJECTED MidNotPositive None))
      else case existing_verdict i (pw_ledger w) of
             Some out \<Rightarrow> (w, Inr out)
           | None \<Rightarrow>
               (case adverse_fill_price_usd (in_side i) mid_usd (fs_paper_slippage_bps P) of
                  Inl e \<Rightarrow> (w, Inl e)
                | Inr price \<Rightarrow>
                    (let cap = reduce_only_cap (pw_book w) i
                     in case plan h10 h16 (fs_planner P) i price mid_usd cap of
                          Inl (ExitSizingRejected r) \<Rightarrow>
                            (w, Inr (pf_outcome PF_INVALID_EXIT_SIZE (PlanRefused r) None))
                        | Inl (ExecutionPlanRejected r) \<Rightarrow>
                            (w, Inr (pf_outcome PF_PLAN_REJECTED (PlanRefused r) None))
                        | Inr p \<Rightarrow> place_and_fill P now i price cap p w)))"

definition filled :: "paper_error + paper_fill_outcome \<Rightarrow> bool" where
  "filled r = (case r of Inl e \<Rightarrow> False | Inr out \<Rightarrow> po_status out = PF_FILLED)"

section \<open>The order of a decision\<close>

definition self_named :: "execution_ledger \<Rightarrow> bool" where
  "self_named L \<longleftrightarrow> list_all (\<lambda>x. client_id_of x = o_order_id x) (dict_vals (l_orders L))"

definition paper_wf :: "paper_world \<Rightarrow> bool" where
  "paper_wf w \<longleftrightarrow> ledger_wf (pw_ledger w) \<and> self_named (pw_ledger w) \<and> book_wf (pw_book w)"

lemma dict_vals_update:
  "distinct (dict_keys d) \<Longrightarrow> dict_get d k = Some x \<Longrightarrow>
     dict_vals (dict_set k y d) = map (\<lambda>(k', z). if k' = k then y else z) d"
proof (induction d)
  case (Cons a d)
  show ?case
  proof (cases "fst a = k")
    case True
    with Cons.prems have "k \<notin> fst ` set d" by auto
    then have "map (\<lambda>(k', z). if k' = k then y else z) d = dict_vals d" by (force simp: split_beta)
    with True show ?thesis by (cases a) simp
  qed (use Cons in \<open>cases a; simp\<close>)
qed simp

lemma filter_map_if:
  "(\<And>z. z \<in> set xs \<Longrightarrow> Q z \<Longrightarrow> P z = P y) \<Longrightarrow>
     filter P (map (\<lambda>z. if Q z then y else z) xs) = map (\<lambda>z. if Q z then y else z) (filter P xs)"
  by (induction xs) auto

lemma orders_put:
  assumes "keyed L" "dict_get (l_orders L) k = Some x" "o_decision_id y = o_decision_id x"
  shows "orders_for_decision d (put_order k y L)
    = map (\<lambda>z. if o_order_id z = k then y else z) (orders_for_decision d L)"
proof -
  have vals: "dict_vals (l_orders (put_order k y L)) = map (\<lambda>z. if o_order_id z = k then y else z) (dict_vals (l_orders L))"
    using assms(1,2) dict_vals_update [of "l_orders L" k x y]
    by (auto simp: keyed_def list_all_iff)
  have "o_decision_id z = o_decision_id y" if z: "z \<in> set (dict_vals (l_orders L))" "o_order_id z = k" for z
  proof -
    from z assms(1) have "dict_get (l_orders L) k = Some z"
      by (auto simp: keyed_def list_all_iff map_of_eq_Some_iff)
    with assms(2,3) show ?thesis by simp
  qed
  then show ?thesis unfolding orders_for_decision_def vals by (intro filter_map_if) simp
qed

lemma existing_put:
  assumes "keyed L" "dict_get (l_orders L) k = Some x" "o_decision_id y = o_decision_id x"
  shows "existing_order (put_order k y L) d
    = map_option (\<lambda>z. if o_order_id z = k then y else z) (existing_order L d)"
  by (simp add: existing_order_def orders_put [OF assms] split: list.splits)

lemma existing_stored:
  assumes "existing_order L d = Some x" "keyed L"
  shows "stored x L" "o_decision_id x = d"
proof -
  have "x \<in> set (orders_for_decision d L)" using assms(1) by (auto simp: existing_order_def split: list.splits)
  then obtain k where "(k, x) \<in> set (l_orders L)" "o_decision_id x = d" by (auto simp: orders_for_decision_def)
  with assms(2) show "stored x L" "o_decision_id x = d"
    by (auto simp: keyed_def stored_def list_all_iff map_of_eq_Some_iff)
qed

lemma existing_register:
  assumes "keyed L" "register_order x L = Inr L'" "existing_order L (o_decision_id x) = None"
  shows "existing_order L' d = (if d = o_decision_id x then Some x else existing_order L d)"
proof -
  have L': "L' = put_order (o_order_id x) x L" by (rule register_planned [OF assms(2)])
  have "dict_get (l_orders L) (o_order_id x) = None"
  proof (cases "dict_get (l_orders L) (o_order_id x)")
    case (Some y)
    with assms(2) have "y = x" by (auto simp: register_order_def split: if_splits)
    with Some have "x \<in> set (orders_for_decision (o_decision_id x) L)"
      by (force simp: orders_for_decision_def dest: map_of_SomeD)
    with assms(3) show ?thesis by (auto simp: existing_order_def split: list.splits)
  qed
  then have "orders_for_decision d L' = orders_for_decision d L @ (if d = o_decision_id x then [x] else [])"
    by (auto simp: L' orders_for_decision_def update_absent map_of_eq_None_iff)
  with assms(3) show ?thesis by (auto simp: existing_order_def split: list.splits)
qed

section \<open>What a simulation does\<close>

text \<open>The order that is filled and the ledger it stands in: the decision's order, or a new one.\<close>

definition placed :: "execution_ledger \<Rightarrow> string \<Rightarrow> execution_order \<Rightarrow> execution_ledger \<Rightarrow> bool" where
  "placed L d x L1 \<longleftrightarrow> o_decision_id x = d \<and>
     (existing_order L d = Some x \<and> L1 = L
      \<or> existing_order L d = None \<and> register_order x L = Inr L1 \<and> order_ok x \<and> client_id_of x = o_order_id x
        \<and> o_state x = PLANNED \<and> o_filled_quantity x = 0)"

lemma book_fill_cases:
  assumes "book_fill P now i price p oid cid q w = (w', r)"
  obtains (idle) "w' = w" "\<not> filled r"
  | (booked) f L b err where "f = simulated_fill P now i price oid cid q" "fill_valid f"
      "short_sale_reason (pw_book w) i q = None"
      "record_fill now f (pw_ledger w) = Inr (True, L)"
      "apply_fill (f_asset f) (f_side f) (f_quantity f) (f_price_usd f) (f_fee_usd f) now None (pw_book w) = (b, err)"
      "w' = w\<lparr>pw_ledger := L, pw_book := b\<rparr>" "filled r \<longleftrightarrow> err = None"
      "err = None \<Longrightarrow> \<exists>out. r = Inr out \<and> po_fill out = Some f \<and> po_plan out = Some p"
proof -
  let ?f = "simulated_fill P now i price oid cid q"
  show thesis
  proof (cases "paper_fill_id cid \<in> set (l_processed_fill_ids (pw_ledger w)) \<or> short_sale_reason (pw_book w) i q \<noteq> None
      \<or> \<not> fill_valid ?f \<or> (\<forall>L. record_fill now ?f (pw_ledger w) \<noteq> Inr (True, L))")
    case True
    with assms have "w' = w \<and> \<not> filled r"
      by (auto simp: book_fill_def Let_def filled_def pf_outcome_def
          split: option.splits if_splits sum.splits prod.splits bool.splits)
    with idle show thesis by blast
  next
    case False
    then obtain L where L: "record_fill now ?f (pw_ledger w) = Inr (True, L)" and v: "fill_valid ?f"
      and s: "short_sale_reason (pw_book w) i q = None"
      and n: "paper_fill_id cid \<notin> set (l_processed_fill_ids (pw_ledger w))" by auto
    obtain b err where b: "apply_fill (f_asset ?f) (f_side ?f) (f_quantity ?f) (f_price_usd ?f) (f_fee_usd ?f) now None
        (pw_book w) = (b, err)" by (cases "apply_fill (f_asset ?f) (f_side ?f) (f_quantity ?f) (f_price_usd ?f)
          (f_fee_usd ?f) now None (pw_book w)")
    show thesis
      by (rule booked [OF refl v s L b])
        (use assms L v s n b in \<open>auto simp: book_fill_def Let_def filled_def split: option.splits\<close>)
  qed
qed

lemma planned_order_ok:
  assumes "plan h10 h16 P i price ref cap = Inr p"
  shows "order_ok (planned_order p now)" "client_id_of (planned_order p now) = o_order_id (planned_order p now)"
    "o_decision_id (planned_order p now) = in_decision_id i" "o_state (planned_order p now) = PLANNED"
    "o_filled_quantity (planned_order p now) = 0"
proof -
  from pl.plan_pos [OF assms] have "0 < xp_quantity p" by simp
  then show "order_ok (planned_order p now)" using fill_tolerance_pos
    by (simp add: order_ok_def order_valid_def planned_order_def)
  show "client_id_of (planned_order p now) = o_order_id (planned_order p now)"
    "o_decision_id (planned_order p now) = in_decision_id i" "o_state (planned_order p now) = PLANNED"
    "o_filled_quantity (planned_order p now) = 0"
    using plan_Inr(8,9) [OF assms] by (simp_all add: planned_order_def client_id_of_def text_or_def client_order_id_for_def)
qed

definition fill_quantity :: "real option \<Rightarrow> execution_plan \<Rightarrow> execution_order \<Rightarrow> real" where
  "fill_quantity cap p x =
     (case cap of None \<Rightarrow> o_requested_quantity x | Some c \<Rightarrow> min (o_requested_quantity x) (xp_quantity p))"

lemma place_cases:
  assumes "place_and_fill P now i price cap p w = (w', r)"
    "plan h10 h16 PL i price ref cap = Inr p"
  obtains (idle) "w' = w" "\<not> filled r"
  | (fill) x L1 where "placed (pw_ledger w) (in_decision_id i) x L1"
      "book_fill P now i price p (o_order_id x) (client_id_of x) (fill_quantity cap p x) (w\<lparr>pw_ledger := L1\<rparr>) = (w', r)"
proof (cases "existing_order (pw_ledger w) (in_decision_id i)")
  case (Some x)
  then have "o_decision_id x = in_decision_id i"
    by (auto simp: existing_order_def orders_for_decision_def filter_eq_Cons_iff split: list.splits)
  with Some assms(1) fill [of x "pw_ledger w"] show thesis
    by (simp add: place_and_fill_def fill_quantity_def placed_def Let_def)
next
  case None
  note px = planned_order_ok [OF assms(2), of now]
  have q: "xp_quantity p = fill_quantity cap p (planned_order p now)"
    "o_order_id (planned_order p now) = xp_client_order_id p"
    by (simp_all add: fill_quantity_def planned_order_def split: option.splits)
  show thesis
  proof (cases "register_order (planned_order p now) (pw_ledger w)")
    case (Inl e)
    with None assms(1) idle show thesis by (auto simp: place_and_fill_def Let_def filled_def)
  next
    case (Inr L1)
    with None assms(1) px q fill [of "planned_order p now" L1] show thesis
      by (simp add: place_and_fill_def placed_def Let_def)
  qed
qed

text \<open>Every run leaves the world alone, places an order without filling it, or books a fill of the
  decision's order in the ledger and hands it to the portfolio.\<close>

lemma simulate_cases:
  assumes "simulate_fill h10 h16 P now i mid w = (w', r)"
  obtains (idle) "w' = w" "\<not> filled r"
  | (unfilled) x L1 where "placed (pw_ledger w) (in_decision_id i) x L1" "w' = w\<lparr>pw_ledger := L1\<rparr>" "\<not> filled r"
  | (booked) p price x L1 f L2 b err where
      "fs_trading_mode P = ''paper''" "0 < mid" "existing_verdict i (pw_ledger w) = None"
      "adverse_fill_price_usd (in_side i) mid (fs_paper_slippage_bps P) = Inr price"
      "plan h10 h16 (fs_planner P) i price mid (reduce_only_cap (pw_book w) i) = Inr p"
      "placed (pw_ledger w) (in_decision_id i) x L1"
      "f = simulated_fill P now i price (o_order_id x) (client_id_of x) (fill_quantity (reduce_only_cap (pw_book w) i) p x)"
      "fill_valid f" "short_sale_reason (pw_book w) i (f_quantity f) = None"
      "record_fill now f L1 = Inr (True, L2)"
      "apply_fill (f_asset f) (f_side f) (f_quantity f) (f_price_usd f) (f_fee_usd f) now None (pw_book w) = (b, err)"
      "w' = w\<lparr>pw_ledger := L2, pw_book := b\<rparr>" "filled r \<longleftrightarrow> err = None"
      "err = None \<Longrightarrow> \<exists>out. r = Inr out \<and> po_fill out = Some f"
proof -
  let ?cap = "reduce_only_cap (pw_book w) i"
  from assms consider (stop) "w' = w" "\<not> filled r"
    | (go) price p where "fs_trading_mode P = ''paper''" "0 < mid" "existing_verdict i (pw_ledger w) = None"
        "adverse_fill_price_usd (in_side i) mid (fs_paper_slippage_bps P) = Inr price"
        "plan h10 h16 (fs_planner P) i price mid ?cap = Inr p"
        "place_and_fill P now i price ?cap p w = (w', r)"
    by (auto simp: simulate_fill_def Let_def filled_def pf_outcome_def existing_verdict_def duplicate_if_already_filled_def
        split: if_splits option.splits sum.splits plan_error.splits)
  then show thesis
  proof cases
    case stop
    then show thesis by (rule idle)
  next
    case go
    from go(6,5) show thesis
    proof (cases rule: place_cases)
      case idle
      with that(1) show thesis by blast
    next
      case (fill x L1)
      from fill(2) show thesis
      proof (cases rule: book_fill_cases)
        case idle
        with unfilled [OF fill(1)] show thesis by simp
      next
        case (booked f L b err)
        have "f_quantity f = fill_quantity ?cap p x" by (simp add: booked(1) simulated_fill_def)
        then show thesis
          by (intro that(3) [OF go(1-5) fill(1) booked(1,2)]) (use booked in auto)
      qed
    qed
  qed
qed

section \<open>At most one fill per decision\<close>

definition paper_seen :: "paper_world \<Rightarrow> string \<Rightarrow> bool" where
  "paper_seen w d =
     (case existing_order (pw_ledger w) d of
        None \<Rightarrow> False
      | Some x \<Rightarrow> o_state x = FILLED \<or> paper_fill_id (client_id_of x) \<in> set (l_processed_fill_ids (pw_ledger w)))"

text \<open>One call of \<open>apply\<close> as a step: the intent, its mid price and the time of the call.\<close>

type_synonym paper_call = "paper_order_intent \<times> real \<times> datetime"

definition paper_key :: "paper_call \<Rightarrow> string" where
  "paper_key e = in_decision_id (fst e)"

definition paper_step ::
    "(string \<Rightarrow> string) \<Rightarrow> (string \<Rightarrow> string) \<Rightarrow> fill_simulator \<Rightarrow> paper_call \<Rightarrow> paper_world \<Rightarrow> paper_world \<times> bool" where
  "paper_step h10 h16 P e w =
     (case simulate_fill h10 h16 P (snd (snd e)) (fst e) (fst (snd e)) w of (w', r) \<Rightarrow> (w', filled r))"

lemma self_named_put: "keyed L \<Longrightarrow> self_named L \<Longrightarrow> client_id_of x = o_order_id x \<Longrightarrow> self_named (put_order k x L)"
  by (auto simp: self_named_def keyed_def intro: vals_set)

lemma self_named_stored: "self_named L \<Longrightarrow> stored x L \<Longrightarrow> client_id_of x = o_order_id x"
  by (force simp: self_named_def stored_def list_all_iff dest: map_of_SomeD)

lemma placed_facts:
  assumes "placed L d x L1" "ledger_wf L" "self_named L"
  shows "ledger_wf L1" "self_named L1" "stored x L1" "existing_order L1 d = Some x"
    "k \<noteq> d \<Longrightarrow> existing_order L1 k = existing_order L k" "client_id_of x = o_order_id x"
    "l_processed_fill_ids L1 = l_processed_fill_ids L"
proof -
  note k = ledger_wf_keyed [OF assms(2)]
  from assms(1) consider (old) "existing_order L d = Some x" "L1 = L"
    | (new) "existing_order L d = None" "register_order x L = Inr L1" "order_ok x" "client_id_of x = o_order_id x"
      "o_decision_id x = d" by (auto simp: placed_def)
  then have "ledger_wf L1 \<and> self_named L1 \<and> stored x L1 \<and> existing_order L1 d = Some x
    \<and> (k \<noteq> d \<longrightarrow> existing_order L1 k = existing_order L k) \<and> client_id_of x = o_order_id x
    \<and> l_processed_fill_ids L1 = l_processed_fill_ids L"
  proof cases
    case old
    with assms(2,3) existing_stored [OF old(1) k] self_named_stored show ?thesis by auto
  next
    case new
    note L1 = register_planned [OF new(2)]
    from register_order_wf [OF assms(2) new(3,2)] existing_register [OF k new(2)] new L1 self_named_put [OF k assms(3)]
    show ?thesis by simp
  qed
  then show "ledger_wf L1" "self_named L1" "stored x L1" "existing_order L1 d = Some x"
    "k \<noteq> d \<Longrightarrow> existing_order L1 k = existing_order L k" "client_id_of x = o_order_id x"
    "l_processed_fill_ids L1 = l_processed_fill_ids L" by auto
qed

text \<open>Recording a fill of a stored order: that order moves, the decision index does not.\<close>

lemma record_stored:
  assumes "record_fill now f L = Inr (True, L2)" "stored x L" "f_order_id f = o_order_id x" "ledger_wf L"
    "self_named L" "fill_valid f"
  shows "ledger_wf L2" "self_named L2" "l_processed_fill_ids L2 = f_fill_id f # l_processed_fill_ids L"
    "\<exists>y. fill_order now f x = Inr y \<and> client_id_of y = client_id_of x \<and> o_order_id y = o_order_id x
      \<and> (\<forall>d. existing_order L2 d = map_option (\<lambda>z. if o_order_id z = o_order_id x then y else z) (existing_order L d))"
proof -
  show "ledger_wf L2" by (rule record_fill_wf [OF assms(4,6,1)])
  from assms(1) obtain k z y where r: "find_key (f_order_id f) L = Some k" "dict_get (l_orders L) k = Some z"
      "fill_order now f z = Inr y" "l_orders L2 = dict_set k y (l_orders L)"
      "l_processed_fill_ids L2 = f_fill_id f # l_processed_fill_ids L" by (rule record_fill_True)
  from assms(2,3) r(1,2) have z: "k = o_order_id x" "z = x" by (auto simp: find_key_def stored_def)
  from r(3) z have y: "o_decision_id y = o_decision_id x" "o_order_id y = o_order_id x" "o_client_order_id y = o_client_order_id x"
    by (auto elim: fill_order_Inr)
  then have c: "client_id_of y = client_id_of x" by (simp add: client_id_of_def)
  have same: "existing_order L2 d = existing_order (put_order (o_order_id x) y L) d" for d
    using r(4) z by (simp add: existing_order_def orders_for_decision_def)
  note ky = ledger_wf_keyed [OF assms(4)]
  from c y self_named_stored [OF assms(5,2)] self_named_put [OF ky assms(5)] r(4) z show "self_named L2"
    by (simp add: self_named_def)
  show "l_processed_fill_ids L2 = f_fill_id f # l_processed_fill_ids L" by (rule r(5))
  show "\<exists>y. fill_order now f x = Inr y \<and> client_id_of y = client_id_of x \<and> o_order_id y = o_order_id x
      \<and> (\<forall>d. existing_order L2 d = map_option (\<lambda>z. if o_order_id z = o_order_id x then y else z) (existing_order L d))"
    using r(3) z c y same existing_put [OF ky _ y(1)] assms(2) by (auto simp: stored_def)
qed

lemma paper_seen_put:
  assumes "paper_seen w d" "set (l_processed_fill_ids (pw_ledger w)) \<subseteq> set (l_processed_fill_ids (pw_ledger w'))"
    "existing_order (pw_ledger w') d = map_option g (existing_order (pw_ledger w) d)"
    "\<And>z. existing_order (pw_ledger w) d = Some z \<Longrightarrow> client_id_of (g z) = client_id_of z \<and> (o_state z = FILLED \<longrightarrow> o_state (g z) = FILLED)"
  shows "paper_seen w' d"
  using assms by (auto simp: paper_seen_def split: option.splits)

lemma simulate_keeps:
  assumes "simulate_fill h10 h16 P now i mid w = (w', r)" "paper_wf w"
  shows "paper_wf w' \<and> (paper_seen w k \<longrightarrow> paper_seen w' k) \<and> (filled r \<longrightarrow> paper_seen w' (in_decision_id i))"
  using assms(1)
proof (cases rule: simulate_cases)
  case idle
  with assms(2) show ?thesis by simp
next
  case (unfilled x L1)
  from assms(2) have w: "ledger_wf (pw_ledger w)" "self_named (pw_ledger w)" by (simp_all add: paper_wf_def)
  note pf = placed_facts [OF unfilled(1) w]
  have "paper_seen w k \<Longrightarrow> paper_seen w' k"
    using pf unfilled(1,2) by (cases "k = in_decision_id i") (auto simp: paper_seen_def placed_def split: option.splits)
  with pf assms(2) unfilled show ?thesis by (simp add: paper_wf_def)
next
  case (booked p price x L1 f L2 b err)
  from assms(2) have w: "ledger_wf (pw_ledger w)" "self_named (pw_ledger w)" by (simp_all add: paper_wf_def)
  note pf = placed_facts [OF booked(6) w]
  have f: "f_order_id f = o_order_id x" "f_fill_id f = paper_fill_id (client_id_of x)"
    by (simp_all add: booked(7) simulated_fill_def)
  note rs = record_stored [OF booked(10) pf(3) f(1) pf(1,2) booked(8)]
  from rs(4) obtain y where y: "fill_order now f x = Inr y" "client_id_of y = client_id_of x" "o_order_id y = o_order_id x"
    "\<And>d. existing_order L2 d = map_option (\<lambda>z. if o_order_id z = o_order_id x then y else z) (existing_order L1 d)" by blast
  have wf: "paper_wf w'" using booked(11,12) rs(1,2) apply_fill_wf [of "pw_book w"] assms(2)
    by (auto simp: paper_wf_def) (metis fst_conv)
  have new: "paper_seen w' (in_decision_id i)"
    using booked(12) pf(4) y f rs(3) by (simp add: paper_seen_def)
  have "paper_seen w k \<Longrightarrow> paper_seen w' k" if "k \<noteq> in_decision_id i"
  proof -
    assume s: "paper_seen w k"
    note L1k = ledger_wf_keyed [OF pf(1)]
    have other: "o_order_id z \<noteq> o_order_id x" if z: "existing_order L1 k = Some z" for z
    proof
      assume "o_order_id z = o_order_id x"
      with existing_stored(1) [OF z L1k] pf(3) have "z = x" by (simp add: stored_def)
      with existing_stored(2) [OF z L1k] existing_stored(2) [OF pf(4) L1k] \<open>k \<noteq> in_decision_id i\<close> show False by simp
    qed
    show "paper_seen w' k"
      by (rule paper_seen_put [OF s, of _ "\<lambda>z. if o_order_id z = o_order_id x then y else z"])
        (use booked(12) pf(5) [OF \<open>k \<noteq> in_decision_id i\<close>] pf(7) rs(3) y(4) other in auto)
  qed
  with wf new show ?thesis by auto
qed

interpretation pf: at_most_once paper_wf paper_seen paper_key "paper_step h10 h16 P" for h10 h16 P
proof
  show "paper_step h10 h16 P e w = (w, False)" if "paper_wf w" "paper_seen w (paper_key e)" for w e
    using that by (auto simp: paper_step_def simulate_fill_def paper_seen_def paper_key_def existing_verdict_def
        duplicate_if_already_filled_def pf_outcome_def filled_def split: option.splits if_splits)
  have step: "paper_wf w' \<and> (paper_seen w k \<longrightarrow> paper_seen w' k) \<and> (b \<longrightarrow> paper_seen w' (paper_key e))"
    if wf: "paper_wf w" and run: "paper_step h10 h16 P e w = (w', b)" for w e w' b k
  proof -
    obtain r where "simulate_fill h10 h16 P (snd (snd e)) (fst e) (fst (snd e)) w = (w', r)" "b = filled r"
      using run by (auto simp: paper_step_def split: prod.splits)
    from simulate_keeps [OF this(1) wf, of k] this(2) show ?thesis by (simp add: paper_key_def)
  qed
  show "paper_wf w \<Longrightarrow> paper_step h10 h16 P e w = (w', True) \<Longrightarrow> paper_seen w' (paper_key e)" for w e w'
    using step by blast
  show "paper_wf w \<Longrightarrow> paper_step h10 h16 P e w = (w', b) \<Longrightarrow> paper_seen w k \<Longrightarrow> paper_seen w' k" for w e w' b k
    using step by blast
  show "paper_wf w \<Longrightarrow> paper_step h10 h16 P e w = (w', b) \<Longrightarrow> paper_wf w'" for w e w' b
    using step by blast
qed

section \<open>Properties\<close>

lemma held_quantity_eq: "held_quantity b a = quantity_of b (upper a)"
  by (simp add: held_quantity_def quantity_of_def dict_get_or_def empty_position_def split: option.splits)

lemma adverse_price:
  assumes "adverse_fill_price_usd sd mid bps = Inr price"
  shows "if sd = BUY then mid \<le> price else price \<le> mid"
proof -
  from assms have "0 \<le> bps" "0 < mid" "price = (if sd = BUY then mid * (1 + bps / 10000) else mid * (1 - bps / 10000))"
    by (auto simp: adverse_fill_price_usd_def Let_def split: if_splits)
  moreover from this have "0 \<le> mid * (bps / 10000)" by simp
  ultimately show ?thesis by (simp add: distrib_left right_diff_distrib)
qed

text \<open>The portfolio refuses a booked fill only in the sliver the short-sale check tolerates.\<close>

lemma refused_in_sliver:
  assumes "apply_fill a sd q price fee now s b = (b', Some e)" "0 < q" "0 < price" "0 \<le> fee" "book_wf b"
  shows "sd = SELL \<and> quantity_of b (upper a) < q \<and> b' \<in> {b, ensure_position (upper a) b}"
proof (cases rule: apply_fill_shape [where sd = sd and q = q and price = price and fee = fee and b = b and a = a])
  case buy
  from apply_fill_buy [OF buy(2-4) assms(5), of a now s] assms(1) buy(1) show ?thesis by (metis option.distinct(1) prod.inject)
next
  case sell
  from apply_fill_sell [OF sell(2-5), of now s] assms(1) sell(1) show ?thesis by (metis option.distinct(1) prod.inject)
next
  case refused
  from apply_fill_refused(1) [OF refused, of now s] refused assms show ?thesis by (auto simp: quantity_of_def)
qed

lemma ensure_position_quantity [simp]: "quantity_of (ensure_position k b) a = quantity_of b a"
  "b_cash_usd (ensure_position k b) = b_cash_usd b"
  by (auto simp: quantity_of_def ensure_position_def dict_get_or_def update_conv' empty_position_def split: option.splits)

text \<open>
  C21: a paper fill happens in paper mode only, at a price no better than the mid, for a positive
  quantity that a sale never takes above the holding; it charges the modelled fee, moves cash by
  the signed notional and the fee, moves exactly one position by the quantity and is the one fill
  recorded, against the order of the decision. Any other outcome records no fill and leaves the
  portfolio alone, with one exception: a sale above the holding by at most the tolerance of the
  short-sale check is recorded in the ledger, at that quantity, while the portfolio, which has no
  such tolerance, refuses it and keeps its cash and quantities.
\<close>

theorem paper_fill_books:
  assumes "paper_wf w" and "simulate_fill h10 h16 P now i mid w = (w', r)"
  shows "if filled r
    then \<exists>out f x L1. r = Inr out \<and> po_fill out = Some f \<and> fs_trading_mode P = ''paper'' \<and> 0 < f_quantity f
      \<and> (in_side i = SELL \<longrightarrow> f_quantity f \<le> quantity_of (pw_book w) (upper (in_asset i)))
      \<and> (if in_side i = BUY then mid \<le> f_price_usd f else f_price_usd f \<le> mid)
      \<and> f_fee_usd f = f_quantity f * f_price_usd f * fs_paper_fee_bps P / 10000
      \<and> b_cash_usd (pw_book w') = b_cash_usd (pw_book w)
          + (if in_side i = BUY then - (f_quantity f * f_price_usd f) else f_quantity f * f_price_usd f) - f_fee_usd f
      \<and> (\<forall>k. quantity_of (pw_book w') k = quantity_of (pw_book w) k
          + (if k = upper (in_asset i) then (if in_side i = BUY then f_quantity f else - f_quantity f) else 0))
      \<and> l_processed_fill_ids (pw_ledger w') = f_fill_id f # l_processed_fill_ids (pw_ledger w)
      \<and> placed (pw_ledger w) (in_decision_id i) x L1 \<and> f_order_id f = o_order_id x
      \<and> record_fill now f L1 = Inr (True, pw_ledger w')
    else pw_book w' = pw_book w \<and> l_processed_fill_ids (pw_ledger w') = l_processed_fill_ids (pw_ledger w)
      \<or> in_side i = SELL \<and> b_cash_usd (pw_book w') = b_cash_usd (pw_book w)
        \<and> (\<forall>k. quantity_of (pw_book w') k = quantity_of (pw_book w) k)
        \<and> (\<exists>f x L1. placed (pw_ledger w) (in_decision_id i) x L1 \<and> f_order_id f = o_order_id x
             \<and> f_side f = SELL \<and> f_asset f = upper (in_asset i)
             \<and> record_fill now f L1 = Inr (True, pw_ledger w')
             \<and> quantity_of (pw_book w) (upper (in_asset i)) < f_quantity f
             \<and> f_quantity f \<le> quantity_of (pw_book w) (upper (in_asset i)) + short_sale_tolerance)"
  using assms(2)
proof (cases rule: simulate_cases)
  case idle
  then show ?thesis by simp
next
  case (unfilled x L1)
  with placed_facts(7) [OF unfilled(1)] assms(1) show ?thesis by (simp add: paper_wf_def)
next
  case (booked p price x L1 f L2 b err)
  from assms(1) have w: "ledger_wf (pw_ledger w)" "self_named (pw_ledger w)" "book_wf (pw_book w)"
    by (simp_all add: paper_wf_def)
  note pf = placed_facts [OF booked(6) w(1,2)]
  have f: "f_asset f = upper (in_asset i)" "f_side f = in_side i" "f_price_usd f = price" "f_order_id f = o_order_id x"
    "f_fee_usd f = f_quantity f * price * fs_paper_fee_bps P / 10000"
    by (simp_all add: booked(7) simulated_fill_def)
  have v: "0 < f_quantity f" "0 < f_price_usd f" "0 \<le> f_fee_usd f" using booked(8) by (simp_all add: fill_valid_def)
  have ids: "l_processed_fill_ids L2 = f_fill_id f # l_processed_fill_ids (pw_ledger w)"
    using booked(10) pf(7) by (auto elim: record_fill_True)
  show ?thesis
  proof (cases err)
    case None
    note eff = apply_fill_effect [OF w(3) booked(11) [unfolded None]]
    from booked(14) None obtain out where out: "r = Inr out" "po_fill out = Some f" by blast
    have "filled r" using booked(13) None by simp
    moreover have "record_fill now f L1 = Inr (True, pw_ledger w')" using booked(10,12) by simp
    ultimately show ?thesis
      using booked(1,6,12) None eff v(1) adverse_price [OF booked(4)] ids out f(4)
      by (simp only: if_True) (intro exI [of _ out] exI [of _ f] exI [of _ x] exI [of _ L1], simp add: f)
  next
    case (Some e)
    note sl = refused_in_sliver [OF booked(11) [unfolded Some] v w(3)]
    have "\<not> filled r" using booked(13) Some by simp
    moreover have "in_side i = SELL" "f_side f = SELL" using sl by (simp_all add: f)
    moreover have "f_quantity f \<le> quantity_of (pw_book w) (upper (in_asset i)) + short_sale_tolerance"
      using booked(9) sl by (auto simp: short_sale_reason_def held_quantity_eq f Let_def split: if_splits)
    moreover have "quantity_of (pw_book w) (upper (in_asset i)) < f_quantity f"
      using sl by (simp add: f)
    moreover have "record_fill now f L1 = Inr (True, pw_ledger w')" using booked(10,12) by simp
    moreover have "b_cash_usd (pw_book w') = b_cash_usd (pw_book w)"
      "\<forall>k. quantity_of (pw_book w') k = quantity_of (pw_book w) k"
      using sl booked(12) by auto
    ultimately show ?thesis using booked(6) f(1,4) by auto
  qed
qed

text \<open>
  C19: a decision is filled at most once, across retries and restarts: in any sequence of calls, in
  any order and with any repetition, the calls that filled carry pairwise distinct decision ids,
  the invariant of ledger and portfolio holds afterwards, and repeating the calls that filled
  changes nothing.
\<close>

theorem paper_fill_once:
  assumes "paper_wf w"
  shows "distinct (map paper_key (snd (run_all (paper_step h10 h16 P) es w)))
    \<and> paper_wf (fst (run_all (paper_step h10 h16 P) es w))
    \<and> run_all (paper_step h10 h16 P) (snd (run_all (paper_step h10 h16 P) es w)) (fst (run_all (paper_step h10 h16 P) es w))
      = (fst (run_all (paper_step h10 h16 P) es w), [])"
  using pf.run_distinct [OF assms] pf.run_keeps [OF assms] pf.run_idempotent [OF assms] by blast

definition ex_simulator :: fill_simulator where
  "ex_simulator = \<lparr>fs_planner = ex_planner, fs_paper_fee_bps = 10, fs_paper_slippage_bps = 5, fs_trading_mode = ''paper''\<rparr>"

definition ex_paper :: paper_world where
  "ex_paper = \<lparr>pw_ledger = empty_ledger, pw_book = ex_book\<rparr>"

lemma ex_paper_wf: "paper_wf ex_paper"
  by (simp add: paper_wf_def ex_paper_def ex_book_wf empty_ledger_wf self_named_def) (simp add: empty_ledger_def)

theorem paper_fill_once_witness:
  "distinct (map paper_key (snd (run_all (paper_step (\<lambda>d. d) (\<lambda>d. d) ex_simulator) [(ex_intent BUY, 100, 0), (ex_intent BUY, 101, 1)] ex_paper)))"
  using paper_fill_once [OF ex_paper_wf] by blast

lemma ex_paper_plan:
  "\<exists>p. plan (\<lambda>d. d) (\<lambda>d. d) ex_planner (ex_intent BUY) (2001 / 20) 100 None = Inr p
     \<and> xp_quantity p = 1 \<and> xp_client_order_id p = ''ts-d1'' \<and> xp_decision_id p = ''d1'' \<and> xp_side p = BUY \<and> xp_asset p = ''BTC''"
  by (simp add: plan_def ex_planner_def ex_intent_def clamp_quantity_def round_to_lot_def
      truncate_real_def floor_eq_iff client_order_id_for_def str_eval Let_def)

lemma ex_filled:
  "\<exists>w' r. simulate_fill (\<lambda>d. d) (\<lambda>d. d) ex_simulator 0 (ex_intent BUY) 100 ex_paper = (w', r) \<and> filled r"
proof -
  from ex_paper_plan obtain p where p: "plan (\<lambda>d. d) (\<lambda>d. d) ex_planner (ex_intent BUY) (2001 / 20) 100 None = Inr p"
    "xp_quantity p = 1" "xp_client_order_id p = ''ts-d1''" "xp_decision_id p = ''d1''" "xp_side p = BUY" "xp_asset p = ''BTC''"
    by blast
  let ?x = "planned_order p 0" and ?L = "put_order ''ts-d1'' (planned_order p 0) empty_ledger"
  let ?f = "simulated_fill ex_simulator 0 (ex_intent BUY) (2001 / 20) ''ts-d1'' ''ts-d1'' 1"
  have i: "in_side (ex_intent BUY) = BUY" "\<not> in_reduce_only (ex_intent BUY)" "in_decision_id (ex_intent BUY) = ''d1''"
    "upper (in_asset (ex_intent BUY)) = ''BTC''" by (simp_all add: ex_intent_def str_eval)
  have f: "fill_valid ?f" "f_asset ?f = ''BTC''" "f_side ?f = BUY" "f_quantity ?f = 1" "f_price_usd ?f = 2001 / 20"
    "0 \<le> f_fee_usd ?f" "f_fill_id ?f = ''paper-fill:ts-d1''" "f_order_id ?f = ''ts-d1''"
    by (simp_all add: simulated_fill_def ex_simulator_def fill_valid_def i paper_fill_id_def paper_fill_id_prefix_def)
  have "fill_order 0 ?f ?x = Inr (?x\<lparr>o_state := FILLED, o_filled_quantity := 1, o_average_fill_price_usd := Some (2001 / 20),
      o_fees_paid_usd := f_fee_usd ?f, o_fee_source := Some (f_fee_source ?f), o_last_updated_at := 0\<rparr>)"
    using p by (simp add: fill_order_def planned_order_def f transition_def is_legal_transition_def closing_states_def
        fill_tolerance_def merge_fee_source_def Let_def)
  then obtain L2 where rec: "record_fill 0 ?f ?L = Inr (True, L2)"
    by (simp add: record_fill_def f find_key_def empty_ledger_def put_order_def)
  have nn: "(0::real) < 1" "(0::real) < 2001 / 20" by simp_all
  obtain b where b: "apply_fill ''BTC'' BUY 1 (2001 / 20) (f_fee_usd ?f) 0 None ex_book = (b, None)"
    by (rule apply_fill_buy [OF nn f(6) ex_book_wf])
  have reg: "register_order ?x empty_ledger = Inr ?L"
    using p by (simp add: register_order_def put_order_def empty_ledger_def planned_order_def)
  have none: "existing_order (pw_ledger ex_paper) (in_decision_id (ex_intent BUY)) = None"
    by (simp add: existing_order_def orders_for_decision_def ex_paper_def empty_ledger_def)
  have id: "o_order_id ?x = xp_client_order_id p" by (simp add: planned_order_def)
  have "book_fill ex_simulator 0 (ex_intent BUY) (2001 / 20) p ''ts-d1'' ''ts-d1'' 1 (ex_paper\<lparr>pw_ledger := ?L\<rparr>)
      = (\<lparr>pw_ledger = L2, pw_book = b\<rparr>, Inr \<lparr>po_status = PF_FILLED, po_reason = None, po_fill = Some ?f,
           po_plan = Some p, po_fee_usd = f_fee_usd ?f\<rparr>)"
    using rec b by (simp add: book_fill_def ex_paper_def short_sale_reason_def i f Let_def)
      (simp add: empty_ledger_def)
  then have "place_and_fill ex_simulator 0 (ex_intent BUY) (2001 / 20) None p ex_paper
      = (\<lparr>pw_ledger = L2, pw_book = b\<rparr>, Inr \<lparr>po_status = PF_FILLED, po_reason = None, po_fill = Some ?f,
           po_plan = Some p, po_fee_usd = f_fee_usd ?f\<rparr>)"
    using p reg none by (simp add: place_and_fill_def id Let_def) (simp add: ex_paper_def id)
  moreover have "adverse_fill_price_usd BUY 100 5 = Inr (2001 / 20)" by (simp add: adverse_fill_price_usd_def)
  moreover have "existing_verdict (ex_intent BUY) (pw_ledger ex_paper) = None"
    using none by (simp add: existing_verdict_def)
  moreover have "fs_trading_mode ex_simulator = ''paper''" "fs_paper_slippage_bps ex_simulator = 5"
    "fs_planner ex_simulator = ex_planner" by (simp_all add: ex_simulator_def)
  ultimately show ?thesis using p(1)
    by (simp add: simulate_fill_def i reduce_only_cap_def filled_def Let_def)
qed

theorem paper_fill_books_witness:
  "\<exists>w' r out f. simulate_fill (\<lambda>d. d) (\<lambda>d. d) ex_simulator 0 (ex_intent BUY) 100 ex_paper = (w', r)
     \<and> filled r \<and> r = Inr out \<and> po_fill out = Some f \<and> 100 \<le> f_price_usd f"
proof -
  from ex_filled obtain w' r where s: "simulate_fill (\<lambda>d. d) (\<lambda>d. d) ex_simulator 0 (ex_intent BUY) 100 ex_paper = (w', r)"
    and "filled r" by blast
  with paper_fill_books [OF ex_paper_wf s] show ?thesis by (auto simp: ex_intent_def)
qed

end
