(* ===== verification/Shadow.thy ===== *)
theory Shadow
  imports Planner Contracts
begin

text \<open>
  The shadow recorder (\<open>execution/shadow.py\<close>): the order the paper path would have submitted is
  planned and appended to a file of its own, never sent. The file is the list of its lines, each
  blank, torn or an intent; \<open>None\<close> is a missing file. Reasons are values.
\<close>

section \<open>Data\<close>

datatype shadow_status = SHADOW_RECORDED | SHADOW_PLAN_REJECTED | SHADOW_DUPLICATE

datatype shadow_reason = AlreadyShadowed string | ShadowPlanRefused plan_error

record shadow_intent =
  sh_recorded_at :: datetime
  sh_decision_id :: string
  sh_asset :: string
  sh_side :: side
  sh_execution_price_usd :: real
  sh_reference_price_usd :: real
  sh_status :: shadow_status
  sh_trading_mode :: string
  sh_client_order_id :: "string option"
  sh_correlation_id :: "string option"
  sh_quantity :: "real option"
  sh_notional_usd :: "real option"
  sh_reason :: "shadow_reason option"

definition shadow_valid :: "shadow_intent \<Rightarrow> bool" where
  "shadow_valid s \<longleftrightarrow> 0 < sh_execution_price_usd s \<and> 0 < sh_reference_price_usd s
     \<and> (case sh_quantity s of None \<Rightarrow> True | Some q \<Rightarrow> 0 < q)
     \<and> (case sh_notional_usd s of None \<Rightarrow> True | Some n \<Rightarrow> 0 < n)"

datatype shadow_line = ShadowBlank | ShadowTorn | ShadowLine shadow_intent

record shadow_ledger =
  sl_file :: "shadow_line list option"
  sl_records :: "shadow_intent list"
  sl_decision_ids :: "string list"
  sl_resumed :: bool

definition new_shadow_ledger :: "shadow_line list option \<Rightarrow> shadow_ledger" where
  "new_shadow_ledger f = \<lparr>sl_file = f, sl_records = [], sl_decision_ids = [], sl_resumed = False\<rparr>"

datatype shadow_error = ShadowFileTorn | ShadowIntentInvalid

section \<open>Operations\<close>

definition load_intent :: "shadow_intent \<Rightarrow> shadow_ledger \<Rightarrow> shadow_ledger" where
  "load_intent s l = l\<lparr>sl_records := sl_records l @ [s], sl_decision_ids := sh_decision_id s # sl_decision_ids l\<rparr>"

text \<open>What was loaded before a torn line stays loaded.\<close>

fun load_lines :: "shadow_line list \<Rightarrow> shadow_ledger \<Rightarrow> shadow_ledger \<times> shadow_error option" where
  "load_lines [] l = (l, None)"
| "load_lines (ShadowBlank # xs) l = load_lines xs l"
| "load_lines (ShadowTorn # xs) l = (l, Some ShadowFileTorn)"
| "load_lines (ShadowLine s # xs) l = load_lines xs (load_intent s l)"

definition shadow_resume :: "shadow_ledger \<Rightarrow> shadow_ledger \<times> shadow_error option" where
  "shadow_resume l =
     (if sl_resumed l then (l, None)
      else (let l1 = l\<lparr>sl_resumed := True\<rparr>
            in case sl_file l of None \<Rightarrow> (l1, None) | Some xs \<Rightarrow> load_lines xs l1))"

definition has_decision :: "string \<Rightarrow> shadow_ledger \<Rightarrow> shadow_ledger \<times> (shadow_error + bool)" where
  "has_decision d l =
     (case shadow_resume l of
        (l1, Some e) \<Rightarrow> (l1, Inl e)
      | (l1, None) \<Rightarrow> (l1, Inr (d \<in> set (sl_decision_ids l1))))"

definition shadow_append :: "shadow_intent \<Rightarrow> shadow_ledger \<Rightarrow> shadow_ledger \<times> (shadow_error + shadow_intent)" where
  "shadow_append s l =
     (case shadow_resume l of
        (l1, Some e) \<Rightarrow> (l1, Inl e)
      | (l1, None) \<Rightarrow>
          ((load_intent s l1)\<lparr>sl_file := Some ((case sl_file l1 of None \<Rightarrow> [] | Some xs \<Rightarrow> xs) @ [ShadowLine s])\<rparr>, Inr s))"

definition append_valid :: "shadow_intent \<Rightarrow> shadow_ledger \<Rightarrow> shadow_ledger \<times> (shadow_error + shadow_intent)" where
  "append_valid s l = (if \<not> shadow_valid s then (l, Inl ShadowIntentInvalid) else shadow_append s l)"

definition unplanned_intent ::
    "datetime \<Rightarrow> paper_order_intent \<Rightarrow> real \<Rightarrow> real \<Rightarrow> shadow_status \<Rightarrow> shadow_reason \<Rightarrow> shadow_intent" where
  "unplanned_intent now i price ref st why =
     \<lparr>sh_recorded_at = now, sh_decision_id = in_decision_id i, sh_asset = upper (in_asset i),
      sh_side = in_side i, sh_execution_price_usd = price, sh_reference_price_usd = ref, sh_status = st,
      sh_trading_mode = ''shadow'', sh_client_order_id = None, sh_correlation_id = None,
      sh_quantity = None, sh_notional_usd = None, sh_reason = Some why\<rparr>"

definition planned_intent :: "datetime \<Rightarrow> execution_plan \<Rightarrow> shadow_intent" where
  "planned_intent now p =
     \<lparr>sh_recorded_at = now, sh_decision_id = xp_decision_id p, sh_asset = xp_asset p, sh_side = xp_side p,
      sh_execution_price_usd = xp_execution_price_usd p, sh_reference_price_usd = xp_reference_price_usd p,
      sh_status = SHADOW_RECORDED, sh_trading_mode = ''shadow'',
      sh_client_order_id = Some (xp_client_order_id p), sh_correlation_id = Some (xp_correlation_id p),
      sh_quantity = Some (xp_quantity p), sh_notional_usd = Some (xp_notional_usd p), sh_reason = None\<rparr>"

definition record_shadow ::
    "(string \<Rightarrow> string) \<Rightarrow> (string \<Rightarrow> string) \<Rightarrow> execution_planner \<Rightarrow> datetime \<Rightarrow> paper_order_intent \<Rightarrow> real \<Rightarrow> real
       \<Rightarrow> shadow_ledger \<Rightarrow> shadow_ledger \<times> (shadow_error + shadow_intent)" where
  "record_shadow h10 h16 P now i price ref l =
     (case has_decision (in_decision_id i) l of
        (l1, Inl e) \<Rightarrow> (l1, Inl e)
      | (l1, Inr True) \<Rightarrow>
          (let s = unplanned_intent now i price ref SHADOW_DUPLICATE (AlreadyShadowed (in_decision_id i))
           in (l1, if shadow_valid s then Inr s else Inl ShadowIntentInvalid))
      | (l1, Inr False) \<Rightarrow>
          (case plan h10 h16 P i price ref None of
             Inl e \<Rightarrow> append_valid (unplanned_intent now i price ref SHADOW_PLAN_REJECTED (ShadowPlanRefused e)) l1
           | Inr p \<Rightarrow> append_valid (planned_intent now p) l1))"

section \<open>At most one record per decision\<close>

definition line_ids :: "shadow_line list option \<Rightarrow> string set" where
  "line_ids f = (case f of None \<Rightarrow> {} | Some xs \<Rightarrow> {d. \<exists>s. ShadowLine s \<in> set xs \<and> sh_decision_id s = d})"

definition untorn :: "shadow_line list option \<Rightarrow> bool" where
  "untorn f = (case f of None \<Rightarrow> True | Some xs \<Rightarrow> ShadowTorn \<notin> set xs)"

definition shadow_wf :: "shadow_ledger \<Rightarrow> bool" where
  "shadow_wf l \<longleftrightarrow> untorn (sl_file l)
     \<and> (if sl_resumed l then set (sl_decision_ids l) = line_ids (sl_file l) else sl_decision_ids l = [])"

lemma load_lines_untorn:
  assumes "ShadowTorn \<notin> set xs"
  shows "\<exists>l'. load_lines xs l = (l', None) \<and> sl_file l' = sl_file l \<and> sl_resumed l' = sl_resumed l
    \<and> set (sl_decision_ids l') = set (sl_decision_ids l) \<union> line_ids (Some xs)"
  using assms
proof (induction xs l rule: load_lines.induct)
  case (4 s xs l)
  then obtain l' where "load_lines xs (load_intent s l) = (l', None)" "sl_file l' = sl_file l"
    "sl_resumed l' = sl_resumed l" "set (sl_decision_ids l') = insert (sh_decision_id s) (set (sl_decision_ids l)) \<union> line_ids (Some xs)"
    by (auto simp: load_intent_def)
  then show ?case by (intro exI [of _ l']) (auto simp: line_ids_def)
qed (auto simp: line_ids_def)

lemma resume_wf:
  assumes "shadow_wf l"
  shows "\<exists>l'. shadow_resume l = (l', None) \<and> sl_file l' = sl_file l \<and> sl_resumed l' \<and> shadow_wf l'
    \<and> set (sl_decision_ids l') = line_ids (sl_file l)"
proof (cases "sl_resumed l")
  case False
  show ?thesis
  proof (cases "sl_file l")
    case (Some xs)
    with assms have "ShadowTorn \<notin> set xs" by (simp add: shadow_wf_def untorn_def)
    from load_lines_untorn [OF this, of "l\<lparr>sl_resumed := True\<rparr>"] Some False assms show ?thesis
      by (auto simp: shadow_resume_def shadow_wf_def)
  qed (use False assms in \<open>auto simp: shadow_resume_def shadow_wf_def line_ids_def untorn_def\<close>)
qed (use assms in \<open>auto simp: shadow_resume_def shadow_wf_def\<close>)

text \<open>What a call of \<open>record\<close> does to a well-formed ledger.\<close>

lemma record_cases:
  assumes "record_shadow h10 h16 P now i price ref l = (l', r)" "shadow_wf l"
  obtains (kept) "shadow_wf l'" "sl_file l' = sl_file l"
      "in_decision_id i \<in> line_ids (sl_file l) \<Longrightarrow> (case r of Inl e \<Rightarrow> True | Inr s \<Rightarrow> sh_status s = SHADOW_DUPLICATE)"
      "in_decision_id i \<notin> line_ids (sl_file l) \<Longrightarrow> r = Inl ShadowIntentInvalid"
    | (appended) s where "in_decision_id i \<notin> line_ids (sl_file l)" "r = Inr s" "sh_decision_id s = in_decision_id i"
        "sh_status s \<noteq> SHADOW_DUPLICATE" "shadow_wf l'" "line_ids (sl_file l') = insert (in_decision_id i) (line_ids (sl_file l))"
proof -
  obtain l1 where l1: "shadow_resume l = (l1, None)" "sl_file l1 = sl_file l" "sl_resumed l1" "shadow_wf l1"
      "set (sl_decision_ids l1) = line_ids (sl_file l)"
    using resume_wf [OF assms(2)] by blast
  have again: "shadow_resume l1 = (l1, None)" using l1(3) by (simp add: shadow_resume_def)
  show thesis
  proof (cases "in_decision_id i \<in> line_ids (sl_file l)")
    case True
    with assms(1) l1 have "l' = l1" "case r of Inl e \<Rightarrow> True | Inr s \<Rightarrow> sh_status s = SHADOW_DUPLICATE"
      by (auto simp: record_shadow_def has_decision_def unplanned_intent_def Let_def split: if_splits)
    with True l1 show ?thesis by (intro kept) auto
  next
    case False
    have app: thesis if a: "append_valid s l1 = (l', r)" "sh_decision_id s = in_decision_id i" "sh_status s \<noteq> SHADOW_DUPLICATE" for s
    proof (cases "shadow_valid s")
      case True
      have f: "sl_file l' = Some ((case sl_file l of None \<Rightarrow> [] | Some xs \<Rightarrow> xs) @ [ShadowLine s])" "r = Inr s"
        "sl_resumed l'" "set (sl_decision_ids l') = insert (in_decision_id i) (line_ids (sl_file l))"
        using a True again l1 by (auto simp: append_valid_def shadow_append_def load_intent_def)
      have ids: "line_ids (sl_file l') = insert (in_decision_id i) (line_ids (sl_file l))"
        using f(1) a(2) by (auto simp: line_ids_def split: option.splits)
      have "shadow_wf l'"
        using f ids l1(2,4) by (auto simp: shadow_wf_def untorn_def split: option.splits)
      with False f ids a show ?thesis by (intro appended) auto
    next
      case invalid: False
      with a l1 False show ?thesis by (intro kept) (auto simp: append_valid_def)
    qed
    from False assms(1) l1 have via: "(case plan h10 h16 P i price ref None of
             Inl e \<Rightarrow> append_valid (unplanned_intent now i price ref SHADOW_PLAN_REJECTED (ShadowPlanRefused e)) l1
           | Inr p \<Rightarrow> append_valid (planned_intent now p) l1) = (l', r)"
      by (simp add: record_shadow_def has_decision_def)
    then show ?thesis
    proof (cases "plan h10 h16 P i price ref None")
      case (Inr p)
      then have "xp_decision_id p = in_decision_id i" by (rule plan_Inr(9))
      with Inr via show ?thesis by (intro app) (auto simp: planned_intent_def)
    qed (use via in \<open>intro app, auto simp: unplanned_intent_def\<close>)
  qed
qed

type_synonym shadow_call = "datetime \<times> paper_order_intent \<times> real \<times> real"

definition shadow_key :: "shadow_call \<Rightarrow> string" where
  "shadow_key = (\<lambda>(now, i, price, ref). in_decision_id i)"

text \<open>A step reports whether a line was appended.\<close>

definition shadow_step ::
    "(string \<Rightarrow> string) \<Rightarrow> (string \<Rightarrow> string) \<Rightarrow> execution_planner \<Rightarrow> shadow_call \<Rightarrow> shadow_ledger \<Rightarrow> shadow_ledger \<times> bool" where
  "shadow_step h10 h16 P = (\<lambda>(now, i, price, ref) l.
     case record_shadow h10 h16 P now i price ref l of
       (l', Inl e) \<Rightarrow> (l', False)
     | (l', Inr s) \<Rightarrow> (l', sh_status s \<noteq> SHADOW_DUPLICATE))"

text \<open>Reading the file is the only thing a refused call may do, so the state is taken as resumed.\<close>

definition shadow_ready :: "shadow_ledger \<Rightarrow> bool" where
  "shadow_ready l \<longleftrightarrow> shadow_wf l \<and> sl_resumed l"

lemma record_ready: "record_shadow h10 h16 P now i price ref l = (l', r) \<Longrightarrow> sl_resumed l \<Longrightarrow> sl_resumed l'"
  by (auto simp: record_shadow_def has_decision_def shadow_resume_def append_valid_def shadow_append_def
      load_intent_def Let_def split: if_splits sum.splits bool.splits)

interpretation sh: at_most_once shadow_ready "\<lambda>l d. d \<in> line_ids (sl_file l)" shadow_key "shadow_step h10 h16 P"
  for h10 h16 P
proof
  show "shadow_step h10 h16 P c l = (l, False)" if "shadow_ready l" "shadow_key c \<in> line_ids (sl_file l)" for c l
    using that by (cases c) (auto simp: shadow_step_def shadow_key_def shadow_ready_def shadow_wf_def record_shadow_def
        has_decision_def shadow_resume_def unplanned_intent_def Let_def split: sum.splits)
  have step: "shadow_ready l' \<and> line_ids (sl_file l) \<subseteq> line_ids (sl_file l')
      \<and> (b \<longrightarrow> shadow_key c \<in> line_ids (sl_file l'))"
    if wf: "shadow_ready l" and run: "shadow_step h10 h16 P c l = (l', b)" for c l l' b
  proof -
    obtain now i price ref where c: "c = (now, i, price, ref)" by (cases c) auto
    obtain r where r: "record_shadow h10 h16 P now i price ref l = (l', r)" "b \<longleftrightarrow> (\<exists>s. r = Inr s \<and> sh_status s \<noteq> SHADOW_DUPLICATE)"
      using run by (auto simp: shadow_step_def c split: prod.splits sum.splits)
    have ready: "sl_resumed l'" using record_ready [OF r(1)] wf by (simp add: shadow_ready_def)
    have "shadow_wf l" using wf by (simp add: shadow_ready_def)
    with r(1) show ?thesis
      by (cases rule: record_cases) (use r(2) ready c in \<open>auto simp: shadow_ready_def shadow_key_def split: sum.splits\<close>)
  qed
  show "shadow_ready l \<Longrightarrow> shadow_step h10 h16 P c l = (l', True) \<Longrightarrow> shadow_key c \<in> line_ids (sl_file l')" for c l l'
    using step by blast
  show "shadow_ready l \<Longrightarrow> shadow_step h10 h16 P c l = (l', b) \<Longrightarrow> d \<in> line_ids (sl_file l) \<Longrightarrow> d \<in> line_ids (sl_file l')"
    for c l l' b d using step by blast
  show "shadow_ready l \<Longrightarrow> shadow_step h10 h16 P c l = (l', b) \<Longrightarrow> shadow_ready l'" for c l l' b
    using step by blast
qed

section \<open>Properties\<close>

text \<open>
  A decision is shadowed at most once, across restarts: starting from an untorn file, the
  calls that append carry pairwise distinct decision ids, none of which the file already held, and
  a recorder that starts afresh on the resulting file refuses all of them.
\<close>

theorem shadow_once:
  assumes "untorn f" "shadow_resume (new_shadow_ledger f) = (l, None)"
  shows "distinct (map shadow_key (snd (run_all (shadow_step h10 h16 P) cs l)))
    \<and> (\<forall>c \<in> set (snd (run_all (shadow_step h10 h16 P) cs l)). shadow_key c \<notin> line_ids f
         \<and> shadow_key c \<in> line_ids (sl_file (fst (run_all (shadow_step h10 h16 P) cs l))))
    \<and> untorn (sl_file (fst (run_all (shadow_step h10 h16 P) cs l)))"
proof -
  have new: "shadow_wf (new_shadow_ledger f)" using assms(1) by (simp add: new_shadow_ledger_def shadow_wf_def)
  from resume_wf [OF new] assms(2) have l: "shadow_ready l" "sl_file l = f"
    by (auto simp: shadow_ready_def new_shadow_ledger_def)
  have keep: "shadow_ready (fst (run_all (shadow_step h10 h16 P) cs l))" using sh.run_keeps [OF l(1)] by blast
  then have "untorn (sl_file (fst (run_all (shadow_step h10 h16 P) cs l)))"
    by (simp add: shadow_ready_def shadow_wf_def)
  with sh.run_distinct [OF l(1)] sh.run_fresh [OF l(1)] sh.run_keeps [OF l(1)] l(2) show ?thesis by blast
qed

theorem shadow_once_witness:
  "\<exists>l. shadow_resume (new_shadow_ledger None) = (l, None)
     \<and> distinct (map shadow_key (snd (run_all (shadow_step (\<lambda>d. d) (\<lambda>d. d) ex_planner)
         [(0, ex_intent BUY, 100, 100), (1, ex_intent BUY, 101, 100)] l)))"
proof -
  have "untorn None" by (simp add: untorn_def)
  moreover have "shadow_resume (new_shadow_ledger None) = ((new_shadow_ledger None)\<lparr>sl_resumed := True\<rparr>, None)"
    by (simp add: shadow_resume_def new_shadow_ledger_def)
  ultimately show ?thesis using shadow_once by blast
qed

end
