(* ===== verification/Runtime.thy ===== *)
theory Runtime
  imports Pipeline Meta_Review Paper_Fill Shadow
begin

text \<open>
  One runtime cycle (\<open>runtime.py\<close>): fetch the tick, the references, the candle history, the
  intelligence and the edge snapshots, run the pipeline and the meta review, then record a shadow
  intent or submit a paper order. What the providers answer in this cycle is the record
  \<open>cycle_inputs\<close>; the state the cycle may change is the runtime and the submitter's world. The
  order-book snapshot (informational), the candle sink and the metrics are left out.
\<close>

section \<open>Inputs of a cycle\<close>

datatype tick_stream = StreamRaised string | StreamEnded | StreamTick market_tick

record liquidation_snapshot =
  lq_notional_long_z :: "real option"
  lq_notional_short_z :: "real option"
  lq_count_long :: "real option"
  lq_count_short :: "real option"
  lq_source_id :: string

record second_venue_mid =
  sm_mid :: real
  sm_source :: market_source

text \<open>\<open>None\<close> at the outside: the provider is not configured.\<close>

record cycle_inputs =
  ci_tick :: tick_stream
  ci_references :: "(string + reference_price list) list"
  ci_candles :: "(string + candle list) option"
  ci_intelligence :: "orchestrator option"
  ci_gathered_at :: datetime
  ci_liquidations :: "(string + liquidation_snapshot option) option"
  ci_book_ticker :: "(string + second_venue_mid option) option"
  ci_env :: cycle_env
  ci_now :: datetime
  ci_review_clock :: review_clock
  ci_sub_env :: sub_env
  ci_shadow_at :: datetime
  ci_bare_http :: http_result

text \<open>The digests the code takes of texts, evidence and limits.\<close>

record digests =
  dg_h10 :: "string \<Rightarrow> string"
  dg_h16 :: "string \<Rightarrow> string"
  dg_evidence :: "evidence_packet \<Rightarrow> string"

section \<open>State and result\<close>

record runtime =
  rt_pipeline :: pipeline
  rt_intel_cache :: intelligence_cache
  rt_meta_reviewer :: "meta_reviewer option"
  rt_submitter :: "submitter option"
  rt_executor :: "paper_executor option"
  rt_trading_mode :: string
  rt_shadow :: "(execution_planner \<times> shadow_ledger) option"

datatype exec_status =
    ES_submission submission_status
  | ES_shadow shadow_status
  | ES_paper_fill paper_fill_status
  | ES_diagnostic_withheld

datatype runtime_error =
    TickFailed string
  | TickStreamEnded
  | TickSymbolMismatch string
  | PipelineRaised py_error
  | ReviewCancelled
  | NoShadowRecorder
  | ShadowRaised shadow_error
  | VenueOnlyInPaperMode
  | NoExecutor
  | SubmitRaised ledger_error
  | ExecutorRaised call_result

record runtime_result =
  rn_tick :: market_tick
  rn_references :: "reference_price list"
  rn_pipeline :: pipeline_result
  rn_candles_loaded :: nat
  rn_candle_error :: "string option"
  rn_intelligence_sources :: "string list"
  rn_intelligence_observations :: "observation list"
  rn_intelligence_error :: "string option"
  rn_meta_review :: "meta_review option"
  rn_execution_receipt :: "order_receipt option"
  rn_execution_status :: "exec_status option"
  rn_execution_reason :: "string option"
  rn_edge_error :: "string option"
  rn_trading_mode :: string
  rn_shadow_intent :: "shadow_intent option"
  rn_candle_last_opened_at :: "datetime option"

section \<open>Gathering\<close>

definition next_tick :: "string \<Rightarrow> tick_stream \<Rightarrow> runtime_error + market_tick" where
  "next_tick symbol s =
     (case s of
        StreamRaised e \<Rightarrow> Inl (TickFailed e)
      | StreamEnded \<Rightarrow> Inl TickStreamEnded
      | StreamTick t \<Rightarrow> if tk_symbol t \<noteq> symbol then Inl (TickSymbolMismatch (tk_symbol t)) else Inr t)"

definition reference_prices :: "(string + reference_price list) list \<Rightarrow> reference_price list" where
  "reference_prices batches = concat (map (\<lambda>b. case b of Inl e \<Rightarrow> [] | Inr ps \<Rightarrow> ps) batches)"

text \<open>The history with the error text; a failed fetch is no history.\<close>

definition fetched_history :: "(string + candle list) option \<Rightarrow> candle list option \<times> string option" where
  "fetched_history c =
     (case c of None \<Rightarrow> (None, None) | Some (Inl e) \<Rightarrow> (None, Some e) | Some (Inr cs) \<Rightarrow> (Some cs, None))"

text \<open>\<open>ExternalIntelligence(asset=asset, provider_unavailable=True)\<close>\<close>

definition unavailable_intelligence :: "string \<Rightarrow> external_intelligence" where
  "unavailable_intelligence asset =
     \<lparr>xi_asset = asset, xi_onchain = None, xi_social = None, xi_news = None, xi_altfins = None,
      xi_provider_unavailable = True, xi_onchain_regime = None, xi_observations = []\<rparr>"

definition gather_intelligence ::
    "orchestrator option \<Rightarrow> datetime \<Rightarrow> string \<Rightarrow> intelligence_cache
       \<Rightarrow> external_intelligence option \<times> string option \<times> intelligence_cache" where
  "gather_intelligence orchestrator now asset c =
     (case orchestrator of
        None \<Rightarrow> (None, None, c)
      | Some R \<Rightarrow>
          (case gather R now asset c of
             (Inl e, c') \<Rightarrow>
               (if io_fail_closed_news R \<noteq> [] then Some (unavailable_intelligence asset) else None,
                Some ''intelligence raised'', c')
           | (Inr x, c') \<Rightarrow>
               (Some x, if xi_provider_unavailable x then Some ''intelligence_provider_unavailable'' else None, c')))"

definition cross_venue_divergence_bps :: "real \<Rightarrow> real \<Rightarrow> real" where
  "cross_venue_divergence_bps primary secondary =
     (if primary \<le> 0 then 0 else \<bar>secondary - primary\<bar> / primary * 10000)"

definition no_edge :: research_edge_features where
  "no_edge = \<lparr>ef_liq_notional_long_z = None, ef_liq_notional_short_z = None, ef_liq_count_long = None,
     ef_liq_count_short = None, ef_cross_venue_mid_divergence_bps = None, ef_cross_venue_mid_source = None\<rparr>"

definition with_liquidations ::
    "liquidation_snapshot option \<Rightarrow> research_edge_features \<times> string list \<Rightarrow> research_edge_features \<times> string list" where
  "with_liquidations s e =
     (case s of
        None \<Rightarrow> e
      | Some q \<Rightarrow>
          ((fst e)\<lparr>ef_liq_notional_long_z := lq_notional_long_z q, ef_liq_notional_short_z := lq_notional_short_z q,
                   ef_liq_count_long := lq_count_long q, ef_liq_count_short := lq_count_short q\<rparr>,
           snd e @ [lq_source_id q]))"

definition with_book_ticker ::
    "market_tick \<Rightarrow> second_venue_mid option \<Rightarrow> research_edge_features \<times> string list \<Rightarrow> research_edge_features \<times> string list" where
  "with_book_ticker t s e =
     (case s of
        None \<Rightarrow> e
      | Some m \<Rightarrow>
          ((fst e)\<lparr>ef_cross_venue_mid_divergence_bps := Some (cross_venue_divergence_bps (tick_mid t) (sm_mid m)),
                   ef_cross_venue_mid_source := Some (source_str (sm_source m))\<rparr>,
           snd e @ [''book_ticker:'' @ source_str (sm_source m)]))"

text \<open>\<open>_edge_features\<close> with the caller's handler: the features, or the error of a failed read.\<close>

definition edge_features ::
    "market_tick \<Rightarrow> (string + liquidation_snapshot option) option \<Rightarrow> (string + second_venue_mid option) option
       \<Rightarrow> (research_edge_features \<times> string list) option \<times> string option" where
  "edge_features t liquidations ticker =
     (case liquidations of
        Some (Inl e) \<Rightarrow> (None, Some e)
      | _ \<Rightarrow>
          (case ticker of
             Some (Inl e) \<Rightarrow> (None, Some e)
           | _ \<Rightarrow>
               (let read = (\<lambda>x. case x of Some (Inr s) \<Rightarrow> s | _ \<Rightarrow> None);
                    e = with_book_ticker t (case ticker of Some (Inr s) \<Rightarrow> s | _ \<Rightarrow> None)
                          (with_liquidations (read liquidations) (no_edge, []))
                in (if snd e = [] then None else Some e, None))))"

section \<open>Execution\<close>

definition reduce_only_quantity :: "portfolio_snapshot \<Rightarrow> paper_order_intent \<Rightarrow> real option" where
  "reduce_only_quantity pf i =
     (if \<not> in_reduce_only i then None
      else Some (case dict_get (ps_held_positions pf) (upper (in_asset i)) of None \<Rightarrow> 0 | Some h \<Rightarrow> hp_quantity h))"

text \<open>The price actually payable: the spread is crossed.\<close>

definition crossing_price :: "market_tick \<Rightarrow> paper_order_intent \<Rightarrow> real" where
  "crossing_price t i = (if in_side i = BUY then tk_ask t else tk_bid t)"

record execution_part =
  xe_receipt :: "order_receipt option"
  xe_status :: "exec_status option"
  xe_reason :: "string option"
  xe_shadow :: "shadow_intent option"

definition no_execution :: execution_part where
  "no_execution = \<lparr>xe_receipt = None, xe_status = None, xe_reason = None, xe_shadow = None\<rparr>"

definition execute_shadow ::
    "digests \<Rightarrow> (shadow_reason \<Rightarrow> string) \<Rightarrow> datetime \<Rightarrow> market_tick \<Rightarrow> paper_order_intent \<Rightarrow> runtime
       \<Rightarrow> runtime \<times> (runtime_error + execution_part)" where
  "execute_shadow dg render now t i R =
     (case rt_shadow R of
        None \<Rightarrow> (R, Inl NoShadowRecorder)
      | Some (planner, l) \<Rightarrow>
          (case record_shadow (dg_h10 dg) (dg_h16 dg) planner now i (crossing_price t i) (tk_last t) l of
             (l', Inl e) \<Rightarrow> (R\<lparr>rt_shadow := Some (planner, l')\<rparr>, Inl (ShadowRaised e))
           | (l', Inr s) \<Rightarrow>
               (R\<lparr>rt_shadow := Some (planner, l')\<rparr>,
                Inr \<lparr>xe_receipt = None, xe_status = Some (ES_shadow (sh_status s)),
                     xe_reason = map_option render (sh_reason s), xe_shadow = Some s\<rparr>)))"

text \<open>The bare executor path sends no client order id.\<close>

definition execute_bare ::
    "paper_executor \<Rightarrow> http_result \<Rightarrow> market_tick \<Rightarrow> paper_order_intent \<Rightarrow> sub_world
       \<Rightarrow> sub_world \<times> (runtime_error + execution_part)" where
  "execute_bare E answer t i w =
     (let r = executor_submit E i (tk_last t) ''paper'' None None answer;
          w' = (case r of CallSafety MalformedResponse \<Rightarrow> emit (VenueCall '''' (in_notional_usd i / tk_last t) r) w
                | CallSafety e \<Rightarrow> w
                | _ \<Rightarrow> emit (VenueCall '''' (in_notional_usd i / tk_last t) r) w)
      in case r of
           CallReceipt rc \<Rightarrow> (w', Inr \<lparr>xe_receipt = Some rc, xe_status = None, xe_reason = None, xe_shadow = None\<rparr>)
         | _ \<Rightarrow> (w', Inl (ExecutorRaised r)))"

definition execute_paper ::
    "digests \<Rightarrow> sub_env \<Rightarrow> http_result \<Rightarrow> portfolio_snapshot \<Rightarrow> market_tick \<Rightarrow> paper_order_intent \<Rightarrow> runtime \<Rightarrow> sub_world
       \<Rightarrow> sub_world \<times> (runtime_error + execution_part)" where
  "execute_paper dg V answer pf t i R w =
     (if rt_trading_mode R \<noteq> ''paper'' then (w, Inl VenueOnlyInPaperMode)
      else case rt_submitter R of
             Some S \<Rightarrow>
               (case submit (dg_h10 dg) (dg_h16 dg) S V i (crossing_price t i) (tk_last t)
                       (reduce_only_quantity pf i) w of
                  Inl e \<Rightarrow> (w, Inl (SubmitRaised e))
                | Inr (w', out) \<Rightarrow>
                    (w', Inr \<lparr>xe_receipt = so_receipt out, xe_status = Some (ES_submission (so_status out)),
                              xe_reason = map_option (env_render V) (so_reason out), xe_shadow = None\<rparr>))
           | None \<Rightarrow>
               (case rt_executor R of
                  None \<Rightarrow> (w, Inl NoExecutor)
                | Some E \<Rightarrow> execute_bare E answer t i w))"

definition execute_order ::
    "digests \<Rightarrow> (shadow_reason \<Rightarrow> string) \<Rightarrow> cycle_inputs \<Rightarrow> portfolio_snapshot \<Rightarrow> bool \<Rightarrow> market_tick
       \<Rightarrow> paper_order_intent option \<Rightarrow> runtime \<times> sub_world \<Rightarrow> (runtime \<times> sub_world) \<times> (runtime_error + execution_part)" where
  "execute_order dg render ins pf submitting t order s =
     (case s of (R, w) \<Rightarrow>
       (case order of
          None \<Rightarrow> ((R, w), Inr no_execution)
        | Some i \<Rightarrow>
            if rt_trading_mode R = ''shadow''
            then (case execute_shadow dg render (ci_shadow_at ins) t i R of (R', x) \<Rightarrow> ((R', w), x))
            else if submitting
            then (case execute_paper dg (ci_sub_env ins) (ci_bare_http ins) pf t i R w of (w', x) \<Rightarrow> ((R, w'), x))
            else ((R, w), Inr no_execution)))"

section \<open>The cycle\<close>

text \<open>
  The pipeline with the breaker it may change stored back. The walk-forward loop inside always
  returns (\<open>process_returns\<close>), so the case \<open>None\<close> does not arise.
\<close>

definition run_pipeline ::
    "cycle_inputs \<Rightarrow> market_tick \<Rightarrow> portfolio_snapshot \<Rightarrow> candle list \<Rightarrow> external_intelligence option
       \<Rightarrow> (research_edge_features \<times> string list) option \<Rightarrow> runtime
       \<Rightarrow> runtime \<times> (runtime_error + pipeline_result)" where
  "run_pipeline ins t pf cs intel edge R =
     (case process (ci_env ins) (rt_pipeline R) t (reference_prices (ci_references ins)) pf cs intel edge (ci_now ins) of
        None \<Rightarrow> (R, Inl (PipelineRaised ValueError))
      | Some (Inl e) \<Rightarrow> (R, Inl (PipelineRaised e))
      | Some (Inr (r, cb)) \<Rightarrow>
          (R\<lparr>rt_pipeline := (rt_pipeline R)\<lparr>pp_risk_engine :=
               (pp_risk_engine (rt_pipeline R))\<lparr>re_circuit_breaker := cb\<rparr>\<rparr>\<rparr>, Inr r))"

definition run_meta_review ::
    "digests \<Rightarrow> review_clock \<Rightarrow> string \<Rightarrow> pipeline_result \<Rightarrow> runtime
       \<Rightarrow> runtime \<times> (runtime_error + pipeline_result \<times> meta_review option)" where
  "run_meta_review dg k symbol r R =
     (case rt_meta_reviewer R of
        None \<Rightarrow> (R, Inr (r, None))
      | Some S \<Rightarrow>
          (case run_review (dg_evidence dg) S k symbol r of
             (None, S') \<Rightarrow> (R\<lparr>rt_meta_reviewer := Some S'\<rparr>, Inl ReviewCancelled)
           | (Some (r', v), S') \<Rightarrow> (R\<lparr>rt_meta_reviewer := Some S'\<rparr>, Inr (r', Some v))))"

definition assemble ::
    "cycle_inputs \<Rightarrow> market_tick \<Rightarrow> candle list option \<times> string option \<Rightarrow> external_intelligence option \<Rightarrow> string option
       \<Rightarrow> string option \<Rightarrow> pipeline_result \<Rightarrow> meta_review option \<Rightarrow> string \<Rightarrow> execution_part \<Rightarrow> runtime_result" where
  "assemble ins t history intel intel_error edge_error r v mode x =
     \<lparr>rn_tick = t, rn_references = reference_prices (ci_references ins), rn_pipeline = r,
      rn_candles_loaded = (case fst history of None \<Rightarrow> 0 | Some cs \<Rightarrow> length cs), rn_candle_error = snd history,
      rn_intelligence_sources = (case intel of None \<Rightarrow> [] | Some i \<Rightarrow> xi_source_ids i),
      rn_intelligence_observations = (case intel of None \<Rightarrow> [] | Some i \<Rightarrow> xi_observations i),
      rn_intelligence_error = intel_error, rn_meta_review = v, rn_execution_receipt = xe_receipt x,
      rn_execution_status = xe_status x, rn_execution_reason = xe_reason x, rn_edge_error = edge_error,
      rn_trading_mode = mode, rn_shadow_intent = xe_shadow x,
      rn_candle_last_opened_at =
        (case fst history of None \<Rightarrow> None | Some cs \<Rightarrow> if cs = [] then None else Some (c_opened_at (last cs)))\<rparr>"

definition run_once ::
    "digests \<Rightarrow> (shadow_reason \<Rightarrow> string) \<Rightarrow> cycle_inputs \<Rightarrow> string \<Rightarrow> portfolio_snapshot \<Rightarrow> bool
       \<Rightarrow> runtime \<times> sub_world \<Rightarrow> (runtime \<times> sub_world) \<times> (runtime_error + runtime_result)" where
  "run_once dg render ins symbol pf submitting s =
     (case s of (R, w) \<Rightarrow>
       (case next_tick symbol (ci_tick ins) of
          Inl e \<Rightarrow> ((R, w), Inl e)
        | Inr t \<Rightarrow>
            (let asset = upper (before (CHR ''/'') symbol);
                 history = fetched_history (ci_candles ins);
                 (intel, intel_error, cache) = gather_intelligence (ci_intelligence ins) (ci_gathered_at ins) asset (rt_intel_cache R);
                 (edge, edge_error) = edge_features t (ci_liquidations ins) (ci_book_ticker ins);
                 R1 = R\<lparr>rt_intel_cache := cache\<rparr>
             in case run_pipeline ins t pf (opt_or (fst history) []) intel edge R1 of
                  (R2, Inl e) \<Rightarrow> ((R2, w), Inl e)
                | (R2, Inr r) \<Rightarrow>
                    (case run_meta_review dg (ci_review_clock ins) (tk_symbol t) r R2 of
                       (R3, Inl e) \<Rightarrow> ((R3, w), Inl e)
                     | (R3, Inr (r', v)) \<Rightarrow>
                         (case execute_order dg render ins pf submitting t (pr_paper_order r') (R3, w) of
                            (s', Inl e) \<Rightarrow> (s', Inl e)
                          | (s', Inr x) \<Rightarrow>
                              (s', Inr (assemble ins t history intel intel_error edge_error r' v (rt_trading_mode R) x)))))))"

section \<open>What a cycle may do\<close>

lemma run_pipeline_Inr:
  assumes "run_pipeline ins t pf cs intel edge R = (R', Inr r)"
  obtains cb where "process (ci_env ins) (rt_pipeline R) t (reference_prices (ci_references ins)) pf cs intel edge (ci_now ins)
      = Some (Inr (r, cb))"
  using assms by (auto simp: run_pipeline_def split: option.splits sum.splits)

lemma run_pipeline_frame:
  assumes "run_pipeline ins t pf cs intel edge R = (R', x)"
  shows "rt_submitter R' = rt_submitter R" "rt_executor R' = rt_executor R" "rt_trading_mode R' = rt_trading_mode R"
    "rt_shadow R' = rt_shadow R" "re_settings (pp_risk_engine (rt_pipeline R')) = re_settings (pp_risk_engine (rt_pipeline R))"
    "re_kill_switch (pp_risk_engine (rt_pipeline R')) = re_kill_switch (pp_risk_engine (rt_pipeline R))"
  using assms by (auto simp: run_pipeline_def split: option.splits sum.splits)

lemma run_meta_review_frame:
  assumes "run_meta_review dg k symbol r R = (R', x)"
  shows "rt_submitter R' = rt_submitter R" "rt_executor R' = rt_executor R" "rt_trading_mode R' = rt_trading_mode R"
    "rt_shadow R' = rt_shadow R" "rt_pipeline R' = rt_pipeline R"
  using assms by (auto simp: run_meta_review_def split: option.splits prod.splits)

text \<open>A review hands the pipeline's order on or drops it.\<close>

lemma run_meta_review_order:
  assumes "run_meta_review dg k symbol r R = (R', Inr (r', v))"
  shows "pr_paper_order r' = pr_paper_order r \<or> pr_paper_order r' = None"
proof (cases "rt_meta_reviewer R")
  case (Some S)
  with assms obtain v' S' where "run_review (dg_evidence dg) S k symbol r = (Some (r', v'), S')"
    by (auto simp: run_meta_review_def split: option.splits prod.splits)
  then obtain w where "apply_review S' r w = (r', v')"
    by (auto simp: run_review_def split: option.splits prod.splits)
  then show ?thesis using apply_review_order [of S' r w] by (metis fst_conv)
qed (use assms in \<open>simp add: run_meta_review_def\<close>)

lemma execute_order_quiet:
  assumes "execute_order dg render ins pf submitting t order (R, w) = ((R', w'), x)"
    and "order = None \<or> rt_trading_mode R \<noteq> ''shadow'' \<and> \<not> submitting"
  shows "R' = R" "w' = w"
  using assms by (auto simp: execute_order_def split: option.splits)

lemma execute_order_frame:
  assumes "execute_order dg render ins pf submitting t order (R, w) = ((R', w'), x)"
  shows "rt_pipeline R' = rt_pipeline R" "rt_trading_mode R' = rt_trading_mode R"
    "w' \<noteq> w \<Longrightarrow> order \<noteq> None \<and> submitting \<and> rt_trading_mode R = ''paper''"
  using assms by (auto simp: execute_order_def execute_shadow_def execute_paper_def split: option.splits sum.splits prod.splits if_splits)

text \<open>The stages of a completed cycle.\<close>

lemma run_once_Inr:
  assumes "run_once dg render ins symbol pf submitting (R, w) = ((R', w'), Inr res)"
  obtains t cs intel edge R1 R2 r R3 r' v x where
    "next_tick symbol (ci_tick ins) = Inr t" "rt_pipeline R1 = rt_pipeline R" "rt_trading_mode R1 = rt_trading_mode R"
    "rt_shadow R1 = rt_shadow R" "run_pipeline ins t pf cs intel edge R1 = (R2, Inr r)"
    "run_meta_review dg (ci_review_clock ins) (tk_symbol t) r R2 = (R3, Inr (r', v))"
    "execute_order dg render ins pf submitting t (pr_paper_order r') (R3, w) = ((R', w'), Inr x)"
    "rn_pipeline res = r'" "rn_tick res = t" "rn_meta_review res = v" "rn_execution_status res = xe_status x"
    "rn_execution_receipt res = xe_receipt x" "rn_trading_mode res = rt_trading_mode R"
  using assms
  by (auto simp: run_once_def Let_def assemble_def split: sum.splits prod.splits
      intro: that [of _ "R\<lparr>rt_intel_cache := c\<rparr>" for c])

lemma run_once_world:
  assumes "run_once dg render ins symbol pf submitting (R, w) = ((R', w'), y)" "w' \<noteq> w"
  obtains t cs intel edge R1 R2 r R3 r' v i where
    "next_tick symbol (ci_tick ins) = Inr t" "rt_pipeline R1 = rt_pipeline R" "submitting" "rt_trading_mode R = ''paper''"
    "run_pipeline ins t pf cs intel edge R1 = (R2, Inr r)"
    "run_meta_review dg (ci_review_clock ins) (tk_symbol t) r R2 = (R3, Inr (r', v))" "pr_paper_order r' = Some i"
proof -
  from assms obtain t cs intel edge c R2 r R3 r' v x where s: "next_tick symbol (ci_tick ins) = Inr t"
    "run_pipeline ins t pf cs intel edge (R\<lparr>rt_intel_cache := c\<rparr>) = (R2, Inr r)"
    "run_meta_review dg (ci_review_clock ins) (tk_symbol t) r R2 = (R3, Inr (r', v))"
    "execute_order dg render ins pf submitting t (pr_paper_order r') (R3, w) = ((R', w'), x)"
    by (auto simp: run_once_def Let_def split: sum.splits prod.splits)
  from execute_order_frame(3) [OF s(4) assms(2)] obtain i where "pr_paper_order r' = Some i" "submitting"
    "rt_trading_mode R3 = ''paper''" by blast
  with s run_pipeline_frame(3) [OF s(2)] run_meta_review_frame(3) [OF s(3)] show ?thesis
    by (intro that [of t "R\<lparr>rt_intel_cache := c\<rparr>"]) auto
qed

text \<open>Without submission, and outside shadow mode, a cycle leaves the ledger and the venue alone.\<close>

lemma run_once_quiet:
  assumes "run_once dg render ins symbol pf False (R, w) = ((R', w'), y)"
  shows "w' = w"
  using run_once_world [OF assms] by blast

lemma run_once_order:
  assumes "run_once dg render ins symbol pf submitting (R, w) = ((R', w'), Inr res)"
    and "pr_paper_order (rn_pipeline res) = Some i"
  obtains t cs intel edge r cb P where "next_tick symbol (ci_tick ins) = Inr t" "rn_tick res = t" "P = rt_pipeline R"
    "process (ci_env ins) P t (reference_prices (ci_references ins)) pf cs intel edge (ci_now ins) = Some (Inr (r, cb))"
    "pr_paper_order r = Some i"
  using assms(1)
proof (rule run_once_Inr)
  fix t cs intel edge R1 R2 r R3 r' v x
  assume s: "next_tick symbol (ci_tick ins) = Inr t" "rt_pipeline R1 = rt_pipeline R"
    "run_pipeline ins t pf cs intel edge R1 = (R2, Inr r)"
    "run_meta_review dg (ci_review_clock ins) (tk_symbol t) r R2 = (R3, Inr (r', v))" "rn_pipeline res = r'" "rn_tick res = t"
  from run_pipeline_Inr [OF s(3)] obtain cb where
    "process (ci_env ins) (rt_pipeline R1) t (reference_prices (ci_references ins)) pf cs intel edge (ci_now ins) = Some (Inr (r, cb))" .
  moreover from run_meta_review_order [OF s(4)] assms(2) s(5) have "pr_paper_order r = Some i" by auto
  ultimately show ?thesis using s(1,2,6) that by metis
qed

end
