(* ===== verification/Paper_Perp.thy ===== *)
theory Paper_Perp
  imports Paper_Fill Kill_Switch
begin

text \<open>
  The paper-only perpetual hedge book (\<open>execution/paper_perp.py\<close>): a hedge opposite a spot paper
  fill, funding credited from supplied settlement prints, and the fee-aware profit of the open
  hedges. A hedge may write to the shared execution ledger; ledger and book are returned together
  with the outcome or the exception, because an exception can escape after one of them has
  changed. \<open>datetime.now(UTC)\<close> is the parameter \<open>now\<close>; reasons are values.
\<close>

section \<open>Data\<close>

datatype perp_status =
    PERP_HEDGED | PERP_FUNDING_APPLIED | PERP_SKIPPED | PERP_WITHHELD | PERP_REJECTED | PERP_DUPLICATE

record perp_position =
  pp_asset :: string
  pp_side :: side
  pp_quantity :: real
  pp_entry_price_usd :: real
  pp_funding_pnl_usd :: real
  pp_client_order_id :: string

datatype perp_reason =
    PerpHedgeWithheld
  | PerpFundingWithheld
  | PerpMidMissing
  | PerpAlreadyBooked string
  | PerpAlreadyOpen string
  | PerpNoPosition string
  | PerpNoSettlements

record perp_outcome =
  px_status :: perp_status
  px_reason :: "perp_reason option"
  px_position :: "perp_position option"
  px_fee_usd :: real
  px_funding_pnl_usd :: real

definition perp_applied :: "perp_outcome \<Rightarrow> bool" where
  "perp_applied out \<longleftrightarrow> px_status out \<in> {PERP_HEDGED, PERP_FUNDING_APPLIED}"

datatype perp_error =
    PerpOutsidePaperMode
  | PerpPrice paper_error
  | PerpValidation
  | PerpLedger ledger_error

record perp_book =
  pb_trading_mode :: string
  pb_paper_fee_bps :: real
  pb_paper_slippage_bps :: real
  pb_kill_switch :: "kill_switch option"
  pb_positions :: "perp_position dict"
  pb_seen_ids :: "string list"
  pb_funding_prints_applied :: nat
  pb_total_fees_usd :: real

text \<open>The constructor (\<open>__post_init__\<close>).\<close>

datatype perp_init_error = InitOutsidePaperMode | InitFeeNegative | InitSlippageNegative

definition new_perp_book ::
    "string \<Rightarrow> real \<Rightarrow> real \<Rightarrow> kill_switch option \<Rightarrow> perp_init_error + perp_book" where
  "new_perp_book mode fee_bps slippage_bps ks =
     (if mode \<noteq> ''paper'' then Inl InitOutsidePaperMode
      else if fee_bps < 0 then Inl InitFeeNegative
      else if slippage_bps < 0 then Inl InitSlippageNegative
      else Inr \<lparr>pb_trading_mode = mode, pb_paper_fee_bps = fee_bps, pb_paper_slippage_bps = slippage_bps,
                pb_kill_switch = ks, pb_positions = [], pb_seen_ids = [],
                pb_funding_prints_applied = 0, pb_total_fees_usd = 0\<rparr>)"

section \<open>Operations\<close>

definition carry_hedged_sign_spot_side :: "real \<Rightarrow> side option" where
  "carry_hedged_sign_spot_side rate = (if 0 < rate then Some BUY else if rate < 0 then Some SELL else None)"

definition paper_perp_id_prefix :: string where
  "paper_perp_id_prefix = ''paper-perp:''"

definition paper_perp_client_order_id :: "string \<Rightarrow> string \<Rightarrow> string" where
  "paper_perp_client_order_id decision_id asset = paper_perp_id_prefix @ decision_id @ '':'' @ upper asset"

definition paper_perp_fill_id :: "string \<Rightarrow> string" where
  "paper_perp_fill_id client_order_id = paper_perp_id_prefix @ ''fill:'' @ client_order_id"

definition hedge_side :: "side \<Rightarrow> side" where
  "hedge_side sd = (if sd = BUY then SELL else BUY)"

definition total_funding_pnl_usd :: "perp_book \<Rightarrow> real" where
  "total_funding_pnl_usd b = py_sum (map pp_funding_pnl_usd (dict_vals (pb_positions b)))"

definition perp_outcome_of :: "perp_status \<Rightarrow> perp_reason \<Rightarrow> perp_position option \<Rightarrow> perp_outcome" where
  "perp_outcome_of st r p =
     \<lparr>px_status = st, px_reason = Some r, px_position = p, px_fee_usd = 0, px_funding_pnl_usd = 0\<rparr>"

definition perp_halted :: "ks_env \<Rightarrow> perp_book \<Rightarrow> bool" where
  "perp_halted e b = (case pb_kill_switch b of None \<Rightarrow> False | Some k \<Rightarrow> engaged e k)"

definition perp_order :: "datetime \<Rightarrow> string \<Rightarrow> string \<Rightarrow> string \<Rightarrow> side \<Rightarrow> real \<Rightarrow> execution_order" where
  "perp_order now client_order_id decision_id asset sd quantity =
     \<lparr>o_order_id = client_order_id, o_decision_id = decision_id, o_asset = asset, o_side = sd,
      o_requested_quantity = quantity, o_state = PLANNED, o_filled_quantity = 0,
      o_average_fill_price_usd = None, o_last_updated_at = now,
      o_client_order_id = Some client_order_id, o_venue_order_id = None, o_correlation_id = None,
      o_submission_attempts = 0, o_reason = None, o_fees_paid_usd = 0, o_fee_source = None\<rparr>"

definition perp_fill :: "datetime \<Rightarrow> string \<Rightarrow> string \<Rightarrow> side \<Rightarrow> real \<Rightarrow> real \<Rightarrow> real \<Rightarrow> execution_fill" where
  "perp_fill now client_order_id asset sd quantity price fee =
     \<lparr>f_fill_id = paper_perp_fill_id client_order_id, f_order_id = client_order_id, f_asset = asset,
      f_side = sd, f_quantity = quantity, f_price_usd = price, f_fee_usd = fee,
      f_fee_source = FS_MODELLED, f_observed_at = now\<rparr>"

text \<open>
  The ledger part of a hedge: \<open>Inr None\<close> when the order is already filled, otherwise the ledger
  with the order and its fill. A replayed fill id is accepted silently.
\<close>

definition book_perp_order ::
    "datetime \<Rightarrow> string \<Rightarrow> string \<Rightarrow> string \<Rightarrow> side \<Rightarrow> real \<Rightarrow> real \<Rightarrow> real \<Rightarrow> execution_ledger
       \<Rightarrow> execution_ledger \<times> (perp_error + bool)" where
  "book_perp_order now client_order_id decision_id asset sd quantity price fee L =
     (let existing = find (\<lambda>x. client_id_of x = client_order_id) (orders_for_decision decision_id L)
      in if (case existing of None \<Rightarrow> False | Some x \<Rightarrow> o_state x = FILLED) then (L, Inr False)
         else
           (let x = perp_order now client_order_id decision_id asset sd quantity
            in if existing = None \<and> \<not> order_valid x then (L, Inl PerpValidation)
               else case (if existing = None then register_order x L else Inr L) of
                      Inl e \<Rightarrow> (L, Inl (PerpLedger e))
                    | Inr L1 \<Rightarrow>
                        (let f = perp_fill now client_order_id asset sd quantity price fee
                         in if \<not> fill_valid f then (L1, Inl PerpValidation)
                            else case record_fill now f L1 of
                                   Inl e \<Rightarrow> (L1, Inl (PerpLedger e))
                                 | Inr (applied, L2) \<Rightarrow> (L2, Inr True))))"

definition open_perp ::
    "perp_book \<Rightarrow> string \<Rightarrow> side \<Rightarrow> real \<Rightarrow> real \<Rightarrow> real \<Rightarrow> string \<Rightarrow> perp_book \<times> perp_outcome" where
  "open_perp b asset sd quantity price fee client_order_id =
     (let p = \<lparr>pp_asset = asset, pp_side = sd, pp_quantity = quantity, pp_entry_price_usd = price,
               pp_funding_pnl_usd = 0, pp_client_order_id = client_order_id\<rparr>
      in (b\<lparr>pb_positions := dict_set asset p (pb_positions b)\<rparr>,
          \<lparr>px_status = PERP_HEDGED, px_reason = None, px_position = Some p, px_fee_usd = fee,
           px_funding_pnl_usd = 0\<rparr>))"

type_synonym perp_world = "perp_book \<times> execution_ledger option"

text \<open>
  From the fresh client order id on. The id and the fee are recorded before the ledger is
  consulted, as the code does.
\<close>

definition place_hedge ::
    "datetime \<Rightarrow> execution_fill \<Rightarrow> real \<Rightarrow> string \<Rightarrow> perp_world \<Rightarrow> perp_world \<times> (perp_error + perp_outcome)" where
  "place_hedge now f mid decision_id w =
     (case w of (b, L0) \<Rightarrow>
        let asset = upper (f_asset f);
            cid = paper_perp_client_order_id decision_id asset;
            b1 = b\<lparr>pb_seen_ids := cid # pb_seen_ids b\<rparr>;
            sd = hedge_side (f_side f)
        in case adverse_fill_price_usd sd mid (pb_paper_slippage_bps b) of
             Inl e \<Rightarrow> ((b1, L0), Inl (PerpPrice e))
           | Inr price \<Rightarrow>
               (let fee = f_quantity f * price * pb_paper_fee_bps b / 10000;
                    b2 = b1\<lparr>pb_total_fees_usd := pb_total_fees_usd b1 + fee\<rparr>;
                    opened = open_perp b2 asset sd (f_quantity f) price fee cid
                in case L0 of
                     None \<Rightarrow> ((fst opened, None), Inr (snd opened))
                   | Some L \<Rightarrow>
                       (case book_perp_order now cid decision_id asset sd (f_quantity f) price fee L of
                          (L', Inl e) \<Rightarrow> ((b2, Some L'), Inl e)
                        | (L', Inr False) \<Rightarrow>
                            ((b2, Some L'), Inr (perp_outcome_of PERP_DUPLICATE (PerpAlreadyBooked cid)
                               (dict_get (pb_positions b2) asset)))
                        | (L', Inr True) \<Rightarrow> ((fst opened, Some L'), Inr (snd opened)))))"

definition maybe_hedge_spot_fill ::
    "ks_env \<Rightarrow> datetime \<Rightarrow> execution_fill \<Rightarrow> real option \<Rightarrow> string \<Rightarrow> perp_world
       \<Rightarrow> perp_world \<times> (perp_error + perp_outcome)" where
  "maybe_hedge_spot_fill e now f mid decision_id w =
     (let b = fst w; asset = upper (f_asset f); cid = paper_perp_client_order_id decision_id asset
      in if pb_trading_mode b \<noteq> ''paper'' then (w, Inl PerpOutsidePaperMode)
         else if perp_halted e b then (w, Inr (perp_outcome_of PERP_WITHHELD PerpHedgeWithheld None))
         else case mid of
                None \<Rightarrow> (w, Inr (perp_outcome_of PERP_SKIPPED PerpMidMissing None))
              | Some m \<Rightarrow>
                  if m \<le> 0 then (w, Inr (perp_outcome_of PERP_SKIPPED PerpMidMissing None))
                  else if cid \<in> set (pb_seen_ids b)
                  then (w, Inr (perp_outcome_of PERP_DUPLICATE (PerpAlreadyBooked cid) (dict_get (pb_positions b) asset)))
                  else (case dict_get (pb_positions b) asset of
                          Some p \<Rightarrow> (w, Inr (perp_outcome_of PERP_REJECTED (PerpAlreadyOpen asset) (Some p)))
                        | None \<Rightarrow> place_hedge now f m decision_id w))"

definition funding_sign :: "perp_position \<Rightarrow> real" where
  "funding_sign p = (if pp_side p = SELL then 1 else -1)"

definition apply_funding ::
    "ks_env \<Rightarrow> (datetime \<times> real) list \<Rightarrow> string \<Rightarrow> real option \<Rightarrow> perp_book
       \<Rightarrow> perp_book \<times> (perp_error + perp_outcome)" where
  "apply_funding e settlements asset mark_price b =
     (let key = upper asset
      in if pb_trading_mode b \<noteq> ''paper'' then (b, Inl PerpOutsidePaperMode)
         else if perp_halted e b then (b, Inr (perp_outcome_of PERP_WITHHELD PerpFundingWithheld None))
         else case dict_get (pb_positions b) key of
                None \<Rightarrow> (b, Inr (perp_outcome_of PERP_SKIPPED (PerpNoPosition key) None))
              | Some p \<Rightarrow>
                  if settlements = [] then (b, Inr (perp_outcome_of PERP_SKIPPED PerpNoSettlements (Some p)))
                  else
                    (let notional_price = (case mark_price of
                           None \<Rightarrow> pp_entry_price_usd p
                         | Some m \<Rightarrow> if 0 < m then m else pp_entry_price_usd p);
                         pnl = foldl (\<lambda>acc (ts, rate). acc + funding_sign p * rate * pp_quantity p * notional_price)
                                 0 settlements;
                         updated = p\<lparr>pp_funding_pnl_usd := pp_funding_pnl_usd p + pnl\<rparr>
                     in (b\<lparr>pb_positions := dict_set key updated (pb_positions b),
                           pb_funding_prints_applied := pb_funding_prints_applied b + length settlements\<rparr>,
                         Inr \<lparr>px_status = PERP_FUNDING_APPLIED, px_reason = None, px_position = Some updated,
                              px_fee_usd = 0, px_funding_pnl_usd = pnl\<rparr>)))"

definition has_mark :: "real dict \<Rightarrow> string \<Rightarrow> bool" where
  "has_mark marks asset = (case dict_get marks asset of None \<Rightarrow> False | Some m \<Rightarrow> 0 < m)"

definition position_mtm :: "real \<Rightarrow> perp_position \<Rightarrow> real" where
  "position_mtm mid p =
     (if pp_side p = BUY then (mid - pp_entry_price_usd p) * pp_quantity p
      else (pp_entry_price_usd p - mid) * pp_quantity p)"

definition unrealized_mtm_usd :: "real dict \<Rightarrow> perp_book \<Rightarrow> real \<times> string list \<times> string list" where
  "unrealized_mtm_usd marks b =
     foldl (\<lambda>(mtm, marked, skipped) (asset, p).
        case dict_get marks asset of
          None \<Rightarrow> (mtm, marked, skipped @ [asset])
        | Some mid \<Rightarrow>
            if mid \<le> 0 then (mtm, marked, skipped @ [asset])
            else (mtm + position_mtm mid p, marked @ [asset], skipped))
       (0, [], []) (pb_positions b)"

record fee_aware_pnl =
  fa_funding_pnl_usd :: real
  fa_unrealized_mtm_usd :: real
  fa_fees_usd :: real
  fa_fee_aware_paper_pnl_usd :: "real option"
  fa_marks_incomplete :: bool
  fa_marked_assets :: "string list"
  fa_skipped_assets :: "string list"

definition harvest_fee_aware_paper_pnl :: "real dict \<Rightarrow> perp_book \<Rightarrow> fee_aware_pnl" where
  "harvest_fee_aware_paper_pnl marks b =
     (let funding = total_funding_pnl_usd b; fees = pb_total_fees_usd b;
          (mtm, marked, skipped) = unrealized_mtm_usd marks b;
          incomplete = (0 < length skipped)
      in \<lparr>fa_funding_pnl_usd = funding, fa_unrealized_mtm_usd = mtm, fa_fees_usd = fees,
          fa_fee_aware_paper_pnl_usd = (if incomplete then None else Some (funding + mtm - fees)),
          fa_marks_incomplete = incomplete, fa_marked_assets = marked, fa_skipped_assets = skipped\<rparr>)"

section \<open>The hedge book\<close>

definition perp_wf :: "perp_book \<Rightarrow> bool" where
  "perp_wf b \<longleftrightarrow> distinct (dict_keys (pb_positions b))
     \<and> list_all (\<lambda>(k, p). pp_asset p = k \<and> pp_client_order_id p \<in> set (pb_seen_ids b)) (pb_positions b)"

definition hedge_price :: "perp_book \<Rightarrow> side \<Rightarrow> real \<Rightarrow> real" where
  "hedge_price b sd mid =
     (if sd = BUY then mid * (1 + pb_paper_slippage_bps b / 10000) else mid * (1 - pb_paper_slippage_bps b / 10000))"

definition hedge_fee :: "perp_book \<Rightarrow> side \<Rightarrow> real \<Rightarrow> real \<Rightarrow> real" where
  "hedge_fee b sd mid quantity = quantity * hedge_price b sd mid * pb_paper_fee_bps b / 10000"

definition hedge_position :: "perp_book \<Rightarrow> execution_fill \<Rightarrow> real \<Rightarrow> string \<Rightarrow> perp_position" where
  "hedge_position b f mid decision_id =
     (let asset = upper (f_asset f); sd = hedge_side (f_side f)
      in \<lparr>pp_asset = asset, pp_side = sd, pp_quantity = f_quantity f, pp_entry_price_usd = hedge_price b sd mid,
          pp_funding_pnl_usd = 0, pp_client_order_id = paper_perp_client_order_id decision_id asset\<rparr>)"

text \<open>The book after an order id and its fee are recorded, and after the position is opened.\<close>

definition charged :: "perp_book \<Rightarrow> execution_fill \<Rightarrow> real \<Rightarrow> string \<Rightarrow> perp_book" where
  "charged b f mid decision_id =
     b\<lparr>pb_seen_ids := paper_perp_client_order_id decision_id (upper (f_asset f)) # pb_seen_ids b,
       pb_total_fees_usd := pb_total_fees_usd b + hedge_fee b (hedge_side (f_side f)) mid (f_quantity f)\<rparr>"

definition hedged :: "perp_book \<Rightarrow> execution_fill \<Rightarrow> real \<Rightarrow> string \<Rightarrow> perp_book" where
  "hedged b f mid decision_id =
     (charged b f mid decision_id)\<lparr>pb_positions :=
        dict_set (upper (f_asset f)) (hedge_position b f mid decision_id) (pb_positions b)\<rparr>"

lemma adverse_hedge_price:
  "0 < mid \<Longrightarrow> \<not> pb_paper_slippage_bps b < 0 \<Longrightarrow>
     adverse_fill_price_usd sd mid (pb_paper_slippage_bps b) = Inr (hedge_price b sd mid)"
  by (simp add: adverse_fill_price_usd_def hedge_price_def Let_def)

text \<open>A hedge that runs past the checks: opened, or charged without a position.\<close>

lemma place_hedge_cases:
  assumes "place_hedge now f mid d (b, L0) = ((b', L'), r)" "0 < mid" "\<not> pb_paper_slippage_bps b < 0"
  obtains (opened) out where "r = Inr out" "px_status out = PERP_HEDGED" "b' = hedged b f mid d"
      "px_position out = Some (hedge_position b f mid d)"
      "px_fee_usd out = hedge_fee b (hedge_side (f_side f)) mid (f_quantity f)" "px_funding_pnl_usd out = 0"
    | (not_opened) "b' = charged b f mid d" "\<And>out. r = Inr out \<Longrightarrow> px_status out = PERP_DUPLICATE \<and> px_fee_usd out = 0"
        "L0 \<noteq> None"
  using assms(1) opened not_opened
  by (auto simp: place_hedge_def adverse_hedge_price [OF assms(2,3)] open_perp_def Let_def hedged_def charged_def
      hedge_position_def hedge_fee_def perp_outcome_of_def split: option.splits prod.splits sum.splits bool.splits)

definition perp_ok :: "perp_book \<Rightarrow> bool" where
  "perp_ok b \<longleftrightarrow> perp_wf b \<and> \<not> pb_paper_slippage_bps b < 0"

lemma maybe_hedge_cases:
  assumes "maybe_hedge_spot_fill e now f mid d (b, L0) = ((b', L'), r)" "\<not> pb_paper_slippage_bps b < 0"
  obtains (refused) "b' = b" "L' = L0" "\<And>out. r = Inr out \<Longrightarrow> px_status out \<notin> {PERP_HEDGED, PERP_FUNDING_APPLIED}
        \<and> px_fee_usd out = 0 \<and> px_funding_pnl_usd out = 0"
    | (opened) m out where "mid = Some m" "0 < m" "\<not> perp_halted e b" "dict_get (pb_positions b) (upper (f_asset f)) = None"
        "paper_perp_client_order_id d (upper (f_asset f)) \<notin> set (pb_seen_ids b)"
        "r = Inr out" "px_status out = PERP_HEDGED" "b' = hedged b f m d"
        "px_position out = Some (hedge_position b f m d)" "px_fee_usd out = hedge_fee b (hedge_side (f_side f)) m (f_quantity f)"
        "px_funding_pnl_usd out = 0"
    | (not_opened) m where "0 < m" "b' = charged b f m d" "L0 \<noteq> None"
        "\<And>out. r = Inr out \<Longrightarrow> px_status out = PERP_DUPLICATE \<and> px_fee_usd out = 0"
proof (cases "maybe_hedge_spot_fill e now f mid d (b, L0) = ((b, L0), r) \<and> (\<forall>out. r = Inr out \<longrightarrow>
    px_status out \<notin> {PERP_HEDGED, PERP_FUNDING_APPLIED} \<and> px_fee_usd out = 0 \<and> px_funding_pnl_usd out = 0)")
  case True
  with assms(1) refused show ?thesis by auto
next
  case False
  then obtain m where m: "mid = Some m" "0 < m" "\<not> perp_halted e b" "dict_get (pb_positions b) (upper (f_asset f)) = None"
      "paper_perp_client_order_id d (upper (f_asset f)) \<notin> set (pb_seen_ids b)"
      "place_hedge now f m d (b, L0) = ((b', L'), r)"
    using assms(1) by (auto simp: maybe_hedge_spot_fill_def Let_def perp_outcome_of_def
        split: if_splits option.splits)
  note outer = opened not_opened
  from m(6,2) assms(2) show ?thesis
  proof (cases rule: place_hedge_cases)
    case (opened out)
    with m(1-5) show ?thesis by (intro outer(1))
  next
    case not_opened
    with m(2) show ?thesis by (intro outer(2))
  qed
qed

lemma charged_simps [simp]:
  "pb_positions (charged b f m d) = pb_positions b"
  "set (pb_seen_ids (charged b f m d)) = insert (paper_perp_client_order_id d (upper (f_asset f))) (set (pb_seen_ids b))"
  "pb_paper_slippage_bps (charged b f m d) = pb_paper_slippage_bps b"
  "pb_funding_prints_applied (charged b f m d) = pb_funding_prints_applied b"
  by (simp_all add: charged_def)

lemma hedged_simps [simp]:
  "pb_positions (hedged b f m d) = dict_set (upper (f_asset f)) (hedge_position b f m d) (pb_positions b)"
  "pb_seen_ids (hedged b f m d) = pb_seen_ids (charged b f m d)"
  "pb_paper_slippage_bps (hedged b f m d) = pb_paper_slippage_bps b"
  "pb_total_fees_usd (hedged b f m d) = pb_total_fees_usd (charged b f m d)"
  by (simp_all add: hedged_def charged_def)

lemma charged_ok: "perp_ok b \<Longrightarrow> perp_ok (charged b f m d)"
  by (auto simp: perp_ok_def perp_wf_def list_all_iff)

lemma hedged_ok: "perp_ok b \<Longrightarrow> perp_ok (hedged b f m d)"
  by (auto simp: perp_ok_def perp_wf_def list_all_iff distinct_update dict_update_memb hedge_position_def
      Let_def split: if_splits)

text \<open>One hedge request as a step: it reports whether a hedge was opened.\<close>

type_synonym perp_call = "ks_env \<times> datetime \<times> execution_fill \<times> real option \<times> string"

definition perp_key :: "perp_call \<Rightarrow> string" where
  "perp_key = (\<lambda>(e, now, f, mid, d). paper_perp_client_order_id d (upper (f_asset f)))"

definition perp_step :: "perp_call \<Rightarrow> perp_world \<Rightarrow> perp_world \<times> bool" where
  "perp_step = (\<lambda>(e, now, f, mid, d) w.
     case maybe_hedge_spot_fill e now f mid d w of
       (w', Inl err) \<Rightarrow> (w', False)
     | (w', Inr out) \<Rightarrow> (w', px_status out = PERP_HEDGED))"

interpretation pp: at_most_once "\<lambda>w. perp_ok (fst w)" "\<lambda>w k. k \<in> set (pb_seen_ids (fst w))" perp_key perp_step
proof
  show "perp_step c w = (w, False)" if "perp_ok (fst w)" "perp_key c \<in> set (pb_seen_ids (fst w))" for c w
    using that by (cases c, cases w)
      (auto simp: perp_step_def perp_key_def maybe_hedge_spot_fill_def Let_def perp_outcome_of_def split: option.splits)
  have step: "perp_ok (fst w') \<and> set (pb_seen_ids (fst w)) \<subseteq> set (pb_seen_ids (fst w'))
      \<and> (ok \<longrightarrow> perp_key c \<in> set (pb_seen_ids (fst w')))"
    if wf: "perp_ok (fst w)" and run: "perp_step c w = (w', ok)" for c w w' ok
  proof -
    obtain e now f mid d b L where cw: "c = (e, now, f, mid, d)" "w = (b, L)" by (cases c, cases w) auto
    obtain b' L' r where h: "maybe_hedge_spot_fill e now f mid d (b, L) = ((b', L'), r)" by (metis prod.exhaust)
    have ok: "\<not> pb_paper_slippage_bps b < 0" using wf cw by (simp add: perp_ok_def)
    from h run cw have w': "w' = (b', L')" "ok \<longleftrightarrow> (\<exists>out. r = Inr out \<and> px_status out = PERP_HEDGED)"
      by (auto simp: perp_step_def split: sum.splits)
    from h ok show ?thesis
      by (cases rule: maybe_hedge_cases) (use wf cw w' in \<open>auto simp: perp_key_def charged_ok hedged_ok\<close>)
  qed
  show "perp_ok (fst w) \<Longrightarrow> perp_step c w = (w', True) \<Longrightarrow> perp_key c \<in> set (pb_seen_ids (fst w'))" for c w w'
    using step by blast
  show "perp_ok (fst w) \<Longrightarrow> perp_step c w = (w', ok) \<Longrightarrow> k \<in> set (pb_seen_ids (fst w))
      \<Longrightarrow> k \<in> set (pb_seen_ids (fst w'))" for c w w' ok k
    using step by blast
  show "perp_ok (fst w) \<Longrightarrow> perp_step c w = (w', ok) \<Longrightarrow> perp_ok (fst w')" for c w w' ok
    using step by blast
qed

section \<open>Accounts of the hedge book\<close>

datatype perp_op =
    HedgeOp ks_env datetime execution_fill "real option" string
  | FundingOp ks_env "(datetime \<times> real) list" string "real option"

fun perp_op_step :: "perp_op \<Rightarrow> perp_world \<Rightarrow> perp_world \<times> (perp_error + perp_outcome)" where
  "perp_op_step (HedgeOp e now f mid d) w = maybe_hedge_spot_fill e now f mid d w"
| "perp_op_step (FundingOp e ss a m) w = (case apply_funding e ss a m (fst w) of (b, r) \<Rightarrow> ((b, snd w), r))"

fun run_perp :: "perp_op list \<Rightarrow> perp_world \<Rightarrow> perp_world \<times> (perp_error + perp_outcome) list" where
  "run_perp [] w = (w, [])"
| "run_perp (c # cs) w =
     (case perp_op_step c w of (w1, r) \<Rightarrow> (case run_perp cs w1 of (w2, rs) \<Rightarrow> (w2, r # rs)))"

definition outcome_fee :: "perp_error + perp_outcome \<Rightarrow> real" where
  "outcome_fee r = (case r of Inl e \<Rightarrow> 0 | Inr out \<Rightarrow> px_fee_usd out)"

definition outcome_funding :: "perp_error + perp_outcome \<Rightarrow> real" where
  "outcome_funding r = (case r of Inl e \<Rightarrow> 0 | Inr out \<Rightarrow> px_funding_pnl_usd out)"

lemma total_funding_set:
  assumes "distinct (dict_keys (pb_positions b))"
  shows "py_sum (map pp_funding_pnl_usd (dict_vals (dict_set k p (pb_positions b))))
    = total_funding_pnl_usd b + pp_funding_pnl_usd p
      - (case dict_get (pb_positions b) k of None \<Rightarrow> 0 | Some q \<Rightarrow> pp_funding_pnl_usd q)"
  using sum_list_update [OF assms, of "\<lambda>kv. pp_funding_pnl_usd (snd kv)" k p]
  by (simp add: total_funding_pnl_usd_def py_sum_eq comp_def split: option.splits)

lemma apply_funding_cases:
  assumes "apply_funding e ss a m b = (b', r)"
  obtains (same) "b' = b" "outcome_fee r = 0" "outcome_funding r = 0"
    | (paid) p pnl where "dict_get (pb_positions b) (upper a) = Some p"
        "b' = b\<lparr>pb_positions := dict_set (upper a) (p\<lparr>pp_funding_pnl_usd := pp_funding_pnl_usd p + pnl\<rparr>) (pb_positions b),
             pb_funding_prints_applied := pb_funding_prints_applied b + length ss\<rparr>"
        "outcome_fee r = 0" "outcome_funding r = pnl"
proof (cases "pb_trading_mode b \<noteq> ''paper'' \<or> perp_halted e b \<or> dict_get (pb_positions b) (upper a) = None \<or> ss = []")
  case True
  then have "b' = b \<and> outcome_fee r = 0 \<and> outcome_funding r = 0"
    using assms by (elim disjE) (auto simp: apply_funding_def Let_def outcome_fee_def outcome_funding_def
        perp_outcome_of_def simp del: foldl.simps split: if_splits option.splits)
  then show ?thesis using same by auto
next
  case False
  then obtain p where p: "dict_get (pb_positions b) (upper a) = Some p" by auto
  show ?thesis
    by (rule paid [OF p]) (use assms False p in \<open>auto simp: apply_funding_def Let_def outcome_fee_def outcome_funding_def\<close>)
qed

lemma perp_op_accounts:
  assumes "perp_op_step c (b, L) = ((b', L'), r)" "perp_ok b"
  shows "perp_ok b' \<and> total_funding_pnl_usd b' = total_funding_pnl_usd b + outcome_funding r
    \<and> (L = None \<longrightarrow> L' = None \<and> pb_total_fees_usd b' = pb_total_fees_usd b + outcome_fee r)"
proof -
  have ok: "\<not> pb_paper_slippage_bps b < 0" "distinct (dict_keys (pb_positions b))"
    using assms(2) by (auto simp: perp_ok_def perp_wf_def)
  show ?thesis
  proof (cases c)
    case (HedgeOp e now f mid d)
    with assms(1) have h: "maybe_hedge_spot_fill e now f mid d (b, L) = ((b', L'), r)" by simp
    have L': "L = None \<Longrightarrow> L' = None"
      using h by (auto simp: maybe_hedge_spot_fill_def place_hedge_def Let_def
          split: if_splits option.splits sum.splits)
    from h ok(1) show ?thesis
    proof (cases rule: maybe_hedge_cases)
      case refused
      with L' assms(2) show ?thesis by (auto simp: outcome_fee_def outcome_funding_def split: sum.splits)
    next
      case (opened m out)
      have "total_funding_pnl_usd b' = total_funding_pnl_usd b"
        using total_funding_set [OF ok(2), of "upper (f_asset f)" "hedge_position b f m d"] opened(4,8)
        by (simp add: total_funding_pnl_usd_def [of "hedged b f m d"] hedge_position_def Let_def)
      with opened assms(2) L' show ?thesis
        by (simp add: hedged_ok outcome_fee_def outcome_funding_def) (simp add: charged_def)
    next
      case (not_opened m)
      have "outcome_funding r = 0"
        using h not_opened(4) by (auto simp: outcome_funding_def maybe_hedge_spot_fill_def place_hedge_def Let_def
            perp_outcome_of_def open_perp_def split: if_splits option.splits sum.splits prod.splits bool.splits)
      with not_opened assms(2) show ?thesis by (auto simp: charged_ok total_funding_pnl_usd_def)
    qed
  next
    case (FundingOp e ss a m)
    with assms(1) have f: "apply_funding e ss a m b = (b', r)" "L' = L" by (auto split: prod.splits)
    from f(1) show ?thesis
    proof (cases rule: apply_funding_cases)
      case same
      with assms(2) f(2) show ?thesis by simp
    next
      case (paid p pnl)
      let ?p = "p\<lparr>pp_funding_pnl_usd := pp_funding_pnl_usd p + pnl\<rparr>"
      have "total_funding_pnl_usd b' = total_funding_pnl_usd b + pnl"
        using total_funding_set [OF ok(2), of "upper a" ?p] paid(1,2) by (simp add: total_funding_pnl_usd_def)
      moreover have "perp_ok b'"
        using assms(2) paid(1,2) by (auto simp: perp_ok_def perp_wf_def list_all_iff distinct_update dict_update_memb
            dest: map_of_SomeD split: if_splits)
      ultimately show ?thesis using paid f(2) by simp
    qed
  qed
qed

lemma run_perp_accounts:
  assumes "run_perp cs (b, L) = ((b', L'), rs)" "perp_ok b"
  shows "perp_ok b' \<and> total_funding_pnl_usd b' = total_funding_pnl_usd b + py_sum (map outcome_funding rs)
    \<and> (L = None \<longrightarrow> pb_total_fees_usd b' = pb_total_fees_usd b + py_sum (map outcome_fee rs))"
  using assms
proof (induction cs arbitrary: b L rs)
  case (Cons c cs)
  obtain b1 L1 r rs1 where s: "perp_op_step c (b, L) = ((b1, L1), r)" "run_perp cs (b1, L1) = ((b', L'), rs1)" "rs = r # rs1"
    using Cons.prems(1) by (auto split: prod.splits)
  from perp_op_accounts [OF s(1) Cons.prems(2)] Cons.IH [OF s(2)] s(3) show ?case by auto
qed simp

definition mtm_step :: "real dict \<Rightarrow> real \<times> string list \<times> string list \<Rightarrow> string \<times> perp_position \<Rightarrow> real \<times> string list \<times> string list" where
  "mtm_step marks = (\<lambda>(mtm, marked, skipped) (asset, p).
     case dict_get marks asset of
       None \<Rightarrow> (mtm, marked, skipped @ [asset])
     | Some mid \<Rightarrow> if mid \<le> 0 then (mtm, marked, skipped @ [asset])
                   else (mtm + position_mtm mid p, marked @ [asset], skipped))"

definition mtm_of :: "real dict \<Rightarrow> string \<times> perp_position \<Rightarrow> real" where
  "mtm_of marks = (\<lambda>(asset, p). if has_mark marks asset then position_mtm (the (dict_get marks asset)) p else 0)"

lemma mtm_fold:
  "foldl (mtm_step marks) (x, ms, ks) ps =
     (x + py_sum (map (mtm_of marks) ps), ms @ filter (has_mark marks) (map fst ps),
      ks @ filter (\<lambda>a. \<not> has_mark marks a) (map fst ps))"
proof (induction ps arbitrary: x ms ks)
  case (Cons q ps)
  then show ?case
    by (cases q, cases "dict_get marks (fst q)") (auto simp: mtm_step_def mtm_of_def has_mark_def)
qed simp

lemma unrealized_mtm_eq:
  "unrealized_mtm_usd marks b =
     (py_sum (map (mtm_of marks) (pb_positions b)), filter (has_mark marks) (dict_keys (pb_positions b)),
      filter (\<lambda>a. \<not> has_mark marks a) (dict_keys (pb_positions b)))"
  using mtm_fold [of marks 0 "[]" "[]" "pb_positions b"] by (simp add: unrealized_mtm_usd_def mtm_step_def)

lemma harvest_total_iff:
  "fa_fee_aware_paper_pnl_usd (harvest_fee_aware_paper_pnl marks b) = Some x \<longleftrightarrow>
     (\<forall>a \<in> set (dict_keys (pb_positions b)). has_mark marks a)
     \<and> x = total_funding_pnl_usd b + py_sum (map (mtm_of marks) (pb_positions b)) - pb_total_fees_usd b"
  by (auto simp: harvest_fee_aware_paper_pnl_def unrealized_mtm_eq filter_empty_conv Let_def)

section \<open>Properties\<close>

text \<open>The profit of the spot fill itself when the asset trades at \<open>x\<close>.\<close>

definition spot_pnl :: "execution_fill \<Rightarrow> real \<Rightarrow> real" where
  "spot_pnl f x =
     (if f_side f = BUY then (x - f_price_usd f) * f_quantity f else (f_price_usd f - x) * f_quantity f)"

text \<open>
  A hedge is opened only with an explicit positive perpetual mid, while the kill switch is
  not engaged and no hedge of the asset is open; it takes the opposite side for the quantity of the
  spot fill at a price no better than the mid, leaves the other hedges alone, and makes the sum of
  spot and perpetual profit independent of where the asset trades afterwards.
\<close>

theorem perp_hedge_neutral:
  assumes "maybe_hedge_spot_fill e now f mid d (b, L) = ((b', L'), Inr out)" "px_status out = PERP_HEDGED"
    and "\<not> pb_paper_slippage_bps b < 0"
  shows "\<exists>m p. mid = Some m \<and> 0 < m \<and> \<not> perp_halted e b
    \<and> dict_get (pb_positions b) (upper (f_asset f)) = None \<and> dict_get (pb_positions b') (upper (f_asset f)) = Some p
    \<and> (\<forall>a. a \<noteq> upper (f_asset f) \<longrightarrow> dict_get (pb_positions b') a = dict_get (pb_positions b) a)
    \<and> pp_side p \<noteq> f_side f \<and> pp_quantity p = f_quantity f
    \<and> (if pp_side p = BUY then m \<le> pp_entry_price_usd p else pp_entry_price_usd p \<le> m)
    \<and> (\<forall>x. spot_pnl f x + position_mtm x p = spot_pnl f (pp_entry_price_usd p))"
  using assms(1,3)
proof (cases rule: maybe_hedge_cases)
  case (opened m out')
  let ?p = "hedge_position b f m d"
  have price: "if pp_side ?p = BUY then m \<le> pp_entry_price_usd ?p else pp_entry_price_usd ?p \<le> m"
    using opened(2) assms(3) by (simp add: hedge_position_def hedge_price_def Let_def distrib_left right_diff_distrib)
  have "spot_pnl f x + position_mtm x ?p = spot_pnl f (pp_entry_price_usd ?p)" for x
    by (simp add: spot_pnl_def position_mtm_def hedge_position_def hedge_side_def Let_def algebra_simps)
  moreover have "pp_side ?p \<noteq> f_side f" "pp_quantity ?p = f_quantity f"
    by (cases "f_side f"; simp add: hedge_position_def hedge_side_def Let_def)+
  ultimately show ?thesis using opened price by (intro exI [of _ m] exI [of _ ?p]) (simp add: update_conv')
qed (use assms(2) in auto)

text \<open>
  No hedge is opened twice: in any sequence of hedge requests, whatever they repeat, the
  ones that opened a hedge carry pairwise distinct client order ids, and repeating those changes
  nothing.
\<close>

theorem perp_hedge_once:
  assumes "perp_ok b"
  shows "distinct (map perp_key (snd (run_all perp_step cs (b, L))))
    \<and> run_all perp_step (snd (run_all perp_step cs (b, L))) (fst (run_all perp_step cs (b, L)))
      = (fst (run_all perp_step cs (b, L)), [])"
  using pp.run_distinct [of "(b, L)" cs] pp.run_idempotent [of "(b, L)" cs] assms by simp

text \<open>
  The accounts of the hedge book balance: over any sequence of hedges and funding
  settlements on a new book, the reported total is the funding credited by the calls, plus the
  mark to market of the open hedges, minus the fees the calls charged; and a total is reported
  exactly when every open hedge has a positive mark.
\<close>

theorem perp_accounts:
  assumes "new_perp_book mode fee_bps slippage_bps ks = Inr b0" "run_perp cs (b0, None) = ((b, L), rs)"
  shows "fa_fee_aware_paper_pnl_usd (harvest_fee_aware_paper_pnl marks b) =
    (if \<forall>a \<in> set (dict_keys (pb_positions b)). has_mark marks a
     then Some (py_sum (map outcome_funding rs)
            + py_sum (map (\<lambda>(a, p). position_mtm (the (dict_get marks a)) p) (pb_positions b))
            - py_sum (map outcome_fee rs))
     else None)"
proof -
  have b0: "perp_ok b0" "total_funding_pnl_usd b0 = 0" "pb_total_fees_usd b0 = 0"
    using assms(1) by (auto simp: new_perp_book_def perp_ok_def perp_wf_def total_funding_pnl_usd_def split: if_splits)
  have t: "total_funding_pnl_usd b = py_sum (map outcome_funding rs)" "pb_total_fees_usd b = py_sum (map outcome_fee rs)"
    using run_perp_accounts [OF assms(2) b0(1)] b0(2,3) by auto
  show ?thesis
  proof (cases "\<forall>a \<in> set (dict_keys (pb_positions b)). has_mark marks a")
    case True
    then have m: "map (mtm_of marks) (pb_positions b) = map (\<lambda>(a, p). position_mtm (the (dict_get marks a)) p) (pb_positions b)"
      by (force simp: mtm_of_def)
    show ?thesis unfolding if_P [OF True] harvest_total_iff m t using True by blast
  next
    case False
    then have "\<nexists>x. fa_fee_aware_paper_pnl_usd (harvest_fee_aware_paper_pnl marks b) = Some x"
      by (simp add: harvest_total_iff)
    then show ?thesis by (subst if_not_P [OF False]) auto
  qed
qed

section \<open>A concrete hedge\<close>

definition ex_perp :: perp_book where
  "ex_perp = \<lparr>pb_trading_mode = ''paper'', pb_paper_fee_bps = 10, pb_paper_slippage_bps = 5,
     pb_kill_switch = None, pb_positions = [], pb_seen_ids = [], pb_funding_prints_applied = 0,
     pb_total_fees_usd = 0\<rparr>"

definition ex_calm :: ks_env where
  "ex_calm = \<lparr>env_files = [], env_signal_engaged = False\<rparr>"

definition ex_spot :: execution_fill where
  "ex_spot = ex_fill ''f1'' 2 100"

definition ex_short :: perp_position where
  "ex_short = \<lparr>pp_asset = ''BTC'', pp_side = SELL, pp_quantity = 2, pp_entry_price_usd = 9995 / 100,
     pp_funding_pnl_usd = 0, pp_client_order_id = ''paper-perp:d1:BTC''\<rparr>"

definition ex_hedged :: perp_book where
  "ex_hedged = ex_perp\<lparr>pb_seen_ids := [''paper-perp:d1:BTC''], pb_total_fees_usd := 1999 / 10000,
     pb_positions := [(''BTC'', ex_short)]\<rparr>"

lemma ex_spot_simps: "f_asset ex_spot = ''BTC''" "f_side ex_spot = BUY" "f_quantity ex_spot = 2"
  by (simp_all add: ex_spot_def ex_fill_def)

lemma ex_upper: "upper ''BTC'' = ''BTC''"
  by (simp add: str_eval)

lemma ex_hedge:
  "maybe_hedge_spot_fill ex_calm 0 ex_spot (Some 100) ''d1'' (ex_perp, None) =
     ((ex_hedged, None), Inr \<lparr>px_status = PERP_HEDGED, px_reason = None, px_position = Some ex_short,
        px_fee_usd = 1999 / 10000, px_funding_pnl_usd = 0\<rparr>)"
  by (simp add: maybe_hedge_spot_fill_def place_hedge_def open_perp_def ex_perp_def ex_hedged_def ex_short_def
      perp_halted_def adverse_fill_price_usd_def hedge_side_def ex_spot_simps ex_upper Let_def
      paper_perp_client_order_id_def paper_perp_id_prefix_def)

theorem perp_hedge_neutral_witness:
  "spot_pnl ex_spot 120 + position_mtm 120 ex_short = spot_pnl ex_spot (9995 / 100)"
proof -
  have slip: "\<not> pb_paper_slippage_bps ex_perp < 0" by (simp add: ex_perp_def)
  from perp_hedge_neutral [OF ex_hedge _ slip] obtain p where
    p: "dict_get (pb_positions ex_hedged) ''BTC'' = Some p" "spot_pnl ex_spot 120 + position_mtm 120 p = spot_pnl ex_spot (pp_entry_price_usd p)"
    by (auto simp: ex_spot_simps ex_upper)
  moreover from p(1) have "p = ex_short" by (simp add: ex_hedged_def)
  ultimately show ?thesis by (simp add: ex_short_def)
qed

lemma ex_perp_ok: "perp_ok ex_perp"
  by (simp add: ex_perp_def perp_ok_def perp_wf_def)

theorem perp_hedge_once_witness:
  "distinct (map perp_key (snd (run_all perp_step
     [(ex_calm, 0, ex_spot, Some 100, ''d1''), (ex_calm, 1, ex_spot, Some 101, ''d1'')] (ex_perp, None))))"
  using perp_hedge_once [OF ex_perp_ok] by blast

theorem perp_accounts_witness:
  "\<exists>b rs. run_perp [HedgeOp ex_calm 0 ex_spot (Some 100) ''d1''] (ex_perp, None) = ((b, None), rs)
     \<and> fa_fee_aware_paper_pnl_usd (harvest_fee_aware_paper_pnl [(''BTC'', 90)] b) = Some (199 / 10 - 1999 / 10000)"
proof -
  have new: "new_perp_book ''paper'' 10 5 None = Inr ex_perp" by (simp add: new_perp_book_def ex_perp_def)
  have run: "run_perp [HedgeOp ex_calm 0 ex_spot (Some 100) ''d1''] (ex_perp, None) = ((ex_hedged, None),
      [Inr \<lparr>px_status = PERP_HEDGED, px_reason = None, px_position = Some ex_short, px_fee_usd = 1999 / 10000,
        px_funding_pnl_usd = 0\<rparr>])"
    by (simp add: ex_hedge)
  have "fa_fee_aware_paper_pnl_usd (harvest_fee_aware_paper_pnl [(''BTC'', 90)] ex_hedged) = Some (199 / 10 - 1999 / 10000)"
    by (subst perp_accounts [OF new run])
      (simp add: ex_hedged_def has_mark_def outcome_funding_def outcome_fee_def position_mtm_def ex_short_def)
  with run show ?thesis by blast
qed

text \<open>
  A hedge whose order the ledger already holds as filled (a restart keeps the ledger but
  not this book) is refused as a duplicate and opens no position, yet its fee is charged to the
  book.
\<close>

theorem duplicate_hedge_charged:
  assumes "pb_trading_mode b = ''paper''" "\<not> perp_halted e b" "0 < m" "\<not> pb_paper_slippage_bps b < 0"
    and "paper_perp_client_order_id d (upper (f_asset f)) \<notin> set (pb_seen_ids b)"
    and "dict_get (pb_positions b) (upper (f_asset f)) = None"
    and "find (\<lambda>x. client_id_of x = paper_perp_client_order_id d (upper (f_asset f))) (orders_for_decision d L) = Some x"
    and "o_state x = FILLED"
  shows "\<exists>b' out. maybe_hedge_spot_fill e now f (Some m) d (b, Some L) = ((b', Some L), Inr out)
    \<and> px_status out = PERP_DUPLICATE \<and> pb_positions b' = pb_positions b
    \<and> pb_total_fees_usd b' = pb_total_fees_usd b + hedge_fee b (hedge_side (f_side f)) m (f_quantity f)"
proof -
  have mid: "\<not> m \<le> 0" using assms(3) by simp
  have dup: "book_perp_order now (paper_perp_client_order_id d (upper (f_asset f))) d (upper (f_asset f)) sd q pr fee L = (L, Inr False)"
    for sd q pr fee
    by (simp add: book_perp_order_def assms(7,8))
  have "maybe_hedge_spot_fill e now f (Some m) d (b, Some L) = place_hedge now f m d (b, Some L)"
    by (simp only: maybe_hedge_spot_fill_def Let_def fst_conv assms(1,2,5,6) mid if_False not_not option.case simp_thms)
  then show ?thesis
    by (simp add: place_hedge_def adverse_hedge_price [OF assms(3,4)] dup Let_def perp_outcome_of_def hedge_fee_def)
qed

theorem duplicate_hedge_charged_witness:
  "\<exists>L b' out. maybe_hedge_spot_fill ex_calm 1 ex_spot (Some 100) ''d1'' (ex_perp, Some L) = ((b', Some L), Inr out)
     \<and> px_status out = PERP_DUPLICATE \<and> pb_positions b' = [] \<and> pb_total_fees_usd b' = 1999 / 10000"
proof -
  define x where "x = (perp_order 0 ''paper-perp:d1:BTC'' ''d1'' ''BTC'' SELL 2)\<lparr>o_state := FILLED\<rparr>"
  define L where "L = \<lparr>l_orders = [(''paper-perp:d1:BTC'', x)], l_processed_fill_ids = []\<rparr>"
  have f: "find (\<lambda>x. client_id_of x = paper_perp_client_order_id ''d1'' (upper (f_asset ex_spot))) (orders_for_decision ''d1'' L) = Some x"
    by (simp add: L_def x_def orders_for_decision_def perp_order_def client_id_of_def text_or_def
        paper_perp_client_order_id_def paper_perp_id_prefix_def ex_spot_simps ex_upper)
  have pre: "pb_trading_mode ex_perp = ''paper''" "\<not> perp_halted ex_calm ex_perp" "(0::real) < 100"
    "\<not> pb_paper_slippage_bps ex_perp < 0"
    "paper_perp_client_order_id ''d1'' (upper (f_asset ex_spot)) \<notin> set (pb_seen_ids ex_perp)"
    "dict_get (pb_positions ex_perp) (upper (f_asset ex_spot)) = None"
    by (simp_all add: ex_perp_def perp_halted_def)
  have st: "o_state x = FILLED" by (simp add: x_def)
  have "hedge_fee ex_perp (hedge_side (f_side ex_spot)) 100 (f_quantity ex_spot) = 1999 / 10000"
    by (simp add: hedge_fee_def hedge_price_def ex_perp_def hedge_side_def ex_spot_simps)
  moreover have "pb_positions ex_perp = []" "pb_total_fees_usd ex_perp = 0" by (simp_all add: ex_perp_def)
  ultimately show ?thesis using duplicate_hedge_charged [OF pre f st, of 1] by (intro exI [of _ L]) auto
qed

end
