(* ===== verification/Risk_Audit.thy ===== *)
theory Risk_Audit
  imports Meta_Review
begin

text \<open>
  The hash-chained audit trail of risk decisions (\<open>risk_audit.py\<close>) and its external anchors
  (\<open>audit_anchor.py\<close>). A file is the list of its lines, each blank, malformed or a record;
  \<open>None\<close> is a missing file. The SHA-256 of the canonical JSON of a record body is the function
  \<open>sha\<close>, and what tamper evidence needs of it is that it does not collide on bodies.
\<close>

section \<open>Records and files\<close>

record audit_body =
  ab_sequence :: nat
  ab_recorded_at :: datetime
  ab_policy_version :: string
  ab_risk_limits :: "json dict"
  ab_risk_limits_hash :: string
  ab_proposal :: trade_proposal
  ab_result :: "risk_reason risk_result"
  ab_meta_review :: "meta_review option"
  ab_execution_status :: "string option"
  ab_execution_reason :: "string option"
  ab_previous_hash :: string

record audit_record = audit_body +
  ar_record_hash :: string

definition body_of :: "audit_record \<Rightarrow> audit_body" where
  "body_of r = audit_body.truncate r"

definition expected_hash :: "(audit_body \<Rightarrow> string) \<Rightarrow> audit_record \<Rightarrow> string" where
  "expected_hash sha r = sha (body_of r)"

definition genesis_hash :: string where
  "genesis_hash = replicate 64 (CHR ''0'')"

datatype audit_line = BlankLine | MalformedLine | RecordLine audit_record

type_synonym audit_file = "audit_line list option"

section \<open>Verification of the chain\<close>

datatype chain_error =
    TrailMissing
  | LineMalformed nat
  | SequenceBroken nat nat nat
  | ChainBroken nat
  | ContentEdited nat

record chain_verification =
  cv_valid :: bool
  cv_records :: nat
  cv_error :: "chain_error option"
  cv_first_invalid_sequence :: "nat option"

definition chain_bad :: "nat \<Rightarrow> chain_error \<Rightarrow> nat option \<Rightarrow> chain_verification" where
  "chain_bad count e at_seq =
     \<lparr>cv_valid = False, cv_records = count, cv_error = Some e, cv_first_invalid_sequence = at_seq\<rparr>"

definition chain_good :: "nat \<Rightarrow> chain_verification" where
  "chain_good count = \<lparr>cv_valid = True, cv_records = count, cv_error = None, cv_first_invalid_sequence = None\<rparr>"

text \<open>\<open>verify_lines sha number previous expected count lines\<close>: the loop of \<open>verify_chain\<close>.\<close>

fun verify_lines ::
    "(audit_body \<Rightarrow> string) \<Rightarrow> nat \<Rightarrow> string \<Rightarrow> nat \<Rightarrow> nat \<Rightarrow> audit_line list \<Rightarrow> chain_verification" where
  "verify_lines sha number prev expected count [] = chain_good count"
| "verify_lines sha number prev expected count (BlankLine # ls) =
     verify_lines sha (number + 1) prev expected count ls"
| "verify_lines sha number prev expected count (MalformedLine # ls) =
     chain_bad count (LineMalformed number) (Some expected)"
| "verify_lines sha number prev expected count (RecordLine r # ls) =
     (if ab_sequence r \<noteq> expected
      then chain_bad count (SequenceBroken number (ab_sequence r) expected) (Some (ab_sequence r))
      else if ab_previous_hash r \<noteq> prev
      then chain_bad count (ChainBroken number) (Some (ab_sequence r))
      else if expected_hash sha r \<noteq> ar_record_hash r
      then chain_bad count (ContentEdited number) (Some (ab_sequence r))
      else verify_lines sha (number + 1) (ar_record_hash r) (expected + 1) (count + 1) ls)"

definition verify_chain :: "(audit_body \<Rightarrow> string) \<Rightarrow> audit_file \<Rightarrow> chain_verification" where
  "verify_chain sha f =
     (case f of
        None \<Rightarrow> chain_bad 0 TrailMissing None
      | Some ls \<Rightarrow> verify_lines sha 1 genesis_hash 0 0 ls)"

section \<open>The writer\<close>

record audit_trail =
  at_sequence :: int
  at_last_hash :: string
  at_resumed :: bool

definition new_trail :: audit_trail where
  "new_trail = \<lparr>at_sequence = -1, at_last_hash = genesis_hash, at_resumed = False\<rparr>"

definition last_line :: "audit_line list \<Rightarrow> audit_line" where
  "last_line ls = (case filter (\<lambda>l. l \<noteq> BlankLine) ls of [] \<Rightarrow> BlankLine | l # xs \<Rightarrow> last (l # xs))"

text \<open>
  The flag is set before the file is read: when the last line does not parse, the call raises
  (\<open>False\<close>) but the trail counts as resumed.
\<close>

definition resume :: "audit_file \<Rightarrow> audit_trail \<Rightarrow> bool \<times> audit_trail" where
  "resume f t =
     (if at_resumed t then (True, t)
      else
        (let t1 = t\<lparr>at_resumed := True\<rparr>
         in case f of
              None \<Rightarrow> (True, t1)
            | Some ls \<Rightarrow>
                (case last_line ls of
                   BlankLine \<Rightarrow> (True, t1)
                 | MalformedLine \<Rightarrow> (False, t1)
                 | RecordLine r \<Rightarrow>
                     (True, t1\<lparr>at_sequence := int (ab_sequence r), at_last_hash := ar_record_hash r\<rparr>))))"

record audit_entry =
  ae_proposal :: trade_proposal
  ae_result :: "risk_reason risk_result"
  ae_settings :: settings
  ae_at :: datetime
  ae_meta_review :: "meta_review option"
  ae_execution_status :: "string option"
  ae_execution_reason :: "string option"

definition draft_body :: "(json dict \<Rightarrow> string) \<Rightarrow> audit_trail \<Rightarrow> audit_entry \<Rightarrow> audit_body" where
  "draft_body digest t e =
     \<lparr>ab_sequence = nat (at_sequence t + 1), ab_recorded_at = ae_at e,
      ab_policy_version = rr_policy_version (ae_result e), ab_risk_limits = risk_limits (ae_settings e),
      ab_risk_limits_hash = risk_limits_hash digest (ae_settings e), ab_proposal = ae_proposal e,
      ab_result = ae_result e, ab_meta_review = ae_meta_review e,
      ab_execution_status = ae_execution_status e, ab_execution_reason = ae_execution_reason e,
      ab_previous_hash = at_last_hash t\<rparr>"

definition record_of :: "(audit_body \<Rightarrow> string) \<Rightarrow> audit_body \<Rightarrow> audit_record" where
  "record_of sha b = audit_body.extend b \<lparr>ar_record_hash = sha b\<rparr>"

definition append_line :: "audit_line \<Rightarrow> audit_file \<Rightarrow> audit_file" where
  "append_line l f = Some ((case f of None \<Rightarrow> [] | Some ls \<Rightarrow> ls) @ [l])"

text \<open>\<open>None\<close> is the \<open>ValidationError\<close> of a last line that does not parse.\<close>

definition record_entry ::
    "(audit_body \<Rightarrow> string) \<Rightarrow> (json dict \<Rightarrow> string) \<Rightarrow> audit_entry \<Rightarrow> audit_trail \<Rightarrow> audit_file
       \<Rightarrow> audit_record option \<times> audit_trail \<times> audit_file" where
  "record_entry sha digest e t f =
     (case resume f t of
        (False, t1) \<Rightarrow> (None, t1, f)
      | (True, t1) \<Rightarrow>
          (let r = record_of sha (draft_body digest t1 e)
           in (Some r, t1\<lparr>at_sequence := int (ab_sequence r), at_last_hash := ar_record_hash r\<rparr>,
               append_line (RecordLine r) f)))"

section \<open>Anchors\<close>

record audit_anchor =
  an_sequence :: nat
  an_head_hash :: string
  an_policy_version :: string
  an_anchored_at :: datetime

datatype anchor_error =
    ChainFailed chain_error
  | NoAnchors
  | AnchorAbsent nat nat
  | AnchorDiffers nat
  | TrailDeleted

record anchor_verification =
  av_valid :: bool
  av_chain :: chain_verification
  av_anchors_checked :: nat
  av_error :: "anchor_error option"
  av_diverged_at_sequence :: "nat option"

text \<open>\<open>Inl\<close> is the validation error of a head that does not parse.\<close>

definition head_anchor :: "datetime \<Rightarrow> audit_file \<Rightarrow> py_error + audit_anchor option" where
  "head_anchor now f =
     (case f of
        None \<Rightarrow> Inr None
      | Some ls \<Rightarrow>
          (case last_line ls of
             BlankLine \<Rightarrow> Inr None
           | MalformedLine \<Rightarrow> Inl ValueError
           | RecordLine r \<Rightarrow>
               Inr (Some \<lparr>an_sequence = ab_sequence r, an_head_hash = ar_record_hash r,
                          an_policy_version = ab_policy_version r, an_anchored_at = now\<rparr>)))"

fun records_of :: "audit_line list \<Rightarrow> audit_record list" where
  "records_of [] = []"
| "records_of (RecordLine r # ls) = r # records_of ls"
| "records_of (_ # ls) = records_of ls"

text \<open>Called only on a chain that verified, so no line is malformed; a repeated sequence number
  would keep its last hash.\<close>

definition hashes_by_sequence :: "audit_line list \<Rightarrow> nat \<Rightarrow> string option" where
  "hashes_by_sequence ls = map_of (rev (map (\<lambda>r. (ab_sequence r, ar_record_hash r)) (records_of ls)))"

fun check_anchors ::
    "(nat \<Rightarrow> string option) \<Rightarrow> chain_verification \<Rightarrow> nat \<Rightarrow> audit_anchor list \<Rightarrow> anchor_verification" where
  "check_anchors hashes chain n [] =
     \<lparr>av_valid = True, av_chain = chain, av_anchors_checked = n, av_error = None, av_diverged_at_sequence = None\<rparr>"
| "check_anchors hashes chain n (a # as) =
     (case hashes (an_sequence a) of
        None \<Rightarrow> \<lparr>av_valid = False, av_chain = chain, av_anchors_checked = n,
                 av_error = Some (AnchorAbsent (an_sequence a) (cv_records chain)),
                 av_diverged_at_sequence = Some (an_sequence a)\<rparr>
      | Some h \<Rightarrow>
          if h \<noteq> an_head_hash a
          then \<lparr>av_valid = False, av_chain = chain, av_anchors_checked = n,
                av_error = Some (AnchorDiffers (an_sequence a)),
                av_diverged_at_sequence = Some (an_sequence a)\<rparr>
          else check_anchors hashes chain n as)"

definition chain_only :: "chain_verification \<Rightarrow> anchor_verification" where
  "chain_only c =
     \<lparr>av_valid = cv_valid c, av_chain = c, av_anchors_checked = 0, av_error = map_option ChainFailed (cv_error c),
      av_diverged_at_sequence = cv_first_invalid_sequence c\<rparr>"

definition verify_with_anchors ::
    "(audit_body \<Rightarrow> string) \<Rightarrow> audit_file \<Rightarrow> audit_anchor list \<Rightarrow> anchor_verification" where
  "verify_with_anchors sha f anchors =
     (let chain = verify_chain sha f
      in if \<not> cv_valid chain then chain_only chain
         else if anchors = []
         then \<lparr>av_valid = False, av_chain = chain, av_anchors_checked = 0, av_error = Some NoAnchors,
               av_diverged_at_sequence = None\<rparr>
         else check_anchors (hashes_by_sequence (case f of None \<Rightarrow> [] | Some ls \<Rightarrow> ls)) chain
                (length anchors) (sort_key an_sequence anchors))"

text \<open>
  The sinks of a fan-out: an unreachable sink raises on both operations; the others keep what was
  published. A Redis sink holds the newest anchor only.
\<close>

datatype anchor_sink = SinkDown | SinkLog "audit_anchor list" | SinkHead "audit_anchor option"

fun sink_publish :: "audit_anchor \<Rightarrow> anchor_sink \<Rightarrow> anchor_sink" where
  "sink_publish a SinkDown = SinkDown"
| "sink_publish a (SinkLog as) = SinkLog (as @ [a])"
| "sink_publish a (SinkHead h) = SinkHead (Some a)"

fun sink_anchors :: "anchor_sink \<Rightarrow> audit_anchor list" where
  "sink_anchors SinkDown = []"
| "sink_anchors (SinkLog as) = as"
| "sink_anchors (SinkHead h) = (case h of None \<Rightarrow> [] | Some a \<Rightarrow> [a])"

definition fanout_publish :: "audit_anchor \<Rightarrow> anchor_sink list \<Rightarrow> anchor_sink list" where
  "fanout_publish a sinks = map (sink_publish a) sinks"

definition fanout_anchors :: "anchor_sink list \<Rightarrow> audit_anchor list" where
  "fanout_anchors sinks = concat (map sink_anchors sinks)"

record anchor_publisher =
  ap_sinks :: "anchor_sink list"
  ap_anchor_every :: nat
  ap_last_anchored_sequence :: int

definition publish_now ::
    "datetime \<Rightarrow> audit_file \<Rightarrow> anchor_publisher \<Rightarrow> py_error + (audit_anchor option \<times> anchor_publisher)" where
  "publish_now now f p =
     bindr (head_anchor now f) (\<lambda>a. case a of
         None \<Rightarrow> Inr (None, p)
       | Some x \<Rightarrow> Inr (Some x, p\<lparr>ap_sinks := fanout_publish x (ap_sinks p),
                                   ap_last_anchored_sequence := int (an_sequence x)\<rparr>))"

definition maybe_publish ::
    "datetime \<Rightarrow> nat \<Rightarrow> audit_file \<Rightarrow> anchor_publisher \<Rightarrow> py_error + (audit_anchor option \<times> anchor_publisher)" where
  "maybe_publish now sequence f p =
     (if int sequence - ap_last_anchored_sequence p < int (ap_anchor_every p) then Inr (None, p)
      else publish_now now f p)"

definition assert_trail_matches_anchors ::
    "(audit_body \<Rightarrow> string) \<Rightarrow> audit_file \<Rightarrow> anchor_sink list \<Rightarrow> anchor_verification" where
  "assert_trail_matches_anchors sha f sinks =
     (let anchors = fanout_anchors sinks
      in case f of
           None \<Rightarrow>
             if anchors \<noteq> []
             then \<lparr>av_valid = False, av_chain = chain_bad 0 TrailMissing None,
                   av_anchors_checked = length anchors, av_error = Some TrailDeleted,
                   av_diverged_at_sequence = Some (foldl min (an_sequence (hd anchors)) (map an_sequence (tl anchors)))\<rparr>
             else \<lparr>av_valid = True, av_chain = chain_good 0, av_anchors_checked = 0, av_error = None,
                   av_diverged_at_sequence = None\<rparr>
         | Some ls \<Rightarrow>
             if anchors = [] then chain_only (verify_chain sha f) else verify_with_anchors sha f anchors)"

section \<open>What a valid chain is\<close>

text \<open>Reference: the records are numbered from zero, each carries its own hash and its predecessor's.\<close>

fun chained :: "(audit_body \<Rightarrow> string) \<Rightarrow> string \<Rightarrow> nat \<Rightarrow> audit_record list \<Rightarrow> bool" where
  "chained sha prev n [] = True"
| "chained sha prev n (r # rs) \<longleftrightarrow>
     ab_sequence r = n \<and> ab_previous_hash r = prev \<and> ar_record_hash r = expected_hash sha r
   \<and> chained sha (ar_record_hash r) (Suc n) rs"

lemma chain_fields [simp]:
  "cv_valid (chain_good n)" "\<not> cv_valid (chain_bad n e q)" "cv_records (chain_good n) = n"
  by (simp_all add: chain_good_def chain_bad_def)

lemma verify_lines_valid:
  "cv_valid (verify_lines sha k prev n c ls) \<longleftrightarrow> MalformedLine \<notin> set ls \<and> chained sha prev n (records_of ls)"
  by (induction ls arbitrary: k prev n c rule: records_of.induct) auto

lemma verify_chain_valid:
  "cv_valid (verify_chain sha (Some ls)) \<longleftrightarrow> MalformedLine \<notin> set ls \<and> chained sha genesis_hash 0 (records_of ls)"
  by (simp add: verify_chain_def verify_lines_valid)

lemma records_of_append [simp]: "records_of (xs @ ys) = records_of xs @ records_of ys"
  by (induction xs rule: records_of.induct) auto

definition head_hash :: "string \<Rightarrow> audit_record list \<Rightarrow> string" where
  "head_hash prev rs = (case rs of [] \<Rightarrow> prev | r # xs \<Rightarrow> ar_record_hash (last (r # xs)))"

lemma head_hash_simps [simp]:
  "head_hash prev [] = prev" "head_hash prev (r # rs) = head_hash (ar_record_hash r) rs"
  by (auto simp: head_hash_def split: list.splits)

lemma chained_append:
  "chained sha prev n (rs @ [r]) \<longleftrightarrow> chained sha prev n rs
     \<and> ab_sequence r = n + length rs \<and> ab_previous_hash r = head_hash prev rs
     \<and> ar_record_hash r = expected_hash sha r"
  by (induction rs arbitrary: prev n) auto

lemma last_line_records:
  assumes "MalformedLine \<notin> set ls"
  shows "last_line ls = (if records_of ls = [] then BlankLine else RecordLine (last (records_of ls)))"
proof -
  have "filter (\<lambda>l. l \<noteq> BlankLine) ls = map RecordLine (records_of ls)"
    using assms by (induction ls rule: records_of.induct) auto
  then show ?thesis by (cases "records_of ls") (simp_all add: last_line_def last_map)
qed

lemma body_of_record_of [simp]: "body_of (record_of sha b) = b"
  by (cases b) (simp add: body_of_def record_of_def audit_body.defs)

lemma record_of_fields [simp]:
  "ab_sequence (record_of sha b) = ab_sequence b" "ab_previous_hash (record_of sha b) = ab_previous_hash b"
  "ar_record_hash (record_of sha b) = sha b"
  by (simp_all add: record_of_def audit_body.defs)

lemma record_of_body: "ar_record_hash r = sha (body_of r) \<Longrightarrow> r = record_of sha (body_of r)"
  by (cases r) (simp add: record_of_def body_of_def audit_body.defs)

section \<open>Appending\<close>

definition file_records :: "audit_file \<Rightarrow> audit_record list" where
  "file_records f = (case f of None \<Rightarrow> [] | Some ls \<Rightarrow> records_of ls)"

definition file_intact :: "(audit_body \<Rightarrow> string) \<Rightarrow> audit_file \<Rightarrow> bool" where
  "file_intact sha f \<longleftrightarrow> f = None \<or> cv_valid (verify_chain sha f)"

text \<open>A trail object that has read the file agrees with its head.\<close>

definition in_sync :: "audit_trail \<Rightarrow> audit_file \<Rightarrow> bool" where
  "in_sync t f \<longleftrightarrow>
     (if at_resumed t
      then at_sequence t + 1 = int (length (file_records f)) \<and> at_last_hash t = head_hash genesis_hash (file_records f)
      else t = new_trail)"

lemma file_intact_records:
  "file_intact sha f \<Longrightarrow> chained sha genesis_hash 0 (file_records f)"
  by (cases f) (auto simp: file_intact_def file_records_def verify_chain_valid)

lemma chained_last:
  assumes "chained sha prev n rs" "rs \<noteq> []"
  shows "ab_sequence (last rs) = n + length rs - 1" "head_hash prev rs = ar_record_hash (last rs)"
proof -
  from assms(2) obtain xs x where rs: "rs = xs @ [x]" by (metis rev_exhaust)
  with assms(1) show "ab_sequence (last rs) = n + length rs - 1" by (simp add: chained_append)
  from rs show "head_hash prev rs = ar_record_hash (last rs)" by (cases xs) (simp_all add: head_hash_def)
qed

lemma resume_in_sync:
  assumes "file_intact sha f" "in_sync t f"
  shows "\<exists>t1. resume f t = (True, t1) \<and> at_resumed t1 \<and> in_sync t1 f"
proof (cases "at_resumed t")
  case True
  with assms(2) show ?thesis by (simp add: resume_def)
next
  case False
  with assms(2) have t: "t = new_trail" by (simp add: in_sync_def)
  show ?thesis
  proof (cases f)
    case None
    with t show ?thesis by (simp add: resume_def new_trail_def in_sync_def file_records_def)
  next
    case (Some ls)
    with assms(1) have v: "MalformedLine \<notin> set ls" "chained sha genesis_hash 0 (records_of ls)"
      by (auto simp: file_intact_def verify_chain_valid)
    show ?thesis
    proof (cases "records_of ls = []")
      case True
      with t Some last_line_records [OF v(1)] show ?thesis
        by (simp add: resume_def new_trail_def in_sync_def file_records_def)
    next
      case ne: False
      with t Some last_line_records [OF v(1)] chained_last [OF v(2) ne] show ?thesis
        by (cases "records_of ls") (auto simp: resume_def new_trail_def in_sync_def file_records_def of_nat_diff)
    qed
  qed
qed

lemma record_entry_appends:
  assumes "file_intact sha f" "in_sync t f"
  shows "\<exists>r t' f'. record_entry sha digest e t f = (Some r, t', f')
    \<and> cv_valid (verify_chain sha f') \<and> in_sync t' f' \<and> at_resumed t'
    \<and> file_records f' = file_records f @ [r]
    \<and> ab_sequence r = length (file_records f) \<and> ab_proposal r = ae_proposal e \<and> ab_result r = ae_result e
    \<and> ab_meta_review r = ae_meta_review e"
proof -
  from resume_in_sync [OF assms] obtain t1 where t1: "resume f t = (True, t1)" "at_resumed t1" "in_sync t1 f"
    by blast
  let ?b = "draft_body digest t1 e"
  let ?r = "record_of sha ?b"
  let ?f = "append_line (RecordLine ?r) f"
  have sq: "ab_sequence ?r = length (file_records f)" "ab_previous_hash ?r = head_hash genesis_hash (file_records f)"
    using t1(2,3) by (simp_all add: in_sync_def draft_body_def)
  have fr: "file_records ?f = file_records f @ [?r]"
    by (cases f) (simp_all add: append_line_def file_records_def)
  have "chained sha genesis_hash 0 (file_records f @ [?r])"
    using file_intact_records [OF assms(1)] sq by (simp add: chained_append expected_hash_def)
  then have "cv_valid (verify_chain sha ?f)"
    using assms(1) by (cases f) (auto simp: append_line_def verify_chain_valid file_records_def file_intact_def)
  moreover have "head_hash genesis_hash (file_records f @ [?r]) = ar_record_hash ?r"
    by (cases "file_records f") (simp_all add: head_hash_def)
  moreover have "ab_proposal ?r = ae_proposal e" "ab_result ?r = ae_result e" "ab_meta_review ?r = ae_meta_review e"
    by (simp_all add: record_of_def draft_body_def audit_body.defs)
  ultimately show ?thesis
    using t1 sq fr by (simp add: record_entry_def in_sync_def Let_def)
qed

fun record_all ::
    "(audit_body \<Rightarrow> string) \<Rightarrow> (json dict \<Rightarrow> string) \<Rightarrow> audit_entry list \<Rightarrow> audit_trail \<Rightarrow> audit_file
       \<Rightarrow> audit_trail \<times> audit_file" where
  "record_all sha digest [] t f = (t, f)"
| "record_all sha digest (e # es) t f =
     (case record_entry sha digest e t f of (_, t', f') \<Rightarrow> record_all sha digest es t' f')"

text \<open>
  The trail only grows and stays verifiable. From an intact file (or none), a trail object that
  was just created or has been writing records every decision handed to it: after any sequence of
  decisions the file verifies, the earlier records are untouched, and the new ones carry exactly the
  given proposals, risk results and reviews, in order.
\<close>

theorem audit_append_only:
  assumes "file_intact sha f" and "in_sync t f" and "record_all sha digest es t f = (t', f')"
  shows "file_intact sha f' \<and> in_sync t' f'
    \<and> (\<exists>rs. file_records f' = file_records f @ rs
        \<and> map ab_proposal rs = map ae_proposal es \<and> map ab_result rs = map ae_result es
        \<and> map ab_meta_review rs = map ae_meta_review es)"
  using assms
proof (induction es arbitrary: t f)
  case (Cons e es)
  from record_entry_appends [OF Cons.prems(1,2), of digest e] obtain r t1 f1 where
    r: "record_entry sha digest e t f = (Some r, t1, f1)" "cv_valid (verify_chain sha f1)" "in_sync t1 f1"
      "file_records f1 = file_records f @ [r]" "ab_proposal r = ae_proposal e" "ab_result r = ae_result e"
      "ab_meta_review r = ae_meta_review e" by blast
  have "file_intact sha f1" using r(2) by (simp add: file_intact_def)
  from Cons.IH [OF this r(3)] Cons.prems(3) r(1) obtain rs where
    "file_intact sha f' \<and> in_sync t' f'" "file_records f' = file_records f1 @ rs"
    "map ab_proposal rs = map ae_proposal es" "map ab_result rs = map ae_result es"
    "map ab_meta_review rs = map ae_meta_review es" by auto
  with r show ?case by (intro conjI exI [of _ "r # rs"]) auto
qed simp

section \<open>Tamper evidence\<close>

lemma chained_nth:
  "chained sha prev n rs \<Longrightarrow> k < length rs \<Longrightarrow>
     ab_sequence (rs ! k) = n + k \<and> ar_record_hash (rs ! k) = expected_hash sha (rs ! k)
   \<and> ab_previous_hash (rs ! k) = head_hash prev (take k rs)"
proof (induction rs arbitrary: prev n k)
  case (Cons r rs)
  then show ?case by (cases k) auto
qed simp

lemma same_hash_same_record:
  assumes "inj_on sha B" "body_of r \<in> B" "body_of s \<in> B"
    and "ar_record_hash r = expected_hash sha r" "ar_record_hash s = expected_hash sha s"
    and "ar_record_hash r = ar_record_hash s"
  shows "r = s"
proof -
  from assms have "body_of r = body_of s" by (auto simp: expected_hash_def dest: inj_onD)
  with assms(4,5) record_of_body show ?thesis by (metis expected_hash_def)
qed

text \<open>Equal hashes at one position force equal histories up to it.\<close>

lemma same_head_same_history:
  assumes inj: "inj_on sha (body_of ` (set rs \<union> set rs'))"
    and c: "chained sha genesis_hash 0 rs" and c': "chained sha genesis_hash 0 rs'"
  shows "k < length rs \<Longrightarrow> k < length rs' \<Longrightarrow> ar_record_hash (rs ! k) = ar_record_hash (rs' ! k) \<Longrightarrow>
     take (Suc k) rs = take (Suc k) rs'"
proof (induction k)
  case 0
  have "rs ! 0 = rs' ! 0"
    using 0 chained_nth [OF c, of 0] chained_nth [OF c', of 0]
    by (intro same_hash_same_record [OF inj]) auto
  with 0 show ?case by (cases rs; cases rs') auto
next
  case (Suc k)
  have eq: "rs ! Suc k = rs' ! Suc k"
    using Suc.prems chained_nth [OF c, of "Suc k"] chained_nth [OF c', of "Suc k"]
    by (intro same_hash_same_record [OF inj]) auto
  have hd: "head_hash genesis_hash (take (Suc k) xs) = ar_record_hash (xs ! k)"
    if "Suc k < length xs" for xs :: "audit_record list"
  proof -
    have "take (Suc k) xs = take k xs @ [xs ! k]" using that by (simp add: take_Suc_conv_app_nth)
    then show ?thesis by (cases "take k xs") (simp_all add: head_hash_def)
  qed
  have "ar_record_hash (rs ! k) = ar_record_hash (rs' ! k)"
    using chained_nth [OF c Suc.prems(1)] chained_nth [OF c' Suc.prems(2)]
      hd [OF Suc.prems(1)] hd [OF Suc.prems(2)] eq by simp
  with Suc have "take (Suc k) rs = take (Suc k) rs'" by simp
  with eq Suc.prems show ?case by (simp add: take_Suc_conv_app_nth)
qed

lemma map_of_chained:
  assumes "chained sha prev n rs"
  shows "map_of (rev (map (\<lambda>r. (ab_sequence r, ar_record_hash r)) rs)) q = Some h \<longleftrightarrow>
    (\<exists>k < length rs. q = n + k \<and> h = ar_record_hash (rs ! k))"
proof -
  let ?xs = "map (\<lambda>r. (ab_sequence r, ar_record_hash r)) rs"
  have "map fst ?xs = [n..<n + length rs]"
    using chained_nth [OF assms] by (intro nth_equalityI) auto
  then have d: "distinct (map fst (rev ?xs))" by (simp add: rev_map [symmetric])
  have "map_of (rev ?xs) q = Some h \<longleftrightarrow> (q, h) \<in> set ?xs"
    using map_of_eq_Some_iff [OF d, of q h] by simp
  also have "\<dots> \<longleftrightarrow> (\<exists>k < length rs. ?xs ! k = (q, h))" by (simp only: in_set_conv_nth length_map)
  also have "\<dots> \<longleftrightarrow> (\<exists>k < length rs. q = n + k \<and> h = ar_record_hash (rs ! k))"
    using chained_nth [OF assms] by auto
  finally show ?thesis .
qed

lemma check_anchors_valid:
  "av_valid (check_anchors hashes c n as) \<longleftrightarrow> (\<forall>a \<in> set as. hashes (an_sequence a) = Some (an_head_hash a))"
  by (induction as) (auto split: option.splits)

lemma verify_with_anchors_valid:
  "av_valid (verify_with_anchors sha (Some ls) as) \<longleftrightarrow>
     cv_valid (verify_chain sha (Some ls)) \<and> as \<noteq> []
   \<and> (\<forall>a \<in> set as. hashes_by_sequence ls (an_sequence a) = Some (an_head_hash a))"
  by (simp add: verify_with_anchors_def chain_only_def check_anchors_valid Let_def)

lemma head_anchor_intact:
  assumes "file_intact sha f" "head_anchor now f = Inr (Some a)"
  shows "file_records f \<noteq> [] \<and> an_sequence a = length (file_records f) - 1
    \<and> an_head_hash a = ar_record_hash (last (file_records f))"
proof -
  from assms(2) obtain ls where f: "f = Some ls" by (cases f) (auto simp: head_anchor_def)
  with assms(1) have v: "MalformedLine \<notin> set ls" "chained sha genesis_hash 0 (records_of ls)"
    by (auto simp: file_intact_def verify_chain_valid)
  with f assms(2) last_line_records [OF v(1)] chained_last [OF v(2)] show ?thesis
    by (auto simp: head_anchor_def file_records_def split: if_splits)
qed

text \<open>
  An anchored history cannot be rewritten unnoticed. Suppose an intact trail was
  anchored at its head, later some file passes the startup check against sinks of which at least
  one still holds that anchor, and the hash does not collide on the records of the two. Then that
  file begins with exactly the records the trail had when it was anchored: nothing was edited,
  removed, reordered, truncated or restored from an earlier copy.
\<close>

theorem anchored_history_immutable:
  assumes "inj_on sha (body_of ` (set (file_records f) \<union> set (file_records f')))"
    and "file_intact sha f" and "head_anchor now f = Inr (Some a)"
    and "a \<in> set (fanout_anchors sinks)"
    and "av_valid (assert_trail_matches_anchors sha f' sinks)"
  shows "take (length (file_records f)) (file_records f') = file_records f"
proof -
  let ?rs = "file_records f"
  note h = head_anchor_intact [OF assms(2,3)]
  from assms(4) have ne: "fanout_anchors sinks \<noteq> []" by auto
  with assms(5) obtain ls where f': "f' = Some ls"
    and v: "av_valid (verify_with_anchors sha (Some ls) (fanout_anchors sinks))"
    by (cases f') (auto simp: assert_trail_matches_anchors_def Let_def)
  then have c: "chained sha genesis_hash 0 (records_of ls)"
    and an: "hashes_by_sequence ls (an_sequence a) = Some (an_head_hash a)"
    using assms(4) by (auto simp: verify_with_anchors_valid verify_chain_valid)
  from an map_of_chained [OF c] have k: "an_sequence a < length (records_of ls)"
    "an_head_hash a = ar_record_hash (records_of ls ! an_sequence a)"
    by (auto simp: hashes_by_sequence_def)
  have l: "an_sequence a < length ?rs" using h by (cases ?rs) auto
  have "last ?rs = ?rs ! an_sequence a" using h by (simp add: last_conv_nth)
  with h k(2) have hk: "ar_record_hash (?rs ! an_sequence a) = ar_record_hash (records_of ls ! an_sequence a)"
    by metis
  have fr: "file_records f' = records_of ls" using f' by (simp add: file_records_def)
  note same = same_head_same_history [OF assms(1) [unfolded fr] file_intact_records [OF assms(2)] c]
  have n: "Suc (an_sequence a) = length ?rs" using h by (cases ?rs) auto
  have "take (length ?rs) ?rs = take (length ?rs) (records_of ls)"
    using same [OF l k(1) hk] by (simp only: n)
  then show ?thesis unfolding fr by simp
qed

text \<open>
  A torn last line forks the trail. When the last line of the file does not parse, the first
  decision after a restart is refused, but the trail then counts as resumed, and the second decision
  is appended with sequence number zero and the genesis hash instead of being refused as well.
\<close>

theorem torn_tail_forks:
  "let (r1, t1, f1) = record_entry sha digest e new_trail (Some (ls @ [MalformedLine]));
       (r2, t2, f2) = record_entry sha digest e' t1 f1
   in r1 = None \<and> f1 = Some (ls @ [MalformedLine])
    \<and> (\<exists>r. r2 = Some r \<and> ab_sequence r = 0 \<and> ab_previous_hash r = genesis_hash
         \<and> f2 = Some (ls @ [MalformedLine, RecordLine r]))"
proof -
  have "last_line (ls @ [MalformedLine]) = MalformedLine"
    by (simp add: last_line_def split: list.splits) (metis append_is_Nil_conv last_snoc list.discI last.simps)
  then show ?thesis
    by (simp add: record_entry_def resume_def new_trail_def draft_body_def append_line_def Let_def)
qed

section \<open>Witnesses\<close>

definition ex_sha :: "audit_body \<Rightarrow> string" where
  "ex_sha b = replicate (ab_sequence b) (CHR ''a'')"

definition ex_entry_audit :: audit_entry where
  "ex_entry_audit = \<lparr>ae_proposal = ex_proposal BUY 100,
     ae_result = \<lparr>rr_decision_id = ''d1'', rr_decision = ALLOW, rr_approved_notional_usd = 100, rr_reasons = [],
       rr_policy_version = ''v''\<rparr>, ae_settings = ex_settings, ae_at = 0, ae_meta_review = None,
     ae_execution_status = None, ae_execution_reason = None\<rparr>"

lemma start_ok: "file_intact sha None" "in_sync new_trail None"
  by (simp_all add: file_intact_def in_sync_def new_trail_def)

theorem audit_append_only_witness:
  "\<exists>t f rs. record_all ex_sha (\<lambda>d. []) [ex_entry_audit, ex_entry_audit] new_trail None = (t, f)
     \<and> cv_valid (verify_chain ex_sha f) \<and> file_records f = rs \<and> length rs = 2"
proof -
  obtain t f where r: "record_all ex_sha (\<lambda>d. []) [ex_entry_audit, ex_entry_audit] new_trail None = (t, f)"
    by (metis prod.exhaust)
  from audit_append_only [OF start_ok r] obtain rs where
    rs: "file_records f = rs" "map ab_proposal rs = map ae_proposal [ex_entry_audit, ex_entry_audit]"
    and i: "file_intact ex_sha f" by (auto simp: file_records_def)
  then have "length rs = 2" using map_eq_imp_length_eq [OF rs(2)] by simp
  with rs(1) i have "cv_valid (verify_chain ex_sha f)" by (auto simp: file_intact_def file_records_def)
  with r rs(1) \<open>length rs = 2\<close> show ?thesis by blast
qed

theorem anchored_history_immutable_witness:
  "\<exists>t1 f1 t2 f2 r s a. record_entry ex_sha (\<lambda>d. []) ex_entry_audit new_trail None = (Some r, t1, f1)
     \<and> head_anchor 0 f1 = Inr (Some a)
     \<and> record_entry ex_sha (\<lambda>d. []) ex_entry_audit t1 f1 = (Some s, t2, f2)
     \<and> av_valid (assert_trail_matches_anchors ex_sha f2 [SinkLog [a]]) \<and> take 1 (file_records f2) = [r]"
proof -
  from record_entry_appends [OF start_ok, of ex_sha "\<lambda>d. []" ex_entry_audit] obtain r t1 f1 where
    r: "record_entry ex_sha (\<lambda>d. []) ex_entry_audit new_trail None = (Some r, t1, f1)"
      "cv_valid (verify_chain ex_sha f1)" "in_sync t1 f1" "file_records f1 = [r]" "ab_sequence r = 0"
    by (auto simp: file_records_def)
  have i1: "file_intact ex_sha f1" using r(2) by (simp add: file_intact_def)
  from record_entry_appends [OF i1 r(3), of "\<lambda>d. []" ex_entry_audit] obtain s t2 f2 where
    s: "record_entry ex_sha (\<lambda>d. []) ex_entry_audit t1 f1 = (Some s, t2, f2)"
      "cv_valid (verify_chain ex_sha f2)" "file_records f2 = [r, s]" "ab_sequence s = 1"
    using r(4) by auto
  obtain ls where f1: "f1 = Some ls" using r(4) by (cases f1) (auto simp: file_records_def)
  with i1 have "MalformedLine \<notin> set ls" by (auto simp: file_intact_def verify_chain_valid)
  with last_line_records r(4) f1 obtain a where a: "head_anchor 0 f1 = Inr (Some a)"
    by (simp add: head_anchor_def file_records_def)
  obtain ks where f2: "f2 = Some ks" using s(3) by (cases f2) (auto simp: file_records_def)
  from head_anchor_intact [OF i1 a] r(4) have a1: "an_sequence a = 0" "an_head_hash a = ar_record_hash r" by auto
  have c: "chained ex_sha genesis_hash 0 (records_of ks)" "records_of ks = [r, s]"
    using s(2,3) f2 by (auto simp: verify_chain_valid file_records_def)
  have "av_valid (assert_trail_matches_anchors ex_sha f2 [SinkLog [a]])"
    using s(2) f2 c a1 map_of_chained [OF c(1), of 0]
    by (auto simp: assert_trail_matches_anchors_def fanout_anchors_def verify_with_anchors_valid hashes_by_sequence_def)
  note v = this
  have "inj_on ex_sha (body_of ` (set (file_records f1) \<union> set (file_records f2)))"
    using r(4,5) s(3,4) by (auto simp: inj_on_def ex_sha_def body_of_def audit_body.defs)
  then have "take (length (file_records f1)) (file_records f2) = file_records f1"
    by (rule anchored_history_immutable [OF _ i1 a _ v]) (simp add: fanout_anchors_def)
  with r a s v show ?thesis by auto
qed

end
