(* ===== verification/Reconcile.thy ===== *)
theory Reconcile
  imports Paper_Fill Py_Number
begin

text \<open>
  Venue reconciliation (\<open>execution/reconcile.py\<close>, \<open>reconciliation.py\<close>): reading the order and trade
  rows the venue reports, applying fills and statuses to the ledger and the portfolio, and the
  question an uncertain submission asks. The HTTP exchange is left out: the operations take the
  parsed JSON bodies. A row is a JSON object; its keys are distinct, as in any parsed body. A pass
  that raises part-way keeps what it has already applied, so the passes return the state beside
  the error. \<open>datetime.now(UTC)\<close> is the parameter \<open>now\<close>.
\<close>

section \<open>Reading venue rows\<close>

type_synonym row = "(string \<times> json) list"

datatype venue_error =
    VE_response_type
  | VE_envelope
  | VE_row_type
  | VE_missing_text "string list"
  | VE_missing_number "string list"
  | VE_non_finite "string list"
  | VE_overflow
  | VE_side string
  | VE_fill_invalid
  | VE_ledger ledger_error
  | VE_portfolio portfolio_error

fun as_object :: "json \<Rightarrow> row option" where
  "as_object (JObj kvs) = Some kvs"
| "as_object _ = None"

fun row_list :: "json list \<Rightarrow> venue_error + row list" where
  "row_list [] = Inr []"
| "row_list (j # js) =
     (case as_object j of
        None \<Rightarrow> Inl VE_row_type
      | Some r \<Rightarrow> (case row_list js of Inl e \<Rightarrow> Inl e | Inr rs \<Rightarrow> Inr (r # rs)))"

text \<open>The first of the envelope keys that the body has decides; its value must be a list.\<close>

definition envelope :: "(string \<times> json) list \<Rightarrow> json option" where
  "envelope kvs =
     (case map_of kvs ''data'' of
        Some v \<Rightarrow> Some v
      | None \<Rightarrow> (case map_of kvs ''orders'' of Some v \<Rightarrow> Some v | None \<Rightarrow> map_of kvs ''trades''))"

definition rows :: "json \<Rightarrow> venue_error + row list" where
  "rows payload =
     (case payload of
        JList js \<Rightarrow> row_list js
      | JObj kvs \<Rightarrow>
          (case envelope kvs of
             None \<Rightarrow> Inl VE_envelope
           | Some v \<Rightarrow> (case v of JList js \<Rightarrow> row_list js | _ \<Rightarrow> Inl VE_envelope))
      | _ \<Rightarrow> Inl VE_response_type)"

definition text_value :: "row \<Rightarrow> string \<Rightarrow> string option" where
  "text_value r k = (case map_of r k of Some (JStr t) \<Rightarrow> if t \<noteq> [] then Some t else None | _ \<Rightarrow> None)"

fun first_text :: "row \<Rightarrow> string list \<Rightarrow> string option" where
  "first_text r [] = None"
| "first_text r (k # ks) = (case text_value r k of Some t \<Rightarrow> Some t | None \<Rightarrow> first_text r ks)"

definition text_field :: "row \<Rightarrow> string list \<Rightarrow> venue_error + string" where
  "text_field r keys = (case first_text r keys of Some t \<Rightarrow> Inr t | None \<Rightarrow> Inl (VE_missing_text keys))"

definition text_field_opt :: "row \<Rightarrow> string list \<Rightarrow> string" where
  "text_field_opt r keys = opt_or (first_text r keys) []"

text \<open>What \<open>_number\<close> makes of one value: nothing readable, an overflow, or a float.\<close>

datatype number_reading = Unreadable | Overflows | Reads pyfloat

definition read_number :: "json option \<Rightarrow> number_reading" where
  "read_number v =
     (case v of
        Some (JInt n) \<Rightarrow> (case int_to_float n of None \<Rightarrow> Overflows | Some x \<Rightarrow> Reads (Fin x))
      | Some (JFloat f) \<Rightarrow> Reads f
      | Some (JStr t) \<Rightarrow> (case parse_float t of None \<Rightarrow> Unreadable | Some f \<Rightarrow> Reads f)
      | _ \<Rightarrow> Unreadable)"

fun first_number :: "row \<Rightarrow> string list \<Rightarrow> string list \<Rightarrow> venue_error + real option" where
  "first_number r keys [] = Inr None"
| "first_number r keys (k # ks) =
     (case read_number (map_of r k) of
        Unreadable \<Rightarrow> first_number r keys ks
      | Overflows \<Rightarrow> Inl VE_overflow
      | Reads NonFinite \<Rightarrow> Inl (VE_non_finite keys)
      | Reads (Fin x) \<Rightarrow> Inr (Some x))"

definition number_field :: "row \<Rightarrow> string list \<Rightarrow> venue_error + real" where
  "number_field r keys =
     (case first_number r keys keys of
        Inl e \<Rightarrow> Inl e | Inr None \<Rightarrow> Inl (VE_missing_number keys) | Inr (Some x) \<Rightarrow> Inr x)"

definition number_field_opt :: "row \<Rightarrow> string list \<Rightarrow> venue_error + real" where
  "number_field_opt r keys =
     (case first_number r keys keys of Inl e \<Rightarrow> Inl e | Inr v \<Rightarrow> Inr (opt_or v 0))"

definition asset_of_pair :: "string \<Rightarrow> string" where
  "asset_of_pair pair = upper (before (CHR ''-'') (replace_char (CHR ''/'') (CHR ''-'') pair))"

definition side_of_text :: "string \<Rightarrow> venue_error + side" where
  "side_of_text t =
     (if upper t = ''BUY'' then Inr BUY else if upper t = ''SELL'' then Inr SELL else Inl (VE_side t))"

definition state_names :: "(string \<times> order_state) list" where
  "state_names =
     [(''submitted'', SUBMITTED), (''pending'', SUBMITTED), (''acknowledged'', ACKNOWLEDGED),
      (''created'', ACKNOWLEDGED), (''open'', OPEN), (''partially_filled'', PARTIALLY_FILLED),
      (''partial'', PARTIALLY_FILLED), (''filled'', FILLED), (''completed'', FILLED),
      (''cancelled'', CANCELLED), (''canceled'', CANCELLED), (''rejected'', REJECTED),
      (''failed'', REJECTED), (''expired'', EXPIRED)]"

definition map_state :: "string \<Rightarrow> order_state option" where
  "map_state status =
     map_of state_names (replace_char (CHR '' '') (CHR ''_'') (replace_char (CHR ''-'') (CHR ''_'') status))"

section \<open>Does the venue know an order?\<close>

definition client_order_id_keys :: "string list" where
  "client_order_id_keys = [''client_order_id'', ''clientOrderId'', ''client_id'', ''custom_id'', ''order_id'', ''id'']"

definition carries_id :: "string \<Rightarrow> row \<Rightarrow> bool" where
  "carries_id cid r = list_ex (\<lambda>k. map_of r k = Some (JStr cid)) client_order_id_keys"

definition accounted_for :: "execution_ledger \<Rightarrow> row \<Rightarrow> bool" where
  "accounted_for L r =
     (let identifier = text_field_opt r [''order_id'', ''id'']
      in identifier \<noteq> [] \<and> find_order identifier L \<noteq> None)"

definition quantity_tolerance :: real where
  "quantity_tolerance = 1 / 10 ^ 9"

definition matches_plan :: "row \<Rightarrow> venue_query \<Rightarrow> venue_error + bool" where
  "matches_plan r q =
     (let pair = text_field_opt r [''trading_pair'', ''symbol''];
          sd = text_field_opt r [''trade_type'', ''side'']
      in if pair = [] \<or> sd = [] then Inr False
         else if asset_of_pair pair \<noteq> asset_of_pair (vq_trading_pair q) then Inr False
         else if upper sd \<noteq> upper (vq_trade_type q) then Inr False
         else case number_field_opt r [''amount'', ''quantity''] of
                Inl e \<Rightarrow> Inl e
              | Inr amount \<Rightarrow>
                  Inr (\<bar>amount - vq_quantity q\<bar> \<le> max quantity_tolerance (\<bar>vq_quantity q\<bar> / 10 ^ 6)))"

fun any_row_matches :: "execution_ledger \<Rightarrow> venue_query \<Rightarrow> row list \<Rightarrow> venue_error + bool" where
  "any_row_matches L q [] = Inr False"
| "any_row_matches L q (r # rs) =
     (if carries_id (vq_client_order_id q) r then Inr True
      else if accounted_for L r then any_row_matches L q rs
      else case matches_plan r q of
             Inl e \<Rightarrow> Inl e
           | Inr b \<Rightarrow> if b then Inr True else any_row_matches L q rs)"

definition venue_knows_order :: "execution_ledger \<Rightarrow> venue_query \<Rightarrow> json \<Rightarrow> venue_error + bool" where
  "venue_knows_order L q payload =
     (case rows payload of Inl e \<Rightarrow> Inl e | Inr rs \<Rightarrow> any_row_matches L q rs)"

section \<open>Applying venue state\<close>

definition resolve_fee :: "real \<Rightarrow> real \<Rightarrow> real \<Rightarrow> real \<Rightarrow> real \<times> fee_source" where
  "resolve_fee paper_fee_bps venue_fee_usd quantity price_usd =
     (if 0 < venue_fee_usd then (venue_fee_usd, FS_VENUE)
      else (let notional = quantity * price_usd in (notional * paper_fee_bps / 10000, FS_MODELLED)))"

text \<open>The fill a trade row describes, for an order id already read.\<close>

definition fill_of_row :: "real \<Rightarrow> datetime \<Rightarrow> string \<Rightarrow> row \<Rightarrow> venue_error + execution_fill" where
  "fill_of_row bps now order_id r =
     (case number_field r [''amount'', ''quantity''] of Inl e \<Rightarrow> Inl e | Inr quantity \<Rightarrow>
      case number_field r [''price''] of Inl e \<Rightarrow> Inl e | Inr price \<Rightarrow>
      case number_field_opt r [''fee''] of Inl e \<Rightarrow> Inl e | Inr venue_fee \<Rightarrow>
      case text_field r [''trade_id'', ''id''] of Inl e \<Rightarrow> Inl e | Inr fill_id \<Rightarrow>
      case text_field r [''trading_pair'', ''symbol''] of Inl e \<Rightarrow> Inl e | Inr pair \<Rightarrow>
      case text_field r [''trade_type'', ''side''] of Inl e \<Rightarrow> Inl e | Inr sd_text \<Rightarrow>
      case side_of_text sd_text of Inl e \<Rightarrow> Inl e | Inr sd \<Rightarrow>
        (let (fee, src) = resolve_fee bps venue_fee quantity price;
             f = \<lparr>f_fill_id = fill_id, f_order_id = order_id, f_asset = asset_of_pair pair, f_side = sd,
                  f_quantity = quantity, f_price_usd = price, f_fee_usd = fee, f_fee_source = src,
                  f_observed_at = now\<rparr>
         in if fill_valid f then Inr f else Inl VE_fill_invalid))"

text \<open>One trade row: the world afterwards and whether a fill was applied.\<close>

definition reconcile_trade :: "real \<Rightarrow> datetime \<Rightarrow> row \<Rightarrow> paper_world \<Rightarrow> paper_world \<times> (venue_error + bool)" where
  "reconcile_trade bps now r w =
     (case text_field r [''order_id''] of
        Inl e \<Rightarrow> (w, Inl e)
      | Inr order_id \<Rightarrow>
          if (case find_order order_id (pw_ledger w) of None \<Rightarrow> False | Some x \<Rightarrow> is_local_paper_fill x)
          then (w, Inr False)
          else case fill_of_row bps now order_id r of
                 Inl e \<Rightarrow> (w, Inl e)
               | Inr f \<Rightarrow>
                   (case record_fill now f (pw_ledger w) of
                      Inl e \<Rightarrow> (w, Inl (VE_ledger e))
                    | Inr (False, L) \<Rightarrow> (w, Inr False)
                    | Inr (True, L) \<Rightarrow>
                        (case apply_fill (f_asset f) (f_side f) (f_quantity f) (f_price_usd f) (f_fee_usd f)
                                now None (pw_book w) of
                           (b, Some e) \<Rightarrow> (w\<lparr>pw_ledger := L, pw_book := b\<rparr>, Inl (VE_portfolio e))
                         | (b, None) \<Rightarrow> (w\<lparr>pw_ledger := L, pw_book := b\<rparr>, Inr True))))"

fun reconcile_rows :: "real \<Rightarrow> datetime \<Rightarrow> row list \<Rightarrow> paper_world \<Rightarrow> paper_world \<times> (venue_error + nat)" where
  "reconcile_rows bps now [] w = (w, Inr 0)"
| "reconcile_rows bps now (r # rs) w =
     (case reconcile_trade bps now r w of
        (w1, Inl e) \<Rightarrow> (w1, Inl e)
      | (w1, Inr b) \<Rightarrow>
          (case reconcile_rows bps now rs w1 of
             (w2, Inl e) \<Rightarrow> (w2, Inl e)
           | (w2, Inr n) \<Rightarrow> (w2, Inr ((if b then 1 else 0) + n))))"

definition reconcile_trades :: "real \<Rightarrow> datetime \<Rightarrow> json \<Rightarrow> paper_world \<Rightarrow> paper_world \<times> (venue_error + nat)" where
  "reconcile_trades bps now payload w =
     (case rows payload of Inl e \<Rightarrow> (w, Inl e) | Inr rs \<Rightarrow> reconcile_rows bps now rs w)"

text \<open>A conflict: the order, its local state, and what the venue calls it.\<close>

datatype conflict = Conflict string order_state string

definition reconcile_order :: "datetime \<Rightarrow> row \<Rightarrow> execution_ledger \<Rightarrow> venue_error + (execution_ledger \<times> conflict list)" where
  "reconcile_order now r L =
     (case text_field r [''order_id'', ''id''] of
        Inl e \<Rightarrow> Inl e
      | Inr identifier \<Rightarrow>
          (case find_order identifier L of
             None \<Rightarrow> Inr (L, [])
           | Some x \<Rightarrow>
               if is_local_paper_fill x then Inr (L, [])
               else
                 (let raw_status = lower (text_field_opt r [''status''])
                  in case map_state raw_status of
                       None \<Rightarrow> Inr (L, [])
                     | Some st \<Rightarrow>
                         if is_legal_transition (o_state x) st
                         then (case update_order_state now (o_order_id x) st L of
                                 Inl e \<Rightarrow> Inl (VE_ledger e) | Inr L' \<Rightarrow> Inr (L', []))
                         else if o_state x \<in> set terminal_order_states
                         then Inr (L, [Conflict (o_order_id x) (o_state x)
                                        (if raw_status = [] then ''unknown'' else raw_status)])
                         else Inr (L, []))))"

fun reconcile_orders ::
    "datetime \<Rightarrow> row list \<Rightarrow> execution_ledger \<Rightarrow> execution_ledger \<times> (venue_error + conflict list)" where
  "reconcile_orders now [] L = (L, Inr [])"
| "reconcile_orders now (r # rs) L =
     (case reconcile_order now r L of
        Inl e \<Rightarrow> (L, Inl e)
      | Inr (L1, cs) \<Rightarrow>
          (case reconcile_orders now rs L1 of
             (L2, Inl e) \<Rightarrow> (L2, Inl e)
           | (L2, Inr ds) \<Rightarrow> (L2, Inr (cs @ ds))))"

record reconciliation_result =
  rec_applied_fills :: nat
  rec_venue_orders :: nat
  rec_conflicts :: "conflict list"

definition rec_matched :: "reconciliation_result \<Rightarrow> bool" where
  "rec_matched r \<longleftrightarrow> rec_conflicts r = []"

definition reconcile_state ::
    "real \<Rightarrow> datetime \<Rightarrow> json \<Rightarrow> json \<Rightarrow> paper_world \<Rightarrow> paper_world \<times> (venue_error + reconciliation_result)" where
  "reconcile_state bps now orders_payload trades_payload w =
     (case rows orders_payload of
        Inl e \<Rightarrow> (w, Inl e)
      | Inr rs \<Rightarrow>
          (case reconcile_trades bps now trades_payload w of
             (w1, Inl e) \<Rightarrow> (w1, Inl e)
           | (w1, Inr applied) \<Rightarrow>
               (case reconcile_orders now rs (pw_ledger w1) of
                  (L, Inl e) \<Rightarrow> (w1\<lparr>pw_ledger := L\<rparr>, Inl e)
                | (L, Inr cs) \<Rightarrow>
                    (w1\<lparr>pw_ledger := L\<rparr>,
                     Inr \<lparr>rec_applied_fills = applied, rec_venue_orders = length rs, rec_conflicts = cs\<rparr>))))"

section \<open>Portfolio drift\<close>

datatype drift_error = DE_type | DE_missing_connector | DE_negative | DE_not_finite | DE_result_invalid

record drift_result =
  dr_matched :: bool
  dr_internal_nav_usd :: real
  dr_external_nav_usd :: real
  dr_nav_difference_usd :: real
  dr_nav_difference_bps :: real

text \<open>\<open>isinstance(value, int | float)\<close> admits booleans, which are integers in Python. A value that
  is not finite is outside this model and reported as \<open>DE_not_finite\<close>; \<open>DE_result_invalid\<close> is
  the validation error of a result whose fields must not be negative.\<close>

definition balance_value :: "json \<Rightarrow> drift_error + real" where
  "balance_value j =
     (case as_object j of
        None \<Rightarrow> Inl DE_type
      | Some kvs \<Rightarrow>
          (case map_of kvs ''value'' of
             Some (JInt n) \<Rightarrow> (case int_to_float n of None \<Rightarrow> Inl DE_not_finite | Some x \<Rightarrow> Inr x)
           | Some (JBool b) \<Rightarrow> Inr (if b then 1 else 0)
           | Some (JFloat (Fin x)) \<Rightarrow> Inr x
           | Some (JFloat NonFinite) \<Rightarrow> Inl DE_not_finite
           | _ \<Rightarrow> Inl DE_type))"

fun sum_balances :: "json list \<Rightarrow> real \<Rightarrow> drift_error + real" where
  "sum_balances [] acc = Inr acc"
| "sum_balances (j # js) acc =
     (case balance_value j of Inl e \<Rightarrow> Inl e | Inr x \<Rightarrow> sum_balances js (acc + x))"

definition connector_balances :: "json \<Rightarrow> drift_error + json list" where
  "connector_balances j =
     (case j of JObj kvs \<Rightarrow> Inr (map snd kvs) | JList js \<Rightarrow> Inr js | _ \<Rightarrow> Inl DE_type)"

definition extract_nav :: "string \<Rightarrow> string \<Rightarrow> json \<Rightarrow> drift_error + real" where
  "extract_nav account connector payload =
     (case as_object payload of None \<Rightarrow> Inl DE_type | Some accounts \<Rightarrow>
      case map_of accounts account of None \<Rightarrow> Inl DE_type | Some acc \<Rightarrow>
      case as_object acc of None \<Rightarrow> Inl DE_type | Some connectors \<Rightarrow>
      case map_of connectors connector of
        None \<Rightarrow> Inl DE_missing_connector
      | Some c \<Rightarrow>
          if c = JNull then Inl DE_missing_connector
          else case connector_balances c of Inl e \<Rightarrow> Inl e | Inr js \<Rightarrow>
               case sum_balances js 0 of
                 Inl e \<Rightarrow> Inl e
               | Inr nav \<Rightarrow> if nav < 0 then Inl DE_negative else Inr nav)"

definition portfolio_drift :: "string \<Rightarrow> string \<Rightarrow> real \<Rightarrow> json \<Rightarrow> book \<Rightarrow> drift_error + drift_result" where
  "portfolio_drift account connector max_bps payload b =
     (case extract_nav account connector payload of
        Inl e \<Rightarrow> Inl e
      | Inr external \<Rightarrow>
          (let internal = nav_usd b;
               difference = \<bar>external - internal\<bar>;
               bps = (if internal \<noteq> 0 then difference / internal * 10000 else 10000)
           in if internal < 0 \<or> bps < 0 then Inl DE_result_invalid
              else Inr \<lparr>dr_matched = (\<not> max_bps < bps), dr_internal_nav_usd = internal, dr_external_nav_usd = external,
                   dr_nav_difference_usd = difference, dr_nav_difference_bps = bps\<rparr>))"

section \<open>Answers of the venue\<close>

lemma any_row_matches_False:
  "any_row_matches L q rs = Inr False \<longleftrightarrow>
     list_all (\<lambda>r. \<not> carries_id (vq_client_order_id q) r \<and> (accounted_for L r \<or> matches_plan r q = Inr False)) rs"
  by (induction rs) (auto split: sum.splits)

section \<open>A pass as ledger and book steps\<close>

definition refines_steps :: "paper_world \<Rightarrow> paper_world \<Rightarrow> bool" where
  "refines_steps w w' \<longleftrightarrow>
     ledger_step\<^sup>*\<^sup>* (pw_ledger w) (pw_ledger w') \<and> (\<exists>ops. pw_book w' = run_book ops (pw_book w))"

lemma refines_refl [simp]: "refines_steps w w"
  by (auto simp: refines_steps_def run_book_def intro: exI [of _ "[]"])

lemma refines_trans: "refines_steps w w1 \<Longrightarrow> refines_steps w1 w2 \<Longrightarrow> refines_steps w w2"
  unfolding refines_steps_def
proof (elim conjE exE, intro conjI)
  fix ops ops'
  assume "pw_book w1 = run_book ops (pw_book w)" "pw_book w2 = run_book ops' (pw_book w1)"
  then show "\<exists>ops. pw_book w2 = run_book ops (pw_book w)"
    by (intro exI [of _ "ops @ ops'"]) (simp add: run_book_def)
qed auto

lemma refines_fill:
  assumes "record_fill now f (pw_ledger w) = Inr (True, L)" "fill_valid f"
    "apply_fill a sd q price fee now s (pw_book w) = (b, err)"
  shows "refines_steps w (w\<lparr>pw_ledger := L, pw_book := b\<rparr>)"
proof -
  have "run_book [BookFill a sd q price fee now s] (pw_book w) = b" using assms(3) by (simp add: run_book_def)
  then show ?thesis using step_fill [OF assms(2,1)] unfolding refines_steps_def by auto
qed

lemma refines_ledger: "ledger_step\<^sup>*\<^sup>* (pw_ledger w) L \<Longrightarrow> refines_steps w (w\<lparr>pw_ledger := L\<rparr>)"
  by (auto simp: refines_steps_def run_book_def intro: exI [of _ "[]"])

lemma fill_of_row_valid: "fill_of_row bps now oid r = Inr f \<Longrightarrow> fill_valid f \<and> f_order_id f = oid"
  by (auto simp: fill_of_row_def Let_def split: sum.splits prod.splits if_splits)

lemma fill_of_row_now:
  "fill_of_row bps now oid r = Inr f \<Longrightarrow> fill_of_row bps now' oid r = Inr (f\<lparr>f_observed_at := now'\<rparr>)"
  by (auto simp: fill_of_row_def Let_def fill_valid_def split: sum.splits prod.splits if_splits)

lemma reconcile_trade_cases:
  assumes "reconcile_trade bps now r w = (w', res)"
  obtains (failed) "w' = w" "\<exists>e. res = Inl e"
  | (skipped) oid x where "w' = w" "res = Inr False" "text_field r [''order_id''] = Inr oid"
      "find_order oid (pw_ledger w) = Some x" "is_local_paper_fill x"
  | (replayed) oid f where "w' = w" "res = Inr False" "text_field r [''order_id''] = Inr oid"
      "fill_of_row bps now oid r = Inr f" "f_fill_id f \<in> set (l_processed_fill_ids (pw_ledger w))"
  | (booked) oid f L b err where "text_field r [''order_id''] = Inr oid" "fill_of_row bps now oid r = Inr f"
      "\<And>x. find_order oid (pw_ledger w) = Some x \<Longrightarrow> \<not> is_local_paper_fill x"
      "record_fill now f (pw_ledger w) = Inr (True, L)"
      "apply_fill (f_asset f) (f_side f) (f_quantity f) (f_price_usd f) (f_fee_usd f) now None (pw_book w) = (b, err)"
      "w' = w\<lparr>pw_ledger := L, pw_book := b\<rparr>" "err = None \<longleftrightarrow> res = Inr True" "err \<noteq> None \<longleftrightarrow> (\<exists>e. res = Inl e)"
proof -
  have dup: "f_fill_id f \<in> set (l_processed_fill_ids L)" if "record_fill now f L = Inr (False, L')" for f L L'
    using that by (auto simp: record_fill_def split: if_splits option.splits sum.splits)
  from assms show thesis
    by (auto simp: reconcile_trade_def split: sum.splits option.splits if_splits prod.splits bool.splits
        intro: failed skipped replayed dup dest: booked)
qed

lemma reconcile_trade_refines:
  assumes "reconcile_trade bps now r w = (w', res)"
  shows "refines_steps w w'"
  using assms
proof (cases rule: reconcile_trade_cases)
  case (booked oid f L b err)
  from refines_fill [OF booked(4) _ booked(5)] fill_of_row_valid [OF booked(2)] booked(6) show ?thesis by simp
qed simp_all

lemma reconcile_rows_refines: "reconcile_rows bps now rs w = (w', res) \<Longrightarrow> refines_steps w w'"
proof (induction rs arbitrary: w w' res)
  case (Cons r rs)
  obtain w1 res1 where t: "reconcile_trade bps now r w = (w1, res1)" by (cases "reconcile_trade bps now r w")
  note r1 = reconcile_trade_refines [OF t]
  show ?case
  proof (cases res1)
    case (Inl e)
    with Cons.prems t r1 show ?thesis by simp
  next
    case (Inr b)
    obtain w2 res2 where u: "reconcile_rows bps now rs w1 = (w2, res2)" by (cases "reconcile_rows bps now rs w1")
    with Cons.prems t Inr have "w' = w2" by (auto split: sum.splits)
    with Cons.IH [OF u] r1 show ?thesis by (auto intro: refines_trans)
  qed
qed simp

lemma reconcile_orders_steps: "reconcile_orders now rs L = (L', res) \<Longrightarrow> ledger_step\<^sup>*\<^sup>* L L'"
proof (induction rs arbitrary: L L' res)
  case (Cons r rs)
  show ?case
  proof (cases "reconcile_order now r L")
    case (Inl e)
    with Cons.prems show ?thesis by simp
  next
    case (Inr p)
    obtain L1 cs where p: "p = (L1, cs)" by (cases p)
    have one: "ledger_step\<^sup>*\<^sup>* L L1"
      using Inr p step_update
      by (auto simp: reconcile_order_def Let_def split: sum.splits option.splits if_splits)
    obtain L2 res2 where u: "reconcile_orders now rs L1 = (L2, res2)" by (cases "reconcile_orders now rs L1")
    with Cons.prems Inr p have "L' = L2" by (auto split: sum.splits)
    with Cons.IH [OF u] one show ?thesis by simp
  qed
qed simp

section \<open>Repeating a pass\<close>

lemma find_order_key:
  assumes "distinct (dict_keys (l_orders L))"
  shows "find_order i L = Option.bind (find_key i L) (dict_get (l_orders L))"
proof -
  have "distinct (dict_keys d) \<Longrightarrow> find (answers_to i) (dict_vals d)
      = Option.bind (map_option fst (find (\<lambda>(k, x). answers_to i x) d)) (dict_get d)" for d
  proof (induction d)
    case (Cons a d)
    obtain k x where a: "a = (k, x)" by (cases a)
    show ?case
    proof (cases "answers_to i x")
      case False
      have "Option.bind (map_option fst (find (\<lambda>(k, x). answers_to i x) d)) (dict_get (a # d))
          = Option.bind (map_option fst (find (\<lambda>(k, x). answers_to i x) d)) (dict_get d)"
      proof (cases "find (\<lambda>(k, x). answers_to i x) d")
        case (Some p)
        then have "p \<in> set d" by (metis find_Some_iff nth_mem)
        with Cons.prems a have "fst p \<noteq> k" by auto
        with Some a show ?thesis by simp
      qed simp
      with False a Cons show ?thesis by simp
    qed (simp add: a)
  qed simp
  from this [OF assms] show ?thesis by (simp add: find_order_def find_key_def split: option.splits)
qed

text \<open>A trade row with nothing left to apply: its order is the paper book's own fill, or its fill id
  has been processed.\<close>

definition settled :: "real \<Rightarrow> datetime \<Rightarrow> execution_ledger \<Rightarrow> row \<Rightarrow> bool" where
  "settled bps now L r \<longleftrightarrow> (\<exists>oid. text_field r [''order_id''] = Inr oid \<and>
     ((\<exists>x. find_order oid L = Some x \<and> is_local_paper_fill x)
      \<or> (\<exists>f. fill_of_row bps now oid r = Inr f \<and> f_fill_id f \<in> set (l_processed_fill_ids L))))"

lemma settled_now: "settled bps now L r \<Longrightarrow> settled bps now' L r"
  unfolding settled_def by (fastforce dest: fill_of_row_now [where now' = now'])

lemma settled_noop: "settled bps now (pw_ledger w) r \<Longrightarrow> reconcile_trade bps now r w = (w, Inr False)"
  by (auto simp: settled_def reconcile_trade_def record_fill_def split: option.splits)

lemma booked_keeps_local:
  assumes "record_fill now f L = Inr (True, L')" "ledger_wf L" "find_order i L = Some x" "is_local_paper_fill x"
    "\<And>x. find_order (f_order_id f) L = Some x \<Longrightarrow> \<not> is_local_paper_fill x"
  shows "find_order i L' = Some x"
proof -
  have d: "distinct (dict_keys (l_orders L))" using assms(2) by (simp add: ledger_wf_def)
  from assms(1) obtain k z y where r: "find_key (f_order_id f) L = Some k" "dict_get (l_orders L) k = Some z"
      "l_orders L' = dict_set k y (l_orders L)" by (rule record_fill_True)
  from r d have d': "distinct (dict_keys (l_orders L'))" by (simp add: distinct_update)
  from assms(3) d obtain k' where k': "find_key i L = Some k'" "dict_get (l_orders L) k' = Some x"
    by (auto simp: find_order_key bind_eq_Some_conv)
  from r(1,2) d have "find_order (f_order_id f) L = Some z" by (simp add: find_order_key)
  with assms(5) have "\<not> is_local_paper_fill z" .
  with r(2) k'(2) assms(4) have "k' \<noteq> k" by auto
  with k' r(3) find_key_fill [OF assms(1), of i] d' show ?thesis by (simp add: find_order_key update_conv')
qed

lemma reconcile_trade_settles:
  assumes "reconcile_trade bps now r w = (w', res)" "ledger_wf (pw_ledger w)"
  shows "ledger_wf (pw_ledger w')" "settled bps t (pw_ledger w) s \<Longrightarrow> settled bps t (pw_ledger w') s"
    "res = Inr b \<Longrightarrow> settled bps now (pw_ledger w') r"
proof -
  show "ledger_wf (pw_ledger w')"
    using reconcile_trade_refines [OF assms(1)] assms(2) ledger_steps_wf by (auto simp: refines_steps_def)
  show "settled bps t (pw_ledger w) s \<Longrightarrow> settled bps t (pw_ledger w') s"
    using assms(1)
  proof (cases rule: reconcile_trade_cases)
    case (booked oid f L b err)
    assume st: "settled bps t (pw_ledger w) s"
    have ids: "l_processed_fill_ids L = f_fill_id f # l_processed_fill_ids (pw_ledger w)"
      using booked(4) by (auto elim: record_fill_True)
    have "find_order i (pw_ledger w) = Some x \<Longrightarrow> is_local_paper_fill x \<Longrightarrow> find_order i L = Some x" for i x
      using booked_keeps_local [OF booked(4) assms(2)] booked(3) fill_of_row_valid [OF booked(2)] by simp
    with st ids show ?thesis unfolding settled_def booked(6) by fastforce
  qed simp_all
  show "settled bps now (pw_ledger w') r" if "res = Inr b"
    using assms(1)
  proof (cases rule: reconcile_trade_cases)
    case (booked oid f L b err)
    have "f_fill_id f \<in> set (l_processed_fill_ids L)" using booked(4) by (auto elim: record_fill_True)
    with booked show ?thesis by (auto simp: settled_def)
  qed (use that in \<open>auto simp: settled_def\<close>)
qed

lemma reconcile_rows_settles:
  assumes "reconcile_rows bps now rs w = (w', Inr n)" "ledger_wf (pw_ledger w)"
  shows "list_all (settled bps now (pw_ledger w')) rs \<and> (\<forall>s. settled bps now (pw_ledger w) s \<longrightarrow> settled bps now (pw_ledger w') s)"
  using assms
proof (induction rs arbitrary: w n)
  case (Cons r rs)
  obtain w1 res1 where t: "reconcile_trade bps now r w = (w1, res1)" by (cases "reconcile_trade bps now r w")
  with Cons.prems(1) obtain b m where b: "res1 = Inr b" "reconcile_rows bps now rs w1 = (w', Inr m)"
    by (auto split: sum.splits prod.splits)
  from Cons.IH [OF b(2) reconcile_trade_settles(1) [OF t Cons.prems(2)]]
    reconcile_trade_settles(2) [OF t Cons.prems(2), of now] reconcile_trade_settles(3) [OF t Cons.prems(2) b(1)]
  show ?case by simp
qed simp

lemma settled_rows_noop:
  "list_all (settled bps now (pw_ledger w)) rs \<Longrightarrow> reconcile_rows bps now rs w = (w, Inr 0)"
  by (induction rs) (simp_all add: settled_noop)

section \<open>Properties\<close>

text \<open>
  An answer that licenses a resubmission is definite. The venue is taken not to know an order
  exactly when its body could be read and every row of it neither carries the client order id under
  any of the known keys nor is an order unknown to the ledger that matches the planned pair, side
  and quantity; an unreadable body or row is an error, never that answer.
\<close>

theorem venue_unknown_is_definite:
  "venue_knows_order L q payload = Inr False \<longleftrightarrow>
     (\<exists>rs. rows payload = Inr rs
        \<and> list_all (\<lambda>r. \<not> carries_id (vq_client_order_id q) r
             \<and> (accounted_for L r \<or> matches_plan r q = Inr False)) rs)"
  by (simp add: venue_knows_order_def any_row_matches_False split: sum.splits)

text \<open>
  Reconciliation refines the ledger and the portfolio. A pass, even one that raises part-way,
  changes the ledger only by legal ledger steps and the portfolio only by portfolio operations, so
  that the invariants of both hold after it and no closed order is reopened.
\<close>

theorem reconcile_refines_ledger:
  assumes "reconcile_state bps now orders_payload trades_payload w = (w', res)"
  shows "ledger_step\<^sup>*\<^sup>* (pw_ledger w) (pw_ledger w') \<and> (\<exists>ops. pw_book w' = run_book ops (pw_book w))
    \<and> (ledger_wf (pw_ledger w) \<and> book_wf (pw_book w) \<longrightarrow> ledger_wf (pw_ledger w') \<and> book_wf (pw_book w'))"
proof -
  have "refines_steps w w'"
  proof (cases "rows orders_payload")
    case (Inl e)
    with assms show ?thesis by (simp add: reconcile_state_def)
  next
    case (Inr rs)
    obtain w1 r1 where t: "reconcile_trades bps now trades_payload w = (w1, r1)"
      by (cases "reconcile_trades bps now trades_payload w")
    then have r: "refines_steps w w1"
      using reconcile_rows_refines by (auto simp: reconcile_trades_def split: sum.splits)
    obtain L2 r2 where u: "reconcile_orders now rs (pw_ledger w1) = (L2, r2)"
      by (cases "reconcile_orders now rs (pw_ledger w1)")
    have "w' = w1 \<or> w' = w1\<lparr>pw_ledger := L2\<rparr>"
      using assms Inr t u by (auto simp: reconcile_state_def split: sum.splits)
    with r refines_trans [OF r refines_ledger [OF reconcile_orders_steps [OF u]]] show ?thesis by blast
  qed
  then show ?thesis using ledger_steps_wf run_book_wf by (auto simp: refines_steps_def)
qed

text \<open>
  C35: reconciliation is idempotent in the trades. After a pass that succeeded, a second pass over
  the same trade rows, at whatever time, applies no fill and changes nothing.
\<close>

theorem reconcile_trades_idempotent:
  assumes "ledger_wf (pw_ledger w)" and "reconcile_trades bps now payload w = (w', Inr n)"
  shows "reconcile_trades bps now' payload w' = (w', Inr 0)"
proof -
  from assms(2) obtain rs where rs: "rows payload = Inr rs" "reconcile_rows bps now rs w = (w', Inr n)"
    by (auto simp: reconcile_trades_def split: sum.splits)
  from reconcile_rows_settles [OF rs(2) assms(1)] settled_now
  have "list_all (settled bps now' (pw_ledger w')) rs" by (auto simp: list_all_iff)
  with rs(1) settled_rows_noop show ?thesis by (simp add: reconcile_trades_def)
qed

definition ex_trade :: json where
  "ex_trade = JObj [(''order_id'', JStr ''ts-1''), (''trade_id'', JStr ''t1''), (''trading_pair'', JStr ''BTC-USD''),
     (''trade_type'', JStr ''buy''), (''amount'', JInt 1), (''price'', JInt 100)]"

definition ex_venue_world :: paper_world where
  "ex_venue_world = \<lparr>pw_ledger = ex_ledger, pw_book = ex_book\<rparr>"

lemma float_limit_large: "1000 < float_limit"
proof -
  have "(2::real) ^ 10 \<le> 2 ^ 1023" by (rule power_increasing) simp_all
  then show ?thesis unfolding float_limit_def by (simp add: field_simps)
qed

lemma ex_fill_row:
  "fill_of_row 10 5 ''ts-1'' [(''order_id'', JStr ''ts-1''), (''trade_id'', JStr ''t1''), (''trading_pair'', JStr ''BTC-USD''),
     (''trade_type'', JStr ''buy''), (''amount'', JInt 1), (''price'', JInt 100)]
   = Inr \<lparr>f_fill_id = ''t1'', f_order_id = ''ts-1'', f_asset = ''BTC'', f_side = BUY, f_quantity = 1, f_price_usd = 100,
      f_fee_usd = 1 / 10, f_fee_source = FS_MODELLED, f_observed_at = 5\<rparr>"
  using float_limit_large
  by (simp add: fill_of_row_def number_field_def number_field_opt_def read_number_def int_to_float_def text_field_def
      text_value_def side_of_text_def resolve_fee_def fill_valid_def asset_of_pair_def replace_char_def str_eval Let_def)

lemma ex_reconcile:
  "\<exists>w'. reconcile_trades 10 5 (JList [ex_trade]) ex_venue_world = (w', Inr 1)"
proof -
  let ?f = "\<lparr>f_fill_id = ''t1'', f_order_id = ''ts-1'', f_asset = ''BTC'', f_side = BUY, f_quantity = 1, f_price_usd = 100,
      f_fee_usd = 1 / 10, f_fee_source = FS_MODELLED, f_observed_at = 5\<rparr>"
  obtain L where L: "record_fill 5 ?f ex_ledger = Inr (True, L)"
    by (simp add: record_fill_def ex_defs find_key_def fill_order_def fill_tolerance_def transition_def
        is_legal_transition_def closing_states_def Let_def)
  have nn: "(0::real) < 1" "(0::real) < 100" "(0::real) \<le> 1 / 10" by simp_all
  obtain b where "apply_fill ''BTC'' BUY 1 100 (1 / 10) 5 None ex_book = (b, None)"
    by (rule apply_fill_buy [OF nn ex_book_wf])
  with L ex_fill_row show ?thesis
    by (simp add: reconcile_trades_def rows_def ex_trade_def reconcile_trade_def text_field_def text_value_def
        ex_venue_world_def) (simp add: ex_defs find_order_def is_local_paper_fill_def)
qed

theorem reconcile_trades_idempotent_witness:
  "\<exists>w'. reconcile_trades 10 5 (JList [ex_trade]) ex_venue_world = (w', Inr 1)
     \<and> reconcile_trades 10 9 (JList [ex_trade]) w' = (w', Inr 0)"
proof -
  from ex_reconcile obtain w' where r: "reconcile_trades 10 5 (JList [ex_trade]) ex_venue_world = (w', Inr 1)" ..
  have "ledger_wf (pw_ledger ex_venue_world)" by (simp add: ex_venue_world_def ex_ledger_wf)
  from reconcile_trades_idempotent [OF this r, of 9] r show ?thesis by blast
qed

theorem reconcile_refines_ledger_witness:
  "\<exists>w' res. reconcile_state 10 5 (JList []) (JList [ex_trade]) ex_venue_world = (w', res)
     \<and> ledger_wf (pw_ledger w') \<and> book_wf (pw_book w')"
proof -
  obtain w' res where r: "reconcile_state 10 5 (JList []) (JList [ex_trade]) ex_venue_world = (w', res)"
    by (cases "reconcile_state 10 5 (JList []) (JList [ex_trade]) ex_venue_world")
  have "ledger_wf (pw_ledger ex_venue_world)" "book_wf (pw_book ex_venue_world)"
    by (simp_all add: ex_venue_world_def ex_ledger_wf ex_book_wf)
  with reconcile_refines_ledger [OF r] r show ?thesis by blast
qed

end
