(* ===== verification/Durable.thy ===== *)
theory Durable
  imports Portfolio Ledger Circuit_Breaker
begin

text \<open>
  Durable state: the atomic writer, the appender and the strict reader (\<open>_fs.py\<close>), the ledger
  store (\<open>execution/ledger_store.py\<close>), the portfolio checkpoint (\<open>checkpoint.py\<close>) and the health
  record that gates new risk (\<open>health.py\<close>).

  The disk is what a host crash can leave. Contents are unsynced until \<open>fsync\<close>: after a crash
  an unsynced file holds what was synced of it followed by anything. A directory keeps the versions
  since it was last synced, and a crash can leave any of them. The JSON codec is a parameter.
\<close>

section \<open>The disk\<close>

record disk =
  dk_versions :: "(string \<Rightarrow> nat option) list"
  dk_data :: "nat \<Rightarrow> string"
  dk_kept :: "nat \<Rightarrow> nat"
  dk_synced :: "nat \<Rightarrow> bool"
  dk_next :: nat

definition entries :: "disk \<Rightarrow> string \<Rightarrow> nat option" where
  "entries d = last (dk_versions d)"

text \<open>What a running process reads.\<close>

definition content :: "disk \<Rightarrow> string \<Rightarrow> string option" where
  "content d p = map_option (dk_data d) (entries d p)"

text \<open>What a crash may leave in a file, and at a path.\<close>

definition inode_after_crash :: "disk \<Rightarrow> nat \<Rightarrow> string \<Rightarrow> bool" where
  "inode_after_crash d i s \<longleftrightarrow>
     (if dk_synced d i then s = dk_data d i else take (dk_kept d i) s = take (dk_kept d i) (dk_data d i))"

definition after_crash :: "disk \<Rightarrow> string \<Rightarrow> string option \<Rightarrow> bool" where
  "after_crash d p c \<longleftrightarrow>
     list_ex (\<lambda>v. case v p of None \<Rightarrow> c = None
                  | Some i \<Rightarrow> (case c of None \<Rightarrow> False | Some s \<Rightarrow> inode_after_crash d i s)) (dk_versions d)"

text \<open>The system calls the writers make. A directory sync may fail, which the code ignores.\<close>

datatype fs_op =
    OpenTruncate string
  | OpenAppend string
  | WriteText string string
  | Fsync string
  | OsReplace string string
  | FsyncDirectory bool

definition create_entry :: "string \<Rightarrow> disk \<Rightarrow> disk" where
  "create_entry p d =
     d\<lparr>dk_versions := dk_versions d @ [(entries d)(p := Some (dk_next d))],
       dk_data := (dk_data d)(dk_next d := ''''), dk_kept := (dk_kept d)(dk_next d := 0),
       dk_synced := (dk_synced d)(dk_next d := False), dk_next := dk_next d + 1\<rparr>"

definition fsync_directory :: "bool \<Rightarrow> disk \<Rightarrow> disk" where
  "fsync_directory ok d = (if ok then d\<lparr>dk_versions := [entries d]\<rparr> else d)"

fun fs_step :: "disk \<Rightarrow> fs_op \<Rightarrow> disk" where
  "fs_step d (OpenTruncate p) =
     (case entries d p of
        None \<Rightarrow> create_entry p d
      | Some i \<Rightarrow> d\<lparr>dk_data := (dk_data d)(i := ''''), dk_kept := (dk_kept d)(i := 0),
                    dk_synced := (dk_synced d)(i := False)\<rparr>)"
| "fs_step d (OpenAppend p) = (case entries d p of None \<Rightarrow> create_entry p d | Some i \<Rightarrow> d)"
| "fs_step d (WriteText p s) =
     (case entries d p of
        None \<Rightarrow> d
      | Some i \<Rightarrow> d\<lparr>dk_data := (dk_data d)(i := dk_data d i @ s), dk_synced := (dk_synced d)(i := False)\<rparr>)"
| "fs_step d (Fsync p) =
     (case entries d p of
        None \<Rightarrow> d
      | Some i \<Rightarrow> d\<lparr>dk_kept := (dk_kept d)(i := length (dk_data d i)), dk_synced := (dk_synced d)(i := True)\<rparr>)"
| "fs_step d (OsReplace p q) =
     d\<lparr>dk_versions := dk_versions d @ [(entries d)(q := entries d p, p := None)]\<rparr>"
| "fs_step d (FsyncDirectory ok) = fsync_directory ok d"

definition run_fs :: "fs_op list \<Rightarrow> disk \<Rightarrow> disk" where
  "run_fs ops d = foldl fs_step d ops"

section \<open>Writers and reader\<close>

definition temporary :: "string \<Rightarrow> string" where
  "temporary path = path @ ''.tmp''"

text \<open>\<open>sync_ok\<close>: whether the directory sync succeeds.\<close>

definition write_atomic :: "string \<Rightarrow> string \<Rightarrow> bool \<Rightarrow> fs_op list" where
  "write_atomic path payload sync_ok =
     [OpenTruncate (temporary path), WriteText (temporary path) payload, Fsync (temporary path),
      OsReplace (temporary path) path, FsyncDirectory sync_ok]"

definition newline :: string where
  "newline = [char_of (10 :: nat)]"

definition append_jsonl :: "string \<Rightarrow> string \<Rightarrow> bool \<Rightarrow> disk \<Rightarrow> fs_op list" where
  "append_jsonl path line sync_ok d =
     (let created = (entries d path = None);
          line = (if endswith line newline then line else line @ newline)
      in [OpenAppend path, WriteText path line, Fsync path] @ (if created then [FsyncDirectory sync_ok] else []))"

datatype durable_error = DurableEmpty string | DurableUnparsable string | DurableBook portfolio_error

definition read_text_strict :: "string option \<Rightarrow> string \<Rightarrow> durable_error + string option" where
  "read_text_strict file what =
     (case file of
        None \<Rightarrow> Inr None
      | Some payload \<Rightarrow> if strip payload = [] then Inl (DurableEmpty what) else Inr (Some payload))"

section \<open>Ledger store and checkpoint\<close>

definition ledger_payload :: "(execution_ledger \<Rightarrow> string) \<Rightarrow> execution_ledger \<Rightarrow> string" where
  "ledger_payload enc L = enc (ledger_state L)"

definition ledger_save :: "(execution_ledger \<Rightarrow> string) \<Rightarrow> string \<Rightarrow> execution_ledger \<Rightarrow> bool \<Rightarrow> fs_op list" where
  "ledger_save enc path L sync_ok = write_atomic path (ledger_payload enc L) sync_ok"

definition ledger_load ::
    "(string \<Rightarrow> execution_ledger option) \<Rightarrow> string option \<Rightarrow> durable_error + execution_ledger option" where
  "ledger_load dec file =
     (case read_text_strict file ''execution ledger'' of
        Inl e \<Rightarrow> Inl e
      | Inr None \<Rightarrow> Inr None
      | Inr (Some payload) \<Rightarrow>
          (case dec payload of
             None \<Rightarrow> Inl (DurableUnparsable ''execution ledger'')
           | Some S \<Rightarrow> Inr (Some (ledger_from_state S))))"

type_synonym checkpoint_doc = "portfolio_state \<times> breaker_state dict"

text \<open>A store without a breaker writes the empty mapping and leaves the loaded one alone.\<close>

definition checkpoint_payload ::
    "(checkpoint_doc \<Rightarrow> string) \<Rightarrow> circuit_breaker option \<Rightarrow> book \<Rightarrow> string" where
  "checkpoint_payload enc cb b =
     enc (book_state b, case cb of None \<Rightarrow> [] | Some c \<Rightarrow> breaker_export c)"

definition checkpoint_save ::
    "(checkpoint_doc \<Rightarrow> string) \<Rightarrow> string \<Rightarrow> circuit_breaker option \<Rightarrow> book \<Rightarrow> bool \<Rightarrow> fs_op list" where
  "checkpoint_save enc path cb b sync_ok = write_atomic path (checkpoint_payload enc cb b) sync_ok"

definition checkpoint_load ::
    "(string \<Rightarrow> checkpoint_doc option) \<Rightarrow> string option \<Rightarrow> circuit_breaker option
       \<Rightarrow> circuit_breaker option \<times> (durable_error + book option)" where
  "checkpoint_load dec file cb =
     (case read_text_strict file ''portfolio checkpoint'' of
        Inl e \<Rightarrow> (cb, Inl e)
      | Inr None \<Rightarrow> (cb, Inr None)
      | Inr (Some payload) \<Rightarrow>
          (case dec payload of
             None \<Rightarrow> (cb, Inl (DurableUnparsable ''portfolio checkpoint''))
           | Some (st, breakers) \<Rightarrow>
               (map_option (breaker_load breakers) cb,
                case book_from_state st of Inl e \<Rightarrow> Inl (DurableBook e) | Inr b \<Rightarrow> Inr (Some b))))"

section \<open>Health\<close>

record runtime_health =
  rh_max_consecutive_errors :: int
  rh_consecutive_errors :: int
  rh_last_success_at :: "datetime option"
  rh_last_error_at :: "datetime option"
  rh_last_error :: "string option"
  rh_symbol_success_at :: "datetime dict"
  rh_reconciliation_blocked :: bool
  rh_last_reconciliation_at :: "datetime option"
  rh_last_reconciliation_error :: "string option"
  rh_durable_state_error :: "string option"

definition new_health :: "int \<Rightarrow> runtime_health" where
  "new_health limit =
     \<lparr>rh_max_consecutive_errors = limit, rh_consecutive_errors = 0, rh_last_success_at = None,
      rh_last_error_at = None, rh_last_error = None, rh_symbol_success_at = [],
      rh_reconciliation_blocked = False, rh_last_reconciliation_at = None,
      rh_last_reconciliation_error = None, rh_durable_state_error = None\<rparr>"

definition healthy :: "runtime_health \<Rightarrow> bool" where
  "healthy h \<longleftrightarrow> rh_durable_state_error h = None \<and> rh_consecutive_errors h < rh_max_consecutive_errors h"

definition record_reconciliation_success :: "datetime \<Rightarrow> runtime_health \<Rightarrow> runtime_health" where
  "record_reconciliation_success now h =
     (let h1 = h\<lparr>rh_last_reconciliation_at := Some now\<rparr>
      in if rh_durable_state_error h \<noteq> None then h1
         else h1\<lparr>rh_reconciliation_blocked := False, rh_last_reconciliation_error := None\<rparr>)"

definition record_durable_state_failure :: "string \<Rightarrow> runtime_health \<Rightarrow> runtime_health" where
  "record_durable_state_failure reason h =
     h\<lparr>rh_durable_state_error := Some reason, rh_last_error := Some reason, rh_reconciliation_blocked := True\<rparr>"

definition record_reconciliation_failure :: "string \<Rightarrow> runtime_health \<Rightarrow> runtime_health" where
  "record_reconciliation_failure reason h =
     h\<lparr>rh_reconciliation_blocked := True, rh_last_reconciliation_error := Some reason\<rparr>"

definition record_success :: "datetime \<Rightarrow> string \<Rightarrow> runtime_health \<Rightarrow> runtime_health" where
  "record_success now symbol h =
     h\<lparr>rh_consecutive_errors := 0, rh_last_success_at := Some now,
       rh_symbol_success_at := dict_set symbol now (rh_symbol_success_at h)\<rparr>"

definition record_error :: "datetime \<Rightarrow> string \<Rightarrow> runtime_health \<Rightarrow> runtime_health" where
  "record_error now err h =
     h\<lparr>rh_consecutive_errors := rh_consecutive_errors h + 1, rh_last_error_at := Some now,
       rh_last_error := Some err\<rparr>"

section \<open>What survives a crash\<close>

text \<open>
  \<open>durable_in d p C\<close>: whatever directory version a crash leaves, the file at \<open>p\<close> is synced and its
  content (or absence) is in \<open>C\<close>. \<open>disk_ok d p\<close>: the inodes of \<open>p\<close> are allocated and not the
  temporary file's.
\<close>

definition durable_in :: "disk \<Rightarrow> string \<Rightarrow> string option set \<Rightarrow> bool" where
  "durable_in d p C \<longleftrightarrow>
     list_all (\<lambda>v. case v p of None \<Rightarrow> None \<in> C | Some i \<Rightarrow> dk_synced d i \<and> Some (dk_data d i) \<in> C) (dk_versions d)"

definition apart :: "disk \<Rightarrow> string \<Rightarrow> nat \<Rightarrow> bool" where
  "apart d p i \<longleftrightarrow> list_all (\<lambda>v. v p \<noteq> Some i) (dk_versions d)"

definition allocated :: "disk \<Rightarrow> string \<Rightarrow> bool" where
  "allocated d p \<longleftrightarrow> dk_versions d \<noteq> [] \<and> list_all (\<lambda>v. \<forall>i. v p = Some i \<longrightarrow> i < dk_next d) (dk_versions d)"

definition disk_ok :: "disk \<Rightarrow> string \<Rightarrow> bool" where
  "disk_ok d p \<longleftrightarrow> allocated d p
     \<and> (case entries d (temporary p) of None \<Rightarrow> True | Some i \<Rightarrow> i < dk_next d \<and> apart d p i)"

lemma temporary_neq [simp]: "temporary p \<noteq> p" "p \<noteq> temporary p"
  by (simp_all add: temporary_def)

lemma entries_in: "dk_versions d \<noteq> [] \<Longrightarrow> entries d \<in> set (dk_versions d)"
  by (simp add: entries_def)

lemma durable_crash: "durable_in d p C \<Longrightarrow> after_crash d p c \<Longrightarrow> c \<in> C"
  by (fastforce simp: durable_in_def after_crash_def list_all_iff list_ex_iff inode_after_crash_def
      split: option.splits)

text \<open>Writing to an inode apart from the path leaves the path as durable as it was.\<close>

lemma durable_other:
  assumes "durable_in d p C" "apart d p i" "dk_versions d' = dk_versions d"
    and "\<And>j. j \<noteq> i \<Longrightarrow> dk_data d' j = dk_data d j \<and> dk_synced d' j = dk_synced d j"
  shows "durable_in d' p C"
proof -
  have "case v p of None \<Rightarrow> None \<in> C | Some j \<Rightarrow> dk_synced d' j \<and> Some (dk_data d' j) \<in> C"
    if v: "v \<in> set (dk_versions d)" for v
  proof (cases "v p")
    case (Some j)
    with v assms(2) have "j \<noteq> i" by (auto simp: apart_def list_all_iff)
    with Some v assms(1) assms(4) [of j] show ?thesis by (auto simp: durable_in_def list_all_iff)
  qed (use v assms(1) in \<open>auto simp: durable_in_def list_all_iff\<close>)
  with assms(3) show ?thesis by (simp add: durable_in_def list_all_iff)
qed

definition staged :: "disk \<Rightarrow> string \<Rightarrow> string option set \<Rightarrow> nat \<Rightarrow> bool" where
  "staged d p C i \<longleftrightarrow> durable_in d p C \<and> allocated d p \<and> entries d (temporary p) = Some i
     \<and> i < dk_next d \<and> apart d p i"

lemma create_durable:
  assumes "allocated d p" "durable_in d p C" "q \<noteq> p"
  shows "durable_in (create_entry q d) p C" "allocated (create_entry q d) p" "apart (create_entry q d) p (dk_next d)"
proof -
  let ?d = "create_entry q d"
  have v: "dk_versions ?d = dk_versions d @ [(entries d)(q := Some (dk_next d))]"
    by (simp add: create_entry_def)
  have bound: "\<And>v i. v \<in> set (dk_versions d) \<Longrightarrow> v p = Some i \<Longrightarrow> i < dk_next d" and ne: "dk_versions d \<noteq> []"
    using assms(1) by (auto simp: allocated_def list_all_iff)
  have "case w p of None \<Rightarrow> None \<in> C | Some j \<Rightarrow> dk_synced ?d j \<and> Some (dk_data ?d j) \<in> C"
    if w: "w \<in> set (dk_versions d)" for w
    using assms(2) w bound [OF w] by (fastforce simp: durable_in_def list_all_iff create_entry_def split: option.splits)
  with entries_in [OF ne] assms(3) show "durable_in ?d p C" by (auto simp: durable_in_def list_all_iff v)
  show "allocated ?d p"
    using bound bound [OF entries_in [OF ne]] assms(3)
    by (fastforce simp: allocated_def list_all_iff v create_entry_def)
  show "apart ?d p (dk_next d)"
    using bound bound [OF entries_in [OF ne]] assms(3) by (fastforce simp: apart_def list_all_iff v)
qed

lemma stage_open:
  assumes "disk_ok d p" "durable_in d p C"
  shows "\<exists>i. staged (fs_step d (OpenTruncate (temporary p))) p C i
    \<and> dk_data (fs_step d (OpenTruncate (temporary p))) i = ''''"
proof (cases "entries d (temporary p)")
  case None
  have al: "allocated d p" using assms(1) by (simp add: disk_ok_def)
  show ?thesis
    using create_durable [OF al assms(2) temporary_neq(1)]
    by (intro exI [of _ "dk_next d"]) (simp add: None staged_def, simp add: create_entry_def entries_def)
next
  case (Some i)
  let ?d = "fs_step d (OpenTruncate (temporary p))"
  have ap: "apart d p i" "i < dk_next d" using assms(1) Some by (auto simp: disk_ok_def)
  have "durable_in ?d p C" by (rule durable_other [OF assms(2) ap(1)]) (simp_all add: Some)
  with Some ap assms(1) show ?thesis
    by (intro exI [of _ i]) (simp add: staged_def disk_ok_def apart_def entries_def allocated_def)
qed

lemma stage_inode:
  assumes "staged d p C i" "dk_versions d' = dk_versions d" "dk_next d' = dk_next d"
    and "\<And>j. j \<noteq> i \<Longrightarrow> dk_data d' j = dk_data d j \<and> dk_synced d' j = dk_synced d j"
  shows "staged d' p C i"
  using assms(1-3) durable_other [of d p C i d'] assms(4) by (auto simp: staged_def apart_def entries_def allocated_def)

lemma stage_replace:
  assumes "staged d p C i" "dk_synced d i" "dk_data d i = s"
  shows "durable_in (fs_step d (OsReplace (temporary p) p)) p (insert (Some s) C)"
    and "disk_ok (fs_step d (OsReplace (temporary p) p)) p"
    and "content (fs_step d (OsReplace (temporary p) p)) p = Some s"
proof -
  have e: "entries d (temporary p) = Some i" using assms(1) by (simp add: staged_def)
  show "durable_in (fs_step d (OsReplace (temporary p) p)) p (insert (Some s) C)"
    using assms e by (auto simp: durable_in_def staged_def list_all_iff split: option.splits)
  show "disk_ok (fs_step d (OsReplace (temporary p) p)) p"
    using assms(1) e by (auto simp: disk_ok_def staged_def allocated_def list_all_iff entries_def)
  show "content (fs_step d (OsReplace (temporary p) p)) p = Some s"
    using assms(3) e by (simp add: content_def entries_def)
qed

lemma fsync_dir:
  assumes "durable_in d p C" "disk_ok d p" "content d p = Some s"
  shows "durable_in (fs_step d (FsyncDirectory ok)) p (if ok then {Some s} else C)"
    and "disk_ok (fs_step d (FsyncDirectory ok)) p" "content (fs_step d (FsyncDirectory ok)) p = Some s"
proof -
  have ne: "entries d \<in> set (dk_versions d)" using assms(2) by (simp add: disk_ok_def allocated_def entries_in)
  show "durable_in (fs_step d (FsyncDirectory ok)) p (if ok then {Some s} else C)"
    using assms(1,3) ne by (auto simp: fsync_directory_def durable_in_def list_all_iff content_def split: option.splits)
  show "disk_ok (fs_step d (FsyncDirectory ok)) p"
    using assms(2) ne by (auto simp: fsync_directory_def disk_ok_def allocated_def list_all_iff apart_def
        entries_def [of "d\<lparr>dk_versions := [x]\<rparr>" for x] split: option.splits)
  show "content (fs_step d (FsyncDirectory ok)) p = Some s"
    using assms(3) by (auto simp: fsync_directory_def content_def entries_def)
qed

lemma durable_mono: "durable_in d p C \<Longrightarrow> C \<subseteq> C' \<Longrightarrow> durable_in d p C'"
  by (auto simp: durable_in_def list_all_iff split: option.splits)

text \<open>Every prefix of an atomic write, and the whole of it.\<close>

lemma write_prefix:
  assumes "disk_ok d p" "durable_in d p C"
  shows "durable_in (run_fs (take k (write_atomic p s ok)) d) p (insert (Some s) C)"
    and "durable_in (run_fs (write_atomic p s ok) d) p (if ok then {Some s} else insert (Some s) C)"
    and "disk_ok (run_fs (write_atomic p s ok) d) p" "content (run_fs (write_atomic p s ok) d) p = Some s"
proof -
  define d1 where "d1 = fs_step d (OpenTruncate (temporary p))"
  define d2 where "d2 = fs_step d1 (WriteText (temporary p) s)"
  define d3 where "d3 = fs_step d2 (Fsync (temporary p))"
  define d4 where "d4 = fs_step d3 (OsReplace (temporary p) p)"
  define d5 where "d5 = fs_step d4 (FsyncDirectory ok)"
  obtain i where s1: "staged d1 p C i" "dk_data d1 i = ''''"
    using stage_open [OF assms] by (auto simp: d1_def)
  then have e1: "entries d1 (temporary p) = Some i" by (simp add: staged_def)
  have s2: "staged d2 p C i" "dk_data d2 i = s"
    using s1 e1 by (auto simp: d2_def intro: stage_inode)
  then have e2: "entries d2 (temporary p) = Some i" by (simp add: staged_def)
  have s3: "staged d3 p C i" "dk_data d3 i = s" "dk_synced d3 i"
    using s2 e2 by (auto simp: d3_def intro: stage_inode)
  note s4 = stage_replace [OF s3(1,3,2), folded d4_def]
  note s5 = fsync_dir [OF s4, of ok, folded d5_def]
  have "durable_in (run_fs (take k (write_atomic p s ok)) d) p (insert (Some s) C)"
  proof -
    consider "k = 0" | "k = 1" | "k = 2" | "k = 3" | "k = 4" | "5 \<le> k" by linarith
    then show ?thesis
    proof cases
      case 6
      then have "run_fs (take k (write_atomic p s ok)) d = d5"
        by (simp add: write_atomic_def run_fs_def d1_def d2_def d3_def d4_def d5_def)
      with s5(1) show ?thesis by (cases ok) (auto intro: durable_mono)
    qed (use s1 s2 s3 s4 assms(2) in \<open>auto simp: write_atomic_def run_fs_def numeral_eq_Suc staged_def
        d1_def d2_def d3_def d4_def intro: durable_mono [OF _ subset_insertI]\<close>)
  qed
  moreover have "run_fs (write_atomic p s ok) d = d5"
    by (simp add: write_atomic_def run_fs_def d1_def d2_def d3_def d4_def d5_def)
  ultimately show "durable_in (run_fs (take k (write_atomic p s ok)) d) p (insert (Some s) C)"
    "durable_in (run_fs (write_atomic p s ok) d) p (if ok then {Some s} else insert (Some s) C)"
    "disk_ok (run_fs (write_atomic p s ok) d) p" "content (run_fs (write_atomic p s ok) d) p = Some s"
    using s5 by simp_all
qed

text \<open>Appending a line never loses what was synced before it.\<close>

lemma append_crash:
  assumes "entries d p = Some i" "dk_versions d = [entries d]" "dk_synced d i" "dk_kept d i = length (dk_data d i)"
    and "after_crash (run_fs (take k (append_jsonl p line ok d)) d) p c"
  shows "\<exists>rest. c = Some (dk_data d i @ rest)"
proof -
  define l where "l = (if endswith line newline then line else line @ newline)"
  have ops: "append_jsonl p line ok d = [OpenAppend p, WriteText p l, Fsync p]"
    using assms(1) by (simp add: append_jsonl_def l_def Let_def)
  define d2 where "d2 = fs_step d (WriteText p l)"
  define d3 where "d3 = fs_step d2 (Fsync p)"
  have open_d: "fs_step d (OpenAppend p) = d" using assms(1) by simp
  have v: "dk_versions d2 = [entries d]" "dk_versions d3 = [entries d]" "entries d2 = entries d"
  proof -
    have u: "dk_versions d2 = dk_versions d" using assms(1) by (simp add: d2_def)
    then show e: "entries d2 = entries d" by (simp add: entries_def)
    with assms(1) have "dk_versions d3 = dk_versions d2" by (simp add: d3_def)
    with u assms(2) show "dk_versions d2 = [entries d]" "dk_versions d3 = [entries d]" by (simp_all only:)
  qed
  have d2: "dk_kept d2 i = length (dk_data d i)" "dk_data d2 i = dk_data d i @ l" "\<not> dk_synced d2 i"
    using assms(1,4) by (simp_all add: d2_def)
  have d3: "dk_data d3 i = dk_data d i @ l" "dk_synced d3 i"
    using assms(1) d2 v(3) by (simp_all add: d3_def)
  have i: "\<exists>rest. s = dk_data d i @ rest" if s: "inode_after_crash e i s" "e \<in> {d, d2, d3}" for e s
  proof -
    consider "e = d" | "e = d2" | "e = d3" using s(2) by blast
    then have "take (length (dk_data d i)) s = dk_data d i"
    proof cases
      case 1
      with s(1) assms(3) show ?thesis by (simp add: inode_after_crash_def)
    next
      case 2
      with s(1) d2 show ?thesis by (simp add: inode_after_crash_def)
    next
      case 3
      with s(1) d3 show ?thesis by (simp add: inode_after_crash_def)
    qed
    then show ?thesis using append_take_drop_id [of "length (dk_data d i)" s] by metis
  qed
  have "run_fs (take k (append_jsonl p line ok d)) d \<in> {d, d2, d3}"
  proof -
    consider "k = 0" | "k = 1" | "k = 2" | "3 \<le> k" by linarith
    then show ?thesis
      by cases (simp_all add: ops run_fs_def open_d d2_def d3_def numeral_eq_Suc del: fs_step.simps)
  qed
  moreover have "dk_versions e = [entries d]" if "e \<in> {d, d2, d3}" for e using that v assms(2) by auto
  ultimately have "\<exists>e \<in> {d, d2, d3}. \<exists>s. c = Some s \<and> inode_after_crash e i s"
    using assms(1,5) by (fastforce simp: after_crash_def split: option.splits)
  with i show ?thesis by blast
qed

section \<open>Properties\<close>

text \<open>
  The atomic writer is crash safe: whichever of its system calls a host crash interrupts,
  the path holds one of its earlier contents or the whole new payload, never a torn or empty one;
  once it has returned, readers see the payload, and a directory sync that succeeded makes the
  payload the only thing a crash can leave.
\<close>

theorem write_atomic_crash_safe:
  assumes "disk_ok d p" "durable_in d p C"
  shows "(\<forall>c. after_crash (run_fs (take k (write_atomic p s ok)) d) p c \<longrightarrow> c \<in> insert (Some s) C)
    \<and> content (run_fs (write_atomic p s ok) d) p = Some s \<and> disk_ok (run_fs (write_atomic p s ok) d) p
    \<and> durable_in (run_fs (write_atomic p s ok) d) p (if ok then {Some s} else insert (Some s) C)"
  using durable_crash [OF write_prefix(1) [OF assms, of k s ok]] write_prefix(2-4) [OF assms, of s ok] by blast

definition blank_disk :: disk where
  "blank_disk = \<lparr>dk_versions = [\<lambda>_. None], dk_data = (\<lambda>_. ''''), dk_kept = (\<lambda>_. 0), dk_synced = (\<lambda>_. False), dk_next = 0\<rparr>"

lemma blank_disk_ok: "disk_ok blank_disk p" "durable_in blank_disk p {None}"
  by (simp_all add: blank_disk_def disk_ok_def allocated_def durable_in_def entries_def)

theorem write_atomic_crash_safe_witness:
  "after_crash (run_fs (take 3 (write_atomic ''led'' ''new'' True)) blank_disk) ''led'' None
   \<and> (\<forall>c. after_crash (run_fs (take 4 (write_atomic ''led'' ''new'' True)) blank_disk) ''led'' c
        \<longrightarrow> c \<in> {Some ''new'', None})"
  using write_atomic_crash_safe [OF blank_disk_ok, of 4 "''led''" "''new''" True]
  by (simp add: write_atomic_def run_fs_def numeral_eq_Suc blank_disk_def create_entry_def after_crash_def
      entries_def temporary_def)

text \<open>
  C24: a crash while the ledger is saved never forgets an order: if the file durably holds one of
  the ledgers in \<open>Ks\<close>, a restart after a crash at any point of the save loads one of those or the
  new ledger, with the same orders and the same set of processed fills. It never finds a missing
  file, which would be taken for a fresh start, nor a torn one.
\<close>

theorem ledger_survives_crash:
  assumes "disk_ok d p" "durable_in d p ((\<lambda>K. Some (ledger_payload enc K)) ` Ks)"
    and "\<And>K. K \<in> insert L Ks \<Longrightarrow> dec (ledger_payload enc K) = Some (ledger_state K)"
    and "\<And>K. K \<in> insert L Ks \<Longrightarrow> strip (ledger_payload enc K) \<noteq> []"
    and "after_crash (run_fs (take k (ledger_save enc p L ok)) d) p c"
  shows "\<exists>K \<in> insert L Ks. \<exists>M. ledger_load dec c = Inr (Some M) \<and> l_orders M = l_orders K
    \<and> set (l_processed_fill_ids M) = set (l_processed_fill_ids K)"
proof -
  have "c \<in> insert (Some (ledger_payload enc L)) ((\<lambda>K. Some (ledger_payload enc K)) ` Ks)"
    by (rule durable_crash [OF write_prefix(1) [OF assms(1,2)] assms(5) [unfolded ledger_save_def]])
  then obtain K where K: "K \<in> insert L Ks" "c = Some (ledger_payload enc K)" by auto
  from assms(3) [OF K(1)] assms(4) [OF K(1)] K(2)
  have "ledger_load dec c = Inr (Some (ledger_from_state (ledger_state K)))"
    by (simp add: ledger_load_def read_text_strict_def)
  with K(1) show ?thesis by (auto simp: ledger_from_state_def ledger_state_def)
qed

definition ex_codec :: "execution_ledger \<Rightarrow> string" where
  "ex_codec K = (if K = empty_ledger then ''e'' else ''o'')"

definition ex_decoder :: "string \<Rightarrow> execution_ledger option" where
  "ex_decoder s = Some (if s = ''e'' then empty_ledger else ex_ledger)"

definition ex_disk :: disk where
  "ex_disk = run_fs (ledger_save ex_codec ''led'' empty_ledger True) blank_disk"

theorem ledger_survives_crash_witness:
  "after_crash (run_fs (take 3 (ledger_save ex_codec ''led'' ex_ledger True)) ex_disk) ''led'' (Some ''e'')
   \<and> (\<exists>K \<in> {ex_ledger, empty_ledger}. \<exists>M. ledger_load ex_decoder (Some ''e'') = Inr (Some M) \<and> l_orders M = l_orders K)"
proof -
  have st: "ledger_state empty_ledger = empty_ledger" "ledger_state ex_ledger = ex_ledger" "ex_ledger \<noteq> empty_ledger"
    by (simp_all add: ledger_state_def empty_ledger_def ex_defs put_order_def)
  then have pay: "ledger_payload ex_codec empty_ledger = ''e''" "ledger_payload ex_codec ex_ledger = ''o''"
    by (simp_all add: ledger_payload_def ex_codec_def)
  have d: "disk_ok ex_disk ''led''" "durable_in ex_disk ''led'' ((\<lambda>K. Some (ledger_payload ex_codec K)) ` {empty_ledger})"
    using write_prefix(2,3) [OF blank_disk_ok, of "''led''" "ledger_payload ex_codec empty_ledger" True]
    by (simp_all add: ex_disk_def ledger_save_def)
  have crash: "after_crash (run_fs (take 3 (ledger_save ex_codec ''led'' ex_ledger True)) ex_disk) ''led'' (Some ''e'')"
    by (simp add: ex_disk_def ledger_save_def pay write_atomic_def run_fs_def numeral_eq_Suc blank_disk_def
        create_entry_def after_crash_def entries_def temporary_def fsync_directory_def inode_after_crash_def)
  have codec: "\<And>K. K \<in> insert ex_ledger {empty_ledger} \<Longrightarrow> ex_decoder (ledger_payload ex_codec K) = Some (ledger_state K)"
    "\<And>K. K \<in> insert ex_ledger {empty_ledger} \<Longrightarrow> strip (ledger_payload ex_codec K) \<noteq> []"
    using st pay by (auto simp: ex_decoder_def) (auto simp: str_eval)
  from ledger_survives_crash [OF d codec crash] crash show ?thesis by blast
qed

text \<open>
  C25: a checkpoint restores the run in another process. Whatever the disk held before and whatever
  breaker the restarted process was built with, loading the saved document gives back the identical
  book and replaces the states of that breaker by the saved ones, keeping its own limits: a strategy
  that was tripped when the run was saved is tripped in the new breaker. A store saved without a
  breaker clears them, and a store loaded without one restores the book alone.
\<close>

theorem checkpoint_round_trip:
  assumes "book_wf b" and "disk_ok d p" and "durable_in d p C"
    and "dec (checkpoint_payload enc saved b) = Some (book_state b, case saved of None \<Rightarrow> [] | Some c \<Rightarrow> breaker_export c)"
    and "strip (checkpoint_payload enc saved b) \<noteq> []"
  shows "checkpoint_load dec (content (run_fs (checkpoint_save enc p saved b ok) d) p) fresh
    = (case fresh of
         None \<Rightarrow> None
       | Some c \<Rightarrow> Some (c\<lparr>cb_states := (case saved of None \<Rightarrow> [] | Some s \<Rightarrow> cb_states s)\<rparr>),
       Inr (Some b))"
proof -
  have "content (run_fs (checkpoint_save enc p saved b ok) d) p = Some (checkpoint_payload enc saved b)"
    using write_prefix(4) [OF assms(2,3)] by (simp add: checkpoint_save_def)
  with assms(1,4,5) show ?thesis
    by (cases fresh; cases saved)
      (simp_all add: checkpoint_load_def read_text_strict_def book_restored breaker_export_def breaker_load_def)
qed

text \<open>A strategy tripped before the restart, and the breaker a new process starts with.\<close>

definition ex_tripped :: breaker_state where
  "ex_tripped = new_breaker_state\<lparr>bs_consecutive_losses := 3, bs_tripped_at := Some 7,
     bs_trip_reason := Some TRIP_CONSECUTIVE_LOSSES\<rparr>"

definition ex_saved_breaker :: circuit_breaker where
  "ex_saved_breaker = \<lparr>cb_max_consecutive_losses = 3, cb_drawdown_window = 20, cb_max_rolling_drawdown_pct = 1,
     cb_cooldown_seconds = 60, cb_states = [(''ema'', ex_tripped)]\<rparr>"

definition ex_fresh_breaker :: circuit_breaker where
  "ex_fresh_breaker = ex_saved_breaker\<lparr>cb_states := []\<rparr>"

theorem checkpoint_round_trip_witness:
  "checkpoint_load (\<lambda>_. Some (book_state ex_book, [(''ema'', ex_tripped)]))
     (content (run_fs (checkpoint_save (\<lambda>_. ''x'') ''ck'' (Some ex_saved_breaker) ex_book True) blank_disk) ''ck'')
     (Some ex_fresh_breaker)
   = (Some ex_saved_breaker, Inr (Some ex_book)) \<and> ex_fresh_breaker \<noteq> ex_saved_breaker"
proof -
  have "checkpoint_load (\<lambda>_. Some (book_state ex_book, [(''ema'', ex_tripped)]))
     (content (run_fs (checkpoint_save (\<lambda>_. ''x'') ''ck'' (Some ex_saved_breaker) ex_book True) blank_disk) ''ck'')
     (Some ex_fresh_breaker)
   = (case Some ex_fresh_breaker of
         None \<Rightarrow> None
       | Some c \<Rightarrow> Some (c\<lparr>cb_states := (case Some ex_saved_breaker of None \<Rightarrow> [] | Some s \<Rightarrow> cb_states s)\<rparr>),
       Inr (Some ex_book))"
    by (rule checkpoint_round_trip [OF ex_book_wf blank_disk_ok])
      (simp_all add: checkpoint_payload_def breaker_export_def ex_saved_breaker_def str_eval)
  then show ?thesis by (simp add: ex_fresh_breaker_def ex_saved_breaker_def)
qed

section \<open>Health\<close>

datatype health_event =
    HReconciled datetime | HUnreconciled string | HSuccess datetime string | HError datetime string | HTorn string

fun health_step :: "runtime_health \<Rightarrow> health_event \<Rightarrow> runtime_health" where
  "health_step h (HReconciled t) = record_reconciliation_success t h"
| "health_step h (HUnreconciled r) = record_reconciliation_failure r h"
| "health_step h (HSuccess t s) = record_success t s h"
| "health_step h (HError t e) = record_error t e h"
| "health_step h (HTorn r) = record_durable_state_failure r h"

lemma torn_step:
  assumes "rh_durable_state_error h \<noteq> None" "rh_reconciliation_blocked h"
  shows "rh_durable_state_error (health_step h ev) \<noteq> None \<and> rh_reconciliation_blocked (health_step h ev)"
  using assms by (cases ev) (simp_all add: record_reconciliation_success_def record_reconciliation_failure_def
      record_success_def record_error_def record_durable_state_failure_def Let_def)

lemma torn_run:
  assumes "rh_durable_state_error h \<noteq> None" "rh_reconciliation_blocked h"
  shows "rh_durable_state_error (foldl health_step h evs) \<noteq> None \<and> rh_reconciliation_blocked (foldl health_step h evs)"
  using assms
proof (induction evs arbitrary: h)
  case (Cons ev evs)
  from Cons.IH torn_step [OF Cons.prems, of ev] show ?case by simp
qed simp

text \<open>
  A torn state file halts for good: once recorded, no later event of any kind, a clean
  reconciliation included, makes the process healthy or lifts the block.
\<close>

theorem torn_state_is_final:
  "\<not> healthy (foldl health_step (record_durable_state_failure reason h) evs)
   \<and> rh_reconciliation_blocked (foldl health_step (record_durable_state_failure reason h) evs)"
  using torn_run [of "record_durable_state_failure reason h" evs]
  by (auto simp: record_durable_state_failure_def healthy_def)

end
