(* ===== verification/Service.thy ===== *)
theory Service
  imports Runtime Paper_Perp Risk_Audit Reconcile Durable
begin

text \<open>
  The continuous paper service (\<open>service.py\<close>): one symbol cycle with everything it books (paper
  fill, hedge, funding, marks, orders, risk audit, checkpoint), reconciliation, and the loop that
  halts when the process is unhealthy. One ledger, book and kill switch are shared, as the command
  line wires them. What the surroundings answer in one cycle is \<open>symbol_inputs\<close>. Logging, metrics,
  the opportunity funnel and the edge collectors only observe and are left out.
\<close>

section \<open>State\<close>

datatype service_event =
    LedgerSaved execution_ledger
  | CheckpointSaved book
  | ResultPublished runtime_result

record service =
  sv_runtime :: runtime
  sv_portfolio :: book
  sv_symbols :: "string list"
  sv_submit :: bool
  sv_ledger :: "execution_ledger option"
  sv_health :: runtime_health
  sv_kill_switch :: "kill_switch option"
  sv_audit :: "(audit_trail \<times> audit_file) option"
  sv_anchors :: "anchor_publisher option"
  sv_settings :: "settings option"
  sv_exec_reconciler :: "real option"
  sv_drift_reconciler :: "(string \<times> string \<times> real) option"
  sv_has_ledger_store :: bool
  sv_has_checkpoint :: bool
  sv_reconcile_interval_seconds :: real
  sv_simulator :: "fill_simulator option"
  sv_perp :: "perp_book option"
  sv_has_perp_feed :: bool
  sv_perp_venue :: "string dict"
  sv_perp_last_funding_at :: "datetime dict"
  sv_diagnostic_mode :: bool
  sv_cycle :: nat
  sv_stopped :: bool
  sv_last_reconcile_at :: "real option"
  sv_venue_trace :: "sub_event list"
  sv_events :: "service_event list"

datatype service_error =
    SE_runtime runtime_error
  | SE_portfolio portfolio_error
  | SE_paper_fill paper_error
  | SE_perp perp_error
  | SE_ledger ledger_error
  | SE_validation
  | SE_audit
  | SE_anchor py_error
  | SE_checkpoint string
  | SE_sink string
  | SE_ledger_store string

text \<open>What a perpetual quote carries of interest.\<close>

record perp_quote =
  qt_venue :: string
  qt_mid_usd :: real
  qt_observed_at :: datetime

record symbol_inputs =
  si_cycle :: cycle_inputs
  si_kill_probe :: redis_probe
  si_ks_env :: ks_env
  si_now :: datetime
  si_hedge_mid :: "string + perp_quote option"
  si_funding :: "string \<Rightarrow> datetime \<Rightarrow> string + (datetime \<times> real) list"
  si_funding_mid :: "string + perp_quote option"
  si_diag_mid :: "string + perp_quote option"
  si_diag_funding :: "string \<Rightarrow> string + (datetime \<times> real) list"
  si_ledger_save :: "string option"
  si_checkpoint :: "string option"
  si_sink :: "string option"

text \<open>The functions the model does not interpret.\<close>

record service_env =
  se_digests :: digests
  se_render_shadow :: "shadow_reason \<Rightarrow> string"
  se_render_fill :: "paper_fill_reason \<Rightarrow> string"
  se_audit_sha :: "audit_body \<Rightarrow> string"
  se_limits_digest :: "json dict \<Rightarrow> string"

section \<open>Sequencing\<close>

type_synonym 'a act = "service \<Rightarrow> service \<times> (service_error + 'a)"

definition and_then :: "'a act \<Rightarrow> ('a \<Rightarrow> 'b act) \<Rightarrow> 'b act" where
  "and_then m f s = (case m s of (s', Inl e) \<Rightarrow> (s', Inl e) | (s', Inr a) \<Rightarrow> f a s')"

definition finish :: "'a \<Rightarrow> 'a act" where
  "finish a s = (s, Inr a)"

definition update_service :: "(service \<Rightarrow> service) \<Rightarrow> unit act" where
  "update_service f s = (f s, Inr ())"

definition log_event :: "service_event \<Rightarrow> service \<Rightarrow> service" where
  "log_event ev s = s\<lparr>sv_events := sv_events s @ [ev]\<rparr>"

section \<open>Gates\<close>

definition submission_enabled :: "service \<Rightarrow> bool" where
  "submission_enabled s \<longleftrightarrow> sv_submit s \<and> \<not> rh_reconciliation_blocked (sv_health s)
     \<and> rh_durable_state_error (sv_health s) = None \<and> \<not> sv_diagnostic_mode s"

definition paper_fill_enabled :: "service \<Rightarrow> bool" where
  "paper_fill_enabled s \<longleftrightarrow> sv_simulator s \<noteq> None \<and> sv_ledger s \<noteq> None
     \<and> \<not> rh_reconciliation_blocked (sv_health s) \<and> rh_durable_state_error (sv_health s) = None
     \<and> \<not> sv_diagnostic_mode s"

definition service_halted :: "ks_env \<Rightarrow> service \<Rightarrow> bool" where
  "service_halted e s = (case sv_kill_switch s of None \<Rightarrow> False | Some k \<Rightarrow> engaged e k)"

text \<open>The switch is one object, which the risk engine and the hedge book hold too.\<close>

definition share_kill_switch :: "kill_switch \<Rightarrow> service \<Rightarrow> service" where
  "share_kill_switch k s =
     (let R = sv_runtime s; P = rt_pipeline R
      in s\<lparr>sv_kill_switch := Some k,
           sv_runtime := R\<lparr>rt_pipeline := P\<lparr>pp_risk_engine := (pp_risk_engine P)\<lparr>re_kill_switch := Some k\<rparr>\<rparr>\<rparr>,
           sv_perp := map_option (\<lambda>b. b\<lparr>pb_kill_switch := Some k\<rparr>) (sv_perp s)\<rparr>)"

definition refresh_kill_switch :: "symbol_inputs \<Rightarrow> service \<Rightarrow> service" where
  "refresh_kill_switch ins s =
     (case sv_kill_switch s of
        None \<Rightarrow> s
      | Some k \<Rightarrow> share_kill_switch (fst (refresh (si_now ins) (si_kill_probe ins) (si_ks_env ins) k)) s)"

section \<open>Parts of a symbol cycle\<close>

definition take_snapshot :: "datetime \<Rightarrow> portfolio_snapshot act" where
  "take_snapshot now s =
     (case snapshot now (sv_portfolio s) of
        (b, Inl e) \<Rightarrow> (s\<lparr>sv_portfolio := b\<rparr>, Inl (SE_portfolio e))
      | (b, Inr pf) \<Rightarrow> (s\<lparr>sv_portfolio := b\<rparr>, Inr pf))"

text \<open>The submitter works on the shared ledger; without one it keeps its own, empty here.\<close>

definition run_runtime :: "service_env \<Rightarrow> symbol_inputs \<Rightarrow> string \<Rightarrow> portfolio_snapshot \<Rightarrow> runtime_result act" where
  "run_runtime V ins symbol pf s =
     (case run_once (se_digests V) (se_render_shadow V) (si_cycle ins) symbol pf (submission_enabled s)
             (sv_runtime s, \<lparr>w_ledger = opt_or (sv_ledger s) empty_ledger, w_trace = sv_venue_trace s\<rparr>) of
        ((R, w), r) \<Rightarrow>
          (s\<lparr>sv_runtime := R, sv_ledger := map_option (\<lambda>_. w_ledger w) (sv_ledger s), sv_venue_trace := w_trace w\<rparr>,
           case r of Inl e \<Rightarrow> Inl (SE_runtime e) | Inr res \<Rightarrow> Inr res))"

definition stamped :: "exec_status \<Rightarrow> string option \<Rightarrow> runtime_result \<Rightarrow> runtime_result" where
  "stamped st why r = r\<lparr>rn_execution_status := Some st, rn_execution_reason := why\<rparr>"

text \<open>\<open>err\<close>: the write raises.\<close>

definition save_ledger :: "string option \<Rightarrow> unit act" where
  "save_ledger err s =
     (case sv_ledger s of
        None \<Rightarrow> (s, Inr ())
      | Some L \<Rightarrow>
          if \<not> sv_has_ledger_store s then (s, Inr ())
          else case err of Some e \<Rightarrow> (s, Inl (SE_ledger_store e)) | None \<Rightarrow> (log_event (LedgerSaved L) s, Inr ()))"

text \<open>One hedge request on the shared ledger, with the venue it was quoted at.\<close>

definition hedge_with :: "ks_env \<Rightarrow> datetime \<Rightarrow> execution_fill \<Rightarrow> perp_quote option \<Rightarrow> string \<Rightarrow> unit act" where
  "hedge_with e now f quote decision_id s =
     (case sv_perp s of
        None \<Rightarrow> (s, Inr ())
      | Some b \<Rightarrow>
          (case maybe_hedge_spot_fill e now f (map_option qt_mid_usd quote) decision_id (b, sv_ledger s) of
             ((b', L'), r) \<Rightarrow>
               (let s1 = s\<lparr>sv_perp := Some b', sv_ledger := L'\<rparr>
                in case r of
                     Inl err \<Rightarrow> (s1, Inl (SE_perp err))
                   | Inr out \<Rightarrow>
                       (case quote of
                          Some q \<Rightarrow>
                            if perp_applied out
                            then (s1\<lparr>sv_perp_venue := dict_set (upper (f_asset f)) (qt_venue q) (sv_perp_venue s1),
                                     sv_perp_last_funding_at :=
                                       dict_set (upper (f_asset f)) (qt_observed_at q) (sv_perp_last_funding_at s1)\<rparr>,
                                  Inr ())
                            else (s1, Inr ())
                        | None \<Rightarrow> (s1, Inr ())))))"

definition quote_or_none :: "string + perp_quote option \<Rightarrow> perp_quote option" where
  "quote_or_none q = (case q of Inl e \<Rightarrow> None | Inr x \<Rightarrow> x)"

definition maybe_hedge_paper_perp :: "symbol_inputs \<Rightarrow> execution_fill \<Rightarrow> string \<Rightarrow> unit act" where
  "maybe_hedge_paper_perp ins f decision_id s =
     hedge_with (si_ks_env ins) (si_now ins) f
       (if sv_has_perp_feed s then quote_or_none (si_hedge_mid ins) else None) decision_id s"

definition withheld_reason :: "service \<Rightarrow> string" where
  "withheld_reason s =
     (case rh_durable_state_error (sv_health s) of
        Some e \<Rightarrow> ''paper fill withheld: '' @ e
      | None \<Rightarrow> if rh_reconciliation_blocked (sv_health s) then ''paper fill withheld: reconciliation blocked''
                else ''paper fill withheld: unreconciled or torn durable state'')"

definition book_paper_fill ::
    "service_env \<Rightarrow> symbol_inputs \<Rightarrow> fill_simulator \<Rightarrow> paper_order_intent \<Rightarrow> runtime_result \<Rightarrow> execution_ledger \<Rightarrow> runtime_result act" where
  "book_paper_fill V ins P i r L s =
     (case simulate_fill (dg_h10 (se_digests V)) (dg_h16 (se_digests V)) P (si_now ins) i (tick_mid (rn_tick r))
             \<lparr>pw_ledger = L, pw_book = sv_portfolio s\<rparr> of
        (w, x) \<Rightarrow>
          (let s1 = s\<lparr>sv_ledger := Some (pw_ledger w), sv_portfolio := pw_book w\<rparr>
           in case x of
                Inl e \<Rightarrow> (s1, Inl (SE_paper_fill e))
              | Inr out \<Rightarrow>
                  and_then (save_ledger (si_ledger_save ins)) (\<lambda>_.
                  and_then
                    (case po_fill out of
                       Some f \<Rightarrow> if po_status out = PF_FILLED then maybe_hedge_paper_perp ins f (in_decision_id i) else finish ()
                     | None \<Rightarrow> finish ())
                    (\<lambda>_. finish (stamped (ES_paper_fill (po_status out)) (map_option (se_render_fill V) (po_reason out)) r)))
                    s1))"

definition maybe_apply_paper_fill :: "service_env \<Rightarrow> symbol_inputs \<Rightarrow> runtime_result \<Rightarrow> runtime_result act" where
  "maybe_apply_paper_fill V ins r s =
     (case pr_paper_order (rn_pipeline r) of
        None \<Rightarrow> (s, Inr r)
      | Some i \<Rightarrow>
          if rn_trading_mode r \<noteq> ''paper'' then (s, Inr r)
          else if sv_diagnostic_mode s
          then (s, Inr (stamped ES_diagnostic_withheld
                 (Some (if service_halted (si_ks_env ins) s then ''kill switch engaged; diagnostic mode also withholds''
                        else ''diagnostic mode: paper fill withheld; upstream controls allowed this order'')) r))
          else case sv_simulator s of
                 None \<Rightarrow> (s, Inr r)
               | Some P \<Rightarrow>
                   if service_halted (si_ks_env ins) s
                   then (s, Inr (stamped (ES_paper_fill PF_WITHHELD) (Some ''kill switch engaged; paper fill withheld'') r))
                   else case sv_ledger s of
                          None \<Rightarrow> (s, Inr (stamped (ES_paper_fill PF_WITHHELD) (Some (withheld_reason s)) r))
                        | Some L \<Rightarrow>
                            if \<not> paper_fill_enabled s
                            then (s, Inr (stamped (ES_paper_fill PF_WITHHELD) (Some (withheld_reason s)) r))
                            else book_paper_fill V ins P i r L s)"

definition symbol_asset :: "string \<Rightarrow> string" where
  "symbol_asset symbol = upper (before (CHR ''/'') symbol)"

definition last_settlement :: "(datetime \<times> real) list \<Rightarrow> datetime" where
  "last_settlement ss = foldl max (fst (hd ss)) (map fst (tl ss))"

definition maybe_apply_paper_perp_funding :: "symbol_inputs \<Rightarrow> string \<Rightarrow> unit act" where
  "maybe_apply_paper_perp_funding ins symbol s =
     (let asset = symbol_asset symbol
      in case (sv_perp s, dict_get (sv_perp_venue s) asset, dict_get (sv_perp_last_funding_at s) asset) of
           (Some b, Some venue, Some since) \<Rightarrow>
             if \<not> sv_has_perp_feed s \<or> dict_get (pb_positions b) asset = None then (s, Inr ())
             else (case si_funding ins venue since of
                     Inl e \<Rightarrow> (s, Inr ())
                   | Inr [] \<Rightarrow> (s, Inr ())
                   | Inr (x # xs) \<Rightarrow>
                       (let mark_price = (case quote_or_none (si_funding_mid ins) of
                              None \<Rightarrow> None | Some q \<Rightarrow> if qt_venue q = venue then Some (qt_mid_usd q) else None)
                        in case apply_funding (si_ks_env ins) (x # xs) asset mark_price b of
                             (b', Inl e) \<Rightarrow> (s\<lparr>sv_perp := Some b'\<rparr>, Inl (SE_perp e))
                           | (b', Inr out) \<Rightarrow>
                               (let s1 = s\<lparr>sv_perp := Some b'\<rparr>
                                in (if perp_applied out
                                    then s1\<lparr>sv_perp_last_funding_at :=
                                           dict_set asset (last_settlement (x # xs)) (sv_perp_last_funding_at s1)\<rparr>
                                    else s1, Inr ()))))
         | _ \<Rightarrow> (s, Inr ()))"

definition carry_diagnostic_notional_usd :: real where
  "carry_diagnostic_notional_usd = 100"

definition carry_decision_id :: "nat \<Rightarrow> string \<Rightarrow> string" where
  "carry_decision_id cycle asset = ''carry-diag-'' @ show_nat cycle @ ''-'' @ asset"

definition synthetic_fill :: "datetime \<Rightarrow> string \<Rightarrow> string \<Rightarrow> side \<Rightarrow> real \<Rightarrow> execution_fill" where
  "synthetic_fill now decision_id asset sd mid =
     \<lparr>f_fill_id = ''carry-diag-fill:'' @ decision_id, f_order_id = decision_id, f_asset = asset, f_side = sd,
      f_quantity = carry_diagnostic_notional_usd / mid, f_price_usd = mid, f_fee_usd = 0,
      f_fee_source = FS_MODELLED, f_observed_at = now\<rparr>"

definition carry_diagnostic_active :: "settings \<Rightarrow> bool" where
  "carry_diagnostic_active c \<longleftrightarrow> cfg_trading_mode c = TM_paper
     \<and> (paper_promote_fund_z_harvest_sign_hold_active c \<or> cfg_paper_carry_hedge_diagnostic c)"

text \<open>The hedge without a spot fill. The positive mid makes the quantity positive, so that check of the
  code never withholds.\<close>

definition maybe_open_carry_diagnostic_hedge :: "symbol_inputs \<Rightarrow> string \<Rightarrow> unit act" where
  "maybe_open_carry_diagnostic_hedge ins symbol s =
     (let asset = symbol_asset symbol
      in case (sv_settings s, sv_perp s, quote_or_none (si_diag_mid ins)) of
           (Some c, Some b, Some q) \<Rightarrow>
             if \<not> sv_has_perp_feed s \<or> \<not> carry_diagnostic_active c \<or> dict_get (pb_positions b) asset \<noteq> None
                \<or> qt_mid_usd q \<le> 0
             then (s, Inr ())
             else (case si_diag_funding ins (qt_venue q) of
                     Inl e \<Rightarrow> (s, Inr ())
                   | Inr ss \<Rightarrow>
                       if ss = [] then (s, Inr ())
                       else (case carry_hedged_sign_spot_side (snd (last ss)) of
                               None \<Rightarrow> (s, Inr ())
                             | Some sd \<Rightarrow>
                                 (let d = carry_decision_id (sv_cycle s) asset
                                  in hedge_with (si_ks_env ins) (si_now ins)
                                       (synthetic_fill (si_now ins) d asset sd (qt_mid_usd q)) (Some q) d s)))
         | _ \<Rightarrow> (s, Inr ()))"

definition mark_accepted :: "runtime_result \<Rightarrow> string \<Rightarrow> unit act" where
  "mark_accepted r symbol s =
     (if \<not> pr_accepted_market_data (rn_pipeline r) then (s, Inr ())
      else (let asset = (case pr_feature_vector (rn_pipeline r) of Some fv \<Rightarrow> fv_asset fv | None \<Rightarrow> symbol_asset symbol)
            in case mark asset (tk_last (rn_tick r)) (sv_portfolio s) of
                 Inl e \<Rightarrow> (s, Inl (SE_portfolio e))
               | Inr b \<Rightarrow> (s\<lparr>sv_portfolio := b\<rparr>, Inr ())))"

definition receipt_order :: "datetime \<Rightarrow> order_receipt \<Rightarrow> paper_order_intent \<Rightarrow> execution_order" where
  "receipt_order now rc i =
     \<lparr>o_order_id = rcp_order_id rc, o_decision_id = in_decision_id i, o_asset = in_asset i, o_side = in_side i,
      o_requested_quantity = rcp_amount rc, o_state = SUBMITTED, o_filled_quantity = 0,
      o_average_fill_price_usd = None, o_last_updated_at = now, o_client_order_id = None,
      o_venue_order_id = None, o_correlation_id = None, o_submission_attempts = 0, o_reason = None,
      o_fees_paid_usd = 0, o_fee_source = None\<rparr>"

definition register_receipt :: "datetime \<Rightarrow> runtime_result \<Rightarrow> unit act" where
  "register_receipt now r s =
     (case (rn_execution_receipt r, pr_paper_order (rn_pipeline r), sv_ledger s) of
        (Some rc, Some i, Some L) \<Rightarrow>
          if has_order_for_decision (in_decision_id i) L then (s, Inr ())
          else if \<not> order_valid (receipt_order now rc i) then (s, Inl SE_validation)
          else (case register_order (receipt_order now rc i) L of
                  Inl e \<Rightarrow> (s, Inl (SE_ledger e))
                | Inr L' \<Rightarrow> (s\<lparr>sv_ledger := Some L'\<rparr>, Inr ()))
      | _ \<Rightarrow> (s, Inr ()))"

section \<open>Audit, checkpoint and sink\<close>

text \<open>\<open>submitted\<close>, \<open>paper_filled\<close>, ...: the values of the status enumerations.\<close>

fun exec_status_str :: "exec_status \<Rightarrow> string" where
  "exec_status_str (ES_submission Sub_SUBMITTED) = ''submitted''"
| "exec_status_str (ES_submission Sub_DUPLICATE) = ''duplicate''"
| "exec_status_str (ES_submission Sub_ADOPTED) = ''adopted''"
| "exec_status_str (ES_submission Sub_PLAN_REJECTED) = ''plan_rejected''"
| "exec_status_str (ES_submission Sub_REJECTED) = ''rejected''"
| "exec_status_str (ES_submission Sub_UNCERTAIN) = ''uncertain''"
| "exec_status_str (ES_submission Sub_INVALID_EXIT_SIZE) = ''invalid_exit_size''"
| "exec_status_str (ES_shadow SHADOW_RECORDED) = ''shadow_recorded''"
| "exec_status_str (ES_shadow SHADOW_PLAN_REJECTED) = ''shadow_plan_rejected''"
| "exec_status_str (ES_shadow SHADOW_DUPLICATE) = ''shadow_duplicate''"
| "exec_status_str (ES_paper_fill PF_FILLED) = ''paper_filled''"
| "exec_status_str (ES_paper_fill PF_DUPLICATE) = ''paper_fill_duplicate''"
| "exec_status_str (ES_paper_fill PF_PLAN_REJECTED) = ''plan_rejected''"
| "exec_status_str (ES_paper_fill PF_REJECTED) = ''paper_fill_rejected''"
| "exec_status_str (ES_paper_fill PF_WITHHELD) = ''paper_fill_withheld''"
| "exec_status_str (ES_paper_fill PF_INVALID_EXIT_SIZE) = ''paper_fill_invalid_exit_size''"
| "exec_status_str ES_diagnostic_withheld = ''diagnostic_withheld''"

definition risk_entry :: "datetime \<Rightarrow> settings \<Rightarrow> runtime_result \<Rightarrow> trade_proposal \<Rightarrow> risk_reason risk_result \<Rightarrow> audit_entry" where
  "risk_entry now c r p x =
     \<lparr>ae_proposal = p, ae_result = x, ae_settings = c, ae_at = now, ae_meta_review = rn_meta_review r,
      ae_execution_status = map_option exec_status_str (rn_execution_status r),
      ae_execution_reason = rn_execution_reason r\<rparr>"

definition publish_anchor :: "datetime \<Rightarrow> nat \<Rightarrow> audit_file \<Rightarrow> unit act" where
  "publish_anchor now sequence f s =
     (case sv_anchors s of
        None \<Rightarrow> (s, Inr ())
      | Some p \<Rightarrow>
          (case maybe_publish now sequence f p of
             Inl e \<Rightarrow> (s, Inl (SE_anchor e))
           | Inr (a, p') \<Rightarrow> (s\<lparr>sv_anchors := Some p'\<rparr>, Inr ())))"

definition record_risk_decision :: "service_env \<Rightarrow> datetime \<Rightarrow> runtime_result \<Rightarrow> unit act" where
  "record_risk_decision V now r s =
     (case (sv_audit s, sv_settings s, pr_proposal (rn_pipeline r), pr_risk_result (rn_pipeline r)) of
        (Some (t, f), Some c, Some p, Some x) \<Rightarrow>
          (case record_entry (se_audit_sha V) (se_limits_digest V) (risk_entry now c r p x) t f of
             (None, t', f') \<Rightarrow> (s\<lparr>sv_audit := Some (t', f')\<rparr>, Inl SE_audit)
           | (Some rec, t', f') \<Rightarrow> publish_anchor now (ab_sequence rec) f' (s\<lparr>sv_audit := Some (t', f')\<rparr>))
      | _ \<Rightarrow> (s, Inr ()))"

definition save_checkpoint :: "symbol_inputs \<Rightarrow> unit act" where
  "save_checkpoint ins s =
     (if \<not> sv_has_checkpoint s then (s, Inr ())
      else case si_checkpoint ins of
             Some e \<Rightarrow> (s, Inl (SE_checkpoint e))
           | None \<Rightarrow> (log_event (CheckpointSaved (sv_portfolio s)) s, Inr ()))"

definition publish_result :: "symbol_inputs \<Rightarrow> runtime_result \<Rightarrow> unit act" where
  "publish_result ins r s =
     (case si_sink ins of
        Some e \<Rightarrow> (s, Inl (SE_sink e))
      | None \<Rightarrow> (log_event (ResultPublished r) s, Inr ()))"

section \<open>The symbol cycle\<close>

definition cycle_body :: "service_env \<Rightarrow> symbol_inputs \<Rightarrow> string \<Rightarrow> runtime_result act" where
  "cycle_body V ins symbol =
     and_then (update_service (refresh_kill_switch ins)) (\<lambda>_.
     and_then (take_snapshot (si_now ins)) (\<lambda>pf.
     and_then (run_runtime V ins symbol pf) (\<lambda>r0.
     and_then (maybe_apply_paper_fill V ins r0) (\<lambda>r.
     and_then (maybe_apply_paper_perp_funding ins symbol) (\<lambda>_.
     and_then (maybe_open_carry_diagnostic_hedge ins symbol) (\<lambda>_.
     and_then (mark_accepted r symbol) (\<lambda>_.
     and_then (take_snapshot (si_now ins)) (\<lambda>_.
     and_then (register_receipt (si_now ins) r) (\<lambda>_.
     and_then (record_risk_decision V (si_now ins) r) (\<lambda>_.
     and_then (save_checkpoint ins) (\<lambda>_.
     and_then (publish_result ins r) (\<lambda>_. finish r))))))))))))"

text \<open>\<open>describe\<close> renders an exception. The backoff sleep is left out.\<close>

definition run_symbol ::
    "service_env \<Rightarrow> (service_error \<Rightarrow> string) \<Rightarrow> symbol_inputs \<Rightarrow> string \<Rightarrow> service \<Rightarrow> service \<times> (service_error + runtime_result)" where
  "run_symbol V describe ins symbol s =
     (case cycle_body V ins symbol (s\<lparr>sv_cycle := sv_cycle s + 1\<rparr>) of
        (s', Inl e) \<Rightarrow> (s'\<lparr>sv_health := record_error (si_now ins) (describe e) (sv_health s')\<rparr>, Inl e)
      | (s', Inr r) \<Rightarrow> (s'\<lparr>sv_health := record_success (si_now ins) symbol (sv_health s')\<rparr>, Inr r))"

section \<open>Reconciliation\<close>

text \<open>What one pass gets from the venue: orders and trades, the portfolio state; and the two writes.\<close>

record reconcile_inputs =
  ri_now :: datetime
  ri_monotonic :: real
  ri_venue :: "string + json \<times> json"
  ri_portfolio_state :: "string + json"
  ri_ledger_save :: "string option"
  ri_checkpoint :: "string option"

text \<open>The reasons a part of a pass reports, or the exception that ends the pass (\<open>Inl\<close>).\<close>

definition reconcile_execution :: "reconcile_inputs \<Rightarrow> service \<Rightarrow> service \<times> (string + string list)" where
  "reconcile_execution ins s =
     (case (sv_exec_reconciler s, sv_ledger s) of
        (Some bps, Some L) \<Rightarrow>
          (case ri_venue ins of
             Inl e \<Rightarrow> (s, Inl e)
           | Inr (orders, trades) \<Rightarrow>
               (case reconcile_state bps (ri_now ins) orders trades \<lparr>pw_ledger = L, pw_book = sv_portfolio s\<rparr> of
                  (w, x) \<Rightarrow>
                    (let s1 = s\<lparr>sv_ledger := Some (pw_ledger w), sv_portfolio := pw_book w\<rparr>
                     in case x of
                          Inl e \<Rightarrow> (s1, Inl ''reconciliation raised'')
                        | Inr res \<Rightarrow>
                            (case save_ledger (ri_ledger_save ins) s1 of
                               (s2, Inl e) \<Rightarrow> (s2, Inl (opt_or (ri_ledger_save ins) []))
                             | (s2, Inr _) \<Rightarrow>
                                 (let reasons = map (\<lambda>c. ''conflict'') (rec_conflicts res)
                                  in if rec_applied_fills res = 0 \<or> \<not> sv_has_checkpoint s2 then (s2, Inr reasons)
                                     else case ri_checkpoint ins of
                                            Some e \<Rightarrow> (s2, Inl e)
                                          | None \<Rightarrow> (log_event (CheckpointSaved (sv_portfolio s2)) s2, Inr reasons))))))
      | _ \<Rightarrow> (s, Inr []))"

definition reconcile_portfolio :: "reconcile_inputs \<Rightarrow> service \<Rightarrow> string + string list" where
  "reconcile_portfolio ins s =
     (case sv_drift_reconciler s of
        None \<Rightarrow> Inr []
      | Some (account, connector, max_bps) \<Rightarrow>
          (case ri_portfolio_state ins of
             Inl e \<Rightarrow> Inl e
           | Inr payload \<Rightarrow>
               (case portfolio_drift account connector max_bps payload (sv_portfolio s) of
                  Inl e \<Rightarrow> Inl ''drift check raised''
                | Inr d \<Rightarrow> Inr (if dr_matched d then [] else [''portfolio NAV drift'']))))"

definition reconcile_now :: "reconcile_inputs \<Rightarrow> service \<Rightarrow> service \<times> bool" where
  "reconcile_now ins s =
     (case reconcile_execution ins s of
        (s1, Inl e) \<Rightarrow> (s1\<lparr>sv_health := record_reconciliation_failure e (sv_health s1)\<rparr>, False)
      | (s1, Inr rs1) \<Rightarrow>
          (case reconcile_portfolio ins s1 of
             Inl e \<Rightarrow> (s1\<lparr>sv_health := record_reconciliation_failure e (sv_health s1)\<rparr>, False)
           | Inr rs2 \<Rightarrow>
               if rs1 @ rs2 \<noteq> []
               then (s1\<lparr>sv_health := record_reconciliation_failure (concat (rs1 @ rs2)) (sv_health s1)\<rparr>, False)
               else (s1\<lparr>sv_health := record_reconciliation_success (ri_now ins) (sv_health s1)\<rparr>, True)))"

definition maybe_reconcile :: "reconcile_inputs \<Rightarrow> service \<Rightarrow> service" where
  "maybe_reconcile ins s =
     (if sv_exec_reconciler s = None \<and> sv_drift_reconciler s = None then s
      else if (case sv_last_reconcile_at s of
                 None \<Rightarrow> False
               | Some t \<Rightarrow> ri_monotonic ins - t < sv_reconcile_interval_seconds s) then s
      else fst (reconcile_now ins (s\<lparr>sv_last_reconcile_at := Some (ri_monotonic ins)\<rparr>)))"

section \<open>The loop\<close>

text \<open>
  One pass over the symbols; \<open>inputs\<close> gives what the surroundings answer for each symbol. A stop
  requested from outside between symbols is not modelled: the only stop is the health check's.
\<close>

fun run_symbols ::
    "service_env \<Rightarrow> (service_error \<Rightarrow> string) \<Rightarrow> (string \<Rightarrow> symbol_inputs) \<Rightarrow> string list \<Rightarrow> service \<Rightarrow> service" where
  "run_symbols V describe inputs [] s = s"
| "run_symbols V describe inputs (x # xs) s =
     (if sv_stopped s then s
      else (let s1 = fst (run_symbol V describe (inputs x) x s)
            in if \<not> healthy (sv_health s1) then s1\<lparr>sv_stopped := True\<rparr>
               else run_symbols V describe inputs xs s1))"

type_synonym pass_inputs = "reconcile_inputs \<times> (string \<Rightarrow> symbol_inputs)"

fun run_cycles ::
    "service_env \<Rightarrow> (service_error \<Rightarrow> string) \<Rightarrow> pass_inputs list \<Rightarrow> service \<Rightarrow> service" where
  "run_cycles V describe [] s = s"
| "run_cycles V describe (p # ps) s =
     (if sv_stopped s then s
      else run_cycles V describe ps (run_symbols V describe (snd p) (sv_symbols s) (maybe_reconcile (fst p) s)))"

text \<open>\<open>run\<close>: \<open>None\<close> is the \<open>ValueError\<close> of an empty symbol list; a recorded durable-state error returns
  at once, before the final anchor. The passes are those the process lives through.\<close>

definition run_service ::
    "service_env \<Rightarrow> (service_error \<Rightarrow> string) \<Rightarrow> datetime \<Rightarrow> pass_inputs list \<Rightarrow> service \<Rightarrow> service option" where
  "run_service V describe at_exit ps s =
     (if sv_symbols s = [] then None
      else if rh_durable_state_error (sv_health s) \<noteq> None then Some s
      else
        (let s1 = run_cycles V describe ps s
         in Some (case (sv_anchors s1, sv_audit s1) of
                    (Some p, Some (t, f)) \<Rightarrow>
                      (case publish_now at_exit f p of Inl e \<Rightarrow> s1 | Inr (a, p') \<Rightarrow> s1\<lparr>sv_anchors := Some p'\<rparr>)
                  | _ \<Rightarrow> s1)))"

section \<open>A cycle with the gates closed\<close>

text \<open>
  What a cycle without new risk leaves alone: the venue, the cash and the quantities; and the
  ledger, when no hedge book is attached.
\<close>

definition no_new_risk :: "service \<Rightarrow> service \<Rightarrow> bool" where
  "no_new_risk s s' \<longleftrightarrow> sv_venue_trace s' = sv_venue_trace s
     \<and> b_cash_usd (sv_portfolio s') = b_cash_usd (sv_portfolio s)
     \<and> (\<forall>a. quantity_of (sv_portfolio s') a = quantity_of (sv_portfolio s) a)
     \<and> sv_health s' = sv_health s \<and> sv_diagnostic_mode s' = sv_diagnostic_mode s
     \<and> (sv_perp s = None \<longrightarrow> sv_perp s' = None \<and> sv_ledger s' = sv_ledger s)"

definition gates_closed :: "service \<Rightarrow> bool" where
  "gates_closed s \<longleftrightarrow> rh_reconciliation_blocked (sv_health s) \<or> rh_durable_state_error (sv_health s) \<noteq> None \<or> sv_diagnostic_mode s"

lemma no_new_risk_refl [simp]: "no_new_risk s s"
  by (simp add: no_new_risk_def)

lemma no_new_risk_trans: "no_new_risk s s1 \<Longrightarrow> no_new_risk s1 s2 \<Longrightarrow> no_new_risk s s2"
  by (auto simp: no_new_risk_def)

lemma no_new_risk_closed: "no_new_risk s s' \<Longrightarrow> gates_closed s' = gates_closed s"
  by (auto simp: no_new_risk_def gates_closed_def)

text \<open>
  A step from states in \<open>P\<close> relates start and end by \<open>R\<close>, errors included, and ends with a value
  and state in \<open>Q\<close>; with a transitive \<open>R\<close> steps compose.
\<close>

definition keeps :: "(service \<Rightarrow> bool) \<Rightarrow> (service \<Rightarrow> service \<Rightarrow> bool) \<Rightarrow> ('a \<Rightarrow> service \<Rightarrow> bool) \<Rightarrow> 'a act \<Rightarrow> bool" where
  "keeps P R Q m \<longleftrightarrow> (\<forall>s s' x. m s = (s', x) \<longrightarrow> P s \<longrightarrow> R s s' \<and> (\<forall>a. x = Inr a \<longrightarrow> Q a s'))"

lemma keeps_seq:
  assumes "keeps P R Q m" "\<And>a. keeps (Q a) R Q' (f a)" "\<And>s s1 s2. R s s1 \<Longrightarrow> R s1 s2 \<Longrightarrow> R s s2"
  shows "keeps P R Q' (and_then m f)"
  unfolding keeps_def
proof (intro allI impI)
  fix s s' x assume run: "and_then m f s = (s', x)" and P: "P s"
  obtain s1 y where m: "m s = (s1, y)" by (cases "m s")
  show "R s s' \<and> (\<forall>a. x = Inr a \<longrightarrow> Q' a s')"
  proof (cases y)
    case (Inr a)
    with assms(1) m P have s1: "R s s1" "Q a s1" by (auto simp: keeps_def)
    from run m Inr have "f a s1 = (s', x)" by (simp add: and_then_def)
    with assms(2) [of a] s1(2) have "R s1 s' \<and> (\<forall>a. x = Inr a \<longrightarrow> Q' a s')" by (auto simp: keeps_def)
    with s1(1) assms(3) show ?thesis by blast
  qed (use run m P assms(1) in \<open>auto simp: and_then_def keeps_def\<close>)
qed

definition withholding :: "'a act \<Rightarrow> bool" where
  "withholding m \<longleftrightarrow> keeps gates_closed no_new_risk (\<lambda>_. gates_closed) m"

lemma withholdingI: "(\<And>s s' x. m s = (s', x) \<Longrightarrow> gates_closed s \<Longrightarrow> no_new_risk s s') \<Longrightarrow> withholding m"
  using no_new_risk_closed by (fastforce simp: withholding_def keeps_def)

lemma withholdingD: "withholding m \<Longrightarrow> m s = (s', x) \<Longrightarrow> gates_closed s \<Longrightarrow> no_new_risk s s'"
  unfolding withholding_def keeps_def by blast

lemma withholding_seq [intro]: "withholding m \<Longrightarrow> (\<And>a. withholding (f a)) \<Longrightarrow> withholding (and_then m f)"
  unfolding withholding_def by (rule keeps_seq) (auto intro: no_new_risk_trans)

lemma withholding_finish [intro]: "withholding (finish a)"
  by (rule withholdingI) (simp add: finish_def)

lemma snapshot_positions: "b_positions (fst (snapshot now b)) = b_positions b"
  by simp

lemma withholding_snapshot: "withholding (take_snapshot now)"
proof -
  have "no_new_risk s s'" if "take_snapshot now s = (s', r)" for s s' r
  proof -
    have "sv_portfolio s' = fst (snapshot now (sv_portfolio s))" "s' = s\<lparr>sv_portfolio := sv_portfolio s'\<rparr>"
      using that by (auto simp: take_snapshot_def split: prod.splits sum.splits) (metis fst_conv snapshot_book)+
    then show ?thesis by (cases s; cases s') (simp add: no_new_risk_def quantity_of_def)
  qed
  then show ?thesis by (auto intro: withholdingI)
qed

lemma withholding_refresh: "withholding (update_service (refresh_kill_switch ins))"
  by (rule withholdingI) (auto simp: update_service_def refresh_kill_switch_def share_kill_switch_def no_new_risk_def
      Let_def split: option.splits)

lemma closed_disabled: "gates_closed s \<Longrightarrow> \<not> submission_enabled s \<and> \<not> paper_fill_enabled s"
  by (auto simp: gates_closed_def submission_enabled_def paper_fill_enabled_def)

lemma withholding_runtime: "withholding (run_runtime V ins symbol pf)"
proof (rule withholdingI)
  fix s s' r assume run: "run_runtime V ins symbol pf s = (s', r)" and c: "gates_closed s"
  define w where "w = \<lparr>w_ledger = opt_or (sv_ledger s) empty_ledger, w_trace = sv_venue_trace s\<rparr>"
  obtain R w' y where o: "run_once (se_digests V) (se_render_shadow V) (si_cycle ins) symbol pf False (sv_runtime s, w) = ((R, w'), y)"
    by (metis prod.exhaust)
  from run_once_quiet [OF o] have w': "w' = w" .
  have "\<not> submission_enabled s" using closed_disabled [OF c] by simp
  with run o w' have "sv_venue_trace s' = sv_venue_trace s \<and> sv_portfolio s' = sv_portfolio s \<and> sv_health s' = sv_health s
      \<and> sv_diagnostic_mode s' = sv_diagnostic_mode s \<and> sv_perp s' = sv_perp s \<and> sv_ledger s' = sv_ledger s"
    by (cases "sv_ledger s") (auto simp: run_runtime_def w_def)
  then show "no_new_risk s s'" by (simp add: no_new_risk_def)
qed

lemma withholding_paper_fill: "withholding (maybe_apply_paper_fill V ins r)"
  by (rule withholdingI) (auto simp: maybe_apply_paper_fill_def dest!: closed_disabled split: option.splits if_splits)

lemma withholding_hedge: "withholding (hedge_with e now f q d)"
  by (rule withholdingI) (auto simp: hedge_with_def no_new_risk_def Let_def split: option.splits prod.splits sum.splits if_splits)

lemma withholding_funding: "withholding (maybe_apply_paper_perp_funding ins symbol)"
  by (rule withholdingI) (auto simp: maybe_apply_paper_perp_funding_def no_new_risk_def Let_def
      split: option.splits prod.splits sum.splits list.splits if_splits)

lemma withholding_carry: "withholding (maybe_open_carry_diagnostic_hedge ins symbol)"
  by (rule withholdingI) (auto simp: maybe_open_carry_diagnostic_hedge_def Let_def
      dest: withholdingD [OF withholding_hedge] split: option.splits prod.splits sum.splits if_splits)

lemma mark_quantity:
  assumes "mark a p b = Inr b'"
  shows "quantity_of b' x = quantity_of b x" "b_cash_usd b' = b_cash_usd b"
  using assms by (auto simp: mark_def Let_def quantity_of_def dict_get_or_def update_conv' split: if_splits option.splits)

lemma withholding_mark: "withholding (mark_accepted r symbol)"
  by (rule withholdingI) (auto simp: mark_accepted_def no_new_risk_def Let_def mark_quantity split: if_splits sum.splits)

text \<open>A fact about the value that a step returns, and its use by the steps that follow.\<close>

lemma keeps_value:
  "withholding m \<Longrightarrow> (\<And>s s' a. m s = (s', Inr a) \<Longrightarrow> gates_closed s \<Longrightarrow> C a) \<Longrightarrow>
     keeps gates_closed no_new_risk (\<lambda>a s. gates_closed s \<and> C a) m"
  unfolding withholding_def keeps_def by blast

lemma keeps_guard: "(C \<Longrightarrow> keeps P R Q m) \<Longrightarrow> keeps (\<lambda>s. P s \<and> C) R Q m"
  unfolding keeps_def by blast

lemma runtime_no_receipt:
  assumes "run_runtime V ins symbol pf s = (s', Inr r)" "gates_closed s"
  shows "rn_execution_receipt r = None"
proof -
  have off: "\<not> submission_enabled s" using closed_disabled [OF assms(2)] by simp
  define w where "w = \<lparr>w_ledger = opt_or (sv_ledger s) empty_ledger, w_trace = sv_venue_trace s\<rparr>"
  obtain R w' y where o: "run_once (se_digests V) (se_render_shadow V) (si_cycle ins) symbol pf False (sv_runtime s, w) = ((R, w'), y)"
    by (metis prod.exhaust)
  with assms(1) off have "y = Inr r" by (auto simp: run_runtime_def w_def split: sum.splits)
  with o have "run_once (se_digests V) (se_render_shadow V) (si_cycle ins) symbol pf False (sv_runtime s, w) = ((R, w'), Inr r)"
    by simp
  then show ?thesis
  proof (rule run_once_Inr)
    fix t cs intel edge R1 R2 r0 R3 r' v x
    assume "execute_order (se_digests V) (se_render_shadow V) (si_cycle ins) pf False t (pr_paper_order r') (R3, w) = ((R, w'), Inr x)"
      "rn_execution_receipt r = xe_receipt x"
    then show ?thesis
      by (auto simp: execute_order_def execute_shadow_def no_execution_def split: option.splits prod.splits sum.splits if_splits)
  qed
qed

lemma paper_fill_receipt:
  "maybe_apply_paper_fill V ins r s = (s', Inr r') \<Longrightarrow> gates_closed s \<Longrightarrow> rn_execution_receipt r' = rn_execution_receipt r"
  by (auto simp: maybe_apply_paper_fill_def stamped_def dest!: closed_disabled split: option.splits if_splits)

lemma withholding_register: "rn_execution_receipt r = None \<Longrightarrow> withholding (register_receipt now r)"
  by (rule withholdingI) (simp add: register_receipt_def)

lemma withholding_record: "withholding (record_risk_decision V now r)"
  by (rule withholdingI) (auto simp: record_risk_decision_def publish_anchor_def no_new_risk_def
      split: option.splits prod.splits sum.splits)

lemma withholding_output: "withholding (save_checkpoint ins)" "withholding (publish_result ins r)"
  by (rule withholdingI; auto simp: save_checkpoint_def publish_result_def log_event_def no_new_risk_def
      split: if_splits option.splits)+

lemmas withholding_steps = withholding_refresh withholding_snapshot withholding_paper_fill withholding_funding
  withholding_carry withholding_mark withholding_record withholding_output withholding_finish

text \<open>The steps after the runtime's, once no venue receipt is there.\<close>

lemma withholding_booking:
  assumes "rn_execution_receipt r = None"
  shows "withholding
    (and_then (maybe_apply_paper_perp_funding ins symbol) (\<lambda>_.
     and_then (maybe_open_carry_diagnostic_hedge ins symbol) (\<lambda>_.
     and_then (mark_accepted r symbol) (\<lambda>_.
     and_then (take_snapshot (si_now ins)) (\<lambda>_.
     and_then (register_receipt (si_now ins) r) (\<lambda>_.
     and_then (record_risk_decision V (si_now ins) r) (\<lambda>_.
     and_then (save_checkpoint ins) (\<lambda>_.
     and_then (publish_result ins r) (\<lambda>_. finish r)))))))))"
  by (intro withholding_seq withholding_steps withholding_register assms)

lemma withholding_cycle: "withholding (cycle_body V ins symbol)"
proof -
  have seq: "keeps gates_closed no_new_risk (\<lambda>_. gates_closed) (and_then m f)"
    if "keeps gates_closed no_new_risk (\<lambda>a s. gates_closed s \<and> C a) m" "\<And>a. C a \<Longrightarrow> withholding (f a)"
    for m :: "'x act" and f :: "'x \<Rightarrow> 'y act" and C
    by (rule keeps_seq [OF that(1) keeps_guard no_new_risk_trans])
      (use that(2) in \<open>simp_all add: withholding_def\<close>)
  have fill: "withholding (and_then (maybe_apply_paper_fill V ins r0) f)"
    if "rn_execution_receipt r0 = None" "\<And>r. rn_execution_receipt r = None \<Longrightarrow> withholding (f r)" for r0 and f :: "runtime_result \<Rightarrow> 'y act"
    unfolding withholding_def
    by (rule seq [OF keeps_value [OF withholding_paper_fill, where C = "\<lambda>r. rn_execution_receipt r = None"]])
      (use paper_fill_receipt that in auto)
  have run: "withholding (and_then (run_runtime V ins symbol pf) f)"
    if "\<And>r. rn_execution_receipt r = None \<Longrightarrow> withholding (f r)" for pf and f :: "runtime_result \<Rightarrow> 'y act"
    unfolding withholding_def
    by (rule seq [OF keeps_value [OF withholding_runtime, where C = "\<lambda>r. rn_execution_receipt r = None"]])
      (use runtime_no_receipt that in auto)
  show ?thesis
    unfolding cycle_body_def
    by (intro withholding_seq withholding_refresh withholding_snapshot run fill withholding_booking)
qed

section \<open>A cycle with the kill switch engaged\<close>

definition switched_off :: "ks_env \<Rightarrow> service \<Rightarrow> bool" where
  "switched_off e s \<longleftrightarrow> service_halted e s
     \<and> (case sv_perp s of None \<Rightarrow> True | Some b \<Rightarrow> pb_kill_switch b = sv_kill_switch s)"

definition engine_off :: "ks_env \<Rightarrow> service \<Rightarrow> bool" where
  "engine_off e s \<longleftrightarrow> switched_off e s
     \<and> re_kill_switch (pp_risk_engine (rt_pipeline (sv_runtime s))) = sv_kill_switch s
     \<and> settings_valid (re_settings (pp_risk_engine (rt_pipeline (sv_runtime s))))"

definition frozen :: "service \<Rightarrow> service \<Rightarrow> bool" where
  "frozen s s' \<longleftrightarrow> sv_venue_trace s' = sv_venue_trace s \<and> sv_ledger s' = sv_ledger s
     \<and> b_cash_usd (sv_portfolio s') = b_cash_usd (sv_portfolio s)
     \<and> (\<forall>a. quantity_of (sv_portfolio s') a = quantity_of (sv_portfolio s) a)
     \<and> map_option pb_positions (sv_perp s') = map_option pb_positions (sv_perp s)"

lemma frozen_trans: "frozen s s1 \<Longrightarrow> frozen s1 s2 \<Longrightarrow> frozen s s2"
  by (auto simp: frozen_def)

lemma keepsI: "(\<And>s s' x. m s = (s', x) \<Longrightarrow> P s \<Longrightarrow> R s s' \<and> (\<forall>a. x = Inr a \<longrightarrow> Q a s')) \<Longrightarrow> keeps P R Q m"
  by (simp add: keeps_def)

definition idle :: "ks_env \<Rightarrow> 'a act \<Rightarrow> bool" where
  "idle e m \<longleftrightarrow> keeps (switched_off e) frozen (\<lambda>_. switched_off e) m"

lemma idleI: "(\<And>s s' x. m s = (s', x) \<Longrightarrow> switched_off e s \<Longrightarrow> frozen s s' \<and> switched_off e s') \<Longrightarrow> idle e m"
  by (simp add: idle_def keeps_def)

lemma idle_seq [intro]: "idle e m \<Longrightarrow> (\<And>a. idle e (f a)) \<Longrightarrow> idle e (and_then m f)"
  unfolding idle_def by (rule keeps_seq) (auto intro: frozen_trans)

lemma switched_off_cong:
  "sv_kill_switch s' = sv_kill_switch s \<Longrightarrow>
   map_option pb_kill_switch (sv_perp s') = map_option pb_kill_switch (sv_perp s) \<Longrightarrow> switched_off e s' = switched_off e s"
  by (cases "sv_perp s"; cases "sv_perp s'") (auto simp: switched_off_def service_halted_def)

lemma idle_simple:
  assumes "\<And>s s' x. m s = (s', x) \<Longrightarrow> frozen s s' \<and> sv_kill_switch s' = sv_kill_switch s
      \<and> map_option pb_kill_switch (sv_perp s') = map_option pb_kill_switch (sv_perp s)"
  shows "idle e m"
proof (rule idleI)
  fix s s' x assume "m s = (s', x)" "switched_off e s"
  with assms [of s s' x] switched_off_cong [of s' s e] show "frozen s s' \<and> switched_off e s'" by simp
qed

lemma idle_finish: "idle e (finish a)"
  by (rule idle_simple) (simp add: finish_def frozen_def)

lemma snapshot_state:
  assumes "take_snapshot now s = (s', r)"
  shows "s' = s\<lparr>sv_portfolio := fst (snapshot now (sv_portfolio s))\<rparr>"
  using assms by (auto simp: take_snapshot_def split: prod.splits sum.splits) (metis fst_conv snapshot_book)+

lemma idle_snapshot: "idle e (take_snapshot now)"
  by (rule idle_simple) (drule snapshot_state, simp add: frozen_def quantity_of_def)

lemma perp_off: "switched_off e s \<Longrightarrow> sv_perp s = Some b \<Longrightarrow> perp_halted e b"
  by (auto simp: switched_off_def service_halted_def perp_halted_def split: option.splits)

lemma idle_hedge: "idle e (hedge_with e now f q d)"
proof (rule idleI)
  fix s s' x assume run: "hedge_with e now f q d s = (s', x)" and off: "switched_off e s"
  show "frozen s s' \<and> switched_off e s'"
  proof (cases "sv_perp s")
    case (Some b)
    have "\<exists>r. maybe_hedge_spot_fill e now f (map_option qt_mid_usd q) d (b, sv_ledger s) = ((b, sv_ledger s), r)"
      using perp_off [OF off Some] by (cases "pb_trading_mode b = ''paper''") (simp_all add: maybe_hedge_spot_fill_def Let_def)
    then obtain r where r: "maybe_hedge_spot_fill e now f (map_option qt_mid_usd q) d (b, sv_ledger s) = ((b, sv_ledger s), r)" ..
    with run Some have "frozen s s' \<and> sv_kill_switch s' = sv_kill_switch s \<and> sv_perp s' = sv_perp s"
      by (auto simp: hedge_with_def Let_def frozen_def split: sum.splits option.splits if_splits)
    with off switched_off_cong [of s' s e] show ?thesis by simp
  qed (use run off in \<open>simp add: hedge_with_def frozen_def\<close>)
qed

lemma idle_carry:
  assumes "si_ks_env ins = e"
  shows "idle e (maybe_open_carry_diagnostic_hedge ins symbol)"
  unfolding idle_def
proof (rule keepsI)
  fix s s' x assume off: "switched_off e s" and run: "maybe_open_carry_diagnostic_hedge ins symbol s = (s', x)"
  consider "s' = s" | now f q d where "hedge_with e now f q d s = (s', x)"
    using run assms by (auto simp: maybe_open_carry_diagnostic_hedge_def Let_def split: option.splits sum.splits if_splits)
  then show "frozen s s' \<and> (\<forall>a. x = Inr a \<longrightarrow> switched_off e s')"
  proof cases
    case 2
    with idle_hedge [of e now f q d] off show ?thesis by (simp add: idle_def keeps_def)
  qed (use off in \<open>simp add: frozen_def\<close>)
qed

lemma idle_funding:
  assumes "si_ks_env ins = e"
  shows "idle e (maybe_apply_paper_perp_funding ins symbol)"
proof (rule idleI)
  fix s s' x assume run: "maybe_apply_paper_perp_funding ins symbol s = (s', x)" and off: "switched_off e s"
  have "fst (apply_funding e ss a m b) = b" if "sv_perp s = Some b" for ss a m b
    using perp_off [OF off that] by (cases "pb_trading_mode b = ''paper''") (simp_all add: apply_funding_def Let_def)
  with run assms have "frozen s s' \<and> sv_kill_switch s' = sv_kill_switch s \<and> sv_perp s' = sv_perp s"
    by (auto simp: maybe_apply_paper_perp_funding_def Let_def frozen_def
        split: option.splits prod.splits sum.splits list.splits if_splits) (metis fst_conv)+
  with off switched_off_cong [of s' s e] show "frozen s s' \<and> switched_off e s'" by simp
qed

lemma idle_mark: "idle e (mark_accepted r symbol)"
  by (rule idle_simple) (auto simp: mark_accepted_def frozen_def Let_def mark_quantity split: if_splits sum.splits)

lemma idle_register: "rn_execution_receipt r = None \<Longrightarrow> idle e (register_receipt now r)"
  by (rule idle_simple) (simp add: register_receipt_def frozen_def)

lemma idle_record: "idle e (record_risk_decision V now r)"
  by (rule idle_simple) (auto simp: record_risk_decision_def publish_anchor_def frozen_def
      split: option.splits prod.splits sum.splits)

lemma idle_output: "idle e (save_checkpoint ins)" "idle e (publish_result ins r)"
  by (rule idle_simple; auto simp: save_checkpoint_def publish_result_def log_event_def frozen_def
      split: if_splits option.splits)+

lemmas idle_steps = idle_snapshot idle_funding idle_carry idle_mark idle_record idle_output idle_finish

lemma engine_halted:
  "engine_off e s \<Longrightarrow> halted e (pp_risk_engine (rt_pipeline (sv_runtime s)))"
  by (auto simp: engine_off_def switched_off_def service_halted_def halted_def split: option.splits)

text \<open>With the switch engaged the runtime produces no order, so nothing is submitted or shadowed.\<close>

lemma idle_runtime:
  assumes "cy_ks_env (ci_env (si_cycle ins)) = e"
  shows "keeps (engine_off e) frozen
    (\<lambda>r s. switched_off e s \<and> (pr_paper_order (rn_pipeline r) = None \<and> rn_execution_receipt r = None))
    (run_runtime V ins symbol pf)"
proof (rule keepsI)
  fix s s' x assume run: "run_runtime V ins symbol pf s = (s', x)" and off: "engine_off e s"
  define w where "w = \<lparr>w_ledger = opt_or (sv_ledger s) empty_ledger, w_trace = sv_venue_trace s\<rparr>"
  define R where "R = sv_runtime s"
  obtain R' w' y where o: "run_once (se_digests V) (se_render_shadow V) (si_cycle ins) symbol pf (submission_enabled s) (R, w) = ((R', w'), y)"
    by (metis prod.exhaust)
  have h: "halted e (pp_risk_engine (rt_pipeline R))" "settings_valid (re_settings (pp_risk_engine (rt_pipeline R)))"
    using engine_halted [OF off] off by (simp_all add: engine_off_def R_def)
  have none: False if "process (ci_env (si_cycle ins)) (rt_pipeline R) t refs pf cs intel edge now = Some (Inr (r, cb))"
    "pr_paper_order r = Some i" for t refs cs intel edge now r cb i
    using process_order_safe [OF that h(2)] h(1) assms by simp
  have "w' = w"
  proof (rule ccontr)
    assume "w' \<noteq> w"
    from run_once_world [OF o this] obtain t cs intel edge R1 R2 r R3 r' v i where
      p: "rt_pipeline R1 = rt_pipeline R" "run_pipeline (si_cycle ins) t pf cs intel edge R1 = (R2, Inr r)"
      "run_meta_review (se_digests V) (ci_review_clock (si_cycle ins)) (tk_symbol t) r R2 = (R3, Inr (r', v))"
      "pr_paper_order r' = Some i" by metis
    from run_meta_review_order [OF p(3)] p(4) have "pr_paper_order r = Some i" by auto
    with run_pipeline_Inr [OF p(2)] none p(1) show False by metis
  qed
  have s': "s' = s\<lparr>sv_runtime := R', sv_ledger := map_option (\<lambda>_. w_ledger w) (sv_ledger s), sv_venue_trace := sv_venue_trace s\<rparr>"
    "x = (case y of Inl err \<Rightarrow> Inl (SE_runtime err) | Inr r \<Rightarrow> Inr r)"
    using run o \<open>w' = w\<close> by (auto simp: run_runtime_def w_def R_def)
  have "frozen s s'" using s'(1) by (cases "sv_ledger s") (simp_all add: frozen_def w_def)
  moreover have "switched_off e s'" using off s'(1) switched_off_cong [of s' s e] by (simp add: engine_off_def)
  moreover have "pr_paper_order (rn_pipeline r) = None \<and> rn_execution_receipt r = None" if "x = Inr r" for r
  proof -
    from that s'(2) o have o': "run_once (se_digests V) (se_render_shadow V) (si_cycle ins) symbol pf (submission_enabled s) (R, w) = ((R', w'), Inr r)"
      by (cases y) auto
    have no: "pr_paper_order (rn_pipeline r) = None"
    proof (rule ccontr)
      assume "pr_paper_order (rn_pipeline r) \<noteq> None"
      then obtain i where "pr_paper_order (rn_pipeline r) = Some i" by blast
      from run_once_order [OF o' this] none show False by metis
    qed
    from o' have "rn_execution_receipt r = None"
    proof (rule run_once_Inr)
      fix t cs intel edge R1 R2 r0 R3 r' v z
      assume "execute_order (se_digests V) (se_render_shadow V) (si_cycle ins) pf (submission_enabled s) t (pr_paper_order r') (R3, w) = ((R', w'), Inr z)"
        "rn_pipeline r = r'" "rn_execution_receipt r = xe_receipt z"
      with no show ?thesis by (auto simp: execute_order_def no_execution_def)
    qed
    with no show ?thesis by simp
  qed
  ultimately show "frozen s s' \<and> (\<forall>r. x = Inr r \<longrightarrow> switched_off e s'
      \<and> (pr_paper_order (rn_pipeline r) = None \<and> rn_execution_receipt r = None))" by blast
qed

lemma idle_paper_fill: "pr_paper_order (rn_pipeline r) = None \<Longrightarrow> maybe_apply_paper_fill V ins r s = (s, Inr r)"
  by (simp add: maybe_apply_paper_fill_def)

lemma refresh_off:
  assumes "sv_kill_switch s = Some k" "engaged (si_ks_env ins) (fst (refresh (si_now ins) (si_kill_probe ins) (si_ks_env ins) k))"
    and "settings_valid (re_settings (pp_risk_engine (rt_pipeline (sv_runtime s))))"
  shows "frozen s (refresh_kill_switch ins s) \<and> engine_off (si_ks_env ins) (refresh_kill_switch ins s)"
  using assms by (auto simp: refresh_kill_switch_def share_kill_switch_def Let_def frozen_def engine_off_def
      switched_off_def service_halted_def option.map_comp comp_def split: option.splits)

lemma snapshot_engine: "keeps (engine_off e) frozen (\<lambda>_. engine_off e) (take_snapshot now)"
proof (rule keepsI)
  fix s s' x assume "take_snapshot now s = (s', x)" "engine_off e s"
  then show "frozen s s' \<and> (\<forall>a. x = Inr a \<longrightarrow> engine_off e s')"
    using snapshot_state [of now s s' x] switched_off_cong [of s' s e] by (simp add: frozen_def quantity_of_def engine_off_def)
qed

lemma idle_booking:
  assumes "pr_paper_order (rn_pipeline r) = None" "rn_execution_receipt r = None" "si_ks_env ins = e"
  shows "idle e
    (and_then (maybe_apply_paper_fill V ins r) (\<lambda>r.
     and_then (maybe_apply_paper_perp_funding ins symbol) (\<lambda>_.
     and_then (maybe_open_carry_diagnostic_hedge ins symbol) (\<lambda>_.
     and_then (mark_accepted r symbol) (\<lambda>_.
     and_then (take_snapshot (si_now ins)) (\<lambda>_.
     and_then (register_receipt (si_now ins) r) (\<lambda>_.
     and_then (record_risk_decision V (si_now ins) r) (\<lambda>_.
     and_then (save_checkpoint ins) (\<lambda>_.
     and_then (publish_result ins r) (\<lambda>_. finish r))))))))))"
proof -
  have skip: "and_then (maybe_apply_paper_fill V ins r) f = f r" for f :: "runtime_result \<Rightarrow> 'b act"
    by (rule ext) (simp add: and_then_def idle_paper_fill [OF assms(1)])
  show ?thesis
    unfolding skip by (intro idle_seq idle_steps idle_register assms)
qed

lemma cycle_off:
  assumes "sv_kill_switch s = Some k" "engaged (si_ks_env ins) (fst (refresh (si_now ins) (si_kill_probe ins) (si_ks_env ins) k))"
    and "settings_valid (re_settings (pp_risk_engine (rt_pipeline (sv_runtime s))))"
    and "cy_ks_env (ci_env (si_cycle ins)) = si_ks_env ins" and "cycle_body V ins symbol s = (s', x)"
  shows "frozen s s'"
proof -
  define rest where "rest = (\<lambda>r0.
     and_then (maybe_apply_paper_fill V ins r0) (\<lambda>r.
     and_then (maybe_apply_paper_perp_funding ins symbol) (\<lambda>_.
     and_then (maybe_open_carry_diagnostic_hedge ins symbol) (\<lambda>_.
     and_then (mark_accepted r symbol) (\<lambda>_.
     and_then (take_snapshot (si_now ins)) (\<lambda>_.
     and_then (register_receipt (si_now ins) r) (\<lambda>_.
     and_then (record_risk_decision V (si_now ins) r) (\<lambda>_.
     and_then (save_checkpoint ins) (\<lambda>_.
     and_then (publish_result ins r) (\<lambda>_. finish r))))))))))"
  define s1 where "s1 = refresh_kill_switch ins s"
  have "keeps (engine_off (si_ks_env ins)) frozen (\<lambda>_. switched_off (si_ks_env ins))
      (and_then (take_snapshot (si_now ins)) (\<lambda>pf. and_then (run_runtime V ins symbol pf) rest))"
  proof (rule keeps_seq [OF snapshot_engine _ frozen_trans])
    fix pf
    show "keeps (engine_off (si_ks_env ins)) frozen (\<lambda>_. switched_off (si_ks_env ins)) (and_then (run_runtime V ins symbol pf) rest)"
      by (rule keeps_seq [OF idle_runtime [OF assms(4)] keeps_guard frozen_trans])
        (use idle_booking in \<open>auto simp: rest_def idle_def\<close>)
  qed
  moreover have "and_then (take_snapshot (si_now ins)) (\<lambda>pf. and_then (run_runtime V ins symbol pf) rest) s1 = (s', x)"
    using assms(5) by (simp add: cycle_body_def and_then_def [of "update_service f" for f] update_service_def rest_def s1_def)
  moreover note refresh_off [OF assms(1-3), folded s1_def]
  ultimately show ?thesis unfolding keeps_def using frozen_trans by blast
qed

lemma run_symbol_body:
  assumes "run_symbol V describe ins symbol s = (s', x)"
  obtains s1 h where "cycle_body V ins symbol (s\<lparr>sv_cycle := sv_cycle s + 1\<rparr>) = (s1, x)" "s' = s1\<lparr>sv_health := h\<rparr>"
    "h = (case x of Inl e \<Rightarrow> record_error (si_now ins) (describe e) (sv_health s1)
          | Inr r \<Rightarrow> record_success (si_now ins) symbol (sv_health s1))"
  using assms by (auto simp: run_symbol_def split: prod.splits sum.splits)

section \<open>What one completed cycle records\<close>

text \<open>Steps that leave the audit alone.\<close>

definition audit_same :: "service \<Rightarrow> service \<Rightarrow> bool" where
  "audit_same s s' \<longleftrightarrow> sv_audit s' = sv_audit s \<and> sv_settings s' = sv_settings s"

definition unaudited :: "'a act \<Rightarrow> bool" where
  "unaudited m \<longleftrightarrow> keeps (\<lambda>_. True) audit_same (\<lambda>_ _. True) m"

lemma unauditedI: "(\<And>s s' x. m s = (s', x) \<Longrightarrow> audit_same s s') \<Longrightarrow> unaudited m"
  by (simp add: unaudited_def keeps_def)

lemma unauditedD: "unaudited m \<Longrightarrow> m s = (s', x) \<Longrightarrow> audit_same s s'"
  unfolding unaudited_def keeps_def by blast

lemma unaudited_hedge: "unaudited (hedge_with e now f q d)"
  by (rule unauditedI) (auto simp: hedge_with_def audit_same_def Let_def split: option.splits prod.splits sum.splits if_splits)

lemma unaudited_seq: "unaudited m \<Longrightarrow> (\<And>a. unaudited (f a)) \<Longrightarrow> unaudited (and_then m f)"
  unfolding unaudited_def by (rule keeps_seq) (auto simp: audit_same_def)

lemma unaudited_saved: "unaudited (save_ledger err)" "unaudited (finish a)"
  by (rule unauditedI; auto simp: save_ledger_def finish_def log_event_def audit_same_def split: option.splits if_splits)+

lemma book_paper_fill_cases:
  assumes "book_paper_fill V ins P i r L s = (s', x)"
  obtains (raised) w :: paper_world where "s' = s\<lparr>sv_ledger := Some (pw_ledger w), sv_portfolio := pw_book w\<rparr>"
  | (booked) w :: paper_world and out :: paper_fill_outcome where
      "and_then (save_ledger (si_ledger_save ins)) (\<lambda>_.
       and_then (case po_fill out of
            Some f \<Rightarrow> if po_status out = PF_FILLED then maybe_hedge_paper_perp ins f (in_decision_id i) else finish ()
          | None \<Rightarrow> finish ())
         (\<lambda>_. finish (stamped (ES_paper_fill (po_status out)) (map_option (se_render_fill V) (po_reason out)) r)))
         (s\<lparr>sv_ledger := Some (pw_ledger w), sv_portfolio := pw_book w\<rparr>) = (s', x)"
proof -
  obtain w y where sim: "simulate_fill (dg_h10 (se_digests V)) (dg_h16 (se_digests V)) P (si_now ins) i (tick_mid (rn_tick r))
      \<lparr>pw_ledger = L, pw_book = sv_portfolio s\<rparr> = (w, y)" by (metis prod.exhaust)
  show ?thesis
  proof (cases y)
    case (Inl e)
    with assms sim show ?thesis by (intro raised [of w]) (simp add: book_paper_fill_def Let_def)
  next
    case (Inr out)
    with assms sim show ?thesis by (intro booked [of out w]) (simp add: book_paper_fill_def Let_def)
  qed
qed

lemma unaudited_spot_hedge: "unaudited (maybe_hedge_paper_perp ins f d)"
  by (rule unauditedI) (simp add: maybe_hedge_paper_perp_def unauditedD [OF unaudited_hedge])

lemma unaudited_book: "unaudited (book_paper_fill V ins P i r L)"
proof (rule unauditedI)
  fix s s' x assume "book_paper_fill V ins P i r L s = (s', x)"
  then show "audit_same s s'"
  proof (cases rule: book_paper_fill_cases)
    case (booked w out)
    have "unaudited (and_then (save_ledger (si_ledger_save ins)) (\<lambda>_.
       and_then (case po_fill out of
            Some f \<Rightarrow> if po_status out = PF_FILLED then maybe_hedge_paper_perp ins f (in_decision_id i) else finish ()
          | None \<Rightarrow> finish ())
         (\<lambda>_. finish (stamped (ES_paper_fill (po_status out)) (map_option (se_render_fill V) (po_reason out)) r))))"
      by (intro unaudited_seq unaudited_saved) (auto intro: unaudited_saved unaudited_spot_hedge split: option.splits)
    from unauditedD [OF this booked] show ?thesis by (simp add: audit_same_def)
  qed (simp add: audit_same_def)
qed

lemma unaudited_fill: "unaudited (maybe_apply_paper_fill V ins r)"
proof (rule unauditedI)
  fix s s' x assume "maybe_apply_paper_fill V ins r s = (s', x)"
  then consider "s' = s" | P i L where "book_paper_fill V ins P i r L s = (s', x)"
    by (auto simp: maybe_apply_paper_fill_def split: option.splits if_splits)
  then show "audit_same s s'" by cases (auto simp: audit_same_def dest: unauditedD [OF unaudited_book])
qed

lemma unaudited_others:
  "unaudited (update_service (refresh_kill_switch ins))" "unaudited (take_snapshot now)"
  "unaudited (run_runtime V ins symbol pf)" "unaudited (maybe_apply_paper_perp_funding ins symbol)"
  "unaudited (mark_accepted r symbol)" "unaudited (register_receipt now r)"
  "unaudited (save_checkpoint ins)" "unaudited (publish_result ins r)"
  by (rule unauditedI; auto simp: audit_same_def update_service_def refresh_kill_switch_def share_kill_switch_def Let_def
      take_snapshot_def run_runtime_def maybe_apply_paper_perp_funding_def mark_accepted_def register_receipt_def
      save_checkpoint_def publish_result_def log_event_def
      split: option.splits prod.splits sum.splits list.splits if_splits)+

lemma unaudited_carry: "unaudited (maybe_open_carry_diagnostic_hedge ins symbol)"
proof (rule unauditedI)
  fix s s' x assume run: "maybe_open_carry_diagnostic_hedge ins symbol s = (s', x)"
  consider "s' = s" | e now f q d where "hedge_with e now f q d s = (s', x)"
    using run by (auto simp: maybe_open_carry_diagnostic_hedge_def Let_def split: option.splits sum.splits if_splits)
  then show "audit_same s s'" by cases (auto simp: audit_same_def dest: unauditedD [OF unaudited_hedge])
qed

lemma and_then_Inr:
  "and_then m f s = (s', Inr b) \<longleftrightarrow> (\<exists>s1 a. m s = (s1, Inr a) \<and> f a s1 = (s', Inr b))"
  by (auto simp: and_then_def split: prod.splits sum.splits)

lemma cycle_audits:
  assumes "cycle_body V ins symbol s = (s', Inr r)" "sv_audit s = Some (t, f)" "sv_settings s = Some c"
    and "pr_proposal (rn_pipeline r) = Some p" "pr_risk_result (rn_pipeline r) = Some x"
    and "file_intact (se_audit_sha V) f" "in_sync t f"
  shows "\<exists>t' f' rec. sv_audit s' = Some (t', f') \<and> cv_valid (verify_chain (se_audit_sha V) f') \<and> in_sync t' f'
    \<and> file_records f' = file_records f @ [rec] \<and> ab_proposal rec = p \<and> ab_result rec = x
    \<and> ab_meta_review rec = rn_meta_review r"
proof -
  from assms(1) obtain s1 s2 s3 s4 s5 s6 s7 s8 s9 s10 s11 a b d r0 q where steps:
    "update_service (refresh_kill_switch ins) s = (s1, Inr a)" "take_snapshot (si_now ins) s1 = (s2, Inr b)"
    "run_runtime V ins symbol b s2 = (s3, Inr r0)" "maybe_apply_paper_fill V ins r0 s3 = (s4, Inr q)"
    "maybe_apply_paper_perp_funding ins symbol s4 = (s5, Inr ())" "maybe_open_carry_diagnostic_hedge ins symbol s5 = (s6, Inr ())"
    "mark_accepted q symbol s6 = (s7, Inr ())" "take_snapshot (si_now ins) s7 = (s8, Inr d)"
    "register_receipt (si_now ins) q s8 = (s9, Inr ())" "record_risk_decision V (si_now ins) q s9 = (s10, Inr ())"
    "save_checkpoint ins s10 = (s11, Inr ())" "publish_result ins q s11 = (s', Inr ())" "q = r"
    unfolding cycle_body_def and_then_Inr by (auto simp: finish_def)
  note same = unauditedD [OF unaudited_others(1) steps(1)] unauditedD [OF unaudited_others(2) steps(2)]
    unauditedD [OF unaudited_others(3) steps(3)] unauditedD [OF unaudited_fill steps(4)]
    unauditedD [OF unaudited_others(4) steps(5)] unauditedD [OF unaudited_carry steps(6)]
    unauditedD [OF unaudited_others(5) steps(7)] unauditedD [OF unaudited_others(2) steps(8)]
    unauditedD [OF unaudited_others(6) steps(9)]
  have s9: "sv_audit s9 = Some (t, f)" "sv_settings s9 = Some c"
    using same assms(2,3) by (simp_all add: audit_same_def)
  from record_entry_appends [OF assms(6,7), of "se_limits_digest V" "risk_entry (si_now ins) c q p x"]
  obtain rec t' f' where rec: "record_entry (se_audit_sha V) (se_limits_digest V) (risk_entry (si_now ins) c q p x) t f = (Some rec, t', f')"
    "cv_valid (verify_chain (se_audit_sha V) f')" "in_sync t' f'" "file_records f' = file_records f @ [rec]"
    "ab_proposal rec = p" "ab_result rec = x" "ab_meta_review rec = rn_meta_review q"
    by (auto simp: risk_entry_def)
  have "sv_audit s10 = Some (t', f')"
    using steps(10,13) s9 assms(4,5) rec(1)
    by (auto simp: record_risk_decision_def publish_anchor_def split: option.splits sum.splits prod.splits)
  moreover have "sv_audit s' = sv_audit s10"
    using unauditedD [OF unaudited_others(7) steps(11)] unauditedD [OF unaudited_others(8) steps(12)] by (simp add: audit_same_def)
  ultimately show ?thesis using rec steps(13) by auto
qed

end
