(* ===== verification/Service_Safety.thy ===== *)
theory Service_Safety
  imports Service
begin

text \<open>
  What the continuous service promises, over the cycle and the loop of \<open>Service\<close>: which steps touch
  the venue and the health record, when an order may reach the venue, what a blocked or switched-off
  cycle leaves alone, what is audited, when submission comes back and when the loop ends.
\<close>

section \<open>Frames\<close>

text \<open>No step of a cycle writes the health record or the loop's own fields; only the runtime's step
  reaches the venue.\<close>

definition steady :: "service \<Rightarrow> service \<Rightarrow> bool" where
  "steady s s' \<longleftrightarrow> sv_health s' = sv_health s \<and> sv_stopped s' = sv_stopped s \<and> sv_symbols s' = sv_symbols s
     \<and> sv_submit s' = sv_submit s \<and> sv_diagnostic_mode s' = sv_diagnostic_mode s \<and> sv_cycle s' = sv_cycle s"

definition quiet :: "service \<Rightarrow> service \<Rightarrow> bool" where
  "quiet s s' \<longleftrightarrow> steady s s' \<and> sv_venue_trace s' = sv_venue_trace s"

definition framed :: "(service \<Rightarrow> service \<Rightarrow> bool) \<Rightarrow> 'a act \<Rightarrow> bool" where
  "framed R m \<longleftrightarrow> keeps (\<lambda>_. True) R (\<lambda>_ _. True) m"

lemma framedI: "(\<And>s s' x. m s = (s', x) \<Longrightarrow> R s s') \<Longrightarrow> framed R m"
  by (simp add: framed_def keeps_def)

lemma framedD: "framed R m \<Longrightarrow> m s = (s', x) \<Longrightarrow> R s s'"
  unfolding framed_def keeps_def by blast

lemma framed_steady: "framed quiet m \<Longrightarrow> framed steady m"
  unfolding framed_def keeps_def quiet_def by blast

lemma quiet_seq [intro]: "framed quiet m \<Longrightarrow> (\<And>a. framed quiet (f a)) \<Longrightarrow> framed quiet (and_then m f)"
  unfolding framed_def by (rule keeps_seq) (auto simp: quiet_def steady_def)

lemma steady_seq [intro]: "framed steady m \<Longrightarrow> (\<And>a. framed steady (f a)) \<Longrightarrow> framed steady (and_then m f)"
  unfolding framed_def by (rule keeps_seq) (auto simp: steady_def)

lemma quiet_finish: "framed quiet (finish a)"
  by (rule framedI) (simp add: finish_def quiet_def steady_def)

lemma quiet_refresh: "framed quiet (update_service (refresh_kill_switch ins))"
  by (rule framedI) (auto simp: update_service_def refresh_kill_switch_def share_kill_switch_def Let_def quiet_def
      steady_def split: option.splits)

lemma quiet_snapshot: "framed quiet (take_snapshot now)"
  by (rule framedI) (drule snapshot_state, simp add: quiet_def steady_def)

lemma quiet_saved: "framed quiet (save_ledger err)"
  by (rule framedI) (auto simp: save_ledger_def log_event_def quiet_def steady_def split: option.splits if_splits)

lemma quiet_hedge: "framed quiet (hedge_with e now f q d)"
  by (rule framedI) (auto simp: hedge_with_def quiet_def steady_def Let_def
      split: option.splits prod.splits sum.splits if_splits)

lemma quiet_spot_hedge: "framed quiet (maybe_hedge_paper_perp ins f d)"
  by (rule framedI) (simp add: maybe_hedge_paper_perp_def framedD [OF quiet_hedge])

lemma quiet_book: "framed quiet (book_paper_fill V ins P i r L)"
proof (rule framedI)
  fix s s' x assume "book_paper_fill V ins P i r L s = (s', x)"
  then show "quiet s s'"
  proof (cases rule: book_paper_fill_cases)
    case (booked w out)
    have "framed quiet (and_then (save_ledger (si_ledger_save ins)) (\<lambda>_.
       and_then (case po_fill out of
            Some f \<Rightarrow> if po_status out = PF_FILLED then maybe_hedge_paper_perp ins f (in_decision_id i) else finish ()
          | None \<Rightarrow> finish ())
         (\<lambda>_. finish (stamped (ES_paper_fill (po_status out)) (map_option (se_render_fill V) (po_reason out)) r))))"
      by (intro quiet_seq quiet_saved quiet_finish) (auto intro: quiet_finish quiet_spot_hedge split: option.splits)
    from framedD [OF this booked] show ?thesis by (simp add: quiet_def steady_def)
  qed (simp add: quiet_def steady_def)
qed

lemma quiet_paper_fill: "framed quiet (maybe_apply_paper_fill V ins r)"
proof (rule framedI)
  fix s s' x assume "maybe_apply_paper_fill V ins r s = (s', x)"
  then consider "s' = s" | P i L where "book_paper_fill V ins P i r L s = (s', x)"
    by (auto simp: maybe_apply_paper_fill_def split: option.splits if_splits)
  then show "quiet s s'" by cases (auto simp: quiet_def steady_def dest: framedD [OF quiet_book])
qed

lemma quiet_funding: "framed quiet (maybe_apply_paper_perp_funding ins symbol)"
  by (rule framedI) (auto simp: maybe_apply_paper_perp_funding_def quiet_def steady_def Let_def
      split: option.splits prod.splits sum.splits list.splits if_splits)

lemma quiet_carry: "framed quiet (maybe_open_carry_diagnostic_hedge ins symbol)"
proof (rule framedI)
  fix s s' x assume run: "maybe_open_carry_diagnostic_hedge ins symbol s = (s', x)"
  consider "s' = s" | e now f q d where "hedge_with e now f q d s = (s', x)"
    using run by (auto simp: maybe_open_carry_diagnostic_hedge_def Let_def split: option.splits sum.splits if_splits)
  then show "quiet s s'" by cases (auto simp: quiet_def steady_def dest: framedD [OF quiet_hedge])
qed

lemma quiet_outputs:
  "framed quiet (mark_accepted r symbol)" "framed quiet (register_receipt now r)"
  "framed quiet (record_risk_decision V now r)" "framed quiet (save_checkpoint ins)" "framed quiet (publish_result ins r)"
  by (rule framedI; auto simp: quiet_def steady_def mark_accepted_def register_receipt_def record_risk_decision_def
      publish_anchor_def save_checkpoint_def publish_result_def log_event_def Let_def
      split: option.splits prod.splits sum.splits if_splits)+

lemmas quiet_steps = quiet_refresh quiet_snapshot quiet_paper_fill quiet_funding quiet_carry quiet_outputs quiet_finish

lemma steady_runtime: "framed steady (run_runtime V ins symbol pf)"
  by (rule framedI) (auto simp: run_runtime_def steady_def split: prod.splits sum.splits)

text \<open>The steps after the runtime's.\<close>

lemma quiet_booking: "framed quiet
    (and_then (maybe_apply_paper_fill V ins r0) (\<lambda>r.
     and_then (maybe_apply_paper_perp_funding ins symbol) (\<lambda>_.
     and_then (maybe_open_carry_diagnostic_hedge ins symbol) (\<lambda>_.
     and_then (mark_accepted r symbol) (\<lambda>_.
     and_then (take_snapshot (si_now ins)) (\<lambda>_.
     and_then (register_receipt (si_now ins) r) (\<lambda>_.
     and_then (record_risk_decision V (si_now ins) r) (\<lambda>_.
     and_then (save_checkpoint ins) (\<lambda>_.
     and_then (publish_result ins r) (\<lambda>_. finish r))))))))))"
  by (intro quiet_seq quiet_steps)

lemma steady_cycle: "framed steady (cycle_body V ins symbol)"
  unfolding cycle_body_def
  by (intro steady_seq steady_runtime framed_steady [OF quiet_booking] framed_steady [OF quiet_refresh]
      framed_steady [OF quiet_snapshot])

section \<open>What a cycle runs\<close>

lemma and_then_run:
  "m s = (s1, Inl e) \<Longrightarrow> and_then m f s = (s1, Inl e)"
  "m s = (s1, Inr a) \<Longrightarrow> and_then m f s = f a s1"
  by (simp_all add: and_then_def)

lemma cycle_start:
  "cycle_body V ins symbol s = and_then (take_snapshot (si_now ins)) (\<lambda>pf.
     and_then (run_runtime V ins symbol pf) (\<lambda>r0.
     and_then (maybe_apply_paper_fill V ins r0) (\<lambda>r.
     and_then (maybe_apply_paper_perp_funding ins symbol) (\<lambda>_.
     and_then (maybe_open_carry_diagnostic_hedge ins symbol) (\<lambda>_.
     and_then (mark_accepted r symbol) (\<lambda>_.
     and_then (take_snapshot (si_now ins)) (\<lambda>_.
     and_then (register_receipt (si_now ins) r) (\<lambda>_.
     and_then (record_risk_decision V (si_now ins) r) (\<lambda>_.
     and_then (save_checkpoint ins) (\<lambda>_.
     and_then (publish_result ins r) (\<lambda>_. finish r))))))))))) (refresh_kill_switch ins s)"
  unfolding cycle_body_def by (rule and_then_run(2)) (simp add: update_service_def)

text \<open>A cycle ends at its snapshot, or hands it to the runtime; the rest is quiet.\<close>

lemma cycle_stages:
  assumes "cycle_body V ins symbol s = (s', x)"
  obtains (snapshot_failed) e where "take_snapshot (si_now ins) (refresh_kill_switch ins s) = (s', Inl e)" "x = Inl e"
  | (ran) s1 pf s2 y where "take_snapshot (si_now ins) (refresh_kill_switch ins s) = (s1, Inr pf)"
      "run_runtime V ins symbol pf s1 = (s2, y)" "quiet s2 s'" "\<And>e. y = Inl e \<Longrightarrow> x = Inl e"
proof -
  obtain s1 y where t: "take_snapshot (si_now ins) (refresh_kill_switch ins s) = (s1, y)" by (metis prod.exhaust)
  show ?thesis
  proof (cases y)
    case (Inl e)
    from assms [unfolded cycle_start and_then_run(1) [of "take_snapshot (si_now ins)", OF t [unfolded Inl]]] t Inl
    show ?thesis by (intro snapshot_failed) auto
  next
    case (Inr pf)
    note run = assms [unfolded cycle_start and_then_run(2) [of "take_snapshot (si_now ins)", OF t [unfolded Inr]]]
    obtain s2 z where r: "run_runtime V ins symbol pf s1 = (s2, z)" by (metis prod.exhaust)
    show ?thesis
    proof (cases z)
      case (Inl e)
      from run [unfolded and_then_run(1) [of "run_runtime V ins symbol pf", OF r [unfolded Inl]]] have "s' = s2" "x = Inl e" by simp_all
      with ran [OF _ r] t Inr Inl show ?thesis by (simp add: quiet_def steady_def)
    next
      case z: (Inr r0)
      note run [unfolded and_then_run(2) [of "run_runtime V ins symbol pf", OF r [unfolded z]]]
      from framedD [OF quiet_booking this] ran [OF _ r] t Inr z show ?thesis by blast
    qed
  qed
qed

lemma refresh_fields:
  "sv_venue_trace (refresh_kill_switch ins s) = sv_venue_trace s" "sv_portfolio (refresh_kill_switch ins s) = sv_portfolio s"
  "submission_enabled (refresh_kill_switch ins s) = submission_enabled s"
  "rt_trading_mode (sv_runtime (refresh_kill_switch ins s)) = rt_trading_mode (sv_runtime s)"
  "re_settings (pp_risk_engine (rt_pipeline (sv_runtime (refresh_kill_switch ins s))))
     = re_settings (pp_risk_engine (rt_pipeline (sv_runtime s)))"
  by (simp_all add: refresh_kill_switch_def share_kill_switch_def submission_enabled_def Let_def split: option.splits)

lemma venue_change:
  assumes "run_symbol V describe ins symbol s = (s', x)" "sv_venue_trace s' \<noteq> sv_venue_trace s"
  obtains t b pf cs intel edge r cb i where
    "submission_enabled s" "rt_trading_mode (sv_runtime s) = ''paper''" "next_tick symbol (ci_tick (si_cycle ins)) = Inr t"
    "snapshot (si_now ins) (sv_portfolio s) = (b, Inr pf)"
    "process (ci_env (si_cycle ins)) (rt_pipeline (sv_runtime (refresh_kill_switch ins s))) t
       (reference_prices (ci_references (si_cycle ins))) pf cs intel edge (ci_now (si_cycle ins)) = Some (Inr (r, cb))"
    "pr_paper_order r = Some i"
proof -
  let ?s = "s\<lparr>sv_cycle := sv_cycle s + 1\<rparr>"
  from run_symbol_body [OF assms(1)] obtain s0 h where c0: "cycle_body V ins symbol ?s = (s0, x)"
    "s' = s0\<lparr>sv_health := h\<rparr>" .
  then have c: "cycle_body V ins symbol ?s = (s0, x)" "sv_venue_trace s0 = sv_venue_trace s'" by simp_all
  have same: "submission_enabled ?s = submission_enabled s" "rt_pipeline (sv_runtime (refresh_kill_switch ins ?s)) = rt_pipeline (sv_runtime (refresh_kill_switch ins s))"
    by (simp_all add: submission_enabled_def refresh_kill_switch_def share_kill_switch_def Let_def split: option.splits)
  from c(1) show ?thesis
  proof (cases rule: cycle_stages)
    case (snapshot_failed e)
    then show ?thesis using c(2) assms(2) snapshot_state [OF snapshot_failed(1)] by (simp add: refresh_fields)
  next
    case (ran s1 pf s2 y)
    have s1: "s1 = (refresh_kill_switch ins ?s)\<lparr>sv_portfolio := fst (snapshot (si_now ins) (sv_portfolio s))\<rparr>"
      using snapshot_state [OF ran(1)] by (simp add: refresh_fields)
    have snap: "\<exists>b. snapshot (si_now ins) (sv_portfolio s) = (b, Inr pf)"
      using ran(1) by (auto simp: take_snapshot_def refresh_fields split: prod.splits sum.splits)
    have moved: "sv_venue_trace s2 \<noteq> sv_venue_trace s1"
      using ran(3) c(2) assms(2) by (simp add: quiet_def s1 refresh_fields)
    define w where "w = \<lparr>w_ledger = opt_or (sv_ledger s1) empty_ledger, w_trace = sv_venue_trace s1\<rparr>"
    obtain R w' z where o: "run_once (se_digests V) (se_render_shadow V) (si_cycle ins) symbol pf (submission_enabled s1)
        (sv_runtime s1, w) = ((R, w'), z)" by (metis prod.exhaust)
    with ran(2) moved have "w' \<noteq> w" by (auto simp: run_runtime_def w_def)
    from run_once_world [OF o this] obtain t cs intel edge R1 R2 r R3 r' v i where
      "next_tick symbol (ci_tick (si_cycle ins)) = Inr t" "rt_pipeline R1 = rt_pipeline (sv_runtime s1)" "submission_enabled s1"
      "rt_trading_mode (sv_runtime s1) = ''paper''" and
      p: "run_pipeline (si_cycle ins) t pf cs intel edge R1 = (R2, Inr r)"
      "run_meta_review (se_digests V) (ci_review_clock (si_cycle ins)) (tk_symbol t) r R2 = (R3, Inr (r', v))"
      "pr_paper_order r' = Some i" .
    moreover have "pr_paper_order r = Some i" using run_meta_review_order [OF p(2)] p(3) by auto
    moreover from run_pipeline_Inr [OF p(1)] obtain cb where
      "process (ci_env (si_cycle ins)) (rt_pipeline R1) t (reference_prices (ci_references (si_cycle ins))) pf cs intel edge
         (ci_now (si_cycle ins)) = Some (Inr (r, cb))" .
    moreover have "submission_enabled s1 = submission_enabled s"
      using same(1) refresh_fields(3) [of ins ?s] unfolding s1 by (simp add: submission_enabled_def)
    moreover have "rt_trading_mode (sv_runtime s1) = rt_trading_mode (sv_runtime s)" by (simp add: s1 refresh_fields)
    moreover have "rt_pipeline (sv_runtime s1) = rt_pipeline (sv_runtime (refresh_kill_switch ins s))" using same(2) by (simp add: s1)
    ultimately show ?thesis using that snap by metis
  qed
qed

section \<open>Properties of a cycle\<close>

text \<open>
  C2: nothing reaches the venue without a licence. When a symbol cycle changes the venue's trace,
  submission was enabled (armed, not blocked by reconciliation, no torn state, not diagnostic), the
  runtime was in paper mode, and the pipeline, run on the snapshot of the shared book and with the
  kill switch refreshed in this cycle, produced the order: market data accepted, no switch engaged,
  the proposal unblocked by the risk engine and the order no larger than it asked for.
\<close>

theorem service_order_licensed:
  assumes "run_symbol V describe ins symbol s = (s', x)" "sv_venue_trace s' \<noteq> sv_venue_trace s"
    and "settings_valid (re_settings (pp_risk_engine (rt_pipeline (sv_runtime s))))"
  shows "submission_enabled s \<and> rt_trading_mode (sv_runtime s) = ''paper''
    \<and> (\<exists>P t b pf cs intel edge r cb i p at_time fv. P = rt_pipeline (sv_runtime (refresh_kill_switch ins s))
        \<and> next_tick symbol (ci_tick (si_cycle ins)) = Inr t \<and> snapshot (si_now ins) (sv_portfolio s) = (b, Inr pf)
        \<and> process (ci_env (si_cycle ins)) P t (reference_prices (ci_references (si_cycle ins))) pf cs intel edge
            (ci_now (si_cycle ins)) = Some (Inr (r, cb))
        \<and> pr_paper_order r = Some i \<and> pr_proposal r = Some p
        \<and> data_accepted P (ci_now (si_cycle ins)) t (reference_prices (ci_references (si_cycle ins)))
        \<and> \<not> halted (cy_ks_env (ci_env (si_cycle ins))) (pp_risk_engine P)
        \<and> \<not> blocked at_time (pp_risk_engine P) p pf (Some fv)
        \<and> 0 < in_notional_usd i \<and> in_notional_usd i \<le> tp_requested_notional_usd p)"
proof -
  from venue_change [OF assms(1,2)] obtain t b pf cs intel edge r cb i where
    1: "submission_enabled s" "rt_trading_mode (sv_runtime s) = ''paper''" "next_tick symbol (ci_tick (si_cycle ins)) = Inr t"
    "snapshot (si_now ins) (sv_portfolio s) = (b, Inr pf)"
    "process (ci_env (si_cycle ins)) (rt_pipeline (sv_runtime (refresh_kill_switch ins s))) t
       (reference_prices (ci_references (si_cycle ins))) pf cs intel edge (ci_now (si_cycle ins)) = Some (Inr (r, cb))"
    "pr_paper_order r = Some i" .
  have "settings_valid (re_settings (pp_risk_engine (rt_pipeline (sv_runtime (refresh_kill_switch ins s)))))"
    using assms(3) by (simp add: refresh_fields)
  from process_order_safe [OF 1(5,6) this] 1 show ?thesis by blast
qed

text \<open>
  C3: with the gates closed (reconciliation blocked, a torn durable state, or diagnostic mode) a
  symbol cycle reaches neither the venue nor the book: no venue call, the same cash, the same
  quantity of every asset, and the same ledger when no hedge book is attached, however the cycle
  ends.
\<close>

theorem service_gates_closed:
  assumes "run_symbol V describe ins symbol s = (s', x)" "gates_closed s"
  shows "sv_venue_trace s' = sv_venue_trace s \<and> b_cash_usd (sv_portfolio s') = b_cash_usd (sv_portfolio s)
    \<and> (\<forall>a. quantity_of (sv_portfolio s') a = quantity_of (sv_portfolio s) a)
    \<and> (sv_perp s = None \<longrightarrow> sv_ledger s' = sv_ledger s)"
proof -
  from run_symbol_body [OF assms(1)] obtain s1 h where
    c: "cycle_body V ins symbol (s\<lparr>sv_cycle := sv_cycle s + 1\<rparr>) = (s1, x)" "s' = s1\<lparr>sv_health := h\<rparr>" .
  from withholdingD [OF withholding_cycle c(1)] assms(2) c(2) show ?thesis
    by (simp add: no_new_risk_def gates_closed_def)
qed

text \<open>
  C4: an engaged kill switch freezes the service. When the switch reads engaged after this cycle's
  refresh, the cycle makes no venue call, books no fill, opens no hedge and leaves ledger, cash and
  quantities as they were, however it ends.
\<close>

theorem kill_switch_freezes_service:
  assumes "run_symbol V describe ins symbol s = (s', x)" "sv_kill_switch s = Some k"
    and "engaged (si_ks_env ins) (fst (refresh (si_now ins) (si_kill_probe ins) (si_ks_env ins) k))"
    and "cy_ks_env (ci_env (si_cycle ins)) = si_ks_env ins"
    and "settings_valid (re_settings (pp_risk_engine (rt_pipeline (sv_runtime s))))"
  shows "sv_venue_trace s' = sv_venue_trace s \<and> sv_ledger s' = sv_ledger s
    \<and> b_cash_usd (sv_portfolio s') = b_cash_usd (sv_portfolio s)
    \<and> (\<forall>a. quantity_of (sv_portfolio s') a = quantity_of (sv_portfolio s) a)
    \<and> map_option pb_positions (sv_perp s') = map_option pb_positions (sv_perp s)"
proof -
  from run_symbol_body [OF assms(1)] obtain s1 h where
    c: "cycle_body V ins symbol (s\<lparr>sv_cycle := sv_cycle s + 1\<rparr>) = (s1, x)" "s' = s1\<lparr>sv_health := h\<rparr>" .
  have "frozen (s\<lparr>sv_cycle := sv_cycle s + 1\<rparr>) s1"
    by (rule cycle_off [OF _ assms(3) _ assms(4) c(1)]) (use assms in simp_all)
  with c(2) show ?thesis by (simp add: frozen_def)
qed

text \<open>
  C5: every decision is audited. A completed cycle whose pipeline made a proposal that the risk
  engine ruled on, with an audit trail configured, appends exactly one record, with that proposal
  and that ruling, to a trail that stays a valid chain.
\<close>

theorem service_audits_decisions:
  assumes "run_symbol V describe ins symbol s = (s', Inr r)" "sv_audit s = Some (t, f)" "sv_settings s \<noteq> None"
    and "pr_proposal (rn_pipeline r) = Some p" "pr_risk_result (rn_pipeline r) = Some x"
    and "file_intact (se_audit_sha V) f" "in_sync t f"
  shows "\<exists>t' f' rec. sv_audit s' = Some (t', f') \<and> cv_valid (verify_chain (se_audit_sha V) f') \<and> in_sync t' f'
    \<and> file_records f' = file_records f @ [rec] \<and> ab_proposal rec = p \<and> ab_result rec = x"
proof -
  from run_symbol_body [OF assms(1)] obtain s1 h where
    c: "cycle_body V ins symbol (s\<lparr>sv_cycle := sv_cycle s + 1\<rparr>) = (s1, Inr r)" "s' = s1\<lparr>sv_health := h\<rparr>" .
  from assms(3) obtain st where "sv_settings s = Some st" by blast
  then show ?thesis using cycle_audits [OF c(1) _ _ assms(4-7)] assms(2) c(2) by auto
qed

section \<open>Reconciliation and submission\<close>

lemma reconcile_execution_frame:
  assumes "reconcile_execution ins s = (s', x)"
  shows "steady s s'" "sv_simulator s' = sv_simulator s" "sv_drift_reconciler s' = sv_drift_reconciler s"
    "sv_ledger s' = None \<longleftrightarrow> sv_ledger s = None"
  using assms by (auto simp: reconcile_execution_def Let_def save_ledger_def log_event_def steady_def
      split: option.splits sum.splits prod.splits if_splits)

lemma reconcile_execution_clean:
  assumes "reconcile_execution ins s = (s', Inr [])" "sv_exec_reconciler s = Some bps" "sv_ledger s = Some L"
  obtains orders trades w res where "ri_venue ins = Inr (orders, trades)"
    "reconcile_state bps (ri_now ins) orders trades \<lparr>pw_ledger = L, pw_book = sv_portfolio s\<rparr> = (w, Inr res)"
    "rec_conflicts res = []" "sv_ledger s' = Some (pw_ledger w)" "sv_portfolio s' = pw_book w"
  using assms by (auto simp: reconcile_execution_def Let_def save_ledger_def log_event_def
      split: option.splits sum.splits prod.splits if_splits)

text \<open>
  C6: reconciliation gates submission. A pass that fails leaves submission and paper fills
  disabled. A pass that succeeds has read the venue, found no conflict in its orders and trades and
  no drift in the reconciled book, and leaves submission to the arming flag, the durable state and
  the diagnostic mode.
\<close>

theorem reconcile_gates_submission:
  assumes "reconcile_now ins s = (s', ok)"
  shows "if \<not> ok then \<not> submission_enabled s' \<and> \<not> paper_fill_enabled s'
    else (submission_enabled s' \<longleftrightarrow> sv_submit s \<and> rh_durable_state_error (sv_health s) = None \<and> \<not> sv_diagnostic_mode s)
       \<and> (\<forall>bps L. sv_exec_reconciler s = Some bps \<and> sv_ledger s = Some L \<longrightarrow>
            (\<exists>orders trades w res. ri_venue ins = Inr (orders, trades)
              \<and> reconcile_state bps (ri_now ins) orders trades \<lparr>pw_ledger = L, pw_book = sv_portfolio s\<rparr> = (w, Inr res)
              \<and> rec_conflicts res = [] \<and> sv_ledger s' = Some (pw_ledger w) \<and> sv_portfolio s' = pw_book w))
       \<and> (\<forall>account connector max_bps. sv_drift_reconciler s = Some (account, connector, max_bps) \<longrightarrow>
            (\<exists>payload d. ri_portfolio_state ins = Inr payload
              \<and> portfolio_drift account connector max_bps payload (sv_portfolio s') = Inr d \<and> dr_matched d))"
proof -
  obtain s1 y where e: "reconcile_execution ins s = (s1, y)" by (metis prod.exhaust)
  note fr = reconcile_execution_frame [OF e]
  show ?thesis
  proof (cases ok)
    case False
    with assms e show ?thesis
      by (auto simp: reconcile_now_def submission_enabled_def paper_fill_enabled_def record_reconciliation_failure_def
          split: sum.splits if_splits)
  next
    case True
    with assms e have y: "y = Inr []" "reconcile_portfolio ins s1 = Inr []"
      "s' = s1\<lparr>sv_health := record_reconciliation_success (ri_now ins) (sv_health s1)\<rparr>"
      by (auto simp: reconcile_now_def split: sum.splits if_splits)
    have enabled: "submission_enabled s' \<longleftrightarrow> sv_submit s \<and> rh_durable_state_error (sv_health s) = None \<and> \<not> sv_diagnostic_mode s"
      using y(3) fr(1) by (auto simp: submission_enabled_def steady_def record_reconciliation_success_def Let_def)
    have clean: "\<exists>orders trades w res. ri_venue ins = Inr (orders, trades)
        \<and> reconcile_state bps (ri_now ins) orders trades \<lparr>pw_ledger = L, pw_book = sv_portfolio s\<rparr> = (w, Inr res)
        \<and> rec_conflicts res = [] \<and> sv_ledger s' = Some (pw_ledger w) \<and> sv_portfolio s' = pw_book w"
      if "sv_exec_reconciler s = Some bps" "sv_ledger s = Some L" for bps L
      by (rule reconcile_execution_clean [OF e [unfolded y(1)] that]) (use y(3) in auto)
    have matched: "\<exists>payload d. ri_portfolio_state ins = Inr payload
        \<and> portfolio_drift account connector max_bps payload (sv_portfolio s') = Inr d \<and> dr_matched d"
      if "sv_drift_reconciler s = Some (account, connector, max_bps)" for account connector max_bps
      using y(2,3) fr(3) that by (auto simp: reconcile_portfolio_def split: sum.splits if_splits)
    show ?thesis using True enabled clean matched by auto
  qed
qed

section \<open>The loop\<close>

lemma run_symbol_loop:
  assumes "run_symbol V describe ins symbol s = (s', x)"
  shows "sv_health s' = (case x of Inl e \<Rightarrow> record_error (si_now ins) (describe e) (sv_health s)
        | Inr r \<Rightarrow> record_success (si_now ins) symbol (sv_health s))"
    "sv_stopped s' = sv_stopped s" "sv_symbols s' = sv_symbols s" "sv_cycle s' = sv_cycle s + 1"
proof -
  from run_symbol_body [OF assms] obtain s1 h where c: "cycle_body V ins symbol (s\<lparr>sv_cycle := sv_cycle s + 1\<rparr>) = (s1, x)"
    "s' = s1\<lparr>sv_health := h\<rparr>" "h = (case x of Inl e \<Rightarrow> record_error (si_now ins) (describe e) (sv_health s1)
          | Inr r \<Rightarrow> record_success (si_now ins) symbol (sv_health s1))" .
  from framedD [OF steady_cycle c(1)] c(2,3) show
    "sv_health s' = (case x of Inl e \<Rightarrow> record_error (si_now ins) (describe e) (sv_health s)
        | Inr r \<Rightarrow> record_success (si_now ins) symbol (sv_health s))"
    "sv_stopped s' = sv_stopped s" "sv_symbols s' = sv_symbols s" "sv_cycle s' = sv_cycle s + 1"
    by (simp_all add: steady_def split: sum.splits)
qed

text \<open>Reconciliation counts no errors and records no torn state.\<close>

definition same_count :: "service \<Rightarrow> service \<Rightarrow> bool" where
  "same_count s s' \<longleftrightarrow> rh_consecutive_errors (sv_health s') = rh_consecutive_errors (sv_health s)
     \<and> rh_max_consecutive_errors (sv_health s') = rh_max_consecutive_errors (sv_health s)
     \<and> rh_durable_state_error (sv_health s') = rh_durable_state_error (sv_health s)
     \<and> sv_stopped s' = sv_stopped s \<and> sv_symbols s' = sv_symbols s \<and> sv_cycle s' = sv_cycle s"

lemma reconcile_same_count: "same_count s (maybe_reconcile ins s)"
proof -
  have "same_count s (fst (reconcile_now ins s))" for s
  proof -
    obtain s1 y where e: "reconcile_execution ins s = (s1, y)" by (metis prod.exhaust)
    from reconcile_execution_frame(1) [OF e] e show ?thesis
      by (auto simp: reconcile_now_def same_count_def steady_def record_reconciliation_failure_def
          record_reconciliation_success_def Let_def split: sum.splits)
  qed
  from this [of "s\<lparr>sv_last_reconcile_at := Some (ri_monotonic ins)\<rparr>"] show ?thesis
    by (simp add: maybe_reconcile_def same_count_def)
qed

lemma same_count_healthy: "same_count s s' \<Longrightarrow> healthy (sv_health s') = healthy (sv_health s)"
  by (simp add: same_count_def healthy_def)

text \<open>A loop state: the error count within its limit, and running only while healthy.\<close>

definition loop_ok :: "service \<Rightarrow> bool" where
  "loop_ok s \<longleftrightarrow> 0 \<le> rh_consecutive_errors (sv_health s) \<and> rh_consecutive_errors (sv_health s) \<le> rh_max_consecutive_errors (sv_health s)
     \<and> (sv_stopped s \<or> healthy (sv_health s))"

lemma same_count_loop: "same_count s s' \<Longrightarrow> loop_ok s' = loop_ok s"
  by (simp add: loop_ok_def same_count_healthy) (simp add: same_count_def)

lemma run_symbols_loop: "loop_ok s \<Longrightarrow> loop_ok (run_symbols V describe inputs xs s)"
proof (induction xs arbitrary: s)
  case (Cons x xs)
  obtain s1 y where r: "run_symbol V describe (inputs x) x s = (s1, y)" by (metis prod.exhaust)
  have pos: "0 \<le> rh_consecutive_errors (sv_health s1)"
    using Cons.prems run_symbol_loop(1) [OF r] by (cases y) (simp_all add: loop_ok_def record_error_def record_success_def)
  then have "loop_ok s1" if "healthy (sv_health s1)"
    using that by (simp add: loop_ok_def healthy_def)
  moreover have "loop_ok (s1\<lparr>sv_stopped := True\<rparr>)" if "\<not> sv_stopped s"
    using Cons.prems that run_symbol_loop(1) [OF r] pos
    by (cases y) (auto simp: loop_ok_def healthy_def record_error_def record_success_def)
  ultimately show ?case using Cons r by (simp add: Let_def)
qed simp

text \<open>
  C7: the error limit holds. From a healthy start, after any passes, reconciliations and cycles
  with any outcomes, the count of consecutive errors is within its limit, and the loop is either
  stopped or healthy: it never runs on past the limit or a torn state.
\<close>

theorem service_error_limit:
  assumes "healthy (sv_health s)" "0 \<le> rh_consecutive_errors (sv_health s)"
  shows "rh_consecutive_errors (sv_health (run_cycles V describe ps s))
       \<le> rh_max_consecutive_errors (sv_health (run_cycles V describe ps s))
    \<and> (sv_stopped (run_cycles V describe ps s) \<or> healthy (sv_health (run_cycles V describe ps s)))"
proof -
  have "loop_ok s \<Longrightarrow> loop_ok (run_cycles V describe ps s)"
  proof (induction ps arbitrary: s)
    case (Cons p ps)
    from Cons show ?case
      by (simp add: run_symbols_loop same_count_loop [OF reconcile_same_count])
  qed simp
  with assms show ?thesis by (simp add: loop_ok_def healthy_def)
qed

text \<open>Errors left before the limit.\<close>

definition budget :: "service \<Rightarrow> nat" where
  "budget s = nat (rh_max_consecutive_errors (sv_health s) - rh_consecutive_errors (sv_health s))"

definition dead :: "symbol_inputs \<Rightarrow> bool" where
  "dead ins \<longleftrightarrow> (case ci_tick (si_cycle ins) of StreamTick t \<Rightarrow> False | _ \<Rightarrow> True)"

lemma dead_cycle:
  assumes "dead ins" "run_symbol V describe ins symbol s = (s', x)"
  shows "\<exists>e. x = Inl e"
proof -
  from run_symbol_body [OF assms(2)] obtain s1 where
    "cycle_body V ins symbol (s\<lparr>sv_cycle := sv_cycle s + 1\<rparr>) = (s1, x)" by blast
  then show ?thesis
  proof (cases rule: cycle_stages)
    case (ran s2 pf s3 y)
    from ran(2) assms(1) have "\<exists>e. y = Inl e"
      by (auto simp: run_runtime_def run_once_def next_tick_def dead_def split: tick_stream.splits)
    with ran(4) show ?thesis by blast
  qed blast
qed

text \<open>A run of \<open>n\<close> failing cycles, which ends early when the budget is spent.\<close>

definition spent :: "nat \<Rightarrow> service \<Rightarrow> service \<Rightarrow> bool" where
  "spent n s s' \<longleftrightarrow> (sv_stopped s' \<longleftrightarrow> budget s \<le> n) \<and> sv_cycle s' = sv_cycle s + min (budget s) n
     \<and> budget s' = budget s - n \<and> rh_durable_state_error (sv_health s') = None \<and> sv_symbols s' = sv_symbols s"

lemma spent_none: "healthy (sv_health s) \<Longrightarrow> \<not> sv_stopped s \<Longrightarrow> spent 0 s s"
  by (simp add: spent_def budget_def healthy_def)

lemma spent_seq: "spent m s s1 \<Longrightarrow> \<not> sv_stopped s1 \<Longrightarrow> spent n s1 s2 \<Longrightarrow> spent (m + n) s s2"
  by (auto simp: spent_def)

lemma spent_stopped: "spent m s s1 \<Longrightarrow> sv_stopped s1 \<Longrightarrow> spent (m + n) s s1"
  by (auto simp: spent_def)

lemma spent_healthy: "spent m s s1 \<Longrightarrow> \<not> sv_stopped s1 \<Longrightarrow> healthy (sv_health s1)"
  by (auto simp: spent_def budget_def healthy_def)

lemma same_count_spent: "same_count s s1 \<Longrightarrow> spent n s1 s2 \<Longrightarrow> spent n s s2"
  by (simp add: same_count_def spent_def budget_def)

lemma dead_symbols:
  assumes "\<forall>x \<in> set xs. dead (inputs x)" "healthy (sv_health s)" "\<not> sv_stopped s"
  shows "spent (length xs) s (run_symbols V describe inputs xs s)"
  using assms
proof (induction xs arbitrary: s)
  case (Cons x xs)
  obtain s1 y where r: "run_symbol V describe (inputs x) x s = (s1, y)" by (metis prod.exhaust)
  from dead_cycle [OF _ r] Cons.prems(1) obtain e where y: "y = Inl e" by auto
  note l = run_symbol_loop [OF r, unfolded y]
  show ?case
  proof (cases "healthy (sv_health s1)")
    case True
    with l Cons.prems(2,3) have one: "spent 1 s s1" "\<not> sv_stopped s1"
      by (auto simp: spent_def budget_def healthy_def record_error_def)
    from Cons.IH [OF _ True one(2)] Cons.prems(1) have "spent (length xs) s1 (run_symbols V describe inputs xs s1)" by simp
    from spent_seq [OF one this] r True Cons.prems(3) show ?thesis by simp
  next
    case False
    with l Cons.prems(2) have "spent 1 s (s1\<lparr>sv_stopped := True\<rparr>)"
      by (auto simp: spent_def budget_def healthy_def record_error_def)
    from spent_stopped [OF this, of "length xs"] r False Cons.prems(3) show ?thesis by simp
  qed
qed (simp add: spent_none)

lemma run_cycles_stopped: "sv_stopped s \<Longrightarrow> run_cycles V describe ps s = s"
  by (cases ps) simp_all

text \<open>
  C8: a dead feed stops the service. When no symbol's stream yields a tick and the passes offer at
  least as many cycles as the error limit has left, the loop stops after exactly that many cycles.
\<close>

theorem dead_feed_stops_service:
  assumes "\<forall>p \<in> set ps. \<forall>x \<in> set (sv_symbols s). dead (snd p x)" "healthy (sv_health s)" "\<not> sv_stopped s"
    and "rh_max_consecutive_errors (sv_health s) - rh_consecutive_errors (sv_health s)
       \<le> int (length ps * length (sv_symbols s))"
  shows "sv_stopped (run_cycles V describe ps s)
    \<and> sv_cycle (run_cycles V describe ps s) = sv_cycle s
        + nat (rh_max_consecutive_errors (sv_health s) - rh_consecutive_errors (sv_health s))"
proof -
  have "spent (length ps * length (sv_symbols s)) s (run_cycles V describe ps s)" using assms(1-3)
  proof (induction ps arbitrary: s)
    case (Cons p ps)
    let ?r = "maybe_reconcile (fst p) s"
    let ?s1 = "run_symbols V describe (snd p) (sv_symbols s) ?r"
    note same = reconcile_same_count [of s "fst p"]
    have r: "healthy (sv_health ?r)" "\<not> sv_stopped ?r"
      using Cons.prems(2,3) same_count_healthy [OF same] same by (simp_all add: same_count_def)
    have "spent (length (sv_symbols s)) ?r ?s1" using Cons.prems(1) by (intro dead_symbols r) simp
    from same_count_spent [OF same this] have one: "spent (length (sv_symbols s)) s ?s1" .
    show ?case
    proof (cases "sv_stopped ?s1")
      case True
      from spent_stopped [OF one True] Cons.prems(3) run_cycles_stopped [OF True] show ?thesis by simp
    next
      case False
      have "spent (length ps * length (sv_symbols ?s1)) ?s1 (run_cycles V describe ps ?s1)"
        using one Cons.prems(1) by (intro Cons.IH spent_healthy [OF one False] False) (simp add: spent_def)
      from spent_seq [OF one False this] one Cons.prems(3) show ?thesis by (simp add: spent_def [of _ _ ?s1])
    qed
  qed (simp add: spent_none)
  with assms(4) show ?thesis by (simp add: spent_def budget_def nat_le_iff min_def)
qed

section \<open>Concrete runs\<close>

definition ex_flat :: book where
  "ex_flat = \<lparr>b_starting_nav_usd = 10000, b_cash_usd = 10000, b_peak_nav_usd = 10000, b_realized_pnl_usd = 0,
     b_positions = [], b_marks_usd = [], b_day_start_nav_usd = Some 10000, b_day_start_date = Some 0\<rparr>"

definition ex_flat_snapshot :: portfolio_snapshot where
  "ex_flat_snapshot = \<lparr>ps_nav_usd = 10000, ps_cash_usd = 10000, ps_daily_pnl_usd = 0, ps_peak_nav_usd = 10000,
     ps_asset_exposure_usd = [], ps_observed_at = 0, ps_held_positions = []\<rparr>"

definition ex_cycle_inputs :: cycle_inputs where
  "ex_cycle_inputs = \<lparr>ci_tick = StreamTick ex_tick, ci_references = [Inr [ex_ref]], ci_candles = None,
     ci_intelligence = None, ci_gathered_at = 0, ci_liquidations = None, ci_book_ticker = None, ci_env = ex_V,
     ci_now = 0, ci_review_clock = ex_clock, ci_sub_env = Submitter.ex_env, ci_shadow_at = 0,
     ci_bare_http = HttpFailed []\<rparr>"

definition ex_runtime :: runtime where
  "ex_runtime = \<lparr>rt_pipeline = ex_P, rt_intel_cache = ex_cache, rt_meta_reviewer = None, rt_submitter = None,
     rt_executor = Some (su_executor ex_submitter), rt_trading_mode = ''paper'', rt_shadow = None\<rparr>"

definition ex_service_env :: service_env where
  "ex_service_env = \<lparr>se_digests = \<lparr>dg_h10 = (\<lambda>d. d), dg_h16 = (\<lambda>d. d), dg_evidence = (\<lambda>p. [])\<rparr>,
     se_render_shadow = (\<lambda>r. []), se_render_fill = (\<lambda>r. []), se_audit_sha = ex_sha, se_limits_digest = (\<lambda>d. [])\<rparr>"

definition ex_inputs :: symbol_inputs where
  "ex_inputs = \<lparr>si_cycle = ex_cycle_inputs, si_kill_probe = ProbeRaised [], si_ks_env = Risk.ex_env, si_now = 0,
     si_hedge_mid = Inr None, si_funding = (\<lambda>v t. Inr []), si_funding_mid = Inr None, si_diag_mid = Inr None,
     si_diag_funding = (\<lambda>v. Inr []), si_ledger_save = None, si_checkpoint = None, si_sink = None\<rparr>"

definition ex_service :: service where
  "ex_service = \<lparr>sv_runtime = ex_runtime, sv_portfolio = ex_flat, sv_symbols = [''BTC/USD''], sv_submit = True,
     sv_ledger = Some empty_ledger, sv_health = new_health 3, sv_kill_switch = None, sv_audit = Some (new_trail, None),
     sv_anchors = None, sv_settings = Some ex_settings, sv_exec_reconciler = None, sv_drift_reconciler = None,
     sv_has_ledger_store = False, sv_has_checkpoint = False, sv_reconcile_interval_seconds = 60, sv_simulator = None,
     sv_perp = None, sv_has_perp_feed = False, sv_perp_venue = [], sv_perp_last_funding_at = [],
     sv_diagnostic_mode = False, sv_cycle = 0, sv_stopped = False, sv_last_reconcile_at = None,
     sv_venue_trace = [], sv_events = []\<rparr>"

lemma ex_epoch: "utc_date 0 = 0"
  by (simp add: utc_date_def)

lemma ex_flat_taken: "snapshot 0 ex_flat = (ex_flat, Inr ex_flat_snapshot)"
  by (simp add: snapshot_def roll_day_def ex_flat_def ex_flat_snapshot_def ex_epoch nav_usd_def daily_pnl_usd_def
      open_positions_def snapshot_valid_def py_sum_eq Let_def)

lemma ex_flat_free:
  "\<not> blocked 0 ex_engine (entry_proposal ex_V ex_P ''BTC'' ex_flat_snapshot 0 None) ex_flat_snapshot (Some (ex_fv ids))"
proof -
  have "ps_nav_usd ex_flat_snapshot = 10000" by (simp add: ex_flat_snapshot_def)
  from ex_entry_proposal_from [OF this] show ?thesis
    by (simp add: blocked_def state_stale_def ex_flat_snapshot_def total_seconds_def breaker_blocks_def
        consult_breaker_def ex_engine_def venue_blocks_def ex_proposal_def ex_upper_BTC ex_assets
        loss_limits_hit_def no_room_def gross_room_def cash_room_def held_assets_def
        existing_exposure_def dict_get_or_def ex_fv_def plain_features_def ex_more_fields)
qed

text \<open>One example cycle: an order, sent when submitting, kept in the result otherwise.\<close>

lemma ex_run_once:
  obtains r cb i where
    "run_pipeline ex_cycle_inputs ex_tick ex_flat_snapshot [] None None ex_runtime
       = (ex_runtime\<lparr>rt_pipeline := ex_P\<lparr>pp_risk_engine := ex_engine\<lparr>re_circuit_breaker := cb\<rparr>\<rparr>\<rparr>, Inr r)"
    "pr_paper_order r = Some i" "0 < in_notional_usd i" "in_venue i = ''kraken_paper_trade''" "in_side i = BUY"
    "pr_proposal r \<noteq> None" "pr_risk_result r \<noteq> None" "pr_accepted_market_data r"
proof -
  have "ps_nav_usd ex_flat_snapshot = 10000" "ps_held_positions ex_flat_snapshot = []" by (simp_all add: ex_flat_snapshot_def)
  from ex_entry_from [OF this ex_flat_free] obtain r cb i where
    "process ex_V ex_P ex_tick [ex_ref] ex_flat_snapshot [] None None 0 = Some (Inr (r, cb))" "pr_paper_order r = Some i"
    "0 < in_notional_usd i" "in_venue i = ''kraken_paper_trade''" "in_side i = BUY"
    "pr_proposal r \<noteq> None" "pr_risk_result r \<noteq> None" "pr_accepted_market_data r" by blast
  moreover have "pp_risk_engine ex_P = ex_engine" by (simp add: ex_P_def)
  ultimately show ?thesis
    by (intro that [of cb r i]) (simp_all add: run_pipeline_def ex_cycle_inputs_def ex_runtime_def reference_prices_def)
qed

lemma ex_tick_next: "next_tick ''BTC/USD'' (ci_tick ex_cycle_inputs) = Inr ex_tick"
  by (simp add: next_tick_def ex_cycle_inputs_def ex_tick_def)

lemma ex_parts:
  "ci_candles ex_cycle_inputs = None" "ci_intelligence ex_cycle_inputs = None" "ci_liquidations ex_cycle_inputs = None"
  "ci_book_ticker ex_cycle_inputs = None" "ci_bare_http ex_cycle_inputs = HttpFailed []"
  "rt_meta_reviewer ex_runtime = None" "rt_submitter ex_runtime = None" "rt_trading_mode ex_runtime = ''paper''"
  "rt_executor ex_runtime = Some (su_executor ex_submitter)" "ex_runtime\<lparr>rt_intel_cache := rt_intel_cache ex_runtime\<rparr> = ex_runtime"
  by (simp_all add: ex_cycle_inputs_def ex_runtime_def)

lemma ex_bare:
  assumes "0 < in_notional_usd i" "in_venue i = ''kraken_paper_trade''"
  shows "execute_bare (su_executor ex_submitter) (HttpFailed []) ex_tick i w
    = (emit (VenueCall [] (in_notional_usd i / 97) (CallTransport [])) w, Inl (ExecutorRaised (CallTransport [])))"
  using assms by (simp add: execute_bare_def executor_submit_def build_request_def ex_submitter_def ex_tick_def
      endswith_def Let_def)

lemma ex_submitting:
  "\<exists>R w' e. run_once dg render ex_cycle_inputs ''BTC/USD'' ex_flat_snapshot True (ex_runtime, w) = ((R, w'), Inl e)
     \<and> length (w_trace w') = length (w_trace w) + 1"
  by (rule ex_run_once) (simp add: run_once_def ex_tick_next ex_parts fetched_history_def gather_intelligence_def
      edge_features_def with_book_ticker_def with_liquidations_def run_meta_review_def execute_order_def
      execute_paper_def ex_bare emit_def opt_or_def Let_def)

lemma ex_withheld:
  "\<exists>R res. run_once dg render ex_cycle_inputs ''BTC/USD'' ex_flat_snapshot False (ex_runtime, w) = ((R, w), Inr res)
     \<and> pr_paper_order (rn_pipeline res) \<noteq> None \<and> pr_proposal (rn_pipeline res) \<noteq> None
     \<and> pr_risk_result (rn_pipeline res) \<noteq> None \<and> rn_execution_receipt res = None \<and> rn_tick res = ex_tick"
  by (rule ex_run_once) (simp add: run_once_def ex_tick_next ex_parts fetched_history_def gather_intelligence_def
      edge_features_def with_book_ticker_def with_liquidations_def run_meta_review_def execute_order_def
      no_execution_def assemble_def opt_or_def Let_def)

lemma ex_refresh: "sv_kill_switch s = None \<Longrightarrow> refresh_kill_switch ins s = s"
  by (simp add: refresh_kill_switch_def)

lemma ex_snapshot_taken: "sv_portfolio s = ex_flat \<Longrightarrow> take_snapshot 0 s = (s, Inr ex_flat_snapshot)"
  by (cases s) (simp add: take_snapshot_def ex_flat_taken)

lemma ex_engine_valid: "settings_valid (re_settings (pp_risk_engine (rt_pipeline (sv_runtime ex_service))))"
  using ex_settings_valid by (simp add: ex_service_def ex_runtime_def ex_P_def ex_engine_def)

lemma ex_now: "si_now ex_inputs = 0" "si_cycle ex_inputs = ex_cycle_inputs" "si_ks_env ex_inputs = Risk.ex_env"
  "ci_env ex_cycle_inputs = ex_V" "cy_ks_env ex_V = Risk.ex_env"
  by (simp_all add: ex_inputs_def ex_cycle_inputs_def ex_V_def)

text \<open>The submitting cycle calls the venue once, which fails.\<close>

lemma ex_called:
  obtains s' x where "run_symbol ex_service_env (\<lambda>e. []) ex_inputs ''BTC/USD'' ex_service = (s', x)"
    "sv_venue_trace s' \<noteq> sv_venue_trace ex_service"
proof -
  let ?s = "ex_service\<lparr>sv_cycle := sv_cycle ex_service + 1\<rparr>"
  let ?w = "\<lparr>w_ledger = empty_ledger, w_trace = []\<rparr> :: sub_world"
  from ex_submitting [of "se_digests ex_service_env" "se_render_shadow ex_service_env" ?w] obtain R w' e where
    o: "run_once (se_digests ex_service_env) (se_render_shadow ex_service_env) ex_cycle_inputs ''BTC/USD'' ex_flat_snapshot True
      (ex_runtime, ?w) = ((R, w'), Inl e)" "length (w_trace w') = 1" by auto
  have f: "sv_kill_switch ?s = None" "sv_portfolio ?s = ex_flat" "submission_enabled ?s" "sv_runtime ?s = ex_runtime"
    "sv_ledger ?s = Some empty_ledger" "sv_venue_trace ?s = []"
    by (simp_all add: ex_service_def submission_enabled_def new_health_def)
  have r: "run_runtime ex_service_env ex_inputs ''BTC/USD'' ex_flat_snapshot ?s
      = (?s\<lparr>sv_runtime := R, sv_ledger := Some (w_ledger w'), sv_venue_trace := w_trace w'\<rparr>, Inl (SE_runtime e))"
    using o(1) f(3-6) by (simp add: run_runtime_def ex_now opt_or_def)
  have "take_snapshot (si_now ex_inputs) ?s = (?s, Inr ex_flat_snapshot)"
    using ex_snapshot_taken [OF f(2)] by (simp add: ex_now)
  note c = cycle_start [of ex_service_env ex_inputs "''BTC/USD''" ?s, unfolded ex_refresh [OF f(1)] and_then_run(2) [of "take_snapshot (si_now ex_inputs)", OF this]
      and_then_run(1) [of "run_runtime ex_service_env ex_inputs ''BTC/USD'' ex_flat_snapshot", OF r]]
  show ?thesis
    by (rule that [OF surjective_pairing]) (use c o(2) in \<open>auto simp: run_symbol_def ex_service_def\<close>)
qed

theorem service_order_licensed_witness:
  "\<exists>s' x. run_symbol ex_service_env (\<lambda>e. []) ex_inputs ''BTC/USD'' ex_service = (s', x)
     \<and> sv_venue_trace s' \<noteq> [] \<and> submission_enabled ex_service"
proof (rule ex_called)
  fix s' x assume r: "run_symbol ex_service_env (\<lambda>e. []) ex_inputs ''BTC/USD'' ex_service = (s', x)"
    "sv_venue_trace s' \<noteq> sv_venue_trace ex_service"
  from service_order_licensed [OF r ex_engine_valid] have "submission_enabled ex_service" by simp
  with r show ?thesis by (auto simp: ex_service_def)
qed

theorem service_gates_closed_witness:
  "\<exists>s' x. run_symbol ex_service_env (\<lambda>e. []) ex_inputs ''BTC/USD'' (ex_service\<lparr>sv_health := record_reconciliation_failure [] (new_health 3)\<rparr>) = (s', x)
     \<and> sv_venue_trace s' = [] \<and> b_cash_usd (sv_portfolio s') = 10000 \<and> sv_ledger s' = Some empty_ledger"
proof -
  let ?s = "ex_service\<lparr>sv_health := record_reconciliation_failure [] (new_health 3)\<rparr>"
  obtain s' x where r: "run_symbol ex_service_env (\<lambda>e. []) ex_inputs ''BTC/USD'' ?s = (s', x)" by (metis prod.exhaust)
  have "gates_closed ?s" by (simp add: gates_closed_def record_reconciliation_failure_def)
  from service_gates_closed [OF r this] r show ?thesis by (auto simp: ex_service_def ex_flat_def)
qed

definition ex_switch :: kill_switch where
  "ex_switch = \<lparr>ks_settings_flag = True, ks_sentinel_path = None, ks_redis_key = None, ks_redis_client = False,
     ks_redis_engaged = False, ks_redis_error = None, ks_last_refreshed_at = None\<rparr>"

theorem kill_switch_freezes_service_witness:
  "\<exists>s' x. run_symbol ex_service_env (\<lambda>e. []) ex_inputs ''BTC/USD'' (ex_service\<lparr>sv_kill_switch := Some ex_switch\<rparr>) = (s', x)
     \<and> sv_venue_trace s' = [] \<and> b_cash_usd (sv_portfolio s') = 10000 \<and> sv_ledger s' = Some empty_ledger"
proof -
  let ?s = "ex_service\<lparr>sv_kill_switch := Some ex_switch\<rparr>"
  obtain s' x where r: "run_symbol ex_service_env (\<lambda>e. []) ex_inputs ''BTC/USD'' ?s = (s', x)" by (metis prod.exhaust)
  have k: "engaged (si_ks_env ex_inputs) (fst (refresh (si_now ex_inputs) (si_kill_probe ex_inputs) (si_ks_env ex_inputs) ex_switch))"
    by (simp add: refresh_def engaged_def ex_switch_def Let_def)
  have "sv_kill_switch ?s = Some ex_switch" "cy_ks_env (ci_env (si_cycle ex_inputs)) = si_ks_env ex_inputs"
    "settings_valid (re_settings (pp_risk_engine (rt_pipeline (sv_runtime ?s))))"
    using ex_engine_valid by (simp_all add: ex_now)
  from kill_switch_freezes_service [OF r this(1) k this(2,3)] r show ?thesis by (auto simp: ex_service_def ex_flat_def)
qed

text \<open>The unarmed service completes the cycle: the bookings after the runtime's step, then the cycle.\<close>

definition ex_unarmed :: service where
  "ex_unarmed = ex_service\<lparr>sv_submit := False, sv_cycle := 1\<rparr>"

lemma ex_marked:
  assumes "rn_tick r = ex_tick" "sv_portfolio s = ex_flat"
  obtains c pf s1 where "mark_accepted r ''BTC/USD'' s = (s1, Inr ())" "take_snapshot 0 s1 = (s\<lparr>sv_portfolio := c\<rparr>, Inr pf)"
proof -
  obtain b where b: "mark_accepted r ''BTC/USD'' s = (s\<lparr>sv_portfolio := b\<rparr>, Inr ())" "b = ex_flat \<or> (\<exists>m. b = ex_flat\<lparr>b_marks_usd := m\<rparr>)"
    using assms by (cases "pr_accepted_market_data (rn_pipeline r)"; cases s)
      (auto simp: mark_accepted_def mark_def ex_flat_def ex_tick_def Let_def)
  have "\<exists>c pf. snapshot 0 b = (c, Inr pf)"
    using b(2) by (auto simp: snapshot_def roll_day_def ex_flat_def ex_epoch nav_usd_def daily_pnl_usd_def
      open_positions_def snapshot_valid_def py_sum_eq Let_def)
  then show ?thesis using that [OF b(1)] by (auto simp: take_snapshot_def)
qed

lemma ex_booked:
  assumes r: "pr_proposal (rn_pipeline r) = Some p" "pr_risk_result (rn_pipeline r) = Some x" "rn_tick r = ex_tick"
    "rn_execution_receipt r = None" and s2: "s2 = ex_unarmed\<lparr>sv_runtime := R\<rparr>"
  obtains c pf s1 t' f' where "maybe_apply_paper_fill ex_service_env ex_inputs r s2 = (s2, Inr r)"
    "maybe_apply_paper_perp_funding ex_inputs ''BTC/USD'' s2 = (s2, Inr ())"
    "maybe_open_carry_diagnostic_hedge ex_inputs ''BTC/USD'' s2 = (s2, Inr ())"
    "mark_accepted r ''BTC/USD'' s2 = (s1, Inr ())" "take_snapshot 0 s1 = (s2\<lparr>sv_portfolio := c\<rparr>, Inr pf)"
    "register_receipt 0 r (s2\<lparr>sv_portfolio := c\<rparr>) = (s2\<lparr>sv_portfolio := c\<rparr>, Inr ())"
    "record_risk_decision ex_service_env 0 r (s2\<lparr>sv_portfolio := c\<rparr>)
       = (s2\<lparr>sv_portfolio := c, sv_audit := Some (t', f')\<rparr>, Inr ())"
proof -
  have "sv_portfolio s2 = ex_flat" by (simp add: s2 ex_unarmed_def ex_service_def)
  from ex_marked [OF r(3) this] obtain c pf s1 where m: "mark_accepted r ''BTC/USD'' s2 = (s1, Inr ())"
    "take_snapshot 0 s1 = (s2\<lparr>sv_portfolio := c\<rparr>, Inr pf)" .
  from record_entry_appends [OF start_ok, of ex_sha "\<lambda>d. []" "risk_entry 0 ex_settings r p x"] obtain rec t' f' where
    "record_entry ex_sha (\<lambda>d. []) (risk_entry 0 ex_settings r p x) new_trail None = (Some rec, t', f')" by blast
  with r m that show ?thesis
    by (simp add: s2 maybe_apply_paper_fill_def maybe_apply_paper_perp_funding_def maybe_open_carry_diagnostic_hedge_def
        register_receipt_def record_risk_decision_def publish_anchor_def ex_unarmed_def ex_service_def ex_service_env_def
        Let_def split: option.splits)
qed

lemma ex_outputs:
  assumes "sv_has_checkpoint s = False"
  shows "save_checkpoint ex_inputs s = (s, Inr ())" "publish_result ex_inputs r s = (log_event (ResultPublished r) s, Inr ())"
  using assms by (simp_all add: save_checkpoint_def publish_result_def ex_inputs_def)

lemma ex_completed:
  obtains s' r p x where "run_symbol ex_service_env (\<lambda>e. []) ex_inputs ''BTC/USD'' (ex_service\<lparr>sv_submit := False\<rparr>) = (s', Inr r)"
    "pr_proposal (rn_pipeline r) = Some p" "pr_risk_result (rn_pipeline r) = Some x"
proof -
  let ?w = "\<lparr>w_ledger = empty_ledger, w_trace = []\<rparr> :: sub_world"
  from ex_withheld [of "se_digests ex_service_env" "se_render_shadow ex_service_env" ?w] obtain R r where
    o: "run_once (se_digests ex_service_env) (se_render_shadow ex_service_env) ex_cycle_inputs ''BTC/USD'' ex_flat_snapshot False
      (ex_runtime, ?w) = ((R, ?w), Inr r)" "pr_proposal (rn_pipeline r) \<noteq> None" "pr_risk_result (rn_pipeline r) \<noteq> None"
      "rn_execution_receipt r = None" "rn_tick r = ex_tick" by blast
  from o(2,3) obtain p x where px: "pr_proposal (rn_pipeline r) = Some p" "pr_risk_result (rn_pipeline r) = Some x" by blast
  have f: "sv_kill_switch ex_unarmed = None" "sv_portfolio ex_unarmed = ex_flat" "\<not> submission_enabled ex_unarmed"
    "sv_runtime ex_unarmed = ex_runtime" "sv_ledger ex_unarmed = Some empty_ledger" "sv_venue_trace ex_unarmed = []"
    by (simp_all add: ex_unarmed_def ex_service_def submission_enabled_def new_health_def)
  have r: "run_runtime ex_service_env ex_inputs ''BTC/USD'' ex_flat_snapshot ex_unarmed = (ex_unarmed\<lparr>sv_runtime := R\<rparr>, Inr r)"
    using o(1) f(3-6) by (simp add: run_runtime_def ex_now opt_or_def)
  from ex_booked [OF px o(5,4) refl, of R] obtain c pf s1 t' f' where
    b: "maybe_apply_paper_fill ex_service_env ex_inputs r (ex_unarmed\<lparr>sv_runtime := R\<rparr>) = (ex_unarmed\<lparr>sv_runtime := R\<rparr>, Inr r)"
    "maybe_apply_paper_perp_funding ex_inputs ''BTC/USD'' (ex_unarmed\<lparr>sv_runtime := R\<rparr>) = (ex_unarmed\<lparr>sv_runtime := R\<rparr>, Inr ())"
    "maybe_open_carry_diagnostic_hedge ex_inputs ''BTC/USD'' (ex_unarmed\<lparr>sv_runtime := R\<rparr>) = (ex_unarmed\<lparr>sv_runtime := R\<rparr>, Inr ())"
    "mark_accepted r ''BTC/USD'' (ex_unarmed\<lparr>sv_runtime := R\<rparr>) = (s1, Inr ())"
    "take_snapshot 0 s1 = (ex_unarmed\<lparr>sv_runtime := R, sv_portfolio := c\<rparr>, Inr pf)"
    "register_receipt 0 r (ex_unarmed\<lparr>sv_runtime := R, sv_portfolio := c\<rparr>) = (ex_unarmed\<lparr>sv_runtime := R, sv_portfolio := c\<rparr>, Inr ())"
    "record_risk_decision ex_service_env 0 r (ex_unarmed\<lparr>sv_runtime := R, sv_portfolio := c\<rparr>)
       = (ex_unarmed\<lparr>sv_runtime := R, sv_portfolio := c, sv_audit := Some (t', f')\<rparr>, Inr ())" .
  have cp: "sv_has_checkpoint (ex_unarmed\<lparr>sv_runtime := R, sv_portfolio := c, sv_audit := Some (t', f')\<rparr>) = False"
    by (simp add: ex_unarmed_def ex_service_def)
  have "\<exists>s'. cycle_body ex_service_env ex_inputs ''BTC/USD'' ex_unarmed = (s', Inr r)"
    unfolding cycle_start ex_refresh [OF f(1)]
    by (simp add: and_then_def ex_snapshot_taken [OF f(2)] r b ex_outputs [OF cp] finish_def ex_now)
  then obtain s' where "cycle_body ex_service_env ex_inputs ''BTC/USD'' ex_unarmed = (s', Inr r)" ..
  moreover have "ex_service\<lparr>sv_submit := False\<rparr>\<lparr>sv_cycle := sv_cycle (ex_service\<lparr>sv_submit := False\<rparr>) + 1\<rparr> = ex_unarmed"
    by (simp add: ex_unarmed_def ex_service_def)
  ultimately have "run_symbol ex_service_env (\<lambda>e. []) ex_inputs ''BTC/USD'' (ex_service\<lparr>sv_submit := False\<rparr>)
      = (s'\<lparr>sv_health := record_success (si_now ex_inputs) ''BTC/USD'' (sv_health s')\<rparr>, Inr r)"
    by (simp add: run_symbol_def)
  with px that show ?thesis by blast
qed

theorem service_audits_decisions_witness:
  "\<exists>s' r t' f' rec. run_symbol ex_service_env (\<lambda>e. []) ex_inputs ''BTC/USD'' (ex_service\<lparr>sv_submit := False\<rparr>) = (s', Inr r)
     \<and> sv_audit s' = Some (t', f') \<and> file_records f' = [rec] \<and> Some (ab_proposal rec) = pr_proposal (rn_pipeline r)"
proof (rule ex_completed)
  fix s' r p x assume r: "run_symbol ex_service_env (\<lambda>e. []) ex_inputs ''BTC/USD'' (ex_service\<lparr>sv_submit := False\<rparr>) = (s', Inr r)"
    "pr_proposal (rn_pipeline r) = Some p" "pr_risk_result (rn_pipeline r) = Some x"
  have f: "sv_audit (ex_service\<lparr>sv_submit := False\<rparr>) = Some (new_trail, None)" "sv_settings (ex_service\<lparr>sv_submit := False\<rparr>) \<noteq> None"
    by (simp_all add: ex_service_def)
  from service_audits_decisions [OF r(1) f r(2,3) start_ok] r show ?thesis by (fastforce simp: file_records_def)
qed

definition ex_pass :: reconcile_inputs where
  "ex_pass = \<lparr>ri_now = 0, ri_monotonic = 0, ri_venue = Inl ''down'', ri_portfolio_state = Inl ''down'', ri_ledger_save = None, ri_checkpoint = None\<rparr>"

theorem reconcile_gates_submission_witness:
  "\<exists>s'. reconcile_now ex_pass (ex_service\<lparr>sv_exec_reconciler := Some 10\<rparr>) = (s', False) \<and> \<not> submission_enabled s'"
proof -
  let ?s = "ex_service\<lparr>sv_exec_reconciler := Some 10\<rparr>"
  have "snd (reconcile_now ex_pass ?s) = False"
    by (simp add: reconcile_now_def reconcile_execution_def ex_pass_def ex_service_def)
  then obtain s' where r: "reconcile_now ex_pass ?s = (s', False)" by (metis prod.collapse)
  from reconcile_gates_submission [OF r] r show ?thesis by auto
qed

theorem service_error_limit_witness:
  "rh_consecutive_errors (sv_health (run_cycles ex_service_env (\<lambda>e. []) [(ex_pass, \<lambda>x. ex_inputs)] ex_service))
     \<le> rh_max_consecutive_errors (sv_health (run_cycles ex_service_env (\<lambda>e. []) [(ex_pass, \<lambda>x. ex_inputs)] ex_service))"
proof -
  have "healthy (sv_health ex_service)" "0 \<le> rh_consecutive_errors (sv_health ex_service)"
    by (simp_all add: ex_service_def healthy_def new_health_def)
  from service_error_limit [OF this] show ?thesis by blast
qed

definition ex_dead :: symbol_inputs where
  "ex_dead = ex_inputs\<lparr>si_cycle := ex_cycle_inputs\<lparr>ci_tick := StreamEnded\<rparr>\<rparr>"

theorem dead_feed_stops_service_witness:
  "sv_stopped (run_cycles ex_service_env (\<lambda>e. []) (replicate 5 (ex_pass, \<lambda>x. ex_dead)) ex_service)
   \<and> sv_cycle (run_cycles ex_service_env (\<lambda>e. []) (replicate 5 (ex_pass, \<lambda>x. ex_dead)) ex_service) = 3"
proof -
  have "dead ex_dead" by (simp add: dead_def ex_dead_def)
  then have "\<forall>p \<in> set (replicate 5 (ex_pass, \<lambda>x. ex_dead)). \<forall>x \<in> set (sv_symbols ex_service). dead (snd p x)" by simp
  moreover have "healthy (sv_health ex_service)" "\<not> sv_stopped ex_service"
    "rh_max_consecutive_errors (sv_health ex_service) - rh_consecutive_errors (sv_health ex_service)
      \<le> int (length (replicate 5 (ex_pass, \<lambda>x. ex_dead)) * length (sv_symbols ex_service))"
    by (simp_all add: ex_service_def healthy_def new_health_def)
  ultimately show ?thesis
    using dead_feed_stops_service [of "replicate 5 (ex_pass, \<lambda>x. ex_dead)" ex_service ex_service_env "\<lambda>e. []"]
    by (simp add: ex_service_def new_health_def)
qed

end
