(* ===== verification/Funnel.thy ===== *)
theory Funnel
  imports Service "HOL-Library.Multiset"
begin

text \<open>
  The opportunity funnel (\<open>opportunity_funnel.py\<close>): every cycle's result is reduced to the furthest
  stage it reached and the gate that stopped it, and the observations are counted. An in-memory
  report is state; its rendering and its file are left out (the atomic write is \<open>Durable\<close>'s), the
  verdict's text is a value. Maps are Python dicts keyed by the enumerations' values.
\<close>

section \<open>Stages, gates and categories\<close>

datatype funnel_stage =
    ST_CYCLE | ST_VALID_MARKET_DATA | ST_SIGNAL_CANDIDATE | ST_PRETRADE_ELIGIBLE | ST_RISK_ALLOWED
  | ST_META_AGENT_RETAINED | ST_PLANNER_ACCEPTED | ST_FILLED

fun stage_str :: "funnel_stage \<Rightarrow> string" where
  "stage_str ST_CYCLE = ''cycle''"
| "stage_str ST_VALID_MARKET_DATA = ''valid_market_data''"
| "stage_str ST_SIGNAL_CANDIDATE = ''signal_candidate''"
| "stage_str ST_PRETRADE_ELIGIBLE = ''pretrade_eligible''"
| "stage_str ST_RISK_ALLOWED = ''risk_allowed''"
| "stage_str ST_META_AGENT_RETAINED = ''meta_agent_retained''"
| "stage_str ST_PLANNER_ACCEPTED = ''planner_accepted''"
| "stage_str ST_FILLED = ''filled''"

definition stage_order :: "funnel_stage list" where
  "stage_order = [ST_CYCLE, ST_VALID_MARKET_DATA, ST_SIGNAL_CANDIDATE, ST_PRETRADE_ELIGIBLE, ST_RISK_ALLOWED,
     ST_META_AGENT_RETAINED, ST_PLANNER_ACCEPTED, ST_FILLED]"

datatype blocking_gate =
    BG_MARKET_DATA | BG_CANDLE_HISTORY | BG_UNIVERSE | BG_INTELLIGENCE | BG_SIGNAL | BG_PRETRADE | BG_RISK
  | BG_META_AGENT | BG_PLANNER | BG_FILL

fun gate_str :: "blocking_gate \<Rightarrow> string" where
  "gate_str BG_MARKET_DATA = ''market_data''"
| "gate_str BG_CANDLE_HISTORY = ''candle_history''"
| "gate_str BG_UNIVERSE = ''universe''"
| "gate_str BG_INTELLIGENCE = ''intelligence''"
| "gate_str BG_SIGNAL = ''signal''"
| "gate_str BG_PRETRADE = ''pretrade''"
| "gate_str BG_RISK = ''risk''"
| "gate_str BG_META_AGENT = ''meta_agent''"
| "gate_str BG_PLANNER = ''planner''"
| "gate_str BG_FILL = ''fill''"

datatype funnel_category = FC_NO_OPPORTUNITY | FC_OPPORTUNITY_REJECTED | FC_FILL_UNAVAILABLE | FC_FILLED

fun category_str :: "funnel_category \<Rightarrow> string" where
  "category_str FC_NO_OPPORTUNITY = ''no_opportunity''"
| "category_str FC_OPPORTUNITY_REJECTED = ''opportunity_rejected''"
| "category_str FC_FILL_UNAVAILABLE = ''fill_unavailable''"
| "category_str FC_FILLED = ''filled''"

fun gate_category :: "blocking_gate \<Rightarrow> funnel_category" where
  "gate_category BG_MARKET_DATA = FC_NO_OPPORTUNITY"
| "gate_category BG_CANDLE_HISTORY = FC_NO_OPPORTUNITY"
| "gate_category BG_UNIVERSE = FC_NO_OPPORTUNITY"
| "gate_category BG_SIGNAL = FC_NO_OPPORTUNITY"
| "gate_category BG_INTELLIGENCE = FC_OPPORTUNITY_REJECTED"
| "gate_category BG_PRETRADE = FC_OPPORTUNITY_REJECTED"
| "gate_category BG_RISK = FC_OPPORTUNITY_REJECTED"
| "gate_category BG_META_AGENT = FC_OPPORTUNITY_REJECTED"
| "gate_category BG_PLANNER = FC_OPPORTUNITY_REJECTED"
| "gate_category BG_FILL = FC_FILL_UNAVAILABLE"

definition candle_history_reasons :: "string list" where
  "candle_history_reasons =
     [''missing_candle_history'', ''insufficient_candle_history'', ''stale_candle_history'', ''candle_interval_mismatch'']"

definition universe_reasons :: "string list" where
  "universe_reasons = [''promote_universe_excluded'']"

definition intelligence_reasons :: "string list" where
  "intelligence_reasons = [''no_external_intelligence'', ''adverse_news_event'', ''intelligence_provider_unavailable'']"

definition signal_reasons :: "string list" where
  "signal_reasons = [''no_strategy_consensus'', ''strategy_does_not_confirm_side'']"

definition meta_agent_reasons :: "string list" where
  "meta_agent_reasons = [''meta_agent_veto'', ''meta_agent_unavailable'']"

definition onchain_regime_reasons :: "string list" where
  "onchain_regime_reasons = [''onchain_regime_blocked'', ''onchain_regime_unavailable'']"

definition planner_statuses :: "string list" where
  "planner_statuses = [exec_status_str (ES_submission Sub_PLAN_REJECTED), exec_status_str (ES_paper_fill PF_PLAN_REJECTED),
     exec_status_str (ES_paper_fill PF_INVALID_EXIT_SIZE)]"

definition filled_statuses :: "string list" where
  "filled_statuses = [exec_status_str (ES_paper_fill PF_FILLED)]"

definition pending_statuses :: "string list" where
  "pending_statuses = [exec_status_str (ES_submission Sub_SUBMITTED), exec_status_str (ES_submission Sub_ADOPTED),
     exec_status_str (ES_shadow SHADOW_RECORDED)]"

definition not_attempted_reason :: string where
  "not_attempted_reason = ''execution_not_attempted''"

definition pending_reason :: string where
  "pending_reason = ''venue_awaiting_fill''"

definition max_reason_keys :: nat where
  "max_reason_keys = 64"

definition overflow_key :: string where
  "overflow_key = ''(other)''"

definition max_reason_text :: nat where
  "max_reason_text = 200"

definition max_pending_decisions :: nat where
  "max_pending_decisions = 4096"

text \<open>The texts of the risk engine's reasons and decisions.\<close>

fun risk_reason_str :: "risk_reason \<Rightarrow> string" where
  "risk_reason_str RR_kill_switch_enabled = ''kill_switch_enabled''"
| "risk_reason_str RR_stale_portfolio_state = ''stale_portfolio_state''"
| "risk_reason_str RR_daily_loss_limit_reached = ''daily_loss_limit_reached''"
| "risk_reason_str RR_account_drawdown_limit_reached = ''account_drawdown_limit_reached''"
| "risk_reason_str RR_gross_exposure_limit = ''gross_exposure_limit''"
| "risk_reason_str RR_cash_reserve_breached = ''cash_reserve_breached''"
| "risk_reason_str RR_max_positions_reached = ''max_positions_reached''"
| "risk_reason_str RR_strategy_circuit_breaker = ''strategy_circuit_breaker''"
| "risk_reason_str RR_asset_not_allowlisted = ''asset_not_allowlisted''"
| "risk_reason_str RR_spread_too_wide = ''spread_too_wide''"
| "risk_reason_str RR_position_limit_reached = ''position_limit_reached''"
| "risk_reason_str RR_sell_capped_to_position = ''sell_capped_to_position''"
| "risk_reason_str RR_volatility_scaled = ''volatility_scaled''"
| "risk_reason_str RR_garch_size_scaled = ''garch_size_scaled''"
| "risk_reason_str RR_position_size_reduced = ''position_size_reduced''"

fun decision_str :: "risk_decision \<Rightarrow> string" where
  "decision_str ALLOW = ''allow''"
| "decision_str REDUCE = ''reduce''"
| "decision_str REJECT = ''reject''"

section \<open>One observation\<close>

text \<open>A reason text is kept whole, or cut with an ellipsis.\<close>

datatype bounded_text = WholeText string | CutText string

record funnel_observation =
  fo_observed_at :: datetime
  fo_symbol :: string
  fo_strategy_id :: "string option"
  fo_decision_id :: "string option"
  fo_stage :: funnel_stage
  fo_gate :: "blocking_gate option"
  fo_category :: funnel_category
  fo_reasons :: "string list"
  fo_reason_text :: "bounded_text option"
  fo_is_exit :: bool
  fo_tick_age_seconds :: "real option"
  fo_candle_age_seconds :: "real option"
  fo_candles_loaded :: nat

text \<open>\<open>" ".join(text.split())\<close>\<close>

function split_space :: "string \<Rightarrow> string list" where
  "split_space [] = []"
| "split_space (c # cs) =
     (if is_space c then split_space cs
      else (c # takeWhile (\<lambda>x. \<not> is_space x) cs) # split_space (dropWhile (\<lambda>x. \<not> is_space x) cs))"
  by pat_completeness auto
termination by (relation "measure length") (simp_all add: le_imp_less_Suc length_dropWhile_le)

fun join_space :: "string list \<Rightarrow> string" where
  "join_space [] = []"
| "join_space [w] = w"
| "join_space (w # ws) = w @ '' '' @ join_space ws"

definition bounded_reason_text :: "string option \<Rightarrow> bounded_text option" where
  "bounded_reason_text t =
     (case t of
        None \<Rightarrow> None
      | Some s \<Rightarrow>
          (let s' = join_space (split_space s)
           in if max_reason_text < length s' then Some (CutText (take (max_reason_text - 1) s'))
              else if s' = [] then None else Some (WholeText s')))"

text \<open>\<open>a or b\<close> on lists.\<close>

definition list_or :: "'a list \<Rightarrow> 'a list \<Rightarrow> 'a list" where
  "list_or a b = (if a = [] then b else a)"

definition first_matching :: "string list \<Rightarrow> string list \<Rightarrow> string list" where
  "first_matching reasons known = filter (\<lambda>r. r \<in> set known) reasons"

definition base_observation :: "runtime_result \<Rightarrow> datetime option \<Rightarrow> funnel_observation" where
  "base_observation r now =
     \<lparr>fo_observed_at = tk_observed_at (rn_tick r), fo_symbol = tk_symbol (rn_tick r), fo_strategy_id = None,
      fo_decision_id = None, fo_stage = ST_CYCLE, fo_gate = None, fo_category = FC_FILLED, fo_reasons = [],
      fo_reason_text = None, fo_is_exit = False,
      fo_tick_age_seconds = map_option (\<lambda>n. max 0 (total_seconds (n - tk_observed_at (rn_tick r)))) now,
      fo_candle_age_seconds =
        map_option (\<lambda>c. max 0 (total_seconds (tk_observed_at (rn_tick r) - c))) (rn_candle_last_opened_at r),
      fo_candles_loaded = rn_candles_loaded r\<rparr>"

definition stopped :: "funnel_observation \<Rightarrow> funnel_stage \<Rightarrow> blocking_gate \<Rightarrow> string list \<Rightarrow> funnel_observation" where
  "stopped o0 st g reasons =
     o0\<lparr>fo_stage := st, fo_gate := Some g, fo_category := gate_category g, fo_reasons := reasons\<rparr>"

text \<open>The gates before a proposal exists.\<close>

definition classify_unproposed :: "funnel_observation \<Rightarrow> string list \<Rightarrow> pretrade_check option \<Rightarrow> funnel_observation" where
  "classify_unproposed o0 rejections check =
     (let check_reasons = (case check of None \<Rightarrow> [] | Some c \<Rightarrow> pc_reasons c);
          candle = list_or (first_matching rejections candle_history_reasons) (first_matching check_reasons candle_history_reasons);
          universe = first_matching rejections universe_reasons;
          intelligence = first_matching rejections intelligence_reasons;
          signal = list_or (first_matching check_reasons signal_reasons) (first_matching rejections signal_reasons);
          regime = first_matching rejections onchain_regime_reasons
      in if candle \<noteq> [] then stopped o0 ST_VALID_MARKET_DATA BG_CANDLE_HISTORY candle
         else if universe \<noteq> [] then stopped o0 ST_VALID_MARKET_DATA BG_UNIVERSE universe
         else if intelligence \<noteq> [] then stopped o0 ST_VALID_MARKET_DATA BG_INTELLIGENCE intelligence
         else if signal \<noteq> [] \<or> (case check of None \<Rightarrow> False | Some c \<Rightarrow> pc_confirmed_side c = None)
         then stopped o0 ST_VALID_MARKET_DATA BG_SIGNAL
                (list_or signal (list_or check_reasons (list_or rejections [''no_confirmed_side''])))
         else if regime \<noteq> [] then stopped o0 ST_SIGNAL_CANDIDATE BG_INTELLIGENCE regime
         else stopped o0 ST_SIGNAL_CANDIDATE BG_PRETRADE (list_or check_reasons (list_or rejections [''pretrade_rejected''])))"

definition meta_withheld_reasons :: "string list \<Rightarrow> meta_review option \<Rightarrow> string list" where
  "meta_withheld_reasons rejections v0 =
     list_or (first_matching rejections meta_agent_reasons)
       (list_or (case v0 of None \<Rightarrow> [] | Some v \<Rightarrow>
                  (case mr_suppression_reason v of None \<Rightarrow> [] | Some w \<Rightarrow> if w = [] then [] else [w]))
         (list_or rejections [''paper_order_withheld'']))"

text \<open>The execution boundary; \<open>known\<close> is what a caller with the ledger knows.\<close>

definition classify_execution ::
    "funnel_observation \<Rightarrow> string option \<Rightarrow> string option \<Rightarrow> bool option \<Rightarrow> funnel_observation" where
  "classify_execution o1 status why known =
     (if known = Some True \<or> known = None \<and> (case status of None \<Rightarrow> False | Some s \<Rightarrow> s \<in> set filled_statuses)
      then o1\<lparr>fo_stage := ST_FILLED, fo_category := FC_FILLED,
              fo_reasons := (case status of None \<Rightarrow> [] | Some s \<Rightarrow> [s])\<rparr>
      else case status of
             None \<Rightarrow> (stopped o1 ST_META_AGENT_RETAINED BG_FILL [not_attempted_reason])
                       \<lparr>fo_reason_text := bounded_reason_text
                          (Some ''no paper fill simulator and no venue submission on this cycle'')\<rparr>
           | Some s \<Rightarrow>
               (if s \<in> set planner_statuses then stopped o1 ST_META_AGENT_RETAINED BG_PLANNER [s]
                else if s \<in> set pending_statuses then stopped o1 ST_PLANNER_ACCEPTED BG_FILL [pending_reason, s]
                else stopped o1 ST_META_AGENT_RETAINED BG_FILL [s])\<lparr>fo_reason_text := bounded_reason_text why\<rparr>)"

definition classify_cycle :: "runtime_result \<Rightarrow> datetime option \<Rightarrow> bool option \<Rightarrow> funnel_observation" where
  "classify_cycle r now known =
     (let o0 = base_observation r now; p = rn_pipeline r; rejections = pr_rejection_reasons p
      in if \<not> pr_accepted_market_data p
         then stopped o0 ST_CYCLE BG_MARKET_DATA (list_or rejections [''market_data_rejected''])
         else case pr_proposal p of
                None \<Rightarrow> classify_unproposed o0 rejections (pr_pretrade_check p)
              | Some q \<Rightarrow>
                  (let o1 = o0\<lparr>fo_strategy_id := Some (tp_strategy_id q), fo_decision_id := Some (tp_decision_id q),
                               fo_is_exit := (pr_exit_reason p \<noteq> None)\<rparr>
                   in case pr_risk_result p of
                        None \<Rightarrow> stopped o1 ST_PRETRADE_ELIGIBLE BG_RISK [''risk_result_missing'']
                      | Some x \<Rightarrow>
                          if rr_decision x = REJECT \<or> rr_approved_notional_usd x \<le> 0
                          then stopped o1 ST_PRETRADE_ELIGIBLE BG_RISK
                                 (list_or (map risk_reason_str (rr_reasons x)) [decision_str (rr_decision x)])
                          else if (case rn_meta_review r of None \<Rightarrow> False | Some v \<Rightarrow> mr_suppressed_order v)
                                  \<or> first_matching rejections meta_agent_reasons \<noteq> [] \<or> pr_paper_order p = None
                          then (stopped o1 ST_RISK_ALLOWED BG_META_AGENT (meta_withheld_reasons rejections (rn_meta_review r)))
                                 \<lparr>fo_reason_text := bounded_reason_text (opt_bind mr_rationale (rn_meta_review r))\<rparr>
                          else classify_execution o1 (map_option exec_status_str (rn_execution_status r))
                                 (rn_execution_reason r) known))"

section \<open>Counts\<close>

record funnel_counts =
  fc_stages :: "nat dict"
  fc_blocked_by_gate :: "nat dict"
  fc_categories :: "nat dict"
  fc_exits_filled :: nat

definition no_counts :: funnel_counts where
  "no_counts = \<lparr>fc_stages = [], fc_blocked_by_gate = [], fc_categories = [], fc_exits_filled = 0\<rparr>"

definition bump :: "string \<Rightarrow> nat dict \<Rightarrow> nat dict" where
  "bump k d = dict_set k (dict_get_or d k 0 + 1) d"

text \<open>A key that reaches zero is dropped.\<close>

definition decrement :: "string \<Rightarrow> nat dict \<Rightarrow> nat dict" where
  "decrement k d = (if 1 < dict_get_or d k 0 then dict_set k (dict_get_or d k 0 - 1) d else AList.delete k d)"

fun stage_rank :: "funnel_stage \<Rightarrow> nat" where
  "stage_rank ST_CYCLE = 0"
| "stage_rank ST_VALID_MARKET_DATA = 1"
| "stage_rank ST_SIGNAL_CANDIDATE = 2"
| "stage_rank ST_PRETRADE_ELIGIBLE = 3"
| "stage_rank ST_RISK_ALLOWED = 4"
| "stage_rank ST_META_AGENT_RETAINED = 5"
| "stage_rank ST_PLANNER_ACCEPTED = 6"
| "stage_rank ST_FILLED = 7"

definition stages_reached :: "funnel_stage \<Rightarrow> funnel_stage list" where
  "stages_reached st = take (stage_rank st + 1) stage_order"

definition counts_add :: "funnel_observation \<Rightarrow> funnel_counts \<Rightarrow> funnel_counts" where
  "counts_add ob c =
     \<lparr>fc_stages = foldl (\<lambda>d st. bump (stage_str st) d) (fc_stages c) (stages_reached (fo_stage ob)),
      fc_blocked_by_gate = (case fo_gate ob of None \<Rightarrow> fc_blocked_by_gate c | Some g \<Rightarrow> bump (gate_str g) (fc_blocked_by_gate c)),
      fc_categories = bump (category_str (fo_category ob)) (fc_categories c),
      fc_exits_filled = fc_exits_filled c + (if fo_stage ob = ST_FILLED \<and> fo_is_exit ob then 1 else 0)\<rparr>"

definition counts_retract :: "funnel_observation \<Rightarrow> funnel_counts \<Rightarrow> funnel_counts" where
  "counts_retract ob c =
     c\<lparr>fc_stages := foldl (\<lambda>d st. decrement (stage_str st) d) (fc_stages c) (stages_reached (fo_stage ob)),
       fc_blocked_by_gate := (case fo_gate ob of None \<Rightarrow> fc_blocked_by_gate c | Some g \<Rightarrow> decrement (gate_str g) (fc_blocked_by_gate c)),
       fc_categories := decrement (category_str (fo_category ob)) (fc_categories c)\<rparr>"

definition stage_count :: "funnel_counts \<Rightarrow> funnel_stage \<Rightarrow> nat" where
  "stage_count c st = dict_get_or (fc_stages c) (stage_str st) 0"

record freshness_stats =
  fs_samples :: nat
  fs_last :: "real option"
  fs_max :: "real option"
  fs_mean :: "real option"
  fs_total :: real

definition no_stats :: freshness_stats where
  "no_stats = \<lparr>fs_samples = 0, fs_last = None, fs_max = None, fs_mean = None, fs_total = 0\<rparr>"

definition stats_add :: "real option \<Rightarrow> freshness_stats \<Rightarrow> freshness_stats" where
  "stats_add v s =
     (case v of
        None \<Rightarrow> s
      | Some x \<Rightarrow>
          \<lparr>fs_samples = fs_samples s + 1, fs_last = Some x,
           fs_max = Some (case fs_max s of None \<Rightarrow> x | Some m \<Rightarrow> max m x),
           fs_mean = Some ((fs_total s + x) / real (fs_samples s + 1)), fs_total = fs_total s + x\<rparr>)"

section \<open>The funnel\<close>

record funnel_report =
  fr_started_at :: datetime
  fr_first_observed_at :: "datetime option"
  fr_last_observed_at :: "datetime option"
  fr_paper_fills_enabled :: "bool option"
  fr_submission_enabled :: "bool option"
  fr_diagnostic_mode :: bool
  fr_totals :: funnel_counts
  fr_by_symbol :: "funnel_counts dict"
  fr_by_strategy :: "funnel_counts dict"
  fr_reasons_by_gate :: "nat dict dict"
  fr_reason_examples :: "bounded_text dict"
  fr_execution_statuses :: "nat dict"
  fr_tick_age_seconds :: freshness_stats
  fr_candle_age_seconds :: freshness_stats
  fr_candles_loaded_last :: "nat option"
  fr_candles_loaded_min :: "nat option"
  fr_pending_venue_decisions :: nat

record funnel =
  fn_report :: funnel_report
  fn_reason_counters :: "nat dict dict"
  fn_status_counter :: "nat dict"
  fn_pending :: "funnel_observation dict"
  fn_skipped_lines :: nat

definition new_funnel :: "bool option \<Rightarrow> bool option \<Rightarrow> bool \<Rightarrow> datetime \<Rightarrow> funnel" where
  "new_funnel fills submitting diagnostic started =
     \<lparr>fn_report = \<lparr>fr_started_at = started, fr_first_observed_at = None, fr_last_observed_at = None,
        fr_paper_fills_enabled = fills, fr_submission_enabled = submitting, fr_diagnostic_mode = diagnostic,
        fr_totals = no_counts, fr_by_symbol = [], fr_by_strategy = [], fr_reasons_by_gate = [], fr_reason_examples = [],
        fr_execution_statuses = [], fr_tick_age_seconds = no_stats, fr_candle_age_seconds = no_stats,
        fr_candles_loaded_last = None, fr_candles_loaded_min = None, fr_pending_venue_decisions = 0\<rparr>,
      fn_reason_counters = [], fn_status_counter = [], fn_pending = [], fn_skipped_lines = 0\<rparr>"

definition set_flags :: "bool option \<Rightarrow> bool option \<Rightarrow> bool option \<Rightarrow> funnel \<Rightarrow> funnel" where
  "set_flags fills submitting diagnostic f =
     f\<lparr>fn_report := (fn_report f)
        \<lparr>fr_paper_fills_enabled := (if fills = None then fr_paper_fills_enabled (fn_report f) else fills),
         fr_submission_enabled := (if submitting = None then fr_submission_enabled (fn_report f) else submitting),
         fr_diagnostic_mode := opt_or diagnostic (fr_diagnostic_mode (fn_report f))\<rparr>\<rparr>"

text \<open>\<open>setdefault(k, FunnelCounts()).add(o)\<close>\<close>

definition counts_at :: "string \<Rightarrow> funnel_observation \<Rightarrow> funnel_counts dict \<Rightarrow> funnel_counts dict" where
  "counts_at k ob d = dict_set k (counts_add ob (dict_get_or d k no_counts)) d"

definition count_reason :: "nat dict \<Rightarrow> string \<Rightarrow> nat dict" where
  "count_reason counter reason =
     (if dict_get counter reason \<noteq> None \<or> length counter < max_reason_keys then bump reason counter
      else bump overflow_key counter)"

definition count_reasons :: "funnel_observation \<Rightarrow> blocking_gate \<Rightarrow> funnel \<Rightarrow> funnel" where
  "count_reasons ob g f =
     (let counter = foldl count_reason (dict_get_or (fn_reason_counters f) (gate_str g) [])
                      (list_or (fo_reasons ob) [''(unspecified)'']);
          R = fn_report f
      in f\<lparr>fn_reason_counters := dict_set (gate_str g) counter (fn_reason_counters f),
           fn_report := R\<lparr>fr_reasons_by_gate := dict_set (gate_str g) counter (fr_reasons_by_gate R),
             fr_reason_examples :=
               (case fo_reason_text ob of
                  None \<Rightarrow> fr_reason_examples R
                | Some t \<Rightarrow> if dict_get (fr_reason_examples R) (gate_str g) = None
                            then dict_set (gate_str g) t (fr_reason_examples R) else fr_reason_examples R)\<rparr>\<rparr>)"

definition stays_pending :: "funnel_observation \<Rightarrow> funnel \<Rightarrow> bool" where
  "stays_pending ob f \<longleftrightarrow> fo_decision_id ob \<noteq> None \<and> fo_gate ob = Some BG_FILL
     \<and> pending_reason \<in> set (fo_reasons ob) \<and> length (fn_pending f) < max_pending_decisions"

definition funnel_add :: "funnel_observation \<Rightarrow> funnel \<Rightarrow> funnel" where
  "funnel_add ob f =
     (let R = fn_report f;
          f1 = f\<lparr>fn_report := R\<lparr>fr_totals := counts_add ob (fr_totals R),
                 fr_by_symbol := counts_at (fo_symbol ob) ob (fr_by_symbol R),
                 fr_by_strategy := (case fo_strategy_id ob of None \<Rightarrow> fr_by_strategy R
                                    | Some st \<Rightarrow> counts_at st ob (fr_by_strategy R))\<rparr>\<rparr>;
          f2 = (case fo_gate ob of None \<Rightarrow> f1 | Some g \<Rightarrow> count_reasons ob g f1);
          pending = (case fo_decision_id ob of
                       Some d \<Rightarrow> if stays_pending ob f2 then dict_set d ob (fn_pending f2) else fn_pending f2
                     | None \<Rightarrow> fn_pending f2);
          S = fn_report f2
      in f2\<lparr>fn_pending := pending,
            fn_report := S\<lparr>
              fr_first_observed_at := Some (case fr_first_observed_at S of None \<Rightarrow> fo_observed_at ob
                                            | Some t \<Rightarrow> if fo_observed_at ob < t then fo_observed_at ob else t),
              fr_last_observed_at := Some (case fr_last_observed_at S of None \<Rightarrow> fo_observed_at ob
                                           | Some t \<Rightarrow> if t \<le> fo_observed_at ob then fo_observed_at ob else t),
              fr_tick_age_seconds := stats_add (fo_tick_age_seconds ob) (fr_tick_age_seconds S),
              fr_candle_age_seconds := stats_add (fo_candle_age_seconds ob) (fr_candle_age_seconds S),
              fr_candles_loaded_last := Some (fo_candles_loaded ob),
              fr_candles_loaded_min := Some (case fr_candles_loaded_min S of None \<Rightarrow> fo_candles_loaded ob
                                             | Some n \<Rightarrow> min n (fo_candles_loaded ob)),
              fr_pending_venue_decisions := length pending\<rparr>\<rparr>)"

definition ledger_filled :: "string \<Rightarrow> execution_ledger \<Rightarrow> bool" where
  "ledger_filled d L = list_ex (\<lambda>x. o_state x = FILLED) (orders_for_decision d L)"

definition funnel_observe :: "runtime_result \<Rightarrow> datetime option \<Rightarrow> execution_ledger option \<Rightarrow> funnel \<Rightarrow> funnel \<times> funnel_observation" where
  "funnel_observe r now ledger f =
     (let known = (case (ledger, pr_proposal (rn_pipeline r), pr_paper_order (rn_pipeline r)) of
            (Some L, Some p, Some i) \<Rightarrow> if ledger_filled (tp_decision_id p) L then Some True else None
          | _ \<Rightarrow> None);
          ob = classify_cycle r now known;
          f1 = funnel_add ob f
      in (case rn_execution_status r of
            None \<Rightarrow> f1
          | Some st \<Rightarrow>
              (let counter = bump (exec_status_str st) (fn_status_counter f1)
               in f1\<lparr>fn_status_counter := counter,
                     fn_report := (fn_report f1)\<lparr>fr_execution_statuses := counter\<rparr>\<rparr>), ob))"

text \<open>\<open>d.get(k)\<close> changed in place, absent keys left absent.\<close>

definition counts_retract_at :: "string \<Rightarrow> funnel_observation \<Rightarrow> funnel_counts dict \<Rightarrow> funnel_counts dict" where
  "counts_retract_at k ob d = (case dict_get d k of None \<Rightarrow> d | Some c \<Rightarrow> dict_set k (counts_retract ob c) d)"

definition retract_reasons :: "funnel_observation \<Rightarrow> blocking_gate \<Rightarrow> funnel \<Rightarrow> funnel" where
  "retract_reasons ob g f =
     (case dict_get (fn_reason_counters f) (gate_str g) of
        None \<Rightarrow> f
      | Some counter0 \<Rightarrow>
          (let counter = foldl (\<lambda>d w. decrement w d) counter0 (fo_reasons ob); R = fn_report f
           in f\<lparr>fn_reason_counters := dict_set (gate_str g) counter (fn_reason_counters f),
                fn_report := R\<lparr>fr_reasons_by_gate :=
                  (if counter \<noteq> [] then dict_set (gate_str g) counter (fr_reasons_by_gate R)
                   else AList.delete (gate_str g) (fr_reasons_by_gate R))\<rparr>\<rparr>))"

definition retract :: "funnel_observation \<Rightarrow> funnel \<Rightarrow> funnel" where
  "retract ob f =
     (let R = fn_report f;
          f1 = f\<lparr>fn_report := R\<lparr>fr_totals := counts_retract ob (fr_totals R),
                 fr_by_symbol := counts_retract_at (fo_symbol ob) ob (fr_by_symbol R),
                 fr_by_strategy := counts_retract_at (opt_or (fo_strategy_id ob) []) ob (fr_by_strategy R)\<rparr>\<rparr>
      in case fo_gate ob of None \<Rightarrow> f1 | Some g \<Rightarrow> retract_reasons ob g f1)"

definition promoted :: "funnel_observation \<Rightarrow> funnel_observation" where
  "promoted ob = ob\<lparr>fo_stage := ST_FILLED, fo_gate := None, fo_category := FC_FILLED,
     fo_reasons := [''ledger_filled''], fo_reason_text := None\<rparr>"

definition promote_one :: "execution_ledger \<Rightarrow> funnel \<times> nat \<Rightarrow> string \<times> funnel_observation \<Rightarrow> funnel \<times> nat" where
  "promote_one L s e =
     (case s of (f, moved) \<Rightarrow>
        if \<not> ledger_filled (fst e) L then (f, moved)
        else (let f1 = retract (snd e) f;
                  f2 = f1\<lparr>fn_pending := AList.delete (fst e) (fn_pending f1)\<rparr>
              in (funnel_add (promoted (snd e)) f2, moved + 1)))"

definition apply_ledger :: "execution_ledger \<Rightarrow> funnel \<Rightarrow> funnel \<times> nat" where
  "apply_ledger L f =
     (case foldl (promote_one L) (f, 0) (fn_pending f) of
        (f1, moved) \<Rightarrow>
          (f1\<lparr>fn_report := (fn_report f1)\<lparr>fr_pending_venue_decisions := length (fn_pending f1)\<rparr>\<rparr>, moved))"

section \<open>Diagnosis\<close>

datatype funnel_verdict =
    NoCycles
  | NoneBlocked nat nat
  | Dominant nat nat string nat "(string \<times> nat) option" funnel_category bool

record funnel_diagnosis =
  dg_fills :: nat
  dg_cycles :: nat
  dg_dominant_gate :: "(string \<times> nat) option"
  dg_dominant_reason :: "(string \<times> nat) option"
  dg_category :: "funnel_category option"
  dg_verdict :: funnel_verdict

text \<open>\<open>max(items, key=(count, name))\<close>: the first of the greatest.\<close>

fun max_item :: "string \<times> nat \<Rightarrow> (string \<times> nat) list \<Rightarrow> string \<times> nat" where
  "max_item b [] = b"
| "max_item b (x # xs) = max_item (if snd b < snd x \<or> snd b = snd x \<and> fst b < fst x then x else b) xs"

definition dominant :: "nat dict \<Rightarrow> (string \<times> nat) option" where
  "dominant d = (case d of [] \<Rightarrow> None | x # xs \<Rightarrow> Some (max_item x xs))"

definition gate_of :: "string \<Rightarrow> blocking_gate option" where
  "gate_of s = List.find (\<lambda>g. gate_str g = s) [BG_MARKET_DATA, BG_CANDLE_HISTORY, BG_UNIVERSE, BG_INTELLIGENCE, BG_SIGNAL,
     BG_PRETRADE, BG_RISK, BG_META_AGENT, BG_PLANNER, BG_FILL]"

text \<open>The flag of the verdict: the hint is the diagnostic mode's. Gate keys are gate values, so the
  lookup of the gate never fails on a report the funnel has built.\<close>

definition diagnose :: "funnel_report \<Rightarrow> funnel_diagnosis" where
  "diagnose R =
     (let cycles = stage_count (fr_totals R) ST_CYCLE; fills = stage_count (fr_totals R) ST_FILLED;
          d0 = \<lparr>dg_fills = fills, dg_cycles = cycles, dg_dominant_gate = None, dg_dominant_reason = None,
                dg_category = None, dg_verdict = NoCycles\<rparr>
      in if cycles = 0 then d0
         else case dominant (fc_blocked_by_gate (fr_totals R)) of
                None \<Rightarrow> d0\<lparr>dg_category := Some FC_FILLED, dg_verdict := NoneBlocked fills cycles\<rparr>
              | Some (g, n) \<Rightarrow>
                  (let why = dominant (dict_get_or (fr_reasons_by_gate R) g []);
                       c = (case gate_of g of None \<Rightarrow> FC_FILLED | Some bg \<Rightarrow> gate_category bg)
                   in d0\<lparr>dg_dominant_gate := Some (g, n), dg_dominant_reason := why, dg_category := Some c,
                         dg_verdict := Dominant fills cycles g n why c (fr_diagnostic_mode R \<and> c = FC_FILL_UNAVAILABLE)\<rparr>))"

section \<open>Offline reconstruction\<close>

datatype audit_text = BlankText | TornText | ResultText runtime_result

fun replay_line :: "execution_ledger option \<Rightarrow> funnel \<times> string list \<times> nat \<Rightarrow> audit_text \<Rightarrow> funnel \<times> string list \<times> nat" where
  "replay_line L (f, statuses, skipped) BlankText = (f, statuses, skipped)"
| "replay_line L (f, statuses, skipped) TornText = (f, statuses, skipped + 1)"
| "replay_line L (f, statuses, skipped) (ResultText r) =
     (fst (funnel_observe r None L f),
      (case rn_execution_status r of None \<Rightarrow> statuses | Some st \<Rightarrow> statuses @ [exec_status_str st]), skipped)"

definition true_or_none :: "bool \<Rightarrow> bool option" where
  "true_or_none b = (if b then Some True else None)"

definition funnel_from_audit :: "audit_text list \<Rightarrow> execution_ledger option \<Rightarrow> bool \<Rightarrow> datetime \<Rightarrow> funnel" where
  "funnel_from_audit ls L diagnostic started =
     (case foldl (replay_line L) (new_funnel None None diagnostic started, [], 0) ls of
        (f, statuses, skipped) \<Rightarrow>
          (let f1 = (if statuses = [] then f
                     else set_flags None (true_or_none (list_ex (\<lambda>s. s \<in> set pending_statuses) statuses)) None
                            (set_flags (true_or_none (list_ex (\<lambda>s. s \<in> set filled_statuses
                                \<or> s = exec_status_str (ES_paper_fill PF_WITHHELD)) statuses)) None None f));
               f2 = (case L of None \<Rightarrow> f1 | Some l \<Rightarrow> fst (apply_ledger l f1))
           in f2\<lparr>fn_skipped_lines := skipped\<rparr>))"
section \<open>Counting\<close>

lemma count_bump [simp]: "dict_get_or (bump k d) j 0 = dict_get_or d j 0 + (if j = k then 1 else 0)"
  by (simp add: bump_def dict_get_or_def update_conv')

lemma count_decrement [simp]: "dict_get_or (decrement k d) j 0 = dict_get_or d j 0 - (if j = k then 1 else 0)"
  by (auto simp: decrement_def dict_get_or_def update_conv' delete_conv' split: option.splits)

lemma stage_str_inj [simp]: "stage_str a = stage_str b \<longleftrightarrow> a = b"
  by (cases a; cases b; simp)

lemma gate_str_inj [simp]: "gate_str a = gate_str b \<longleftrightarrow> a = b"
  by (cases a; cases b; simp)

lemma category_str_inj [simp]: "category_str a = category_str b \<longleftrightarrow> a = b"
  by (cases a; cases b; simp)

definition reached :: "funnel_stage \<Rightarrow> funnel_observation \<Rightarrow> bool" where
  "reached st ob \<longleftrightarrow> stage_rank st \<le> stage_rank (fo_stage ob)"

lemma stages_reached: "set (stages_reached s) = {st. stage_rank st \<le> stage_rank s}" "distinct (stages_reached s)"
proof -
  show "distinct (stages_reached s)" by (cases s) (simp_all add: stages_reached_def stage_order_def)
  have "st \<in> set (stages_reached s) \<longleftrightarrow> stage_rank st \<le> stage_rank s" for st
    by (cases s; cases st) (simp_all add: stages_reached_def stage_order_def)
  then show "set (stages_reached s) = {st. stage_rank st \<le> stage_rank s}" by blast
qed

lemma count_bump_stages:
  "distinct sts \<Longrightarrow> dict_get_or (foldl (\<lambda>d st. bump (stage_str st) d) d sts) (stage_str st) 0
     = dict_get_or d (stage_str st) 0 + (if st \<in> set sts then 1 else 0)"
  by (induction sts arbitrary: d) auto

lemma count_decrement_stages:
  "distinct sts \<Longrightarrow> dict_get_or (foldl (\<lambda>d st. decrement (stage_str st) d) d sts) (stage_str st) 0
     = dict_get_or d (stage_str st) 0 - (if st \<in> set sts then 1 else 0)"
  by (induction sts arbitrary: d) auto

text \<open>The reference: what the counts of a multiset of observations are.\<close>

definition tally_ok :: "funnel_counts \<Rightarrow> funnel_observation multiset \<Rightarrow> bool" where
  "tally_ok c M \<longleftrightarrow> (\<forall>st. stage_count c st = size (filter_mset (reached st) M))
     \<and> (\<forall>g. dict_get_or (fc_blocked_by_gate c) (gate_str g) 0 = size {# ob \<in># M. fo_gate ob = Some g #})
     \<and> (\<forall>k. dict_get_or (fc_categories c) (category_str k) 0 = size {# ob \<in># M. fo_category ob = k #})
     \<and> fc_exits_filled c = size {# ob \<in># M. fo_stage ob = ST_FILLED \<and> fo_is_exit ob #}"

lemma tally_none [simp]: "tally_ok no_counts {#}"
  by (simp add: tally_ok_def no_counts_def stage_count_def dict_get_or_def)

lemma tally_add: "tally_ok c M \<Longrightarrow> tally_ok (counts_add ob c) (add_mset ob M)"
  by (auto simp: tally_ok_def counts_add_def stage_count_def count_bump_stages stages_reached reached_def split: option.splits)

lemma tally_retract: "tally_ok c (add_mset ob M) \<Longrightarrow> fo_stage ob \<noteq> ST_FILLED \<Longrightarrow> tally_ok (counts_retract ob c) M"
  by (auto simp: tally_ok_def counts_retract_def stage_count_def count_decrement_stages stages_reached reached_def
      split: option.splits if_splits)

lemma tally_no_counts: "tally_ok no_counts M \<Longrightarrow> M = {#}"
proof (rule ccontr)
  assume t: "tally_ok no_counts M" and "M \<noteq> {#}"
  then obtain ob where "ob \<in># M" by blast
  then have "size (filter_mset (reached ST_CYCLE) M) \<noteq> 0" by (auto simp: reached_def)
  with t show False by (simp add: tally_ok_def no_counts_def stage_count_def dict_get_or_def)
qed

text \<open>A family of counts keyed by an attribute of the observation.\<close>

definition keyed_ok :: "(funnel_observation \<Rightarrow> string option) \<Rightarrow> funnel_counts dict \<Rightarrow> funnel_observation multiset \<Rightarrow> bool" where
  "keyed_ok key d M \<longleftrightarrow> (\<forall>k. tally_ok (dict_get_or d k no_counts) {# ob \<in># M. key ob = Some k #})"

lemma keyed_add: "keyed_ok key d M \<Longrightarrow> key ob = Some k \<Longrightarrow> keyed_ok key (counts_at k ob d) (add_mset ob M)"
  by (auto simp: keyed_ok_def counts_at_def dict_get_or_def update_conv' intro: tally_add)

lemma keyed_skip: "keyed_ok key d M \<Longrightarrow> key ob = None \<Longrightarrow> keyed_ok key d (add_mset ob M)"
  by (simp add: keyed_ok_def)

lemma keyed_retract:
  assumes "keyed_ok key d (add_mset ob M)" "key ob = Some k" "fo_stage ob \<noteq> ST_FILLED"
  shows "keyed_ok key (counts_retract_at k ob d) M"
proof (cases "dict_get d k")
  case None
  with assms(2) have "tally_ok no_counts (add_mset ob {# ob \<in># M. key ob = Some k #})"
    using spec [OF assms(1) [unfolded keyed_ok_def], of k] by (simp add: dict_get_or_def)
  then show ?thesis using tally_no_counts by force
next
  case (Some c)
  have "tally_ok c (add_mset ob {# ob \<in># M. key ob = Some k #})"
    using spec [OF assms(1) [unfolded keyed_ok_def], of k] assms(2) Some by (simp add: dict_get_or_def)
  from tally_retract [OF this assms(3)] have one: "tally_ok (counts_retract ob c) {# ob \<in># M. key ob = Some k #}" .
  show ?thesis unfolding keyed_ok_def
  proof
    fix j
    from one spec [OF assms(1) [unfolded keyed_ok_def], of j] assms(2) Some
    show "tally_ok (dict_get_or (counts_retract_at k ob d) j no_counts) {# ob \<in># M. key ob = Some j #}"
      by (cases "j = k") (simp_all add: counts_retract_at_def dict_get_or_def update_conv')
  qed
qed

section \<open>The funnel's invariant\<close>

definition pending_ok :: "funnel_observation dict \<Rightarrow> funnel_observation multiset \<Rightarrow> bool" where
  "pending_ok p M \<longleftrightarrow> distinct (dict_keys p) \<and> mset (dict_vals p) \<subseteq># M
     \<and> (\<forall>(d, ob) \<in> set p. fo_decision_id ob = Some d \<and> fo_gate ob = Some BG_FILL \<and> fo_strategy_id ob \<noteq> None
          \<and> fo_stage ob \<noteq> ST_FILLED)"

definition funnel_ok :: "funnel \<Rightarrow> funnel_observation multiset \<Rightarrow> bool" where
  "funnel_ok f M \<longleftrightarrow> tally_ok (fr_totals (fn_report f)) M
     \<and> keyed_ok (\<lambda>ob. Some (fo_symbol ob)) (fr_by_symbol (fn_report f)) M
     \<and> keyed_ok fo_strategy_id (fr_by_strategy (fn_report f)) M
     \<and> pending_ok (fn_pending f) M \<and> (\<forall>ob \<in># M. fo_gate ob = None \<longleftrightarrow> fo_stage ob = ST_FILLED)"

lemma update_subset: "mset (dict_vals (dict_set k v p)) \<subseteq># add_mset v (mset (dict_vals p))"
  by (induction p) (auto simp: insert_subset_eq_iff intro: subset_mset.order_trans)

lemma delete_vals:
  "distinct (dict_keys p) \<Longrightarrow> (k, v) \<in> set p \<Longrightarrow> mset (dict_vals p) = add_mset v (mset (dict_vals (AList.delete k p)))"
proof (induction p)
  case (Cons e p)
  show ?case
  proof (cases "fst e = k")
    case True
    with Cons.prems have "e = (k, v)" by (cases e) (force simp: image_iff)
    moreover from True Cons.prems have "AList.delete k p = p" by (force simp: AList.delete_eq filter_id_conv image_iff)
    ultimately show ?thesis by simp
  next
    case False
    with Cons.prems have "(k, v) \<in> set p" by (cases e) auto
    from Cons.IH [OF _ this] Cons.prems False show ?thesis by (cases e) auto
  qed
qed simp
lemma count_reasons_frame:
  "fn_pending (count_reasons ob g f) = fn_pending f"
  "fr_totals (fn_report (count_reasons ob g f)) = fr_totals (fn_report f)"
  "fr_by_symbol (fn_report (count_reasons ob g f)) = fr_by_symbol (fn_report f)"
  "fr_by_strategy (fn_report (count_reasons ob g f)) = fr_by_strategy (fn_report f)"
  by (simp_all add: count_reasons_def Let_def)

lemma retract_reasons_frame:
  "fn_pending (retract_reasons ob g f) = fn_pending f"
  "fr_totals (fn_report (retract_reasons ob g f)) = fr_totals (fn_report f)"
  "fr_by_symbol (fn_report (retract_reasons ob g f)) = fr_by_symbol (fn_report f)"
  "fr_by_strategy (fn_report (retract_reasons ob g f)) = fr_by_strategy (fn_report f)"
  by (simp_all add: retract_reasons_def Let_def split: option.splits)

lemma funnel_add_fields:
  "fr_totals (fn_report (funnel_add ob f)) = counts_add ob (fr_totals (fn_report f))"
  "fr_by_symbol (fn_report (funnel_add ob f)) = counts_at (fo_symbol ob) ob (fr_by_symbol (fn_report f))"
  "fr_by_strategy (fn_report (funnel_add ob f)) =
     (case fo_strategy_id ob of None \<Rightarrow> fr_by_strategy (fn_report f) | Some st \<Rightarrow> counts_at st ob (fr_by_strategy (fn_report f)))"
  "fn_pending (funnel_add ob f) =
     (case fo_decision_id ob of Some d \<Rightarrow> if stays_pending ob f then dict_set d ob (fn_pending f) else fn_pending f
      | None \<Rightarrow> fn_pending f)"
  by (auto simp: funnel_add_def Let_def count_reasons_frame stays_pending_def split: option.splits)

text \<open>What classification guarantees of an observation.\<close>

definition observation_ok :: "funnel_observation \<Rightarrow> bool" where
  "observation_ok ob \<longleftrightarrow> (fo_gate ob = None \<longleftrightarrow> fo_stage ob = ST_FILLED)
     \<and> (fo_decision_id ob \<noteq> None \<longrightarrow> fo_strategy_id ob \<noteq> None)"

lemma pending_update:
  assumes "pending_ok p M" "fo_decision_id ob = Some d" "fo_gate ob = Some BG_FILL" "fo_strategy_id ob \<noteq> None" "fo_stage ob \<noteq> ST_FILLED"
  shows "pending_ok (dict_set d ob p) (add_mset ob M)"
proof -
  have "mset (dict_vals (dict_set d ob p)) \<subseteq># add_mset ob M"
    using update_subset [of d ob p] assms(1) unfolding pending_ok_def by (meson mset_subset_eq_add_mset_cancel subset_mset.order_trans)
  with assms show ?thesis by (auto simp: pending_ok_def distinct_update dict_update_memb split: if_splits)
qed

lemma pending_more:
  assumes "pending_ok p M"
  shows "pending_ok p (add_mset ob M)"
proof -
  have "M \<subseteq># add_mset ob M" by simp
  with assms show ?thesis unfolding pending_ok_def using subset_mset.order_trans by blast
qed

lemma funnel_add_ok:
  assumes "funnel_ok f M" "observation_ok ob"
  shows "funnel_ok (funnel_add ob f) (add_mset ob M)"
proof -
  have p: "pending_ok (fn_pending (funnel_add ob f)) (add_mset ob M)"
    using assms pending_update [of "fn_pending f" M ob] pending_more [of "fn_pending f" M ob]
    by (auto simp: funnel_add_fields stays_pending_def funnel_ok_def observation_ok_def split: option.splits)
  have k: "keyed_ok fo_strategy_id (fr_by_strategy (fn_report (funnel_add ob f))) (add_mset ob M)"
    using assms(1) by (auto simp: funnel_add_fields funnel_ok_def keyed_add keyed_skip split: option.splits)
  show ?thesis
    using assms p k by (auto simp: funnel_ok_def funnel_add_fields tally_add keyed_add observation_ok_def)
qed

text \<open>Retracting a pending observation and forgetting it.\<close>

lemma retract_ok:
  assumes "funnel_ok f (add_mset ob M)" "(d, ob) \<in> set (fn_pending f)"
  shows "funnel_ok ((retract ob f)\<lparr>fn_pending := AList.delete d (fn_pending (retract ob f))\<rparr>) M"
proof -
  from assms have ob: "fo_gate ob = Some BG_FILL" "fo_strategy_id ob \<noteq> None" "fo_stage ob \<noteq> ST_FILLED"
    by (auto simp: funnel_ok_def pending_ok_def)
  then obtain st where st: "fo_strategy_id ob = Some st" by blast
  have fields: "fr_totals (fn_report (retract ob f)) = counts_retract ob (fr_totals (fn_report f))"
    "fr_by_symbol (fn_report (retract ob f)) = counts_retract_at (fo_symbol ob) ob (fr_by_symbol (fn_report f))"
    "fr_by_strategy (fn_report (retract ob f)) = counts_retract_at st ob (fr_by_strategy (fn_report f))"
    "fn_pending (retract ob f) = fn_pending f"
    by (simp_all add: retract_def ob(1) st retract_reasons_frame Let_def)
  from assms have "distinct (dict_keys (fn_pending f))" by (simp add: funnel_ok_def pending_ok_def)
  from delete_vals [OF this assms(2)] assms(1) have "mset (dict_vals (AList.delete d (fn_pending f))) \<subseteq># M"
    by (simp add: funnel_ok_def pending_ok_def)
  moreover have "set (AList.delete d (fn_pending f)) \<subseteq> set (fn_pending f)" by (auto simp: AList.delete_eq)
  ultimately have "pending_ok (AList.delete d (fn_pending f)) M"
    using assms(1) unfolding funnel_ok_def pending_ok_def by (auto simp: distinct_delete)
  with assms(1) st ob(3) fields show ?thesis
    by (auto simp: funnel_ok_def intro: tally_retract keyed_retract)
qed

section \<open>Runs\<close>

text \<open>The pending decisions that the ledger has seen fill.\<close>

definition now_filled :: "execution_ledger \<Rightarrow> funnel_observation dict \<Rightarrow> funnel_observation multiset" where
  "now_filled L p = mset (map snd (filter (\<lambda>e. ledger_filled (fst e) L) p))"

lemma now_filled_subset: "now_filled L p \<subseteq># mset (dict_vals p)"
  unfolding now_filled_def mset_map by (intro image_mset_subseteq_mono) simp

lemma promoted_ok: "fo_strategy_id ob \<noteq> None \<Longrightarrow> observation_ok (promoted ob)"
  by (simp add: observation_ok_def promoted_def)

lemma promote_one_cases:
  "\<not> ledger_filled d L \<Longrightarrow> promote_one L (f, n) (d, ob) = (f, n)"
  "ledger_filled d L \<Longrightarrow> promote_one L (f, n) (d, ob) =
     (funnel_add (promoted ob) ((retract ob f)\<lparr>fn_pending := AList.delete d (fn_pending (retract ob f))\<rparr>), n + 1)"
  by (simp_all add: promote_one_def Let_def)

lemma promote_fold:
  assumes "funnel_ok f M" "distinct (dict_keys es)" "set es \<subseteq> set (fn_pending f)"
    and "foldl (promote_one L) (f, n) es = (f', n')"
  shows "n' = n + size (now_filled L es) \<and> now_filled L es \<subseteq># M
    \<and> funnel_ok f' (M - now_filled L es + image_mset promoted (now_filled L es))"
  using assms
proof (induction es arbitrary: f M n)
  case Nil
  then show ?case by (simp add: now_filled_def)
next
  case (Cons e es)
  obtain d ob where e: "e = (d, ob)" by (cases e)
  show ?case
  proof (cases "ledger_filled d L")
    case False
    with Cons.prems e have "foldl (promote_one L) (f, n) es = (f', n')" by (simp add: promote_one_cases)
    moreover have "now_filled L (e # es) = now_filled L es" using False by (simp add: now_filled_def e)
    ultimately show ?thesis using Cons.IH [OF Cons.prems(1)] Cons.prems(2,3) by (simp del: subset_mset.add_diff_assoc2)
  next
    case True
    have mem: "(d, ob) \<in> set (fn_pending f)" using Cons.prems(3) e by simp
    with Cons.prems(1) have "ob \<in># M" "fo_strategy_id ob \<noteq> None"
      by (force simp: funnel_ok_def pending_ok_def dest: mset_subset_eqD [of _ M ob])+
    then obtain N where M: "M = add_mset ob N" by (meson multi_member_split)
    define f1 where "f1 = (retract ob f)\<lparr>fn_pending := AList.delete d (fn_pending (retract ob f))\<rparr>"
    from retract_ok [OF Cons.prems(1) [unfolded M] mem] have f1: "funnel_ok f1 N" by (simp add: f1_def)
    from funnel_add_ok [OF f1 promoted_ok] \<open>fo_strategy_id ob \<noteq> None\<close>
    have f2: "funnel_ok (funnel_add (promoted ob) f1) (add_mset (promoted ob) N)" by blast
    have keep: "fn_pending (funnel_add (promoted ob) f1) = AList.delete d (fn_pending f)"
      by (auto simp: funnel_add_fields stays_pending_def promoted_def f1_def retract_def Let_def retract_reasons_frame split: option.splits)
    have rest: "set es \<subseteq> set (fn_pending (funnel_add (promoted ob) f1))"
      using Cons.prems(2,3) e by (force simp: keep AList.delete_eq image_iff)
    have "foldl (promote_one L) (funnel_add (promoted ob) f1, n + 1) es = (f', n')"
      using Cons.prems(4) True by (simp add: promote_one_cases f1_def e)
    moreover have "distinct (dict_keys es)" using Cons.prems(2) by simp
    ultimately have ih: "n' = n + 1 + size (now_filled L es)"
      "funnel_ok f' (add_mset (promoted ob) N - now_filled L es + image_mset promoted (now_filled L es))"
      using Cons.IH [OF f2 _ rest] by blast+
    have sub: "now_filled L es \<subseteq># N"
    proof -
      have "distinct (dict_keys (AList.delete d (fn_pending f)))"
        using Cons.prems(1) by (simp add: funnel_ok_def pending_ok_def distinct_delete)
      then have "distinct es" "distinct (AList.delete d (fn_pending f))"
        using Cons.prems(2) by (simp_all add: distinct_map)
      then have "mset es \<subseteq># mset (AList.delete d (fn_pending f))"
        using subset_imp_msubset_mset_set [OF rest [unfolded keep]] by (simp add: mset_set_set)
      then have "mset (dict_vals es) \<subseteq># mset (dict_vals (AList.delete d (fn_pending f)))"
        unfolding mset_map by (rule image_mset_subseteq_mono)
      moreover have "mset (dict_vals (AList.delete d (fn_pending f))) \<subseteq># N"
        using f1 by (simp add: funnel_ok_def pending_ok_def f1_def retract_def Let_def retract_reasons_frame split: option.splits)
      ultimately show ?thesis using now_filled_subset [of L es] by (meson subset_mset.order_trans)
    qed
    have eq: "now_filled L (e # es) = add_mset ob (now_filled L es)" using True by (simp add: now_filled_def e)
    have move: "M - now_filled L (e # es) + image_mset promoted (now_filled L (e # es))
        = add_mset (promoted ob) N - now_filled L es + image_mset promoted (now_filled L es)"
    proof -
      from sub obtain N' where "N = now_filled L es + N'" by (auto simp: subset_mset.le_iff_add)
      then show ?thesis by (simp add: M eq)
    qed
    have "now_filled L (e # es) \<subseteq># M" unfolding M eq using sub by simp
    moreover have "n' = n + size (now_filled L (e # es))" using ih(1) by (simp add: eq)
    ultimately show ?thesis using ih(2) unfolding move by blast
  qed
qed
lemma apply_ledger_ok:
  assumes "funnel_ok f M"
  shows "funnel_ok (fst (apply_ledger L f)) (M - now_filled L (fn_pending f) + image_mset promoted (now_filled L (fn_pending f)))"
    "snd (apply_ledger L f) = size (now_filled L (fn_pending f))" "now_filled L (fn_pending f) \<subseteq># M"
proof -
  obtain f1 n1 where run: "foldl (promote_one L) (f, 0) (fn_pending f) = (f1, n1)" by (metis prod.exhaust)
  have d: "distinct (dict_keys (fn_pending f))" using assms by (simp add: funnel_ok_def pending_ok_def)
  have same: "funnel_ok (fst (apply_ledger L f)) N = funnel_ok f1 N" for N
    by (simp add: apply_ledger_def run funnel_ok_def)
  note r = promote_fold [OF assms d subset_refl run]
  from r show "funnel_ok (fst (apply_ledger L f)) (M - now_filled L (fn_pending f) + image_mset promoted (now_filled L (fn_pending f)))"
    unfolding same by blast
  from r show "snd (apply_ledger L f) = size (now_filled L (fn_pending f))" "now_filled L (fn_pending f) \<subseteq># M"
    by (simp_all add: apply_ledger_def run)
qed

lemma stopped_ok: "st \<noteq> ST_FILLED \<Longrightarrow> observation_ok (stopped o1 st g rs) \<longleftrightarrow> fo_decision_id o1 = None \<or> fo_strategy_id o1 \<noteq> None"
  by (auto simp: observation_ok_def stopped_def)

lemma text_ok: "observation_ok (ob\<lparr>fo_reason_text := t\<rparr>) = observation_ok ob"
  by (simp add: observation_ok_def)

lemma classify_ok: "observation_ok (classify_cycle r now known)"
proof -
  have unproposed: "observation_ok (classify_unproposed (base_observation r now) rejections check)" for rejections check
    by (simp add: classify_unproposed_def Let_def stopped_ok base_observation_def)
  have execution: "observation_ok (classify_execution o1 status why known)"
    if "fo_decision_id o1 \<noteq> None" "fo_strategy_id o1 \<noteq> None" "fo_gate o1 = None" for o1 status why
    using that by (auto simp: classify_execution_def stopped_ok text_ok split: option.splits) (auto simp: observation_ok_def)
  show ?thesis
    by (auto simp: classify_cycle_def Let_def unproposed stopped_ok text_ok split: option.splits)
      (auto intro!: execution simp: base_observation_def)
qed

lemma observe_ok:
  assumes "funnel_ok f M"
  shows "funnel_ok (fst (funnel_observe r now L f)) (add_mset (snd (funnel_observe r now L f)) M)"
proof -
  from funnel_add_ok [OF assms classify_ok]
  have "funnel_ok (funnel_add (classify_cycle r now known) f) (add_mset (classify_cycle r now known) M)" for known .
  then show ?thesis by (simp add: funnel_observe_def Let_def funnel_ok_def split: option.splits)
qed

datatype funnel_op = Observe runtime_result "datetime option" "execution_ledger option" | ApplyLedger execution_ledger

fun funnel_step :: "funnel \<Rightarrow> funnel_op \<Rightarrow> funnel" where
  "funnel_step f (Observe r now L) = fst (funnel_observe r now L f)"
| "funnel_step f (ApplyLedger L) = fst (apply_ledger L f)"

text \<open>The reference keeps the observations themselves, a promoted one in place of the pending one.\<close>

fun reference_step :: "funnel \<Rightarrow> funnel_observation multiset \<Rightarrow> funnel_op \<Rightarrow> funnel_observation multiset" where
  "reference_step f M (Observe r now L) = add_mset (snd (funnel_observe r now L f)) M"
| "reference_step f M (ApplyLedger L) =
     M - now_filled L (fn_pending f) + image_mset promoted (now_filled L (fn_pending f))"

definition both_step :: "funnel \<times> funnel_observation multiset \<Rightarrow> funnel_op \<Rightarrow> funnel \<times> funnel_observation multiset" where
  "both_step s c = (funnel_step (fst s) c, reference_step (fst s) (snd s) c)"

lemma both_run: "fst (foldl both_step s ops) = foldl funnel_step (fst s) ops"
  by (induction ops arbitrary: s) (simp_all add: both_step_def)

definition observed :: "funnel_op list \<Rightarrow> nat" where
  "observed ops = length (filter (\<lambda>c. case c of Observe r now L \<Rightarrow> True | ApplyLedger L \<Rightarrow> False) ops)"

lemma run_ok:
  assumes "funnel_ok (fst s) (snd s)"
  shows "funnel_ok (fst (foldl both_step s ops)) (snd (foldl both_step s ops))
    \<and> size (snd (foldl both_step s ops)) = size (snd s) + observed ops"
  using assms
proof (induction ops arbitrary: s)
  case (Cons c ops)
  show ?case
  proof (cases c)
    case (Observe r now L)
    with Cons.IH [of "both_step s c"] observe_ok [OF Cons.prems] show ?thesis
      by (simp add: both_step_def observed_def)
  next
    case (ApplyLedger L)
    note a = apply_ledger_ok [OF Cons.prems, of L]
    have "size (reference_step (fst s) (snd s) c) = size (snd s)"
    proof -
      from a(3) obtain N where N: "snd s = now_filled L (fn_pending (fst s)) + N" by (auto simp: subset_mset.le_iff_add)
      show ?thesis by (simp add: ApplyLedger N)
    qed
    with ApplyLedger Cons.IH [of "both_step s c"] a(1) show ?thesis
      by (simp add: both_step_def observed_def)
  qed
qed (simp add: observed_def)

lemma new_funnel_ok: "funnel_ok (new_funnel a b c t) {#}"
  by (simp add: funnel_ok_def new_funnel_def pending_ok_def keyed_ok_def dict_get_or_def)

section \<open>Properties\<close>


lemma gate_sum:
  "size (filter_mset (\<lambda>ob. fo_gate ob \<noteq> None) M) = (\<Sum>g \<in> {BG_MARKET_DATA, BG_CANDLE_HISTORY, BG_UNIVERSE, BG_INTELLIGENCE,
     BG_SIGNAL, BG_PRETRADE, BG_RISK, BG_META_AGENT, BG_PLANNER, BG_FILL}. size {# ob \<in># M. fo_gate ob = Some g #})"
proof (induction M)
  case (add ob M)
  have "g \<in> {BG_MARKET_DATA, BG_CANDLE_HISTORY, BG_UNIVERSE, BG_INTELLIGENCE, BG_SIGNAL, BG_PRETRADE, BG_RISK,
      BG_META_AGENT, BG_PLANNER, BG_FILL}" for g by (cases g) simp_all
  with add show ?case by (cases "fo_gate ob") auto
qed simp

lemma category_sum:
  "size M = (\<Sum>k \<in> {FC_NO_OPPORTUNITY, FC_OPPORTUNITY_REJECTED, FC_FILL_UNAVAILABLE, FC_FILLED}.
     size {# ob \<in># M. fo_category ob = k #})"
proof (induction M)
  case (add ob M)
  then show ?case by (cases "fo_category ob") simp_all
qed simp

text \<open>
  The funnel conserves cycles. After any sequence of observed cycles and ledger passes: the cycle
  count is the number of observations, the filled and the blocked cycles add up to it, so do the
  categories, and no later stage has a greater count than an earlier one.
\<close>

theorem funnel_conserves:
  "stage_count (fr_totals (fn_report (foldl funnel_step (new_funnel a b c t) ops))) ST_CYCLE = observed ops
   \<and> stage_count (fr_totals (fn_report (foldl funnel_step (new_funnel a b c t) ops))) ST_FILLED
      + (\<Sum>g \<in> {BG_MARKET_DATA, BG_CANDLE_HISTORY, BG_UNIVERSE, BG_INTELLIGENCE, BG_SIGNAL, BG_PRETRADE, BG_RISK,
             BG_META_AGENT, BG_PLANNER, BG_FILL}.
           dict_get_or (fc_blocked_by_gate (fr_totals (fn_report (foldl funnel_step (new_funnel a b c t) ops)))) (gate_str g) 0)
      = observed ops
   \<and> (\<Sum>k \<in> {FC_NO_OPPORTUNITY, FC_OPPORTUNITY_REJECTED, FC_FILL_UNAVAILABLE, FC_FILLED}.
           dict_get_or (fc_categories (fr_totals (fn_report (foldl funnel_step (new_funnel a b c t) ops)))) (category_str k) 0)
      = observed ops
   \<and> sorted_wrt (\<lambda>s1 s2. stage_count (fr_totals (fn_report (foldl funnel_step (new_funnel a b c t) ops))) s2
        \<le> stage_count (fr_totals (fn_report (foldl funnel_step (new_funnel a b c t) ops))) s1) stage_order"
proof -
  define M where "M = snd (foldl both_step (new_funnel a b c t, {#}) ops)"
  have ok: "funnel_ok (foldl funnel_step (new_funnel a b c t) ops) M" "size M = observed ops"
    using run_ok [of "(new_funnel a b c t, {#})" ops] new_funnel_ok [of a b c t] by (simp_all add: both_run M_def)
  let ?c = "fr_totals (fn_report (foldl funnel_step (new_funnel a b c t) ops))"
  have tally: "tally_ok ?c M" and gates: "\<forall>ob \<in># M. fo_gate ob = None \<longleftrightarrow> fo_stage ob = ST_FILLED"
    using ok(1) by (simp_all add: funnel_ok_def)
  have st: "stage_count ?c st = size (filter_mset (reached st) M)" for st using tally by (simp add: tally_ok_def)
  have all: "filter_mset (reached ST_CYCLE) M = M" by (simp add: reached_def filter_mset_eq_conv)
  have top: "reached ST_FILLED ob \<longleftrightarrow> fo_stage ob = ST_FILLED" for ob by (cases "fo_stage ob") (simp_all add: reached_def)
  have "size (filter_mset (reached ST_FILLED) M) + size (filter_mset (\<lambda>ob. fo_gate ob \<noteq> None) M) = size M"
    using gates by (induction M) (auto simp: top)
  moreover have "stage_count ?c s2 \<le> stage_count ?c s1" if "stage_rank s1 \<le> stage_rank s2" for s1 s2
    using that unfolding st by (induction M) (auto simp: reached_def)
  moreover have "size (filter_mset (reached st) M) \<le> observed ops" for st
    using size_filter_mset_lesseq [of "reached st" M] ok(2) by simp
  ultimately show ?thesis
    using tally ok(2) gate_sum [of M] category_sum [of M] all
    by (simp add: st tally_ok_def stage_order_def)
qed





















lemma retract_stats:
  "fr_tick_age_seconds (fn_report (retract ob f)) = fr_tick_age_seconds (fn_report f)"
  by (simp add: retract_def retract_reasons_def Let_def split: option.splits)

lemma add_stats:
  "fs_samples (fr_tick_age_seconds (fn_report (funnel_add ob f)))
     = fs_samples (fr_tick_age_seconds (fn_report f)) + (if fo_tick_age_seconds ob = None then 0 else 1)"
  by (simp add: funnel_add_def count_reasons_def stats_add_def Let_def split: option.splits)

text \<open>
  A promoted cycle's freshness is counted twice. A ledger pass adds one tick-age sample for every
  pending decision it promotes that carries one, although no cycle was observed: the observation had
  added its sample already, and retracting it does not take that sample back.
\<close>

theorem freshness_recounted:
  "fs_samples (fr_tick_age_seconds (fn_report (fst (apply_ledger L f))))
   = fs_samples (fr_tick_age_seconds (fn_report f))
     + size {# ob \<in># now_filled L (fn_pending f). fo_tick_age_seconds ob \<noteq> None #}"
proof -
  have "fs_samples (fr_tick_age_seconds (fn_report (fst (foldl (promote_one L) (f, n) es))))
      = fs_samples (fr_tick_age_seconds (fn_report f)) + size {# ob \<in># now_filled L es. fo_tick_age_seconds ob \<noteq> None #}"
    for es n
  proof (induction es arbitrary: f n)
    case (Cons e es)
    obtain d ob where e: "e = (d, ob)" by (cases e)
    show ?case
    proof (cases "ledger_filled d L")
      case True
      then show ?thesis unfolding e
        by (simp add: promote_one_cases Cons.IH add_stats retract_stats now_filled_def) (simp add: promoted_def)
    next
      case False
      then show ?thesis unfolding e by (simp add: promote_one_cases Cons.IH now_filled_def)
    qed
  qed (simp add: now_filled_def)
  then show ?thesis by (simp add: apply_ledger_def split_beta)
qed

lemma max_item_in: "max_item b xs \<in> insert b (set xs)"
proof (induction xs arbitrary: b)
  case (Cons x xs)
  from Cons [of "if snd b < snd x \<or> snd b = snd x \<and> fst b < fst x then x else b"] show ?case by auto
qed simp

lemma max_item_ge: "snd b \<le> snd (max_item b xs) \<and> (\<forall>x \<in> set xs. snd x \<le> snd (max_item b xs))"
proof (induction xs arbitrary: b)
  case (Cons y xs)
  define c where "c = (if snd b < snd y \<or> snd b = snd y \<and> fst b < fst y then y else b)"
  have c: "snd b \<le> snd c" "snd y \<le> snd c" "max_item b (y # xs) = max_item c xs" by (auto simp: c_def)
  from Cons.IH [of c] c(1,2) show ?case unfolding c(3) by auto
qed simp

text \<open>
  The diagnosis names a dominant gate exactly when a cycle was observed and some gate blocked one,
  and no gate blocked more cycles than the one it names.
\<close>

theorem diagnosis_dominates:
  "case dg_dominant_gate (diagnose R) of
     None \<Rightarrow> stage_count (fr_totals R) ST_CYCLE = 0 \<or> fc_blocked_by_gate (fr_totals R) = []
   | Some (g, n) \<Rightarrow> (g, n) \<in> set (fc_blocked_by_gate (fr_totals R))
       \<and> list_all (\<lambda>e. snd e \<le> n) (fc_blocked_by_gate (fr_totals R))"
proof (cases "fc_blocked_by_gate (fr_totals R)")
  case (Cons x xs)
  have "max_item x xs \<in> set (x # xs)" "list_all (\<lambda>e. snd e \<le> snd (max_item x xs)) (x # xs)"
    using max_item_in [of x xs] max_item_ge [of x xs] by (auto simp: list_all_iff)
  with Cons show ?thesis
    by (cases "max_item x xs") (simp add: diagnose_def dominant_def Let_def)
qed (simp add: diagnose_def dominant_def Let_def)

end
