(* ===== verification/Log_Scrub.thy ===== *)
theory Log_Scrub
  imports Prelude
begin

text \<open>
  The redaction of \<open>logging_config.py\<close>: \<open>scrub_secret_query_params\<close> masks the value of every
  credential-looking \<open>name=value\<close> pair in a text, \<open>redact_secrets\<close> masks the values under
  secret-looking keys of a nested event payload and scrubs its texts. The two regular expressions
  are translated to the scan they perform; letters are those of ASCII. The lemmas at the end say
  what the code is for: the output does not depend on the secret.
\<close>

definition redacted :: string where
  "redacted = ''***REDACTED***''"

definition secret_key_fragments :: "string list" where
  "secret_key_fragments = [''key'', ''token'', ''password'', ''passwd'', ''secret'', ''auth'',
     ''credential'', ''bearer'', ''cookie'']"

definition secret_param_fragments :: "string list" where
  "secret_param_fragments = [''key'', ''token'', ''password'', ''passwd'', ''secret'', ''auth'',
     ''credential'', ''signature'', ''sig'']"

text \<open>\<open>pattern.search(text)\<close> of an alternation of words, ignoring case.\<close>

definition mentions :: "string list \<Rightarrow> string \<Rightarrow> bool" where
  "mentions fragments text = list_ex (contains_str (lower text)) fragments"

text \<open>The classes \<open>[\w.-]\<close> and \<open>[^&\s"'>]\<close>.\<close>

definition name_char :: "char \<Rightarrow> bool" where
  "name_char c = (let n = (of_char c :: nat) in
     (48 \<le> n \<and> n \<le> 57) \<or> (65 \<le> n \<and> n \<le> 90) \<or> (97 \<le> n \<and> n \<le> 122)
     \<or> n = 95 \<or> n = 46 \<or> n = 45)"

definition value_char :: "char \<Rightarrow> bool" where
  "value_char c = (let n = (of_char c :: nat) in
     \<not> (n = 38 \<or> is_space c \<or> n = 34 \<or> n = 39 \<or> n = 62))"

text \<open>
  \<open>sub\<close> scans from the left. A match starts at the beginning of a maximal run of name characters
  that holds a fragment and is followed by \<open>=\<close> and at least one value character, and it extends
  over all the value characters there are; no other position can start one, since a run cannot
  contain the \<open>=\<close>.
\<close>

function scrub_secret_query_params :: "string \<Rightarrow> string" where
  "scrub_secret_query_params [] = []"
| "scrub_secret_query_params (c # cs) =
     (if name_char c then
        (let run = takeWhile name_char (c # cs); rest = dropWhile name_char (c # cs) in
         if mentions secret_param_fragments run \<and> rest \<noteq> [] \<and> hd rest = CHR ''=''
            \<and> takeWhile value_char (tl rest) \<noteq> []
         then run @ ''='' @ redacted @ scrub_secret_query_params (dropWhile value_char (tl rest))
         else run @ scrub_secret_query_params rest)
      else c # scrub_secret_query_params cs)"
  by pat_completeness auto

termination
proof (relation "measure length", simp_all)
  fix c cs
  show "length (dropWhile name_char cs) < Suc (length cs)"
    by (rule le_imp_less_Suc) (rule length_dropWhile_le)
  have "length (dropWhile value_char (tl (dropWhile name_char cs)))
      \<le> length (tl (dropWhile name_char cs))"
    by (rule length_dropWhile_le)
  also have "\<dots> \<le> length (dropWhile name_char cs)" by simp
  also have "\<dots> \<le> length cs" by (rule length_dropWhile_le)
  finally show "length (dropWhile value_char (tl (dropWhile name_char cs))) < Suc (length cs)"
    by simp
qed

text \<open>
  The structlog processor. A payload is a nested value; tuples are lists here and objects the
  processor does not look into are the other constructors.
\<close>

fun scrub_value :: "json \<Rightarrow> json" where
  "scrub_value (JObj kvs) =
     JObj (map (\<lambda>(k, v). (k, if mentions secret_key_fragments k then JStr redacted
                              else scrub_value v)) kvs)"
| "scrub_value (JList vs) = JList (map scrub_value vs)"
| "scrub_value (JStr s) = JStr (scrub_secret_query_params s)"
| "scrub_value v = v"

definition redact_secrets :: "(string \<times> json) list \<Rightarrow> (string \<times> json) list" where
  "redact_secrets event = map (\<lambda>(k, v).
     (k, if mentions secret_key_fragments k then JStr redacted else scrub_value v)) event"

section \<open>The output does not depend on the secret\<close>

declare scrub_secret_query_params.simps [simp del]

lemma scrub_Nil [simp]: "scrub_secret_query_params [] = []"
  by (simp add: scrub_secret_query_params.simps)

lemma scrub_other:
  "\<not> name_char c \<Longrightarrow> scrub_secret_query_params (c # cs) = c # scrub_secret_query_params cs"
  by (simp add: scrub_secret_query_params.simps)

lemma name_not_eq: "name_char c \<Longrightarrow> c \<noteq> CHR ''=''"
  by (auto simp: name_char_def)

lemma name_value: "name_char c \<Longrightarrow> value_char c"
  by (auto simp: name_char_def value_char_def is_space_def Let_def)

lemma value_eq [simp]: "value_char (CHR ''='')"
  by (simp add: value_char_def is_space_def)

lemma contains_Cons: "contains_str s p \<Longrightarrow> contains_str (c # s) p"
  by simp

lemma contains_append: "contains_str s p \<Longrightarrow> contains_str (q @ s) p"
  by (induction q) auto

lemma mentions_append: "mentions fs s \<Longrightarrow> mentions fs (q @ s)"
  by (auto simp: mentions_def list_ex_iff lower_def intro: contains_append)

lemma mentions_ne: "mentions secret_param_fragments s \<Longrightarrow> s \<noteq> []"
  by (auto simp: mentions_def secret_param_fragments_def lower_def)

lemma scrub_pair:
  assumes "run \<noteq> []" "list_all name_char run" "mentions secret_param_fragments run"
    and "takeWhile value_char v \<noteq> []"
  shows "scrub_secret_query_params (run @ CHR ''='' # v) =
    run @ ''='' @ redacted @ scrub_secret_query_params (dropWhile value_char v)"
proof -
  obtain c cs where run: "run = c # cs" using assms(1) by (cases run) auto
  have tw: "takeWhile name_char (run @ CHR ''='' # v) = run"
    and dw: "dropWhile name_char (run @ CHR ''='' # v) = CHR ''='' # v"
    using assms(2) name_not_eq [of "CHR ''=''"]
    by (auto simp: takeWhile_append dropWhile_append list_all_iff)
  show ?thesis
    using assms tw dw unfolding run
    by (simp add: scrub_secret_query_params.simps(2) Let_def del: takeWhile.simps dropWhile.simps)
qed

lemma scrub_run:
  assumes "run \<noteq> []" "list_all name_char run" "rest = [] \<or> \<not> name_char (hd rest)"
    and "\<not> (mentions secret_param_fragments run \<and> rest \<noteq> [] \<and> hd rest = CHR ''=''
            \<and> takeWhile value_char (tl rest) \<noteq> [])"
  shows "scrub_secret_query_params (run @ rest) = run @ scrub_secret_query_params rest"
proof -
  obtain c cs where run: "run = c # cs" using assms(1) by (cases run) auto
  have tw: "takeWhile name_char (run @ rest) = run"
    and dw: "dropWhile name_char (run @ rest) = rest"
    using assms(2,3) by (cases rest; auto simp: takeWhile_append dropWhile_append list_all_iff)+
  show ?thesis
    using assms tw dw unfolding run
    by (auto simp add: scrub_secret_query_params.simps(2) Let_def simp del: takeWhile.simps dropWhile.simps)
qed

text \<open>A text whose tail holds a pair with some secret, seen from any point before the pair.\<close>

lemma scrub_hides:
  assumes name: "list_all name_char name" "mentions secret_param_fragments name"
    and v: "v \<noteq> []" "list_all value_char v" and w: "w \<noteq> []" "list_all value_char w"
  shows "scrub_secret_query_params (pre @ name @ CHR ''='' # v @ rest) =
    scrub_secret_query_params (pre @ name @ CHR ''='' # w @ rest)"
proof (induction pre rule: length_induct)
  case (1 pre)
  have ne: "name \<noteq> []" using name(2) by (rule mentions_ne)
  have tails: "takeWhile value_char (u @ rest) \<noteq> []"
    "dropWhile value_char (u @ rest) = dropWhile value_char rest"
    if "u \<noteq> []" "list_all value_char u" for u
    using that by (cases u; auto simp: dropWhile_append list_all_iff)+
  have swallow: "dropWhile value_char (q @ name @ CHR ''='' # u @ rest) = dropWhile value_char rest"
    if "u \<noteq> []" "list_all value_char u" "list_all value_char q" for u q
    using that name(1) tails(2) by (auto simp: dropWhile_append list_all_iff name_value)
  define run where "run = takeWhile name_char pre"
  define post where "post = dropWhile name_char pre"
  have pre: "pre = run @ post" by (simp add: run_def post_def)
  have run: "list_all name_char run"
    by (auto simp: run_def list_all_iff dest: set_takeWhileD)
  have post: "post = [] \<or> \<not> name_char (hd post)"
    by (cases "post = []") (auto simp: post_def hd_dropWhile)
  show ?case
  proof (cases "post = []")
    case True
    have "mentions secret_param_fragments (run @ name)" using name(2) by (rule mentions_append)
    then show ?thesis
      using scrub_pair [of "run @ name"] run name ne v w tails pre True by simp
  next
    case post_ne: False
    then obtain d post' where d: "post = d # post'" by (cases post) auto
    have nd: "\<not> name_char d" using post d by simp
    have shorter: "length post' < length pre" by (simp add: pre d)
    have step: "scrub_secret_query_params (post @ name @ CHR ''='' # v @ rest) =
      scrub_secret_query_params (post @ name @ CHR ''='' # w @ rest)"
      using 1 shorter nd by (simp add: d scrub_other)
    show ?thesis
    proof (cases "run = []")
      case True
      with step pre show ?thesis by simp
    next
      case run_ne: False
      show ?thesis
      proof (cases "mentions secret_param_fragments run \<and> d = CHR ''=''
          \<and> takeWhile value_char (post' @ name) \<noteq> []")
        case pair: True
        have some: "takeWhile value_char (post' @ name @ CHR ''='' # u @ rest) \<noteq> []" for u
          using pair ne by (cases post'; cases name) (auto split: if_splits)
        have same: "scrub_secret_query_params
            (dropWhile value_char (post' @ name @ CHR ''='' # v @ rest)) =
          scrub_secret_query_params (dropWhile value_char (post' @ name @ CHR ''='' # w @ rest))"
        proof (cases "list_all value_char post'")
          case True
          with swallow [OF v] swallow [OF w] show ?thesis by simp
        next
          case False
          then have "dropWhile value_char (post' @ z) = dropWhile value_char post' @ z" for z
            by (auto simp: dropWhile_append list_all_iff)
          moreover have "length (dropWhile value_char post') < length pre"
            using length_dropWhile_le [of value_char post'] shorter by linarith
          ultimately show ?thesis using 1 by simp
        qed
        show ?thesis
          using scrub_pair [OF run_ne run _ some] pair same pre d by simp
      next
        case no: False
        have none: "\<not> (mentions secret_param_fragments run \<and> d = CHR ''=''
            \<and> takeWhile value_char (post' @ name @ CHR ''='' # u @ rest) \<noteq> [])" for u
          using no ne name(1) by (cases post'; cases name) (auto simp: name_value split: if_splits)
        show ?thesis
          using scrub_run [OF run_ne run, of "post @ name @ CHR ''='' # v @ rest"]
            scrub_run [OF run_ne run, of "post @ name @ CHR ''='' # w @ rest"] none nd step pre d
          by simp
      qed
    qed
  qed
qed

text \<open>Two payloads that differ only in secrets: the values of secret pairs and of secret keys.\<close>

inductive same_but_secrets :: "json \<Rightarrow> json \<Rightarrow> bool" where
  sbs_same: "same_but_secrets j j"
| sbs_text: "list_all name_char name \<Longrightarrow> mentions secret_param_fragments name \<Longrightarrow>
    v \<noteq> [] \<Longrightarrow> list_all value_char v \<Longrightarrow> w \<noteq> [] \<Longrightarrow> list_all value_char w \<Longrightarrow>
    same_but_secrets (JStr (pre @ name @ CHR ''='' # v @ rest))
      (JStr (pre @ name @ CHR ''='' # w @ rest))"
| sbs_list: "list_all2 same_but_secrets js ks \<Longrightarrow> same_but_secrets (JList js) (JList ks)"
| sbs_obj: "list_all2 (\<lambda>x y. fst x = fst y \<and>
      (mentions secret_key_fragments (fst x) \<or> same_but_secrets (snd x) (snd y))) kvs lws \<Longrightarrow> same_but_secrets (JObj kvs) (JObj lws)"

lemma scrub_value_hides: "same_but_secrets j k \<Longrightarrow> scrub_value j = scrub_value k"
proof (induction rule: same_but_secrets.induct)
  case (sbs_text name v w pre rest)
  then show ?case unfolding scrub_value.simps json.inject by (rule scrub_hides)
next
  case (sbs_list js ks)
  then have "list_all2 (\<lambda>j k. scrub_value j = scrub_value k) js ks"
    by (rule list_all2_mono) simp
  then have "map scrub_value js = map scrub_value ks"
    by (simp add: list_all2_conv_all_nth list_eq_iff_nth_eq)
  then show ?case by simp
next
  case (sbs_obj kvs lws)
  let ?f = "\<lambda>x. (fst x, if mentions secret_key_fragments (fst x) then JStr redacted
      else scrub_value (snd x))"
  from sbs_obj have "list_all2 (\<lambda>x y. ?f x = ?f y) kvs lws"
    by (rule list_all2_mono) auto
  then have "map ?f kvs = map ?f lws"
    by (simp add: list_all2_conv_all_nth list_eq_iff_nth_eq)
  then show ?case by (simp add: case_prod_unfold)
qed simp

lemma redact_secrets_obj: "JObj (redact_secrets event) = scrub_value (JObj event)"
  by (simp add: redact_secrets_def)

text \<open>
  What reaches a log line does not depend on a credential: payloads that agree up to the
  values under secret-looking keys and the values of secret-looking pairs in their texts, at any
  depth, are logged as the same payload.
\<close>

theorem log_hides_secrets:
  assumes "same_but_secrets (JObj event) (JObj other)"
  shows "redact_secrets event = redact_secrets other"
  using scrub_value_hides [OF assms] by (simp only: redact_secrets_obj [symmetric] json.inject)

lemma ex_mentions:
  "mentions secret_param_fragments ''auth_token''"
  "mentions secret_key_fragments ''api_key''"
proof -
  have low: "lower ''auth_token'' = ''auth_token''" "lower ''api_key'' = ''api_key''"
    by (simp_all add: lower_def char_lower_def char_of_def bit_0)
  then show "mentions secret_param_fragments ''auth_token''" "mentions secret_key_fragments ''api_key''"
    by (simp_all add: mentions_def secret_param_fragments_def secret_key_fragments_def startswith_def)
qed

lemma ex_secret_pair:
  "same_but_secrets (JStr (''GET /v1?'' @ ''auth_token'' @ CHR ''='' # ''abc'' @ ''&x''))
     (JStr (''GET /v1?'' @ ''auth_token'' @ CHR ''='' # ''zz9'' @ ''&x''))"
  by (rule sbs_text [OF _ ex_mentions(1)]) (simp_all add: name_char_def value_char_def is_space_def)

theorem log_hides_secrets_witness:
  "redact_secrets [(''error'', JList [JStr (''GET /v1?'' @ ''auth_token'' @ CHR ''='' # ''abc'' @ ''&x'')]),
      (''api_key'', JInt 7)] =
   redact_secrets [(''error'', JList [JStr (''GET /v1?'' @ ''auth_token'' @ CHR ''='' # ''zz9'' @ ''&x'')]),
      (''api_key'', JInt 9)]"
  by (intro log_hides_secrets sbs_obj list.rel_intros conjI)
     (simp_all only: fst_conv snd_conv ex_mentions simp_thms,
      intro disjI2 sbs_list list.rel_intros ex_secret_pair)

end
