(* ===== verification/Py_Values.thy ===== *)
theory Py_Values
  imports Prelude
begin

text \<open>
  Python values that several parsers share: the truth value and the fields of a JSON value, \<open>timedelta\<close>, and the proleptic
  Gregorian calendar of \<open>date\<close> and \<open>datetime\<close>. \<open>ordinal\<close> and \<open>date_of_ordinal\<close> are the algorithms of
  the standard library (\<open>_ymd2ord\<close> and \<open>_ord2ymd\<close>); the lemmas show that the second finds the year
  and the month the ordinal lies in and that ordinals follow the order of the months.
\<close>

section \<open>Truth values\<close>

fun json_truthy :: "json \<Rightarrow> bool" where
  "json_truthy JNull = False"
| "json_truthy (JBool b) = b"
| "json_truthy (JInt n) = (n \<noteq> 0)"
| "json_truthy (JFloat (Fin x)) = (x \<noteq> 0)"
| "json_truthy (JFloat NonFinite) = True"
| "json_truthy (JStr t) = (t \<noteq> [])"
| "json_truthy (JList vs) = (vs \<noteq> [])"
| "json_truthy (JObj kvs) = (kvs \<noteq> [])"

text \<open>\<open>payload.get(k)\<close>, \<open>None\<close> for an absent key, and \<open>a or b\<close>.\<close>

definition json_get :: "(string \<times> json) list \<Rightarrow> string \<Rightarrow> json" where
  "json_get kvs k = dict_get_or kvs k JNull"

definition json_or :: "json \<Rightarrow> json \<Rightarrow> json" where
  "json_or a b = (if json_truthy a then a else b)"

text \<open>\<open>isinstance(v, dict)\<close>\<close>

definition is_object :: "json \<Rightarrow> bool" where
  "is_object j = (case j of JObj kvs \<Rightarrow> True | _ \<Rightarrow> False)"

section \<open>Durations\<close>

text \<open>\<open>timedelta(seconds=s)\<close>: the nearest number of microseconds, ties to the even one.\<close>

definition timedelta_seconds :: "real \<Rightarrow> int" where
  "timedelta_seconds s = (let n = \<lfloor>s * 1000000\<rfloor>; r = s * 1000000 - of_int n in
     if r < 1 / 2 then n else if 1 / 2 < r then n + 1 else if even n then n else n + 1)"

section \<open>Dates\<close>

type_synonym civil = "int \<times> int \<times> int"

definition leap_year :: "int \<Rightarrow> bool" where
  "leap_year y = (y mod 4 = 0 \<and> (y mod 100 \<noteq> 0 \<or> y mod 400 = 0))"

definition days_in_month :: "int \<Rightarrow> int \<Rightarrow> int" where
  "days_in_month y m = (if m = 2 then (if leap_year y then 29 else 28)
     else if m \<in> {4, 6, 9, 11} then 30 else 31)"

text \<open>\<open>date(y, m, d)\<close>\<close>

definition make_date :: "int \<Rightarrow> int \<Rightarrow> int \<Rightarrow> py_error + civil" where
  "make_date y m d =
     (if 1 \<le> y \<and> y \<le> 9999 \<and> 1 \<le> m \<and> m \<le> 12 \<and> 1 \<le> d \<and> d \<le> days_in_month y m
      then Inr (y, m, d) else Inl ValueError)"

definition days_before_year :: "int \<Rightarrow> int" where
  "days_before_year y = (let p = y - 1 in p * 365 + p div 4 - p div 100 + p div 400)"

fun days_before_month_nat :: "int \<Rightarrow> nat \<Rightarrow> int" where
  "days_before_month_nat y 0 = 0"
| "days_before_month_nat y (Suc n) = days_before_month_nat y n + days_in_month y (int n + 1)"

definition days_before_month :: "int \<Rightarrow> int \<Rightarrow> int" where
  "days_before_month y m = days_before_month_nat y (nat (m - 1))"

definition ordinal :: "int \<Rightarrow> int \<Rightarrow> int \<Rightarrow> int" where
  "ordinal y m d = days_before_year y + days_before_month y m + d"

text \<open>The year an ordinal lies in.\<close>

definition year_of_ordinal :: "int \<Rightarrow> int" where
  "year_of_ordinal i =
     (let n = i - 1;
          n400 = n div 146097; n = n mod 146097;
          n100 = n div 36524; n = n mod 36524;
          n4 = n div 1461; n = n mod 1461;
          n1 = n div 365;
          year = n400 * 400 + 1 + n100 * 100 + n4 * 4 + n1
      in if n1 = 4 \<or> n100 = 4 then year - 1 else year)"

text \<open>The month: the last one that starts before the day.\<close>

definition month_of_ordinal :: "int \<Rightarrow> int" where
  "month_of_ordinal i =
     (let y = year_of_ordinal i; rest = i - days_before_year y
      in int (length (filter (\<lambda>m. days_before_month y m < rest) [1, 2, 3, 4, 5, 6, 7, 8, 9, 10, 11, 12])))"

text \<open>The ordinal of the epoch is 719163; \<open>datetime(y, m, d, tzinfo=UTC)\<close> is a midnight.\<close>

definition ordinal_of :: "datetime \<Rightarrow> int" where
  "ordinal_of t = utc_date t + 719163"

definition midnight :: "int \<Rightarrow> int \<Rightarrow> int \<Rightarrow> datetime" where
  "midnight y m d = (ordinal y m d - 719163) * 86400000000"

definition make_datetime :: "int \<Rightarrow> int \<Rightarrow> int \<Rightarrow> py_error + datetime" where
  "make_datetime y m d = bindr (make_date y m d) (\<lambda>(y, m, d). Inr (midnight y m d))"

definition year_of :: "datetime \<Rightarrow> int" where
  "year_of t = year_of_ordinal (ordinal_of t)"

definition month_of :: "datetime \<Rightarrow> int" where
  "month_of t = month_of_ordinal (ordinal_of t)"

text \<open>\<open>.weekday()\<close>: Monday is 0.\<close>

definition weekday :: "datetime \<Rightarrow> int" where
  "weekday t = (ordinal_of t + 6) mod 7"

definition days_delta :: "int \<Rightarrow> int" where
  "days_delta n = n * 86400000000"

section \<open>Lemmas\<close>

lemma bindr_cong [fundef_cong]:
  "x = y \<Longrightarrow> (\<And>a. y = Inr a \<Longrightarrow> f a = g a) \<Longrightarrow> bindr x f = bindr y g"
  by (cases y) simp_all

lemma div_pred:
  assumes "0 < (k :: int)"
  shows "y div k = (y - 1) div k + (if y mod k = 0 then 1 else 0)"
proof -
  define q r where "q = (y - 1) div k" and "r = (y - 1) mod k"
  have y: "y = k * q + (r + 1)" by (simp add: q_def r_def)
  have r: "0 \<le> r" "r < k" using assms by (simp_all add: r_def)
  show ?thesis
  proof (cases "r + 1 = k")
    case True
    then have "y = k * (q + 1)" by (simp add: y algebra_simps)
    with assms have "y div k = q + 1" "y mod k = 0" by simp_all
    then show ?thesis by (simp add: q_def)
  next
    case False
    with r have "0 \<le> r + 1" "r + 1 < k" by linarith+
    with y have "y div k = q" "y mod k = r + 1" by (rule int_div_pos_eq, rule int_mod_pos_eq)
    with r show ?thesis by (simp add: q_def)
  qed
qed

lemma leap_arith:
  assumes "P100 \<Longrightarrow> P4" "P400 \<Longrightarrow> P100"
    and "later = y * 365 + a - b + c" "earlier = (y - 1) * 365 + a' - b' + c'"
    and "a = a' + (if P4 then 1 else 0)" "b = b' + (if P100 then 1 else 0)" "c = c' + (if P400 then 1 else (0 :: int))"
  shows "later = earlier + (if P4 \<and> (\<not> P100 \<or> P400) then 366 else 365)"
  using assms by (cases P4; cases P100; cases P400) simp_all

lemma days_before_year_Suc: "days_before_year (y + 1) = days_before_year y + (if leap_year y then 366 else 365)"
proof -
  have "y mod 4 = 0" if "y mod 100 = 0"
    using dvd_trans [of 4 100 y] that by (simp add: dvd_eq_mod_eq_0)
  moreover have "y mod 100 = 0" if "y mod 400 = 0"
    using dvd_trans [of 100 400 y] that by (simp add: dvd_eq_mod_eq_0)
  moreover have "days_before_year (y + 1) = y * 365 + y div 4 - y div 100 + y div 400"
    by (simp add: days_before_year_def)
  moreover have "days_before_year y = (y - 1) * 365 + (y - 1) div 4 - (y - 1) div 100 + (y - 1) div 400"
    by (simp add: days_before_year_def Let_def)
  moreover have "y div 4 = (y - 1) div 4 + (if y mod 4 = 0 then 1 else 0)"
    "y div 100 = (y - 1) div 100 + (if y mod 100 = 0 then 1 else 0)"
    "y div 400 = (y - 1) div 400 + (if y mod 400 = 0 then 1 else 0)" by (rule div_pred; simp)+
  ultimately show ?thesis unfolding leap_year_def by (rule leap_arith)
qed

lemma days_before_year_parts:
  assumes "0 \<le> d" "d \<le> 3" "0 \<le> c" "c \<le> 24" "0 \<le> b" "b \<le> 3"
  shows "days_before_year (400 * a + 100 * b + 4 * c + d + 1) = 146097 * a + 36524 * b + 1461 * c + 365 * d"
proof -
  let ?p = "400 * a + 100 * b + 4 * c + d"
  have "?p div 4 = 100 * a + 25 * b + c" by (rule int_div_pos_eq [of _ _ _ d]) (use assms in auto)
  moreover have "?p div 100 = 4 * a + b" by (rule int_div_pos_eq [of _ _ _ "4 * c + d"]) (use assms in auto)
  moreover have "?p div 400 = a" by (rule int_div_pos_eq [of _ _ _ "100 * b + 4 * c + d"]) (use assms in auto)
  ultimately show ?thesis by (simp add: days_before_year_def Let_def)
qed

lemma year_of_ordinal_bounds:
  "days_before_year (year_of_ordinal i) < i \<and> i \<le> days_before_year (year_of_ordinal i + 1)"
proof -
  define n where "n = i - 1"
  define a where "a = n div 146097"
  define r where "r = n mod 146097"
  define b where "b = r div 36524"
  define s where "s = r mod 36524"
  define c where "c = s div 1461"
  define t where "t = s mod 1461"
  define d where "d = t div 365"
  define e where "e = t mod 365"
  have t': "0 \<le> t" "t < 1461" and s': "0 \<le> s" "s < 36524" and r': "0 \<le> r" "r < 146097"
    by (simp_all add: t_def s_def r_def)
  have e: "0 \<le> e" "e < 365" by (simp_all add: e_def)
  have t: "365 * d + e = t" by (simp add: d_def e_def)
  have s: "1461 * c + t = s" by (simp add: c_def t_def)
  have r: "36524 * b + s = r" by (simp add: b_def s_def)
  have n: "n = 146097 * a + 36524 * b + 1461 * c + 365 * d + e"
  proof -
    have "n = 146097 * a + r" by (simp add: a_def r_def)
    with t s r show ?thesis by linarith
  qed
  have d: "0 \<le> d" "d \<le> 4" using t e t' by auto
  have c: "0 \<le> c" "c \<le> 24" using s t' s' by auto
  have b: "0 \<le> b" "b \<le> 4" using r s' r' by auto
  have y: "year_of_ordinal i = (if d = 4 \<or> b = 4 then 400 * a + 100 * b + 4 * c + d
      else 400 * a + 100 * b + 4 * c + d + 1)"
    unfolding year_of_ordinal_def n_def [symmetric] Let_def a_def [symmetric] r_def [symmetric]
      b_def [symmetric] s_def [symmetric] c_def [symmetric] t_def [symmetric] d_def [symmetric] by simp
  show ?thesis
  proof (cases "d = 4 \<or> b = 4")
    case False
    then have y': "year_of_ordinal i = 400 * a + 100 * b + 4 * c + d + 1" and "d \<le> 3" "b \<le> 3"
      using y d b by auto
    with days_before_year_parts [of d c b a] b c d
    have "days_before_year (year_of_ordinal i) = n - e" by (simp add: n)
    with e show ?thesis by (auto simp: days_before_year_Suc n_def)
  next
    case True
    show ?thesis
    proof (cases "b = 4")
      case b4: True
      with r r' s s' t t' c d e have "c = 0" "t = 0" "d = 0" "e = 0" by auto
      then have *: "year_of_ordinal i = 400 * a + 100 * 3 + 4 * 24 + 3 + 1" and "i = 146097 * (a + 1)"
        using y b4 n by (auto simp: n_def)
      with days_before_year_parts [of 3 24 3 a] days_before_year_parts [of 0 0 0 "a + 1"] show ?thesis
        by (simp add: * algebra_simps)
    next
      case False
      with True y b have d4: "d = 4" and *: "year_of_ordinal i = 400 * a + 100 * b + 4 * c + 3 + 1" and "b \<le> 3"
        by auto
      have "leap_year (year_of_ordinal i)"
      proof -
        have "c \<noteq> 24" using s s' t d4 e by auto
        with c have "(400 * a + 100 * b + 4 * c + 3 + 1) mod 100 = 4 * c + 4"
          by (intro int_mod_pos_eq [of _ _ "4 * a + b"]) auto
        moreover have "(400 * a + 100 * b + 4 * c + 3 + 1) mod 4 = 0"
          by (rule int_mod_pos_eq [of _ _ "100 * a + 25 * b + c + 1"]) auto
        moreover have "4 * c + 4 \<noteq> 0" using c by auto
        ultimately
        show ?thesis unfolding leap_year_def * by simp
      qed
      moreover have "days_before_year (year_of_ordinal i) = n - e - 365"
        using days_before_year_parts [of 3 c b a] b c \<open>b \<le> 3\<close> * by (simp add: n d4)
      ultimately have "days_before_year (year_of_ordinal i + 1) = n - e - 365 + 366"
        "days_before_year (year_of_ordinal i) = n - e - 365" by (simp_all only: days_before_year_Suc if_True)
      moreover have "e = 0" using e t t' d4 by linarith
      ultimately show ?thesis by (simp add: n_def)
    qed
  qed
qed

lemma days_in_month_range: "28 \<le> days_in_month y m \<and> days_in_month y m \<le> 31"
  by (simp add: days_in_month_def)

lemma days_before_month_simps [simp]:
  "days_before_month y 1 = 0" "days_before_month y 2 = 31"
  "days_before_month y 3 = 59 + (if leap_year y then 1 else 0)"
  "days_before_month y 4 = 90 + (if leap_year y then 1 else 0)"
  "days_before_month y 5 = 120 + (if leap_year y then 1 else 0)"
  "days_before_month y 6 = 151 + (if leap_year y then 1 else 0)"
  "days_before_month y 7 = 181 + (if leap_year y then 1 else 0)"
  "days_before_month y 8 = 212 + (if leap_year y then 1 else 0)"
  "days_before_month y 9 = 243 + (if leap_year y then 1 else 0)"
  "days_before_month y 10 = 273 + (if leap_year y then 1 else 0)"
  "days_before_month y 11 = 304 + (if leap_year y then 1 else 0)"
  "days_before_month y 12 = 334 + (if leap_year y then 1 else 0)"
  by (simp_all add: days_before_month_def days_in_month_def eval_nat_numeral)

lemma days_before_month_Suc:
  assumes "1 \<le> m" "m < 12"
  shows "days_before_month y (m + 1) = days_before_month y m + days_in_month y m"
proof -
  have "nat m = Suc (nat (m - 1))" using assms by simp
  then show ?thesis using assms by (simp add: days_before_month_def)
qed

text \<open>The first of the next month is at least twenty-eight days later.\<close>

lemma ordinal_next_month:
  assumes "1 \<le> m" "m \<le> 12"
  shows "ordinal y m d + 28 \<le> (if m = 12 then ordinal (y + 1) 1 d else ordinal y (m + 1) d)"
proof (cases "m = 12")
  case True
  then show ?thesis by (simp add: ordinal_def days_before_year_Suc)
next
  case False
  with assms days_before_month_Suc [of m y] days_in_month_range [of y m]
  show ?thesis by (simp add: ordinal_def)
qed

text \<open>An ordinal lies in the month the search finds.\<close>

lemma month_of_ordinal_bounds:
  fixes i :: int
  defines "y \<equiv> year_of_ordinal i" and "m \<equiv> month_of_ordinal i"
  shows "1 \<le> m \<and> m \<le> 12 \<and> ordinal y m 1 \<le> i \<and> i < (if m = 12 then ordinal (y + 1) 1 1 else ordinal y (m + 1) 1)"
proof -
  define r where "r = i - days_before_year y"
  have "0 < r" "r \<le> (if leap_year y then 366 else 365)"
    using year_of_ordinal_bounds [of i] days_before_year_Suc [of y] by (auto simp: r_def y_def)
  moreover have "m = int (length (filter (\<lambda>m. days_before_month y m < r) [1, 2, 3, 4, 5, 6, 7, 8, 9, 10, 11, 12]))"
    by (simp only: m_def month_of_ordinal_def r_def y_def Let_def)
  ultimately show ?thesis
    unfolding ordinal_def days_before_year_Suc
    by (simp add: r_def split: if_splits)
qed

end
