(* ===== verification/Registry.thy ===== *)
theory Registry
  imports Log_Scrub Py_Values
begin

text \<open>
  The provider wrapper of \<open>market/registry.py\<close>: timeout, circuit breaker, call budgets, the TTL
  cache and the last-good window of one \<open>ProviderRegistry\<close>. The coroutine \<open>call\<close> gives up control
  at one point, while the provider is being asked, so it is two atomic parts: \<open>call_begin\<close> up to the
  await and \<open>call_end\<close> after it. Calls on one registry overlap (the orchestrator gathers fetchers),
  and the step relation at the end interleaves the two parts of any number of calls. Cache keys and
  values are arbitrary types; what the provider answers, and what the clocks read, is input. The
  Prometheus instruments are not modelled.
\<close>

section \<open>State\<close>

datatype circuit_state = BreakerClosed | BreakerHalfOpen | BreakerOpen

fun breaker_str :: "circuit_state \<Rightarrow> string" where
  "breaker_str BreakerClosed = ''closed''"
| "breaker_str BreakerHalfOpen = ''half_open''"
| "breaker_str BreakerOpen = ''open''"

text \<open>The two errors of the wrapper, the provider's own exception (its type and text as recorded),
  and the cancellation of the awaiting task, which is not an \<open>Exception\<close>.\<close>

datatype call_error =
    ProviderCircuitOpenError string
  | ProviderQuotaExceededError string int string
  | UpstreamError string
  | CancelledError

record registry_config =
  rc_name :: string
  rc_timeout_seconds :: real
  rc_failure_threshold :: int
  rc_cooldown_seconds :: real
  rc_calls_per_minute :: "int option"
  rc_calls_per_day :: "int option"
  rc_cache_ttl_seconds :: real
  rc_last_good_ttl_seconds :: real
  rc_health_recorder :: bool

record 'v cache_entry =
  ce_value :: 'v
  ce_expires_at :: datetime

record ('k, 'v) registry =
  rg_state :: circuit_state
  rg_consecutive_failures :: int
  rg_opened_at :: "datetime option"
  rg_last_latency_seconds :: "real option"
  rg_last_success_at :: "datetime option"
  rg_last_error :: "string option"
  rg_minute_calls :: "datetime list"
  rg_day :: "date option"
  rg_day_count :: int
  rg_cache :: "'k \<rightharpoonup> 'v cache_entry"
  rg_last_good :: "'k \<rightharpoonup> 'v cache_entry"

definition new_registry :: "('k, 'v) registry" where
  "new_registry = \<lparr>rg_state = BreakerClosed, rg_consecutive_failures = 0, rg_opened_at = None,
     rg_last_latency_seconds = None, rg_last_success_at = None, rg_last_error = None,
     rg_minute_calls = [], rg_day = None, rg_day_count = 0,
     rg_cache = Map.empty, rg_last_good = Map.empty\<rparr>"

record health_report =
  hr_name :: string
  hr_state :: circuit_state
  hr_consecutive_failures :: int
  hr_last_latency_seconds :: "real option"
  hr_last_success_at :: "datetime option"
  hr_last_error :: "string option"
  hr_calls_last_minute :: nat
  hr_calls_today :: int

section \<open>The caches\<close>

definition ttl_get :: "'k \<Rightarrow> datetime \<Rightarrow> ('k, 'v) registry \<Rightarrow> ('k, 'v) registry \<times> 'v option" where
  "ttl_get key now R =
     (case rg_cache R key of
        None \<Rightarrow> (R, None)
      | Some e \<Rightarrow>
          if ce_expires_at e \<le> now then (R\<lparr>rg_cache := (rg_cache R)(key := None)\<rparr>, None)
          else (R, Some (ce_value e)))"

definition ttl_put ::
  "registry_config \<Rightarrow> 'k \<Rightarrow> 'v \<Rightarrow> datetime \<Rightarrow> ('k, 'v) registry \<Rightarrow> ('k, 'v) registry" where
  "ttl_put C key v now R = R\<lparr>rg_cache := (rg_cache R)(key \<mapsto>
     \<lparr>ce_value = v, ce_expires_at = now + timedelta_seconds (rc_cache_ttl_seconds C)\<rparr>)\<rparr>"

definition last_good_get ::
  "registry_config \<Rightarrow> 'k option \<Rightarrow> datetime \<Rightarrow> ('k, 'v) registry \<Rightarrow> ('k, 'v) registry \<times> 'v option" where
  "last_good_get C key now R =
     (case key of
        None \<Rightarrow> (R, None)
      | Some k \<Rightarrow>
          if rc_last_good_ttl_seconds C \<le> 0 then (R, None)
          else (case rg_last_good R k of
                  None \<Rightarrow> (R, None)
                | Some e \<Rightarrow>
                    if ce_expires_at e \<le> now
                    then (R\<lparr>rg_last_good := (rg_last_good R)(k := None)\<rparr>, None)
                    else (R, Some (ce_value e))))"

definition last_good_put ::
  "registry_config \<Rightarrow> 'k \<Rightarrow> 'v \<Rightarrow> datetime \<Rightarrow> ('k, 'v) registry \<Rightarrow> ('k, 'v) registry" where
  "last_good_put C key v now R =
     (if rc_last_good_ttl_seconds C \<le> 0 then R
      else R\<lparr>rg_last_good := (rg_last_good R)(key \<mapsto>
        \<lparr>ce_value = v, ce_expires_at = now + timedelta_seconds (rc_last_good_ttl_seconds C)\<rparr>)\<rparr>)"

section \<open>Breaker and budgets\<close>

definition check_breaker ::
  "registry_config \<Rightarrow> datetime \<Rightarrow> ('k, 'v) registry \<Rightarrow> ('k, 'v) registry \<times> call_error option" where
  "check_breaker C now R =
     (if rg_state R = BreakerOpen then
        (case rg_opened_at R of
           Some t \<Rightarrow>
             if rc_cooldown_seconds C \<le> total_seconds (now - t)
             then (R\<lparr>rg_state := BreakerHalfOpen\<rparr>, None)
             else (R, Some (ProviderCircuitOpenError (rc_name C)))
         | None \<Rightarrow> (R, Some (ProviderCircuitOpenError (rc_name C))))
      else (R, None))"

definition minute_cutoff :: "datetime \<Rightarrow> datetime" where
  "minute_cutoff now = now - seconds 60"

definition prune_minute :: "datetime \<Rightarrow> ('k, 'v) registry \<Rightarrow> ('k, 'v) registry" where
  "prune_minute now R =
     R\<lparr>rg_minute_calls := dropWhile (\<lambda>t. t < minute_cutoff now) (rg_minute_calls R)\<rparr>"

definition roll_quota_day :: "datetime \<Rightarrow> ('k, 'v) registry \<Rightarrow> ('k, 'v) registry" where
  "roll_quota_day now R =
     (if rg_day R \<noteq> Some (utc_date now) then R\<lparr>rg_day := Some (utc_date now), rg_day_count := 0\<rparr>
      else R)"

definition over_budget :: "int option \<Rightarrow> int \<Rightarrow> bool" where
  "over_budget limit used = (case limit of None \<Rightarrow> False | Some n \<Rightarrow> n \<le> used)"

definition reserve_quota ::
  "registry_config \<Rightarrow> datetime \<Rightarrow> ('k, 'v) registry \<Rightarrow> ('k, 'v) registry \<times> call_error option" where
  "reserve_quota C now R =
     (let R = roll_quota_day now (prune_minute now R) in
      if over_budget (rc_calls_per_minute C) (int (length (rg_minute_calls R)))
      then (R, Some (ProviderQuotaExceededError (rc_name C) (the (rc_calls_per_minute C)) ''minute''))
      else if over_budget (rc_calls_per_day C) (rg_day_count R)
      then (R, Some (ProviderQuotaExceededError (rc_name C) (the (rc_calls_per_day C)) ''day''))
      else (R\<lparr>rg_minute_calls := rg_minute_calls R @ [now], rg_day_count := rg_day_count R + 1\<rparr>, None))"

definition admit ::
  "registry_config \<Rightarrow> datetime \<Rightarrow> ('k, 'v) registry \<Rightarrow> ('k, 'v) registry \<times> call_error option" where
  "admit C now R =
     (case check_breaker C now R of
        (R, Some e) \<Rightarrow> (R, Some e)
      | (R, None) \<Rightarrow> reserve_quota C now R)"

section \<open>Health\<close>

definition health :: "registry_config \<Rightarrow> datetime \<Rightarrow> ('k, 'v) registry \<Rightarrow> health_report" where
  "health C now R =
     \<lparr>hr_name = rc_name C, hr_state = rg_state R,
      hr_consecutive_failures = rg_consecutive_failures R,
      hr_last_latency_seconds = rg_last_latency_seconds R,
      hr_last_success_at = rg_last_success_at R, hr_last_error = rg_last_error R,
      hr_calls_last_minute = length (filter (\<lambda>t. minute_cutoff now \<le> t) (rg_minute_calls R)),
      hr_calls_today = (if rg_day R = Some (utc_date now) then rg_day_count R else 0)\<rparr>"

definition provider_healthy :: "('k, 'v) registry \<Rightarrow> bool" where
  "provider_healthy R = (rg_state R \<noteq> BreakerOpen)"

text \<open>What the recorder is given; an exception of the recorder is swallowed.\<close>

definition emit_health :: "registry_config \<Rightarrow> datetime \<Rightarrow> ('k, 'v) registry \<Rightarrow> health_report list" where
  "emit_health C now R = (if rc_health_recorder C then [health C now R] else [])"

definition note_failure ::
  "registry_config \<Rightarrow> string \<Rightarrow> datetime \<Rightarrow> ('k, 'v) registry \<Rightarrow> ('k, 'v) registry" where
  "note_failure C exc now R =
     (let R = R\<lparr>rg_consecutive_failures := rg_consecutive_failures R + 1,
                rg_last_error := Some (scrub_secret_query_params exc)\<rparr> in
      if rg_state R = BreakerHalfOpen \<or> rc_failure_threshold C \<le> rg_consecutive_failures R
      then R\<lparr>rg_state := BreakerOpen, rg_opened_at := Some now\<rparr>
      else R)"

definition note_success :: "real \<Rightarrow> datetime \<Rightarrow> ('k, 'v) registry \<Rightarrow> ('k, 'v) registry" where
  "note_success latency now R =
     R\<lparr>rg_consecutive_failures := 0, rg_last_latency_seconds := Some latency,
       rg_last_success_at := Some now, rg_state := BreakerClosed, rg_opened_at := None\<rparr>"

section \<open>The two parts of a call\<close>

text \<open>How the part before the await leaves: with a value, with an error, or asking the provider.\<close>

datatype 'v admission = Served 'v | Refused call_error | Asked

definition cached_answer ::
  "registry_config \<Rightarrow> 'k option \<Rightarrow> datetime \<Rightarrow> ('k, 'v) registry \<Rightarrow> ('k, 'v) registry \<times> 'v option" where
  "cached_answer C key now R =
     (case key of
        Some k \<Rightarrow> if 0 < rc_cache_ttl_seconds C then ttl_get k now R else (R, None)
      | None \<Rightarrow> (R, None))"

definition call_begin ::
  "registry_config \<Rightarrow> 'k option \<Rightarrow> datetime \<Rightarrow> ('k, 'v) registry \<Rightarrow> ('k, 'v) registry \<times> 'v admission" where
  "call_begin C key now R =
     (case cached_answer C key now R of
        (R, Some v) \<Rightarrow> (R, Served v)
      | (R, None) \<Rightarrow>
          (case admit C now R of
             (R, None) \<Rightarrow> (R, Asked)
           | (R, Some e) \<Rightarrow>
               (case last_good_get C key now R of
                  (R, Some v) \<Rightarrow> (R, Served v)
                | (R, None) \<Rightarrow> (R, Refused e))))"

text \<open>What \<open>asyncio.wait_for\<close> gives: a value and the latency, an exception (the timeout is one) as
  \<open>type: text\<close>, or the cancellation of the task, which no handler of \<open>call\<close> catches.\<close>

datatype 'v answer = Answered 'v real | Failed string | Cancelled

text \<open>
  \<open>began\<close> is the \<open>now\<close> the call took at its start, \<open>fin\<close> the clock when the outcome is recorded and
  \<open>seen\<close> the clock of the health report. The result is the new state, the reports given to the
  recorder, and what the caller gets.
\<close>

definition call_end ::
  "registry_config \<Rightarrow> 'k option \<Rightarrow> datetime \<Rightarrow> datetime \<Rightarrow> datetime \<Rightarrow> 'v answer \<Rightarrow> ('k, 'v) registry \<Rightarrow>
     ('k, 'v) registry \<times> health_report list \<times> (call_error + 'v)" where
  "call_end C key began fin seen answer R =
     (case answer of
        Cancelled \<Rightarrow> (R, [], Inl CancelledError)
      | Failed exc \<Rightarrow>
          (let R = note_failure C exc fin R; reports = emit_health C seen R in
           (case last_good_get C key began R of
              (R, Some v) \<Rightarrow> (R, reports, Inr v)
            | (R, None) \<Rightarrow> (R, reports, Inl (UpstreamError exc))))
      | Answered v latency \<Rightarrow>
          (let R = note_success latency fin R; reports = emit_health C seen R in
           (case key of
              None \<Rightarrow> (R, reports, Inr v)
            | Some k \<Rightarrow>
                (let R = (if 0 < rc_cache_ttl_seconds C then ttl_put C k v began R else R)
                 in (last_good_put C k v began R, reports, Inr v)))))"

text \<open>A call that nothing overlaps.\<close>

definition registry_call ::
  "registry_config \<Rightarrow> 'k option \<Rightarrow> datetime \<Rightarrow> datetime \<Rightarrow> datetime \<Rightarrow> 'v answer \<Rightarrow> ('k, 'v) registry \<Rightarrow>
     ('k, 'v) registry \<times> health_report list \<times> (call_error + 'v)" where
  "registry_call C key began fin seen answer R =
     (case call_begin C key began R of
        (R, Served v) \<Rightarrow> (R, [], Inr v)
      | (R, Refused e) \<Rightarrow> (R, [], Inl e)
      | (R, Asked) \<Rightarrow> call_end C key began fin seen answer R)"

section \<open>Overlapping calls\<close>

text \<open>
  A provider in use: its registry, the calls being awaited with their keys and start times, and the
  last clock reading. The clock is assumed not to be set back (it is a wall clock); readings may be
  equal.
\<close>

record ('k, 'v) provider =
  pv_registry :: "('k, 'v) registry"
  pv_awaited :: "('k option \<times> datetime) list"
  pv_clock :: datetime

datatype ('k, 'v) provider_event =
    Begin "'k option" datetime "'v admission"
  | Finish "'k option" datetime datetime "'v answer" "health_report list" "call_error + 'v"

inductive provider_step ::
  "registry_config \<Rightarrow> ('k, 'v) provider \<Rightarrow> ('k, 'v) provider_event \<Rightarrow> ('k, 'v) provider \<Rightarrow> bool"
  for C where
  begin_call:
    "pv_clock P \<le> now \<Longrightarrow> call_begin C key now (pv_registry P) = (R, a) \<Longrightarrow>
     provider_step C P (Begin key now a)
       \<lparr>pv_registry = R,
        pv_awaited = (if a = Asked then (key, now) # pv_awaited P else pv_awaited P),
        pv_clock = now\<rparr>"
| finish_call:
    "(key, began) \<in> set (pv_awaited P) \<Longrightarrow> pv_clock P \<le> fin \<Longrightarrow> fin \<le> seen \<Longrightarrow>
     call_end C key began fin seen answer (pv_registry P) = (R, reports, result) \<Longrightarrow>
     provider_step C P (Finish key began fin answer reports result)
       \<lparr>pv_registry = R, pv_awaited = remove1 (key, began) (pv_awaited P), pv_clock = seen\<rparr>"

definition new_provider :: "datetime \<Rightarrow> ('k, 'v) provider" where
  "new_provider t = \<lparr>pv_registry = new_registry, pv_awaited = [], pv_clock = t\<rparr>"

text \<open>Runs, the events in their order.\<close>

inductive provider_run ::
  "registry_config \<Rightarrow> ('k, 'v) provider \<Rightarrow> ('k, 'v) provider_event list \<Rightarrow> ('k, 'v) provider \<Rightarrow> bool"
  for C where
  run_nil: "provider_run C P [] P"
| run_snoc: "provider_run C P es Q \<Longrightarrow> provider_step C Q e Q' \<Longrightarrow> provider_run C P (es @ [e]) Q'"

inductive_cases provider_stepE:
  "provider_step C P (Begin key now a) Q"
  "provider_step C P (Finish key began fin answer reports result) Q"
section \<open>Where a served value comes from\<close>

text \<open>
  The two caches keep one contract: a value that is given out was put under that key and has not
  reached its expiry, and reading only removes entries.
\<close>

definition sourced ::
  "('k option \<times> datetime \<times> 'v) set \<Rightarrow> int \<Rightarrow> ('k \<rightharpoonup> 'v cache_entry) \<Rightarrow> bool" where
  "sourced H ttl m = (\<forall>k e. m k = Some e \<longrightarrow>
     (\<exists>b. (Some k, b, ce_value e) \<in> H \<and> ce_expires_at e = b + ttl))"

lemma sourced_empty [simp]: "sourced H ttl Map.empty"
  by (simp add: sourced_def)

lemma sourced_mono: "sourced H ttl m \<Longrightarrow> H \<subseteq> H' \<Longrightarrow> sourced H' ttl m"
  unfolding sourced_def by blast

locale expiring_store =
  fixes entries :: "'r \<Rightarrow> 'k \<Rightarrow> 'v cache_entry option"
    and get :: "'k \<Rightarrow> datetime \<Rightarrow> 'r \<Rightarrow> 'r \<times> 'v option"
    and put :: "'k \<Rightarrow> 'v \<Rightarrow> datetime \<Rightarrow> 'r \<Rightarrow> 'r"
    and ttl :: int
  assumes get_live: "get k now r = (r', Some v) \<Longrightarrow>
      \<exists>e. entries r k = Some e \<and> ce_value e = v \<and> now < ce_expires_at e"
    and get_shrinks: "get k now r = (r', x) \<Longrightarrow> entries r' \<subseteq>\<^sub>m entries r"
    and put_adds: "entries (put k v now r) k' = Some e \<Longrightarrow>
      entries r k' = Some e \<or> k' = k \<and> ce_value e = v \<and> ce_expires_at e = now + ttl"
begin

lemma get_sourced:
  assumes "sourced H ttl (entries r)" "get k now r = (r', x)"
  shows "sourced H ttl (entries r')"
    "x = Some v \<Longrightarrow> \<exists>b. (Some k, b, v) \<in> H \<and> now < b + ttl"
proof -
  show "sourced H ttl (entries r')"
    unfolding sourced_def
  proof (intro allI impI)
    fix k e
    assume "entries r' k = Some e"
    then have "entries r k = Some e"
      using get_shrinks [OF assms(2)] by (auto simp: map_le_def dom_def)
    then show "\<exists>b. (Some k, b, ce_value e) \<in> H \<and> ce_expires_at e = b + ttl"
      using assms(1) by (simp add: sourced_def)
  qed
next
  assume "x = Some v"
  then obtain e where "entries r k = Some e" "ce_value e = v" "now < ce_expires_at e"
    using get_live assms(2) by blast
  then show "\<exists>b. (Some k, b, v) \<in> H \<and> now < b + ttl"
    using assms(1) by (force simp: sourced_def)
qed

lemma put_sourced:
  "sourced H ttl (entries r) \<Longrightarrow> (Some k, now, v) \<in> H \<Longrightarrow>
    sourced H ttl (entries (put k v now r))"
  unfolding sourced_def by (blast dest: put_adds)

end

interpretation ttl_cache: expiring_store rg_cache ttl_get "ttl_put C"
  "timedelta_seconds (rc_cache_ttl_seconds C)" for C
  by unfold_locales
     (auto simp: ttl_get_def ttl_put_def map_le_def split: option.splits if_splits)

interpretation last_good: expiring_store rg_last_good "\<lambda>k. last_good_get C (Some k)" "last_good_put C"
  "timedelta_seconds (rc_last_good_ttl_seconds C)" for C
  by unfold_locales
     (auto simp: last_good_get_def last_good_put_def map_le_def split: option.splits if_splits)

definition delivered :: "('k, 'v) provider_event \<Rightarrow> ('k option \<times> datetime \<times> 'v) set" where
  "delivered e = (case e of Finish key began fin (Answered v l) reports r \<Rightarrow> {(key, began, v)} | _ \<Rightarrow> {})"

definition deliveries :: "('k, 'v) provider_event list \<Rightarrow> ('k option \<times> datetime \<times> 'v) set" where
  "deliveries es = (\<Union>e\<in>set es. delivered e)"

lemma deliveries_simps [simp]:
  "deliveries [] = {}" "deliveries (es @ [e]) = deliveries es \<union> delivered e"
  by (simp_all add: deliveries_def Un_commute)

text \<open>A value within the TTL of the cache, or of the last-good window.\<close>

definition recent_delivery ::
  "registry_config \<Rightarrow> ('k option \<times> datetime \<times> 'v) set \<Rightarrow> 'k option \<Rightarrow> datetime \<Rightarrow> 'v \<Rightarrow> bool" where
  "recent_delivery C H key now v = (\<exists>b. key \<noteq> None \<and> (key, b, v) \<in> H \<and>
     (0 < rc_cache_ttl_seconds C \<and> now < b + timedelta_seconds (rc_cache_ttl_seconds C)
      \<or> 0 < rc_last_good_ttl_seconds C \<and> now < b + timedelta_seconds (rc_last_good_ttl_seconds C)))"

definition stores_sourced ::
  "registry_config \<Rightarrow> ('k option \<times> datetime \<times> 'v) set \<Rightarrow> ('k, 'v) registry \<Rightarrow> bool" where
  "stores_sourced C H R =
     (sourced H (timedelta_seconds (rc_cache_ttl_seconds C)) (rg_cache R) \<and>
      sourced H (timedelta_seconds (rc_last_good_ttl_seconds C)) (rg_last_good R))"

lemma ttl_get_frame:
  "ttl_get k now R = (R', x) \<Longrightarrow> rg_last_good R' = rg_last_good R"
  "last_good_get C key now R = (R', x) \<Longrightarrow> rg_cache R' = rg_cache R"
  by (auto simp: ttl_get_def last_good_get_def split: option.splits if_splits)

lemma admit_stores:
  "admit C now R = (R', x) \<Longrightarrow> rg_cache R' = rg_cache R \<and> rg_last_good R' = rg_last_good R"
  by (auto simp: admit_def check_breaker_def reserve_quota_def prune_minute_def roll_quota_day_def Let_def
      split: option.splits if_splits prod.splits)

lemma cached_answer_sourced:
  assumes "stores_sourced C H R" "cached_answer C key now R = (R', x)"
  shows "stores_sourced C H R'" "x = Some v \<Longrightarrow> recent_delivery C H key now v"
proof -
  show "stores_sourced C H R'"
    using assms ttl_cache.get_sourced(1) [of H C R _ now R' x]
    by (auto simp: stores_sourced_def cached_answer_def ttl_get_frame split: option.splits if_splits)
  show "recent_delivery C H key now v" if "x = Some v"
    using assms that ttl_cache.get_sourced(2) [of H C R _ now R' x v]
    by (auto simp: stores_sourced_def cached_answer_def recent_delivery_def split: option.splits if_splits)
qed

lemma last_good_sourced:
  assumes "stores_sourced C H R" "last_good_get C key now R = (R', x)"
  shows "stores_sourced C H R'" "x = Some v \<Longrightarrow> recent_delivery C H key now v"
proof -
  consider "R' = R" "x = None" | k where "key = Some k" "0 < rc_last_good_ttl_seconds C"
    using assms(2) by (cases key; cases "0 < rc_last_good_ttl_seconds C") (auto simp: last_good_get_def)
  then have "stores_sourced C H R' \<and> (x = Some v \<longrightarrow> recent_delivery C H key now v)"
  proof cases
    case (2 k)
    have src: "sourced H (timedelta_seconds (rc_last_good_ttl_seconds C)) (rg_last_good R)"
      using assms(1) by (simp add: stores_sourced_def)
    note good = last_good.get_sourced [OF src assms(2) [unfolded 2(1)]]
    show ?thesis
      using good(1) good(2) [of v] assms(1) 2 ttl_get_frame(2) [OF assms(2)]
      by (auto simp: stores_sourced_def recent_delivery_def)
  qed (use assms(1) in simp)
  then show "stores_sourced C H R'" "x = Some v \<Longrightarrow> recent_delivery C H key now v" by simp_all
qed

lemma call_begin_sourced:
  assumes "stores_sourced C H R" "call_begin C key now R = (R', a)"
  shows "stores_sourced C H R'" "a = Served v \<Longrightarrow> recent_delivery C H key now v"
proof -
  obtain R1 hit where 1: "cached_answer C key now R = (R1, hit)" by fastforce
  obtain R2 err where 2: "admit C now R1 = (R2, err)" by fastforce
  obtain R3 good where 3: "last_good_get C key now R2 = (R3, good)" by fastforce
  note s1 = cached_answer_sourced [OF assms(1) 1]
  have s2: "stores_sourced C H R2"
    using s1(1) admit_stores [OF 2] by (simp add: stores_sourced_def)
  note s3 = last_good_sourced [OF s2 3]
  show "stores_sourced C H R'" "a = Served v \<Longrightarrow> recent_delivery C H key now v"
    using assms(2) 1 2 3 s1 s2 s3 by (auto simp: call_begin_def split: option.splits)
qed

lemma call_end_sourced:
  assumes "stores_sourced C H R" "call_end C key began fin seen answer R = (R', reports, x)"
    and "\<And>v l. answer = Answered v l \<Longrightarrow> (key, began, v) \<in> H"
  shows "stores_sourced C H R'"
    "answer = Failed exc \<Longrightarrow> x = Inr v \<Longrightarrow> recent_delivery C H key began v"
proof -
  have stores: "stores_sourced C H (note_failure C exc fin R)"
    "stores_sourced C H (note_success l fin R)" for exc l
    using assms(1) by (auto simp: stores_sourced_def note_failure_def note_success_def Let_def)
  have puts: "stores_sourced C H (ttl_put C k v began S)" "stores_sourced C H (last_good_put C k v began S)"
    if "stores_sourced C H S" "(Some k, began, v) \<in> H" for k v S
    using that ttl_cache.put_sourced [of H C S k began v] last_good.put_sourced [of H C S k began v]
    by (auto simp: stores_sourced_def ttl_put_def last_good_put_def)
  show "stores_sourced C H R'"
    using assms stores puts last_good_sourced(1) [OF stores(1)]
    by (auto simp: call_end_def Let_def split: answer.splits prod.splits option.splits if_splits)
  show "recent_delivery C H key began v" if "answer = Failed exc" "x = Inr v"
    using assms that last_good_sourced(2) [OF stores(1)]
    by (auto simp: call_end_def Let_def split: prod.splits option.splits)
qed

lemma stores_sourced_mono: "stores_sourced C H R \<Longrightarrow> H \<subseteq> H' \<Longrightarrow> stores_sourced C H' R"
  unfolding stores_sourced_def by (blast intro: sourced_mono)

lemma run_sourced:
  "provider_run C P es Q \<Longrightarrow> stores_sourced C {} (pv_registry P) \<Longrightarrow>
    stores_sourced C (deliveries es) (pv_registry Q)"
proof (induction rule: provider_run.induct)
  case (run_snoc P es Q e Q')
  then have "stores_sourced C (deliveries es) (pv_registry Q)" by simp
  then have IH: "stores_sourced C (deliveries (es @ [e])) (pv_registry Q)"
    by (rule stores_sourced_mono) simp
  from run_snoc.hyps(2) show ?case
  proof cases
    case (begin_call now key R a)
    with call_begin_sourced(1) [OF IH begin_call(4)] show ?thesis by simp
  next
    case (finish_call key began fin seen answer R reports result)
    have "\<And>v l. answer = Answered v l \<Longrightarrow> (key, began, v) \<in> deliveries (es @ [e])"
      using finish_call by (simp add: delivered_def)
    from call_end_sourced(1) [OF IH finish_call(6) this] finish_call show ?thesis by simp
  qed
qed simp

lemma run_snocD:
  "provider_run C P (es @ [e]) Q' \<Longrightarrow> \<exists>Q. provider_run C P es Q \<and> provider_step C Q e Q'"
  by (cases rule: provider_run.cases) auto
section \<open>Budgets\<close>

text \<open>The calls that reached the provider, by start time.\<close>

definition asked_at :: "('k, 'v) provider_event \<Rightarrow> datetime list" where
  "asked_at e = (case e of Begin key now Asked \<Rightarrow> [now] | _ \<Rightarrow> [])"

definition asked :: "('k, 'v) provider_event list \<Rightarrow> datetime list" where
  "asked es = concat (map asked_at es)"

lemma asked_simps [simp]:
  "asked [] = []" "asked (es @ [e]) = asked es @ asked_at e"
  "asked_at (Begin key now Asked) = [now]" "a \<noteq> Asked \<Longrightarrow> asked_at (Begin key now a) = []"
  "asked_at (Finish key began fin answer reports r) = []"
  by (auto simp: asked_def asked_at_def split: admission.splits)

definition in_window :: "datetime \<Rightarrow> datetime list \<Rightarrow> nat" where
  "in_window t ts = length (filter (\<lambda>s. minute_cutoff t \<le> s \<and> s \<le> t) ts)"

definition on_day :: "date \<Rightarrow> datetime list \<Rightarrow> nat" where
  "on_day d ts = length (filter (\<lambda>s. utc_date s = d) ts)"

definition quota_view :: "('k, 'v) registry \<Rightarrow> datetime list \<times> date option \<times> int" where
  "quota_view R = (rg_minute_calls R, rg_day R, rg_day_count R)"

lemma utc_date_mono: "a \<le> b \<Longrightarrow> utc_date a \<le> utc_date b"
  by (simp add: utc_date_def zdiv_mono1)

lemma cached_answer_quota: "cached_answer C key now R = (R', x) \<Longrightarrow> quota_view R' = quota_view R"
  by (auto simp: cached_answer_def ttl_get_def quota_view_def split: option.splits if_splits)

lemma last_good_quota: "last_good_get C key now R = (R', x) \<Longrightarrow> quota_view R' = quota_view R"
  by (auto simp: last_good_get_def quota_view_def split: option.splits if_splits)

lemma check_breaker_quota: "check_breaker C now R = (R', x) \<Longrightarrow> quota_view R' = quota_view R"
  by (auto simp: check_breaker_def quota_view_def split: option.splits if_splits)

definition quota_refreshed :: "datetime \<Rightarrow> datetime list \<times> date option \<times> int \<Rightarrow> datetime list \<times> date option \<times> int" where
  "quota_refreshed now v = (case v of (ts, d, n) \<Rightarrow>
     (dropWhile (\<lambda>t. t < minute_cutoff now) ts, Some (utc_date now), if d = Some (utc_date now) then n else 0))"

lemma reserve_quota_view:
  assumes "reserve_quota C now R = (R', x)" "quota_refreshed now (quota_view R) = (ts, d, n)"
  shows "x \<noteq> None \<Longrightarrow> quota_view R' = (ts, d, n)"
    "x = None \<Longrightarrow> quota_view R' = (ts @ [now], d, n + 1)
       \<and> \<not> over_budget (rc_calls_per_minute C) (int (length ts)) \<and> \<not> over_budget (rc_calls_per_day C) n"
  using assms by (auto simp: reserve_quota_def Let_def quota_view_def quota_refreshed_def prune_minute_def
      roll_quota_day_def split: if_splits)

text \<open>What the part before the await does to the budgets, by how it leaves.\<close>

lemma call_begin_quota:
  assumes "call_begin C key now R = (R', a)" "quota_refreshed now (quota_view R) = (ts, d, n)"
  shows "a \<noteq> Asked \<Longrightarrow> quota_view R' \<in> {quota_view R, (ts, d, n)}"
    "a = Asked \<Longrightarrow> quota_view R' = (ts @ [now], d, n + 1)
       \<and> \<not> over_budget (rc_calls_per_minute C) (int (length ts)) \<and> \<not> over_budget (rc_calls_per_day C) n"
proof -
  obtain R1 hit where 1: "cached_answer C key now R = (R1, hit)" by fastforce
  obtain R2 stop where 2: "check_breaker C now R1 = (R2, stop)" by fastforce
  obtain R3 err where 3: "reserve_quota C now R2 = (R3, err)" by fastforce
  obtain R4 good where 4: "last_good_get C key now (if stop = None then R3 else R2) = (R4, good)"
    by fastforce
  have v: "quota_view R1 = quota_view R" "quota_view R2 = quota_view R"
    "quota_view R4 = quota_view (if stop = None then R3 else R2)"
    using cached_answer_quota [OF 1] check_breaker_quota [OF 2] last_good_quota [OF 4] by simp_all
  have r: "quota_refreshed now (quota_view R2) = (ts, d, n)" using assms(2) v(2) by simp
  show "a \<noteq> Asked \<Longrightarrow> quota_view R' \<in> {quota_view R, (ts, d, n)}"
    using assms(1) 1 2 3 4 v reserve_quota_view(1) [OF 3 r]
    by (auto simp: call_begin_def admit_def split: option.splits if_splits)
  show "a = Asked \<Longrightarrow> quota_view R' = (ts @ [now], d, n + 1)
       \<and> \<not> over_budget (rc_calls_per_minute C) (int (length ts)) \<and> \<not> over_budget (rc_calls_per_day C) n"
    using assms(1) 1 2 3 4 v reserve_quota_view(2) [OF 3 r]
    by (auto simp: call_begin_def admit_def split: option.splits if_splits prod.splits)
qed

lemma call_end_quota:
  "call_end C key began fin seen answer R = (R', reports, x) \<Longrightarrow> quota_view R' = quota_view R"
  using last_good_quota [of C key began "note_failure C e fin R" for e]
  by (auto simp: call_end_def Let_def quota_view_def note_failure_def note_success_def ttl_put_def
      last_good_put_def split: answer.splits prod.splits option.splits if_splits)

text \<open>The budgets against the history of asked calls, in sorted order.\<close>

definition minute_ok :: "datetime \<Rightarrow> datetime list \<Rightarrow> datetime list \<Rightarrow> bool" where
  "minute_ok clock calls ts = (\<exists>old. calls = old @ ts \<and> (\<forall>t\<in>set old. t < minute_cutoff clock))"

definition day_ok :: "datetime \<Rightarrow> datetime list \<Rightarrow> date option \<Rightarrow> int \<Rightarrow> bool" where
  "day_ok clock calls d n =
     (case d of None \<Rightarrow> calls = []
      | Some d \<Rightarrow> d \<le> utc_date clock \<and> (\<forall>t\<in>set calls. utc_date t \<le> d) \<and> n = int (on_day d calls))"

definition within_budget :: "registry_config \<Rightarrow> datetime list \<Rightarrow> bool" where
  "within_budget C calls =
     ((\<forall>n. rc_calls_per_minute C = Some n \<longrightarrow> (\<forall>t. in_window t calls \<le> nat n)) \<and>
      (\<forall>n. rc_calls_per_day C = Some n \<longrightarrow> (\<forall>d. on_day d calls \<le> nat n)))"

definition quota_ok ::
  "registry_config \<Rightarrow> datetime list \<Rightarrow> datetime \<Rightarrow> datetime list \<times> date option \<times> int \<Rightarrow> bool" where
  "quota_ok C calls clock v = (case v of (ts, d, n) \<Rightarrow>
     sorted calls \<and> (\<forall>t\<in>set calls. t \<le> clock) \<and> minute_ok clock calls ts \<and> day_ok clock calls d n
     \<and> within_budget C calls)"

lemma minute_cutoff_mono: "a \<le> b \<Longrightarrow> minute_cutoff a \<le> minute_cutoff b"
  by (simp add: minute_cutoff_def)

lemma minute_ok_later: "minute_ok c calls ts \<Longrightarrow> c \<le> c' \<Longrightarrow> minute_ok c' calls ts"
  unfolding minute_ok_def using minute_cutoff_mono [of c c'] by (auto intro: less_le_trans)

lemma quota_ok_later: "quota_ok C calls c v \<Longrightarrow> c \<le> c' \<Longrightarrow> quota_ok C calls c' v"
  using minute_ok_later utc_date_mono [of c c']
  by (fastforce simp: quota_ok_def day_ok_def split: option.splits prod.splits)

lemma sorted_dropWhile_ge:
  "sorted ts \<Longrightarrow> t \<in> set (dropWhile (\<lambda>t. t < c) ts) \<Longrightarrow> (c :: int) \<le> t"
  by (induction ts) (auto split: if_splits)

lemma quota_ok_refreshed:
  assumes "quota_ok C calls clock v" "clock \<le> now" "quota_refreshed now v = (ts, d, n)"
  shows "quota_ok C calls now (ts, d, n)" "\<forall>t\<in>set ts. minute_cutoff now \<le> t" "d = Some (utc_date now)"
proof -
  obtain ts0 d0 n0 where v: "v = (ts0, d0, n0)" by (cases v)
  have ts: "ts = dropWhile (\<lambda>t. t < minute_cutoff now) ts0" and d: "d = Some (utc_date now)"
    and n: "n = (if d0 = Some (utc_date now) then n0 else 0)"
    using assms(3) by (auto simp: v quota_refreshed_def)
  have ok: "sorted calls" "\<forall>t\<in>set calls. t \<le> clock" "minute_ok clock calls ts0" "day_ok clock calls d0 n0"
    "within_budget C calls"
    using assms(1) by (simp_all add: quota_ok_def v)
  obtain old where old: "calls = old @ ts0" "\<forall>t\<in>set old. t < minute_cutoff clock"
    using ok(3) by (auto simp: minute_ok_def)
  have "calls = (old @ takeWhile (\<lambda>t. t < minute_cutoff now) ts0) @ ts"
    by (simp add: old ts)
  moreover have "\<forall>t\<in>set (old @ takeWhile (\<lambda>t. t < minute_cutoff now) ts0). t < minute_cutoff now"
    using old(2) minute_cutoff_mono [OF assms(2)] by (auto dest: set_takeWhileD)
  ultimately have minute: "minute_ok now calls ts" unfolding minute_ok_def by blast
  have dates: "\<forall>t\<in>set calls. utc_date t \<le> utc_date now"
    using ok(2) assms(2) by (meson order_trans utc_date_mono)
  have day: "day_ok now calls d n"
  proof (cases "d0 = Some (utc_date now)")
    case True
    with ok(4) dates show ?thesis by (simp add: day_ok_def d n)
  next
    case False
    have "utc_date t \<noteq> utc_date now" if "t \<in> set calls" for t
    proof (cases d0)
      case None
      with ok(4) that show ?thesis by (simp add: day_ok_def)
    next
      case (Some e)
      with ok(4) that have "utc_date t \<le> e" "e \<le> utc_date clock" by (simp_all add: day_ok_def)
      with False Some utc_date_mono [OF assms(2)] show ?thesis by fastforce
    qed
    then have "on_day (utc_date now) calls = 0" by (simp add: on_day_def filter_empty_conv)
    with False dates show ?thesis by (simp add: day_ok_def d n)
  qed
  show "quota_ok C calls now (ts, d, n)"
    using ok assms(2) minute day by (force simp: quota_ok_def)
  show "\<forall>t\<in>set ts. minute_cutoff now \<le> t"
    using sorted_dropWhile_ge [of ts0] ok(1) unfolding ts old(1) by (auto simp: sorted_append)
  show "d = Some (utc_date now)" by (rule d)
qed

lemma within_budget_snoc:
  assumes ok: "quota_ok C calls now (ts, Some (utc_date now), n)" and ts: "\<forall>t\<in>set ts. minute_cutoff now \<le> t"
    and minute: "\<not> over_budget (rc_calls_per_minute C) (int (length ts))"
    and day: "\<not> over_budget (rc_calls_per_day C) n"
  shows "within_budget C (calls @ [now])"
proof -
  have b: "within_budget C calls" and m: "minute_ok now calls ts"
    and d: "day_ok now calls (Some (utc_date now)) n"
    using ok by (simp_all add: quota_ok_def)
  obtain old where old: "calls = old @ ts" "\<forall>t\<in>set old. t < minute_cutoff now"
    using m by (auto simp: minute_ok_def)
  show ?thesis unfolding within_budget_def
  proof (intro conjI allI impI)
    fix l t
    assume l: "rc_calls_per_minute C = Some l"
    show "in_window t (calls @ [now]) \<le> nat l"
    proof (cases "minute_cutoff t \<le> now \<and> now \<le> t")
      case True
      have "filter (\<lambda>s. minute_cutoff t \<le> s \<and> s \<le> t) old = []"
        using old(2) True minute_cutoff_mono [of now t] by (auto simp: filter_empty_conv)
      then have "in_window t (calls @ [now]) \<le> length ts + 1"
        by (simp add: in_window_def old(1) True)
      also have "\<dots> \<le> nat l" using minute l by (simp add: over_budget_def)
      finally show ?thesis .
    next
      case False
      then have "in_window t (calls @ [now]) = in_window t calls" by (simp add: in_window_def)
      with b l show ?thesis by (simp add: within_budget_def)
    qed
  next
    fix l e
    assume l: "rc_calls_per_day C = Some l"
    show "on_day e (calls @ [now]) \<le> nat l"
      using b d day l by (cases "e = utc_date now") (simp_all add: on_day_def within_budget_def day_ok_def over_budget_def)
  qed
qed

lemma quota_ok_snoc:
  assumes "quota_ok C calls now (ts, Some (utc_date now), n)" "\<forall>t\<in>set ts. minute_cutoff now \<le> t"
    and "\<not> over_budget (rc_calls_per_minute C) (int (length ts))" "\<not> over_budget (rc_calls_per_day C) n"
  shows "quota_ok C (calls @ [now]) now (ts @ [now], Some (utc_date now), n + 1)"
  using assms(1) within_budget_snoc [OF assms]
  by (auto simp: quota_ok_def minute_ok_def day_ok_def on_day_def sorted_append)

lemma run_quota:
  "provider_run C P es Q \<Longrightarrow> P = new_provider t \<Longrightarrow>
    quota_ok C (asked es) (pv_clock Q) (quota_view (pv_registry Q))"
proof (induction rule: provider_run.induct)
  case (run_nil P)
  then show ?case
    by (simp add: quota_ok_def new_provider_def new_registry_def quota_view_def minute_ok_def day_ok_def
        within_budget_def in_window_def on_day_def)
next
  case (run_snoc P es Q e Q')
  then have IH: "quota_ok C (asked es) (pv_clock Q) (quota_view (pv_registry Q))" by simp
  from run_snoc.hyps(2) show ?case
  proof cases
    case (begin_call now key R a)
    obtain ts d n where r: "quota_refreshed now (quota_view (pv_registry Q)) = (ts, d, n)"
      by (cases "quota_refreshed now (quota_view (pv_registry Q))")
    note ok = quota_ok_refreshed [OF IH begin_call(3) r]
    note q = call_begin_quota [OF begin_call(4) r]
    show ?thesis
    proof (cases "a = Asked")
      case True
      with q(2) ok quota_ok_snoc [of C "asked es" now ts n] begin_call show ?thesis by simp
    next
      case False
      with q(1) ok(1) quota_ok_later [OF IH begin_call(3)] begin_call show ?thesis by auto
    qed
  next
    case (finish_call key began fin seen answer R reports result)
    then show ?thesis
      using call_end_quota [OF finish_call(6)] quota_ok_later [OF IH, of seen] by simp
  qed
qed
section \<open>The breaker\<close>

text \<open>
  The failures since the last success and the time of the last of them, read off the history; and
  when that history says that the provider is to be left alone.
\<close>

definition tally_outcome ::
  "int \<times> datetime option \<Rightarrow> ('k, 'v) provider_event \<Rightarrow> int \<times> datetime option" where
  "tally_outcome acc e = (case e of
     Begin key now a \<Rightarrow> acc
   | Finish key began fin answer reports r \<Rightarrow>
       (case answer of Answered v l \<Rightarrow> (0, None) | Failed exc \<Rightarrow> (fst acc + 1, Some fin) | Cancelled \<Rightarrow> acc))"

definition failure_streak :: "('k, 'v) provider_event list \<Rightarrow> int \<times> datetime option" where
  "failure_streak es = foldl tally_outcome (0, None) es"

definition cooling :: "registry_config \<Rightarrow> int \<times> datetime option \<Rightarrow> datetime \<Rightarrow> bool" where
  "cooling C s now = (rc_failure_threshold C \<le> fst s \<and>
     (case snd s of None \<Rightarrow> False | Some t \<Rightarrow> total_seconds (now - t) < rc_cooldown_seconds C))"

lemma failure_streak_simps [simp]:
  "failure_streak [] = (0, None)" "failure_streak (es @ [e]) = tally_outcome (failure_streak es) e"
  by (simp_all add: failure_streak_def)

definition breaker_view :: "('k, 'v) registry \<Rightarrow> circuit_state \<times> int \<times> datetime option" where
  "breaker_view R = (rg_state R, rg_consecutive_failures R, rg_opened_at R)"

definition breaker_ok ::
  "registry_config \<Rightarrow> int \<times> datetime option \<Rightarrow> datetime \<Rightarrow> circuit_state \<times> int \<times> datetime option \<Rightarrow> bool" where
  "breaker_ok C s clock v = (case v of (state, failures, opened) \<Rightarrow>
     failures = fst s \<and>
     (if state = BreakerClosed then opened = None \<and> fst s < rc_failure_threshold C
      else opened = snd s \<and> rc_failure_threshold C \<le> fst s \<and> opened \<noteq> None) \<and>
     (state = BreakerHalfOpen \<longrightarrow> rc_cooldown_seconds C \<le> total_seconds (clock - the opened)))"

lemma cached_answer_breaker: "cached_answer C key now R = (R', x) \<Longrightarrow> breaker_view R' = breaker_view R"
  by (auto simp: cached_answer_def ttl_get_def breaker_view_def split: option.splits if_splits)

lemma last_good_breaker: "last_good_get C key now R = (R', x) \<Longrightarrow> breaker_view R' = breaker_view R"
  by (auto simp: last_good_get_def breaker_view_def split: option.splits if_splits)

lemma reserve_quota_breaker: "reserve_quota C now R = (R', x) \<Longrightarrow> breaker_view R' = breaker_view R"
  by (auto simp: reserve_quota_def breaker_view_def prune_minute_def roll_quota_day_def Let_def
      split: if_splits)

lemma check_breaker_spec:
  assumes "breaker_ok C s clock (breaker_view R)" "clock \<le> now" "check_breaker C now R = (R', x)"
  shows "breaker_ok C s now (breaker_view R')"
    "x = (if cooling C s now then Some (ProviderCircuitOpenError (rc_name C)) else None)"
proof -
  have later: "total_seconds (clock - the (snd s)) \<le> total_seconds (now - the (snd s))"
    using assms(2) by (simp add: total_seconds_mono)
  show "x = (if cooling C s now then Some (ProviderCircuitOpenError (rc_name C)) else None)"
    using assms(1,3) later
    by (cases "rg_state R"; cases "snd s")
       (auto simp: breaker_ok_def breaker_view_def check_breaker_def cooling_def split: if_splits)
  show "breaker_ok C s now (breaker_view R')"
    using assms(1,3) later
    by (cases "rg_state R"; cases "snd s")
       (auto simp: breaker_ok_def breaker_view_def check_breaker_def split: if_splits)
qed

lemma breaker_ok_later:
  assumes "breaker_ok C s c v" "c \<le> c'"
  shows "breaker_ok C s c' v"
proof -
  have "total_seconds (c - t) \<le> total_seconds (c' - t)" for t
    using assms(2) by (simp add: total_seconds_mono)
  then show ?thesis
    using assms(1) by (fastforce simp: breaker_ok_def intro: order_trans split: prod.splits if_splits)
qed

text \<open>Every refusal of the part before the await, and every question asked, by its reason.\<close>

lemma call_begin_breaker:
  assumes ok: "breaker_ok C s clock (breaker_view R)" "clock \<le> now"
    and call: "call_begin C key now R = (R', a)"
    and r: "quota_refreshed now (quota_view R) = (ts, d, n)"
  shows "breaker_ok C s now (breaker_view R')" "a = Asked \<Longrightarrow> \<not> cooling C s now"
    "a = Refused e \<Longrightarrow>
       e = ProviderCircuitOpenError (rc_name C) \<and> cooling C s now
       \<or> (\<exists>m. e = ProviderQuotaExceededError (rc_name C) m ''minute''
            \<and> rc_calls_per_minute C = Some m \<and> m \<le> int (length ts))
       \<or> (\<exists>m. e = ProviderQuotaExceededError (rc_name C) m ''day''
            \<and> rc_calls_per_day C = Some m \<and> m \<le> n)"
proof -
  obtain R1 hit where 1: "cached_answer C key now R = (R1, hit)" by fastforce
  obtain R2 stop where 2: "check_breaker C now R1 = (R2, stop)" by fastforce
  obtain R3 err where 3: "reserve_quota C now R2 = (R3, err)" by fastforce
  obtain R4 good where 4: "last_good_get C key now (if stop = None then R3 else R2) = (R4, good)"
    by fastforce
  have ok1: "breaker_ok C s clock (breaker_view R1)" using ok(1) cached_answer_breaker [OF 1] by simp
  note chk = check_breaker_spec [OF ok1 ok(2) 2]
  have ok': "breaker_ok C s now (breaker_view R1)" using ok1 ok(2) by (rule breaker_ok_later)
  have v: "breaker_view R3 = breaker_view R2"
    "breaker_view R4 = breaker_view R2"
    using reserve_quota_breaker [OF 3] last_good_breaker [OF 4] by (auto split: if_splits)
  have q: "quota_refreshed now (quota_view R2) = (ts, d, n)"
    using r cached_answer_quota [OF 1] check_breaker_quota [OF 2] by simp
  have err: "err = Some e \<Longrightarrow>
       (\<exists>m. e = ProviderQuotaExceededError (rc_name C) m ''minute''
            \<and> rc_calls_per_minute C = Some m \<and> m \<le> int (length ts))
       \<or> (\<exists>m. e = ProviderQuotaExceededError (rc_name C) m ''day''
            \<and> rc_calls_per_day C = Some m \<and> m \<le> n)" for e
    using 3 q by (auto simp: reserve_quota_def Let_def over_budget_def quota_view_def quota_refreshed_def
        prune_minute_def roll_quota_day_def split: if_splits option.splits)
  show "breaker_ok C s now (breaker_view R')"
    using call 1 2 3 4 v chk(1) ok' by (auto simp: call_begin_def admit_def split: option.splits if_splits)
  show "a = Asked \<Longrightarrow> \<not> cooling C s now"
    using call 1 2 3 4 chk(2)
    by (auto simp: call_begin_def admit_def split: option.splits if_splits prod.splits)
  show "a = Refused e \<Longrightarrow>
       e = ProviderCircuitOpenError (rc_name C) \<and> cooling C s now
       \<or> (\<exists>m. e = ProviderQuotaExceededError (rc_name C) m ''minute''
            \<and> rc_calls_per_minute C = Some m \<and> m \<le> int (length ts))
       \<or> (\<exists>m. e = ProviderQuotaExceededError (rc_name C) m ''day''
            \<and> rc_calls_per_day C = Some m \<and> m \<le> n)"
    using call 1 2 3 4 chk(2) err
    by (auto simp: call_begin_def admit_def split: option.splits if_splits prod.splits)
qed

lemma call_end_breaker:
  assumes "breaker_ok C s clock (breaker_view R)" "clock \<le> seen" "1 \<le> rc_failure_threshold C"
    and "call_end C key began fin seen answer R = (R', reports, x)"
  shows "breaker_ok C (tally_outcome s (Finish key began fin answer reports x)) seen (breaker_view R')"
proof (cases answer)
  case (Answered v l)
  with assms(3,4) show ?thesis
    by (auto simp: call_end_def Let_def breaker_ok_def breaker_view_def tally_outcome_def note_success_def
        ttl_put_def last_good_put_def split: option.splits if_splits)
next
  case (Failed exc)
  have "breaker_view R' = breaker_view (note_failure C exc fin R)"
    using assms(4) Failed last_good_breaker [of C key began "note_failure C exc fin R"]
    by (auto simp: call_end_def Let_def split: prod.splits option.splits)
  with assms(1) Failed show ?thesis
    by (auto simp: breaker_ok_def breaker_view_def tally_outcome_def note_failure_def Let_def split: if_splits)
next
  case Cancelled
  with assms breaker_ok_later show ?thesis by (auto simp: call_end_def tally_outcome_def)
qed

lemma run_breaker:
  "provider_run C P es Q \<Longrightarrow> P = new_provider t \<Longrightarrow> 1 \<le> rc_failure_threshold C \<Longrightarrow>
    breaker_ok C (failure_streak es) (pv_clock Q) (breaker_view (pv_registry Q))"
proof (induction rule: provider_run.induct)
  case (run_nil P)
  then show ?case by (simp add: breaker_ok_def breaker_view_def new_provider_def new_registry_def)
next
  case (run_snoc P es Q e Q')
  then have IH: "breaker_ok C (failure_streak es) (pv_clock Q) (breaker_view (pv_registry Q))" by simp
  from run_snoc.hyps(2) show ?case
  proof cases
    case (begin_call now key R a)
    obtain ts d n where "quota_refreshed now (quota_view (pv_registry Q)) = (ts, d, n)"
      by (cases "quota_refreshed now (quota_view (pv_registry Q))")
    from call_begin_breaker(1) [OF IH begin_call(3,4) this] begin_call show ?thesis
      by (simp add: tally_outcome_def)
  next
    case (finish_call key began fin seen answer R reports result)
    then show ?thesis
      using call_end_breaker [OF IH _ run_snoc.prems(2) finish_call(6)] by simp
  qed
qed
section \<open>Properties\<close>

lemma run_begin:
  assumes "provider_run C P es Q" "pv_clock Q \<le> now" "pv_registry Q = S" "call_begin C key now S = (R, a)"
    and "fs = es @ [Begin key now a]"
    and "Q' = \<lparr>pv_registry = R,
      pv_awaited = (if a = Asked then (key, now) # pv_awaited Q else pv_awaited Q), pv_clock = now\<rparr>"
  shows "provider_run C P fs Q'"
  unfolding assms(5,6) by (rule run_snoc [OF assms(1) begin_call [OF assms(2,4) [folded assms(3)]]])

lemma run_finish:
  assumes "provider_run C P es Q" "(key, began) \<in> set (pv_awaited Q)" "pv_clock Q \<le> fin" "fin \<le> seen"
    and "pv_registry Q = S" "call_end C key began fin seen answer S = (R, reports, x)"
    and "fs = es @ [Finish key began fin answer reports x]"
    and "Q' = \<lparr>pv_registry = R, pv_awaited = remove1 (key, began) (pv_awaited Q), pv_clock = seen\<rparr>"
  shows "provider_run C P fs Q'"
  unfolding assms(7,8) by (rule run_snoc [OF assms(1) finish_call [OF assms(2-4,6) [folded assms(5)]]])

text \<open>An example: one call a minute, a breaker that opens on the first failure, a last-good window.\<close>

definition ex_registry_config :: registry_config where
  "ex_registry_config = \<lparr>rc_name = ''ref'', rc_timeout_seconds = 10, rc_failure_threshold = 1,
     rc_cooldown_seconds = 30, rc_calls_per_minute = Some 1, rc_calls_per_day = Some 9,
     rc_cache_ttl_seconds = 0, rc_last_good_ttl_seconds = 60, rc_health_recorder = False\<rparr>"

definition ex_asked_registry :: "(nat, nat) registry" where
  "ex_asked_registry = new_registry\<lparr>rg_minute_calls := [0], rg_day := Some 0, rg_day_count := 1\<rparr>"

definition ex_failed_registry :: "(nat, nat) registry" where
  "ex_failed_registry = ex_asked_registry\<lparr>rg_consecutive_failures := 1, rg_last_error := Some '': '',
     rg_state := BreakerOpen, rg_opened_at := Some 1000000\<rparr>"

definition ex_answered_registry :: "(nat, nat) registry" where
  "ex_answered_registry = ex_asked_registry\<lparr>rg_last_latency_seconds := Some 1,
     rg_last_success_at := Some 1000000,
     rg_last_good := [3 \<mapsto> \<lparr>ce_value = 7, ce_expires_at = 60000000\<rparr>]\<rparr>"

lemma ex_begin: "call_begin ex_registry_config (Some 3) 0 new_registry = (ex_asked_registry, Asked)"
  by (simp add: call_begin_def cached_answer_def ex_registry_config_def admit_def check_breaker_def
      new_registry_def reserve_quota_def prune_minute_def roll_quota_day_def over_budget_def utc_date_def
      ex_asked_registry_def Let_def)

lemma ex_fail:
  "call_end ex_registry_config (Some 3) 0 1000000 1000000 (Failed '': '') ex_asked_registry =
     (ex_failed_registry, [], Inl (UpstreamError '': ''))"
proof -
  have "scrub_secret_query_params '': '' = '': ''"
    by (simp add: scrub_other name_char_def)
  then show ?thesis
    by (simp add: call_end_def note_failure_def emit_health_def last_good_get_def ex_registry_config_def
        ex_failed_registry_def ex_asked_registry_def new_registry_def Let_def)
qed

lemma ex_answer:
  "call_end ex_registry_config (Some 3) 0 1000000 1000000 (Answered 7 1) ex_asked_registry =
     (ex_answered_registry, [], Inr 7)"
  by (simp add: call_end_def note_success_def emit_health_def last_good_put_def ex_registry_config_def
      ex_answered_registry_def ex_asked_registry_def new_registry_def timedelta_seconds_def Let_def)

lemma ex_refused:
  "call_begin ex_registry_config (Some 3) 2000000 ex_failed_registry =
     (ex_failed_registry, Refused (ProviderCircuitOpenError ''ref''))"
  by (simp add: call_begin_def cached_answer_def ex_registry_config_def admit_def check_breaker_def
      ex_failed_registry_def ex_asked_registry_def new_registry_def last_good_get_def total_seconds_def)

lemma ex_served:
  "call_begin ex_registry_config (Some 3) 2000000 ex_answered_registry = (ex_answered_registry, Served 7)"
  by (simp add: call_begin_def cached_answer_def ex_registry_config_def admit_def check_breaker_def
      ex_answered_registry_def ex_asked_registry_def new_registry_def last_good_get_def reserve_quota_def
      prune_minute_def roll_quota_day_def over_budget_def utc_date_def minute_cutoff_def seconds_def Let_def)

lemma ex_run_asked:
  "provider_run ex_registry_config (new_provider 0) [Begin (Some 3) 0 Asked]
     \<lparr>pv_registry = ex_asked_registry, pv_awaited = [(Some 3, 0)], pv_clock = 0\<rparr>"
  by (rule run_begin [OF run_nil _ _ ex_begin]) (simp_all add: new_provider_def)

lemma ex_run_failed:
  "provider_run ex_registry_config (new_provider 0)
     [Begin (Some 3) 0 Asked, Finish (Some 3) 0 1000000 (Failed '': '') [] (Inl (UpstreamError '': ''))]
     \<lparr>pv_registry = ex_failed_registry, pv_awaited = [], pv_clock = 1000000\<rparr>"
  by (rule run_finish [OF ex_run_asked _ _ _ _ ex_fail]) simp_all

lemma ex_run_answered:
  "provider_run ex_registry_config (new_provider 0)
     [Begin (Some 3) 0 Asked, Finish (Some 3) 0 1000000 (Answered 7 1) [] (Inr 7)]
     \<lparr>pv_registry = ex_answered_registry, pv_awaited = [], pv_clock = 1000000\<rparr>"
  by (rule run_finish [OF ex_run_asked _ _ _ _ ex_answer]) simp_all

text \<open>
  C39: however the calls of a registry overlap, the calls that reach the provider keep both budgets:
  at most the configured number starts in any sixty seconds, and on any UTC day. Cached and refused
  calls use none of it.
\<close>

theorem provider_within_budget:
  assumes "provider_run C (new_provider t) es P"
  shows "(case rc_calls_per_minute C of None \<Rightarrow> True
      | Some n \<Rightarrow> length (filter (\<lambda>s. u - seconds 60 \<le> s \<and> s \<le> u) (asked es)) \<le> nat n)
    \<and> (case rc_calls_per_day C of None \<Rightarrow> True
      | Some n \<Rightarrow> length (filter (\<lambda>s. utc_date s = d) (asked es)) \<le> nat n)"
  using run_quota [OF assms refl]
  by (auto simp: quota_ok_def within_budget_def in_window_def on_day_def minute_cutoff_def
      split: option.splits prod.splits)

theorem provider_within_budget_witness:
  "length (filter (\<lambda>s. 60000000 - seconds 60 \<le> s \<and> s \<le> 60000000)
     (asked [Begin (Some (3 :: nat)) 0 (Asked :: nat admission)])) \<le> nat 1"
  using provider_within_budget [OF ex_run_asked, of 60000000] by (simp add: ex_registry_config_def)

text \<open>
  C40: the breaker is what the history of outcomes says. After the configured number of failures
  since the last success nobody is asked until the cooldown since the last failure is over, however
  the calls overlap.
\<close>

theorem open_breaker_asks_nobody:
  assumes "provider_run C (new_provider t) (es @ [Begin key now a]) P"
    and "1 \<le> rc_failure_threshold C" and "failure_streak es = (n, Some since)"
    and "rc_failure_threshold C \<le> n" and "total_seconds (now - since) < rc_cooldown_seconds C"
  shows "a \<noteq> Asked"
proof -
  obtain Q where Q: "provider_run C (new_provider t) es Q" "provider_step C Q (Begin key now a) P"
    using run_snocD [OF assms(1)] by blast
  obtain ts d m where r: "quota_refreshed now (quota_view (pv_registry Q)) = (ts, d, m)"
    by (cases "quota_refreshed now (quota_view (pv_registry Q))")
  from Q(2) obtain R where R: "pv_clock Q \<le> now" "call_begin C key now (pv_registry Q) = (R, a)"
    by (auto elim: provider_stepE)
  show ?thesis
    using call_begin_breaker(2) [OF run_breaker [OF Q(1) refl assms(2)] R r] assms(3-5)
    by (auto simp: cooling_def)
qed

theorem open_breaker_asks_nobody_witness:
  "Refused (ProviderCircuitOpenError ''ref'') \<noteq> (Asked :: nat admission)"
proof (rule open_breaker_asks_nobody)
  show "provider_run ex_registry_config (new_provider 0)
     ([Begin (Some (3 :: nat)) 0 Asked, Finish (Some 3) 0 1000000 (Failed '': '') [] (Inl (UpstreamError '': ''))]
       @ [Begin (Some 3) 2000000 (Refused (ProviderCircuitOpenError ''ref''))])
     \<lparr>pv_registry = ex_failed_registry, pv_awaited = [], pv_clock = 2000000\<rparr>"
    by (rule run_begin [OF ex_run_failed _ _ ex_refused]) simp_all
  show "failure_streak [Begin (Some (3 :: nat)) 0 (Asked :: nat admission),
      Finish (Some 3) 0 1000000 (Failed '': '') [] (Inl (UpstreamError '': ''))] = (1, Some 1000000)"
    by (simp add: failure_streak_def tally_outcome_def)
qed (simp_all add: ex_registry_config_def total_seconds_def)

text \<open>
  A provider is never refused for good. A call is refused only while the failures since the last
  success have reached the threshold and the last is less than the cooldown old, or while the calls of
  the last sixty seconds, or of the UTC day, have used up their budget.
\<close>

theorem refusals_justified:
  assumes "provider_run C (new_provider t) (es @ [Begin key now (Refused e)]) P"
    and "1 \<le> rc_failure_threshold C"
  shows "e = ProviderCircuitOpenError (rc_name C) \<and> cooling C (failure_streak es) now
     \<or> (\<exists>m. e = ProviderQuotaExceededError (rc_name C) m ''minute'' \<and> rc_calls_per_minute C = Some m
          \<and> m \<le> int (length (filter (\<lambda>s. now - seconds 60 \<le> s) (asked es))))
     \<or> (\<exists>m. e = ProviderQuotaExceededError (rc_name C) m ''day'' \<and> rc_calls_per_day C = Some m
          \<and> m \<le> int (length (filter (\<lambda>s. utc_date s = utc_date now) (asked es))))"
proof -
  obtain Q where Q: "provider_run C (new_provider t) es Q"
    "provider_step C Q (Begin key now (Refused e)) P"
    using run_snocD [OF assms(1)] by blast
  obtain ts d m where r: "quota_refreshed now (quota_view (pv_registry Q)) = (ts, d, m)"
    by (cases "quota_refreshed now (quota_view (pv_registry Q))")
  from Q(2) obtain R where R: "pv_clock Q \<le> now"
    "call_begin C key now (pv_registry Q) = (R, Refused e)"
    by (auto elim: provider_stepE)
  note q = quota_ok_refreshed [OF run_quota [OF Q(1) refl] R(1) r]
  obtain old where old: "asked es = old @ ts" "\<forall>t\<in>set old. t < minute_cutoff now"
    using q(1) by (auto simp: quota_ok_def minute_ok_def)
  have "filter (\<lambda>s. now - seconds 60 \<le> s) old = []"
    using old(2) by (auto simp: filter_empty_conv minute_cutoff_def)
  moreover have "filter (\<lambda>s. now - seconds 60 \<le> s) ts = ts"
    using q(2) by (simp add: minute_cutoff_def)
  ultimately have minute: "length (filter (\<lambda>s. now - seconds 60 \<le> s) (asked es)) = length ts"
    by (simp add: old(1))
  have day: "m = int (length (filter (\<lambda>s. utc_date s = utc_date now) (asked es)))"
    using q(1,3) by (simp add: quota_ok_def day_ok_def on_day_def)
  show ?thesis
    using call_begin_breaker(3) [OF run_breaker [OF Q(1) refl assms(2)] R r refl]
    unfolding minute day .
qed

theorem refusals_justified_witness:
  "cooling ex_registry_config (failure_streak [Begin (Some (3 :: nat)) 0 (Asked :: nat admission),
      Finish (Some 3) 0 1000000 (Failed '': '') [] (Inl (UpstreamError '': ''))]) 2000000"
proof -
  have "provider_run ex_registry_config (new_provider 0)
     ([Begin (Some (3 :: nat)) 0 Asked, Finish (Some 3) 0 1000000 (Failed '': '') [] (Inl (UpstreamError '': ''))]
       @ [Begin (Some 3) 2000000 (Refused (ProviderCircuitOpenError ''ref''))])
     \<lparr>pv_registry = ex_failed_registry, pv_awaited = [], pv_clock = 2000000\<rparr>"
    by (rule run_begin [OF ex_run_failed _ _ ex_refused]) simp_all
  from refusals_justified [OF this] show ?thesis by (simp add: ex_registry_config_def)
qed

text \<open>
  A value that is served without an answer of the provider to that very call, from the cache or
  from the last-good window, is one the provider delivered earlier under the same key, in a call that
  started less than the configured lifetime before this one. With both lifetimes at zero, the live
  setting, nothing is served.
\<close>

theorem served_values_recent:
  assumes "provider_run C (new_provider t) (es @ [e]) P"
    and "e = Begin key now (Served v) \<or> e = Finish key now fin (Failed exc) reports (Inr v)"
  shows "\<exists>k b. key = Some k \<and> (key, b, v) \<in> deliveries es \<and>
     (0 < rc_cache_ttl_seconds C \<and> now < b + timedelta_seconds (rc_cache_ttl_seconds C)
      \<or> 0 < rc_last_good_ttl_seconds C \<and> now < b + timedelta_seconds (rc_last_good_ttl_seconds C))"
proof -
  obtain Q where Q: "provider_run C (new_provider t) es Q" "provider_step C Q e P"
    using run_snocD [OF assms(1)] by blast
  have src: "stores_sourced C (deliveries es) (pv_registry Q)"
    by (rule run_sourced [OF Q(1)]) (simp add: stores_sourced_def new_provider_def new_registry_def)
  from Q(2) have "recent_delivery C (deliveries es) key now v"
  proof cases
    case (begin_call now' key' R a)
    then show ?thesis using assms(2) call_begin_sourced(2) [OF src begin_call(4)] by auto
  next
    case (finish_call key' began fin' seen answer R reports' result)
    have "answer = Failed exc" "result = Inr v" "key' = key" "began = now"
      using assms(2) finish_call(1) by auto
    then show ?thesis using call_end_sourced(2) [OF src finish_call(6)] by auto
  qed
  then show ?thesis by (auto simp: recent_delivery_def)
qed

theorem served_values_recent_witness:
  "\<exists>k b. Some 3 = Some (k :: nat) \<and> (Some 3, b, 7) \<in> deliveries
     [Begin (Some (3 :: nat)) 0 Asked, Finish (Some 3) 0 1000000 (Answered (7 :: nat) 1) [] (Inr 7)]"
proof -
  have "provider_run ex_registry_config (new_provider 0)
     ([Begin (Some 3) 0 Asked, Finish (Some 3) 0 1000000 (Answered (7 :: nat) 1) [] (Inr 7)]
       @ [Begin (Some (3 :: nat)) 2000000 (Served 7)])
     \<lparr>pv_registry = ex_answered_registry, pv_awaited = [], pv_clock = 2000000\<rparr>"
    by (rule run_begin [OF ex_run_answered _ _ ex_served]) simp_all
  from served_values_recent [OF this disjI1 [OF refl]] show ?thesis by blast
qed

text \<open>
  A failed call records nothing of a credential. Two exceptions whose texts differ only in the
  value of a credential-looking query parameter leave the same registry and the same health reports,
  which is what the journal is given.
\<close>

theorem health_hides_credentials:
  assumes "same_but_secrets (JStr exc) (JStr exc')"
    and "call_end C key began fin seen (Failed exc) R = (S, reports, x)"
    and "call_end C key began fin seen (Failed exc') R = (S', reports', x')"
  shows "S' = S \<and> reports' = reports \<and>
    (x' = x \<or> x = Inl (UpstreamError exc) \<and> x' = Inl (UpstreamError exc'))"
proof -
  have "note_failure C exc fin R = note_failure C exc' fin R"
    using scrub_value_hides [OF assms(1)] by (simp add: note_failure_def)
  with assms(2,3) show ?thesis
    by (auto simp: call_end_def Let_def split: prod.splits option.splits)
qed

theorem health_hides_credentials_witness:
  "fst (call_end ex_registry_config None 0 1 1
      (Failed (''GET /v1?'' @ ''auth_token'' @ CHR ''='' # ''zz9'' @ ''&x'')) ex_asked_registry) =
   fst (call_end ex_registry_config None 0 1 1
      (Failed (''GET /v1?'' @ ''auth_token'' @ CHR ''='' # ''abc'' @ ''&x'')) ex_asked_registry)"
  by (metis health_hides_credentials [OF ex_secret_pair] prod.collapse)

end
