(* ===== verification/Regex.thy ===== *)
theory Regex
  imports Prelude
begin

text \<open>
  The part of Python's \<open>re\<close> that the patterns of the program use, as the backtracking search that
  defines it: alternatives from left to right, greedy repetition of a character class, optional
  parts, word boundaries and capture groups. \<open>matches r s\<close> lists all ways to match a prefix of the
  rest of the text, in the order the engine tries them, each with the text consumed, the rest and the
  groups; \<open>search_re\<close> takes the first at the leftmost position. Every repetition is of a class, so
  the search is structural recursion and returns for every pattern and text.
\<close>

datatype re =
    Eps
  | Cls "char \<Rightarrow> bool"
  | Cat re re
  | Alt re re
  | Star "char \<Rightarrow> bool"
  | Group string re
  | Boundary

text \<open>A position: what is before it, in reverse, what is after it, and the groups so far.\<close>

type_synonym re_position = "string \<times> string \<times> (string \<times> string) list"

definition word_char :: "char \<Rightarrow> bool" where
  "word_char c = (let n = (of_char c :: nat) in
     (48 \<le> n \<and> n \<le> 57) \<or> (65 \<le> n \<and> n \<le> 90) \<or> (97 \<le> n \<and> n \<le> 122) \<or> n = 95)"

definition digit_char :: "char \<Rightarrow> bool" where
  "digit_char c = (let n = (of_char c :: nat) in 48 \<le> n \<and> n \<le> 57)"

definition at_boundary :: "string \<Rightarrow> string \<Rightarrow> bool" where
  "at_boundary pre post =
     ((pre \<noteq> [] \<and> word_char (hd pre)) \<noteq> (post \<noteq> [] \<and> word_char (hd post)))"

text \<open>The greedy repetition: the longest run first, then one shorter at a time.\<close>

fun star_positions :: "(char \<Rightarrow> bool) \<Rightarrow> string \<Rightarrow> string \<Rightarrow> (string \<times> string) list" where
  "star_positions p pre [] = [(pre, [])]"
| "star_positions p pre (c # cs) =
     (if p c then star_positions p (c # pre) cs @ [(pre, c # cs)] else [(pre, c # cs)])"

primrec matches :: "re \<Rightarrow> re_position \<Rightarrow> re_position list" where
  "matches Eps pos = [pos]"
| "matches (Cls p) pos = (case pos of (b, a, g) \<Rightarrow>
     (case a of [] \<Rightarrow> [] | c # cs \<Rightarrow> if p c then [(c # b, cs, g)] else []))"
| "matches (Cat r q) pos = concat (map (matches q) (matches r pos))"
| "matches (Alt r q) pos = matches r pos @ matches q pos"
| "matches (Star p) pos = (case pos of (b, a, g) \<Rightarrow>
     map (\<lambda>(b', a'). (b', a', g)) (star_positions p b a))"
| "matches (Group n r) pos = (case pos of (b, a, g) \<Rightarrow>
     map (\<lambda>(b', a', g'). (b', a', (n, take (length a - length a') a) # g')) (matches r pos))"
| "matches Boundary pos = (case pos of (b, a, g) \<Rightarrow> if at_boundary b a then [pos] else [])"

fun search_from :: "re \<Rightarrow> string \<Rightarrow> string \<Rightarrow> (string \<times> string) list option" where
  "search_from r pre post =
     (case matches r (pre, post, []) of
        (b, a, g) # _ \<Rightarrow> Some g
      | [] \<Rightarrow> (case post of [] \<Rightarrow> None | c # cs \<Rightarrow> search_from r (c # pre) cs))"

definition search_re :: "re \<Rightarrow> string \<Rightarrow> (string \<times> string) list option" where
  "search_re r text = search_from r [] text"

section \<open>Building blocks\<close>

definition chr :: "char \<Rightarrow> re" where
  "chr c = Cls (\<lambda>x. x = c)"

text \<open>A letter under \<open>re.IGNORECASE\<close>.\<close>

definition ichr :: "char \<Rightarrow> re" where
  "ichr c = Cls (\<lambda>x. char_lower x = c)"

definition seq :: "re list \<Rightarrow> re" where
  "seq rs = foldr Cat rs Eps"

definition lit :: "string \<Rightarrow> re" where
  "lit s = seq (map ichr s)"

definition opt :: "re \<Rightarrow> re" where
  "opt r = Alt r Eps"

definition digits :: re where
  "digits = Cat (Cls digit_char) (Star digit_char)"

definition spaces :: re where
  "spaces = Star is_space"

definition spaces1 :: re where
  "spaces1 = Cat (Cls is_space) (Star is_space)"

fun alts :: "re list \<Rightarrow> re" where
  "alts [] = Cls (\<lambda>_. False)"
| "alts [r] = r"
| "alts (r # rs) = Alt r (alts rs)"

section \<open>What a match is\<close>

text \<open>The texts a pattern can consume, and those a group can capture, boundaries apart.\<close>

primrec lang :: "re \<Rightarrow> string set" where
  "lang Eps = {[]}"
| "lang (Cls p) = {[c] | c. p c}"
| "lang (Cat r q) = {u @ v | u v. u \<in> lang r \<and> v \<in> lang q}"
| "lang (Alt r q) = lang r \<union> lang q"
| "lang (Star p) = {w. \<forall>c\<in>set w. p c}"
| "lang (Group n r) = lang r"
| "lang Boundary = {[]}"

primrec group_lang :: "string \<Rightarrow> re \<Rightarrow> string set" where
  "group_lang n Eps = {}"
| "group_lang n (Cls p) = {}"
| "group_lang n (Cat r q) = group_lang n r \<union> group_lang n q"
| "group_lang n (Alt r q) = group_lang n r \<union> group_lang n q"
| "group_lang n (Star p) = {}"
| "group_lang n (Group m r) = (if m = n then lang r else {}) \<union> group_lang n r"
| "group_lang n Boundary = {}"

lemma star_positions_lang:
  "(b', a') \<in> set (star_positions p b a) \<Longrightarrow> \<exists>w. a = w @ a' \<and> (\<forall>c\<in>set w. p c)"
proof (induction p b a rule: star_positions.induct)
  case (2 p b c cs)
  show ?case
  proof (cases "p c \<and> (b', a') \<in> set (star_positions p (c # b) cs)")
    case True
    with "2.IH" obtain w where "cs = w @ a'" "\<forall>c\<in>set w. p c" by blast
    with True have "c # cs = (c # w) @ a' \<and> (\<forall>c\<in>set (c # w). p c)" by simp
    then show ?thesis by blast
  next
    case False
    with "2.prems" have "a' = c # cs" by (auto split: if_splits)
    then show ?thesis by simp
  qed
qed simp

lemma matches_sound:
  "(b', a', g') \<in> set (matches r (b, a, g)) \<Longrightarrow>
    (\<exists>w. a = w @ a' \<and> w \<in> lang r) \<and> (\<forall>n t. (n, t) \<in> set g' \<longrightarrow> (n, t) \<in> set g \<or> t \<in> group_lang n r)"
proof (induction r arbitrary: b a g b' a' g')
  case (Cls p)
  then show ?case by (auto split: list.splits if_splits)
next
  case (Cat r q)
  from Cat.prems obtain b1 a1 g1 where 1: "(b1, a1, g1) \<in> set (matches r (b, a, g))"
    and 2: "(b', a', g') \<in> set (matches q (b1, a1, g1))" by auto
  from Cat.IH(1) [OF 1] obtain u where u: "a = u @ a1" "u \<in> lang r" by blast
  from Cat.IH(2) [OF 2] obtain v where v: "a1 = v @ a'" "v \<in> lang q" by blast
  have "a = (u @ v) @ a'" "u @ v \<in> lang (Cat r q)" using u v by auto
  moreover have "(n, t) \<in> set g \<or> t \<in> group_lang n (Cat r q)" if "(n, t) \<in> set g'" for n t
    using that Cat.IH(1) [OF 1] Cat.IH(2) [OF 2] by auto
  ultimately show ?case by blast
next
  case (Alt r q)
  then consider "(b', a', g') \<in> set (matches r (b, a, g))" | "(b', a', g') \<in> set (matches q (b, a, g))"
    by auto
  then show ?case
  proof cases
    case 1
    from Alt.IH(1) [OF this] show ?thesis by auto
  next
    case 2
    from Alt.IH(2) [OF this] show ?thesis by auto
  qed
next
  case (Star p)
  then show ?case by (auto dest: star_positions_lang)
next
  case (Group m r)
  then obtain g0 where g0: "(b', a', g0) \<in> set (matches r (b, a, g))"
    and g': "g' = (m, take (length a - length a') a) # g0" by auto
  from Group.IH [OF g0] obtain w where w: "a = w @ a'" "w \<in> lang r" by blast
  with g' Group.IH [OF g0] show ?case by auto
qed (auto split: if_splits)

lemma search_sound:
  "search_from r b a = Some g \<Longrightarrow> map_of g n = Some t \<Longrightarrow> t \<in> group_lang n r"
proof (induction r b a rule: search_from.induct)
  case (1 r b a)
  show ?case
  proof (cases "matches r (b, a, [])")
    case Nil
    with 1 show ?thesis by (cases a) auto
  next
    case (Cons x xs)
    obtain b' a' g' where x: "x = (b', a', g')" by (cases x)
    with Cons have "(b', a', g') \<in> set (matches r (b, a, []))" by simp
    from matches_sound [OF this] Cons x "1.prems" show ?thesis by (auto dest: map_of_SomeD)
  qed
qed

declare search_from.simps [simp del]

lemma search_re_group: "search_re r text = Some g \<Longrightarrow> map_of g n = Some t \<Longrightarrow> t \<in> group_lang n r"
  by (auto simp: search_re_def dest: search_sound)

lemma lang_seq [simp]: "lang (seq []) = {[]}" "lang (seq (r # rs)) = {u @ v | u v. u \<in> lang r \<and> v \<in> lang (seq rs)}"
  by (simp_all add: seq_def)

lemma group_lang_seq [simp]:
  "group_lang n (seq []) = {}" "group_lang n (seq (r # rs)) = group_lang n r \<union> group_lang n (seq rs)"
  by (simp_all add: seq_def)

lemma group_lang_blocks [simp]:
  "group_lang n (chr c) = {}" "group_lang n (ichr c) = {}" "group_lang n (opt r) = group_lang n r"
  "group_lang n digits = {}" "group_lang n spaces = {}" "group_lang n spaces1 = {}" "group_lang n (lit s) = {}"
  by (simp_all add: chr_def ichr_def opt_def digits_def spaces_def spaces1_def lit_def)
     (induction s; simp add: ichr_def)

lemma group_lang_alts [simp]:
  "group_lang n (alts []) = {}" "group_lang n (alts [r]) = group_lang n r"
  "group_lang n (alts (r # q # rs)) = group_lang n r \<union> group_lang n (alts (q # rs))"
  by simp_all

lemma lang_digits: "lang digits = {w. w \<noteq> [] \<and> (\<forall>c\<in>set w. digit_char c)}"
proof -
  have "w \<in> lang digits \<longleftrightarrow> w \<noteq> [] \<and> (\<forall>c\<in>set w. digit_char c)" for w
    by (cases w) (auto simp: digits_def intro: exI [of _ "[hd w]"] exI [of _ "tl w"])
  then show ?thesis by blast
qed

end
