(* ===== verification/Weather_Parse.thy ===== *)
theory Weather_Parse
  imports Regex Py_Values
begin

text \<open>
  The inputs of the Polymarket weather research: the city catalog and allowlist of
  \<open>polymarket/cities.py\<close>, and the reduction of an untrusted market payload to a typed temperature
  contract of \<open>polymarket/parse.py\<close>. The patterns are transcribed to \<open>Regex\<close>; texts are ASCII and the
  degree sign, so the en dash of the bucket pattern never occurs. \<open>json.loads\<close>, \<open>str\<close> of a JSON value
  that is no text, and \<open>datetime.fromisoformat\<close> are the fields of \<open>payload_reader\<close>. A date is its year,
  month and day.
\<close>

section \<open>Cities\<close>

datatype market_unit = UnitFahrenheit | UnitCelsius

record city =
  ct_slug :: string
  ct_name :: string
  ct_aliases :: "string list"
  ct_latitude :: real
  ct_longitude :: real
  ct_timezone :: string
  ct_climate :: string
  ct_station_icao :: string
  ct_iem_station :: string
  ct_iem_network :: string
  ct_ghcn_id :: string
  ct_resolution_station_name :: string
  ct_market_unit :: market_unit

definition warm_cities :: "city list" where
  "warm_cities = [
   city.make ''honolulu'' ''Honolulu'' [''honolulu, hi'', ''oahu''] (21.3069) (- 157.8583)
     ''Pacific/Honolulu'' ''tropical'' ''PHNL'' ''PHNL'' ''HI_ASOS''
     ''USW00022521'' ''Honolulu Daniel K. Inouye Intl Airport'' UnitFahrenheit,
   city.make ''san_diego'' ''San Diego'' [''san diego''] (32.7157) (- 117.1611)
     ''America/Los_Angeles'' ''mediterranean'' ''KSAN'' ''SAN'' ''CA_ASOS''
     ''USW00023188'' ''San Diego Intl Airport'' UnitFahrenheit,
   city.make ''miami'' ''Miami'' [''miami, fl'', ''miami beach''] (25.7617) (- 80.1918)
     ''America/New_York'' ''tropical'' ''KMIA'' ''MIA'' ''FL_ASOS''
     ''USW00012839'' ''Miami Intl Airport'' UnitFahrenheit,
   city.make ''phoenix'' ''Phoenix'' [''phoenix, az''] (33.4484) (- 112.074)
     ''America/Phoenix'' ''arid'' ''KPHX'' ''PHX'' ''AZ_ASOS''
     ''USW00023183'' ''Phoenix Sky Harbor Intl Airport'' UnitFahrenheit,
   city.make ''singapore'' ''Singapore'' [] (1.3521) (103.8198)
     ''Asia/Singapore'' ''equatorial'' ''WSSS'' ''WSSS'' ''SG__ASOS''
     '''' ''Singapore Changi Airport'' UnitCelsius,
   city.make ''lisbon'' ''Lisbon'' [''lisboa''] (38.7223) (- 9.1393)
     ''Europe/Lisbon'' ''mediterranean'' ''LPPT'' ''LPPT'' ''PT__ASOS''
     '''' ''Lisbon Humberto Delgado Airport'' UnitCelsius,
   city.make ''san_juan'' ''San Juan'' [''san juan'', ''san juan, pr''] (18.4655) (- 66.1057)
     ''America/Puerto_Rico'' ''tropical'' ''TJSJ'' ''TJSJ'' ''PR_ASOS''
     '''' ''San Juan Luis Munoz Marin Intl Airport'' UnitFahrenheit]"

definition us_cities :: "city list" where
  "us_cities = [
   city.make ''new_york'' ''New York City'' [''new york'', ''nyc'', ''new york city''] (40.7128) (- 74.006)
     ''America/New_York'' ''humid_continental'' ''KLGA'' ''LGA'' ''NY_ASOS''
     ''USW00014732'' ''LaGuardia Airport'' UnitFahrenheit,
   city.make ''chicago'' ''Chicago'' [] (41.8781) (- 87.6298)
     ''America/Chicago'' ''humid_continental'' ''KORD'' ''ORD'' ''IL_ASOS''
     ''USW00094846'' (''Chicago O'' @ CHR 0x27 # ''Hare Intl Airport'') UnitFahrenheit,
   city.make ''los_angeles'' ''Los Angeles'' [''los angeles'', ''la, ca''] (33.9425) (- 118.4081)
     ''America/Los_Angeles'' ''mediterranean'' ''KLAX'' ''LAX'' ''CA_ASOS''
     ''USW00023174'' ''Los Angeles International Airport'' UnitFahrenheit,
   city.make ''san_francisco'' ''San Francisco'' [''san francisco''] (37.6188) (- 122.375)
     ''America/Los_Angeles'' ''mediterranean'' ''KSFO'' ''SFO'' ''CA_ASOS''
     ''USW00023234'' ''San Francisco International Airport'' UnitFahrenheit,
   city.make ''seattle'' ''Seattle'' [''seattle''] (47.4444) (- 122.3139)
     ''America/Los_Angeles'' ''oceanic'' ''KSEA'' ''SEA'' ''WA_ASOS''
     ''USW00024233'' ''Seattle-Tacoma International Airport'' UnitFahrenheit,
   city.make ''houston'' ''Houston'' [''houston''] (29.6454) (- 95.2789)
     ''America/Chicago'' ''humid_subtropical'' ''KHOU'' ''HOU'' ''TX_ASOS''
     ''USW00012918'' ''William P. Hobby Airport'' UnitFahrenheit,
   city.make ''dallas'' ''Dallas'' [''dallas''] (32.8471) (- 96.8518)
     ''America/Chicago'' ''humid_subtropical'' ''KDAL'' ''DAL'' ''TX_ASOS''
     ''USW00013960'' ''Dallas Love Field'' UnitFahrenheit,
   city.make ''austin'' ''Austin'' [''austin''] (30.1975) (- 97.6664)
     ''America/Chicago'' ''humid_subtropical'' ''KAUS'' ''AUS'' ''TX_ASOS''
     ''USW00013904'' ''Austin-Bergstrom International Airport'' UnitFahrenheit,
   city.make ''atlanta'' ''Atlanta'' [''atlanta''] (33.6407) (- 84.4277)
     ''America/New_York'' ''humid_subtropical'' ''KATL'' ''ATL'' ''GA_ASOS''
     ''USW00013874'' ''Hartsfield-Jackson International Airport'' UnitFahrenheit,
   city.make ''denver'' ''Denver'' [''denver''] (39.7017) (- 104.7517)
     ''America/Denver'' ''semi_arid'' ''KBKF'' ''BKF'' ''CO_ASOS''
     '''' ''Buckley Space Force Base'' UnitFahrenheit]"

definition other_cities :: "city list" where
  "other_cities = [
   city.make ''london'' ''London'' [''london''] (51.5053) (0.0553)
     ''Europe/London'' ''oceanic'' ''EGLC'' ''EGLC'' ''GB__ASOS''
     '''' ''London City Airport'' UnitCelsius,
   city.make ''seoul'' ''Seoul'' [''seoul (incheon)'', ''incheon''] (37.4602) (126.4407)
     ''Asia/Seoul'' ''humid_continental'' ''RKSI'' ''RKSI'' ''KR__ASOS''
     '''' ''Incheon Intl Airport'' UnitCelsius,
   city.make ''toronto'' ''Toronto'' [''toronto''] (43.6777) (- 79.6248)
     ''America/Toronto'' ''humid_continental'' ''CYYZ'' ''CYYZ'' ''CA_ON_ASOS''
     '''' ''Toronto Pearson Intl Airport'' UnitCelsius,
   city.make ''zhengzhou'' ''Zhengzhou'' [''zhengzhou''] (34.5197) (113.8408)
     ''Asia/Shanghai'' ''humid_continental'' ''ZHCC'' ''ZHCC'' ''CN__ASOS''
     '''' ''Zhengzhou Xinzheng International Airport'' UnitCelsius]"

definition city_catalog :: "city list" where
  "city_catalog = warm_cities @ us_cities @ other_cities"

text \<open>\<open>CITY_CATALOG.get(slug)\<close>; every entry is filed under its own slug.\<close>

definition catalog_get :: "string \<Rightarrow> city option" where
  "catalog_get slug = find (\<lambda>c. ct_slug c = slug) city_catalog"

definition normalize_slug :: "string \<Rightarrow> string" where
  "normalize_slug raw = replace_char (CHR ''-'') (CHR ''_'') (replace_char (CHR '' '') (CHR ''_'') (lower (strip raw)))"

datatype allowlist_error = EmptyAllowlist | UnknownSlugs "string list"

definition resolve_allowlist :: "string \<Rightarrow> allowlist_error + city list" where
  "resolve_allowlist raw =
     (let slugs = map normalize_slug (filter (\<lambda>part. strip part \<noteq> []) (split_on (CHR '','') raw));
          unknown = filter (\<lambda>slug. catalog_get slug = None) slugs
      in if slugs = [] then Inl EmptyAllowlist
         else if unknown \<noteq> [] then Inl (UnknownSlugs unknown)
         else Inr (List.map_filter catalog_get slugs))"

text \<open>\<open>" ".join(text.split())\<close>\<close>

fun words_from :: "string \<Rightarrow> string \<Rightarrow> string list" where
  "words_from w [] = (if w = [] then [] else [rev w])"
| "words_from w (c # cs) =
     (if is_space c then (if w = [] then words_from [] cs else rev w # words_from [] cs)
      else words_from (c # w) cs)"

fun join_words :: "string list \<Rightarrow> string" where
  "join_words [] = []"
| "join_words [w] = w"
| "join_words (w # ws) = w @ '' '' @ join_words ws"

definition one_spaced :: "string \<Rightarrow> string" where
  "one_spaced text = join_words (words_from [] text)"

definition name_length :: "city \<Rightarrow> int" where
  "name_length c = int (foldl max (length (ct_name c)) (map length (ct_aliases c)))"

text \<open>\<open>sorted(..., reverse=True)\<close> keeps the order of equal keys, as the stable sort here does.\<close>

definition match_city :: "string \<Rightarrow> city list \<Rightarrow> city option" where
  "match_city text allowlist =
     (let haystack = one_spaced (lower text);
          ranked = sort_key (\<lambda>c. - name_length c) allowlist
      in find (\<lambda>c. list_ex (\<lambda>needle. needle \<noteq> [] \<and> contains_str haystack needle)
                    (lower (ct_name c) # map lower (ct_aliases c))) ranked)"

definition high_variance_city_slugs :: "string list" where
  "high_variance_city_slugs = [''new_york'', ''chicago'', ''denver'', ''dallas'', ''austin'', ''atlanta'',
     ''seattle'', ''san_francisco'']"

definition resolvable_cities :: "city list \<Rightarrow> city list" where
  "resolvable_cities allowlist = filter (\<lambda>c. ct_market_unit c = UnitFahrenheit
     \<and> ct_iem_network c \<noteq> [] \<and> ct_iem_station c \<noteq> []) allowlist"

section \<open>Dates\<close>

text \<open>\<open>int(text)\<close> of digits.\<close>

definition digits_value :: "string \<Rightarrow> nat" where
  "digits_value ds = foldl (\<lambda>v c. 10 * v + (of_char c - 48)) 0 ds"

text \<open>\<open>float(text)\<close> of digits with an optional fraction.\<close>

definition decimal_value :: "string \<Rightarrow> real" where
  "decimal_value t =
     (let whole = takeWhile (\<lambda>c. c \<noteq> CHR ''.'') t; fraction = tl (dropWhile (\<lambda>c. c \<noteq> CHR ''.'') t)
      in real (digits_value (whole @ fraction)) / 10 ^ length fraction)"

definition months :: "(string \<times> int) list" where
  "months = [(''january'', 1), (''jan'', 1), (''february'', 2), (''feb'', 2), (''march'', 3), (''mar'', 3),
     (''april'', 4), (''apr'', 4), (''may'', 5), (''june'', 6), (''jun'', 6), (''july'', 7), (''jul'', 7),
     (''august'', 8), (''aug'', 8), (''september'', 9), (''sept'', 9), (''sep'', 9), (''october'', 10),
     (''oct'', 10), (''november'', 11), (''nov'', 11), (''december'', 12), (''dec'', 12)]"

abbreviation digit :: re where
  "digit \<equiv> Cls digit_char"

definition iso_date_re :: re where
  "iso_date_re = seq [Boundary, Group ''y'' (seq [chr (CHR ''2''), chr (CHR ''0''), digit, digit]), chr (CHR ''-''),
     Group ''m'' (seq [digit, digit]), chr (CHR ''-''), Group ''d'' (seq [digit, digit]), Boundary]"

definition named_date_re :: re where
  "named_date_re = seq [Boundary, Group ''m'' (alts (map (lit \<circ> fst) months)), spaces1,
     Group ''d'' (Cat digit (opt digit)), opt (alts [lit ''st'', lit ''nd'', lit ''rd'', lit ''th'']),
     opt (seq [opt (chr (CHR '','')), spaces, Group ''y'' (seq [chr (CHR ''2''), chr (CHR ''0''), digit, digit])]),
     Boundary]"

definition group_text :: "(string \<times> string) list \<Rightarrow> string \<Rightarrow> string" where
  "group_text g n = dict_get_or g n []"

definition parse_event_date :: "string \<Rightarrow> int \<Rightarrow> py_error + civil option" where
  "parse_event_date text today_year =
     (case search_re iso_date_re text of
        Some g \<Rightarrow>
          bindr (make_date (int (digits_value (group_text g ''y''))) (int (digits_value (group_text g ''m'')))
                   (int (digits_value (group_text g ''d'')))) (\<lambda>d. Inr (Some d))
      | None \<Rightarrow>
          (case search_re named_date_re text of
             Some g \<Rightarrow>
               (let month = dict_get_or months (lower (group_text g ''m'')) 0;
                    year = (if map_of g ''y'' = None then today_year
                            else int (digits_value (group_text g ''y'')))
                in case make_date year month (int (digits_value (group_text g ''d''))) of
                     Inl e \<Rightarrow> Inr None
                   | Inr d \<Rightarrow> Inr (Some d))
           | None \<Rightarrow> Inr None))"

section \<open>Contracts\<close>

datatype temperature_contract = ThresholdOrHigher | Bucket | ThresholdOrLower

record parsed_market =
  pm_market_id :: string
  pm_question :: string
  pm_city_slug :: string
  pm_city_name :: string
  pm_event_date :: civil
  pm_contract :: temperature_contract
  pm_threshold_f :: "real option"
  pm_bucket_low_f :: "real option"
  pm_bucket_high_f :: "real option"
  pm_yes_token_id :: string
  pm_no_token_id :: string
  pm_end_at :: "datetime option"
  pm_condition_id :: string

definition degree_sign :: char where
  "degree_sign = char_of (176 :: nat)"

definition number_re :: "string \<Rightarrow> re" where
  "number_re n = Group n (Cat digits (opt (Cat (chr (CHR ''.'')) digits)))"

definition unit_re :: re where
  "unit_re = seq [spaces, opt (chr degree_sign), spaces,
     Group ''unit'' (alts [lit ''f'', lit ''c'', lit ''fahrenheit'', lit ''celsius''])]"

definition threshold_re :: re where
  "threshold_re = seq [
     opt (Alt (seq [lit ''at'', spaces1, lit ''least'', spaces1]) (Cat (lit ''be'') spaces1)),
     number_re ''value'', unit_re, spaces,
     alts [seq [lit ''or'', spaces1, alts [lit ''higher'', lit ''above'', lit ''more'', lit ''greater'']],
           seq [lit ''and'', spaces1, alts [lit ''higher'', lit ''above'']],
           seq [lit ''or'', spaces1, lit ''warmer'']]]"

definition lowest_re :: re where
  "lowest_re = seq [Boundary, lit ''lowest'', spaces1, lit ''temperature'', Boundary]"

definition threshold_lower_re :: re where
  "threshold_lower_re = seq [
     opt (Alt (seq [lit ''at'', spaces1, lit ''most'', spaces1]) (Cat (lit ''be'') spaces1)),
     number_re ''value'', unit_re, spaces,
     alts [seq [lit ''or'', spaces1, alts [lit ''below'', lit ''lower'', lit ''less'', lit ''colder'']],
           seq [lit ''and'', spaces1, lit ''below'']]]"

definition bucket_re :: re where
  "bucket_re = seq [number_re ''low'', spaces, Alt (chr (CHR ''-'')) (lit ''to''), spaces,
     number_re ''high'', unit_re, Boundary]"

definition as_fahrenheit :: "real \<Rightarrow> string \<Rightarrow> real" where
  "as_fahrenheit v unit = (if lower unit \<in> {''c'', ''celsius''} then v * 9 / 5 + 32 else v)"

section \<open>Payloads\<close>

record payload_reader =
  rd_json_loads :: "string \<Rightarrow> json option"
  rd_str :: "json \<Rightarrow> string"
  rd_fromisoformat :: "string \<Rightarrow> datetime option"

definition py_str :: "payload_reader \<Rightarrow> json \<Rightarrow> string" where
  "py_str rd j = (case j of JStr s \<Rightarrow> s | _ \<Rightarrow> rd_str rd j)"

definition json_list :: "payload_reader \<Rightarrow> json \<Rightarrow> string list" where
  "json_list rd raw =
     (case raw of
        JList items \<Rightarrow> map (py_str rd) items
      | JStr s \<Rightarrow>
          if strip s = [] then []
          else (case rd_json_loads rd (strip s) of Some (JList items) \<Rightarrow> map (py_str rd) items | _ \<Rightarrow> [])
      | _ \<Rightarrow> [])"

definition parse_datetime :: "payload_reader \<Rightarrow> json \<Rightarrow> datetime option" where
  "parse_datetime rd raw =
     (case raw of
        JStr s \<Rightarrow> if strip s = [] then None else rd_fromisoformat rd (strip s)
      | _ \<Rightarrow> None)"

text \<open>The contract of a question: the three patterns in the order the code tries them.\<close>

definition threshold_of :: "(string \<times> string) list \<Rightarrow> string \<Rightarrow> real" where
  "threshold_of g n = as_fahrenheit (decimal_value (group_text g n)) (group_text g ''unit'')"

definition contract_of ::
  "string \<Rightarrow> (temperature_contract \<times> real option \<times> real option \<times> real option) option" where
  "contract_of question =
     (case search_re bucket_re question of
        Some g \<Rightarrow>
          (let low = threshold_of g ''low''; high = threshold_of g ''high''
           in if high \<le> low then None else Some (Bucket, None, Some low, Some high))
      | None \<Rightarrow>
          (case search_re threshold_lower_re question of
             Some g \<Rightarrow> Some (ThresholdOrLower, Some (threshold_of g ''value''), None, None)
           | None \<Rightarrow>
               (case search_re threshold_re question of
                  Some g \<Rightarrow> Some (ThresholdOrHigher, Some (threshold_of g ''value''), None, None)
                | None \<Rightarrow> None)))"

definition tradable_payload :: "(string \<times> json) list \<Rightarrow> bool" where
  "tradable_payload kvs = (\<not> (json_get kvs ''closed'' = JBool True \<or> json_get kvs ''active'' = JBool False)
     \<and> json_get kvs ''acceptingOrders'' \<noteq> JBool False)"

text \<open>The ids and the end of the market, read once the question is understood.\<close>

definition market_of ::
  "payload_reader \<Rightarrow> (string \<times> json) list \<Rightarrow> string \<Rightarrow> city \<Rightarrow> civil \<Rightarrow> parsed_market option" where
  "market_of rd kvs question c day =
     (let tokens = json_list rd (json_or (json_get kvs ''clobTokenIds'') (json_get kvs ''clob_token_ids''));
          condition = json_or (json_get kvs ''conditionId'') (json_or (json_get kvs ''condition_id'') (JStr []))
      in if length tokens < 2 \<or> tokens ! 0 = [] \<or> tokens ! 1 = [] then None
         else (case contract_of question of
            None \<Rightarrow> None
          | Some (contract, threshold, low, high) \<Rightarrow>
              Some \<lparr>
                pm_market_id = py_str rd (json_or (json_get kvs ''id'')
                  (json_or (json_get kvs ''conditionId'') (JStr (tokens ! 0)))),
                pm_question = question, pm_city_slug = ct_slug c, pm_city_name = ct_name c,
                pm_event_date = day, pm_contract = contract, pm_threshold_f = threshold,
                pm_bucket_low_f = low, pm_bucket_high_f = high,
                pm_yes_token_id = tokens ! 0, pm_no_token_id = tokens ! 1,
                pm_end_at = parse_datetime rd (json_or (json_get kvs ''endDate'') (json_get kvs ''end_date_iso'')),
                pm_condition_id = (case condition of JStr s \<Rightarrow> s | _ \<Rightarrow> [])\<rparr>))"

definition parse_temperature_market ::
  "payload_reader \<Rightarrow> json \<Rightarrow> city list \<Rightarrow> int \<Rightarrow> py_error + parsed_market option" where
  "parse_temperature_market rd payload allowlist today_year =
     (case payload of
        JObj kvs \<Rightarrow>
          if \<not> tradable_payload kvs then Inr None
          else (case json_or (json_get kvs ''question'') (json_or (json_get kvs ''title'') (JStr [])) of
             JStr raw \<Rightarrow>
               if strip raw = [] then Inr None
               else (let question = one_spaced raw in
                 if search_re lowest_re question \<noteq> None then Inr None
                 else (case match_city question allowlist of
                    None \<Rightarrow> Inr None
                  | Some c \<Rightarrow>
                      bindr (parse_event_date question today_year) (\<lambda>event_date.
                      (case event_date of
                         None \<Rightarrow> Inr None
                       | Some day \<Rightarrow> Inr (market_of rd kvs question c day)))))
           | _ \<Rightarrow> Inr None)
      | _ \<Rightarrow> Inr None)"

end
