(* ===== verification/Weather.thy ===== *)
theory Weather
  imports Weather_Parse Kill_Switch Py_Number
begin

text \<open>
  The Polymarket weather paper cycle: \<open>polymarket/edge.py\<close>, \<open>polymarket/ledger.py\<close> and
  \<open>polymarket/service.py\<close>. The error function of \<open>math.erf\<close> is a parameter; the fetched events,
  forecasts and midpoints are the answers of \<open>weather_clients\<close>, which may differ from one market of
  the cycle to the next (the number of the market is an argument). An intent leaves out its
  random id, its creation time and the fields that are constant. The ledger is the list of rows it
  holds.
\<close>

section \<open>Edge\<close>

datatype contract_side = YES | NO

record forecast_point =
  fp_city_slug :: string
  fp_event_date :: civil
  fp_high_f :: real
  fp_source :: string
  fp_issued_at :: datetime
  fp_sigma_f :: real
  fp_model :: string

record edge_calculation =
  ed_model_probability :: real
  ed_market_mid :: real
  ed_raw_edge :: real
  ed_net_edge :: real
  ed_side :: contract_side
  ed_fee_haircut :: real

definition normal_cdf :: "(real \<Rightarrow> real) \<Rightarrow> real \<Rightarrow> real" where
  "normal_cdf erf z = 1 / 2 * (1 + erf (z / sqrt 2))"

definition clip01 :: "real \<Rightarrow> real" where
  "clip01 v = min 1 (max 0 v)"

definition model_probability ::
  "(real \<Rightarrow> real) \<Rightarrow> parsed_market \<Rightarrow> forecast_point \<Rightarrow> py_error + real" where
  "model_probability erf m f =
     (if fp_sigma_f f \<le> 0 then Inl ValueError
      else (let mean = fp_high_f f; sigma = fp_sigma_f f in
        case pm_contract m of
          ThresholdOrHigher \<Rightarrow>
            (case pm_threshold_f m of
               None \<Rightarrow> Inl ValueError
             | Some t \<Rightarrow> Inr (clip01 (1 - normal_cdf erf ((t - mean) / sigma))))
        | ThresholdOrLower \<Rightarrow>
            (case pm_threshold_f m of
               None \<Rightarrow> Inl ValueError
             | Some t \<Rightarrow> Inr (clip01 (normal_cdf erf ((t + 1 - mean) / sigma))))
        | Bucket \<Rightarrow>
            (case (pm_bucket_low_f m, pm_bucket_high_f m) of
               (Some low, Some high) \<Rightarrow>
                 Inr (clip01 (normal_cdf erf ((high + 1 - mean) / sigma) - normal_cdf erf ((low - mean) / sigma)))
             | _ \<Rightarrow> Inl ValueError)))"

definition calculate_edge ::
  "(real \<Rightarrow> real) \<Rightarrow> parsed_market \<Rightarrow> forecast_point \<Rightarrow> real \<Rightarrow> real \<Rightarrow> py_error + edge_calculation" where
  "calculate_edge erf m f mid fee =
     (if \<not> (0 \<le> mid \<and> mid \<le> 1) then Inl ValueError
      else if \<not> (0 \<le> fee \<and> fee < 1) then Inl ValueError
      else bindr (model_probability erf m f) (\<lambda>p.
        (let raw = p - mid;
             side = (if 0 \<le> raw then YES else NO);
             net = (if 0 \<le> raw then raw - fee else (- raw) - fee)
         in Inr \<lparr>ed_model_probability = p, ed_market_mid = mid, ed_raw_edge = raw, ed_net_edge = net,
                 ed_side = side, ed_fee_haircut = fee\<rparr>)))"

section \<open>Intents and ledger\<close>

datatype intent_status =
    WOULD_TRADE | BELOW_EDGE | KILL_SWITCH | CITY_BLOCKED | UNPARSED
  | STALE_OR_MISSING | MID_OUT_OF_BOUNDS | FORECAST_MISSING

datatype intent_reason =
    IR_model_p real | IR_mid real | IR_net_edge real | IR_min_edge real
  | IR_not_allowlisted | IR_forecast_unavailable string | IR_mid_unavailable string
  | IR_mid_outside real real real | IR_kill_switch_engaged | IR_not_submitted

record paper_intent =
  pi_trading_mode :: trading_mode
  pi_venue_submitted :: bool
  pi_status :: intent_status
  pi_city_slug :: "string option"
  pi_market_id :: "string option"
  pi_question :: "string option"
  pi_event_date :: "civil option"
  pi_contract :: "temperature_contract option"
  pi_side :: "contract_side option"
  pi_token_id :: "string option"
  pi_model_probability :: "real option"
  pi_market_mid :: "real option"
  pi_raw_edge :: "real option"
  pi_net_edge :: "real option"
  pi_forecast_high_f :: "real option"
  pi_forecast_source :: "string option"
  pi_paper_notional_usd :: real
  pi_reasons :: "intent_reason list"
  pi_kill_switch_sources :: "string list"

text \<open>A new intent with the defaults of the class.\<close>

definition blank_intent :: "intent_status \<Rightarrow> paper_intent" where
  "blank_intent st = \<lparr>pi_trading_mode = TM_paper, pi_venue_submitted = False, pi_status = st,
     pi_city_slug = None, pi_market_id = None, pi_question = None, pi_event_date = None,
     pi_contract = None, pi_side = None, pi_token_id = None, pi_model_probability = None,
     pi_market_mid = None, pi_raw_edge = None, pi_net_edge = None, pi_forecast_high_f = None,
     pi_forecast_source = None, pi_paper_notional_usd = 0, pi_reasons = [], pi_kill_switch_sources = []\<rparr>"

datatype weather_error =
    WE_Value py_error
  | WE_NotPaper trading_mode
  | WE_Allowlist allowlist_error
  | WE_Client string
  | WE_LedgerRefused
  | WE_Append

text \<open>\<open>append\<close>; \<open>write_ok\<close> says whether the file can be written.\<close>

definition ledger_append ::
  "bool \<Rightarrow> paper_intent \<Rightarrow> paper_intent list \<Rightarrow> weather_error + paper_intent list" where
  "ledger_append write_ok intent rows =
     (if pi_venue_submitted intent then Inl WE_LedgerRefused
      else if pi_trading_mode intent \<noteq> TM_paper then Inl WE_LedgerRefused
      else if \<not> write_ok then Inl WE_Append
      else Inr (rows @ [intent]))"

section \<open>Service\<close>

record weather_settings =
  ws_trading_mode :: trading_mode
  ws_cities :: string
  ws_noaa :: bool
  ws_sigma_f :: real
  ws_min_edge :: real
  ws_min_mid :: real
  ws_max_mid :: real
  ws_fee_haircut :: real
  ws_paper_notional_usd :: real

text \<open>The field bounds of \<open>Settings\<close>.\<close>

definition weather_settings_ok :: "weather_settings \<Rightarrow> bool" where
  "weather_settings_ok s \<longleftrightarrow> 0 < ws_sigma_f s \<and> 0 \<le> ws_min_edge s \<and> ws_min_edge s < 1
     \<and> 0 \<le> ws_min_mid s \<and> ws_min_mid s < 1 \<and> 0 < ws_max_mid s \<and> ws_max_mid s \<le> 1
     \<and> 0 \<le> ws_fee_haircut s \<and> ws_fee_haircut s < 1 \<and> 0 < ws_paper_notional_usd s"

record weather_fixtures =
  wf_events :: "(string \<times> json) list list"
  wf_mids :: "(string \<times> real) list"
  wf_forecasts :: "((string \<times> civil) \<times> forecast_point) list"

text \<open>A client is absent or answers; an exception is its type name.\<close>

record weather_clients =
  wc_fixtures :: "weather_fixtures option"
  wc_gamma :: "(string + json) option"
  wc_clob :: "(nat \<Rightarrow> string \<Rightarrow> string + json) option"
  wc_open_meteo :: "(nat \<Rightarrow> city \<Rightarrow> civil \<Rightarrow> real \<Rightarrow> string + forecast_point) option"
  wc_noaa :: "(nat \<Rightarrow> city \<Rightarrow> civil \<Rightarrow> real \<Rightarrow> string + forecast_point) option"

text \<open>What else the surroundings supply: the year of today, the kill switch's surroundings at each
  market and at the end, and which appends succeed.\<close>

record weather_inputs =
  wi_reader :: payload_reader
  wi_erf :: "real \<Rightarrow> real"
  wi_year :: int
  wi_now :: datetime
  wi_probe :: redis_probe
  wi_kill_env :: "nat \<Rightarrow> ks_env"
  wi_write_ok :: "nat \<Rightarrow> bool"

definition require_paper_trading_mode :: "weather_settings \<Rightarrow> weather_error + unit" where
  "require_paper_trading_mode s =
     (if ws_trading_mode s \<noteq> TM_paper then Inl (WE_NotPaper (ws_trading_mode s)) else Inr ())"

text \<open>\<open>_iter_market_payloads\<close>: the nested markets of an event, or the event itself.\<close>

definition event_markets :: "(string \<times> json) list \<Rightarrow> json list" where
  "event_markets event =
     (case json_get event ''markets'' of
        JList (m # ms) \<Rightarrow> filter is_object (m # ms)
      | _ \<Rightarrow> if ''clobTokenIds'' \<in> set (dict_keys event) \<or> ''question'' \<in> set (dict_keys event)
             then [JObj event] else [])"

definition iter_market_payloads :: "(string \<times> json) list list \<Rightarrow> json list" where
  "iter_market_payloads events = concat (map event_markets events)"

text \<open>\<open>_events_from_payload\<close> of \<open>gamma.py\<close>: a list, or the first of three keys that holds a list.\<close>

definition object_rows :: "json list \<Rightarrow> (string \<times> json) list list" where
  "object_rows rows = List.map_filter (\<lambda>j. case j of JObj kvs \<Rightarrow> Some kvs | _ \<Rightarrow> None) rows"

definition list_under :: "(string \<times> json) list \<Rightarrow> string \<Rightarrow> json list option" where
  "list_under kvs k = (case map_of kvs k of Some (JList rows) \<Rightarrow> Some rows | _ \<Rightarrow> None)"

definition events_from_payload :: "json \<Rightarrow> string + (string \<times> json) list list" where
  "events_from_payload payload =
     (case payload of
        JList rows \<Rightarrow> Inr (object_rows rows)
      | JObj kvs \<Rightarrow>
          (case List.map_filter (list_under kvs) [''events'', ''data'', ''results''] of
             rows # _ \<Rightarrow> Inr (object_rows rows)
           | [] \<Rightarrow> Inl ''TypeError'')
      | _ \<Rightarrow> Inl ''TypeError'')"

definition discover :: "weather_clients \<Rightarrow> weather_error + (string \<times> json) list list" where
  "discover W =
     (case wc_fixtures W of
        Some fx \<Rightarrow> Inr (wf_events fx)
      | None \<Rightarrow> (case wc_gamma W of
          None \<Rightarrow> Inl (WE_Client ''RuntimeError'')
        | Some (Inl e) \<Rightarrow> Inl (WE_Client e)
        | Some (Inr payload) \<Rightarrow>
            (case events_from_payload payload of Inl e \<Rightarrow> Inl (WE_Client e) | Inr events \<Rightarrow> Inr events)))"

text \<open>\<open>_parse_mid\<close> and the range check of \<open>clob.py\<close>; a Boolean is an \<open>int\<close>.\<close>

definition parse_mid :: "json \<Rightarrow> string + pyfloat" where
  "parse_mid payload =
     (case payload of
        JObj kvs \<Rightarrow>
          (let raw = (if json_get kvs ''mid'' = JNull then json_get kvs ''price'' else json_get kvs ''mid'') in
           case raw of
             JBool b \<Rightarrow> Inr (Fin (if b then 1 else 0))
           | JInt n \<Rightarrow> (case int_to_float n of None \<Rightarrow> Inl ''OverflowError'' | Some r \<Rightarrow> Inr (Fin r))
           | JFloat r \<Rightarrow> Inr r
           | JStr t \<Rightarrow> if strip t = [] then Inl ''TypeError''
                      else (case parse_float t of None \<Rightarrow> Inl ''ValueError'' | Some r \<Rightarrow> Inr r)
           | _ \<Rightarrow> Inl ''TypeError'')
      | _ \<Rightarrow> Inl ''TypeError'')"

definition clob_midpoint :: "(string \<Rightarrow> string + json) \<Rightarrow> string \<Rightarrow> string + real" where
  "clob_midpoint get_payload token =
     (if strip token = [] then Inl ''ValueError''
      else bindr (get_payload token) (\<lambda>payload.
           bindr (parse_mid payload) (\<lambda>mid.
             case mid of
               Fin r \<Rightarrow> if 0 \<le> r \<and> r \<le> 1 then Inr r else Inl ''ValueError''
             | NonFinite \<Rightarrow> Inl ''ValueError'')))"

definition midpoint :: "weather_clients \<Rightarrow> nat \<Rightarrow> string \<Rightarrow> string + real" where
  "midpoint W n token =
     (case wc_fixtures W of
        Some fx \<Rightarrow> (case map_of (wf_mids fx) token of None \<Rightarrow> Inl ''KeyError'' | Some mid \<Rightarrow> Inr mid)
      | None \<Rightarrow> (case wc_clob W of None \<Rightarrow> Inl ''RuntimeError'' | Some f \<Rightarrow> clob_midpoint (f n) token))"

definition fetch_forecast ::
  "weather_settings \<Rightarrow> weather_clients \<Rightarrow> nat \<Rightarrow> city \<Rightarrow> civil \<Rightarrow> string + forecast_point" where
  "fetch_forecast s W n c day =
     (case wc_fixtures W of
        Some fx \<Rightarrow> (case map_of (wf_forecasts fx) (ct_slug c, day) of
                      None \<Rightarrow> Inl ''KeyError'' | Some f \<Rightarrow> Inr f)
      | None \<Rightarrow>
          if ws_noaa s
          then (case wc_noaa W of None \<Rightarrow> Inl ''RuntimeError'' | Some f \<Rightarrow> f n c day (ws_sigma_f s))
          else (case wc_open_meteo W of None \<Rightarrow> Inl ''RuntimeError'' | Some f \<Rightarrow> f n c day (ws_sigma_f s)))"

type_synonym forecast_cache = "((string \<times> civil) \<times> forecast_point) list"

text \<open>What every intent about a parsed market repeats.\<close>

definition market_intent :: "ks_env \<Rightarrow> kill_switch \<Rightarrow> parsed_market \<Rightarrow> intent_status \<Rightarrow> paper_intent" where
  "market_intent e k m st = (blank_intent st)\<lparr>pi_city_slug := Some (pm_city_slug m),
     pi_market_id := Some (pm_market_id m), pi_question := Some (pm_question m),
     pi_event_date := Some (pm_event_date m), pi_contract := Some (pm_contract m),
     pi_kill_switch_sources := engaged_sources e k\<rparr>"

definition edge_reasons :: "weather_settings \<Rightarrow> edge_calculation \<Rightarrow> intent_reason list" where
  "edge_reasons s ed = [IR_model_p (ed_model_probability ed), IR_mid (ed_market_mid ed),
     IR_net_edge (ed_net_edge ed), IR_min_edge (ws_min_edge s)]"

definition edge_intent ::
  "weather_settings \<Rightarrow> ks_env \<Rightarrow> kill_switch \<Rightarrow> parsed_market \<Rightarrow> forecast_point \<Rightarrow> edge_calculation \<Rightarrow> paper_intent" where
  "edge_intent s e k m f ed = (market_intent e k m BELOW_EDGE)\<lparr>
     pi_side := Some (ed_side ed),
     pi_token_id := Some (if ed_side ed = YES then pm_yes_token_id m else pm_no_token_id m),
     pi_model_probability := Some (ed_model_probability ed), pi_market_mid := Some (ed_market_mid ed),
     pi_raw_edge := Some (ed_raw_edge ed), pi_net_edge := Some (ed_net_edge ed),
     pi_forecast_high_f := Some (fp_high_f f), pi_forecast_source := Some (fp_source f),
     pi_reasons := edge_reasons s ed\<rparr>"

definition judge_edge ::
  "weather_settings \<Rightarrow> ks_env \<Rightarrow> kill_switch \<Rightarrow> parsed_market \<Rightarrow> forecast_point \<Rightarrow> edge_calculation \<Rightarrow> paper_intent" where
  "judge_edge s e k m f ed =
     (let base = edge_intent s e k m f ed in
      if ed_net_edge ed < ws_min_edge s then base
      else if engaged e k
      then base\<lparr>pi_status := KILL_SWITCH, pi_paper_notional_usd := 0,
                pi_reasons := edge_reasons s ed @ [IR_kill_switch_engaged]\<rparr>
      else base\<lparr>pi_status := WOULD_TRADE, pi_paper_notional_usd := ws_paper_notional_usd s,
                pi_reasons := edge_reasons s ed @ [IR_not_submitted]\<rparr>)"

text \<open>\<open>_evaluate\<close>. \<open>StopIteration\<close> of the city lookup is the first branch.\<close>

definition evaluate_market ::
  "weather_settings \<Rightarrow> weather_clients \<Rightarrow> weather_inputs \<Rightarrow> kill_switch \<Rightarrow> nat \<Rightarrow> parsed_market \<Rightarrow> city list \<Rightarrow>
     forecast_cache \<Rightarrow> (weather_error + paper_intent) \<times> forecast_cache" where
  "evaluate_market s W ins k n m allowlist cache =
     (case find (\<lambda>c. ct_slug c = pm_city_slug m) allowlist of
        None \<Rightarrow> (Inl (WE_Client ''StopIteration''), cache)
      | Some c \<Rightarrow>
          (let e = wi_kill_env ins n;
               key = (ct_slug c, pm_event_date m);
               fetched = (case map_of cache key of
                            Some f \<Rightarrow> Inr f
                          | None \<Rightarrow> fetch_forecast s W n c (pm_event_date m));
               cache = (case fetched of Inl _ \<Rightarrow> cache | Inr f \<Rightarrow> AList.update key f cache)
           in (case fetched of
                 Inl err \<Rightarrow>
                   (Inr ((market_intent e k m FORECAST_MISSING)\<lparr>pi_reasons := [IR_forecast_unavailable err]\<rparr>), cache)
               | Inr f \<Rightarrow>
                   (case midpoint W n (pm_yes_token_id m) of
                      Inl err \<Rightarrow>
                        (Inr ((market_intent e k m STALE_OR_MISSING)\<lparr>
                           pi_forecast_high_f := Some (fp_high_f f), pi_forecast_source := Some (fp_source f),
                           pi_reasons := [IR_mid_unavailable err]\<rparr>), cache)
                    | Inr mid \<Rightarrow>
                        if \<not> (ws_min_mid s \<le> mid \<and> mid \<le> ws_max_mid s)
                        then (Inr ((market_intent e k m MID_OUT_OF_BOUNDS)\<lparr>pi_market_mid := Some mid,
                                pi_forecast_high_f := Some (fp_high_f f), pi_forecast_source := Some (fp_source f),
                                pi_reasons := [IR_mid_outside mid (ws_min_mid s) (ws_max_mid s)]\<rparr>), cache)
                        else (case calculate_edge (wi_erf ins) m f mid (ws_fee_haircut s) of
                                Inl err \<Rightarrow> (Inl (WE_Value err), cache)
                              | Inr ed \<Rightarrow> (Inr (judge_edge s e k m f ed), cache))))))"

record weather_cycle =
  wy_rows :: "paper_intent list"
  wy_intents :: "paper_intent list"
  wy_parsed :: nat
  wy_would_trade :: nat
  wy_withheld :: nat
  wy_below_edge :: nat
  wy_skipped :: nat
  wy_cache :: forecast_cache

definition count_status :: "intent_status \<Rightarrow> weather_cycle \<Rightarrow> weather_cycle" where
  "count_status st y =
     (if st = WOULD_TRADE then y\<lparr>wy_would_trade := wy_would_trade y + 1\<rparr>
      else if st = KILL_SWITCH then y\<lparr>wy_withheld := wy_withheld y + 1\<rparr>
      else if st = BELOW_EDGE then y\<lparr>wy_below_edge := wy_below_edge y + 1\<rparr>
      else y\<lparr>wy_skipped := wy_skipped y + 1\<rparr>)"

definition file_intent ::
  "bool \<Rightarrow> paper_intent \<Rightarrow> weather_cycle \<Rightarrow> weather_error option \<times> weather_cycle" where
  "file_intent write_ok intent y =
     (case ledger_append write_ok intent (wy_rows y) of
        Inl err \<Rightarrow> (Some err, y)
      | Inr rows \<Rightarrow> (None, y\<lparr>wy_rows := rows, wy_intents := wy_intents y @ [intent]\<rparr>))"

definition blocked_city :: "json \<Rightarrow> city list \<Rightarrow> (city \<times> string) option" where
  "blocked_city payload allowlist =
     (case payload of
        JObj kvs \<Rightarrow>
          (case json_get kvs ''question'' of
             JStr question \<Rightarrow>
               (case match_city question city_catalog of
                  Some c \<Rightarrow> if c \<in> set allowlist then None else Some (c, question)
                | None \<Rightarrow> None)
           | _ \<Rightarrow> None)
      | _ \<Rightarrow> None)"

definition market_step ::
  "weather_settings \<Rightarrow> weather_clients \<Rightarrow> weather_inputs \<Rightarrow> kill_switch \<Rightarrow> city list \<Rightarrow> nat \<Rightarrow> json \<Rightarrow>
     weather_cycle \<Rightarrow> weather_error option \<times> weather_cycle" where
  "market_step s W ins k allowlist n payload y =
     (case parse_temperature_market (wi_reader ins) payload allowlist (wi_year ins) of
        Inl err \<Rightarrow> (Some (WE_Value err), y)
      | Inr None \<Rightarrow>
          (let y = y\<lparr>wy_skipped := wy_skipped y + 1\<rparr> in
           case blocked_city payload allowlist of
             None \<Rightarrow> (None, y)
           | Some (c, question) \<Rightarrow>
               file_intent (wi_write_ok ins n)
                 ((blank_intent CITY_BLOCKED)\<lparr>pi_city_slug := Some (ct_slug c), pi_question := Some question,
                    pi_reasons := [IR_not_allowlisted]\<rparr>) y)
      | Inr (Some m) \<Rightarrow>
          (let y = y\<lparr>wy_parsed := wy_parsed y + 1\<rparr> in
           case evaluate_market s W ins k n m allowlist (wy_cache y) of
             (Inl err, cache) \<Rightarrow> (Some err, y\<lparr>wy_cache := cache\<rparr>)
           | (Inr intent, cache) \<Rightarrow>
               (case file_intent (wi_write_ok ins n) intent (y\<lparr>wy_cache := cache\<rparr>) of
                  (Some err, y) \<Rightarrow> (Some err, y)
                | (None, y) \<Rightarrow> (None, count_status (pi_status intent) y))))"

fun market_loop ::
  "weather_settings \<Rightarrow> weather_clients \<Rightarrow> weather_inputs \<Rightarrow> kill_switch \<Rightarrow> city list \<Rightarrow> nat \<Rightarrow> json list \<Rightarrow>
     weather_cycle \<Rightarrow> weather_error option \<times> weather_cycle" where
  "market_loop s W ins k allowlist n [] y = (None, y)"
| "market_loop s W ins k allowlist n (p # ps) y =
     (case market_step s W ins k allowlist n p y of
        (Some err, y) \<Rightarrow> (Some err, y)
      | (None, y) \<Rightarrow> market_loop s W ins k allowlist (Suc n) ps y)"

record weather_report =
  wr_trading_mode :: trading_mode
  wr_kill_switch_engaged :: bool
  wr_kill_switch_sources :: "string list"
  wr_cities :: "string list"
  wr_markets_seen :: nat
  wr_cycle :: weather_cycle

definition new_weather_cycle :: "paper_intent list \<Rightarrow> weather_cycle" where
  "new_weather_cycle rows = \<lparr>wy_rows = rows, wy_intents = [], wy_parsed = 0, wy_would_trade = 0,
     wy_withheld = 0, wy_below_edge = 0, wy_skipped = 0, wy_cache = []\<rparr>"

text \<open>\<open>run_once\<close>: the kill switch after the refresh, the rows of the ledger after the cycle, and the
  report or what was raised.\<close>

definition weather_run_once ::
  "weather_settings \<Rightarrow> weather_clients \<Rightarrow> weather_inputs \<Rightarrow> kill_switch \<Rightarrow> paper_intent list \<Rightarrow>
     kill_switch \<times> paper_intent list \<times> (weather_error + weather_report)" where
  "weather_run_once s W ins k rows =
     (case require_paper_trading_mode s of
        Inl err \<Rightarrow> (k, rows, Inl err)
      | Inr _ \<Rightarrow>
          (let k = fst (refresh (wi_now ins) (wi_probe ins) (wi_kill_env ins 0) k) in
           case resolve_allowlist (ws_cities s) of
             Inl err \<Rightarrow> (k, rows, Inl (WE_Allowlist err))
           | Inr allowlist \<Rightarrow>
               (case discover W of
                  Inl err \<Rightarrow> (k, rows, Inl err)
                | Inr events \<Rightarrow>
                    (let markets = iter_market_payloads events;
                         e = wi_kill_env ins (length markets)
                     in case market_loop s W ins k allowlist 0 markets (new_weather_cycle rows) of
                          (Some err, y) \<Rightarrow> (k, wy_rows y, Inl err)
                        | (None, y) \<Rightarrow>
                            (k, wy_rows y, Inr \<lparr>wr_trading_mode = ws_trading_mode s,
                               wr_kill_switch_engaged = engaged e k,
                               wr_kill_switch_sources = engaged_sources e k,
                               wr_cities = map ct_slug allowlist,
                               wr_markets_seen = length markets, wr_cycle = y\<rparr>)))))"


section \<open>Probabilities\<close>

text \<open>What is documented of the error function: monotone, between -1 and 1.\<close>

definition erf_like :: "(real \<Rightarrow> real) \<Rightarrow> bool" where
  "erf_like erf \<longleftrightarrow> mono_on UNIV erf \<and> (\<forall>x. -1 \<le> erf x \<and> erf x \<le> 1)"

lemma normal_cdf_bounds:
  assumes "erf_like erf"
  shows "0 \<le> normal_cdf erf z \<and> normal_cdf erf z \<le> 1"
proof -
  have "-1 \<le> erf (z / sqrt 2)" "erf (z / sqrt 2) \<le> 1" using assms by (simp_all add: erf_like_def)
  then show ?thesis by (simp add: normal_cdf_def)
qed

lemma normal_cdf_mono: "erf_like erf \<Longrightarrow> x \<le> y \<Longrightarrow> normal_cdf erf x \<le> normal_cdf erf y"
  by (simp add: erf_like_def normal_cdf_def monotone_on_def divide_right_mono)

lemma clip01_bounds: "0 \<le> clip01 v" "clip01 v \<le> 1"
  by (simp_all add: clip01_def)

lemma clip01_id: "0 \<le> v \<Longrightarrow> v \<le> 1 \<Longrightarrow> clip01 v = v"
  by (simp add: clip01_def)

text \<open>The fields a parsed contract has, by its kind.\<close>

definition contract_complete :: "parsed_market \<Rightarrow> bool" where
  "contract_complete m \<longleftrightarrow> (case pm_contract m of
      Bucket \<Rightarrow> \<exists>low high. pm_bucket_low_f m = Some low \<and> pm_bucket_high_f m = Some high \<and> low < high
    | _ \<Rightarrow> \<exists>t. pm_threshold_f m = Some t)"

lemma contract_of_complete:
  "contract_of q = Some (ct, t, low, high) \<Longrightarrow>
    (case ct of Bucket \<Rightarrow> \<exists>l h. low = Some l \<and> high = Some h \<and> l < h | _ \<Rightarrow> \<exists>v. t = Some v)"
  by (auto simp: contract_of_def Let_def split: option.splits if_splits)

lemma market_of_complete:
  "market_of rd kvs q c day = Some m \<Longrightarrow>
    contract_complete m \<and> pm_city_slug m = ct_slug c \<and> pm_yes_token_id m \<noteq> [] \<and> pm_no_token_id m \<noteq> []"
  by (auto simp: market_of_def contract_complete_def Let_def split: if_splits option.splits
      dest!: contract_of_complete split: temperature_contract.splits)

lemma find_in: "find P xs = Some x \<Longrightarrow> x \<in> set xs \<and> P x"
  by (induction xs) (auto split: if_splits)

lemma match_city_in: "match_city text cities = Some c \<Longrightarrow> c \<in> set cities"
  unfolding match_city_def Let_def by (drule find_in) simp

lemma parse_complete:
  assumes "parse_temperature_market rd payload cities year = Inr (Some m)"
  shows "contract_complete m" "\<exists>c\<in>set cities. ct_slug c = pm_city_slug m"
    "pm_yes_token_id m \<noteq> []" "pm_no_token_id m \<noteq> []"
  using assms market_of_complete match_city_in
  by (fastforce simp: parse_temperature_market_def Let_def bindr_eq_Inr
      split: json.splits if_splits option.splits)+

lemma model_probability_total:
  "0 < fp_sigma_f f \<Longrightarrow> contract_complete m \<Longrightarrow>
    \<exists>p. model_probability erf m f = Inr p \<and> 0 \<le> p \<and> p \<le> 1"
  by (cases "pm_contract m") (auto simp: model_probability_def contract_complete_def clip01_bounds Let_def)

lemma calculate_edge_total:
  assumes "0 < fp_sigma_f f" "contract_complete m" "0 \<le> mid" "mid \<le> 1" "0 \<le> fee" "fee < 1"
  shows "\<exists>ed. calculate_edge erf m f mid fee = Inr ed"
  using model_probability_total [OF assms(1,2), of erf] assms(3-) by (auto simp: calculate_edge_def Let_def)


section \<open>The rows of a cycle\<close>

lemma parsed_city:
  assumes "parse_temperature_market rd payload cities year = Inr (Some m)"
  shows "\<exists>c. match_city (pm_question m) cities = Some c \<and> ct_slug c = pm_city_slug m"
  using assms
  by (fastforce simp: parse_temperature_market_def market_of_def Let_def bindr_eq_Inr
      split: json.splits if_splits option.splits)

text \<open>The cities of an allowlist are catalog entries under their own slugs, so a slug names one of them.\<close>

definition catalogued :: "city list \<Rightarrow> bool" where
  "catalogued allowlist \<longleftrightarrow> (\<forall>c\<in>set allowlist. catalog_get (ct_slug c) = Some c)"

lemma find_own: "find (\<lambda>c. ct_slug c = slug) cs = Some c \<Longrightarrow> find (\<lambda>x. ct_slug x = ct_slug c) cs = Some c"
  using find_in by fastforce

lemma resolved_catalogued: "resolve_allowlist raw = Inr allowlist \<Longrightarrow> catalogued allowlist"
  unfolding resolve_allowlist_def catalogued_def Let_def catalog_get_def
  by (auto simp: List.map_filter_def split: if_splits) (erule find_own)

lemma catalogued_slug: "catalogued cs \<Longrightarrow> c \<in> set cs \<Longrightarrow> d \<in> set cs \<Longrightarrow> ct_slug c = ct_slug d \<Longrightarrow> c = d"
  unfolding catalogued_def by (metis option.inject)

text \<open>
  What licenses a would-trade row: a market \<open>n\<close> of the cycle whose question names the allowlisted
  city of the row, the forecast of that city for the day of the question, fetched for this market or an
  earlier one, and the midpoint of the market's own token. Every figure of the row is one of theirs.
\<close>

definition licensed_row ::
  "weather_settings \<Rightarrow> weather_clients \<Rightarrow> weather_inputs \<Rightarrow> kill_switch \<Rightarrow> city list \<Rightarrow> json list \<Rightarrow> paper_intent \<Rightarrow> bool" where
  "licensed_row s W ins k allowlist markets row \<longleftrightarrow>
     (\<exists>n i c m f mid ed.
        n < length markets \<and> i \<le> n
        \<and> parse_temperature_market (wi_reader ins) (markets ! n) allowlist (wi_year ins) = Inr (Some m)
        \<and> c \<in> set allowlist \<and> match_city (pm_question m) allowlist = Some c
        \<and> pi_city_slug row = Some (ct_slug c) \<and> pi_market_id row = Some (pm_market_id m)
        \<and> pi_question row = Some (pm_question m) \<and> pi_event_date row = Some (pm_event_date m)
        \<and> pi_contract row = Some (pm_contract m) \<and> contract_complete m
        \<and> fetch_forecast s W i c (pm_event_date m) = Inr f
        \<and> pi_forecast_high_f row = Some (fp_high_f f) \<and> pi_forecast_source row = Some (fp_source f)
        \<and> midpoint W n (pm_yes_token_id m) = Inr mid \<and> ws_min_mid s \<le> mid \<and> mid \<le> ws_max_mid s
        \<and> calculate_edge (wi_erf ins) m f mid (ws_fee_haircut s) = Inr ed
        \<and> ws_min_edge s \<le> ed_net_edge ed \<and> \<not> engaged (wi_kill_env ins n) k
        \<and> pi_side row = Some (ed_side ed)
        \<and> pi_token_id row = Some (if ed_side ed = YES then pm_yes_token_id m else pm_no_token_id m)
        \<and> pi_model_probability row = Some (ed_model_probability ed) \<and> pi_market_mid row = Some mid
        \<and> pi_raw_edge row = Some (ed_raw_edge ed) \<and> pi_net_edge row = Some (ed_net_edge ed))"

definition row_ok ::
  "weather_settings \<Rightarrow> weather_clients \<Rightarrow> weather_inputs \<Rightarrow> kill_switch \<Rightarrow> city list \<Rightarrow> json list \<Rightarrow> paper_intent \<Rightarrow> bool" where
  "row_ok s W ins k allowlist markets row \<longleftrightarrow>
     pi_trading_mode row = TM_paper \<and> \<not> pi_venue_submitted row
     \<and> pi_paper_notional_usd row = (if pi_status row = WOULD_TRADE then ws_paper_notional_usd s else 0)
     \<and> (pi_status row = WOULD_TRADE \<longrightarrow> licensed_row s W ins k allowlist markets row)"

text \<open>Before market \<open>n\<close>, the cache holds forecasts fetched for earlier markets.\<close>

definition cache_ok ::
  "weather_settings \<Rightarrow> weather_clients \<Rightarrow> city list \<Rightarrow> nat \<Rightarrow> forecast_cache \<Rightarrow> bool" where
  "cache_ok s W allowlist n cache \<longleftrightarrow> (\<forall>c day f. find (\<lambda>x. ct_slug x = ct_slug c) allowlist = Some c \<longrightarrow>
     map_of cache (ct_slug c, day) = Some f \<longrightarrow> (\<exists>i<n. fetch_forecast s W i c day = Inr f))"

lemma cache_ok_Suc: "cache_ok s W allowlist n cache \<Longrightarrow> cache_ok s W allowlist (Suc n) cache"
  unfolding cache_ok_def by (blast intro: less_SucI)

lemma drop_head: "p # ps = drop n xs \<Longrightarrow> n < length xs \<and> xs ! n = p \<and> ps = drop (Suc n) xs"
  by (metis drop_eq_Nil2 Cons_nth_drop_Suc list.distinct(1) list.inject not_le)

lemma calculated_mid: "calculate_edge erf m f mid fee = Inr ed \<Longrightarrow> ed_market_mid ed = mid"
  by (auto simp: calculate_edge_def Let_def bindr_eq_Inr split: if_splits)

lemma blank_intent_simps [simp]:
  "pi_trading_mode (blank_intent st) = TM_paper" "pi_venue_submitted (blank_intent st) = False"
  "pi_status (blank_intent st) = st" "pi_paper_notional_usd (blank_intent st) = 0"
  by (simp_all add: blank_intent_def)

lemma market_intent_simps [simp]:
  "pi_trading_mode (market_intent e k m st) = TM_paper" "pi_venue_submitted (market_intent e k m st) = False"
  "pi_status (market_intent e k m st) = st" "pi_paper_notional_usd (market_intent e k m st) = 0"
  "pi_market_id (market_intent e k m st) = Some (pm_market_id m)"
  by (simp_all add: market_intent_def)

lemma edge_intent_simps [simp]:
  "pi_trading_mode (edge_intent s e k m f ed) = TM_paper" "pi_venue_submitted (edge_intent s e k m f ed) = False"
  "pi_status (edge_intent s e k m f ed) = BELOW_EDGE" "pi_paper_notional_usd (edge_intent s e k m f ed) = 0"
  "pi_market_id (edge_intent s e k m f ed) = Some (pm_market_id m)"
  "pi_side (edge_intent s e k m f ed) = Some (ed_side ed)"
  "pi_token_id (edge_intent s e k m f ed) = Some (if ed_side ed = YES then pm_yes_token_id m else pm_no_token_id m)"
  "pi_net_edge (edge_intent s e k m f ed) = Some (ed_net_edge ed)"
  "pi_raw_edge (edge_intent s e k m f ed) = Some (ed_raw_edge ed)"
  "pi_market_mid (edge_intent s e k m f ed) = Some (ed_market_mid ed)"
  "pi_model_probability (edge_intent s e k m f ed) = Some (ed_model_probability ed)"
  "pi_forecast_high_f (edge_intent s e k m f ed) = Some (fp_high_f f)"
  "pi_forecast_source (edge_intent s e k m f ed) = Some (fp_source f)"
  "pi_city_slug (edge_intent s e k m f ed) = Some (pm_city_slug m)"
  "pi_question (edge_intent s e k m f ed) = Some (pm_question m)"
  "pi_event_date (edge_intent s e k m f ed) = Some (pm_event_date m)"
  "pi_contract (edge_intent s e k m f ed) = Some (pm_contract m)"
  by (simp_all add: edge_intent_def market_intent_def)

lemma find_slug:
  "find (\<lambda>c. ct_slug c = slug) cs = Some c \<Longrightarrow> find (\<lambda>x. ct_slug x = ct_slug c) cs = Some c \<and> c \<in> set cs \<and> ct_slug c = slug"
  using find_in by fastforce

text \<open>The forecast a market is judged by, and the cache afterwards.\<close>

lemma evaluate_forecast:
  assumes "cache_ok s W allowlist n cache" "find (\<lambda>c. ct_slug c = pm_city_slug m) allowlist = Some c"
    and "(case map_of cache (ct_slug c, pm_event_date m) of Some f \<Rightarrow> Inr f
          | None \<Rightarrow> fetch_forecast s W n c (pm_event_date m)) = Inr f"
  shows "\<exists>i\<le>n. fetch_forecast s W i c (pm_event_date m) = Inr f"
    "cache_ok s W allowlist (Suc n) (AList.update (ct_slug c, pm_event_date m) f cache)"
proof -
  note c = find_slug [OF assms(2)]
  show 1: "\<exists>i\<le>n. fetch_forecast s W i c (pm_event_date m) = Inr f"
    using assms(1) [unfolded cache_ok_def, rule_format, of c "pm_event_date m" f] assms(3) c
    by (auto split: option.splits intro: less_imp_le)
  show "cache_ok s W allowlist (Suc n) (AList.update (ct_slug c, pm_event_date m) f cache)"
    unfolding cache_ok_def
  proof (intro allI impI)
    fix c' day g
    assume c': "find (\<lambda>x. ct_slug x = ct_slug c') allowlist = Some c'"
      and g: "map_of (AList.update (ct_slug c, pm_event_date m) f cache) (ct_slug c', day) = Some g"
    show "\<exists>i<Suc n. fetch_forecast s W i c' day = Inr g"
    proof (cases "(ct_slug c', day) = (ct_slug c, pm_event_date m)")
      case True
      with c c' assms(2) have "c' = c" by simp
      with True g 1 show ?thesis by (auto simp: update_conv' less_Suc_eq_le)
    next
      case False
      with g have "map_of cache (ct_slug c', day) = Some g" by (auto simp: update_conv' split: if_splits)
      with c' show ?thesis
        using cache_ok_Suc [OF assms(1), unfolded cache_ok_def, rule_format, of c' day g] by blast
    qed
  qed
qed

text \<open>Every evaluated market is filed as a paper row that was not submitted, and not as a blocked city.\<close>

lemma evaluate_market_frame:
  "evaluate_market s W ins k n m allowlist cache = (Inr row, cache') \<Longrightarrow>
    pi_status row \<noteq> CITY_BLOCKED \<and> \<not> pi_venue_submitted row \<and> pi_trading_mode row = TM_paper"
  by (auto simp: evaluate_market_def Let_def judge_edge_def split: option.splits sum.splits if_splits)

lemma judged_row_ok:
  assumes "n < length markets" "i \<le> n" "catalogued allowlist"
    and "parse_temperature_market (wi_reader ins) (markets ! n) allowlist (wi_year ins) = Inr (Some m)"
    and "find (\<lambda>c. ct_slug c = pm_city_slug m) allowlist = Some c"
    and "fetch_forecast s W i c (pm_event_date m) = Inr f"
    and "midpoint W n (pm_yes_token_id m) = Inr mid" "ws_min_mid s \<le> mid" "mid \<le> ws_max_mid s"
    and "calculate_edge (wi_erf ins) m f mid (ws_fee_haircut s) = Inr ed"
  shows "row_ok s W ins k allowlist markets (judge_edge s (wi_kill_env ins n) k m f ed)"
proof (cases "ws_min_edge s \<le> ed_net_edge ed \<and> \<not> engaged (wi_kill_env ins n) k")
  case True
  note c = find_slug [OF assms(5)]
  obtain d where d: "match_city (pm_question m) allowlist = Some d" "ct_slug d = pm_city_slug m"
    using parsed_city [OF assms(4)] by blast
  have "d = c" using catalogued_slug [OF assms(3)] match_city_in [OF d(1)] d(2) c by simp
  with d(1) have "match_city (pm_question m) allowlist = Some c" by simp
  with True c assms parse_complete(1) [OF assms(4)] calculated_mid [OF assms(10)]
  have "licensed_row s W ins k allowlist markets (judge_edge s (wi_kill_env ins n) k m f ed)"
    unfolding licensed_row_def
    by (intro exI [of _ n] exI [of _ i] exI [of _ c] exI [of _ m] exI [of _ f] exI [of _ mid] exI [of _ ed])
       (simp add: judge_edge_def Let_def)
  with True show ?thesis by (simp add: row_ok_def judge_edge_def Let_def)
qed (auto simp: row_ok_def judge_edge_def Let_def)

lemma unjudged_row_ok:
  assumes "st \<noteq> WOULD_TRADE"
  shows "row_ok s W ins k allowlist markets ((market_intent e k m st)\<lparr>pi_reasons := rs\<rparr>)"
    "row_ok s W ins k allowlist markets
       ((market_intent e k m st)\<lparr>pi_forecast_high_f := h, pi_forecast_source := src, pi_reasons := rs\<rparr>)"
    "row_ok s W ins k allowlist markets ((market_intent e k m st)\<lparr>pi_market_mid := p,
       pi_forecast_high_f := h, pi_forecast_source := src, pi_reasons := rs\<rparr>)"
  using assms by (simp_all add: row_ok_def)

lemma evaluate_market_ok:
  assumes "cache_ok s W allowlist n cache" "n < length markets" "catalogued allowlist"
    and "parse_temperature_market (wi_reader ins) (markets ! n) allowlist (wi_year ins) = Inr (Some m)"
    and "evaluate_market s W ins k n m allowlist cache = (r, cache')"
  shows "cache_ok s W allowlist (Suc n) cache'" "r = Inr row \<Longrightarrow> row_ok s W ins k allowlist markets row"
proof -
  have "cache_ok s W allowlist (Suc n) cache' \<and> (r = Inr row \<longrightarrow> row_ok s W ins k allowlist markets row)"
  proof (cases "find (\<lambda>c. ct_slug c = pm_city_slug m) allowlist")
    case None
    with assms(1,5) show ?thesis by (auto simp: evaluate_market_def cache_ok_Suc)
  next
    case (Some c)
    let ?fetched = "case map_of cache (ct_slug c, pm_event_date m) of Some f \<Rightarrow> Inr f
        | None \<Rightarrow> fetch_forecast s W n c (pm_event_date m)"
    show ?thesis
    proof (cases ?fetched)
      case (Inl err)
      with assms(1,5) Some show ?thesis by (auto simp: evaluate_market_def row_ok_def cache_ok_Suc)
    next
      case (Inr f)
      note f = evaluate_forecast [OF assms(1) Some Inr]
      obtain i where i: "i \<le> n" "fetch_forecast s W i c (pm_event_date m) = Inr f" using f(1) by blast
      note judged = judged_row_ok [OF assms(2) i(1) assms(3,4) Some i(2)]
      from assms(5) Some Inr f(2) show ?thesis
        by (auto simp: evaluate_market_def Let_def intro: judged unjudged_row_ok split: sum.splits if_splits)
    qed
  qed
  then show "cache_ok s W allowlist (Suc n) cache'" "r = Inr row \<Longrightarrow> row_ok s W ins k allowlist markets row"
    by blast+
qed

text \<open>What a cycle keeps: the ledger is what it was plus the intents, which are in order.\<close>

definition tallies :: "weather_cycle \<Rightarrow> bool" where
  "tallies y \<longleftrightarrow>
     wy_would_trade y = length (filter (\<lambda>i. pi_status i = WOULD_TRADE) (wy_intents y))
     \<and> wy_withheld y = length (filter (\<lambda>i. pi_status i = KILL_SWITCH) (wy_intents y))
     \<and> wy_below_edge y = length (filter (\<lambda>i. pi_status i = BELOW_EDGE) (wy_intents y))
     \<and> wy_parsed y = length (filter (\<lambda>i. pi_status i \<noteq> CITY_BLOCKED) (wy_intents y))"

definition cycle_rows_ok ::
  "weather_settings \<Rightarrow> weather_clients \<Rightarrow> weather_inputs \<Rightarrow> kill_switch \<Rightarrow> city list \<Rightarrow> json list \<Rightarrow> paper_intent list \<Rightarrow>
     nat \<Rightarrow> weather_cycle \<Rightarrow> bool" where
  "cycle_rows_ok s W ins k allowlist markets rows n y \<longleftrightarrow>
     wy_rows y = rows @ wy_intents y \<and> cache_ok s W allowlist n (wy_cache y)
     \<and> (\<forall>row\<in>set (wy_intents y). row_ok s W ins k allowlist markets row)"

lemma count_status_frame [simp]:
  "wy_rows (count_status st y) = wy_rows y" "wy_intents (count_status st y) = wy_intents y"
  "wy_cache (count_status st y) = wy_cache y" "wy_parsed (count_status st y) = wy_parsed y"
  by (simp_all add: count_status_def)

lemma file_intent_None:
  "file_intent ok row y = (None, y') \<longleftrightarrow> \<not> pi_venue_submitted row \<and> pi_trading_mode row = TM_paper \<and> ok
     \<and> y' = y\<lparr>wy_rows := wy_rows y @ [row], wy_intents := wy_intents y @ [row]\<rparr>"
  by (auto simp: file_intent_def ledger_append_def)

lemma file_intent_Some: "file_intent ok row y = (Some err, y') \<Longrightarrow> y' = y"
  by (auto simp: file_intent_def ledger_append_def split: if_splits)

lemma blocked_row_ok:
  "row_ok s W ins k allowlist markets ((blank_intent CITY_BLOCKED)\<lparr>pi_city_slug := a, pi_question := q, pi_reasons := r\<rparr>)"
  by (simp add: row_ok_def)

lemma market_step_rows:
  assumes "cycle_rows_ok s W ins k allowlist markets rows n y" "market_step s W ins k allowlist n p y = (err, y')"
    and "catalogued allowlist" "n < length markets" "markets ! n = p"
  shows "cycle_rows_ok s W ins k allowlist markets rows (Suc n) y'"
proof (cases "parse_temperature_market (wi_reader ins) p allowlist (wi_year ins)")
  case (Inl e)
  with assms show ?thesis by (simp add: market_step_def cycle_rows_ok_def cache_ok_Suc)
next
  case (Inr found)
  show ?thesis
  proof (cases found)
    case None
    with assms Inr show ?thesis
      by (auto simp: market_step_def Let_def file_intent_def ledger_append_def cycle_rows_ok_def blocked_row_ok cache_ok_Suc
          split: option.splits if_splits)
  next
    case (Some m)
    obtain r cache where ev: "evaluate_market s W ins k n m allowlist (wy_cache y) = (r, cache)" by fastforce
    have ok: "cache_ok s W allowlist n (wy_cache y)" using assms(1) by (simp add: cycle_rows_ok_def)
    note e = evaluate_market_ok [OF ok assms(4,3) _ ev, unfolded assms(5), OF Inr [unfolded Some]]
    show ?thesis
    proof (cases r)
      case (Inl err)
      with assms Inr Some ev e(1) show ?thesis by (auto simp: market_step_def Let_def cycle_rows_ok_def)
    next
      case row: (Inr row)
      obtain err1 y1 where f: "file_intent (wi_write_ok ins n) row (y\<lparr>wy_parsed := wy_parsed y + 1, wy_cache := cache\<rparr>) = (err1, y1)"
        by fastforce
      have step: "(err, y') = (case err1 of None \<Rightarrow> (None, count_status (pi_status row) y1) | Some e \<Rightarrow> (Some e, y1))"
        using assms(2) Inr Some ev row f by (auto simp: market_step_def Let_def split: option.splits)
      show ?thesis
      proof (cases err1)
        case None
        with f have y1: "y1 = y\<lparr>wy_parsed := wy_parsed y + 1, wy_cache := cache,
            wy_rows := wy_rows y @ [row], wy_intents := wy_intents y @ [row]\<rparr>"
          by (simp add: file_intent_None)
        have "y' = count_status (pi_status row) y1" using step None by simp
        with assms(1) e(1) e(2) [OF row] show ?thesis by (simp add: y1 cycle_rows_ok_def)
      next
        case (Some e')
        then have "y1 = y\<lparr>wy_parsed := wy_parsed y + 1, wy_cache := cache\<rparr>"
          using f file_intent_Some by metis
        with step Some assms(1) e(1) show ?thesis by (simp add: cycle_rows_ok_def)
      qed
    qed
  qed
qed

lemma market_loop_rows:
  "market_loop s W ins k allowlist n ps y = (err, y') \<Longrightarrow> cycle_rows_ok s W ins k allowlist markets rows n y \<Longrightarrow>
    catalogued allowlist \<Longrightarrow> ps = drop n markets \<Longrightarrow> \<exists>n'. cycle_rows_ok s W ins k allowlist markets rows n' y'"
proof (induction s W ins k allowlist n ps y rule: market_loop.induct)
  case (2 s W ins k allowlist n p ps y)
  obtain e1 y1 where 1: "market_step s W ins k allowlist n p y = (e1, y1)" by fastforce
  note d = drop_head [OF "2.prems"(4)]
  have rows: "cycle_rows_ok s W ins k allowlist markets rows (Suc n) y1"
    using market_step_rows [OF "2.prems"(2) 1 "2.prems"(3)] d by simp
  show ?case
  proof (cases e1)
    case None
    with "2.IH" [OF 1 [unfolded None, symmetric]] 1 "2.prems" rows d show ?thesis by simp
  qed (use 1 "2.prems"(1) rows in auto)
qed auto


text \<open>The counts: each market of the cycle is counted once, each intent by its status.\<close>

lemma market_step_tallies:
  assumes "market_step s W ins k allowlist n p y = (None, y')" "tallies y"
    and "n = wy_would_trade y + wy_withheld y + wy_below_edge y + wy_skipped y"
  shows "tallies y' \<and> Suc n = wy_would_trade y' + wy_withheld y' + wy_below_edge y' + wy_skipped y'"
proof (cases "parse_temperature_market (wi_reader ins) p allowlist (wi_year ins)")
  case (Inl e)
  with assms show ?thesis by (simp add: market_step_def)
next
  case (Inr found)
  show ?thesis
  proof (cases found)
    case None
    with assms Inr show ?thesis
      by (auto simp: market_step_def Let_def file_intent_None tallies_def split: option.splits)
  next
    case (Some m)
    obtain r cache where ev: "evaluate_market s W ins k n m allowlist (wy_cache y) = (r, cache)" by fastforce
    obtain row where row: "r = Inr row" using assms(1) Inr Some ev by (cases r) (auto simp: market_step_def Let_def)
    have st: "pi_status row \<noteq> CITY_BLOCKED" using evaluate_market_frame ev row by blast
    obtain y1 where f: "file_intent (wi_write_ok ins n) row (y\<lparr>wy_parsed := wy_parsed y + 1, wy_cache := cache\<rparr>) = (None, y1)"
      and y': "y' = count_status (pi_status row) y1"
      using assms(1) Inr Some ev row by (auto simp: market_step_def Let_def split: option.splits prod.splits)
    have y1: "y1 = y\<lparr>wy_parsed := wy_parsed y + 1, wy_cache := cache, wy_rows := wy_rows y @ [row],
        wy_intents := wy_intents y @ [row]\<rparr>"
      using f by (simp add: file_intent_None)
    show ?thesis using assms(2,3) st by (auto simp: y' y1 tallies_def count_status_def)
  qed
qed

lemma market_loop_tallies:
  "market_loop s W ins k allowlist n ps y = (None, y') \<Longrightarrow> tallies y \<Longrightarrow>
    n = wy_would_trade y + wy_withheld y + wy_below_edge y + wy_skipped y \<Longrightarrow>
    tallies y' \<and> n + length ps = wy_would_trade y' + wy_withheld y' + wy_below_edge y' + wy_skipped y'"
proof (induction s W ins k allowlist n ps y rule: market_loop.induct)
  case (2 s W ins k allowlist n p ps y)
  obtain e1 y1 where 1: "market_step s W ins k allowlist n p y = (e1, y1)" by fastforce
  have e1: "e1 = None" using 1 "2.prems"(1) by (cases e1) auto
  have t: "tallies y1 \<and> Suc n = wy_would_trade y1 + wy_withheld y1 + wy_below_edge y1 + wy_skipped y1"
    using market_step_tallies [OF _ "2.prems"(2,3)] 1 e1 by simp
  show ?case using "2.IH" [OF 1 [unfolded e1, symmetric]] 1 e1 "2.prems"(1) t by simp
qed simp

text \<open>The run as its parts.\<close>

lemma run_parts:
  assumes "weather_run_once s W ins k rows = (k', rows', r)"
  shows "rows' = rows \<and> (\<exists>err. r = Inl err) \<or>
    (\<exists>allowlist events y err. ws_trading_mode s = TM_paper \<and> resolve_allowlist (ws_cities s) = Inr allowlist
       \<and> discover W = Inr events \<and> k' = fst (refresh (wi_now ins) (wi_probe ins) (wi_kill_env ins 0) k)
       \<and> market_loop s W ins k' allowlist 0 (iter_market_payloads events) (new_weather_cycle rows) = (err, y)
       \<and> rows' = wy_rows y
       \<and> (case err of Some e \<Rightarrow> r = Inl e | None \<Rightarrow> \<exists>rep. r = Inr rep \<and> wr_cycle rep = y
            \<and> wr_markets_seen rep = length (iter_market_payloads events)
            \<and> wr_cities rep = map ct_slug allowlist))"
proof (cases "ws_trading_mode s = TM_paper")
  case False
  with assms show ?thesis by (auto simp: weather_run_once_def require_paper_trading_mode_def)
next
  case True
  show ?thesis
  proof (cases "resolve_allowlist (ws_cities s)")
    case (Inl e)
    with assms True show ?thesis by (auto simp: weather_run_once_def require_paper_trading_mode_def Let_def)
  next
    case al: (Inr allowlist)
    show ?thesis
    proof (cases "discover W")
      case (Inl e)
      with assms True al show ?thesis by (auto simp: weather_run_once_def require_paper_trading_mode_def Let_def)
    next
      case ev: (Inr events)
      let ?k = "fst (refresh (wi_now ins) (wi_probe ins) (wi_kill_env ins 0) k)"
      obtain err y where l: "market_loop s W ins ?k allowlist 0 (iter_market_payloads events) (new_weather_cycle rows) = (err, y)"
        by fastforce
      then have "k' = ?k \<and> rows' = wy_rows y \<and> (case err of Some e \<Rightarrow> r = Inl e | None \<Rightarrow> \<exists>rep. r = Inr rep \<and> wr_cycle rep = y
            \<and> wr_markets_seen rep = length (iter_market_payloads events) \<and> wr_cities rep = map ct_slug allowlist)"
        using assms True al ev by (cases err) (auto simp: weather_run_once_def require_paper_trading_mode_def Let_def)
      with True al ev l show ?thesis by blast
    qed
  qed
qed

lemma new_cycle_ok: "cycle_rows_ok s W ins k allowlist markets rows 0 (new_weather_cycle rows)"
  by (simp add: cycle_rows_ok_def new_weather_cycle_def cache_ok_def)


section \<open>The kill switch decides nothing else\<close>

text \<open>A row with what the kill switch writes taken out.\<close>

definition unswitched :: "paper_intent \<Rightarrow> paper_intent" where
  "unswitched row = row\<lparr>
     pi_status := (if pi_status row = KILL_SWITCH then WOULD_TRADE else pi_status row),
     pi_paper_notional_usd := 0, pi_reasons := take 4 (pi_reasons row), pi_kill_switch_sources := []\<rparr>"

definition same_verdict :: "weather_error + paper_intent \<Rightarrow> weather_error + paper_intent \<Rightarrow> bool" where
  "same_verdict r q = (case (r, q) of (Inl e, Inl e') \<Rightarrow> e = e' | (Inr x, Inr y) \<Rightarrow> unswitched x = unswitched y | _ \<Rightarrow> False)"

lemma judge_edge_unswitched: "unswitched (judge_edge s e k m f ed) = unswitched (judge_edge s e' k' m f ed)"
  by (simp add: judge_edge_def edge_intent_def market_intent_def edge_reasons_def blank_intent_def unswitched_def Let_def)

lemma market_intent_unswitched:
  "unswitched ((market_intent e k m st)\<lparr>pi_reasons := rs\<rparr>) =
     unswitched ((market_intent e' k' m st)\<lparr>pi_reasons := rs\<rparr>)"
  "unswitched ((market_intent e k m st)\<lparr>pi_forecast_high_f := h, pi_forecast_source := src, pi_reasons := rs\<rparr>) =
     unswitched ((market_intent e' k' m st)\<lparr>pi_forecast_high_f := h, pi_forecast_source := src, pi_reasons := rs\<rparr>)"
  "unswitched ((market_intent e k m st)\<lparr>pi_market_mid := p, pi_forecast_high_f := h, pi_forecast_source := src, pi_reasons := rs\<rparr>) =
     unswitched ((market_intent e' k' m st)\<lparr>pi_market_mid := p, pi_forecast_high_f := h, pi_forecast_source := src, pi_reasons := rs\<rparr>)"
  by (simp_all add: market_intent_def unswitched_def blank_intent_def)

lemma evaluate_market_switch:
  assumes "evaluate_market s W ins k n m allowlist cache = (r, c1)"
    and "evaluate_market s W (ins\<lparr>wi_kill_env := env, wi_probe := pr\<rparr>) k' n m allowlist cache = (q, c2)"
  shows "c1 = c2 \<and> same_verdict r q"
  using assms judge_edge_unswitched [of s "wi_kill_env ins n" k m _ _ "env n" k']
    market_intent_unswitched [where e = "wi_kill_env ins n" and k = k and e' = "env n" and k' = k']
  by (auto simp: evaluate_market_def Let_def same_verdict_def
      split: option.splits sum.splits if_splits)

lemma unswitched_simps [simp]:
  "pi_venue_submitted (unswitched x) = pi_venue_submitted x" "pi_trading_mode (unswitched x) = pi_trading_mode x"
  by (simp_all add: unswitched_def)

lemma same_verdict_append:
  assumes "unswitched x = unswitched y"
  shows "pi_venue_submitted x = pi_venue_submitted y" "pi_trading_mode x = pi_trading_mode y"
  using arg_cong [OF assms, of pi_venue_submitted] arg_cong [OF assms, of pi_trading_mode] by simp_all

definition same_cycle :: "weather_cycle \<Rightarrow> weather_cycle \<Rightarrow> bool" where
  "same_cycle y z \<longleftrightarrow> map unswitched (wy_intents y) = map unswitched (wy_intents z) \<and> wy_cache y = wy_cache z"


lemma file_intent_switch:
  assumes "same_cycle y z" "unswitched x = unswitched x'"
    and "file_intent ok x y = (a, y')" "file_intent ok x' z = (b, z')"
  shows "a = b \<and> same_cycle y' z'"
  using assms(1,3,4) assms(2) same_verdict_append [OF assms(2)]
  by (auto simp: file_intent_def ledger_append_def same_cycle_def split: if_splits)

lemma same_cycle_frame:
  "same_cycle y z \<Longrightarrow> same_cycle (y\<lparr>wy_skipped := a\<rparr>) (z\<lparr>wy_skipped := b\<rparr>)"
  "same_cycle y z \<Longrightarrow> same_cycle (y\<lparr>wy_parsed := a\<rparr>) (z\<lparr>wy_parsed := b\<rparr>)"
  "same_cycle y z \<Longrightarrow> same_cycle (y\<lparr>wy_parsed := a, wy_cache := c\<rparr>) (z\<lparr>wy_parsed := b, wy_cache := c\<rparr>)"
  "same_cycle y z \<Longrightarrow> same_cycle (count_status st y) (count_status st' z)"
  by (auto simp: same_cycle_def)

lemma market_step_switch:
  assumes "same_cycle y z"
    and "market_step s W ins k allowlist n p y = (a, y')"
    and "market_step s W (ins\<lparr>wi_kill_env := env, wi_probe := pr\<rparr>) k' allowlist n p z = (b, z')"
  shows "a = b \<and> same_cycle y' z'"
proof (cases "parse_temperature_market (wi_reader ins) p allowlist (wi_year ins)")
  case (Inl e)
  with assms show ?thesis by (simp add: market_step_def)
next
  case (Inr found)
  show ?thesis
  proof (cases found)
    case None
    show ?thesis
    proof (cases "blocked_city p allowlist")
      case None
      with assms Inr \<open>found = None\<close> show ?thesis by (auto simp: market_step_def Let_def same_cycle_frame)
    next
      case (Some cq)
      with assms(2,3) Inr \<open>found = None\<close> show ?thesis
        using file_intent_switch [OF same_cycle_frame(1) [OF assms(1)] refl]
        by (cases cq) (simp add: market_step_def Let_def)
    qed
  next
    case (Some m)
    obtain r c1 where 1: "evaluate_market s W ins k n m allowlist (wy_cache y) = (r, c1)" by fastforce
    obtain q c2 where 2: "evaluate_market s W (ins\<lparr>wi_kill_env := env, wi_probe := pr\<rparr>) k' n m allowlist (wy_cache z) = (q, c2)"
      by fastforce
    have same: "c1 = c2" "same_verdict r q"
      using evaluate_market_switch [OF 1] 2 assms(1) by (auto simp: same_cycle_def)
    show ?thesis
    proof (cases r)
      case (Inl e)
      then have "q = Inl e" using same(2) by (cases q) (auto simp: same_verdict_def)
      with Inl assms Inr Some 1 2 same(1) show ?thesis
        by (auto simp: market_step_def Let_def same_cycle_frame)
    next
      case x: (Inr x)
      then obtain x' where x': "q = Inr x'" "unswitched x = unswitched x'"
        using same(2) by (cases q) (auto simp: same_verdict_def)
      obtain e1 y1 where f1: "file_intent (wi_write_ok ins n) x (y\<lparr>wy_parsed := wy_parsed y + 1, wy_cache := c1\<rparr>) = (e1, y1)"
        by fastforce
      obtain e2 z1 where f2: "file_intent (wi_write_ok ins n) x' (z\<lparr>wy_parsed := wy_parsed z + 1, wy_cache := c1\<rparr>) = (e2, z1)"
        by fastforce
      note f = file_intent_switch [OF same_cycle_frame(3) [OF assms(1)] x'(2) f1 f2]
      have "(a, y') = (case e1 of None \<Rightarrow> (None, count_status (pi_status x) y1) | Some e \<Rightarrow> (Some e, y1))"
        using assms(2) Inr Some 1 x f1 by (auto simp: market_step_def Let_def split: option.splits)
      moreover have "(b, z') = (case e2 of None \<Rightarrow> (None, count_status (pi_status x') z1) | Some e \<Rightarrow> (Some e, z1))"
        using assms(3) Inr Some 2 x'(1) same(1) f2 by (auto simp: market_step_def Let_def split: option.splits)
      ultimately show ?thesis using f by (cases e1) (auto simp: same_cycle_frame)
    qed
  qed
qed

lemma market_loop_switch:
  "same_cycle y z \<Longrightarrow> market_loop s W ins k allowlist n ps y = (a, y') \<Longrightarrow>
    market_loop s W (ins\<lparr>wi_kill_env := env, wi_probe := pr\<rparr>) k' allowlist n ps z = (b, z') \<Longrightarrow>
    a = b \<and> same_cycle y' z'"
proof (induction ps arbitrary: n y z)
  case (Cons p ps)
  obtain e1 y1 where 1: "market_step s W ins k allowlist n p y = (e1, y1)" by fastforce
  obtain e2 z1 where 2: "market_step s W (ins\<lparr>wi_kill_env := env, wi_probe := pr\<rparr>) k' allowlist n p z = (e2, z1)"
    by fastforce
  note st = market_step_switch [OF Cons.prems(1) 1 2]
  with Cons.prems 1 2 Cons.IH show ?case by (cases e1) auto
qed simp

text \<open>
  Whatever the kill switch reads at any moment of the cycle, it decides only between would-trade
  and withheld: the same cycle under any other behaviour of the switch evaluates the same markets,
  raises in the same cases, and writes the same rows up to that verdict, its notional and its reasons.
\<close>

theorem kill_switch_only_withholds:
  assumes "weather_run_once s W ins k rows = (k1, rows1, r1)"
    and "weather_run_once s W (ins\<lparr>wi_kill_env := env, wi_probe := pr\<rparr>) k' rows = (k2, rows2, r2)"
  shows "map unswitched rows1 = map unswitched rows2 \<and> (\<forall>e. r1 = Inl e \<longleftrightarrow> r2 = Inl e)"
proof (cases "\<exists>allowlist events. ws_trading_mode s = TM_paper \<and> resolve_allowlist (ws_cities s) = Inr allowlist
    \<and> discover W = Inr events")
  case False
  with assms show ?thesis
    by (cases "resolve_allowlist (ws_cities s)"; cases "discover W")
       (auto simp: weather_run_once_def require_paper_trading_mode_def Let_def split: if_splits)
next
  case True
  then obtain allowlist events where go: "ws_trading_mode s = TM_paper" "resolve_allowlist (ws_cities s) = Inr allowlist"
    "discover W = Inr events" by blast
  let ?k1 = "fst (refresh (wi_now ins) (wi_probe ins) (wi_kill_env ins 0) k)"
  let ?k2 = "fst (refresh (wi_now ins) pr (env 0) k')"
  obtain e1 y1 where 1: "market_loop s W ins ?k1 allowlist 0 (iter_market_payloads events) (new_weather_cycle rows) = (e1, y1)"
    by fastforce
  obtain e2 y2 where 2: "market_loop s W (ins\<lparr>wi_kill_env := env, wi_probe := pr\<rparr>) ?k2 allowlist 0
      (iter_market_payloads events) (new_weather_cycle rows) = (e2, y2)" by fastforce
  have same: "e1 = e2 \<and> same_cycle y1 y2" by (rule market_loop_switch [OF _ 1 2]) (simp add: same_cycle_def)
  have "wy_rows y1 = rows @ wy_intents y1" "wy_rows y2 = rows @ wy_intents y2"
    using market_loop_rows [OF 1 new_cycle_ok resolved_catalogued [OF go(2)], of "iter_market_payloads events"]
      market_loop_rows [OF 2 new_cycle_ok resolved_catalogued [OF go(2)], of "iter_market_payloads events"]
    by (auto simp: cycle_rows_ok_def)
  with same have rows: "map unswitched (wy_rows y1) = map unswitched (wy_rows y2)" by (simp add: same_cycle_def)
  show ?thesis
    using assms go 1 2 same rows
    by (cases e1) (auto simp: weather_run_once_def require_paper_trading_mode_def Let_def)
qed

text \<open>
  C37: every row the cycle writes is a paper row that was not submitted, and a would-trade row is one
  for a market of the discovered events whose question names an allowlisted city, the city of the row:
  with the forecast fetched for that city and the day of the question, the midpoint of that market's
  token inside the configured bounds, the edge recomputed from the two reaching the configured minimum
  after fees, the token of the side it names, and the refreshed kill switch clear when it was judged.
\<close>

theorem would_trade_licensed:
  assumes "weather_run_once s W ins k rows = (k', rows', r)"
  shows "\<exists>new. rows' = rows @ new \<and>
    (\<forall>row\<in>set new. pi_trading_mode row = TM_paper \<and> \<not> pi_venue_submitted row
       \<and> pi_paper_notional_usd row = (if pi_status row = WOULD_TRADE then ws_paper_notional_usd s else 0)
       \<and> (pi_status row = WOULD_TRADE \<longrightarrow> ws_trading_mode s = TM_paper
            \<and> k' = fst (refresh (wi_now ins) (wi_probe ins) (wi_kill_env ins 0) k)
            \<and> (\<exists>allowlist events. resolve_allowlist (ws_cities s) = Inr allowlist \<and> discover W = Inr events
                 \<and> licensed_row s W ins k' allowlist (iter_market_payloads events) row)))"
proof -
  from run_parts [OF assms] consider "rows' = rows"
    | allowlist events y err where "ws_trading_mode s = TM_paper" "resolve_allowlist (ws_cities s) = Inr allowlist"
      "discover W = Inr events" "k' = fst (refresh (wi_now ins) (wi_probe ins) (wi_kill_env ins 0) k)"
      "market_loop s W ins k' allowlist 0 (iter_market_payloads events) (new_weather_cycle rows) = (err, y)"
      "rows' = wy_rows y" by blast
  then show ?thesis
  proof cases
    case 2
    have "rows' = rows @ wy_intents y"
      "\<forall>row\<in>set (wy_intents y). row_ok s W ins k' allowlist (iter_market_payloads events) row"
      using market_loop_rows [OF 2(5) new_cycle_ok resolved_catalogued [OF 2(2)], of "iter_market_payloads events"] 2(6)
      by (auto simp: cycle_rows_ok_def)
    with 2(1-4) show ?thesis unfolding row_ok_def by blast
  qed simp
qed

text \<open>
  The report of a cycle adds up. Every market seen is counted once, as a would-trade, a withheld
  intent, one below the edge, or skipped; the counts are those of the rows written, by status.
\<close>

theorem weather_report_adds_up:
  assumes "weather_run_once s W ins k rows = (k', rows', Inr rep)"
  shows "rows' = rows @ wy_intents (wr_cycle rep) \<and> tallies (wr_cycle rep)
    \<and> wr_markets_seen rep = wy_would_trade (wr_cycle rep) + wy_withheld (wr_cycle rep)
        + wy_below_edge (wr_cycle rep) + wy_skipped (wr_cycle rep)"
proof -
  obtain allowlist events y where al: "resolve_allowlist (ws_cities s) = Inr allowlist" and
    l: "market_loop s W ins k' allowlist 0 (iter_market_payloads events) (new_weather_cycle rows) = (None, y)"
    and y: "rows' = wy_rows y" "wr_cycle rep = y" "wr_markets_seen rep = length (iter_market_payloads events)"
    using run_parts [OF assms] by (auto split: option.splits)
  have "wy_rows y = rows @ wy_intents y"
    using market_loop_rows [OF l new_cycle_ok resolved_catalogued [OF al], of "iter_market_payloads events"]
    by (auto simp: cycle_rows_ok_def)
  with market_loop_tallies [OF l] y show ?thesis
    by (simp add: tallies_def new_weather_cycle_def)
qed

text \<open>
  The probabilities of a full set of temperature contracts add up to one: the bucket below the
  first cut, the buckets between consecutive cuts, and the bucket from the last cut up. The error
  function is only assumed monotone with values between -1 and 1.
\<close>

lemma buckets_telescope:
  fixes erf f
  defines "F \<equiv> \<lambda>x. normal_cdf erf ((x - fp_high_f f) / fp_sigma_f f)"
  assumes "erf_like erf" "0 < fp_sigma_f f"
  shows "sorted_wrt (<) (c # cs) \<Longrightarrow>
    list_all2 (\<lambda>m ab. pm_contract m = Bucket \<and> pm_bucket_low_f m = Some (fst ab)
       \<and> pm_bucket_high_f m = Some (snd ab - 1)) buckets (zip (c # cs) cs) \<Longrightarrow>
    \<exists>ps. map (\<lambda>m. model_probability erf m f) buckets = map Inr ps \<and> sum_list ps = F (last (c # cs)) - F c"
proof (induction cs arbitrary: c buckets)
  case (Cons d cs)
  then obtain m ms where m: "buckets = m # ms" "pm_contract m = Bucket" "pm_bucket_low_f m = Some c"
    "pm_bucket_high_f m = Some (d - 1)"
    and ms: "list_all2 (\<lambda>m ab. pm_contract m = Bucket \<and> pm_bucket_low_f m = Some (fst ab)
       \<and> pm_bucket_high_f m = Some (snd ab - 1)) ms (zip (d # cs) cs)"
    by (auto simp: list_all2_Cons2)
  obtain ps where ps: "map (\<lambda>m. model_probability erf m f) ms = map Inr ps" "sum_list ps = F (last (d # cs)) - F d"
    using Cons.IH [OF _ ms] Cons.prems(1) by auto
  have "F c \<le> F d"
    unfolding F_def using Cons.prems(1) assms(3)
    by (intro normal_cdf_mono [OF assms(2)]) (simp add: divide_right_mono)
  moreover have "0 \<le> F c" "F d \<le> 1" using normal_cdf_bounds [OF assms(2)] by (auto simp: F_def)
  ultimately have "clip01 (F d - F c) = F d - F c" by (intro clip01_id) auto
  then have "model_probability erf m f = Inr (F d - F c)"
    using m assms(3) by (simp add: model_probability_def F_def Let_def)
  with m(1) ps show ?case by (intro exI [of _ "(F d - F c) # ps"]) simp
qed (simp add: assms)

theorem bucket_family_coherent:
  assumes "erf_like erf" "0 < fp_sigma_f f" "sorted_wrt (<) (c # cs)"
    and "pm_contract lo = ThresholdOrLower" "pm_threshold_f lo = Some (c - 1)"
    and "list_all2 (\<lambda>m ab. pm_contract m = Bucket \<and> pm_bucket_low_f m = Some (fst ab)
       \<and> pm_bucket_high_f m = Some (snd ab - 1)) buckets (zip (c # cs) cs)"
    and "pm_contract hi = ThresholdOrHigher" "pm_threshold_f hi = Some (last (c # cs))"
  shows "\<exists>p ps q. model_probability erf lo f = Inr p
    \<and> map (\<lambda>m. model_probability erf m f) buckets = map Inr ps
    \<and> model_probability erf hi f = Inr q \<and> p + sum_list ps + q = 1"
proof -
  let ?F = "\<lambda>x. normal_cdf erf ((x - fp_high_f f) / fp_sigma_f f)"
  obtain ps where ps: "map (\<lambda>m. model_probability erf m f) buckets = map Inr ps" "sum_list ps = ?F (last (c # cs)) - ?F c"
    using buckets_telescope [OF assms(1-3,6)] by blast
  have "0 \<le> ?F x" "?F x \<le> 1" for x using normal_cdf_bounds [OF assms(1)] by auto
  then have "model_probability erf lo f = Inr (?F c)" "model_probability erf hi f = Inr (1 - ?F (last (c # cs)))"
    using assms by (simp_all add: model_probability_def clip01_id Let_def)
  with ps show ?thesis by auto
qed


section \<open>Completion and failure of a cycle\<close>

lemma market_step_total:
  assumes "weather_settings_ok s" "\<forall>i c d f. fetch_forecast s W i c d = Inr f \<longrightarrow> 0 < fp_sigma_f f"
    and "cache_ok s W allowlist n (wy_cache y)" "wi_write_ok ins n"
    and "parse_temperature_market (wi_reader ins) p allowlist (wi_year ins) = Inr found"
  shows "\<exists>y'. market_step s W ins k allowlist n p y = (None, y')"
proof (cases found)
  case None
  with assms(4,5) show ?thesis
    by (auto simp: market_step_def Let_def file_intent_def ledger_append_def split: option.splits)
next
  case (Some m)
  have m: "contract_complete m" "\<exists>c\<in>set allowlist. ct_slug c = pm_city_slug m"
    using parse_complete(1,2) assms(5) Some by blast+
  obtain r c1 where ev: "evaluate_market s W ins k n m allowlist (wy_cache y) = (r, c1)" by fastforce
  obtain c where c: "find (\<lambda>c. ct_slug c = pm_city_slug m) allowlist = Some c"
    using m(2) by (cases "find (\<lambda>c. ct_slug c = pm_city_slug m) allowlist") (auto simp: find_None_iff)
  have "\<exists>row. r = Inr row"
  proof (cases "case map_of (wy_cache y) (ct_slug c, pm_event_date m) of Some f \<Rightarrow> Inr f
          | None \<Rightarrow> fetch_forecast s W n c (pm_event_date m)")
    case (Inl e)
    with ev c show ?thesis by (auto simp: evaluate_market_def Let_def)
  next
    case (Inr f)
    have sigma: "0 < fp_sigma_f f" using evaluate_forecast(1) [OF assms(3) c Inr] assms(2) by blast
    have "calculate_edge (wi_erf ins) m f mid (ws_fee_haircut s) \<noteq> Inl e"
      if "ws_min_mid s \<le> mid" "mid \<le> ws_max_mid s" for mid e
      using calculate_edge_total [OF sigma m(1), of mid "ws_fee_haircut s" "wi_erf ins"] assms(1) that
      by (auto simp: weather_settings_ok_def)
    with ev c Inr show ?thesis
      by (auto simp: evaluate_market_def Let_def split: sum.splits if_splits)
  qed
  then obtain row where row: "r = Inr row" by blast
  have "\<not> pi_venue_submitted row \<and> pi_trading_mode row = TM_paper" using evaluate_market_frame ev row by blast
  then have "\<exists>y1. file_intent (wi_write_ok ins n) row (y\<lparr>wy_parsed := wy_parsed y + 1, wy_cache := c1\<rparr>) = (None, y1)"
    using assms(4) by (simp add: file_intent_None)
  with assms(5) Some ev row show ?thesis by (auto simp: market_step_def Let_def)
qed

lemma market_loop_total:
  "weather_settings_ok s \<Longrightarrow> (\<forall>i c d f. fetch_forecast s W i c d = Inr f \<longrightarrow> 0 < fp_sigma_f f) \<Longrightarrow>
    cycle_rows_ok s W ins k allowlist markets rows n y \<Longrightarrow> (\<forall>i. wi_write_ok ins i) \<Longrightarrow>
    (\<forall>p\<in>set ps. \<exists>found. parse_temperature_market (wi_reader ins) p allowlist (wi_year ins) = Inr found) \<Longrightarrow>
    catalogued allowlist \<Longrightarrow> ps = drop n markets \<Longrightarrow> \<exists>y'. market_loop s W ins k allowlist n ps y = (None, y')"
proof (induction ps arbitrary: n y)
  case (Cons p ps)
  obtain found where found: "parse_temperature_market (wi_reader ins) p allowlist (wi_year ins) = Inr found"
    using Cons.prems(5) by auto
  note d = drop_head [OF Cons.prems(7)]
  have cache: "cache_ok s W allowlist n (wy_cache y)" using Cons.prems(3) by (simp add: cycle_rows_ok_def)
  from market_step_total [OF Cons.prems(1,2) cache _ found] Cons.prems(4)
  obtain y1 where 1: "market_step s W ins k allowlist n p y = (None, y1)" by blast
  have "\<exists>y'. market_loop s W ins k allowlist (Suc n) ps y1 = (None, y')"
    using Cons.IH [OF Cons.prems(1,2) market_step_rows [OF Cons.prems(3) 1 Cons.prems(6)] Cons.prems(4)]
      Cons.prems(5,6) d by simp
  with 1 show ?case by simp
qed simp

lemma market_loop_stops:
  "p \<in> set ps \<Longrightarrow> parse_temperature_market (wi_reader ins) p allowlist (wi_year ins) = Inl e \<Longrightarrow>
    \<exists>err y'. market_loop s W ins k allowlist n ps y = (Some err, y')"
proof (induction ps arbitrary: n y)
  case (Cons q ps)
  obtain e1 y1 where 1: "market_step s W ins k allowlist n q y = (e1, y1)" by fastforce
  show ?case
  proof (cases e1)
    case None
    have "q \<noteq> p" using 1 None Cons.prems(2) by (auto simp: market_step_def)
    with Cons 1 None show ?thesis by simp
  qed (use 1 in simp)
qed simp

text \<open>
  With settings in their documented ranges, a paper mode, a known allowlist, answered events and a
  writable ledger, a cycle ends with a report whatever the forecasts and midpoints answer or raise,
  unless the text of some question raises while it is parsed.
\<close>

theorem weather_cycle_completes:
  assumes "ws_trading_mode s = TM_paper" "weather_settings_ok s"
    and "resolve_allowlist (ws_cities s) = Inr allowlist" "discover W = Inr events"
    and "\<forall>i c d f. fetch_forecast s W i c d = Inr f \<longrightarrow> 0 < fp_sigma_f f" "\<forall>i. wi_write_ok ins i"
    and "\<forall>p\<in>set (iter_market_payloads events). \<exists>found.
           parse_temperature_market (wi_reader ins) p allowlist (wi_year ins) = Inr found"
  shows "\<exists>k' rows' rep. weather_run_once s W ins k rows = (k', rows', Inr rep)"
proof -
  obtain y where "market_loop s W ins (fst (refresh (wi_now ins) (wi_probe ins) (wi_kill_env ins 0) k)) allowlist 0
      (iter_market_payloads events) (new_weather_cycle rows) = (None, y)"
    using market_loop_total [OF assms(2,5) new_cycle_ok assms(6,7) resolved_catalogued [OF assms(3)]] by fastforce
  with assms show ?thesis by (simp add: weather_run_once_def require_paper_trading_mode_def Let_def)
qed

text \<open>
  One question whose text has the form of an ISO date but is no date stops the whole cycle: the
  \<open>ValueError\<close> of \<open>date(...)\<close> is not caught, no report is returned and the later markets are not
  evaluated.
\<close>

theorem malformed_date_stops_cycle:
  assumes "resolve_allowlist (ws_cities s) = Inr allowlist" "discover W = Inr events"
    and "p \<in> set (iter_market_payloads events)"
    and "parse_temperature_market (wi_reader ins) p allowlist (wi_year ins) = Inl e"
  shows "\<exists>k' rows' err. weather_run_once s W ins k rows = (k', rows', Inl err)"
proof (cases "ws_trading_mode s = TM_paper")
  case True
  obtain err y where "market_loop s W ins (fst (refresh (wi_now ins) (wi_probe ins) (wi_kill_env ins 0) k)) allowlist 0
      (iter_market_payloads events) (new_weather_cycle rows) = (Some err, y)"
    using market_loop_stops [OF assms(3,4)] by blast
  with True assms(1,2) show ?thesis by (simp add: weather_run_once_def require_paper_trading_mode_def Let_def)
next
  case False
  then show ?thesis by (simp add: weather_run_once_def require_paper_trading_mode_def)
qed

section \<open>Witnesses\<close>

text \<open>A cycle over one market: a bucket for Miami, judged worth a paper trade.\<close>

definition ex_question :: string where
  "ex_question = ''70-71F Miami 2026-07-04''"

definition ex_miami :: city where
  "ex_miami = warm_cities ! 2"

lemma ex_not_lowest: "search_re lowest_re ex_question = None"
  by code_simp

lemma ex_bucket: "search_re bucket_re ex_question = Some [(''unit'', ''F''), (''high'', ''71''), (''low'', ''70'')]"
  by code_simp

lemma ex_iso: "search_re iso_date_re ex_question = Some [(''d'', ''04''), (''m'', ''07''), (''y'', ''2026'')]"
  by code_simp

lemma ex_question_city: "match_city ex_question [ex_miami] = Some ex_miami"
  by code_simp

lemma ex_question_text: "one_spaced ex_question = ex_question" "strip ex_question \<noteq> []" "ex_question \<noteq> []"
  by (simp_all add: ex_question_def one_spaced_def is_space_def strip_def)

lemmas ex_question_read = ex_not_lowest ex_bucket ex_iso ex_question_city ex_question_text

lemma ex_allowlist: "resolve_allowlist ''miami'' = Inr [ex_miami]"
  by code_simp

lemma ex_vals: "digits_value ''04'' = 4" "digits_value ''07'' = 7" "digits_value ''2026'' = 2026" "lower ''F'' = ''f''" "ct_slug ex_miami = ''miami''" "ct_name ex_miami = ''Miami''"
  by code_simp+

lemma ex_dec: "decimal_value ''70'' = 70" "decimal_value ''71'' = 71"
  by (simp_all add: decimal_value_def digits_value_def)

lemma ex_date: "parse_event_date ex_question y = Inr (Some (2026, 7, 4))"
  by (simp add: parse_event_date_def ex_question_read group_text_def dict_get_or_def ex_vals make_date_def days_in_month_def)

definition ex_payload :: "(string \<times> json) list" where
  "ex_payload = [(''question'', JStr ex_question), (''clobTokenIds'', JList [JStr ''y'', JStr ''n''])]"

definition ex_reader :: payload_reader where
  "ex_reader = \<lparr>rd_json_loads = (\<lambda>_. None), rd_str = (\<lambda>_. []), rd_fromisoformat = (\<lambda>_. None)\<rparr>"

definition ex_market :: parsed_market where
  "ex_market = \<lparr>pm_market_id = ''y'', pm_question = ex_question, pm_city_slug = ''miami'', pm_city_name = ''Miami'',
     pm_event_date = (2026, 7, 4), pm_contract = Bucket, pm_threshold_f = None,
     pm_bucket_low_f = Some 70, pm_bucket_high_f = Some 71, pm_yes_token_id = ''y'', pm_no_token_id = ''n'',
     pm_end_at = None, pm_condition_id = []\<rparr>"

lemma ex_parsed: "parse_temperature_market ex_reader (JObj ex_payload) [ex_miami] y = Inr (Some ex_market)"
  by (simp add: parse_temperature_market_def ex_payload_def tradable_payload_def json_get_def dict_get_or_def json_or_def
    ex_question_read ex_date market_of_def json_list_def py_str_def contract_of_def threshold_of_def group_text_def
    ex_vals ex_dec as_fahrenheit_def parse_datetime_def ex_market_def Let_def)

definition ex_weather_settings :: weather_settings where
  "ex_weather_settings = \<lparr>ws_trading_mode = TM_paper, ws_cities = ''miami'', ws_noaa = False,
     ws_sigma_f = 2, ws_min_edge = 1 / 20, ws_min_mid = 1 / 50, ws_max_mid = 49 / 50,
     ws_fee_haircut = 1 / 50, ws_paper_notional_usd = 10\<rparr>"

definition ex_forecast :: forecast_point where
  "ex_forecast = \<lparr>fp_city_slug = ''miami'', fp_event_date = (2026, 7, 4), fp_high_f = 71,
     fp_source = ''open_meteo'', fp_issued_at = 0, fp_sigma_f = 2, fp_model = ''best_match''\<rparr>"

definition ex_weather_clients :: weather_clients where
  "ex_weather_clients = \<lparr>wc_fixtures = Some \<lparr>wf_events = [ex_payload], wf_mids = [(''y'', 1 / 2)],
     wf_forecasts = [((''miami'', (2026, 7, 4)), ex_forecast)]\<rparr>,
     wc_gamma = None, wc_clob = None, wc_open_meteo = None, wc_noaa = None\<rparr>"

definition ex_weather_inputs :: weather_inputs where
  "ex_weather_inputs = \<lparr>wi_reader = ex_reader, wi_erf = (\<lambda>x. if x < 0 then -1 else 1), wi_year = 2026,
     wi_now = 0, wi_probe = ProbeReturned RNone,
     wi_kill_env = (\<lambda>_. \<lparr>env_files = [], env_signal_engaged = False\<rparr>), wi_write_ok = (\<lambda>_. True)\<rparr>"

definition ex_kill_switch :: kill_switch where
  "ex_kill_switch = \<lparr>ks_settings_flag = False, ks_sentinel_path = None, ks_redis_key = None,
     ks_redis_client = False, ks_redis_engaged = False, ks_redis_error = None, ks_last_refreshed_at = Some 0\<rparr>"

definition ex_edge :: edge_calculation where
  "ex_edge = \<lparr>ed_model_probability = 1, ed_market_mid = 1 / 2, ed_raw_edge = 1 / 2,
     ed_net_edge = 12 / 25, ed_side = YES, ed_fee_haircut = 1 / 50\<rparr>"

definition ex_row :: paper_intent where
  "ex_row = judge_edge ex_weather_settings \<lparr>env_files = [], env_signal_engaged = False\<rparr> ex_kill_switch
     ex_market ex_forecast ex_edge"

lemma ex_markets: "iter_market_payloads [ex_payload] = [JObj ex_payload]"
  by (simp add: iter_market_payloads_def event_markets_def ex_payload_def json_get_def dict_get_or_def)

lemma ex_edge_calculated: "calculate_edge (\<lambda>x. if x < 0 then -1 else 1) ex_market ex_forecast (1 / 2) (1 / 50) = Inr ex_edge"
  by (simp add: calculate_edge_def model_probability_def ex_market_def ex_forecast_def normal_cdf_def clip01_def
      ex_edge_def Let_def divide_less_0_iff)

lemma ex_row_status: "pi_status ex_row = WOULD_TRADE" "pi_venue_submitted ex_row = False" "pi_trading_mode ex_row = TM_paper"
  by (simp_all add: ex_row_def judge_edge_def Let_def ex_edge_def ex_weather_settings_def engaged_def
      ex_kill_switch_def file_engaged_def)

lemma ex_row_city: "pi_city_slug ex_row = Some ''miami''"
  by (simp add: ex_row_def judge_edge_def edge_intent_def market_intent_def ex_market_def Let_def)

lemma ex_weather_run:
  "\<exists>rep. weather_run_once ex_weather_settings ex_weather_clients ex_weather_inputs ex_kill_switch [] =
     (ex_kill_switch, [ex_row], Inr rep)"
proof -
  have r: "refresh 0 (ProbeReturned RNone) e ex_kill_switch = (ex_kill_switch, engaged e ex_kill_switch)" for e
    by (simp add: refresh_def ex_kill_switch_def Let_def)
  have ev: "evaluate_market ex_weather_settings ex_weather_clients ex_weather_inputs ex_kill_switch 0 ex_market [ex_miami] [] =
      (Inr ex_row, [((''miami'', (2026, 7, 4)), ex_forecast)])"
    using ex_edge_calculated
    by (simp add: evaluate_market_def ex_vals fetch_forecast_def midpoint_def ex_weather_clients_def
        ex_weather_settings_def ex_weather_inputs_def ex_row_def Let_def) (simp add: ex_market_def)
  have "ws_cities ex_weather_settings = ''miami''" "discover ex_weather_clients = Inr [ex_payload]"
    "wi_now ex_weather_inputs = 0" "wi_probe ex_weather_inputs = ProbeReturned RNone"
    "wi_reader ex_weather_inputs = ex_reader" "ws_trading_mode ex_weather_settings = TM_paper" "\<And>i. wi_write_ok ex_weather_inputs i"
    by (simp_all add: ex_weather_settings_def ex_weather_clients_def discover_def ex_weather_inputs_def)
  with r ev ex_row_status show ?thesis
    by (simp add: weather_run_once_def require_paper_trading_mode_def ex_allowlist ex_markets Let_def
        market_step_def ex_parsed new_weather_cycle_def file_intent_def ledger_append_def)
qed


lemma ex_settings_ok: "weather_settings_ok ex_weather_settings"
  by (simp add: weather_settings_ok_def ex_weather_settings_def)

lemma ex_discover: "discover ex_weather_clients = Inr [ex_payload]"
  by (simp add: discover_def ex_weather_clients_def)

lemma ex_cities: "resolve_allowlist (ws_cities ex_weather_settings) = Inr [ex_miami]"
  by (simp add: ex_weather_settings_def ex_allowlist)

theorem would_trade_licensed_witness:
  "pi_status ex_row = WOULD_TRADE \<and> pi_city_slug ex_row = Some ''miami''
   \<and> licensed_row ex_weather_settings ex_weather_clients ex_weather_inputs ex_kill_switch [ex_miami] [JObj ex_payload] ex_row"
proof -
  obtain rep where "weather_run_once ex_weather_settings ex_weather_clients ex_weather_inputs ex_kill_switch [] =
     (ex_kill_switch, [ex_row], Inr rep)" using ex_weather_run by blast
  from would_trade_licensed [OF this] show ?thesis
    by (simp add: ex_row_status ex_row_city ex_cities ex_discover ex_markets)
qed

theorem weather_report_adds_up_witness:
  "\<exists>rep :: weather_report. [ex_row] = wy_intents (wr_cycle rep) \<and> tallies (wr_cycle rep)"
proof -
  obtain rep where "weather_run_once ex_weather_settings ex_weather_clients ex_weather_inputs ex_kill_switch [] =
     (ex_kill_switch, [ex_row], Inr rep)" using ex_weather_run by blast
  from weather_report_adds_up [OF this] show ?thesis by (intro exI [of _ rep]) simp
qed

theorem kill_switch_only_withholds_witness:
  "map unswitched [ex_row] = map unswitched (fst (snd (weather_run_once ex_weather_settings ex_weather_clients
     (ex_weather_inputs\<lparr>wi_kill_env := \<lambda>_. \<lparr>env_files = [], env_signal_engaged = True\<rparr>,
        wi_probe := ProbeRaised ''down''\<rparr>) ex_kill_switch [])))"
proof -
  let ?run = "weather_run_once ex_weather_settings ex_weather_clients
     (ex_weather_inputs\<lparr>wi_kill_env := \<lambda>_. \<lparr>env_files = [], env_signal_engaged = True\<rparr>,
        wi_probe := ProbeRaised ''down''\<rparr>) ex_kill_switch []"
  obtain rep where 1: "weather_run_once ex_weather_settings ex_weather_clients ex_weather_inputs ex_kill_switch [] =
     (ex_kill_switch, [ex_row], Inr rep)" using ex_weather_run by blast
  have "?run = (fst ?run, fst (snd ?run), snd (snd ?run))" by simp
  from kill_switch_only_withholds [OF 1 this] show ?thesis by blast
qed

theorem weather_cycle_completes_witness:
  "\<exists>k' rows' rep. weather_run_once ex_weather_settings ex_weather_clients ex_weather_inputs ex_kill_switch [ex_row] =
     (k', rows', Inr rep)"
proof (rule weather_cycle_completes [OF _ ex_settings_ok ex_cities ex_discover])
  show "\<forall>i c d f. fetch_forecast ex_weather_settings ex_weather_clients i c d = Inr f \<longrightarrow> 0 < fp_sigma_f f"
    by (auto simp: fetch_forecast_def ex_weather_clients_def ex_forecast_def split: if_splits)
qed (simp_all add: ex_weather_settings_def ex_weather_inputs_def ex_markets ex_parsed)

text \<open>The same question on the fourth day of a thirteenth month.\<close>

definition ex_bad_question :: string where
  "ex_bad_question = ''70-71F Miami 2026-13-04''"

lemma ex_bad_not_lowest: "search_re lowest_re ex_bad_question = None"
  by code_simp

lemma ex_bad_iso: "search_re iso_date_re ex_bad_question = Some [(''d'', ''04''), (''m'', ''13''), (''y'', ''2026'')]"
  by code_simp

lemma ex_bad_city: "match_city ex_bad_question [ex_miami] = Some ex_miami"
  by code_simp

lemma ex_bad_text: "one_spaced ex_bad_question = ex_bad_question" "strip ex_bad_question \<noteq> []" "ex_bad_question \<noteq> []"
  by (simp_all add: ex_bad_question_def one_spaced_def is_space_def strip_def)

lemma ex_bad_parsed:
  "parse_temperature_market ex_reader (JObj [(''question'', JStr ex_bad_question)]) [ex_miami] y = Inl ValueError"
proof -
  have "digits_value ''13'' = 13" by (simp add: digits_value_def)
  then have "parse_event_date ex_bad_question y = Inl ValueError"
    by (simp add: parse_event_date_def ex_bad_iso group_text_def dict_get_or_def ex_vals make_date_def)
  then show ?thesis
    by (simp add: parse_temperature_market_def tradable_payload_def json_get_def dict_get_or_def json_or_def
        ex_bad_not_lowest ex_bad_city ex_bad_text Let_def)
qed

definition ex_bad_clients :: weather_clients where
  "ex_bad_clients = ex_weather_clients\<lparr>wc_fixtures := Some \<lparr>wf_events =
     [[(''question'', JStr ex_bad_question)], ex_payload], wf_mids = [], wf_forecasts = []\<rparr>\<rparr>"

theorem malformed_date_stops_cycle_witness:
  "\<exists>k' rows' err. weather_run_once ex_weather_settings ex_bad_clients ex_weather_inputs ex_kill_switch [] =
     (k', rows', Inl err)"
proof (rule malformed_date_stops_cycle [OF ex_cities])
  show "discover ex_bad_clients = Inr [[(''question'', JStr ex_bad_question)], ex_payload]"
    by (simp add: discover_def ex_bad_clients_def)
  show "JObj [(''question'', JStr ex_bad_question)]
      \<in> set (iter_market_payloads [[(''question'', JStr ex_bad_question)], ex_payload])"
    by (simp add: iter_market_payloads_def event_markets_def json_get_def dict_get_or_def)
  show "parse_temperature_market (wi_reader ex_weather_inputs) (JObj [(''question'', JStr ex_bad_question)]) [ex_miami]
      (wi_year ex_weather_inputs) = Inl ValueError"
    by (simp add: ex_weather_inputs_def ex_bad_parsed)
qed

theorem bucket_family_coherent_witness:
  "\<exists>p ps q. model_probability (\<lambda>x. if x < 0 then -1 else 1)
       (ex_market\<lparr>pm_contract := ThresholdOrLower, pm_threshold_f := Some 69\<rparr>) ex_forecast = Inr p
    \<and> map (\<lambda>m. model_probability (\<lambda>x. if x < 0 then -1 else 1) m ex_forecast) [ex_market] = map Inr ps
    \<and> model_probability (\<lambda>x. if x < 0 then -1 else 1)
       (ex_market\<lparr>pm_contract := ThresholdOrHigher, pm_threshold_f := Some 72\<rparr>) ex_forecast = Inr q
    \<and> p + sum_list ps + q = 1"
  by (rule bucket_family_coherent [where c = 70 and cs = "[72]"])
     (auto simp: erf_like_def monotone_on_def ex_forecast_def ex_market_def)

end
