(* ===== verification/Universe.thy ===== *)
theory Universe
  imports Candles Py_Values "HOL-Library.Product_Lexorder"
begin

text \<open>
  The point-in-time research universe (\<open>research/universe.py\<close>): the reduction of a venue's pair
  listing to typed rows, and the monthly membership by trailing median dollar volume. A history
  table is a dict from any key to the candles of one market; a series is a dict from bar times to
  values. What a raise reports besides its type is left out.
\<close>

section \<open>The listing\<close>

datatype listing_error = ListingTypeError | ListingValueError | ListingRuntimeError

definition universe_quotes :: "string list" where
  "universe_quotes = [''ZUSD'', ''USD'']"

definition base_aliases :: "(string \<times> string) list" where
  "base_aliases = [(''XBT'', ''BTC''), (''XDG'', ''DOGE'')]"

definition excluded_bases :: "string list" where
  "excluded_bases =
     [''DAI'', ''MIM'', ''EURC'', ''EURQ'', ''EUROP'', ''EURT'', ''TUSD'', ''FDUSD'', ''GHO'', ''USTABLES'',
      ''EUR'', ''GBP'', ''AUD'', ''CAD'', ''JPY'', ''CHF'', ''MXNB'', ''BRL1'', ''QCAD'', ''TGBP'', ''AUDX'',
      ''PAXG'', ''XAUT'', ''XU3O8'',
      ''WBTC'', ''TBTC'', ''CBBTC'', ''LBTC'', ''WETH'', ''WSTETH'', ''STETH'', ''CBETH'', ''RETH'', ''MSOL'',
      ''JITOSOL'', ''LSSOL'', ''LSETH'', ''METH'', ''CMETH'']"

record universe_pair =
  up_pair_key :: string
  up_altname :: string
  up_wsname :: string
  up_base :: string
  up_canonical :: string

definition canonical_symbol :: "string \<Rightarrow> py_error + string" where
  "canonical_symbol base =
     (let txt = upper (strip base)
      in if txt = [] then Inl ValueError else Inr (dict_get_or base_aliases txt txt @ ''/USD''))"

text \<open>The part after the first separator, as \<open>str.partition\<close> gives it.\<close>

definition after :: "char \<Rightarrow> string \<Rightarrow> string" where
  "after sep s = tl (dropWhile (\<lambda>c. c \<noteq> sep) s)"

fun usd_suffix :: "string list \<Rightarrow> string \<Rightarrow> (string \<times> string) option" where
  "usd_suffix [] txt = None"
| "usd_suffix (suffix # rest) txt =
     (if endswith txt suffix \<and> length suffix < length txt
      then Some (take (length txt - length suffix) txt, suffix)
      else usd_suffix rest txt)"

definition canonical_from_symbol :: "string \<Rightarrow> py_error + string" where
  "canonical_from_symbol symbol =
     (let txt = replace_char (CHR ''-'') (CHR ''/'') (upper (strip symbol))
      in bindr (if CHR ''/'' \<in> set txt then Inr (before (CHR ''/'') txt, after (CHR ''/'') txt)
                else (case usd_suffix [''USDT'', ''USDC'', ''USD''] txt of
                        None \<Rightarrow> Inl ValueError | Some p \<Rightarrow> Inr p))
           (\<lambda>(base, quote).
              if quote \<notin> {''USD'', ''USDT'', ''USDC'', ''ZUSD''} then Inl ValueError
              else canonical_symbol base))"

definition is_excluded_base :: "string \<Rightarrow> bool" where
  "is_excluded_base base =
     (let txt = upper (strip base)
      in txt \<in> set excluded_bases \<or> startswith txt ''USD'' \<or> endswith txt ''USD'')"

definition field_text :: "(string \<times> json) list \<Rightarrow> string \<Rightarrow> listing_error + string" where
  "field_text row key = (case map_of row key of Some (JStr t) \<Rightarrow> Inr t | _ \<Rightarrow> Inl ListingTypeError)"

text \<open>One row of the listing: \<open>Inr None\<close> when it is left out.\<close>

definition listing_row :: "string \<Rightarrow> json \<Rightarrow> listing_error + universe_pair option" where
  "listing_row key value =
     (case value of
        JObj row \<Rightarrow>
          (if endswith key ''.d'' then Inr None
           else
             (let status = dict_get_or row ''status'' JNull
              in if (case status of JNull \<Rightarrow> False | JStr _ \<Rightarrow> False | _ \<Rightarrow> True) then Inl ListingTypeError
                 else if status \<noteq> JStr ''online'' then Inr None
                 else bindr (field_text row ''quote'') (\<lambda>quote.
                   if quote \<notin> set universe_quotes then Inr None
                   else (case dict_get_or row ''wsname'' JNull of
                       JNull \<Rightarrow> Inr None
                     | JStr wsname \<Rightarrow>
                         (if CHR ''/'' \<notin> set wsname then Inl ListingTypeError
                          else bindr (field_text row ''altname'') (\<lambda>altname.
                            let base = upper (strip (before (CHR ''/'') wsname))
                            in if base = [] then Inl ListingValueError
                               else if is_excluded_base base then Inr None
                               else (case canonical_symbol base of
                                   Inl _ \<Rightarrow> Inl ListingValueError
                                 | Inr canonical \<Rightarrow>
                                     Inr (Some \<lparr>up_pair_key = key, up_altname = altname, up_wsname = wsname,
                                                up_base = base, up_canonical = canonical\<rparr>))))
                     | _ \<Rightarrow> Inl ListingTypeError))))
      | _ \<Rightarrow> Inl ListingTypeError)"

fun listing_rows :: "string list \<Rightarrow> (string \<times> json) list \<Rightarrow> listing_error + universe_pair list" where
  "listing_rows seen [] = Inr []"
| "listing_rows seen ((key, value) # rows) =
     bindr (listing_row key value) (\<lambda>r.
       case r of
         None \<Rightarrow> listing_rows seen rows
       | Some p \<Rightarrow>
           if up_canonical p \<in> set seen then listing_rows seen rows
           else bindr (listing_rows (up_canonical p # seen) rows) (\<lambda>ps. Inr (p # ps)))"

definition parse_asset_pairs :: "json \<Rightarrow> listing_error + universe_pair list" where
  "parse_asset_pairs payload =
     (case payload of
        JObj body \<Rightarrow>
          (if json_truthy (dict_get_or body ''error'' JNull) then Inl ListingRuntimeError
           else (case map_of body ''result'' of
               Some (JObj rows) \<Rightarrow> bindr (listing_rows [] rows) (\<lambda>ps. Inr (sort_key up_canonical ps))
             | _ \<Rightarrow> Inl ListingTypeError))
      | _ \<Rightarrow> Inl ListingTypeError)"

section \<open>Series and histories\<close>

type_synonym series = "(datetime \<times> real) list"
type_synonym histories = "(string \<times> candle list) list"

text \<open>A dict comprehension over pairs: a later pair overwrites an earlier one of the same key.\<close>

definition assoc_of :: "('k \<times> 'v) list \<Rightarrow> ('k \<times> 'v) list" where
  "assoc_of kvs = foldl (\<lambda>d kv. AList.update (fst kv) (snd kv) d) [] kvs"

definition series_of :: "(candle \<Rightarrow> real) \<Rightarrow> candle list \<Rightarrow> series" where
  "series_of f cs = assoc_of (map (\<lambda>c. (c_opened_at c, f c)) cs)"

definition dollar_volume_series :: "candle list \<Rightarrow> series" where
  "dollar_volume_series cs = series_of (\<lambda>c. c_close c * c_volume c) cs"

text \<open>One round of the loop: a history of another interval or without a dollar quote is dropped.\<close>

definition add_history :: "string \<Rightarrow> histories \<Rightarrow> candle list \<Rightarrow> histories" where
  "add_history interval out cs =
     (if cs = [] \<or> c_interval (hd cs) \<noteq> interval then out
      else (case canonical_from_symbol (c_symbol (hd cs)) of
          Inl _ \<Rightarrow> out
        | Inr canonical \<Rightarrow>
            (let ordered = sort_key c_opened_at cs
             in case map_of out canonical of
                  None \<Rightarrow> AList.update canonical ordered out
                | Some existing \<Rightarrow>
                    if length existing < length ordered then AList.update canonical ordered out else out)))"

definition histories_by_canonical :: "string \<Rightarrow> histories \<Rightarrow> histories" where
  "histories_by_canonical interval hs = foldl (add_history interval) [] (map snd hs)"

section \<open>Monthly membership\<close>

record universe_snapshot =
  us_snapshot_at :: datetime
  us_names :: "string list"
  us_median_dollar_volume :: "(string \<times> real) list"
  us_candidates_considered :: nat
  us_candidates_skipped :: nat

text \<open>
  The months from the one of \<open>first\<close> on. \<open>datetime(...)\<close> raises beyond the year 9999, so the
  loop ends even without the test against \<open>last\<close>.
\<close>

function month_starts_from :: "int \<Rightarrow> int \<Rightarrow> int \<Rightarrow> datetime \<Rightarrow> datetime \<Rightarrow> py_error + datetime list" where
  "month_starts_from year month snapshot_day first final =
     bindr (make_datetime year month snapshot_day) (\<lambda>candidate.
       if final < candidate then Inr []
       else bindr (if month = 12 then month_starts_from (year + 1) 1 snapshot_day first final
                   else month_starts_from year (month + 1) snapshot_day first final)
              (\<lambda>rest. Inr (if first < candidate then candidate # rest else rest)))"
  by auto
termination
proof (relation "measure (\<lambda>(year, month, _). nat (120001 - (12 * year + month)))", goal_cases)
  case (2 year month snapshot_day first final x)
  then have "1 \<le> month \<and> month \<le> 12 \<and> year \<le> 9999"
    by (auto simp: make_datetime_def make_date_def split: if_splits)
  with 2 show ?case by simp
next
  case (3 year month snapshot_day first final x)
  then have "1 \<le> month \<and> month \<le> 12 \<and> year \<le> 9999"
    by (auto simp: make_datetime_def make_date_def split: if_splits)
  with 3 show ?case by simp
qed simp

declare month_starts_from.simps [simp del]

definition month_starts :: "datetime \<Rightarrow> datetime \<Rightarrow> int \<Rightarrow> py_error + datetime list" where
  "month_starts first final snapshot_day =
     month_starts_from (year_of first) (month_of first) snapshot_day first final"

text \<open>\<open>statistics.median\<close> of a non-empty sequence.\<close>

definition median :: "real list \<Rightarrow> real" where
  "median xs =
     (let data = sort xs; n = length data
      in if odd n then data ! (n div 2) else (data ! (n div 2 - 1) + data ! (n div 2)) / 2)"

definition window_values :: "datetime \<Rightarrow> datetime \<Rightarrow> series \<Rightarrow> real list" where
  "window_values lo hi sr = map snd (filter (\<lambda>(ts, _). lo \<le> ts \<and> ts < hi) sr)"

text \<open>The rank of a name, \<open>None\<close> when it is skipped.\<close>

definition liquidity_rank :: "int \<Rightarrow> datetime \<Rightarrow> series \<Rightarrow> real option" where
  "liquidity_rank lookback moment sr =
     (let vals = window_values (moment - days_delta lookback) moment sr
      in if int (length vals) < lookback then None
         else if median vals \<le> 0 then None else Some (median vals))"

definition ranked_names :: "int \<Rightarrow> datetime \<Rightarrow> (string \<times> series) list \<Rightarrow> (real \<times> string) list" where
  "ranked_names lookback moment volumes =
     sort_key (\<lambda>(med, name). (- med, name))
       (concat (map (\<lambda>(name, sr). case liquidity_rank lookback moment sr of None \<Rightarrow> [] | Some med \<Rightarrow> [(med, name)])
          volumes))"

definition snapshot_on :: "int \<Rightarrow> int \<Rightarrow> (string \<times> series) list \<Rightarrow> datetime \<Rightarrow> universe_snapshot option" where
  "snapshot_on lookback top_n volumes moment =
     (let ranked = ranked_names lookback moment volumes;
          chosen = take (nat top_n) ranked
      in if ranked = [] then None
         else Some \<lparr>us_snapshot_at = moment, us_names = map snd chosen,
                    us_median_dollar_volume = assoc_of (map (\<lambda>(med, name). (name, med)) chosen),
                    us_candidates_considered = length volumes,
                    us_candidates_skipped = length volumes - length ranked\<rparr>)"

definition liquidity_snapshots ::
  "int \<Rightarrow> int \<Rightarrow> int \<Rightarrow> histories \<Rightarrow> py_error + universe_snapshot list" where
  "liquidity_snapshots snapshot_day lookback top_n hs =
     (if lookback \<le> 0 \<or> top_n \<le> 0 then Inl ValueError
      else
        (let by_name = histories_by_canonical ''1d'' hs;
             volumes = map (\<lambda>(name, cs). (name, dollar_volume_series cs)) by_name;
             firsts = map (\<lambda>(_, cs). c_opened_at (hd cs)) by_name;
             finals = map (\<lambda>(_, cs). c_opened_at (last cs)) by_name
         in if by_name = [] then Inr []
            else bindr (month_starts (fold min (tl firsts) (hd firsts)) (fold max (tl finals) (hd finals)) snapshot_day)
                   (\<lambda>days. Inr (List.map_filter (snapshot_on lookback top_n volumes) days))))"

definition default_snapshots :: "histories \<Rightarrow> py_error + universe_snapshot list" where
  "default_snapshots = liquidity_snapshots 1 30 20"

text \<open>The loop breaks at the first snapshot after \<open>at\<close>.\<close>

definition snapshot_for :: "universe_snapshot list \<Rightarrow> datetime \<Rightarrow> universe_snapshot option" where
  "snapshot_for snapshots moment =
     (case rev (takeWhile (\<lambda>s. us_snapshot_at s \<le> moment) snapshots) of [] \<Rightarrow> None | s # _ \<Rightarrow> Some s)"

definition bars_through :: "series \<Rightarrow> datetime \<Rightarrow> nat" where
  "bars_through sr moment = length (filter (\<lambda>(ts, _). ts \<le> moment) sr)"

definition eligible_names ::
  "universe_snapshot \<Rightarrow> (string \<times> series) list \<Rightarrow> datetime \<Rightarrow> int \<Rightarrow> string list" where
  "eligible_names snapshot closes moment min_bars =
     filter (\<lambda>name. case map_of closes name of
                None \<Rightarrow> False
              | Some sr \<Rightarrow> sr \<noteq> [] \<and> min_bars \<le> int (bars_through sr moment)) (us_names snapshot)"

section \<open>Lemmas on series\<close>

abbreviation keep :: "('k \<Rightarrow> bool) \<Rightarrow> ('k \<times> 'v) list \<Rightarrow> ('k \<times> 'v) list" where
  "keep P d \<equiv> filter (\<lambda>(k, _). P k) d"

lemma keep_update: "keep P (AList.update k v d) = (if P k then AList.update k v (keep P d) else keep P d)"
  by (induction d) auto

lemma keep_foldl_update:
  "keep P (foldl (\<lambda>d kv. AList.update (fst kv) (snd kv) d) d kvs)
   = foldl (\<lambda>d kv. AList.update (fst kv) (snd kv) d) (keep P d) (keep P kvs)"
  by (induction kvs arbitrary: d) (auto simp: keep_update)

lemma keep_assoc_of: "keep P (assoc_of kvs) = assoc_of (keep P kvs)"
  by (simp add: assoc_of_def keep_foldl_update)

lemma keep_series_of: "keep P (series_of f cs) = series_of f (filter (\<lambda>c. P (c_opened_at c)) cs)"
  by (simp add: series_of_def keep_assoc_of filter_map comp_def)

lemma map_of_keep: "map_of (keep P d) k = (if P k then map_of d k else None)"
  by (induction d) auto

lemma keep_cong: "keep P d = keep P d' \<Longrightarrow> P k \<Longrightarrow> map_of d k = map_of d' k"
  by (metis map_of_keep)

lemma distinct_assoc_of: "distinct (map fst (assoc_of kvs))"
proof -
  have "distinct (map fst d) \<Longrightarrow> distinct (map fst (foldl (\<lambda>d kv. AList.update (fst kv) (snd kv) d) d kvs))" for d
    by (induction kvs arbitrary: d) (auto simp: distinct_update)
  then show ?thesis by (simp add: assoc_of_def)
qed

lemma assoc_of_set: "set (assoc_of kvs) \<subseteq> set kvs"
proof -
  have "set (foldl (\<lambda>d kv. AList.update (fst kv) (snd kv) d) d kvs) \<subseteq> set d \<union> set kvs" for d
  proof (induction kvs arbitrary: d)
    case (Cons kv kvs)
    have "set (AList.update (fst kv) (snd kv) d) \<subseteq> insert kv (set d)" by (induction d) auto
    with Cons [of "AList.update (fst kv) (snd kv) d"] show ?case by auto
  qed simp
  from this [of "[]"] show ?thesis by (simp add: assoc_of_def)
qed

lemma assoc_of_keys [simp]: "fst ` set (assoc_of kvs) = fst ` set kvs"
proof -
  have "fst ` set (foldl (\<lambda>d kv. AList.update (fst kv) (snd kv) d) d kvs) = fst ` (set d \<union> set kvs)" for d
    by (induction kvs arbitrary: d) (auto simp: dom_update image_Un)
  then show ?thesis by (simp add: assoc_of_def)
qed

lemma assoc_of_Nil_iff [simp]: "assoc_of kvs = [] \<longleftrightarrow> kvs = []"
  by (metis assoc_of_keys image_is_empty set_empty)

lemma series_of_keys [simp]: "fst ` set (series_of f cs) = c_opened_at ` set cs"
  by (simp add: series_of_def image_image)

lemma series_of_Nil_iff [simp]: "series_of f cs = [] \<longleftrightarrow> cs = []"
  by (simp add: series_of_def)

lemma in_keys: "(a, b) \<in> set d \<Longrightarrow> a \<in> fst ` set d"
  by force

section \<open>Lemmas on months\<close>

lemma midnight_next_month:
  assumes "make_datetime y m d = Inr t"
  shows "t = midnight y m d"
    and "t < (if m = 12 then midnight (y + 1) 1 d else midnight y (m + 1) d)"
proof -
  from assms have m: "1 \<le> m" "m \<le> 12" and t: "t = midnight y m d"
    by (auto simp: make_datetime_def make_date_def split: if_splits)
  show "t = midnight y m d" by (rule t)
  show "t < (if m = 12 then midnight (y + 1) 1 d else midnight y (m + 1) d)"
    using ordinal_next_month [OF m, of y d] by (auto simp: t midnight_def)
qed

lemma month_starts_from_order:
  assumes "month_starts_from y m d first final = Inr ms"
  shows "sorted_wrt (<) ms \<and> (\<forall>t\<in>set ms. midnight y m d \<le> t \<and> first < t \<and> t \<le> final
    \<and> (\<exists>y' m'. make_datetime y' m' d = Inr t))"
  using assms
proof (induction y m d first final arbitrary: ms rule: month_starts_from.induct)
  case (1 y m d first final)
  from "1.prems" obtain t where t: "make_datetime y m d = Inr t"
    and ms: "(if final < t then Inr []
       else bindr (if m = 12 then month_starts_from (y + 1) 1 d first final
                   else month_starts_from y (m + 1) d first final)
              (\<lambda>rest. Inr (if first < t then t # rest else rest))) = Inr ms"
    by (subst (asm) month_starts_from.simps) (auto simp: bindr_eq_Inr)
  show ?case
  proof (cases "final < t")
    case False
    with ms obtain rest where rest: "(if m = 12 then month_starts_from (y + 1) 1 d first final
        else month_starts_from y (m + 1) d first final) = Inr rest"
      and ms': "ms = (if first < t then t # rest else rest)" by (auto simp: bindr_eq_Inr)
    have "sorted_wrt (<) rest \<and> (\<forall>u\<in>set rest. t < u \<and> first < u \<and> u \<le> final
        \<and> (\<exists>y' m'. make_datetime y' m' d = Inr u))"
      using "1.IH" [OF t False] rest midnight_next_month [OF t] by (fastforce split: if_splits)
    with False t ms' midnight_next_month(1) [OF t] show ?thesis by auto
  qed (use ms in simp)
qed

text \<open>Two calendars that reach a date have the same months up to it.\<close>

lemma month_starts_from_prefix:
  assumes "month_starts_from y m d first final = Inr ms" "month_starts_from y m d first final' = Inr ms'"
    and "T \<le> final" "T \<le> final'"
  shows "filter (\<lambda>t. t \<le> T) ms = filter (\<lambda>t. t \<le> T) ms'"
  using assms
proof (induction y m d first final arbitrary: ms ms' rule: month_starts_from.induct)
  case (1 y m d first final)
  let ?rest = "\<lambda>final. if m = 12 then month_starts_from (y + 1) 1 d first final
    else month_starts_from y (m + 1) d first final"
  from "1.prems"(1) obtain t where t: "make_datetime y m d = Inr t"
    by (subst (asm) month_starts_from.simps) (auto simp: bindr_eq_Inr)
  have later: "u \<le> T \<Longrightarrow> False" if "T < t" "month_starts_from y m d first f = Inr us" "u \<in> set us" for f us u
    using month_starts_from_order [OF that(2)] that midnight_next_month(1) [OF t] by fastforce
  show ?case
  proof (cases "T < t")
    case True
    with later "1.prems"(1,2) have "filter (\<lambda>u. u \<le> T) ms = []" "filter (\<lambda>u. u \<le> T) ms' = []"
      by (auto simp: filter_empty_conv)
    then show ?thesis by simp
  next
    case False
    with "1.prems" have "\<not> final < t" "\<not> final' < t" by auto
    with "1.prems"(1,2) t obtain rs rs' where rs: "?rest final = Inr rs" "?rest final' = Inr rs'"
      "ms = (if first < t then t # rs else rs)" "ms' = (if first < t then t # rs' else rs')"
      by (subst (asm) (1 2) month_starts_from.simps) (auto simp: bindr_eq_Inr)
    have "filter (\<lambda>u. u \<le> T) rs = filter (\<lambda>u. u \<le> T) rs'"
      using "1.IH" [OF t \<open>\<not> final < t\<close>] rs(1,2) "1.prems"(3,4) by (auto split: if_splits)
    with rs False show ?thesis by simp
  qed
qed
section \<open>One history for each market\<close>

definition daily_market :: "candle list \<Rightarrow> string option" where
  "daily_market cs =
     (if cs = [] \<or> c_interval (hd cs) \<noteq> ''1d'' then None
      else (case canonical_from_symbol (c_symbol (hd cs)) of Inl _ \<Rightarrow> None | Inr m \<Rightarrow> Some m))"

definition daily_histories :: "histories \<Rightarrow> histories" where
  "daily_histories hs =
     List.map_filter (\<lambda>(_, cs). map_option (\<lambda>m. (m, sort_key c_opened_at cs)) (daily_market cs)) hs"

definition one_history_each :: "histories \<Rightarrow> bool" where
  "one_history_each hs \<longleftrightarrow> distinct (map fst (daily_histories hs))"

lemma daily_market_nonempty: "daily_market cs = Some m \<Longrightarrow> cs \<noteq> []"
  by (simp add: daily_market_def split: if_splits)

lemma daily_histories_single:
  "daily_histories [(k, cs)] =
     (case daily_market cs of None \<Rightarrow> [] | Some m \<Rightarrow> [(m, sort_key c_opened_at cs)])"
  by (simp add: daily_histories_def List.map_filter_def split: option.splits)

lemma sort_key_Nil_iff [simp]: "sort_key f cs = [] \<longleftrightarrow> cs = []"
  by (metis length_0_conv length_sort)

lemma add_history_fresh:
  assumes "\<And>m. daily_market cs = Some m \<Longrightarrow> m \<notin> set (map fst out)"
  shows "add_history ''1d'' out cs = out @ daily_histories [(k, cs)]"
proof (cases "daily_market cs")
  case None
  then show ?thesis
    by (auto simp: add_history_def daily_market_def daily_histories_single split: sum.splits if_splits)
next
  case (Some m)
  with assms have "map_of out m = None" "AList.update m v out = out @ [(m, v)]" for v
    by (simp_all add: map_of_eq_None_iff update_absent)
  moreover from Some have "cs \<noteq> []" "c_interval (hd cs) = ''1d''" "canonical_from_symbol (c_symbol (hd cs)) = Inr m"
    by (auto simp: daily_market_def split: if_splits sum.splits)
  ultimately show ?thesis using Some by (simp add: add_history_def daily_histories_single)
qed

lemma daily_histories_Cons: "daily_histories (h # hs) = daily_histories [h] @ daily_histories hs"
  by (cases h) (simp add: daily_histories_def List.map_filter_def)

lemma foldl_add_history:
  "distinct (map fst (out @ daily_histories hs)) \<Longrightarrow>
   foldl (add_history ''1d'') out (map snd hs) = out @ daily_histories hs"
proof (induction hs arbitrary: out)
  case Nil
  then show ?case by (simp add: daily_histories_def List.map_filter_def)
next
  case (Cons h hs)
  obtain k cs where h: "h = (k, cs)" by (cases h)
  have "m \<notin> set (map fst out)" if "daily_market cs = Some m" for m
    using Cons.prems that by (auto simp: daily_histories_Cons [of h] h daily_histories_def List.map_filter_def)
  from add_history_fresh [OF this] have "add_history ''1d'' out cs = out @ daily_histories [h]" by (simp add: h)
  with Cons.IH [of "out @ daily_histories [h]"] Cons.prems show ?case
    by (simp add: h daily_histories_Cons [of _ hs])
qed

lemma histories_by_canonical_distinct:
  "one_history_each hs \<Longrightarrow> histories_by_canonical ''1d'' hs = daily_histories hs"
  using foldl_add_history [of "[]" hs] by (simp add: one_history_each_def histories_by_canonical_def)

lemma daily_histories_member:
  "(m, cs) \<in> set (daily_histories hs) \<longleftrightarrow>
   (\<exists>k raw. (k, raw) \<in> set hs \<and> daily_market raw = Some m \<and> cs = sort_key c_opened_at raw)"
proof (induction hs)
  case Nil
  then show ?case by (simp add: daily_histories_def List.map_filter_def)
next
  case (Cons h hs)
  obtain k raw where "h = (k, raw)" by (cases h)
  with Cons show ?case
    by (cases "daily_market raw") (auto simp: daily_histories_Cons [of "(k, raw)" hs] daily_histories_single)
qed

section \<open>Histories that agree before a time\<close>

definition same_until :: "datetime \<Rightarrow> histories \<Rightarrow> histories \<Rightarrow> bool" where
  "same_until T hs hs' \<longleftrightarrow> list_all2 (\<lambda>(_, cs) (_, cs').
     daily_market cs = daily_market cs'
   \<and> filter (\<lambda>c. c_opened_at c < T) cs = filter (\<lambda>c. c_opened_at c < T) cs') hs hs'"

definition reaches :: "datetime \<Rightarrow> histories \<Rightarrow> bool" where
  "reaches T hs \<longleftrightarrow> (\<exists>(_, cs)\<in>set hs. daily_market cs \<noteq> None \<and> (\<exists>c\<in>set cs. T \<le> c_opened_at c))"

abbreviation agree_names :: "datetime \<Rightarrow> histories \<Rightarrow> histories \<Rightarrow> bool" where
  "agree_names T B B' \<equiv> list_all2 (\<lambda>(m, cs) (m', cs'). m = m' \<and> cs \<noteq> [] \<and> cs' \<noteq> []
     \<and> sorted (map c_opened_at cs) \<and> sorted (map c_opened_at cs')
     \<and> filter (\<lambda>c. c_opened_at c < T) cs = filter (\<lambda>c. c_opened_at c < T) cs') B B'"

lemma agree_daily: "same_until T hs hs' \<Longrightarrow> agree_names T (daily_histories hs) (daily_histories hs')"
  unfolding same_until_def
proof (induction rule: list_all2_induct)
  case Nil
  then show ?case by (simp add: daily_histories_def List.map_filter_def)
next
  case (Cons h hs h' hs')
  obtain k cs k' cs' where h: "h = (k, cs)" "h' = (k', cs')" by (cases h; cases h')
  from Cons.hyps have "agree_names T (daily_histories [h]) (daily_histories [h'])"
    by (auto simp: h daily_histories_single filter_sort split: option.splits dest: daily_market_nonempty)
  with Cons.IH show ?case
    by (simp add: daily_histories_Cons [of _ hs] daily_histories_Cons [of _ hs'] list_all2_appendI)
qed

lemma agree_sym: "agree_names T B B' \<Longrightarrow> agree_names T B' B"
  by (simp add: list_all2_conv_all_nth split_beta)

definition first_bar :: "histories \<Rightarrow> datetime" where
  "first_bar B = fold min (tl (map (\<lambda>(_, cs). c_opened_at (hd cs)) B)) (hd (map (\<lambda>(_, cs). c_opened_at (hd cs)) B))"

definition final_bar :: "histories \<Rightarrow> datetime" where
  "final_bar B = fold max (tl (map (\<lambda>(_, cs). c_opened_at (last cs)) B)) (hd (map (\<lambda>(_, cs). c_opened_at (last cs)) B))"

lemma first_bar_Min: "B \<noteq> [] \<Longrightarrow> first_bar B = Min ((\<lambda>(_, cs). c_opened_at (hd cs)) ` set B)"
  by (cases B) (simp_all add: first_bar_def Min.set_eq_fold [symmetric])

lemma final_bar_Max: "B \<noteq> [] \<Longrightarrow> final_bar B = Max ((\<lambda>(_, cs). c_opened_at (last cs)) ` set B)"
  by (cases B) (simp_all add: final_bar_def Max.set_eq_fold [symmetric])

lemma sorted_hd_le: "sorted (map c_opened_at cs) \<Longrightarrow> c \<in> set cs \<Longrightarrow> c_opened_at (hd cs) \<le> c_opened_at c"
  by (cases cs) auto

lemma sorted_le_last: "sorted (map c_opened_at cs) \<Longrightarrow> c \<in> set cs \<Longrightarrow> c_opened_at c \<le> c_opened_at (last cs)"
  by (induction cs) auto

lemma first_bar_le:
  assumes "agree_names T B B'" "B \<noteq> []" "first_bar B < T"
  shows "first_bar B' \<le> first_bar B"
proof -
  let ?f = "\<lambda>(_ :: string, cs). c_opened_at (hd cs)"
  have "Min (?f ` set B) \<in> ?f ` set B" using assms(2) by (intro Min_in) auto
  then have "first_bar B \<in> ?f ` set B" by (simp only: first_bar_Min [OF assms(2)])
  then obtain b where b': "b \<in> set B" "first_bar B = ?f b" by (rule imageE)
  then obtain i where i: "i < length B" "?f (B ! i) = first_bar B" by (auto simp: in_set_conv_nth)
  obtain m cs where b: "B ! i = (m, cs)" by fastforce
  obtain m' cs' where b'': "B' ! i = (m', cs')" by fastforce
  note b = b b''
  from assms(1) i b list_all2_nthD [OF assms(1) i(1)] have "cs \<noteq> []" "sorted (map c_opened_at cs')"
    and eq: "filter (\<lambda>c. c_opened_at c < T) cs = filter (\<lambda>c. c_opened_at c < T) cs'" by simp_all
  moreover have "i < length B'" using i(1) list_all2_lengthD [OF assms(1)] by simp
  moreover from \<open>cs \<noteq> []\<close> i b assms(3) have "hd cs \<in> set (filter (\<lambda>c. c_opened_at c < T) cs)" by auto
  ultimately have "c_opened_at (hd cs') \<le> c_opened_at (hd cs)" by (simp add: eq sorted_hd_le)
  moreover have "first_bar B' \<le> c_opened_at (hd cs')"
  proof -
    have "(m', cs') \<in> set B'" using \<open>i < length B'\<close> b by (metis nth_mem)
    then have "B' \<noteq> []" "c_opened_at (hd cs') \<in> ?f ` set B'" by force+
    then show ?thesis by (simp add: first_bar_Min)
  qed
  ultimately show ?thesis using i b by simp
qed
lemma first_bar_lower: "(m, cs) \<in> set B \<Longrightarrow> sorted (map c_opened_at cs) \<Longrightarrow> c \<in> set cs \<Longrightarrow> first_bar B \<le> c_opened_at c"
proof -
  assume *: "(m, cs) \<in> set B" "sorted (map c_opened_at cs)" "c \<in> set cs"
  then have "B \<noteq> []" "c_opened_at (hd cs) \<in> (\<lambda>(_, cs). c_opened_at (hd cs)) ` set B" by force+
  then have "first_bar B \<le> c_opened_at (hd cs)" by (simp add: first_bar_Min)
  with sorted_hd_le [OF *(2,3)] show ?thesis by simp
qed

lemma final_bar_upper: "(m, cs) \<in> set B \<Longrightarrow> sorted (map c_opened_at cs) \<Longrightarrow> c \<in> set cs \<Longrightarrow> c_opened_at c \<le> final_bar B"
proof -
  assume *: "(m, cs) \<in> set B" "sorted (map c_opened_at cs)" "c \<in> set cs"
  then have "B \<noteq> []" "c_opened_at (last cs) \<in> (\<lambda>(_, cs). c_opened_at (last cs)) ` set B" by force+
  then have "c_opened_at (last cs) \<le> final_bar B" by (simp add: final_bar_Max)
  with sorted_le_last [OF *(2,3)] show ?thesis by simp
qed

section \<open>Snapshots see nothing from their own date on\<close>

definition volumes_of :: "histories \<Rightarrow> (string \<times> series) list" where
  "volumes_of B = map (\<lambda>(name, cs). (name, dollar_volume_series cs)) B"

lemma window_values_cong:
  assumes "filter (\<lambda>c. c_opened_at c < T) cs = filter (\<lambda>c. c_opened_at c < T) cs'" "hi \<le> T"
  shows "window_values lo hi (dollar_volume_series cs) = window_values lo hi (dollar_volume_series cs')"
proof -
  have "window_values lo hi (dollar_volume_series xs)
      = map snd (keep (\<lambda>ts. lo \<le> ts \<and> ts < hi) (dollar_volume_series (filter (\<lambda>c. c_opened_at c < T) xs)))" for xs
    using assms(2) unfolding window_values_def dollar_volume_series_def keep_series_of filter_filter
    by (intro arg_cong [where f = "map snd"] arg_cong2 [where f = series_of] filter_cong) auto
  with assms(1) show ?thesis by simp
qed

lemma liquidity_rank_cong:
  assumes "filter (\<lambda>c. c_opened_at c < T) cs = filter (\<lambda>c. c_opened_at c < T) cs'" "moment \<le> T"
  shows "liquidity_rank l moment (dollar_volume_series cs) = liquidity_rank l moment (dollar_volume_series cs')"
  by (simp add: liquidity_rank_def window_values_cong [OF assms])

lemma agree_sorted: "agree_names T B B' \<Longrightarrow> (m, cs) \<in> set B \<Longrightarrow> sorted (map c_opened_at cs)"
  by (induction rule: list_all2_induct) auto

lemma rank_cong:
  assumes "agree_names T B B'" "moment \<le> T"
  shows "ranked_names l moment (volumes_of B) = ranked_names l moment (volumes_of B')"
proof -
  have "list_all2 (\<lambda>(m, cs) (m', cs'). m = m' \<and>
      liquidity_rank l moment (dollar_volume_series cs) = liquidity_rank l moment (dollar_volume_series cs')) B B'"
    by (rule list_all2_mono [OF assms(1)]) (use assms(2) in \<open>auto intro: liquidity_rank_cong\<close>)
  then have "map (\<lambda>(name, sr). (name, liquidity_rank l moment sr)) (volumes_of B)
      = map (\<lambda>(name, sr). (name, liquidity_rank l moment sr)) (volumes_of B')"
    by (induction rule: list_all2_induct) (auto simp: volumes_of_def)
  from arg_cong [OF this, of "\<lambda>xs. concat (map (\<lambda>(name, r). case r of None \<Rightarrow> [] | Some med \<Rightarrow> [(med, name)]) xs)"]
  show ?thesis unfolding ranked_names_def by (simp add: comp_def case_prod_unfold cong: option.case_cong)
qed

lemma snapshot_on_cong:
  assumes "agree_names T B B'" "moment \<le> T"
  shows "snapshot_on l n (volumes_of B) moment = snapshot_on l n (volumes_of B') moment"
  using rank_cong [OF assms] list_all2_lengthD [OF assms(1)]
  by (simp add: snapshot_on_def Let_def volumes_of_def)

lemma snapshot_on_at: "snapshot_on l n V t = Some s \<Longrightarrow> us_snapshot_at s = t"
  by (auto simp: snapshot_on_def Let_def split: if_splits)

lemma no_rank_before_first:
  assumes "moment \<le> first_bar B" "0 < l" "agree_names T B B'"
  shows "snapshot_on l n (volumes_of B) moment = None"
proof -
  have "liquidity_rank l moment (dollar_volume_series cs) = None" if "(m, cs) \<in> set B" for m cs
  proof -
    from assms(3) that have "sorted (map c_opened_at cs)" by (rule agree_sorted)
    from first_bar_lower [OF that this] assms(1) have "\<And>c. c \<in> set cs \<Longrightarrow> \<not> c_opened_at c < moment" by force
    then have "window_values (moment - days_delta l) moment (dollar_volume_series cs) = []"
      unfolding window_values_def dollar_volume_series_def keep_series_of by (auto simp: filter_empty_conv)
    with assms(2) show ?thesis by (simp add: liquidity_rank_def)
  qed
  then have "ranked_names l moment (volumes_of B) = []"
    by (auto simp: ranked_names_def volumes_of_def)
  then show ?thesis by (simp add: snapshot_on_def)
qed

lemma filter_map_filter: "(\<And>x y. f x = Some y \<Longrightarrow> P y = Q x) \<Longrightarrow> filter P (List.map_filter f xs) = List.map_filter f (filter Q xs)"
  by (induction xs) (auto simp: List.map_filter_simps split: option.splits)

lemma map_filter_cong2: "(\<And>x. x \<in> set xs \<Longrightarrow> f x = g x) \<Longrightarrow> List.map_filter f xs = List.map_filter g xs"
  by (induction xs) (auto simp: List.map_filter_simps split: option.splits)

lemma liquidity_snapshots_unfold:
  assumes "liquidity_snapshots d l n hs = Inr ss" "one_history_each hs"
  shows "0 < l \<and> 0 < n \<and> (if daily_histories hs = [] then ss = []
    else (\<exists>ms. month_starts (first_bar (daily_histories hs)) (final_bar (daily_histories hs)) d = Inr ms
      \<and> ss = List.map_filter (snapshot_on l n (volumes_of (daily_histories hs))) ms))"
  using assms(1) histories_by_canonical_distinct [OF assms(2)]
  by (auto simp: liquidity_snapshots_def Let_def bindr_eq_Inr first_bar_def final_bar_def volumes_of_def split: if_splits)

lemma snapshots_agree:
  assumes hs: "liquidity_snapshots d l n hs = Inr ss" "one_history_each hs" "reaches T hs"
    and hs': "liquidity_snapshots d l n hs' = Inr ss'" "one_history_each hs'" "reaches T hs'"
    and same: "same_until T hs hs'"
  shows "filter (\<lambda>s. us_snapshot_at s \<le> T) ss = filter (\<lambda>s. us_snapshot_at s \<le> T) ss'"
proof -
  let ?B = "daily_histories hs" and ?B' = "daily_histories hs'"
  have agree: "agree_names T ?B ?B'" by (rule agree_daily [OF same])
  have reach: "daily_histories xs \<noteq> [] \<and> T \<le> final_bar (daily_histories xs)" if "reaches T xs" for xs
  proof -
    from that obtain k raw m c where "(k, raw) \<in> set xs" "daily_market raw = Some m" "c \<in> set raw" "T \<le> c_opened_at c"
      by (auto simp: reaches_def)
    then have "(m, sort_key c_opened_at raw) \<in> set (daily_histories xs)" by (auto simp: daily_histories_member)
    from final_bar_upper [OF this, of c] this \<open>c \<in> set raw\<close> \<open>T \<le> c_opened_at c\<close> show ?thesis by auto
  qed
  from liquidity_snapshots_unfold [OF hs(1,2)] reach [OF hs(3)] obtain ms where l: "0 < l"
    and ms: "month_starts (first_bar ?B) (final_bar ?B) d = Inr ms" "T \<le> final_bar ?B"
      "ss = List.map_filter (snapshot_on l n (volumes_of ?B)) ms" "?B \<noteq> []" by auto
  from liquidity_snapshots_unfold [OF hs'(1,2)] reach [OF hs'(3)] obtain ms'
    where ms': "month_starts (first_bar ?B') (final_bar ?B') d = Inr ms'" "T \<le> final_bar ?B'"
      "ss' = List.map_filter (snapshot_on l n (volumes_of ?B')) ms'" "?B' \<noteq> []" by auto
  have f: "filter (\<lambda>s. us_snapshot_at s \<le> T) (List.map_filter (snapshot_on l n V) xs)
      = List.map_filter (snapshot_on l n V) (filter (\<lambda>t. t \<le> T) xs)" for V xs
    by (rule filter_map_filter) (simp add: snapshot_on_at)
  show ?thesis
  proof (cases "first_bar ?B < T")
    case True
    from first_bar_le [OF agree ms(4) this] have le: "first_bar ?B' \<le> first_bar ?B" .
    with first_bar_le [OF agree_sym [OF agree] ms'(4)] True have "first_bar ?B = first_bar ?B'" by simp
    with ms(1,2) ms'(1,2) have "filter (\<lambda>t. t \<le> T) ms = filter (\<lambda>t. t \<le> T) ms'"
      unfolding month_starts_def by (metis month_starts_from_prefix)
    then show ?thesis unfolding ms(3) ms'(3) f
      by (metis (mono_tags, lifting) map_filter_cong2 mem_Collect_eq set_filter snapshot_on_cong [OF agree])
  next
    case False
    have none: "List.map_filter (snapshot_on l n (volumes_of C)) (filter (\<lambda>t. t \<le> T) xs) = []"
      if "T \<le> first_bar C" "agree_names T C C'" for C C' xs
      using no_rank_before_first [of _ C l T C' n] that l by (induction xs) (auto simp: List.map_filter_simps)
    from False first_bar_le [OF agree_sym [OF agree] ms'(4)] have "T \<le> first_bar ?B'" by fastforce
    with False none [OF _ agree] none [OF _ agree_sym [OF agree]] show ?thesis
      unfolding ms(3) ms'(3) f by auto
  qed
qed
section \<open>Membership\<close>

definition rank_of :: "histories \<Rightarrow> int \<Rightarrow> datetime \<Rightarrow> string \<Rightarrow> real option" where
  "rank_of hs lookback moment name =
     (case map_of (histories_by_canonical ''1d'' hs) name of
        None \<Rightarrow> None | Some cs \<Rightarrow> liquidity_rank lookback moment (dollar_volume_series cs))"

lemma distinct_histories: "distinct (map fst (histories_by_canonical i hs))"
proof -
  have "distinct (map fst out) \<Longrightarrow> distinct (map fst (foldl (add_history i) out css))" for out css
    by (induction css arbitrary: out)
      (auto simp: add_history_def Let_def distinct_update split: sum.splits option.splits)
  then show ?thesis by (simp add: histories_by_canonical_def)
qed

lemma ranked_names_member:
  assumes "distinct (map fst B)"
  shows "(med, name) \<in> set (ranked_names l moment (volumes_of B)) \<longleftrightarrow>
    (\<exists>cs. map_of B name = Some cs \<and> liquidity_rank l moment (dollar_volume_series cs) = Some med)"
proof -
  have "(med, name) \<in> set (ranked_names l moment (volumes_of B)) \<longleftrightarrow>
    (\<exists>cs. (name, cs) \<in> set B \<and> liquidity_rank l moment (dollar_volume_series cs) = Some med)"
    by (force simp: ranked_names_def volumes_of_def split: option.splits)
  with assms show ?thesis by simp
qed

lemma ranked_names_distinct:
  assumes "distinct (map fst B)"
  shows "distinct (map snd (ranked_names l moment (volumes_of B)))"
proof -
  let ?raw = "concat (map (\<lambda>(name, sr). case liquidity_rank l moment sr of None \<Rightarrow> []
    | Some med \<Rightarrow> [(med, name)]) (volumes_of B))"
  have "set (map snd ?raw) \<subseteq> set (map fst B) \<and> distinct (map snd ?raw)"
    using assms
    by (induction B) (auto simp: volumes_of_def split: option.splits dest: in_keys)
  then show ?thesis by (simp add: ranked_names_def distinct_map)
qed

lemma take_sorted_before:
  assumes "sorted (map f xs)" "x \<in> set (take n xs)" "y \<in> set xs" "y \<notin> set (take n xs)"
  shows "f x \<le> (f y :: 'a :: linorder) \<and> length (take n xs) = n"
proof -
  from assms(3,4) have "y \<in> set (drop n xs)" by (metis Un_iff append_take_drop_id set_append)
  moreover have "sorted (map f (take n xs) @ map f (drop n xs))"
    using assms(1) by (simp flip: map_append)
  ultimately have "f x \<le> f y" "drop n xs \<noteq> []" using assms(2) by (auto simp: sorted_append)
  then show ?thesis by simp
qed

lemma snapshot_members:
  assumes "snapshot_on l n (volumes_of B) moment = Some s" "distinct (map fst B)"
  shows "length (us_names s) \<le> nat n" and "distinct (us_names s)" and "us_snapshot_at s = moment"
    and "name \<in> set (us_names s) \<Longrightarrow>
      \<exists>cs med. map_of B name = Some cs \<and> liquidity_rank l moment (dollar_volume_series cs) = Some med
        \<and> map_of (us_median_dollar_volume s) name = Some med"
    and "map_of B other = Some cs \<Longrightarrow> liquidity_rank l moment (dollar_volume_series cs) = Some r \<Longrightarrow>
      other \<notin> set (us_names s) \<Longrightarrow> length (us_names s) = nat n
        \<and> (\<forall>(m, med)\<in>set (us_median_dollar_volume s). r < med \<or> (r = med \<and> m < other))"
proof -
  let ?r = "ranked_names l moment (volumes_of B)" and ?top = "take (nat n) (ranked_names l moment (volumes_of B))"
  have s: "us_names s = map snd ?top" "us_snapshot_at s = moment"
    "us_median_dollar_volume s = assoc_of (map (\<lambda>(med, name). (name, med)) ?top)"
    using assms(1) by (auto simp: snapshot_on_def Let_def split: if_splits)
  have d: "distinct (map snd ?top)" using ranked_names_distinct [OF assms(2), of l moment]
    by (simp add: take_map [symmetric] distinct_take)
  then have "distinct (map fst (map (\<lambda>(med, name). (name, med)) ?top))" by (simp add: comp_def case_prod_unfold)
  then have med: "(m, med) \<in> set (us_median_dollar_volume s) \<Longrightarrow> (med, m) \<in> set ?top" for m med
    using assoc_of_set [of "map (\<lambda>(med, name). (name, med)) ?top"] by (auto simp: s)
  show "length (us_names s) \<le> nat n" "distinct (us_names s)" "us_snapshot_at s = moment" using d by (auto simp: s)
  show "\<exists>cs med. map_of B name = Some cs \<and> liquidity_rank l moment (dollar_volume_series cs) = Some med
      \<and> map_of (us_median_dollar_volume s) name = Some med" if "name \<in> set (us_names s)"
  proof -
    from that obtain w where w: "(w, name) \<in> set ?top" by (auto simp: s)
    then have "name \<in> fst ` set (us_median_dollar_volume s)" by (force simp: s(3))
    then obtain v where v: "map_of (us_median_dollar_volume s) name = Some v"
      by (metis domD dom_map_of_conv_image_fst)
    from med [OF map_of_SomeD [OF v]] have "(v, name) \<in> set ?r" by (rule in_set_takeD)
    with v ranked_names_member [OF assms(2)] show ?thesis by auto
  qed
  show "length (us_names s) = nat n \<and> (\<forall>(m, med)\<in>set (us_median_dollar_volume s). r < med \<or> (r = med \<and> m < other))"
    if o: "map_of B other = Some cs" "liquidity_rank l moment (dollar_volume_series cs) = Some r" "other \<notin> set (us_names s)"
  proof -
    let ?f = "\<lambda>(med :: real, name :: string). (- med, name)"
    have sorted: "sorted (map ?f ?r)" by (simp add: ranked_names_def)
    have "(r, other) \<in> set ?r" using o ranked_names_member [OF assms(2)] by auto
    moreover have "(r, other) \<notin> set ?top" using o(3) by (force simp: s)
    ultimately have *: "length ?top = nat n \<and> ?f (med, m) \<le> ?f (r, other)" if "(med, m) \<in> set ?top" for med m
      using take_sorted_before [OF sorted that] by blast
    have "length ?top = nat n"
    proof (cases "?top = []")
      case True
      with \<open>(r, other) \<in> set ?r\<close> show ?thesis by auto
    next
      case False
      then have "hd ?top \<in> set ?top" by (rule hd_in_set)
      with * [of "fst (hd ?top)" "snd (hd ?top)"] show ?thesis by simp
    qed
    moreover have "r < w \<or> (r = w \<and> m < other)" if "(m, w) \<in> set (us_median_dollar_volume s)" for m w
    proof -
      from med [OF that] have w: "(w, m) \<in> set ?top" .
      then have "m \<noteq> other" using o(3) by (force simp: s)
      with * [OF w] show ?thesis by (auto simp: less_eq_prod_simp)
    qed
    ultimately show ?thesis by (auto simp: s(1))
  qed
qed

lemma distinct_volumes: "map fst (volumes_of B) = map fst B"
  by (simp add: volumes_of_def comp_def case_prod_unfold)

lemma liquidity_snapshots_cases:
  assumes "liquidity_snapshots d l n hs = Inr ss"
  shows "0 < l \<and> 0 < n \<and> (ss = [] \<or>
    (\<exists>ms. month_starts (first_bar (histories_by_canonical ''1d'' hs)) (final_bar (histories_by_canonical ''1d'' hs)) d = Inr ms
      \<and> ss = List.map_filter (snapshot_on l n (volumes_of (histories_by_canonical ''1d'' hs))) ms))"
  using assms
  by (auto simp: liquidity_snapshots_def Let_def bindr_eq_Inr first_bar_def final_bar_def volumes_of_def split: if_splits)

lemma map_filter_dates:
  "map us_snapshot_at (List.map_filter (snapshot_on l n V) ms) = filter (\<lambda>t. snapshot_on l n V t \<noteq> None) ms"
  by (induction ms) (auto simp: List.map_filter_simps snapshot_on_at split: option.splits)

lemma snapshots_increase:
  assumes "liquidity_snapshots d l n hs = Inr ss"
  shows "sorted_wrt (<) (map us_snapshot_at ss)"
  using liquidity_snapshots_cases [OF assms] month_starts_from_order
  by (fastforce simp: map_filter_dates month_starts_def sorted_wrt_filter)

section \<open>The listing and the choice of a history\<close>

lemma listing_row_ok:
  assumes "listing_row key value = Inr (Some p)"
  shows "up_pair_key p = key \<and> \<not> endswith key ''.d'' \<and> \<not> is_excluded_base (up_base p)
    \<and> canonical_symbol (up_base p) = Inr (up_canonical p)
    \<and> (\<exists>row quote. value = JObj row \<and> map_of row ''status'' = Some (JStr ''online'')
        \<and> map_of row ''quote'' = Some (JStr quote) \<and> quote \<in> set universe_quotes)"
  using assms
  by (auto simp: listing_row_def Let_def field_text_def bindr_eq_Inr dict_get_or_def
      split: json.splits if_splits option.splits sum.splits)

lemma listing_rows_ok:
  "listing_rows seen rows = Inr ps \<Longrightarrow>
   distinct (map up_canonical ps) \<and> (\<forall>p\<in>set ps. up_canonical p \<notin> set seen
     \<and> (\<exists>value. (up_pair_key p, value) \<in> set rows \<and> listing_row (up_pair_key p) value = Inr (Some p)))"
proof (induction seen rows arbitrary: ps rule: listing_rows.induct)
  case (2 seen key v rows)
  from 2(4) obtain r where r: "listing_row key v = Inr r" by (auto simp: bindr_eq_Inr)
  show ?case
  proof (cases r)
    case None
    with 2(1) [OF r None] 2(4) r show ?thesis by auto
  next
    case (Some p)
    have key: "up_pair_key p = key" using listing_row_ok r Some by blast
    show ?thesis
    proof (cases "up_canonical p \<in> set seen")
      case True
      with 2(2) [OF r Some True] 2(4) r Some show ?thesis by auto
    next
      case False
      with 2(4) r Some obtain qs where qs: "listing_rows (up_canonical p # seen) rows = Inr qs" "ps = p # qs"
        by (auto simp: bindr_eq_Inr)
      from 2(3) [OF r Some False qs(1)] False r Some key show ?thesis by (auto simp: qs(2))
    qed
  qed
qed simp

text \<open>
  The listing comes out sorted by canonical symbol, each symbol once, and every pair is an online row
  of the payload quoted in dollars whose base is not excluded.
\<close>

lemma listing_reduced:
  assumes "parse_asset_pairs payload = Inr ps"
  shows "sorted (map up_canonical ps) \<and> distinct (map up_canonical ps)
    \<and> (\<forall>p\<in>set ps. \<not> is_excluded_base (up_base p) \<and> canonical_symbol (up_base p) = Inr (up_canonical p)
        \<and> (\<exists>body rows row quote. payload = JObj body \<and> map_of body ''result'' = Some (JObj rows)
            \<and> (up_pair_key p, JObj row) \<in> set rows \<and> map_of row ''status'' = Some (JStr ''online'')
            \<and> map_of row ''quote'' = Some (JStr quote) \<and> quote \<in> set universe_quotes))"
proof -
  from assms obtain body rows qs where payload: "payload = JObj body" "map_of body ''result'' = Some (JObj rows)"
    and qs: "listing_rows [] rows = Inr qs" "ps = sort_key up_canonical qs"
    by (auto simp: parse_asset_pairs_def bindr_eq_Inr split: json.splits if_splits option.splits)
  note rows = listing_rows_ok [OF qs(1)]
  have "\<not> is_excluded_base (up_base p) \<and> canonical_symbol (up_base p) = Inr (up_canonical p)
      \<and> (\<exists>row quote. (up_pair_key p, JObj row) \<in> set rows \<and> map_of row ''status'' = Some (JStr ''online'')
        \<and> map_of row ''quote'' = Some (JStr quote) \<and> quote \<in> set universe_quotes)" if "p \<in> set qs" for p
  proof -
    from rows that obtain v where v: "(up_pair_key p, v) \<in> set rows" "listing_row (up_pair_key p) v = Inr (Some p)" by blast
    from listing_row_ok [OF v(2)] v(1) show ?thesis by blast
  qed
  moreover have "distinct (map up_canonical ps)" using rows by (simp add: qs(2) distinct_map)
  ultimately show ?thesis by (simp add: payload qs(2))
qed

text \<open>Of two histories of one market the longer one is kept, whichever has more bars at the end of the data.\<close>

lemma longer_history_kept:
  assumes "daily_market cs = Some m" "daily_market cs' = Some m"
  shows "histories_by_canonical ''1d'' [(k, cs), (k', cs')]
    = [(m, sort_key c_opened_at (if length cs < length cs' then cs' else cs))]"
  using assms
  by (auto simp: histories_by_canonical_def add_history_def daily_market_def Let_def split: if_splits sum.splits)

section \<open>Properties\<close>

text \<open>
  C32: c99. Monthly membership. The snapshots come in the order of their dates, and a snapshot lists at most
  \<open>top_n\<close> names, none twice. Each listed name has, on the window of \<open>lookback\<close> days before the date, at
  least as many bars as days, and the median of close times volume over them is positive and is the
  recorded one. A name that also qualifies and is left out is beaten by every recorded one (a larger
  median, or the same and an earlier name), and the list is then full.
\<close>

theorem monthly_membership:
  assumes "liquidity_snapshots snapshot_day lookback top_n hs = Inr ss" "s \<in> set ss"
  defines "rank \<equiv> rank_of hs lookback (us_snapshot_at s)"
  shows "sorted_wrt (<) (map us_snapshot_at ss) \<and> distinct (us_names s) \<and> length (us_names s) \<le> nat top_n
    \<and> (\<forall>name\<in>set (us_names s). \<exists>cs med.
          map_of (histories_by_canonical ''1d'' hs) name = Some cs
        \<and> lookback \<le> int (length (window_values (us_snapshot_at s - days_delta lookback) (us_snapshot_at s)
              (dollar_volume_series cs)))
        \<and> med = median (window_values (us_snapshot_at s - days_delta lookback) (us_snapshot_at s)
              (dollar_volume_series cs))
        \<and> 0 < med \<and> map_of (us_median_dollar_volume s) name = Some med)
    \<and> (\<forall>other r. rank other = Some r \<and> other \<notin> set (us_names s) \<longrightarrow>
          length (us_names s) = nat top_n
        \<and> (\<forall>(name, med)\<in>set (us_median_dollar_volume s). r < med \<or> (r = med \<and> name < other)))"
proof -
  let ?B = "histories_by_canonical ''1d'' hs"
  from liquidity_snapshots_cases [OF assms(1)] assms(2)
  obtain t where "snapshot_on lookback top_n (volumes_of ?B) t = Some s"
    by (auto simp: List.map_filter_def)
  with snapshot_on_at have on: "snapshot_on lookback top_n (volumes_of ?B) (us_snapshot_at s) = Some s" by metis
  note members = snapshot_members [OF on distinct_histories]
  have "liquidity_rank lookback moment sr = Some med \<longleftrightarrow>
      lookback \<le> int (length (window_values (moment - days_delta lookback) moment sr)) \<and> 0 < med
      \<and> med = median (window_values (moment - days_delta lookback) moment sr)" for moment sr med
    by (auto simp: liquidity_rank_def Let_def)
  with members snapshots_increase [OF assms(1)] show ?thesis
    unfolding rank_def rank_of_def by (force split: option.splits)
qed

section \<open>Examples\<close>

definition daily_bar :: "string \<Rightarrow> int \<Rightarrow> real \<Rightarrow> candle" where
  "daily_bar symbol day price =
     \<lparr>c_symbol = symbol, c_interval = ''1d'', c_opened_at = days_delta day, c_open = price, c_high = price,
      c_low = price, c_close = price, c_volume = 1\<rparr>"

lemma daily_bar_fields [simp]:
  "c_opened_at (daily_bar s n p) = days_delta n" "c_close (daily_bar s n p) = p" "c_open (daily_bar s n p) = p"
  by (simp_all add: daily_bar_def)

lemma ex_symbol: "canonical_from_symbol ''A/USD'' = Inr ''A/USD''"
  by code_simp

lemma ex_daily_market: "daily_market (daily_bar ''A/USD'' d p # cs) = Some ''A/USD''"
  by (simp add: daily_market_def daily_bar_def ex_symbol)

definition ex_february :: histories where
  "ex_february =
     [(''a'', [daily_bar ''A/USD'' 30 10, daily_bar ''A/USD'' 31 20]), (''b'', [daily_bar ''B/USD'' 30 30, daily_bar ''B/USD'' 31 1])]"

definition ex_snapshot :: universe_snapshot where
  "ex_snapshot = \<lparr>us_snapshot_at = days_delta 31, us_names = [''B/USD''], us_median_dollar_volume = [(''B/USD'', 30)],
     us_candidates_considered = 2, us_candidates_skipped = 0\<rparr>"

lemma ex_symbol_b: "canonical_from_symbol ''B/USD'' = Inr ''B/USD''"
  by code_simp

lemma ex_markets_b: "daily_market (daily_bar ''B/USD'' d p # cs) = Some ''B/USD''"
  by (simp add: daily_market_def daily_bar_def ex_symbol_b)

lemma ex_february_daily:
  "histories_by_canonical ''1d'' ex_february
   = [(''A/USD'', [daily_bar ''A/USD'' 30 10, daily_bar ''A/USD'' 31 20]),
      (''B/USD'', [daily_bar ''B/USD'' 30 30, daily_bar ''B/USD'' 31 1])]"
proof -
  have d: "daily_histories ex_february
   = [(''A/USD'', [daily_bar ''A/USD'' 30 10, daily_bar ''A/USD'' 31 20]),
      (''B/USD'', [daily_bar ''B/USD'' 30 30, daily_bar ''B/USD'' 31 1])]"
    by (simp add: ex_february_def daily_histories_def List.map_filter_simps ex_daily_market ex_markets_b sort_key_def days_delta_def)
  have "one_history_each ex_february" by (simp add: one_history_each_def d)
  from histories_by_canonical_distinct [OF this] show ?thesis by (simp add: d)
qed

lemma ex_february_months: "month_starts 2592000000000 2678400000000 1 = Inr [2678400000000]"
  by code_simp

lemma ex_february_snapshots: "liquidity_snapshots 1 1 1 ex_february = Inr [ex_snapshot]"
  by (simp add: liquidity_snapshots_def Let_def ex_february_daily ex_february_months List.map_filter_simps
      snapshot_on_def ranked_names_def liquidity_rank_def window_values_def dollar_volume_series_def series_of_def
      assoc_of_def daily_bar_def days_delta_def median_def sort_key_def ex_snapshot_def)

lemma monthly_membership_witness:
  "distinct (us_names ex_snapshot) \<and> rank_of ex_february 1 (days_delta 31) ''A/USD'' = Some 10
    \<and> length (us_names ex_snapshot) = 1"
proof -
  have "rank_of ex_february 1 (days_delta 31) ''A/USD'' = Some 10"
    by (simp add: rank_of_def ex_february_daily liquidity_rank_def window_values_def dollar_volume_series_def
        series_of_def assoc_of_def daily_bar_def days_delta_def median_def)
  with monthly_membership [OF ex_february_snapshots, of ex_snapshot] show ?thesis
    by (auto simp: ex_snapshot_def)
qed

end
