(* ===== verification/Xs_Topk.thy ===== *)
theory Xs_Topk
  imports Universe Strategies Backtest
begin

text \<open>
  The pre-registered top-k cross-sectional momentum study (\<open>research/xs_topk.py\<close>): the weekly target
  weights, the basket simulator, the era cells, the prints of a venue, the dual-print bar with its
  ranking, and the paper voter. A metric's first and last bar are times instead of their texts, and
  the prose of the report (rules, notes, labels, recommendation, markdown) is left out.
\<close>

section \<open>Catalog\<close>

definition topk_skip_days :: int where "topk_skip_days = 7"
definition vol_lookback :: nat where "vol_lookback = 30"
definition min_history_margin :: int where "min_history_margin = 8"
definition min_cross_section :: nat where "min_cross_section = 10"

type_synonym catalog = "(string \<times> int \<times> int \<times> string) list"

definition catalog_of :: "string \<Rightarrow> int list \<Rightarrow> catalog" where
  "catalog_of stem lookbacks =
     concat (map (\<lambda>weighting. concat (map (\<lambda>lookback. map (\<lambda>k.
         (stem @ weighting @ ''_'' @ show_nat (nat lookback) @ ''_k'' @ show_nat (nat k), lookback, k, weighting))
       [3, 5]) lookbacks)) [''ew'', ''iv''])"

definition topk_catalog :: catalog where
  "topk_catalog = catalog_of ''xs_topk_'' [21, 63, 126]"

definition lowturn_catalog :: catalog where
  "lowturn_catalog = catalog_of ''xs_topk_lt_'' [126, 252, 378]"

definition control_id :: string where
  "control_id = ''ew_bh_universe''"

definition resolve_catalog :: "string \<Rightarrow> py_error + catalog" where
  "resolve_catalog name =
     (case map_of [(''default'', topk_catalog), (''lowturn'', lowturn_catalog)] name of
        None \<Rightarrow> Inl ValueError | Some c \<Rightarrow> Inr c)"

definition catalog_core_ids :: "catalog \<Rightarrow> string list" where
  "catalog_core_ids c = map fst c @ [control_id]"

record era =
  er_id :: string
  er_start :: datetime
  er_end :: datetime

definition eras :: "era list" where
  "eras =
     [\<lparr>er_id = ''2016-2019'', er_start = midnight 2016 1 1, er_end = midnight 2020 1 1\<rparr>,
      \<lparr>er_id = ''2020-2022'', er_start = midnight 2020 1 1, er_end = midnight 2022 1 1\<rparr>,
      \<lparr>er_id = ''2022-2024'', er_start = midnight 2022 1 1, er_end = midnight 2024 1 1\<rparr>,
      \<lparr>er_id = ''2024-2026'', er_start = midnight 2024 1 1, er_end = midnight 2027 1 1\<rparr>]"

definition min_era_bars :: nat where "min_era_bars = 365"

section \<open>Data shaping\<close>

definition sample_stdev :: "real list \<Rightarrow> real option" where
  "sample_stdev vals =
     (if length vals < 2 then None
      else (let deviation = std0 vals in if 0 < deviation then Some deviation else None))"

definition price_series :: "(candle \<Rightarrow> real) \<Rightarrow> histories \<Rightarrow> (string \<times> series) list" where
  "price_series f hs =
     List.map_filter (\<lambda>(name, cs).
         let sr = series_of f (filter (\<lambda>c. 0 < f c) cs) in if sr = [] then None else Some (name, sr))
       (histories_by_canonical ''1d'' hs)"

definition aligned_closes_by_symbol :: "histories \<Rightarrow> (string \<times> series) list" where
  "aligned_closes_by_symbol = price_series c_close"

definition opens_by_symbol :: "histories \<Rightarrow> (string \<times> series) list" where
  "opens_by_symbol = price_series c_open"

definition trading_calendar :: "(string \<times> series) list \<Rightarrow> datetime list" where
  "trading_calendar closes = remdups (sort (concat (map (\<lambda>(_, sr). map fst sr) closes)))"

record market_tables =
  mt_closes :: "(string \<times> series) list"
  mt_opens :: "(string \<times> series) list"
  mt_calendar :: "datetime list"

definition market_tables_of :: "histories \<Rightarrow> market_tables" where
  "market_tables_of hs =
     (let closes = aligned_closes_by_symbol hs
      in \<lparr>mt_closes = closes, mt_opens = opens_by_symbol hs, mt_calendar = trading_calendar closes\<rparr>)"

text \<open>\<open>table.get(name, {}).get(day)\<close>\<close>

definition quote_at :: "(string \<times> series) list \<Rightarrow> string \<Rightarrow> datetime \<Rightarrow> real option" where
  "quote_at table name day = (case map_of table name of None \<Rightarrow> None | Some sr \<Rightarrow> map_of sr day)"

section \<open>Weekly decisions\<close>

record rebalance_decision =
  rd_decided_at :: datetime
  rd_weights :: "(string \<times> real) list"
  rd_rankable :: nat
  rd_reason :: "string option"

datatype study_error = StudyValueError | StudyKeyError | StudyIndexError

definition as_study_error :: "py_error + 'a \<Rightarrow> study_error + 'a" where
  "as_study_error r = (case r of Inl _ \<Rightarrow> Inl StudyValueError | Inr v \<Rightarrow> Inr v)"

text \<open>The dates of the window are keys of the series, so every lookup succeeds.\<close>

definition trailing_vol :: "series \<Rightarrow> datetime \<Rightarrow> nat \<Rightarrow> real option" where
  "trailing_vol sr moment lookback =
     (let dated = sort (map fst (filter (\<lambda>(ts, _). ts \<le> moment) sr));
          window = tail_slice (lookback + 1) dated
      in if length window < lookback + 1 then None
         else (let prices = map (\<lambda>ts. the (map_of sr ts)) window
               in sample_stdev (map2 (\<lambda>earlier later. later / earlier - 1) prices (tl prices))))"

fun inverse_vols :: "(string \<times> series) list \<Rightarrow> datetime \<Rightarrow> string list \<Rightarrow> study_error + (string \<times> real) list" where
  "inverse_vols closes moment [] = Inr []"
| "inverse_vols closes moment (name # names) =
     (case map_of closes name of
        None \<Rightarrow> Inl StudyKeyError
      | Some sr \<Rightarrow>
          bindr (inverse_vols closes moment names) (\<lambda>rest.
            Inr (case trailing_vol sr moment vol_lookback of
                   None \<Rightarrow> rest | Some vol \<Rightarrow> (name, 1 / vol) # rest)))"

definition weights_for ::
  "string list \<Rightarrow> string \<Rightarrow> (string \<times> series) list \<Rightarrow> datetime \<Rightarrow> study_error + (string \<times> real) list" where
  "weights_for ranked weighting closes moment =
     (if ranked = [] then Inr []
      else if weighting = ''ew''
      then (let share = 1 / real (length ranked) in Inr (assoc_of (map (\<lambda>name. (name, share)) ranked)))
      else if weighting \<noteq> ''iv'' then Inl StudyValueError
      else bindr (inverse_vols closes moment ranked) (\<lambda>raw.
             let table = assoc_of raw; mass = py_sum (map snd table)
             in if mass \<le> 0 then Inr [] else Inr (map (\<lambda>(name, v). (name, v / mass)) table)))"

text \<open>The momentum of a name, \<open>None\<close> when it cannot be ranked.\<close>

definition topk_score ::
  "(string \<times> series) list \<Rightarrow> int \<Rightarrow> string \<Rightarrow> datetime \<Rightarrow> string \<Rightarrow> real option" where
  "topk_score closes lookback weighting moment name =
     (case map_of closes name of
        None \<Rightarrow> None
      | Some sr \<Rightarrow>
          (case (map_of sr (moment - days_delta topk_skip_days),
                 map_of sr (moment - days_delta (topk_skip_days + lookback)), map_of sr moment) of
             (Some recent, Some base, Some _) \<Rightarrow>
               if int (bars_through sr moment) < lookback + min_history_margin then None
               else if weighting = ''iv'' \<and> trailing_vol sr moment vol_lookback = None then None
               else Some (recent / base - 1)
           | _ \<Rightarrow> None))"

definition no_weights :: "datetime \<Rightarrow> nat \<Rightarrow> string \<Rightarrow> rebalance_decision" where
  "no_weights moment rankable reason =
     \<lparr>rd_decided_at = moment, rd_weights = [], rd_rankable = rankable, rd_reason = Some reason\<rparr>"

definition topk_decision ::
  "(string \<times> series) list \<Rightarrow> universe_snapshot list \<Rightarrow> int \<Rightarrow> int \<Rightarrow> string \<Rightarrow> datetime
   \<Rightarrow> study_error + rebalance_decision" where
  "topk_decision closes snapshots lookback k weighting moment =
     (case snapshot_for snapshots moment of
        None \<Rightarrow> Inr (no_weights moment 0 ''no_universe_snapshot'')
      | Some snapshot \<Rightarrow>
          (let scores = concat (map (\<lambda>name. case topk_score closes lookback weighting moment name of
                   None \<Rightarrow> [] | Some sc \<Rightarrow> [(sc, name)]) (us_names snapshot))
           in if length scores < min_cross_section
              then Inr (no_weights moment (length scores) ''thin_cross_section'')
              else
                (let ranked = sort_key (\<lambda>(sc, name). (- sc, name)) scores;
                     chosen = map snd (take (nat k) ranked)
                 in bindr (weights_for chosen weighting closes moment) (\<lambda>ws.
                      Inr \<lparr>rd_decided_at = moment, rd_weights = ws, rd_rankable = length scores,
                           rd_reason = None\<rparr>))))"

fun each :: "('a \<Rightarrow> 'e + 'b) \<Rightarrow> 'a list \<Rightarrow> 'e + 'b list" where
  "each f [] = Inr []"
| "each f (x # xs) = bindr (f x) (\<lambda>y. bindr (each f xs) (\<lambda>ys. Inr (y # ys)))"

definition topk_targets ::
  "histories \<Rightarrow> universe_snapshot list \<Rightarrow> int \<Rightarrow> int \<Rightarrow> string \<Rightarrow> study_error + rebalance_decision list" where
  "topk_targets hs snapshots lookback k weighting =
     (if lookback \<le> 0 \<or> k \<le> 0 then Inl StudyValueError
      else
        (let closes = aligned_closes_by_symbol hs
         in each (topk_decision closes snapshots lookback k weighting)
              (filter (\<lambda>moment. weekday moment = 0) (trading_calendar closes))))"

definition control_decision ::
  "(string \<times> series) list \<Rightarrow> universe_snapshot \<Rightarrow> rebalance_decision option" where
  "control_decision closes snapshot =
     (case filter (\<lambda>day. us_snapshot_at snapshot \<le> day) (trading_calendar closes) of
        [] \<Rightarrow> None
      | moment # _ \<Rightarrow>
          (let names = filter (\<lambda>name. quote_at closes name moment \<noteq> None) (us_names snapshot)
           in if names = [] then Some (no_weights moment 0 ''no_priced_member'')
              else
                (let share = 1 / real (length names)
                 in Some \<lparr>rd_decided_at = moment, rd_weights = assoc_of (map (\<lambda>name. (name, share)) names),
                          rd_rankable = length names, rd_reason = None\<rparr>)))"

definition ew_universe_control_targets ::
  "histories \<Rightarrow> universe_snapshot list \<Rightarrow> rebalance_decision list" where
  "ew_universe_control_targets hs snapshots =
     List.map_filter (control_decision (aligned_closes_by_symbol hs)) snapshots"

section \<open>The basket simulator\<close>

record basket =
  bk_cash :: real
  bk_units :: "(string \<times> real) list"
  bk_last_mark :: "(string \<times> real) list"
  bk_pending :: "rebalance_decision option"
  bk_path :: "real list"
  bk_fees :: real
  bk_traded :: real
  bk_rebalances :: nat
  bk_flat_weeks :: nat
  bk_fills_skipped :: nat
  bk_stale_marks :: nat

record basket_run =
  br_calendar :: "datetime list"
  br_path :: "real list"
  br_fees :: real
  br_traded :: real
  br_rebalances :: nat
  br_flat_weeks :: nat
  br_fills_skipped :: nat
  br_stale_marks :: nat

definition dust :: real where
  "dust = 1 / 10 ^ 12"

text \<open>One name of a rebalance at the open of the bar.\<close>

definition fill_name ::
  "real \<Rightarrow> (string \<times> series) list \<Rightarrow> datetime \<Rightarrow> (string \<times> real) list \<Rightarrow> real \<Rightarrow> basket \<Rightarrow> string \<Rightarrow> basket" where
  "fill_name cost_bps opens day weights equity_open b name =
     (case quote_at opens name day of
        None \<Rightarrow> b\<lparr>bk_fills_skipped := bk_fills_skipped b + 1\<rparr>
      | Some price \<Rightarrow>
          (let target = dict_get_or weights name 0 * equity_open;
               current = dict_get_or (bk_units b) name 0 * price;
               delta = target - current
           in if \<bar>delta\<bar> \<le> dust then b
              else
                (let cost = \<bar>delta\<bar> * cost_bps / 10000;
                     b1 = b\<lparr>bk_cash := bk_cash b - (delta + cost), bk_fees := bk_fees b + cost,
                            bk_traded := bk_traded b + (if 0 < equity_open then \<bar>delta\<bar> / equity_open else 0)\<rparr>
                 in if target \<le> 0 then b1\<lparr>bk_units := AList.delete name (bk_units b1)\<rparr>
                    else b1\<lparr>bk_units := AList.update name (target / price) (bk_units b1),
                            bk_last_mark := AList.update name price (bk_last_mark b1)\<rparr>)))"

text \<open>The open of the bar, or the last mark of a name without one.\<close>

definition opening_price :: "(string \<times> series) list \<Rightarrow> datetime \<Rightarrow> basket \<Rightarrow> string \<Rightarrow> real" where
  "opening_price opens day b name =
     (case quote_at opens name day of Some price \<Rightarrow> price | None \<Rightarrow> dict_get_or (bk_last_mark b) name 0)"

definition fill_names :: "basket \<Rightarrow> rebalance_decision \<Rightarrow> string list" where
  "fill_names b decision = remdups (sort (map fst (bk_units b) @ map fst (rd_weights decision)))"

definition equity_at_open :: "(string \<times> series) list \<Rightarrow> datetime \<Rightarrow> string list \<Rightarrow> basket \<Rightarrow> real" where
  "equity_at_open opens day names b =
     foldl (\<lambda>e name. e + dict_get_or (bk_units b) name 0 * opening_price opens day b name) (bk_cash b) names"

definition fill_decision ::
  "real \<Rightarrow> (string \<times> series) list \<Rightarrow> datetime \<Rightarrow> basket \<Rightarrow> rebalance_decision \<Rightarrow> basket" where
  "fill_decision cost_bps opens day b decision =
     (let names = fill_names b decision;
          equity_open = equity_at_open opens day names b;
          b1 = foldl (fill_name cost_bps opens day (rd_weights decision) equity_open) b names
      in b1\<lparr>bk_rebalances := bk_rebalances b1 + 1, bk_pending := None\<rparr>)"

definition fill_pending ::
  "real \<Rightarrow> (string \<times> series) list \<Rightarrow> datetime \<Rightarrow> basket \<Rightarrow> basket" where
  "fill_pending cost_bps opens day b =
     (case bk_pending b of None \<Rightarrow> b | Some decision \<Rightarrow> fill_decision cost_bps opens day b decision)"

text \<open>The equity at the close: a name without a close keeps its last mark.\<close>

definition mark_unit ::
  "(string \<times> series) list \<Rightarrow> datetime \<Rightarrow> basket \<times> real \<Rightarrow> string \<times> real \<Rightarrow> basket \<times> real" where
  "mark_unit closes day be nh =
     (case (be, nh) of ((b, equity), (name, held)) \<Rightarrow>
        (case quote_at closes name day of
           None \<Rightarrow> (b\<lparr>bk_stale_marks := bk_stale_marks b + 1\<rparr>, equity + held * dict_get_or (bk_last_mark b) name 0)
         | Some price \<Rightarrow> (b\<lparr>bk_last_mark := AList.update name price (bk_last_mark b)\<rparr>, equity + held * price)))"

definition mark_basket :: "(string \<times> series) list \<Rightarrow> datetime \<Rightarrow> basket \<Rightarrow> basket" where
  "mark_basket closes day b =
     (case foldl (mark_unit closes day) (b, bk_cash b) (bk_units b) of
        (b1, equity) \<Rightarrow> b1\<lparr>bk_path := bk_path b1 @ [equity]\<rparr>)"

definition take_decision :: "rebalance_decision option \<Rightarrow> basket \<Rightarrow> basket" where
  "take_decision decision b =
     (case decision of
        None \<Rightarrow> b
      | Some d \<Rightarrow> b\<lparr>bk_pending := Some d,
                    bk_flat_weeks := bk_flat_weeks b + (if rd_weights d = [] then 1 else 0)\<rparr>)"

definition basket_bar ::
  "real \<Rightarrow> market_tables \<Rightarrow> (datetime \<times> rebalance_decision) list \<Rightarrow> basket \<Rightarrow> datetime \<Rightarrow> basket" where
  "basket_bar cost_bps tables by_date b day =
     take_decision (map_of by_date day)
       (mark_basket (mt_closes tables) day (fill_pending cost_bps (mt_opens tables) day b))"

text \<open>\<open>max(..., key=decided_at, default=None)\<close>: the first of the latest.\<close>

definition latest_decision :: "rebalance_decision list \<Rightarrow> rebalance_decision option" where
  "latest_decision ds =
     foldl (\<lambda>best d. case best of
              None \<Rightarrow> Some d
            | Some x \<Rightarrow> if rd_decided_at x < rd_decided_at d then Some d else Some x) None ds"

definition window_calendar :: "datetime option \<Rightarrow> datetime option \<Rightarrow> datetime list \<Rightarrow> datetime list" where
  "window_calendar start stop days =
     filter (\<lambda>day. (case start of None \<Rightarrow> True | Some s \<Rightarrow> s \<le> day) \<and> (case stop of None \<Rightarrow> True | Some e \<Rightarrow> day < e)) days"

definition new_basket :: "real \<Rightarrow> rebalance_decision option \<Rightarrow> basket" where
  "new_basket starting_equity pending =
     \<lparr>bk_cash = starting_equity, bk_units = [], bk_last_mark = [], bk_pending = pending, bk_path = [],
      bk_fees = 0, bk_traded = 0, bk_rebalances = 0, bk_flat_weeks = 0, bk_fills_skipped = 0, bk_stale_marks = 0\<rparr>"

definition run_basket ::
  "market_tables \<Rightarrow> rebalance_decision list \<Rightarrow> real \<Rightarrow> real \<Rightarrow> datetime option \<Rightarrow> datetime option
   \<Rightarrow> study_error + basket_run option" where
  "run_basket tables decisions cost_bps starting_equity start stop =
     (if cost_bps < 0 \<or> starting_equity \<le> 0 then Inl StudyValueError
      else
        (let calendar = window_calendar start stop (mt_calendar tables)
         in if length calendar < 2 then Inr None
            else
              (let by_date = assoc_of (map (\<lambda>d. (rd_decided_at d, d)) decisions);
                   pending = latest_decision (filter (\<lambda>d. rd_decided_at d < hd calendar) decisions);
                   b = foldl (basket_bar cost_bps tables by_date) (new_basket starting_equity pending) calendar
               in Inr (Some \<lparr>br_calendar = calendar, br_path = bk_path b, br_fees = bk_fees b,
                             br_traded = bk_traded b, br_rebalances = bk_rebalances b,
                             br_flat_weeks = bk_flat_weeks b, br_fills_skipped = bk_fills_skipped b,
                             br_stale_marks = bk_stale_marks b\<rparr>))))"

definition basket_equity_path ::
  "market_tables \<Rightarrow> rebalance_decision list \<Rightarrow> real \<Rightarrow> real \<Rightarrow> study_error + (datetime \<times> real) list" where
  "basket_equity_path tables decisions cost_bps starting_equity =
     bindr (run_basket tables decisions cost_bps starting_equity None None) (\<lambda>r.
       Inr (case r of None \<Rightarrow> [] | Some run \<Rightarrow> zip (br_calendar run) (br_path run)))"

section \<open>Fills conserve value\<close>

text \<open>The worth of the basket at the open of a bar.\<close>

definition worth :: "(string \<times> series) list \<Rightarrow> datetime \<Rightarrow> basket \<Rightarrow> real" where
  "worth opens day b = bk_cash b + (\<Sum>(name, held)\<leftarrow>bk_units b. held * opening_price opens day b name)"

definition positive_quotes :: "(string \<times> series) list \<Rightarrow> bool" where
  "positive_quotes table \<longleftrightarrow> (\<forall>name day p. quote_at table name day = Some p \<longrightarrow> 0 < p)"

definition long_only :: "basket \<Rightarrow> bool" where
  "long_only b \<longleftrightarrow> distinct (map fst (bk_units b)) \<and> (\<forall>(_, held)\<in>set (bk_units b). 0 < held)"

lemma sum_list_delete:
  "distinct (map fst d) \<Longrightarrow>
   (\<Sum>(k, v)\<leftarrow>AList.delete n d. v * f k) = (\<Sum>(k, v)\<leftarrow>d. v * f k) - dict_get_or d n 0 * (f n :: real)"
proof (induction d)
  case (Cons kv d)
  obtain k v where kv: "kv = (k, v)" by (cases kv)
  show ?case
  proof (cases "k = n")
    case True
    with Cons.prems kv have "AList.delete n (kv # d) = d" by (simp add: AList.delete_eq filter_id_conv image_iff) force
    with True kv show ?thesis by (simp add: dict_get_or_def)
  next
    case False
    with Cons kv show ?thesis by (simp add: dict_get_or_def AList.delete_eq)
  qed
qed (simp add: dict_get_or_def)

lemma sum_list_set:
  "distinct (map fst d) \<Longrightarrow>
   (\<Sum>(k, v)\<leftarrow>AList.update n w d. v * f k) = (\<Sum>(k, v)\<leftarrow>d. v * f k) + (w - dict_get_or d n 0) * (f n :: real)"
proof (induction d)
  case (Cons kv d)
  obtain k v where kv: "kv = (k, v)" by (cases kv)
  show ?case
  proof (cases "k = n")
    case True
    with kv show ?thesis by (simp add: dict_get_or_def left_diff_distrib)
  next
    case False
    with kv Cons show ?thesis by (simp add: dict_get_or_def)
  qed
qed (simp add: dict_get_or_def)

lemma opening_price_fill [simp]:
  "opening_price opens day (fill_name cost opens day ws e b name) m = opening_price opens day b m"
  by (auto simp: opening_price_def fill_name_def Let_def dict_get_or_def update_conv' split: option.splits)

lemma fill_name_step:
  fixes day :: datetime
  assumes "long_only b" "positive_quotes opens" "0 \<le> dict_get_or ws name 0 * e" "0 \<le> cost"
  defines "b' \<equiv> fill_name cost opens day ws e b name"
  shows "long_only b'" and "worth opens day b' + bk_fees b' = worth opens day b + bk_fees b"
    and "bk_fees b \<le> bk_fees b'" and "bk_traded b \<le> bk_traded b'"
    and "0 < e \<Longrightarrow> bk_fees b' - bk_fees b = cost / 10000 * (e * (bk_traded b' - bk_traded b))"
proof -
  have "long_only b' \<and> worth opens day b' + bk_fees b' = worth opens day b + bk_fees b
    \<and> bk_fees b \<le> bk_fees b' \<and> bk_traded b \<le> bk_traded b'
    \<and> (0 < e \<longrightarrow> bk_fees b' - bk_fees b = cost / 10000 * (e * (bk_traded b' - bk_traded b)))"
  proof (cases "quote_at opens name day")
    case None
    then have "b' = b\<lparr>bk_fills_skipped := bk_fills_skipped b + 1\<rparr>" by (simp add: b'_def fill_name_def)
    moreover have "opening_price opens day b' m = opening_price opens day b m" for m by (simp add: b'_def)
    ultimately show ?thesis using assms(1) by (simp add: worth_def long_only_def)
  next
    case (Some price)
    with assms(2) have price: "0 < price" by (auto simp: positive_quotes_def)
    have own: "opening_price opens day b name = price" by (simp add: opening_price_def Some)
    define target where "target = dict_get_or ws name 0 * e"
    define current where "current = dict_get_or (bk_units b) name 0 * price"
    show ?thesis
    proof (cases "\<bar>target - current\<bar> \<le> dust")
      case True
      then have "b' = b" by (simp add: b'_def fill_name_def Some target_def current_def)
      with assms(1) show ?thesis by simp
    next
      case False
      define paid where "paid = \<bar>target - current\<bar> * cost / 10000"
      have paid: "0 \<le> paid" using assms(4) by (simp add: paid_def)
      have money: "bk_cash b' = bk_cash b - (target - current + paid)" "bk_fees b' = bk_fees b + paid"
        "bk_traded b' = bk_traded b + (if 0 < e then \<bar>target - current\<bar> / e else 0)"
        using False by (simp_all add: b'_def fill_name_def Some target_def [symmetric] current_def [symmetric]
            paid_def [symmetric] Let_def)
      have units: "bk_units b' = (if target \<le> 0 then AList.delete name (bk_units b)
          else AList.update name (target / price) (bk_units b))"
        using False by (simp add: b'_def fill_name_def Some target_def [symmetric] current_def [symmetric] Let_def)
      have prices: "opening_price opens day b' m = opening_price opens day b m" for m by (simp add: b'_def)
      have d: "distinct (map fst (bk_units b))" using assms(1) by (simp add: long_only_def)
      have "(\<Sum>(m, held)\<leftarrow>bk_units b'. held * opening_price opens day b m)
          = (\<Sum>(m, held)\<leftarrow>bk_units b. held * opening_price opens day b m) + (target - current)"
      proof (cases "target \<le> 0")
        case True
        with assms(3) have "target = 0" by (simp add: target_def)
        then show ?thesis
          using True by (simp add: units sum_list_delete [OF d, of "opening_price opens day b" name] own current_def)
      next
        case f: False
        then show ?thesis using price
          by (simp add: units sum_list_set [OF d, of "opening_price opens day b" name] own current_def field_simps)
      qed
      then have "worth opens day b' + bk_fees b' = worth opens day b + bk_fees b"
        by (simp add: worth_def prices money)
      moreover have "long_only b'"
      proof (cases "target \<le> 0")
        case True
        with assms(1) show ?thesis
          by (auto simp: long_only_def units AList.delete_eq distinct_map inj_on_def)
      next
        case f: False
        have "(k, v) \<in> set (AList.update name w us) \<Longrightarrow> (k, v) = (name, w) \<or> (k, v) \<in> set us" for k v w and us :: "(string \<times> real) list"
          by (induction us) (auto split: if_splits)
        with f assms(1) price show ?thesis
          by (fastforce simp: long_only_def units distinct_update)
      qed
      ultimately show ?thesis using paid by (simp add: money paid_def)
    qed
  qed
  then show "long_only b'" "worth opens day b' + bk_fees b' = worth opens day b + bk_fees b"
    "bk_fees b \<le> bk_fees b'" "bk_traded b \<le> bk_traded b'"
    "0 < e \<Longrightarrow> bk_fees b' - bk_fees b = cost / 10000 * (e * (bk_traded b' - bk_traded b))" by blast+
qed

lemma fill_names_fold:
  fixes day :: datetime and names :: "string list"
  assumes "positive_quotes opens" "0 \<le> cost" "long_only b" "\<forall>name. 0 \<le> dict_get_or ws name 0 * e"
  defines "b' \<equiv> foldl (fill_name cost opens day ws e) b names"
  shows "long_only b' \<and> worth opens day b' + bk_fees b' = worth opens day b + bk_fees b
    \<and> bk_fees b \<le> bk_fees b' \<and> bk_traded b \<le> bk_traded b'
    \<and> (0 < e \<longrightarrow> bk_fees b' - bk_fees b = cost / 10000 * (e * (bk_traded b' - bk_traded b)))"
  using assms(3) unfolding b'_def
proof (induction names arbitrary: b)
  case (Cons name names)
  let ?b = "fill_name cost opens day ws e b name"
  from fill_name_step [OF Cons.prems assms(1) _ assms(2), of ws name e day] assms(4)
  have s: "long_only ?b" "worth opens day ?b + bk_fees ?b = worth opens day b + bk_fees b"
    "bk_fees b \<le> bk_fees ?b" "bk_traded b \<le> bk_traded ?b"
    "0 < e \<Longrightarrow> bk_fees ?b - bk_fees b = cost / 10000 * (e * (bk_traded ?b - bk_traded b))" by auto
  from Cons.IH [OF s(1)] s show ?case by (auto simp: algebra_simps)
qed simp

lemma sum_units_names:
  assumes "distinct (map fst us)" "distinct names" "fst ` set us \<subseteq> set names"
  shows "(\<Sum>name\<leftarrow>names. dict_get_or us name 0 * f name) = (\<Sum>(name, held)\<leftarrow>us. held * (f name :: real))"
proof -
  have "(\<Sum>name\<leftarrow>names. dict_get_or us name 0 * f name) = (\<Sum>name\<in>set names. dict_get_or us name 0 * f name)"
    using assms(2) by (simp add: sum_list_distinct_conv_sum_set)
  also have "\<dots> = (\<Sum>name\<in>fst ` set us. dict_get_or us name 0 * f name)"
    using assms(3) by (intro sum.mono_neutral_right) (auto simp: dict_get_or_def dom_map_of_conv_image_fst [symmetric] split: option.splits)
  also have "\<dots> = (\<Sum>name\<leftarrow>map fst us. dict_get_or us name 0 * f name)"
    by (simp only: sum_list_distinct_conv_sum_set [OF assms(1)] set_map)
  also have "\<dots> = (\<Sum>(name, held)\<leftarrow>us. held * f name)"
    using assms(1) by (auto simp: dict_get_or_def intro!: arg_cong [where f = sum_list])
  finally show ?thesis .
qed

lemma equity_at_open_worth:
  assumes "long_only b"
  shows "equity_at_open opens day (fill_names b decision) b = worth opens day b"
proof -
  have "foldl (\<lambda>e name. e + g name) a names = a + (\<Sum>name\<leftarrow>names. g name)" for a :: real and g and names :: "string list"
    by (induction names arbitrary: a) simp_all
  then have "equity_at_open opens day (fill_names b decision) b
      = bk_cash b + (\<Sum>name\<leftarrow>fill_names b decision. dict_get_or (bk_units b) name 0 * opening_price opens day b name)"
    by (simp add: equity_at_open_def)
  with sum_units_names [of "bk_units b" "fill_names b decision" "opening_price opens day b"] assms
  show ?thesis by (simp add: worth_def long_only_def fill_names_def)
qed
definition weights_ok :: "(string \<times> real) list \<Rightarrow> bool" where
  "weights_ok ws \<longleftrightarrow> distinct (map fst ws) \<and> (\<forall>(_, w)\<in>set ws. 0 < w)
     \<and> (ws \<noteq> [] \<longrightarrow> (\<Sum>(_, w)\<leftarrow>ws. w) = 1)"

lemma weights_ok_nonneg: "weights_ok ws \<Longrightarrow> 0 \<le> dict_get_or ws name 0"
  by (force simp: weights_ok_def dict_get_or_def dest: map_of_SomeD split: option.splits)

lemma opening_price_bookkeeping [simp]:
  "opening_price opens day (c\<lparr>bk_rebalances := r, bk_pending := p\<rparr>) name = opening_price opens day c name"
  by (simp add: opening_price_def split: option.splits)

lemma bookkeeping [simp]:
  "worth opens day (c\<lparr>bk_rebalances := r, bk_pending := p\<rparr>) = worth opens day c"
  "long_only (c\<lparr>bk_rebalances := r, bk_pending := p\<rparr>) = long_only c"
  by (simp_all add: worth_def long_only_def)

lemma fill_decision_fold:
  assumes "positive_quotes opens" "0 \<le> cost" "long_only b" "weights_ok (rd_weights dec)" "0 \<le> worth opens day b"
  defines "b' \<equiv> fill_decision cost opens day b dec"
  shows "long_only b' \<and> worth opens day b' + bk_fees b' = worth opens day b + bk_fees b
    \<and> bk_fees b \<le> bk_fees b' \<and> bk_traded b \<le> bk_traded b'
    \<and> (0 < worth opens day b \<longrightarrow>
         bk_fees b' - bk_fees b = cost / 10000 * (worth opens day b * (bk_traded b' - bk_traded b)))"
proof -
  have "\<forall>name. 0 \<le> dict_get_or (rd_weights dec) name 0 * worth opens day b"
    using weights_ok_nonneg [OF assms(4)] assms(5) by simp
  from fill_names_fold [OF assms(1-3) this, of day "fill_names b dec"]
  show ?thesis
    by (simp add: b'_def fill_decision_def Let_def equity_at_open_worth [OF assms(3)])
qed
section \<open>The weights of a decision\<close>

lemma assoc_of_id: "distinct (map fst kvs) \<Longrightarrow> assoc_of kvs = kvs"
proof -
  have "distinct (map fst (d @ kvs)) \<Longrightarrow> foldl (\<lambda>d kv. AList.update (fst kv) (snd kv) d) d kvs = d @ kvs" for d
    by (induction kvs arbitrary: d) (auto simp: update_absent)
  from this [of "[]"] show "distinct (map fst kvs) \<Longrightarrow> assoc_of kvs = kvs" by (simp add: assoc_of_def)
qed

lemma sum_list_share: "xs \<noteq> [] \<Longrightarrow> (\<Sum>x\<leftarrow>xs. 1 / real (length xs)) = 1"
  by (simp add: sum_list_triv)

lemma equal_weights_ok:
  assumes "names \<noteq> []" "distinct names"
  shows "weights_ok (assoc_of (map (\<lambda>name. (name, 1 / real (length names))) names))"
    and "map fst (assoc_of (map (\<lambda>name. (name, 1 / real (length names))) names)) = names"
proof -
  have "assoc_of (map (\<lambda>name. (name, 1 / real (length names))) names) = map (\<lambda>name. (name, 1 / real (length names))) names"
    by (rule assoc_of_id) (simp add: comp_def assms(2))
  then show "weights_ok (assoc_of (map (\<lambda>name. (name, 1 / real (length names))) names))"
    "map fst (assoc_of (map (\<lambda>name. (name, 1 / real (length names))) names)) = names"
    using assms sum_list_share [OF assms(1)] by (auto simp: weights_ok_def comp_def)
qed

lemma trailing_vol_pos: "trailing_vol sr moment n = Some v \<Longrightarrow> 0 < v"
  by (auto simp: trailing_vol_def sample_stdev_def Let_def split: if_splits)

lemma inverse_vols_result:
  assumes "inverse_vols closes moment names = Inr raw"
    and "\<And>name sr. name \<in> set names \<Longrightarrow> map_of closes name = Some sr \<Longrightarrow> trailing_vol sr moment vol_lookback \<noteq> None"
  shows "map fst raw = names \<and> (\<forall>(_, v)\<in>set raw. 0 < v)"
  using assms
proof (induction names arbitrary: raw)
  case (Cons name names)
  from Cons.prems(1) obtain sr rest where sr: "map_of closes name = Some sr"
    and rest: "inverse_vols closes moment names = Inr rest"
    and raw: "raw = (case trailing_vol sr moment vol_lookback of None \<Rightarrow> rest | Some v \<Rightarrow> (name, 1 / v) # rest)"
    by (auto simp: bindr_eq_Inr split: option.splits)
  from Cons.prems(2) [of name sr] sr obtain v where v: "trailing_vol sr moment vol_lookback = Some v" by auto
  have "map fst rest = names \<and> (\<forall>(_, v)\<in>set rest. 0 < v)"
    by (rule Cons.IH [OF rest]) (use Cons.prems(2) in auto)
  with trailing_vol_pos [OF v] show ?case by (auto simp: raw v)
qed simp

lemma normalised_ok:
  assumes "raw \<noteq> []" "distinct (map fst raw)" "\<forall>(_, v)\<in>set raw. 0 < v"
  shows "0 < py_sum (map snd raw)" and "weights_ok (map (\<lambda>(name, v). (name, v / py_sum (map snd raw))) raw)"
proof -
  show pos: "0 < py_sum (map snd raw)"
    using assms(1,3)
  proof (induction raw)
    case (Cons kv raw)
    then show ?case by (cases "raw = []") (auto intro: add_pos_pos)
  qed simp
  have "(\<Sum>(_, v)\<leftarrow>map (\<lambda>(name, v). (name, v / s)) raw. v) = py_sum (map snd raw) / s" for s
    by (induction raw) (auto simp: add_divide_distrib)
  with pos assms show "weights_ok (map (\<lambda>(name, v). (name, v / py_sum (map snd raw))) raw)"
    by (auto simp: weights_ok_def comp_def case_prod_unfold)
qed

lemma weights_for_result:
  assumes "weights_for names weighting closes moment = Inr ws" "distinct names"
    and "\<And>name sr. weighting = ''iv'' \<Longrightarrow> name \<in> set names \<Longrightarrow> map_of closes name = Some sr
      \<Longrightarrow> trailing_vol sr moment vol_lookback \<noteq> None"
  shows "weights_ok ws \<and> map fst ws = names"
proof (cases "names = []")
  case True
  with assms(1) show ?thesis by (simp add: weights_for_def weights_ok_def)
next
  case False
  show ?thesis
  proof (cases "weighting = ''ew''")
    case True
    with False assms(1) equal_weights_ok [OF False assms(2)] show ?thesis by (auto simp: weights_for_def Let_def)
  next
    case ew: False
    with False assms(1) have iv: "weighting = ''iv''" by (auto simp: weights_for_def split: if_splits)
    with False assms(1) obtain raw where raw: "inverse_vols closes moment names = Inr raw"
      and ws: "ws = (if py_sum (map snd (assoc_of raw)) \<le> 0 then []
        else map (\<lambda>(name, v). (name, v / py_sum (map snd (assoc_of raw)))) (assoc_of raw))"
      by (auto simp: weights_for_def Let_def bindr_eq_Inr split: if_splits)
    from inverse_vols_result [OF raw] assms(3) iv have r: "map fst raw = names" "\<forall>(_, v)\<in>set raw. 0 < v" by auto
    with assms(2) have id: "assoc_of raw = raw" by (intro assoc_of_id) simp
    from r False have "raw \<noteq> []" by auto
    with normalised_ok [of raw] r assms(2) have "weights_ok ws" "ws = map (\<lambda>(name, v). (name, v / py_sum (map snd raw))) raw"
      by (auto simp: ws id)
    with r(1) show ?thesis by (auto simp: comp_def case_prod_unfold)
  qed
qed

lemma each_Inr: "each f xs = Inr ys \<longleftrightarrow> list_all2 (\<lambda>x y. f x = Inr y) xs ys"
  by (induction xs arbitrary: ys) (auto simp: bindr_eq_Inr list_all2_Cons1)

lemma snapshot_for_member:
  assumes "snapshot_for ss t = Some s"
  shows "s \<in> set ss \<and> us_snapshot_at s \<le> t"
proof -
  have "s \<in> set (takeWhile (\<lambda>s. us_snapshot_at s \<le> t) ss)"
    using assms by (auto simp: snapshot_for_def split: list.splits)
  then show ?thesis by (auto dest: set_takeWhileD)
qed

text \<open>A decision with weights holds the best scorers of the snapshot in force.\<close>

definition decision_ok ::
  "(string \<times> series) list \<Rightarrow> universe_snapshot list \<Rightarrow> int \<Rightarrow> int \<Rightarrow> string \<Rightarrow> rebalance_decision \<Rightarrow> bool" where
  "decision_ok closes ss lookback k weighting d \<longleftrightarrow>
     weights_ok (rd_weights d)
   \<and> (rd_weights d \<noteq> [] \<longrightarrow> (\<exists>s\<in>set ss. snapshot_for ss (rd_decided_at d) = Some s
       \<and> us_snapshot_at s \<le> rd_decided_at d \<and> length (rd_weights d) \<le> nat k \<and> 10 \<le> rd_rankable d
       \<and> (\<forall>name\<in>fst ` set (rd_weights d). name \<in> set (us_names s)
            \<and> (\<exists>sc. topk_score closes lookback weighting (rd_decided_at d) name = Some sc
              \<and> (\<forall>other\<in>set (us_names s) - fst ` set (rd_weights d). \<forall>sc'.
                   topk_score closes lookback weighting (rd_decided_at d) other = Some sc' \<longrightarrow> sc' \<le> sc)))))"

lemma topk_score_vol:
  "topk_score closes lookback ''iv'' moment name = Some sc \<Longrightarrow> map_of closes name = Some sr \<Longrightarrow>
   trailing_vol sr moment vol_lookback \<noteq> None"
  by (auto simp: topk_score_def split: option.splits if_splits)

lemma topk_decision_ok:
  assumes "topk_decision closes ss lookback k weighting moment = Inr d" "\<forall>s\<in>set ss. distinct (us_names s)"
  shows "decision_ok closes ss lookback k weighting d \<and> rd_decided_at d = moment"
proof (cases "snapshot_for ss moment")
  case None
  with assms(1) show ?thesis by (auto simp: topk_decision_def no_weights_def decision_ok_def weights_ok_def)
next
  case (Some s)
  let ?sc = "topk_score closes lookback weighting moment"
  define scores where "scores = concat (map (\<lambda>name. case ?sc name of None \<Rightarrow> [] | Some sc \<Rightarrow> [(sc, name)]) (us_names s))"
  have mem: "(sc, name) \<in> set scores \<longleftrightarrow> name \<in> set (us_names s) \<and> ?sc name = Some sc" for sc name
    by (auto simp: scores_def split: option.splits)
  have s: "s \<in> set ss" "us_snapshot_at s \<le> moment" using snapshot_for_member [OF Some] by simp_all
  with assms(2) have "distinct (us_names s)" by simp
  moreover have "distinct names \<Longrightarrow> set (map snd (concat (map (\<lambda>name. case ?sc name of None \<Rightarrow> [] | Some sc \<Rightarrow> [(sc, name)]) names)))
      \<subseteq> set names \<and> distinct (map snd (concat (map (\<lambda>name. case ?sc name of None \<Rightarrow> [] | Some sc \<Rightarrow> [(sc, name)]) names)))" for names
    by (induction names) (auto split: option.splits)
  ultimately have dist: "distinct (map snd scores)" unfolding scores_def by blast
  show ?thesis
  proof (cases "length scores < min_cross_section")
    case True
    with assms(1) Some show ?thesis
      by (auto simp: topk_decision_def scores_def [symmetric] Let_def no_weights_def decision_ok_def weights_ok_def)
  next
    case False
    let ?f = "\<lambda>(sc :: real, name :: string). (- sc, name)"
    define ranked where "ranked = sort_key ?f scores"
    define chosen where "chosen = map snd (take (nat k) ranked)"
    from False assms(1) Some obtain ws where ws: "weights_for chosen weighting closes moment = Inr ws"
      and d: "d = \<lparr>rd_decided_at = moment, rd_weights = ws, rd_rankable = length scores, rd_reason = None\<rparr>"
      by (auto simp: topk_decision_def scores_def [symmetric] Let_def ranked_def [symmetric] chosen_def [symmetric]
          bindr_eq_Inr)
    have set_ranked: "set ranked = set scores" and sorted: "sorted (map ?f ranked)" by (simp_all add: ranked_def)
    have dist': "distinct chosen"
      using dist by (simp add: chosen_def ranked_def distinct_map distinct_take inj_on_def set_ranked)
        (metis (no_types, lifting) in_set_takeD ranked_def set_ranked)
    have of_chosen: "\<exists>sc. (sc, name) \<in> set (take (nat k) ranked) \<and> name \<in> set (us_names s) \<and> ?sc name = Some sc"
      if "name \<in> set chosen" for name
      using that mem set_ranked by (force simp: chosen_def dest: in_set_takeD)
    have res: "weights_ok ws \<and> map fst ws = chosen"
      by (rule weights_for_result [OF ws dist']) (use of_chosen topk_score_vol in fastforce)
    have best: "sc' \<le> sc" if "name \<in> set chosen" "?sc name = Some sc" "other \<in> set (us_names s)"
      "other \<notin> set chosen" "?sc other = Some sc'" for name other sc sc'
    proof -
      from of_chosen [OF that(1)] that(2) have "(sc, name) \<in> set (take (nat k) ranked)" by auto
      moreover have "(sc', other) \<in> set ranked" using that by (simp add: set_ranked mem)
      moreover have "(sc', other) \<notin> set (take (nat k) ranked)" using that(4) by (force simp: chosen_def)
      ultimately have "?f (sc, name) \<le> ?f (sc', other)" using take_sorted_before [OF sorted] by blast
      then show ?thesis by auto
    qed
    have keys: "fst ` set ws = set chosen" using res by (metis set_map)
    have "length ws \<le> nat k" using res by (metis chosen_def length_map length_take min.cobounded2)
    moreover have "\<forall>name\<in>set chosen. name \<in> set (us_names s) \<and> (\<exists>sc. ?sc name = Some sc
        \<and> (\<forall>other\<in>set (us_names s) - set chosen. \<forall>sc'. ?sc other = Some sc' \<longrightarrow> sc' \<le> sc))"
      using of_chosen best by blast
    ultimately show ?thesis
      using res Some s False unfolding decision_ok_def d by (simp add: keys min_cross_section_def)
  qed
qed
section \<open>Nothing after a bar changes what was done through it\<close>

definition lookup :: "(string \<times> series) list \<Rightarrow> string \<Rightarrow> series" where
  "lookup table name = (case map_of table name of None \<Rightarrow> [] | Some sr \<Rightarrow> sr)"

definition same_quotes :: "datetime \<Rightarrow> (string \<times> series) list \<Rightarrow> (string \<times> series) list \<Rightarrow> bool" where
  "same_quotes T A A' \<longleftrightarrow> (\<forall>name. keep (\<lambda>t. t \<le> T) (lookup A name) = keep (\<lambda>t. t \<le> T) (lookup A' name))"

lemma quote_at_lookup: "quote_at table name day = map_of (lookup table name) day"
  by (simp add: quote_at_def lookup_def split: option.splits)

lemma same_quotes_at: "same_quotes T A A' \<Longrightarrow> day \<le> T \<Longrightarrow> quote_at A name day = quote_at A' name day"
  unfolding quote_at_lookup same_quotes_def by (rule keep_cong [where P = "\<lambda>t. t \<le> T"]) auto

lemma agree_map_of:
  "agree_names T B B' \<Longrightarrow>
   (case (map_of B name, map_of B' name) of
      (None, None) \<Rightarrow> True
    | (Some cs, Some cs') \<Rightarrow> filter (\<lambda>c. c_opened_at c < T) cs = filter (\<lambda>c. c_opened_at c < T) cs'
    | _ \<Rightarrow> False)"
  by (induction rule: list_all2_induct) (auto split: option.splits)

lemma map_of_price_series:
  "map_of (price_series f hs) name =
     (case map_of (histories_by_canonical ''1d'' hs) name of
        None \<Rightarrow> None
      | Some cs \<Rightarrow> (let sr = series_of f (filter (\<lambda>c. 0 < f c) cs) in if sr = [] then None else Some sr))"
proof -
  have "distinct (map fst B) \<Longrightarrow>
    map_of (List.map_filter (\<lambda>(name, cs).
         let sr = series_of f (filter (\<lambda>c. 0 < f c) cs) in if sr = [] then None else Some (name, sr)) B) name
    = (case map_of B name of
        None \<Rightarrow> None
      | Some cs \<Rightarrow> (let sr = series_of f (filter (\<lambda>c. 0 < f c) cs) in if sr = [] then None else Some sr))" for B :: histories
  proof (induction B)
    case (Cons b B)
    obtain n cs where b: "b = (n, cs)" by (cases b)
    have "n \<notin> set (map fst B) \<Longrightarrow> map_of B n = None" by (simp add: map_of_eq_None_iff)
    with Cons b show ?case by (auto simp: List.map_filter_simps Let_def)
  qed (simp add: List.map_filter_simps)
  from this [OF distinct_histories] show ?thesis by (simp add: price_series_def)
qed

lemma lookup_price_series:
  "lookup (price_series f hs) name =
     (case map_of (histories_by_canonical ''1d'' hs) name of
        None \<Rightarrow> [] | Some cs \<Rightarrow> series_of f (filter (\<lambda>c. 0 < f c) cs))"
  by (auto simp: lookup_def map_of_price_series Let_def series_of_def assoc_of_def split: option.splits)

lemma map_filter_keys:
  assumes "\<And>k v r. g (k, v) = Some r \<Longrightarrow> fst r = k"
  shows "distinct (map fst B) \<Longrightarrow> set (map fst (List.map_filter g B)) \<subseteq> set (map fst B)
    \<and> distinct (map fst (List.map_filter g B))"
proof (induction B)
  case (Cons b B)
  obtain k v where b: "b = (k, v)" by (cases b)
  show ?case
  proof (cases "g b")
    case None
    with Cons show ?thesis by (auto simp: List.map_filter_simps)
  next
    case (Some r)
    with assms b have "fst r = fst b" by auto
    with Some Cons show ?thesis by (auto simp: List.map_filter_simps)
  qed
qed (simp add: List.map_filter_simps)

lemma price_series_distinct: "distinct (map fst (price_series f hs))"
  unfolding price_series_def
  by (rule map_filter_keys [THEN conjunct2]) (auto simp: Let_def distinct_histories split: if_splits)

lemma price_series_agree:
  assumes "one_history_each hs" "one_history_each hs'" "same_until (T + 1) hs hs'"
  shows "same_quotes T (price_series f hs) (price_series f hs')"
  unfolding same_quotes_def
proof
  fix name
  have f: "filter (\<lambda>c. c_opened_at c \<le> T) (filter P cs) = filter P (filter (\<lambda>c. c_opened_at c \<le> T) cs)" for P and cs :: "candle list"
    unfolding filter_filter by (rule filter_cong) auto
  from agree_map_of [OF agree_daily [OF assms(3)], of name]
  show "keep (\<lambda>t. t \<le> T) (lookup (price_series f hs) name) = keep (\<lambda>t. t \<le> T) (lookup (price_series f hs') name)"
    unfolding lookup_price_series histories_by_canonical_distinct [OF assms(1)] histories_by_canonical_distinct [OF assms(2)]
    by (auto simp: keep_series_of f simp del: filter_filter split: option.splits)
qed

lemma bars_through_keep:
  assumes "keep (\<lambda>t. t \<le> T) sr = keep (\<lambda>t. t \<le> T) sr'" "moment \<le> T"
  shows "keep (\<lambda>t. t \<le> moment) sr = keep (\<lambda>t. t \<le> moment) sr'" and "bars_through sr moment = bars_through sr' moment"
proof -
  have "keep (\<lambda>t. t \<le> moment) s = keep (\<lambda>t. t \<le> moment) (keep (\<lambda>t. t \<le> T) s)" for s :: series
    using assms(2) unfolding filter_filter by (intro filter_cong) auto
  with assms(1) show "keep (\<lambda>t. t \<le> moment) sr = keep (\<lambda>t. t \<le> moment) sr'" by metis
  then show "bars_through sr moment = bars_through sr' moment" by (simp add: bars_through_def)
qed

lemma trailing_vol_keep:
  assumes "keep (\<lambda>t. t \<le> T) sr = keep (\<lambda>t. t \<le> T) sr'" "moment \<le> T"
  shows "trailing_vol sr moment n = trailing_vol sr' moment n"
proof -
  define window where "window = tail_slice (n + 1) (sort (map fst (keep (\<lambda>t. t \<le> moment) sr)))"
  have "map (\<lambda>ts. the (map_of sr ts)) window = map (\<lambda>ts. the (map_of sr' ts)) window"
  proof (rule map_cong [OF refl])
    fix ts assume "ts \<in> set window"
    then have "ts \<in> set (sort (map fst (keep (\<lambda>t. t \<le> moment) sr)))"
      unfolding window_def by (rule subsetD [OF set_tail_slice])
    then have "ts \<le> T" using assms(2) by auto
    then show "the (map_of sr ts) = the (map_of sr' ts)" using keep_cong [OF assms(1)] by simp
  qed
  then show ?thesis
    unfolding trailing_vol_def Let_def bars_through_keep(1) [OF assms, symmetric] window_def [symmetric]
    by (simp only:)
qed

lemma topk_score_lookup:
  "topk_score closes lookback weighting moment name =
     (let sr = lookup closes name
      in case (map_of sr (moment - days_delta topk_skip_days),
               map_of sr (moment - days_delta (topk_skip_days + lookback)), map_of sr moment) of
             (Some recent, Some base, Some _) \<Rightarrow>
               if int (bars_through sr moment) < lookback + min_history_margin then None
               else if weighting = ''iv'' \<and> trailing_vol sr moment vol_lookback = None then None
               else Some (recent / base - 1)
           | _ \<Rightarrow> None)"
  by (simp add: topk_score_def lookup_def split: option.splits)

lemma topk_score_agree:
  assumes "same_quotes T closes closes'" "moment \<le> T" "0 < lookback"
  shows "topk_score closes lookback weighting moment name = topk_score closes' lookback weighting moment name"
proof -
  let ?sr = "lookup closes name" and ?sr' = "lookup closes' name"
  have k: "keep (\<lambda>t. t \<le> T) ?sr = keep (\<lambda>t. t \<le> T) ?sr'" using assms(1) by (simp add: same_quotes_def)
  have "moment - days_delta topk_skip_days \<le> T" "moment - days_delta (topk_skip_days + lookback) \<le> T"
    using assms(2,3) by (simp_all add: days_delta_def topk_skip_days_def)
  then have "map_of ?sr (moment - days_delta topk_skip_days) = map_of ?sr' (moment - days_delta topk_skip_days)"
    "map_of ?sr (moment - days_delta (topk_skip_days + lookback)) = map_of ?sr' (moment - days_delta (topk_skip_days + lookback))"
    "map_of ?sr moment = map_of ?sr' moment" using keep_cong [OF k] assms(2) by auto
  then show ?thesis
    unfolding topk_score_lookup Let_def trailing_vol_keep [OF k assms(2)] bars_through_keep(2) [OF k assms(2)] by simp
qed

lemma topk_score_known: "topk_score closes lookback weighting moment name = Some sc \<Longrightarrow> map_of closes name \<noteq> None"
  by (auto simp: topk_score_def split: option.splits)

lemma inverse_vols_agree:
  assumes "same_quotes T closes closes'" "moment \<le> T"
    and "\<And>name. name \<in> set names \<Longrightarrow> map_of closes name \<noteq> None \<and> map_of closes' name \<noteq> None"
  shows "inverse_vols closes moment names = inverse_vols closes' moment names"
  using assms(3)
proof (induction names)
  case (Cons name names)
  from Cons.prems [of name] obtain sr sr' where sr: "map_of closes name = Some sr" "map_of closes' name = Some sr'" by auto
  have "keep (\<lambda>t. t \<le> T) (lookup closes name) = keep (\<lambda>t. t \<le> T) (lookup closes' name)"
    using assms(1) by (simp add: same_quotes_def)
  then have "keep (\<lambda>t. t \<le> T) sr = keep (\<lambda>t. t \<le> T) sr'" by (simp add: lookup_def sr)
  from trailing_vol_keep [OF this assms(2)] Cons show ?case by (simp add: sr)
qed simp
lemma weights_for_agree:
  assumes "same_quotes T closes closes'" "moment \<le> T"
    and "\<And>name. name \<in> set names \<Longrightarrow> map_of closes name \<noteq> None \<and> map_of closes' name \<noteq> None"
  shows "weights_for names weighting closes moment = weights_for names weighting closes' moment"
  using inverse_vols_agree [OF assms] by (simp add: weights_for_def)

lemma topk_decision_agree:
  assumes "same_quotes T closes closes'" "moment \<le> T" "0 < lookback"
    and "snapshot_for ss moment = snapshot_for ss' moment"
  shows "topk_decision closes ss lookback k weighting moment = topk_decision closes' ss' lookback k weighting moment"
proof (cases "snapshot_for ss moment")
  case None
  with assms(4) show ?thesis by (simp add: topk_decision_def)
next
  case (Some s)
  let ?sc = "topk_score closes lookback weighting moment"
  have sc: "?sc = topk_score closes' lookback weighting moment"
    using topk_score_agree [OF assms(1-3)] by blast
  let ?chosen = "map snd (take (nat k) (sort_key (\<lambda>(sc, name). (- sc, name))
     (concat (map (\<lambda>name. case ?sc name of None \<Rightarrow> [] | Some sc \<Rightarrow> [(sc, name)]) (us_names s)))))"
  have "map_of closes name \<noteq> None \<and> map_of closes' name \<noteq> None" if "name \<in> set ?chosen" for name
  proof -
    from that obtain v where "Some v = ?sc name"
      by (auto dest!: in_set_takeD split: option.splits)
    then have "?sc name = Some v" by simp
    then show ?thesis using topk_score_known sc by metis
  qed
  from weights_for_agree [OF assms(1,2) this] have "weights_for ?chosen weighting closes moment
    = weights_for ?chosen weighting closes' moment" by blast
  then show ?thesis unfolding topk_decision_def assms(4) [symmetric] Some sc Let_def by simp
qed

lemma takeWhile_sorted:
  "sorted_wrt (<) (map f xs) \<Longrightarrow> takeWhile (\<lambda>x. f x \<le> m) xs = filter (\<lambda>x. f x \<le> (m :: int)) xs"
proof (induction xs)
  case (Cons x xs)
  then have "filter (\<lambda>x. f x \<le> m) xs = []" if "m < f x" using that by (auto simp: filter_empty_conv)
  with Cons show ?case by (cases "f x \<le> m") auto
qed simp

lemma snapshot_for_agree:
  assumes "filter (\<lambda>s. us_snapshot_at s \<le> T) ss = filter (\<lambda>s. us_snapshot_at s \<le> T) ss'" "moment \<le> T"
    and "sorted_wrt (<) (map us_snapshot_at ss)" "sorted_wrt (<) (map us_snapshot_at ss')"
  shows "snapshot_for ss moment = snapshot_for ss' moment"
proof -
  have "filter (\<lambda>s. us_snapshot_at s \<le> moment) xs
      = filter (\<lambda>s. us_snapshot_at s \<le> moment) (filter (\<lambda>s. us_snapshot_at s \<le> T) xs)" for xs
    using assms(2) unfolding filter_filter by (intro filter_cong) auto
  with assms(1) have "filter (\<lambda>s. us_snapshot_at s \<le> moment) ss = filter (\<lambda>s. us_snapshot_at s \<le> moment) ss'" by metis
  then show ?thesis using assms(3,4) by (simp add: snapshot_for_def takeWhile_sorted)
qed

lemma trading_calendar_sorted: "sorted (trading_calendar closes)" "distinct (trading_calendar closes)"
  by (simp_all add: trading_calendar_def sorted_remdups)

lemma trading_calendar_member:
  assumes "distinct (map fst closes)"
  shows "t \<in> set (trading_calendar closes) \<longleftrightarrow> (\<exists>name. quote_at closes name t \<noteq> None)"
proof -
  have "quote_at closes name t \<noteq> None \<longleftrightarrow> (\<exists>sr. (name, sr) \<in> set closes \<and> t \<in> fst ` set sr)" for name
    unfolding map_of_eq_Some_iff [OF assms, symmetric] quote_at_def
    by (cases "map_of closes name") (simp, simp, metis map_of_eq_None_iff not_None_eq)
  then show ?thesis by (force simp: trading_calendar_def)
qed

lemma trading_calendar_agree:
  assumes "same_quotes T closes closes'" "distinct (map fst closes)" "distinct (map fst closes')"
  shows "filter (\<lambda>t. t \<le> T) (trading_calendar closes) = filter (\<lambda>t. t \<le> T) (trading_calendar closes')"
proof (rule sorted_distinct_set_unique)
  show "set (filter (\<lambda>t. t \<le> T) (trading_calendar closes)) = set (filter (\<lambda>t. t \<le> T) (trading_calendar closes'))"
  proof -
    have "t \<le> T \<Longrightarrow> (\<exists>name. quote_at closes name t \<noteq> None) = (\<exists>name. quote_at closes' name t \<noteq> None)" for t
      by (simp only: same_quotes_at [OF assms(1)])
    then show ?thesis
      unfolding set_filter trading_calendar_member [OF assms(2)] trading_calendar_member [OF assms(3)] by blast
  qed
qed (simp_all add: trading_calendar_sorted sorted_wrt_filter)

lemma topk_decision_at: "topk_decision closes ss lookback k weighting moment = Inr d \<Longrightarrow> rd_decided_at d = moment"
  by (auto simp: topk_decision_def Let_def no_weights_def bindr_eq_Inr split: option.splits if_splits)

lemma each_filter:
  assumes "each f xs = Inr ys" "\<And>x y. f x = Inr y \<Longrightarrow> Q y = P x"
  shows "each f (filter P xs) = Inr (filter Q ys)"
  using assms(1) unfolding each_Inr by (induction rule: list_all2_induct) (auto simp: assms(2))

lemma each_cong: "(\<And>x. x \<in> set xs \<Longrightarrow> f x = g x) \<Longrightarrow> each f xs = each g xs"
  by (induction xs) auto

lemma topk_targets_agree:
  assumes ds: "topk_targets hs ss lookback k weighting = Inr ds" "topk_targets hs' ss' lookback k weighting = Inr ds'"
    and same: "same_quotes T (aligned_closes_by_symbol hs) (aligned_closes_by_symbol hs')"
    and snap: "\<And>moment. moment \<le> T \<Longrightarrow> snapshot_for ss moment = snapshot_for ss' moment"
  shows "filter (\<lambda>d. rd_decided_at d \<le> T) ds = filter (\<lambda>d. rd_decided_at d \<le> T) ds'"
proof -
  let ?c = "aligned_closes_by_symbol hs" and ?c' = "aligned_closes_by_symbol hs'"
  let ?mondays = "\<lambda>c. filter (\<lambda>t. weekday t = 0) (trading_calendar c)"
  from ds have l: "0 < lookback"
    and e: "each (topk_decision ?c ss lookback k weighting) (?mondays ?c) = Inr ds"
    "each (topk_decision ?c' ss' lookback k weighting) (?mondays ?c') = Inr ds'"
    by (auto simp: topk_targets_def Let_def split: if_splits)
  have f: "each (topk_decision c s lookback k weighting) (filter (\<lambda>t. t \<le> T) xs) = Inr (filter (\<lambda>d. rd_decided_at d \<le> T) ys)"
    if "each (topk_decision c s lookback k weighting) xs = Inr ys" for c s xs ys
    by (rule each_filter [OF that]) (simp add: topk_decision_at)
  have swap: "filter (\<lambda>t. t \<le> T) (?mondays c) = filter (\<lambda>t. weekday t = 0) (filter (\<lambda>t. t \<le> T) (trading_calendar c))" for c
    by (simp add: conj_commute)
  have "filter (\<lambda>t. t \<le> T) (?mondays ?c) = filter (\<lambda>t. t \<le> T) (?mondays ?c')"
    unfolding swap using trading_calendar_agree [OF same]
    by (simp add: aligned_closes_by_symbol_def price_series_distinct)
  moreover have "each (topk_decision ?c ss lookback k weighting) (filter (\<lambda>t. t \<le> T) (?mondays ?c))
      = each (topk_decision ?c' ss' lookback k weighting) (filter (\<lambda>t. t \<le> T) (?mondays ?c))"
    by (rule each_cong) (use topk_decision_agree [OF same _ l] snap in auto)
  ultimately show ?thesis using f [OF e(1)] f [OF e(2)] by simp
qed
lemma fill_name_agree:
  "(\<And>name. quote_at opens name day = quote_at opens' name day) \<Longrightarrow>
   fill_name cost opens day ws e b name = fill_name cost opens' day ws e b name"
  by (simp add: fill_name_def)

lemma fill_pending_agree:
  assumes "\<And>name. quote_at opens name day = quote_at opens' name day"
  shows "fill_pending cost opens day b = fill_pending cost opens' day b"
proof -
  have "fill_name cost opens day = fill_name cost opens' day"
    by (intro ext fill_name_agree) (rule assms)
  moreover have "opening_price opens day = opening_price opens' day"
    by (intro ext) (simp add: opening_price_def assms)
  ultimately show ?thesis
    by (simp add: fill_pending_def fill_decision_def equity_at_open_def split: option.splits)
qed

lemma mark_basket_agree:
  assumes "\<And>name. quote_at closes name day = quote_at closes' name day"
  shows "mark_basket closes day b = mark_basket closes' day b"
proof -
  have "mark_unit closes day = mark_unit closes' day"
    by (intro ext) (simp add: mark_unit_def assms split: prod.splits)
  then show ?thesis by (simp add: mark_basket_def)
qed

lemma basket_bars_agree:
  assumes "same_quotes T (mt_opens M) (mt_opens M')" "same_quotes T (mt_closes M) (mt_closes M')"
    and "\<And>day. day \<le> T \<Longrightarrow> map_of bd day = map_of bd' day" "\<forall>day\<in>set days. day \<le> T"
  shows "foldl (basket_bar cost M bd) b days = foldl (basket_bar cost M' bd') b days"
  using assms(4)
proof (induction days arbitrary: b)
  case (Cons day days)
  then have day: "day \<le> T" by simp
  have "basket_bar cost M bd b day = basket_bar cost M' bd' b day"
    unfolding basket_bar_def fill_pending_agree [OF same_quotes_at [OF assms(1) day]]
      mark_basket_agree [OF same_quotes_at [OF assms(2) day]] assms(3) [OF day] ..
  with Cons show ?case by simp
qed simp

lemma fill_pending_path [simp]: "bk_path (fill_pending cost opens day b) = bk_path b"
proof -
  have "bk_path (fill_name cost opens day ws e b name) = bk_path b" for ws e b name
    by (simp add: fill_name_def Let_def split: option.splits)
  then have "bk_path (foldl (fill_name cost opens day ws e) b names) = bk_path b" for ws e b names
    by (induction names arbitrary: b) simp_all
  then show ?thesis by (simp add: fill_pending_def fill_decision_def Let_def split: option.splits)
qed

lemma mark_basket_path: "\<exists>e. bk_path (mark_basket closes day b) = bk_path b @ [e]"
proof -
  have "bk_path (fst (foldl (mark_unit closes day) be us)) = bk_path (fst be)" for be us
    by (induction us arbitrary: be) (auto simp: mark_unit_def split: prod.splits option.splits)
  from this [of "(b, bk_cash b)" "bk_units b"] show ?thesis
    by (auto simp: mark_basket_def split: prod.splits)
qed

lemma basket_bar_path: "\<exists>e. bk_path (basket_bar cost M bd b day) = bk_path b @ [e]"
  using mark_basket_path [of "mt_closes M" day "fill_pending cost (mt_opens M) day b"]
  by (auto simp: basket_bar_def take_decision_def split: option.splits)

lemma basket_bars_path:
  "\<exists>es. bk_path (foldl (basket_bar cost M bd) b days) = bk_path b @ es \<and> length es = length days"
proof (induction days arbitrary: b)
  case (Cons day days)
  obtain e where "bk_path (basket_bar cost M bd b day) = bk_path b @ [e]" using basket_bar_path by blast
  with Cons.IH [of "basket_bar cost M bd b day"] show ?case by (auto intro: exI [of _ "e # _"])
qed simp

lemma sorted_split:
  "sorted xs \<Longrightarrow> filter (\<lambda>x. x \<le> T) xs @ filter (\<lambda>x. \<not> x \<le> T) xs = (xs :: int list)"
proof (induction xs)
  case (Cons x xs)
  then have "filter (\<lambda>x. x \<le> T) xs = []" "filter (\<lambda>x. \<not> x \<le> T) xs = xs" if "T < x"
    using that by (auto simp: filter_empty_conv filter_id_conv)
  with Cons show ?case by (cases "x \<le> T") auto
qed simp

lemma equity_path_prefix:
  assumes "run_basket M ds cost e0 None None = Inr (Some r)" "sorted (mt_calendar M)"
    and "\<forall>d\<in>set ds. hd (mt_calendar M) \<le> rd_decided_at d"
  shows "filter (\<lambda>(day, _). day \<le> T) (zip (br_calendar r) (br_path r)) =
     zip (filter (\<lambda>t. t \<le> T) (mt_calendar M))
       (bk_path (foldl (basket_bar cost M (assoc_of (map (\<lambda>d. (rd_decided_at d, d)) ds))) (new_basket e0 None)
          (filter (\<lambda>t. t \<le> T) (mt_calendar M))))"
proof -
  let ?cal = "mt_calendar M" and ?bar = "basket_bar cost M (assoc_of (map (\<lambda>d. (rd_decided_at d, d)) ds))"
  let ?pre = "filter (\<lambda>t. t \<le> T) ?cal" and ?post = "filter (\<lambda>t. \<not> t \<le> T) ?cal"
  have w: "window_calendar None None ?cal = ?cal" by (simp add: window_calendar_def)
  have "filter (\<lambda>d. rd_decided_at d < hd ?cal) ds = []" using assms(3) by (auto simp: filter_empty_conv)
  then have r: "br_calendar r = ?cal" "br_path r = bk_path (foldl ?bar (new_basket e0 None) ?cal)"
    using assms(1) unfolding run_basket_def Let_def w by (auto simp: latest_decision_def split: if_splits)
  have split: "?pre @ ?post = ?cal" by (rule sorted_split [OF assms(2)])
  let ?b = "foldl ?bar (new_basket e0 None) ?pre"
  have "foldl ?bar (new_basket e0 None) (?pre @ ?post) = foldl ?bar ?b ?post" by (rule foldl_append)
  then have f: "foldl ?bar (new_basket e0 None) ?cal = foldl ?bar ?b ?post" by (simp only: split)
  obtain es where "bk_path (foldl ?bar ?b ?post) = bk_path ?b @ es" and l: "length es = length ?post"
    using basket_bars_path by blast
  then have es: "br_path r = bk_path ?b @ es" by (simp only: r(2) f)
  obtain ps where "bk_path ?b = bk_path (new_basket e0 None) @ ps" "length ps = length ?pre"
    using basket_bars_path by blast
  then have "length (bk_path ?b) = length ?pre" by (simp add: new_basket_def)
  then have "zip (?pre @ ?post) (bk_path ?b @ es) = zip ?pre (bk_path ?b) @ zip ?post es" by (intro zip_append) simp
  then have z: "zip (br_calendar r) (br_path r) = zip ?pre (bk_path ?b) @ zip ?post es"
    by (simp only: es r(1) split)
  have "filter (\<lambda>(day, _). day \<le> T) (zip xs ys) = zip xs ys" if "\<forall>x\<in>set xs. x \<le> T" for xs and ys :: "real list"
    using that by (auto simp: filter_id_conv dest: set_zip_leftD)
  moreover have "filter (\<lambda>(day, _). day \<le> T) (zip xs ys) = []" if "\<forall>x\<in>set xs. \<not> x \<le> T" for xs and ys :: "real list"
    using that by (auto simp: filter_empty_conv dest: set_zip_leftD)
  ultimately show ?thesis unfolding z by simp
qed
lemma same_until_weaken: "same_until (T + 1) hs hs' \<Longrightarrow> same_until T hs hs'"
proof -
  have step: "filter (\<lambda>c. c_opened_at c < T) cs = filter (\<lambda>c. c_opened_at c < T) cs'"
    if "filter (\<lambda>c. c_opened_at c < T + 1) cs = filter (\<lambda>c. c_opened_at c < T + 1) cs'" for cs cs'
  proof -
    have "filter (\<lambda>c. c_opened_at c < T) xs = filter (\<lambda>c. c_opened_at c < T) (filter (\<lambda>c. c_opened_at c < T + 1) xs)" for xs
      unfolding filter_filter by (rule filter_cong) auto
    with that show ?thesis by metis
  qed
  assume "same_until (T + 1) hs hs'"
  then show ?thesis
    unfolding same_until_def by (rule list_all2_mono) (auto intro: step simp del: zless_add1_eq)
qed

lemma targets_in_calendar:
  assumes "topk_targets hs ss lookback k weighting = Inr ds" "d \<in> set ds"
  shows "rd_decided_at d \<in> set (trading_calendar (aligned_closes_by_symbol hs)) \<and> weekday (rd_decided_at d) = 0
    \<and> topk_decision (aligned_closes_by_symbol hs) ss lookback k weighting (rd_decided_at d) = Inr d \<and> 0 < lookback \<and> 0 < k"
proof -
  let ?c = "aligned_closes_by_symbol hs"
  from assms(1) have l: "0 < lookback" "0 < k"
    and e: "list_all2 (\<lambda>t d. topk_decision ?c ss lookback k weighting t = Inr d)
      (filter (\<lambda>t. weekday t = 0) (trading_calendar ?c)) ds"
    by (auto simp: topk_targets_def Let_def each_Inr split: if_splits)
  from assms(2) obtain i where i: "i < length ds" "d = ds ! i" by (auto simp: in_set_conv_nth)
  from list_all2_nthD2 [OF e i(1)] have t: "topk_decision ?c ss lookback k weighting
      (filter (\<lambda>t. weekday t = 0) (trading_calendar ?c) ! i) = Inr d" by (simp add: i(2))
  moreover have "filter (\<lambda>t. weekday t = 0) (trading_calendar ?c) ! i \<in> set (filter (\<lambda>t. weekday t = 0) (trading_calendar ?c))"
    using i(1) list_all2_lengthD [OF e] by (intro nth_mem) simp
  ultimately show ?thesis using topk_decision_at [OF t] l by simp
qed

lemma market_tables_simps [simp]:
  "mt_closes (market_tables_of hs) = price_series c_close hs" "mt_opens (market_tables_of hs) = price_series c_open hs"
  "mt_calendar (market_tables_of hs) = trading_calendar (price_series c_close hs)"
  by (simp_all add: market_tables_of_def Let_def aligned_closes_by_symbol_def opens_by_symbol_def)

lemma snapshots_distinct_names:
  assumes "liquidity_snapshots d l n hs = Inr ss" "s \<in> set ss"
  shows "distinct (us_names s)"
proof -
  from liquidity_snapshots_cases [OF assms(1)] assms(2)
  obtain t where "snapshot_on l n (volumes_of (histories_by_canonical ''1d'' hs)) t = Some s"
    by (auto simp: List.map_filter_def)
  from snapshot_members(2) [OF this distinct_histories] show ?thesis .
qed

lemma positive_price_series: "positive_quotes (price_series f hs)"
  unfolding positive_quotes_def
proof (intro allI impI)
  fix name day p assume "quote_at (price_series f hs) name day = Some p"
  then obtain cs where "(day, p) \<in> set (series_of f (filter (\<lambda>c. 0 < f c) cs))"
    by (auto simp: quote_at_lookup lookup_price_series dest: map_of_SomeD split: option.splits)
  then show "0 < p" using assoc_of_set by (fastforce simp: series_of_def)
qed

section \<open>Properties\<close>

text \<open>
  C29: c99. No look-ahead from the listing to the equity path. Take two histories of the same markets that
  agree on every bar up to a time and both reach it, and run the study on each: snapshots, weekly
  decisions, and the simulated basket. Every decision made up to that time, and the equity on every
  day up to it, are the same, whatever the later bars are.
\<close>

theorem basket_ignores_future:
  assumes "one_history_each hs" "one_history_each hs'" "same_until (T + 1) hs hs'" "reaches T hs" "reaches T hs'"
    and "default_snapshots hs = Inr ss" "default_snapshots hs' = Inr ss'"
    and "topk_targets hs ss lookback k weighting = Inr ds" "topk_targets hs' ss' lookback k weighting = Inr ds'"
    and "run_basket (market_tables_of hs) ds cost e0 None None = Inr (Some r)"
    and "run_basket (market_tables_of hs') ds' cost e0 None None = Inr (Some r')"
  shows "filter (\<lambda>d. rd_decided_at d \<le> T) ds = filter (\<lambda>d. rd_decided_at d \<le> T) ds'
    \<and> filter (\<lambda>(day, _). day \<le> T) (zip (br_calendar r) (br_path r))
      = filter (\<lambda>(day, _). day \<le> T) (zip (br_calendar r') (br_path r'))"
proof -
  note same = price_series_agree [OF assms(1,2,3)]
  note closes = same [of c_close]
  have snaps: "filter (\<lambda>s. us_snapshot_at s \<le> T) ss = filter (\<lambda>s. us_snapshot_at s \<le> T) ss'"
    using snapshots_agree [OF _ assms(1,4) _ assms(2,5) same_until_weaken [OF assms(3)]] assms(6,7)
    by (simp add: default_snapshots_def)
  have sf: "snapshot_for ss t = snapshot_for ss' t" if "t \<le> T" for t
    using snapshot_for_agree [OF snaps that] snapshots_increase assms(6,7) by (simp add: default_snapshots_def)
  have ds: "filter (\<lambda>d. rd_decided_at d \<le> T) ds = filter (\<lambda>d. rd_decided_at d \<le> T) ds'"
    using topk_targets_agree [OF assms(8,9) _ sf] closes by (simp add: aligned_closes_by_symbol_def)
  let ?bd = "\<lambda>ds. assoc_of (map (\<lambda>d. (rd_decided_at d, d)) ds)"
  have k: "keep (\<lambda>t. t \<le> T) (?bd xs) = ?bd (filter (\<lambda>d. rd_decided_at d \<le> T) xs)" for xs :: "rebalance_decision list"
    by (simp add: keep_assoc_of filter_map comp_def)
  have bd: "map_of (?bd ds) day = map_of (?bd ds') day" if "day \<le> T" for day
    by (rule keep_cong [where P = "\<lambda>t. t \<le> T"]) (simp_all add: k ds that)
  have first: "\<forall>d\<in>set xs. hd (mt_calendar (market_tables_of gs)) \<le> rd_decided_at d"
    if "topk_targets gs s lookback k weighting = Inr xs" for gs s xs
  proof
    fix d assume "d \<in> set xs"
    from targets_in_calendar [OF that this] have "rd_decided_at d \<in> set (mt_calendar (market_tables_of gs))"
      by (simp add: aligned_closes_by_symbol_def)
    moreover have "sorted (mt_calendar (market_tables_of gs))" by (simp add: trading_calendar_sorted)
    ultimately show "hd (mt_calendar (market_tables_of gs)) \<le> rd_decided_at d"
      by (cases "mt_calendar (market_tables_of gs)") auto
  qed
  have cal: "filter (\<lambda>t. t \<le> T) (mt_calendar (market_tables_of hs)) = filter (\<lambda>t. t \<le> T) (mt_calendar (market_tables_of hs'))"
    using trading_calendar_agree [OF closes] by (simp add: price_series_distinct)
  have "foldl (basket_bar cost (market_tables_of hs) (?bd ds)) (new_basket e0 None) days
      = foldl (basket_bar cost (market_tables_of hs') (?bd ds')) (new_basket e0 None) days" if "\<forall>day\<in>set days. day \<le> T" for days
    by (rule basket_bars_agree [OF _ _ bd that]) (simp_all add: same)
  then have "foldl (basket_bar cost (market_tables_of hs) (?bd ds)) (new_basket e0 None)
        (filter (\<lambda>t. t \<le> T) (mt_calendar (market_tables_of hs)))
      = foldl (basket_bar cost (market_tables_of hs') (?bd ds')) (new_basket e0 None)
        (filter (\<lambda>t. t \<le> T) (mt_calendar (market_tables_of hs')))" unfolding cal by simp
  moreover have "sorted (mt_calendar (market_tables_of gs))" for gs by (simp add: trading_calendar_sorted)
  ultimately show ?thesis
    using ds cal equity_path_prefix [OF assms(10) _ first [OF assms(8)]]
      equity_path_prefix [OF assms(11) _ first [OF assms(9)]] by simp
qed
text \<open>
  C31: c99. A rebalance is long-only and conserves value: valued at the opens of its bar (the last mark for a
  name without one), what the basket is worth falls by exactly the fees charged, every unit held
  afterwards is positive, and the fees are the cost rate of the notional the run counts as traded.
\<close>

theorem rebalance_conserves_value:
  assumes "long_only b" "weights_ok (rd_weights dec)" "0 \<le> cost" "0 < worth (mt_opens (market_tables_of hs)) day b"
  defines "b' \<equiv> fill_decision cost (mt_opens (market_tables_of hs)) day b dec"
  shows "long_only b' \<and> bk_fees b \<le> bk_fees b'
    \<and> worth (mt_opens (market_tables_of hs)) day b'
        = worth (mt_opens (market_tables_of hs)) day b - (bk_fees b' - bk_fees b)
    \<and> bk_fees b' - bk_fees b = cost / 10000
        * (worth (mt_opens (market_tables_of hs)) day b * (bk_traded b' - bk_traded b))"
  using fill_decision_fold [OF positive_price_series assms(3,1,2), of c_open hs day] assms(4)
  by (simp add: b'_def)

text \<open>
  C34: c99. The weekly weights are those of a long-only basket without leverage: a decision is made on a
  Monday and either has no weights or has positive ones that add up to one, over at most \<open>k\<close> names of
  the snapshot in force, which is not later than the decision. At least ten names were ranked, and no
  name of the snapshot that was left out scores above one that was taken.
\<close>

theorem topk_weights_sound:
  assumes "liquidity_snapshots d l n hs = Inr ss" "topk_targets hs ss lookback k weighting = Inr ds" "dec \<in> set ds"
  shows "weekday (rd_decided_at dec) = 0 \<and> decision_ok (aligned_closes_by_symbol hs) ss lookback k weighting dec"
  using targets_in_calendar [OF assms(2,3)] topk_decision_ok snapshots_distinct_names [OF assms(1)] by blast

section \<open>Examples\<close>

definition ex_past :: histories where
  "ex_past = [(''a'', [daily_bar ''A/USD'' 3 10, daily_bar ''A/USD'' 4 20, daily_bar ''A/USD'' 5 30])]"

definition ex_other_future :: histories where
  "ex_other_future = [(''a'', [daily_bar ''A/USD'' 3 10, daily_bar ''A/USD'' 4 20, daily_bar ''A/USD'' 5 7])]"

lemma ex_one_each: "one_history_each ex_past" "one_history_each ex_other_future"
  by (simp_all add: one_history_each_def ex_past_def ex_other_future_def daily_histories_def List.map_filter_simps
      ex_daily_market)

lemma ex_daily:
  "daily_histories [(''a'', [daily_bar ''A/USD'' 3 x, daily_bar ''A/USD'' 4 y, daily_bar ''A/USD'' 5 z])]
   = [(''A/USD'', [daily_bar ''A/USD'' 3 x, daily_bar ''A/USD'' 4 y, daily_bar ''A/USD'' 5 z])]"
  by (simp add: daily_histories_def List.map_filter_simps ex_daily_market sort_key_def days_delta_def)

lemma ex_hbc:
  "histories_by_canonical ''1d'' ex_past
   = [(''A/USD'', [daily_bar ''A/USD'' 3 10, daily_bar ''A/USD'' 4 20, daily_bar ''A/USD'' 5 30])]"
  "histories_by_canonical ''1d'' ex_other_future
   = [(''A/USD'', [daily_bar ''A/USD'' 3 10, daily_bar ''A/USD'' 4 20, daily_bar ''A/USD'' 5 7])]"
  using histories_by_canonical_distinct [OF ex_one_each(1)] histories_by_canonical_distinct [OF ex_one_each(2)]
  by (simp_all add: ex_past_def ex_other_future_def ex_daily)

lemma ex_months: "month_starts (days_delta 3) (days_delta 5) 1 = Inr []"
  by code_simp

lemma ex_no_snapshots: "default_snapshots ex_past = Inr []" "default_snapshots ex_other_future = Inr []"
  by (simp_all add: default_snapshots_def liquidity_snapshots_def Let_def ex_hbc ex_months List.map_filter_simps)

lemma ex_tables:
  "price_series c_close ex_past = [(''A/USD'', [(days_delta 3, 10), (days_delta 4, 20), (days_delta 5, 30)])]"
  "price_series c_open ex_past = [(''A/USD'', [(days_delta 3, 10), (days_delta 4, 20), (days_delta 5, 30)])]"
  "price_series c_close ex_other_future = [(''A/USD'', [(days_delta 3, 10), (days_delta 4, 20), (days_delta 5, 7)])]"
  "price_series c_open ex_other_future = [(''A/USD'', [(days_delta 3, 10), (days_delta 4, 20), (days_delta 5, 7)])]"
  by (simp_all add: price_series_def ex_hbc List.map_filter_simps Let_def series_of_def assoc_of_def
      days_delta_def)

lemma ex_calendar:
  "trading_calendar (price_series c_close ex_past) = [days_delta 3, days_delta 4, days_delta 5]"
  "trading_calendar (price_series c_close ex_other_future) = [days_delta 3, days_delta 4, days_delta 5]"
  by (simp_all add: ex_tables trading_calendar_def sort_key_def days_delta_def)

lemma ex_weekdays: "weekday (days_delta 3) = 6" "weekday (days_delta 4) = 0" "weekday (days_delta 5) = 1"
  by code_simp+

definition ex_flat :: rebalance_decision where
  "ex_flat = no_weights (days_delta 4) 0 ''no_universe_snapshot''"

lemma ex_targets:
  "topk_targets ex_past [] 21 3 ''ew'' = Inr [ex_flat]" "topk_targets ex_other_future [] 21 3 ''ew'' = Inr [ex_flat]"
  by (simp_all add: topk_targets_def Let_def aligned_closes_by_symbol_def ex_calendar ex_weekdays
      topk_decision_def snapshot_for_def ex_flat_def)
lemma ex_runs:
  "\<exists>r. run_basket (market_tables_of ex_past) [ex_flat] 15 10000 None None = Inr (Some r)"
  "\<exists>r. run_basket (market_tables_of ex_other_future) [ex_flat] 15 10000 None None = Inr (Some r)"
  by (simp_all add: run_basket_def window_calendar_def Let_def ex_calendar)

lemma ex_same: "same_until (days_delta 4 + 1) ex_past ex_other_future" "reaches (days_delta 4) ex_past"
  "reaches (days_delta 4) ex_other_future"
  by (simp_all add: same_until_def reaches_def ex_past_def ex_other_future_def ex_daily_market days_delta_def)

lemma basket_ignores_future_witness:
  "\<exists>r r'. run_basket (market_tables_of ex_past) [ex_flat] 15 10000 None None = Inr (Some r)
    \<and> run_basket (market_tables_of ex_other_future) [ex_flat] 15 10000 None None = Inr (Some r')
    \<and> filter (\<lambda>(day, _). day \<le> days_delta 4) (zip (br_calendar r) (br_path r))
      = filter (\<lambda>(day, _). day \<le> days_delta 4) (zip (br_calendar r') (br_path r'))"
  using basket_ignores_future [OF ex_one_each ex_same ex_no_snapshots ex_targets] ex_runs by metis

definition ex_basket :: basket where
  "ex_basket = (new_basket 40 None)\<lparr>bk_units := [(''A/USD'', 2)], bk_last_mark := [(''A/USD'', 20)]\<rparr>"

definition ex_all_in :: rebalance_decision where
  "ex_all_in = \<lparr>rd_decided_at = days_delta 3, rd_weights = [(''A/USD'', 1)], rd_rankable = 10, rd_reason = None\<rparr>"

lemma ex_worth: "worth (mt_opens (market_tables_of ex_past)) (days_delta 4) ex_basket = 80"
  by (simp add: worth_def ex_basket_def new_basket_def opening_price_def quote_at_def ex_tables days_delta_def)

lemma rebalance_conserves_value_witness:
  "let b = fill_decision 15 (mt_opens (market_tables_of ex_past)) (days_delta 4) ex_basket ex_all_in
   in long_only b \<and> worth (mt_opens (market_tables_of ex_past)) (days_delta 4) b = 80 - bk_fees b"
proof -
  have b: "long_only ex_basket" "weights_ok (rd_weights ex_all_in)" "bk_fees ex_basket = 0"
    by (simp_all add: long_only_def weights_ok_def ex_basket_def ex_all_in_def new_basket_def)
  show ?thesis
    using rebalance_conserves_value [of ex_basket ex_all_in 15 ex_past "days_delta 4"] b ex_worth
    by (simp add: Let_def del: market_tables_simps)
qed

lemma topk_weights_sound_witness:
  "weekday (rd_decided_at ex_flat) = 0 \<and> decision_ok (aligned_closes_by_symbol ex_past) [] 21 3 ''ew'' ex_flat"
  using topk_weights_sound [OF ex_no_snapshots(1) [unfolded default_snapshots_def] ex_targets(1), of ex_flat] by simp

text \<open>
  The rebalance is not unlevered when a held name has no open on the bar: its worth is counted in the
  equity the targets are sized with, but it is not sold. Here the basket holds two units of a name
  without an open, worth 40, and buys 40 of another one: it borrows all of it.
\<close>

lemma unpriced_holding_is_levered:
  "bk_cash (fill_decision 0 [(''B/USD'', [(7, 10)])] 7
      \<lparr>bk_cash = 0, bk_units = [(''A/USD'', 2)], bk_last_mark = [(''A/USD'', 20)], bk_pending = None, bk_path = [],
       bk_fees = 0, bk_traded = 0, bk_rebalances = 0, bk_flat_weeks = 0, bk_fills_skipped = 0, bk_stale_marks = 0\<rparr>
      \<lparr>rd_decided_at = 6, rd_weights = [(''B/USD'', 1)], rd_rankable = 10, rd_reason = None\<rparr>) = - 40"
  by (simp add: fill_decision_def fill_names_def equity_at_open_def fill_name_def opening_price_def quote_at_def
      dict_get_or_def dust_def sort_key_def Let_def)

end
