(* ===== verification/Xs_Prints.thy ===== *)
theory Xs_Prints
  imports Xs_Topk
begin

text \<open>
  The scoring half of \<open>research/xs_topk.py\<close>: the metrics of a basket run, the era cells, the print of
  one venue, the rows over all prints with the dual-print bar and its ranking, and the paper voter
  that looks the decided weights up.
\<close>

section \<open>Metrics\<close>

record basket_metrics =
  ba_bars :: nat
  ba_first :: datetime
  ba_last :: datetime
  ba_starting_equity :: real
  ba_ending_equity :: real
  ba_total_return :: real
  ba_max_drawdown :: real
  ba_sharpe :: real
  ba_sortino :: real
  ba_annualized_volatility :: real
  ba_total_fees :: real
  ba_fee_drag :: real
  ba_traded_fraction :: real
  ba_one_way_turnover :: real
  ba_one_way_turnover_per_year :: real
  ba_rebalances :: nat
  ba_flat_weeks :: nat
  ba_fills_skipped :: nat
  ba_stale_marks :: nat

definition max_drawdown :: "real list \<Rightarrow> real" where
  "max_drawdown path =
     snd (foldl (\<lambda>(peak, worst) v. let p = max peak v in (p, if 0 < p then max worst (1 - v / p) else worst))
            (hd path, 0) path)"

definition path_returns :: "real list \<Rightarrow> real list" where
  "path_returns path = map (\<lambda>(earlier, later). later / earlier - 1) (filter (\<lambda>(earlier, _). 0 < earlier) (zip path (tl path)))"

definition simulate_basket ::
  "market_tables \<Rightarrow> rebalance_decision list \<Rightarrow> real \<Rightarrow> real \<Rightarrow> datetime option \<Rightarrow> datetime option
   \<Rightarrow> study_error + basket_metrics option" where
  "simulate_basket tables decisions cost_bps starting_equity start stop =
     bindr (run_basket tables decisions cost_bps starting_equity start stop) (\<lambda>r.
       case r of
         None \<Rightarrow> Inr None
       | Some run \<Rightarrow>
           (let calendar = br_calendar run; path = br_path run;
                returns = path_returns path;
                per_year = (case periods_per_year ''1d'' of None \<Rightarrow> 365 | Some p \<Rightarrow> p);
                years = of_int (max ((last calendar - hd calendar) div 86400000000) 1) / 365;
                one_way = br_traded run / 2;
                ending = (if last path \<le> 0 then 1 / 10 ^ 9 else last path)
            in Inr (Some \<lparr>ba_bars = length calendar, ba_first = hd calendar, ba_last = last calendar,
                 ba_starting_equity = starting_equity, ba_ending_equity = ending,
                 ba_total_return = ending / starting_equity - 1, ba_max_drawdown = max_drawdown path,
                 ba_sharpe = sharpe_of returns per_year, ba_sortino = sortino_of returns per_year,
                 ba_annualized_volatility = std0 returns * sqrt per_year,
                 ba_total_fees = br_fees run, ba_fee_drag = br_fees run / starting_equity,
                 ba_traded_fraction = br_traded run, ba_one_way_turnover = one_way,
                 ba_one_way_turnover_per_year = one_way / years,
                 ba_rebalances = br_rebalances run, ba_flat_weeks = br_flat_weeks run,
                 ba_fills_skipped = br_fills_skipped run, ba_stale_marks = br_stale_marks run\<rparr>)))"

section \<open>Era cells\<close>

record era_cell =
  ec_venue :: string
  ec_era_id :: string
  ec_covered :: bool
  ec_bars :: nat
  ec_first :: "datetime option"
  ec_last :: "datetime option"
  ec_research :: "basket_metrics option"
  ec_pilot :: "basket_metrics option"
  ec_control_research :: "basket_metrics option"
  ec_control_pilot :: "basket_metrics option"
  ec_excess_research :: "real option"
  ec_excess_pilot :: "real option"
  ec_bar_pass :: bool
  ec_fail_reasons :: "string list"

definition covered_bars :: "datetime list \<Rightarrow> era \<Rightarrow> datetime list" where
  "covered_bars calendar e = filter (\<lambda>day. er_start e \<le> day \<and> day < er_end e) calendar"

definition excess_return :: "basket_metrics option \<Rightarrow> basket_metrics option \<Rightarrow> real option" where
  "excess_return mine theirs =
     (case (mine, theirs) of
        (Some a, Some b) \<Rightarrow> Some (ba_total_return a - ba_total_return b) | _ \<Rightarrow> None)"

definition cell_failures :: "basket_metrics \<Rightarrow> real \<Rightarrow> string list" where
  "cell_failures pilot excess =
     (if ba_total_return pilot \<le> 0 then [''pilot_net_return_le_0''] else [])
   @ (if ba_sharpe pilot \<le> 0 then [''pilot_net_sharpe_le_0''] else [])
   @ (if excess \<le> 0 then [''pilot_excess_vs_ew_bh_le_0''] else [])"

record study_costs =
  sc_research :: real
  sc_pilot :: real
  sc_starting_equity :: real

definition blank_cell :: "string \<Rightarrow> era \<Rightarrow> nat \<Rightarrow> era_cell" where
  "blank_cell venue e bars =
     \<lparr>ec_venue = venue, ec_era_id = er_id e, ec_covered = False, ec_bars = bars, ec_first = None, ec_last = None,
      ec_research = None, ec_pilot = None, ec_control_research = None, ec_control_pilot = None,
      ec_excess_research = None, ec_excess_pilot = None, ec_bar_pass = False, ec_fail_reasons = []\<rparr>"

text \<open>The bar at the pilot cost.\<close>

definition judge_cell :: "bool \<Rightarrow> era_cell \<Rightarrow> era_cell" where
  "judge_cell is_control cell =
     (case (ec_pilot cell, excess_return (ec_pilot cell) (ec_control_pilot cell)) of
        (Some p, Some excess) \<Rightarrow>
          (let scored = cell\<lparr>ec_excess_pilot := Some excess\<rparr>
           in if is_control then scored\<lparr>ec_fail_reasons := [''control_cannot_pass'']\<rparr>
              else (let fails = cell_failures p excess
                    in scored\<lparr>ec_fail_reasons := fails, ec_bar_pass := (fails = [])\<rparr>))
      | _ \<Rightarrow> cell\<lparr>ec_fail_reasons := [''no_basket_path'']\<rparr>)"

definition score_cell ::
  "string \<Rightarrow> market_tables \<Rightarrow> study_costs \<Rightarrow> rebalance_decision list \<Rightarrow> rebalance_decision list \<Rightarrow> bool \<Rightarrow> era
   \<Rightarrow> study_error + era_cell" where
  "score_cell venue tables costs decisions control is_control e =
     (let days = covered_bars (mt_calendar tables) e;
          blank = blank_cell venue e (length days);
          sim = (\<lambda>targets cost. simulate_basket tables targets cost (sc_starting_equity costs)
                   (Some (er_start e)) (Some (er_end e)))
      in if length days < min_era_bars
         then Inr (blank\<lparr>ec_fail_reasons :=
                [''not_covered_'' @ show_nat (length days) @ ''_bars_lt_'' @ show_nat min_era_bars]\<rparr>)
         else
           bindr (sim decisions (sc_research costs)) (\<lambda>research.
           bindr (sim decisions (sc_pilot costs)) (\<lambda>pilot.
           bindr (sim control (sc_research costs)) (\<lambda>control_research.
           bindr (sim control (sc_pilot costs)) (\<lambda>control_pilot.
             let cell = blank\<lparr>ec_covered := True, ec_first := Some (hd days), ec_last := Some (last days),
                        ec_research := research, ec_pilot := pilot, ec_control_research := control_research,
                        ec_control_pilot := control_pilot,
                        ec_excess_research := excess_return research control_research\<rparr>
             in Inr (judge_cell is_control cell))))))"

section \<open>Prints\<close>

record candidate_print =
  cp_candidate_id :: string
  cp_venue :: string
  cp_cells :: "era_cell list"
  cp_full_research :: "basket_metrics option"
  cp_full_pilot :: "basket_metrics option"
  cp_holdout_first :: "datetime option"
  cp_holdout_excess_pilot :: "real option"
  cp_holdout_pass :: bool
  cp_covered_cells :: nat
  cp_passed_cells :: nat
  cp_failed_cells :: nat
  cp_print_pass :: bool
  cp_decisions :: nat
  cp_flat_weeks :: nat

record print_meta =
  pm_venue :: string
  pm_source :: string
  pm_status :: string
  pm_names_loaded :: nat
  pm_names_skipped :: nat
  pm_skip_reasons :: "string list"
  pm_first :: "datetime option"
  pm_last :: "datetime option"
  pm_bars_max :: nat
  pm_snapshots :: nat
  pm_snapshot_first :: "datetime option"
  pm_snapshot_last :: "datetime option"
  pm_names_ever_in_universe :: nat
  pm_eras_covered :: "string list"
  pm_fail_closed :: bool

record print_result =
  pr_meta :: print_meta
  pr_candidates :: "candidate_print list"

definition holdout_start :: "datetime list \<Rightarrow> real \<Rightarrow> datetime option" where
  "holdout_start calendar fraction =
     (if \<not> (0 < fraction \<and> fraction < 1) \<or> length calendar < 5 then None
      else (let size = max (nat \<lfloor>real (length calendar) * fraction\<rfloor>) 2
            in if length calendar \<le> size then None else Some (calendar ! (length calendar - size))))"

definition score_topk_candidate ::
  "string \<Rightarrow> market_tables \<Rightarrow> study_costs \<Rightarrow> datetime option \<Rightarrow> rebalance_decision list
   \<Rightarrow> string \<Rightarrow> rebalance_decision list \<Rightarrow> bool \<Rightarrow> study_error + candidate_print" where
  "score_topk_candidate venue tables costs holdout control candidate_id decisions is_control =
     (let sim = (\<lambda>targets cost start. simulate_basket tables targets cost (sc_starting_equity costs) start None)
      in bindr (sim decisions (sc_research costs) None) (\<lambda>full_research.
         bindr (sim decisions (sc_pilot costs) None) (\<lambda>full_pilot.
         bindr (each (score_cell venue tables costs decisions control is_control) eras) (\<lambda>cells.
         bindr (case holdout of None \<Rightarrow> Inr None | Some _ \<Rightarrow> sim decisions (sc_pilot costs) holdout) (\<lambda>mine.
         bindr (case holdout of None \<Rightarrow> Inr None | Some _ \<Rightarrow> sim control (sc_pilot costs) holdout) (\<lambda>theirs.
           let covered = length (filter ec_covered cells);
               passed = length (filter (\<lambda>c. ec_covered c \<and> ec_bar_pass c) cells);
               excess = excess_return mine theirs;
               holdout_pass = ((case excess of None \<Rightarrow> False | Some x \<Rightarrow> 0 < x) \<and> \<not> is_control)
           in Inr \<lparr>cp_candidate_id = candidate_id, cp_venue = venue, cp_cells = cells,
                   cp_full_research = full_research, cp_full_pilot = full_pilot,
                   cp_holdout_first = holdout, cp_holdout_excess_pilot = excess, cp_holdout_pass = holdout_pass,
                   cp_covered_cells = covered, cp_passed_cells = passed, cp_failed_cells = covered - passed,
                   cp_print_pass = (\<not> is_control \<and> 0 < covered \<and> covered - passed = 0 \<and> holdout_pass),
                   cp_decisions = length decisions,
                   cp_flat_weeks = length (filter (\<lambda>d. rd_weights d = []) decisions)\<rparr>))))))"

definition blank_meta :: "string \<Rightarrow> string \<Rightarrow> nat \<Rightarrow> nat \<Rightarrow> string list \<Rightarrow> print_meta" where
  "blank_meta venue source loaded skipped reasons =
     \<lparr>pm_venue = venue, pm_source = source, pm_status = ''skipped'', pm_names_loaded = loaded,
      pm_names_skipped = skipped, pm_skip_reasons = take 25 reasons, pm_first = None, pm_last = None,
      pm_bars_max = 0, pm_snapshots = 0, pm_snapshot_first = None, pm_snapshot_last = None,
      pm_names_ever_in_universe = 0, pm_eras_covered = [], pm_fail_closed = False\<rparr>"

definition score_catalog ::
  "string \<Rightarrow> histories \<Rightarrow> market_tables \<Rightarrow> universe_snapshot list \<Rightarrow> study_costs \<Rightarrow> real \<Rightarrow> catalog
   \<Rightarrow> study_error + candidate_print list" where
  "score_catalog venue by_name tables snapshots costs fraction cat =
     (let control = ew_universe_control_targets by_name snapshots;
          score = score_topk_candidate venue tables costs (holdout_start (mt_calendar tables) fraction) control
      in bindr (each (\<lambda>(candidate_id, lookback, k, weighting).
                   bindr (topk_targets by_name snapshots lookback k weighting) (\<lambda>decisions.
                     score candidate_id decisions False)) cat) (\<lambda>rows.
         bindr (score control_id control True) (\<lambda>row. Inr (rows @ [row]))))"

text \<open>Every venue is scored with at least one close; without, \<open>calendar[0]\<close> raises.\<close>

definition score_print ::
  "string \<Rightarrow> histories \<Rightarrow> string \<Rightarrow> study_costs \<Rightarrow> real \<Rightarrow> string list \<Rightarrow> nat \<Rightarrow> catalog
   \<Rightarrow> study_error + print_result" where
  "score_print venue hs source costs fraction skip_reasons names_skipped cat =
     (let by_name = histories_by_canonical ''1d'' hs;
          meta = blank_meta venue source (length by_name) names_skipped skip_reasons
      in if by_name = [] then Inr \<lparr>pr_meta = meta\<lparr>pm_fail_closed := True\<rparr>, pr_candidates = []\<rparr>
         else
           (let tables = market_tables_of by_name; calendar = mt_calendar tables
            in if calendar = [] then Inl StudyIndexError
               else
                 (let meta = meta\<lparr>pm_first := Some (hd calendar), pm_last := Some (last calendar),
                             pm_bars_max := foldl max 0 (map (\<lambda>(_, sr). length sr) (mt_closes tables))\<rparr>
                  in bindr (as_study_error (default_snapshots by_name)) (\<lambda>snapshots.
                     if snapshots = []
                     then Inr \<lparr>pr_meta = meta\<lparr>pm_fail_closed := True\<rparr>, pr_candidates = []\<rparr>
                     else
                       (let meta = meta\<lparr>pm_status := ''ok'', pm_snapshots := length snapshots,
                              pm_snapshot_first := Some (us_snapshot_at (hd snapshots)),
                              pm_snapshot_last := Some (us_snapshot_at (last snapshots)),
                              pm_names_ever_in_universe := length (remdups (concat (map us_names snapshots))),
                              pm_eras_covered := map er_id
                                (filter (\<lambda>e. min_era_bars \<le> length (covered_bars calendar e)) eras)\<rparr>
                        in bindr (score_catalog venue by_name tables snapshots costs fraction cat) (\<lambda>rows.
                             Inr \<lparr>pr_meta = meta, pr_candidates = rows\<rparr>))))))"

section \<open>Rows over all prints\<close>

record topk_row =
  tr_candidate_id :: string
  tr_lookback :: "int option"
  tr_k :: "int option"
  tr_weighting :: "string option"
  tr_venues :: "string list"
  tr_covered_cells :: nat
  tr_passed_cells :: nat
  tr_failed_cells :: nat
  tr_holdout_failures :: nat
  tr_dual_print :: bool
  tr_dual_print_rank :: "nat option"
  tr_mean_era_excess :: "real option"
  tr_pilot_net_return :: "(string \<times> real option) list"
  tr_research_net_return :: "(string \<times> real option) list"
  tr_control_pilot_return :: "(string \<times> real option) list"
  tr_one_way_turnover :: "(string \<times> real option) list"
  tr_pilot_fee_drag :: "(string \<times> real option) list"
  tr_research_fee_drag :: "(string \<times> real option) list"
  tr_selected :: bool
  tr_can_promote :: bool

definition blank_row :: "string \<Rightarrow> (string \<times> int \<times> int \<times> string) option \<Rightarrow> topk_row" where
  "blank_row candidate_id spec =
     \<lparr>tr_candidate_id = candidate_id, tr_lookback = map_option (\<lambda>(_, l, _, _). l) spec,
      tr_k = map_option (\<lambda>(_, _, k, _). k) spec, tr_weighting = map_option (\<lambda>(_, _, _, w). w) spec,
      tr_venues = [], tr_covered_cells = 0, tr_passed_cells = 0, tr_failed_cells = 0, tr_holdout_failures = 0,
      tr_dual_print = False, tr_dual_print_rank = None, tr_mean_era_excess = None, tr_pilot_net_return = [],
      tr_research_net_return = [], tr_control_pilot_return = [], tr_one_way_turnover = [],
      tr_pilot_fee_drag = [], tr_research_fee_drag = [], tr_selected = False, tr_can_promote = False\<rparr>"

definition find_candidate :: "print_result \<Rightarrow> string \<Rightarrow> candidate_print option" where
  "find_candidate result candidate_id =
     (case filter (\<lambda>c. cp_candidate_id c = candidate_id) (pr_candidates result) of [] \<Rightarrow> None | c # _ \<Rightarrow> Some c)"

definition cell_excesses :: "candidate_print \<Rightarrow> real list" where
  "cell_excesses found =
     concat (map (\<lambda>c. case ec_excess_pilot c of Some x \<Rightarrow> (if ec_covered c then [x] else []) | None \<Rightarrow> [])
       (cp_cells found))"

text \<open>One print added to the row, and to the excesses the mean is taken of.\<close>

definition add_print :: "string \<Rightarrow> topk_row \<times> real list \<Rightarrow> print_result \<Rightarrow> topk_row \<times> real list" where
  "add_print candidate_id acc result =
     (case (acc, find_candidate result candidate_id) of
        ((row, excesses), None) \<Rightarrow> (row, excesses)
      | ((row, excesses), Some found) \<Rightarrow>
          if pm_status (pr_meta result) \<noteq> ''ok'' then (row, excesses)
          else
            (let venue = pm_venue (pr_meta result);
                 row = row\<lparr>tr_venues := tr_venues row @ [venue]\<rparr>;
                 counts = 0 < cp_covered_cells found;
                 row = (if counts
                        then row\<lparr>tr_covered_cells := tr_covered_cells row + cp_covered_cells found,
                                 tr_passed_cells := tr_passed_cells row + cp_passed_cells found,
                                 tr_failed_cells := tr_failed_cells row + cp_failed_cells found,
                                 tr_holdout_failures := tr_holdout_failures row
                                   + (if cp_holdout_excess_pilot found = None \<or> \<not> cp_holdout_pass found then 1 else 0)\<rparr>
                        else row);
                 pilot = cp_full_pilot found; research = cp_full_research found;
                 control = (case find_candidate result control_id of None \<Rightarrow> None | Some c \<Rightarrow> cp_full_pilot c)
             in (row\<lparr>tr_pilot_net_return := AList.update venue (map_option ba_total_return pilot) (tr_pilot_net_return row),
                     tr_research_net_return := AList.update venue (map_option ba_total_return research) (tr_research_net_return row),
                     tr_one_way_turnover := AList.update venue (map_option ba_one_way_turnover_per_year pilot) (tr_one_way_turnover row),
                     tr_pilot_fee_drag := AList.update venue (map_option ba_fee_drag pilot) (tr_pilot_fee_drag row),
                     tr_research_fee_drag := AList.update venue (map_option ba_fee_drag research) (tr_research_fee_drag row),
                     tr_control_pilot_return := AList.update venue (map_option ba_total_return control) (tr_control_pilot_return row)\<rparr>,
                 (if counts then excesses @ cell_excesses found else excesses))))"

definition row_from_prints :: "print_result list \<Rightarrow> catalog \<Rightarrow> string \<Rightarrow> topk_row" where
  "row_from_prints prints cat candidate_id =
     (let spec = (case filter (\<lambda>item. fst item = candidate_id) cat of [] \<Rightarrow> None | item # _ \<Rightarrow> Some item)
      in (case foldl (add_print candidate_id) (blank_row candidate_id spec, []) prints of
            (row, excesses) \<Rightarrow>
              row\<lparr>tr_mean_era_excess := (if excesses = [] then None else Some (mean0 excesses)),
                  tr_dual_print := (candidate_id \<noteq> control_id \<and> tr_failed_cells row = 0
                     \<and> tr_holdout_failures row = 0 \<and> 2 \<le> tr_passed_cells row),
                  tr_can_promote := False\<rparr>))"

definition dual_print_rows :: "print_result list \<Rightarrow> catalog \<Rightarrow> topk_row list" where
  "dual_print_rows prints cat = map (row_from_prints prints cat) (map fst cat @ [control_id])"

definition rank_key :: "topk_row \<Rightarrow> real \<times> string" where
  "rank_key row = (- (case tr_mean_era_excess row of None \<Rightarrow> - (10 ^ 9) | Some x \<Rightarrow> x), tr_candidate_id row)"

definition rank_topk_passers :: "topk_row list \<Rightarrow> topk_row list" where
  "rank_topk_passers rows =
     map (\<lambda>(index, row). row\<lparr>tr_dual_print_rank := Some index\<rparr>)
       (enumerate 1 (sort_key rank_key
          (filter (\<lambda>row. tr_dual_print row \<and> tr_candidate_id row \<noteq> control_id) rows)))"

section \<open>The verdict of the report\<close>

record study_verdict =
  sv_dual_print_passer_ids :: "string list"
  sv_single_print_passer_ids :: "string list"
  sv_selected_candidate_id :: "string option"
  sv_any_dual_print_passer :: bool
  sv_keep_flag_false :: bool
  sv_catalog_ids :: "string list"

definition study_verdict_of :: "print_result list \<Rightarrow> catalog \<Rightarrow> study_verdict" where
  "study_verdict_of prints cat =
     (let rows = dual_print_rows prints cat;
          passers = rank_topk_passers rows;
          dual_ids = map tr_candidate_id passers;
          single_ids = sort (map tr_candidate_id (filter (\<lambda>row.
              tr_candidate_id row \<noteq> control_id \<and> \<not> tr_dual_print row \<and> 0 < tr_covered_cells row
            \<and> tr_failed_cells row = 0 \<and> tr_holdout_failures row = 0) rows))
      in \<lparr>sv_dual_print_passer_ids = dual_ids, sv_single_print_passer_ids = single_ids,
          sv_selected_candidate_id = (case passers of [] \<Rightarrow> None | p # _ \<Rightarrow> Some (tr_candidate_id p)),
          sv_any_dual_print_passer = (dual_ids \<noteq> []), sv_keep_flag_false = True,
          sv_catalog_ids = catalog_core_ids cat\<rparr>)"

section \<open>The paper voter\<close>

record topk_voter =
  tv_strategy_id :: string
  tv_weights_by_symbol :: "(string \<times> series) list"

definition series_for :: "topk_voter \<Rightarrow> string \<Rightarrow> series" where
  "series_for v symbol =
     (case map_of (tv_weights_by_symbol v) (upper symbol) of None \<Rightarrow> [] | Some sr \<Rightarrow> sr)"

text \<open>\<open>None\<close> is the \<open>IndexError\<close> of no candles. The rationale keeps the weight its text formats.\<close>

definition evaluate_topk :: "topk_voter \<Rightarrow> candle list \<Rightarrow> regime \<Rightarrow> strategy_signal option" where
  "evaluate_topk v cs rg =
     (if cs = [] then None
      else
        (let c = last cs;
             signal = (\<lambda>side score confidence rationale.
               \<lparr>sg_strategy_id = tv_strategy_id v, sg_symbol = c_symbol c, sg_side = side, sg_score = score,
                sg_confidence = confidence, sg_regime = rg, sg_rationale = [rationale],
                sg_signal_version = None\<rparr>)
         in Some (case map_of (assoc_of (series_for v (c_symbol c))) (c_opened_at c) of
               None \<Rightarrow> signal None 0 0 (RThesis ''xs_topk: no same-bar assignment (skipped or flat)'')
             | Some weight \<Rightarrow>
                 if weight \<le> 0
                 then signal None 0 0 (RThesis ''xs_topk: no same-bar assignment (skipped or flat)'')
                 else signal (Some BUY) (min 1 weight) 1 (RComponents [(''xs_topk weight'', weight)] []))))"

definition add_assignment :: "(string \<times> series) list \<Rightarrow> string \<times> datetime \<times> real \<Rightarrow> (string \<times> series) list" where
  "add_assignment table a =
     (case a of (name, moment, weight) \<Rightarrow>
        AList.update (upper name) (dict_get_or table (upper name) [] @ [(moment, weight)]) table)"

definition voter_from_decisions :: "string \<Rightarrow> rebalance_decision list \<Rightarrow> topk_voter" where
  "voter_from_decisions strategy_id decisions =
     \<lparr>tv_strategy_id = strategy_id,
      tv_weights_by_symbol = sort_key fst (foldl add_assignment []
        (concat (map (\<lambda>d. map (\<lambda>(name, weight). (name, rd_decided_at d, weight)) (rd_weights d)) decisions)))\<rparr>"

section \<open>What a scored candidate is\<close>

text \<open>A cell that passes has a full window and beats both zero and the control at the pilot cost.\<close>

definition cell_wins :: "era_cell \<Rightarrow> bool" where
  "cell_wins c \<longleftrightarrow> ec_covered c \<and> min_era_bars \<le> ec_bars c
   \<and> (\<exists>p q x. ec_pilot c = Some p \<and> ec_control_pilot c = Some q \<and> ec_excess_pilot c = Some x
      \<and> 0 < ba_total_return p \<and> 0 < ba_sharpe p \<and> x = ba_total_return p - ba_total_return q \<and> 0 < x)"

definition candidate_scored :: "candidate_print \<Rightarrow> bool" where
  "candidate_scored f \<longleftrightarrow>
     cp_covered_cells f = length (filter ec_covered (cp_cells f))
   \<and> cp_passed_cells f = length (filter (\<lambda>c. ec_covered c \<and> ec_bar_pass c) (cp_cells f))
   \<and> cp_failed_cells f = cp_covered_cells f - cp_passed_cells f
   \<and> (\<forall>c\<in>set (cp_cells f). ec_bar_pass c \<longrightarrow> cell_wins c)
   \<and> (cp_holdout_pass f \<longrightarrow> (\<exists>x. cp_holdout_excess_pilot f = Some x \<and> 0 < x))
   \<and> (cp_print_pass f \<longrightarrow> 0 < cp_covered_cells f \<and> cp_failed_cells f = 0 \<and> cp_holdout_pass f)"

lemma excess_return_Some:
  "excess_return a b = Some x \<longleftrightarrow> (\<exists>p q. a = Some p \<and> b = Some q \<and> x = ba_total_return p - ba_total_return q)"
  by (auto simp: excess_return_def split: option.splits)

lemma excess_return_known [simp]: "excess_return (Some p) (Some q) = Some (ba_total_return p - ba_total_return q)"
  by (simp add: excess_return_def)

lemma cell_failures_Nil:
  "cell_failures p x = [] \<longleftrightarrow> 0 < ba_total_return p \<and> 0 < ba_sharpe p \<and> 0 < x"
  by (auto simp: cell_failures_def)

lemma judge_cell_wins:
  assumes "ec_bar_pass (judge_cell is_control cell)" "\<not> ec_bar_pass cell" "ec_covered cell" "min_era_bars \<le> ec_bars cell"
  shows "cell_wins (judge_cell is_control cell) \<and> \<not> is_control"
  using assms
  by (auto simp: judge_cell_def Let_def excess_return_Some cell_failures_Nil cell_wins_def split: if_splits option.splits)

lemma score_cell_wins:
  assumes "score_cell venue tables costs decisions control is_control e = Inr c" "ec_bar_pass c"
  shows "cell_wins c \<and> \<not> is_control"
proof (cases "length (covered_bars (mt_calendar tables) e) < min_era_bars")
  case True
  with assms show ?thesis by (auto simp: score_cell_def Let_def blank_cell_def)
next
  case False
  with assms obtain cell where "c = judge_cell is_control cell" "\<not> ec_bar_pass cell" "ec_covered cell"
    "min_era_bars \<le> ec_bars cell"
    by (auto simp: score_cell_def Let_def bindr_eq_Inr blank_cell_def)
  with judge_cell_wins assms(2) show ?thesis by blast
qed

lemma score_candidate_cells:
  assumes "score_topk_candidate venue tables costs holdout control candidate_id decisions is_control = Inr f"
  shows "each (score_cell venue tables costs decisions control is_control) eras = Inr (cp_cells f)"
    and "cp_candidate_id f = candidate_id"
    and "is_control \<Longrightarrow> \<not> cp_holdout_pass f \<and> \<not> cp_print_pass f"
    and "cp_covered_cells f = length (filter ec_covered (cp_cells f))"
    and "cp_passed_cells f = length (filter (\<lambda>c. ec_covered c \<and> ec_bar_pass c) (cp_cells f))"
    and "cp_failed_cells f = cp_covered_cells f - cp_passed_cells f"
    and "cp_holdout_pass f \<Longrightarrow> \<exists>x. cp_holdout_excess_pilot f = Some x \<and> 0 < x"
    and "cp_print_pass f \<Longrightarrow> 0 < cp_covered_cells f \<and> cp_failed_cells f = 0 \<and> cp_holdout_pass f"
  using assms by (auto simp: score_topk_candidate_def Let_def bindr_eq_Inr split: option.splits)

lemma each_member: "each f xs = Inr ys \<Longrightarrow> y \<in> set ys \<Longrightarrow> \<exists>x\<in>set xs. f x = Inr y"
  by (induction xs arbitrary: ys) (auto simp: bindr_eq_Inr)

lemma score_candidate_scored:
  assumes "score_topk_candidate venue tables costs holdout control candidate_id decisions is_control = Inr f"
  shows "candidate_scored f" and "is_control \<Longrightarrow> cp_passed_cells f = 0"
proof -
  note cells = score_candidate_cells [OF assms]
  have win: "cell_wins c \<and> \<not> is_control" if "c \<in> set (cp_cells f)" "ec_bar_pass c" for c
    using each_member [OF cells(1) that(1)] score_cell_wins that(2) by blast
  with cells(4-8) show "candidate_scored f" unfolding candidate_scored_def by blast
  show "cp_passed_cells f = 0" if is_control
    using win that by (auto simp: cells(5) filter_empty_conv)
qed

lemma score_print_scored:
  assumes "score_print venue hs source costs fraction reasons skipped cat = Inr r" "f \<in> set (pr_candidates r)"
  shows "candidate_scored f"
proof -
  from assms obtain by_name tables snapshots where
    "score_catalog venue by_name tables snapshots costs fraction cat = Inr (pr_candidates r)"
    by (auto simp: score_print_def Let_def bindr_eq_Inr split: if_splits)
  then obtain control rows row where
    rows: "each (\<lambda>(candidate_id, lookback, k, weighting).
                   bindr (topk_targets by_name snapshots lookback k weighting) (\<lambda>decisions.
                     score_topk_candidate venue tables costs (holdout_start (mt_calendar tables) fraction) control
                       candidate_id decisions False)) cat = Inr rows"
    and row: "score_topk_candidate venue tables costs (holdout_start (mt_calendar tables) fraction) control
      control_id control True = Inr row" and r: "pr_candidates r = rows @ [row]"
    by (auto simp: score_catalog_def Let_def bindr_eq_Inr)
  show ?thesis
  proof (cases "f = row")
    case False
    with assms(2) r have "f \<in> set rows" by simp
    from each_member [OF rows this] show ?thesis
      by (auto simp: bindr_eq_Inr intro: score_candidate_scored)
  qed (use score_candidate_scored(1) [OF row] in simp)
qed

section \<open>The dual-print bar\<close>

text \<open>The candidate of a print that counts for a row, and its covered cells.\<close>

definition counted :: "string \<Rightarrow> print_result \<Rightarrow> candidate_print option" where
  "counted candidate_id r =
     (if pm_status (pr_meta r) \<noteq> ''ok'' then None
      else (case find_candidate r candidate_id of
          None \<Rightarrow> None | Some f \<Rightarrow> if 0 < cp_covered_cells f then Some f else None))"

definition covered_cells_of :: "string \<Rightarrow> print_result \<Rightarrow> era_cell list" where
  "covered_cells_of candidate_id r =
     (case counted candidate_id r of None \<Rightarrow> [] | Some f \<Rightarrow> filter ec_covered (cp_cells f))"

definition over_counted :: "(candidate_print \<Rightarrow> nat) \<Rightarrow> string \<Rightarrow> print_result \<Rightarrow> nat" where
  "over_counted g candidate_id r = (case counted candidate_id r of None \<Rightarrow> 0 | Some f \<Rightarrow> g f)"

definition holdout_miss :: "candidate_print \<Rightarrow> nat" where
  "holdout_miss f = (if cp_holdout_excess_pilot f = None \<or> \<not> cp_holdout_pass f then 1 else 0)"

lemma find_candidate_member: "find_candidate r i = Some f \<Longrightarrow> f \<in> set (pr_candidates r)"
  by (auto simp: find_candidate_def filter_eq_Cons_iff split: list.splits)

lemma counted_member: "counted i r = Some f \<Longrightarrow> f \<in> set (pr_candidates r) \<and> 0 < cp_covered_cells f"
  by (auto simp: counted_def dest: find_candidate_member split: if_splits option.splits)

lemma add_print_counts:
  assumes "add_print i (row, xs) r = (row', xs')"
  shows "tr_passed_cells row' = tr_passed_cells row + over_counted cp_passed_cells i r"
    and "tr_failed_cells row' = tr_failed_cells row + over_counted cp_failed_cells i r"
    and "tr_covered_cells row' = tr_covered_cells row + over_counted cp_covered_cells i r"
    and "tr_holdout_failures row' = tr_holdout_failures row + over_counted holdout_miss i r"
    and "tr_candidate_id row' = tr_candidate_id row"
  using assms
  by (auto simp: add_print_def over_counted_def counted_def holdout_miss_def Let_def split: option.splits if_splits)

lemma add_prints_counts:
  assumes "foldl (add_print i) (row, xs) prints = (row', xs')"
  shows "tr_passed_cells row' = tr_passed_cells row + (\<Sum>r\<leftarrow>prints. over_counted cp_passed_cells i r)
    \<and> tr_failed_cells row' = tr_failed_cells row + (\<Sum>r\<leftarrow>prints. over_counted cp_failed_cells i r)
    \<and> tr_covered_cells row' = tr_covered_cells row + (\<Sum>r\<leftarrow>prints. over_counted cp_covered_cells i r)
    \<and> tr_holdout_failures row' = tr_holdout_failures row + (\<Sum>r\<leftarrow>prints. over_counted holdout_miss i r)
    \<and> tr_candidate_id row' = tr_candidate_id row"
  using assms
proof (induction prints arbitrary: row xs)
  case (Cons r prints)
  obtain row1 xs1 where s: "add_print i (row, xs) r = (row1, xs1)" by fastforce
  with Cons.prems have "foldl (add_print i) (row1, xs1) prints = (row', xs')" by simp
  from Cons.IH [OF this] add_print_counts [OF s] show ?case by simp
qed simp

lemma row_from_prints_counts:
  fixes i prints cat
  defines "row \<equiv> row_from_prints prints cat i"
  shows "tr_candidate_id row = i" and "\<not> tr_can_promote row"
    and "tr_dual_print row \<longleftrightarrow> i \<noteq> control_id \<and> (\<Sum>r\<leftarrow>prints. over_counted cp_failed_cells i r) = 0
      \<and> (\<Sum>r\<leftarrow>prints. over_counted holdout_miss i r) = 0 \<and> 2 \<le> (\<Sum>r\<leftarrow>prints. over_counted cp_passed_cells i r)"
proof -
  let ?spec = "case filter (\<lambda>item. fst item = i) cat of [] \<Rightarrow> None | item # _ \<Rightarrow> Some item"
  obtain row' xs' where f: "foldl (add_print i) (blank_row i ?spec, []) prints = (row', xs')" by fastforce
  have row: "row = row'\<lparr>tr_mean_era_excess := (if xs' = [] then None else Some (mean0 xs')),
                  tr_dual_print := (i \<noteq> control_id \<and> tr_failed_cells row' = 0
                     \<and> tr_holdout_failures row' = 0 \<and> 2 \<le> tr_passed_cells row'),
                  tr_can_promote := False\<rparr>"
    by (simp only: row_def row_from_prints_def Let_def f prod.case)
  have blank: "tr_passed_cells (blank_row i spec) = 0" "tr_failed_cells (blank_row i spec) = 0"
    "tr_holdout_failures (blank_row i spec) = 0" "tr_candidate_id (blank_row i spec) = i" for spec
    by (simp_all add: blank_row_def)
  show "tr_candidate_id row = i" "\<not> tr_can_promote row"
    "tr_dual_print row \<longleftrightarrow> i \<noteq> control_id \<and> (\<Sum>r\<leftarrow>prints. over_counted cp_failed_cells i r) = 0
      \<and> (\<Sum>r\<leftarrow>prints. over_counted holdout_miss i r) = 0 \<and> 2 \<le> (\<Sum>r\<leftarrow>prints. over_counted cp_passed_cells i r)"
    using add_prints_counts [OF f] by (simp_all add: row blank)
qed

lemma rank_topk_passers_member:
  assumes "row \<in> set (rank_topk_passers rows)"
  shows "\<exists>r0\<in>set rows. tr_dual_print r0 \<and> tr_candidate_id r0 \<noteq> control_id
    \<and> (\<exists>n. row = r0\<lparr>tr_dual_print_rank := Some n\<rparr>)"
proof -
  let ?xs = "sort_key rank_key (filter (\<lambda>row. tr_dual_print row \<and> tr_candidate_id row \<noteq> control_id) rows)"
  from assms obtain n r0 where r: "(n, r0) \<in> set (enumerate 1 ?xs)" "row = r0\<lparr>tr_dual_print_rank := Some n\<rparr>"
    by (auto simp: rank_topk_passers_def)
  from imageI [OF r(1), of snd] have "r0 \<in> set (map snd (enumerate 1 ?xs))" by (simp only: set_map snd_conv)
  then have "r0 \<in> set rows \<and> tr_dual_print r0 \<and> tr_candidate_id r0 \<noteq> control_id" by simp
  with r(2) show ?thesis by blast
qed
section \<open>The voter's table\<close>

definition assignments :: "rebalance_decision list \<Rightarrow> (string \<times> datetime \<times> real) list" where
  "assignments ds = concat (map (\<lambda>d. map (\<lambda>(name, weight). (name, rd_decided_at d, weight)) (rd_weights d)) ds)"

lemma dict_get_or_update: "dict_get_or (AList.update k v d) k' x = (if k' = k then v else dict_get_or d k' x)"
  by (simp add: dict_get_or_def update_conv')

lemma foldl_add_assignment:
  "dict_get_or (foldl add_assignment t as) key [] =
     dict_get_or t key [] @ map snd (filter (\<lambda>(name, _). upper name = key) as)
   \<and> (distinct (map fst t) \<longrightarrow> distinct (map fst (foldl add_assignment t as)))"
proof (induction as arbitrary: t)
  case (Cons a as)
  obtain name moment weight where a: "a = (name, moment, weight)" by (cases a)
  have "dict_get_or (add_assignment t a) key [] =
      dict_get_or t key [] @ (if upper name = key then [(moment, weight)] else [])"
    by (simp add: a add_assignment_def dict_get_or_update)
  moreover have "distinct (map fst t) \<Longrightarrow> distinct (map fst (add_assignment t a))"
    by (simp add: a add_assignment_def distinct_update)
  ultimately show ?case using Cons.IH [of "add_assignment t a"] by (simp add: a)
qed simp

lemma map_of_sort_key_fst:
  assumes "distinct (map fst (d :: (string \<times> 'v) list))"
  shows "map_of (sort_key fst d) = map_of d"
proof
  fix k
  have d: "distinct (map fst (sort_key fst d))" using assms by (simp add: distinct_map)
  show "map_of (sort_key fst d) k = map_of d k"
  proof (cases "map_of d k")
    case None
    then have "k \<notin> fst ` set (sort_key fst d)" by (simp add: map_of_eq_None_iff)
    then have "map_of (sort_key fst d) k = None" by (simp only: map_of_eq_None_iff not_False_eq_True)
    with None show ?thesis by simp
  next
    case (Some v)
    with assms have "(k, v) \<in> set (sort_key fst d)" by simp
    with d Some show ?thesis by simp
  qed
qed

lemma series_for_voter:
  "series_for (voter_from_decisions i ds) symbol
   = map snd (filter (\<lambda>(name, _). upper name = upper symbol) (assignments ds))"
proof -
  let ?t = "foldl add_assignment [] (assignments ds)"
  have t: "distinct (map fst ?t)" "dict_get_or ?t (upper symbol) [] = map snd (filter (\<lambda>(name, _). upper name = upper symbol) (assignments ds))"
    using foldl_add_assignment [of "[]" "assignments ds" "upper symbol"] by (simp_all add: dict_get_or_def)
  then show ?thesis
    by (simp add: series_for_def voter_from_decisions_def assignments_def [symmetric] map_of_sort_key_fst dict_get_or_def)
qed

lemma series_for_distinct:
  assumes "distinct (map rd_decided_at ds)" "\<forall>d\<in>set ds. distinct (map (upper \<circ> fst) (rd_weights d))"
  shows "distinct (map fst (map snd (filter (\<lambda>(name, _). upper name = key) (assignments ds))))"
  using assms
proof (induction ds)
  case (Cons d ds)
  let ?own = "\<lambda>ds. map snd (filter (\<lambda>(name, _). upper name = key) (assignments ds))"
  have own: "?own (d # ds) = map (\<lambda>(_, w). (rd_decided_at d, w)) (filter (\<lambda>(name, _). upper name = key) (rd_weights d)) @ ?own ds"
    by (simp add: assignments_def filter_map comp_def case_prod_unfold)
  have short: "distinct (map (upper \<circ> fst) ws) \<Longrightarrow> length (filter (\<lambda>(name, _). upper name = key) ws) \<le> 1" for ws :: "(string \<times> real) list"
  proof (induction ws)
    case (Cons x ws)
    then have "filter (\<lambda>(name, _). upper name = key) ws = []" if "upper (fst x) = key"
    proof -
      from that Cons.prems have "\<forall>y\<in>set ws. upper (fst y) \<noteq> key" by (auto simp: image_iff)
      then show ?thesis by (auto simp: filter_empty_conv)
    qed
    with Cons show ?case by auto
  qed simp
  have one: "length (filter (\<lambda>(name, _). upper name = key) (rd_weights d)) \<le> 1"
    by (rule short) (use Cons.prems(2) in \<open>simp add: comp_def\<close>)
  have "fst ` set (?own ds) \<subseteq> rd_decided_at ` set ds" by (auto simp: assignments_def)
  moreover have "rd_decided_at d \<notin> rd_decided_at ` set ds" using Cons.prems(1) by simp
  ultimately have fresh: "rd_decided_at d \<notin> set (map fst (?own ds))" by auto
  have tl: "distinct (map fst (?own ds))" using Cons by simp
  have "distinct (map fst (map (\<lambda>(_, w). (t, w)) ws @ L))"
    if "length ws \<le> 1" "t \<notin> set (map fst L)" "distinct (map fst L)" for ws :: "(string \<times> real) list" and t and L :: series
    using that by (cases ws) (auto dest: in_keys)
  from this [OF one fresh tl] show ?case unfolding own .
qed (simp add: assignments_def)

lemma voter_weight:
  assumes "distinct (map rd_decided_at ds)" "\<forall>d\<in>set ds. distinct (map (upper \<circ> fst) (rd_weights d))"
  shows "map_of (assoc_of (series_for (voter_from_decisions i ds) symbol)) t = Some w \<longleftrightarrow>
    (\<exists>d\<in>set ds. rd_decided_at d = t \<and> (\<exists>name. (name, w) \<in> set (rd_weights d) \<and> upper name = upper symbol))"
proof -
  note dist = series_for_distinct [OF assms, of "upper symbol"]
  have "map_of (assoc_of (series_for (voter_from_decisions i ds) symbol)) t = Some w \<longleftrightarrow>
      (t, w) \<in> set (series_for (voter_from_decisions i ds) symbol)"
    unfolding series_for_voter assoc_of_id [OF dist] by (rule map_of_eq_Some_iff [OF dist])
  also have "\<dots> \<longleftrightarrow> (\<exists>d\<in>set ds. rd_decided_at d = t \<and> (\<exists>name. (name, w) \<in> set (rd_weights d) \<and> upper name = upper symbol))"
    unfolding series_for_voter assignments_def by force
  finally show ?thesis .
qed

section \<open>Properties\<close>

text \<open>
  C30: c99. The dual-print bar. When every candidate of the prints was scored by the code, a ranked passer is
  a candidate of the catalog and not the control, can not promote, and rests on at least two covered
  era cells over the prints; every covered cell it has on any print passed, that is, returned more
  than zero and more than the control, with a positive Sharpe ratio, on at least \<open>min_era_bars\<close> bars at
  the pilot cost; and on every print with a covered cell it beat the control on the holdout.
\<close>

theorem dual_print_passer_sound:
  assumes "\<forall>r\<in>set prints. \<forall>f\<in>set (pr_candidates r). candidate_scored f"
    and "row \<in> set (rank_topk_passers (dual_print_rows prints cat))"
  defines "cells \<equiv> concat (map (covered_cells_of (tr_candidate_id row)) prints)"
  shows "tr_candidate_id row \<in> fst ` set cat \<and> tr_candidate_id row \<noteq> control_id \<and> \<not> tr_can_promote row
    \<and> 2 \<le> length cells \<and> (\<forall>c\<in>set cells. cell_wins c)
    \<and> (\<forall>r\<in>set prints. covered_cells_of (tr_candidate_id row) r \<noteq> [] \<longrightarrow>
         (\<exists>f x. counted (tr_candidate_id row) r = Some f \<and> cp_holdout_excess_pilot f = Some x \<and> 0 < x))"
proof -
  from rank_topk_passers_member [OF assms(2)] obtain r0 n where r0: "r0 \<in> set (dual_print_rows prints cat)"
    "tr_dual_print r0" "tr_candidate_id r0 \<noteq> control_id" and row: "row = r0\<lparr>tr_dual_print_rank := Some n\<rparr>" by blast
  from r0(1) obtain i where i: "i \<in> set (map fst cat @ [control_id])" "r0 = row_from_prints prints cat i"
    by (auto simp: dual_print_rows_def)
  note counts = row_from_prints_counts [of prints cat i, folded i(2)]
  have id: "tr_candidate_id row = i" by (simp add: row counts(1))
  have zero: "over_counted cp_failed_cells i r = 0" "over_counted holdout_miss i r = 0" if "r \<in> set prints" for r
    using r0(2) that by (auto simp: counts(3))
  have all: "over_counted cp_passed_cells i r = length (covered_cells_of i r) \<and> (\<forall>c\<in>set (covered_cells_of i r). cell_wins c)
      \<and> (covered_cells_of i r \<noteq> [] \<longrightarrow> (\<exists>f x. counted i r = Some f \<and> cp_holdout_excess_pilot f = Some x \<and> 0 < x))"
    if r: "r \<in> set prints" for r
  proof (cases "counted i r")
    case (Some f)
    from counted_member [OF Some] assms(1) r have f: "candidate_scored f" by blast
    have "cp_failed_cells f = 0" "holdout_miss f = 0" using zero [OF r] by (simp_all add: over_counted_def Some)
    with f have le: "length (filter ec_covered (cp_cells f)) \<le> cp_passed_cells f"
      and p: "cp_passed_cells f = length (filter ec_bar_pass (filter ec_covered (cp_cells f)))"
      and h: "\<exists>x. cp_holdout_excess_pilot f = Some x \<and> 0 < x"
      by (auto simp: candidate_scored_def holdout_miss_def conj_commute split: if_splits)
    from le p have eq: "length (filter ec_bar_pass (filter ec_covered (cp_cells f))) = length (filter ec_covered (cp_cells f))"
      by (metis le_antisym length_filter_le)
    then have "\<forall>c\<in>set (filter ec_covered (cp_cells f)). ec_bar_pass c" by (metis filter_id_conv filter_True length_filter_less less_irrefl)
    with f have "\<forall>c\<in>set (filter ec_covered (cp_cells f)). cell_wins c" by (simp add: candidate_scored_def)
    with h eq p Some show ?thesis by (simp add: over_counted_def covered_cells_of_def)
  qed (simp add: over_counted_def covered_cells_of_def)
  have "length cells = (\<Sum>r\<leftarrow>prints. length (covered_cells_of i r))"
    by (simp add: cells_def id length_concat comp_def)
  also have "\<dots> = (\<Sum>r\<leftarrow>prints. over_counted cp_passed_cells i r)"
    using all by (intro arg_cong [where f = sum_list] map_cong) auto
  finally have "2 \<le> length cells" using r0(2) by (simp add: counts(3))
  moreover have "\<forall>c\<in>set cells. cell_wins c" using all by (auto simp: cells_def id)
  ultimately show ?thesis using i r0(3) counts(1,2) all by (auto simp: id row)
qed
text \<open>
  C99. The cells of a candidate. Scoring a candidate yields one cell for each era, counts the covered
  and the passed ones, and lets a cell pass only when it wins; the print passes only with a covered
  cell, none that failed and a positive holdout excess. The control passes nothing.
\<close>

theorem candidate_cells_sound:
  assumes "score_topk_candidate venue tables costs holdout control candidate_id decisions is_control = Inr f"
  shows "candidate_scored f \<and> length (cp_cells f) = length eras
    \<and> (is_control \<longrightarrow> cp_passed_cells f = 0 \<and> \<not> cp_holdout_pass f \<and> \<not> cp_print_pass f)"
  using score_candidate_scored [OF assms] score_candidate_cells(1,3) [OF assms]
  by (auto simp: each_Inr dest: list_all2_lengthD)

text \<open>The signal for the weight looked up.\<close>

definition topk_signal :: "string \<Rightarrow> candle \<Rightarrow> regime \<Rightarrow> real option \<Rightarrow> strategy_signal" where
  "topk_signal i c rg look =
     (let weight = (case look of None \<Rightarrow> 0 | Some w \<Rightarrow> w); long = 0 < weight
      in \<lparr>sg_strategy_id = i, sg_symbol = c_symbol c, sg_side = (if long then Some BUY else None),
          sg_score = (if long then min 1 weight else 0), sg_confidence = (if long then 1 else 0), sg_regime = rg,
          sg_rationale = [if long then RComponents [(''xs_topk weight'', weight)] []
                          else RThesis ''xs_topk: no same-bar assignment (skipped or flat)''],
          sg_signal_version = None\<rparr>)"

lemma evaluate_topk_signal:
  assumes "cs \<noteq> []"
  shows "evaluate_topk (voter_from_decisions i ds) cs rg = Some (topk_signal i (last cs) rg
    (map_of (assoc_of (series_for (voter_from_decisions i ds) (c_symbol (last cs)))) (c_opened_at (last cs))))"
proof -
  have "tv_strategy_id (voter_from_decisions i ds) = i" by (simp add: voter_from_decisions_def)
  with assms show ?thesis by (simp add: evaluate_topk_def topk_signal_def Let_def not_less split: option.splits)
qed

text \<open>
  C36: c99. The voter repeats the decisions. Built from decisions at distinct times whose names differ beyond
  letter case, the paper voter answers every non-empty candle series, never with a sale: it buys
  exactly when a decision made on the last bar gives the symbol a positive weight, and then its score
  is that weight, at most one. The signal is a valid one.
\<close>

theorem voter_repeats_decisions:
  assumes "distinct (map rd_decided_at ds)" "\<forall>d\<in>set ds. distinct (map (upper \<circ> fst) (rd_weights d))" "cs \<noteq> []"
  shows "\<exists>sg :: strategy_signal. evaluate_topk (voter_from_decisions i ds) cs rg = Some sg \<and> sg_side sg \<noteq> Some SELL
    \<and> signal_valid sg
    \<and> (sg_side sg = Some BUY \<longleftrightarrow> (\<exists>d\<in>set ds. rd_decided_at d = c_opened_at (last cs)
        \<and> (\<exists>(name, w)\<in>set (rd_weights d). upper name = upper (c_symbol (last cs)) \<and> 0 < w)))
    \<and> (\<forall>d\<in>set ds. \<forall>(name, w)\<in>set (rd_weights d). rd_decided_at d = c_opened_at (last cs)
        \<and> upper name = upper (c_symbol (last cs)) \<and> 0 < w \<longrightarrow> sg_score sg = min 1 w)"
proof -
  let ?c = "last cs"
  let ?look = "map_of (assoc_of (series_for (voter_from_decisions i ds) (c_symbol ?c))) (c_opened_at ?c)"
  let ?given = "\<lambda>w. \<exists>d\<in>set ds. rd_decided_at d = c_opened_at ?c
    \<and> (\<exists>name. (name, w) \<in> set (rd_weights d) \<and> upper name = upper (c_symbol ?c))"
  have look: "?look = Some w \<longleftrightarrow> ?given w" for w
    using voter_weight [OF assms(1,2)] by blast
  have buys: "(\<exists>d\<in>set ds. rd_decided_at d = c_opened_at ?c
      \<and> (\<exists>(name, w)\<in>set (rd_weights d). upper name = upper (c_symbol ?c) \<and> 0 < w)) \<longleftrightarrow> (\<exists>w. ?look = Some w \<and> 0 < w)"
    unfolding look by fast
  have score: "(\<forall>d\<in>set ds. \<forall>(name, w)\<in>set (rd_weights d). rd_decided_at d = c_opened_at ?c
      \<and> upper name = upper (c_symbol ?c) \<and> 0 < w \<longrightarrow> X = min 1 w) \<longleftrightarrow> (\<forall>w. ?look = Some w \<and> 0 < w \<longrightarrow> X = min 1 w)" for X
    unfolding look by fast
  show ?thesis
    unfolding buys score evaluate_topk_signal [OF assms(3)]
    by (auto simp: topk_signal_def signal_valid_def Let_def split: option.splits)
qed

section \<open>Examples\<close>

definition ex_metrics :: "real \<Rightarrow> basket_metrics" where
  "ex_metrics r =
     \<lparr>ba_bars = 400, ba_first = 0, ba_last = 1, ba_starting_equity = 1, ba_ending_equity = 1 + r, ba_total_return = r,
      ba_max_drawdown = 0, ba_sharpe = 1, ba_sortino = 0, ba_annualized_volatility = 0, ba_total_fees = 0,
      ba_fee_drag = 0, ba_traded_fraction = 0, ba_one_way_turnover = 0, ba_one_way_turnover_per_year = 0,
      ba_rebalances = 1, ba_flat_weeks = 0, ba_fills_skipped = 0, ba_stale_marks = 0\<rparr>"

definition ex_cell :: "string \<Rightarrow> era_cell" where
  "ex_cell era_id =
     \<lparr>ec_venue = ''v'', ec_era_id = era_id, ec_covered = True, ec_bars = 400, ec_first = None, ec_last = None,
      ec_research = None, ec_pilot = Some (ex_metrics (1 / 2)), ec_control_research = None,
      ec_control_pilot = Some (ex_metrics (1 / 4)), ec_excess_research = None, ec_excess_pilot = Some (1 / 4),
      ec_bar_pass = True, ec_fail_reasons = []\<rparr>"

definition ex_candidate :: candidate_print where
  "ex_candidate =
     \<lparr>cp_candidate_id = ''x'', cp_venue = ''v'', cp_cells = [ex_cell ''a'', ex_cell ''b''], cp_full_research = None,
      cp_full_pilot = None, cp_holdout_first = Some 0, cp_holdout_excess_pilot = Some 1, cp_holdout_pass = True,
      cp_covered_cells = 2, cp_passed_cells = 2, cp_failed_cells = 0, cp_print_pass = True, cp_decisions = 9,
      cp_flat_weeks = 0\<rparr>"

definition ex_print :: print_result where
  "ex_print = \<lparr>pr_meta = (blank_meta ''v'' ''s'' 1 0 [])\<lparr>pm_status := ''ok''\<rparr>, pr_candidates = [ex_candidate]\<rparr>"

lemma ex_scored: "candidate_scored ex_candidate"
  by (simp add: candidate_scored_def ex_candidate_def ex_cell_def cell_wins_def ex_metrics_def min_era_bars_def)

lemma ex_counted: "counted ''x'' ex_print = Some ex_candidate"
  by (simp add: counted_def ex_print_def find_candidate_def blank_meta_def ex_candidate_def)

lemma ex_row: "tr_candidate_id (row_from_prints [ex_print] cat ''x'') = ''x''" "tr_dual_print (row_from_prints [ex_print] cat ''x'')"
  by (simp_all add: row_from_prints_counts over_counted_def ex_counted)
    (simp_all add: ex_candidate_def holdout_miss_def control_id_def)

lemma ex_passers: "map tr_candidate_id (rank_topk_passers (dual_print_rows [ex_print] [(''x'', 21, 3, ''ew'')])) = [''x'']"
  by (simp add: rank_topk_passers_def dual_print_rows_def ex_row row_from_prints_counts(1))
    (simp add: control_id_def)

lemma dual_print_passer_sound_witness:
  "\<exists>row. row \<in> set (rank_topk_passers (dual_print_rows [ex_print] [(''x'', 21, 3, ''ew'')])) \<and> \<not> tr_can_promote row
    \<and> 2 \<le> length (covered_cells_of (tr_candidate_id row) ex_print)"
proof -
  obtain row where row: "row \<in> set (rank_topk_passers (dual_print_rows [ex_print] [(''x'', 21, 3, ''ew'')]))"
    using ex_passers by (cases "rank_topk_passers (dual_print_rows [ex_print] [(''x'', 21, 3, ''ew'')])") auto
  have "\<forall>r\<in>set [ex_print]. \<forall>f\<in>set (pr_candidates r). candidate_scored f" by (simp add: ex_scored ex_print_def)
  from dual_print_passer_sound [OF this row] row show ?thesis by auto
qed

definition ex_costs :: study_costs where
  "ex_costs = \<lparr>sc_research = 15, sc_pilot = 85, sc_starting_equity = 10000\<rparr>"

lemma ex_uncovered: "list_all (\<lambda>e. covered_bars [days_delta 3, days_delta 4, days_delta 5] e = []) eras"
  by code_simp

lemma ex_cells: "\<exists>cells. each (score_cell v (market_tables_of ex_past) ex_costs ds ctl False) eras = Inr cells"
proof -
  have "\<exists>c. score_cell v (market_tables_of ex_past) ex_costs ds ctl False e = Inr c" if "e \<in> set eras" for e
    using ex_uncovered that by (auto simp: list_all_iff score_cell_def Let_def ex_calendar min_era_bars_def)
  moreover have "\<forall>e\<in>set es. \<exists>c. f e = Inr c \<Longrightarrow> \<exists>cs. each f es = Inr cs" for f :: "era \<Rightarrow> study_error + era_cell" and es
    by (induction es) auto
  ultimately show ?thesis by blast
qed

lemma ex_simulated: "0 \<le> cost \<Longrightarrow>
  \<exists>m. simulate_basket (market_tables_of ex_past) [ex_flat] cost (sc_starting_equity ex_costs) None None = Inr m"
  by (simp add: simulate_basket_def run_basket_def window_calendar_def Let_def ex_calendar ex_costs_def)

lemma candidate_cells_sound_witness:
  "\<exists>f. score_topk_candidate ''v'' (market_tables_of ex_past) ex_costs None [ex_flat] ''x'' [ex_flat] False = Inr f
    \<and> candidate_scored f \<and> length (cp_cells f) = length eras"
proof -
  obtain cells where "each (score_cell ''v'' (market_tables_of ex_past) ex_costs [ex_flat] [ex_flat] False) eras = Inr cells"
    using ex_cells by blast
  moreover obtain m where "simulate_basket (market_tables_of ex_past) [ex_flat] (sc_research ex_costs) (sc_starting_equity ex_costs) None None = Inr m"
    using ex_simulated [of "sc_research ex_costs"] by (auto simp: ex_costs_def)
  moreover obtain m' where "simulate_basket (market_tables_of ex_past) [ex_flat] (sc_pilot ex_costs) (sc_starting_equity ex_costs) None None = Inr m'"
    using ex_simulated [of "sc_pilot ex_costs"] by (auto simp: ex_costs_def)
  ultimately obtain f where "score_topk_candidate ''v'' (market_tables_of ex_past) ex_costs None [ex_flat] ''x'' [ex_flat] False = Inr f"
    by (simp add: score_topk_candidate_def Let_def)
  with candidate_cells_sound [OF this] show ?thesis by blast
qed

lemma voter_repeats_decisions_witness:
  "\<exists>sg :: strategy_signal. evaluate_topk (voter_from_decisions ''x'' [ex_all_in]) [daily_bar ''A/USD'' 3 10] RANGE_BOUND = Some sg
    \<and> sg_side sg = Some BUY \<and> sg_score sg = 1"
  using voter_repeats_decisions [of "[ex_all_in]" "[daily_bar ''A/USD'' 3 10]" "''x''" RANGE_BOUND]
  by (auto simp: ex_all_in_def daily_bar_def)
text \<open>
  Cells are counted, not told apart: one print with one passed cell, given twice, is a dual print.
\<close>

definition ex_single :: print_result where
  "ex_single = ex_print\<lparr>pr_candidates := [ex_candidate\<lparr>cp_cells := [ex_cell ''a''], cp_covered_cells := 1, cp_passed_cells := 1\<rparr>]\<rparr>"

lemma repeated_print_is_dual:
  "tr_dual_print (row_from_prints [ex_single, ex_single] cat ''x'')" "\<not> tr_dual_print (row_from_prints [ex_single] cat ''x'')"
proof -
  have "counted ''x'' ex_single = Some (ex_candidate\<lparr>cp_cells := [ex_cell ''a''], cp_covered_cells := 1, cp_passed_cells := 1\<rparr>)"
    by (simp add: counted_def ex_single_def ex_print_def find_candidate_def blank_meta_def ex_candidate_def)
  then show "tr_dual_print (row_from_prints [ex_single, ex_single] cat ''x'')" "\<not> tr_dual_print (row_from_prints [ex_single] cat ''x'')"
    by (simp_all add: row_from_prints_counts over_counted_def)
      (simp_all add: ex_candidate_def holdout_miss_def control_id_def)
qed

end
