(* ===== verification/Feeds.thy ===== *)
theory Feeds
  imports Market Candles Py_Number Py_Values "HOL-Library.Sublist" "HOL-Library.Multiset"
begin

text \<open>
  The market data adapters of the trading cycle: \<open>market/streaming.py\<close> (the reconnect loop),
  \<open>market/adapters.py\<close> (ticker and book messages, the reference price services),
  \<open>market/kraken_rest.py\<close> (the polled ticker), \<open>market/kraken_candles.py\<close> and \<open>market/symbols.py\<close>. A message
  is a JSON value, the answer of a server an argument, and a connection the list of the items it
  delivered with the way it ended. A number that is not finite leaves the model with
  \<open>FeedNonFinite\<close>: the code then raises, or lets an infinite price through.
\<close>

section \<open>Failures and numbers\<close>

datatype feed_failure =
    FeedTypeError
  | FeedValueError
  | FeedOverflow
  | FeedRuntimeError
  | FeedValidation
  | FeedNonFinite

text \<open>\<open>float(value)\<close> of a JSON value.\<close>

definition finite_float :: "pyfloat \<Rightarrow> feed_failure + real" where
  "finite_float x = (case x of Fin r \<Rightarrow> Inr r | NonFinite \<Rightarrow> Inl FeedNonFinite)"

definition float_of :: "json \<Rightarrow> feed_failure + real" where
  "float_of v =
     (case v of
        JBool b \<Rightarrow> Inr (if b then 1 else 0)
      | JInt n \<Rightarrow> (case int_to_float n of None \<Rightarrow> Inl FeedOverflow | Some r \<Rightarrow> Inr r)
      | JFloat x \<Rightarrow> finite_float x
      | JStr s \<Rightarrow> (case parse_float s of None \<Rightarrow> Inl FeedValueError | Some x \<Rightarrow> finite_float x)
      | _ \<Rightarrow> Inl FeedTypeError)"

text \<open>\<open>int(value)\<close>; a float is truncated.\<close>

definition parse_int :: "string \<Rightarrow> int option" where
  "parse_int s =
     (let (neg, u) = read_sign (strip s); (v, n, rest) = read_digits 0 0 u
      in if n = 0 \<or> rest \<noteq> [] then None else Some (if neg then - int v else int v))"

definition int_of :: "json \<Rightarrow> feed_failure + int" where
  "int_of v =
     (case v of
        JBool b \<Rightarrow> Inr (if b then 1 else 0)
      | JInt n \<Rightarrow> Inr n
      | JFloat (Fin r) \<Rightarrow> Inr (if r < 0 then - \<lfloor>- r\<rfloor> else \<lfloor>r\<rfloor>)
      | JFloat NonFinite \<Rightarrow> Inl FeedNonFinite
      | JStr s \<Rightarrow> (case parse_int s of None \<Rightarrow> Inl FeedValueError | Some n \<Rightarrow> Inr n)
      | _ \<Rightarrow> Inl FeedTypeError)"

text \<open>\<open>isinstance(v, (int, float))\<close>: a boolean is an \<open>int\<close>.\<close>

definition is_number :: "json \<Rightarrow> bool" where
  "is_number v = (case v of JBool _ \<Rightarrow> True | JInt _ \<Rightarrow> True | JFloat _ \<Rightarrow> True | _ \<Rightarrow> False)"

definition is_strict_number :: "json \<Rightarrow> bool" where
  "is_strict_number v = (case v of JInt _ \<Rightarrow> True | JFloat _ \<Rightarrow> True | _ \<Rightarrow> False)"

fun traverse :: "('a \<Rightarrow> 'e + 'b) \<Rightarrow> 'a list \<Rightarrow> 'e + 'b list" where
  "traverse f [] = Inr []"
| "traverse f (x # xs) = bindr (f x) (\<lambda>y. bindr (traverse f xs) (\<lambda>ys. Inr (y # ys)))"

section \<open>Symbols\<close>

definition futures_symbol :: "string \<Rightarrow> string \<Rightarrow> string" where
  "futures_symbol asset quote = upper (strip asset) @ upper (strip quote)"

definition asset_from_futures_symbol :: "string \<Rightarrow> string \<Rightarrow> string option" where
  "asset_from_futures_symbol symbol quote =
     (let raw = upper (strip symbol); suffix = upper (strip quote)
      in if endswith raw suffix \<and> length suffix < length raw
         then Some (take (length raw - length suffix) raw) else None)"

definition after_first :: "char \<Rightarrow> string \<Rightarrow> string" where
  "after_first sep s = tl (dropWhile (\<lambda>c. c \<noteq> sep) s)"

definition kraken_pair :: "string \<Rightarrow> feed_failure + string" where
  "kraken_pair symbol =
     (let base = before (CHR ''/'') (upper symbol); quote = after_first (CHR ''/'') (upper symbol)
      in if quote = [] then Inl FeedValueError else Inr (base @ quote))"

section \<open>The reconnect loop\<close>

definition compute_backoff :: "nat \<Rightarrow> real \<Rightarrow> real \<Rightarrow> real \<Rightarrow> real" where
  "compute_backoff attempt base_seconds max_seconds jitter =
     (let nominal = min max_seconds (base_seconds * 2 ^ (attempt - 1))
      in nominal * (1 / 2 + max 0 (min 1 jitter) * (1 / 2)))"

text \<open>
  How a connection ended: with an error the loop catches (a stale or closed connection, a transport
  error; a clean end counts as one), or with another exception.
\<close>

datatype connection_end = ConnectionLost | ConnectionCrashed

type_synonym 'a connection = "'a list \<times> connection_end"

record reconnect_config =
  rc_max_attempts :: nat
  rc_backoff_base :: real
  rc_backoff_max :: real

datatype feed_verdict = FeedRunning | FeedExhausted | FeedCrashed

record 'a feed_run =
  fr_items :: "'a list"
  fr_delays :: "real list"
  fr_attempt :: nat
  fr_verdict :: feed_verdict

text \<open>One round of the loop: the items of a connection, then its failure.\<close>

definition feed_round :: "reconnect_config \<Rightarrow> 'a feed_run \<Rightarrow> 'a connection \<times> real \<Rightarrow> 'a feed_run" where
  "feed_round C s conn =
     (case conn of ((items, how), jitter) \<Rightarrow>
        if fr_verdict s \<noteq> FeedRunning then s
        else
          (let s1 = s\<lparr>fr_items := fr_items s @ items, fr_attempt := (if items = [] then fr_attempt s else 0)\<rparr>
           in case how of
                ConnectionCrashed \<Rightarrow> s1\<lparr>fr_verdict := FeedCrashed\<rparr>
              | ConnectionLost \<Rightarrow>
                  (let attempt = fr_attempt s1 + 1; s2 = s1\<lparr>fr_attempt := attempt\<rparr>
                   in if rc_max_attempts C < attempt then s2\<lparr>fr_verdict := FeedExhausted\<rparr>
                      else s2\<lparr>fr_delays := fr_delays s2
                                @ [compute_backoff attempt (rc_backoff_base C) (rc_backoff_max C) jitter]\<rparr>)))"

definition stream_with_reconnect :: "reconnect_config \<Rightarrow> ('a connection \<times> real) list \<Rightarrow> 'a feed_run" where
  "stream_with_reconnect C rounds =
     foldl (feed_round C) \<lparr>fr_items = [], fr_delays = [], fr_attempt = 0, fr_verdict = FeedRunning\<rparr> rounds"

text \<open>
  One read: \<open>waited\<close> is how long the next message takes, \<open>None\<close> when it never comes. Without a limit
  the read waits as long as it takes.
\<close>

definition recv_or_stale :: "real \<Rightarrow> (real \<times> 'a) option \<Rightarrow> string + 'a option" where
  "recv_or_stale stale_after answer =
     (case answer of
        None \<Rightarrow> if stale_after \<le> 0 then Inr None else Inl ''stale''
      | Some (waited, message) \<Rightarrow>
          if stale_after \<le> 0 \<or> waited \<le> stale_after then Inr (Some message) else Inl ''stale'')"

section \<open>The ticker channel\<close>

definition make_tick :: "string \<Rightarrow> datetime \<Rightarrow> real \<Rightarrow> real \<Rightarrow> real \<Rightarrow> feed_failure + market_tick" where
  "make_tick symbol now bid ask traded =
     (let t = \<lparr>tk_source = KRAKEN, tk_symbol = symbol, tk_observed_at = now, tk_bid = bid, tk_ask = ask,
               tk_last = traded\<rparr>
      in if tick_valid t then Inr t else Inl FeedValidation)"

definition parse_kraken_ticker :: "datetime \<Rightarrow> (string \<times> json) list \<Rightarrow> feed_failure + market_tick option" where
  "parse_kraken_ticker now message =
     (if json_get message ''channel'' \<noteq> JStr ''ticker'' then Inr None
      else (case json_get message ''data'' of
          JList (JObj row # _) \<Rightarrow>
            (case json_get row ''symbol'' of
               JStr symbol \<Rightarrow>
                 (if is_number (json_get row ''bid'') \<and> is_number (json_get row ''ask'') \<and> is_number (json_get row ''last'')
                  then bindr (float_of (json_get row ''bid'')) (\<lambda>bid.
                       bindr (float_of (json_get row ''ask'')) (\<lambda>ask.
                       bindr (float_of (json_get row ''last'')) (\<lambda>traded.
                       bindr (make_tick symbol now bid ask traded) (\<lambda>t. Inr (Some t)))))
                  else Inr None)
             | _ \<Rightarrow> Inr None)
        | _ \<Rightarrow> Inr None))"

text \<open>What one connection yields of a message: only ticks of a subscribed symbol.\<close>

definition ticker_yield :: "string list \<Rightarrow> datetime \<Rightarrow> (string \<times> json) list \<Rightarrow> feed_failure + market_tick option" where
  "ticker_yield symbols now message =
     bindr (parse_kraken_ticker now message) (\<lambda>r.
       Inr (case r of None \<Rightarrow> None | Some t \<Rightarrow> if tk_symbol t \<in> set symbols then Some t else None))"

section \<open>The book channel\<close>

type_synonym book_side = "(real \<times> real) list"

record local_book =
  lb_bids :: book_side
  lb_asks :: book_side

text \<open>A side is changed in place: what was merged before a failure stays.\<close>

definition nonpositive :: "json \<Rightarrow> bool" where
  "nonpositive v =
     (case v of JBool b \<Rightarrow> \<not> b | JInt n \<Rightarrow> n \<le> 0 | JFloat (Fin r) \<Rightarrow> r \<le> 0 | _ \<Rightarrow> False)"

definition merge_level :: "book_side \<Rightarrow> json \<Rightarrow> feed_failure + book_side" where
  "merge_level side level =
     (case level of
        JObj row \<Rightarrow>
          (let price = json_get row ''price''; qty = json_get row ''qty''
           in if \<not> is_number price \<or> \<not> is_number qty then Inr side
              else if nonpositive qty then bindr (float_of price) (\<lambda>p. Inr (AList.delete p side))
              else bindr (float_of qty) (\<lambda>q. bindr (float_of price) (\<lambda>p. Inr (AList.update p q side))))
      | _ \<Rightarrow> Inr side)"

fun merge_levels :: "book_side \<Rightarrow> json list \<Rightarrow> book_side \<times> feed_failure option" where
  "merge_levels side [] = (side, None)"
| "merge_levels side (level # levels) =
     (case merge_level side level of Inl e \<Rightarrow> (side, Some e) | Inr s \<Rightarrow> merge_levels s levels)"

definition apply_book :: "local_book \<Rightarrow> bool \<Rightarrow> json list \<Rightarrow> json list \<Rightarrow> local_book \<times> feed_failure option" where
  "apply_book b fresh bids asks =
     (let b0 = (if fresh then \<lparr>lb_bids = [], lb_asks = []\<rparr> else b)
      in case merge_levels (lb_bids b0) bids of
           (bs, Some e) \<Rightarrow> (b0\<lparr>lb_bids := bs\<rparr>, Some e)
         | (bs, None) \<Rightarrow>
             (case merge_levels (lb_asks b0) asks of (as, r) \<Rightarrow> (\<lparr>lb_bids = bs, lb_asks = as\<rparr>, r)))"

definition book_levels :: "(real \<times> real) list \<Rightarrow> feed_failure + book_level list" where
  "book_levels side =
     (if list_all (\<lambda>(price, qty). 0 < price \<and> 0 \<le> qty) side
      then Inr (map (\<lambda>(price, qty). \<lparr>lv_price = price, lv_qty = qty\<rparr>) side) else Inl FeedValidation)"

definition book_top :: "nat \<Rightarrow> local_book \<Rightarrow> feed_failure + (book_level list \<times> book_level list)" where
  "book_top depth b =
     bindr (book_levels (take depth (sort_key (\<lambda>kv. - fst kv) (lb_bids b)))) (\<lambda>bs.
     bindr (book_levels (take depth (sort_key fst (lb_asks b)))) (\<lambda>as. Inr (bs, as)))"

text \<open>\<open>_parse_kraken_timestamp\<close>; \<open>fromisoformat\<close> is that of the standard library.\<close>

definition parse_kraken_timestamp :: "(string \<Rightarrow> datetime option) \<Rightarrow> datetime \<Rightarrow> json \<Rightarrow> datetime" where
  "parse_kraken_timestamp fromisoformat now v =
     (case v of JStr s \<Rightarrow> opt_or (fromisoformat s) now | _ \<Rightarrow> now)"

text \<open>
  The message is merged before the levels are validated: a failure leaves the books changed, which
  the first component keeps.
\<close>

definition parse_kraken_book_message ::
  "nat \<Rightarrow> (json \<Rightarrow> datetime) \<Rightarrow> (string \<times> json) list \<Rightarrow> (string \<times> local_book) list
   \<Rightarrow> (string \<times> local_book) list \<times> (feed_failure + book_snapshot option)" where
  "parse_kraken_book_message depth timestamp message books =
     (if json_get message ''channel'' \<noteq> JStr ''book'' then (books, Inr None)
      else if json_get message ''type'' \<noteq> JStr ''snapshot'' \<and> json_get message ''type'' \<noteq> JStr ''update''
      then (books, Inr None)
      else (case json_get message ''data'' of
          JList (JObj row # _) \<Rightarrow>
            (case (json_get row ''symbol'', json_get row ''bids'', json_get row ''asks'') of
               (JStr symbol, JList bids, JList asks) \<Rightarrow>
                 (let book = dict_get_or books symbol \<lparr>lb_bids = [], lb_asks = []\<rparr>
                  in case apply_book book (json_get message ''type'' = JStr ''snapshot'') bids asks of
                       (b, Some e) \<Rightarrow> (AList.update symbol b books, Inl e)
                     | (b, None) \<Rightarrow>
                         (AList.update symbol b books,
                          bindr (book_top depth b) (\<lambda>(bs, as).
                            Inr (Some \<lparr>bk_source = KRAKEN, bk_symbol = symbol,
                                       bk_observed_at = timestamp (json_get row ''timestamp''),
                                       bk_bids = bs, bk_asks = as\<rparr>))))
             | _ \<Rightarrow> (books, Inr None))
        | _ \<Rightarrow> (books, Inr None)))"

text \<open>
  One connection of the book channel: what it yields, and the failure that ends it. The books are
  those of the provider; they stay across connections.
\<close>

fun stream_books ::
  "nat \<Rightarrow> (json \<Rightarrow> datetime) \<Rightarrow> string list \<Rightarrow> json dict list \<Rightarrow> local_book dict
   \<Rightarrow> local_book dict \<times> book_snapshot list \<times> feed_failure option" where
  "stream_books depth timestamp symbols [] books = (books, [], None)"
| "stream_books depth timestamp symbols (m # ms) books =
     (case parse_kraken_book_message depth timestamp m books of
        (books', Inl e) \<Rightarrow> (books', [], Some e)
      | (books', Inr r) \<Rightarrow>
          (case stream_books depth timestamp symbols ms books' of
             (final, snaps, e) \<Rightarrow>
               (final, (case r of None \<Rightarrow> [] | Some snap \<Rightarrow> if bk_symbol snap \<in> set symbols then [snap] else []) @ snaps, e)))"

section \<open>The polled ticker\<close>

definition require_paper_kraken_rest :: "string \<Rightarrow> string \<Rightarrow> feed_failure + unit" where
  "require_paper_kraken_rest trading_mode venue_feed =
     (if venue_feed = ''kraken_rest'' \<and> trading_mode \<noteq> ''paper'' then Inl FeedRuntimeError else Inr ())"

text \<open>The price of a side, or the first element of its list; \<open>None\<close> when it is no number.\<close>

definition first_price :: "json \<Rightarrow> feed_failure + real option" where
  "first_price side =
     (let v = (case side of JList (x # _) \<Rightarrow> x | _ \<Rightarrow> side)
      in if is_strict_number v then bindr (float_of v) (\<lambda>r. Inr (Some r))
         else (case v of
             JStr t \<Rightarrow> (case parse_float t of None \<Rightarrow> Inr None | Some x \<Rightarrow> bindr (finite_float x) (\<lambda>r. Inr (Some r)))
           | _ \<Rightarrow> Inr None))"

definition base_spellings :: "string \<Rightarrow> string list" where
  "base_spellings base =
     dict_get_or [(''BTC'', [''BTC'', ''XBT'', ''XXBT'']), (''XBT'', [''BTC'', ''XBT'', ''XXBT''])] base [base]"

definition pair_candidates :: "string \<Rightarrow> feed_failure + string list" where
  "pair_candidates symbol =
     bindr (kraken_pair symbol) (\<lambda>pair.
       let base = before (CHR ''/'') (upper symbol); quote = after_first (CHR ''/'') (upper symbol)
       in Inr (map upper (pair # concat (map (\<lambda>a. [a @ quote, ''X'' @ a @ ''Z'' @ quote]) (base_spellings base)))))"

text \<open>The row of a symbol and what is left of the result.\<close>

definition pop_ticker_row ::
  "(string \<times> json) list \<Rightarrow> string \<Rightarrow> feed_failure + ((string \<times> json) list option \<times> (string \<times> json) list)" where
  "pop_ticker_row result symbol =
     bindr (pair_candidates symbol) (\<lambda>wanted.
       case filter (\<lambda>(key, v). upper key \<in> set wanted \<and> is_object v) result of
         (key, JObj row) # _ \<Rightarrow> Inr (Some row, AList.delete key result)
       | _ \<Rightarrow>
           (case result of
              [(_, JObj row)] \<Rightarrow> Inr (Some row, [])
            | [_] \<Rightarrow> Inr (None, [])
            | _ \<Rightarrow> Inr (None, result)))"

definition row_tick :: "datetime \<Rightarrow> string \<Rightarrow> (string \<times> json) list \<Rightarrow> feed_failure + market_tick" where
  "row_tick now symbol row =
     bindr (first_price (json_get row ''b'')) (\<lambda>bid.
     bindr (first_price (json_get row ''a'')) (\<lambda>ask.
     bindr (first_price (json_get row ''c'')) (\<lambda>traded.
       case (bid, ask, traded) of
         (Some b, Some a, Some l) \<Rightarrow> make_tick (upper symbol) now b a l
       | _ \<Rightarrow> Inl FeedTypeError)))"

fun rest_ticks :: "datetime \<Rightarrow> (string \<times> json) list \<Rightarrow> string list \<Rightarrow> feed_failure + market_tick list" where
  "rest_ticks now unused [] = Inr []"
| "rest_ticks now unused (symbol # symbols) =
     bindr (pop_ticker_row unused symbol) (\<lambda>(row, left).
       case row of
         None \<Rightarrow> rest_ticks now left symbols
       | Some r \<Rightarrow>
           bindr (row_tick now symbol r) (\<lambda>t.
           bindr (rest_ticks now left symbols) (\<lambda>ts. Inr (t # ts))))"

definition parse_kraken_rest_ticker :: "datetime \<Rightarrow> json \<Rightarrow> string list \<Rightarrow> feed_failure + market_tick list" where
  "parse_kraken_rest_ticker now payload symbols =
     (case payload of
        JObj body \<Rightarrow>
          (if json_truthy (json_get body ''error'') then Inl FeedRuntimeError
           else (case json_get body ''result'' of
               JObj result \<Rightarrow>
                 (if result = [] then Inl FeedTypeError
                  else bindr (rest_ticks now result symbols) (\<lambda>ticks.
                         if ticks = [] then Inl FeedRuntimeError else Inr ticks))
             | _ \<Rightarrow> Inl FeedTypeError))
      | _ \<Rightarrow> Inl FeedTypeError)"

text \<open>One poll; \<open>get\<close> is the answer of the server to the comma-separated pairs.\<close>

fun join_comma :: "string list \<Rightarrow> string" where
  "join_comma [] = []"
| "join_comma [x] = x"
| "join_comma (x # y # zs) = x @ '','' @ join_comma (y # zs)"

definition fetch_ticks :: "(string \<Rightarrow> feed_failure + json) \<Rightarrow> datetime \<Rightarrow> string list \<Rightarrow> feed_failure + market_tick list" where
  "fetch_ticks get now symbols =
     bindr (traverse kraken_pair symbols) (\<lambda>pairs.
     bindr (get (join_comma pairs)) (\<lambda>payload. parse_kraken_rest_ticker now payload symbols))"

section \<open>Candles\<close>

definition interval_minutes :: "(string \<times> nat) list" where
  "interval_minutes =
     [(''1m'', 1), (''5m'', 5), (''15m'', 15), (''30m'', 30), (''1h'', 60), (''4h'', 240), (''1d'', 1440), (''1w'', 10080)]"

text \<open>
  \<open>datetime.fromtimestamp\<close> covers the years 1 to 9999; outside them it raises \<open>ValueError\<close>, or an
  \<open>OverflowError\<close> or \<open>OSError\<close> where the platform's clock ends first.
\<close>

definition from_timestamp :: "int \<Rightarrow> feed_failure + datetime" where
  "from_timestamp ts =
     (if -62135596800 \<le> ts \<and> ts \<le> 253402300799 then Inr (seconds ts) else Inl FeedValueError)"

definition parse_ohlc_row :: "string \<Rightarrow> string \<Rightarrow> json \<Rightarrow> feed_failure + candle" where
  "parse_ohlc_row symbol resolution row =
     (case row of
        JList vs \<Rightarrow>
          (if length vs < 7 then Inl FeedTypeError
           else
             bindr (int_of (vs ! 0)) (\<lambda>ts.
             bindr (from_timestamp ts) (\<lambda>opened_at.
             bindr (float_of (vs ! 1)) (\<lambda>opening.
             bindr (float_of (vs ! 2)) (\<lambda>high.
             bindr (float_of (vs ! 3)) (\<lambda>low.
             bindr (float_of (vs ! 4)) (\<lambda>close.
             bindr (float_of (vs ! 6)) (\<lambda>volume.
               let c = \<lparr>c_symbol = upper symbol, c_interval = resolution, c_opened_at = opened_at, c_open = opening,
                        c_high = high, c_low = low, c_close = close, c_volume = volume\<rparr>
               in if candle_valid c then Inr c else Inl FeedValidation))))))))
      | _ \<Rightarrow> Inl FeedTypeError)"

definition parse_ohlc_payload :: "json \<Rightarrow> feed_failure + (json list \<times> int)" where
  "parse_ohlc_payload payload =
     (case payload of
        JObj body \<Rightarrow>
          (if json_truthy (json_get body ''error'') then Inl FeedRuntimeError
           else (case json_get body ''result'' of
               JObj result \<Rightarrow>
                 (case map_of result ''last'' of
                    None \<Rightarrow> Inl FeedTypeError
                  | Some l \<Rightarrow>
                      bindr (int_of l) (\<lambda>traded.
                        case AList.delete ''last'' result of
                          [(_, JList rows)] \<Rightarrow> Inr (rows, traded)
                        | _ \<Rightarrow> Inl FeedTypeError))
             | _ \<Rightarrow> Inl FeedTypeError))
      | _ \<Rightarrow> Inl FeedTypeError)"

definition candles_from_ohlc_rows :: "string \<Rightarrow> string \<Rightarrow> bool \<Rightarrow> json list \<Rightarrow> feed_failure + candle list" where
  "candles_from_ohlc_rows symbol resolution drop_uncommitted rows =
     bindr (traverse (parse_ohlc_row symbol resolution) rows) (\<lambda>cs.
       let ordered = sort_key c_opened_at cs
       in Inr (if drop_uncommitted \<and> ordered \<noteq> [] then butlast ordered else ordered))"

definition fetch_candles ::
  "(string \<Rightarrow> nat \<Rightarrow> feed_failure + json) \<Rightarrow> string \<Rightarrow> string \<Rightarrow> int \<Rightarrow> feed_failure + candle list" where
  "fetch_candles get symbol resolution limit =
     (if limit \<le> 0 then Inl FeedValueError
      else (case map_of interval_minutes resolution of
          None \<Rightarrow> Inl FeedValueError
        | Some minutes \<Rightarrow>
            bindr (kraken_pair symbol) (\<lambda>pair.
            bindr (get pair minutes) (\<lambda>payload.
            bindr (parse_ohlc_payload payload) (\<lambda>(rows, _).
            bindr (candles_from_ohlc_rows symbol resolution True rows) (\<lambda>cs.
              Inr (tail_slice (nat limit) cs)))))))"

section \<open>Reference prices: CoinGecko\<close>

definition coingecko_ids :: "string dict" where
  "coingecko_ids = [(''BTC'', ''bitcoin''), (''ETH'', ''ethereum''), (''SOL'', ''solana'')]"

text \<open>\<open>hp_failed\<close> is what \<open>raise_for_status\<close> says of the answer, \<open>hp_body\<close> what \<open>json\<close> reads.\<close>

record http_answer =
  hp_status :: nat
  hp_failed :: "feed_failure option"
  hp_retry_after :: "string option"
  hp_body :: "feed_failure + json"

definition retry_after_seconds :: "string option \<Rightarrow> real \<Rightarrow> real" where
  "retry_after_seconds header cap_seconds =
     (let cap = max 0 cap_seconds
      in case header of
           None \<Rightarrow> min 1 cap
         | Some raw \<Rightarrow>
             (case parse_float raw of
                None \<Rightarrow> min 1 cap
              | Some (Fin r) \<Rightarrow> min (max 0 r) cap
              | Some NonFinite \<Rightarrow>
                  (case read_sign (strip raw) of
                     (neg, u) \<Rightarrow> if neg \<or> lower u = ''nan'' then 0 else cap)))"

definition answer_payload :: "http_answer \<Rightarrow> feed_failure + json dict" where
  "answer_payload r =
     (case hp_failed r of
        Some e \<Rightarrow> Inl e
      | None \<Rightarrow> bindr (hp_body r) (\<lambda>v. case v of JObj kvs \<Rightarrow> Inr kvs | _ \<Rightarrow> Inl FeedTypeError))"

text \<open>\<open>_fetch_payload\<close> with \<open>n\<close> retries left: the waits, and the answer of the last request.\<close>

fun fetch_payload :: "real \<Rightarrow> nat \<Rightarrow> http_answer list \<Rightarrow> real list \<times> (feed_failure + json dict)" where
  "fetch_payload cap n [] = ([], Inl FeedRuntimeError)"
| "fetch_payload cap n (r # rs) =
     (if hp_status r = 429 \<and> 0 < n
      then (case fetch_payload cap (n - 1) rs of
              (waits, result) \<Rightarrow> (retry_after_seconds (hp_retry_after r) cap # waits, result))
      else ([], answer_payload r))"

definition make_price :: "market_source \<Rightarrow> string \<Rightarrow> datetime \<Rightarrow> real \<Rightarrow> feed_failure + reference_price" where
  "make_price source asset now price =
     (let r = \<lparr>rp_source = source, rp_asset = asset, rp_currency = ''USD'', rp_observed_at = now, rp_price = price\<rparr>
      in if reference_valid r then Inr r else Inl FeedValidation)"

definition coingecko_asset :: "string \<Rightarrow> string option" where
  "coingecko_asset coin = map_of (map (\<lambda>(k, v). (v, k)) coingecko_ids) coin"

fun coingecko_rows :: "datetime \<Rightarrow> json dict \<Rightarrow> feed_failure + reference_price list" where
  "coingecko_rows now [] = Inr []"
| "coingecko_rows now ((coin, v) # rows) =
     (case (coingecko_asset coin, v) of
        (Some asset, JObj row) \<Rightarrow>
          (if is_number (json_get row ''usd'')
           then bindr (float_of (json_get row ''usd'')) (\<lambda>usd.
                bindr (make_price COINGECKO asset now usd) (\<lambda>p.
                bindr (coingecko_rows now rows) (\<lambda>ps. Inr (p # ps))))
           else coingecko_rows now rows)
      | _ \<Rightarrow> coingecko_rows now rows)"

text \<open>\<open>answers\<close> are the answers the server would give to the successive requests.\<close>

definition coingecko_prices ::
  "real \<Rightarrow> nat \<Rightarrow> datetime \<Rightarrow> http_answer list \<Rightarrow> string list \<Rightarrow> real list \<times> (feed_failure + reference_price list)" where
  "coingecko_prices cap retries now answers assets =
     (if \<forall>a \<in> set assets. map_of coingecko_ids a = None then ([], Inr [])
      else (case fetch_payload cap retries answers of
              (waits, result) \<Rightarrow> (waits, bindr result (coingecko_rows now))))"

section \<open>Reference prices: CoinMarketCap\<close>

text \<open>\<open>str(v).upper() == "USD"\<close>, which only a text can satisfy.\<close>

definition is_usd :: "json \<Rightarrow> bool" where
  "is_usd v = (case v of JStr s \<Rightarrow> upper s = ''USD'' | _ \<Rightarrow> False)"

definition quoted_in_usd :: "json dict \<Rightarrow> bool" where
  "quoted_in_usd row =
     (let symbol = json_or (json_get row ''symbol'') (json_get row ''name'') in symbol = JNull \<or> is_usd symbol)"

fun first_usd_price :: "json list \<Rightarrow> feed_failure + real option" where
  "first_usd_price [] = Inr None"
| "first_usd_price (item # items) =
     (case item of
        JObj row \<Rightarrow>
          (if \<not> quoted_in_usd row \<or> \<not> is_strict_number (json_get row ''price'') then first_usd_price items
           else bindr (float_of (json_get row ''price'')) (\<lambda>r. Inr (Some r)))
      | _ \<Rightarrow> first_usd_price items)"

definition usd_entry_price :: "json dict \<Rightarrow> json option" where
  "usd_entry_price quote =
     (case json_get quote (if map_of quote ''USD'' \<noteq> None then ''USD'' else ''usd'') of
        JObj usd \<Rightarrow> if is_strict_number (json_get usd ''price'') then Some (json_get usd ''price'') else None
      | _ \<Rightarrow> None)"

definition cmc_usd_price :: "json \<Rightarrow> feed_failure + real option" where
  "cmc_usd_price quote =
     (case quote of
        JObj q \<Rightarrow>
          (case usd_entry_price q of
             Some v \<Rightarrow> bindr (float_of v) (\<lambda>r. Inr (Some r))
           | None \<Rightarrow>
               (if is_strict_number (json_get q ''price'') \<and> quoted_in_usd q
                then bindr (float_of (json_get q ''price'')) (\<lambda>r. Inr (Some r)) else Inr None))
      | JList items \<Rightarrow> first_usd_price items
      | _ \<Rightarrow> Inr None)"

definition named_row :: "json \<Rightarrow> (string \<times> json dict) list" where
  "named_row item =
     (case item of
        JObj row \<Rightarrow>
          (case json_get row ''symbol'' of
             JStr s \<Rightarrow> if strip s = [] then [] else [(upper s, row)]
           | _ \<Rightarrow> [])
      | _ \<Rightarrow> [])"

definition keyed_row :: "string \<Rightarrow> json \<Rightarrow> (string \<times> json dict) list" where
  "keyed_row key item =
     (case item of
        JObj row \<Rightarrow> (case named_row item of [] \<Rightarrow> [(upper key, row)] | rows \<Rightarrow> rows)
      | _ \<Rightarrow> [])"

definition cmc_asset_rows :: "json \<Rightarrow> (string \<times> json dict) list" where
  "cmc_asset_rows data =
     (case data of
        JList items \<Rightarrow> concat (map named_row items)
      | JObj kvs \<Rightarrow>
          concat (map (\<lambda>(key, v). case v of
                     JList items \<Rightarrow> concat (map (keyed_row key) items)
                   | JObj row \<Rightarrow> keyed_row key v
                   | _ \<Rightarrow> []) kvs)
      | _ \<Rightarrow> [])"

text \<open>\<open>quote = row.get("quote")\<close>, or \<open>quotes\<close> when that is none.\<close>

definition row_quote :: "json dict \<Rightarrow> json" where
  "row_quote row = (if json_get row ''quote'' = JNull then json_get row ''quotes'' else json_get row ''quote'')"

fun cmc_prices :: "datetime \<Rightarrow> string list \<Rightarrow> (string \<times> json dict) list \<Rightarrow> feed_failure + reference_price list" where
  "cmc_prices now seen [] = Inr []"
| "cmc_prices now seen ((asset, row) # rows) =
     (if asset \<in> set seen then cmc_prices now seen rows
      else
        bindr (cmc_usd_price (row_quote row)) (\<lambda>r.
          case r of
            None \<Rightarrow> cmc_prices now seen rows
          | Some price \<Rightarrow>
              (if price \<le> 0 then cmc_prices now seen rows
               else bindr (make_price COINMARKETCAP asset now price) (\<lambda>p.
                    bindr (cmc_prices now (asset # seen) rows) (\<lambda>ps. Inr (p # ps))))))"

definition parse_coinmarketcap_quotes :: "datetime \<Rightarrow> json \<Rightarrow> feed_failure + reference_price list" where
  "parse_coinmarketcap_quotes now payload =
     (case payload of
        JObj body \<Rightarrow> cmc_prices now [] (cmc_asset_rows (json_get body ''data''))
      | _ \<Rightarrow> Inr [])"

definition coinmarketcap_prices :: "datetime \<Rightarrow> http_answer \<Rightarrow> string list \<Rightarrow> feed_failure + reference_price list" where
  "coinmarketcap_prices now answer assets =
     (case hp_failed answer of
        Some e \<Rightarrow> Inl e
      | None \<Rightarrow>
          bindr (hp_body answer) (\<lambda>payload.
          bindr (parse_coinmarketcap_quotes now payload) (\<lambda>prices.
            Inr (filter (\<lambda>p. rp_asset p \<in> set (map upper assets)) prices))))"

section \<open>The reconnect loop gives up only after failures in a row\<close>

definition silent_loss :: "'a connection \<times> real \<Rightarrow> bool" where
  "silent_loss x \<longleftrightarrow> fst (fst x) = [] \<and> snd (fst x) = ConnectionLost"

definition delivered_items :: "('a connection \<times> real) list \<Rightarrow> 'a list" where
  "delivered_items rounds = concat (map (\<lambda>x. fst (fst x)) rounds)"

text \<open>
  The rounds the loop has run: \<open>n\<close> silent losses in a row at the end, after a lost connection when
  \<open>n\<close> counts one that delivered something first.
\<close>

definition lost_in_a_row :: "nat \<Rightarrow> ('a connection \<times> real) list \<Rightarrow> bool" where
  "lost_in_a_row n rounds \<longleftrightarrow>
     (\<exists>pre tl. rounds = pre @ tl \<and> length tl = n \<and> (\<forall>x \<in> set tl. snd (fst x) = ConnectionLost)
        \<and> (\<forall>x \<in> set (drop 1 tl). silent_loss x))"

lemma lost_in_a_row_zero [simp]: "lost_in_a_row 0 rounds"
  by (auto simp: lost_in_a_row_def)

lemma lost_in_a_row_one: "snd (fst x) = ConnectionLost \<Longrightarrow> lost_in_a_row 1 (rounds @ [x])"
  unfolding lost_in_a_row_def by (intro exI [of _ rounds] exI [of _ "[x]"]) simp

lemma lost_in_a_row_step:
  assumes "lost_in_a_row n rounds" "silent_loss x"
  shows "lost_in_a_row (Suc n) (rounds @ [x])"
proof -
  obtain pre tl where tl: "rounds = pre @ tl" "length tl = n" "\<forall>y \<in> set tl. snd (fst y) = ConnectionLost"
      "\<forall>y \<in> set (drop 1 tl). silent_loss y"
    using assms(1) by (auto simp: lost_in_a_row_def)
  have lost: "\<forall>y \<in> set (tl @ [x]). snd (fst y) = ConnectionLost"
    using tl(3) assms(2) by (auto simp: silent_loss_def)
  have quiet: "\<forall>y \<in> set (drop 1 (tl @ [x])). silent_loss y"
    using tl(4) assms(2) by (cases tl) auto
  show ?thesis
    unfolding lost_in_a_row_def using tl(1,2) lost quiet
    by (intro exI [of _ pre] exI [of _ "tl @ [x]"]) simp
qed

text \<open>What the loop knows after any number of rounds.\<close>

definition feed_inv :: "reconnect_config \<Rightarrow> ('a connection \<times> real) list \<Rightarrow> 'a feed_run \<Rightarrow> bool" where
  "feed_inv C rounds s \<longleftrightarrow>
     (\<exists>run rest. rounds = run @ rest \<and> fr_items s = delivered_items run
        \<and> (fr_verdict s = FeedRunning \<longrightarrow> rest = [] \<and> fr_attempt s \<le> rc_max_attempts C)
        \<and> (fr_verdict s \<noteq> FeedCrashed \<longrightarrow> lost_in_a_row (fr_attempt s) run)
        \<and> (fr_verdict s = FeedExhausted \<longrightarrow> fr_attempt s = Suc (rc_max_attempts C)))"

lemma feed_round_stopped: "fr_verdict s \<noteq> FeedRunning \<Longrightarrow> feed_round C s x = s"
  by (cases x; cases "fst x") (simp add: feed_round_def)

lemma feed_inv_stopped:
  assumes "feed_inv C rounds s" "fr_verdict s \<noteq> FeedRunning"
  shows "feed_inv C (rounds @ [x]) (feed_round C s x)"
proof -
  obtain run rest where r: "rounds = run @ rest" "fr_items s = delivered_items run"
      "fr_verdict s \<noteq> FeedCrashed \<longrightarrow> lost_in_a_row (fr_attempt s) run"
      "fr_verdict s = FeedExhausted \<longrightarrow> fr_attempt s = Suc (rc_max_attempts C)"
    using assms(1) by (auto simp: feed_inv_def)
  show ?thesis
    unfolding feed_inv_def feed_round_stopped [OF assms(2)] using r assms(2)
    by (intro exI [of _ run] exI [of _ "rest @ [x]"]) simp
qed

lemma feed_inv_running:
  assumes "feed_inv C rounds s" "fr_verdict s = FeedRunning"
  shows "feed_inv C (rounds @ [x]) (feed_round C s x)"
proof -
  obtain items how jitter where x: "x = ((items, how), jitter)"
    by (metis prod.exhaust)
  have base: "fr_items s = delivered_items rounds" "lost_in_a_row (fr_attempt s) rounds" "fr_attempt s \<le> rc_max_attempts C"
    using assms by (auto simp: feed_inv_def)
  have items: "fr_items (feed_round C s x) = delivered_items (rounds @ [x])"
    using base(1) assms(2) by (auto simp: feed_round_def x delivered_items_def Let_def split: connection_end.splits)
  have lost: "how = ConnectionLost \<Longrightarrow> lost_in_a_row (fr_attempt (feed_round C s x)) (rounds @ [x])"
    using base(2) assms(2) lost_in_a_row_step [of "fr_attempt s" rounds x] lost_in_a_row_one [of x rounds]
    by (auto simp: feed_round_def x silent_loss_def Let_def)
  have crashed: "how = ConnectionCrashed \<longleftrightarrow> fr_verdict (feed_round C s x) = FeedCrashed"
    using assms(2) by (auto simp: feed_round_def x Let_def split: connection_end.splits)
  have bound: "fr_verdict (feed_round C s x) = FeedRunning \<longrightarrow> fr_attempt (feed_round C s x) \<le> rc_max_attempts C"
    using assms(2) by (auto simp: feed_round_def x Let_def split: connection_end.splits)
  have stop: "fr_verdict (feed_round C s x) = FeedExhausted \<longrightarrow> fr_attempt (feed_round C s x) = Suc (rc_max_attempts C)"
    using assms(2) base(3) by (auto simp: feed_round_def x Let_def split: connection_end.splits)
  have how: "how = ConnectionCrashed \<or> how = ConnectionLost"
    by (cases how) auto
  show ?thesis
    unfolding feed_inv_def using items lost crashed bound stop how
    by (intro exI [of _ "rounds @ [x]"] exI [of _ "[]"]) auto
qed

lemma feed_inv_stream: "feed_inv C rounds (stream_with_reconnect C rounds)"
proof (induction rounds rule: rev_induct)
  case Nil
  then show ?case by (simp add: feed_inv_def stream_with_reconnect_def delivered_items_def)
next
  case (snoc x rounds)
  then show ?case
    using feed_inv_stopped [of C rounds _ x] feed_inv_running [of C rounds _ x]
    by (auto simp: stream_with_reconnect_def)
qed

lemma backoff_bounds:
  assumes "0 \<le> base" "0 \<le> cap"
  shows "min cap (base * 2 ^ (n - 1)) / 2 \<le> compute_backoff n base cap jitter"
    "compute_backoff n base cap jitter \<le> min cap (base * 2 ^ (n - 1))"
    "0 \<le> compute_backoff n base cap jitter"
proof -
  define m where "m = min cap (base * 2 ^ (n - 1))"
  define k where "k = max 0 (min 1 jitter)"
  have m: "0 \<le> m" using assms by (simp add: m_def)
  have k: "0 \<le> k" "k \<le> 1" by (simp_all add: k_def)
  have v: "compute_backoff n base cap jitter = m / 2 + m * k / 2"
    by (simp add: compute_backoff_def m_def k_def Let_def algebra_simps)
  have mk: "0 \<le> m * k" "m * k \<le> m"
    using m k by (simp_all add: mult_left_le)
  show "min cap (base * 2 ^ (n - 1)) / 2 \<le> compute_backoff n base cap jitter"
    "compute_backoff n base cap jitter \<le> min cap (base * 2 ^ (n - 1))"
    "0 \<le> compute_backoff n base cap jitter"
    unfolding m_def [symmetric] using v mk m by simp_all
qed

lemma feed_round_delays:
  assumes "0 \<le> rc_backoff_base C" "0 \<le> rc_backoff_max C" "\<forall>d \<in> set (fr_delays s). 0 \<le> d \<and> d \<le> rc_backoff_max C"
  shows "\<forall>d \<in> set (fr_delays (feed_round C s x)). 0 \<le> d \<and> d \<le> rc_backoff_max C"
  using assms backoff_bounds [OF assms(1,2)]
  by (auto simp: feed_round_def Let_def split: prod.splits connection_end.splits)

lemma stream_delays:
  assumes "0 \<le> rc_backoff_base C" "0 \<le> rc_backoff_max C"
  shows "\<forall>d \<in> set (fr_delays (stream_with_reconnect C rounds)). 0 \<le> d \<and> d \<le> rc_backoff_max C"
proof (induction rounds rule: rev_induct)
  case Nil
  then show ?case by (simp add: stream_with_reconnect_def)
next
  case (snoc x rounds)
  then show ?case using feed_round_delays [OF assms] by (simp add: stream_with_reconnect_def)
qed

text \<open>
  The reconnect loop of the venue feeds gives up only after the configured number of reconnects
  in a row failed without a message: the run ends in one more lost connection than the limit, all
  but the first of them silent. Every item of the connections before has been passed on in order,
  and no wait was longer than the configured maximum or negative.
\<close>

theorem reconnect_gives_up_after_losses_in_a_row:
  assumes "fr_verdict (stream_with_reconnect C rounds) = FeedExhausted"
    and "0 \<le> rc_backoff_base C" "0 \<le> rc_backoff_max C"
  shows "(\<exists>pre lost rest. rounds = pre @ lost @ rest \<and> length lost = Suc (rc_max_attempts C)
            \<and> (\<forall>x \<in> set lost. snd (fst x) = ConnectionLost)
            \<and> (\<forall>x \<in> set (drop 1 lost). fst (fst x) = [])
            \<and> fr_items (stream_with_reconnect C rounds) = delivered_items (pre @ lost))
     \<and> (\<forall>d \<in> set (fr_delays (stream_with_reconnect C rounds)). 0 \<le> d \<and> d \<le> rc_backoff_max C)"
proof -
  obtain run rest where r: "rounds = run @ rest" "fr_items (stream_with_reconnect C rounds) = delivered_items run"
      "lost_in_a_row (Suc (rc_max_attempts C)) run"
    using feed_inv_stream [of C rounds] assms(1) by (auto simp: feed_inv_def)
  then obtain pre lost where l: "run = pre @ lost" "length lost = Suc (rc_max_attempts C)"
      "\<forall>x \<in> set lost. snd (fst x) = ConnectionLost" "\<forall>x \<in> set (drop 1 lost). silent_loss x"
    by (auto simp: lost_in_a_row_def)
  have "rounds = pre @ lost @ rest" "fr_items (stream_with_reconnect C rounds) = delivered_items (pre @ lost)"
    using r l by simp_all
  moreover have "\<forall>x \<in> set (drop 1 lost). fst (fst x) = []"
    using l(4) by (simp add: silent_loss_def)
  ultimately show ?thesis
    using stream_delays [OF assms(2,3)] l(2,3) by blast
qed

definition ex_reconnect :: reconnect_config where
  "ex_reconnect = \<lparr>rc_max_attempts = 1, rc_backoff_base = 1, rc_backoff_max = 30\<rparr>"

definition ex_rounds :: "(nat connection \<times> real) list" where
  "ex_rounds = [(([1, 2], ConnectionLost), 0), (([3], ConnectionLost), 1), (([], ConnectionLost), 1 / 2),
                (([4], ConnectionLost), 0)]"

lemmas reconnect_eval = ex_reconnect_def ex_rounds_def stream_with_reconnect_def feed_round_def
  compute_backoff_def delivered_items_def Let_def

lemma ex_rounds_run:
  "stream_with_reconnect ex_reconnect ex_rounds
     = \<lparr>fr_items = [1, 2, 3], fr_delays = [1 / 2, 1], fr_attempt = 2, fr_verdict = FeedExhausted\<rparr>"
  by (simp add: reconnect_eval)

theorem reconnect_gives_up_after_losses_in_a_row_witness:
  "(\<exists>pre lost rest. ex_rounds = pre @ lost @ rest \<and> length lost = Suc (rc_max_attempts ex_reconnect)
            \<and> (\<forall>x \<in> set lost. snd (fst x) = ConnectionLost)
            \<and> (\<forall>x \<in> set (drop 1 lost). fst (fst x) = [])
            \<and> fr_items (stream_with_reconnect ex_reconnect ex_rounds) = delivered_items (pre @ lost))
     \<and> (\<forall>d \<in> set (fr_delays (stream_with_reconnect ex_reconnect ex_rounds)). 0 \<le> d \<and> d \<le> rc_backoff_max ex_reconnect)"
  using reconnect_gives_up_after_losses_in_a_row [of ex_reconnect ex_rounds]
  by (simp add: ex_rounds_run) (simp add: ex_reconnect_def)

text \<open>A feed whose connections all deliver something before they are lost runs for ever.\<close>

lemma delivering_feed_survives:
  assumes "\<forall>x \<in> set rounds. fst (fst x) \<noteq> [] \<and> snd (fst x) = ConnectionLost" "0 < rc_max_attempts C"
  shows "fr_verdict (stream_with_reconnect C rounds) = FeedRunning
    \<and> fr_items (stream_with_reconnect C rounds) = delivered_items rounds
    \<and> length (fr_delays (stream_with_reconnect C rounds)) = length rounds"
  using assms
proof (induction rounds rule: rev_induct)
  case Nil
  then show ?case by (simp add: stream_with_reconnect_def delivered_items_def)
next
  case (snoc x rounds)
  obtain items how jitter where x: "x = ((items, how), jitter)"
    by (metis prod.exhaust)
  from snoc show ?case
    by (auto simp: stream_with_reconnect_def feed_round_def delivered_items_def x Let_def)
qed

section \<open>The local book is what the messages say\<close>

text \<open>
  What a level says: the quantity now resting at a price, \<open>None\<close> for a removal; and what a list of
  levels says, the last word on a price counting.
\<close>

definition level_change :: "json \<Rightarrow> (real \<times> real option) option" where
  "level_change level =
     (case level of
        JObj row \<Rightarrow>
          (if \<not> is_number (json_get row ''price'') \<or> \<not> is_number (json_get row ''qty'') then None
           else (case float_of (json_get row ''price'') of
               Inl _ \<Rightarrow> None
             | Inr p \<Rightarrow>
                 (if nonpositive (json_get row ''qty'') then Some (p, None)
                  else (case float_of (json_get row ''qty'') of Inl _ \<Rightarrow> None | Inr q \<Rightarrow> Some (p, Some q)))))
      | _ \<Rightarrow> None)"

definition levels_say :: "json list \<Rightarrow> real \<Rightarrow> real option" where
  "levels_say levels p = (case map_of (rev (List.map_filter level_change levels)) p of None \<Rightarrow> None | Some r \<Rightarrow> r)"

lemma levels_say_Nil [simp]: "levels_say [] p = None"
  by (simp add: levels_say_def)

lemma levels_say_snoc:
  "levels_say (levels @ [l]) p =
     (case level_change l of None \<Rightarrow> levels_say levels p | Some (p', r) \<Rightarrow> if p = p' then r else levels_say levels p)"
  by (auto simp: levels_say_def map_filter_def split: option.splits)

lemma merge_level_change:
  assumes "merge_level side level = Inr s"
  shows "map_of s p = (case level_change level of None \<Rightarrow> map_of side p
           | Some (p', r) \<Rightarrow> if p = p' then r else map_of side p)"
  using assms
  by (auto simp: merge_level_def level_change_def bindr_def Let_def update_conv' delete_conv'
      split: json.splits if_splits sum.splits)

lemma positive_qty: "float_of v = Inr q \<Longrightarrow> is_number v \<Longrightarrow> \<not> nonpositive v \<Longrightarrow> 0 < q"
  by (auto simp: float_of_def is_number_def nonpositive_def finite_float_def int_to_float_def
      split: json.splits pyfloat.splits if_splits)

definition side_ok :: "book_side \<Rightarrow> bool" where
  "side_ok side \<longleftrightarrow> distinct (map fst side) \<and> (\<forall>(p, q) \<in> set side. 0 < q)"

lemma side_ok_Nil [simp]: "side_ok []"
  by (simp add: side_ok_def)

lemma update_set_subset: "set (AList.update k v xs) \<subseteq> insert (k, v) (set xs)"
  by (induction xs) auto

lemma merge_level_ok:
  assumes "merge_level side level = Inr s" "side_ok side"
  shows "side_ok s"
proof (cases level)
  case (JObj row)
  show ?thesis
    using assms positive_qty [of "json_get row ''qty''"] update_set_subset AList.distinct_update AList.distinct_delete
    by (fastforce simp: merge_level_def JObj bindr_def Let_def side_ok_def AList.delete_eq split: if_splits sum.splits)
qed (use assms in \<open>simp_all add: merge_level_def\<close>)

lemma merge_levels_say:
  assumes "merge_levels side levels = (s, None)" "\<And>p. map_of side p = levels_say said p"
  shows "map_of s p = levels_say (said @ levels) p"
  using assms
proof (induction levels arbitrary: side said)
  case Nil
  then show ?case by simp
next
  case (Cons l ls)
  obtain s1 where s1: "merge_level side l = Inr s1" "merge_levels s1 ls = (s, None)"
    using Cons.prems(1) by (auto split: sum.splits)
  have "map_of s1 q = levels_say (said @ [l]) q" for q
    using merge_level_change [OF s1(1)] Cons.prems(2) by (simp add: levels_say_snoc split: option.splits)
  then show ?case
    using Cons.IH [of s1 "said @ [l]"] s1(2) by simp
qed

lemma merge_levels_ok: "merge_levels side levels = (s, r) \<Longrightarrow> side_ok side \<Longrightarrow> side_ok s"
  by (induction levels arbitrary: side) (auto dest: merge_level_ok split: sum.splits)

text \<open>A message of the book channel: its symbol, whether it is a snapshot, its bid and ask levels.\<close>

definition book_message :: "json dict \<Rightarrow> (string \<times> bool \<times> json list \<times> json list) option" where
  "book_message m =
     (if json_get m ''channel'' = JStr ''book'' \<and> (json_get m ''type'' = JStr ''snapshot'' \<or> json_get m ''type'' = JStr ''update'')
      then (case json_get m ''data'' of
          JList (JObj row # _) \<Rightarrow>
            (case (json_get row ''symbol'', json_get row ''bids'', json_get row ''asks'') of
               (JStr symbol, JList bids, JList asks) \<Rightarrow> Some (symbol, json_get m ''type'' = JStr ''snapshot'', bids, asks)
             | _ \<Rightarrow> None)
        | _ \<Rightarrow> None)
      else None)"

text \<open>The bid and the ask levels a symbol was sent since its last snapshot.\<close>

definition told :: "string \<Rightarrow> json list \<times> json list \<Rightarrow> json dict \<Rightarrow> json list \<times> json list" where
  "told symbol said m =
     (case book_message m of
        Some (s, fresh, bids, asks) \<Rightarrow>
          (if s \<noteq> symbol then said else if fresh then (bids, asks) else (fst said @ bids, snd said @ asks))
      | None \<Rightarrow> said)"

definition told_since :: "string \<Rightarrow> json dict list \<Rightarrow> json list \<times> json list" where
  "told_since symbol ms = foldl (told symbol) ([], []) ms"

definition book_says :: "local_book \<Rightarrow> json list \<times> json list \<Rightarrow> bool" where
  "book_says b said \<longleftrightarrow> side_ok (lb_bids b) \<and> side_ok (lb_asks b)
     \<and> (\<forall>p. map_of (lb_bids b) p = levels_say (fst said) p) \<and> (\<forall>p. map_of (lb_asks b) p = levels_say (snd said) p)"

abbreviation no_book :: local_book where
  "no_book \<equiv> \<lparr>lb_bids = [], lb_asks = []\<rparr>"

lemma book_says_empty [simp]: "book_says no_book ([], [])"
  by (simp add: book_says_def)

lemma apply_book_says:
  assumes "apply_book b fresh bids asks = (b', None)" "book_says b said"
  shows "book_says b' (if fresh then (bids, asks) else (fst said @ bids, snd said @ asks))"
proof -
  define b0 where "b0 = (if fresh then no_book else b)"
  define s0 where "s0 = (if fresh then ([], []) else said)"
  have says: "book_says b0 s0"
    using assms(2) by (simp add: b0_def s0_def)
  obtain bs as where m: "merge_levels (lb_bids b0) bids = (bs, None)" "merge_levels (lb_asks b0) asks = (as, None)"
      "b' = \<lparr>lb_bids = bs, lb_asks = as\<rparr>"
    using assms(1) by (auto simp: apply_book_def b0_def Let_def split: prod.splits option.splits)
  have "book_says b' (fst s0 @ bids, snd s0 @ asks)"
    using says merge_levels_say [OF m(1), of "fst s0"] merge_levels_say [OF m(2), of "snd s0"]
      merge_levels_ok [OF m(1)] merge_levels_ok [OF m(2)]
    by (simp add: book_says_def m(3))
  then show ?thesis by (cases fresh) (simp_all add: s0_def)
qed

lemma parse_book_none:
  "book_message m = None \<Longrightarrow> parse_kraken_book_message depth ts m books = (books, Inr None)"
  by (auto simp: book_message_def parse_kraken_book_message_def split: json.splits list.splits if_splits)

lemma parse_book_some:
  assumes "book_message m = Some (symbol, fresh, bids, asks)"
    and "parse_kraken_book_message depth ts m books = (books', Inr r)"
  shows "\<exists>b bs as. apply_book (dict_get_or books symbol no_book) fresh bids asks = (b, None)
     \<and> books' = AList.update symbol b books \<and> book_top depth b = Inr (bs, as)
     \<and> (\<exists>at_time. r = Some \<lparr>bk_source = KRAKEN, bk_symbol = symbol, bk_observed_at = at_time, bk_bids = bs, bk_asks = as\<rparr>)"
  using assms
  by (auto simp: book_message_def parse_kraken_book_message_def bindr_def Let_def
      split: json.splits list.splits if_splits prod.splits option.splits sum.splits)

definition books_say :: "local_book dict \<Rightarrow> json dict list \<Rightarrow> bool" where
  "books_say books ms \<longleftrightarrow> (\<forall>symbol. book_says (dict_get_or books symbol no_book) (told_since symbol ms))"

lemma books_say_step:
  assumes "books_say books ms" "parse_kraken_book_message depth ts m books = (books', Inr r)"
  shows "books_say books' (ms @ [m])"
proof (cases "book_message m")
  case None
  then show ?thesis
    using assms parse_book_none [OF None] by (simp add: books_say_def told_since_def told_def)
next
  case (Some t)
  obtain symbol fresh bids asks where t: "t = (symbol, fresh, bids, asks)"
    by (metis prod.exhaust)
  obtain b where b: "apply_book (dict_get_or books symbol no_book) fresh bids asks = (b, None)"
      "books' = AList.update symbol b books"
    using parse_book_some [OF Some [unfolded t] assms(2)] by blast
  have says: "book_says (dict_get_or books s no_book) (told_since s ms)" for s
    using assms(1) by (simp add: books_say_def)
  show ?thesis
    using says apply_book_says [OF b(1) says]
    by (auto simp: books_say_def told_since_def told_def Some t b(2) dict_get_or_def update_conv')
qed

lemma stream_books_say:
  assumes "stream_books depth ts symbols ms books = (final, snaps, None)" "books_say books said"
  shows "books_say final (said @ ms)"
  using assms
proof (induction ms arbitrary: books said snaps)
  case Nil
  then show ?case by simp
next
  case (Cons m ms)
  obtain books' r where p: "parse_kraken_book_message depth ts m books = (books', Inr r)"
    using Cons.prems(1) by (auto split: prod.splits sum.splits)
  moreover obtain snaps' where "stream_books depth ts symbols ms books' = (final, snaps', None)"
    using Cons.prems(1) p by (auto split: prod.splits)
  ultimately show ?case
    using Cons.IH books_say_step [OF Cons.prems(2)] by fastforce
qed

text \<open>
  What a published side promises: at most \<open>depth\<close> levels from the best on, each with the positive
  quantity last said for its price; and a level that is said but not shown is worse than all shown.
\<close>

definition best_levels :: "(real \<Rightarrow> real \<Rightarrow> bool) \<Rightarrow> nat \<Rightarrow> json list \<Rightarrow> book_level list \<Rightarrow> bool" where
  "best_levels better depth said shown \<longleftrightarrow>
     sorted_wrt better (map lv_price shown) \<and> length shown \<le> depth
   \<and> (\<forall>l \<in> set shown. 0 < lv_qty l \<and> levels_say said (lv_price l) = Some (lv_qty l))
   \<and> (\<forall>p q. levels_say said p = Some q \<longrightarrow>
        (\<exists>l \<in> set shown. lv_price l = p \<and> lv_qty l = q)
      \<or> length shown = depth \<and> (\<forall>l \<in> set shown. better (lv_price l) p))"

lemma sorted_best:
  fixes f :: "real \<Rightarrow> real"
  assumes "inj f" "distinct (map fst side)"
  shows "sorted_wrt (\<lambda>x y. f (fst x) < f (fst y)) (sort_key (\<lambda>x. f (fst x)) side)"
proof -
  define xs where "xs = sort_key (\<lambda>x. f (fst x)) side"
  have "distinct (map fst xs)"
    using assms(2) by (simp add: xs_def distinct_map)
  then have "distinct (map f (map fst xs))"
    using inj_on_subset [OF assms(1), of "set (map fst xs)"] by (subst distinct_map) simp
  moreover have "sorted (map (\<lambda>x. f (fst x)) xs)"
    by (simp add: xs_def)
  ultimately have "sorted_wrt (<) (map (\<lambda>x. f (fst x)) xs)"
    by (simp add: strict_sorted_iff comp_def)
  then show ?thesis
    by (simp add: xs_def sorted_wrt_map)
qed

lemma best_levels_top:
  fixes f :: "real \<Rightarrow> real"
  assumes "inj f" "side_ok side" "\<And>p. map_of side p = levels_say said p"
    and "book_levels (take depth (sort_key (\<lambda>x. f (fst x)) side)) = Inr shown"
  shows "best_levels (\<lambda>x y. f x < f y) depth said shown"
proof -
  define xs where "xs = sort_key (\<lambda>x. f (fst x)) side"
  have shown: "shown = map (\<lambda>(price, qty). \<lparr>lv_price = price, lv_qty = qty\<rparr>) (take depth xs)"
    using assms(4) by (simp add: book_levels_def xs_def split: if_splits)
  have keys: "distinct (map fst side)" and pos: "\<And>p q. (p, q) \<in> set side \<Longrightarrow> 0 < q"
    using assms(2) by (auto simp: side_ok_def)
  have order: "sorted_wrt (\<lambda>x y. f (fst x) < f (fst y)) (take depth xs @ drop depth xs)"
    using sorted_best [OF assms(1) keys] by (simp add: xs_def)
  have prices: "map lv_price shown = map fst (take depth xs)"
    by (simp add: shown split_beta comp_def)
  have "sorted_wrt (\<lambda>x y. f x < f y) (map fst (take depth xs))"
    using order by (simp only: sorted_wrt_append sorted_wrt_map)
  then have sorted: "sorted_wrt (\<lambda>x y. f x < f y) (map lv_price shown)"
    by (simp only: prices)
  have member: "(p, q) \<in> set side \<longleftrightarrow> levels_say said p = Some q" for p q
    using keys assms(3) by (metis map_of_eq_Some_iff)
  have inside: "\<forall>l \<in> set shown. 0 < lv_qty l \<and> levels_say said (lv_price l) = Some (lv_qty l)"
    using member pos by (auto simp: shown xs_def dest!: in_set_takeD)
  have rest: "(\<exists>l \<in> set shown. lv_price l = p \<and> lv_qty l = q) \<or> length shown = depth \<and> (\<forall>l \<in> set shown. f (lv_price l) < f p)"
    if "levels_say said p = Some q" for p q
  proof -
    have "(p, q) \<in> set (take depth xs) \<union> set (drop depth xs)"
      using that member by (simp flip: set_append add: xs_def)
    then consider "(p, q) \<in> set (take depth xs)" | "(p, q) \<in> set (drop depth xs)"
      by blast
    then show ?thesis
    proof cases
      case 1
      then show ?thesis by (intro disjI1 bexI [of _ "\<lparr>lv_price = p, lv_qty = q\<rparr>"]) (auto simp: shown)
    next
      case 2
      then have "length shown = depth"
        by (cases "depth < length xs") (simp_all add: shown)
      moreover have "\<forall>y \<in> set (take depth xs). f (fst y) < f p"
        using order 2 unfolding sorted_wrt_append by fastforce
      ultimately show ?thesis by (auto simp: shown)
    qed
  qed
  show ?thesis
    unfolding best_levels_def using sorted inside rest by (simp add: shown)
qed

text \<open>
  The order book a venue feed publishes is what the venue said. After any messages of a
  connection, a snapshot of a symbol shows on each side the best levels in order, best first and at
  most \<open>depth\<close>, each at the positive quantity the messages since the symbol's last full snapshot said
  last for its price; a level that was said and not removed is shown or is worse than all shown.
\<close>

theorem book_snapshot_is_top_of_messages:
  assumes "stream_books depth ts symbols ms [] = (books, snaps, None)"
    and "parse_kraken_book_message depth ts m books = (books', Inr (Some snap))"
  shows "best_levels (>) depth (fst (told_since (bk_symbol snap) (ms @ [m]))) (bk_bids snap)
    \<and> best_levels (<) depth (snd (told_since (bk_symbol snap) (ms @ [m]))) (bk_asks snap)"
proof -
  have "books_say [] []"
    by (simp add: books_say_def told_since_def dict_get_or_def)
  then have "books_say books ms"
    using stream_books_say [OF assms(1)] by fastforce
  then have after: "books_say books' (ms @ [m])"
    using books_say_step assms(2) by blast
  obtain t where "book_message m = Some t"
    using assms(2) parse_book_none [of m depth ts books] by (cases "book_message m") auto
  then obtain symbol fresh bids asks where "book_message m = Some (symbol, fresh, bids, asks)"
    by (metis prod.exhaust)
  from parse_book_some [OF this assms(2)] obtain b bs as where b: "books' = AList.update symbol b books"
      "book_top depth b = Inr (bs, as)" "bk_symbol snap = symbol" "bk_bids snap = bs" "bk_asks snap = as"
    by auto
  have says: "book_says b (told_since symbol (ms @ [m]))"
    using after by (auto simp: books_say_def b(1) dict_get_or_def update_conv' dest!: spec [of _ symbol])
  have levels: "book_levels (take depth (sort_key (\<lambda>x. - fst x) (lb_bids b))) = Inr bs"
      "book_levels (take depth (sort_key (\<lambda>x. id (fst x)) (lb_asks b))) = Inr as"
    using b(2) by (auto simp: book_top_def bindr_def split_beta split: sum.splits)
  have "best_levels (\<lambda>x y. - x < - y) depth (fst (told_since symbol (ms @ [m]))) bs"
    using says levels(1) by (intro best_levels_top [where f = uminus]) (auto simp: book_says_def)
  moreover have "best_levels (\<lambda>x y. id x < id y) depth (snd (told_since symbol (ms @ [m]))) as"
    using says levels(2) by (intro best_levels_top [where f = id]) (auto simp: book_says_def)
  ultimately show ?thesis
    by (simp add: b(3-5))
qed

definition ex_level :: "int \<Rightarrow> int \<Rightarrow> json" where
  "ex_level price qty = JObj [(''price'', JInt price), (''qty'', JInt qty)]"

definition ex_book_message :: "string \<Rightarrow> json list \<Rightarrow> json list \<Rightarrow> json dict" where
  "ex_book_message kind bids asks =
     [(''channel'', JStr ''book''), (''type'', JStr kind),
      (''data'', JList [JObj [(''symbol'', JStr ''B''), (''bids'', JList bids), (''asks'', JList asks)]])]"

definition ex_book_messages :: "json dict list" where
  "ex_book_messages =
     [ex_book_message ''snapshot'' [ex_level 10 1, ex_level 9 2] [ex_level 11 1],
      ex_book_message ''update'' [ex_level 10 0, ex_level 8 3] []]"

definition ex_last_message :: "json dict" where
  "ex_last_message = ex_book_message ''update'' [ex_level 9 5] [ex_level 12 4]"

lemma small_int_float [simp]: "\<bar>n\<bar> \<le> 100000 \<Longrightarrow> int_to_float n = Some (of_int n)"
proof -
  assume "\<bar>n\<bar> \<le> 100000"
  then have "\<bar>of_int n\<bar> \<le> (100000 :: real)"
    by linarith
  moreover have "(100000 :: real) < float_limit"
    by (simp add: float_limit_def)
  ultimately show ?thesis
    by (simp add: int_to_float_def)
qed

lemmas book_eval = ex_level_def ex_book_message_def ex_book_messages_def ex_last_message_def
  parse_kraken_book_message_def json_get_def dict_get_or_def apply_book_def merge_level_def is_number_def
  nonpositive_def float_of_def bindr_def book_top_def book_levels_def Let_def

definition ex_books :: "local_book dict" where
  "ex_books = [(''B'', \<lparr>lb_bids = [(9, 2), (8, 3)], lb_asks = [(11, 1)]\<rparr>)]"

definition ex_book_snapshot :: book_snapshot where
  "ex_book_snapshot = \<lparr>bk_source = KRAKEN, bk_symbol = ''B'', bk_observed_at = 0,
     bk_bids = [\<lparr>lv_price = 9, lv_qty = 5\<rparr>, \<lparr>lv_price = 8, lv_qty = 3\<rparr>],
     bk_asks = [\<lparr>lv_price = 11, lv_qty = 1\<rparr>, \<lparr>lv_price = 12, lv_qty = 4\<rparr>]\<rparr>"

lemma ex_books_run: "fst (stream_books 2 (\<lambda>_. 0) [] ex_book_messages []) = ex_books
    \<and> snd (snd (stream_books 2 (\<lambda>_. 0) [] ex_book_messages [])) = None"
  by (simp add: book_eval ex_books_def)

lemma ex_book_snapshot_run: "parse_kraken_book_message 2 (\<lambda>_. 0) ex_last_message ex_books
    = ([(''B'', \<lparr>lb_bids = [(9, 5), (8, 3)], lb_asks = [(11, 1), (12, 4)]\<rparr>)], Inr (Some ex_book_snapshot))"
  by (simp add: book_eval ex_books_def ex_book_snapshot_def)

theorem book_snapshot_is_top_of_messages_witness:
  "best_levels (>) 2 (fst (told_since ''B'' (ex_book_messages @ [ex_last_message]))) (bk_bids ex_book_snapshot)
    \<and> best_levels (<) 2 (snd (told_since ''B'' (ex_book_messages @ [ex_last_message]))) (bk_asks ex_book_snapshot)"
proof -
  obtain snaps where run: "stream_books 2 (\<lambda>_. 0) [] ex_book_messages [] = (ex_books, snaps, None)"
    using ex_books_run by (metis prod.collapse)
  show ?thesis
    using book_snapshot_is_top_of_messages [OF run ex_book_snapshot_run] by (simp add: ex_book_snapshot_def)
qed

section \<open>The polled ticker quotes the symbols that were asked for\<close>

lemma make_tick_valid:
  "make_tick symbol now bid ask traded = Inr t \<Longrightarrow>
     tick_valid t \<and> tk_symbol t = symbol \<and> tk_source t = KRAKEN \<and> tk_observed_at t = now"
  by (auto simp: make_tick_def Let_def split: if_splits)

lemma row_tick_valid:
  "row_tick now symbol row = Inr t \<Longrightarrow>
     tick_valid t \<and> tk_symbol t = upper symbol \<and> tk_source t = KRAKEN \<and> tk_observed_at t = now"
  by (auto simp: row_tick_def bindr_def dest: make_tick_valid split: sum.splits option.splits)

lemma rest_ticks_quote:
  assumes "rest_ticks now unused symbols = Inr ts"
  shows "subseq (map tk_symbol ts) (map upper symbols)
    \<and> (\<forall>t \<in> set ts. tick_valid t \<and> tk_source t = KRAKEN \<and> tk_observed_at t = now)"
  using assms
proof (induction symbols arbitrary: unused ts)
  case Nil
  then show ?case by simp
next
  case (Cons symbol symbols)
  obtain row left where pop: "pop_ticker_row unused symbol = Inr (row, left)"
    using Cons.prems by (auto simp: bindr_def split: sum.splits)
  show ?case
  proof (cases row)
    case None
    then have "rest_ticks now left symbols = Inr ts"
      using Cons.prems pop by (simp add: bindr_def)
    from Cons.IH [OF this] show ?thesis by auto
  next
    case (Some r)
    obtain t rest where t: "row_tick now symbol r = Inr t" "rest_ticks now left symbols = Inr rest" "ts = t # rest"
      using Cons.prems pop Some by (auto simp: bindr_def split: sum.splits)
    show ?thesis
      using Cons.IH [OF t(2)] row_tick_valid [OF t(1)] by (simp add: t(3))
  qed
qed

text \<open>
  A poll of the REST ticker that returns at all returns at least one tick; its ticks carry
  requested symbols only, each at most as often as requested and in the order of the request, and
  every price is positive.
\<close>

theorem rest_ticker_quotes_requested_symbols:
  assumes "fetch_ticks get now symbols = Inr ts"
  shows "ts \<noteq> [] \<and> subseq (map tk_symbol ts) (map upper symbols)
    \<and> (\<forall>t \<in> set ts. tick_valid t \<and> tk_source t = KRAKEN \<and> tk_observed_at t = now)"
proof -
  obtain payload where payload: "parse_kraken_rest_ticker now payload symbols = Inr ts"
    using assms by (auto simp: fetch_ticks_def bindr_def split: sum.splits)
  obtain result where result: "rest_ticks now result symbols = Inr ts" "ts \<noteq> []"
    using payload by (auto simp: parse_kraken_rest_ticker_def bindr_def split: json.splits if_splits sum.splits)
  show ?thesis
    using rest_ticks_quote [OF result(1)] result(2) by simp
qed

definition ex_rest_row :: "int \<Rightarrow> json" where
  "ex_rest_row price =
     JObj [(''a'', JList [JInt (price + 1)]), (''b'', JList [JInt (price - 1)]), (''c'', JList [JInt price])]"

definition ex_rest_server :: "json \<Rightarrow> string \<Rightarrow> feed_failure + json" where
  "ex_rest_server result _ = Inr (JObj [(''error'', JList []), (''result'', result)])"

lemmas rest_eval = ex_rest_row_def ex_rest_server_def fetch_ticks_def kraken_pair_def after_first_def
  parse_kraken_rest_ticker_def pop_ticker_row_def pair_candidates_def base_spellings_def row_tick_def
  first_price_def make_tick_def tick_valid_def is_object_def is_strict_number_def json_get_def dict_get_or_def
  float_of_def bindr_def Let_def

definition ex_rest_tick :: "string \<Rightarrow> int \<Rightarrow> market_tick" where
  "ex_rest_tick symbol price =
     \<lparr>tk_source = KRAKEN, tk_symbol = symbol, tk_observed_at = 0, tk_bid = of_int (price - 1),
      tk_ask = of_int (price + 1), tk_last = of_int price\<rparr>"

lemma ex_rest_run:
  "fetch_ticks (ex_rest_server (JObj [(''XXBTZUSD'', ex_rest_row 100), (''ETHUSD'', ex_rest_row 10)])) 0
     [''BTC/USD'', ''ETH/USD''] = Inr [ex_rest_tick ''BTC/USD'' 100, ex_rest_tick ''ETH/USD'' 10]"
  by (simp add: rest_eval ex_rest_tick_def str_eval)

theorem rest_ticker_quotes_requested_symbols_witness:
  "subseq (map tk_symbol [ex_rest_tick ''BTC/USD'' 100, ex_rest_tick ''ETH/USD'' 10])
     (map upper [''BTC/USD'', ''ETH/USD''])"
  using rest_ticker_quotes_requested_symbols [OF ex_rest_run] by blast

text \<open>
  The last row of an answer is taken for whatever symbol comes next: asked for bitcoin and ether, and
  answered for ether only, the poll quotes bitcoin at the price of ether.
\<close>

lemma leftover_row_is_mislabelled:
  "fetch_ticks (ex_rest_server (JObj [(''ETHUSD'', ex_rest_row 10)])) 0 [''BTC/USD'', ''ETH/USD'']
     = Inr [ex_rest_tick ''BTC/USD'' 10]"
  by (simp add: rest_eval ex_rest_tick_def str_eval)

section \<open>Fetched candles are committed history\<close>

lemma traverse_all:
  "traverse f xs = Inr ys \<Longrightarrow> length ys = length xs \<and> (\<forall>y \<in> set ys. \<exists>x \<in> set xs. f x = Inr y)"
  by (induction xs arbitrary: ys) (auto simp: bindr_def split: sum.splits)

lemma parse_ohlc_row_valid:
  "parse_ohlc_row symbol resolution row = Inr c \<Longrightarrow>
     candle_valid c \<and> c_symbol c = upper symbol \<and> c_interval c = resolution"
  by (auto simp: parse_ohlc_row_def bindr_def Let_def split: json.splits if_splits sum.splits)

text \<open>The rows of an answer, read.\<close>

definition answer_candles :: "(string \<Rightarrow> nat \<Rightarrow> feed_failure + json) \<Rightarrow> string \<Rightarrow> string \<Rightarrow> feed_failure + candle list" where
  "answer_candles get symbol resolution =
     (case map_of interval_minutes resolution of
        None \<Rightarrow> Inl FeedValueError
      | Some minutes \<Rightarrow>
          bindr (kraken_pair symbol) (\<lambda>pair.
          bindr (get pair minutes) (\<lambda>payload.
          bindr (parse_ohlc_payload payload) (\<lambda>(rows, _).
            traverse (parse_ohlc_row symbol resolution) rows))))"

lemma fetch_candles_answer:
  assumes "fetch_candles get symbol resolution limit = Inr cs"
  shows "\<exists>parsed. answer_candles get symbol resolution = Inr parsed \<and> 0 < limit
    \<and> cs = tail_slice (nat limit) (if parsed = [] then [] else butlast (sort_key c_opened_at parsed))"
proof -
  have limit: "0 < limit"
    using assms by (simp add: fetch_candles_def split: if_splits)
  obtain minutes where minutes: "map_of interval_minutes resolution = Some minutes"
    using assms limit by (auto simp: fetch_candles_def split: option.splits)
  obtain pair payload rows l where reads: "kraken_pair symbol = Inr pair" "get pair minutes = Inr payload"
      "parse_ohlc_payload payload = Inr (rows, l)"
    using assms limit by (auto simp: fetch_candles_def minutes bindr_def split: sum.splits)
  obtain parsed where parsed: "traverse (parse_ohlc_row symbol resolution) rows = Inr parsed"
      "cs = tail_slice (nat limit) (if sort_key c_opened_at parsed \<noteq> [] then butlast (sort_key c_opened_at parsed)
         else sort_key c_opened_at parsed)"
    using assms limit
    by (auto simp: fetch_candles_def minutes reads bindr_def candles_from_ohlc_rows_def Let_def split: sum.splits)
  have "sort_key c_opened_at parsed = [] \<longleftrightarrow> parsed = []"
    by (metis length_0_conv length_sort)
  then have "cs = tail_slice (nat limit) (if parsed = [] then [] else butlast (sort_key c_opened_at parsed))"
    using parsed(2) by auto
  then show ?thesis
    using limit parsed(1) by (intro exI [of _ parsed]) (simp add: answer_candles_def minutes reads bindr_def)
qed

text \<open>
  The candle history a cycle sees is the venue's answer without its newest bar, which is not yet
  committed: the most recent \<open>limit\<close> of the other bars, in time order, each of the asked symbol and
  resolution and each a valid candle; no other bar is left out unless it is older.
\<close>

theorem fetched_candles_are_committed_history:
  assumes "fetch_candles get symbol resolution limit = Inr cs"
  shows "\<exists>parsed. answer_candles get symbol resolution = Inr parsed
    \<and> (\<forall>c \<in> set cs. candle_valid c \<and> c_symbol c = upper symbol \<and> c_interval c = resolution)
    \<and> (if parsed = [] then cs = []
       else \<exists>older newest. mset parsed = mset (older @ cs @ [newest])
              \<and> sorted (map c_opened_at (older @ cs @ [newest]))
              \<and> length cs = min (nat limit) (length parsed - 1))"
proof -
  obtain parsed where p: "answer_candles get symbol resolution = Inr parsed" "0 < limit"
      "cs = tail_slice (nat limit) (if parsed = [] then [] else butlast (sort_key c_opened_at parsed))"
    using fetch_candles_answer [OF assms] by blast
  have valid: "\<forall>c \<in> set parsed. candle_valid c \<and> c_symbol c = upper symbol \<and> c_interval c = resolution"
    using p(1) by (auto simp: answer_candles_def bindr_def split: option.splits sum.splits prod.splits
        dest!: traverse_all parse_ohlc_row_valid)
  show ?thesis
  proof (cases "parsed = []")
    case True
    then show ?thesis using p by (simp add: tail_slice_def)
  next
    case False
    define xs where "xs = sort_key c_opened_at parsed"
    define k where "k = length (butlast xs) - nat limit"
    have ne: "xs \<noteq> []"
      using False by (metis xs_def length_0_conv length_sort)
    have cs: "cs = drop k (butlast xs)"
      using p(2,3) False by (simp add: tail_slice_def xs_def k_def)
    have split: "take k (butlast xs) @ cs @ [last xs] = xs"
      using ne by (simp add: cs flip: append_assoc)
    have "set cs \<subseteq> set parsed"
      using split by (metis xs_def set_sort set_append Un_upper1 Un_upper2 subset_trans)
    moreover have "mset parsed = mset (take k (butlast xs) @ cs @ [last xs])"
      unfolding split by (simp add: xs_def)
    moreover have "sorted (map c_opened_at (take k (butlast xs) @ cs @ [last xs]))"
      unfolding split by (simp add: xs_def)
    moreover have "length cs = min (nat limit) (length parsed - 1)"
      by (simp add: cs k_def xs_def)
    ultimately show ?thesis
      using p(1) valid False by auto
  qed
qed

definition ex_ohlc_row :: "int \<Rightarrow> int \<Rightarrow> json" where
  "ex_ohlc_row time price =
     JList [JInt time, JInt price, JInt (price + 1), JInt (price - 1), JInt price, JInt price, JInt 5, JInt 1]"

definition ex_ohlc_server :: "string \<Rightarrow> nat \<Rightarrow> feed_failure + json" where
  "ex_ohlc_server _ _ = Inr (JObj [(''error'', JList []),
     (''result'', JObj [(''XBTUSD'', JList [ex_ohlc_row 7200 12, ex_ohlc_row 3600 11, ex_ohlc_row 0 10, ex_ohlc_row 10800 13]),
                        (''last'', JInt 7200)])])"

definition ex_ohlc_candle :: "int \<Rightarrow> int \<Rightarrow> candle" where
  "ex_ohlc_candle time price =
     \<lparr>c_symbol = ''BTC/USD'', c_interval = ''1h'', c_opened_at = seconds time, c_open = of_int price,
      c_high = of_int (price + 1), c_low = of_int (price - 1), c_close = of_int price, c_volume = 5\<rparr>"

lemma ex_ohlc_candle_row:
  "1 < price \<Longrightarrow> price < 1000 \<Longrightarrow> 0 \<le> time \<Longrightarrow> time \<le> 100000 \<Longrightarrow>
     parse_ohlc_row ''BTC/USD'' ''1h'' (ex_ohlc_row time price) = Inr (ex_ohlc_candle time price)"
  by (simp add: parse_ohlc_row_def ex_ohlc_row_def ex_ohlc_candle_def int_of_def from_timestamp_def float_of_def
      bindr_def candle_valid_def str_eval)

lemma ex_fetch_run:
  "fetch_candles ex_ohlc_server ''BTC/USD'' ''1h'' 2 = Inr [ex_ohlc_candle 3600 11, ex_ohlc_candle 7200 12]"
  by (simp add: fetch_candles_def interval_minutes_def kraken_pair_def after_first_def ex_ohlc_server_def
      parse_ohlc_payload_def json_get_def dict_get_or_def int_of_def candles_from_ohlc_rows_def ex_ohlc_candle_row
      bindr_def tail_slice_def str_eval)
    (simp add: ex_ohlc_candle_def seconds_def)

theorem fetched_candles_are_committed_history_witness:
  "\<exists>parsed. answer_candles ex_ohlc_server ''BTC/USD'' ''1h'' = Inr parsed
    \<and> (if parsed = [] then False
       else \<exists>older newest. mset parsed = mset (older @ [ex_ohlc_candle 3600 11, ex_ohlc_candle 7200 12] @ [newest])
              \<and> sorted (map c_opened_at (older @ [ex_ohlc_candle 3600 11, ex_ohlc_candle 7200 12] @ [newest])))"
proof -
  obtain parsed where p: "answer_candles ex_ohlc_server ''BTC/USD'' ''1h'' = Inr parsed"
      "if parsed = [] then [ex_ohlc_candle 3600 11, ex_ohlc_candle 7200 12] = []
       else \<exists>older newest. mset parsed = mset (older @ [ex_ohlc_candle 3600 11, ex_ohlc_candle 7200 12] @ [newest])
              \<and> sorted (map c_opened_at (older @ [ex_ohlc_candle 3600 11, ex_ohlc_candle 7200 12] @ [newest]))
              \<and> length [ex_ohlc_candle 3600 11, ex_ohlc_candle 7200 12] = min (nat 2) (length parsed - 1)"
    using fetched_candles_are_committed_history [OF ex_fetch_run] by blast
  show ?thesis
    using p(2) by (intro exI [of _ parsed] conjI p(1)) (cases "parsed = []"; fastforce)
qed

section \<open>Reference prices\<close>

lemma retry_after_bounds: "0 \<le> retry_after_seconds header cap \<and> retry_after_seconds header cap \<le> max 0 cap"
  by (auto simp: retry_after_seconds_def Let_def split: option.splits pyfloat.splits prod.splits)

text \<open>
  The CoinGecko client repeats a request only after a 429, at most as often as configured and after a
  wait within the cap, and its result is that of the first answer that is no 429, or of the last.
\<close>

lemma fetch_payload_bounded:
  assumes "fetch_payload cap n answers = (waits, result)" "n < length answers"
  shows "length waits \<le> n \<and> (\<forall>w \<in> set waits. 0 \<le> w \<and> w \<le> max 0 cap)
    \<and> (\<forall>i < length waits. hp_status (answers ! i) = 429)
    \<and> (length waits < n \<longrightarrow> hp_status (answers ! length waits) \<noteq> 429)
    \<and> result = answer_payload (answers ! length waits)"
  using assms
proof (induction cap n answers arbitrary: waits result rule: fetch_payload.induct)
  case (1 cap n)
  then show ?case by simp
next
  case (2 cap n r rs)
  show ?case
  proof (cases "hp_status r = 429 \<and> 0 < n")
    case True
    obtain ws res where rest: "fetch_payload cap (n - 1) rs = (ws, res)"
      by (metis prod.exhaust)
    have out: "waits = retry_after_seconds (hp_retry_after r) cap # ws" "result = res"
      using "2.prems"(1) True rest by simp_all
    have "n - 1 < length rs"
      using "2.prems"(2) True by auto
    note IH = "2.IH" [OF True rest this]
    show ?thesis
      using IH True retry_after_bounds by (auto simp: out nth_Cons split: nat.splits)
  next
    case False
    then show ?thesis using "2.prems" by auto
  qed
qed

lemma make_price_valid:
  "make_price source asset now price = Inr p \<Longrightarrow>
     rp_asset p = asset \<and> rp_price p = price \<and> 0 < price \<and> rp_source p = source \<and> rp_currency p = ''USD''"
  by (auto simp: make_price_def reference_valid_def Let_def split: if_splits)

text \<open>The dollar price a listing is quoted at, when it is usable.\<close>

definition listing_price :: "json dict \<Rightarrow> real option" where
  "listing_price row =
     (case cmc_usd_price (row_quote row) of
        Inr (Some price) \<Rightarrow> if 0 < price then Some price else None
      | _ \<Rightarrow> None)"

text \<open>The first usable listing of an asset.\<close>

fun first_listing :: "string \<Rightarrow> (string \<times> json dict) list \<Rightarrow> real option" where
  "first_listing asset [] = None"
| "first_listing asset ((a, row) # rows) =
     (if a = asset \<and> listing_price row \<noteq> None then listing_price row else first_listing asset rows)"

definition priced :: "string \<Rightarrow> reference_price list \<Rightarrow> real option" where
  "priced asset ps = map_of (map (\<lambda>p. (rp_asset p, rp_price p)) ps) asset"

lemma cmc_prices_spec:
  assumes "cmc_prices now seen rows = Inr ps"
  shows "distinct (map rp_asset ps) \<and> (\<forall>p \<in> set ps. rp_source p = COINMARKETCAP \<and> 0 < rp_price p)
    \<and> (\<forall>asset. priced asset ps = (if asset \<in> set seen then None else first_listing asset rows))"
  using assms
proof (induction rows arbitrary: seen ps)
  case Nil
  then show ?case by (simp add: priced_def)
next
  case (Cons x rows)
  obtain asset row where x: "x = (asset, row)" by (cases x)
  show ?case
  proof (cases "asset \<in> set seen \<or> listing_price row = None")
    case True
    then have "cmc_prices now seen rows = Inr ps"
      using Cons.prems by (auto simp: x bindr_def listing_price_def split: sum.splits option.splits if_splits)
    from Cons.IH [OF this] True show ?thesis by (auto simp: x)
  next
    case False
    obtain price where price: "cmc_usd_price (row_quote row) = Inr (Some price)" "0 < price" "listing_price row = Some price"
      using False by (auto simp: listing_price_def split: sum.splits option.splits if_splits)
    obtain p rest where p: "make_price COINMARKETCAP asset now price = Inr p"
        "cmc_prices now (asset # seen) rows = Inr rest" "ps = p # rest"
      using Cons.prems False price by (auto simp: x bindr_def split: sum.splits)
    have "priced asset rest = None"
      using Cons.IH [OF p(2)] by simp
    then have "asset \<notin> set (map rp_asset rest)"
      by (auto simp: priced_def map_of_eq_None_iff image_image)
    then show ?thesis
      using Cons.IH [OF p(2)] False price(2,3) make_price_valid [OF p(1)] by (auto simp: p(3) x priced_def)
  qed
qed

lemma priced_filter:
  "priced asset (filter (\<lambda>p. rp_asset p \<in> A) ps) = (if asset \<in> A then priced asset ps else None)"
  by (induction ps) (auto simp: priced_def)

text \<open>
  The CoinMarketCap reference prices are one positive dollar price per requested asset and
  nothing else: an asset has a price exactly when one of its listings in the answer, whatever its
  shape, is quoted at a positive number of dollars, and the price is that of the first such listing.
\<close>

theorem coinmarketcap_prices_first_usable_listing:
  assumes "coinmarketcap_prices now answer assets = Inr ps"
    and "hp_failed answer = None" "hp_body answer = Inr (JObj body)"
  shows "distinct (map rp_asset ps) \<and> (\<forall>p \<in> set ps. rp_source p = COINMARKETCAP \<and> 0 < rp_price p)
    \<and> (\<forall>asset. priced asset ps =
         (if asset \<in> set (map upper assets) then first_listing asset (cmc_asset_rows (json_get body ''data'')) else None))"
proof -
  obtain prices where prices: "cmc_prices now [] (cmc_asset_rows (json_get body ''data'')) = Inr prices"
      "ps = filter (\<lambda>p. rp_asset p \<in> set (map upper assets)) prices"
    using assms by (auto simp: coinmarketcap_prices_def parse_coinmarketcap_quotes_def bindr_def split: sum.splits)
  note spec = cmc_prices_spec [OF prices(1)]
  have "distinct (map rp_asset ps)"
    using spec distinct_map_filter unfolding prices(2) by blast
  moreover have "\<forall>p \<in> set ps. rp_source p = COINMARKETCAP \<and> 0 < rp_price p"
    using spec by (simp add: prices(2))
  moreover have "\<forall>asset. priced asset ps =
         (if asset \<in> set (map upper assets) then first_listing asset (cmc_asset_rows (json_get body ''data'')) else None)"
    using spec unfolding prices(2) priced_filter by simp
  ultimately show ?thesis by blast
qed

definition ex_cmc_listing :: "string \<Rightarrow> int \<Rightarrow> json" where
  "ex_cmc_listing symbol price =
     JObj [(''symbol'', JStr symbol), (''quote'', JList [JObj [(''symbol'', JStr ''USD''), (''price'', JInt price)]])]"

definition ex_quotes :: "json dict" where
  "ex_quotes = [(''data'', JList [ex_cmc_listing ''btc'' 0, ex_cmc_listing ''BTC'' 100, ex_cmc_listing ''BTC'' 7, ex_cmc_listing ''ETH'' 10])]"

definition ex_quotes_answer :: http_answer where
  "ex_quotes_answer = \<lparr>hp_status = 200, hp_failed = None, hp_retry_after = None, hp_body = Inr (JObj ex_quotes)\<rparr>"

lemmas quotes_eval = ex_cmc_listing_def ex_quotes_def ex_quotes_answer_def json_get_def dict_get_or_def
  cmc_asset_rows_def named_row_def row_quote_def cmc_usd_price_def quoted_in_usd_def
  json_or_def is_usd_def is_strict_number_def float_of_def bindr_def Let_def

lemma ex_quotes_run:
  "coinmarketcap_prices 0 ex_quotes_answer [''btc''] =
     Inr [\<lparr>rp_source = COINMARKETCAP, rp_asset = ''BTC'', rp_currency = ''USD'', rp_observed_at = 0, rp_price = 100\<rparr>]"
  by (simp add: coinmarketcap_prices_def parse_coinmarketcap_quotes_def quotes_eval make_price_def
      reference_valid_def str_eval)

theorem coinmarketcap_prices_first_usable_listing_witness:
  "first_listing ''BTC'' (cmc_asset_rows (json_get ex_quotes ''data'')) = Some 100"
proof -
  have "priced ''BTC'' [\<lparr>rp_source = COINMARKETCAP, rp_asset = ''BTC'', rp_currency = ''USD'', rp_observed_at = 0, rp_price = 100\<rparr>]
     = (if ''BTC'' \<in> set (map upper [''btc'']) then first_listing ''BTC'' (cmc_asset_rows (json_get ex_quotes ''data'')) else None)"
    using coinmarketcap_prices_first_usable_listing [OF ex_quotes_run, of ex_quotes]
    by (simp add: ex_quotes_answer_def)
  then show ?thesis by (simp add: priced_def str_eval)
qed

lemma coingecko_asset_known: "coingecko_asset coin = Some asset \<Longrightarrow> map_of coingecko_ids asset = Some coin"
  by (auto simp: coingecko_asset_def coingecko_ids_def split: if_splits)

lemma coingecko_rows_known:
  assumes "coingecko_rows now rows = Inr ps"
  shows "\<forall>p \<in> set ps. map_of coingecko_ids (rp_asset p) \<noteq> None \<and> 0 < rp_price p \<and> rp_source p = COINGECKO"
  using assms
proof (induction rows arbitrary: ps)
  case Nil
  then show ?case by simp
next
  case (Cons x rows)
  obtain coin v where x: "x = (coin, v)" by (cases x)
  show ?case
  proof (cases "\<exists>asset row. coingecko_asset coin = Some asset \<and> v = JObj row \<and> is_number (json_get row ''usd'')")
    case True
    then obtain asset row usd p rest where p: "coingecko_asset coin = Some asset"
        "make_price COINGECKO asset now usd = Inr p" "coingecko_rows now rows = Inr rest" "ps = p # rest"
      using Cons.prems by (auto simp: x bindr_def split: sum.splits)
    show ?thesis
      using Cons.IH [OF p(3)] make_price_valid [OF p(2)] coingecko_asset_known [OF p(1)] by (simp add: p(4))
  next
    case False
    then have "coingecko_rows now rows = Inr ps"
      using Cons.prems by (auto simp: x split: option.splits json.splits if_splits)
    then show ?thesis by (rule Cons.IH)
  qed
qed

end
