(* ===== verification/Spec2Isabelle.thy ===== *)
theory Spec2Isabelle
  imports Service_Safety Funnel Registry Weather Xs_Prints Feeds
begin

text \<open>
  Verification of the TraderStack paper-trading agent (\<open>src/src/traderstack\<close>), the part that decides
  about, sizes, submits, books and audits orders.

  \<^bold>\<open>The program.\<close> A service (\<open>service.py\<close>) runs one cycle per symbol. The cycle (\<open>runtime.py\<close>) fetches
  a venue tick, reference prices, candles and external intelligence and hands them to the decision
  pipeline (\<open>pipeline.py\<close>): the data are validated across sources, a feature vector is built, a held
  position is checked for a protective exit, otherwise the pre-trade gate backtests the strategy
  consensus, and the risk engine (\<open>risk.py\<close>) approves, shrinks or rejects the proposal. A bounded
  model review (\<open>agents/review.py\<close>) may only withhold the order. An order that is left is recorded
  (shadow mode), submitted idempotently to a paper venue (\<open>execution/submitter.py\<close>) or booked by the
  paper fill simulator into the shared ledger and portfolio; a hedge book may follow it. Every
  ruling goes to a hash-chained audit trail, the book to a checkpoint, and the funnel counts where
  cycles stop. Reconciliation against the venue blocks new risk while the states differ; the kill
  switch halts everything; a torn state file or too many errors end the process.

  \<^bold>\<open>Theories and sources.\<close>
  \<^item> \<open>Prelude\<close>: Python values (floats, datetimes, strings, dicts, exceptions, JSON) and shared lemmas;
    \<open>Py_Number\<close>: \<open>float(text)\<close>. \<open>Contracts\<close>: the locales \<open>at_most_once\<close>, \<open>gated\<close>, \<open>budgeted\<close> and
    \<open>lifecycle\<close>, interpreted where a component provides the contract.
  \<^item> \<open>Domain\<close> (\<open>models.py\<close>), \<open>Config\<close> (\<open>config.py\<close>, \<open>policy_fields.py\<close>), \<open>Fee_Tiers\<close> (\<open>fee_tiers.py\<close>),
    \<open>Features\<close> (\<open>features.py\<close>), \<open>Market\<close> (\<open>market/models.py\<close>, \<open>market/validation.py\<close>).
  \<^item> \<open>Ledger\<close> (\<open>execution/ledger.py\<close>): orders, lifecycle, fills applied once. \<open>Portfolio\<close>
    (\<open>portfolio.py\<close>): cash, positions, marks, profit. \<open>Durable\<close> (\<open>_fs.py\<close>,
    \<open>execution/ledger_store.py\<close>, \<open>checkpoint.py\<close>, \<open>health.py\<close>): files on a disk that a crash can
    tear, and the health record.
  \<^item> \<open>Candles\<close>, \<open>Indicators\<close>, \<open>Garch\<close>, \<open>Strategies\<close>, \<open>Backtest\<close> (\<open>backtest.py\<close>,
    \<open>research/costs.py\<close>), \<open>Walkforward\<close>, \<open>Pretrade\<close>: the signal path, by module of the same name.
    \<open>Intelligence\<close> (\<open>intelligence.py\<close>, \<open>intelligence_orchestrator.py\<close>).
  \<^item> \<open>Kill_Switch\<close>, \<open>Circuit_Breaker\<close>, \<open>Exits\<close>, \<open>Risk\<close>: the controls, by module. \<open>Pipeline\<close>
    (\<open>market_features.py\<close>, \<open>pipeline.py\<close>) composes them. \<open>Specialists\<close> and \<open>Meta_Review\<close>
    (\<open>agents/specialists.py\<close>, \<open>agents/meta.py\<close>, \<open>agents/review.py\<close>).
  \<^item> \<open>Planner\<close>, \<open>Submitter\<close> (\<open>execution/hummingbot.py\<close>, \<open>execution/submitter.py\<close>), \<open>Paper_Fill\<close>,
    \<open>Paper_Perp\<close>, \<open>Shadow\<close>, \<open>Reconcile\<close> (\<open>execution/reconcile.py\<close>, \<open>reconciliation.py\<close>),
    \<open>Risk_Audit\<close> (\<open>risk_audit.py\<close>, \<open>audit_anchor.py\<close>): execution and evidence.
  \<^item> \<open>Runtime\<close>, \<open>Service\<close>, \<open>Service_Safety\<close>, \<open>Funnel\<close> (\<open>opportunity_funnel.py\<close>): one cycle, the
    service around it, what the service promises, and the counts of its outcomes.
  \<^item> \<open>Feeds\<close> (\<open>market/streaming.py\<close>, \<open>market/adapters.py\<close>, \<open>market/kraken_rest.py\<close>,
    \<open>market/kraken_candles.py\<close>, \<open>market/symbols.py\<close>): what the venue and the price services answer, read
    into the ticks, books, candles and reference prices of a cycle.
  \<^item> \<open>Registry\<close> (\<open>market/registry.py\<close>): timeout, breaker, budgets and caches around every provider
    call, with overlapping calls; its locale \<open>expiring_store\<close> is interpreted by both caches.
    \<open>Log_Scrub\<close> (\<open>logging_config.py\<close>): redaction of credentials.
  \<^item> \<open>Universe\<close> (\<open>research/universe.py\<close>), \<open>Xs_Topk\<close> and \<open>Xs_Prints\<close> (\<open>research/xs_topk.py\<close>): the monthly
    research universe, the top-k momentum study on it (weekly weights, basket simulator) and its
    scoring (era cells, prints, dual-print bar, paper voter). \<open>Py_Values\<close>: dates and truth values.
  \<^item> \<open>Regex\<close> (what the patterns use of Python's \<open>re\<close>), \<open>Weather_Parse\<close> (\<open>polymarket/cities.py\<close>,
    \<open>polymarket/parse.py\<close>) and \<open>Weather\<close> (\<open>polymarket/edge.py\<close>, \<open>polymarket/ledger.py\<close>,
    \<open>polymarket/service.py\<close>): the weather paper cycle, from untrusted payloads to its ledger.

  A Python object is a record, an enumeration a datatype, a method a function from the record to the
  record and a result; an exception is the left of a sum or \<open>None\<close>; a dict is an association list.
  What is not the program's own (HTTP clients, the model, digests, JSON codecs, clocks, rendering of
  texts) is an argument. The parts of one service step share the ledger, the book and the kill
  switch, as \<open>cli.py\<close> wires them.

  \<^bold>\<open>What is shown.\<close> Components: invariants of ledger, book, breaker, budget and audit file under every
  operation; the accounting identities of fills, cash and profit; at-most-once application of
  fills, paper fills, hedges, shadow records and venue submissions; the risk engine's verdict and
  its post-trade limits; exits that pass every gate on entries, when the features of the cycle can be
  built, and never oversell; no look-ahead in backtest and volatility forecast, and a backtest that
  reports or raises exactly when its annualised growth leaves the floats; termination of the walk-forward loop and bounded
  submission retries; round trips of the persisted states and crash safety of their files; the audit
  chain's detection of any rewriting. Composition: an order of the pipeline is licensed by accepted data and
  an unblocked risk ruling; the review only withholds; a cycle of the service touches the venue only
  when armed and licensed, touches nothing when blocked or switched off, audits its ruling, and the
  loop ends at its error limit. Around the cycle: the venue feed gives up only after its losses in a
  row, a published order book is the top of what the messages said, fetched candles are the venue's
  committed ones; a provider's budgets and breaker hold under any interleaving of its calls, and logs and health reports do not depend on credentials. The
  weather cycle trades only what its switch and its checks license and reports add up. The research
  study has no look-ahead from the listing of histories to the equity path, its rebalances conserve
  value, and a ranked passer has earned every covered cell. Some theorems and lemmas show what the
  code does not do as documented; they are the findings of the manifest.

  \<^bold>\<open>Bounds and loops.\<close> \<open>while\<close> loops over data are structural recursion or have a measure. The
  walk-forward \<open>while True\<close> loop is a \<open>partial_function\<close>, and it is proved to return for every
  evaluator; the submitter's retry loop is bounded by its attempt limit, which is its measure. No
  fuel is used.

  \<^bold>\<open>Idealisations.\<close> Floats are exact reals, without rounding or NaN except in the venue numbers, where
  the code tests for them; datetimes are integer microseconds in UTC; texts are ASCII. Concurrent
  fetches are answered in sequence, cancellation is not modelled except in the review. Reason texts
  that are rendered from values are kept as the values.

  \<^bold>\<open>Not modelled.\<close> Logging, metrics and tracing, which only observe; SQL, Redis and file sinks;
  argument parsing and wiring (\<open>cli.py\<close>, \<open>cli_check.py\<close>); sockets and HTTP clients, and the
  adapters of the opt-in feeds (the rest of \<open>market/\<close>, \<open>execution/robinhood_chain.py\<close>,
  \<open>execution/paper_perp_feed.py\<close>), whose validated values are inputs; the order-book snapshot and the candle sink of a cycle, which nothing reads. The other offline
  searches of \<open>research/\<close> (one catalog and report for each file, over the modelled backtester and cost
  models or over basket loops of their own), the other Polymarket tools (tapes, crypto wedge, wallet
  cohorts, evaluations) and the acceptance drills are outside the trading path and are not covered.
\<close>

section \<open>Submission against the real resolver\<close>

text \<open>
  The reconciler as the submitter's resolver (\<open>service.py\<close> wires \<open>HummingbotExecutionReconciler\<close>
  into \<open>IdempotentSubmitter\<close>): \<open>fetch\<close> is the body of the order search at that point of the
  history, \<open>None\<close> when the request failed.
\<close>

definition venue_resolver ::
    "(sub_event list \<Rightarrow> json option) \<Rightarrow> sub_event list \<Rightarrow> execution_ledger \<Rightarrow> venue_query \<Rightarrow> resolver_answer" where
  "venue_resolver fetch t L q =
     (case fetch t of
        None \<Rightarrow> ResolverRaised ''HTTPError''
      | Some body \<Rightarrow>
          (case venue_knows_order L q body of
             Inl e \<Rightarrow> ResolverRaised ''ValueError''
           | Inr known \<Rightarrow> if known then VenueKnows else VenueUnknown))"

lemma listed_not_unknown:
  assumes "\<And>body rs. fetch t = Some body \<Longrightarrow> rows body = Inr rs \<Longrightarrow> list_ex (carries_id (vq_client_order_id q)) rs"
  shows "venue_resolver fetch t L q \<noteq> VenueUnknown"
proof
  assume "venue_resolver fetch t L q = VenueUnknown"
  then obtain body where b: "fetch t = Some body" "venue_knows_order L q body = Inr False"
    by (auto simp: venue_resolver_def split: option.splits sum.splits if_splits)
  then obtain rs where "rows body = Inr rs" "list_all (\<lambda>r. \<not> carries_id (vq_client_order_id q) r) rs"
    by (auto simp: venue_knows_order_def any_row_matches_False list_all_iff split: sum.splits)
  with assms [OF b(1)] show False by (auto simp: list_all_iff list_ex_iff)
qed

text \<open>
  C17: an order the venue lists is never submitted twice. When every order listing that can be read
  carries the client order id of the submission, one call of \<open>submit\<close> makes at most one venue call
  for a new decision and none for a decision that already has an order, however often the venue
  times out or the listing cannot be fetched.
\<close>

theorem listed_order_not_resubmitted:
  assumes "ledger_wf (w_ledger w)" and "env_resolver V = venue_resolver fetch"
    and "submit h10 h16 S V i price ref max_quantity w = Inr (w', out)"
    and "\<And>t body rs. fetch t = Some body \<Longrightarrow> rows body = Inr rs \<Longrightarrow>
      list_ex (carries_id (submission_cid h10 S (in_decision_id i) (w_ledger w))) rs"
  shows "\<exists>evs. w_trace w' = w_trace w @ evs
    \<and> venue_calls evs \<le> (if has_order_for_decision (in_decision_id i) (w_ledger w) then 0 else 1)"
  using assms(3) ledger_wf_keyed [OF assms(1)]
proof (cases rule: submit_cases)
  case (ran evs z)
  have "VenueQuery q VenueUnknown \<notin> set evs" for q
  proof
    assume "VenueQuery q VenueUnknown \<in> set evs"
    with ran(1) have "answer_of V (client_id_of z) (VenueQuery q VenueUnknown)"
      by (auto simp: submit_run_def list_all_iff)
    then obtain t L where "vq_client_order_id q = client_id_of z" "venue_resolver fetch t L q = VenueUnknown"
      using assms(2) by (metis answer_of.simps(1))
    with listed_not_unknown [of fetch t q L] assms(4) ran(2) show False by auto
  qed
  with ran(1) gated_without_unknown show ?thesis by (fastforce simp: submit_run_def)
qed auto

definition ex_listing :: "sub_event list \<Rightarrow> json option" where
  "ex_listing t = Some (JList [JObj [(''order_id'', JStr ''ts-d1'')]])"

theorem listed_order_not_resubmitted_witness:
  "\<exists>w' out. submit (\<lambda>d. d) (\<lambda>d. d) ex_submitter (ex_env\<lparr>env_resolver := venue_resolver ex_listing\<rparr>) (ex_intent BUY) 100 100
       None \<lparr>w_ledger = empty_ledger, w_trace = []\<rparr> = Inr (w', out)
     \<and> venue_calls (w_trace w') \<le> 1"
proof -
  let ?w = "\<lparr>w_ledger = empty_ledger, w_trace = []\<rparr> :: sub_world"
  let ?V = "ex_env\<lparr>env_resolver := venue_resolver ex_listing\<rparr>"
  from ex_submit_any [of ?V] obtain w' out where
    r: "submit (\<lambda>d. d) (\<lambda>d. d) ex_submitter ?V (ex_intent BUY) 100 100 None ?w = Inr (w', out)"
    by (auto simp: ex_env_def)
  have wf: "ledger_wf (w_ledger ?w)" by (simp add: empty_ledger_wf)
  have res: "env_resolver ?V = venue_resolver ex_listing" by simp
  have cid: "submission_cid (\<lambda>d. d) ex_submitter (in_decision_id (ex_intent BUY)) (w_ledger ?w) = ''ts-d1''"
    by (simp add: submission_cid_def resumable_order_def orders_for_decision_def empty_ledger_def
        client_order_id_for_def ex_intent_def ex_submitter_def ex_planner_def)
  have listed: "list_ex (carries_id (submission_cid (\<lambda>d. d) ex_submitter (in_decision_id (ex_intent BUY)) (w_ledger ?w))) rs"
    if "ex_listing t = Some body" "rows body = Inr rs" for t body rs
    using that unfolding cid by (auto simp: ex_listing_def rows_def carries_id_def client_order_id_keys_def)
  from listed_order_not_resubmitted [OF wf res r listed] r show ?thesis
    by (auto simp: has_order_for_decision_def empty_ledger_def)
qed

end
